(* ===== verification/Go_Strings.thy ===== *)
theory Go_Strings
  imports Prelude
begin

section \<open>Go's strings, strconv and fmt functions\<close>

text \<open>
  The functions of the packages \<open>strings\<close>, \<open>strconv\<close> and \<open>fmt\<close> that the sources call, on
  byte strings (\<open>string = char list\<close>). Case mapping and white space follow the ASCII part
  of Go's tables; bytes above 127 are left alone.
\<close>

subsection \<open>Characters\<close>

definition char_code :: "char \<Rightarrow> nat" where
  "char_code c = of_char c"

definition is_digit :: "char \<Rightarrow> bool" where
  "is_digit c \<longleftrightarrow> 48 \<le> char_code c \<and> char_code c \<le> 57"

definition is_upper :: "char \<Rightarrow> bool" where
  "is_upper c \<longleftrightarrow> 65 \<le> char_code c \<and> char_code c \<le> 90"

definition is_lower :: "char \<Rightarrow> bool" where
  "is_lower c \<longleftrightarrow> 97 \<le> char_code c \<and> char_code c \<le> 122"

definition is_alnum :: "char \<Rightarrow> bool" where
  "is_alnum c \<longleftrightarrow> is_digit c \<or> is_upper c \<or> is_lower c"

text \<open>The ASCII characters for which \<open>unicode.IsSpace\<close> holds: tab, newline, vertical tab,
  form feed, carriage return and space.\<close>

definition is_space :: "char \<Rightarrow> bool" where
  "is_space c \<longleftrightarrow> (9 \<le> char_code c \<and> char_code c \<le> 13) \<or> char_code c = 32"

definition lower_char :: "char \<Rightarrow> char" where
  "lower_char c = (if is_upper c then char_of (char_code c + 32) else c)"

lemma char_code_bound: "char_code c < 256"
  by (simp add: char_code_def)

lemma char_of_code [simp]: "char_of (char_code c) = c"
  by (simp add: char_code_def)

lemma char_code_inject: "char_code a = char_code b \<longleftrightarrow> a = b"
  by (simp add: char_code_def)

lemma lower_char_not_upper: "\<not> is_upper (lower_char c)"
  by (auto simp: lower_char_def is_upper_def char_code_def)

lemma lower_char_idem [simp]: "lower_char (lower_char c) = lower_char c"
  using lower_char_not_upper by (simp add: lower_char_def)

lemma lower_char_digit: "is_digit c \<Longrightarrow> lower_char c = c"
  by (simp add: lower_char_def is_digit_def is_upper_def)

lemma lower_char_space: "is_space (lower_char c) = is_space c"
  by (auto simp: lower_char_def is_upper_def is_space_def char_code_def)

subsection \<open>Package strings\<close>

definition ToLower :: "string \<Rightarrow> string" where
  "ToLower s = map lower_char s"

definition EqualFold :: "string \<Rightarrow> string \<Rightarrow> bool" where
  "EqualFold s t \<longleftrightarrow> ToLower s = ToLower t"

definition TrimLeftSpace :: "string \<Rightarrow> string" where
  "TrimLeftSpace s = dropWhile is_space s"

definition TrimSpace :: "string \<Rightarrow> string" where
  "TrimSpace s = rev (dropWhile is_space (rev (dropWhile is_space s)))"

definition HasPrefix :: "string \<Rightarrow> string \<Rightarrow> bool" where
  "HasPrefix s p \<longleftrightarrow> prefix p s"

definition HasSuffix :: "string \<Rightarrow> string \<Rightarrow> bool" where
  "HasSuffix s p \<longleftrightarrow> suffix p s"

definition TrimPrefix :: "string \<Rightarrow> string \<Rightarrow> string" where
  "TrimPrefix s p = (if prefix p s then drop (length p) s else s)"

definition TrimSuffix :: "string \<Rightarrow> string \<Rightarrow> string" where
  "TrimSuffix s p = (if suffix p s then take (length s - length p) s else s)"

fun Contains :: "string \<Rightarrow> string \<Rightarrow> bool" where
  "Contains [] sub = (sub = [])"
| "Contains (c # s) sub = (prefix sub (c # s) \<or> Contains s sub)"

text \<open>\<open>strings.ReplaceAll\<close>: non-overlapping occurrences from the left. An empty \<open>old\<close> matches
  at the beginning and after each character.\<close>

function ReplaceAll :: "string \<Rightarrow> string \<Rightarrow> string \<Rightarrow> string" where
  "ReplaceAll s old new =
     (if old = [] then new @ concat (map (\<lambda>c. c # new) s)
      else if prefix old s then new @ ReplaceAll (drop (length old) s) old new
      else (case s of [] \<Rightarrow> [] | c # cs \<Rightarrow> c # ReplaceAll cs old new))"
  by pat_completeness auto
termination
proof (relation "measure (\<lambda>(s, old, new). length s)", goal_cases)
  case (2 s old new)
  then have "length old \<le> length s" "0 < length old" by (auto dest: prefix_length_le)
  then have "length s - length old < length s" by linarith
  then show ?case by simp
qed auto

declare ReplaceAll.simps [simp del]

fun Join :: "string list \<Rightarrow> string \<Rightarrow> string" where
  "Join [] sep = []"
| "Join [x] sep = x"
| "Join (x # y # ys) sep = x @ sep @ Join (y # ys) sep"

text \<open>\<open>strings.SplitN s sep 2\<close> for a one-character separator.\<close>

definition SplitN2 :: "string \<Rightarrow> char \<Rightarrow> string list" where
  "SplitN2 s sep =
     (if sep \<in> set s
      then [takeWhile (\<lambda>c. c \<noteq> sep) s, tl (dropWhile (\<lambda>c. c \<noteq> sep) s)]
      else [s])"

lemma Contains_sublist: "Contains s sub \<longleftrightarrow> sublist sub s"
  by (induction s) (auto simp: sublist_Cons_right)

lemma ToLower_append [simp]: "ToLower (s @ t) = ToLower s @ ToLower t"
  by (simp add: ToLower_def)

lemma ToLower_idem [simp]: "ToLower (ToLower s) = ToLower s"
  by (simp add: ToLower_def)

lemma length_ToLower [simp]: "length (ToLower s) = length s"
  by (simp add: ToLower_def)

lemma ToLower_Nil_iff [simp]: "ToLower s = [] \<longleftrightarrow> s = []"
  by (simp add: ToLower_def)

lemma EqualFold_refl [simp]: "EqualFold s s"
  by (simp add: EqualFold_def)

subsubsection \<open>White space\<close>

lemma TrimSpace_Nil [simp]: "TrimSpace [] = []"
  by (simp add: TrimSpace_def)

text \<open>A string is trimmed when it neither begins nor ends with white space.\<close>

definition trimmed :: "string \<Rightarrow> bool" where
  "trimmed s \<longleftrightarrow> s = [] \<or> (\<not> is_space (hd s) \<and> \<not> is_space (last s))"

lemma dropWhile_hd: "dropWhile P xs \<noteq> [] \<Longrightarrow> \<not> P (hd (dropWhile P xs))"
  by (rule hd_dropWhile)

lemma last_dropWhile: "dropWhile P xs \<noteq> [] \<Longrightarrow> last (dropWhile P xs) = last xs"
  by (induction xs) (auto split: if_splits)

lemma TrimSpace_trimmed: "trimmed (TrimSpace s)"
proof (cases "TrimSpace s = []")
  case False
  let ?d = "dropWhile is_space s"
  let ?r = "dropWhile is_space (rev ?d)"
  from False have r: "?r \<noteq> []" by (simp add: TrimSpace_def)
  have d: "?d \<noteq> []"
  proof
    assume "?d = []"
    with r show False by simp
  qed
  have "last (TrimSpace s) = hd ?r" by (simp add: TrimSpace_def last_rev)
  then have 1: "\<not> is_space (last (TrimSpace s))" using hd_dropWhile [OF r] by simp
  have "hd (TrimSpace s) = last ?r" using r by (simp add: TrimSpace_def hd_rev)
  also have "\<dots> = hd ?d" using r d by (simp add: last_dropWhile last_rev)
  finally have 2: "\<not> is_space (hd (TrimSpace s))" using hd_dropWhile [OF d] by simp
  from 1 2 show ?thesis by (simp add: trimmed_def)
qed (simp add: trimmed_def)

lemma TrimSpace_id: "trimmed s \<Longrightarrow> TrimSpace s = s"
proof (cases "s = []")
  case False
  assume "trimmed s"
  with False have h: "\<not> is_space (hd s)" "\<not> is_space (last s)" by (simp_all add: trimmed_def)
  from h(1) False have "dropWhile is_space s = s" by (cases s) auto
  moreover from h(2) False have "dropWhile is_space (rev s) = rev s"
    by (cases s rule: rev_cases) auto
  ultimately show ?thesis by (simp add: TrimSpace_def)
qed simp

lemma TrimSpace_idem [simp]: "TrimSpace (TrimSpace s) = TrimSpace s"
  by (simp add: TrimSpace_id TrimSpace_trimmed)

lemma TrimSpace_subset: "set (TrimSpace s) \<subseteq> set s"
  unfolding TrimSpace_def by (auto dest!: set_dropWhileD)

subsubsection \<open>Replacing\<close>

lemma ReplaceAll_Nil [simp]: "old \<noteq> [] \<Longrightarrow> ReplaceAll [] old new = []"
  by (subst ReplaceAll.simps) simp

lemma ReplaceAll_hit: "old \<noteq> [] \<Longrightarrow> ReplaceAll (old @ s) old new = new @ ReplaceAll s old new"
  by (subst ReplaceAll.simps) simp

lemma ReplaceAll_miss:
  "old \<noteq> [] \<Longrightarrow> \<not> prefix old (c # s) \<Longrightarrow> ReplaceAll (c # s) old new = c # ReplaceAll s old new"
  by (subst ReplaceAll.simps) simp

text \<open>Replacing one character by a string is a concatenated map.\<close>

lemma ReplaceAll_single:
  "ReplaceAll s [a] new = concat (map (\<lambda>c. if c = a then new else [c]) s)"
proof (induction s)
  case (Cons c s)
  show ?case
  proof (cases "c = a")
    case True
    then show ?thesis using ReplaceAll_hit [of "[a]" s new] Cons.IH by simp
  next
    case False
    then show ?thesis using ReplaceAll_miss [of "[a]" c s new] Cons.IH by simp
  qed
qed simp

lemma ReplaceAll_absent:
  assumes "old \<noteq> []" and "\<not> Contains s old"
  shows "ReplaceAll s old new = s"
  using assms(2)
proof (induction s)
  case Nil
  with assms(1) show ?case by simp
next
  case (Cons c s)
  with assms(1) show ?case by (simp add: ReplaceAll_miss)
qed

subsection \<open>Package strconv\<close>

datatype atoi_error = ErrSyntax | ErrRange int

definition digit_val :: "char \<Rightarrow> nat" where
  "digit_val c = char_code c - 48"

definition digits_val :: "string \<Rightarrow> nat" where
  "digits_val s = foldl (\<lambda>a c. a * 10 + digit_val c) 0 s"

text \<open>\<open>strconv.Atoi\<close>: an optional sign and at least one decimal digit; out of the range of a
  64-bit \<open>int\<close> it is a range error that carries the nearest bound.\<close>

definition Atoi :: "string \<Rightarrow> (atoi_error, int) result" where
  "Atoi s =
     (let neg = (case s of c # _ \<Rightarrow> c = CHR ''-'' | [] \<Rightarrow> False);
          ds = (case s of c # cs \<Rightarrow> if c = CHR ''-'' \<or> c = CHR ''+'' then cs else s | [] \<Rightarrow> s)
      in if ds = [] \<or> \<not> list_all is_digit ds then Inl ErrSyntax
         else let v = (if neg then - int (digits_val ds) else int (digits_val ds))
              in if v < - (2 ^ 63) then Inl (ErrRange (- (2 ^ 63)))
                 else if 2 ^ 63 \<le> v then Inl (ErrRange (2 ^ 63 - 1))
                 else Inr v)"

text \<open>The value half of \<open>strconv.Atoi\<close>'s pair, for callers that drop the error.\<close>

definition Atoi_value :: "string \<Rightarrow> int" where
  "Atoi_value s = (case Atoi s of Inl ErrSyntax \<Rightarrow> 0 | Inl (ErrRange b) \<Rightarrow> b | Inr v \<Rightarrow> v)"

lemma digits_val_Nil [simp]: "digits_val [] = 0"
  by (simp add: digits_val_def)

lemma digits_val_snoc [simp]: "digits_val (s @ [c]) = digits_val s * 10 + digit_val c"
  by (simp add: digits_val_def)

lemma digits_val_bound: "list_all is_digit s \<Longrightarrow> digits_val s < 10 ^ length s"
proof (induction s rule: rev_induct)
  case (snoc c s)
  then have "digits_val s < 10 ^ length s" and "digit_val c \<le> 9"
    by (auto simp: is_digit_def digit_val_def)
  then show ?case by simp
qed simp

lemma Atoi_digits:
  assumes "ds \<noteq> []" "list_all is_digit ds" "length ds \<le> 18"
  shows "Atoi ds = Inr (int (digits_val ds))"
proof -
  from assms(1) obtain c cs where ds: "ds = c # cs" by (cases ds) auto
  with assms(2) have sign: "c \<noteq> CHR ''-''" "c \<noteq> CHR ''+''"
    by (auto simp: is_digit_def char_code_def)
  have "digits_val ds < 10 ^ length ds" using assms(2) by (rule digits_val_bound)
  also have "(10::nat) ^ length ds \<le> 10 ^ 18" using assms(3) by (rule power_increasing) simp
  finally have "int (digits_val ds) < 10 ^ 18" by simp
  then show ?thesis using assms(2) sign by (simp add: Atoi_def ds Let_def)
qed

subsection \<open>Package fmt: the verbs \<open>%d\<close> and \<open>%02d\<close>\<close>

definition digit_char :: "nat \<Rightarrow> char" where
  "digit_char d = char_of (48 + d)"

fun show_nat :: "nat \<Rightarrow> string" where
  "show_nat n = (if n < 10 then [digit_char n] else show_nat (n div 10) @ [digit_char (n mod 10)])"

declare show_nat.simps [simp del]

definition show_int :: "int \<Rightarrow> string" where
  "show_int i = (if i < 0 then CHR ''-'' # show_nat (nat (- i)) else show_nat (nat i))"

definition pad2 :: "int \<Rightarrow> string" where
  "pad2 i = (if 0 \<le> i \<and> i < 10 then CHR ''0'' # show_nat (nat i) else show_int i)"

lemma digit_char_code: "d < 10 \<Longrightarrow> char_code (digit_char d) = 48 + d"
  by (simp add: char_code_def digit_char_def)

lemma digit_char_digit [simp]: "d < 10 \<Longrightarrow> is_digit (digit_char d)"
  by (simp add: is_digit_def digit_char_code)

lemma digit_val_char [simp]: "d < 10 \<Longrightarrow> digit_val (digit_char d) = d"
  by (simp add: digit_val_def digit_char_code)

lemma show_nat_digits: "list_all is_digit (show_nat n)"
proof (induction n rule: show_nat.induct)
  case (1 n)
  then show ?case by (cases "n < 10") (simp_all add: show_nat.simps [of n])
qed

lemma show_nat_nonempty [simp]: "show_nat n \<noteq> []"
  by (simp add: show_nat.simps [of n])

lemma digits_val_show_nat: "digits_val (show_nat n) = n"
proof (induction n rule: show_nat.induct)
  case (1 n)
  show ?case
  proof (cases "n < 10")
    case True
    then show ?thesis by (simp add: show_nat.simps [of n] digits_val_def)
  next
    case False
    with "1" have "digits_val (show_nat (n div 10)) = n div 10" by simp
    with False show ?thesis by (simp add: show_nat.simps [of n])
  qed
qed

text \<open>\<open>%02d\<close> of a number below a hundred is exactly two digits that read back as the number.\<close>

lemma pad2_two_digits:
  assumes "0 \<le> i" "i < 100"
  shows "\<exists>a b. pad2 i = [a, b] \<and> is_digit a \<and> is_digit b \<and>
           int (digits_val [a, b]) = i"
proof (cases "i < 10")
  case True
  then have "pad2 i = [CHR ''0'', digit_char (nat i)]"
    using assms by (simp add: pad2_def show_nat.simps [of "nat i"])
  moreover have "is_digit CHR ''0''" "digit_val CHR ''0'' = 0"
    by (simp_all add: is_digit_def digit_val_def char_code_def)
  ultimately show ?thesis using True assms by (simp add: digits_val_def)
next
  case False
  let ?n = "nat i"
  have n: "?n < 100" "\<not> ?n < 10" using assms False by auto
  then have "?n div 10 < 10" by simp
  then have "pad2 i = [digit_char (?n div 10), digit_char (?n mod 10)]"
    using False assms n
    by (simp add: pad2_def show_int_def show_nat.simps [of ?n] show_nat.simps [of "?n div 10"])
  moreover have "int (?n div 10 * 10 + ?n mod 10) = i" using assms by simp
  ultimately show ?thesis using \<open>?n div 10 < 10\<close>
    by (intro exI [of _ "digit_char (?n div 10)"] exI [of _ "digit_char (?n mod 10)"])
      (simp add: digits_val_def)
qed

lemmas go_string_defs = ToLower_def EqualFold_def TrimSpace_def HasPrefix_def HasSuffix_def
  TrimPrefix_def TrimSuffix_def lower_char_def is_upper_def is_space_def is_digit_def
  is_lower_def is_alnum_def char_code_def

end
