(* ===== verification/Go_Regexp.thy ===== *)
theory Go_Regexp
  imports Go_Strings
begin

section \<open>Go's regular expressions\<close>

text \<open>
  The part of package \<open>regexp\<close> the parser uses: a syntax tree for compiled patterns, a
  matcher that lists the ways a pattern can match from a position in the order of
  preference of Go's leftmost-first rule (the first alternative, a greedy or a lazy
  repetition), and the unanchored searches \<open>MatchString\<close> and \<open>FindStringSubmatch\<close>. The
  matcher is proved equal, as a set, to an inductive definition of matching.
\<close>

datatype rx =
    Eps
  | Cls "char \<Rightarrow> bool"
  | Sq rx rx
  | Alt rx rx
  | Rep bool rx
  | Cap nat rx
  | Bol
  | Eol
  | WordB

text \<open>A position in the text: the character before it, the text after it, and the
  submatches recorded on the way. \<open>Rep\<close>'s flag is \<open>True\<close> for a greedy repetition.\<close>

record mstate =
  m_prev :: "char option"
  m_rest :: string
  m_caps :: "nat \<Rightarrow> string option"

definition start_state :: "char option \<Rightarrow> string \<Rightarrow> mstate" where
  "start_state p s = \<lparr>m_prev = p, m_rest = s, m_caps = Map.empty\<rparr>"

definition is_word :: "char \<Rightarrow> bool" where
  "is_word c \<longleftrightarrow> is_alnum c \<or> c = CHR ''_''"

definition at_word_boundary :: "mstate \<Rightarrow> bool" where
  "at_word_boundary st \<longleftrightarrow>
     (case m_prev st of None \<Rightarrow> False | Some c \<Rightarrow> is_word c) \<noteq>
     (case m_rest st of [] \<Rightarrow> False | c # _ \<Rightarrow> is_word c)"

definition consumed :: "mstate \<Rightarrow> mstate \<Rightarrow> string" where
  "consumed s t = take (length (m_rest s) - length (m_rest t)) (m_rest s)"

definition set_cap :: "nat \<Rightarrow> mstate \<Rightarrow> mstate \<Rightarrow> mstate" where
  "set_cap n s t = t\<lparr>m_caps := (m_caps t)(n \<mapsto> consumed s t)\<rparr>"

definition advanced :: "mstate \<Rightarrow> mstate \<Rightarrow> bool" where
  "advanced s t \<longleftrightarrow> length (m_rest t) < length (m_rest s)"

text \<open>Repetition of a step, at most \<open>n\<close> times; every iteration consumes input, so the length
  of the rest of the text is enough (\<open>run_matches\<close> below).\<close>

fun iter_rep :: "bool \<Rightarrow> (mstate \<Rightarrow> mstate list) \<Rightarrow> nat \<Rightarrow> mstate \<Rightarrow> mstate list" where
  "iter_rep greedy f 0 s = [s]"
| "iter_rep greedy f (Suc n) s =
     (let more = concat (map (iter_rep greedy f n) (filter (advanced s) (f s)))
      in if greedy then more @ [s] else s # more)"

primrec run :: "rx \<Rightarrow> mstate \<Rightarrow> mstate list" where
  "run Eps s = [s]"
| "run (Cls p) s = (case m_rest s of [] \<Rightarrow> []
     | c # cs \<Rightarrow> if p c then [s\<lparr>m_prev := Some c, m_rest := cs\<rparr>] else [])"
| "run (Sq a b) s = concat (map (run b) (run a s))"
| "run (Alt a b) s = run a s @ run b s"
| "run (Rep g r) s = iter_rep g (run r) (length (m_rest s)) s"
| "run (Cap n r) s = map (set_cap n s) (run r s)"
| "run Bol s = (if m_prev s = None then [s] else [])"
| "run Eol s = (if m_rest s = [] then [s] else [])"
| "run WordB s = (if at_word_boundary s then [s] else [])"

text \<open>The leftmost match: every start position in turn, the preferred match at the first one
  that has any.\<close>

fun search :: "rx \<Rightarrow> char option \<Rightarrow> string \<Rightarrow> mstate option" where
  "search r p s =
     (case run r (start_state p s) of
        t # _ \<Rightarrow> Some t
      | [] \<Rightarrow> (case s of [] \<Rightarrow> None | c # cs \<Rightarrow> search r (Some c) cs))"

declare search.simps [simp del]

definition MatchString :: "rx \<Rightarrow> string \<Rightarrow> bool" where
  "MatchString r s \<longleftrightarrow> search r None s \<noteq> None"

definition FindStringSubmatch :: "rx \<Rightarrow> string \<Rightarrow> (nat \<Rightarrow> string option) option" where
  "FindStringSubmatch r s = map_option m_caps (search r None s)"

text \<open>A group that took no part in the match is the empty string in Go's slice.\<close>

definition group :: "(nat \<Rightarrow> string option) \<Rightarrow> nat \<Rightarrow> string" where
  "group m n = (case m n of None \<Rightarrow> [] | Some s \<Rightarrow> s)"

subsection \<open>Derived forms\<close>

definition Opt :: "rx \<Rightarrow> rx" where
  "Opt r = Alt r Eps"

definition Plus :: "bool \<Rightarrow> rx \<Rightarrow> rx" where
  "Plus g r = Sq r (Rep g r)"

fun Times :: "nat \<Rightarrow> rx \<Rightarrow> rx" where
  "Times 0 r = Eps"
| "Times (Suc n) r = Sq r (Times n r)"

text \<open>\<open>r{m,m+k}\<close>, greedy: \<open>m\<close> copies and then nested optional copies, as the Go
  compiler expands it.\<close>

fun UpTo :: "nat \<Rightarrow> rx \<Rightarrow> rx" where
  "UpTo 0 r = Eps"
| "UpTo (Suc k) r = Opt (Sq r (UpTo k r))"

definition Between :: "nat \<Rightarrow> nat \<Rightarrow> rx \<Rightarrow> rx" where
  "Between m k r = Sq (Times m r) (UpTo k r)"

fun Seqs :: "rx list \<Rightarrow> rx" where
  "Seqs [] = Eps"
| "Seqs [r] = r"
| "Seqs (r # q # rs) = Sq r (Seqs (q # rs))"

fun Alts :: "rx list \<Rightarrow> rx" where
  "Alts [] = Cls (\<lambda>_. False)"
| "Alts [r] = r"
| "Alts (r # q # rs) = Alt r (Alts (q # rs))"

text \<open>Under the flag \<open>(?i)\<close> a literal character matches both cases.\<close>

definition LitI :: "char \<Rightarrow> rx" where
  "LitI c = Cls (\<lambda>x. lower_char x = lower_char c)"

definition StrI :: "string \<Rightarrow> rx" where
  "StrI s = Seqs (map LitI s)"

definition Digit :: rx where "Digit = Cls is_digit"

definition AnyC :: rx where "AnyC = Cls (\<lambda>c. c \<noteq> CHR ''\<newline>'')"

text \<open>The class \<open>\s\<close>: tab, newline, form feed, carriage return and space (no vertical tab).\<close>

definition re_space :: "char \<Rightarrow> bool" where
  "re_space c \<longleftrightarrow> char_code c \<in> {9, 10, 12, 13, 32}"

definition Space :: rx where "Space = Cls re_space"

subsection \<open>A declarative definition of matching\<close>

inductive matches :: "rx \<Rightarrow> mstate \<Rightarrow> mstate \<Rightarrow> bool" where
  eps: "matches Eps s s"
| cls: "m_rest s = c # cs \<Longrightarrow> p c \<Longrightarrow> matches (Cls p) s (s\<lparr>m_prev := Some c, m_rest := cs\<rparr>)"
| sq: "matches a s t \<Longrightarrow> matches b t u \<Longrightarrow> matches (Sq a b) s u"
| alt1: "matches a s t \<Longrightarrow> matches (Alt a b) s t"
| alt2: "matches b s t \<Longrightarrow> matches (Alt a b) s t"
| rep0: "matches (Rep g r) s s"
| rep1: "matches r s t \<Longrightarrow> advanced s t \<Longrightarrow> matches (Rep g r) t u \<Longrightarrow> matches (Rep g r) s u"
| cap: "matches r s t \<Longrightarrow> matches (Cap n r) s (set_cap n s t)"
| bol: "m_prev s = None \<Longrightarrow> matches Bol s s"
| eol: "m_rest s = [] \<Longrightarrow> matches Eol s s"
| wordb: "at_word_boundary s \<Longrightarrow> matches WordB s s"

inductive_cases matches_EpsE: "matches Eps s t"
inductive_cases matches_ClsE: "matches (Cls p) s t"
inductive_cases matches_SqE: "matches (Sq a b) s t"
inductive_cases matches_AltE: "matches (Alt a b) s t"
inductive_cases matches_CapE: "matches (Cap n r) s t"
inductive_simps matches_anchor: "matches Bol s t" "matches Eol s t" "matches WordB s t"

lemmas matches_elims = matches_EpsE matches_ClsE matches_SqE matches_AltE matches_CapE

text \<open>Matching leaves a suffix of the text.\<close>

lemma matches_suffix: "matches r s t \<Longrightarrow> suffix (m_rest t) (m_rest s)"
  by (induction rule: matches.induct)
    (auto simp: set_cap_def suffix_Cons intro: suffix_order.trans)

lemma iter_rep_sound:
  assumes "\<And>s t. t \<in> set (f s) \<Longrightarrow> matches r s t"
  shows "u \<in> set (iter_rep g f n s) \<Longrightarrow> matches (Rep g r) s u"
proof (induction n arbitrary: s)
  case 0
  then show ?case by (auto intro: matches.intros)
next
  case (Suc n)
  then consider "u = s" | t where "t \<in> set (f s)" "advanced s t" "u \<in> set (iter_rep g f n t)"
    by (auto simp: Let_def split: if_splits)
  then show ?case
  proof cases
    case 1
    then show ?thesis by (auto intro: matches.intros)
  next
    case 2
    with assms Suc.IH show ?thesis by (blast intro: rep1)
  qed
qed

lemma run_sound: "t \<in> set (run r s) \<Longrightarrow> matches r s t"
proof (induction r arbitrary: s t)
  case (Rep g r)
  then show ?case using iter_rep_sound [of "run r" r] by auto
next
  case (Sq a b)
  from Sq.prems obtain u where "u \<in> set (run a s)" "t \<in> set (run b u)" by auto
  with Sq.IH have "matches a s u" "matches b u t" by simp_all
  then show ?case by (rule matches.sq)
qed (auto intro: matches.intros split: list.splits if_splits)

lemma iter_rep_complete:
  assumes "matches q s u" and "q = Rep g r"
    and "\<And>s t. matches r s t \<Longrightarrow> t \<in> set (f s)" and "length (m_rest s) \<le> n"
  shows "u \<in> set (iter_rep g f n s)"
  using assms
proof (induction arbitrary: n rule: matches.induct)
  case (rep0 g' r' s)
  then show ?case by (cases n) (auto simp: Let_def)
next
  case (rep1 r' s t g' u)
  then obtain k where n: "n = Suc k" by (cases n) (auto simp: advanced_def)
  with rep1 have "u \<in> set (iter_rep g f k t)" by (auto simp: advanced_def)
  with rep1 n show ?case by (auto simp: Let_def)
qed simp_all

lemma run_complete: "matches r s t \<Longrightarrow> t \<in> set (run r s)"
proof (induction r arbitrary: s t)
  case (Rep g r)
  then show ?case by (auto intro: iter_rep_complete)
next
  case (Sq a b)
  from Sq.prems obtain u where "matches a s u" "matches b u t" by (rule matches_SqE)
  then have "u \<in> set (run a s)" "t \<in> set (run b u)" by (simp_all add: Sq.IH)
  then show ?case by auto
qed (auto elim!: matches_elims simp: matches_anchor)

lemma run_matches: "t \<in> set (run r s) \<longleftrightarrow> matches r s t"
  by (blast intro: run_sound run_complete)

lemma run_Nil_iff: "run r s = [] \<longleftrightarrow> (\<forall>t. \<not> matches r s t)"
  using run_matches [of _ r s] by (cases "run r s") (simp, metis list.set_intros(1) list.simps(3))

subsection \<open>The search\<close>

text \<open>A position of the text: the characters before it in order, and what follows.\<close>

definition at_pos :: "char option \<Rightarrow> string \<Rightarrow> string \<Rightarrow> mstate" where
  "at_pos p pre s = start_state (if pre = [] then p else Some (last pre)) s"

lemma search_Some_iff:
  "search r p s \<noteq> None \<longleftrightarrow> (\<exists>pre suf t. s = pre @ suf \<and> matches r (at_pos p pre suf) t)"
proof (induction r p s rule: search.induct)
  case (1 r p s)
  show ?case
  proof (cases "run r (start_state p s)")
    case (Cons t ts)
    then have "matches r (at_pos p [] s) t"
      using run_matches [of t r "start_state p s"] by (simp add: at_pos_def)
    then have "\<exists>pre suf t. s = pre @ suf \<and> matches r (at_pos p pre suf) t"
      by (intro exI [of _ "[]"] exI [of _ s] exI [of _ t]) simp
    with Cons show ?thesis by (simp add: search.simps [of r p s])
  next
    case Nil
    then have none: "\<not> matches r (at_pos p [] s) t" for t
      by (simp add: run_Nil_iff at_pos_def)
    show ?thesis
    proof (cases s)
      case Nil': Nil
      with Nil have "search r p s = None" by (subst search.simps) simp
      moreover have "s = pre @ suf \<Longrightarrow> \<not> matches r (at_pos p pre suf) t" for pre suf t
        using none Nil' by simp
      ultimately show ?thesis by blast
    next
      case Cons': (Cons c cs)
      have shift: "at_pos p (c # pre) suf = at_pos (Some c) pre suf" for pre suf
        by (simp add: at_pos_def)
      have "search r p s = search r (Some c) cs"
        using Nil Cons' by (subst search.simps) simp
      then have "search r p s \<noteq> None \<longleftrightarrow> search r (Some c) cs \<noteq> None" by simp
      also have "\<dots> \<longleftrightarrow> (\<exists>pre suf t. cs = pre @ suf \<and> matches r (at_pos (Some c) pre suf) t)"
        using "1.IH" [OF Nil Cons'] .
      also have "\<dots> \<longleftrightarrow> (\<exists>pre suf t. s = pre @ suf \<and> matches r (at_pos p pre suf) t)"
      proof (intro iffI; elim exE conjE)
        fix pre suf t
        assume "cs = pre @ suf" "matches r (at_pos (Some c) pre suf) t"
        then show "\<exists>pre suf t. s = pre @ suf \<and> matches r (at_pos p pre suf) t"
          by (intro exI [of _ "c # pre"] exI [of _ suf] exI [of _ t]) (simp add: Cons' shift)
      next
        fix pre suf t
        assume h: "s = pre @ suf" "matches r (at_pos p pre suf) t"
        with none have "pre \<noteq> []" by auto
        then obtain pre' where "pre = c # pre'" using h(1) Cons' by (cases pre) auto
        with h show "\<exists>pre suf t. cs = pre @ suf \<and> matches r (at_pos (Some c) pre suf) t"
          by (intro exI [of _ pre'] exI [of _ suf] exI [of _ t]) (simp add: Cons' shift)
      qed
      finally show ?thesis .
    qed
  qed
qed

lemma MatchString_iff:
  "MatchString r s \<longleftrightarrow> (\<exists>pre suf t. s = pre @ suf \<and> matches r (at_pos None pre suf) t)"
  unfolding MatchString_def by (rule search_Some_iff)

text \<open>A search that succeeds at the first position returns the preferred match there.\<close>

lemma search_here: "run r (start_state p s) = t # ts \<Longrightarrow> search r p s = Some t"
  by (simp add: search.simps [of r p s])

subsection \<open>What a submatch can hold\<close>

text \<open>The bodies of the groups numbered \<open>n\<close>, and the groups that every match sets.\<close>

primrec cap_bodies :: "nat \<Rightarrow> rx \<Rightarrow> rx set" where
  "cap_bodies n Eps = {}"
| "cap_bodies n (Cls p) = {}"
| "cap_bodies n (Sq a b) = cap_bodies n a \<union> cap_bodies n b"
| "cap_bodies n (Alt a b) = cap_bodies n a \<union> cap_bodies n b"
| "cap_bodies n (Rep g r) = cap_bodies n r"
| "cap_bodies n (Cap k r) = (if k = n then {r} else {}) \<union> cap_bodies n r"
| "cap_bodies n Bol = {}"
| "cap_bodies n Eol = {}"
| "cap_bodies n WordB = {}"

primrec always_set :: "rx \<Rightarrow> nat set" where
  "always_set Eps = {}"
| "always_set (Cls p) = {}"
| "always_set (Sq a b) = always_set a \<union> always_set b"
| "always_set (Alt a b) = always_set a \<inter> always_set b"
| "always_set (Rep g r) = {}"
| "always_set (Cap k r) = insert k (always_set r)"
| "always_set Bol = {}"
| "always_set Eol = {}"
| "always_set WordB = {}"

lemma caps_mono: "matches r s t \<Longrightarrow> m_caps s n \<noteq> None \<Longrightarrow> m_caps t n \<noteq> None"
  by (induction rule: matches.induct) (auto simp: set_cap_def)

lemma always_set_caps: "matches r s t \<Longrightarrow> n \<in> always_set r \<Longrightarrow> m_caps t n \<noteq> None"
proof (induction rule: matches.induct)
  case (sq a s t b u)
  then show ?case using caps_mono [OF sq.hyps(2)] by auto
qed (auto simp: set_cap_def)

text \<open>A submatch found after the match is either the one there before or was consumed by one
  of the groups of that number.\<close>

lemma caps_from_bodies:
  assumes "matches r s t" and "m_caps t n = Some x"
  shows "m_caps s n = Some x \<or> (\<exists>q\<in>cap_bodies n r. \<exists>u v. matches q u v \<and> x = consumed u v)"
  using assms
proof (induction arbitrary: x rule: matches.induct)
  case (sq a s t b u)
  from sq.IH(2) [OF sq.prems] show ?case
  proof
    assume "m_caps t n = Some x"
    from sq.IH(1) [OF this] show ?thesis by auto
  qed auto
next
  case (rep1 r s t g u)
  from rep1.IH(2) [OF rep1.prems] show ?case
  proof
    assume "m_caps t n = Some x"
    from rep1.IH(1) [OF this] show ?thesis by auto
  qed auto
next
  case (cap r s t k)
  show ?case
  proof (cases "k = n")
    case True
    with cap.prems have "x = consumed s t" by (simp add: set_cap_def)
    with True cap.hyps show ?thesis by auto
  next
    case False
    with cap.prems have "m_caps t n = Some x" by (simp add: set_cap_def)
    from cap.IH [OF this] show ?thesis by auto
  qed
qed auto

lemma matches_consumed: "matches r s t \<Longrightarrow> m_rest s = consumed s t @ m_rest t"
  using matches_suffix by (fastforce simp: consumed_def suffix_def)

lemma consumed_cls: "matches (Cls p) s t \<Longrightarrow> \<exists>c. consumed s t = [c] \<and> p c"
  by (auto elim!: matches_ClsE simp: consumed_def)

lemma consumed_sq:
  assumes "matches a s t" "matches b t u"
  shows "consumed s u = consumed s t @ consumed t u"
proof -
  have s: "m_rest s = consumed s t @ m_rest t" and t: "m_rest t = consumed t u @ m_rest u"
    using assms by (simp_all add: matches_consumed)
  then have eq: "m_rest s = (consumed s t @ consumed t u) @ m_rest u" by simp
  have "take (length w - length v) w = x" if "w = x @ v" for w x v :: string
    using that by simp
  from this [OF eq] show ?thesis unfolding consumed_def [of s u] .
qed

text \<open>Runs of one character class: \<open>p{n}\<close>, \<open>p{0,k}\<close> and \<open>p{m,m+k}\<close>.\<close>

definition run_of :: "(char \<Rightarrow> bool) \<Rightarrow> nat \<Rightarrow> nat \<Rightarrow> string \<Rightarrow> bool" where
  "run_of p m n x \<longleftrightarrow> list_all p x \<and> m \<le> length x \<and> length x \<le> n"

lemma consumed_same [simp]: "consumed s s = []"
  by (simp add: consumed_def)

lemma matches_Times: "matches (Times n (Cls p)) s t \<Longrightarrow> run_of p n n (consumed s t)"
proof (induction n arbitrary: s)
  case 0
  then show ?case by (auto elim!: matches_EpsE simp: run_of_def)
next
  case (Suc n)
  then obtain u where u: "matches (Cls p) s u" "matches (Times n (Cls p)) u t"
    by (auto elim!: matches_SqE)
  from Suc.IH [OF u(2)] consumed_cls [OF u(1)] show ?case
    by (auto simp: consumed_sq [OF u] run_of_def)
qed

lemma matches_UpTo: "matches (UpTo k (Cls p)) s t \<Longrightarrow> run_of p 0 k (consumed s t)"
proof (induction k arbitrary: s)
  case 0
  then show ?case by (auto elim!: matches_EpsE simp: run_of_def)
next
  case (Suc k)
  then consider "s = t" | u where "matches (Cls p) s u" "matches (UpTo k (Cls p)) u t"
    by (auto simp: Opt_def elim!: matches_AltE matches_SqE matches_EpsE)
  then show ?case
  proof cases
    case 1
    then show ?thesis by (simp add: run_of_def)
  next
    case 2
    from Suc.IH [OF 2(2)] consumed_cls [OF 2(1)] show ?thesis
      by (auto simp: consumed_sq [OF 2] run_of_def)
  qed
qed

lemma matches_Between: "matches (Between m k (Cls p)) s t \<Longrightarrow> run_of p m (m + k) (consumed s t)"
proof -
  assume "matches (Between m k (Cls p)) s t"
  then obtain u where u: "matches (Times m (Cls p)) s u" "matches (UpTo k (Cls p)) u t"
    by (auto simp: Between_def elim!: matches_SqE)
  from matches_Times [OF u(1)] matches_UpTo [OF u(2)] show ?thesis
    by (auto simp: consumed_sq [OF u] run_of_def)
qed

text \<open>A successful search is a match of the pattern from some position of the text.\<close>

lemma search_SomeD: "search r p s = Some t \<Longrightarrow> \<exists>q u. matches r (start_state q u) t"
proof (induction r p s rule: search.induct)
  case (1 r p s)
  show ?case
  proof (cases "run r (start_state p s)")
    case (Cons v vs)
    with "1.prems" have "v = t" by (simp add: search_here)
    with Cons show ?thesis using run_matches [of t r "start_state p s"] by auto
  next
    case Nil
    with "1.prems" obtain c cs where s: "s = c # cs"
      by (subst (asm) search.simps) (auto split: list.splits)
    with Nil "1.prems" have "search r (Some c) cs = Some t"
      by (subst (asm) search.simps) simp
    from "1.IH" [OF Nil s this] show ?thesis .
  qed
qed

lemma submatch_body:
  assumes "FindStringSubmatch r s = Some m" and "m n = Some x"
  shows "\<exists>q\<in>cap_bodies n r. \<exists>u v. matches q u v \<and> x = consumed u v"
proof -
  from assms(1) obtain t where t: "search r None s = Some t" "m = m_caps t"
    by (auto simp: FindStringSubmatch_def)
  from search_SomeD [OF t(1)] obtain q u where q: "matches r (start_state q u) t" by blast
  from caps_from_bodies [OF q] assms(2) t(2) show ?thesis by (auto simp: start_state_def)
qed

lemma submatch_set:
  assumes "FindStringSubmatch r s = Some m" and "n \<in> always_set r"
  shows "\<exists>x. m n = Some x"
proof -
  from assms(1) obtain t where t: "search r None s = Some t" "m = m_caps t"
    by (auto simp: FindStringSubmatch_def)
  from search_SomeD [OF t(1)] obtain q u where "matches r (start_state q u) t" by blast
  from always_set_caps [OF this assms(2)] t(2) show ?thesis by auto
qed

subsection \<open>Repetitions of one class\<close>

definition step_char :: "mstate \<Rightarrow> char \<Rightarrow> string \<Rightarrow> mstate" where
  "step_char s c cs = s\<lparr>m_prev := Some c, m_rest := cs\<rparr>"

lemma step_char_simps [simp]:
  "m_rest (step_char s c cs) = cs" "m_caps (step_char s c cs) = m_caps s"
  by (simp_all add: step_char_def)

lemma run_rep_cls:
  "run (Rep g (Cls p)) s =
     (case m_rest s of
        [] \<Rightarrow> [s]
      | c # cs \<Rightarrow> if p c
          then (if g then run (Rep g (Cls p)) (step_char s c cs) @ [s]
                else s # run (Rep g (Cls p)) (step_char s c cs))
          else [s])"
  by (cases "m_rest s") (auto simp: Let_def advanced_def step_char_def)

lemma matches_Rep_Cls: "matches q s t \<Longrightarrow> q = Rep g (Cls p) \<Longrightarrow> list_all p (consumed s t)"
proof (induction rule: matches.induct)
  case (rep1 r s t g' u)
  from consumed_cls [of p s t] rep1 consumed_sq [OF rep1.hyps(1,3)] show ?case by auto
qed simp_all

text \<open>The lazy repetition tries the shortest prefix first: when the continuation fails after
  every shorter prefix, the first overall result is that of the prefix \<open>y\<close>.\<close>

lemma lazy_first:
  assumes "m_rest s = y @ X" and "list_all p y"
    and fail: "\<And>t y1 y2. y = y1 @ y2 \<Longrightarrow> y2 \<noteq> [] \<Longrightarrow> m_rest t = y2 @ X \<Longrightarrow> k t = []"
    and succ: "\<And>t. m_rest t = X \<Longrightarrow> m_caps t = m_caps s \<Longrightarrow> \<exists>r rs. k t = r # rs \<and> Q t r"
  shows "\<exists>t r rs. concat (map k (run (Rep False (Cls p)) s)) = r # rs \<and> m_rest t = X \<and>
    m_caps t = m_caps s \<and> Q t r"
  using assms
proof (induction y arbitrary: s)
  case Nil
  have "m_rest s = X" using Nil.prems(1) by simp
  from Nil.prems(4) [OF this refl] obtain r rs where "k s = r # rs" "Q s r" by blast
  moreover have "\<exists>ts. run (Rep False (Cls p)) s = s # ts"
    by (subst run_rep_cls) (auto split: list.splits)
  ultimately show ?case using Nil.prems(1) by (intro exI [of _ s]) auto
next
  case (Cons c y)
  have "k s = []" using Cons.prems(3) [of "[]" "c # y" s] Cons.prems(1) by simp
  moreover have "run (Rep False (Cls p)) s = s # run (Rep False (Cls p)) (step_char s c (y @ X))"
    using Cons.prems by (subst run_rep_cls) simp
  moreover have "\<exists>t r rs. concat (map k (run (Rep False (Cls p)) (step_char s c (y @ X)))) = r # rs \<and>
      m_rest t = X \<and> m_caps t = m_caps (step_char s c (y @ X)) \<and> Q t r"
  proof (rule Cons.IH)
    show "k t = []" if "y = y1 @ y2" "y2 \<noteq> []" "m_rest t = y2 @ X" for t y1 y2
      using Cons.prems(3) [of "c # y1" y2 t] that by simp
  qed (use Cons.prems in auto)
  ultimately show ?case by simp
qed

end
