(* ===== verification/Parser.thy ===== *)
theory Parser
  imports Go_Regexp
begin

section \<open>The release parser (src/internal/parser)\<close>

text \<open>
  The types of \<open>types.go\<close>, quality parsing of \<open>quality.go\<close> and title parsing of \<open>title.go\<close>.
  The pattern constants are the source's regular expressions written as \<open>rx\<close> trees. A Go
  run-time panic is a value of \<open>go_panic\<close>; \<open>ParseTitle\<close> is shown never to panic.
\<close>

subsection \<open>Types\<close>

datatype QualitySource = SourceUnknown | SourceTelevision | SourceWebDL | SourceWebRip
  | SourceBluray | SourceDVD | SourceRemux

datatype Resolution = ResolutionUnknown | Resolution480p | Resolution576p | Resolution720p
  | Resolution1080p | Resolution2160p

datatype Modifier = ModifierNone | ModifierProper | ModifierRepack | ModifierReal

text \<open>The string values of the typed constants.\<close>

fun source_string :: "QualitySource \<Rightarrow> string" where
  "source_string SourceUnknown = ''''"
| "source_string SourceTelevision = ''television''"
| "source_string SourceWebDL = ''webdl''"
| "source_string SourceWebRip = ''webrip''"
| "source_string SourceBluray = ''bluray''"
| "source_string SourceDVD = ''dvd''"
| "source_string SourceRemux = ''remux''"

fun resolution_string :: "Resolution \<Rightarrow> string" where
  "resolution_string ResolutionUnknown = ''''"
| "resolution_string Resolution480p = ''480p''"
| "resolution_string Resolution576p = ''576p''"
| "resolution_string Resolution720p = ''720p''"
| "resolution_string Resolution1080p = ''1080p''"
| "resolution_string Resolution2160p = ''2160p''"

record ParsedQuality =
  pq_Source :: QualitySource
  pq_Resolution :: Resolution
  pq_Modifier :: Modifier
  pq_Revision :: int

text \<open>\<open>SeriesTypeUnset\<close> is the zero value of the string type.\<close>

datatype SeriesType = SeriesTypeUnset | SeriesTypeStandard | SeriesTypeDaily | SeriesTypeAnime

text \<open>\<open>pe_AirDate\<close> is the day number of the date, counted from 1 January of year 1.\<close>

record ParsedEpisodeInfo =
  pe_SeriesTitle :: string
  pe_SeriesType :: SeriesType
  pe_SeasonNumber :: int
  pe_EpisodeNumbers :: "int list"
  pe_AbsoluteEpisodeNumbers :: "int list"
  pe_AirDate :: "int option"
  pe_Year :: int
  pe_ReleaseGroup :: string
  pe_Quality :: ParsedQuality
  pe_ReleaseTitle :: string
  pe_Languages :: "string list"
  pe_IndexerFlags :: "string list"
  pe_Size :: int
  pe_ReleaseType :: string

datatype go_panic = IndexOutOfRange

subsection \<open>Quality\<close>

text \<open>\<open>\b(...)\b\<close> around alternatives, all under \<open>(?i)\<close>.\<close>

definition bounded :: "rx \<Rightarrow> rx" where
  "bounded r = Seqs [WordB, r, WordB]"

text \<open>An optional separator \<open>[-. ]?\<close> between two words.\<close>

definition dashed :: "string \<Rightarrow> string \<Rightarrow> rx" where
  "dashed a b = Seqs [StrI a, Opt (Cls (\<lambda>c. c \<in> {CHR ''-'', CHR ''.'', CHR '' ''})), StrI b]"

text \<open>\<open>[pi]\<close> after a number of lines.\<close>

definition lines_pi :: "string \<Rightarrow> rx" where
  "lines_pi n = Sq (StrI n) (Cls (\<lambda>c. lower_char c \<in> {CHR ''p'', CHR ''i''}))"

definition reResolution2160p :: rx where
  "reResolution2160p = bounded (Cap 1 (Alts [StrI ''2160p'', StrI ''4k'', StrI ''uhd'']))"
definition reResolution1080p :: rx where
  "reResolution1080p = bounded (lines_pi ''1080'')"
definition reResolution720p :: rx where
  "reResolution720p = bounded (StrI ''720p'')"
definition reResolution480p :: rx where
  "reResolution480p = bounded (lines_pi ''480'')"
definition reResolution576p :: rx where
  "reResolution576p = bounded (lines_pi ''576'')"

definition reWebDL :: rx where
  "reWebDL = bounded (Cap 1 (Alts [dashed ''WEB'' ''DL'', StrI ''WEBDL'']))"
definition reWebRip :: rx where
  "reWebRip = bounded (Cap 1 (Alts [dashed ''WEB'' ''Rip'', StrI ''WEBRip'']))"
definition reBluray :: rx where
  "reBluray = bounded (Cap 1 (Alts [dashed ''Blu'' ''Ray'', dashed ''BD'' ''Rip'',
     dashed ''BR'' ''Rip'', StrI ''BDREMUX'']))"
definition reRemux :: rx where
  "reRemux = bounded (Cap 1 (Alts [StrI ''REMUX'', StrI ''BDREMUX'']))"
definition reHDTV :: rx where
  "reHDTV = bounded (Cap 1 (Alts [StrI ''HDTV'', StrI ''PDTV'', StrI ''DSR'', StrI ''DTHD'']))"
definition reSDTV :: rx where
  "reSDTV = bounded (Cap 1 (StrI ''SDTV''))"
definition reDVD :: rx where
  "reDVD = bounded (Cap 1 (Alts [dashed ''DVD'' ''Rip'', dashed ''DVD'' ''R'', StrI ''DVDSCR'']))"

definition reProper :: rx where "reProper = bounded (StrI ''PROPER'')"
definition reRepack :: rx where "reRepack = bounded (StrI ''REPACK'')"
definition reReal :: rx where "reReal = bounded (StrI ''REAL'')"

definition reAnimeVersion :: rx where
  "reAnimeVersion = Seqs [LitI CHR ''v'', Cap 1 (Plus True Digit), WordB]"

definition parse_resolution :: "string \<Rightarrow> Resolution" where
  "parse_resolution title =
     (if MatchString reResolution2160p title then Resolution2160p
      else if MatchString reResolution1080p title then Resolution1080p
      else if MatchString reResolution720p title then Resolution720p
      else if MatchString reResolution576p title then Resolution576p
      else if MatchString reResolution480p title then Resolution480p
      else ResolutionUnknown)"

definition parse_source :: "string \<Rightarrow> QualitySource" where
  "parse_source title =
     (if MatchString reRemux title then SourceRemux
      else if MatchString reWebDL title then SourceWebDL
      else if MatchString reWebRip title then SourceWebRip
      else if MatchString reBluray title then SourceBluray
      else if MatchString reDVD title then SourceDVD
      else if MatchString reHDTV title then SourceTelevision
      else if MatchString reSDTV title then SourceTelevision
      else SourceUnknown)"

definition parse_modifier :: "string \<Rightarrow> Modifier" where
  "parse_modifier title =
     (if MatchString reProper title then ModifierProper
      else if MatchString reRepack title then ModifierRepack
      else if MatchString reReal title then ModifierReal
      else ModifierNone)"

definition parse_revision :: "string \<Rightarrow> int" where
  "parse_revision title =
     (case FindStringSubmatch reAnimeVersion title of
        None \<Rightarrow> 1
      | Some m \<Rightarrow> (case Atoi (group m 1) of
                    Inl _ \<Rightarrow> 1
                  | Inr v \<Rightarrow> if v > 1 then v else 1))"

definition ParseQuality :: "string \<Rightarrow> ParsedQuality" where
  "ParseQuality title =
     \<lparr>pq_Source = parse_source title, pq_Resolution = parse_resolution title,
      pq_Modifier = parse_modifier title, pq_Revision = parse_revision title\<rparr>"

subsection \<open>Titles\<close>

text \<open>The separator class \<open>[\.\s_-]\<close>.\<close>

definition is_sep :: "char \<Rightarrow> bool" where
  "is_sep c \<longleftrightarrow> c = CHR ''.'' \<or> re_space c \<or> c = CHR ''_'' \<or> c = CHR ''-''"

definition Sep :: rx where "Sep = Cls is_sep"

definition lazy_title :: "nat \<Rightarrow> rx" where
  "lazy_title n = Cap n (Plus False AnyC)"

text \<open>Groups: 1 title, 2 season, 3 episode, 4 episode2.\<close>

definition reStandard :: rx where
  "reStandard = Seqs [Bol, lazy_title 1, Plus True Sep,
     LitI CHR ''S'', Cap 2 (Between 1 1 Digit),
     LitI CHR ''E'', Cap 3 (Between 2 1 Digit),
     Rep True (Sq (Plus True (Cls (\<lambda>c. c = CHR ''-'' \<or> lower_char c = CHR ''e'')))
                  (Cap 4 (Between 2 1 Digit)))]"

text \<open>Groups: 1 title, 2 year, 3 month, 4 day.\<close>

definition reDaily :: rx where
  "reDaily = Seqs [Bol, lazy_title 1, Plus True Sep,
     Cap 2 (Times 4 Digit), Sep, Cap 3 (Times 2 Digit), Sep, Cap 4 (Times 2 Digit)]"

text \<open>Groups: 1 group, 2 title, 3 episode.\<close>

definition reAnime :: rx where
  "reAnime = Seqs [Bol, LitI CHR ''['', Cap 1 (Plus True (Cls (\<lambda>c. c \<noteq> CHR '']''))),
     LitI CHR '']'', Rep True Space, lazy_title 2, Rep True Space, LitI CHR ''-'',
     Rep True Space, Cap 3 (Between 2 2 Digit), Opt (Sq (LitI CHR ''v'') (Plus True Digit))]"

definition h26x :: "string \<Rightarrow> rx" where
  "h26x n = Seqs [LitI CHR ''H'', Opt (LitI CHR ''.''), StrI n]"

definition reFallbackTitle :: rx where
  "reFallbackTitle = Seqs [Bol, lazy_title 1, Plus True Sep,
     Alts [Sq (LitI CHR ''S'') Digit, Sq (LitI CHR ''E'') Digit,
       Seqs [Times 4 Digit, Sep, Times 2 Digit], Sq (Between 3 1 Digit) (LitI CHR ''p''),
       StrI ''HDTV'', StrI ''WEB'', StrI ''BluRay'', StrI ''DVD'', StrI ''x264'', StrI ''x265'',
       h26x ''264'', h26x ''265'', StrI ''AAC'', StrI ''AC3'', StrI ''DTS'', StrI ''PROPER'',
       StrI ''REPACK'']]"

definition reReleaseGroup :: rx where
  "reReleaseGroup = Seqs [Cls (\<lambda>c. c = CHR ''-''), Cap 1 (Plus True (Cls is_alnum)),
     Opt (Seqs [Cls (\<lambda>c. c = CHR ''[''), Rep True AnyC, Cls (\<lambda>c. c = CHR '']'')]), Eol]"

definition parseReleaseGroup :: "string \<Rightarrow> string" where
  "parseReleaseGroup title =
     (case FindStringSubmatch reReleaseGroup title of None \<Rightarrow> '''' | Some m \<Rightarrow> group m 1)"

text \<open>The loop of \<open>cleanTitle\<close> that collapses runs of spaces. Each round shortens the string.\<close>

lemma ReplaceAll_spaces_length: "length (ReplaceAll s ''  '' '' '') \<le> length s"
proof (induction s rule: length_induct)
  case (1 s)
  show ?case
  proof (cases "prefix ''  '' s")
    case True
    then obtain t where s: "s = ''  '' @ t" by (auto simp: prefix_def)
    with "1" have "length (ReplaceAll t ''  '' '' '') \<le> length t" by simp
    with s show ?thesis using ReplaceAll_hit [of "''  ''" t "'' ''"] by simp
  next
    case False
    show ?thesis
    proof (cases s)
      case (Cons c t)
      with "1" have "length (ReplaceAll t ''  '' '' '') \<le> length t" by simp
      with False Cons show ?thesis using ReplaceAll_miss [of "''  ''" c t "'' ''"] by simp
    qed simp
  qed
qed

lemma ReplaceAll_spaces_shorter:
  "Contains s ''  '' \<Longrightarrow> length (ReplaceAll s ''  '' '' '') < length s"
proof (induction s)
  case (Cons c s)
  show ?case
  proof (cases "prefix ''  '' (c # s)")
    case True
    then obtain t where s: "c # s = ''  '' @ t" unfolding prefix_def by blast
    then have "ReplaceAll (c # s) ''  '' '' '' = '' '' @ ReplaceAll t ''  '' '' ''"
      using ReplaceAll_hit [of "''  ''" t "'' ''"] by simp
    then show ?thesis using ReplaceAll_spaces_length [of t] s by simp
  next
    case False
    with Cons.prems have "Contains s ''  ''" by auto
    with Cons.IH have "length (ReplaceAll s ''  '' '' '') < length s" by blast
    with False show ?thesis using ReplaceAll_miss [of "''  ''" c s "'' ''"] by simp
  qed
qed simp

function collapse_spaces :: "string \<Rightarrow> string" where
  "collapse_spaces s =
     (if Contains s ''  '' then collapse_spaces (ReplaceAll s ''  '' '' '') else s)"
  by pat_completeness auto
termination
  by (relation "measure length") (simp_all add: ReplaceAll_spaces_shorter)

declare collapse_spaces.simps [simp del]

definition cleanTitle :: "string \<Rightarrow> string" where
  "cleanTitle s =
     (let s = ReplaceAll s ''.'' '' '';
          s = ReplaceAll s ''_'' '' '';
          s = TrimSpace s
      in collapse_spaces s)"

text \<open>The parse functions fill in the record they are given and report success; a failed
  parse may have written to it.\<close>

definition parseStandard ::
  "string \<Rightarrow> ParsedEpisodeInfo \<Rightarrow> (go_panic, bool \<times> ParsedEpisodeInfo) result" where
  "parseStandard title info =
     (case FindStringSubmatch reStandard title of
        None \<Rightarrow> Inr (False, info)
      | Some m \<Rightarrow>
          let info = info\<lparr>pe_SeriesTitle := cleanTitle (group m 1)\<rparr>;
              info = info\<lparr>pe_SeasonNumber := Atoi_value (group m 2)\<rparr>;
              info = (case Atoi (group m 3) of
                        Inr ep \<Rightarrow> info\<lparr>pe_EpisodeNumbers := pe_EpisodeNumbers info @ [ep]\<rparr>
                      | Inl _ \<Rightarrow> info)
          in (case Atoi (group m 4) of
                Inr ep2 \<Rightarrow>
                  if ep2 > 0
                  then (case pe_EpisodeNumbers info of
                          [] \<Rightarrow> Inl IndexOutOfRange
                        | first # _ \<Rightarrow>
                            let info = info\<lparr>pe_EpisodeNumbers := [first..ep2]\<rparr>
                            in Inr (pe_EpisodeNumbers info \<noteq> [], info))
                  else Inr (pe_EpisodeNumbers info \<noteq> [], info)
              | Inl _ \<Rightarrow> Inr (pe_EpisodeNumbers info \<noteq> [], info)))"

text \<open>\<open>time.Date\<close> at midnight UTC as a day number: months out of range carry into the year,
  days out of range into the month.\<close>

definition is_leap :: "int \<Rightarrow> bool" where
  "is_leap y \<longleftrightarrow> y mod 4 = 0 \<and> (y mod 100 \<noteq> 0 \<or> y mod 400 = 0)"

definition days_before_year :: "int \<Rightarrow> int" where
  "days_before_year y = 365 * (y - 1) + (y - 1) div 4 - (y - 1) div 100 + (y - 1) div 400"

definition days_before_month :: "int \<Rightarrow> int \<Rightarrow> int" where
  "days_before_month y m =
     [0, 31, 59, 90, 120, 151, 181, 212, 243, 273, 304, 334] ! nat (m - 1)
       + (if m > 2 \<and> is_leap y then 1 else 0)"

definition date_days :: "int \<Rightarrow> int \<Rightarrow> int \<Rightarrow> int" where
  "date_days year month day =
     (let y = year + (month - 1) div 12; m = (month - 1) mod 12 + 1
      in days_before_year y + days_before_month y m + (day - 1))"

definition parseDaily :: "string \<Rightarrow> ParsedEpisodeInfo \<Rightarrow> bool \<times> ParsedEpisodeInfo" where
  "parseDaily title info =
     (case FindStringSubmatch reDaily title of
        None \<Rightarrow> (False, info)
      | Some m \<Rightarrow>
          let year = Atoi_value (group m 2); month = Atoi_value (group m 3);
              day = Atoi_value (group m 4)
          in (True, info\<lparr>pe_SeriesTitle := cleanTitle (group m 1), pe_Year := year,
                pe_AirDate := Some (date_days year month day), pe_SeasonNumber := year,
                pe_EpisodeNumbers := [month * 100 + day]\<rparr>))"

definition parseAnime :: "string \<Rightarrow> ParsedEpisodeInfo \<Rightarrow> bool \<times> ParsedEpisodeInfo" where
  "parseAnime title info =
     (case FindStringSubmatch reAnime title of
        None \<Rightarrow> (False, info)
      | Some m \<Rightarrow>
          let info = info\<lparr>pe_SeriesTitle := cleanTitle (group m 2),
                          pe_ReleaseGroup := TrimSpace (group m 1)\<rparr>;
              info = (case Atoi (group m 3) of
                        Inr ep \<Rightarrow> info\<lparr>pe_AbsoluteEpisodeNumbers :=
                                       pe_AbsoluteEpisodeNumbers info @ [ep]\<rparr>
                      | Inl _ \<Rightarrow> info)
          in (pe_AbsoluteEpisodeNumbers info \<noteq> [], info))"

definition empty_info :: "string \<Rightarrow> ParsedEpisodeInfo" where
  "empty_info title =
     \<lparr>pe_SeriesTitle = '''', pe_SeriesType = SeriesTypeUnset, pe_SeasonNumber = 0,
      pe_EpisodeNumbers = [], pe_AbsoluteEpisodeNumbers = [], pe_AirDate = None, pe_Year = 0,
      pe_ReleaseGroup = '''', pe_Quality = ParseQuality title, pe_ReleaseTitle = title,
      pe_Languages = [], pe_IndexerFlags = [], pe_Size = 0, pe_ReleaseType = ''''\<rparr>"

definition ParseTitle :: "string \<Rightarrow> (go_panic, ParsedEpisodeInfo) result" where
  "ParseTitle title =
     bindR (parseStandard title (empty_info title)) (\<lambda>(ok, info).
       if ok then Inr (info\<lparr>pe_SeriesType := SeriesTypeStandard,
                            pe_ReleaseGroup := parseReleaseGroup title\<rparr>)
       else case parseDaily title info of (ok, info) \<Rightarrow>
       if ok then Inr (info\<lparr>pe_SeriesType := SeriesTypeDaily,
                            pe_ReleaseGroup := parseReleaseGroup title\<rparr>)
       else case parseAnime title info of (ok, info) \<Rightarrow>
       if ok then Inr (info\<lparr>pe_SeriesType := SeriesTypeAnime\<rparr>)
       else
         let t = (case FindStringSubmatch reFallbackTitle title of
                    Some m \<Rightarrow> group m 1 | None \<Rightarrow> title)
         in Inr (info\<lparr>pe_SeriesTitle := cleanTitle t,
                      pe_ReleaseGroup := parseReleaseGroup title\<rparr>))"

subsection \<open>Matching against the library (matcher.go)\<close>

definition normalizeForLookup :: "string \<Rightarrow> string" where
  "normalizeForLookup title = ToLower (TrimSpace title)"

record MatchResult =
  mr_SeriesID :: int
  mr_Info :: ParsedEpisodeInfo
  mr_Matched :: bool

text \<open>The \<open>SeriesLookup\<close> interface is the argument \<open>lookup\<close>: id and whether it was found, or the
  error.\<close>

definition MatchSeries ::
  "(string \<Rightarrow> ('e, int \<times> bool) result) \<Rightarrow> ParsedEpisodeInfo \<Rightarrow> ('e, MatchResult) result" where
  "MatchSeries lookup info =
     bindR (lookup (normalizeForLookup (pe_SeriesTitle info))) (\<lambda>(id, found).
       Inr \<lparr>mr_SeriesID = id, mr_Info = info, mr_Matched = found\<rparr>)"

subsection \<open>Clean titles\<close>

text \<open>The reference for \<open>collapse_spaces\<close>: one pass from the right that drops a space before a
  space.\<close>

definition sq_cons :: "char \<Rightarrow> string \<Rightarrow> string" where
  "sq_cons c y = (if c = CHR '' '' \<and> y \<noteq> [] \<and> hd y = CHR '' '' then y else c # y)"

definition squeeze :: "string \<Rightarrow> string" where
  "squeeze s = foldr sq_cons s []"

lemma squeeze_simps [simp]: "squeeze [] = []" "squeeze (c # s) = sq_cons c (squeeze s)"
  by (simp_all add: squeeze_def)

lemma sq_cons_idem [simp]: "sq_cons CHR '' '' (sq_cons CHR '' '' y) = sq_cons CHR '' '' y"
  by (auto simp: sq_cons_def)

lemma squeeze_ReplaceAll: "squeeze (ReplaceAll s ''  '' '' '') = squeeze s"
proof (induction s rule: length_induct)
  case (1 s)
  show ?case
  proof (cases "prefix ''  '' s")
    case True
    then obtain t where s: "s = ''  '' @ t" by (auto simp: prefix_def)
    with "1" have IH: "squeeze (ReplaceAll t ''  '' '' '') = squeeze t" by simp
    have "squeeze (ReplaceAll s ''  '' '' '') = sq_cons CHR '' '' (squeeze t)"
      using ReplaceAll_hit [of "''  ''" t "'' ''"] IH s by simp
    also have "\<dots> = squeeze s" by (simp add: s)
    finally show ?thesis .
  next
    case False
    show ?thesis
    proof (cases s)
      case (Cons c t)
      with "1" have "squeeze (ReplaceAll t ''  '' '' '') = squeeze t" by simp
      with False Cons show ?thesis using ReplaceAll_miss [of "''  ''" c t "'' ''"] by simp
    qed simp
  qed
qed

lemma squeeze_id: "\<not> Contains s ''  '' \<Longrightarrow> squeeze s = s"
proof (induction s)
  case (Cons c s)
  then have IH: "squeeze s = s" by simp
  have "\<not> prefix ''  '' (c # s)" using Cons.prems by simp
  then have "\<not> (c = CHR '' '' \<and> s \<noteq> [] \<and> hd s = CHR '' '')" by (cases s) auto
  with IH show ?case by (auto simp: sq_cons_def)
qed simp

lemma collapse_spaces_squeeze: "collapse_spaces s = squeeze s"
proof (induction s rule: collapse_spaces.induct)
  case (1 s)
  show ?case
  proof (cases "Contains s ''  ''")
    case True
    with "1" show ?thesis by (simp add: collapse_spaces.simps [of s] squeeze_ReplaceAll)
  next
    case False
    then show ?thesis by (simp add: collapse_spaces.simps [of s] squeeze_id)
  qed
qed

lemma sq_cons_no_double: "\<not> Contains y ''  '' \<Longrightarrow> \<not> Contains (sq_cons c y) ''  ''"
  by (cases y) (auto simp: sq_cons_def)

lemma squeeze_no_double: "\<not> Contains (squeeze s) ''  ''"
  by (induction s) (simp_all add: sq_cons_no_double)

lemma set_squeeze: "set (squeeze s) \<subseteq> set s"
  by (induction s) (auto simp: sq_cons_def split: if_splits)

lemma squeeze_Nil_iff [simp]: "squeeze s = [] \<longleftrightarrow> s = []"
  by (cases s) (auto simp: sq_cons_def)

lemma hd_squeeze: "s \<noteq> [] \<Longrightarrow> hd (squeeze s) = hd s"
  by (cases s) (auto simp: sq_cons_def)

lemma last_squeeze: "s \<noteq> [] \<Longrightarrow> last (squeeze s) = last s"
proof (induction s)
  case (Cons c s)
  then show ?case by (cases "s = []") (auto simp: sq_cons_def)
qed simp

lemma squeeze_trimmed: "trimmed s \<Longrightarrow> trimmed (squeeze s)"
  by (cases "s = []") (auto simp: trimmed_def hd_squeeze last_squeeze)

definition clean_nf :: "string \<Rightarrow> bool" where
  "clean_nf s \<longleftrightarrow> CHR ''.'' \<notin> set s \<and> CHR ''_'' \<notin> set s \<and> trimmed s \<and> \<not> Contains s ''  ''"

lemma set_ReplaceAll_char:
  "set (ReplaceAll s [a] [b]) \<subseteq> (set s - {a}) \<union> {b}"
  by (auto simp: ReplaceAll_single split: if_splits)

lemma ReplaceAll_char_id: "a \<notin> set s \<Longrightarrow> ReplaceAll s [a] new = s"
  by (induction s) (auto simp: ReplaceAll_single)

lemma cleanTitle_nf: "clean_nf (cleanTitle s)"
proof -
  let ?d = "ReplaceAll s ''.'' '' ''"
  let ?u = "ReplaceAll ?d ''_'' '' ''"
  have "set ?u \<subseteq> (set ?d - {CHR ''_''}) \<union> {CHR '' ''}" by (rule set_ReplaceAll_char)
  moreover have "set ?d \<subseteq> (set s - {CHR ''.''}) \<union> {CHR '' ''}" by (rule set_ReplaceAll_char)
  ultimately have "CHR ''.'' \<notin> set ?u" "CHR ''_'' \<notin> set ?u" by auto
  moreover have "set (squeeze (TrimSpace ?u)) \<subseteq> set ?u"
    using set_squeeze TrimSpace_subset by blast
  ultimately show ?thesis
    by (auto simp: clean_nf_def cleanTitle_def Let_def collapse_spaces_squeeze
        squeeze_trimmed TrimSpace_trimmed squeeze_no_double)
qed

lemma cleanTitle_id: "clean_nf s \<Longrightarrow> cleanTitle s = s"
  by (simp add: clean_nf_def cleanTitle_def Let_def ReplaceAll_char_id TrimSpace_id
      collapse_spaces_squeeze squeeze_id)

subsection \<open>Numbers in the parsed record\<close>

lemma run_of_Atoi:
  assumes "run_of is_digit (Suc m) n x" "n \<le> 18"
  shows "\<exists>v. Atoi x = Inr v \<and> Atoi_value x = v \<and> 0 \<le> v \<and> v < 10 ^ n"
proof -
  from assms have x: "x \<noteq> []" "list_all is_digit x" "length x \<le> n"
    by (auto simp: run_of_def)
  then have "Atoi x = Inr (int (digits_val x))" using assms(2) by (simp add: Atoi_digits)
  moreover have "int (digits_val x) < 10 ^ n"
  proof -
    have "digits_val x < 10 ^ length x" using x(2) by (rule digits_val_bound)
    also have "\<dots> \<le> 10 ^ n" using x(3) by (simp add: power_increasing)
    finally show ?thesis by (metis of_nat_less_iff of_nat_numeral of_nat_power)
  qed
  ultimately show ?thesis by (simp add: Atoi_value_def)
qed

lemma Atoi_Nil [simp]: "Atoi [] = Inl ErrSyntax"
  by (simp add: Atoi_def)

lemmas standard_shape = reStandard_def lazy_title_def Plus_def Sep_def LitI_def Digit_def AnyC_def

lemma submatch_run:
  assumes "FindStringSubmatch r t = Some m" "cap_bodies n r = {Between a k (Cls p)}" "a + k = b"
    and "m n = Some x"
  shows "run_of p a b (group m n)"
  using submatch_body [OF assms(1,4)] assms matches_Between [of a k p] by (auto simp: group_def)

lemma standard_season:
  assumes "FindStringSubmatch reStandard t = Some m"
  shows "run_of is_digit 1 2 (group m 2)"
proof -
  have "2 \<in> always_set reStandard" by (simp add: standard_shape)
  from submatch_set [OF assms this] obtain x where x: "m 2 = Some x" by blast
  show ?thesis
    by (rule submatch_run [OF assms _ _ x, where k = 1])
      (simp_all add: standard_shape Between_def Opt_def numeral_2_eq_2)
qed

lemma standard_episode:
  assumes "FindStringSubmatch reStandard t = Some m"
  shows "run_of is_digit 2 3 (group m 3)"
proof -
  have "3 \<in> always_set reStandard" by (simp add: standard_shape)
  from submatch_set [OF assms this] obtain x where x: "m 3 = Some x" by blast
  show ?thesis
    by (rule submatch_run [OF assms _ _ x, where k = 1])
      (simp_all add: standard_shape Between_def Opt_def numeral_2_eq_2)
qed

lemma standard_episode2:
  assumes "FindStringSubmatch reStandard t = Some m"
  shows "group m 4 = [] \<or> run_of is_digit 2 3 (group m 4)"
proof (cases "m 4")
  case (Some x)
  have "run_of is_digit 2 3 (group m 4)"
    by (rule submatch_run [OF assms _ _ Some, where k = 1])
      (simp_all add: standard_shape Between_def Opt_def numeral_2_eq_2)
  then show ?thesis ..
qed (simp add: group_def)

text \<open>The numbers the groups of the standard pattern stand for.\<close>

lemma standard_values:
  assumes f: "FindStringSubmatch reStandard t = Some m"
  obtains s e where "Atoi_value (group m 2) = s" "0 \<le> s" "s < 100"
    "Atoi (group m 3) = Inr e" "0 \<le> e" "e < 1000"
    "group m 4 = [] \<or> (\<exists>l. Atoi (group m 4) = Inr l \<and> 0 \<le> l \<and> l < 1000)"
proof -
  from run_of_Atoi [of 0 2 "group m 2"] standard_season [OF f]
  obtain s where s: "Atoi_value (group m 2) = s" "0 \<le> s" "s < 100" by auto
  from run_of_Atoi [of 1 3 "group m 3"] standard_episode [OF f]
  obtain e where e: "Atoi (group m 3) = Inr e" "0 \<le> e" "e < 1000"
    by (auto simp: numeral_2_eq_2)
  from run_of_Atoi [of 1 3 "group m 4"] standard_episode2 [OF f]
  have "group m 4 = [] \<or> (\<exists>l. Atoi (group m 4) = Inr l \<and> 0 \<le> l \<and> l < 1000)"
    by (auto simp: numeral_2_eq_2)
  with s e that show ?thesis by blast
qed

text \<open>What the standard parse returns, on every branch: no match, one episode, a range.\<close>

lemma parseStandard_cases:
  assumes "pe_EpisodeNumbers info = []"
  obtains "FindStringSubmatch reStandard t = None" "parseStandard t info = Inr (False, info)"
  | title s es where
    "parseStandard t info = Inr (es \<noteq> [], info\<lparr>pe_SeriesTitle := title, pe_SeasonNumber := s,
       pe_EpisodeNumbers := es\<rparr>)"
    "clean_nf title" "0 \<le> s" "s < 100" "\<exists>a b. es = [a..b] \<and> 0 \<le> a \<and> b < 1000"
proof (cases "FindStringSubmatch reStandard t")
  case None
  then show ?thesis using that(1) by (simp add: parseStandard_def)
next
  case (Some m)
  obtain s e where v: "Atoi_value (group m 2) = s" "0 \<le> s" "s < 100"
    "Atoi (group m 3) = Inr e" "0 \<le> e" "e < 1000"
    "group m 4 = [] \<or> (\<exists>l. Atoi (group m 4) = Inr l \<and> 0 \<le> l \<and> l < 1000)"
    using standard_values [OF Some] by blast
  show ?thesis
  proof (cases "\<exists>l > 0. Atoi (group m 4) = Inr l")
    case True
    then obtain l where l: "l > 0" "Atoi (group m 4) = Inr l" by blast
    with v have "l < 1000" by auto
    with Some v l assms show ?thesis
      by (intro that(2) [where es = "[e..l]"])
        (auto simp: parseStandard_def Let_def cleanTitle_nf)
  next
    case False
    have "parseStandard t info = Inr ([e..e] \<noteq> [], info\<lparr>pe_SeriesTitle := cleanTitle (group m 1),
        pe_SeasonNumber := s, pe_EpisodeNumbers := [e..e]\<rparr>)"
      using Some v False assms
      by (auto simp: parseStandard_def Let_def split: sum.splits)
    moreover have "\<exists>a b. [e..e] = [a..b] \<and> 0 \<le> a \<and> b < 1000" using v by blast
    ultimately show ?thesis using v(2,3) cleanTitle_nf by (intro that(2) [where es = "[e..e]"]) auto
  qed
qed

lemma parseStandard_total:
  "\<exists>ok info'. parseStandard t (empty_info u) = Inr (ok, info') \<and> pe_SeriesType info' = SeriesTypeUnset"
  by (rule parseStandard_cases [of "empty_info u" t]) (auto simp: empty_info_def)

lemma parseDaily_type: "pe_SeriesType (snd (parseDaily t info)) = pe_SeriesType info"
  by (simp add: parseDaily_def Let_def split: option.splits)

lemma parseAnime_type: "pe_SeriesType (snd (parseAnime t info)) = pe_SeriesType info"
  by (simp add: parseAnime_def Let_def split: option.splits sum.splits)

text \<open>The record is typed standard exactly when the standard parse succeeded.\<close>

lemma ParseTitle_standard_iff:
  assumes "ParseTitle t = Inr info" "pe_SeriesType info = SeriesTypeStandard"
  obtains i where "parseStandard t (empty_info t) = Inr (True, i)"
    "info = i\<lparr>pe_SeriesType := SeriesTypeStandard, pe_ReleaseGroup := parseReleaseGroup t\<rparr>"
proof -
  obtain ok i where i: "parseStandard t (empty_info t) = Inr (ok, i)"
    "pe_SeriesType i = SeriesTypeUnset"
    using parseStandard_total by blast
  have "ok"
  proof (rule ccontr)
    assume "\<not> ok"
    with i assms parseDaily_type [of t i] parseAnime_type [of t "snd (parseDaily t i)"]
    show False
      by (auto simp: ParseTitle_def Let_def split: prod.splits if_splits)
  qed
  with i assms that show ?thesis by (auto simp: ParseTitle_def)
qed

lemma ParseTitle_total: "\<exists>info. ParseTitle t = Inr info"
proof -
  obtain ok i where "parseStandard t (empty_info t) = Inr (ok, i)"
    using parseStandard_total by blast
  then show ?thesis by (auto simp: ParseTitle_def Let_def split: prod.splits)
qed

subsection \<open>Properties\<close>

text \<open>\<open>ParseTitle\<close> returns a record for every release title: the index expression
  \<open>info.EpisodeNumbers[0]\<close> of the range branch is never out of range, whatever the title.\<close>

theorem ParseTitle_never_panics: "\<exists>info. ParseTitle t = Inr info"
  by (rule ParseTitle_total)

text \<open>C14: A title parsed as a standard release has a two-digit season, a non-empty run of
  consecutive episode numbers below 1000, and a normalised series title: no dots or
  underscores, no surrounding white space, no double spaces.\<close>

theorem ParseTitle_standard_bounds:
  assumes "ParseTitle t = Inr info" and "pe_SeriesType info = SeriesTypeStandard"
  shows "0 \<le> pe_SeasonNumber info \<and> pe_SeasonNumber info < 100 \<and> clean_nf (pe_SeriesTitle info) \<and>
    (\<exists>a b. 0 \<le> a \<and> a \<le> b \<and> b < 1000 \<and> pe_EpisodeNumbers info = [a..b])"
proof -
  obtain i where i: "parseStandard t (empty_info t) = Inr (True, i)"
    "info = i\<lparr>pe_SeriesType := SeriesTypeStandard, pe_ReleaseGroup := parseReleaseGroup t\<rparr>"
    using assms by (rule ParseTitle_standard_iff)
  have "pe_EpisodeNumbers (empty_info t) = []" by (simp add: empty_info_def)
  then show ?thesis
  proof (cases rule: parseStandard_cases [of _ t])
    case (2 title s es)
    then obtain a b where ab: "es = [a..b]" "0 \<le> a" "b < 1000" by blast
    from 2(1) i(1) have "es \<noteq> []" by auto
    with ab have "a \<le> b" by simp
    with 2 ab i show ?thesis by auto
  qed (use i in simp)
qed

theorem ParseTitle_standard_bounds_witness:
  "\<exists>info. ParseTitle ''A.S01E02E04'' = Inr info \<and> pe_SeriesType info = SeriesTypeStandard \<and>
     pe_SeasonNumber info = 1 \<and> pe_EpisodeNumbers info = [2, 3, 4] \<and> clean_nf (pe_SeriesTitle info)"
proof -
  let ?t = "''A.S01E02E04''"
  have "map_option (\<lambda>m. (group m 2, group m 3, group m 4)) (FindStringSubmatch reStandard ?t) =
      Some (''01'', ''02'', ''04'')" by code_simp
  then obtain m where m: "FindStringSubmatch reStandard ?t = Some m"
    "group m 2 = ''01''" "group m 3 = ''02''" "group m 4 = ''04''" by auto
  have "Atoi_value ''01'' = 1" "Atoi ''02'' = Inr 2" "Atoi ''04'' = Inr 4" by code_simp+
  moreover have "[2..4] = [2, 3, 4 :: int]" by code_simp
  ultimately have "parseStandard ?t (empty_info ?t) = Inr (True,
      (empty_info ?t)\<lparr>pe_SeriesTitle := cleanTitle (group m 1), pe_SeasonNumber := 1,
        pe_EpisodeNumbers := [2, 3, 4]\<rparr>)"
    by (simp add: parseStandard_def m Let_def empty_info_def)
  then obtain info where i: "ParseTitle ?t = Inr info" "pe_SeriesType info = SeriesTypeStandard"
    "pe_SeasonNumber info = 1" "pe_EpisodeNumbers info = [2, 3, 4]"
    by (simp add: ParseTitle_def)
  from ParseTitle_standard_bounds [OF i(1,2)] i show ?thesis by auto
qed

text \<open>\<open>cleanTitle\<close> always returns a normalised title, and a normalised title is left alone;
  so cleaning twice is cleaning once, and the collapsing loop ends for every input.\<close>

theorem cleanTitle_canonical:
  "clean_nf (cleanTitle s) \<and> cleanTitle (cleanTitle s) = cleanTitle s"
  by (simp add: cleanTitle_nf cleanTitle_id)

end
