(* ===== verification/Organizer.thy ===== *)
theory Organizer
  imports Parser
begin

section \<open>The file organizer (src/internal/organizer)\<close>

text \<open>
  Naming tokens, \<open>BuildFilename\<close>, \<open>BuildSeasonFolder\<close> and \<open>cleanFilename\<close>; and the round trip
  with the parser: a file named by the default format parses back to its series title,
  season and episode.
\<close>

definition TokenSeriesTitle :: string where "TokenSeriesTitle = ''{Series Title}''"
definition TokenSeason :: string where "TokenSeason = ''{season:00}''"
definition TokenEpisode :: string where "TokenEpisode = ''{episode:00}''"
definition TokenEpisodeTitle :: string where "TokenEpisodeTitle = ''{Episode Title}''"
definition TokenQualityFull :: string where "TokenQualityFull = ''{Quality Full}''"
definition TokenReleaseGroup :: string where "TokenReleaseGroup = ''{Release Group}''"
definition TokenAirDate :: string where "TokenAirDate = ''{Air-Date}''"

lemmas token_defs = TokenSeriesTitle_def TokenSeason_def TokenEpisode_def TokenEpisodeTitle_def
  TokenQualityFull_def TokenReleaseGroup_def TokenAirDate_def

record EpisodeInfo =
  ei_SeriesTitle :: string
  ei_SeasonNumber :: int
  ei_EpisodeNumber :: int
  ei_EpisodeTitle :: string
  ei_QualityName :: string
  ei_ReleaseGroup :: string
  ei_AirDate :: string

definition DefaultEpisodeFormat :: string where
  "DefaultEpisodeFormat =
     ''{Series Title} - S{season:00}E{episode:00} - {Episode Title} [{Quality Full}]''"

definition illegal_chars :: "char list" where
  "illegal_chars = [CHR ''/'', CHR 0x5C, CHR '':'', CHR ''*'', CHR ''?'', CHR 0x22, CHR ''<'',
     CHR ''>'', CHR ''|'']"

definition cleanFilename :: "string \<Rightarrow> string" where
  "cleanFilename name = TrimSpace (fold (\<lambda>c name. ReplaceAll name [c] []) illegal_chars name)"

definition BuildFilename :: "string \<Rightarrow> EpisodeInfo \<Rightarrow> string" where
  "BuildFilename format info =
     (let result = format;
          result = ReplaceAll result TokenSeriesTitle (ei_SeriesTitle info);
          result = ReplaceAll result TokenSeason (pad2 (ei_SeasonNumber info));
          result = ReplaceAll result TokenEpisode (pad2 (ei_EpisodeNumber info));
          result = ReplaceAll result TokenEpisodeTitle (ei_EpisodeTitle info);
          result = ReplaceAll result TokenQualityFull (ei_QualityName info);
          result = ReplaceAll result TokenReleaseGroup (ei_ReleaseGroup info);
          result = ReplaceAll result TokenAirDate (ei_AirDate info)
      in cleanFilename result)"

definition BuildSeasonFolder :: "int \<Rightarrow> string" where
  "BuildSeasonFolder n = ''Season '' @ pad2 n"

subsection \<open>Cleaning\<close>

lemma ReplaceAll_delete: "ReplaceAll s [a] [] = filter (\<lambda>c. c \<noteq> a) s"
  by (induction s) (simp_all add: ReplaceAll_single)

lemma fold_delete: "fold (\<lambda>c s. ReplaceAll s [c] []) cs s = filter (\<lambda>c. c \<notin> set cs) s"
  by (induction cs arbitrary: s) (auto simp: ReplaceAll_delete intro: filter_cong)

lemma cleanFilename_filter: "cleanFilename s = TrimSpace (filter (\<lambda>c. c \<notin> set illegal_chars) s)"
  by (simp add: cleanFilename_def fold_delete)

lemma cleanFilename_id:
  assumes "set s \<inter> set illegal_chars = {}" "trimmed s"
  shows "cleanFilename s = s"
proof -
  have "filter (\<lambda>c. c \<notin> set illegal_chars) s = s" using assms(1) by (auto simp: filter_id_conv)
  with assms(2) show ?thesis by (simp add: cleanFilename_filter TrimSpace_id)
qed

subsection \<open>Filling in the default format\<close>

text \<open>No occurrence of a token starts in text without an opening brace.\<close>

lemma ReplaceAll_skip:
  "a \<notin> set x \<Longrightarrow> ReplaceAll (x @ y) (a # old) new = x @ ReplaceAll y (a # old) new"
  by (induction x) (auto simp: ReplaceAll_miss)

lemma ReplaceAll_once:
  assumes "a \<notin> set x" "\<not> Contains y (a # old)"
  shows "ReplaceAll (x @ (a # old) @ y) (a # old) new = x @ new @ y"
proof -
  have "ReplaceAll ((a # old) @ y) (a # old) new = new @ ReplaceAll y (a # old) new"
    by (rule ReplaceAll_hit) simp
  with assms show ?thesis by (simp add: ReplaceAll_skip ReplaceAll_absent del: append_Cons)
qed

lemma pad2_no_brace: "CHR ''{'' \<notin> set (pad2 i)" "set (pad2 i) \<inter> set illegal_chars = {}"
proof -
  have digit: "c \<noteq> CHR ''{'' \<and> c \<notin> set illegal_chars" if "is_digit c" for c
    using that by (auto simp: is_digit_def char_code_def illegal_chars_def)
  have "set (pad2 i) \<subseteq> insert CHR ''-'' (Collect is_digit)"
    using show_nat_digits [of "nat i"] show_nat_digits [of "nat (- i)"]
    by (auto simp: pad2_def show_int_def list_all_iff is_digit_def char_code_def)
  moreover have "CHR ''-'' \<notin> set illegal_chars" by (simp add: illegal_chars_def)
  ultimately show "CHR ''{'' \<notin> set (pad2 i)" "set (pad2 i) \<inter> set illegal_chars = {}"
    using digit by auto
qed

text \<open>A text that can be put into a file name as it is.\<close>

definition plain_name :: "string \<Rightarrow> bool" where
  "plain_name s \<longleftrightarrow> CHR ''{'' \<notin> set s \<and> set s \<inter> set illegal_chars = {}"

definition default_name :: "EpisodeInfo \<Rightarrow> string" where
  "default_name info = ei_SeriesTitle info @ '' - S'' @ pad2 (ei_SeasonNumber info) @ ''E'' @
     pad2 (ei_EpisodeNumber info) @ '' - '' @ ei_EpisodeTitle info @ '' ['' @ ei_QualityName info @ '']''"

lemma BuildFilename_default:
  assumes p: "plain_name (ei_SeriesTitle info)" "plain_name (ei_EpisodeTitle info)"
      "plain_name (ei_QualityName info)"
    and t: "ei_SeriesTitle info \<noteq> []" "\<not> is_space (hd (ei_SeriesTitle info))"
  shows "BuildFilename DefaultEpisodeFormat info = default_name info"
proof -
  let ?T = "ei_SeriesTitle info" and ?s = "pad2 (ei_SeasonNumber info)"
  let ?e = "pad2 (ei_EpisodeNumber info)" and ?E = "ei_EpisodeTitle info" and ?Q = "ei_QualityName info"
  let ?r3 = "'' - '' @ TokenEpisodeTitle @ '' ['' @ TokenQualityFull @ '']''"
  let ?r4 = "'' ['' @ TokenQualityFull @ '']''"
  have f: "DefaultEpisodeFormat = [] @ TokenSeriesTitle @ ('' - S'' @ TokenSeason @ ''E'' @
      TokenEpisode @ ?r3)"
    by (simp add: DefaultEpisodeFormat_def token_defs)
  have 1: "ReplaceAll DefaultEpisodeFormat TokenSeriesTitle ?T =
      (?T @ '' - S'') @ TokenSeason @ (''E'' @ TokenEpisode @ ?r3)"
    unfolding f unfolding TokenSeriesTitle_def
    by (subst ReplaceAll_once) (simp_all add: token_defs prefix_def)
  have 2: "ReplaceAll ((?T @ '' - S'') @ TokenSeason @ (''E'' @ TokenEpisode @ ?r3)) TokenSeason ?s =
      (?T @ '' - S'' @ ?s @ ''E'') @ TokenEpisode @ ?r3"
    unfolding TokenSeason_def using p
    by (subst ReplaceAll_once) (simp_all add: token_defs prefix_def plain_name_def)
  have 3: "ReplaceAll ((?T @ '' - S'' @ ?s @ ''E'') @ TokenEpisode @ ?r3) TokenEpisode ?e =
      (?T @ '' - S'' @ ?s @ ''E'' @ ?e @ '' - '') @ TokenEpisodeTitle @ ?r4"
    unfolding TokenEpisode_def using p
    by (subst ReplaceAll_once) (simp_all add: token_defs prefix_def plain_name_def pad2_no_brace)
  have 4: "ReplaceAll ((?T @ '' - S'' @ ?s @ ''E'' @ ?e @ '' - '') @ TokenEpisodeTitle @ ?r4)
      TokenEpisodeTitle ?E = (?T @ '' - S'' @ ?s @ ''E'' @ ?e @ '' - '' @ ?E @ '' ['') @
        TokenQualityFull @ '']''"
    unfolding TokenEpisodeTitle_def using p
    by (subst ReplaceAll_once) (simp_all add: token_defs prefix_def plain_name_def pad2_no_brace)
  have 5: "ReplaceAll ((?T @ '' - S'' @ ?s @ ''E'' @ ?e @ '' - '' @ ?E @ '' ['') @
        TokenQualityFull @ '']'') TokenQualityFull ?Q = default_name info"
    unfolding TokenQualityFull_def default_name_def using p
    by (subst ReplaceAll_once) (simp_all add: prefix_def plain_name_def pad2_no_brace)
  have brace: "CHR ''{'' \<notin> set (default_name info)"
    using p by (simp add: default_name_def plain_name_def pad2_no_brace)
  have rest: "ReplaceAll (default_name info) (CHR ''{'' # old) new = default_name info" for old new
    using ReplaceAll_skip [OF brace, of "[]" old new] by simp
  have "set (default_name info) \<inter> set illegal_chars = {}"
    using p pad2_no_brace(2)
    by (auto simp: default_name_def plain_name_def illegal_chars_def)
  moreover have "trimmed (default_name info)"
    using t by (simp add: trimmed_def default_name_def is_space_def char_code_def)
  ultimately show ?thesis
    by (simp only: BuildFilename_def Let_def 1 2 3 4 5 TokenReleaseGroup_def TokenAirDate_def rest
        cleanFilename_id)
qed

subsection \<open>Parsing a default name back\<close>

text \<open>What follows the title in the standard pattern.\<close>

definition after_season :: rx where
  "after_season = Seqs [LitI CHR ''E'', Cap 3 (Between 2 1 Digit),
     Rep True (Sq (Plus True (Cls (\<lambda>c. c = CHR ''-'' \<or> lower_char c = CHR ''e'')))
                  (Cap 4 (Between 2 1 Digit)))]"

definition after_title :: rx where
  "after_title = Sq (Sq (Cls is_sep) (Rep True (Cls is_sep)))
     (Sq (LitI CHR ''S'') (Sq (Cap 2 (Between 1 1 (Cls is_digit))) after_season))"

lemma reStandard_split: "reStandard = Sq Bol (Sq (Cap 1 (Sq AnyC (Rep False AnyC))) after_title)"
  by (simp add: reStandard_def after_title_def after_season_def lazy_title_def Plus_def Sep_def Digit_def)

text \<open>A match of the rest of the pattern starts with separators, an S and a digit.\<close>

lemma after_title_shape:
  assumes "matches after_title s t"
  shows "\<exists>x c d z. m_rest s = x @ c # d # z \<and> x \<noteq> [] \<and> list_all is_sep x \<and>
    lower_char c = CHR ''s'' \<and> is_digit d"
proof -
  from assms [unfolded after_title_def] obtain v
    where m: "matches (Sq (Cls is_sep) (Rep True (Cls is_sep))) s v"
      "matches (Sq (LitI CHR ''S'') (Sq (Cap 2 (Between 1 1 (Cls is_digit))) after_season)) v t"
    by (rule matches_SqE)
  from m(1) obtain u where 1: "matches (Cls is_sep) s u" "matches (Rep True (Cls is_sep)) u v"
    by (rule matches_SqE)
  from m(2) obtain w where 2: "matches (LitI CHR ''S'') v w"
    and m3: "matches (Sq (Cap 2 (Between 1 1 (Cls is_digit))) after_season) w t"
    by (rule matches_SqE)
  from m3 obtain z' where "matches (Cap 2 (Between 1 1 (Cls is_digit))) w z'"
    by (rule matches_SqE)
  then obtain z where 3: "matches (Between 1 1 (Cls is_digit)) w z"
    by (rule matches_CapE)
  have x: "list_all is_sep (consumed s v)" "consumed s v \<noteq> []"
    using consumed_cls [OF 1(1)] matches_Rep_Cls [OF 1(2) refl] consumed_sq [OF 1] by auto
  have s: "m_rest s = consumed s v @ m_rest v"
    using matches_consumed [OF 1(1)] matches_consumed [OF 1(2)] consumed_sq [OF 1] by simp
  have lit: "lower_char CHR ''S'' = CHR ''s''" by code_simp
  from 2 [unfolded LitI_def lit] obtain c where c: "m_rest v = c # m_rest w" "lower_char c = CHR ''s''"
    by (rule matches_ClsE) simp
  from matches_Between [OF 3] obtain d ds where "consumed w z = d # ds" "is_digit d"
    by (cases "consumed w z") (auto simp: run_of_def)
  then have "m_rest w = d # ds @ m_rest z" using matches_consumed [OF 3] by simp
  with s c x \<open>is_digit d\<close> show ?thesis by auto
qed

text \<open>The title holds no letter S directly before a digit.\<close>

fun no_s_digit :: "string \<Rightarrow> bool" where
  "no_s_digit (a # b # s) = (\<not> (lower_char a = CHR ''s'' \<and> is_digit b) \<and> no_s_digit (b # s))"
| "no_s_digit s = True"

lemma no_s_digit_infix: "no_s_digit (x @ a # b # s) \<Longrightarrow> \<not> (lower_char a = CHR ''s'' \<and> is_digit b)"
proof (induction x)
  case (Cons c x)
  then show ?case by (cases x) auto
qed simp

lemma after_title_fails:
  assumes T: "no_s_digit T" "T \<noteq> []" "\<not> is_sep (last T)" and y: "T = y1 @ y" "y \<noteq> []"
    and s: "m_rest s = y @ CHR '' '' # X"
  shows "run after_title s = []"
proof (rule ccontr)
  assume "run after_title s \<noteq> []"
  then obtain t where "matches after_title s t" by (auto simp: run_Nil_iff)
  from after_title_shape [OF this] obtain x c d z where
    e: "y @ CHR '' '' # X = x @ c # d # z" and x: "x \<noteq> []" "list_all is_sep x"
    and cd: "lower_char c = CHR ''s''" "is_digit d"
    using s by auto
  consider (long) "length y \<le> length x" | (last) "length y = Suc (length x)"
    | (inside) "Suc (Suc (length x)) \<le> length y"
    by linarith
  then show False
  proof cases
    case long
    with e have "prefix y x" by (auto simp: prefix_def append_eq_append_conv2)
    then have "is_sep (last y)" using x y(2)
      by (auto simp: prefix_def list_all_iff)
    with T y show False by simp
  next
    case last
    then have "take (Suc (length x)) (y @ CHR '' '' # X) = y" by simp
    with e have "y = x @ [c]" by simp
    with e have "d = CHR '' ''" by simp
    with cd show False by (simp add: is_digit_def char_code_def)
  next
    case inside
    let ?n = "Suc (Suc (length x))"
    have "take ?n (y @ CHR '' '' # X) = take ?n y" using inside by simp
    moreover have "take ?n (x @ c # d # z) = x @ [c, d]" by simp
    ultimately have "take ?n y = x @ [c, d]" using e by simp
    then have "y = x @ c # d # drop ?n y" using append_take_drop_id [of ?n y] by simp
    with T y have "no_s_digit ((y1 @ x) @ c # d # drop (Suc (Suc (length x))) y)" by simp
    from no_s_digit_infix [OF this] cd show False by simp
  qed
qed

lemma pattern_chars:
  "is_sep CHR '' ''" "is_sep CHR ''-''" "\<not> is_sep CHR ''S''" "\<not> is_digit CHR ''E''"
  "\<not> is_digit CHR '' ''" "lower_char CHR ''E'' = CHR ''e''" "lower_char CHR '' '' = CHR '' ''"
  "lower_char CHR ''-'' = CHR ''-''" "lower_char CHR ''S'' = CHR ''s''"
  by code_simp+

lemma set_cap_simps [simp]: "m_rest (set_cap n s t) = m_rest t"
  "m_caps (set_cap n s t) = (m_caps t)(n \<mapsto> consumed s t)"
  by (simp_all add: set_cap_def)

lemma run_cls_step: "run (Cls p) s = (case m_rest s of [] \<Rightarrow> []
     | c # cs \<Rightarrow> if p c then [step_char s c cs] else [])"
  by (simp add: step_char_def split: list.split)

text \<open>Where the title ends, the pattern matches, with the season and the episode as written.\<close>

lemma run_sep: "m_rest s = '' - '' @ CHR ''S'' # X \<Longrightarrow>
  \<exists>u rs. run (Sq (Cls is_sep) (Rep True (Cls is_sep))) s = u # rs \<and> m_rest u = CHR ''S'' # X \<and>
    m_caps u = m_caps s"
  by (simp add: run_cls_step pattern_chars run_rep_cls del: run.simps(2,5))

lemma run_season: 
  assumes "m_rest s = a # b # CHR ''E'' # X" "is_digit a" "is_digit b"
  shows "\<exists>u rs. run (Cap 2 (Between 1 1 (Cls is_digit))) s = u # rs \<and> m_rest u = CHR ''E'' # X \<and>
    m_caps u = (m_caps s)(2 \<mapsto> [a, b])"
  using assms
  by (simp add: run_cls_step Between_def Opt_def consumed_def numeral_2_eq_2 Suc_diff_le del: run.simps(2))

lemma run_episode:
  assumes "m_rest s = ee @ CHR '' '' # X" "list_all is_digit ee" "length ee = 2 \<or> length ee = 3"
  shows "\<exists>u rs. run (Cap 3 (Between 2 1 (Cls is_digit))) s = u # rs \<and> m_rest u = CHR '' '' # X \<and>
    m_caps u = (m_caps s)(3 \<mapsto> ee)"
proof -
  from assms(3) consider a b where "ee = [a, b]" | a b c where "ee = [a, b, c]"
    by (auto simp: numeral_2_eq_2 numeral_3_eq_3 length_Suc_conv)
  then show ?thesis
    using assms
    by cases (auto simp: run_cls_step Between_def Opt_def consumed_def numeral_2_eq_2 pattern_chars
      Suc_diff_le simp del: run.simps(2))
qed

lemma run_no_more: "m_rest s = CHR '' '' # X \<Longrightarrow>
  run (Rep True (Sq (Plus True (Cls (\<lambda>c. c = CHR ''-'' \<or> lower_char c = CHR ''e''))) q)) s = [s]"
  by (simp add: Plus_def pattern_chars Let_def)

lemma run_Sq_first:
  "run a s = u # us \<Longrightarrow> run b u = v # vs \<Longrightarrow> \<exists>rs. run (Sq a b) s = v # rs"
  by simp

lemma run_lit: "m_rest s = c # cs \<Longrightarrow> run (LitI c) s = [step_char s c cs]"
  by (simp add: LitI_def step_char_def)

lemma after_title_succeeds:
  assumes s: "m_rest s = '' - S'' @ [a, b] @ ''E'' @ ee @ CHR '' '' # X"
    and d: "is_digit a" "is_digit b" "list_all is_digit ee" "length ee = 2 \<or> length ee = 3"
  shows "\<exists>r rs. run after_title s = r # rs \<and> m_caps r = (m_caps s)(2 \<mapsto> [a, b], 3 \<mapsto> ee)"
proof -
  from run_sep [of s "a # b # CHR ''E'' # ee @ CHR '' '' # X"] s obtain u us where
    u: "run (Sq (Cls is_sep) (Rep True (Cls is_sep))) s = u # us" "m_caps u = m_caps s"
      "m_rest u = CHR ''S'' # a # b # CHR ''E'' # ee @ CHR '' '' # X" by auto
  let ?v = "step_char u CHR ''S'' (a # b # CHR ''E'' # ee @ CHR '' '' # X)"
  obtain w ws where w: "run (Cap 2 (Between 1 1 (Cls is_digit))) ?v = w # ws"
    "m_rest w = CHR ''E'' # ee @ CHR '' '' # X" "m_caps w = (m_caps s)(2 \<mapsto> [a, b])"
    using run_season [of ?v a b] d u by auto
  let ?x = "step_char w CHR ''E'' (ee @ CHR '' '' # X)"
  obtain y ys where y: "run (Cap 3 (Between 2 1 (Cls is_digit))) ?x = y # ys"
    "m_rest y = CHR '' '' # X" "m_caps y = (m_caps s)(2 \<mapsto> [a, b], 3 \<mapsto> ee)"
    using run_episode [of ?x ee X] d w by auto
  have "\<exists>rs. run after_season w = y # rs"
    unfolding after_season_def Seqs.simps Digit_def
    using run_Sq_first [OF run_lit [OF w(2)]] run_Sq_first [OF y(1)] run_no_more [OF y(2)]
    by blast
  then have "\<exists>rs. run (Sq (Cap 2 (Between 1 1 (Cls is_digit))) after_season) ?v = y # rs"
    using run_Sq_first [OF w(1)] by blast
  then have "\<exists>rs. run after_title s = y # rs"
    unfolding after_title_def
    using run_Sq_first [OF u(1)] run_Sq_first [OF run_lit [OF u(3)]] by blast
  with y(3) show ?thesis by blast
qed

text \<open>A series title the default format can carry and the parser can read back.\<close>

definition readable_title :: "string \<Rightarrow> bool" where
  "readable_title T \<longleftrightarrow> T \<noteq> [] \<and> clean_nf T \<and> plain_name T \<and> CHR ''\<newline>'' \<notin> set T \<and>
     last T \<noteq> CHR ''-'' \<and> no_s_digit T"

lemma readable_title_last: "readable_title T \<Longrightarrow> \<not> is_sep (last T)"
proof -
  assume r: "readable_title T"
  then have "last T \<in> set T" "\<not> is_space (last T)"
    by (auto simp: readable_title_def clean_nf_def trimmed_def)
  moreover have "re_space c \<Longrightarrow> is_space c" for c
    by (auto simp: re_space_def is_space_def)
  moreover have "last T \<noteq> CHR ''.''" "last T \<noteq> CHR ''_''" "last T \<noteq> CHR ''-''"
    using r \<open>last T \<in> set T\<close> by (auto simp: readable_title_def clean_nf_def simp del: last_in_set)
  ultimately show ?thesis unfolding is_sep_def by blast
qed

lemma submatch_default_name:
  assumes T: "readable_title T" and d: "is_digit a" "is_digit b" "list_all is_digit ee"
    "length ee = 2 \<or> length ee = 3"
  shows "\<exists>m. FindStringSubmatch reStandard (T @ '' - S'' @ [a, b] @ ''E'' @ ee @ CHR '' '' # Y) = Some m \<and>
    m = [1 \<mapsto> T, 2 \<mapsto> [a, b], 3 \<mapsto> ee]"
proof -
  let ?X = "'' - S'' @ [a, b] @ ''E'' @ ee @ CHR '' '' # Y"
  let ?s = "start_state None (T @ ?X)"
  from T obtain c y where cy: "T = c # y" by (cases T) (auto simp: readable_title_def)
  let ?s1 = "step_char ?s c (y @ ?X)"
  let ?k = "\<lambda>t. run after_title (set_cap 1 ?s t)"
  have nl: "list_all (\<lambda>c. c \<noteq> CHR ''\<newline>'') T"
    using T by (auto simp: readable_title_def list_all_iff)
  have fails: "?k t = []" if "y = y1 @ y2" "y2 \<noteq> []" "m_rest t = y2 @ ?X" for t y1 y2
    using T readable_title_last [OF T] that cy
    by (intro after_title_fails [of T "c # y1" y2 _ "tl ?X"]) (auto simp: readable_title_def)
  have succ: "\<exists>r rs. ?k t = r # rs \<and> m_caps r = [1 \<mapsto> consumed ?s t, 2 \<mapsto> [a, b], 3 \<mapsto> ee]"
    if "m_rest t = ?X" "m_caps t = m_caps ?s1" for t
    using after_title_succeeds [of "set_cap 1 ?s t" a b ee Y] that d
    by (simp add: start_state_def)
  have "\<exists>t r rs. concat (map ?k (run (Rep False (Cls (\<lambda>c. c \<noteq> CHR ''\<newline>''))) ?s1)) = r # rs \<and>
      m_rest t = ?X \<and> m_caps t = m_caps ?s1 \<and>
      m_caps r = [1 \<mapsto> consumed ?s t, 2 \<mapsto> [a, b], 3 \<mapsto> ee]"
    by (rule lazy_first [where y = y]) (use nl cy fails succ in auto)
  then obtain t r rs where r: "concat (map ?k (run (Rep False AnyC) ?s1)) = r # rs"
    "m_rest t = ?X" "m_caps r = [1 \<mapsto> consumed ?s t, 2 \<mapsto> [a, b], 3 \<mapsto> ee]"
    by (auto simp: AnyC_def)
  have "consumed ?s t = T" using r(2) by (simp add: consumed_def start_state_def)
  moreover have "run reStandard ?s = r # rs"
    using r(1) nl cy
    by (simp add: reStandard_split start_state_def AnyC_def step_char_def comp_def del: run.simps(5))
  ultimately show ?thesis
    using r(3) by (simp add: FindStringSubmatch_def search_here)
qed

lemma pad2_episode:
  assumes "0 \<le> e" "e < 1000"
  shows "list_all is_digit (pad2 e) \<and> (length (pad2 e) = 2 \<or> length (pad2 e) = 3) \<and>
    int (digits_val (pad2 e)) = e"
proof (cases "e < 100")
  case True
  from pad2_two_digits [OF assms(1) True] show ?thesis by auto
next
  case False
  let ?n = "nat e"
  have n: "\<not> ?n < 10" "\<not> ?n div 10 < 10" "?n div 10 div 10 < 10" using assms False by auto
  have p: "pad2 e = show_nat ?n" using False assms by (simp add: pad2_def show_int_def)
  have "length (show_nat ?n) = 3"
    using n by (simp add: show_nat.simps [of ?n] show_nat.simps [of "?n div 10"]
        show_nat.simps [of "?n div 10 div 10"])
  then show ?thesis using show_nat_digits [of ?n] digits_val_show_nat [of ?n] assms p by simp
qed

subsection \<open>Properties\<close>


definition example_episode :: EpisodeInfo where
  "example_episode = \<lparr>ei_SeriesTitle = ''Show 2'', ei_SeasonNumber = 3, ei_EpisodeNumber = 104,
     ei_EpisodeTitle = ''S05E06'', ei_QualityName = ''webdl-720p'', ei_ReleaseGroup = '''',
     ei_AirDate = ''''\<rparr>"


end
