(* ===== verification/Profiles.thy ===== *)
theory Profiles
  imports Complex_Main Go_Strings
begin

section \<open>Quality profiles, release profiles, delay profiles, blocklist entries\<close>

text \<open>
  The rule data the decision engine reads: \<open>src/internal/profiles/quality.go\<close>,
  \<open>src/internal/releaseprofile/releaseprofile.go\<close>, \<open>src/internal/delayprofile/delayprofile.go\<close>
  and the match function of \<open>src/internal/blocklist/blocklist.go\<close>. A \<open>float64\<close> field is a
  rational: every finite \<open>float64\<close> is one, and the only arithmetic done on these fields
  multiplies by a power of two, which is exact.
\<close>

subsection \<open>Quality profiles\<close>

record QualityDefinition =
  qd_ID :: int
  qd_Name :: string
  qd_Source :: string
  qd_Resolution :: string
  qd_MinSize :: rat
  qd_MaxSize :: rat
  qd_PreferredSize :: rat

record QualityProfileItem =
  qi_QualityID :: int
  qi_Allowed :: bool

record FormatScoreItem =
  fs_FormatID :: int
  fs_Score :: int

record QualityProfile =
  qp_ID :: int
  qp_Name :: string
  qp_UpgradeAllowed :: bool
  qp_Cutoff :: int
  qp_Items :: "QualityProfileItem list"
  qp_MinFormatScore :: int
  qp_CutoffFormatScore :: int
  qp_FormatItems :: "FormatScoreItem list"

subsection \<open>Release profiles\<close>

record ReleaseProfile =
  rp_ID :: int
  rp_Name :: string
  rp_Enabled :: bool
  rp_Required :: "string list"
  rp_Ignored :: "string list"
  rp_IndexerID :: int
  rp_Tags :: "int list"

text \<open>\<open>compile\<close> stands for \<open>regexp.Compile\<close> followed by \<open>MatchString\<close>: \<open>None\<close> for a pattern that
  does not compile.\<close>

type_synonym compiler = "string \<Rightarrow> (string \<Rightarrow> bool) option"

definition is_regex_term :: "string \<Rightarrow> bool" where
  "is_regex_term t \<longleftrightarrow> 2 \<le> length t \<and> HasPrefix t ''/'' \<and> HasSuffix t ''/''"

definition termMatches :: "compiler \<Rightarrow> string \<Rightarrow> string \<Rightarrow> bool" where
  "termMatches compile t title =
     (if t = '''' then True
      else if is_regex_term t
      then (case compile (''(?i)'' @ take (length t - 2) (drop 1 t)) of
              None \<Rightarrow> False | Some re \<Rightarrow> re title)
      else Contains (ToLower title) (ToLower t))"

fun required_ok :: "compiler \<Rightarrow> string list \<Rightarrow> string \<Rightarrow> bool" where
  "required_ok compile [] title = True"
| "required_ok compile (t # ts) title =
     (if \<not> termMatches compile t title then False else required_ok compile ts title)"

fun ignored_ok :: "compiler \<Rightarrow> string list \<Rightarrow> string \<Rightarrow> bool" where
  "ignored_ok compile [] title = True"
| "ignored_ok compile (t # ts) title =
     (if termMatches compile t title then False else ignored_ok compile ts title)"

definition ReleaseProfile_Match :: "compiler \<Rightarrow> ReleaseProfile \<Rightarrow> string \<Rightarrow> bool" where
  "ReleaseProfile_Match compile p title =
     (required_ok compile (rp_Required p) title \<and> ignored_ok compile (rp_Ignored p) title)"

lemma required_ok_iff: "required_ok c ts title \<longleftrightarrow> (\<forall>t\<in>set ts. termMatches c t title)"
  by (induction ts) auto

lemma ignored_ok_iff: "ignored_ok c ts title \<longleftrightarrow> (\<forall>t\<in>set ts. \<not> termMatches c t title)"
  by (induction ts) auto

lemma termMatches_plain:
  "\<not> is_regex_term t \<Longrightarrow> termMatches c t title \<longleftrightarrow> sublist (ToLower t) (ToLower title)"
  by (auto simp: termMatches_def Contains_sublist ToLower_def)

subsection \<open>Delay profiles\<close>

type_synonym Protocol = string

definition DelayProtocolUsenet :: Protocol where "DelayProtocolUsenet = ''usenet''"
definition DelayProtocolTorrent :: Protocol where "DelayProtocolTorrent = ''torrent''"

record DelayProfile =
  dp_ID :: int
  dp_EnableUsenet :: bool
  dp_EnableTorrent :: bool
  dp_PreferredProtocol :: Protocol
  dp_UsenetDelay :: int
  dp_TorrentDelay :: int
  dp_Order :: int
  dp_BypassIfHighestQuality :: bool
  dp_BypassIfAboveCustomFormatScore :: bool
  dp_MinimumCustomFormatScore :: int
  dp_Tags :: "int list"

definition ProtocolDelay :: "DelayProfile \<Rightarrow> Protocol \<Rightarrow> int" where
  "ProtocolDelay p proto = (if proto = DelayProtocolTorrent then dp_TorrentDelay p else dp_UsenetDelay p)"

fun ApplicableProfile :: "DelayProfile list \<Rightarrow> int list \<Rightarrow> DelayProfile option" where
  "ApplicableProfile [] seriesTags = None"
| "ApplicableProfile (p # ps) seriesTags =
     (if dp_Tags p = [] then Some p
      else if list_ex (\<lambda>tag. tag \<in> set seriesTags) (dp_Tags p) then Some p
      else ApplicableProfile ps seriesTags)"

definition applies :: "DelayProfile \<Rightarrow> int list \<Rightarrow> bool" where
  "applies p tags \<longleftrightarrow> dp_Tags p = [] \<or> set (dp_Tags p) \<inter> set tags \<noteq> {}"

lemma ApplicableProfile_find: "ApplicableProfile ps tags = List.find (\<lambda>p. applies p tags) ps"
  by (induction ps) (auto simp: applies_def list_ex_iff)

subsection \<open>Blocklist entries\<close>

record BlocklistEntry =
  bl_ID :: int
  bl_SeriesID :: int
  bl_EpisodeIDs :: "int list"
  bl_SourceTitle :: string
  bl_Quality :: string
  bl_Languages :: string
  bl_Date :: int
  bl_PublishedDate :: "int option"
  bl_Size :: "int option"
  bl_Protocol :: Protocol
  bl_Indexer :: string
  bl_IndexerFlags :: int
  bl_ReleaseType :: string
  bl_Message :: string
  bl_TorrentInfoHash :: string

fun Blocklist_Matches :: "BlocklistEntry list \<Rightarrow> int \<Rightarrow> string \<Rightarrow> bool" where
  "Blocklist_Matches [] seriesID releaseTitle = False"
| "Blocklist_Matches (e # es) seriesID releaseTitle =
     (if bl_SeriesID e = seriesID \<and> bl_SourceTitle e = releaseTitle then True
      else Blocklist_Matches es seriesID releaseTitle)"

lemma Blocklist_Matches_iff:
  "Blocklist_Matches es sid title \<longleftrightarrow>
   (\<exists>e\<in>set es. bl_SeriesID e = sid \<and> bl_SourceTitle e = title)"
  by (induction es) auto

subsection \<open>Properties\<close>

text \<open>A release passes a release profile exactly when every required term occurs in the
  title and no ignored term does, both without regard to case; a term is a plain substring
  unless it is written between slashes. An empty term occurs in every title, so an empty
  ignored term rejects every release.\<close>

theorem ReleaseProfile_Match_terms:
  assumes "\<forall>t\<in>set (rp_Required p) \<union> set (rp_Ignored p). \<not> is_regex_term t"
  shows "ReleaseProfile_Match c p title \<longleftrightarrow>
    (\<forall>t\<in>set (rp_Required p). sublist (ToLower t) (ToLower title)) \<and>
    (\<forall>t\<in>set (rp_Ignored p). \<not> sublist (ToLower t) (ToLower title))"
  using assms
  by (simp add: ReleaseProfile_Match_def required_ok_iff ignored_ok_iff termMatches_plain)

definition example_release_profile :: ReleaseProfile where
  "example_release_profile = \<lparr>rp_ID = 1, rp_Name = ''x265 only'', rp_Enabled = True,
     rp_Required = [''x265''], rp_Ignored = [''CAM''], rp_IndexerID = 0, rp_Tags = []\<rparr>"

theorem ReleaseProfile_Match_terms_witness:
  "ReleaseProfile_Match (\<lambda>_. None) example_release_profile ''Show.X265''"
proof -
  have plain: "\<forall>t\<in>set (rp_Required example_release_profile) \<union> set (rp_Ignored example_release_profile).
      \<not> is_regex_term t"
    by (simp add: example_release_profile_def is_regex_term_def HasPrefix_def)
  have "sublist (ToLower ''x265'') (ToLower ''Show.X265'')"
    "\<not> sublist (ToLower ''CAM'') (ToLower ''Show.X265'')"
    unfolding Contains_sublist [symmetric] by code_simp+
  then show ?thesis
    unfolding ReleaseProfile_Match_terms [OF plain] by (simp add: example_release_profile_def)
qed

text \<open>The delay profile of a series is the first in the list that applies to it, that is,
  the first with no tags or with a tag of the series: every profile before it applies to
  other tags only, and with an untagged profile in the list there always is one.\<close>

theorem ApplicableProfile_first:
  "(case ApplicableProfile ps tags of
      Some p \<Rightarrow> \<exists>pre post. ps = pre @ p # post \<and> applies p tags \<and> list_all (\<lambda>q. \<not> applies q tags) pre
    | None \<Rightarrow> list_all (\<lambda>p. dp_Tags p \<noteq> [] \<and> set (dp_Tags p) \<inter> set tags = {}) ps)"
proof (cases "ApplicableProfile ps tags")
  case None
  then have "\<forall>p\<in>set ps. \<not> applies p tags" by (simp add: ApplicableProfile_find find_None_set)
  with None show ?thesis by (auto simp: applies_def list_all_iff)
next
  case (Some p)
  then obtain i where i: "i < length ps" "applies (ps ! i) tags" "p = ps ! i"
    "\<forall>j<i. \<not> applies (ps ! j) tags"
    by (auto simp: ApplicableProfile_find find_Some_iff)
  then have "ps = take i ps @ p # drop (Suc i) ps" by (simp add: id_take_nth_drop)
  moreover have "\<forall>q\<in>set (take i ps). \<not> applies q tags"
    using i by (auto simp: set_conv_nth)
  ultimately show ?thesis using Some i by (auto simp: list_all_iff)
qed

end
