(* ===== verification/CustomFormats.thy ===== *)
theory CustomFormats
  imports Parser Profiles "HOL-Library.Multiset"
begin

section \<open>Custom formats (src/internal/customformats)\<close>

text \<open>
  Matching a parsed release against a custom format and scoring it against the weights of a
  quality profile. Two things the code gets from outside are arguments: \<open>compile\<close>, for
  \<open>regexp.Compile\<close> on a user's pattern, and \<open>fl\<close>, the rounding of one \<open>float64\<close> operation,
  used by the size parser.
\<close>

record Specification =
  sp_Name :: string
  sp_Implementation :: string
  sp_Negate :: bool
  sp_Required :: bool
  sp_Value :: string

record CustomFormat =
  cf_ID :: int
  cf_Name :: string
  cf_IncludeWhenRenaming :: bool
  cf_Specifications :: "Specification list"

subsection \<open>Sizes\<close>

text \<open>The loop of \<open>parseGB\<close> over the characters: the value, whether the dot is still to come,
  the divisor; \<open>None\<close> is the early return of 0 on a character that is no digit.\<close>

fun parseGB_loop :: "(rat \<Rightarrow> rat) \<Rightarrow> rat \<Rightarrow> bool \<Rightarrow> rat \<Rightarrow> string \<Rightarrow> rat option" where
  "parseGB_loop fl f beforeDot divisor [] = Some f"
| "parseGB_loop fl f beforeDot divisor (c # cs) =
     (if c = CHR ''.'' \<and> beforeDot then parseGB_loop fl f False divisor cs
      else if \<not> is_digit c then None
      else if beforeDot
      then parseGB_loop fl (fl (fl (f * 10) + of_nat (digit_val c))) beforeDot divisor cs
      else let divisor = fl (divisor * 10)
           in parseGB_loop fl (fl (f + fl (of_nat (digit_val c) / divisor))) beforeDot divisor cs)"

text \<open>\<open>int64\<close> of a \<open>float64\<close> truncates towards zero.\<close>

definition trunc :: "rat \<Rightarrow> int" where
  "trunc x = (if x < 0 then \<lceil>x\<rceil> else \<lfloor>x\<rfloor>)"

definition parseGB :: "(rat \<Rightarrow> rat) \<Rightarrow> string \<Rightarrow> int" where
  "parseGB fl s =
     (let sign = (if HasPrefix s ''-'' then -1 else 1);
          digits = (if HasPrefix s ''-'' then drop 1 s else s)
      in case parseGB_loop fl 0 True 1 digits of
           None \<Rightarrow> 0
         | Some f \<Rightarrow> wrap64 (trunc (fl (f * 2 ^ 30)) * sign))"

definition parseSizeRange :: "(rat \<Rightarrow> rat) \<Rightarrow> string \<Rightarrow> int \<times> int" where
  "parseSizeRange fl s =
     (case SplitN2 s CHR ''-'' of
        [a, b] \<Rightarrow> (parseGB fl (TrimSpace a), parseGB fl (TrimSpace b))
      | _ \<Rightarrow> (0, 0))"

subsection \<open>Matching\<close>

definition matchRegex :: "compiler \<Rightarrow> string \<Rightarrow> string \<Rightarrow> bool" where
  "matchRegex compile pat text = (case compile pat of None \<Rightarrow> False | Some re \<Rightarrow> re text)"

definition matchSpec ::
  "compiler \<Rightarrow> (rat \<Rightarrow> rat) \<Rightarrow> ParsedEpisodeInfo \<Rightarrow> Specification \<Rightarrow> bool" where
  "matchSpec compile fl info spec =
     (let impl = sp_Implementation spec; v = sp_Value spec
      in if impl = ''ReleaseTitleSpecification'' then matchRegex compile v (pe_ReleaseTitle info)
         else if impl = ''SourceSpecification''
         then source_string (pq_Source (pe_Quality info)) = ToLower v
         else if impl = ''ResolutionSpecification''
         then resolution_string (pq_Resolution (pe_Quality info)) = ToLower v
         else if impl = ''ReleaseGroupSpecification''
         then matchRegex compile v (pe_ReleaseGroup info)
         else if impl = ''LanguageSpecification''
         then list_ex (\<lambda>l. EqualFold l v) (pe_Languages info)
         else if impl = ''IndexerFlagSpecification''
         then list_ex (\<lambda>f. EqualFold f v) (pe_IndexerFlags info)
         else if impl = ''SizeSpecification''
         then (case parseSizeRange fl v of (lo, hi) \<Rightarrow>
                 if pe_Size info = 0 then False
                 else pe_Size info \<ge> lo \<and> (hi = 0 \<or> pe_Size info \<le> hi))
         else if impl = ''ReleaseTypeSpecification'' then EqualFold (pe_ReleaseType info) v
         else True)"

fun match_all :: "compiler \<Rightarrow> (rat \<Rightarrow> rat) \<Rightarrow> ParsedEpisodeInfo \<Rightarrow> Specification list \<Rightarrow> bool" where
  "match_all compile fl info [] = True"
| "match_all compile fl info (spec # specs) =
     (let matched = matchSpec compile fl info spec;
          matched = (if sp_Negate spec then \<not> matched else matched)
      in if \<not> matched then False else match_all compile fl info specs)"

definition CustomFormat_Match ::
  "compiler \<Rightarrow> (rat \<Rightarrow> rat) \<Rightarrow> ParsedEpisodeInfo \<Rightarrow> CustomFormat \<Rightarrow> bool" where
  "CustomFormat_Match compile fl info cf = match_all compile fl info (cf_Specifications cf)"

lemma match_all_iff:
  "match_all c fl info specs \<longleftrightarrow> (\<forall>s\<in>set specs. matchSpec c fl info s \<noteq> sp_Negate s)"
  by (induction specs) (auto simp: Let_def)

subsection \<open>Scoring\<close>

text \<open>The weight map: later entries of the profile overwrite earlier ones; a missing key
  reads as 0.\<close>

definition weights :: "FormatScoreItem list \<Rightarrow> int \<Rightarrow> int" where
  "weights items = fold (\<lambda>fi w. w(fs_FormatID fi := fs_Score fi)) items (\<lambda>_. 0)"

definition Score ::
  "compiler \<Rightarrow> (rat \<Rightarrow> rat) \<Rightarrow> ParsedEpisodeInfo \<Rightarrow> CustomFormat list \<Rightarrow> QualityProfile \<Rightarrow> int" where
  "Score compile fl info formats profile =
     foldl (\<lambda>total cf. if CustomFormat_Match compile fl info cf
                       then wrap64 (total + weights (qp_FormatItems profile) (cf_ID cf)) else total)
       0 formats"

lemma weights_snoc [simp]:
  "weights (items @ [fi]) = (weights items)(fs_FormatID fi := fs_Score fi)"
  by (simp add: weights_def)

lemma weights_absent: "f \<notin> fs_FormatID ` set items \<Longrightarrow> weights items f = 0"
  by (induction items rule: rev_induct) (auto simp: weights_def)

definition matched_weights ::
  "compiler \<Rightarrow> (rat \<Rightarrow> rat) \<Rightarrow> ParsedEpisodeInfo \<Rightarrow> CustomFormat list \<Rightarrow> QualityProfile \<Rightarrow> int list" where
  "matched_weights c fl info formats profile =
     map (\<lambda>cf. weights (qp_FormatItems profile) (cf_ID cf))
       (filter (CustomFormat_Match c fl info) formats)"

text \<open>The wrapped running sum is the wrapped sum.\<close>

lemma Score_fold:
  "foldl (\<lambda>t cf. if P cf then wrap64 (t + w cf) else t) (wrap64 a) fs =
     wrap64 (a + sum_list (map w (filter P fs)))"
proof (induction fs arbitrary: a)
  case (Cons x fs)
  show ?case
  proof (cases "P x")
    case True
    then have "foldl (\<lambda>t cf. if P cf then wrap64 (t + w cf) else t) (wrap64 a) (x # fs)
        = foldl (\<lambda>t cf. if P cf then wrap64 (t + w cf) else t) (wrap64 (a + w x)) fs"
      by (simp add: wrap64_add_left)
    with True Cons.IH [of "a + w x"] show ?thesis by (simp add: add.assoc)
  qed (simp add: Cons.IH)
qed simp

lemma Score_wrapped_sum:
  "Score c fl info formats profile = wrap64 (sum_list (matched_weights c fl info formats profile))"
proof -
  have "wrap64 0 = 0" by (simp add: int64_range_def)
  then show ?thesis
    unfolding Score_def matched_weights_def
    using Score_fold [of "CustomFormat_Match c fl info" _ 0 formats]
    by (simp add: comp_def)
qed

subsection \<open>Sizes without a fraction\<close>

text \<open>What the size parser needs of \<open>float64\<close> rounding: integers of at most 53 bits are
  represented exactly, so an operation whose exact result is one of them returns it.\<close>

definition exact_small_ints :: "(rat \<Rightarrow> rat) \<Rightarrow> bool" where
  "exact_small_ints fl \<longleftrightarrow> (\<forall>n::nat. n \<le> 2 ^ 53 \<longrightarrow> fl (of_nat n) = of_nat n)"

lemma exact_small_intsD: "exact_small_ints fl \<Longrightarrow> n \<le> 2 ^ 53 \<Longrightarrow> fl (of_nat n) = of_nat n"
  by (simp add: exact_small_ints_def)

lemma digits_foldl_mono:
  "n \<le> foldl (\<lambda>a c. a * 10 + digit_val c) n s"
proof (induction s arbitrary: n)
  case (Cons c s)
  have "n \<le> n * 10 + digit_val c" by simp
  also have "\<dots> \<le> foldl (\<lambda>a c. a * 10 + digit_val c) (n * 10 + digit_val c) s" by (rule Cons.IH)
  finally show ?case by simp
qed simp

lemma parseGB_loop_digits:
  assumes fl: "exact_small_ints fl"
  shows "list_all is_digit s \<Longrightarrow> foldl (\<lambda>a c. a * 10 + digit_val c) n s \<le> 2 ^ 53 \<Longrightarrow>
    parseGB_loop fl (of_nat n) True d s = Some (of_nat (foldl (\<lambda>a c. a * 10 + digit_val c) n s))"
proof (induction s arbitrary: n)
  case (Cons c s)
  let ?m = "n * 10 + digit_val c"
  have "?m \<le> foldl (\<lambda>a c. a * 10 + digit_val c) ?m s" by (rule digits_foldl_mono)
  with Cons.prems have m: "?m \<le> 2 ^ 53" by simp
  then have "n * 10 \<le> 2 ^ 53" by simp
  then have "fl (of_nat n * 10) = of_nat (n * 10)"
    using exact_small_intsD [OF fl, of "n * 10"] by simp
  moreover have "fl (of_nat (n * 10) + of_nat (digit_val c)) = of_nat ?m"
    using exact_small_intsD [OF fl m] by simp
  moreover have "c \<noteq> CHR ''.''" "is_digit c"
    using Cons.prems by (auto simp: is_digit_def char_code_def)
  ultimately show ?case using Cons.IH [of ?m] Cons.prems by simp
qed simp

lemma parseGB_int:
  assumes fl: "exact_small_ints fl" and s: "list_all is_digit s" and n: "digits_val s \<le> 2 ^ 23"
  shows "parseGB fl s = int (digits_val s) * 2 ^ 30"
proof -
  have noneg: "\<not> HasPrefix s ''-''"
    using s by (cases s) (auto simp: HasPrefix_def is_digit_def char_code_def)
  have "parseGB_loop fl 0 True 1 s = Some (of_nat (digits_val s))"
    using parseGB_loop_digits [OF fl s, of 0 1] n by (simp add: digits_val_def)
  moreover have "digits_val s * 2 ^ 30 \<le> 2 ^ 53"
    using mult_right_mono [OF n, of "2 ^ 30"] by simp
  then have "fl (of_nat (digits_val s) * 2 ^ 30) = of_nat (digits_val s * 2 ^ 30)"
    using exact_small_intsD [OF fl, of "digits_val s * 2 ^ 30"] by simp
  moreover have "trunc (of_nat k) = int k" for k
    by (simp add: trunc_def)
  moreover have "int64_range (int (digits_val s * 2 ^ 30))"
    using \<open>digits_val s * 2 ^ 30 \<le> 2 ^ 53\<close> by (simp add: int64_range_def)
  ultimately have "parseGB fl s = int (digits_val s * 2 ^ 30)"
    using noneg by (simp add: parseGB_def Let_def del: of_nat_mult)
  then show ?thesis by simp
qed

subsection \<open>Properties\<close>

text \<open>The custom format score of a release is the sum of the weights of the formats it
  matches, each weight being the last one the profile lists for that format and 0 when it
  lists none, as long as that sum fits in 64 bits. It depends only on which formats there
  are, not on the order in which the store returns them.\<close>

theorem Score_is_sum:
  assumes "int64_range (sum_list (matched_weights c fl info formats profile))"
    and "mset formats' = mset formats"
  shows "Score c fl info formats' profile = sum_list (matched_weights c fl info formats profile)"
proof -
  let ?w = "\<lambda>fs. matched_weights c fl info fs profile"
  have "mset (?w formats') = mset (?w formats)"
    using assms(2) by (simp add: matched_weights_def)
  then have "sum_list (?w formats') = sum_list (?w formats)"
    by (metis sum_mset_sum_list)
  with assms(1) show ?thesis by (simp add: Score_wrapped_sum)
qed

definition example_format :: "int \<Rightarrow> string \<Rightarrow> CustomFormat" where
  "example_format i v = \<lparr>cf_ID = i, cf_Name = ''f'', cf_IncludeWhenRenaming = False,
     cf_Specifications = [\<lparr>sp_Name = ''s'', sp_Implementation = ''ReleaseTypeSpecification'',
       sp_Negate = False, sp_Required = True, sp_Value = v\<rparr>]\<rparr>"

definition example_profile :: QualityProfile where
  "example_profile = \<lparr>qp_ID = 1, qp_Name = ''Any'', qp_UpgradeAllowed = True, qp_Cutoff = 0,
     qp_Items = [\<lparr>qi_QualityID = 1, qi_Allowed = True\<rparr>, \<lparr>qi_QualityID = 2, qi_Allowed = False\<rparr>],
     qp_MinFormatScore = 0, qp_CutoffFormatScore = 0,
     qp_FormatItems = [\<lparr>fs_FormatID = 1, fs_Score = 5\<rparr>, \<lparr>fs_FormatID = 1, fs_Score = 7\<rparr>,
       \<lparr>fs_FormatID = 2, fs_Score = -3\<rparr>]\<rparr>"

theorem Score_is_sum_witness:
  "Score (\<lambda>_. None) id (empty_info ''x'') [example_format 2 '''', example_format 1 '''']
     example_profile = 4"
proof -
  let ?c = "\<lambda>_. None" and ?fs = "[example_format 1 '''', example_format 2 '''']"
  have w: "matched_weights ?c id (empty_info ''x'') ?fs example_profile = [7, -3]"
    by (simp add: matched_weights_def CustomFormat_Match_def example_format_def matchSpec_def
        empty_info_def weights_def example_profile_def EqualFold_def ToLower_def)
  then have "int64_range (sum_list (matched_weights ?c id (empty_info ''x'') ?fs example_profile))"
    by (simp add: int64_range_def)
  from Score_is_sum [OF this, of "[example_format 2 '''', example_format 1 '''']"] w
  show ?thesis by simp
qed

text \<open>A size specification written with whole gigabytes, \<open>lo-hi\<close>, means what it says: with
  \<open>float64\<close> arithmetic exact on 53-bit integers, the bounds are exactly \<open>lo\<close> and \<open>hi\<close> times
  \<open>2 ^ 30\<close> bytes, for sizes of up to \<open>2 ^ 23\<close> gigabytes.\<close>

theorem parseSizeRange_whole:
  assumes "exact_small_ints fl" and "list_all is_digit lo" and "list_all is_digit hi"
    and "digits_val lo \<le> 2 ^ 23" and "digits_val hi \<le> 2 ^ 23"
  shows "parseSizeRange fl (lo @ ''-'' @ hi) =
    (int (digits_val lo) * 2 ^ 30, int (digits_val hi) * 2 ^ 30)"
proof -
  have digit: "\<not> is_space d" "d \<noteq> CHR ''-''" if "is_digit d" for d
    using that by (auto simp: is_digit_def is_space_def char_code_def)
  have trim: "TrimSpace s = s" if "list_all is_digit s" for s
  proof -
    have "trimmed s" using that digit by (cases "s = []") (auto simp: trimmed_def list_all_iff)
    then show ?thesis by (rule TrimSpace_id)
  qed
  have lo: "\<forall>c\<in>set lo. c \<noteq> CHR ''-''" using assms(2) digit by (auto simp: list_all_iff)
  have "SplitN2 (lo @ ''-'' @ hi) CHR ''-'' = [lo, hi]"
    using lo by (auto simp: SplitN2_def takeWhile_append dropWhile_append)
  with assms trim show ?thesis by (simp add: parseSizeRange_def parseGB_int)
qed

theorem parseSizeRange_whole_witness: "parseSizeRange id ''2-10'' = (2147483648, 10737418240)"
proof -
  have "exact_small_ints id" by (simp add: exact_small_ints_def)
  moreover have "list_all is_digit ''2''" "list_all is_digit ''10''"
    "digits_val ''2'' = 2" "digits_val ''10'' = 10" by code_simp+
  ultimately show ?thesis using parseSizeRange_whole [of id "''2''" "''10''"] by simp
qed

end
