(* ===== verification/Stable_Sort.thy ===== *)
theory Stable_Sort
  imports Prelude "HOL-Library.Multiset"
begin

section \<open>Go's sort.SliceStable\<close>

text \<open>
  \<open>sort.SliceStable\<close> takes a \<open>less\<close> function and sorts in place, keeping equal elements in
  their order. It is modelled by the insertion sort that Go runs on each block: the next
  element moves left over the elements it is less than. The contract a caller's \<open>less\<close>
  has to meet is the locale \<open>strict_weak\<close>; what the sort then promises is proved there.
\<close>

text \<open>The sorted part is kept reversed, so the scan starts at its right end.\<close>

fun ins_left :: "('a \<Rightarrow> 'a \<Rightarrow> bool) \<Rightarrow> 'a \<Rightarrow> 'a list \<Rightarrow> 'a list" where
  "ins_left lt x [] = [x]"
| "ins_left lt x (y # ys) = (if lt x y then y # ins_left lt x ys else x # y # ys)"

definition SliceStable :: "('a \<Rightarrow> 'a \<Rightarrow> bool) \<Rightarrow> 'a list \<Rightarrow> 'a list" where
  "SliceStable lt xs = rev (fold (ins_left lt) xs [])"

lemma mset_ins_left [simp]: "mset (ins_left lt x ys) = add_mset x (mset ys)"
  by (induction ys) auto

lemma set_ins_left [simp]: "set (ins_left lt x ys) = insert x (set ys)"
  by (induction ys) auto

lemma mset_fold_ins: "mset (fold (ins_left lt) xs ys) = mset xs + mset ys"
  by (induction xs arbitrary: ys) auto

lemma mset_SliceStable [simp]: "mset (SliceStable lt xs) = mset xs"
  by (simp add: SliceStable_def mset_fold_ins)

lemma set_SliceStable [simp]: "set (SliceStable lt xs) = set xs"
  using mset_SliceStable by (rule mset_eq_setD)

lemma length_SliceStable [simp]: "length (SliceStable lt xs) = length xs"
  using mset_SliceStable by (rule mset_eq_length)

lemma SliceStable_Nil_iff [simp]: "SliceStable lt xs = [] \<longleftrightarrow> xs = []"
  by (metis length_0_conv length_SliceStable)

locale strict_weak =
  fixes lt :: "'a \<Rightarrow> 'a \<Rightarrow> bool"
  assumes asym: "lt x y \<Longrightarrow> \<not> lt y x"
    and negtrans: "\<not> lt x y \<Longrightarrow> \<not> lt y z \<Longrightarrow> \<not> lt x z"
begin

definition equiv :: "'a \<Rightarrow> 'a \<Rightarrow> bool" where
  "equiv x y \<longleftrightarrow> \<not> lt x y \<and> \<not> lt y x"

lemma irrefl: "\<not> lt x x"
  using asym by blast

lemma equiv_not_less: "equiv x k \<Longrightarrow> equiv y k \<Longrightarrow> \<not> lt x y"
  unfolding equiv_def using negtrans by blast

text \<open>Nothing later in the (reversed) sorted part is less than what comes before it there.\<close>

lemma ins_left_sorted:
  "sorted_wrt (\<lambda>a b. \<not> lt a b) ys \<Longrightarrow> sorted_wrt (\<lambda>a b. \<not> lt a b) (ins_left lt x ys)"
proof (induction ys)
  case (Cons y ys)
  then have IH: "sorted_wrt (\<lambda>a b. \<not> lt a b) (ins_left lt x ys)"
    and y: "\<forall>b\<in>set ys. \<not> lt y b" by auto
  show ?case
  proof (cases "lt x y")
    case True
    with IH y asym show ?thesis by auto
  next
    case False
    then have "\<forall>b\<in>set ys. \<not> lt x b" using y negtrans by blast
    with False Cons.prems show ?thesis by simp
  qed
qed simp

lemma fold_ins_sorted:
  "sorted_wrt (\<lambda>a b. \<not> lt a b) ys \<Longrightarrow>
   sorted_wrt (\<lambda>a b. \<not> lt a b) (fold (ins_left lt) xs ys)"
  by (induction xs arbitrary: ys) (auto intro: ins_left_sorted)

lemma SliceStable_sorted: "sorted_wrt (\<lambda>a b. \<not> lt b a) (SliceStable lt xs)"
  using fold_ins_sorted [of "[]" xs] by (simp add: SliceStable_def sorted_wrt_rev)

text \<open>The first element is one that no other element precedes.\<close>

lemma SliceStable_hd_best: "y \<in> set xs \<Longrightarrow> \<not> lt y (hd (SliceStable lt xs))"
proof -
  assume y: "y \<in> set xs"
  then obtain h t where ht: "SliceStable lt xs = h # t"
    by (metis empty_iff empty_set list.exhaust SliceStable_Nil_iff)
  from SliceStable_sorted [of xs] ht have "\<forall>b\<in>set t. \<not> lt b h" by simp
  moreover have "y \<in> set (h # t)" using y ht set_SliceStable [of lt xs] by simp
  ultimately show ?thesis using irrefl ht by auto
qed

lemma ins_left_filter:
  "filter (equiv k) (ins_left lt x ys) =
     (if equiv k x then x # filter (equiv k) ys else filter (equiv k) ys)"
proof (induction ys)
  case (Cons y ys)
  show ?case
  proof (cases "lt x y \<and> equiv k x")
    case True
    then have "\<not> equiv k y" using equiv_not_less [of x k y] by (auto simp: equiv_def)
    with True Cons.IH show ?thesis by simp
  next
    case False
    with Cons.IH show ?thesis by auto
  qed
qed simp

lemma fold_ins_filter:
  "filter (equiv k) (fold (ins_left lt) xs ys) = rev (filter (equiv k) xs) @ filter (equiv k) ys"
  by (induction xs arbitrary: ys) (auto simp: ins_left_filter)

lemma SliceStable_stable: "filter (equiv k) (SliceStable lt xs) = filter (equiv k) xs"
  by (simp add: SliceStable_def fold_ins_filter flip: rev_filter)

end

end
