(* ===== verification/DecisionEngine.thy ===== *)
theory DecisionEngine
  imports CustomFormats Stable_Sort
begin

section \<open>The decision engine (src/internal/decisionengine)\<close>

text \<open>
  The types of \<open>types.go\<close>, the specifications of \<open>specs/\<close>, the engine of \<open>engine.go\<close> and the list
  of specifications \<open>src/internal/app/app.go\<close> builds it from. The \<open>Spec\<close> interface is a record
  of a name and a function; what the engine relies on is the locale \<open>decision_spec\<close>, which is
  interpreted on every specification of the source.
\<close>

subsection \<open>Types\<close>

datatype Decision = Accept | Reject

datatype RejectionType = Permanent | Temporary

record Rejection =
  rej_Type :: RejectionType
  rej_Reason :: string
  rej_Spec :: string

record DecisionRelease =
  rel_Title :: string
  rel_Size :: int
  rel_Indexer :: string
  rel_Age :: int
  rel_Protocol :: string
  rel_Seeders :: int

record RemoteEpisode =
  re_Release :: DecisionRelease
  re_ParsedInfo :: ParsedEpisodeInfo
  re_SeriesID :: int
  re_EpisodeIDs :: "int list"
  re_Quality :: ParsedQuality
  re_QualityID :: int
  re_CustomFormats :: "int list"
  re_CFScore :: int
  re_ExistingFileQualityID :: int
  re_ExistingFileReleaseGroup :: string

type_synonym verdict = "Decision \<times> Rejection list"

record Spec =
  spec_Name :: string
  spec_Evaluate :: "RemoteEpisode \<Rightarrow> QualityProfile \<Rightarrow> verdict"

text \<open>The verb \<open>%q\<close> on the strings it is used for: backslash escapes for the quote, the
  backslash and the common control characters.\<close>

definition quote_char :: "char \<Rightarrow> string" where
  "quote_char c =
     (if c = CHR 0x22 \<or> c = CHR 0x5C then [CHR 0x5C, c]
      else if c = CHR 0x0A then [CHR 0x5C, CHR ''n'']
      else if c = CHR 0x0D then [CHR 0x5C, CHR ''r'']
      else if c = CHR 0x09 then [CHR 0x5C, CHR ''t'']
      else [c])"

definition show_q :: "string \<Rightarrow> string" where
  "show_q s = [CHR 0x22] @ concat (map quote_char s) @ [CHR 0x22]"

definition accept :: verdict where
  "accept = (Accept, [])"

definition reject :: "string \<Rightarrow> string \<Rightarrow> verdict" where
  "reject name reason = (Reject, [\<lparr>rej_Type = Permanent, rej_Reason = reason, rej_Spec = name\<rparr>])"

subsection \<open>The specifications\<close>

definition profileIndex :: "int \<Rightarrow> QualityProfile \<Rightarrow> nat" where
  "profileIndex qualityID profile = index_of (\<lambda>it. qi_QualityID it = qualityID) (qp_Items profile)"

fun quality_allowed_loop :: "int \<Rightarrow> QualityProfileItem list \<Rightarrow> verdict" where
  "quality_allowed_loop q [] =
     reject ''QualityAllowed'' (''quality '' @ show_int q @ '' is not in profile'')"
| "quality_allowed_loop q (it # items) =
     (if qi_QualityID it = q
      then if qi_Allowed it then accept
           else reject ''QualityAllowed'' (''quality '' @ show_int q @ '' is not allowed in profile'')
      else quality_allowed_loop q items)"

definition QualityAllowedSpec :: Spec where
  "QualityAllowedSpec = \<lparr>spec_Name = ''QualityAllowed'', spec_Evaluate =
     (\<lambda>remote profile. quality_allowed_loop (re_QualityID remote) (qp_Items profile))\<rparr>"

definition CustomFormatScoreSpec :: Spec where
  "CustomFormatScoreSpec = \<lparr>spec_Name = ''CustomFormatScore'', spec_Evaluate = (\<lambda>remote profile.
     if re_CFScore remote \<ge> qp_MinFormatScore profile then accept
     else reject ''CustomFormatScore'' (''custom format score '' @ show_int (re_CFScore remote) @
       '' is below minimum '' @ show_int (qp_MinFormatScore profile)))\<rparr>"

definition UpgradeAllowedSpec :: Spec where
  "UpgradeAllowedSpec = \<lparr>spec_Name = ''UpgradeAllowed'', spec_Evaluate = (\<lambda>remote profile.
     if re_ExistingFileQualityID remote = 0 then accept
     else if qp_UpgradeAllowed profile then accept
     else reject ''UpgradeAllowed'' ''existing file and upgrading is not allowed by this profile'')\<rparr>"

definition UpgradableSpec :: Spec where
  "UpgradableSpec = \<lparr>spec_Name = ''Upgradable'', spec_Evaluate = (\<lambda>remote profile.
     if re_ExistingFileQualityID remote = 0 then accept
     else let existingIndex = profileIndex (re_ExistingFileQualityID remote) profile;
              releaseIndex = profileIndex (re_QualityID remote) profile
          in if existingIndex \<le> releaseIndex
             then reject ''Upgradable''
                    ''existing file quality is equal or better than release quality''
             else accept)\<rparr>"

definition mb :: int where "mb = 1024 * 1024"

definition defForQuality :: "QualityDefinition list \<Rightarrow> int \<Rightarrow> QualityDefinition option" where
  "defForQuality defs q = List.find (\<lambda>d. qd_ID d = q) defs"

definition size_bytes :: "rat \<Rightarrow> int" where
  "size_bytes megabytes = trunc (megabytes * of_int mb)"

definition AcceptableSizeSpec :: "QualityDefinition list \<Rightarrow> Spec" where
  "AcceptableSizeSpec defs = \<lparr>spec_Name = ''AcceptableSize'', spec_Evaluate = (\<lambda>remote profile.
     let sz = rel_Size (re_Release remote)
     in if sz = 0 then accept
        else case defForQuality defs (re_QualityID remote) of
          None \<Rightarrow> accept
        | Some d \<Rightarrow>
            let minBytes = size_bytes (qd_MinSize d); maxBytes = size_bytes (qd_MaxSize d)
            in if minBytes > 0 \<and> sz < minBytes
               then reject ''AcceptableSize'' (''release size '' @ show_int sz @
                 '' bytes is below minimum '' @ show_int minBytes @ '' bytes for quality '' @ qd_Name d)
               else if qd_MaxSize d > 0 \<and> sz > maxBytes
               then reject ''AcceptableSize'' (''release size '' @ show_int sz @
                 '' bytes exceeds maximum '' @ show_int maxBytes @ '' bytes for quality '' @ qd_Name d)
               else accept)\<rparr>"

definition sampleThreshold :: int where "sampleThreshold = 40 * 1024 * 1024"

definition NotSampleSpec :: Spec where
  "NotSampleSpec = \<lparr>spec_Name = ''NotSample'', spec_Evaluate = (\<lambda>remote profile.
     let sz = rel_Size (re_Release remote)
     in if sz > 0 \<and> sz < sampleThreshold
        then reject ''NotSample'' (''release size '' @ show_int sz @
          '' bytes is below 40 MB sample threshold'')
        else accept)\<rparr>"

definition RepackSpec :: Spec where
  "RepackSpec = \<lparr>spec_Name = ''Repack'', spec_Evaluate = (\<lambda>remote profile.
     if pq_Modifier (re_Quality remote) \<noteq> ModifierRepack then accept
     else if re_ExistingFileQualityID remote = 0 then accept
     else if pe_ReleaseGroup (re_ParsedInfo remote) = re_ExistingFileReleaseGroup remote then accept
     else reject ''Repack'' (''repack release group '' @
       show_q (pe_ReleaseGroup (re_ParsedInfo remote)) @
       '' does not match existing file release group '' @ show_q (re_ExistingFileReleaseGroup remote)))\<rparr>"

definition AlreadyImportedSpec :: Spec where
  "AlreadyImportedSpec = \<lparr>spec_Name = ''AlreadyImported'', spec_Evaluate = (\<lambda>remote profile. accept)\<rparr>"

text \<open>The blocklist store: \<open>None\<close> is the nil store, otherwise \<open>ListBySeries\<close>.\<close>

type_synonym blocklist_reader = "int \<Rightarrow> (string, BlocklistEntry list) result"

definition BlocklistedSpec :: "blocklist_reader option \<Rightarrow> Spec" where
  "BlocklistedSpec store = \<lparr>spec_Name = ''Blocklisted'', spec_Evaluate = (\<lambda>remote profile.
     case store of None \<Rightarrow> accept
     | Some listBySeries \<Rightarrow>
         (case listBySeries (re_SeriesID remote) of
            Inl err \<Rightarrow> accept
          | Inr entries \<Rightarrow>
              if Blocklist_Matches entries (re_SeriesID remote) (rel_Title (re_Release remote))
              then reject ''Blocklisted'' (''Release '' @ show_q (rel_Title (re_Release remote)) @
                '' is blocklisted for series '' @ show_int (re_SeriesID remote))
              else accept))\<rparr>"

type_synonym profiles_fn = "int \<Rightarrow> string \<Rightarrow> (string, ReleaseProfile list) result"

fun release_profile_loop :: "compiler \<Rightarrow> string \<Rightarrow> ReleaseProfile list \<Rightarrow> verdict" where
  "release_profile_loop compile title [] = accept"
| "release_profile_loop compile title (p # ps) =
     (if \<not> rp_Enabled p then release_profile_loop compile title ps
      else if \<not> ReleaseProfile_Match compile p title
      then reject ''ReleaseProfile'' (''Release profile '' @ show_q (rp_Name p) @
        '' rejected release '' @ show_q title)
      else release_profile_loop compile title ps)"

definition ReleaseProfileSpec :: "compiler \<Rightarrow> profiles_fn option \<Rightarrow> Spec" where
  "ReleaseProfileSpec compile profilesFn = \<lparr>spec_Name = ''ReleaseProfile'',
     spec_Evaluate = (\<lambda>remote profile.
       case profilesFn of None \<Rightarrow> accept
       | Some fn \<Rightarrow>
           (case fn (re_SeriesID remote) (rel_Indexer (re_Release remote)) of
              Inl err \<Rightarrow> accept
            | Inr profs \<Rightarrow> release_profile_loop compile (rel_Title (re_Release remote)) profs))\<rparr>"

subsection \<open>The engine\<close>

type_synonym Engine = "Spec list"

fun collect :: "Spec list \<Rightarrow> RemoteEpisode \<Rightarrow> QualityProfile \<Rightarrow> Rejection list" where
  "collect [] remote profile = []"
| "collect (s # specs) remote profile =
     (case spec_Evaluate s remote profile of (d, r) \<Rightarrow>
        if d = Reject then r @ collect specs remote profile else collect specs remote profile)"

definition Evaluate :: "Engine \<Rightarrow> RemoteEpisode \<Rightarrow> QualityProfile \<Rightarrow> verdict" where
  "Evaluate specs remote profile =
     (let rejections = collect specs remote profile
      in if length rejections > 0 then (Reject, rejections) else (Accept, []))"

definition qualityIndex :: "RemoteEpisode \<Rightarrow> QualityProfile \<Rightarrow> nat" where
  "qualityIndex remote profile =
     index_of (\<lambda>item. qi_QualityID item = re_QualityID remote) (qp_Items profile)"

definition rank_less :: "QualityProfile \<Rightarrow> RemoteEpisode \<Rightarrow> RemoteEpisode \<Rightarrow> bool" where
  "rank_less profile a b =
     (if re_CFScore a \<noteq> re_CFScore b then re_CFScore a > re_CFScore b
      else let qi = qualityIndex a profile; qj = qualityIndex b profile
           in if qi \<noteq> qj then qi < qj
              else rel_Size (re_Release a) > rel_Size (re_Release b))"

definition Rank :: "RemoteEpisode list \<Rightarrow> QualityProfile \<Rightarrow> RemoteEpisode list" where
  "Rank remotes profile = SliceStable (rank_less profile) remotes"

subsection \<open>The engine the application builds (app.go)\<close>

text \<open>The closure passed as \<open>ProfilesFn\<close>: the enabled profiles that are bound to no indexer.\<close>

definition app_profiles_fn :: "(string, ReleaseProfile list) result \<Rightarrow> profiles_fn" where
  "app_profiles_fn listed = (\<lambda>_ _. bindR listed (\<lambda>all.
     Inr (filter (\<lambda>p. rp_Enabled p \<and> rp_IndexerID p = 0) all)))"

definition app_engine ::
  "compiler \<Rightarrow> QualityDefinition list \<Rightarrow> blocklist_reader option \<Rightarrow>
   (string, ReleaseProfile list) result \<Rightarrow> Engine" where
  "app_engine compile allDefs blStore rpList =
     [QualityAllowedSpec, CustomFormatScoreSpec, UpgradeAllowedSpec, UpgradableSpec,
      AcceptableSizeSpec allDefs, NotSampleSpec, RepackSpec, AlreadyImportedSpec,
      BlocklistedSpec blStore, ReleaseProfileSpec compile (Some (app_profiles_fn rpList))]"

subsection \<open>The contract of a specification\<close>

text \<open>A rejection carries at least one reason, an acceptance none, and every reason names the
  specification that gave it and is permanent.\<close>

locale decision_spec =
  fixes spec :: Spec
  assumes reject_reasons: "fst (spec_Evaluate spec r p) = Reject \<Longrightarrow> snd (spec_Evaluate spec r p) \<noteq> []"
    and accept_silent: "fst (spec_Evaluate spec r p) = Accept \<Longrightarrow> snd (spec_Evaluate spec r p) = []"
    and signed: "x \<in> set (snd (spec_Evaluate spec r p)) \<Longrightarrow>
      rej_Spec x = spec_Name spec \<and> rej_Type x = Permanent"
begin

lemma rejects_iff: "fst (spec_Evaluate spec r p) = Reject \<longleftrightarrow> snd (spec_Evaluate spec r p) \<noteq> []"
  using reject_reasons accept_silent by (cases "fst (spec_Evaluate spec r p)") auto

lemma collect_head: "collect (spec # specs) r p = snd (spec_Evaluate spec r p) @ collect specs r p"
  using accept_silent [of r p]
  by (cases "spec_Evaluate spec r p"; cases "fst (spec_Evaluate spec r p)") auto

end

text \<open>A verdict of one of the two shapes the specifications build.\<close>

definition shaped :: "string \<Rightarrow> verdict \<Rightarrow> bool" where
  "shaped n v \<longleftrightarrow> v = accept \<or> (\<exists>reason. v = reject n reason)"

lemma shaped_simps [simp]: "shaped n accept" "shaped n (reject n reason)"
  by (auto simp: shaped_def)

lemma shaped_if [simp]: "shaped n x \<Longrightarrow> shaped n y \<Longrightarrow> shaped n (if b then x else y)"
  by simp

lemma decision_specI:
  assumes "\<And>r p. shaped (spec_Name s) (spec_Evaluate s r p)"
  shows "decision_spec s"
proof
  fix r p x
  have v: "shaped (spec_Name s) (spec_Evaluate s r p)" by (rule assms)
  show "fst (spec_Evaluate s r p) = Reject \<Longrightarrow> snd (spec_Evaluate s r p) \<noteq> []"
    using v by (auto simp: shaped_def accept_def reject_def)
  show "fst (spec_Evaluate s r p) = Accept \<Longrightarrow> snd (spec_Evaluate s r p) = []"
    using v by (auto simp: shaped_def accept_def reject_def)
  show "x \<in> set (snd (spec_Evaluate s r p)) \<Longrightarrow> rej_Spec x = spec_Name s \<and> rej_Type x = Permanent"
    using v by (auto simp: shaped_def accept_def reject_def)
qed

lemma shaped_quality_loop: "shaped ''QualityAllowed'' (quality_allowed_loop q items)"
  by (induction items) simp_all

lemma shaped_release_loop: "shaped ''ReleaseProfile'' (release_profile_loop c title ps)"
  by (induction ps) simp_all

interpretation quality_allowed: decision_spec QualityAllowedSpec
  by (rule decision_specI) (simp add: QualityAllowedSpec_def shaped_quality_loop)

interpretation cf_score: decision_spec CustomFormatScoreSpec
  by (rule decision_specI) (simp add: CustomFormatScoreSpec_def)

interpretation upgrade_allowed: decision_spec UpgradeAllowedSpec
  by (rule decision_specI) (simp add: UpgradeAllowedSpec_def)

interpretation upgradable: decision_spec UpgradableSpec
  by (rule decision_specI) (simp add: UpgradableSpec_def Let_def)

interpretation acceptable_size: decision_spec "AcceptableSizeSpec defs" for defs
  by (rule decision_specI) (simp add: AcceptableSizeSpec_def Let_def split: option.splits)

interpretation not_sample: decision_spec NotSampleSpec
  by (rule decision_specI) (simp add: NotSampleSpec_def Let_def)

interpretation repack: decision_spec RepackSpec
  by (rule decision_specI) (simp add: RepackSpec_def)

interpretation already_imported: decision_spec AlreadyImportedSpec
  by (rule decision_specI) (simp add: AlreadyImportedSpec_def)

interpretation blocklisted: decision_spec "BlocklistedSpec store" for store
  by (rule decision_specI) (simp add: BlocklistedSpec_def split: option.splits sum.splits)

interpretation release_profile: decision_spec "ReleaseProfileSpec c fn" for c fn
  by (rule decision_specI)
    (simp add: ReleaseProfileSpec_def shaped_release_loop split: option.splits sum.splits)

lemmas specs_contract = quality_allowed.decision_spec_axioms cf_score.decision_spec_axioms
  upgrade_allowed.decision_spec_axioms upgradable.decision_spec_axioms
  acceptable_size.decision_spec_axioms not_sample.decision_spec_axioms
  repack.decision_spec_axioms already_imported.decision_spec_axioms
  blocklisted.decision_spec_axioms release_profile.decision_spec_axioms

definition wf_engine :: "Engine \<Rightarrow> bool" where
  "wf_engine specs \<longleftrightarrow> list_all decision_spec specs"

lemma app_engine_wf: "wf_engine (app_engine c defs bl rp)"
  by (simp add: wf_engine_def app_engine_def specs_contract)

lemma collect_concat:
  "wf_engine specs \<Longrightarrow> collect specs r p = concat (map (\<lambda>s. snd (spec_Evaluate s r p)) specs)"
  by (induction specs) (simp_all add: wf_engine_def decision_spec.collect_head del: collect.simps(2))

lemma Evaluate_accept_iff:
  assumes "wf_engine specs"
  shows "fst (Evaluate specs r p) = Accept \<longleftrightarrow>
    list_all (\<lambda>s. fst (spec_Evaluate s r p) = Accept) specs"
proof -
  have each: "snd (spec_Evaluate s r p) = [] \<longleftrightarrow> fst (spec_Evaluate s r p) = Accept"
    if "s \<in> set specs" for s
    using decision_spec.rejects_iff [of s r p] assms that
    by (cases "fst (spec_Evaluate s r p)") (auto simp: wf_engine_def list_all_iff)
  have "fst (Evaluate specs r p) = Accept \<longleftrightarrow> collect specs r p = []"
    by (simp add: Evaluate_def Let_def)
  also have "\<dots> \<longleftrightarrow> (\<forall>s\<in>set specs. snd (spec_Evaluate s r p) = [])"
    by (simp add: collect_concat [OF assms])
  also have "\<dots> \<longleftrightarrow> list_all (\<lambda>s. fst (spec_Evaluate s r p) = Accept) specs"
    using each by (auto simp: list_all_iff)
  finally show ?thesis .
qed

subsection \<open>When each specification accepts\<close>

lemma verdict_simps [simp]: "fst accept = Accept" "fst (reject n reason) = Reject"
  by (simp_all add: accept_def reject_def)

definition quality_allowed_in :: "QualityProfile \<Rightarrow> int \<Rightarrow> bool" where
  "quality_allowed_in p q \<longleftrightarrow>
     (case List.find (\<lambda>it. qi_QualityID it = q) (qp_Items p) of None \<Rightarrow> False | Some it \<Rightarrow> qi_Allowed it)"

lemma quality_loop_accepts:
  "fst (quality_allowed_loop q items) = Accept \<longleftrightarrow>
     (case List.find (\<lambda>it. qi_QualityID it = q) items of None \<Rightarrow> False | Some it \<Rightarrow> qi_Allowed it)"
  by (induction items) auto

definition size_in_range :: "QualityDefinition list \<Rightarrow> int \<Rightarrow> int \<Rightarrow> bool" where
  "size_in_range defs q sz \<longleftrightarrow> sz = 0 \<or>
     (case defForQuality defs q of None \<Rightarrow> True
      | Some d \<Rightarrow> (size_bytes (qd_MinSize d) \<le> 0 \<or> size_bytes (qd_MinSize d) \<le> sz) \<and>
                  (qd_MaxSize d \<le> 0 \<or> sz \<le> size_bytes (qd_MaxSize d)))"

definition blocklisted_release :: "blocklist_reader option \<Rightarrow> int \<Rightarrow> string \<Rightarrow> bool" where
  "blocklisted_release store sid title \<longleftrightarrow>
     (\<exists>f entries. store = Some f \<and> f sid = Inr entries \<and>
        (\<exists>e\<in>set entries. bl_SeriesID e = sid \<and> bl_SourceTitle e = title))"

lemma release_loop_accepts:
  "fst (release_profile_loop c title ps) = Accept \<longleftrightarrow>
     (\<forall>p\<in>set ps. rp_Enabled p \<longrightarrow> ReleaseProfile_Match c p title)"
  by (induction ps) auto

text \<open>The declarative rule: what the ten specifications of the application demand together.\<close>

definition acceptable ::
  "compiler \<Rightarrow> QualityDefinition list \<Rightarrow> blocklist_reader option \<Rightarrow>
   (string, ReleaseProfile list) result \<Rightarrow> RemoteEpisode \<Rightarrow> QualityProfile \<Rightarrow> bool" where
  "acceptable c defs bl rp r p \<longleftrightarrow>
     (let sz = rel_Size (re_Release r); title = rel_Title (re_Release r);
          existing = re_ExistingFileQualityID r
      in quality_allowed_in p (re_QualityID r) \<and>
         qp_MinFormatScore p \<le> re_CFScore r \<and>
         (existing = 0 \<or> (qp_UpgradeAllowed p \<and>
            profileIndex (re_QualityID r) p < profileIndex existing p)) \<and>
         size_in_range defs (re_QualityID r) sz \<and>
         (sz \<le> 0 \<or> sampleThreshold \<le> sz) \<and>
         (existing = 0 \<or> pq_Modifier (re_Quality r) \<noteq> ModifierRepack \<or>
            pe_ReleaseGroup (re_ParsedInfo r) = re_ExistingFileReleaseGroup r) \<and>
         \<not> blocklisted_release bl (re_SeriesID r) title \<and>
         (case rp of Inl _ \<Rightarrow> True
          | Inr all \<Rightarrow> list_all (\<lambda>q. ReleaseProfile_Match c q title)
                         (filter (\<lambda>q. rp_Enabled q \<and> rp_IndexerID q = 0) all)))"

lemma spec_accepts:
  "fst (spec_Evaluate QualityAllowedSpec r p) = Accept \<longleftrightarrow> quality_allowed_in p (re_QualityID r)"
  "fst (spec_Evaluate CustomFormatScoreSpec r p) = Accept \<longleftrightarrow> qp_MinFormatScore p \<le> re_CFScore r"
  "fst (spec_Evaluate UpgradeAllowedSpec r p) = Accept \<longleftrightarrow>
     re_ExistingFileQualityID r = 0 \<or> qp_UpgradeAllowed p"
  "fst (spec_Evaluate UpgradableSpec r p) = Accept \<longleftrightarrow> re_ExistingFileQualityID r = 0 \<or>
     profileIndex (re_QualityID r) p < profileIndex (re_ExistingFileQualityID r) p"
  "fst (spec_Evaluate NotSampleSpec r p) = Accept \<longleftrightarrow>
     rel_Size (re_Release r) \<le> 0 \<or> sampleThreshold \<le> rel_Size (re_Release r)"
  "fst (spec_Evaluate RepackSpec r p) = Accept \<longleftrightarrow> re_ExistingFileQualityID r = 0 \<or>
     pq_Modifier (re_Quality r) \<noteq> ModifierRepack \<or>
     pe_ReleaseGroup (re_ParsedInfo r) = re_ExistingFileReleaseGroup r"
  "fst (spec_Evaluate AlreadyImportedSpec r p) = Accept"
  by (auto simp: QualityAllowedSpec_def quality_loop_accepts quality_allowed_in_def
      CustomFormatScoreSpec_def UpgradeAllowedSpec_def UpgradableSpec_def Let_def NotSampleSpec_def
      RepackSpec_def AlreadyImportedSpec_def)

lemma size_spec_accepts:
  "fst (spec_Evaluate (AcceptableSizeSpec defs) r p) = Accept \<longleftrightarrow>
     size_in_range defs (re_QualityID r) (rel_Size (re_Release r))"
  by (auto simp: AcceptableSizeSpec_def size_in_range_def Let_def not_less split: option.splits)

lemma blocklist_spec_accepts:
  "fst (spec_Evaluate (BlocklistedSpec bl) r p) = Accept \<longleftrightarrow>
     \<not> blocklisted_release bl (re_SeriesID r) (rel_Title (re_Release r))"
  by (auto simp: BlocklistedSpec_def blocklisted_release_def Blocklist_Matches_iff
      split: option.splits sum.splits)

lemma release_spec_accepts:
  "fst (spec_Evaluate (ReleaseProfileSpec c (Some (app_profiles_fn rp))) r p) = Accept \<longleftrightarrow>
     (case rp of Inl _ \<Rightarrow> True
      | Inr all \<Rightarrow> list_all (\<lambda>q. ReleaseProfile_Match c q (rel_Title (re_Release r)))
                     (filter (\<lambda>q. rp_Enabled q \<and> rp_IndexerID q = 0) all))"
  by (auto simp: ReleaseProfileSpec_def app_profiles_fn_def release_loop_accepts list_all_iff
      split: sum.splits)

subsection \<open>Ranking\<close>

text \<open>The comparison function meets the contract of the stable sort.\<close>

interpretation rank: strict_weak "rank_less profile" for profile
proof
  show "rank_less profile x y \<Longrightarrow> \<not> rank_less profile y x" for x y
    by (auto simp: rank_less_def Let_def split: if_splits)
  show "\<not> rank_less profile x y \<Longrightarrow> \<not> rank_less profile y z \<Longrightarrow> \<not> rank_less profile x z" for x y z
    by (auto simp: rank_less_def Let_def split: if_splits)
qed

lemma not_rank_less:
  "\<not> rank_less p b a \<longleftrightarrow> re_CFScore b < re_CFScore a \<or> re_CFScore a = re_CFScore b \<and>
     (qualityIndex a p < qualityIndex b p \<or> qualityIndex a p = qualityIndex b p \<and>
      rel_Size (re_Release b) \<le> rel_Size (re_Release a))"
  by (auto simp: rank_less_def Let_def)

lemma rank_equiv_iff:
  "rank.equiv p a b \<longleftrightarrow> re_CFScore a = re_CFScore b \<and> qualityIndex a p = qualityIndex b p \<and>
     rel_Size (re_Release a) = rel_Size (re_Release b)"
  by (auto simp: rank.equiv_def rank_less_def Let_def)

lemma Rank_Nil_iff [simp]: "Rank rs p = [] \<longleftrightarrow> rs = []"
  by (simp add: Rank_def)

lemma set_Rank [simp]: "set (Rank rs p) = set rs"
  by (simp add: Rank_def)

lemma Rank_hd_best: "y \<in> set rs \<Longrightarrow> \<not> rank_less p y (hd (Rank rs p))"
  unfolding Rank_def by (rule rank.SliceStable_hd_best)

subsection \<open>Properties\<close>

text \<open>C2: The application's engine accepts a release exactly when the declarative rule holds:
  the quality is allowed by the profile, the custom format score reaches the minimum, an
  existing file may be upgraded and the release is strictly preferred to it, the size is
  within the definition's bounds and no sample, a repack comes from the group of the existing
  file, and neither the blocklist nor a release profile excludes the title.\<close>

theorem app_engine_accepts:
  "fst (Evaluate (app_engine c defs bl rp) r p) = Accept \<longleftrightarrow> acceptable c defs bl rp r p"
  unfolding Evaluate_accept_iff [OF app_engine_wf]
  by (auto simp: app_engine_def spec_accepts size_spec_accepts blocklist_spec_accepts
      release_spec_accepts acceptable_def Let_def)

text \<open>For an engine of specifications that meet the contract, in particular the
  application's, the rejections reported are the reasons of every specification, in the order
  of the specifications and without stopping at the first; the release is rejected exactly
  when there is one, and every reason is signed by a specification of the engine.\<close>

theorem Evaluate_reports_all:
  assumes "wf_engine specs"
  shows "snd (Evaluate specs r p) = concat (map (\<lambda>s. snd (spec_Evaluate s r p)) specs) \<and>
    (fst (Evaluate specs r p) = Reject \<longleftrightarrow>
       (\<exists>s\<in>set specs. fst (spec_Evaluate s r p) = Reject)) \<and>
    rej_Spec ` set (snd (Evaluate specs r p)) \<subseteq> spec_Name ` set specs"
proof -
  have c: "collect specs r p = concat (map (\<lambda>s. snd (spec_Evaluate s r p)) specs)"
    using assms by (rule collect_concat)
  then have 1: "snd (Evaluate specs r p) = concat (map (\<lambda>s. snd (spec_Evaluate s r p)) specs)"
    by (simp add: Evaluate_def Let_def)
  have 2: "fst (Evaluate specs r p) = Reject \<longleftrightarrow>
      (\<exists>s\<in>set specs. fst (spec_Evaluate s r p) = Reject)"
  proof -
    have flip: "d = Reject \<longleftrightarrow> d \<noteq> Accept" for d by (cases d) simp_all
    show ?thesis unfolding flip Evaluate_accept_iff [OF assms] by (simp add: list_all_iff)
  qed
  have "rej_Spec x \<in> spec_Name ` set specs" if "x \<in> set (snd (Evaluate specs r p))" for x
  proof -
    from that obtain s where s: "s \<in> set specs" "x \<in> set (snd (spec_Evaluate s r p))"
      unfolding 1 by auto
    with assms have "decision_spec s" by (simp add: wf_engine_def list_all_iff)
    from decision_spec.signed [OF this s(2)] s(1) show ?thesis by simp
  qed
  with 1 2 show ?thesis by blast
qed

definition example_remote :: "int \<Rightarrow> int \<Rightarrow> int \<Rightarrow> RemoteEpisode" where
  "example_remote q score sz = \<lparr>re_Release = \<lparr>rel_Title = ''A.S01E01'', rel_Size = sz,
     rel_Indexer = ''nzb'', rel_Age = 0, rel_Protocol = ''usenet'', rel_Seeders = 0\<rparr>,
     re_ParsedInfo = empty_info ''A.S01E01'', re_SeriesID = 1, re_EpisodeIDs = [1],
     re_Quality = ParseQuality ''A.S01E01'', re_QualityID = q, re_CustomFormats = [],
     re_CFScore = score, re_ExistingFileQualityID = 0, re_ExistingFileReleaseGroup = ''''\<rparr>"

theorem Evaluate_reports_all_witness:
  "fst (Evaluate (app_engine (\<lambda>_. None) [] None (Inr [])) (example_remote 9 0 1000) example_profile)
     = Reject"
proof -
  let ?e = "app_engine (\<lambda>_. None) [] None (Inr [])"
  have "fst (spec_Evaluate NotSampleSpec (example_remote 9 0 1000) example_profile) = Reject"
    by (simp add: NotSampleSpec_def example_remote_def sampleThreshold_def)
  moreover have "NotSampleSpec \<in> set ?e" by (simp add: app_engine_def)
  ultimately show ?thesis using Evaluate_reports_all [OF app_engine_wf] by blast
qed

text \<open>C9: Ranking returns a permutation of the candidates in which no candidate comes before one
  that is preferred to it (higher custom format score, then earlier quality in the profile,
  then larger size); candidates that tie on all three keep their order. The first one is
  therefore a best candidate.\<close>

theorem Rank_correct:
  "mset (Rank rs p) = mset rs \<and>
   sorted_wrt (\<lambda>a b. re_CFScore b < re_CFScore a \<or> re_CFScore a = re_CFScore b \<and>
     (qualityIndex a p < qualityIndex b p \<or> qualityIndex a p = qualityIndex b p \<and>
      rel_Size (re_Release b) \<le> rel_Size (re_Release a))) (Rank rs p) \<and>
   filter (\<lambda>a. re_CFScore k = re_CFScore a \<and> qualityIndex k p = qualityIndex a p \<and>
       rel_Size (re_Release k) = rel_Size (re_Release a)) (Rank rs p) =
     filter (\<lambda>a. re_CFScore k = re_CFScore a \<and> qualityIndex k p = qualityIndex a p \<and>
       rel_Size (re_Release k) = rel_Size (re_Release a)) rs"
proof -
  have "rank.equiv p k = (\<lambda>a. re_CFScore k = re_CFScore a \<and> qualityIndex k p = qualityIndex a p \<and>
       rel_Size (re_Release k) = rel_Size (re_Release a))"
    by (intro ext) (rule rank_equiv_iff)
  moreover have "sorted_wrt (\<lambda>a b. re_CFScore b < re_CFScore a \<or> re_CFScore a = re_CFScore b \<and>
     (qualityIndex a p < qualityIndex b p \<or> qualityIndex a p = qualityIndex b p \<and>
      rel_Size (re_Release b) \<le> rel_Size (re_Release a))) (SliceStable (rank_less p) rs)"
    using rank.SliceStable_sorted [of p rs] by (rule sorted_wrt_mono_rel [rotated]) (auto simp: not_rank_less)
  ultimately show ?thesis using rank.SliceStable_stable [of p k rs] by (simp add: Rank_def)
qed

end
