(* ===== verification/Sql_Store.thy ===== *)
theory Sql_Store
  imports Prelude "HOL-Library.Product_Lexorder"
begin

section \<open>Tables, statements and the write pool\<close>

text \<open>
  The stores of the program run SQL statements that the sources spell out
  (internal/db/gen holds the statement text). A table is its list of rows, in the order
  the engine scans them, with the counter behind an \<open>INTEGER PRIMARY KEY AUTOINCREMENT\<close>
  or \<open>BIGSERIAL\<close> column. A statement is a state-passing action on a table whose result is an
  error or a value; any statement can fail, which the environment \<open>dbenv\<close> decides per statement
  name. \<open>SQLitePool_Write\<close> is the pool's serialised write of internal/db/sqlite.go.
\<close>

subsection \<open>Errors and actions\<close>

text \<open>\<open>NoRows\<close> is the driver's no-row error, \<open>DbError\<close> an error of the engine, \<open>OsError\<close> an
  error number of the operating system, \<open>ErrNotFound\<close> a
  store's not-found sentinel, \<open>JsonSyntax\<close> and \<open>JsonType\<close> the two kinds of error of
  \<open>json.Unmarshal\<close> (their texts are not modelled), \<open>Errorf\<close> an error made from a message alone, \<open>Wrap\<close> the wrapping of \<open>fmt.Errorf\<close> with a \<open>%w\<close> verb.\<close>

datatype store_error = NoRows | JsonSyntax | JsonType | DbError string | OsError string | ErrNotFound string | Errorf string | Wrap string store_error

fun error_is :: "store_error \<Rightarrow> store_error \<Rightarrow> bool" where
  "error_is (Wrap m e) x = (Wrap m e = x \<or> error_is e x)"
| "error_is e x = (e = x)"

type_synonym ('s, 'a) act = "'s \<Rightarrow> (store_error, 'a) result \<times> 's"

definition retA :: "'a \<Rightarrow> ('s, 'a) act" where
  "retA a s = (Inr a, s)"

definition failA :: "store_error \<Rightarrow> ('s, 'a) act" where
  "failA e s = (Inl e, s)"

definition bindA :: "('s, 'a) act \<Rightarrow> ('a \<Rightarrow> ('s, 'b) act) \<Rightarrow> ('s, 'b) act" where
  "bindA m f s = (case m s of (Inl e, s') \<Rightarrow> (Inl e, s') | (Inr a, s') \<Rightarrow> f a s')"

text \<open>Wrapping the error of an action, and mapping its value.\<close>

definition wrapA :: "string \<Rightarrow> ('s, 'a) act \<Rightarrow> ('s, 'a) act" where
  "wrapA msg m s = (case m s of (Inl e, s') \<Rightarrow> (Inl (Wrap msg e), s') | (Inr a, s') \<Rightarrow> (Inr a, s'))"

definition mapA :: "('a \<Rightarrow> 'b) \<Rightarrow> ('s, 'a) act \<Rightarrow> ('s, 'b) act" where
  "mapA g m s = (case m s of (Inl e, s') \<Rightarrow> (Inl e, s') | (Inr a, s') \<Rightarrow> (Inr (g a), s'))"

text \<open>The query-one pattern of the stores: the no-row error becomes another outcome, any
  other error is wrapped.\<close>

definition rowA :: "(store_error, 'b) result \<Rightarrow> string \<Rightarrow> ('a \<Rightarrow> 'b) \<Rightarrow> ('s, 'a) act \<Rightarrow> ('s, 'b) act"
where
  "rowA none msg g m s = (case m s of
     (Inl e, s') \<Rightarrow> (if error_is e NoRows then none else Inl (Wrap msg e), s')
   | (Inr a, s') \<Rightarrow> (Inr (g a), s'))"

lemmas act_defs [store_defs] = retA_def failA_def bindA_def wrapA_def mapA_def rowA_def

text \<open>A \<open>json.RawMessage\<close> is a byte slice that may be nil. Instants are nanoseconds.\<close>

type_synonym RawMessage = "string option"

definition bytes_of :: "RawMessage \<Rightarrow> string" where
  "bytes_of b = (case b of None \<Rightarrow> [] | Some s \<Rightarrow> s)"

subsection \<open>The environment of a call\<close>

text \<open>What the outside decides during one call: the clock in nanoseconds, which statements
  fail, and how a submitted write of the SQLite pool ends.\<close>

datatype write_outcome = Written | PoolClosed | CancelledBefore string | CancelledDuring string

record dbenv =
  env_now :: int
  env_fault :: "string \<Rightarrow> string option"
  env_write :: write_outcome

definition quiet :: "dbenv \<Rightarrow> bool" where
  "quiet e \<longleftrightarrow> env_fault e = (\<lambda>_. None) \<and> env_write e = Written"

definition quiet_at :: "int \<Rightarrow> dbenv" where
  "quiet_at t = \<lparr>env_now = t, env_fault = (\<lambda>_. None), env_write = Written\<rparr>"

lemma quiet_quiet_at [simp]: "quiet (quiet_at t)" "env_now (quiet_at t) = t"
  by (simp_all add: quiet_def quiet_at_def)

lemma quietD [simp]: "quiet e \<Longrightarrow> env_fault e n = None" "quiet e \<Longrightarrow> env_write e = Written"
  by (simp_all add: quiet_def)

text \<open>One statement: it fails with the engine's error or runs.\<close>

definition stmt :: "dbenv \<Rightarrow> string \<Rightarrow> ('s, 'a) act \<Rightarrow> ('s, 'a) act" where
  "stmt e name m s = (case env_fault e name of Some x \<Rightarrow> (Inl (DbError x), s) | None \<Rightarrow> m s)"

lemma stmt_quiet [simp]: "quiet e \<Longrightarrow> stmt e name m = m"
  by (rule ext) (simp add: stmt_def)

text \<open>
  \<open>SQLitePool.Write\<close>: the callback is handed to the single writer goroutine, so callbacks
  never interleave. A pool that is closed or a context that ends before the hand-over
  runs nothing; a context that ends after it makes the call return the context's error
  while the callback still runs.
\<close>

fun SQLitePool_Write :: "dbenv \<Rightarrow> ('s, 'a) act \<Rightarrow> ('s, 'a) act" where
  "SQLitePool_Write e fn s = (case env_write e of
     Written \<Rightarrow> fn s
   | PoolClosed \<Rightarrow> (Inl (DbError ''db: sqlite pool closed''), s)
   | CancelledBefore x \<Rightarrow> (Inl (DbError x), s)
   | CancelledDuring x \<Rightarrow> (Inl (DbError x), snd (fn s)))"

declare SQLitePool_Write.simps [simp del]

lemma Write_quiet [simp]: "quiet e \<Longrightarrow> SQLitePool_Write e fn = fn"
  by (rule ext) (simp add: SQLitePool_Write.simps)

text \<open>Whatever the pool answers, the state is either untouched or the one the callback leaves.\<close>

lemma Write_state: "snd (SQLitePool_Write e fn s) = s \<or> snd (SQLitePool_Write e fn s) = snd (fn s)"
  by (simp add: SQLitePool_Write.simps split: write_outcome.split)

lemma Write_value: "fst (SQLitePool_Write e fn s) = Inr a \<Longrightarrow> SQLitePool_Write e fn s = fn s"
  by (simp add: SQLitePool_Write.simps split: write_outcome.splits)

subsection \<open>Tables\<close>

record 'r table =
  rows :: "'r list"
  next_id :: int

definition empty_table :: "'r table" where
  "empty_table = \<lparr>rows = [], next_id = 1\<rparr>"

text \<open>\<open>INSERT ... RETURNING\<close>, \<open>UPDATE ... WHERE\<close>, \<open>DELETE ... WHERE\<close> and
  \<open>SELECT ... WHERE\<close>, the last two of the row-changing statements with their counts.\<close>

definition sql_insert :: "(int \<Rightarrow> 'r) \<Rightarrow> ('r table, 'r) act" where
  "sql_insert mk t = (Inr (mk (next_id t)),
     t\<lparr>rows := rows t @ [mk (next_id t)], next_id := next_id t + 1\<rparr>)"

definition upd_rows :: "('r \<Rightarrow> bool) \<Rightarrow> ('r \<Rightarrow> 'r) \<Rightarrow> 'r table \<Rightarrow> 'r table" where
  "upd_rows p f t = t\<lparr>rows := map (\<lambda>r. if p r then f r else r) (rows t)\<rparr>"

definition del_rows :: "('r \<Rightarrow> bool) \<Rightarrow> 'r table \<Rightarrow> 'r table" where
  "del_rows p t = t\<lparr>rows := filter (\<lambda>r. \<not> p r) (rows t)\<rparr>"

definition count_rows :: "('r \<Rightarrow> bool) \<Rightarrow> 'r table \<Rightarrow> int" where
  "count_rows p t = int (length (filter p (rows t)))"

definition sql_exec :: "('r \<Rightarrow> bool) \<Rightarrow> ('r \<Rightarrow> 'r) \<Rightarrow> ('r table, unit) act" where
  "sql_exec p f t = (Inr (), upd_rows p f t)"

definition sql_execrows :: "('r \<Rightarrow> bool) \<Rightarrow> ('r \<Rightarrow> 'r) \<Rightarrow> ('r table, int) act" where
  "sql_execrows p f t = (Inr (count_rows p t), upd_rows p f t)"

definition sql_delete :: "('r \<Rightarrow> bool) \<Rightarrow> ('r table, unit) act" where
  "sql_delete p t = (Inr (), del_rows p t)"

definition sql_deleterows :: "('r \<Rightarrow> bool) \<Rightarrow> ('r table, int) act" where
  "sql_deleterows p t = (Inr (count_rows p t), del_rows p t)"

definition first_row :: "'r list \<Rightarrow> (store_error, 'r) result" where
  "first_row xs = (case xs of [] \<Rightarrow> Inl NoRows | r # _ \<Rightarrow> Inr r)"

definition sql_one :: "('r \<Rightarrow> bool) \<Rightarrow> ('r table, 'r) act" where
  "sql_one p t = (first_row (filter p (rows t)), t)"

definition sql_many :: "('r \<Rightarrow> bool) \<Rightarrow> ('r \<Rightarrow> 'k::linorder) \<Rightarrow> ('r table, 'r list) act" where
  "sql_many p k t = (Inr (sort_key k (filter p (rows t))), t)"

definition sql_first :: "('r \<Rightarrow> bool) \<Rightarrow> ('r \<Rightarrow> 'k::linorder) \<Rightarrow> ('r table, 'r) act" where
  "sql_first p k t = (first_row (sort_key k (filter p (rows t))), t)"

lemmas sql_defs [store_defs] = sql_insert_def sql_exec_def sql_execrows_def sql_delete_def
  sql_deleterows_def sql_one_def sql_many_def sql_first_def

lemma next_id_simps [simp]: "next_id (upd_rows p f t) = next_id t" "next_id (del_rows p t) = next_id t"
  by (simp_all add: upd_rows_def del_rows_def)

subsection \<open>Tables as finite maps on their ids\<close>

definition tbl :: "('r \<Rightarrow> int) \<Rightarrow> 'r table \<Rightarrow> int \<Rightarrow> 'r option" where
  "tbl rid t i = List.find (\<lambda>r. rid r = i) (rows t)"

definition wf_table :: "('r \<Rightarrow> int) \<Rightarrow> 'r table \<Rightarrow> bool" where
  "wf_table rid t \<longleftrightarrow> distinct (map rid (rows t)) \<and> 0 < next_id t
     \<and> (\<forall>r\<in>set (rows t). 0 < rid r \<and> rid r < next_id t)"

lemma wf_empty_table [simp]: "wf_table rid empty_table"
  by (simp add: wf_table_def empty_table_def)

lemma tbl_empty_table [simp]: "tbl rid empty_table = (\<lambda>_. None)"
  by (rule ext) (simp add: tbl_def empty_table_def)

lemma find_map_same:
  assumes "\<And>r. rid (f r) = rid r"
  shows "List.find (\<lambda>r. rid r = i) (map f xs) = map_option f (List.find (\<lambda>r. rid r = i) xs)"
  using assms by (induction xs) auto

lemma tbl_upd_rows:
  assumes "\<And>r. rid (f r) = rid r"
  shows "tbl rid (upd_rows p f t) i = map_option (\<lambda>r. if p r then f r else r) (tbl rid t i)"
  using assms by (simp add: tbl_def upd_rows_def find_map_same)

lemma wf_upd_rows:
  assumes "wf_table rid t" and "\<And>r. rid (f r) = rid r"
  shows "wf_table rid (upd_rows p f t)"
proof -
  have "map rid (rows (upd_rows p f t)) = map rid (rows t)"
    using assms(2) by (simp add: upd_rows_def)
  moreover have "\<forall>r\<in>set (rows (upd_rows p f t)). 0 < rid r \<and> rid r < next_id t"
    using assms by (auto simp: upd_rows_def wf_table_def)
  ultimately show ?thesis
    using assms(1) unfolding wf_table_def by (simp add: upd_rows_def del: map_map)
qed

lemma wf_del_rows: "wf_table rid t \<Longrightarrow> wf_table rid (del_rows p t)"
  by (auto simp: wf_table_def del_rows_def distinct_map_filter)

lemma find_filter_distinct:
  assumes "distinct (map rid xs)"
  shows "List.find (\<lambda>r. rid r = i) (filter q xs)
       = (case List.find (\<lambda>r. rid r = i) xs of None \<Rightarrow> None | Some r \<Rightarrow> if q r then Some r else None)"
  using assms
proof (induction xs)
  case (Cons x xs)
  have "rid x = i \<Longrightarrow> List.find (\<lambda>r. rid r = i) (filter q xs) = None"
    using Cons.prems by (auto simp: find_None_iff image_iff)
  with Cons show ?case by auto
qed simp

lemma tbl_del_rows:
  assumes "wf_table rid t"
  shows "tbl rid (del_rows p t) i
       = (case tbl rid t i of None \<Rightarrow> None | Some r \<Rightarrow> if p r then None else Some r)"
  using assms find_filter_distinct [of rid "rows t" i "\<lambda>r. \<not> p r"]
  by (auto simp: tbl_def del_rows_def wf_table_def split: option.splits)

lemma tbl_insert:
  assumes "wf_table rid t" and "\<And>i. rid (mk i) = i"
  shows "tbl rid (snd (sql_insert mk t)) = (tbl rid t)(next_id t \<mapsto> mk (next_id t))"
proof (rule ext)
  fix i
  have fresh: "List.find (\<lambda>r. rid r = next_id t) (rows t) = None"
    using assms(1) by (auto simp: find_None_iff wf_table_def)
  have app: "List.find P (xs @ ys) = (case List.find P xs of None \<Rightarrow> List.find P ys | Some x \<Rightarrow> Some x)"
    for P :: "'a \<Rightarrow> bool" and xs ys
    by (induction xs) auto
  show "tbl rid (snd (sql_insert mk t)) i = ((tbl rid t)(next_id t \<mapsto> mk (next_id t))) i"
    using fresh assms(2) by (auto simp: tbl_def sql_insert_def app split: option.split)
qed

lemma wf_insert:
  assumes "wf_table rid t" and "\<And>i. rid (mk i) = i"
  shows "wf_table rid (snd (sql_insert mk t))"
  using assms by (force simp: wf_table_def sql_insert_def)

lemma tbl_next_id [simp]: "wf_table rid t \<Longrightarrow> tbl rid t (next_id t) = None"
  by (auto simp: tbl_def find_None_iff wf_table_def)

lemma tbl_SomeD: "tbl rid t i = Some r \<Longrightarrow> r \<in> set (rows t) \<and> rid r = i"
  unfolding tbl_def by (drule find_Some_set) simp

lemma tbl_row:
  assumes "wf_table rid t" and "r \<in> set (rows t)"
  shows "tbl rid t (rid r) = Some r"
proof -
  have "distinct (map rid xs) \<Longrightarrow> r \<in> set xs \<Longrightarrow> List.find (\<lambda>x. rid x = rid r) xs = Some r" for xs
    by (induction xs) (auto simp: rev_image_eqI)
  with assms show ?thesis by (simp add: tbl_def wf_table_def)
qed

lemma tbl_Some_iff:
  "wf_table rid t \<Longrightarrow> tbl rid t i = Some r \<longleftrightarrow> r \<in> set (rows t) \<and> rid r = i"
  using tbl_SomeD tbl_row by fast

lemma tbl_unique: "wf_table rid t \<Longrightarrow> tbl rid t i = Some r \<Longrightarrow> x \<in> set (rows t) \<Longrightarrow> rid x = i \<Longrightarrow> x = r"
  using tbl_row by fastforce

text \<open>Selecting one row by id is the map lookup; selecting the first row in an order gives a
  minimal one.\<close>

lemma sql_one_id:
  "sql_one (\<lambda>r. rid r = i) t = (case tbl rid t i of None \<Rightarrow> Inl NoRows | Some r \<Rightarrow> Inr r, t)"
proof -
  have "first_row (filter P xs) = (case List.find P xs of None \<Rightarrow> Inl NoRows | Some r \<Rightarrow> Inr r)"
    for P :: "'a \<Rightarrow> bool" and xs
    by (induction xs) (auto simp: first_row_def)
  then show ?thesis by (simp add: sql_one_def tbl_def)
qed

lemma first_row_eq_Inl [simp]: "first_row xs = Inl e \<longleftrightarrow> xs = [] \<and> e = NoRows"
  by (auto simp: first_row_def split: list.split)

lemma first_row_eq_Inr: "first_row xs = Inr r \<longleftrightarrow> (\<exists>ys. xs = r # ys)"
  by (auto simp: first_row_def split: list.split)

lemma sort_key_Nil_iff [simp]: "sort_key k xs = [] \<longleftrightarrow> xs = []"
proof -
  have "length (sort_key k xs) = length xs" by simp
  then show ?thesis by (simp only: length_0_conv [symmetric])
qed

lemma sql_first_None:
  "sql_first p k t = (Inl e, t') \<longleftrightarrow> e = NoRows \<and> t' = t \<and> (\<forall>r\<in>set (rows t). \<not> p r)"
  by (auto simp: sql_first_def filter_empty_conv)

lemma sql_first_SomeD:
  assumes "sql_first p k t = (Inr r, t')"
  shows "t' = t" and "r \<in> set (rows t)" and "p r" and "x \<in> set (rows t) \<Longrightarrow> p x \<Longrightarrow> k r \<le> k x"
proof -
  from assms have fr: "first_row (sort_key k (filter p (rows t))) = Inr r" and "t' = t"
    unfolding sql_first_def by blast+
  from fr obtain ys where ys: "sort_key k (filter p (rows t)) = r # ys"
    unfolding first_row_eq_Inr by blast
  show "t' = t" by fact
  have in_set: "set (r # ys) = set (filter p (rows t))"
    unfolding ys [symmetric] by simp
  then show "r \<in> set (rows t)" and "p r" by auto
  show "k r \<le> k x" if "x \<in> set (rows t)" "p x"
  proof -
    have "sorted (map k (r # ys))" unfolding ys [symmetric] by simp
    moreover have "x \<in> set (r # ys)" using in_set that by auto
    ultimately show ?thesis by auto
  qed
qed

lemma count_rows_card:
  assumes "wf_table rid t"
  shows "count_rows p t = int (card {i. \<exists>r. tbl rid t i = Some r \<and> p r})"
proof -
  have d: "distinct (map rid (filter p (rows t)))"
    using assms by (simp add: wf_table_def distinct_map_filter)
  have "{i. \<exists>r. tbl rid t i = Some r \<and> p r} = rid ` set (filter p (rows t))"
    using assms by (auto simp: tbl_Some_iff)
  moreover have "card (set (map rid (filter p (rows t)))) = length (filter p (rows t))"
    using distinct_card [OF d] by simp
  ultimately show ?thesis by (simp add: count_rows_def)
qed

end
