(* ===== verification/Commands.thy ===== *)
theory Commands
  imports Sql_Store Go_Strings
begin

section \<open>Commands: data model, queue interface and handler registry\<close>

text \<open>
  internal/commands/command.go, queue.go and registry.go. \<open>Queue\<close>, a Go interface, is a
  record of operations over the state of the store behind it; the two implementations are
  in CommandsSqlite and CommandsPostgres. The locale \<open>command_queue\<close> states what an
  implementation promises, as laws on the map from ids to commands that a reader of the
  queue sees, and derives from them what the clients of the queue rely on.
\<close>

subsection \<open>command.go\<close>

type_synonym Priority = int
type_synonym Status = string
type_synonym Trigger = string

definition ErrCommandNotFound :: store_error where "ErrCommandNotFound = ErrNotFound ''commands: not found''"

definition PriorityHigh :: Priority where "PriorityHigh = 1"
definition PriorityNormal :: Priority where "PriorityNormal = 2"
definition PriorityLow :: Priority where "PriorityLow = 3"

definition StatusQueued :: Status where "StatusQueued = ''queued''"
definition StatusRunning :: Status where "StatusRunning = ''running''"
definition StatusCompleted :: Status where "StatusCompleted = ''completed''"
definition StatusFailed :: Status where "StatusFailed = ''failed''"

definition TriggerManual :: Trigger where "TriggerManual = ''manual''"
definition TriggerScheduled :: Trigger where "TriggerScheduled = ''scheduled''"

lemmas status_defs = StatusQueued_def StatusRunning_def StatusCompleted_def StatusFailed_def

record Command =
  cmd_ID :: int
  cmd_Name :: string
  cmd_Body :: RawMessage
  cmd_Priority :: Priority
  cmd_Status :: Status
  cmd_QueuedAt :: int
  cmd_StartedAt :: "int option"
  cmd_EndedAt :: "int option"
  cmd_DurationMs :: "int option"
  cmd_Exception :: string
  cmd_Trigger :: Trigger
  cmd_Message :: string
  cmd_Result :: RawMessage
  cmd_WorkerID :: string
  cmd_LeaseUntil :: "int option"
  cmd_DedupKey :: string

datatype command_event =
    CommandStarted int string
  | CommandCompleted int string int
  | CommandFailed int string string

subsection \<open>queue.go\<close>

record 's Queue =
  q_Enqueue :: "dbenv \<Rightarrow> string \<Rightarrow> RawMessage \<Rightarrow> Priority \<Rightarrow> Trigger \<Rightarrow> string \<Rightarrow> ('s, Command) act"
  q_Claim :: "dbenv \<Rightarrow> string \<Rightarrow> int \<Rightarrow> ('s, Command option) act"
  q_Complete :: "dbenv \<Rightarrow> int \<Rightarrow> int \<Rightarrow> RawMessage \<Rightarrow> string \<Rightarrow> ('s, unit) act"
  q_Fail :: "dbenv \<Rightarrow> int \<Rightarrow> int \<Rightarrow> string \<Rightarrow> string \<Rightarrow> ('s, unit) act"
  q_RefreshLease :: "dbenv \<Rightarrow> int \<Rightarrow> int \<Rightarrow> ('s, unit) act"
  q_SweepExpiredLeases :: "dbenv \<Rightarrow> ('s, int) act"
  q_FindDuplicate :: "dbenv \<Rightarrow> string \<Rightarrow> ('s, int \<times> bool) act"
  q_DeleteOldCompleted :: "dbenv \<Rightarrow> int \<Rightarrow> ('s, int) act"
  q_Get :: "dbenv \<Rightarrow> int \<Rightarrow> ('s, Command) act"
  q_ListRecent :: "dbenv \<Rightarrow> int \<Rightarrow> ('s, Command list) act"

subsection \<open>registry.go\<close>

text \<open>The registry over an abstract type of handlers: a Go map keyed by command name.\<close>

type_synonym 'h Registry = "string \<Rightarrow> 'h option"

definition NewRegistry :: "'h Registry" where
  "NewRegistry = (\<lambda>_. None)"

definition Register :: "string \<Rightarrow> 'h \<Rightarrow> 'h Registry \<Rightarrow> 'h Registry" where
  "Register name h r = r(name \<mapsto> h)"

definition Registry_Get :: "'h Registry \<Rightarrow> string \<Rightarrow> (string, 'h) result" where
  "Registry_Get r name = (case r name of
     Some h \<Rightarrow> Inr h
   | None \<Rightarrow> Inl (''commands: no handler registered for '' @ [CHR 34] @ name @ [CHR 34]))"

subsection \<open>The transitions of a command\<close>

text \<open>The effect of each operation on one command, in terms of what a reader sees. The clock
  of a store has a granularity: \<open>gran\<close> is the instant it keeps of a given instant.\<close>

definition claimed :: "string \<Rightarrow> int \<Rightarrow> int \<Rightarrow> Command \<Rightarrow> Command" where
  "claimed w started lease c = c\<lparr>cmd_Status := StatusRunning, cmd_WorkerID := w,
     cmd_StartedAt := Some started, cmd_LeaseUntil := Some lease\<rparr>"

definition completed :: "int \<Rightarrow> int \<Rightarrow> RawMessage \<Rightarrow> string \<Rightarrow> Command \<Rightarrow> Command" where
  "completed ended ms res msg c = c\<lparr>cmd_Status := StatusCompleted, cmd_EndedAt := Some ended,
     cmd_DurationMs := Some ms, cmd_Result := res, cmd_Message := msg\<rparr>"

definition failed :: "int \<Rightarrow> int \<Rightarrow> string \<Rightarrow> string \<Rightarrow> Command \<Rightarrow> Command" where
  "failed ended ms exc msg c = c\<lparr>cmd_Status := StatusFailed, cmd_EndedAt := Some ended,
     cmd_DurationMs := Some ms, cmd_Exception := exc, cmd_Message := msg\<rparr>"

definition refreshed :: "int \<Rightarrow> Command \<Rightarrow> Command" where
  "refreshed lease c = (if cmd_Status c = StatusRunning then c\<lparr>cmd_LeaseUntil := Some lease\<rparr> else c)"

text \<open>SQL's \<open>lease_until < now\<close> is not true of a NULL column.\<close>

definition expired :: "int \<Rightarrow> Command \<Rightarrow> bool" where
  "expired t c \<longleftrightarrow> cmd_Status c = StatusRunning \<and>
     (case cmd_LeaseUntil c of None \<Rightarrow> False | Some l \<Rightarrow> l < t)"

definition swept :: "int \<Rightarrow> Command \<Rightarrow> Command" where
  "swept t c = (if expired t c then c\<lparr>cmd_Status := StatusQueued, cmd_WorkerID := '''',
     cmd_StartedAt := None, cmd_LeaseUntil := None\<rparr> else c)"

definition active :: "Command \<Rightarrow> bool" where
  "active c \<longleftrightarrow> cmd_Status c = StatusQueued \<or> cmd_Status c = StatusRunning"

definition ended_before :: "int \<Rightarrow> Command \<Rightarrow> bool" where
  "ended_before t c \<longleftrightarrow> (cmd_Status c = StatusCompleted \<or> cmd_Status c = StatusFailed) \<and>
     (case cmd_EndedAt c of None \<Rightarrow> False | Some x \<Rightarrow> x < t)"

text \<open>A command as it is inserted: the columns the statement names, the defaults of the
  table for the others.\<close>

definition fresh_command ::
  "int \<Rightarrow> string \<Rightarrow> RawMessage \<Rightarrow> Priority \<Rightarrow> Trigger \<Rightarrow> string \<Rightarrow> int \<Rightarrow> Command" where
  "fresh_command i name body prio trig k t = \<lparr>cmd_ID = i, cmd_Name = name, cmd_Body = body,
     cmd_Priority = prio, cmd_Status = StatusQueued, cmd_QueuedAt = t, cmd_StartedAt = None,
     cmd_EndedAt = None, cmd_DurationMs = None, cmd_Exception = '''', cmd_Trigger = trig,
     cmd_Message = '''', cmd_Result = Some ''{}'', cmd_WorkerID = '''', cmd_LeaseUntil = None,
     cmd_DedupKey = k\<rparr>"

lemmas transition_defs = claimed_def completed_def failed_def refreshed_def swept_def

subsection \<open>The contract of a queue\<close>

text \<open>
  \<open>inv\<close> is the representation invariant, \<open>view\<close> the command a reader finds under an id,
  \<open>gran\<close> the granularity of the store's clock, \<open>res_ok\<close> the results the store can record.
  The laws are for calls during which no statement fails.
\<close>

locale command_queue =
  fixes q :: "'s Queue"
    and inv :: "'s \<Rightarrow> bool"
    and view :: "'s \<Rightarrow> int \<Rightarrow> Command option"
    and gran :: "int \<Rightarrow> int"
    and res_ok :: "RawMessage \<Rightarrow> bool"
    and res_of :: "RawMessage \<Rightarrow> RawMessage"
  assumes gran_mono: "t \<le> u \<Longrightarrow> gran t \<le> gran u"
    and gran_le: "gran t \<le> t"
    and view_id: "inv s \<Longrightarrow> view s i = Some c \<Longrightarrow> cmd_ID c = i"
    and claim_none: "\<lbrakk>inv s; quiet e; q_Claim q e w d s = (Inr None, s')\<rbrakk> \<Longrightarrow>
          s' = s \<and> (\<forall>i c. view s i = Some c \<longrightarrow> cmd_Status c \<noteq> StatusQueued)"
    and claim_some: "\<lbrakk>inv s; quiet e; q_Claim q e w d s = (Inr (Some c'), s')\<rbrakk> \<Longrightarrow>
          inv s' \<and> (\<exists>i c. view s i = Some c \<and> cmd_Status c = StatusQueued
            \<and> (\<forall>j b. view s j = Some b \<longrightarrow> cmd_Status b = StatusQueued \<longrightarrow>
                 (cmd_Priority c, cmd_QueuedAt c) \<le> (cmd_Priority b, cmd_QueuedAt b))
            \<and> c' = claimed w (gran (env_now e)) (gran (env_now e + d)) c
            \<and> view s' = (view s)(i \<mapsto> c'))"
    and claim_ok: "inv s \<Longrightarrow> quiet e \<Longrightarrow> is_ok (fst (q_Claim q e w d s))"
    and complete_ok: "\<lbrakk>inv s; quiet e; res_ok res\<rbrakk> \<Longrightarrow> q_Complete q e i ms res msg s = (r, s') \<Longrightarrow>
          r = Inr () \<and> inv s' \<and>
          view s' = (view s)(i := map_option (completed (gran (env_now e)) ms (res_of res) msg) (view s i))"
    and complete_refused: "\<lbrakk>inv s; quiet e; \<not> res_ok res; q_Complete q e i ms res msg s = (r, s')\<rbrakk> \<Longrightarrow> s' = s"
    and fail_ok: "\<lbrakk>inv s; quiet e; q_Fail q e i ms exc msg s = (r, s')\<rbrakk> \<Longrightarrow>
          r = Inr () \<and> inv s' \<and>
          view s' = (view s)(i := map_option (failed (gran (env_now e)) ms exc msg) (view s i))"
    and refresh_ok: "\<lbrakk>inv s; quiet e; q_RefreshLease q e i d s = (r, s')\<rbrakk> \<Longrightarrow>
          r = Inr () \<and> inv s' \<and>
          view s' = (view s)(i := map_option (refreshed (gran (env_now e + d))) (view s i))"
    and sweep_ok: "\<lbrakk>inv s; quiet e; q_SweepExpiredLeases q e s = (n, s')\<rbrakk> \<Longrightarrow>
          inv s' \<and> (\<forall>i. view s' i = map_option (swept (gran (env_now e))) (view s i))
          \<and> n = Inr (int (card {i. \<exists>c. view s i = Some c \<and> expired (gran (env_now e)) c}))"
    and find_dup_ok: "\<lbrakk>inv s; quiet e; q_FindDuplicate q e k s = (rf, s')\<rbrakk> \<Longrightarrow>
          s' = s \<and> (\<exists>i b. rf = Inr (i, b) \<and>
            (if b then \<exists>c. view s i = Some c \<and> cmd_DedupKey c = k \<and> active c
             else i = 0 \<and> (\<forall>j c. view s j = Some c \<longrightarrow> active c \<longrightarrow> cmd_DedupKey c \<noteq> k)))"
    and delete_old_ok: "\<lbrakk>inv s; quiet e; q_DeleteOldCompleted q e t s = (n, s')\<rbrakk> \<Longrightarrow>
          inv s' \<and> (\<forall>i. view s' i =
            (case view s i of None \<Rightarrow> None | Some c \<Rightarrow> if ended_before (gran t) c then None else Some c))"
    and get_ok: "\<lbrakk>inv s; quiet e; q_Get q e i s = (rg, s')\<rbrakk> \<Longrightarrow> s' = s \<and>
          (case view s i of None \<Rightarrow> (\<exists>m. rg = Inl (Wrap m ErrCommandNotFound)) | Some c \<Rightarrow> rg = Inr c)"
    and enqueue_ok: "\<lbrakk>inv s; quiet e; res_ok body; prio \<in> {PriorityHigh, PriorityNormal, PriorityLow};
          q_Enqueue q e name body prio trig k s = (rg, s')\<rbrakk> \<Longrightarrow>
          inv s' \<and> (\<exists>i. view s i = None \<and>
            rg = Inr (fresh_command i name (res_of body) prio trig k (gran (env_now e))) \<and>
            view s' = (view s)(i \<mapsto> fresh_command i name (res_of body) prio trig k (gran (env_now e))))"
    and enqueue_refused: "\<lbrakk>inv s; quiet e; \<not> res_ok body;
          q_Enqueue q e name body prio trig k s = (rg, s')\<rbrakk> \<Longrightarrow> (\<exists>x. rg = Inl x) \<and> s' = s"
begin

text \<open>A claim takes a command nobody holds and hands it to the claimer: the row it returns is
  the one stored, and every other command is untouched.\<close>

lemma claim_stores:
  assumes "inv s" "quiet e" "q_Claim q e w d s = (Inr (Some c), s')"
  shows "view s' (cmd_ID c) = Some c" and "cmd_WorkerID c = w" and "cmd_Status c = StatusRunning"
    and "cmd_LeaseUntil c = Some (gran (env_now e + d))"
    and "i \<noteq> cmd_ID c \<Longrightarrow> view s' i = view s i"
    and "\<exists>b. view s (cmd_ID c) = Some b \<and> cmd_Status b = StatusQueued \<and> cmd_DedupKey b = cmd_DedupKey c"
proof -
  from claim_some [OF assms] obtain j b where j: "view s j = Some b" "cmd_Status b = StatusQueued"
    and c: "c = claimed w (gran (env_now e)) (gran (env_now e + d)) b"
    and v: "view s' = (view s)(j \<mapsto> c)" by blast
  have "cmd_ID c = j" using view_id [OF assms(1) j(1)] c by (simp add: claimed_def)
  with j c v show "view s' (cmd_ID c) = Some c" "cmd_WorkerID c = w" "cmd_Status c = StatusRunning"
    "cmd_LeaseUntil c = Some (gran (env_now e + d))"
    "i \<noteq> cmd_ID c \<Longrightarrow> view s' i = view s i"
    "\<exists>b. view s (cmd_ID c) = Some b \<and> cmd_Status b = StatusQueued \<and> cmd_DedupKey b = cmd_DedupKey c"
    by (simp_all add: claimed_def)
qed

lemma claim_leaves_running:
  assumes "inv s" "quiet e" "q_Claim q e w d s = (Inr r, s')"
    and "view s i = Some c" "cmd_Status c \<noteq> StatusQueued"
  shows "view s' i = Some c"
proof (cases r)
  case None
  then show ?thesis using claim_none [OF assms(1,2)] assms(3,4) by blast
next
  case (Some b)
  then have cl: "q_Claim q e w d s = (Inr (Some b), s')" using assms(3) by simp
  from claim_stores(6) [OF assms(1,2) cl] assms(4,5) have "i \<noteq> cmd_ID b" by auto
  then show ?thesis using claim_stores(5) [OF assms(1,2) cl] assms(4) by simp
qed

text \<open>The sweep leaves a command with an unexpired lease to its holder.\<close>

lemma sweep_spares_live:
  assumes "inv s" "quiet e" "q_SweepExpiredLeases q e s = (n, s')"
    and "view s i = Some c" "cmd_LeaseUntil c = Some (gran l)" "env_now e \<le> l"
  shows "view s' i = Some c"
proof -
  have "\<not> expired (gran (env_now e)) c"
    using gran_mono [OF assms(6)] assms(5) by (simp add: expired_def)
  then show ?thesis using sweep_ok [OF assms(1-3)] assms(4) by (simp add: swept_def)
qed

end

text \<open>Ids are never reused: \<open>bound\<close> is above every id in use, never decreases, and a new
  command gets an id at or above it.\<close>

locale command_ids = command_queue q inv view gran res_ok res_of
  for q :: "'s Queue" and inv view gran res_ok res_of +
  fixes bound :: "'s \<Rightarrow> int"
  assumes view_bound: "inv s \<Longrightarrow> view s i = Some c \<Longrightarrow> i < bound s"
    and enqueue_bound: "\<lbrakk>inv s; quiet e; q_Enqueue q e name body prio trig k s = (Inr c, s')\<rbrakk> \<Longrightarrow>
          bound s \<le> cmd_ID c"
    and enqueue_mono: "quiet e \<Longrightarrow> bound s \<le> bound (snd (q_Enqueue q e name body prio trig k s))"
    and claim_mono: "inv s \<Longrightarrow> quiet e \<Longrightarrow> bound s \<le> bound (snd (q_Claim q e w d s))"
    and complete_mono: "inv s \<Longrightarrow> quiet e \<Longrightarrow> bound s \<le> bound (snd (q_Complete q e i ms res msg s))"
    and fail_mono: "quiet e \<Longrightarrow> bound s \<le> bound (snd (q_Fail q e i ms exc msg s))"
    and refresh_mono: "quiet e \<Longrightarrow> bound s \<le> bound (snd (q_RefreshLease q e i d s))"
    and sweep_mono: "quiet e \<Longrightarrow> bound s \<le> bound (snd (q_SweepExpiredLeases q e s))"
    and delete_mono: "quiet e \<Longrightarrow> bound s \<le> bound (snd (q_DeleteOldCompleted q e t s))"

subsection \<open>Queues kept in a table\<close>

text \<open>
  Both implementations keep commands as rows of a table: \<open>rid\<close> is the id column and \<open>conv\<close> the
  conversion of a row to a \<open>Command\<close>. The facts below reduce a law of the contract to what the
  statement's assignment does to one row.
\<close>

definition rows_view :: "('r \<Rightarrow> int) \<Rightarrow> ('r \<Rightarrow> Command) \<Rightarrow> 'r table \<Rightarrow> int \<Rightarrow> Command option" where
  "rows_view rid conv t i = map_option conv (tbl rid t i)"

locale command_rows =
  fixes rid :: "'r \<Rightarrow> int" and conv :: "'r \<Rightarrow> Command"
  assumes conv_id: "cmd_ID (conv r) = rid r"
begin

lemma rows_view_Some:
  "wf_table rid s \<Longrightarrow> rows_view rid conv s i = Some c \<longleftrightarrow> (\<exists>r\<in>set (rows s). rid r = i \<and> c = conv r)"
  by (auto simp: rows_view_def tbl_Some_iff)

lemma rows_view_id: "wf_table rid s \<Longrightarrow> rows_view rid conv s i = Some c \<Longrightarrow> cmd_ID c = i"
  by (auto simp: rows_view_Some conv_id)

text \<open>An \<open>UPDATE ... WHERE id\<close> changes the view at that id by the transition the assignment
  corresponds to, an \<open>UPDATE\<close> over all rows changes it everywhere.\<close>

lemma view_upd_all:
  assumes "\<And>r. rid (f r) = rid r" and "\<And>r. conv (if p r then f r else r) = g (conv r)"
  shows "rows_view rid conv (upd_rows p f s) i = map_option g (rows_view rid conv s i)"
  using assms by (cases "tbl rid s i") (simp_all add: rows_view_def tbl_upd_rows)

lemma view_upd:
  assumes "\<And>r. rid (f r) = rid r" and "\<And>r. p r \<Longrightarrow> rid r = i"
    and "\<And>r. rid r = i \<Longrightarrow> conv (if p r then f r else r) = g (conv r)"
  shows "rows_view rid conv (upd_rows p f s) = (rows_view rid conv s)(i := map_option g (rows_view rid conv s i))"
proof (rule ext)
  fix j
  show "rows_view rid conv (upd_rows p f s) j = ((rows_view rid conv s)(i := map_option g (rows_view rid conv s i))) j"
  proof (cases "tbl rid s j")
    case None
    then show ?thesis using assms(1) by (auto simp: rows_view_def tbl_upd_rows)
  next
    case (Some r)
    then have "rid r = j" using tbl_SomeD by fastforce
    then show ?thesis using assms Some
      by (cases "j = i") (auto simp: rows_view_def tbl_upd_rows)
  qed
qed

text \<open>Selecting the first queued row in an order that the conversion preserves, and
  updating it.\<close>

lemma claim_first_none:
  assumes "wf_table rid s" and "sql_first p k s = (Inl x, t)"
    and "\<And>r. p r \<longleftrightarrow> cmd_Status (conv r) = StatusQueued"
  shows "rows_view rid conv s i = Some c \<longrightarrow> cmd_Status c \<noteq> StatusQueued"
  using assms unfolding sql_first_None by (auto simp: rows_view_Some)

lemma claim_first_some:
  assumes wf: "wf_table rid s" and first: "sql_first p k s = (Inr r, t)"
    and p: "\<And>r. p r \<longleftrightarrow> cmd_Status (conv r) = StatusQueued"
    and k: "\<And>a b. k a \<le> k b \<longleftrightarrow>
      (cmd_Priority (conv a), cmd_QueuedAt (conv a)) \<le> (cmd_Priority (conv b), cmd_QueuedAt (conv b))"
    and f: "\<And>r. rid (f r) = rid r" "\<And>r. conv (f r) = g (conv r)"
  shows "wf_table rid (upd_rows (\<lambda>x. rid x = rid r) f s) \<and> (\<exists>i c. rows_view rid conv s i = Some c
      \<and> cmd_Status c = StatusQueued
      \<and> (\<forall>j b. rows_view rid conv s j = Some b \<longrightarrow> cmd_Status b = StatusQueued \<longrightarrow>
           (cmd_Priority c, cmd_QueuedAt c) \<le> (cmd_Priority b, cmd_QueuedAt b))
      \<and> conv (f r) = g c
      \<and> rows_view rid conv (upd_rows (\<lambda>x. rid x = rid r) f s) = (rows_view rid conv s)(i \<mapsto> conv (f r)))"
proof -
  note sel = sql_first_SomeD [OF first]
  have view: "rows_view rid conv s (rid r) = Some (conv r)" using wf sel(2) rows_view_Some by blast
  have upd: "rows_view rid conv (upd_rows (\<lambda>x. rid x = rid r) f s) = (rows_view rid conv s)(rid r \<mapsto> conv (f r))"
    using view_upd [of f "\<lambda>x. rid x = rid r" "rid r" g s] f view by simp
  have least: "(cmd_Priority (conv r), cmd_QueuedAt (conv r)) \<le> (cmd_Priority b, cmd_QueuedAt b)"
    if "rows_view rid conv s j = Some b" "cmd_Status b = StatusQueued" for j b
  proof -
    from that wf obtain x where "x \<in> set (rows s)" "b = conv x" "p x"
      using p by (auto simp: rows_view_Some)
    with sel(4) [of x] k show ?thesis by blast
  qed
  have "wf_table rid (upd_rows (\<lambda>x. rid x = rid r) f s)" using wf f(1) by (rule wf_upd_rows)
  moreover have "cmd_Status (conv r) = StatusQueued" using sel(3) p by simp
  ultimately show ?thesis using view upd least f(2) by blast
qed

lemma sweep_rows:
  assumes "wf_table rid s" and "\<And>r. rid (f r) = rid r" and "\<And>r. p r = expired t (conv r)"
    and "\<And>r. p r \<Longrightarrow> conv (f r) = swept t (conv r)"
  shows "wf_table rid (upd_rows p f s) \<and> (\<forall>i. rows_view rid conv (upd_rows p f s) i
      = map_option (swept t) (rows_view rid conv s i))
    \<and> count_rows p s = int (card {i. \<exists>c. rows_view rid conv s i = Some c \<and> expired t c})"
proof (intro conjI allI)
  show "wf_table rid (upd_rows p f s)" using assms(1,2) by (rule wf_upd_rows)
  have "conv (if p r then f r else r) = swept t (conv r)" for r
    using assms(3,4) by (auto simp: swept_def)
  then show "rows_view rid conv (upd_rows p f s) i = map_option (swept t) (rows_view rid conv s i)" for i
    using assms(2) view_upd_all by blast
  have "{i. \<exists>r. tbl rid s i = Some r \<and> p r} = {i. \<exists>c. rows_view rid conv s i = Some c \<and> expired t c}"
    using assms(3) by (auto simp: rows_view_def)
  then show "count_rows p s = int (card {i. \<exists>c. rows_view rid conv s i = Some c \<and> expired t c})"
    using count_rows_card [OF assms(1)] by simp
qed

lemma dup_rows:
  assumes "wf_table rid s" and "\<And>r. p r \<longleftrightarrow> cmd_DedupKey (conv r) = k \<and> active (conv r)"
  shows "\<exists>i b. rowA (Inr (0, False)) msg (\<lambda>i. (i, True)) (mapA rid (sql_one p)) s = (Inr (i, b), s)
    \<and> (if b then \<exists>c. rows_view rid conv s i = Some c \<and> cmd_DedupKey c = k \<and> active c
       else i = 0 \<and> (\<forall>j c. rows_view rid conv s j = Some c \<longrightarrow> active c \<longrightarrow> cmd_DedupKey c \<noteq> k))"
proof (cases "filter p (rows s)")
  case Nil
  then show ?thesis using assms
    by (auto simp: act_defs sql_one_def first_row_def rows_view_Some filter_empty_conv)
next
  case (Cons r xs)
  then have "r \<in> set (filter p (rows s))" by simp
  then have r: "r \<in> set (rows s)" "p r" by simp_all
  then have "rows_view rid conv s (rid r) = Some (conv r)" using assms(1) rows_view_Some by blast
  moreover have "rowA (Inr (0, False)) msg (\<lambda>i. (i, True)) (mapA rid (sql_one p)) s = (Inr (rid r, True), s)"
    using Cons by (simp add: act_defs sql_one_def first_row_def)
  ultimately show ?thesis using assms(2) r(2) by fastforce
qed

lemma delete_rows_view:
  assumes "wf_table rid s" and "\<And>r. p r = ended_before t (conv r)"
  shows "wf_table rid (del_rows p s) \<and> (\<forall>i. rows_view rid conv (del_rows p s) i = (case rows_view rid conv s i of
      None \<Rightarrow> None | Some c \<Rightarrow> if ended_before t c then None else Some c))"
  using assms by (auto simp: rows_view_def tbl_del_rows wf_del_rows split: option.splits)

lemma insert_rows_view:
  assumes "wf_table rid s" and "\<And>i. rid (mk i) = i"
  shows "wf_table rid (snd (sql_insert mk s)) \<and> rows_view rid conv s (next_id s) = None
    \<and> rows_view rid conv (snd (sql_insert mk s)) = (rows_view rid conv s)(next_id s \<mapsto> conv (mk (next_id s)))"
  using wf_insert [OF assms] tbl_insert [OF assms] assms(1)
  by (auto simp: rows_view_def)

end

end
