(* ===== verification/Sqlite_Time.thy ===== *)
theory Sqlite_Time
  imports Sql_Store
begin

section \<open>Datetime columns of SQLite\<close>

text \<open>
  The SQLite stores keep instants as text in the layout \<open>2006-01-02 15:04:05\<close> of SQLite's
  \<open>datetime('now')\<close>. Such a text is represented by the second it denotes; the layout has a fixed
  width, so the order of two texts is the order of the two numbers. An instant of Go's clock is
  a number of nanoseconds. The conversions are the same in every package that has a SQLite
  store (internal/commands/queue_sqlite.go, internal/library/series_sqlite.go and
  episodes_sqlite.go).
\<close>

definition second_ns :: int where "second_ns = 1000000000"

text \<open>\<open>UTC().Format(sqliteTimeLayout)\<close>, which drops the fraction of the second, and the
  parsing of such a text.\<close>

definition sqlite_format :: "int \<Rightarrow> int" where
  "sqlite_format t = t div second_ns"

definition parseSqliteTime :: "int \<Rightarrow> int" where
  "parseSqliteTime s = s * second_ns"

definition ptrFromNullString :: "int option \<Rightarrow> int option" where
  "ptrFromNullString v = (case v of None \<Rightarrow> None | Some s \<Rightarrow> Some (parseSqliteTime s))"

definition ptrFromNullInt64 :: "int option \<Rightarrow> int option" where
  "ptrFromNullInt64 v = (case v of None \<Rightarrow> None | Some n \<Rightarrow> Some n)"

definition sq_gran :: "int \<Rightarrow> int" where
  "sq_gran t = t div second_ns * second_ns"

lemma sq_time [simp]: "parseSqliteTime (sqlite_format t) = sq_gran t"
  by (simp add: parseSqliteTime_def sqlite_format_def sq_gran_def)

lemma parse_le_iff [simp]: "parseSqliteTime a \<le> parseSqliteTime b \<longleftrightarrow> a \<le> b"
  "parseSqliteTime a < parseSqliteTime b \<longleftrightarrow> a < b"
  by (simp_all add: parseSqliteTime_def second_ns_def)

lemma parse_less_gran [simp]: "parseSqliteTime a < sq_gran t \<longleftrightarrow> a < sqlite_format t"
  unfolding sq_time [symmetric] parse_le_iff ..

lemma sq_gran_mono: "t \<le> u \<Longrightarrow> sq_gran t \<le> sq_gran u"
  by (simp add: sq_gran_def second_ns_def zdiv_mono1)

lemma sq_gran_le: "sq_gran t \<le> t"
  by (simp add: sq_gran_def second_ns_def)

end
