(* ===== verification/CommandsSqlite.thy ===== *)
theory CommandsSqlite
  imports Commands Sqlite_Time
begin

section \<open>The SQLite command queue\<close>

text \<open>
  internal/commands/queue_sqlite.go over the statements of
  internal/db/gen/sqlite/commands.sql.go and the table of migration 00007. Datetime columns
  hold text in the fixed-width layout of SQLite's \<open>datetime('now')\<close>; such a text is represented
  by the second it denotes, so that the order of two texts is the order of the two numbers.
\<close>

subsection \<open>Rows and time columns\<close>

record SqCommand =
  sc_ID :: int
  sc_Name :: string
  sc_Body :: string
  sc_Priority :: int
  sc_Status :: string
  sc_QueuedAt :: int
  sc_StartedAt :: "int option"
  sc_EndedAt :: "int option"
  sc_DurationMs :: "int option"
  sc_Exception :: string
  sc_Trigger :: string
  sc_Message :: string
  sc_Result :: string
  sc_WorkerID :: string
  sc_LeaseUntil :: "int option"
  sc_DedupKey :: string

definition commandFromSqlite :: "SqCommand \<Rightarrow> Command" where
  "commandFromSqlite r = \<lparr>
     cmd_ID = sc_ID r,
     cmd_Name = sc_Name r,
     cmd_Body = Some (sc_Body r),
     cmd_Priority = sc_Priority r,
     cmd_Status = sc_Status r,
     cmd_QueuedAt = parseSqliteTime (sc_QueuedAt r),
     cmd_StartedAt = ptrFromNullString (sc_StartedAt r),
     cmd_EndedAt = ptrFromNullString (sc_EndedAt r),
     cmd_DurationMs = ptrFromNullInt64 (sc_DurationMs r),
     cmd_Exception = sc_Exception r,
     cmd_Trigger = sc_Trigger r,
     cmd_Message = sc_Message r,
     cmd_Result = Some (sc_Result r),
     cmd_WorkerID = sc_WorkerID r,
     cmd_LeaseUntil = ptrFromNullString (sc_LeaseUntil r),
     cmd_DedupKey = sc_DedupKey r\<rparr>"

subsection \<open>Statements\<close>

definition sqlite_EnqueueCommand ::
  "dbenv \<Rightarrow> string \<Rightarrow> string \<Rightarrow> int \<Rightarrow> string \<Rightarrow> string \<Rightarrow> (SqCommand table, SqCommand) act" where
  "sqlite_EnqueueCommand e name body priority trig dedup_key =
     stmt e ''EnqueueCommand'' (sql_insert (\<lambda>i. \<lparr>
       sc_ID = i, sc_Name = name, sc_Body = body, sc_Priority = priority,
       sc_Status = ''queued'', sc_QueuedAt = sqlite_format (env_now e), sc_StartedAt = None,
       sc_EndedAt = None, sc_DurationMs = None, sc_Exception = '''', sc_Trigger = trig,
       sc_Message = '''', sc_Result = ''{}'', sc_WorkerID = '''', sc_LeaseUntil = None,
       sc_DedupKey = dedup_key\<rparr>))"

definition sqlite_SelectNextQueuedCommand :: "dbenv \<Rightarrow> (SqCommand table, int) act" where
  "sqlite_SelectNextQueuedCommand e = stmt e ''SelectNextQueuedCommand''
     (mapA sc_ID (sql_first (\<lambda>r. sc_Status r = ''queued'') (\<lambda>r. (sc_Priority r, sc_QueuedAt r))))"

definition sqlite_MarkCommandRunning ::
  "dbenv \<Rightarrow> string \<Rightarrow> int option \<Rightarrow> int \<Rightarrow> (SqCommand table, unit) act" where
  "sqlite_MarkCommandRunning e worker_id lease_until i = stmt e ''MarkCommandRunning''
     (sql_exec (\<lambda>r. sc_ID r = i) (\<lambda>r. r\<lparr>sc_Status := ''running'', sc_WorkerID := worker_id,
        sc_StartedAt := Some (sqlite_format (env_now e)), sc_LeaseUntil := lease_until\<rparr>))"

definition sqlite_GetCommand :: "dbenv \<Rightarrow> int \<Rightarrow> (SqCommand table, SqCommand) act" where
  "sqlite_GetCommand e i = stmt e ''GetCommand'' (sql_one (\<lambda>r. sc_ID r = i))"

definition sqlite_CompleteCommand ::
  "dbenv \<Rightarrow> int option \<Rightarrow> string \<Rightarrow> string \<Rightarrow> int \<Rightarrow> (SqCommand table, unit) act" where
  "sqlite_CompleteCommand e duration_ms res message i = stmt e ''CompleteCommand''
     (sql_exec (\<lambda>r. sc_ID r = i) (\<lambda>r. r\<lparr>sc_Status := ''completed'',
        sc_EndedAt := Some (sqlite_format (env_now e)), sc_DurationMs := duration_ms,
        sc_Result := res, sc_Message := message\<rparr>))"

definition sqlite_FailCommand ::
  "dbenv \<Rightarrow> int option \<Rightarrow> string \<Rightarrow> string \<Rightarrow> int \<Rightarrow> (SqCommand table, unit) act" where
  "sqlite_FailCommand e duration_ms exception message i = stmt e ''FailCommand''
     (sql_exec (\<lambda>r. sc_ID r = i) (\<lambda>r. r\<lparr>sc_Status := ''failed'',
        sc_EndedAt := Some (sqlite_format (env_now e)), sc_DurationMs := duration_ms,
        sc_Exception := exception, sc_Message := message\<rparr>))"

definition sqlite_RefreshLease :: "dbenv \<Rightarrow> int option \<Rightarrow> int \<Rightarrow> (SqCommand table, unit) act" where
  "sqlite_RefreshLease e lease_until i = stmt e ''RefreshLease''
     (sql_exec (\<lambda>r. sc_ID r = i \<and> sc_Status r = ''running'') (\<lambda>r. r\<lparr>sc_LeaseUntil := lease_until\<rparr>))"

definition lease_expired :: "int \<Rightarrow> SqCommand \<Rightarrow> bool" where
  "lease_expired t r \<longleftrightarrow> sc_Status r = ''running'' \<and>
     (case sc_LeaseUntil r of None \<Rightarrow> False | Some l \<Rightarrow> l < t)"

definition sqlite_SweepExpiredLeases :: "dbenv \<Rightarrow> (SqCommand table, int) act" where
  "sqlite_SweepExpiredLeases e = stmt e ''SweepExpiredLeases''
     (sql_execrows (lease_expired (sqlite_format (env_now e)))
        (\<lambda>r. r\<lparr>sc_Status := ''queued'', sc_WorkerID := '''', sc_StartedAt := None,
             sc_LeaseUntil := None\<rparr>))"

definition sqlite_FindDuplicate :: "dbenv \<Rightarrow> string \<Rightarrow> (SqCommand table, int) act" where
  "sqlite_FindDuplicate e dedup_key = stmt e ''FindDuplicate'' (mapA sc_ID
     (sql_one (\<lambda>r. sc_DedupKey r = dedup_key \<and> sc_Status r \<in> {''queued'', ''running''})))"

definition sqlite_DeleteOldCompleted :: "dbenv \<Rightarrow> int \<Rightarrow> (SqCommand table, int) act" where
  "sqlite_DeleteOldCompleted e t = stmt e ''DeleteOldCompleted'' (sql_deleterows
     (\<lambda>r. sc_Status r \<in> {''completed'', ''failed''} \<and>
          (case sc_EndedAt r of None \<Rightarrow> False | Some x \<Rightarrow> x < t)))"

subsection \<open>Operations of the queue\<close>

definition sqliteQueue_Enqueue ::
  "dbenv \<Rightarrow> string \<Rightarrow> RawMessage \<Rightarrow> Priority \<Rightarrow> Trigger \<Rightarrow> string \<Rightarrow> (SqCommand table, Command) act" where
  "sqliteQueue_Enqueue e name body priority trig dedupKey =
     SQLitePool_Write e (mapA commandFromSqlite (wrapA ''commands: enqueue''
       (sqlite_EnqueueCommand e name (bytes_of body) priority trig dedupKey)))"

definition sqliteQueue_Claim ::
  "dbenv \<Rightarrow> string \<Rightarrow> int \<Rightarrow> (SqCommand table, Command option) act" where
  "sqliteQueue_Claim e workerID leaseDuration = SQLitePool_Write e
     (bindA (rowA (Inr None) ''commands: claim select'' Some (sqlite_SelectNextQueuedCommand e))
       (\<lambda>next. case next of
          None \<Rightarrow> retA None
        | Some i \<Rightarrow>
            bindA (wrapA ''commands: claim mark running'' (sqlite_MarkCommandRunning e workerID
                     (Some (sqlite_format (env_now e + leaseDuration))) i))
              (\<lambda>_. mapA (\<lambda>row. Some (commandFromSqlite row))
                     (wrapA ''commands: claim get'' (sqlite_GetCommand e i)))))"

definition sqliteQueue_Complete ::
  "dbenv \<Rightarrow> int \<Rightarrow> int \<Rightarrow> RawMessage \<Rightarrow> string \<Rightarrow> (SqCommand table, unit) act" where
  "sqliteQueue_Complete e i durationMs res message = wrapA ''commands: complete''
     (SQLitePool_Write e (sqlite_CompleteCommand e (Some durationMs) (bytes_of res) message i))"

definition sqliteQueue_Fail ::
  "dbenv \<Rightarrow> int \<Rightarrow> int \<Rightarrow> string \<Rightarrow> string \<Rightarrow> (SqCommand table, unit) act" where
  "sqliteQueue_Fail e i durationMs exception message = wrapA ''commands: fail''
     (SQLitePool_Write e (sqlite_FailCommand e (Some durationMs) exception message i))"

definition sqliteQueue_RefreshLease :: "dbenv \<Rightarrow> int \<Rightarrow> int \<Rightarrow> (SqCommand table, unit) act" where
  "sqliteQueue_RefreshLease e i leaseDuration = wrapA ''commands: refresh lease''
     (SQLitePool_Write e (sqlite_RefreshLease e (Some (sqlite_format (env_now e + leaseDuration))) i))"

definition sqliteQueue_SweepExpiredLeases :: "dbenv \<Rightarrow> (SqCommand table, int) act" where
  "sqliteQueue_SweepExpiredLeases e = wrapA ''commands: sweep expired leases''
     (SQLitePool_Write e (sqlite_SweepExpiredLeases e))"

definition sqliteQueue_FindDuplicate :: "dbenv \<Rightarrow> string \<Rightarrow> (SqCommand table, int \<times> bool) act" where
  "sqliteQueue_FindDuplicate e dedupKey =
     rowA (Inr (0, False)) ''commands: find duplicate'' (\<lambda>i. (i, True)) (sqlite_FindDuplicate e dedupKey)"

definition sqliteQueue_DeleteOldCompleted :: "dbenv \<Rightarrow> int \<Rightarrow> (SqCommand table, int) act" where
  "sqliteQueue_DeleteOldCompleted e olderThan = wrapA ''commands: delete old completed''
     (SQLitePool_Write e (sqlite_DeleteOldCompleted e (sqlite_format olderThan)))"

definition sqliteQueue_Get :: "dbenv \<Rightarrow> int \<Rightarrow> (SqCommand table, Command) act" where
  "sqliteQueue_Get e i = rowA (Inl (Wrap (''commands: get '' @ show_int i) ErrCommandNotFound))
     ''commands: get'' commandFromSqlite (sqlite_GetCommand e i)"

definition sqliteQueue_ListRecent :: "dbenv \<Rightarrow> int \<Rightarrow> (SqCommand table, Command list) act" where
  "sqliteQueue_ListRecent e limit = mapA (map commandFromSqlite)
     (wrapA ''commands: list recent'' (stmt e ''ListRecent''
       (mapA (\<lambda>rs. if 0 < limit then take (nat limit) rs else rs)
         (sql_many (\<lambda>_. True) (\<lambda>r. - sc_QueuedAt r)))))"

definition sqliteQueue :: "SqCommand table Queue" where
  "sqliteQueue = \<lparr>
     q_Enqueue = sqliteQueue_Enqueue,
     q_Claim = sqliteQueue_Claim,
     q_Complete = sqliteQueue_Complete,
     q_Fail = sqliteQueue_Fail,
     q_RefreshLease = sqliteQueue_RefreshLease,
     q_SweepExpiredLeases = sqliteQueue_SweepExpiredLeases,
     q_FindDuplicate = sqliteQueue_FindDuplicate,
     q_DeleteOldCompleted = sqliteQueue_DeleteOldCompleted,
     q_Get = sqliteQueue_Get,
     q_ListRecent = sqliteQueue_ListRecent\<rparr>"

subsection \<open>The queue meets its contract\<close>

lemmas sq_row_defs = commandFromSqlite_def ptrFromNullString_def ptrFromNullInt64_def

lemma commandFromSqlite_simps [simp]:
  "cmd_ID (commandFromSqlite r) = sc_ID r"
  "cmd_Status (commandFromSqlite r) = sc_Status r"
  "cmd_Priority (commandFromSqlite r) = sc_Priority r"
  "cmd_QueuedAt (commandFromSqlite r) = parseSqliteTime (sc_QueuedAt r)"
  "cmd_DedupKey (commandFromSqlite r) = sc_DedupKey r"
  by (simp_all add: commandFromSqlite_def)

interpretation sqrows: command_rows sc_ID commandFromSqlite
  by unfold_locales simp

lemma expired_sqlite [simp]:
  "expired (sq_gran t) (commandFromSqlite r) \<longleftrightarrow> lease_expired (sqlite_format t) r"
  by (auto simp: expired_def lease_expired_def sq_row_defs StatusRunning_def split: option.splits)

definition sq_run :: "dbenv \<Rightarrow> string \<Rightarrow> int \<Rightarrow> SqCommand \<Rightarrow> SqCommand" where
  "sq_run e w d r = r\<lparr>sc_Status := ''running'', sc_WorkerID := w,
     sc_StartedAt := Some (sqlite_format (env_now e)),
     sc_LeaseUntil := Some (sqlite_format (env_now e + d))\<rparr>"

abbreviation sq_next :: "SqCommand table \<Rightarrow> (store_error, SqCommand) result \<times> SqCommand table" where
  "sq_next \<equiv> sql_first (\<lambda>r. sc_Status r = ''queued'') (\<lambda>r. (sc_Priority r, sc_QueuedAt r))"

lemma sq_run_simps [simp]: "sc_ID (sq_run e w d r) = sc_ID r"
  "commandFromSqlite (sq_run e w d r)
     = claimed w (sq_gran (env_now e)) (sq_gran (env_now e + d)) (commandFromSqlite r)"
  by (simp_all add: sq_run_def sq_row_defs claimed_def StatusRunning_def)

text \<open>The three statements of a claim, run one after the other inside the write callback, act
  as one selection and one update.\<close>

lemma sqliteQueue_Claim_eq:
  assumes "wf_table sc_ID s" "quiet e"
  shows "sqliteQueue_Claim e w d s = (case fst (sq_next s) of
      Inl _ \<Rightarrow> (Inr None, s)
    | Inr r \<Rightarrow> (Inr (Some (commandFromSqlite (sq_run e w d r))),
               upd_rows (\<lambda>x. sc_ID x = sc_ID r) (sq_run e w d) s))"
proof -
  obtain r t where rt: "sq_next s = (r, t)" by fastforce
  show ?thesis
  proof (cases r)
    case (Inl x)
    with rt have "sq_next s = (Inl x, t)" by simp
    then have "x = NoRows" "t = s" unfolding sql_first_None by blast+
    with assms rt Inl show ?thesis
      by (simp add: sqliteQueue_Claim_def sqlite_SelectNextQueuedCommand_def act_defs)
  next
    case (Inr y)
    with rt have nxt: "sq_next s = (Inr y, t)" by simp
    note y = sql_first_SomeD(1,2) [OF nxt]
    have "tbl sc_ID s (sc_ID y) = Some y" by (rule tbl_row [OF assms(1) y(2)])
    then have "tbl sc_ID (upd_rows (\<lambda>x. sc_ID x = sc_ID y) (sq_run e w d) s) (sc_ID y)
        = Some (sq_run e w d y)"
      by (simp add: tbl_upd_rows)
    with assms nxt y(1) show ?thesis
      by (simp add: sqliteQueue_Claim_def sqlite_SelectNextQueuedCommand_def act_defs
          sqlite_MarkCommandRunning_def sqlite_GetCommand_def sql_exec_def sql_one_id
          sq_run_def [abs_def])
  qed
qed

lemma sq_claim_cases:
  assumes "wf_table sc_ID s" "quiet e" "sqliteQueue_Claim e w d s = (r, s')"
  obtains x t where "r = Inr None" "s' = s" "sq_next s = (Inl x, t)"
  | y t where "r = Inr (Some (commandFromSqlite (sq_run e w d y)))" "sq_next s = (Inr y, t)"
      "s' = upd_rows (\<lambda>x. sc_ID x = sc_ID y) (sq_run e w d) s"
  using assms sqliteQueue_Claim_eq [of s e w d]
  by (cases "sq_next s"; cases "fst (sq_next s)") auto

lemmas sq_op_defs = sqliteQueue_def sqliteQueue_Enqueue_def sqliteQueue_Complete_def
  sqliteQueue_Fail_def sqliteQueue_RefreshLease_def sqliteQueue_SweepExpiredLeases_def
  sqliteQueue_FindDuplicate_def sqliteQueue_DeleteOldCompleted_def sqliteQueue_Get_def
  sqlite_EnqueueCommand_def sqlite_CompleteCommand_def sqlite_FailCommand_def
  sqlite_RefreshLease_def sqlite_SweepExpiredLeases_def sqlite_FindDuplicate_def
  sqlite_DeleteOldCompleted_def sqlite_GetCommand_def

abbreviation sq_view :: "SqCommand table \<Rightarrow> int \<Rightarrow> Command option" where
  "sq_view \<equiv> rows_view sc_ID commandFromSqlite"

lemma sq_claim_none:
  assumes "wf_table sc_ID s" "quiet e"
    "q_Claim sqliteQueue e w d s = (Inr None, s')"
  shows "s' = s \<and> (\<forall>i c. sq_view s i = Some c \<longrightarrow> cmd_Status c \<noteq> StatusQueued)"
proof -
  from assms have "sqliteQueue_Claim e w d s = (Inr None, s')" by (simp add: sqliteQueue_def)
  with assms(1,2) obtain x t where "s' = s" "sq_next s = (Inl x, t)"
    by (rule sq_claim_cases) auto
  with sqrows.claim_first_none [OF assms(1), of _ _ x t] show ?thesis
    by (auto simp: StatusQueued_def)
qed

lemma sq_claim_some:
  assumes "wf_table sc_ID s" "quiet e"
    "q_Claim sqliteQueue e w d s = (Inr (Some c'), s')"
  shows "wf_table sc_ID s' \<and> (\<exists>i c. sq_view s i = Some c \<and> cmd_Status c = StatusQueued
            \<and> (\<forall>j b. sq_view s j = Some b \<longrightarrow> cmd_Status b = StatusQueued \<longrightarrow>
                 (cmd_Priority c, cmd_QueuedAt c) \<le> (cmd_Priority b, cmd_QueuedAt b))
            \<and> c' = claimed w (sq_gran (env_now e)) (sq_gran (env_now e + d)) c
            \<and> sq_view s' = (sq_view s)(i \<mapsto> c'))"
proof -
  from assms have "sqliteQueue_Claim e w d s = (Inr (Some c'), s')" by (simp add: sqliteQueue_def)
  with assms(1,2) obtain y t where y: "c' = commandFromSqlite (sq_run e w d y)" "sq_next s = (Inr y, t)"
      "s' = upd_rows (\<lambda>x. sc_ID x = sc_ID y) (sq_run e w d) s"
    by (rule sq_claim_cases) auto
  show ?thesis unfolding y(1,3)
    by (rule sqrows.claim_first_some [OF assms(1) y(2)]) (auto simp: StatusQueued_def)
qed

lemma sq_claim_ok:
  assumes "wf_table sc_ID s" "quiet e"
  shows "is_ok (fst (q_Claim sqliteQueue e w d s))"
  using assms by (cases "fst (sq_next s)") (simp_all add: sqliteQueue_def sqliteQueue_Claim_eq)

lemma sq_complete_ok:
  assumes "wf_table sc_ID s" "quiet e"
    "q_Complete sqliteQueue e i ms res msg s = (r, s')"
  shows "r = Inr () \<and> wf_table sc_ID s' \<and>
          sq_view s' = (sq_view s)(i := map_option (completed (sq_gran (env_now e)) ms (Some (bytes_of res)) msg) (sq_view s i))"
proof -
  have "sq_view s' = (sq_view s)(i := map_option
     (completed (sq_gran (env_now e)) ms (Some (bytes_of res)) msg) (sq_view s i))"
    using assms(2,3)
    by (auto simp: sq_op_defs act_defs sql_exec_def completed_def StatusCompleted_def sq_row_defs
        intro!: sqrows.view_upd)
  with assms show ?thesis by (auto simp: sq_op_defs act_defs sql_exec_def intro!: wf_upd_rows)
qed

lemma sq_fail_ok:
  assumes "wf_table sc_ID s" "quiet e"
    "q_Fail sqliteQueue e i ms exc msg s = (r, s')"
  shows "r = Inr () \<and> wf_table sc_ID s' \<and>
          sq_view s' = (sq_view s)(i := map_option (failed (sq_gran (env_now e)) ms exc msg) (sq_view s i))"
proof -
  have "sq_view s' = (sq_view s)(i := map_option
     (failed (sq_gran (env_now e)) ms exc msg) (sq_view s i))"
    using assms(2,3)
    by (auto simp: sq_op_defs act_defs sql_exec_def failed_def StatusFailed_def sq_row_defs
        intro!: sqrows.view_upd)
  with assms show ?thesis by (auto simp: sq_op_defs act_defs sql_exec_def intro!: wf_upd_rows)
qed

lemma sq_refresh_ok:
  assumes "wf_table sc_ID s" "quiet e"
    "q_RefreshLease sqliteQueue e i d s = (r, s')"
  shows "r = Inr () \<and> wf_table sc_ID s' \<and>
          sq_view s' = (sq_view s)(i := map_option (refreshed (sq_gran (env_now e + d))) (sq_view s i))"
proof -
  have "sq_view s' = (sq_view s)(i := map_option
     (refreshed (sq_gran (env_now e + d))) (sq_view s i))"
    using assms(2,3)
    by (auto simp: sq_op_defs act_defs sql_exec_def refreshed_def StatusRunning_def sq_row_defs
        intro!: sqrows.view_upd)
  with assms show ?thesis by (auto simp: sq_op_defs act_defs sql_exec_def intro!: wf_upd_rows)
qed

lemma sq_sweep_ok:
  assumes "wf_table sc_ID s" "quiet e"
    "q_SweepExpiredLeases sqliteQueue e s = (n, s')"
  shows "wf_table sc_ID s' \<and> (\<forall>i. sq_view s' i = map_option (swept (sq_gran (env_now e))) (sq_view s i))
          \<and> n = Inr (int (card {i. \<exists>c. sq_view s i = Some c \<and> expired (sq_gran (env_now e)) c}))"
proof -
  have "lease_expired (sqlite_format (env_now e)) r \<Longrightarrow> commandFromSqlite (r\<lparr>sc_Status := ''queued'',
      sc_WorkerID := [], sc_StartedAt := None, sc_LeaseUntil := None\<rparr>)
      = swept (sq_gran (env_now e)) (commandFromSqlite r)" for r
    by (simp add: swept_def) (simp add: sq_row_defs StatusQueued_def)
  with assms sqrows.sweep_rows [OF assms(1), of "\<lambda>r. r\<lparr>sc_Status := ''queued'', sc_WorkerID := [],
      sc_StartedAt := None, sc_LeaseUntil := None\<rparr>" "lease_expired (sqlite_format (env_now e))"
      "sq_gran (env_now e)"]
  show ?thesis by (auto simp: sq_op_defs act_defs sql_execrows_def)
qed

lemma sq_find_dup_ok:
  assumes "wf_table sc_ID s" "quiet e"
    "q_FindDuplicate sqliteQueue e k s = (rf, s')"
  shows "s' = s \<and> (\<exists>i b. rf = Inr (i, b) \<and>
            (if b then \<exists>c. sq_view s i = Some c \<and> cmd_DedupKey c = k \<and> active c
             else i = 0 \<and> (\<forall>j c. sq_view s j = Some c \<longrightarrow> active c \<longrightarrow> cmd_DedupKey c \<noteq> k)))"
proof -
  have "(sc_DedupKey r = k \<and> sc_Status r \<in> {''queued'', ''running''})
      = (cmd_DedupKey (commandFromSqlite r) = k \<and> active (commandFromSqlite r))" for r
    by (auto simp: active_def status_defs)
  note dup = sqrows.dup_rows [OF assms(1) this, of "''commands: find duplicate''"]
  have op: "q_FindDuplicate sqliteQueue e k s = rowA (Inr (0, False)) ''commands: find duplicate''
      (\<lambda>i. (i, True)) (mapA sc_ID (sql_one (\<lambda>r. sc_DedupKey r = k \<and> sc_Status r \<in> {''queued'', ''running''}))) s"
    using assms(2) by (simp only: sq_op_defs stmt_quiet Queue.simps)
  from dup assms(3) show ?thesis unfolding op by (elim exE conjE) (simp only: prod.inject, blast)
qed

lemma sq_delete_old_ok:
  assumes "wf_table sc_ID s" "quiet e"
    "q_DeleteOldCompleted sqliteQueue e t s = (n, s')"
  shows "wf_table sc_ID s' \<and> (\<forall>i. sq_view s' i =
            (case sq_view s i of None \<Rightarrow> None | Some c \<Rightarrow> if ended_before (sq_gran t) c then None else Some c))"
proof -
  have "(sc_Status r \<in> {''completed'', ''failed''} \<and>
      (case sc_EndedAt r of None \<Rightarrow> False | Some x \<Rightarrow> x < sqlite_format t))
      = ended_before (sq_gran t) (commandFromSqlite r)" for r
    by (auto simp: ended_before_def sq_row_defs status_defs split: option.splits)
  with assms sqrows.delete_rows_view [OF assms(1)] show ?thesis
    by (auto simp: sq_op_defs act_defs sql_deleterows_def)
qed

lemma sq_get_ok:
  assumes "wf_table sc_ID s" "quiet e"
    "q_Get sqliteQueue e i s = (rg, s')"
  shows "s' = s \<and>
          (case sq_view s i of None \<Rightarrow> (\<exists>m. rg = Inl (Wrap m ErrCommandNotFound)) | Some c \<Rightarrow> rg = Inr c)"
  using assms by (auto simp: sq_op_defs act_defs sql_one_id rows_view_def split: option.splits)

lemma sq_enqueue_ok:
  assumes "wf_table sc_ID s" "quiet e" "prio \<in> {PriorityHigh, PriorityNormal, PriorityLow}"
    "q_Enqueue sqliteQueue e name body prio trig k s = (rg, s')"
  shows "wf_table sc_ID s' \<and> (\<exists>i. sq_view s i = None \<and>
            rg = Inr (fresh_command i name (Some (bytes_of body)) prio trig k (sq_gran (env_now e))) \<and>
            sq_view s' = (sq_view s)(i \<mapsto> fresh_command i name (Some (bytes_of body)) prio trig k (sq_gran (env_now e))))"
proof -
  define mk where "mk = (\<lambda>i. \<lparr>sc_ID = i, sc_Name = name, sc_Body = bytes_of body, sc_Priority = prio,
       sc_Status = ''queued'', sc_QueuedAt = sqlite_format (env_now e), sc_StartedAt = None,
       sc_EndedAt = None, sc_DurationMs = None, sc_Exception = '''', sc_Trigger = trig,
       sc_Message = '''', sc_Result = ''{}'', sc_WorkerID = '''', sc_LeaseUntil = None,
       sc_DedupKey = k\<rparr>)"
  have conv: "commandFromSqlite (mk i) =
      fresh_command i name (Some (bytes_of body)) prio trig k (sq_gran (env_now e))" for i
    by (simp add: mk_def fresh_command_def sq_row_defs StatusQueued_def)
  have "sc_ID (mk i) = i" for i by (simp add: mk_def)
  note ins = sqrows.insert_rows_view [OF assms(1) this]
  have "rg = Inr (commandFromSqlite (mk (next_id s)))" "s' = snd (sql_insert mk s)"
    using assms(2,4) by (auto simp: sq_op_defs act_defs sql_insert_def mk_def)
  with ins conv show ?thesis by auto
qed

lemmas sq_laws = sq_gran_mono sqrows.rows_view_id sq_claim_none sq_claim_some sq_claim_ok sq_complete_ok
  sq_fail_ok sq_refresh_ok sq_sweep_ok sq_find_dup_ok
  sq_delete_old_ok sq_get_ok sq_enqueue_ok

interpretation sqlite: command_queue sqliteQueue "wf_table sc_ID"
  "rows_view sc_ID commandFromSqlite" sq_gran "\<lambda>_. True" "\<lambda>b. Some (bytes_of b)"
  by unfold_locales (rule sq_gran_le | (rule sq_laws, assumption+) | simp)+

lemma sq_bound:
  assumes "wf_table sc_ID s"
  shows "sq_view s i = Some c \<Longrightarrow> i < next_id s"
    and "quiet e \<Longrightarrow> next_id s \<le> next_id (snd (q_Claim sqliteQueue e w d s))"
  using assms by (auto simp: sqrows.rows_view_Some wf_table_def sqliteQueue_def sqliteQueue_Claim_eq
      split: sum.split)

interpretation sqlite_ids: command_ids sqliteQueue "wf_table sc_ID"
  "rows_view sc_ID commandFromSqlite" sq_gran "\<lambda>_. True" "\<lambda>b. Some (bytes_of b)" next_id
  by unfold_locales
    (auto simp: sq_op_defs act_defs sql_defs sq_bound [unfolded sqliteQueue_def, simplified])

end
