(* ===== verification/Postgres_Types.thy ===== *)
theory Postgres_Types
  imports Sql_Store
begin

section \<open>Timestamps and JSON columns of Postgres\<close>

text \<open>
  A \<open>timestamptz\<close> column holds microseconds, an instant of Go's clock nanoseconds. The driver
  sends a nil byte slice as NULL, which a \<open>JSONB NOT NULL\<close> column refuses, and the engine refuses
  text that is not JSON. What the engine makes of a JSON text is the parameter \<open>jsonb\<close> of the stores:
  \<open>None\<close> for invalid input, otherwise the text of the stored value. The order of text columns depends on
  the collation of the database, the parameter \<open>collate\<close> of the stores that sort by text: the sort key
  the engine derives from a text.
\<close>

type_synonym jsonb_input = "string \<Rightarrow> string option"

definition micro_ns :: int where "micro_ns = 1000"

definition pg_micros :: "int \<Rightarrow> int" where
  "pg_micros t = t div micro_ns"

definition pg_time :: "int \<Rightarrow> int" where
  "pg_time m = m * micro_ns"

text \<open>The value of a \<open>JSONB NOT NULL\<close> parameter.\<close>

definition jsonb_param :: "jsonb_input \<Rightarrow> RawMessage \<Rightarrow> (store_error, string) result" where
  "jsonb_param jsonb b = (case b of
     None \<Rightarrow> Inl (DbError ''null value violates not-null constraint'')
   | Some s \<Rightarrow> (case jsonb s of
       None \<Rightarrow> Inl (DbError ''invalid input syntax for type json'')
     | Some v \<Rightarrow> Inr v))"

definition pg_gran :: "int \<Rightarrow> int" where
  "pg_gran t = t div micro_ns * micro_ns"

lemma pg_time_micros [simp]: "pg_time (pg_micros t) = pg_gran t"
  by (simp add: pg_time_def pg_micros_def pg_gran_def)

lemma pg_time_le_iff [simp]: "pg_time a \<le> pg_time b \<longleftrightarrow> a \<le> b" "pg_time a < pg_time b \<longleftrightarrow> a < b"
  by (simp_all add: pg_time_def micro_ns_def)

lemma pg_time_less_gran [simp]: "pg_time a < pg_gran t \<longleftrightarrow> a < pg_micros t"
  unfolding pg_time_micros [symmetric] pg_time_le_iff ..

end
