(* ===== verification/CommandsPostgres.thy ===== *)
theory CommandsPostgres
  imports Commands Postgres_Types
begin

section \<open>The Postgres command queue\<close>

text \<open>
  internal/commands/queue_postgres.go over the statements of
  internal/db/gen/postgres/commands.sql.go and the table of migration 00007. A \<open>timestamptz\<close>
  column holds microseconds. The columns \<open>body\<close> and \<open>result\<close> are \<open>JSONB NOT NULL\<close>: the driver
  sends a nil byte slice as NULL, which the constraint refuses, and the engine refuses text that is
  not JSON. What the engine makes of a JSON text is the parameter \<open>jsonb\<close>: \<open>None\<close> for invalid
  input, otherwise the text of the stored value.
\<close>

subsection \<open>Rows and columns\<close>

record PgCommand =
  pc_ID :: int
  pc_Name :: string
  pc_Body :: string
  pc_Priority :: int
  pc_Status :: string
  pc_QueuedAt :: int
  pc_StartedAt :: "int option"
  pc_EndedAt :: "int option"
  pc_DurationMs :: "int option"
  pc_Exception :: string
  pc_Trigger :: string
  pc_Message :: string
  pc_Result :: string
  pc_WorkerID :: string
  pc_LeaseUntil :: "int option"
  pc_DedupKey :: string

text \<open>Go's conversion \<open>int16(priority)\<close>.\<close>

definition to_int16 :: "int \<Rightarrow> int" where
  "to_int16 x = (x + 2 ^ 15) mod 2 ^ 16 - 2 ^ 15"

definition ptrFromPgTimestamptz :: "int option \<Rightarrow> int option" where
  "ptrFromPgTimestamptz v = (case v of None \<Rightarrow> None | Some m \<Rightarrow> Some (pg_time m))"

definition ptrFromPgInt8 :: "int option \<Rightarrow> int option" where
  "ptrFromPgInt8 v = (case v of None \<Rightarrow> None | Some n \<Rightarrow> Some n)"

definition commandFromPostgres :: "PgCommand \<Rightarrow> Command" where
  "commandFromPostgres r = \<lparr>
     cmd_ID = pc_ID r,
     cmd_Name = pc_Name r,
     cmd_Body = Some (pc_Body r),
     cmd_Priority = pc_Priority r,
     cmd_Status = pc_Status r,
     cmd_QueuedAt = pg_time (pc_QueuedAt r),
     cmd_StartedAt = ptrFromPgTimestamptz (pc_StartedAt r),
     cmd_EndedAt = ptrFromPgTimestamptz (pc_EndedAt r),
     cmd_DurationMs = ptrFromPgInt8 (pc_DurationMs r),
     cmd_Exception = pc_Exception r,
     cmd_Trigger = pc_Trigger r,
     cmd_Message = pc_Message r,
     cmd_Result = Some (pc_Result r),
     cmd_WorkerID = pc_WorkerID r,
     cmd_LeaseUntil = ptrFromPgTimestamptz (pc_LeaseUntil r),
     cmd_DedupKey = pc_DedupKey r\<rparr>"

subsection \<open>Statements\<close>

definition postgres_EnqueueCommand ::
  "jsonb_input \<Rightarrow> dbenv \<Rightarrow> string \<Rightarrow> RawMessage \<Rightarrow> int \<Rightarrow> string \<Rightarrow> string \<Rightarrow> (PgCommand table, PgCommand) act"
where
  "postgres_EnqueueCommand jsonb e name body priority trig dedup_key =
     stmt e ''EnqueueCommand'' (case jsonb_param jsonb body of
       Inl x \<Rightarrow> failA x
     | Inr v \<Rightarrow> sql_insert (\<lambda>i. \<lparr>
         pc_ID = i, pc_Name = name, pc_Body = v, pc_Priority = priority,
         pc_Status = ''queued'', pc_QueuedAt = pg_micros (env_now e), pc_StartedAt = None,
         pc_EndedAt = None, pc_DurationMs = None, pc_Exception = '''', pc_Trigger = trig,
         pc_Message = '''', pc_Result = ''{}'', pc_WorkerID = '''', pc_LeaseUntil = None,
         pc_DedupKey = dedup_key\<rparr>))"

definition postgres_ClaimCommand ::
  "dbenv \<Rightarrow> string \<Rightarrow> int option \<Rightarrow> (PgCommand table, PgCommand) act" where
  "postgres_ClaimCommand e worker_id lease_until = stmt e ''ClaimCommand''
     (bindA (sql_first (\<lambda>r. pc_Status r = ''queued'') (\<lambda>r. (pc_Priority r, pc_QueuedAt r)))
       (\<lambda>r t. let run = (\<lambda>r. r\<lparr>pc_Status := ''running'', pc_WorkerID := worker_id,
                   pc_StartedAt := Some (pg_micros (env_now e)), pc_LeaseUntil := lease_until\<rparr>)
              in (Inr (run r), upd_rows (\<lambda>x. pc_ID x = pc_ID r) run t)))"

definition postgres_GetCommand :: "dbenv \<Rightarrow> int \<Rightarrow> (PgCommand table, PgCommand) act" where
  "postgres_GetCommand e i = stmt e ''GetCommand'' (sql_one (\<lambda>r. pc_ID r = i))"

definition postgres_CompleteCommand ::
  "jsonb_input \<Rightarrow> dbenv \<Rightarrow> int \<Rightarrow> int option \<Rightarrow> RawMessage \<Rightarrow> string \<Rightarrow> (PgCommand table, unit) act" where
  "postgres_CompleteCommand jsonb e i duration_ms res message = stmt e ''CompleteCommand''
     (\<lambda>t. if \<forall>r\<in>set (rows t). pc_ID r \<noteq> i then (Inr (), t)
          else (case jsonb_param jsonb res of
            Inl x \<Rightarrow> (Inl x, t)
          | Inr v \<Rightarrow> sql_exec (\<lambda>r. pc_ID r = i) (\<lambda>r. r\<lparr>pc_Status := ''completed'',
              pc_EndedAt := Some (pg_micros (env_now e)), pc_DurationMs := duration_ms,
              pc_Result := v, pc_Message := message\<rparr>) t))"

definition postgres_FailCommand ::
  "dbenv \<Rightarrow> int \<Rightarrow> int option \<Rightarrow> string \<Rightarrow> string \<Rightarrow> (PgCommand table, unit) act" where
  "postgres_FailCommand e i duration_ms exception message = stmt e ''FailCommand''
     (sql_exec (\<lambda>r. pc_ID r = i) (\<lambda>r. r\<lparr>pc_Status := ''failed'',
        pc_EndedAt := Some (pg_micros (env_now e)), pc_DurationMs := duration_ms,
        pc_Exception := exception, pc_Message := message\<rparr>))"

definition postgres_RefreshLease :: "dbenv \<Rightarrow> int \<Rightarrow> int option \<Rightarrow> (PgCommand table, unit) act" where
  "postgres_RefreshLease e i lease_until = stmt e ''RefreshLease''
     (sql_exec (\<lambda>r. pc_ID r = i \<and> pc_Status r = ''running'') (\<lambda>r. r\<lparr>pc_LeaseUntil := lease_until\<rparr>))"

definition pg_lease_expired :: "int \<Rightarrow> PgCommand \<Rightarrow> bool" where
  "pg_lease_expired t r \<longleftrightarrow> pc_Status r = ''running'' \<and>
     (case pc_LeaseUntil r of None \<Rightarrow> False | Some l \<Rightarrow> l < t)"

definition postgres_SweepExpiredLeases :: "dbenv \<Rightarrow> (PgCommand table, int) act" where
  "postgres_SweepExpiredLeases e = stmt e ''SweepExpiredLeases''
     (sql_execrows (pg_lease_expired (pg_micros (env_now e)))
        (\<lambda>r. r\<lparr>pc_Status := ''queued'', pc_WorkerID := '''', pc_StartedAt := None,
             pc_LeaseUntil := None\<rparr>))"

definition postgres_FindDuplicate :: "dbenv \<Rightarrow> string \<Rightarrow> (PgCommand table, int) act" where
  "postgres_FindDuplicate e dedup_key = stmt e ''FindDuplicate'' (mapA pc_ID
     (sql_one (\<lambda>r. pc_DedupKey r = dedup_key \<and> pc_Status r \<in> {''queued'', ''running''})))"

definition postgres_DeleteOldCompleted :: "dbenv \<Rightarrow> int \<Rightarrow> (PgCommand table, int) act" where
  "postgres_DeleteOldCompleted e t = stmt e ''DeleteOldCompleted'' (sql_deleterows
     (\<lambda>r. pc_Status r \<in> {''completed'', ''failed''} \<and>
          (case pc_EndedAt r of None \<Rightarrow> False | Some x \<Rightarrow> x < t)))"

subsection \<open>Operations of the queue\<close>

definition postgresQueue_Enqueue ::
  "jsonb_input \<Rightarrow> dbenv \<Rightarrow> string \<Rightarrow> RawMessage \<Rightarrow> Priority \<Rightarrow> Trigger \<Rightarrow> string \<Rightarrow> (PgCommand table, Command) act"
where
  "postgresQueue_Enqueue jsonb e name body priority trig dedupKey =
     mapA commandFromPostgres (wrapA ''commands: enqueue''
       (postgres_EnqueueCommand jsonb e name body (to_int16 priority) trig dedupKey))"

definition postgresQueue_Claim ::
  "dbenv \<Rightarrow> string \<Rightarrow> int \<Rightarrow> (PgCommand table, Command option) act" where
  "postgresQueue_Claim e workerID leaseDuration =
     rowA (Inr None) ''commands: claim'' (\<lambda>row. Some (commandFromPostgres row))
       (postgres_ClaimCommand e workerID (Some (pg_micros (env_now e + leaseDuration))))"

definition postgresQueue_Complete ::
  "jsonb_input \<Rightarrow> dbenv \<Rightarrow> int \<Rightarrow> int \<Rightarrow> RawMessage \<Rightarrow> string \<Rightarrow> (PgCommand table, unit) act" where
  "postgresQueue_Complete jsonb e i durationMs res message = wrapA ''commands: complete''
     (postgres_CompleteCommand jsonb e i (Some durationMs) res message)"

definition postgresQueue_Fail ::
  "dbenv \<Rightarrow> int \<Rightarrow> int \<Rightarrow> string \<Rightarrow> string \<Rightarrow> (PgCommand table, unit) act" where
  "postgresQueue_Fail e i durationMs exception message = wrapA ''commands: fail''
     (postgres_FailCommand e i (Some durationMs) exception message)"

definition postgresQueue_RefreshLease :: "dbenv \<Rightarrow> int \<Rightarrow> int \<Rightarrow> (PgCommand table, unit) act" where
  "postgresQueue_RefreshLease e i leaseDuration = wrapA ''commands: refresh lease''
     (postgres_RefreshLease e i (Some (pg_micros (env_now e + leaseDuration))))"

definition postgresQueue_SweepExpiredLeases :: "dbenv \<Rightarrow> (PgCommand table, int) act" where
  "postgresQueue_SweepExpiredLeases e = wrapA ''commands: sweep expired leases''
     (postgres_SweepExpiredLeases e)"

definition postgresQueue_FindDuplicate :: "dbenv \<Rightarrow> string \<Rightarrow> (PgCommand table, int \<times> bool) act" where
  "postgresQueue_FindDuplicate e dedupKey =
     rowA (Inr (0, False)) ''commands: find duplicate'' (\<lambda>i. (i, True)) (postgres_FindDuplicate e dedupKey)"

definition postgresQueue_DeleteOldCompleted :: "dbenv \<Rightarrow> int \<Rightarrow> (PgCommand table, int) act" where
  "postgresQueue_DeleteOldCompleted e olderThan = wrapA ''commands: delete old completed''
     (postgres_DeleteOldCompleted e (pg_micros olderThan))"

definition postgresQueue_Get :: "dbenv \<Rightarrow> int \<Rightarrow> (PgCommand table, Command) act" where
  "postgresQueue_Get e i = rowA (Inl (Wrap (''commands: get '' @ show_int i) ErrCommandNotFound))
     ''commands: get'' commandFromPostgres (postgres_GetCommand e i)"

definition postgresQueue_ListRecent :: "dbenv \<Rightarrow> int \<Rightarrow> (PgCommand table, Command list) act" where
  "postgresQueue_ListRecent e limit = mapA (map commandFromPostgres)
     (wrapA ''commands: list recent'' (stmt e ''ListRecent''
       (mapA (\<lambda>rs. if 0 < limit then take (nat limit) rs else rs)
         (sql_many (\<lambda>_. True) (\<lambda>r. - pc_QueuedAt r)))))"

definition postgresQueue :: "jsonb_input \<Rightarrow> PgCommand table Queue" where
  "postgresQueue jsonb = \<lparr>
     q_Enqueue = postgresQueue_Enqueue jsonb,
     q_Claim = postgresQueue_Claim,
     q_Complete = postgresQueue_Complete jsonb,
     q_Fail = postgresQueue_Fail,
     q_RefreshLease = postgresQueue_RefreshLease,
     q_SweepExpiredLeases = postgresQueue_SweepExpiredLeases,
     q_FindDuplicate = postgresQueue_FindDuplicate,
     q_DeleteOldCompleted = postgresQueue_DeleteOldCompleted,
     q_Get = postgresQueue_Get,
     q_ListRecent = postgresQueue_ListRecent\<rparr>"

subsection \<open>The queue meets its contract\<close>

lemmas pg_row_defs = commandFromPostgres_def ptrFromPgTimestamptz_def ptrFromPgInt8_def

lemma commandFromPostgres_simps [simp]:
  "cmd_ID (commandFromPostgres r) = pc_ID r"
  "cmd_Status (commandFromPostgres r) = pc_Status r"
  "cmd_Priority (commandFromPostgres r) = pc_Priority r"
  "cmd_QueuedAt (commandFromPostgres r) = pg_time (pc_QueuedAt r)"
  "cmd_DedupKey (commandFromPostgres r) = pc_DedupKey r"
  by (simp_all add: commandFromPostgres_def)

interpretation pgrows: command_rows pc_ID commandFromPostgres
  by unfold_locales simp

lemma expired_postgres [simp]:
  "expired (pg_gran t) (commandFromPostgres r) \<longleftrightarrow> pg_lease_expired (pg_micros t) r"
  by (auto simp: expired_def pg_lease_expired_def pg_row_defs StatusRunning_def split: option.splits)

definition pg_run :: "dbenv \<Rightarrow> string \<Rightarrow> int \<Rightarrow> PgCommand \<Rightarrow> PgCommand" where
  "pg_run e w d r = r\<lparr>pc_Status := ''running'', pc_WorkerID := w,
     pc_StartedAt := Some (pg_micros (env_now e)),
     pc_LeaseUntil := Some (pg_micros (env_now e + d))\<rparr>"

abbreviation pg_next :: "PgCommand table \<Rightarrow> (store_error, PgCommand) result \<times> PgCommand table" where
  "pg_next \<equiv> sql_first (\<lambda>r. pc_Status r = ''queued'') (\<lambda>r. (pc_Priority r, pc_QueuedAt r))"

lemma pg_run_simps [simp]: "pc_ID (pg_run e w d r) = pc_ID r"
  "commandFromPostgres (pg_run e w d r)
     = claimed w (pg_gran (env_now e)) (pg_gran (env_now e + d)) (commandFromPostgres r)"
  by (simp_all add: pg_run_def pg_row_defs claimed_def StatusRunning_def)

lemma postgresQueue_Claim_eq:
  assumes "quiet e"
  shows "postgresQueue_Claim e w d s = (case fst (pg_next s) of
      Inl _ \<Rightarrow> (Inr None, s)
    | Inr r \<Rightarrow> (Inr (Some (commandFromPostgres (pg_run e w d r))),
               upd_rows (\<lambda>x. pc_ID x = pc_ID r) (pg_run e w d) s))"
proof -
  obtain r t where rt: "pg_next s = (r, t)" by fastforce
  then have "t = s" by (simp add: sql_first_def)
  show ?thesis
  proof (cases r)
    case (Inl x)
    with rt have "pg_next s = (Inl x, t)" by simp
    then have "x = NoRows" unfolding sql_first_None by blast
    with assms rt Inl \<open>t = s\<close> show ?thesis
      by (simp add: postgresQueue_Claim_def postgres_ClaimCommand_def act_defs)
  next
    case (Inr y)
    with assms rt \<open>t = s\<close> show ?thesis
      by (simp add: postgresQueue_Claim_def postgres_ClaimCommand_def act_defs pg_run_def [abs_def])
  qed
qed

lemma pg_claim_cases:
  assumes "wf_table pc_ID s" "quiet e" "postgresQueue_Claim e w d s = (r, s')"
  obtains x t where "r = Inr None" "s' = s" "pg_next s = (Inl x, t)"
  | y t where "r = Inr (Some (commandFromPostgres (pg_run e w d y)))" "pg_next s = (Inr y, t)"
      "s' = upd_rows (\<lambda>x. pc_ID x = pc_ID y) (pg_run e w d) s"
  using assms postgresQueue_Claim_eq [of e w d s]
  by (cases "pg_next s"; cases "fst (pg_next s)") auto

lemmas pg_op_defs = postgresQueue_def postgresQueue_Enqueue_def postgresQueue_Complete_def
  postgresQueue_Fail_def postgresQueue_RefreshLease_def postgresQueue_SweepExpiredLeases_def
  postgresQueue_FindDuplicate_def postgresQueue_DeleteOldCompleted_def postgresQueue_Get_def
  postgres_EnqueueCommand_def postgres_CompleteCommand_def postgres_FailCommand_def
  postgres_RefreshLease_def postgres_SweepExpiredLeases_def postgres_FindDuplicate_def
  postgres_DeleteOldCompleted_def postgres_GetCommand_def

lemma pg_gran_mono: "t \<le> u \<Longrightarrow> pg_gran t \<le> pg_gran u"
  by (simp add: pg_gran_def micro_ns_def zdiv_mono1)

lemma pg_gran_le: "pg_gran t \<le> t"
  by (simp add: pg_gran_def micro_ns_def)

lemma pg_complete:
  assumes "wf_table pc_ID s" "quiet e" "jsonb_param jsonb res = Inr v"
  shows "postgresQueue_Complete jsonb e i ms res msg s = (Inr (), upd_rows (\<lambda>r. pc_ID r = i)
     (\<lambda>r. r\<lparr>pc_Status := ''completed'', pc_EndedAt := Some (pg_micros (env_now e)),
          pc_DurationMs := Some ms, pc_Result := v, pc_Message := msg\<rparr>) s)"
proof (cases "\<forall>r\<in>set (rows s). pc_ID r \<noteq> i")
  case True
  then have "map (\<lambda>r. if pc_ID r = i then f r else r) (rows s) = rows s" for f
    by (simp add: map_idI)
  then have "upd_rows (\<lambda>r. pc_ID r = i) f s = s" for f by (simp add: upd_rows_def)
  with True assms show ?thesis
    by (simp add: postgresQueue_Complete_def postgres_CompleteCommand_def act_defs)
next
  case False
  with assms show ?thesis
    by (auto simp: postgresQueue_Complete_def postgres_CompleteCommand_def act_defs sql_exec_def)
qed

definition pg_json :: "jsonb_input \<Rightarrow> RawMessage \<Rightarrow> RawMessage" where
  "pg_json jsonb b = (case b of None \<Rightarrow> None | Some s \<Rightarrow> jsonb s)"

lemma jsonb_param_ok: "pg_json jsonb b \<noteq> None \<Longrightarrow> \<exists>v. jsonb_param jsonb b = Inr v \<and> pg_json jsonb b = Some v"
  by (auto simp: pg_json_def jsonb_param_def split: option.splits)

abbreviation pg_view :: "PgCommand table \<Rightarrow> int \<Rightarrow> Command option" where
  "pg_view \<equiv> rows_view pc_ID commandFromPostgres"

lemma pg_claim_none:
  assumes "wf_table pc_ID s" "quiet e"
    "q_Claim (postgresQueue jsonb) e w d s = (Inr None, s')"
  shows "s' = s \<and> (\<forall>i c. pg_view s i = Some c \<longrightarrow> cmd_Status c \<noteq> StatusQueued)"
proof -
  from assms have "postgresQueue_Claim e w d s = (Inr None, s')" by (simp add: postgresQueue_def)
  with assms(1,2) obtain x t where "s' = s" "pg_next s = (Inl x, t)"
    by (rule pg_claim_cases) auto
  with pgrows.claim_first_none [OF assms(1), of _ _ x t] show ?thesis
    by (auto simp: StatusQueued_def)
qed

lemma pg_claim_some:
  assumes "wf_table pc_ID s" "quiet e"
    "q_Claim (postgresQueue jsonb) e w d s = (Inr (Some c'), s')"
  shows "wf_table pc_ID s' \<and> (\<exists>i c. pg_view s i = Some c \<and> cmd_Status c = StatusQueued
            \<and> (\<forall>j b. pg_view s j = Some b \<longrightarrow> cmd_Status b = StatusQueued \<longrightarrow>
                 (cmd_Priority c, cmd_QueuedAt c) \<le> (cmd_Priority b, cmd_QueuedAt b))
            \<and> c' = claimed w (pg_gran (env_now e)) (pg_gran (env_now e + d)) c
            \<and> pg_view s' = (pg_view s)(i \<mapsto> c'))"
proof -
  from assms have "postgresQueue_Claim e w d s = (Inr (Some c'), s')" by (simp add: postgresQueue_def)
  with assms(1,2) obtain y t where y: "c' = commandFromPostgres (pg_run e w d y)" "pg_next s = (Inr y, t)"
      "s' = upd_rows (\<lambda>x. pc_ID x = pc_ID y) (pg_run e w d) s"
    by (rule pg_claim_cases) auto
  show ?thesis unfolding y(1,3)
    by (rule pgrows.claim_first_some [OF assms(1) y(2)]) (auto simp: StatusQueued_def)
qed

lemma pg_claim_ok:
  assumes "wf_table pc_ID s" "quiet e"
  shows "is_ok (fst (q_Claim (postgresQueue jsonb) e w d s))"
  using assms by (cases "fst (pg_next s)") (simp_all add: postgresQueue_def postgresQueue_Claim_eq)

lemma pg_complete_ok:
  assumes "wf_table pc_ID s" "quiet e" "pg_json jsonb res \<noteq> None"
    "q_Complete (postgresQueue jsonb) e i ms res msg s = (r, s')"
  shows "r = Inr () \<and> wf_table pc_ID s' \<and>
          pg_view s' = (pg_view s)(i := map_option (completed (pg_gran (env_now e)) ms (pg_json jsonb res) msg) (pg_view s i))"
proof -
  from jsonb_param_ok [OF assms(3)] obtain v where v: "jsonb_param jsonb res = Inr v"
    "pg_json jsonb res = Some v" by blast
  have s': "r = Inr ()" "s' = upd_rows (\<lambda>r. pc_ID r = i)
     (\<lambda>r. r\<lparr>pc_Status := ''completed'', pc_EndedAt := Some (pg_micros (env_now e)),
          pc_DurationMs := Some ms, pc_Result := v, pc_Message := msg\<rparr>) s"
    using assms(4) pg_complete [OF assms(1,2) v(1)] by (simp_all add: postgresQueue_def)
  have "pg_view s' = (pg_view s)(i := map_option
     (completed (pg_gran (env_now e)) ms (Some v) msg) (pg_view s i))"
    unfolding s'(2) by (rule pgrows.view_upd) (auto simp: completed_def StatusCompleted_def pg_row_defs)
  moreover have "wf_table pc_ID s'" unfolding s'(2) by (rule wf_upd_rows) (simp_all add: assms(1))
  ultimately show ?thesis using v(2) s'(1) by simp
qed

lemma pg_complete_refused:
  assumes "wf_table pc_ID s" "quiet e" "\<not> pg_json jsonb res \<noteq> None"
    "q_Complete (postgresQueue jsonb) e i ms res msg s = (r, s')"
  shows "s' = s"
  using assms by (auto simp: pg_op_defs act_defs pg_json_def jsonb_param_def split: option.splits if_splits)

lemma pg_enqueue_refused:
  assumes "wf_table pc_ID s" "quiet e" "\<not> pg_json jsonb body \<noteq> None"
    "q_Enqueue (postgresQueue jsonb) e name body prio trig k s = (rg, s')"
  shows "(\<exists>x. rg = Inl x) \<and> s' = s"
  using assms by (auto simp: pg_op_defs act_defs pg_json_def jsonb_param_def split: option.splits)

lemma pg_fail_ok:
  assumes "wf_table pc_ID s" "quiet e"
    "q_Fail (postgresQueue jsonb) e i ms exc msg s = (r, s')"
  shows "r = Inr () \<and> wf_table pc_ID s' \<and>
          pg_view s' = (pg_view s)(i := map_option (failed (pg_gran (env_now e)) ms exc msg) (pg_view s i))"
proof -
  have "pg_view s' = (pg_view s)(i := map_option
     (failed (pg_gran (env_now e)) ms exc msg) (pg_view s i))"
    using assms(2,3)
    by (auto simp: pg_op_defs act_defs sql_exec_def failed_def StatusFailed_def pg_row_defs
        intro!: pgrows.view_upd)
  with assms show ?thesis by (auto simp: pg_op_defs act_defs sql_exec_def intro!: wf_upd_rows)
qed

lemma pg_refresh_ok:
  assumes "wf_table pc_ID s" "quiet e"
    "q_RefreshLease (postgresQueue jsonb) e i d s = (r, s')"
  shows "r = Inr () \<and> wf_table pc_ID s' \<and>
          pg_view s' = (pg_view s)(i := map_option (refreshed (pg_gran (env_now e + d))) (pg_view s i))"
proof -
  have "pg_view s' = (pg_view s)(i := map_option
     (refreshed (pg_gran (env_now e + d))) (pg_view s i))"
    using assms(2,3)
    by (auto simp: pg_op_defs act_defs sql_exec_def refreshed_def StatusRunning_def pg_row_defs
        intro!: pgrows.view_upd)
  with assms show ?thesis by (auto simp: pg_op_defs act_defs sql_exec_def intro!: wf_upd_rows)
qed

lemma pg_sweep_ok:
  assumes "wf_table pc_ID s" "quiet e"
    "q_SweepExpiredLeases (postgresQueue jsonb) e s = (n, s')"
  shows "wf_table pc_ID s' \<and> (\<forall>i. pg_view s' i = map_option (swept (pg_gran (env_now e))) (pg_view s i))
          \<and> n = Inr (int (card {i. \<exists>c. pg_view s i = Some c \<and> expired (pg_gran (env_now e)) c}))"
proof -
  have "pg_lease_expired (pg_micros (env_now e)) r \<Longrightarrow> commandFromPostgres (r\<lparr>pc_Status := ''queued'',
      pc_WorkerID := [], pc_StartedAt := None, pc_LeaseUntil := None\<rparr>)
      = swept (pg_gran (env_now e)) (commandFromPostgres r)" for r
    by (simp add: swept_def) (simp add: pg_row_defs StatusQueued_def)
  with assms pgrows.sweep_rows [OF assms(1), of "\<lambda>r. r\<lparr>pc_Status := ''queued'', pc_WorkerID := [],
      pc_StartedAt := None, pc_LeaseUntil := None\<rparr>" "pg_lease_expired (pg_micros (env_now e))"
      "pg_gran (env_now e)"]
  show ?thesis by (auto simp: pg_op_defs act_defs sql_execrows_def)
qed

lemma pg_find_dup_ok:
  assumes "wf_table pc_ID s" "quiet e"
    "q_FindDuplicate (postgresQueue jsonb) e k s = (rf, s')"
  shows "s' = s \<and> (\<exists>i b. rf = Inr (i, b) \<and>
            (if b then \<exists>c. pg_view s i = Some c \<and> cmd_DedupKey c = k \<and> active c
             else i = 0 \<and> (\<forall>j c. pg_view s j = Some c \<longrightarrow> active c \<longrightarrow> cmd_DedupKey c \<noteq> k)))"
proof -
  have "(pc_DedupKey r = k \<and> pc_Status r \<in> {''queued'', ''running''})
      = (cmd_DedupKey (commandFromPostgres r) = k \<and> active (commandFromPostgres r))" for r
    by (auto simp: active_def status_defs)
  note dup = pgrows.dup_rows [OF assms(1) this, of "''commands: find duplicate''"]
  have op: "q_FindDuplicate (postgresQueue jsonb) e k s = rowA (Inr (0, False)) ''commands: find duplicate''
      (\<lambda>i. (i, True)) (mapA pc_ID (sql_one (\<lambda>r. pc_DedupKey r = k \<and> pc_Status r \<in> {''queued'', ''running''}))) s"
    using assms(2) by (simp only: pg_op_defs stmt_quiet Queue.simps)
  from dup assms(3) show ?thesis unfolding op by (elim exE conjE) (simp only: prod.inject, blast)
qed

lemma pg_delete_old_ok:
  assumes "wf_table pc_ID s" "quiet e"
    "q_DeleteOldCompleted (postgresQueue jsonb) e t s = (n, s')"
  shows "wf_table pc_ID s' \<and> (\<forall>i. pg_view s' i =
            (case pg_view s i of None \<Rightarrow> None | Some c \<Rightarrow> if ended_before (pg_gran t) c then None else Some c))"
proof -
  have "(pc_Status r \<in> {''completed'', ''failed''} \<and>
      (case pc_EndedAt r of None \<Rightarrow> False | Some x \<Rightarrow> x < pg_micros t))
      = ended_before (pg_gran t) (commandFromPostgres r)" for r
    by (auto simp: ended_before_def pg_row_defs status_defs split: option.splits)
  with assms pgrows.delete_rows_view [OF assms(1)] show ?thesis
    by (auto simp: pg_op_defs act_defs sql_deleterows_def)
qed

lemma pg_get_ok:
  assumes "wf_table pc_ID s" "quiet e"
    "q_Get (postgresQueue jsonb) e i s = (rg, s')"
  shows "s' = s \<and>
          (case pg_view s i of None \<Rightarrow> (\<exists>m. rg = Inl (Wrap m ErrCommandNotFound)) | Some c \<Rightarrow> rg = Inr c)"
  using assms by (auto simp: pg_op_defs act_defs sql_one_id rows_view_def split: option.splits)

lemma pg_enqueue_ok:
  assumes "wf_table pc_ID s" "quiet e" "pg_json jsonb body \<noteq> None" "prio \<in> {PriorityHigh, PriorityNormal, PriorityLow}"
    "q_Enqueue (postgresQueue jsonb) e name body prio trig k s = (rg, s')"
  shows "wf_table pc_ID s' \<and> (\<exists>i. pg_view s i = None \<and>
            rg = Inr (fresh_command i name (pg_json jsonb body) prio trig k (pg_gran (env_now e))) \<and>
            pg_view s' = (pg_view s)(i \<mapsto> fresh_command i name (pg_json jsonb body) prio trig k (pg_gran (env_now e))))"
proof -
  from jsonb_param_ok [OF assms(3)] obtain v where v: "jsonb_param jsonb body = Inr v"
    "pg_json jsonb body = Some v" by blast
  have prio: "to_int16 prio = prio"
    using assms(4) by (auto simp: to_int16_def PriorityHigh_def PriorityNormal_def PriorityLow_def)
  define mk where "mk = (\<lambda>i. \<lparr>pc_ID = i, pc_Name = name, pc_Body = v, pc_Priority = prio,
       pc_Status = ''queued'', pc_QueuedAt = pg_micros (env_now e), pc_StartedAt = None,
       pc_EndedAt = None, pc_DurationMs = None, pc_Exception = '''', pc_Trigger = trig,
       pc_Message = '''', pc_Result = ''{}'', pc_WorkerID = '''', pc_LeaseUntil = None,
       pc_DedupKey = k\<rparr>)"
  have conv: "commandFromPostgres (mk i) = fresh_command i name (Some v) prio trig k (pg_gran (env_now e))"
    for i by (simp add: mk_def fresh_command_def pg_row_defs StatusQueued_def)
  have "pc_ID (mk i) = i" for i by (simp add: mk_def)
  note ins = pgrows.insert_rows_view [OF assms(1) this]
  have "rg = Inr (commandFromPostgres (mk (next_id s)))" "s' = snd (sql_insert mk s)"
    using assms(2,5) v(1) prio by (auto simp: pg_op_defs act_defs sql_insert_def mk_def)
  with ins conv v(2) show ?thesis by auto
qed

lemmas pg_laws = pg_complete_refused pg_enqueue_refused pg_gran_mono pgrows.rows_view_id pg_claim_none pg_claim_some pg_claim_ok pg_complete_ok
  pg_fail_ok pg_refresh_ok pg_sweep_ok pg_find_dup_ok
  pg_delete_old_ok pg_get_ok pg_enqueue_ok

interpretation postgres: command_queue "postgresQueue jsonb" "wf_table pc_ID"
  "rows_view pc_ID commandFromPostgres" pg_gran "\<lambda>b. pg_json jsonb b \<noteq> None" "pg_json jsonb" for jsonb
  by unfold_locales (rule pg_gran_le | (rule pg_laws, assumption+))+

lemma pg_bound:
  assumes "wf_table pc_ID s"
  shows "pg_view s i = Some c \<Longrightarrow> i < next_id s"
    and "quiet e \<Longrightarrow> next_id s \<le> next_id (snd (q_Claim (postgresQueue jsonb) e w d s))"
  using assms by (auto simp: pgrows.rows_view_Some wf_table_def postgresQueue_def postgresQueue_Claim_eq
      split: sum.split)

interpretation postgres_ids: command_ids "postgresQueue jsonb" "wf_table pc_ID"
  "rows_view pc_ID commandFromPostgres" pg_gran "\<lambda>b. pg_json jsonb b \<noteq> None" "pg_json jsonb" next_id
  for jsonb
  by unfold_locales
    (auto simp: pg_op_defs act_defs sql_defs pg_bound [unfolded postgresQueue_def, simplified]
      split: sum.splits)

end
