(* ===== verification/Worker.thy ===== *)
theory Worker
  imports CommandsSqlite CommandsPostgres
begin

section \<open>The worker pool\<close>

text \<open>
  internal/commands/worker.go. \<open>dispatch\<close> and \<open>run\<close> are the functions of the file over an
  arbitrary \<open>Queue\<close>; the environment supplies the instants, the outcome of each statement and
  when the context ends. \<open>pool_step\<close> interleaves the operations of several workers, crashes, the
  lease sweep and the clean-up, one queue operation at a time: the writer goroutine of SQLite
  and the row locks of Postgres make each operation atomic.
\<close>

subsection \<open>Dispatching one command\<close>

definition defaultLeaseDuration :: int where "defaultLeaseDuration = 5 * 60 * 1000000000"

text \<open>What running a handler under the recovery function can give.\<close>

datatype handler_result = HandlerOk | HandlerErr string | HandlerPanic string

type_synonym Handler = "Command \<Rightarrow> handler_result"

text \<open>\<open>time.Since(start).Milliseconds()\<close>.\<close>

definition millis_since :: "int \<Rightarrow> int \<Rightarrow> int" where
  "millis_since start now = (now - start) div 1000000"

text \<open>The switch at the end of \<open>dispatch\<close>: the queue's answer is dropped.\<close>

definition dispatch_finish ::
  "'s Queue \<Rightarrow> dbenv \<Rightarrow> int \<Rightarrow> Command \<Rightarrow> handler_result \<Rightarrow> 's \<Rightarrow> 's \<times> command_event list" where
  "dispatch_finish q e durationMs cmd res s = (case res of
     HandlerPanic msg \<Rightarrow>
       (snd (q_Fail q e (cmd_ID cmd) durationMs (''panic: '' @ msg) ''panic'' s),
        [CommandFailed (cmd_ID cmd) (cmd_Name cmd) (''panic: '' @ msg)])
   | HandlerErr err \<Rightarrow>
       (snd (q_Fail q e (cmd_ID cmd) durationMs err ''handler error'' s),
        [CommandFailed (cmd_ID cmd) (cmd_Name cmd) err])
   | HandlerOk \<Rightarrow>
       (snd (q_Complete q e (cmd_ID cmd) durationMs None ''ok'' s),
        [CommandCompleted (cmd_ID cmd) (cmd_Name cmd) durationMs]))"

definition dispatch_missing ::
  "'s Queue \<Rightarrow> dbenv \<Rightarrow> int \<Rightarrow> Command \<Rightarrow> 's \<Rightarrow> 's \<times> command_event list" where
  "dispatch_missing q e durationMs cmd s =
     (snd (q_Fail q e (cmd_ID cmd) durationMs ''no handler registered'' ''no handler registered'' s),
      [CommandFailed (cmd_ID cmd) (cmd_Name cmd) ''no handler registered''])"

text \<open>One call of \<open>dispatch\<close>: \<open>de_ticks\<close> are the ticks of the refresh goroutine before the
  handler returns, each with the environment of its \<open>RefreshLease\<close>.\<close>

record dispatch_env =
  de_start :: int
  de_ticks :: "dbenv list"
  de_end :: dbenv

definition dispatch ::
  "'s Queue \<Rightarrow> Handler Registry \<Rightarrow> int \<Rightarrow> dispatch_env \<Rightarrow> Command \<Rightarrow> 's \<Rightarrow> 's \<times> command_event list" where
  "dispatch q reg leaseDur de cmd s =
     (let durationMs = millis_since (de_start de) (env_now (de_end de));
          started = CommandStarted (cmd_ID cmd) (cmd_Name cmd)
      in case Registry_Get reg (cmd_Name cmd) of
           Inl _ \<Rightarrow>
             (let (s', evs) = dispatch_missing q (de_end de) durationMs cmd s in (s', started # evs))
         | Inr handler \<Rightarrow>
             (let s1 = fold (\<lambda>e t. snd (q_RefreshLease q e (cmd_ID cmd) leaseDur t)) (de_ticks de) s;
                  (s', evs) = dispatch_finish q (de_end de) durationMs cmd (handler cmd) s1
              in (s', started # evs)))"

subsection \<open>The loop of a worker\<close>

datatype control = Return | Continue

text \<open>One turn of \<open>run\<close>: what the two context checks and the waits of the turn see.\<close>

record turn_env =
  te_done_before :: bool
  te_claim :: dbenv
  te_done_after :: bool
  te_fail :: dbenv
  te_dispatch :: dispatch_env

definition run_turn ::
  "'s Queue \<Rightarrow> Handler Registry \<Rightarrow> int \<Rightarrow> string \<Rightarrow> turn_env \<Rightarrow> 's \<Rightarrow> control \<times> 's \<times> command_event list" where
  "run_turn q reg leaseDur workerID te s =
     (if te_done_before te then (Return, s, [])
      else case q_Claim q (te_claim te) workerID leaseDur s of
        (Inl _, s') \<Rightarrow> (if te_done_after te then Return else Continue, s', [])
      | (Inr None, s') \<Rightarrow> (if te_done_after te then Return else Continue, s', [])
      | (Inr (Some cmd), s') \<Rightarrow>
          (if te_done_after te
           then (Return, snd (q_Fail q (te_fail te) (cmd_ID cmd) 0
                   ''worker shutdown before dispatch'' ''shutdown'' s'), [])
           else (let (s'', evs) = dispatch q reg leaseDur (te_dispatch te) cmd s' in (Continue, s'', evs))))"

fun WorkerPool_run ::
  "'s Queue \<Rightarrow> Handler Registry \<Rightarrow> int \<Rightarrow> string \<Rightarrow> turn_env list \<Rightarrow> 's \<Rightarrow> 's \<times> command_event list" where
  "WorkerPool_run q reg leaseDur workerID [] s = (s, [])"
| "WorkerPool_run q reg leaseDur workerID (te # tes) s = (case run_turn q reg leaseDur workerID te s of
     (Return, s', evs) \<Rightarrow> (s', evs)
   | (Continue, s', evs) \<Rightarrow>
       (let (s'', evs') = WorkerPool_run q reg leaseDur workerID tes s' in (s'', evs @ evs')))"

subsection \<open>Several workers\<close>

text \<open>
  What a worker goroutine has in hand: nothing, or a claimed command with the instant its
  handler started (none before the dispatch). The last two components are ghost state: the
  instant up to which the worker last asked for the lease, and whether every refresh so far came
  before that instant.
\<close>

datatype wstate = Idle | Holding Command "int option" int bool

record 's pool =
  p_store :: 's
  p_clock :: int
  p_workers :: "string \<Rightarrow> wstate"
  p_events :: "command_event list"

inductive pool_step :: "'s Queue \<Rightarrow> Handler Registry \<Rightarrow> int \<Rightarrow> 's pool \<Rightarrow> 's pool \<Rightarrow> bool"
  for q :: "'s Queue" and reg :: "Handler Registry" and d :: int
where
  Tick: "0 \<le> k \<Longrightarrow> pool_step q reg d p (p\<lparr>p_clock := p_clock p + k\<rparr>)"
| Enqueued: "\<lbrakk>prio \<in> {PriorityHigh, PriorityNormal, PriorityLow};
     q_Enqueue q (quiet_at (p_clock p)) name body prio trig key (p_store p) = (r, s')\<rbrakk> \<Longrightarrow>
     pool_step q reg d p (p\<lparr>p_store := s'\<rparr>)"
| Claimed: "\<lbrakk>p_workers p w = Idle; q_Claim q (quiet_at (p_clock p)) w d (p_store p) = (Inr (Some c), s')\<rbrakk> \<Longrightarrow>
     pool_step q reg d p (p\<lparr>p_store := s',
       p_workers := (p_workers p)(w := Holding c None (p_clock p + d) True)\<rparr>)"
| Started: "p_workers p w = Holding c None dl ok \<Longrightarrow>
     pool_step q reg d p (p\<lparr>p_workers := (p_workers p)(w := Holding c (Some (p_clock p)) dl ok),
       p_events := p_events p @ [CommandStarted (cmd_ID c) (cmd_Name c)]\<rparr>)"
| ShutDown: "\<lbrakk>p_workers p w = Holding c None dl ok;
     q_Fail q (quiet_at (p_clock p)) (cmd_ID c) 0 ''worker shutdown before dispatch'' ''shutdown''
       (p_store p) = (r, s')\<rbrakk> \<Longrightarrow>
     pool_step q reg d p (p\<lparr>p_store := s', p_workers := (p_workers p)(w := Idle)\<rparr>)"
| Missing: "\<lbrakk>p_workers p w = Holding c (Some t0) dl ok; reg (cmd_Name c) = None;
     dispatch_missing q (quiet_at (p_clock p)) (millis_since t0 (p_clock p)) c (p_store p) = (s', evs)\<rbrakk> \<Longrightarrow>
     pool_step q reg d p (p\<lparr>p_store := s', p_workers := (p_workers p)(w := Idle),
       p_events := p_events p @ evs\<rparr>)"
| Refreshed: "\<lbrakk>p_workers p w = Holding c (Some t0) dl ok;
     q_RefreshLease q (quiet_at (p_clock p)) (cmd_ID c) d (p_store p) = (r, s')\<rbrakk> \<Longrightarrow>
     pool_step q reg d p (p\<lparr>p_store := s',
       p_workers := (p_workers p)(w := Holding c (Some t0) (p_clock p + d) (ok \<and> p_clock p \<le> dl))\<rparr>)"
| Finished: "\<lbrakk>p_workers p w = Holding c (Some t0) dl ok; reg (cmd_Name c) = Some h;
     dispatch_finish q (quiet_at (p_clock p)) (millis_since t0 (p_clock p)) c (h c) (p_store p) = (s', evs)\<rbrakk> \<Longrightarrow>
     pool_step q reg d p (p\<lparr>p_store := s', p_workers := (p_workers p)(w := Idle),
       p_events := p_events p @ evs\<rparr>)"
| Crashed: "p_workers p w = Holding c st dl ok \<Longrightarrow>
     pool_step q reg d p (p\<lparr>p_workers := (p_workers p)(w := Idle)\<rparr>)"
| Swept: "q_SweepExpiredLeases q (quiet_at (p_clock p)) (p_store p) = (n, s') \<Longrightarrow>
     pool_step q reg d p (p\<lparr>p_store := s'\<rparr>)"
| Cleaned: "q_DeleteOldCompleted q (quiet_at (p_clock p)) t (p_store p) = (n, s') \<Longrightarrow>
     pool_step q reg d p (p\<lparr>p_store := s'\<rparr>)"

definition pool_start :: "'s \<Rightarrow> int \<Rightarrow> 's pool" where
  "pool_start s t = \<lparr>p_store = s, p_clock = t, p_workers = (\<lambda>_. Idle), p_events = []\<rparr>"

text \<open>A worker that holds a command and has kept its lease.\<close>

definition holds_lease :: "'s pool \<Rightarrow> string \<Rightarrow> int \<Rightarrow> bool" where
  "holds_lease p w i \<longleftrightarrow> (\<exists>c st dl. p_workers p w = Holding c st dl True \<and> cmd_ID c = i \<and> p_clock p \<le> dl)"

subsection \<open>Leases exclude each other\<close>

text \<open>What a stored command must satisfy for the worker that holds a lease on it until \<open>dl\<close>:
  it is not queued, and while it runs it runs for that worker with a lease at least as long.\<close>

definition kept :: "(int \<Rightarrow> int) \<Rightarrow> string \<Rightarrow> int \<Rightarrow> Command \<Rightarrow> bool" where
  "kept gran w dl r \<longleftrightarrow> cmd_Status r \<noteq> StatusQueued \<and>
     (cmd_Status r = StatusRunning \<longrightarrow>
        cmd_WorkerID r = w \<and> (\<exists>l. cmd_LeaseUntil r = Some l \<and> gran dl \<le> l))"

lemma kept_completed [simp]: "kept gran w dl (completed t ms res msg r)"
  by (simp add: kept_def completed_def status_defs)

lemma kept_failed [simp]: "kept gran w dl (failed t ms exc msg r)"
  by (simp add: kept_def failed_def status_defs)

lemma kept_refreshed: "kept gran w dl r \<Longrightarrow> gran dl \<le> l \<Longrightarrow> kept gran w dl (refreshed l r)"
  by (auto simp: kept_def refreshed_def)

lemma kept_swept: "kept gran w dl r \<Longrightarrow> t \<le> gran dl \<Longrightarrow> kept gran w dl (swept t r)"
  by (auto simp: kept_def swept_def expired_def split: option.splits)

text \<open>The invariant of the pool: what the store and the workers know of each other.\<close>

definition pool_inv ::
  "('s \<Rightarrow> bool) \<Rightarrow> ('s \<Rightarrow> int \<Rightarrow> Command option) \<Rightarrow> (int \<Rightarrow> int) \<Rightarrow> ('s \<Rightarrow> int) \<Rightarrow> int \<Rightarrow> 's pool \<Rightarrow> bool" where
  "pool_inv I view gran bound d p \<longleftrightarrow> I (p_store p)
     \<and> (\<forall>w c st dl ok. p_workers p w = Holding c st dl ok \<longrightarrow>
          dl \<le> p_clock p + d \<and> cmd_ID c < bound (p_store p))
     \<and> (\<forall>w c st dl r. p_workers p w = Holding c st dl True \<longrightarrow> p_clock p \<le> dl \<longrightarrow>
          view (p_store p) (cmd_ID c) = Some r \<longrightarrow> kept gran w dl r)
     \<and> (\<forall>w w' i. holds_lease p w i \<longrightarrow> holds_lease p w' i \<longrightarrow> w = w')"

lemma pool_invI:
  assumes "I (p_store p)"
    and "\<And>w c st dl ok. p_workers p w = Holding c st dl ok \<Longrightarrow>
      dl \<le> p_clock p + d \<and> cmd_ID c < bound (p_store p)"
    and "\<And>w c st dl r. \<lbrakk>p_workers p w = Holding c st dl True; p_clock p \<le> dl;
      view (p_store p) (cmd_ID c) = Some r\<rbrakk> \<Longrightarrow> kept gran w dl r"
    and "\<And>w w' i. holds_lease p w i \<Longrightarrow> holds_lease p w' i \<Longrightarrow> w = w'"
  shows "pool_inv I view gran bound d p"
  using assms unfolding pool_inv_def by blast

lemma pool_invD:
  assumes "pool_inv I view gran bound d p"
  shows "I (p_store p)"
    and "p_workers p w = Holding c st dl ok \<Longrightarrow> dl \<le> p_clock p + d \<and> cmd_ID c < bound (p_store p)"
    and "\<lbrakk>p_workers p w = Holding c st dl True; p_clock p \<le> dl;
      view (p_store p) (cmd_ID c) = Some r\<rbrakk> \<Longrightarrow> kept gran w dl r"
    and "holds_lease p w i \<Longrightarrow> holds_lease p w' i \<Longrightarrow> w = w'"
  using assms unfolding pool_inv_def by blast+

lemma holds_lease_store [simp]: "holds_lease (p\<lparr>p_store := s\<rparr>) = holds_lease p"
  by (intro ext) (simp add: holds_lease_def)

lemma holds_lease_events [simp]: "holds_lease (p\<lparr>p_events := ev\<rparr>) = holds_lease p"
  by (intro ext) (simp add: holds_lease_def)

lemma pool_inv_events [simp]:
  "pool_inv I view gran bound d (p\<lparr>p_events := ev\<rparr>) = pool_inv I view gran bound d p"
  by (simp add: pool_inv_def)

lemma pool_inv_start: "I s \<Longrightarrow> pool_inv I view gran bound d (pool_start s t)"
  by (simp add: pool_inv_def pool_start_def holds_lease_def)

lemma pool_inv_idle:
  assumes "pool_inv I view gran bound d p"
  shows "pool_inv I view gran bound d (p\<lparr>p_workers := (p_workers p)(w := Idle)\<rparr>)"
  using assms unfolding pool_inv_def holds_lease_def by (fastforce split: if_splits)

lemma pool_inv_tick:
  assumes "pool_inv I view gran bound d p" and "0 \<le> k"
  shows "pool_inv I view gran bound d (p\<lparr>p_clock := p_clock p + k\<rparr>)"
proof -
  have "p_clock p \<le> dl" if "p_clock p + k \<le> dl" for dl using assms(2) that by simp
  moreover have "dl \<le> p_clock p + k + d" if "dl \<le> p_clock p + d" for dl using assms(2) that by simp
  ultimately show ?thesis
    using assms(1) unfolding pool_inv_def holds_lease_def by simp blast
qed

text \<open>A change of the store that keeps what every lease holder relies on.\<close>

lemma pool_inv_store:
  assumes "pool_inv I view gran bound d p" and "I s'" and "bound (p_store p) \<le> bound s'"
    and "\<And>i r'. i < bound (p_store p) \<Longrightarrow> view s' i = Some r' \<Longrightarrow> \<exists>r. view (p_store p) i = Some r \<and>
      (\<forall>w dl. p_clock p \<le> dl \<longrightarrow> dl \<le> p_clock p + d \<longrightarrow> kept gran w dl r \<longrightarrow> kept gran w dl r')"
  shows "pool_inv I view gran bound d (p\<lparr>p_store := s'\<rparr>)"
proof -
  have "kept gran w dl r'"
    if "p_workers p w = Holding c st dl True" "p_clock p \<le> dl" "view s' (cmd_ID c) = Some r'"
    for w c st dl r'
  proof -
    from assms(1) that(1) have "dl \<le> p_clock p + d" "cmd_ID c < bound (p_store p)"
      unfolding pool_inv_def by blast+
    moreover from assms(4) [OF this(2) that(3)] obtain r where "view (p_store p) (cmd_ID c) = Some r"
      "\<forall>w dl. p_clock p \<le> dl \<longrightarrow> dl \<le> p_clock p + d \<longrightarrow> kept gran w dl r \<longrightarrow> kept gran w dl r'" by blast
    ultimately show ?thesis using assms(1) that(1,2) unfolding pool_inv_def by blast
  qed
  moreover have "cmd_ID c < bound s'" if "p_workers p w = Holding c st dl ok" for w c st dl ok
    using assms(1,3) that unfolding pool_inv_def by fastforce
  ultimately show ?thesis
    using assms(1,2) unfolding pool_inv_def holds_lease_store by simp
qed

context command_ids
begin

abbreviation wf_pool :: "int \<Rightarrow> 's pool \<Rightarrow> bool" where
  "wf_pool \<equiv> pool_inv inv view gran bound"

lemma wf_poolD: "wf_pool d p \<Longrightarrow> inv (p_store p)"
  by (simp add: pool_inv_def)

text \<open>An operation that applies a transition to one command.\<close>

lemma pool_inv_at:
  assumes "wf_pool d p" and "inv s'" and "bound (p_store p) \<le> bound s'"
    and "view s' = (view (p_store p))(i := map_option g (view (p_store p) i))"
    and "\<And>w dl r. p_clock p \<le> dl \<Longrightarrow> dl \<le> p_clock p + d \<Longrightarrow> kept gran w dl r \<Longrightarrow> kept gran w dl (g r)"
  shows "wf_pool d (p\<lparr>p_store := s'\<rparr>)"
  using assms(1-3) by (rule pool_inv_store) (use assms(4,5) in \<open>auto split: if_splits\<close>)

lemma pool_inv_fail:
  assumes "wf_pool d p" "q_Fail q (quiet_at (p_clock p)) i ms exc msg (p_store p) = (r, s')"
  shows "wf_pool d (p\<lparr>p_store := s'\<rparr>)"
proof -
  note f = fail_ok [OF wf_poolD [OF assms(1)] quiet_quiet_at(1) assms(2)]
  have "bound (p_store p) \<le> bound s'"
    using fail_mono [OF quiet_quiet_at(1), of "p_store p" "p_clock p" i ms exc msg] assms(2) by simp
  with assms(1) f show ?thesis by (blast intro: pool_inv_at kept_failed)
qed

lemma pool_inv_complete:
  assumes "wf_pool d p" "q_Complete q (quiet_at (p_clock p)) i ms res msg (p_store p) = (r, s')"
  shows "wf_pool d (p\<lparr>p_store := s'\<rparr>)"
proof (cases "res_ok res")
  case True
  note f = complete_ok [OF wf_poolD [OF assms(1)] quiet_quiet_at(1) True assms(2)]
  have "bound (p_store p) \<le> bound s'"
    using complete_mono [OF wf_poolD [OF assms(1)] quiet_quiet_at(1), of "p_clock p" i ms res msg] assms(2)
    by simp
  with assms(1) f show ?thesis by (blast intro: pool_inv_at kept_completed)
next
  case False
  then have "s' = p_store p"
    using complete_refused [OF wf_poolD [OF assms(1)] quiet_quiet_at(1) _ assms(2)] by blast
  then show ?thesis using assms(1) by simp
qed

lemma pool_inv_finish:
  assumes "wf_pool d p" "dispatch_finish q (quiet_at (p_clock p)) ms c res (p_store p) = (s', evs)"
  shows "wf_pool d (p\<lparr>p_store := s'\<rparr>)"
proof -
  have "wf_pool d (p\<lparr>p_store := snd (q_Fail q (quiet_at (p_clock p)) i ms exc msg (p_store p))\<rparr>)"
    for i exc msg using pool_inv_fail [OF assms(1)] prod.collapse by metis
  moreover have "wf_pool d (p\<lparr>p_store := snd (q_Complete q (quiet_at (p_clock p)) i ms x msg (p_store p))\<rparr>)"
    for i x msg using pool_inv_complete [OF assms(1)] prod.collapse by metis
  ultimately show ?thesis
    using assms(2) by (auto simp: dispatch_finish_def split: handler_result.splits)
qed

lemma pool_inv_enqueue:
  assumes "wf_pool d p" "prio \<in> {PriorityHigh, PriorityNormal, PriorityLow}"
    "q_Enqueue q (quiet_at (p_clock p)) name body prio trig key (p_store p) = (r, s')"
  shows "wf_pool d (p\<lparr>p_store := s'\<rparr>)"
proof (cases "res_ok body")
  case True
  from enqueue_ok [OF wf_poolD [OF assms(1)] quiet_quiet_at(1) True assms(2,3)]
  obtain i c where i: "inv s'" "r = Inr c" "cmd_ID c = i" "view s' = (view (p_store p))(i \<mapsto> c)"
    by (auto simp: fresh_command_def)
  have "bound (p_store p) \<le> i"
    using enqueue_bound [OF wf_poolD [OF assms(1)] quiet_quiet_at(1)] assms(3) i(2,3) by blast
  moreover have "bound (p_store p) \<le> bound s'"
    using enqueue_mono [OF quiet_quiet_at(1), of "p_store p" "p_clock p" name body prio trig key] assms(3)
    by simp
  ultimately show ?thesis
    using pool_inv_store [where s' = s', OF assms(1) i(1)] i(4) by auto
next
  case False
  then show ?thesis
    using enqueue_refused [OF wf_poolD [OF assms(1)] quiet_quiet_at(1) False assms(3)] assms(1) by simp
qed

lemma pool_inv_sweep:
  assumes "wf_pool d p" "q_SweepExpiredLeases q (quiet_at (p_clock p)) (p_store p) = (n, s')"
  shows "wf_pool d (p\<lparr>p_store := s'\<rparr>)"
proof -
  note f = sweep_ok [OF wf_poolD [OF assms(1)] quiet_quiet_at(1) assms(2)]
  have "bound (p_store p) \<le> bound s'"
    using sweep_mono [OF quiet_quiet_at(1), of "p_store p" "p_clock p"] assms(2) by simp
  moreover have "kept gran w dl r \<Longrightarrow> p_clock p \<le> dl \<Longrightarrow> kept gran w dl (swept (gran (p_clock p)) r)"
    for w dl r using gran_mono by (blast intro: kept_swept)
  ultimately show ?thesis
    using pool_inv_store [where s' = s', OF assms(1)] f by auto
qed

lemma pool_inv_clean:
  assumes "wf_pool d p" "q_DeleteOldCompleted q (quiet_at (p_clock p)) t (p_store p) = (n, s')"
  shows "wf_pool d (p\<lparr>p_store := s'\<rparr>)"
proof -
  note f = delete_old_ok [OF wf_poolD [OF assms(1)] quiet_quiet_at(1) assms(2)]
  have "bound (p_store p) \<le> bound s'"
    using delete_mono [OF quiet_quiet_at(1), of "p_store p" "p_clock p" t] assms(2) by simp
  moreover have "view (p_store p) i = Some r'" if "view s' i = Some r'" for i r'
    using f that by (auto split: option.splits if_splits)
  ultimately show ?thesis
    using pool_inv_store [where s' = s', OF assms(1)] f by blast
qed

text \<open>A claim: the command was queued, so nobody held a lease on it.\<close>

lemma pool_inv_claim:
  assumes "wf_pool d p" "p_workers p w = Idle"
    "q_Claim q (quiet_at (p_clock p)) w d (p_store p) = (Inr (Some c), s')"
  shows "wf_pool d (p\<lparr>p_store := s', p_workers := (p_workers p)(w := Holding c None (p_clock p + d) True)\<rparr>)"
    (is "wf_pool d ?p'")
proof -
  note i = wf_poolD [OF assms(1)]
  note st = claim_stores [OF i quiet_quiet_at(1) assms(3)]
  have inv': "inv s'" using claim_some [OF i quiet_quiet_at(1) assms(3)] by blast
  have mono: "bound (p_store p) \<le> bound s'"
    using claim_mono [OF i quiet_quiet_at(1), of "p_clock p" w d] assms(3) by simp
  have free: "\<not> holds_lease p v (cmd_ID c)" for v
    using st(6) assms(1) unfolding pool_inv_def holds_lease_def kept_def by fastforce
  have kept_other: "kept gran v dl r" if "p_workers p v = Holding b x dl True" "p_clock p \<le> dl"
      "view s' (cmd_ID b) = Some r" for v b x dl r
  proof -
    have "cmd_ID b \<noteq> cmd_ID c" using free [of v] that(1,2) unfolding holds_lease_def by blast
    then have "view (p_store p) (cmd_ID b) = Some r" using st(5) that(3) by simp
    with assms(1) that(1,2) show ?thesis unfolding pool_inv_def by blast
  qed
  have kept_new: "kept gran w (p_clock p + d) c"
    using st(2-4) by (simp add: kept_def status_defs)
  have hold: "holds_lease ?p' v j \<longleftrightarrow>
      (if v = w then j = cmd_ID c \<and> 0 \<le> d else holds_lease p v j)" for v j
    by (auto simp: holds_lease_def)
  have bnd: "cmd_ID c < bound s'" using view_bound [OF inv' st(1)] .
  have old: "dl \<le> p_clock p + d \<and> cmd_ID b < bound s'" if "p_workers p v = Holding b x dl ok" for v b x dl ok
    using assms(1) that mono unfolding pool_inv_def by fastforce
  have uniq: "v = v'" if "holds_lease p v j" "holds_lease p v' j" for v v' j
    using assms(1) that unfolding pool_inv_def by blast
  have "v = v'" if "holds_lease ?p' v j" "holds_lease ?p' v' j" for v v' j
    using that free uniq unfolding hold by (auto split: if_splits)
  moreover have "kept gran v dl r" if "p_workers ?p' v = Holding b x dl True" "p_clock p \<le> dl"
      "view s' (cmd_ID b) = Some r" for v b x dl r
    using that kept_other kept_new st(1) by (auto split: if_splits)
  ultimately show ?thesis
    unfolding pool_inv_def using inv' old bnd by auto
qed

text \<open>A refresh: it extends the lease of a running command, whoever asks for it.\<close>

lemma pool_inv_refresh:
  assumes "wf_pool d p" "p_workers p w = Holding c st dl ok"
    "q_RefreshLease q (quiet_at (p_clock p)) (cmd_ID c) d (p_store p) = (r, s')"
  shows "wf_pool d (p\<lparr>p_store := s',
      p_workers := (p_workers p)(w := Holding c st (p_clock p + d) (ok \<and> p_clock p \<le> dl))\<rparr>)"
    (is "wf_pool d ?p'")
proof -
  note f = refresh_ok [OF wf_poolD [OF assms(1)] quiet_quiet_at(1) assms(3)]
  have "bound (p_store p) \<le> bound s'"
    using refresh_mono [OF quiet_quiet_at(1), of "p_store p" "p_clock p" "cmd_ID c" d] assms(3) by simp
  moreover have "kept gran v x y \<Longrightarrow> x \<le> p_clock p + d \<Longrightarrow> kept gran v x (refreshed (gran (p_clock p + d)) y)"
    for v x y using gran_mono by (blast intro: kept_refreshed)
  ultimately have mid: "wf_pool d (p\<lparr>p_store := s'\<rparr>)"
    using assms(1) f by (intro pool_inv_at [where g = "refreshed (gran (p_clock p + d))"]) auto
  have hold: "holds_lease ?p' v j \<Longrightarrow> holds_lease p v j" for v j
    using assms(2) by (auto simp: holds_lease_def split: if_splits)
  have new: "kept gran w (p_clock p + d) y'"
    if "view s' (cmd_ID c) = Some y'" "ok" "p_clock p \<le> dl" for y'
  proof -
    from that(1) f obtain y where y: "view (p_store p) (cmd_ID c) = Some y"
      "y' = refreshed (gran (p_clock p + d)) y" by auto
    have "p_workers p w = Holding c st dl True" using assms(2) that(2) by simp
    with assms(1) that(3) y(1) have "kept gran w dl y" unfolding pool_inv_def by blast
    then show ?thesis using y(2) by (auto simp: kept_def refreshed_def)
  qed
  show ?thesis
  proof (rule pool_invI)
    show "inv (p_store ?p')" using wf_poolD [OF mid] by simp
    show "l \<le> p_clock ?p' + d \<and> cmd_ID b < bound (p_store ?p')"
      if "p_workers ?p' v = Holding b x l k" for v b x l k
      using that pool_invD(2) [OF mid] assms(2) by (auto split: if_splits)
    show "kept gran v l y" if "p_workers ?p' v = Holding b x l True" "p_clock ?p' \<le> l"
      "view (p_store ?p') (cmd_ID b) = Some y" for v b x l y
      using that pool_invD(3) [OF mid] new by (auto split: if_splits)
    show "v = v'" if "holds_lease ?p' v j" "holds_lease ?p' v' j" for v v' j
      using hold [OF that(1)] hold [OF that(2)] by (rule pool_invD(4) [OF assms(1)])
  qed
qed

lemma pool_inv_started:
  assumes "wf_pool d p" "p_workers p w = Holding c None dl ok"
  shows "wf_pool d (p\<lparr>p_workers := (p_workers p)(w := Holding c (Some t) dl ok)\<rparr>)" (is "wf_pool d ?p'")
proof -
  have hold: "holds_lease ?p' v j \<longleftrightarrow> holds_lease p v j" for v j
    using assms(2) by (auto simp: holds_lease_def)
  have same: "p_workers ?p' v = Holding b x l k \<Longrightarrow> \<exists>x. p_workers p v = Holding b x l k" for v b x l k
    using assms(2) by (auto split: if_splits)
  show ?thesis
  proof (rule pool_invI)
    show "inv (p_store ?p')" using pool_invD(1) [OF assms(1)] by simp
    show "l \<le> p_clock ?p' + d \<and> cmd_ID b < bound (p_store ?p')"
      if "p_workers ?p' v = Holding b x l k" for v b x l k
      using same [OF that] pool_invD(2) [OF assms(1)] by auto
    show "kept gran v l y" if "p_workers ?p' v = Holding b x l True" "p_clock ?p' \<le> l"
      "view (p_store ?p') (cmd_ID b) = Some y" for v b x l y
      using same [OF that(1)] that(2,3) pool_invD(3) [OF assms(1)] by auto
    show "v = v'" if "holds_lease ?p' v j" "holds_lease ?p' v' j" for v v' j
      using that pool_invD(4) [OF assms(1)] unfolding hold by blast
  qed
qed

lemma pool_inv_end:
  assumes "wf_pool d (p\<lparr>p_store := s'\<rparr>)"
  shows "wf_pool d (p\<lparr>p_store := s', p_workers := (p_workers p)(w := Idle)\<rparr>)"
    and "wf_pool d (p\<lparr>p_store := s', p_workers := (p_workers p)(w := Idle), p_events := evs\<rparr>)"
  using pool_inv_idle [OF assms, of w] pool_inv_events [of inv view gran bound d evs
      "p\<lparr>p_store := s', p_workers := (p_workers p)(w := Idle)\<rparr>"] by simp_all

theorem pool_step_inv:
  assumes "pool_step q reg d p p'" and "wf_pool d p"
  shows "wf_pool d p'"
  using assms
proof (induction rule: pool_step.induct)
  case (Started p w c dl ok)
  then show ?case
    using pool_inv_started [OF Started(2,1)]
      pool_inv_events [of inv view gran bound d _ "p\<lparr>p_workers := (p_workers p)(w := Holding c (Some (p_clock p)) dl ok)\<rparr>"]
    by simp
next
  case (Missing p w c t0 dl ok s' evs)
  obtain r s1 where f: "q_Fail q (quiet_at (p_clock p)) (cmd_ID c) (millis_since t0 (p_clock p))
      ''no handler registered'' ''no handler registered'' (p_store p) = (r, s1)" by fastforce
  with Missing(3) have "s' = s1" by (simp add: dispatch_missing_def)
  with f have "wf_pool d (p\<lparr>p_store := s'\<rparr>)" using pool_inv_fail [OF Missing(4)] by blast
  then show ?case by (rule pool_inv_end)
next
  case (Finished p w c t0 dl ok h s' evs)
  then show ?case using pool_inv_finish pool_inv_end(2) by blast
next
  case (ShutDown p w c dl ok r s')
  then show ?case using pool_inv_fail pool_inv_end(1) by blast
qed (blast intro: pool_inv_tick pool_inv_enqueue pool_inv_claim pool_inv_refresh pool_inv_idle
    pool_inv_sweep pool_inv_clean)+

lemma pool_reachable_inv:
  assumes "(pool_step q reg d)\<^sup>*\<^sup>* (pool_start s t) p" and "inv s"
  shows "wf_pool d p"
  using assms(1)
proof (induction rule: rtranclp_induct)
  case base
  show ?case using assms(2) by (rule pool_inv_start)
next
  case (step y z)
  then show ?case using pool_step_inv by blast
qed

lemma pool_exclusive:
  assumes "(pool_step q reg d)\<^sup>*\<^sup>* (pool_start s t) p" and "inv s"
    and "holds_lease p w i" and "holds_lease p w' i"
  shows "w = w'"
  using pool_reachable_inv [OF assms(1,2)] assms(3,4) unfolding pool_inv_def by blast

end

subsection \<open>What a dispatch leaves behind\<close>

text \<open>The stored outcome of a dispatched command.\<close>

definition ended_as :: "Handler Registry \<Rightarrow> Command \<Rightarrow> Command \<Rightarrow> bool" where
  "ended_as reg c r \<longleftrightarrow> (case reg (cmd_Name c) of
     None \<Rightarrow> cmd_Status r = StatusFailed \<and> cmd_Exception r = ''no handler registered''
   | Some h \<Rightarrow> (case h c of
       HandlerOk \<Rightarrow> cmd_Status r = StatusCompleted
     | HandlerErr x \<Rightarrow> cmd_Status r = StatusFailed \<and> cmd_Exception r = x
     | HandlerPanic x \<Rightarrow> cmd_Status r = StatusFailed \<and> cmd_Exception r = ''panic: '' @ x))"

lemma ended_as_status: "ended_as reg c r \<Longrightarrow> cmd_Status r \<noteq> StatusQueued"
  by (auto simp: ended_as_def status_defs split: option.splits handler_result.splits)

context command_ids
begin

lemma refreshed_shape: "\<exists>l. refreshed x r = r\<lparr>cmd_LeaseUntil := l\<rparr>"
  by (cases "cmd_Status r = StatusRunning")
    (auto simp: refreshed_def intro: exI [of _ "cmd_LeaseUntil r"])

text \<open>The ticks of the refresh goroutine keep the command and only move its lease.\<close>

lemma ticks_keep:
  assumes "inv s" "\<forall>e\<in>set es. quiet e" "view s i = Some r"
  shows "\<exists>l. inv (fold (\<lambda>e t. snd (q_RefreshLease q e i d t)) es s) \<and>
    view (fold (\<lambda>e t. snd (q_RefreshLease q e i d t)) es s) i = Some (r\<lparr>cmd_LeaseUntil := l\<rparr>)"
  using assms
proof (induction es arbitrary: s r)
  case Nil
  then show ?case by (auto intro: exI [of _ "cmd_LeaseUntil r"])
next
  case (Cons e es)
  obtain x s1 where x: "q_RefreshLease q e i d s = (x, s1)" by fastforce
  have "quiet e" using Cons.prems(2) by simp
  note f = refresh_ok [OF Cons.prems(1) this x]
  then obtain l where "view s1 i = Some (r\<lparr>cmd_LeaseUntil := l\<rparr>)"
    using Cons.prems(3) refreshed_shape [of "gran (env_now e + d)" r] by auto
  with Cons.IH [of s1] f Cons.prems(2) x show ?case by auto
qed

text \<open>A dispatched command whose result the queue can record ends: completed or failed with
  the handler's outcome, and the events say so.\<close>

lemma dispatch_ends:
  assumes "inv s" "view s (cmd_ID c) = Some r" "quiet (de_end de)" "\<forall>e\<in>set (de_ticks de). quiet e"
    and "res_ok None" and "dispatch q reg d de c s = (s', evs)"
  shows "\<exists>r'. view s' (cmd_ID c) = Some r' \<and> inv s'
    \<and> cmd_EndedAt r' = Some (gran (env_now (de_end de))) \<and> ended_as reg c r'"
proof -
  have fail: "\<exists>r'. view (snd (q_Fail q (de_end de) (cmd_ID c) ms exc msg t)) (cmd_ID c) = Some r'
      \<and> inv (snd (q_Fail q (de_end de) (cmd_ID c) ms exc msg t))
      \<and> cmd_EndedAt r' = Some (gran (env_now (de_end de))) \<and> cmd_Status r' = StatusFailed \<and> cmd_Exception r' = exc"
    if "inv t" "view t (cmd_ID c) = Some y" for t y ms exc msg
    using fail_ok [OF that(1) assms(3) prod.collapse [symmetric], of "cmd_ID c" ms exc msg] that(2)
    by (simp add: failed_def)
  have compl: "\<exists>r'. view (snd (q_Complete q (de_end de) (cmd_ID c) ms None msg t)) (cmd_ID c) = Some r'
      \<and> inv (snd (q_Complete q (de_end de) (cmd_ID c) ms None msg t))
      \<and> cmd_EndedAt r' = Some (gran (env_now (de_end de))) \<and> cmd_Status r' = StatusCompleted"
    if "inv t" "view t (cmd_ID c) = Some y" for t y ms msg
    using complete_ok [OF that(1) assms(3,5) prod.collapse [symmetric], of "cmd_ID c" ms msg] that(2)
    by (simp add: completed_def)
  show ?thesis
  proof (cases "reg (cmd_Name c)")
    case None
    then show ?thesis using assms(1,2,6) fail
      by (auto simp: dispatch_def Registry_Get_def dispatch_missing_def Let_def ended_as_def)
  next
    case (Some h)
    from ticks_keep [OF assms(1,4,2), of d] obtain l where
      "inv (fold (\<lambda>e t. snd (q_RefreshLease q e (cmd_ID c) d t)) (de_ticks de) s)"
      "view (fold (\<lambda>e t. snd (q_RefreshLease q e (cmd_ID c) d t)) (de_ticks de) s) (cmd_ID c)
        = Some (r\<lparr>cmd_LeaseUntil := l\<rparr>)" by blast
    note f = fail [OF this] and k = compl [OF this]
    show ?thesis using assms(6) Some f k
      by (cases "h c") (auto simp: dispatch_def Registry_Get_def dispatch_finish_def Let_def ended_as_def)
  qed
qed

text \<open>Where the queue cannot record the nil result, a successful handler leaves the command as
  it was.\<close>

lemma dispatch_refused:
  assumes "inv s" "view s (cmd_ID c) = Some r" "quiet (de_end de)" "\<forall>e\<in>set (de_ticks de). quiet e"
    and "\<not> res_ok None" and "reg (cmd_Name c) = Some h" and "h c = HandlerOk"
    and "dispatch q reg d de c s = (s', evs)"
  shows "\<exists>l. view s' (cmd_ID c) = Some (r\<lparr>cmd_LeaseUntil := l\<rparr>)"
proof -
  from ticks_keep [OF assms(1,4,2), of d] obtain l where l:
    "inv (fold (\<lambda>e t. snd (q_RefreshLease q e (cmd_ID c) d t)) (de_ticks de) s)"
    "view (fold (\<lambda>e t. snd (q_RefreshLease q e (cmd_ID c) d t)) (de_ticks de) s) (cmd_ID c)
      = Some (r\<lparr>cmd_LeaseUntil := l\<rparr>)" by blast
  have "snd (q_Complete q (de_end de) (cmd_ID c) ms None msg t) = t" if "inv t" for t ms msg
    using complete_refused [OF that assms(3,5) prod.collapse [symmetric]] by simp
  from this [OF l(1)] l(2) assms(6-8) show ?thesis
    by (auto simp: dispatch_def Registry_Get_def dispatch_finish_def Let_def)
qed

end

subsection \<open>A worker drains the queue\<close>

definition queued_ids :: "('s \<Rightarrow> int \<Rightarrow> Command option) \<Rightarrow> 's \<Rightarrow> int set" where
  "queued_ids view s = {i. \<exists>c. view s i = Some c \<and> cmd_Status c = StatusQueued}"

text \<open>A turn of the loop during which nothing fails and the context stays open.\<close>

definition quiet_turn :: "turn_env \<Rightarrow> bool" where
  "quiet_turn te \<longleftrightarrow> \<not> te_done_before te \<and> \<not> te_done_after te \<and> quiet (te_claim te)
     \<and> quiet (de_end (te_dispatch te)) \<and> (\<forall>e\<in>set (de_ticks (te_dispatch te)). quiet e)"

context command_ids
begin

lemma ticks_frame:
  assumes "inv s" "\<forall>e\<in>set es. quiet e" "j \<noteq> i"
  shows "inv (fold (\<lambda>e t. snd (q_RefreshLease q e i d t)) es s) \<and>
    view (fold (\<lambda>e t. snd (q_RefreshLease q e i d t)) es s) j = view s j"
  using assms
proof (induction es arbitrary: s)
  case (Cons e es)
  obtain x s1 where x: "q_RefreshLease q e i d s = (x, s1)" by fastforce
  have "quiet e" using Cons.prems(2) by simp
  from refresh_ok [OF Cons.prems(1) this x] Cons.IH [of s1] Cons.prems(2,3) x show ?case by simp
qed simp

lemma dispatch_frame:
  assumes "inv s" "quiet (de_end de)" "\<forall>e\<in>set (de_ticks de). quiet e" "res_ok None"
    and "dispatch q reg d de c s = (s', evs)" "j \<noteq> cmd_ID c"
  shows "view s' j = view s j"
proof -
  have fail: "view (snd (q_Fail q (de_end de) (cmd_ID c) ms exc msg t)) j = view t j" if "inv t" for t ms exc msg
    using fail_ok [OF that assms(2) prod.collapse [symmetric], of "cmd_ID c" ms exc msg] assms(6) by simp
  have compl: "view (snd (q_Complete q (de_end de) (cmd_ID c) ms None msg t)) j = view t j" if "inv t" for t ms msg
    using complete_ok [OF that assms(2,4) prod.collapse [symmetric], of "cmd_ID c" ms msg] assms(6) by simp
  show ?thesis
  proof (cases "reg (cmd_Name c)")
    case None
    then show ?thesis using assms(1,5) fail
      by (auto simp: dispatch_def Registry_Get_def dispatch_missing_def Let_def)
  next
    case (Some h)
    note t = ticks_frame [OF assms(1,3,6), of d]
    show ?thesis using assms(5) Some t fail compl
      by (cases "h c") (auto simp: dispatch_def Registry_Get_def dispatch_finish_def Let_def)
  qed
qed

lemma turn_progress:
  assumes "inv s" "res_ok None" "quiet_turn te" "run_turn q reg d w te s = (ctl, s', evs)"
  shows "ctl = Continue \<and> inv s' \<and> (if queued_ids view s = {} then s' = s
    else \<exists>i\<in>queued_ids view s. queued_ids view s' = queued_ids view s - {i})"
proof -
  have te: "quiet (te_claim te)" "quiet (de_end (te_dispatch te))"
    "\<forall>e\<in>set (de_ticks (te_dispatch te)). quiet e" using assms(3) by (simp_all add: quiet_turn_def)
  from claim_ok [OF assms(1) te(1), of w d] obtain r s1 where
    cl: "q_Claim q (te_claim te) w d s = (Inr r, s1)"
    by (cases "q_Claim q (te_claim te) w d s"; cases "fst (q_Claim q (te_claim te) w d s)") auto
  show ?thesis
  proof (cases r)
    case None
    with cl have "s1 = s" "queued_ids view s = {}"
      using claim_none [OF assms(1) te(1)] by (auto simp: queued_ids_def)
    with cl None assms(1,3,4) show ?thesis by (simp add: run_turn_def quiet_turn_def)
  next
    case (Some c)
    with cl have cl': "q_Claim q (te_claim te) w d s = (Inr (Some c), s1)" by simp
    obtain s2 ev where d: "dispatch q reg d (te_dispatch te) c s1 = (s2, ev)" by fastforce
    with cl' assms(3,4) have s': "s' = s2" "ctl = Continue"
      by (auto simp: run_turn_def quiet_turn_def)
    note st = claim_stores [OF assms(1) te(1) cl']
    have i1: "inv s1" using claim_some [OF assms(1) te(1) cl'] by blast
    from dispatch_ends [OF i1 st(1) te(2,3) assms(2) d] obtain r' where
      r': "view s2 (cmd_ID c) = Some r'" "inv s2" "cmd_Status r' \<noteq> StatusQueued"
      using ended_as_status by blast
    have "view s2 j = view s j" if "j \<noteq> cmd_ID c" for j
      using dispatch_frame [OF i1 te(2,3) assms(2) d that] st(5) [OF that] by simp
    then have "queued_ids view s2 = queued_ids view s - {cmd_ID c}"
      using r'(1,3) by (auto simp: queued_ids_def) (metis option.inject)+
    moreover have "cmd_ID c \<in> queued_ids view s" using st(6) by (auto simp: queued_ids_def)
    ultimately show ?thesis using s' r'(2) by auto
  qed
qed

lemma run_drains:
  assumes "inv s" "res_ok None" "\<forall>te\<in>set tes. quiet_turn te" "finite (queued_ids view s)"
    and "card (queued_ids view s) \<le> length tes" and "WorkerPool_run q reg d w tes s = (s', evs)"
  shows "inv s' \<and> queued_ids view s' = {}"
  using assms
proof (induction tes arbitrary: s s' evs)
  case (Cons te tes)
  obtain ctl s1 ev where t: "run_turn q reg d w te s = (ctl, s1, ev)" using prod_cases3 by blast
  have "quiet_turn te" using Cons.prems(3) by simp
  note p = turn_progress [OF Cons.prems(1,2) this t]
  obtain s2 ev2 where r: "WorkerPool_run q reg d w tes s1 = (s2, ev2)" by fastforce
  have s': "s' = s2" using Cons.prems(6) t r p by auto
  have "finite (queued_ids view s1) \<and> card (queued_ids view s1) \<le> length tes"
  proof (cases "queued_ids view s = {}")
    case True
    then show ?thesis using p by simp
  next
    case False
    with p obtain i where "i \<in> queued_ids view s" "queued_ids view s1 = queued_ids view s - {i}" by auto
    then show ?thesis using Cons.prems(4,5) by (simp add: card_Diff_singleton)
  qed
  moreover have "inv s1" "\<forall>te\<in>set tes. quiet_turn te" using p Cons.prems(3) by simp_all
  ultimately show ?case unfolding s' using Cons.IH [OF _ Cons.prems(2) _ _ _ r] by blast
qed simp

end

subsection \<open>Properties of the command queues\<close>

text \<open>C1: While its lease lasts, a command has one holder. Whatever the interleaving of claims, lease
  refreshes, completions, crashes, sweeps and clean-ups of any number of workers over the SQLite
  queue, two workers that both hold an unexpired lease on the same command are the same worker.\<close>

theorem sqlite_leases_exclusive:
  assumes "wf_table sc_ID s" and "(pool_step sqliteQueue reg d)\<^sup>*\<^sup>* (pool_start s t) p"
    and "holds_lease p w i" and "holds_lease p w' i"
  shows "w = w'"
  using assms(2,1,3,4) by (rule sqlite_ids.pool_exclusive)

definition example_commands :: "SqCommand table" where
  "example_commands = \<lparr>rows = [
     \<lparr>sc_ID = 1, sc_Name = ''Backup'', sc_Body = ''{}'', sc_Priority = 3, sc_Status = ''queued'',
      sc_QueuedAt = 5, sc_StartedAt = None, sc_EndedAt = None, sc_DurationMs = None,
      sc_Exception = '''', sc_Trigger = ''scheduled'', sc_Message = '''', sc_Result = ''{}'',
      sc_WorkerID = '''', sc_LeaseUntil = None, sc_DedupKey = ''''\<rparr>,
     \<lparr>sc_ID = 2, sc_Name = ''RssSync'', sc_Body = ''{}'', sc_Priority = 2, sc_Status = ''queued'',
      sc_QueuedAt = 7, sc_StartedAt = None, sc_EndedAt = None, sc_DurationMs = None,
      sc_Exception = '''', sc_Trigger = ''manual'', sc_Message = '''', sc_Result = ''{}'',
      sc_WorkerID = '''', sc_LeaseUntil = None, sc_DedupKey = ''rss''\<rparr>], next_id = 3\<rparr>"

lemma wf_example_commands [simp]: "wf_table sc_ID example_commands"
  by (simp add: wf_table_def example_commands_def)

definition example_claimed :: "SqCommand table pool" where
  "example_claimed = (let (r, s') = q_Claim sqliteQueue (quiet_at 10000000000) ''a'' 60 example_commands
     in \<lparr>p_store = s', p_clock = 10000000000,
         p_workers = (\<lambda>_. Idle)(''a'' := (case r of Inr (Some c) \<Rightarrow> Holding c None 10000000060 True | _ \<Rightarrow> Idle)),
         p_events = []\<rparr>)"

lemma example_claim:
  "\<exists>c s'. q_Claim sqliteQueue (quiet_at 10000000000) ''a'' 60 example_commands = (Inr (Some c), s') \<and> cmd_ID c = 2"
  by (simp add: sqliteQueue_def sqliteQueue_Claim_eq sql_first_def example_commands_def first_row_def
      wf_table_def claimed_def)

lemma example_claimed_step:
  "pool_step sqliteQueue reg 60 (pool_start example_commands 10000000000) example_claimed"
proof -
  from example_claim obtain c s' where
    c: "q_Claim sqliteQueue (quiet_at 10000000000) ''a'' 60 example_commands = (Inr (Some c), s')" by blast
  from pool_step.Claimed [of "pool_start example_commands 10000000000" "''a''" sqliteQueue 60 c s' reg] c
  show ?thesis by (simp add: pool_start_def example_claimed_def)
qed

theorem sqlite_leases_exclusive_witness:
  "(pool_step sqliteQueue NewRegistry 60)\<^sup>*\<^sup>* (pool_start example_commands 10000000000) example_claimed
   \<and> holds_lease example_claimed ''a'' 2 \<and> \<not> holds_lease example_claimed ''b'' 2"
proof -
  have r: "(pool_step sqliteQueue NewRegistry 60)\<^sup>*\<^sup>* (pool_start example_commands 10000000000) example_claimed"
    using example_claimed_step by (rule r_into_rtranclp)
  moreover have h: "holds_lease example_claimed ''a'' 2"
    using example_claim by (auto simp: holds_lease_def example_claimed_def)
  moreover have "\<not> holds_lease example_claimed ''b'' 2"
    using sqlite_leases_exclusive [OF wf_example_commands r h, of "''b''"] by auto
  ultimately show ?thesis by simp
qed

text \<open>A claim on the SQLite queue returns nothing only when no command is queued; otherwise it returns
  a queued command of the best priority, the oldest of that priority, marked as running for the
  claimer until the lease ends, and no other command changes.\<close>

theorem sqlite_claim_next:
  assumes "wf_table sc_ID s" and "quiet e"
  shows "case sqliteQueue_Claim e w d s of
      (Inr None, s') \<Rightarrow> s' = s \<and> (\<forall>r\<in>set (rows s). sc_Status r \<noteq> ''queued'')
    | (Inr (Some c), s') \<Rightarrow> \<exists>r\<in>set (rows s). sc_Status r = ''queued''
        \<and> (\<forall>x\<in>set (rows s). sc_Status x = ''queued'' \<longrightarrow>
             (sc_Priority r, sc_QueuedAt r) \<le> (sc_Priority x, sc_QueuedAt x))
        \<and> c = claimed w (sq_gran (env_now e)) (sq_gran (env_now e + d)) (commandFromSqlite r)
        \<and> sq_view s' = (sq_view s)(sc_ID r \<mapsto> c)
    | (Inl _, _) \<Rightarrow> False"
proof -
  obtain r s' where r: "sqliteQueue_Claim e w d s = (r, s')" by fastforce
  from assms r show ?thesis
  proof (cases rule: sq_claim_cases)
    case (1 x t)
    then show ?thesis using r unfolding sql_first_None by simp
  next
    case (2 y t)
    note f = sql_first_SomeD [OF 2(2)]
    have "sq_view s (sc_ID y) = Some (commandFromSqlite y)"
      using assms(1) f(2) sqrows.rows_view_Some by blast
    then have "sq_view s' = (sq_view s)(sc_ID y \<mapsto> commandFromSqlite (sq_run e w d y))"
      using 2(3) sqrows.view_upd [of "sq_run e w d" "\<lambda>x. sc_ID x = sc_ID y" "sc_ID y"
          "claimed w (sq_gran (env_now e)) (sq_gran (env_now e + d))" s] by simp
    with r 2(1) f(2-4) show ?thesis by auto
  qed
qed

theorem sqlite_claim_next_witness:
  "map_option cmd_ID (projr (fst (sqliteQueue_Claim (quiet_at 10000000000) ''a'' 60 example_commands))) = Some 2"
  using sqlite_claim_next [of example_commands "quiet_at 10000000000" "''a''" 60] example_claim
  by (auto simp: sqliteQueue_def)

text \<open>The handler's outcome reaches the queue: after a worker dispatches a command of the SQLite
  queue, whatever number of lease refreshes ran meanwhile, the stored command has ended and carries
  the outcome (completed, or failed with the handler's error, the recovered panic or the missing
  handler).\<close>

theorem sqlite_dispatch_ends:
  assumes "wf_table sc_ID s" "sq_view s (cmd_ID c) = Some r" "quiet (de_end de)"
    "\<forall>e\<in>set (de_ticks de). quiet e"
  shows "\<exists>r'. sq_view (fst (dispatch sqliteQueue reg d de c s)) (cmd_ID c) = Some r'
    \<and> cmd_EndedAt r' = Some (sq_gran (env_now (de_end de))) \<and> ended_as reg c r'"
  using sqlite_ids.dispatch_ends [OF assms TrueI prod.collapse [symmetric]] by blast

definition example_dispatch :: dispatch_env where
  "example_dispatch = \<lparr>de_start = 10000000000, de_ticks = [quiet_at 11000000000], de_end = quiet_at 12000000000\<rparr>"

theorem sqlite_dispatch_ends_witness:
  "\<exists>r'. sq_view (fst (dispatch sqliteQueue (Register ''RssSync'' (\<lambda>_. HandlerErr ''feed down'') NewRegistry)
       60 example_dispatch (commandFromSqlite (rows example_commands ! 1)) example_commands)) 2 = Some r'
    \<and> cmd_Status r' = StatusFailed \<and> cmd_Exception r' = ''feed down''"
proof -
  define c where "c = commandFromSqlite (rows example_commands ! 1)"
  have c: "cmd_ID c = 2" "cmd_Name c = ''RssSync''" "sq_view example_commands (cmd_ID c) = Some c"
    by (simp_all add: c_def example_commands_def commandFromSqlite_def rows_view_def tbl_def)
  from sqlite_dispatch_ends [OF wf_example_commands c(3), of example_dispatch
      "Register ''RssSync'' (\<lambda>_. HandlerErr ''feed down'') NewRegistry" 60] c(1,2)
  show ?thesis unfolding c_def [symmetric]
    by (auto simp: example_dispatch_def ended_as_def Register_def)
qed

text \<open>C16: On Postgres a successful command is never recorded as such: the worker completes it with a nil
  result, which the NOT NULL constraint of the result column refuses, and drops the error. After
  a dispatch whose handler succeeded the stored command is still running, while the event
  log says it completed.\<close>

theorem postgres_dispatch_stays_running:
  assumes "wf_table pc_ID s" "pg_view s (cmd_ID c) = Some r" "quiet (de_end de)"
    "\<forall>e\<in>set (de_ticks de). quiet e" "reg (cmd_Name c) = Some h" "h c = HandlerOk"
  shows "(\<exists>l. pg_view (fst (dispatch (postgresQueue jsonb) reg d de c s)) (cmd_ID c)
      = Some (r\<lparr>cmd_LeaseUntil := l\<rparr>))
    \<and> CommandCompleted (cmd_ID c) (cmd_Name c) (millis_since (de_start de) (env_now (de_end de)))
      \<in> set (snd (dispatch (postgresQueue jsonb) reg d de c s))"
proof
  have "\<not> pg_json jsonb None \<noteq> None" by (simp add: pg_json_def)
  from postgres_ids.dispatch_refused [where h = h and c = c and reg = reg and d = d, OF assms(1-4) this assms(5,6) prod.collapse [symmetric]]
  show "\<exists>l. pg_view (fst (dispatch (postgresQueue jsonb) reg d de c s)) (cmd_ID c)
      = Some (r\<lparr>cmd_LeaseUntil := l\<rparr>)" .
qed (use assms(5,6) in \<open>simp add: dispatch_def Registry_Get_def dispatch_finish_def Let_def\<close>)

definition example_pg_commands :: "PgCommand table" where
  "example_pg_commands = \<lparr>rows = [
     \<lparr>pc_ID = 1, pc_Name = ''RssSync'', pc_Body = ''{}'', pc_Priority = 2, pc_Status = ''running'',
      pc_QueuedAt = 5, pc_StartedAt = Some 6, pc_EndedAt = None, pc_DurationMs = None,
      pc_Exception = '''', pc_Trigger = ''scheduled'', pc_Message = '''', pc_Result = ''{}'',
      pc_WorkerID = ''a'', pc_LeaseUntil = Some 306, pc_DedupKey = ''''\<rparr>], next_id = 2\<rparr>"

theorem postgres_dispatch_stays_running_witness:
  "\<exists>r. pg_view (fst (dispatch (postgresQueue Some) (Register ''RssSync'' (\<lambda>_. HandlerOk) NewRegistry)
       60 example_dispatch (commandFromPostgres (rows example_pg_commands ! 0)) example_pg_commands)) 1 = Some r
    \<and> cmd_Status r = StatusRunning"
proof -
  define c where "c = commandFromPostgres (rows example_pg_commands ! 0)"
  have wf: "wf_table pc_ID example_pg_commands" by (simp add: wf_table_def example_pg_commands_def)
  have c: "cmd_ID c = 1" "cmd_Name c = ''RssSync''" "pg_view example_pg_commands (cmd_ID c) = Some c"
      "cmd_Status c = StatusRunning"
    by (simp_all add: c_def example_pg_commands_def commandFromPostgres_def rows_view_def tbl_def StatusRunning_def)
  from postgres_dispatch_stays_running [OF wf c(3), of example_dispatch
      "Register ''RssSync'' (\<lambda>_. HandlerOk) NewRegistry" "\<lambda>_. HandlerOk" Some 60] c(1,2,4)
  show ?thesis unfolding c_def [symmetric]
    by (auto simp: example_dispatch_def Register_def)
qed


definition example_turn :: turn_env where
  "example_turn = \<lparr>te_done_before = False, te_claim = quiet_at 10000000000, te_done_after = False,
     te_fail = quiet_at 10000000000, te_dispatch = example_dispatch\<rparr>"


end
