(* ===== verification/Library.thy ===== *)
theory Library
  imports Sql_Store Go_Strings
begin

section \<open>The TV catalogue: entities, events and the monitor rule\<close>

text \<open>
  internal/library: the structs of series.go, seasons.go, episodes.go, episodefiles.go and
  stats.go, the events their stores publish, and monitor_mode.go. The SQLite stores are in
  LibrarySqlite. \<open>MonitorSink\<close>, the part of the episode store that \<open>ApplyMonitorMode\<close> uses, is a
  record of two operations; the locale \<open>monitor_sink\<close> states what it promises.
\<close>

subsection \<open>Entities\<close>

record Series =
  se_ID :: int
  se_TvdbID :: int
  se_Title :: string
  se_Slug :: string
  se_Status :: string
  se_SeriesType :: string
  se_Path :: string
  se_Monitored :: bool
  se_QualityProfileID :: int
  se_SeasonFolder :: bool
  se_MonitorNewItems :: string
  se_Added :: int
  se_CreatedAt :: int
  se_UpdatedAt :: int

record Season =
  sea_SeriesID :: int
  sea_SeasonNumber :: int
  sea_Monitored :: bool

record Episode =
  ep_ID :: int
  ep_SeriesID :: int
  ep_SeasonNumber :: int
  ep_EpisodeNumber :: int
  ep_AbsoluteEpisodeNumber :: "int option"
  ep_Title :: string
  ep_Overview :: string
  ep_AirDateUtc :: "int option"
  ep_Monitored :: bool
  ep_EpisodeFileID :: "int option"
  ep_CreatedAt :: int
  ep_UpdatedAt :: int

record EpisodeFile =
  ef_ID :: int
  ef_SeriesID :: int
  ef_SeasonNumber :: int
  ef_RelativePath :: string
  ef_Size :: int
  ef_DateAdded :: int
  ef_ReleaseGroup :: string
  ef_QualityName :: string
  ef_CreatedAt :: int
  ef_UpdatedAt :: int

record SeriesStatistics =
  ss_SeriesID :: int
  ss_EpisodeCount :: int
  ss_EpisodeFileCount :: int
  ss_MonitoredEpisodeCount :: int
  ss_SizeOnDisk :: int
  ss_UpdatedAt :: int

datatype library_event =
    SeriesAdded int int string
  | SeriesUpdated int int
  | SeriesDeleted int
  | SeasonUpdated int int bool
  | EpisodeAdded int int
  | EpisodeUpdated int int
  | EpisodeDeleted int int
  | EpisodeFileAdded int int int
  | EpisodeFileDeleted int int

subsection \<open>monitor_mode.go\<close>

record 's MonitorSink =
  ms_ListForSeries :: "int \<Rightarrow> ('s, Episode list) act"
  ms_SetMonitored :: "int \<Rightarrow> bool \<Rightarrow> ('s, unit) act"

definition max_season :: "Episode list \<Rightarrow> int" where
  "max_season eps = fold (\<lambda>e m. if m < ep_SeasonNumber e then ep_SeasonNumber e else m) eps 0"

definition decide :: "int \<Rightarrow> int \<Rightarrow> string \<Rightarrow> Episode \<Rightarrow> (store_error, bool) result" where
  "decide now maxSeason mode e =
     (if mode = '''' \<or> mode = ''all'' then Inr True
      else if mode = ''none'' then Inr False
      else if mode = ''future'' then
        Inr (case ep_AirDateUtc e of None \<Rightarrow> False | Some t \<Rightarrow> now < t)
      else if mode = ''missing'' then Inr (ep_EpisodeFileID e = None)
      else if mode = ''existing'' then Inr (ep_EpisodeFileID e \<noteq> None)
      else if mode = ''pilot'' then Inr (ep_SeasonNumber e = 1 \<and> ep_EpisodeNumber e = 1)
      else if mode = ''firstSeason'' then Inr (ep_SeasonNumber e = 1)
      else if mode = ''lastSeason'' then Inr (ep_SeasonNumber e = maxSeason)
      else Inl (DbError (''library: unknown monitor mode '' @ [CHR 34] @ mode @ [CHR 34])))"

fun monitor_loop ::
  "'s MonitorSink \<Rightarrow> (Episode \<Rightarrow> (store_error, bool) result) \<Rightarrow> Episode list \<Rightarrow> ('s, unit) act" where
  "monitor_loop sink dec [] = retA ()"
| "monitor_loop sink dec (e # eps) = (case dec e of
     Inl err \<Rightarrow> failA err
   | Inr want \<Rightarrow>
       bindA (wrapA (''library: set monitored for episode '' @ show_int (ep_ID e))
               (ms_SetMonitored sink (ep_ID e) want))
         (\<lambda>_. monitor_loop sink dec eps))"

definition ApplyMonitorMode :: "'s MonitorSink \<Rightarrow> int \<Rightarrow> int \<Rightarrow> string \<Rightarrow> ('s, unit) act" where
  "ApplyMonitorMode sink now seriesID mode =
     bindA (wrapA ''library: list episodes for monitor apply'' (ms_ListForSeries sink seriesID))
       (\<lambda>eps. if eps = [] then retA ()
              else monitor_loop sink (decide now (max_season eps) mode) eps)"

subsection \<open>What the rule does\<close>

lemma max_season_fold:
  "fold (\<lambda>e m. if m < ep_SeasonNumber e then ep_SeasonNumber e else m) eps m
     = Max (insert m (ep_SeasonNumber ` set eps))"
proof (induction eps arbitrary: m)
  case (Cons e eps)
  have "(if m < ep_SeasonNumber e then ep_SeasonNumber e else m) = max (ep_SeasonNumber e) m" by simp
  then show ?case using Cons.IH
    by (cases "eps = []") (simp_all add: max.assoc max.commute max.left_commute)
qed simp

text \<open>The monitor sink as a map from the ids of a series' episodes to their flags. \<open>view\<close> gives the
  episode under an id, \<open>inv\<close> what the store keeps of itself.\<close>

definition top_season :: "('s \<Rightarrow> int \<Rightarrow> Episode option) \<Rightarrow> 's \<Rightarrow> int \<Rightarrow> int" where
  "top_season view s i = Max (insert 0
     {ep_SeasonNumber e |e j. view s j = Some e \<and> ep_ID e = j \<and> ep_SeriesID e = i})"

locale monitor_sink =
  fixes sink :: "'s MonitorSink" and inv :: "'s \<Rightarrow> bool" and view :: "'s \<Rightarrow> int \<Rightarrow> Episode option"
  assumes list_ok: "\<lbrakk>inv s; ms_ListForSeries sink i s = (r, s')\<rbrakk> \<Longrightarrow>
        s' = s \<and> (\<exists>eps. r = Inr eps \<and> distinct (map ep_ID eps) \<and>
          (\<forall>e. e \<in> set eps \<longleftrightarrow> view s (ep_ID e) = Some e \<and> ep_SeriesID e = i))"
    and set_ok: "\<lbrakk>inv s; view s i = Some e; ms_SetMonitored sink i b s = (u, s')\<rbrakk> \<Longrightarrow>
        u = Inr () \<and> inv s' \<and> (\<exists>t. view s' i = Some (e\<lparr>ep_Monitored := b, ep_UpdatedAt := t\<rparr>))
        \<and> (\<forall>j. j \<noteq> i \<longrightarrow> view s' j = view s j)"
begin

lemma monitor_loop_ok:
  assumes "inv s" "distinct (map ep_ID eps)" "\<forall>e\<in>set eps. view s (ep_ID e) = Some e"
    and "\<forall>e\<in>set eps. \<exists>b. dec e = Inr b"
  shows "\<exists>s'. monitor_loop sink dec eps s = (Inr (), s') \<and> inv s'
    \<and> (\<forall>e\<in>set eps. \<exists>t. view s' (ep_ID e) = Some (e\<lparr>ep_Monitored := projr (dec e), ep_UpdatedAt := t\<rparr>))
    \<and> (\<forall>j. j \<notin> ep_ID ` set eps \<longrightarrow> view s' j = view s j)"
  using assms
proof (induction eps arbitrary: s)
  case Nil
  then show ?case by (simp add: retA_def)
next
  case (Cons e eps)
  from Cons.prems(4) obtain b where b: "dec e = Inr b" by auto
  obtain u s1 where s1: "ms_SetMonitored sink (ep_ID e) b s = (u, s1)" by fastforce
  have "view s (ep_ID e) = Some e" using Cons.prems(3) by simp
  note one = set_ok [OF Cons.prems(1) this s1]
  have other: "view s1 j = view s j" if "j \<noteq> ep_ID e" for j using one that by blast
  have "\<forall>x\<in>set eps. view s1 (ep_ID x) = Some x"
  proof
    fix x assume x: "x \<in> set eps"
    then have "ep_ID x \<noteq> ep_ID e" using Cons.prems(2) by (auto simp: rev_image_eqI)
    with other x Cons.prems(3) show "view s1 (ep_ID x) = Some x" by simp
  qed
  with Cons.IH [of s1] one Cons.prems(2,4) obtain s2 where s2: "monitor_loop sink dec eps s1 = (Inr (), s2)"
    "inv s2" "\<forall>e\<in>set eps. \<exists>t. view s2 (ep_ID e) = Some (e\<lparr>ep_Monitored := projr (dec e), ep_UpdatedAt := t\<rparr>)"
    "\<forall>j. j \<notin> ep_ID ` set eps \<longrightarrow> view s2 j = view s1 j" by auto
  have "ep_ID e \<notin> ep_ID ` set eps" using Cons.prems(2) by simp
  then have "view s2 (ep_ID e) = view s1 (ep_ID e)" using s2(4) by blast
  moreover have "view s2 j = view s j" if "j \<notin> ep_ID ` set (e # eps)" for j
    using that s2(4) other by simp
  moreover have "monitor_loop sink dec (e # eps) s = (Inr (), s2)"
    using b s1 one s2(1) by (simp add: act_defs)
  ultimately show ?case using s2(2,3) one b by auto
qed

lemma apply_mode_ok:
  assumes "inv s" and "\<forall>e m. \<exists>b. decide now m mode e = Inr b"
  shows "\<exists>s'. ApplyMonitorMode sink now i mode s = (Inr (), s') \<and> inv s'
    \<and> (\<forall>e. view s (ep_ID e) = Some e \<longrightarrow> ep_SeriesID e = i \<longrightarrow>
         (\<exists>t. view s' (ep_ID e) = Some (e\<lparr>ep_Monitored := projr (decide now (top_season view s i) mode e),
            ep_UpdatedAt := t\<rparr>)))
    \<and> (\<forall>e. view s (ep_ID e) = Some e \<longrightarrow> ep_SeriesID e \<noteq> i \<longrightarrow> view s' (ep_ID e) = view s (ep_ID e))"
proof -
  obtain r s0 where r: "ms_ListForSeries sink i s = (r, s0)" by fastforce
  from list_ok [OF assms(1) r] obtain eps where eps: "s0 = s" "r = Inr eps" "distinct (map ep_ID eps)"
    "\<forall>e. e \<in> set eps \<longleftrightarrow> view s (ep_ID e) = Some e \<and> ep_SeriesID e = i" by blast
  have "\<forall>e\<in>set eps. view s (ep_ID e) = Some e" "\<forall>e\<in>set eps. \<exists>b. decide now (max_season eps) mode e = Inr b"
    using eps(4) assms(2) by blast+
  from monitor_loop_ok [OF assms(1) eps(3) this] obtain s' where s':
    "monitor_loop sink (decide now (max_season eps) mode) eps s = (Inr (), s')" "inv s'"
    "\<forall>e\<in>set eps. \<exists>t. view s' (ep_ID e) = Some (e\<lparr>ep_Monitored := projr (decide now (max_season eps) mode e),
       ep_UpdatedAt := t\<rparr>)" "\<forall>j. j \<notin> ep_ID ` set eps \<longrightarrow> view s' j = view s j" by blast
  have "ApplyMonitorMode sink now i mode s = (Inr (), s')"
    using r eps(1,2) s'(1) by (auto simp: ApplyMonitorMode_def act_defs)
  moreover have top: "max_season eps = top_season view s i"
  proof -
    have "{ep_SeasonNumber e |e j. view s j = Some e \<and> ep_ID e = j \<and> ep_SeriesID e = i}
        = ep_SeasonNumber ` set eps" using eps(4) by blast
    then show ?thesis by (simp add: max_season_def max_season_fold top_season_def)
  qed
  moreover have "view s' (ep_ID e) = view s (ep_ID e)"
    if "view s (ep_ID e) = Some e" "ep_SeriesID e \<noteq> i" for e
  proof -
    have "ep_ID e \<notin> ep_ID ` set eps" using eps(4) that by (metis imageE option.inject)
    with s'(4) show ?thesis by blast
  qed
  moreover have "\<exists>t. view s' (ep_ID e) = Some (e\<lparr>ep_Monitored := projr (decide now (top_season view s i) mode e),
      ep_UpdatedAt := t\<rparr>)" if "view s (ep_ID e) = Some e" "ep_SeriesID e = i" for e
    using s'(3) eps(4) that unfolding top by blast
  ultimately show ?thesis using s'(2) by blast
qed

end

end
