(* ===== verification/Events.thy ===== *)
theory Events
  imports Stable_Sort Sql_Store
begin

section \<open>The event bus\<close>

text \<open>
  internal/events: \<open>handlerEntry\<close>, \<open>register\<close>, the three subscription functions and \<open>Publish\<close>.
  A handler is an action on the state it works on; \<open>'ev\<close> is the type of events (Go's \<open>any\<close>), \<open>'ty\<close>
  the type of their dynamic types. Handlers given to the goroutine pool have not run when
  \<open>Publish\<close> returns, so \<open>Publish\<close> returns them as pending work.
\<close>

record ('s, 'ev) handlerEntry =
  h_order :: int
  h_async :: bool
  h_fn :: "'ev \<Rightarrow> ('s, unit) act"

type_synonym ('ty, 's, 'ev) bus = "'ty \<Rightarrow> ('s, 'ev) handlerEntry list"

definition NewBus :: "('ty, 's, 'ev) bus" where
  "NewBus = (\<lambda>_. [])"

definition register :: "'ty \<Rightarrow> ('s, 'ev) handlerEntry \<Rightarrow> ('ty, 's, 'ev) bus \<Rightarrow> ('ty, 's, 'ev) bus" where
  "register eventType h b =
     b(eventType := SliceStable (\<lambda>x y. h_order x < h_order y) (b eventType @ [h]))"

definition defaultSyncOrder :: int where "defaultSyncOrder = 100"

text \<open>\<open>typed\<close> is the type assertion \<open>event.(T)\<close>: an event of another type makes the handler return
  nil at once.\<close>

definition typed_fn :: "('ev \<Rightarrow> 't option) \<Rightarrow> ('t \<Rightarrow> ('s, unit) act) \<Rightarrow> 'ev \<Rightarrow> ('s, unit) act" where
  "typed_fn typed handler event = (case typed event of None \<Rightarrow> retA () | Some e \<Rightarrow> handler e)"

definition SubscribeOrdered ::
  "'ty \<Rightarrow> ('ev \<Rightarrow> 't option) \<Rightarrow> int \<Rightarrow> ('t \<Rightarrow> ('s, unit) act) \<Rightarrow> ('ty, 's, 'ev) bus \<Rightarrow> ('ty, 's, 'ev) bus" where
  "SubscribeOrdered t typed order handler =
     register t \<lparr>h_order = order, h_async = False, h_fn = typed_fn typed handler\<rparr>"

definition SubscribeSync ::
  "'ty \<Rightarrow> ('ev \<Rightarrow> 't option) \<Rightarrow> ('t \<Rightarrow> ('s, unit) act) \<Rightarrow> ('ty, 's, 'ev) bus \<Rightarrow> ('ty, 's, 'ev) bus" where
  "SubscribeSync t typed handler =
     register t \<lparr>h_order = defaultSyncOrder, h_async = False, h_fn = typed_fn typed handler\<rparr>"

definition SubscribeAsync ::
  "'ty \<Rightarrow> ('ev \<Rightarrow> 't option) \<Rightarrow> ('t \<Rightarrow> 's \<Rightarrow> 's) \<Rightarrow> ('ty, 's, 'ev) bus \<Rightarrow> ('ty, 's, 'ev) bus" where
  "SubscribeAsync t typed handler =
     register t \<lparr>h_order = 0, h_async = True, h_fn = typed_fn typed (\<lambda>e s. (Inr (), handler e s))\<rparr>"

subsection \<open>Publish\<close>

text \<open>The loop over the synchronous handlers: all of them run, the first error is kept.\<close>

fun run_sync ::
  "('s, 'ev) handlerEntry list \<Rightarrow> 'ev \<Rightarrow> store_error option \<Rightarrow> 's \<Rightarrow> store_error option \<times> 's" where
  "run_sync [] event firstErr s = (firstErr, s)"
| "run_sync (h # hs) event firstErr s =
     (if h_async h then run_sync hs event firstErr s
      else case h_fn h event s of
        (Inl e, s') \<Rightarrow> run_sync hs event (case firstErr of None \<Rightarrow> Some e | Some x \<Rightarrow> Some x) s'
      | (Inr _, s') \<Rightarrow> run_sync hs event firstErr s')"

text \<open>The loop over the asynchronous handlers: \<open>free\<close> says for each whether the pool has a slot;
  with a slot the call is handed to a goroutine, without one it runs here.\<close>

fun run_async ::
  "bool list \<Rightarrow> ('s, 'ev) handlerEntry list \<Rightarrow> 'ev \<Rightarrow> 's \<Rightarrow> ('s, 'ev) handlerEntry list \<times> 's" where
  "run_async free [] event s = ([], s)"
| "run_async free (h # hs) event s =
     (if \<not> h_async h then run_async free hs event s
      else case free of
        True # free' \<Rightarrow> (let (pending, s') = run_async free' hs event s in (h # pending, s'))
      | False # free' \<Rightarrow> run_async free' hs event (snd (h_fn h event s))
      | [] \<Rightarrow> run_async [] hs event (snd (h_fn h event s)))"

definition Publish ::
  "('ev \<Rightarrow> 'ty) \<Rightarrow> bool list \<Rightarrow> ('ty, 's, 'ev) bus \<Rightarrow> 'ev \<Rightarrow> 's \<Rightarrow>
     (store_error, ('s, 'ev) handlerEntry list) result \<times> 's" where
  "Publish typeOf free b event s =
     (let snapshot = b (typeOf event) in
      case run_sync snapshot event None s of
        (Some e, s') \<Rightarrow> (Inl e, s')
      | (None, s') \<Rightarrow> (let (pending, s'') = run_async free snapshot event s' in (Inr pending, s'')))"

subsection \<open>Facts\<close>

interpretation by_order: strict_weak "\<lambda>x y. h_order x < h_order (y :: ('s, 'ev) handlerEntry)"
  by unfold_locales auto

lemma set_register: "set (register t h b t) = insert h (set (b t))"
  by (simp add: register_def)

lemma register_other [simp]: "t' \<noteq> t \<Longrightarrow> register t h b t' = b t'"
  by (simp add: register_def)

text \<open>The states the synchronous handlers see, one after the other, and their errors.\<close>

fun sync_trace :: "('s, 'ev) handlerEntry list \<Rightarrow> 'ev \<Rightarrow> 's \<Rightarrow> store_error option list \<times> 's" where
  "sync_trace [] event s = ([], s)"
| "sync_trace (h # hs) event s =
     (let (r, s') = h_fn h event s; (es, s'') = sync_trace hs event s'
      in ((case r of Inl e \<Rightarrow> Some e | Inr _ \<Rightarrow> None) # es, s''))"

definition first_error :: "store_error option list \<Rightarrow> store_error option" where
  "first_error es = (case filter (\<lambda>e. e \<noteq> None) es of [] \<Rightarrow> None | e # _ \<Rightarrow> e)"

lemma first_error_Cons [simp]:
  "first_error (None # es) = first_error es" "first_error (Some e # es) = Some e" "first_error [] = None"
  by (simp_all add: first_error_def)

lemma length_sync_trace [simp]: "length (fst (sync_trace hs event s)) = length hs"
  by (induction hs arbitrary: s) (simp_all add: Let_def split_beta)

lemma run_sync_trace:
  "run_sync hs event fe s = (case sync_trace (filter (\<lambda>h. \<not> h_async h) hs) event s of
     (es, s') \<Rightarrow> (case fe of Some e \<Rightarrow> Some e | None \<Rightarrow> first_error es, s'))"
proof (induction hs arbitrary: fe s)
  case (Cons h hs)
  then show ?case
    by (cases "h_fn h event s"; cases "fst (h_fn h event s)")
      (auto simp: Let_def split: option.splits prod.splits)
qed (simp split: option.splits)

text \<open>No asynchronous handler is lost: each one runs here or is pending.\<close>

lemma run_async_none: "\<forall>h\<in>set hs. \<not> h_async h \<Longrightarrow> run_async free hs event s = ([], s)"
  by (induction hs) auto

lemma Publish_sync_only:
  assumes "\<forall>h\<in>set (b (typeOf event)). \<not> h_async h"
  shows "Publish typeOf free b event s = (case sync_trace (b (typeOf event)) event s of
     (es, s') \<Rightarrow> (case first_error es of Some e \<Rightarrow> Inl e | None \<Rightarrow> Inr [], s'))"
proof -
  have "filter (\<lambda>h. \<not> h_async h) (b (typeOf event)) = b (typeOf event)"
    using assms by (simp add: filter_id_conv)
  with run_sync_trace [of "b (typeOf event)" event None s] assms show ?thesis
    by (simp add: Publish_def run_async_none Let_def split: option.splits prod.splits)
qed

subsection \<open>Properties\<close>

text \<open>\<open>Publish\<close> runs every synchronous handler of the event's type exactly once, in the order of
  the handlers (each on the state the previous one left), whether or not an earlier one failed;
  it returns an error exactly when some handler failed, and then the first one.\<close>

theorem Publish_runs_all_sync:
  "\<exists>es s1. sync_trace (filter (\<lambda>h. \<not> h_async h) (b (typeOf event))) event s = (es, s1) \<and>
     length es = length (filter (\<lambda>h. \<not> h_async h) (b (typeOf event))) \<and>
     (case fst (Publish typeOf free b event s) of
        Inl e \<Rightarrow> first_error es = Some e \<and> snd (Publish typeOf free b event s) = s1
      | Inr pending \<Rightarrow> first_error es = None
          \<and> (pending, snd (Publish typeOf free b event s)) = run_async free (b (typeOf event)) event s1)"
proof -
  obtain es s1 where tr: "sync_trace (filter (\<lambda>h. \<not> h_async h) (b (typeOf event))) event s = (es, s1)"
    by fastforce
  from run_sync_trace [of "b (typeOf event)" event None s] tr
  have "run_sync (b (typeOf event)) event None s = (first_error es, s1)" by simp
  with tr length_sync_trace [of "filter (\<lambda>h. \<not> h_async h) (b (typeOf event))" event s] show ?thesis
    by (auto simp: Publish_def Let_def split: option.splits prod.splits)
qed

text \<open>Handlers run in their declared order: whatever the sequence of registrations, the handlers of an
  event type are sorted by their order value, and handlers of equal order keep the sequence
  in which they were registered.\<close>

theorem registered_order:
  "sorted (map h_order (fold (register t) hs NewBus t))
   \<and> filter (\<lambda>h. h_order h = k) (fold (register t) hs NewBus t) = filter (\<lambda>h. h_order h = k) hs"
proof (induction hs rule: rev_induct)
  case (snoc h hs)
  let ?l = "fold (register t) hs NewBus t" and ?e = "h\<lparr>h_order := k\<rparr>"
  have new: "fold (register t) (hs @ [h]) NewBus t
      = SliceStable (\<lambda>x y. h_order x < h_order y) (?l @ [h])"
    by (simp add: register_def)
  have "by_order.equiv ?e = (\<lambda>h. h_order h = k)"
    by (rule ext) (auto simp: by_order.equiv_def)
  with by_order.SliceStable_stable [of ?e "?l @ [h]"] snoc
  have "filter (\<lambda>h. h_order h = k) (SliceStable (\<lambda>x y. h_order x < h_order y) (?l @ [h]))
      = filter (\<lambda>h. h_order h = k) (hs @ [h])" by simp
  moreover have "sorted (map h_order (SliceStable (\<lambda>x y. h_order x < h_order y) (?l @ [h])))"
    using by_order.SliceStable_sorted [of "?l @ [h]"] by (simp add: sorted_wrt_map not_less)
  ultimately show ?case unfolding new by simp
qed (simp add: NewBus_def)

end
