(* ===== verification/LibrarySqlite.thy ===== *)
theory LibrarySqlite
  imports Library Sqlite_Time Events "HOL-Library.List_Lexorder" "HOL-Library.Char_ord" "HOL-Library.Option_ord"
begin

section \<open>The SQLite stores of the catalogue\<close>

text \<open>
  internal/library/series_sqlite.go, seasons_sqlite.go, episodes_sqlite.go, episodefiles_sqlite.go and
  stats_sqlite.go over the statements of internal/db/gen/sqlite and the tables of migrations 00002
  to 00006 and 00027. The state is the five tables and the ids of the quality profiles, which
  a series row references; the pool turns foreign keys on, so the references and their ON DELETE
  CASCADE clauses are part of the statements. Each store gets the bus as a function \<open>pub\<close>; the
  statistics subscribers that internal/app registers are \<open>stats_bus\<close>.
\<close>

subsection \<open>Rows and the database\<close>

record SqSeries =
  sr_ID :: int
  sr_TvdbID :: int
  sr_Title :: string
  sr_Slug :: string
  sr_Status :: string
  sr_SeriesType :: string
  sr_Path :: string
  sr_Monitored :: int
  sr_Added :: int
  sr_CreatedAt :: int
  sr_UpdatedAt :: int
  sr_QualityProfileID :: "int option"
  sr_SeasonFolder :: int
  sr_MonitorNewItems :: string

record SqSeason =
  sn_SeriesID :: int
  sn_SeasonNumber :: int
  sn_Monitored :: int

record SqEpisode =
  sp_ID :: int
  sp_SeriesID :: int
  sp_SeasonNumber :: int
  sp_EpisodeNumber :: int
  sp_AbsoluteEpisodeNumber :: "int option"
  sp_Title :: string
  sp_Overview :: string
  sp_AirDateUtc :: "int option"
  sp_Monitored :: int
  sp_EpisodeFileID :: "int option"
  sp_CreatedAt :: int
  sp_UpdatedAt :: int

record SqEpisodeFile =
  sf_ID :: int
  sf_SeriesID :: int
  sf_SeasonNumber :: int
  sf_RelativePath :: string
  sf_Size :: int
  sf_DateAdded :: int
  sf_ReleaseGroup :: string
  sf_QualityName :: string
  sf_CreatedAt :: int
  sf_UpdatedAt :: int

record SqStatistic =
  st_SeriesID :: int
  st_EpisodeCount :: int
  st_EpisodeFileCount :: int
  st_MonitoredEpisodeCount :: int
  st_SizeOnDisk :: int
  st_UpdatedAt :: int

record library_db =
  db_series :: "SqSeries table"
  db_seasons :: "SqSeason list"
  db_episodes :: "SqEpisode table"
  db_files :: "SqEpisodeFile table"
  db_stats :: "SqStatistic list"
  db_quality_profiles :: "int list"

type_synonym publisher = "library_event \<Rightarrow> (library_db, unit) act"

definition on_series :: "(SqSeries table, 'a) act \<Rightarrow> (library_db, 'a) act" where
  "on_series m d = (let (r, t) = m (db_series d) in (r, d\<lparr>db_series := t\<rparr>))"

definition on_episodes :: "(SqEpisode table, 'a) act \<Rightarrow> (library_db, 'a) act" where
  "on_episodes m d = (let (r, t) = m (db_episodes d) in (r, d\<lparr>db_episodes := t\<rparr>))"

definition on_files :: "(SqEpisodeFile table, 'a) act \<Rightarrow> (library_db, 'a) act" where
  "on_files m d = (let (r, t) = m (db_files d) in (r, d\<lparr>db_files := t\<rparr>))"

definition has_series :: "library_db \<Rightarrow> int \<Rightarrow> bool" where
  "has_series d i \<longleftrightarrow> tbl sr_ID (db_series d) i \<noteq> None"

text \<open>\<open>boolToInt64\<close>, and a constraint of the schema guarding a statement.\<close>

definition boolToInt64 :: "bool \<Rightarrow> int" where
  "boolToInt64 b = (if b then 1 else 0)"

definition require :: "bool \<Rightarrow> string \<Rightarrow> ('s, 'a) act \<Rightarrow> ('s, 'a) act" where
  "require c msg m s = (if c then m s else (Inl (DbError msg), s))"

definition unique_failed :: string where "unique_failed = ''UNIQUE constraint failed''"
definition fk_failed :: string where "fk_failed = ''FOREIGN KEY constraint failed''"

subsection \<open>Statements on series\<close>

definition series_unique :: "int option \<Rightarrow> Series \<Rightarrow> library_db \<Rightarrow> bool" where
  "series_unique self s d \<longleftrightarrow> (\<forall>r\<in>set (rows (db_series d)). Some (sr_ID r) \<noteq> self \<longrightarrow>
     sr_TvdbID r \<noteq> se_TvdbID s \<and> sr_Slug r \<noteq> se_Slug s \<and> sr_Path r \<noteq> se_Path s)"

definition qp_param :: "int \<Rightarrow> int option" where
  "qp_param i = (if i \<noteq> 0 then Some i else None)"

definition qp_exists :: "int option \<Rightarrow> library_db \<Rightarrow> bool" where
  "qp_exists v d = (case v of None \<Rightarrow> True | Some i \<Rightarrow> i \<in> set (db_quality_profiles d))"

definition sqlite_CreateSeries :: "dbenv \<Rightarrow> Series \<Rightarrow> string \<Rightarrow> (library_db, SqSeries) act" where
  "sqlite_CreateSeries e s monitorNewItems = stmt e ''CreateSeries'' (\<lambda>d.
     require (series_unique None s d) unique_failed
       (require (qp_exists (qp_param (se_QualityProfileID s)) d) fk_failed
         (on_series (sql_insert (\<lambda>i. \<lparr>
            sr_ID = i, sr_TvdbID = se_TvdbID s, sr_Title = se_Title s, sr_Slug = se_Slug s,
            sr_Status = se_Status s, sr_SeriesType = se_SeriesType s, sr_Path = se_Path s,
            sr_Monitored = boolToInt64 (se_Monitored s), sr_Added = sqlite_format (env_now e),
            sr_CreatedAt = sqlite_format (env_now e), sr_UpdatedAt = sqlite_format (env_now e),
            sr_QualityProfileID = qp_param (se_QualityProfileID s),
            sr_SeasonFolder = boolToInt64 (se_SeasonFolder s),
            sr_MonitorNewItems = monitorNewItems\<rparr>)))) d)"

definition sqlite_GetSeries :: "dbenv \<Rightarrow> int \<Rightarrow> (library_db, SqSeries) act" where
  "sqlite_GetSeries e i = stmt e ''GetSeries'' (on_series (sql_one (\<lambda>r. sr_ID r = i)))"

definition sqlite_GetSeriesByTvdbID :: "dbenv \<Rightarrow> int \<Rightarrow> (library_db, SqSeries) act" where
  "sqlite_GetSeriesByTvdbID e i = stmt e ''GetSeriesByTvdbID'' (on_series (sql_one (\<lambda>r. sr_TvdbID r = i)))"

definition sqlite_GetSeriesBySlug :: "dbenv \<Rightarrow> string \<Rightarrow> (library_db, SqSeries) act" where
  "sqlite_GetSeriesBySlug e x = stmt e ''GetSeriesBySlug'' (on_series (sql_one (\<lambda>r. sr_Slug r = x)))"

definition sqlite_ListSeries :: "dbenv \<Rightarrow> (library_db, SqSeries list) act" where
  "sqlite_ListSeries e = stmt e ''ListSeries'' (on_series (sql_many (\<lambda>_. True) sr_Title))"

definition sqlite_UpdateSeries :: "dbenv \<Rightarrow> Series \<Rightarrow> string \<Rightarrow> (library_db, unit) act" where
  "sqlite_UpdateSeries e s monitorNewItems = stmt e ''UpdateSeries'' (\<lambda>d.
     if \<not> has_series d (se_ID s) then (Inr (), d)
     else require (series_unique (Some (se_ID s)) s d) unique_failed
       (require (qp_exists (qp_param (se_QualityProfileID s)) d) fk_failed
         (on_series (sql_exec (\<lambda>r. sr_ID r = se_ID s) (\<lambda>r. r\<lparr>
            sr_TvdbID := se_TvdbID s, sr_Title := se_Title s, sr_Slug := se_Slug s,
            sr_Status := se_Status s, sr_SeriesType := se_SeriesType s, sr_Path := se_Path s,
            sr_Monitored := boolToInt64 (se_Monitored s),
            sr_QualityProfileID := qp_param (se_QualityProfileID s),
            sr_SeasonFolder := boolToInt64 (se_SeasonFolder s),
            sr_MonitorNewItems := monitorNewItems,
            sr_UpdatedAt := sqlite_format (env_now e)\<rparr>)))) d)"

text \<open>Seasons, episodes, episode files and statistics reference their series ON DELETE CASCADE.\<close>

definition cascade :: "int \<Rightarrow> library_db \<Rightarrow> library_db" where
  "cascade i d = d\<lparr>db_series := del_rows (\<lambda>r. sr_ID r = i) (db_series d),
     db_seasons := filter (\<lambda>r. sn_SeriesID r \<noteq> i) (db_seasons d),
     db_episodes := del_rows (\<lambda>r. sp_SeriesID r = i) (db_episodes d),
     db_files := del_rows (\<lambda>r. sf_SeriesID r = i) (db_files d),
     db_stats := filter (\<lambda>r. st_SeriesID r \<noteq> i) (db_stats d)\<rparr>"

definition sqlite_DeleteSeries :: "dbenv \<Rightarrow> int \<Rightarrow> (library_db, unit) act" where
  "sqlite_DeleteSeries e i = stmt e ''DeleteSeries''
     (\<lambda>d. (Inr (), if has_series d i then cascade i d else d))"

subsection \<open>The series store\<close>

definition seriesFromSqlite :: "SqSeries \<Rightarrow> Series" where
  "seriesFromSqlite r = \<lparr>
     se_ID = sr_ID r,
     se_TvdbID = sr_TvdbID r,
     se_Title = sr_Title r,
     se_Slug = sr_Slug r,
     se_Status = sr_Status r,
     se_SeriesType = sr_SeriesType r,
     se_Path = sr_Path r,
     se_Monitored = (sr_Monitored r \<noteq> 0),
     se_QualityProfileID = (case sr_QualityProfileID r of None \<Rightarrow> 0 | Some i \<Rightarrow> i),
     se_SeasonFolder = (sr_SeasonFolder r \<noteq> 0),
     se_MonitorNewItems = sr_MonitorNewItems r,
     se_Added = parseSqliteTime (sr_Added r),
     se_CreatedAt = parseSqliteTime (sr_CreatedAt r),
     se_UpdatedAt = parseSqliteTime (sr_UpdatedAt r)\<rparr>"

definition monitor_new_items :: "Series \<Rightarrow> string" where
  "monitor_new_items s = (if se_MonitorNewItems s = '''' then ''all'' else se_MonitorNewItems s)"

text \<open>The end of every writing operation: publish, and report a failed publication although
  the row is written.\<close>

definition publishing ::
  "(library_event \<Rightarrow> ('s, unit) act) \<Rightarrow> string \<Rightarrow> ('a \<Rightarrow> library_event) \<Rightarrow> ('s, 'a) act \<Rightarrow> ('s, 'a) act" where
  "publishing pub msg ev m = bindA m (\<lambda>out. bindA (wrapA msg (pub (ev out))) (\<lambda>_. retA out))"

definition sqliteSeries_Create :: "publisher \<Rightarrow> dbenv \<Rightarrow> Series \<Rightarrow> (library_db, Series) act" where
  "sqliteSeries_Create pub e s =
     publishing pub ''library: publish SeriesAdded''
       (\<lambda>out. SeriesAdded (se_ID out) (se_TvdbID out) (se_Title out))
       (SQLitePool_Write e (mapA seriesFromSqlite (wrapA ''library: create series''
         (sqlite_CreateSeries e s (monitor_new_items s)))))"

definition sqliteSeries_Get :: "dbenv \<Rightarrow> int \<Rightarrow> (library_db, Series) act" where
  "sqliteSeries_Get e i = rowA (Inl (ErrNotFound ''library: not found'')) ''library: get series''
     seriesFromSqlite (sqlite_GetSeries e i)"

definition sqliteSeries_GetByTvdbID :: "dbenv \<Rightarrow> int \<Rightarrow> (library_db, Series) act" where
  "sqliteSeries_GetByTvdbID e i = rowA (Inl (ErrNotFound ''library: not found''))
     ''library: get series by tvdb_id'' seriesFromSqlite (sqlite_GetSeriesByTvdbID e i)"

definition sqliteSeries_GetBySlug :: "dbenv \<Rightarrow> string \<Rightarrow> (library_db, Series) act" where
  "sqliteSeries_GetBySlug e x = rowA (Inl (ErrNotFound ''library: not found''))
     ''library: get series by slug'' seriesFromSqlite (sqlite_GetSeriesBySlug e x)"

definition sqliteSeries_List :: "dbenv \<Rightarrow> (library_db, Series list) act" where
  "sqliteSeries_List e = mapA (map seriesFromSqlite) (wrapA ''library: list series'' (sqlite_ListSeries e))"

definition sqliteSeries_Update :: "publisher \<Rightarrow> dbenv \<Rightarrow> Series \<Rightarrow> (library_db, unit) act" where
  "sqliteSeries_Update pub e s =
     publishing pub ''library: publish SeriesUpdated'' (\<lambda>_. SeriesUpdated (se_ID s) (se_TvdbID s))
       (wrapA ''library: update series''
         (SQLitePool_Write e (sqlite_UpdateSeries e s (monitor_new_items s))))"

definition sqliteSeries_Delete :: "publisher \<Rightarrow> dbenv \<Rightarrow> int \<Rightarrow> (library_db, unit) act" where
  "sqliteSeries_Delete pub e i =
     publishing pub ''library: publish SeriesDeleted'' (\<lambda>_. SeriesDeleted i)
       (wrapA ''library: delete series'' (SQLitePool_Write e (sqlite_DeleteSeries e i)))"

subsection \<open>Seasons\<close>

definition sqlite_UpsertSeason :: "dbenv \<Rightarrow> int \<Rightarrow> int \<Rightarrow> int \<Rightarrow> (library_db, unit) act" where
  "sqlite_UpsertSeason e series_id season_number monitored = stmt e ''UpsertSeason'' (\<lambda>d.
     if \<exists>r\<in>set (db_seasons d). sn_SeriesID r = series_id \<and> sn_SeasonNumber r = season_number
     then (Inr (), d\<lparr>db_seasons := map (\<lambda>r. if sn_SeriesID r = series_id \<and> sn_SeasonNumber r = season_number
             then r\<lparr>sn_Monitored := monitored\<rparr> else r) (db_seasons d)\<rparr>)
     else require (has_series d series_id) fk_failed
       (\<lambda>d. (Inr (), d\<lparr>db_seasons := db_seasons d @
          [\<lparr>sn_SeriesID = series_id, sn_SeasonNumber = season_number, sn_Monitored = monitored\<rparr>]\<rparr>)) d)"

definition sqlite_GetSeason :: "dbenv \<Rightarrow> int \<Rightarrow> int \<Rightarrow> (library_db, SqSeason) act" where
  "sqlite_GetSeason e series_id season_number = stmt e ''GetSeason'' (\<lambda>d.
     (first_row (filter (\<lambda>r. sn_SeriesID r = series_id \<and> sn_SeasonNumber r = season_number) (db_seasons d)), d))"

definition sqlite_ListSeasonsForSeries :: "dbenv \<Rightarrow> int \<Rightarrow> (library_db, SqSeason list) act" where
  "sqlite_ListSeasonsForSeries e series_id = stmt e ''ListSeasonsForSeries'' (\<lambda>d.
     (Inr (sort_key sn_SeasonNumber (filter (\<lambda>r. sn_SeriesID r = series_id) (db_seasons d))), d))"

definition sqlite_DeleteSeason :: "dbenv \<Rightarrow> int \<Rightarrow> int \<Rightarrow> (library_db, unit) act" where
  "sqlite_DeleteSeason e series_id season_number = stmt e ''DeleteSeason'' (\<lambda>d.
     (Inr (), d\<lparr>db_seasons := filter (\<lambda>r. \<not> (sn_SeriesID r = series_id \<and> sn_SeasonNumber r = season_number))
        (db_seasons d)\<rparr>))"

definition seasonFromSqlite :: "SqSeason \<Rightarrow> Season" where
  "seasonFromSqlite r = \<lparr>sea_SeriesID = sn_SeriesID r, sea_SeasonNumber = wrap32 (sn_SeasonNumber r),
     sea_Monitored = (sn_Monitored r \<noteq> 0)\<rparr>"

definition sqliteSeasons_Upsert :: "publisher \<Rightarrow> dbenv \<Rightarrow> Season \<Rightarrow> (library_db, unit) act" where
  "sqliteSeasons_Upsert pub e s =
     publishing pub ''library: publish SeasonUpdated''
       (\<lambda>_. SeasonUpdated (sea_SeriesID s) (sea_SeasonNumber s) (sea_Monitored s))
       (wrapA ''library: upsert season'' (SQLitePool_Write e
         (sqlite_UpsertSeason e (sea_SeriesID s) (sea_SeasonNumber s) (boolToInt64 (sea_Monitored s)))))"

definition sqliteSeasons_Get :: "dbenv \<Rightarrow> int \<Rightarrow> int \<Rightarrow> (library_db, Season) act" where
  "sqliteSeasons_Get e i n = rowA (Inl (ErrNotFound ''library: not found'')) ''library: get season''
     seasonFromSqlite (sqlite_GetSeason e i n)"

definition sqliteSeasons_ListForSeries :: "dbenv \<Rightarrow> int \<Rightarrow> (library_db, Season list) act" where
  "sqliteSeasons_ListForSeries e i =
     mapA (map seasonFromSqlite) (wrapA ''library: list seasons'' (sqlite_ListSeasonsForSeries e i))"

definition sqliteSeasons_Delete :: "dbenv \<Rightarrow> int \<Rightarrow> int \<Rightarrow> (library_db, unit) act" where
  "sqliteSeasons_Delete e i n =
     wrapA ''library: delete season'' (SQLitePool_Write e (sqlite_DeleteSeason e i n))"

subsection \<open>Statements on episodes\<close>

definition nullStringFromTimePtr :: "int option \<Rightarrow> int option" where
  "nullStringFromTimePtr p = (case p of None \<Rightarrow> None | Some t \<Rightarrow> Some (sqlite_format t))"

definition ptrFromNullInt32 :: "int option \<Rightarrow> int option" where
  "ptrFromNullInt32 v = (case v of None \<Rightarrow> None | Some n \<Rightarrow> Some (wrap32 n))"

definition episode_unique :: "Episode \<Rightarrow> library_db \<Rightarrow> bool" where
  "episode_unique x d \<longleftrightarrow> (\<forall>r\<in>set (rows (db_episodes d)).
     (sp_SeriesID r, sp_SeasonNumber r, sp_EpisodeNumber r) \<noteq> (ep_SeriesID x, ep_SeasonNumber x, ep_EpisodeNumber x))"

definition sqlite_CreateEpisode :: "dbenv \<Rightarrow> Episode \<Rightarrow> (library_db, SqEpisode) act" where
  "sqlite_CreateEpisode e x = stmt e ''CreateEpisode'' (\<lambda>d.
     require (episode_unique x d) unique_failed
       (require (has_series d (ep_SeriesID x)) fk_failed
         (on_episodes (sql_insert (\<lambda>i. \<lparr>
            sp_ID = i, sp_SeriesID = ep_SeriesID x, sp_SeasonNumber = ep_SeasonNumber x,
            sp_EpisodeNumber = ep_EpisodeNumber x,
            sp_AbsoluteEpisodeNumber = ep_AbsoluteEpisodeNumber x,
            sp_Title = ep_Title x, sp_Overview = ep_Overview x,
            sp_AirDateUtc = nullStringFromTimePtr (ep_AirDateUtc x),
            sp_Monitored = boolToInt64 (ep_Monitored x), sp_EpisodeFileID = ep_EpisodeFileID x,
            sp_CreatedAt = sqlite_format (env_now e), sp_UpdatedAt = sqlite_format (env_now e)\<rparr>)))) d)"

definition sqlite_GetEpisode :: "dbenv \<Rightarrow> int \<Rightarrow> (library_db, SqEpisode) act" where
  "sqlite_GetEpisode e i = stmt e ''GetEpisode'' (on_episodes (sql_one (\<lambda>r. sp_ID r = i)))"

definition sqlite_ListEpisodesForSeries :: "dbenv \<Rightarrow> int \<Rightarrow> (library_db, SqEpisode list) act" where
  "sqlite_ListEpisodesForSeries e series_id = stmt e ''ListEpisodesForSeries''
     (on_episodes (sql_many (\<lambda>r. sp_SeriesID r = series_id) (\<lambda>r. (sp_SeasonNumber r, sp_EpisodeNumber r))))"

definition sqlite_UpdateEpisode :: "dbenv \<Rightarrow> Episode \<Rightarrow> (library_db, unit) act" where
  "sqlite_UpdateEpisode e x = stmt e ''UpdateEpisode'' (on_episodes
     (sql_exec (\<lambda>r. sp_ID r = ep_ID x) (\<lambda>r. r\<lparr>
        sp_AbsoluteEpisodeNumber := ep_AbsoluteEpisodeNumber x, sp_Title := ep_Title x,
        sp_Overview := ep_Overview x, sp_AirDateUtc := nullStringFromTimePtr (ep_AirDateUtc x),
        sp_Monitored := boolToInt64 (ep_Monitored x), sp_EpisodeFileID := ep_EpisodeFileID x,
        sp_UpdatedAt := sqlite_format (env_now e)\<rparr>)))"

definition sqlite_SetEpisodeMonitored :: "dbenv \<Rightarrow> int \<Rightarrow> int \<Rightarrow> (library_db, unit) act" where
  "sqlite_SetEpisodeMonitored e monitored i = stmt e ''SetEpisodeMonitored'' (on_episodes
     (sql_exec (\<lambda>r. sp_ID r = i) (\<lambda>r. r\<lparr>sp_Monitored := monitored, sp_UpdatedAt := sqlite_format (env_now e)\<rparr>)))"

definition sqlite_DeleteEpisode :: "dbenv \<Rightarrow> int \<Rightarrow> (library_db, unit) act" where
  "sqlite_DeleteEpisode e i = stmt e ''DeleteEpisode'' (on_episodes (sql_delete (\<lambda>r. sp_ID r = i)))"

text \<open>\<open>SUM\<close> over no row is NULL.\<close>

definition sqlite_CountEpisodesForSeries :: "dbenv \<Rightarrow> int \<Rightarrow> (library_db, int \<times> int option) act" where
  "sqlite_CountEpisodesForSeries e series_id = stmt e ''CountEpisodesForSeries'' (\<lambda>d.
     let rs = filter (\<lambda>r. sp_SeriesID r = series_id) (rows (db_episodes d))
     in (Inr (int (length rs),
              if rs = [] then None else Some (sum_list (map (\<lambda>r. if sp_Monitored r = 1 then 1 else 0) rs))), d))"

subsection \<open>The episode store\<close>

definition episodeFromSqlite :: "SqEpisode \<Rightarrow> Episode" where
  "episodeFromSqlite r = \<lparr>
     ep_ID = sp_ID r,
     ep_SeriesID = sp_SeriesID r,
     ep_SeasonNumber = wrap32 (sp_SeasonNumber r),
     ep_EpisodeNumber = wrap32 (sp_EpisodeNumber r),
     ep_AbsoluteEpisodeNumber = ptrFromNullInt32 (sp_AbsoluteEpisodeNumber r),
     ep_Title = sp_Title r,
     ep_Overview = sp_Overview r,
     ep_AirDateUtc = ptrFromNullString (sp_AirDateUtc r),
     ep_Monitored = (sp_Monitored r \<noteq> 0),
     ep_EpisodeFileID = ptrFromNullInt64 (sp_EpisodeFileID r),
     ep_CreatedAt = parseSqliteTime (sp_CreatedAt r),
     ep_UpdatedAt = parseSqliteTime (sp_UpdatedAt r)\<rparr>"

definition sqliteEpisodes_Create :: "publisher \<Rightarrow> dbenv \<Rightarrow> Episode \<Rightarrow> (library_db, Episode) act" where
  "sqliteEpisodes_Create pub e x =
     publishing pub ''library: publish EpisodeAdded'' (\<lambda>out. EpisodeAdded (ep_ID out) (ep_SeriesID out))
       (SQLitePool_Write e (mapA episodeFromSqlite (wrapA ''library: create episode''
         (sqlite_CreateEpisode e x))))"

definition sqliteEpisodes_Get :: "dbenv \<Rightarrow> int \<Rightarrow> (library_db, Episode) act" where
  "sqliteEpisodes_Get e i = rowA (Inl (ErrNotFound ''library: not found'')) ''library: get episode''
     episodeFromSqlite (sqlite_GetEpisode e i)"

definition sqliteEpisodes_ListForSeries :: "dbenv \<Rightarrow> int \<Rightarrow> (library_db, Episode list) act" where
  "sqliteEpisodes_ListForSeries e i =
     mapA (map episodeFromSqlite) (wrapA ''library: list episodes'' (sqlite_ListEpisodesForSeries e i))"

text \<open>NULL sorts before every air date.\<close>

definition sqliteEpisodes_ListAll :: "dbenv \<Rightarrow> (library_db, Episode list) act" where
  "sqliteEpisodes_ListAll e = mapA (map episodeFromSqlite) (wrapA ''library: list all episodes''
     (stmt e ''ListAllEpisodes'' (on_episodes (sql_many (\<lambda>_. True) sp_AirDateUtc))))"

definition sqliteEpisodes_Update :: "publisher \<Rightarrow> dbenv \<Rightarrow> Episode \<Rightarrow> (library_db, unit) act" where
  "sqliteEpisodes_Update pub e x =
     publishing pub ''library: publish EpisodeUpdated'' (\<lambda>_. EpisodeUpdated (ep_ID x) (ep_SeriesID x))
       (wrapA ''library: update episode'' (SQLitePool_Write e (sqlite_UpdateEpisode e x)))"

definition sqliteEpisodes_SetMonitored :: "publisher \<Rightarrow> dbenv \<Rightarrow> int \<Rightarrow> bool \<Rightarrow> (library_db, unit) act" where
  "sqliteEpisodes_SetMonitored pub e i monitored =
     bindA (rowA (Inl (ErrNotFound ''library: not found'')) ''library: set monitored (lookup)'' id
             (sqlite_GetEpisode e i))
       (\<lambda>row. publishing pub ''library: publish EpisodeUpdated'' (\<lambda>_. EpisodeUpdated i (sp_SeriesID row))
          (wrapA ''library: set monitored''
            (SQLitePool_Write e (sqlite_SetEpisodeMonitored e (boolToInt64 monitored) i))))"

definition sqliteEpisodes_Delete :: "publisher \<Rightarrow> dbenv \<Rightarrow> int \<Rightarrow> (library_db, unit) act" where
  "sqliteEpisodes_Delete pub e i =
     bindA (rowA (Inl (ErrNotFound ''library: not found'')) ''library: delete episode (lookup)'' id
             (sqlite_GetEpisode e i))
       (\<lambda>row. publishing pub ''library: publish EpisodeDeleted'' (\<lambda>_. EpisodeDeleted i (sp_SeriesID row))
          (wrapA ''library: delete episode'' (SQLitePool_Write e (sqlite_DeleteEpisode e i))))"

definition sqliteEpisodes_CountForSeries :: "dbenv \<Rightarrow> int \<Rightarrow> (library_db, int \<times> int) act" where
  "sqliteEpisodes_CountForSeries e i =
     mapA (\<lambda>(total, monitored). (total, case monitored of None \<Rightarrow> 0 | Some n \<Rightarrow> n))
       (wrapA ''library: count episodes'' (sqlite_CountEpisodesForSeries e i))"

subsection \<open>Episode files\<close>

definition sqlite_CreateEpisodeFile :: "dbenv \<Rightarrow> EpisodeFile \<Rightarrow> (library_db, SqEpisodeFile) act" where
  "sqlite_CreateEpisodeFile e x = stmt e ''CreateEpisodeFile'' (\<lambda>d.
     require (has_series d (ef_SeriesID x)) fk_failed
       (on_files (sql_insert (\<lambda>i. \<lparr>
          sf_ID = i, sf_SeriesID = ef_SeriesID x, sf_SeasonNumber = ef_SeasonNumber x,
          sf_RelativePath = ef_RelativePath x, sf_Size = ef_Size x,
          sf_DateAdded = sqlite_format (env_now e), sf_ReleaseGroup = ef_ReleaseGroup x,
          sf_QualityName = ef_QualityName x, sf_CreatedAt = sqlite_format (env_now e),
          sf_UpdatedAt = sqlite_format (env_now e)\<rparr>))) d)"

definition sqlite_GetEpisodeFile :: "dbenv \<Rightarrow> int \<Rightarrow> (library_db, SqEpisodeFile) act" where
  "sqlite_GetEpisodeFile e i = stmt e ''GetEpisodeFile'' (on_files (sql_one (\<lambda>r. sf_ID r = i)))"

definition sqlite_ListEpisodeFilesForSeries :: "dbenv \<Rightarrow> int \<Rightarrow> (library_db, SqEpisodeFile list) act" where
  "sqlite_ListEpisodeFilesForSeries e series_id = stmt e ''ListEpisodeFilesForSeries''
     (on_files (sql_many (\<lambda>r. sf_SeriesID r = series_id) (\<lambda>r. (sf_SeasonNumber r, sf_RelativePath r))))"

definition sqlite_DeleteEpisodeFile :: "dbenv \<Rightarrow> int \<Rightarrow> (library_db, unit) act" where
  "sqlite_DeleteEpisodeFile e i = stmt e ''DeleteEpisodeFile'' (on_files (sql_delete (\<lambda>r. sf_ID r = i)))"

definition sqlite_SumEpisodeFileSizesForSeries :: "dbenv \<Rightarrow> int \<Rightarrow> (library_db, int \<times> int) act" where
  "sqlite_SumEpisodeFileSizesForSeries e series_id = stmt e ''SumEpisodeFileSizesForSeries'' (\<lambda>d.
     let rs = filter (\<lambda>r. sf_SeriesID r = series_id) (rows (db_files d))
     in (Inr (int (length rs), sum_list (map sf_Size rs)), d))"

definition episodeFileFromSqlite :: "SqEpisodeFile \<Rightarrow> EpisodeFile" where
  "episodeFileFromSqlite r = \<lparr>
     ef_ID = sf_ID r,
     ef_SeriesID = sf_SeriesID r,
     ef_SeasonNumber = wrap32 (sf_SeasonNumber r),
     ef_RelativePath = sf_RelativePath r,
     ef_Size = sf_Size r,
     ef_DateAdded = parseSqliteTime (sf_DateAdded r),
     ef_ReleaseGroup = sf_ReleaseGroup r,
     ef_QualityName = sf_QualityName r,
     ef_CreatedAt = parseSqliteTime (sf_CreatedAt r),
     ef_UpdatedAt = parseSqliteTime (sf_UpdatedAt r)\<rparr>"

definition sqliteFiles_Create :: "publisher \<Rightarrow> dbenv \<Rightarrow> EpisodeFile \<Rightarrow> (library_db, EpisodeFile) act" where
  "sqliteFiles_Create pub e x =
     publishing pub ''library: publish EpisodeFileAdded''
       (\<lambda>out. EpisodeFileAdded (ef_ID out) (ef_SeriesID out) (ef_Size out))
       (SQLitePool_Write e (mapA episodeFileFromSqlite (wrapA ''library: create episode file''
         (sqlite_CreateEpisodeFile e x))))"

definition sqliteFiles_Get :: "dbenv \<Rightarrow> int \<Rightarrow> (library_db, EpisodeFile) act" where
  "sqliteFiles_Get e i = rowA (Inl (ErrNotFound ''library: not found'')) ''library: get episode file''
     episodeFileFromSqlite (sqlite_GetEpisodeFile e i)"

definition sqliteFiles_ListForSeries :: "dbenv \<Rightarrow> int \<Rightarrow> (library_db, EpisodeFile list) act" where
  "sqliteFiles_ListForSeries e i = mapA (map episodeFileFromSqlite)
     (wrapA ''library: list episode files'' (sqlite_ListEpisodeFilesForSeries e i))"

definition sqliteFiles_Delete :: "publisher \<Rightarrow> dbenv \<Rightarrow> int \<Rightarrow> (library_db, unit) act" where
  "sqliteFiles_Delete pub e i =
     bindA (rowA (Inl (ErrNotFound ''library: not found'')) ''library: delete episode file (lookup)'' id
             (sqlite_GetEpisodeFile e i))
       (\<lambda>row. publishing pub ''library: publish EpisodeFileDeleted'' (\<lambda>_. EpisodeFileDeleted i (sf_SeriesID row))
          (wrapA ''library: delete episode file'' (SQLitePool_Write e (sqlite_DeleteEpisodeFile e i))))"

definition sqliteFiles_SumSizesForSeries :: "dbenv \<Rightarrow> int \<Rightarrow> (library_db, int \<times> int) act" where
  "sqliteFiles_SumSizesForSeries e i =
     wrapA ''library: sum episode file sizes'' (sqlite_SumEpisodeFileSizesForSeries e i)"

subsection \<open>Statistics\<close>

definition sqlite_GetSeriesStatistics :: "dbenv \<Rightarrow> int \<Rightarrow> (library_db, SqStatistic) act" where
  "sqlite_GetSeriesStatistics e i = stmt e ''GetSeriesStatistics''
     (\<lambda>d. (first_row (filter (\<lambda>r. st_SeriesID r = i) (db_stats d)), d))"

definition sqlite_UpsertSeriesStatistics ::
  "dbenv \<Rightarrow> int \<Rightarrow> int \<Rightarrow> int \<Rightarrow> int \<Rightarrow> int \<Rightarrow> (library_db, unit) act" where
  "sqlite_UpsertSeriesStatistics e series_id eps files monitored size_on_disk = stmt e ''UpsertSeriesStatistics'' (\<lambda>d.
     let row = \<lparr>st_SeriesID = series_id, st_EpisodeCount = eps, st_EpisodeFileCount = files,
                st_MonitoredEpisodeCount = monitored, st_SizeOnDisk = size_on_disk,
                st_UpdatedAt = sqlite_format (env_now e)\<rparr>
     in if \<exists>r\<in>set (db_stats d). st_SeriesID r = series_id
        then (Inr (), d\<lparr>db_stats := map (\<lambda>r. if st_SeriesID r = series_id then row else r) (db_stats d)\<rparr>)
        else require (has_series d series_id) fk_failed
          (\<lambda>d. (Inr (), d\<lparr>db_stats := db_stats d @ [row]\<rparr>)) d)"

definition sqlite_DeleteSeriesStatistics :: "dbenv \<Rightarrow> int \<Rightarrow> (library_db, unit) act" where
  "sqlite_DeleteSeriesStatistics e i = stmt e ''DeleteSeriesStatistics''
     (\<lambda>d. (Inr (), d\<lparr>db_stats := filter (\<lambda>r. st_SeriesID r \<noteq> i) (db_stats d)\<rparr>))"

text \<open>The helper of stats.go that both engines share, over the two operations it calls.\<close>

definition derive ::
  "(int \<Rightarrow> ('s, int \<times> int) act) \<Rightarrow> (int \<Rightarrow> ('s, int \<times> int) act) \<Rightarrow> int \<Rightarrow> ('s, SeriesStatistics) act" where
  "derive CountForSeries SumSizesForSeries seriesID =
     bindA (CountForSeries seriesID) (\<lambda>(total, monitored).
     bindA (SumSizesForSeries seriesID) (\<lambda>(fileCount, sizeOnDisk).
       retA \<lparr>ss_SeriesID = seriesID, ss_EpisodeCount = wrap32 total,
             ss_EpisodeFileCount = wrap32 fileCount, ss_MonitoredEpisodeCount = wrap32 monitored,
             ss_SizeOnDisk = sizeOnDisk, ss_UpdatedAt = 0\<rparr>))"

definition sqliteStats_Get :: "dbenv \<Rightarrow> int \<Rightarrow> (library_db, SeriesStatistics) act" where
  "sqliteStats_Get e i = rowA (Inl (ErrNotFound ''library: not found'')) ''library: get series stats''
     (\<lambda>row. \<lparr>ss_SeriesID = st_SeriesID row, ss_EpisodeCount = wrap32 (st_EpisodeCount row),
            ss_EpisodeFileCount = wrap32 (st_EpisodeFileCount row),
            ss_MonitoredEpisodeCount = wrap32 (st_MonitoredEpisodeCount row),
            ss_SizeOnDisk = st_SizeOnDisk row, ss_UpdatedAt = parseSqliteTime (st_UpdatedAt row)\<rparr>)
     (sqlite_GetSeriesStatistics e i)"

definition sqliteStats_Recompute :: "dbenv \<Rightarrow> int \<Rightarrow> (library_db, unit) act" where
  "sqliteStats_Recompute e seriesID =
     bindA (wrapA ''library: recompute derive''
             (derive (sqliteEpisodes_CountForSeries e) (sqliteFiles_SumSizesForSeries e) seriesID)) (\<lambda>stats.
       wrapA ''library: upsert series stats'' (SQLitePool_Write e
         (sqlite_UpsertSeriesStatistics e (ss_SeriesID stats) (ss_EpisodeCount stats)
            (ss_EpisodeFileCount stats) (ss_MonitoredEpisodeCount stats) (ss_SizeOnDisk stats))))"

definition sqliteStats_Delete :: "dbenv \<Rightarrow> int \<Rightarrow> (library_db, unit) act" where
  "sqliteStats_Delete e i =
     wrapA ''library: delete series stats'' (SQLitePool_Write e (sqlite_DeleteSeriesStatistics e i))"

subsection \<open>The statistics subscribers of the application\<close>

text \<open>internal/app/app.go registers a synchronous subscriber per event that changes the counts of a
  series: it recomputes the cached row, or removes it with the series.\<close>

datatype library_event_type = T_SeriesAdded | T_SeriesUpdated | T_SeriesDeleted | T_SeasonUpdated
  | T_EpisodeAdded | T_EpisodeUpdated | T_EpisodeDeleted | T_EpisodeFileAdded | T_EpisodeFileDeleted

fun typeOf :: "library_event \<Rightarrow> library_event_type" where
  "typeOf (SeriesAdded _ _ _) = T_SeriesAdded"
| "typeOf (SeriesUpdated _ _) = T_SeriesUpdated"
| "typeOf (SeriesDeleted _) = T_SeriesDeleted"
| "typeOf (SeasonUpdated _ _ _) = T_SeasonUpdated"
| "typeOf (EpisodeAdded _ _) = T_EpisodeAdded"
| "typeOf (EpisodeUpdated _ _) = T_EpisodeUpdated"
| "typeOf (EpisodeDeleted _ _) = T_EpisodeDeleted"
| "typeOf (EpisodeFileAdded _ _ _) = T_EpisodeFileAdded"
| "typeOf (EpisodeFileDeleted _ _) = T_EpisodeFileDeleted"

text \<open>The series an event is about.\<close>

fun event_series :: "library_event \<Rightarrow> int" where
  "event_series (SeriesAdded i _ _) = i"
| "event_series (SeriesUpdated i _) = i"
| "event_series (SeriesDeleted i) = i"
| "event_series (SeasonUpdated i _ _) = i"
| "event_series (EpisodeAdded _ i) = i"
| "event_series (EpisodeUpdated _ i) = i"
| "event_series (EpisodeDeleted _ i) = i"
| "event_series (EpisodeFileAdded _ i _) = i"
| "event_series (EpisodeFileDeleted _ i) = i"

definition subscribe_stats ::
  "library_event_type \<Rightarrow> (int \<Rightarrow> ('s, unit) act) \<Rightarrow>
     (library_event_type, 's, library_event) bus \<Rightarrow> (library_event_type, 's, library_event) bus" where
  "subscribe_stats t handler =
     SubscribeSync t (\<lambda>ev. if typeOf ev = t then Some (event_series ev) else None) handler"

definition stats_bus ::
  "(int \<Rightarrow> ('s, unit) act) \<Rightarrow> (int \<Rightarrow> ('s, unit) act) \<Rightarrow> (library_event_type, 's, library_event) bus" where
  "stats_bus Delete Recompute =
     subscribe_stats T_SeriesDeleted Delete
     (subscribe_stats T_EpisodeFileDeleted Recompute
     (subscribe_stats T_EpisodeFileAdded Recompute
     (subscribe_stats T_EpisodeDeleted Recompute
     (subscribe_stats T_EpisodeUpdated Recompute
     (subscribe_stats T_EpisodeAdded Recompute NewBus)))))"

definition bus_publish :: "(library_event_type, 's, library_event) bus \<Rightarrow> library_event \<Rightarrow> ('s, unit) act" where
  "bus_publish b ev d = (case Publish typeOf [] b ev d of
     (Inl x, d') \<Rightarrow> (Inl x, d')
   | (Inr _, d') \<Rightarrow> (Inr (), d'))"

definition app_publish :: "dbenv \<Rightarrow> publisher" where
  "app_publish e = bus_publish (stats_bus (sqliteStats_Delete e) (sqliteStats_Recompute e))"

text \<open>What publishing an event amounts to.\<close>

definition stats_react :: "(int \<Rightarrow> ('s, unit) act) \<Rightarrow> (int \<Rightarrow> ('s, unit) act) \<Rightarrow> library_event \<Rightarrow> ('s, unit) act" where
  "stats_react Delete Recompute ev = (case typeOf ev of
     T_SeriesDeleted \<Rightarrow> Delete (event_series ev)
   | T_EpisodeAdded \<Rightarrow> Recompute (event_series ev)
   | T_EpisodeUpdated \<Rightarrow> Recompute (event_series ev)
   | T_EpisodeDeleted \<Rightarrow> Recompute (event_series ev)
   | T_EpisodeFileAdded \<Rightarrow> Recompute (event_series ev)
   | T_EpisodeFileDeleted \<Rightarrow> Recompute (event_series ev)
   | _ \<Rightarrow> retA ())"

definition stats_reaction :: "dbenv \<Rightarrow> publisher" where
  "stats_reaction e = stats_react (sqliteStats_Delete e) (sqliteStats_Recompute e)"

lemma SliceStable_single [simp]: "SliceStable lt [h] = [h]"
  by (simp add: SliceStable_def)

lemma subscribe_stats_single:
  "b t = [] \<Longrightarrow> subscribe_stats t h b = b(t := [\<lparr>h_order = defaultSyncOrder, h_async = False,
     h_fn = typed_fn (\<lambda>ev. if typeOf ev = t then Some (event_series ev) else None) h\<rparr>])"
  by (simp add: subscribe_stats_def SubscribeSync_def register_def)

lemma bus_publish_eq: "bus_publish (stats_bus del rec) = stats_react del rec"
proof (intro ext)
  fix ev d
  show "bus_publish (stats_bus del rec) ev d = stats_react del rec ev d"
    by (cases ev) (simp_all add: bus_publish_def stats_react_def stats_bus_def subscribe_stats_single
        NewBus_def Publish_sync_only typed_fn_def retA_def Let_def split: prod.split sum.split)
qed

lemma stats_react_simps [simp]:
  "stats_react del rec (SeriesAdded a b c) = retA ()" "stats_react del rec (SeriesUpdated a b) = retA ()"
  "stats_react del rec (SeasonUpdated a b k) = retA ()"
  "stats_react del rec (SeriesDeleted a) = del a"
  "stats_react del rec (EpisodeAdded a i) = rec i"
  "stats_react del rec (EpisodeUpdated a i) = rec i"
  "stats_react del rec (EpisodeDeleted a i) = rec i"
  "stats_react del rec (EpisodeFileAdded a i z) = rec i"
  "stats_react del rec (EpisodeFileDeleted a i) = rec i"
  by (simp_all add: stats_react_def)

lemma app_publish_eq: "app_publish e = stats_reaction e"
  by (simp add: app_publish_def stats_reaction_def bus_publish_eq)

subsection \<open>Integrity of the catalogue\<close>

text \<open>What the schema guarantees: ids are unique, references point at existing series, the UNIQUE
  columns hold distinct values.\<close>

definition episode_key :: "SqEpisode \<Rightarrow> int \<times> int \<times> int" where
  "episode_key r = (sp_SeriesID r, sp_SeasonNumber r, sp_EpisodeNumber r)"

definition tables_ok :: "library_db \<Rightarrow> bool" where
  "tables_ok d \<longleftrightarrow> wf_table sr_ID (db_series d) \<and> wf_table sp_ID (db_episodes d) \<and> wf_table sf_ID (db_files d)
     \<and> distinct (map sr_TvdbID (rows (db_series d))) \<and> distinct (map sr_Slug (rows (db_series d)))
     \<and> distinct (map sr_Path (rows (db_series d)))
     \<and> distinct (map episode_key (rows (db_episodes d)))
     \<and> distinct (map (\<lambda>r. (sn_SeriesID r, sn_SeasonNumber r)) (db_seasons d))
     \<and> distinct (map st_SeriesID (db_stats d))"

definition refs_ok :: "library_db \<Rightarrow> bool" where
  "refs_ok d \<longleftrightarrow> (\<forall>r\<in>set (rows (db_episodes d)). has_series d (sp_SeriesID r))
     \<and> (\<forall>r\<in>set (rows (db_files d)). has_series d (sf_SeriesID r))
     \<and> (\<forall>r\<in>set (db_seasons d). has_series d (sn_SeriesID r))
     \<and> (\<forall>r\<in>set (db_stats d). has_series d (st_SeriesID r))"

text \<open>The counts of a series as the tables have them, and a statistics row that shows them.\<close>

definition counts :: "library_db \<Rightarrow> int \<Rightarrow> int \<times> int \<times> int \<times> int" where
  "counts d i =
     (let eps = filter (\<lambda>r. sp_SeriesID r = i) (rows (db_episodes d));
          fs = filter (\<lambda>r. sf_SeriesID r = i) (rows (db_files d))
      in (wrap32 (int (length eps)), wrap32 (int (length fs)),
          wrap32 (int (length (filter (\<lambda>r. sp_Monitored r = 1) eps))), sum_list (map sf_Size fs)))"

definition shows_counts :: "library_db \<Rightarrow> SqStatistic \<Rightarrow> bool" where
  "shows_counts d r \<longleftrightarrow>
     (st_EpisodeCount r, st_EpisodeFileCount r, st_MonitoredEpisodeCount r, st_SizeOnDisk r) = counts d (st_SeriesID r)"

text \<open>The invariant, with the set of series whose statistics row is out of date.\<close>

definition catalog_inv :: "int set \<Rightarrow> library_db \<Rightarrow> bool" where
  "catalog_inv stale d \<longleftrightarrow> tables_ok d \<and> refs_ok d
     \<and> (\<forall>r\<in>set (db_stats d). st_SeriesID r \<notin> stale \<longrightarrow> shows_counts d r)"

lemmas lift_defs = on_series_def on_episodes_def on_files_def require_def

lemma sum_monitored:
  "sum_list (map (\<lambda>r. if sp_Monitored r = 1 then 1 else 0) rs)
     = (int (length (filter (\<lambda>r. sp_Monitored r = 1) rs)))"
  by (induction rs) auto

lemma derive_quiet:
  assumes "quiet e"
  shows "derive (sqliteEpisodes_CountForSeries e) (sqliteFiles_SumSizesForSeries e) i d = (Inr \<lparr>ss_SeriesID = i, ss_EpisodeCount = fst (counts d i),
      ss_EpisodeFileCount = fst (snd (counts d i)), ss_MonitoredEpisodeCount = fst (snd (snd (counts d i))),
      ss_SizeOnDisk = snd (snd (snd (counts d i))), ss_UpdatedAt = 0\<rparr>, d)"
  using assms
  by (cases "filter (\<lambda>r. sp_SeriesID r = i) (rows (db_episodes d)) = []")
    (auto simp: derive_def sqliteEpisodes_CountForSeries_def sqliteFiles_SumSizesForSeries_def
      sqlite_CountEpisodesForSeries_def sqlite_SumEpisodeFileSizesForSeries_def act_defs Let_def
      counts_def sum_monitored filter_empty_conv simp flip: filter_filter)

text \<open>A recomputation brings the row of its series up to date and touches nothing else.\<close>

lemma recompute_inv:
  assumes "catalog_inv stale d" "has_series d i" "quiet e"
  shows "\<exists>d'. sqliteStats_Recompute e i d = (Inr (), d') \<and> catalog_inv (stale - {i}) d'
    \<and> db_series d' = db_series d \<and> db_seasons d' = db_seasons d \<and> db_episodes d' = db_episodes d
    \<and> db_files d' = db_files d \<and> db_quality_profiles d' = db_quality_profiles d
    \<and> st_SeriesID ` set (db_stats d') = insert i (st_SeriesID ` set (db_stats d))"
proof -
  define row where "row = \<lparr>st_SeriesID = i, st_EpisodeCount = fst (counts d i),
      st_EpisodeFileCount = fst (snd (counts d i)), st_MonitoredEpisodeCount = fst (snd (snd (counts d i))),
      st_SizeOnDisk = snd (snd (snd (counts d i))), st_UpdatedAt = sqlite_format (env_now e)\<rparr>"
  define new where "new = (if \<exists>r\<in>set (db_stats d). st_SeriesID r = i
      then map (\<lambda>r. if st_SeriesID r = i then row else r) (db_stats d) else db_stats d @ [row])"
  let ?d = "d\<lparr>db_stats := new\<rparr>"
  have run: "sqliteStats_Recompute e i d = (Inr (), ?d)"
    using assms(2,3)
    by (simp add: sqliteStats_Recompute_def derive_quiet act_defs sqlite_UpsertSeriesStatistics_def
        Let_def require_def row_def new_def)
  have cnt: "counts ?d = counts d" "has_series ?d = has_series d"
    by (rule ext, simp add: counts_def Let_def, rule ext, simp add: has_series_def)
  have row: "st_SeriesID row = i" "shows_counts d row" by (simp_all add: row_def shows_counts_def)
  have members: "r \<in> set new \<Longrightarrow> r = row \<or> (r \<in> set (db_stats d) \<and> st_SeriesID r \<noteq> i)" for r
    by (auto simp: new_def split: if_splits)
  have "map st_SeriesID new = map st_SeriesID (db_stats d)
      \<or> (i \<notin> st_SeriesID ` set (db_stats d) \<and> map st_SeriesID new = map st_SeriesID (db_stats d) @ [i])"
    by (auto simp: new_def row(1))
  then have "distinct (map st_SeriesID new)"
    using assms(1) by (auto simp: catalog_inv_def tables_ok_def)
  then have "catalog_inv (stale - {i}) ?d"
    using assms(1,2) row unfolding catalog_inv_def tables_ok_def refs_ok_def shows_counts_def cnt
    by (auto dest!: members)
  moreover have "st_SeriesID ` set new = insert i (st_SeriesID ` set (db_stats d))"
  proof (cases "\<exists>r\<in>set (db_stats d). st_SeriesID r = i")
    case True
    have "map st_SeriesID new = map st_SeriesID (db_stats d)" using True by (auto simp: new_def row(1))
    then have "set (map st_SeriesID new) = set (map st_SeriesID (db_stats d))" by (rule arg_cong)
    then show ?thesis using True by (auto simp: image_iff)
  next
    case False
    then show ?thesis by (simp add: new_def row(1))
  qed
  ultimately show ?thesis using run by (intro exI [of _ ?d]) simp
qed

text \<open>A change of the tables after which only the series of \<open>T\<close> may have other counts.\<close>

lemma catalog_inv_change:
  assumes "catalog_inv S d" "tables_ok d'" "refs_ok d'" "set (db_stats d') \<subseteq> set (db_stats d)"
    and "\<And>r. r \<in> set (db_stats d') \<Longrightarrow> st_SeriesID r \<notin> T \<Longrightarrow> counts d' (st_SeriesID r) = counts d (st_SeriesID r)"
  shows "catalog_inv (S \<union> T) d'"
  using assms unfolding catalog_inv_def shows_counts_def by (simp add: subset_iff)

lemma has_series_cong [simp]:
  "has_series (d\<lparr>db_episodes := t\<rparr>) = has_series d" "has_series (d\<lparr>db_files := u\<rparr>) = has_series d"
  "has_series (d\<lparr>db_seasons := v\<rparr>) = has_series d" "has_series (d\<lparr>db_stats := w\<rparr>) = has_series d"
  by (simp_all add: has_series_def fun_eq_iff)

lemma counts_series [simp]: "counts (d\<lparr>db_series := t\<rparr>) = counts d" "counts (d\<lparr>db_seasons := v\<rparr>) = counts d"
  by (simp_all add: counts_def Let_def fun_eq_iff)

lemma counts_cong:
  assumes "filter (\<lambda>r. sp_SeriesID r = i) (rows (db_episodes d')) = filter (\<lambda>r. sp_SeriesID r = i) (rows (db_episodes d))"
    and "filter (\<lambda>r. sf_SeriesID r = i) (rows (db_files d')) = filter (\<lambda>r. sf_SeriesID r = i) (rows (db_files d))"
  shows "counts d' i = counts d i"
  using assms by (simp add: counts_def Let_def)

lemma filter_map_other:
  assumes "\<And>r. k (f r) = k r" and "\<And>r. r \<in> set xs \<Longrightarrow> p r \<Longrightarrow> k r = i" and "j \<noteq> i"
  shows "filter (\<lambda>r. k r = j) (map (\<lambda>r. if p r then f r else r) xs) = filter (\<lambda>r. k r = j) xs"
  using assms by (induction xs) auto

text \<open>The five ways a statement changes the episode and file tables of one series.\<close>

lemma insert_episode_inv:
  assumes "catalog_inv S d" "episode_unique x d" "has_series d (ep_SeriesID x)"
    and mk: "\<And>i. sp_ID (mk i) = i" "\<And>i. episode_key (mk i) = (ep_SeriesID x, ep_SeasonNumber x, ep_EpisodeNumber x)"
  shows "catalog_inv (S \<union> {ep_SeriesID x}) (d\<lparr>db_episodes := snd (sql_insert mk (db_episodes d))\<rparr>)"
    (is "catalog_inv _ ?d'")
proof (rule catalog_inv_change [OF assms(1)])
  have t: "tables_ok d" and r: "refs_ok d" using assms(1) by (simp_all add: catalog_inv_def)
  have key: "sp_SeriesID (mk i) = ep_SeriesID x" for i using mk(2) [of i] by (simp add: episode_key_def)
  have "episode_key (mk i) \<notin> episode_key ` set (rows (db_episodes d))" for i
    using assms(2) unfolding mk(2) by (auto simp: episode_unique_def episode_key_def)
  with t wf_insert [of sp_ID "db_episodes d" mk] mk(1) show "tables_ok ?d'"
    by (simp add: tables_ok_def) (simp add: sql_insert_def)
  show "refs_ok ?d'" using r assms(3) key by (auto simp: refs_ok_def sql_insert_def)
  show "counts ?d' (st_SeriesID y) = counts d (st_SeriesID y)" if "st_SeriesID y \<notin> {ep_SeriesID x}" for y
    using that key by (intro counts_cong) (auto simp: sql_insert_def)
qed simp

lemma update_episode_inv:
  assumes "catalog_inv S d" "\<And>r. r \<in> set (rows (db_episodes d)) \<Longrightarrow> p r \<Longrightarrow> sp_SeriesID r = i"
    and f: "\<And>r. sp_ID (f r) = sp_ID r" "\<And>r. episode_key (f r) = episode_key r"
  shows "catalog_inv (S \<union> {i}) (d\<lparr>db_episodes := upd_rows p f (db_episodes d)\<rparr>)" (is "catalog_inv _ ?d'")
proof (rule catalog_inv_change [OF assms(1)])
  have t: "tables_ok d" and r: "refs_ok d" using assms(1) by (simp_all add: catalog_inv_def)
  have key: "sp_SeriesID (f r) = sp_SeriesID r" for r using f(2) [of r] by (simp add: episode_key_def)
  have "map episode_key (rows (upd_rows p f (db_episodes d))) = map episode_key (rows (db_episodes d))"
    using f(2) by (simp add: upd_rows_def)
  with t wf_upd_rows [of sp_ID "db_episodes d" f p] f(1) show "tables_ok ?d'"
    by (simp add: tables_ok_def)
  show "refs_ok ?d'" using r key by (auto simp: refs_ok_def upd_rows_def)
  show "counts ?d' (st_SeriesID y) = counts d (st_SeriesID y)" if "st_SeriesID y \<notin> {i}" for y
    using that assms(2) key by (intro counts_cong) (simp_all add: upd_rows_def filter_map_other [where i = i])
qed simp

lemma delete_episode_inv:
  assumes "catalog_inv S d" "\<And>r. r \<in> set (rows (db_episodes d)) \<Longrightarrow> p r \<Longrightarrow> sp_SeriesID r = i"
  shows "catalog_inv (S \<union> {i}) (d\<lparr>db_episodes := del_rows p (db_episodes d)\<rparr>)" (is "catalog_inv _ ?d'")
proof (rule catalog_inv_change [OF assms(1)])
  have t: "tables_ok d" and r: "refs_ok d" using assms(1) by (simp_all add: catalog_inv_def)
  show "tables_ok ?d'" using t by (simp add: tables_ok_def wf_del_rows) (simp add: del_rows_def distinct_map_filter)
  show "refs_ok ?d'" using r by (auto simp: refs_ok_def del_rows_def)
  show "counts ?d' (st_SeriesID y) = counts d (st_SeriesID y)" if "st_SeriesID y \<notin> {i}" for y
    using that assms(2) by (intro counts_cong) (auto simp: del_rows_def intro!: filter_cong)
qed simp

lemma insert_file_inv:
  assumes "catalog_inv S d" "has_series d i" and mk: "\<And>n. sf_ID (mk n) = n" "\<And>n. sf_SeriesID (mk n) = i"
  shows "catalog_inv (S \<union> {i}) (d\<lparr>db_files := snd (sql_insert mk (db_files d))\<rparr>)" (is "catalog_inv _ ?d'")
proof (rule catalog_inv_change [OF assms(1)])
  have t: "tables_ok d" and r: "refs_ok d" using assms(1) by (simp_all add: catalog_inv_def)
  show "tables_ok ?d'" using t wf_insert [of sf_ID "db_files d" mk] mk(1) by (simp add: tables_ok_def)
  show "refs_ok ?d'" using r assms(2) mk(2) by (auto simp: refs_ok_def sql_insert_def)
  show "counts ?d' (st_SeriesID y) = counts d (st_SeriesID y)" if "st_SeriesID y \<notin> {i}" for y
    using that mk(2) by (intro counts_cong) (auto simp: sql_insert_def)
qed simp

lemma delete_file_inv:
  assumes "catalog_inv S d" "\<And>r. r \<in> set (rows (db_files d)) \<Longrightarrow> p r \<Longrightarrow> sf_SeriesID r = i"
  shows "catalog_inv (S \<union> {i}) (d\<lparr>db_files := del_rows p (db_files d)\<rparr>)" (is "catalog_inv _ ?d'")
proof (rule catalog_inv_change [OF assms(1)])
  have t: "tables_ok d" and r: "refs_ok d" using assms(1) by (simp_all add: catalog_inv_def)
  show "tables_ok ?d'" using t by (simp add: tables_ok_def wf_del_rows)
  show "refs_ok ?d'" using r by (auto simp: refs_ok_def del_rows_def)
  show "counts ?d' (st_SeriesID y) = counts d (st_SeriesID y)" if "st_SeriesID y \<notin> {i}" for y
    using that assms(2) by (intro counts_cong) (auto simp: del_rows_def intro!: filter_cong)
qed simp

text \<open>Changes of the series table.\<close>

lemma insert_series_inv:
  assumes "catalog_inv S d" "series_unique None s d" and mk: "\<And>i. sr_ID (mk i) = i"
    "\<And>i. sr_TvdbID (mk i) = se_TvdbID s" "\<And>i. sr_Slug (mk i) = se_Slug s" "\<And>i. sr_Path (mk i) = se_Path s"
  shows "catalog_inv S (d\<lparr>db_series := snd (sql_insert mk (db_series d))\<rparr>)" (is "catalog_inv _ ?d'")
proof -
  have t: "tables_ok d" and r: "refs_ok d" using assms(1) by (simp_all add: catalog_inv_def)
  have wf: "wf_table sr_ID (db_series d)" using t by (simp add: tables_ok_def)
  have new: "rows (snd (sql_insert mk (db_series d))) = rows (db_series d) @ [mk (next_id (db_series d))]"
    by (simp add: sql_insert_def)
  have "tables_ok ?d'"
    using t wf_insert [OF wf, of mk] mk assms(2)
    by (auto simp: tables_ok_def new series_unique_def)
  moreover have "has_series d i \<Longrightarrow> has_series ?d' i" for i
    using tbl_insert [OF wf, of mk] mk(1) by (simp add: has_series_def)
  then have "refs_ok ?d'" using r by (simp add: refs_ok_def)
  ultimately show ?thesis
    using assms(1) by (simp add: catalog_inv_def shows_counts_def)
qed

lemma distinct_map_upd:
  assumes "distinct (map k xs)" "distinct (map rid xs)" and "\<And>r. k (f r) = v"
    and "\<And>r. r \<in> set xs \<Longrightarrow> rid r \<noteq> i \<Longrightarrow> k r \<noteq> v"
  shows "distinct (map k (map (\<lambda>r. if rid r = i then f r else r) xs))"
  using assms
proof (induction xs)
  case (Cons x xs)
  show ?case
  proof (cases "rid x = i")
    case True
    have "\<forall>r\<in>set xs. rid r \<noteq> i" using Cons.prems(2) True by (auto simp: image_iff)
    then have "map (\<lambda>r. if rid r = i then f r else r) xs = xs" by (simp add: map_idI)
    then show ?thesis using True Cons.prems \<open>\<forall>r\<in>set xs. rid r \<noteq> i\<close> by (auto simp del: map_map)
  next
    case False
    have "k x \<notin> k ` (\<lambda>r. if rid r = i then f r else r) ` set xs"
      using Cons.prems(1,3,4) False by auto
    moreover have "distinct (map k (map (\<lambda>r. if rid r = i then f r else r) xs))"
      using Cons.IH Cons.prems by simp
    ultimately show ?thesis using False by (simp del: map_map add: image_image) 
  qed
qed simp

lemma update_series_inv:
  assumes "catalog_inv S d" "series_unique (Some i) s d" and f: "\<And>r. sr_ID (f r) = sr_ID r"
    "\<And>r. sr_TvdbID (f r) = se_TvdbID s" "\<And>r. sr_Slug (f r) = se_Slug s" "\<And>r. sr_Path (f r) = se_Path s"
  shows "catalog_inv S (d\<lparr>db_series := upd_rows (\<lambda>r. sr_ID r = i) f (db_series d)\<rparr>)" (is "catalog_inv _ ?d'")
proof -
  have t: "tables_ok d" and r: "refs_ok d" using assms(1) by (simp_all add: catalog_inv_def)
  have wf: "wf_table sr_ID (db_series d)" and ids: "distinct (map sr_ID (rows (db_series d)))"
    using t by (simp_all add: tables_ok_def wf_table_def)
  have u: "sr_TvdbID x \<noteq> se_TvdbID s" "sr_Slug x \<noteq> se_Slug s" "sr_Path x \<noteq> se_Path s"
    if "x \<in> set (rows (db_series d))" "sr_ID x \<noteq> i" for x
    using assms(2) that by (auto simp: series_unique_def)
  have "distinct (map sr_TvdbID (rows (db_series ?d')))" "distinct (map sr_Slug (rows (db_series ?d')))"
    "distinct (map sr_Path (rows (db_series ?d')))"
    using t u f unfolding upd_rows_def
    by (auto simp: tables_ok_def simp del: map_map intro!: distinct_map_upd [OF _ ids])
  with t wf_upd_rows [OF wf f(1)] have "tables_ok ?d'" by (simp add: tables_ok_def)
  moreover have "has_series ?d' = has_series d"
    by (rule ext) (simp add: has_series_def tbl_upd_rows f(1))
  then have "refs_ok ?d'" using r by (simp add: refs_ok_def)
  ultimately show ?thesis using assms(1) by (simp add: catalog_inv_def shows_counts_def)
qed

lemma cascade_inv:
  assumes "catalog_inv S d"
  shows "catalog_inv (S - {i}) (cascade i d)"
proof -
  have t: "tables_ok d" and r: "refs_ok d" using assms by (simp_all add: catalog_inv_def)
  have wf: "wf_table sr_ID (db_series d)" using t by (simp add: tables_ok_def)
  have has: "has_series (cascade i d) j \<longleftrightarrow> has_series d j \<and> j \<noteq> i" for j
    using tbl_SomeD [of sr_ID "db_series d" j]
    by (auto simp: has_series_def cascade_def tbl_del_rows [OF wf] split: option.splits)
  have "tables_ok (cascade i d)"
    using t by (simp add: tables_ok_def cascade_def wf_del_rows) (simp add: del_rows_def distinct_map_filter)
  moreover have "refs_ok (cascade i d)"
    using r by (auto simp: refs_ok_def has) (auto simp: cascade_def del_rows_def)
  moreover have "counts (cascade i d) j = counts d j" if "j \<noteq> i" for j
    using that by (intro counts_cong) (auto simp: cascade_def del_rows_def intro!: filter_cong)
  ultimately show ?thesis
    using assms by (auto simp: catalog_inv_def shows_counts_def) (auto simp: cascade_def)
qed

subsection \<open>Every operation keeps the catalogue consistent\<close>

lemma publish_recompute:
  assumes "publishing (app_publish e) msg ev m d = (r, d')" "m d = (Inr out, d1)" "catalog_inv {i} d1"
    "has_series d1 i" "quiet e" "stats_reaction e (ev out) = sqliteStats_Recompute e i"
  shows "r = Inr out \<and> catalog_inv {} d' \<and> db_series d' = db_series d1 \<and> db_seasons d' = db_seasons d1
    \<and> db_episodes d' = db_episodes d1 \<and> db_files d' = db_files d1 \<and> db_quality_profiles d' = db_quality_profiles d1"
proof -
  from recompute_inv [OF assms(3-5)] obtain d2 where
    "sqliteStats_Recompute e i d1 = (Inr (), d2)" "catalog_inv {} d2" "db_series d2 = db_series d1"
    "db_seasons d2 = db_seasons d1" "db_episodes d2 = db_episodes d1" "db_files d2 = db_files d1"
    "db_quality_profiles d2 = db_quality_profiles d1"
    by auto
  with assms(1,2,6) show ?thesis
    by (auto simp: publishing_def act_defs app_publish_eq)
qed

lemma publish_nothing:
  assumes "stats_reaction e (ev out) = retA ()" "m d = (Inr out, d1)"
  shows "publishing (app_publish e) msg ev m d = (Inr out, d1)"
  using assms by (simp add: publishing_def act_defs app_publish_eq)

lemma publishing_fails: "m d = (Inl x, d1) \<Longrightarrow> publishing pub msg ev m d = (Inl x, d1)"
  by (simp add: publishing_def act_defs)

lemma stats_reaction_simps [simp]:
  "stats_reaction e (SeriesAdded a b c) = retA ()" "stats_reaction e (SeriesUpdated a b) = retA ()"
  "stats_reaction e (SeasonUpdated a b k) = retA ()"
  "stats_reaction e (SeriesDeleted a) = sqliteStats_Delete e a"
  "stats_reaction e (EpisodeAdded a i) = sqliteStats_Recompute e i"
  "stats_reaction e (EpisodeUpdated a i) = sqliteStats_Recompute e i"
  "stats_reaction e (EpisodeDeleted a i) = sqliteStats_Recompute e i"
  "stats_reaction e (EpisodeFileAdded a i z) = sqliteStats_Recompute e i"
  "stats_reaction e (EpisodeFileDeleted a i) = sqliteStats_Recompute e i"
  by (simp_all add: stats_reaction_def)

lemmas lib_stmt_defs = sqlite_CreateSeries_def sqlite_UpdateSeries_def sqlite_DeleteSeries_def
  sqlite_UpsertSeason_def sqlite_DeleteSeason_def sqlite_CreateEpisode_def sqlite_GetEpisode_def
  sqlite_UpdateEpisode_def sqlite_SetEpisodeMonitored_def sqlite_DeleteEpisode_def
  sqlite_CreateEpisodeFile_def sqlite_GetEpisodeFile_def sqlite_DeleteEpisodeFile_def

definition new_episode_row :: "dbenv \<Rightarrow> Episode \<Rightarrow> int \<Rightarrow> SqEpisode" where
  "new_episode_row e x i = \<lparr>sp_ID = i, sp_SeriesID = ep_SeriesID x, sp_SeasonNumber = ep_SeasonNumber x,
      sp_EpisodeNumber = ep_EpisodeNumber x, sp_AbsoluteEpisodeNumber = ep_AbsoluteEpisodeNumber x,
      sp_Title = ep_Title x, sp_Overview = ep_Overview x, sp_AirDateUtc = nullStringFromTimePtr (ep_AirDateUtc x),
      sp_Monitored = boolToInt64 (ep_Monitored x), sp_EpisodeFileID = ep_EpisodeFileID x,
      sp_CreatedAt = sqlite_format (env_now e), sp_UpdatedAt = sqlite_format (env_now e)\<rparr>"

lemma episodes_create_ok:
  assumes "catalog_inv {} d" "quiet e" "sqliteEpisodes_Create (app_publish e) e x d = (r, d')"
    and "episode_unique x d" "has_series d (ep_SeriesID x)"
  shows "r = Inr (episodeFromSqlite (new_episode_row e x (next_id (db_episodes d)))) \<and> catalog_inv {} d'
    \<and> db_series d' = db_series d \<and> db_seasons d' = db_seasons d \<and> db_quality_profiles d' = db_quality_profiles d
    \<and> db_episodes d' = snd (sql_insert (new_episode_row e x) (db_episodes d))"
proof -
  let ?mk = "new_episode_row e x"
  let ?d1 = "d\<lparr>db_episodes := snd (sql_insert ?mk (db_episodes d))\<rparr>"
  let ?out = "episodeFromSqlite (?mk (next_id (db_episodes d)))"
  have m: "SQLitePool_Write e (mapA episodeFromSqlite (wrapA ''library: create episode''
      (sqlite_CreateEpisode e x))) d = (Inr ?out, ?d1)"
    using assms(2,4,5) by (simp add: lib_stmt_defs act_defs lift_defs sql_insert_def new_episode_row_def)
  have "catalog_inv {ep_SeriesID x} ?d1"
    using insert_episode_inv [OF assms(1,4,5), of ?mk] by (simp add: new_episode_row_def episode_key_def)
  with publish_recompute [OF assms(3) [unfolded sqliteEpisodes_Create_def] m this _ assms(2)] assms(5)
  show ?thesis by (simp add: episodeFromSqlite_def new_episode_row_def)
qed

lemma episodes_create_inv:
  assumes "catalog_inv {} d" "quiet e" "sqliteEpisodes_Create (app_publish e) e x d = (r, d')"
  shows "catalog_inv {} d'"
proof (cases "episode_unique x d \<and> has_series d (ep_SeriesID x)")
  case True
  then show ?thesis using episodes_create_ok [OF assms] by simp
next
  case False
  with assms show ?thesis
    by (auto simp: sqliteEpisodes_Create_def lib_stmt_defs act_defs lift_defs publishing_def split: if_splits)
qed

lemma episodes_update_inv:
  assumes "catalog_inv {} d" "quiet e" "sqliteEpisodes_Update (app_publish e) e x d = (r, d')"
    and "tbl sp_ID (db_episodes d) (ep_ID x) = Some row" "sp_SeriesID row = ep_SeriesID x"
  shows "r = Inr () \<and> catalog_inv {} d' \<and> db_series d' = db_series d \<and> db_files d' = db_files d
    \<and> db_seasons d' = db_seasons d \<and> db_quality_profiles d' = db_quality_profiles d
    \<and> db_episodes d' = upd_rows (\<lambda>r. sp_ID r = ep_ID x) (\<lambda>r. r\<lparr>
        sp_AbsoluteEpisodeNumber := ep_AbsoluteEpisodeNumber x, sp_Title := ep_Title x,
        sp_Overview := ep_Overview x, sp_AirDateUtc := nullStringFromTimePtr (ep_AirDateUtc x),
        sp_Monitored := boolToInt64 (ep_Monitored x), sp_EpisodeFileID := ep_EpisodeFileID x,
        sp_UpdatedAt := sqlite_format (env_now e)\<rparr>) (db_episodes d)"
proof -
  define f :: "SqEpisode \<Rightarrow> SqEpisode" where "f = (\<lambda>r. r\<lparr>sp_AbsoluteEpisodeNumber := ep_AbsoluteEpisodeNumber x, sp_Title := ep_Title x,
        sp_Overview := ep_Overview x, sp_AirDateUtc := nullStringFromTimePtr (ep_AirDateUtc x),
        sp_Monitored := boolToInt64 (ep_Monitored x), sp_EpisodeFileID := ep_EpisodeFileID x,
        sp_UpdatedAt := sqlite_format (env_now e)\<rparr>)"
  let ?d1 = "d\<lparr>db_episodes := upd_rows (\<lambda>r. sp_ID r = ep_ID x) f (db_episodes d)\<rparr>"
  have wf: "wf_table sp_ID (db_episodes d)" and refs: "refs_ok d"
    using assms(1) by (simp_all add: catalog_inv_def tables_ok_def)
  have one: "sp_SeriesID r = ep_SeriesID x" if "r \<in> set (rows (db_episodes d))" "sp_ID r = ep_ID x" for r
    using tbl_unique [OF wf assms(4) that] assms(5) by simp
  have "catalog_inv {ep_SeriesID x} ?d1"
    using update_episode_inv [OF assms(1) one, where f = f] by (simp add: f_def episode_key_def)
  moreover have "has_series ?d1 (ep_SeriesID x)"
    using refs assms(4,5) by (force simp: refs_ok_def dest: tbl_SomeD)
  moreover have "wrapA ''library: update episode'' (SQLitePool_Write e (sqlite_UpdateEpisode e x)) d = (Inr (), ?d1)"
    using assms(2) by (simp add: lib_stmt_defs act_defs lift_defs sql_exec_def f_def)
  ultimately show ?thesis
    using publish_recompute [OF assms(3) [unfolded sqliteEpisodes_Update_def] _ _ _ assms(2)] by (simp add: f_def)
qed

text \<open>The lookup that \<open>SetMonitored\<close> and \<open>Delete\<close> start with.\<close>

lemma lookup_episode:
  "quiet e \<Longrightarrow> rowA none msg id (sqlite_GetEpisode e i) d
     = (case tbl sp_ID (db_episodes d) i of None \<Rightarrow> none | Some row \<Rightarrow> Inr row, d)"
  by (simp add: rowA_def sqlite_GetEpisode_def on_episodes_def sql_one_id split: option.split)

lemma lookup_file:
  "quiet e \<Longrightarrow> rowA none msg id (sqlite_GetEpisodeFile e i) d
     = (case tbl sf_ID (db_files d) i of None \<Rightarrow> none | Some row \<Rightarrow> Inr row, d)"
  by (simp add: rowA_def sqlite_GetEpisodeFile_def on_files_def sql_one_id split: option.split)

lemma episodes_set_monitored_inv:
  assumes "catalog_inv {} d" "quiet e" "sqliteEpisodes_SetMonitored (app_publish e) e i b d = (r, d')"
  shows "catalog_inv {} d' \<and> (case tbl sp_ID (db_episodes d) i of
      None \<Rightarrow> r = Inl (ErrNotFound ''library: not found'') \<and> d' = d
    | Some row \<Rightarrow> r = Inr () \<and> db_episodes d' = upd_rows (\<lambda>r. sp_ID r = i)
        (\<lambda>r. r\<lparr>sp_Monitored := boolToInt64 b, sp_UpdatedAt := sqlite_format (env_now e)\<rparr>) (db_episodes d))"
proof (cases "tbl sp_ID (db_episodes d) i")
  case None
  with assms show ?thesis
    by (simp add: sqliteEpisodes_SetMonitored_def bindA_def lookup_episode)
next
  case (Some row)
  define f :: "SqEpisode \<Rightarrow> SqEpisode" where
    "f = (\<lambda>r. r\<lparr>sp_Monitored := boolToInt64 b, sp_UpdatedAt := sqlite_format (env_now e)\<rparr>)"
  let ?d1 = "d\<lparr>db_episodes := upd_rows (\<lambda>r. sp_ID r = i) f (db_episodes d)\<rparr>"
  have wf: "wf_table sp_ID (db_episodes d)" and refs: "refs_ok d"
    using assms(1) by (simp_all add: catalog_inv_def tables_ok_def)
  have one: "sp_SeriesID r = sp_SeriesID row" if "r \<in> set (rows (db_episodes d))" "sp_ID r = i" for r
    using tbl_unique [OF wf Some that] by simp
  have ci: "catalog_inv {sp_SeriesID row} ?d1"
    using update_episode_inv [OF assms(1) one, where f = f] by (simp add: f_def episode_key_def)
  have hs: "has_series ?d1 (sp_SeriesID row)"
    using refs tbl_SomeD [OF Some] by (simp add: refs_ok_def)
  have m: "wrapA ''library: set monitored''
      (SQLitePool_Write e (sqlite_SetEpisodeMonitored e (boolToInt64 b) i)) d = (Inr (), ?d1)"
    using assms(2) by (simp add: lib_stmt_defs act_defs lift_defs sql_exec_def f_def)
  have pub: "publishing (app_publish e) ''library: publish EpisodeUpdated'' (\<lambda>_. EpisodeUpdated i (sp_SeriesID row))
      (wrapA ''library: set monitored'' (SQLitePool_Write e (sqlite_SetEpisodeMonitored e (boolToInt64 b) i))) d
      = (r, d')"
    using assms(2,3) Some by (simp add: sqliteEpisodes_SetMonitored_def bindA_def lookup_episode)
  have "r = Inr () \<and> catalog_inv {} d' \<and> db_episodes d' = db_episodes ?d1"
    using publish_recompute [OF pub m ci hs assms(2)] by simp
  then show ?thesis using Some by (simp add: f_def)
qed

lemma episodes_delete_inv:
  assumes "catalog_inv {} d" "quiet e" "sqliteEpisodes_Delete (app_publish e) e i d = (r, d')"
  shows "catalog_inv {} d'"
proof (cases "tbl sp_ID (db_episodes d) i")
  case None
  with assms show ?thesis by (simp add: sqliteEpisodes_Delete_def bindA_def lookup_episode)
next
  case (Some row)
  let ?d1 = "d\<lparr>db_episodes := del_rows (\<lambda>r. sp_ID r = i) (db_episodes d)\<rparr>"
  have wf: "wf_table sp_ID (db_episodes d)" and refs: "refs_ok d"
    using assms(1) by (simp_all add: catalog_inv_def tables_ok_def)
  have one: "sp_SeriesID r = sp_SeriesID row" if "r \<in> set (rows (db_episodes d))" "sp_ID r = i" for r
    using tbl_unique [OF wf Some that] by simp
  have ci: "catalog_inv {sp_SeriesID row} ?d1" using delete_episode_inv [OF assms(1) one] by simp
  have hs: "has_series ?d1 (sp_SeriesID row)" using refs tbl_SomeD [OF Some] by (simp add: refs_ok_def)
  have m: "wrapA ''library: delete episode'' (SQLitePool_Write e (sqlite_DeleteEpisode e i)) d = (Inr (), ?d1)"
    using assms(2) by (simp add: lib_stmt_defs act_defs lift_defs sql_delete_def)
  have pub: "publishing (app_publish e) ''library: publish EpisodeDeleted'' (\<lambda>_. EpisodeDeleted i (sp_SeriesID row))
      (wrapA ''library: delete episode'' (SQLitePool_Write e (sqlite_DeleteEpisode e i))) d = (r, d')"
    using assms(2,3) Some by (simp add: sqliteEpisodes_Delete_def bindA_def lookup_episode)
  show ?thesis using publish_recompute [OF pub m ci hs assms(2)] by simp
qed

definition new_file_row :: "dbenv \<Rightarrow> EpisodeFile \<Rightarrow> int \<Rightarrow> SqEpisodeFile" where
  "new_file_row e x i = \<lparr>sf_ID = i, sf_SeriesID = ef_SeriesID x, sf_SeasonNumber = ef_SeasonNumber x,
     sf_RelativePath = ef_RelativePath x, sf_Size = ef_Size x,
     sf_DateAdded = sqlite_format (env_now e), sf_ReleaseGroup = ef_ReleaseGroup x,
     sf_QualityName = ef_QualityName x, sf_CreatedAt = sqlite_format (env_now e),
     sf_UpdatedAt = sqlite_format (env_now e)\<rparr>"

lemma files_create_ok:
  assumes "catalog_inv {} d" "quiet e" "sqliteFiles_Create (app_publish e) e x d = (r, d')"
    and "has_series d (ef_SeriesID x)"
  shows "r = Inr (episodeFileFromSqlite (new_file_row e x (next_id (db_files d)))) \<and> catalog_inv {} d'
    \<and> db_series d' = db_series d \<and> db_episodes d' = db_episodes d
    \<and> db_files d' = snd (sql_insert (new_file_row e x) (db_files d))"
proof -
  let ?mk = "new_file_row e x"
  let ?d1 = "d\<lparr>db_files := snd (sql_insert ?mk (db_files d))\<rparr>"
  have m: "SQLitePool_Write e (mapA episodeFileFromSqlite (wrapA ''library: create episode file''
      (sqlite_CreateEpisodeFile e x))) d = (Inr (episodeFileFromSqlite (?mk (next_id (db_files d)))), ?d1)"
    using assms(2,4) by (simp add: lib_stmt_defs act_defs lift_defs sql_insert_def new_file_row_def)
  have "catalog_inv {ef_SeriesID x} ?d1"
    using insert_file_inv [OF assms(1,4), of ?mk] by (simp add: new_file_row_def)
  with publish_recompute [OF assms(3) [unfolded sqliteFiles_Create_def] m this _ assms(2)] assms(4)
  show ?thesis by (simp add: episodeFileFromSqlite_def new_file_row_def)
qed

lemma files_create_inv:
  assumes "catalog_inv {} d" "quiet e" "sqliteFiles_Create (app_publish e) e x d = (r, d')"
  shows "catalog_inv {} d'"
proof (cases "has_series d (ef_SeriesID x)")
  case True
  then show ?thesis using files_create_ok [OF assms] by blast
next
  case False
  with assms show ?thesis
    by (auto simp: sqliteFiles_Create_def lib_stmt_defs act_defs lift_defs publishing_def)
qed

lemma files_delete_inv:
  assumes "catalog_inv {} d" "quiet e" "sqliteFiles_Delete (app_publish e) e i d = (r, d')"
  shows "catalog_inv {} d' \<and> db_episodes d' = db_episodes d \<and> db_series d' = db_series d
    \<and> db_files d' = del_rows (\<lambda>r. sf_ID r = i) (db_files d)"
proof (cases "tbl sf_ID (db_files d) i")
  case None
  then have "del_rows (\<lambda>r. sf_ID r = i) (db_files d) = db_files d"
    by (simp add: tbl_def find_None_iff del_rows_def filter_id_conv)
  with None assms show ?thesis by (simp add: sqliteFiles_Delete_def bindA_def lookup_file)
next
  case (Some row)
  let ?d1 = "d\<lparr>db_files := del_rows (\<lambda>r. sf_ID r = i) (db_files d)\<rparr>"
  have wf: "wf_table sf_ID (db_files d)" and refs: "refs_ok d"
    using assms(1) by (simp_all add: catalog_inv_def tables_ok_def)
  have one: "sf_SeriesID r = sf_SeriesID row" if "r \<in> set (rows (db_files d))" "sf_ID r = i" for r
    using tbl_unique [OF wf Some that] by simp
  have ci: "catalog_inv {sf_SeriesID row} ?d1" using delete_file_inv [OF assms(1) one] by simp
  have hs: "has_series ?d1 (sf_SeriesID row)" using refs tbl_SomeD [OF Some] by (simp add: refs_ok_def)
  have m: "wrapA ''library: delete episode file'' (SQLitePool_Write e (sqlite_DeleteEpisodeFile e i)) d
      = (Inr (), ?d1)"
    using assms(2) by (simp add: lib_stmt_defs act_defs lift_defs sql_delete_def)
  have pub: "publishing (app_publish e) ''library: publish EpisodeFileDeleted''
      (\<lambda>_. EpisodeFileDeleted i (sf_SeriesID row))
      (wrapA ''library: delete episode file'' (SQLitePool_Write e (sqlite_DeleteEpisodeFile e i))) d = (r, d')"
    using assms(2,3) Some by (simp add: sqliteFiles_Delete_def bindA_def lookup_file)
  have "catalog_inv {} d' \<and> db_episodes d' = db_episodes ?d1 \<and> db_series d' = db_series ?d1
      \<and> db_files d' = db_files ?d1"
    using publish_recompute [OF pub m ci hs assms(2)] by simp
  then show ?thesis by simp
qed

lemma series_create_inv:
  assumes "catalog_inv {} d" "quiet e" "sqliteSeries_Create (app_publish e) e s d = (r, d')"
  shows "catalog_inv {} d'"
proof (cases "series_unique None s d \<and> qp_exists (qp_param (se_QualityProfileID s)) d")
  case True
  define mk where "mk = (\<lambda>i. \<lparr>sr_ID = i, sr_TvdbID = se_TvdbID s, sr_Title = se_Title s, sr_Slug = se_Slug s,
            sr_Status = se_Status s, sr_SeriesType = se_SeriesType s, sr_Path = se_Path s,
            sr_Monitored = boolToInt64 (se_Monitored s), sr_Added = sqlite_format (env_now e),
            sr_CreatedAt = sqlite_format (env_now e), sr_UpdatedAt = sqlite_format (env_now e),
            sr_QualityProfileID = qp_param (se_QualityProfileID s),
            sr_SeasonFolder = boolToInt64 (se_SeasonFolder s),
            sr_MonitorNewItems = monitor_new_items s\<rparr>)"
  have "sqliteSeries_Create (app_publish e) e s d =
      (Inr (seriesFromSqlite (mk (next_id (db_series d)))), d\<lparr>db_series := snd (sql_insert mk (db_series d))\<rparr>)"
    unfolding sqliteSeries_Create_def
    by (rule publish_nothing)
      (use True assms(2) in \<open>simp_all add: lib_stmt_defs act_defs lift_defs sql_insert_def mk_def\<close>)
  with assms(3) insert_series_inv [OF assms(1), of s mk] True show ?thesis by (simp add: mk_def)
next
  case False
  with assms show ?thesis
    by (auto simp: sqliteSeries_Create_def lib_stmt_defs act_defs lift_defs publishing_def split: if_splits)
qed

definition series_set :: "dbenv \<Rightarrow> Series \<Rightarrow> SqSeries \<Rightarrow> SqSeries" where
  "series_set e s r = r\<lparr>sr_TvdbID := se_TvdbID s, sr_Title := se_Title s,
            sr_Slug := se_Slug s, sr_Status := se_Status s, sr_SeriesType := se_SeriesType s, sr_Path := se_Path s,
            sr_Monitored := boolToInt64 (se_Monitored s),
            sr_QualityProfileID := qp_param (se_QualityProfileID s),
            sr_SeasonFolder := boolToInt64 (se_SeasonFolder s),
            sr_MonitorNewItems := monitor_new_items s,
            sr_UpdatedAt := sqlite_format (env_now e)\<rparr>"

lemma series_update_ok:
  assumes "catalog_inv {} d" "quiet e" "has_series d (se_ID s)" "series_unique (Some (se_ID s)) s d"
    and "qp_exists (qp_param (se_QualityProfileID s)) d"
  shows "sqliteSeries_Update (app_publish e) e s d =
      (Inr (), d\<lparr>db_series := upd_rows (\<lambda>r. sr_ID r = se_ID s) (series_set e s) (db_series d)\<rparr>)
    \<and> catalog_inv {} (d\<lparr>db_series := upd_rows (\<lambda>r. sr_ID r = se_ID s) (series_set e s) (db_series d)\<rparr>)"
proof
  show "sqliteSeries_Update (app_publish e) e s d =
      (Inr (), d\<lparr>db_series := upd_rows (\<lambda>r. sr_ID r = se_ID s) (series_set e s) (db_series d)\<rparr>)"
    unfolding sqliteSeries_Update_def
    by (rule publish_nothing)
      (use assms in \<open>simp_all add: lib_stmt_defs act_defs lift_defs sql_exec_def series_set_def [abs_def]\<close>)
  show "catalog_inv {} (d\<lparr>db_series := upd_rows (\<lambda>r. sr_ID r = se_ID s) (series_set e s) (db_series d)\<rparr>)"
    using update_series_inv [OF assms(1), of "se_ID s" s "series_set e s"] assms(4) by (simp add: series_set_def)
qed

lemma series_update_inv:
  assumes "catalog_inv {} d" "quiet e" "sqliteSeries_Update (app_publish e) e s d = (r, d')"
  shows "catalog_inv {} d'"
proof (cases "has_series d (se_ID s) \<and> series_unique (Some (se_ID s)) s d
    \<and> qp_exists (qp_param (se_QualityProfileID s)) d")
  case True
  then show ?thesis using series_update_ok [OF assms(1,2), of s] assms(3) by simp
next
  case False
  with assms show ?thesis
    by (auto simp: sqliteSeries_Update_def lib_stmt_defs act_defs lift_defs publishing_def app_publish_eq
        split: if_splits)
qed

lemma series_delete_inv:
  assumes "catalog_inv {} d" "quiet e" "sqliteSeries_Delete (app_publish e) e i d = (r, d')"
  shows "catalog_inv {} d'"
proof -
  let ?d1 = "if has_series d i then cascade i d else d"
  have d1: "catalog_inv {} ?d1" using assms(1) cascade_inv [OF assms(1), of i] by simp
  have "d' = ?d1\<lparr>db_stats := filter (\<lambda>r. st_SeriesID r \<noteq> i) (db_stats ?d1)\<rparr>" (is "_ = ?d2")
    using assms(2,3)
    by (auto simp: sqliteSeries_Delete_def lib_stmt_defs act_defs publishing_def app_publish_eq
        sqliteStats_Delete_def sqlite_DeleteSeriesStatistics_def)
  moreover have "counts ?d2 = counts ?d1" by (simp add: counts_def fun_eq_iff Let_def)
  ultimately show ?thesis
    using d1 by (simp add: catalog_inv_def tables_ok_def refs_ok_def shows_counts_def distinct_map_filter
        del: if_split)
qed

lemma seasons_upsert_ok:
  assumes "quiet e" "has_series d (sea_SeriesID s)" "sqliteSeasons_Upsert (app_publish e) e s d = (r, d')"
  shows "d' = d\<lparr>db_seasons := db_seasons d'\<rparr> \<and>
    db_seasons d' = (if \<exists>r\<in>set (db_seasons d). sn_SeriesID r = sea_SeriesID s \<and> sn_SeasonNumber r = sea_SeasonNumber s
      then map (\<lambda>r. if sn_SeriesID r = sea_SeriesID s \<and> sn_SeasonNumber r = sea_SeasonNumber s
        then r\<lparr>sn_Monitored := boolToInt64 (sea_Monitored s)\<rparr> else r) (db_seasons d)
      else db_seasons d @ [\<lparr>sn_SeriesID = sea_SeriesID s, sn_SeasonNumber = sea_SeasonNumber s,
        sn_Monitored = boolToInt64 (sea_Monitored s)\<rparr>])"
  using assms
  by (auto simp: sqliteSeasons_Upsert_def lib_stmt_defs act_defs publishing_def app_publish_eq require_def split: if_splits)

lemma seasons_inv:
  assumes "catalog_inv {} d" "quiet e"
  shows "sqliteSeasons_Upsert (app_publish e) e s d = (r, d') \<Longrightarrow> catalog_inv {} d'"
    and "sqliteSeasons_Delete e i n d = (r, d') \<Longrightarrow> catalog_inv {} d'"
proof -
  have same: "catalog_inv {} (d\<lparr>db_seasons := v\<rparr>)"
    if "\<And>r. r \<in> set v \<Longrightarrow> has_series d (sn_SeriesID r)"
      "distinct (map (\<lambda>r. (sn_SeriesID r, sn_SeasonNumber r)) v)" for v
    using assms(1) that
    by (auto simp: catalog_inv_def tables_ok_def refs_ok_def shows_counts_def)
  have t: "tables_ok d" "refs_ok d" using assms(1) by (simp_all add: catalog_inv_def)
  have keys: "map (\<lambda>r. (sn_SeriesID r, sn_SeasonNumber r)) (map (\<lambda>r. if p r then r\<lparr>sn_Monitored := m\<rparr> else r) xs)
      = map (\<lambda>r. (sn_SeriesID r, sn_SeasonNumber r)) xs" for p m and xs :: "SqSeason list" by simp
  show "catalog_inv {} d'" if up: "sqliteSeasons_Upsert (app_publish e) e s d = (r, d')"
  proof (cases "(\<exists>r\<in>set (db_seasons d). sn_SeriesID r = sea_SeriesID s \<and> sn_SeasonNumber r = sea_SeasonNumber s)
      \<or> has_series d (sea_SeriesID s)")
    case True
    define k :: "SqSeason \<Rightarrow> bool" where "k = (\<lambda>r. sn_SeriesID r = sea_SeriesID s \<and> sn_SeasonNumber r = sea_SeasonNumber s)"
    define v where "v = (if \<exists>r\<in>set (db_seasons d). k r
        then map (\<lambda>r. if k r then r\<lparr>sn_Monitored := boolToInt64 (sea_Monitored s)\<rparr> else r) (db_seasons d)
        else db_seasons d @ [\<lparr>sn_SeriesID = sea_SeriesID s, sn_SeasonNumber = sea_SeasonNumber s,
          sn_Monitored = boolToInt64 (sea_Monitored s)\<rparr>])"
    have "d' = d\<lparr>db_seasons := v\<rparr>"
      using up assms(2) True
      by (auto simp: sqliteSeasons_Upsert_def lib_stmt_defs act_defs publishing_def app_publish_eq require_def
          v_def k_def split: if_splits)
    moreover have "\<forall>r\<in>set v. has_series d (sn_SeriesID r)"
      using t(2) True by (auto simp: v_def k_def refs_ok_def)
    moreover have "distinct (map (\<lambda>r. (sn_SeriesID r, sn_SeasonNumber r)) v)"
      using t(1) keys by (auto simp: v_def k_def tables_ok_def simp del: map_map)
    ultimately show ?thesis using same by blast
  next
    case False
    then show ?thesis using up assms
      by (auto simp: sqliteSeasons_Upsert_def lib_stmt_defs act_defs publishing_def require_def split: if_splits)
  qed
  show "catalog_inv {} d'" if "sqliteSeasons_Delete e i n d = (r, d')"
    using that assms(2) t
    by (auto simp: sqliteSeasons_Delete_def lib_stmt_defs act_defs refs_ok_def tables_ok_def distinct_map_filter
        intro!: same)
qed

text \<open>The writing operations of the five stores, wired to the bus of the application. An episode is
  updated under the series it belongs to, as the callers do: they pass back what they read.\<close>

inductive catalog_step :: "library_db \<Rightarrow> library_db \<Rightarrow> bool" where
  Series_Create: "\<lbrakk>quiet e; sqliteSeries_Create (app_publish e) e s d = (r, d')\<rbrakk> \<Longrightarrow> catalog_step d d'"
| Series_Update: "\<lbrakk>quiet e; sqliteSeries_Update (app_publish e) e s d = (u, d')\<rbrakk> \<Longrightarrow> catalog_step d d'"
| Series_Delete: "\<lbrakk>quiet e; sqliteSeries_Delete (app_publish e) e i d = (u, d')\<rbrakk> \<Longrightarrow> catalog_step d d'"
| Seasons_Upsert: "\<lbrakk>quiet e; sqliteSeasons_Upsert (app_publish e) e sn d = (u, d')\<rbrakk> \<Longrightarrow> catalog_step d d'"
| Seasons_Delete: "\<lbrakk>quiet e; sqliteSeasons_Delete e i n d = (u, d')\<rbrakk> \<Longrightarrow> catalog_step d d'"
| Episodes_Create: "\<lbrakk>quiet e; sqliteEpisodes_Create (app_publish e) e x d = (rx, d')\<rbrakk> \<Longrightarrow> catalog_step d d'"
| Episodes_Update: "\<lbrakk>quiet e; tbl sp_ID (db_episodes d) (ep_ID x) = Some row; sp_SeriesID row = ep_SeriesID x;
     sqliteEpisodes_Update (app_publish e) e x d = (u, d')\<rbrakk> \<Longrightarrow> catalog_step d d'"
| Episodes_SetMonitored: "\<lbrakk>quiet e; sqliteEpisodes_SetMonitored (app_publish e) e i b d = (u, d')\<rbrakk> \<Longrightarrow>
     catalog_step d d'"
| Episodes_Delete: "\<lbrakk>quiet e; sqliteEpisodes_Delete (app_publish e) e i d = (u, d')\<rbrakk> \<Longrightarrow> catalog_step d d'"
| Files_Create: "\<lbrakk>quiet e; sqliteFiles_Create (app_publish e) e f d = (rf, d')\<rbrakk> \<Longrightarrow> catalog_step d d'"
| Files_Delete: "\<lbrakk>quiet e; sqliteFiles_Delete (app_publish e) e i d = (u, d')\<rbrakk> \<Longrightarrow> catalog_step d d'"

definition empty_library :: "int list \<Rightarrow> library_db" where
  "empty_library profiles = \<lparr>db_series = empty_table, db_seasons = [], db_episodes = empty_table,
     db_files = empty_table, db_stats = [], db_quality_profiles = profiles\<rparr>"

lemma empty_library_inv: "catalog_inv {} (empty_library profiles)"
  by (simp add: catalog_inv_def tables_ok_def refs_ok_def empty_library_def) (simp add: empty_table_def)

lemma catalog_step_inv: "catalog_step d d' \<Longrightarrow> catalog_inv {} d \<Longrightarrow> catalog_inv {} d'"
proof (induction rule: catalog_step.induct)
  case (Episodes_SetMonitored e i b d u d')
  then show ?case using episodes_set_monitored_inv by blast
next
  case (Files_Delete e i d u d')
  then show ?case using files_delete_inv by blast
next
  case (Episodes_Update e d x row u d')
  then show ?case using episodes_update_inv by blast
qed (blast intro: series_create_inv series_update_inv series_delete_inv seasons_inv episodes_create_inv
    episodes_delete_inv files_create_inv)+

text \<open>The rule of monitor_mode.go runs over the SQLite episode store.\<close>

definition sqlite_sink :: "dbenv \<Rightarrow> library_db MonitorSink" where
  "sqlite_sink e = \<lparr>ms_ListForSeries = sqliteEpisodes_ListForSeries e,
     ms_SetMonitored = sqliteEpisodes_SetMonitored (app_publish e) e\<rparr>"

definition episode_view :: "library_db \<Rightarrow> int \<Rightarrow> Episode option" where
  "episode_view d i = map_option episodeFromSqlite (tbl sp_ID (db_episodes d) i)"

lemma episodes_wf: "catalog_inv S d \<Longrightarrow> wf_table sp_ID (db_episodes d)"
  by (simp add: catalog_inv_def tables_ok_def)

lemma ep_ID_from [simp]: "ep_ID (episodeFromSqlite r) = sp_ID r" "ep_SeriesID (episodeFromSqlite r) = sp_SeriesID r"
  by (simp_all add: episodeFromSqlite_def)

lemma sink_list:
  assumes "catalog_inv {} d" "quiet e"
  shows "\<exists>eps. sqliteEpisodes_ListForSeries e i d = (Inr eps, d) \<and> distinct (map ep_ID eps) \<and>
    (\<forall>x. x \<in> set eps \<longleftrightarrow> episode_view d (ep_ID x) = Some x \<and> ep_SeriesID x = i)"
proof -
  define rs where "rs = sort_key (\<lambda>r. (sp_SeasonNumber r, sp_EpisodeNumber r))
      (filter (\<lambda>r. sp_SeriesID r = i) (rows (db_episodes d)))"
  note wf = episodes_wf [OF assms(1)]
  have run: "sqliteEpisodes_ListForSeries e i d = (Inr (map episodeFromSqlite rs), d)"
    using assms(2) by (simp add: sqliteEpisodes_ListForSeries_def sqlite_ListEpisodesForSeries_def act_defs
        lift_defs sql_many_def rs_def)
  have "distinct (map sp_ID (filter (\<lambda>r. sp_SeriesID r = i) (rows (db_episodes d))))"
    using wf by (simp add: wf_table_def distinct_map_filter)
  then have "distinct (map sp_ID rs)"
    by (simp add: rs_def distinct_map)
  moreover have "map ep_ID (map episodeFromSqlite rs) = map sp_ID rs" by simp
  moreover have "x \<in> set (map episodeFromSqlite rs) \<longleftrightarrow> episode_view d (ep_ID x) = Some x \<and> ep_SeriesID x = i" for x
    using tbl_Some_iff [OF wf] by (auto simp: rs_def episode_view_def)
  ultimately show ?thesis using run by metis
qed

interpretation sink: monitor_sink "sqlite_sink e" "\<lambda>d. catalog_inv {} d \<and> quiet e" episode_view for e
proof (unfold_locales, goal_cases)
  case (1 d i r d')
  then show ?case using sink_list [of d e i] by (auto simp: sqlite_sink_def)
next
  case (2 d i x b u d')
  from 2(2) obtain row where row: "tbl sp_ID (db_episodes d) i = Some row" "x = episodeFromSqlite row"
    by (auto simp: episode_view_def)
  let ?f = "\<lambda>r. r\<lparr>sp_Monitored := boolToInt64 b, sp_UpdatedAt := sqlite_format (env_now e)\<rparr>"
  have s: "catalog_inv {} d'" "u = Inr ()" "db_episodes d' = upd_rows (\<lambda>r. sp_ID r = i) ?f (db_episodes d)"
    using episodes_set_monitored_inv [of d e i b u d'] 2 row by (simp_all add: sqlite_sink_def)
  have view: "episode_view d' j = map_option (\<lambda>r. episodeFromSqlite (if sp_ID r = i then ?f r else r))
      (tbl sp_ID (db_episodes d) j)" for j
    unfolding episode_view_def s(3) by (simp add: tbl_upd_rows option.map_comp o_def)
  have "episode_view d' i = Some (x\<lparr>ep_Monitored := b, ep_UpdatedAt := parseSqliteTime (sqlite_format (env_now e))\<rparr>)"
    unfolding view using row tbl_SomeD [OF row(1)] by (simp add: episodeFromSqlite_def boolToInt64_def)
  moreover have "episode_view d' j = episode_view d j" if "j \<noteq> i" for j
    unfolding view using that by (auto simp: episode_view_def dest: tbl_SomeD intro!: option.map_cong)
  ultimately show ?case using s(1,2) 2(1) by blast
qed

subsection \<open>Properties of the catalogue\<close>


definition example_series :: Series where
  "example_series = \<lparr>se_ID = 0, se_TvdbID = 81189, se_Title = ''Breaking Bad'', se_Slug = ''breaking-bad'',
     se_Status = ''ended'', se_SeriesType = ''standard'', se_Path = ''/tv/Breaking Bad'', se_Monitored = True,
     se_QualityProfileID = 1, se_SeasonFolder = True, se_MonitorNewItems = '''', se_Added = 0,
     se_CreatedAt = 0, se_UpdatedAt = 0\<rparr>"

definition example_new_episode :: Episode where
  "example_new_episode = \<lparr>ep_ID = 0, ep_SeriesID = 1, ep_SeasonNumber = 1, ep_EpisodeNumber = 1,
     ep_AbsoluteEpisodeNumber = None, ep_Title = ''Pilot'', ep_Overview = '''', ep_AirDateUtc = None,
     ep_Monitored = True, ep_EpisodeFileID = None, ep_CreatedAt = 0, ep_UpdatedAt = 0\<rparr>"

definition example_with_series :: library_db where
  "example_with_series = snd (sqliteSeries_Create (app_publish (quiet_at 0)) (quiet_at 0) example_series (empty_library [1]))"

definition example_with_episode :: library_db where
  "example_with_episode = snd (sqliteEpisodes_Create (app_publish (quiet_at 0)) (quiet_at 0) example_new_episode
     example_with_series)"

lemma example_reachable: "catalog_step\<^sup>*\<^sup>* (empty_library [1]) example_with_episode"
proof -
  have "catalog_step (empty_library [1]) example_with_series" "catalog_step example_with_series example_with_episode"
    unfolding example_with_series_def example_with_episode_def
    using catalog_step.Series_Create [OF quiet_quiet_at(1) prod.collapse [symmetric]]
      catalog_step.Episodes_Create [OF quiet_quiet_at(1) prod.collapse [symmetric]] by blast+
  then show ?thesis by (meson converse_rtranclp_into_rtranclp rtranclp.rtrancl_refl)
qed

lemmas example_simps = example_with_episode_def example_with_series_def example_series_def example_new_episode_def
  sqliteSeries_Create_def sqliteEpisodes_Create_def lib_stmt_defs act_defs lift_defs sql_insert_def
  publishing_def app_publish_eq empty_library_def empty_table_def series_unique_def qp_exists_def qp_param_def
  episode_unique_def has_series_def tbl_def seriesFromSqlite_def episodeFromSqlite_def
  sqliteStats_Recompute_def derive_quiet sqlite_UpsertSeriesStatistics_def Let_def counts_def
  boolToInt64_def wrap32_def

lemma example_stats:
  "map (\<lambda>r. (st_SeriesID r, st_EpisodeCount r, st_MonitoredEpisodeCount r)) (db_stats example_with_episode) = [(1, 1, 1)]"
  by (simp add: example_simps)




end
