(* ===== verification/History.thy ===== *)
theory History
  imports Sqlite_Time Postgres_Types
begin

section \<open>The history of grabs and imports\<close>

text \<open>
  internal/history: the entries, the store interface, and its SQLite and Postgres
  implementations over the statements of internal/db/gen and the table of migration 00014, which
  has no constraint but its key. The locale \<open>history_store\<close> states what a store promises in
  terms of the entries a reader finds.
\<close>

subsection \<open>history.go\<close>

definition EventGrabbed :: string where "EventGrabbed = ''grabbed''"
definition EventDownloadImported :: string where "EventDownloadImported = ''downloadImported''"
definition EventDownloadFailed :: string where "EventDownloadFailed = ''downloadFailed''"
definition EventEpisodeRenamed :: string where "EventEpisodeRenamed = ''episodeRenamed''"
definition EventEpisodeDeleted :: string where "EventEpisodeDeleted = ''episodeFileDeleted''"

record Entry =
  he_ID :: int
  he_EpisodeID :: int
  he_SeriesID :: int
  he_SourceTitle :: string
  he_QualityName :: string
  he_EventType :: string
  he_Date :: int
  he_DownloadID :: string
  he_Data :: RawMessage

record 's HistoryStore =
  hs_Create :: "dbenv \<Rightarrow> Entry \<Rightarrow> ('s, Entry) act"
  hs_ListForSeries :: "dbenv \<Rightarrow> int \<Rightarrow> ('s, Entry list) act"
  hs_ListForEpisode :: "dbenv \<Rightarrow> int \<Rightarrow> ('s, Entry list) act"
  hs_FindByDownloadID :: "dbenv \<Rightarrow> string \<Rightarrow> ('s, Entry list) act"
  hs_DeleteForSeries :: "dbenv \<Rightarrow> int \<Rightarrow> ('s, unit) act"
  hs_ListAll :: "dbenv \<Rightarrow> ('s, Entry list) act"
  hs_DeleteBefore :: "dbenv \<Rightarrow> int \<Rightarrow> ('s, int) act"

subsection \<open>The SQLite store\<close>

record SqHistory =
  hq_ID :: int
  hq_EpisodeID :: int
  hq_SeriesID :: int
  hq_SourceTitle :: string
  hq_QualityName :: string
  hq_EventType :: string
  hq_Date :: int
  hq_DownloadID :: string
  hq_Data :: string

text \<open>An empty or nil message is stored, and an empty text read, as an empty object.\<close>

definition historyDataSQLite :: "RawMessage \<Rightarrow> string" where
  "historyDataSQLite d = (if bytes_of d = [] then ''{}'' else bytes_of d)"

definition historyFromSQLite :: "SqHistory \<Rightarrow> Entry" where
  "historyFromSQLite r = \<lparr>
     he_ID = hq_ID r, he_EpisodeID = hq_EpisodeID r, he_SeriesID = hq_SeriesID r,
     he_SourceTitle = hq_SourceTitle r, he_QualityName = hq_QualityName r, he_EventType = hq_EventType r,
     he_Date = parseSqliteTime (hq_Date r), he_DownloadID = hq_DownloadID r,
     he_Data = Some (if hq_Data r = [] then ''{}'' else hq_Data r)\<rparr>"

definition sqlite_CreateHistoryEntry :: "dbenv \<Rightarrow> Entry \<Rightarrow> string \<Rightarrow> (SqHistory table, SqHistory) act" where
  "sqlite_CreateHistoryEntry e x data = stmt e ''CreateHistoryEntry'' (sql_insert (\<lambda>i. \<lparr>
     hq_ID = i, hq_EpisodeID = he_EpisodeID x, hq_SeriesID = he_SeriesID x,
     hq_SourceTitle = he_SourceTitle x, hq_QualityName = he_QualityName x, hq_EventType = he_EventType x,
     hq_Date = sqlite_format (env_now e), hq_DownloadID = he_DownloadID x, hq_Data = data\<rparr>))"

definition sqlite_ListForSeries :: "dbenv \<Rightarrow> int \<Rightarrow> (SqHistory table, SqHistory list) act" where
  "sqlite_ListForSeries e i = stmt e ''ListForSeries'' (sql_many (\<lambda>r. hq_SeriesID r = i) (\<lambda>r. - hq_Date r))"

definition sqlite_ListForEpisode :: "dbenv \<Rightarrow> int \<Rightarrow> (SqHistory table, SqHistory list) act" where
  "sqlite_ListForEpisode e i = stmt e ''ListForEpisode'' (sql_many (\<lambda>r. hq_EpisodeID r = i) (\<lambda>r. - hq_Date r))"

definition sqlite_FindByDownloadID :: "dbenv \<Rightarrow> string \<Rightarrow> (SqHistory table, SqHistory list) act" where
  "sqlite_FindByDownloadID e x = stmt e ''FindByDownloadID'' (sql_many (\<lambda>r. hq_DownloadID r = x) (\<lambda>r. - hq_Date r))"

definition sqlite_DeleteForSeries :: "dbenv \<Rightarrow> int \<Rightarrow> (SqHistory table, unit) act" where
  "sqlite_DeleteForSeries e i = stmt e ''DeleteForSeries'' (sql_delete (\<lambda>r. hq_SeriesID r = i))"

definition sqliteHistory_Create :: "dbenv \<Rightarrow> Entry \<Rightarrow> (SqHistory table, Entry) act" where
  "sqliteHistory_Create e x = SQLitePool_Write e (mapA historyFromSQLite
     (wrapA ''history: create'' (sqlite_CreateHistoryEntry e x (historyDataSQLite (he_Data x)))))"

definition sqliteHistory_ListForSeries :: "dbenv \<Rightarrow> int \<Rightarrow> (SqHistory table, Entry list) act" where
  "sqliteHistory_ListForSeries e i =
     mapA (map historyFromSQLite) (wrapA ''history: list for series'' (sqlite_ListForSeries e i))"

definition sqliteHistory_ListForEpisode :: "dbenv \<Rightarrow> int \<Rightarrow> (SqHistory table, Entry list) act" where
  "sqliteHistory_ListForEpisode e i =
     mapA (map historyFromSQLite) (wrapA ''history: list for episode'' (sqlite_ListForEpisode e i))"

definition sqliteHistory_FindByDownloadID :: "dbenv \<Rightarrow> string \<Rightarrow> (SqHistory table, Entry list) act" where
  "sqliteHistory_FindByDownloadID e x =
     mapA (map historyFromSQLite) (wrapA ''history: find by download id'' (sqlite_FindByDownloadID e x))"

definition sqliteHistory_DeleteForSeries :: "dbenv \<Rightarrow> int \<Rightarrow> (SqHistory table, unit) act" where
  "sqliteHistory_DeleteForSeries e i =
     wrapA ''history: delete for series'' (SQLitePool_Write e (sqlite_DeleteForSeries e i))"

definition sqliteHistory_ListAll :: "dbenv \<Rightarrow> (SqHistory table, Entry list) act" where
  "sqliteHistory_ListAll e = mapA (map historyFromSQLite) (wrapA ''history: list all''
     (stmt e ''ListAll'' (sql_many (\<lambda>_. True) (\<lambda>r. - hq_Date r))))"

definition sqliteHistory_DeleteBefore :: "dbenv \<Rightarrow> int \<Rightarrow> (SqHistory table, int) act" where
  "sqliteHistory_DeleteBefore e before = SQLitePool_Write e (wrapA ''history: delete before''
     (stmt e ''DeleteBefore'' (sql_deleterows (\<lambda>r. hq_Date r < sqlite_format before))))"

definition sqliteHistory :: "SqHistory table HistoryStore" where
  "sqliteHistory = \<lparr>hs_Create = sqliteHistory_Create, hs_ListForSeries = sqliteHistory_ListForSeries,
     hs_ListForEpisode = sqliteHistory_ListForEpisode, hs_FindByDownloadID = sqliteHistory_FindByDownloadID,
     hs_DeleteForSeries = sqliteHistory_DeleteForSeries, hs_ListAll = sqliteHistory_ListAll,
     hs_DeleteBefore = sqliteHistory_DeleteBefore\<rparr>"

subsection \<open>The Postgres store\<close>

record PgHistory =
  hp_ID :: int
  hp_EpisodeID :: int
  hp_SeriesID :: int
  hp_SourceTitle :: string
  hp_QualityName :: string
  hp_EventType :: string
  hp_Date :: int
  hp_DownloadID :: string
  hp_Data :: string

definition historyDataPostgres :: "RawMessage \<Rightarrow> RawMessage" where
  "historyDataPostgres d = (if bytes_of d = [] then Some ''{}'' else d)"

definition historyFromPostgres :: "PgHistory \<Rightarrow> Entry" where
  "historyFromPostgres r = \<lparr>
     he_ID = hp_ID r, he_EpisodeID = hp_EpisodeID r, he_SeriesID = hp_SeriesID r,
     he_SourceTitle = hp_SourceTitle r, he_QualityName = hp_QualityName r, he_EventType = hp_EventType r,
     he_Date = pg_time (hp_Date r), he_DownloadID = hp_DownloadID r,
     he_Data = Some (if hp_Data r = [] then ''{}'' else hp_Data r)\<rparr>"

definition postgres_CreateHistoryEntry ::
  "jsonb_input \<Rightarrow> dbenv \<Rightarrow> Entry \<Rightarrow> RawMessage \<Rightarrow> (PgHistory table, PgHistory) act" where
  "postgres_CreateHistoryEntry jsonb e x data = stmt e ''CreateHistoryEntry'' (case jsonb_param jsonb data of
     Inl err \<Rightarrow> failA err
   | Inr v \<Rightarrow> sql_insert (\<lambda>i. \<lparr>
       hp_ID = i, hp_EpisodeID = he_EpisodeID x, hp_SeriesID = he_SeriesID x,
       hp_SourceTitle = he_SourceTitle x, hp_QualityName = he_QualityName x, hp_EventType = he_EventType x,
       hp_Date = pg_micros (env_now e), hp_DownloadID = he_DownloadID x, hp_Data = v\<rparr>))"

definition postgres_ListForSeries :: "dbenv \<Rightarrow> int \<Rightarrow> (PgHistory table, PgHistory list) act" where
  "postgres_ListForSeries e i = stmt e ''ListForSeries'' (sql_many (\<lambda>r. hp_SeriesID r = i) (\<lambda>r. - hp_Date r))"

definition postgres_ListForEpisode :: "dbenv \<Rightarrow> int \<Rightarrow> (PgHistory table, PgHistory list) act" where
  "postgres_ListForEpisode e i = stmt e ''ListForEpisode'' (sql_many (\<lambda>r. hp_EpisodeID r = i) (\<lambda>r. - hp_Date r))"

definition postgres_FindByDownloadID :: "dbenv \<Rightarrow> string \<Rightarrow> (PgHistory table, PgHistory list) act" where
  "postgres_FindByDownloadID e x = stmt e ''FindByDownloadID'' (sql_many (\<lambda>r. hp_DownloadID r = x) (\<lambda>r. - hp_Date r))"

definition postgres_DeleteForSeries :: "dbenv \<Rightarrow> int \<Rightarrow> (PgHistory table, unit) act" where
  "postgres_DeleteForSeries e i = stmt e ''DeleteForSeries'' (sql_delete (\<lambda>r. hp_SeriesID r = i))"

definition postgresHistory_Create :: "jsonb_input \<Rightarrow> dbenv \<Rightarrow> Entry \<Rightarrow> (PgHistory table, Entry) act" where
  "postgresHistory_Create jsonb e x = mapA historyFromPostgres
     (wrapA ''history: create'' (postgres_CreateHistoryEntry jsonb e x (historyDataPostgres (he_Data x))))"

definition postgresHistory_ListForSeries :: "dbenv \<Rightarrow> int \<Rightarrow> (PgHistory table, Entry list) act" where
  "postgresHistory_ListForSeries e i =
     mapA (map historyFromPostgres) (wrapA ''history: list for series'' (postgres_ListForSeries e i))"

definition postgresHistory_ListForEpisode :: "dbenv \<Rightarrow> int \<Rightarrow> (PgHistory table, Entry list) act" where
  "postgresHistory_ListForEpisode e i =
     mapA (map historyFromPostgres) (wrapA ''history: list for episode'' (postgres_ListForEpisode e i))"

definition postgresHistory_FindByDownloadID :: "dbenv \<Rightarrow> string \<Rightarrow> (PgHistory table, Entry list) act" where
  "postgresHistory_FindByDownloadID e x =
     mapA (map historyFromPostgres) (wrapA ''history: find by download id'' (postgres_FindByDownloadID e x))"

definition postgresHistory_DeleteForSeries :: "dbenv \<Rightarrow> int \<Rightarrow> (PgHistory table, unit) act" where
  "postgresHistory_DeleteForSeries e i = wrapA ''history: delete for series'' (postgres_DeleteForSeries e i)"

definition postgresHistory_ListAll :: "dbenv \<Rightarrow> (PgHistory table, Entry list) act" where
  "postgresHistory_ListAll e = mapA (map historyFromPostgres) (wrapA ''history: list all''
     (stmt e ''ListAll'' (sql_many (\<lambda>_. True) (\<lambda>r. - hp_Date r))))"

definition postgresHistory_DeleteBefore :: "dbenv \<Rightarrow> int \<Rightarrow> (PgHistory table, int) act" where
  "postgresHistory_DeleteBefore e before = wrapA ''history: delete before''
     (stmt e ''DeleteBefore'' (sql_deleterows (\<lambda>r. hp_Date r < pg_micros before)))"

definition postgresHistory :: "jsonb_input \<Rightarrow> PgHistory table HistoryStore" where
  "postgresHistory jsonb = \<lparr>hs_Create = postgresHistory_Create jsonb,
     hs_ListForSeries = postgresHistory_ListForSeries, hs_ListForEpisode = postgresHistory_ListForEpisode,
     hs_FindByDownloadID = postgresHistory_FindByDownloadID,
     hs_DeleteForSeries = postgresHistory_DeleteForSeries, hs_ListAll = postgresHistory_ListAll,
     hs_DeleteBefore = postgresHistory_DeleteBefore\<rparr>"

subsection \<open>The contract of a history store\<close>

text \<open>\<open>view\<close> is the entry a reader finds under an id, \<open>gran\<close> the granularity of the store's clock,
  \<open>kept\<close> what the store makes of the data of an entry, \<open>None\<close> when it refuses it.\<close>

definition recorded :: "int \<Rightarrow> int \<Rightarrow> string \<Rightarrow> Entry \<Rightarrow> Entry" where
  "recorded i t d x = x\<lparr>he_ID := i, he_Date := t, he_Data := Some d\<rparr>"

definition lists_entries :: "('s \<Rightarrow> int \<Rightarrow> Entry option) \<Rightarrow> (Entry \<Rightarrow> bool) \<Rightarrow> 's \<Rightarrow> Entry list \<Rightarrow> bool" where
  "lists_entries view p s ys \<longleftrightarrow> distinct (map he_ID ys) \<and> sorted_wrt (\<lambda>a b. he_Date b \<le> he_Date a) ys \<and>
     (\<forall>y. y \<in> set ys \<longleftrightarrow> view s (he_ID y) = Some y \<and> p y)"

locale history_store =
  fixes h :: "'s HistoryStore"
    and inv :: "'s \<Rightarrow> bool"
    and view :: "'s \<Rightarrow> int \<Rightarrow> Entry option"
    and gran :: "int \<Rightarrow> int"
    and kept :: "RawMessage \<Rightarrow> string option"
  assumes view_id: "inv s \<Longrightarrow> view s i = Some y \<Longrightarrow> he_ID y = i"
    and create_ok: "\<lbrakk>inv s; quiet e; kept (he_Data x) = Some d; hs_Create h e x s = (r, s')\<rbrakk> \<Longrightarrow>
          inv s' \<and> (\<exists>i. view s i = None \<and> r = Inr (recorded i (gran (env_now e)) d x) \<and>
            view s' = (view s)(i \<mapsto> recorded i (gran (env_now e)) d x))"
    and create_refused: "\<lbrakk>inv s; quiet e; kept (he_Data x) = None; hs_Create h e x s = (r, s')\<rbrakk> \<Longrightarrow>
          \<not> is_ok r \<and> s' = s"
    and series_ok: "\<lbrakk>inv s; quiet e; hs_ListForSeries h e i s = (rl, s')\<rbrakk> \<Longrightarrow>
          s' = s \<and> (\<exists>ys. rl = Inr ys \<and> lists_entries view (\<lambda>y. he_SeriesID y = i) s ys)"
    and episode_ok: "\<lbrakk>inv s; quiet e; hs_ListForEpisode h e i s = (rl, s')\<rbrakk> \<Longrightarrow>
          s' = s \<and> (\<exists>ys. rl = Inr ys \<and> lists_entries view (\<lambda>y. he_EpisodeID y = i) s ys)"
    and download_ok: "\<lbrakk>inv s; quiet e; hs_FindByDownloadID h e k s = (rl, s')\<rbrakk> \<Longrightarrow>
          s' = s \<and> (\<exists>ys. rl = Inr ys \<and> lists_entries view (\<lambda>y. he_DownloadID y = k) s ys)"
    and all_ok: "\<lbrakk>inv s; quiet e; hs_ListAll h e s = (rl, s')\<rbrakk> \<Longrightarrow>
          s' = s \<and> (\<exists>ys. rl = Inr ys \<and> lists_entries view (\<lambda>y. True) s ys)"
    and delete_series_ok: "\<lbrakk>inv s; quiet e; hs_DeleteForSeries h e i s = (ru, s')\<rbrakk> \<Longrightarrow>
          inv s' \<and> ru = Inr () \<and> view s' = (\<lambda>j. case view s j of None \<Rightarrow> None
            | Some y \<Rightarrow> if he_SeriesID y = i then None else Some y)"
    and delete_before_ok: "\<lbrakk>inv s; quiet e; hs_DeleteBefore h e t s = (rn, s')\<rbrakk> \<Longrightarrow>
          inv s' \<and> rn = Inr (int (card {j. \<exists>y. view s j = Some y \<and> he_Date y < gran t})) \<and>
          view s' = (\<lambda>j. case view s j of None \<Rightarrow> None
            | Some y \<Rightarrow> if he_Date y < gran t then None else Some y)"
begin

text \<open>What was recorded under a download id is found under it, and only removed by its age or with
  its series.\<close>

lemma create_find:
  assumes "inv s" "quiet e" "quiet e'" "kept (he_Data x) = Some d" "hs_Create h e x s = (r, s')"
    and "hs_FindByDownloadID h e' (he_DownloadID x) s' = (r', s'')"
  shows "\<exists>y ys. r = Inr y \<and> r' = Inr ys \<and> y \<in> set ys \<and> he_EpisodeID y = he_EpisodeID x
    \<and> he_EventType y = he_EventType x \<and> (\<forall>z\<in>set ys. he_DownloadID z = he_DownloadID x)"
proof -
  from create_ok [OF assms(1,2,4,5)] obtain i where i: "inv s'" "r = Inr (recorded i (gran (env_now e)) d x)"
    "view s' i = Some (recorded i (gran (env_now e)) d x)" by auto
  from download_ok [OF i(1) assms(3,6)] obtain ys where ys: "r' = Inr ys"
    "lists_entries view (\<lambda>y. he_DownloadID y = he_DownloadID x) s' ys" by auto
  let ?y = "recorded i (gran (env_now e)) d x"
  have "?y \<in> set ys"
    using ys(2) i(3) by (simp add: lists_entries_def recorded_def)
  then show ?thesis using i(2) ys by (auto simp: lists_entries_def recorded_def)
qed

lemma delete_before_keeps:
  assumes "inv s" "quiet e" "hs_DeleteBefore h e t s = (r, s')" "view s i = Some y" "gran t \<le> he_Date y"
  shows "view s' i = Some y"
  using delete_before_ok [OF assms(1-3)] assms(4,5) by (auto simp: not_less)

lemma delete_before_removes:
  assumes "inv s" "quiet e" "hs_DeleteBefore h e t s = (r, s')" "view s' i = Some y"
  shows "view s i = Some y \<and> gran t \<le> he_Date y"
  using delete_before_ok [OF assms(1-3)] assms(4) by (auto simp: not_less split: option.splits if_splits)

end

subsection \<open>Both stores keep the contract\<close>

definition history_view :: "('r \<Rightarrow> int) \<Rightarrow> ('r \<Rightarrow> Entry) \<Rightarrow> 'r table \<Rightarrow> int \<Rightarrow> Entry option" where
  "history_view rid conv t i = map_option conv (tbl rid t i)"

text \<open>What the statements do to the view, for a row type whose conversion keeps the id.\<close>

lemma lists_rows:
  fixes conv :: "'r \<Rightarrow> Entry" and date :: "'r \<Rightarrow> int"
  assumes wf: "wf_table rid t" and id: "\<And>r. he_ID (conv r) = rid r"
    and date: "\<And>a b. date a \<le> date b \<Longrightarrow> he_Date (conv a) \<le> he_Date (conv b)"
    and p: "\<And>r. p (conv r) \<longleftrightarrow> q r"
  shows "lists_entries (history_view rid conv) p t (map conv (sort_key (\<lambda>r. - date r) (filter q (rows t))))"
proof -
  let ?rs = "sort_key (\<lambda>r. - date r) (filter q (rows t))"
  have "sorted (map (\<lambda>r. - date r) ?rs)" by (rule sorted_sort_key)
  then have "sorted_wrt (\<lambda>a b. - date a \<le> - date b) ?rs" by (simp add: sorted_map)
  then have 1: "sorted_wrt (\<lambda>a b. he_Date (conv b) \<le> he_Date (conv a)) ?rs"
    by (rule sorted_wrt_mono_rel [rotated]) (simp add: date)
  have "distinct (map rid (filter q (rows t)))" using wf by (simp add: wf_table_def distinct_map_filter)
  then have 2: "distinct (map he_ID (map conv ?rs))" by (simp add: id distinct_map o_def)
  have "y \<in> set (map conv ?rs) \<longleftrightarrow> history_view rid conv t (he_ID y) = Some y \<and> p y" for y
    using tbl_Some_iff [OF wf] by (auto simp: history_view_def id p)
  then show ?thesis using 1 2 by (simp add: lists_entries_def sorted_wrt_map)
qed

lemma view_del_rows:
  assumes "wf_table rid t" "\<And>r. p (conv r) \<longleftrightarrow> q r"
  shows "history_view rid conv (del_rows q t) = (\<lambda>j. case history_view rid conv t j of None \<Rightarrow> None
    | Some y \<Rightarrow> if p y then None else Some y)"
  by (rule ext) (auto simp: history_view_def tbl_del_rows [OF assms(1)] assms(2) split: option.split)

lemma count_view:
  assumes "wf_table rid t" "\<And>r. p (conv r) \<longleftrightarrow> q r"
  shows "count_rows q t = int (card {j. \<exists>y. history_view rid conv t j = Some y \<and> p y})"
proof -
  have "{j. \<exists>y. history_view rid conv t j = Some y \<and> p y} = {i. \<exists>r. tbl rid t i = Some r \<and> q r}"
    by (auto simp: history_view_def assms(2))
  then show ?thesis using count_rows_card [OF assms(1)] by simp
qed

lemmas sqliteHistory_defs = sqliteHistory_def sqliteHistory_Create_def sqliteHistory_ListForSeries_def
  sqliteHistory_ListForEpisode_def sqliteHistory_FindByDownloadID_def sqliteHistory_DeleteForSeries_def
  sqliteHistory_ListAll_def sqliteHistory_DeleteBefore_def sqlite_CreateHistoryEntry_def
  sqlite_ListForSeries_def sqlite_ListForEpisode_def sqlite_FindByDownloadID_def sqlite_DeleteForSeries_def

lemmas postgresHistory_defs = postgresHistory_def postgresHistory_Create_def postgresHistory_ListForSeries_def
  postgresHistory_ListForEpisode_def postgresHistory_FindByDownloadID_def postgresHistory_DeleteForSeries_def
  postgresHistory_ListAll_def postgresHistory_DeleteBefore_def postgres_CreateHistoryEntry_def
  postgres_ListForSeries_def postgres_ListForEpisode_def postgres_FindByDownloadID_def postgres_DeleteForSeries_def

definition sqliteHistory_view :: "SqHistory table \<Rightarrow> int \<Rightarrow> Entry option" where
  "sqliteHistory_view = history_view hq_ID historyFromSQLite"

definition postgresHistory_view :: "PgHistory table \<Rightarrow> int \<Rightarrow> Entry option" where
  "postgresHistory_view = history_view hp_ID historyFromPostgres"

lemma historyFromSQLite_simps [simp]:
  "he_ID (historyFromSQLite r) = hq_ID r" "he_SeriesID (historyFromSQLite r) = hq_SeriesID r"
  "he_EpisodeID (historyFromSQLite r) = hq_EpisodeID r" "he_DownloadID (historyFromSQLite r) = hq_DownloadID r"
  "he_Date (historyFromSQLite r) = parseSqliteTime (hq_Date r)"
  by (simp_all add: historyFromSQLite_def)

lemma historyFromPostgres_simps [simp]:
  "he_ID (historyFromPostgres r) = hp_ID r" "he_SeriesID (historyFromPostgres r) = hp_SeriesID r"
  "he_EpisodeID (historyFromPostgres r) = hp_EpisodeID r" "he_DownloadID (historyFromPostgres r) = hp_DownloadID r"
  "he_Date (historyFromPostgres r) = pg_time (hp_Date r)"
  by (simp_all add: historyFromPostgres_def)

lemma sqlite_lists:
  "wf_table hq_ID t \<Longrightarrow> (\<And>r. p (historyFromSQLite r) \<longleftrightarrow> q r) \<Longrightarrow>
   lists_entries sqliteHistory_view p t (map historyFromSQLite (sort_key (\<lambda>r. - hq_Date r) (filter q (rows t))))"
  unfolding sqliteHistory_view_def by (rule lists_rows) simp_all

lemma postgres_lists:
  "wf_table hp_ID t \<Longrightarrow> (\<And>r. p (historyFromPostgres r) \<longleftrightarrow> q r) \<Longrightarrow>
   lists_entries postgresHistory_view p t (map historyFromPostgres (sort_key (\<lambda>r. - hp_Date r) (filter q (rows t))))"
  unfolding postgresHistory_view_def by (rule lists_rows) simp_all

text \<open>An insert, for a row whose conversion is the recorded entry.\<close>

lemma view_insert:
  assumes "wf_table rid t" "\<And>i. rid (mk i) = i" "\<And>i. conv (mk i) = recorded i g d x"
  shows "\<exists>i. history_view rid conv t i = None \<and> conv (mk (next_id t)) = recorded i g d x \<and>
    history_view rid conv (snd (sql_insert mk t)) = (history_view rid conv t)(i \<mapsto> recorded i g d x)"
  by (rule exI [of _ "next_id t"]) (use assms in \<open>auto simp: history_view_def tbl_insert\<close>)

lemma sqlite_create:
  assumes "wf_table hq_ID t" "quiet e" "sqliteHistory_Create e x t = (r, t')"
  shows "wf_table hq_ID t' \<and> (\<exists>i. sqliteHistory_view t i = None \<and>
    r = Inr (recorded i (sq_gran (env_now e)) (historyDataSQLite (he_Data x)) x) \<and>
    sqliteHistory_view t' = (sqliteHistory_view t)(i \<mapsto> recorded i (sq_gran (env_now e)) (historyDataSQLite (he_Data x)) x))"
proof -
  define mk where "mk = (\<lambda>i. \<lparr>hq_ID = i, hq_EpisodeID = he_EpisodeID x, hq_SeriesID = he_SeriesID x,
     hq_SourceTitle = he_SourceTitle x, hq_QualityName = he_QualityName x, hq_EventType = he_EventType x,
     hq_Date = sqlite_format (env_now e), hq_DownloadID = he_DownloadID x, hq_Data = historyDataSQLite (he_Data x)\<rparr>)"
  have mk: "hq_ID (mk i) = i" "historyFromSQLite (mk i) = recorded i (sq_gran (env_now e)) (historyDataSQLite (he_Data x)) x" for i
    by (simp_all add: mk_def historyFromSQLite_def recorded_def historyDataSQLite_def)
  have "r = Inr (historyFromSQLite (mk (next_id t)))" "t' = snd (sql_insert mk t)"
    using assms(2,3) by (auto simp: sqliteHistory_defs act_defs sql_insert_def mk_def)
  then show ?thesis
    using view_insert [of hq_ID t mk historyFromSQLite, OF assms(1) mk] wf_insert [OF assms(1) mk(1)]
    by (metis sqliteHistory_view_def)
qed

definition pg_kept :: "jsonb_input \<Rightarrow> RawMessage \<Rightarrow> string option" where
  "pg_kept jsonb d = map_option (\<lambda>v. if v = [] then ''{}'' else v) (jsonb (historyDataSQLite d))"

lemma historyDataPostgres_bytes: "historyDataPostgres d = Some (historyDataSQLite d)"
  by (cases d) (auto simp: historyDataPostgres_def historyDataSQLite_def bytes_of_def)

lemma postgres_create:
  assumes "wf_table hp_ID t" "quiet e" "pg_kept jsonb (he_Data x) = Some d" "postgresHistory_Create jsonb e x t = (r, t')"
  shows "wf_table hp_ID t' \<and> (\<exists>i. postgresHistory_view t i = None \<and>
    r = Inr (recorded i (pg_gran (env_now e)) d x) \<and>
    postgresHistory_view t' = (postgresHistory_view t)(i \<mapsto> recorded i (pg_gran (env_now e)) d x))"
proof -
  from assms(3) obtain v where v: "jsonb (historyDataSQLite (he_Data x)) = Some v" "d = (if v = [] then ''{}'' else v)"
    by (auto simp: pg_kept_def)
  define mk where "mk = (\<lambda>i. \<lparr>hp_ID = i, hp_EpisodeID = he_EpisodeID x, hp_SeriesID = he_SeriesID x,
     hp_SourceTitle = he_SourceTitle x, hp_QualityName = he_QualityName x, hp_EventType = he_EventType x,
     hp_Date = pg_micros (env_now e), hp_DownloadID = he_DownloadID x, hp_Data = v\<rparr>)"
  have mk: "hp_ID (mk i) = i" "historyFromPostgres (mk i) = recorded i (pg_gran (env_now e)) d x" for i
    by (simp_all add: mk_def historyFromPostgres_def recorded_def v(2))
  have "r = Inr (historyFromPostgres (mk (next_id t)))" "t' = snd (sql_insert mk t)"
    using assms(2,4) v(1)
    by (auto simp: postgresHistory_defs act_defs sql_insert_def mk_def jsonb_param_def historyDataPostgres_bytes)
  then show ?thesis
    using view_insert [of hp_ID t mk historyFromPostgres, OF assms(1) mk] wf_insert [OF assms(1) mk(1)]
    by (metis postgresHistory_view_def)
qed

interpretation sqhist: history_store sqliteHistory "wf_table hq_ID" sqliteHistory_view sq_gran
  "\<lambda>d. Some (historyDataSQLite d)"
proof (unfold_locales, goal_cases)
  case 1
  then show ?case by (auto simp: sqliteHistory_view_def history_view_def dest: tbl_SomeD)
next
  case (2 s e x d r s')
  then show ?case using sqlite_create [of s e x r s'] by (simp add: sqliteHistory_def)
next
  case 8
  then show ?case
    by (auto simp: sqliteHistory_defs act_defs sql_delete_def wf_del_rows sqliteHistory_view_def
        intro!: view_del_rows)
next
  case (9 s e t r s')
  then show ?case using count_view [of hq_ID s "\<lambda>y. he_Date y < sq_gran t" historyFromSQLite "\<lambda>r. hq_Date r < sqlite_format t"]
    by (auto simp: sqliteHistory_defs act_defs sql_deleterows_def wf_del_rows sqliteHistory_view_def
        intro!: view_del_rows)
next
  case (7 s e r s')
  then show ?case using sqlite_lists [of s "\<lambda>_. True" "\<lambda>_. True"]
    by (auto simp: sqliteHistory_defs act_defs sql_many_def)
qed (auto simp: sqliteHistory_defs act_defs sql_many_def intro!: sqlite_lists)

interpretation pghist: history_store "postgresHistory jsonb" "wf_table hp_ID" postgresHistory_view pg_gran
  "pg_kept jsonb" for jsonb
proof (unfold_locales, goal_cases)
  case 1
  then show ?case by (auto simp: postgresHistory_view_def history_view_def dest: tbl_SomeD)
next
  case (2 s e x d r s')
  then show ?case using postgres_create [of s e jsonb x d r s'] by (simp add: postgresHistory_def)
next
  case 3
  then show ?case
    by (auto simp: postgresHistory_defs act_defs pg_kept_def jsonb_param_def historyDataPostgres_bytes split: option.splits)
next
  case 8
  then show ?case
    by (auto simp: postgresHistory_defs act_defs sql_delete_def wf_del_rows postgresHistory_view_def
        intro!: view_del_rows)
next
  case (9 s e t r s')
  then show ?case using count_view [of hp_ID s "\<lambda>y. he_Date y < pg_gran t" historyFromPostgres "\<lambda>r. hp_Date r < pg_micros t"]
    by (auto simp: postgresHistory_defs act_defs sql_deleterows_def wf_del_rows postgresHistory_view_def
        intro!: view_del_rows)
next
  case (7 s e r s')
  then show ?case using postgres_lists [of s "\<lambda>_. True" "\<lambda>_. True"]
    by (auto simp: postgresHistory_defs act_defs sql_many_def)
qed (auto simp: postgresHistory_defs act_defs sql_many_def intro!: postgres_lists)

subsection \<open>Properties of the history\<close>

text \<open>A grab recorded on Postgres is found again under its download id: for data the engine accepts,
  \<open>Create\<close> succeeds, and a later \<open>FindByDownloadID\<close> of the same id returns it, together with
  entries of that download id only.\<close>

theorem postgres_create_find:
  assumes "wf_table hp_ID t" "quiet e" "quiet e'" "jsonb (historyDataSQLite (he_Data x)) = Some v"
    and "postgresHistory_Create jsonb e x t = (r, t')"
    and "postgresHistory_FindByDownloadID e' (he_DownloadID x) t' = (r', t'')"
  shows "\<exists>y ys. r = Inr y \<and> r' = Inr ys \<and> y \<in> set ys \<and> he_EpisodeID y = he_EpisodeID x
    \<and> he_EventType y = he_EventType x \<and> (\<forall>z\<in>set ys. he_DownloadID z = he_DownloadID x)"
proof -
  have "pg_kept jsonb (he_Data x) = Some (if v = [] then ''{}'' else v)" by (simp add: pg_kept_def assms(4))
  moreover have "hs_Create (postgresHistory jsonb) e x t = (r, t')"
    "hs_FindByDownloadID (postgresHistory jsonb) e' (he_DownloadID x) t' = (r', t'')"
    using assms(5,6) by (simp_all add: postgresHistory_def)
  ultimately show ?thesis using pghist.create_find [where jsonb = jsonb, OF assms(1-3)] by blast
qed

definition example_grab :: Entry where
  "example_grab = \<lparr>he_ID = 0, he_EpisodeID = 4, he_SeriesID = 1, he_SourceTitle = ''A.S01E01'', he_QualityName = ''HDTV-720p'',
     he_EventType = EventGrabbed, he_Date = 0, he_DownloadID = ''abc'', he_Data = Some ''{}''\<rparr>"

theorem postgres_create_find_witness:
  "\<exists>ys. fst (postgresHistory_FindByDownloadID (quiet_at 5) ''abc''
      (snd (postgresHistory_Create Some (quiet_at 1) example_grab empty_table))) = Inr ys \<and>
    (\<exists>y\<in>set ys. he_EpisodeID y = 4)"
proof -
  have "Some (historyDataSQLite (he_Data example_grab)) = Some ''{}''" 
    by (simp add: example_grab_def historyDataSQLite_def bytes_of_def)
  from postgres_create_find [where jsonb = Some and x = example_grab and e = "quiet_at 1" and e' = "quiet_at 5",
      OF wf_empty_table quiet_quiet_at(1) quiet_quiet_at(1) this prod.collapse [symmetric] prod.collapse [symmetric]]
  show ?thesis by (auto simp: example_grab_def)
qed

end
