(* ===== verification/Go_Os.thy ===== *)
theory Go_Os
  imports Go_Strings Sql_Store "HOL-Library.AList" "HOL-Library.List_Lexorder" "HOL-Library.Char_ord"
begin

section \<open>Paths and files of the Go standard library\<close>

text \<open>
  The functions of \<open>path/filepath\<close> and \<open>os\<close> the program calls, for a Unix system. A path
  is an ASCII byte string. The file system is a directory tree without symbolic links: a finite map
  from resolved paths (lists of names) to directories and files; a file name refers to an inode,
  so that hard links share their content. The process's working directory is the root. Any call
  can fail: the environment decides it per function and path.
\<close>

subsection \<open>filepath\<close>

fun split_on :: "char \<Rightarrow> string \<Rightarrow> string list" where
  "split_on c [] = [[]]"
| "split_on c (x # xs) = (if x = c then [] # split_on c xs
     else (case split_on c xs of [] \<Rightarrow> [[x]] | y # ys \<Rightarrow> (x # y) # ys))"

definition slash :: char where "slash = CHR ''/''"

text \<open>The loop of \<open>Clean\<close>: empty and dot elements are dropped, a dot-dot removes the element before
  it, unless there is none: then it is kept in a relative path and dropped in a rooted one. The
  elements kept are in reverse.\<close>

fun clean_elems :: "bool \<Rightarrow> string list \<Rightarrow> string list \<Rightarrow> string list" where
  "clean_elems rooted acc [] = rev acc"
| "clean_elems rooted acc (x # xs) =
     (if x = '''' \<or> x = ''.'' then clean_elems rooted acc xs
      else if x = ''..'' then
        (case acc of
           y # ys \<Rightarrow> if y = ''..'' then clean_elems rooted (x # acc) xs else clean_elems rooted ys xs
         | [] \<Rightarrow> if rooted then clean_elems rooted [] xs else clean_elems rooted [x] xs)
      else clean_elems rooted (x # acc) xs)"

definition IsAbs :: "string \<Rightarrow> bool" where
  "IsAbs p = (case p of [] \<Rightarrow> False | c # _ \<Rightarrow> c = slash)"

definition Clean :: "string \<Rightarrow> string" where
  "Clean p = (let es = clean_elems (IsAbs p) [] (split_on slash p) in
     if IsAbs p then slash # Join es ''/'' else if es = [] then ''.'' else Join es ''/'')"

definition filepath_Join :: "string list \<Rightarrow> string" where
  "filepath_Join elems = (case dropWhile (\<lambda>e. e = []) elems of [] \<Rightarrow> '''' | es \<Rightarrow> Clean (Join es ''/''))"

text \<open>The part from the last dot of the last element on, empty without a dot.\<close>

definition Ext :: "string \<Rightarrow> string" where
  "Ext p = (let r = takeWhile (\<lambda>c. c \<noteq> slash) (rev p) in
     if CHR ''.'' \<in> set r then rev (takeWhile (\<lambda>c. c \<noteq> CHR ''.'') r @ ''.'') else '''')"

definition Base :: "string \<Rightarrow> string" where
  "Base p = (if p = '''' then ''.''
     else (let r = dropWhile (\<lambda>c. c = slash) (rev p) in
       if r = [] then ''/'' else rev (takeWhile (\<lambda>c. c \<noteq> slash) r)))"

definition filepath_Dir :: "string \<Rightarrow> string" where
  "filepath_Dir p = Clean (rev (dropWhile (\<lambda>c. c \<noteq> slash) (rev p)))"

subsection \<open>The file system\<close>

type_synonym path = "string list"

datatype entry = DirE | FileE nat

record fs =
  fs_names :: "(path \<times> entry) list"
  fs_inodes :: "nat \<Rightarrow> string"
  fs_next :: nat

record fsenv =
  fe_fault :: "string \<Rightarrow> path \<Rightarrow> string option"
  fe_written :: "path \<Rightarrow> nat"

text \<open>\<open>fe_fault\<close> says whether a call fails and with which error, \<open>fe_written\<close> how many bytes a failing
  copy has written.\<close>

definition fs_quiet :: "fsenv \<Rightarrow> bool" where
  "fs_quiet v \<longleftrightarrow> fe_fault v = (\<lambda>_ _. None)"

definition fs_calm :: fsenv where
  "fs_calm = \<lparr>fe_fault = (\<lambda>_ _. None), fe_written = (\<lambda>_. 0)\<rparr>"

definition resolve :: "string \<Rightarrow> path" where
  "resolve p = clean_elems True [] (split_on slash p)"

definition lookup :: "fs \<Rightarrow> path \<Rightarrow> entry option" where
  "lookup f p = (if p = [] then Some DirE else map_of (fs_names f) p)"

definition bind_name :: "path \<Rightarrow> entry \<Rightarrow> fs \<Rightarrow> fs" where
  "bind_name p x f = f\<lparr>fs_names := AList.update p x (fs_names f)\<rparr>"

definition unbind_name :: "path \<Rightarrow> fs \<Rightarrow> fs" where
  "unbind_name p f = f\<lparr>fs_names := AList.delete p (fs_names f)\<rparr>"

definition content :: "fs \<Rightarrow> path \<Rightarrow> string option" where
  "content f p = (case lookup f p of Some (FileE n) \<Rightarrow> Some (fs_inodes f n) | _ \<Rightarrow> None)"

definition is_dir :: "fs \<Rightarrow> path \<Rightarrow> bool" where
  "is_dir f p \<longleftrightarrow> lookup f p = Some DirE"

definition ENOENT :: string where "ENOENT = ''no such file or directory''"
definition ENOTDIR :: string where "ENOTDIR = ''not a directory''"
definition EEXIST :: string where "EEXIST = ''file exists''"
definition EISDIR :: string where "EISDIR = ''is a directory''"
definition EPERM :: string where "EPERM = ''operation not permitted''"

definition oscall :: "fsenv \<Rightarrow> string \<Rightarrow> path \<Rightarrow> (fs, 'a) act \<Rightarrow> (fs, 'a) act" where
  "oscall v name p m f = (case fe_fault v name p of Some x \<Rightarrow> (Inl (OsError x), f) | None \<Rightarrow> m f)"

lemma oscall_quiet [simp]: "fs_quiet v \<Longrightarrow> oscall v name p m = m"
  by (rule ext) (simp add: oscall_def fs_quiet_def)

lemma fs_quiet_calm [simp]: "fs_quiet fs_calm"
  by (simp add: fs_quiet_def fs_calm_def)

subsection \<open>os\<close>

text \<open>\<open>os.Stat\<close>: the size of a file, \<open>None\<close> for a directory.\<close>

definition os_Stat :: "fsenv \<Rightarrow> string \<Rightarrow> (fs, int option) act" where
  "os_Stat v p = oscall v ''Stat'' (resolve p) (\<lambda>f. case lookup f (resolve p) of
     None \<Rightarrow> (Inl (OsError ENOENT), f)
   | Some DirE \<Rightarrow> (Inr None, f)
   | Some (FileE n) \<Rightarrow> (Inr (Some (int (length (fs_inodes f n)))), f))"

text \<open>\<open>os.IsNotExist\<close> does not unwrap.\<close>

definition IsNotExist :: "store_error \<Rightarrow> bool" where
  "IsNotExist e \<longleftrightarrow> e = OsError ENOENT"

text \<open>\<open>os.ReadDir\<close>: the entries of a directory sorted by name, each with whether it is a directory.\<close>

definition dir_entries :: "fs \<Rightarrow> path \<Rightarrow> (string \<times> bool) list" where
  "dir_entries f d = sort_key fst
     (map (\<lambda>(p, x). (last p, x = DirE)) (filter (\<lambda>(p, x). p \<noteq> [] \<and> butlast p = d) (fs_names f)))"

definition os_ReadDir :: "fsenv \<Rightarrow> string \<Rightarrow> (fs, (string \<times> bool) list) act" where
  "os_ReadDir v p = oscall v ''ReadDir'' (resolve p) (\<lambda>f. case lookup f (resolve p) of
     None \<Rightarrow> (Inl (OsError ENOENT), f)
   | Some (FileE n) \<Rightarrow> (Inl (OsError ENOTDIR), f)
   | Some DirE \<Rightarrow> (Inr (dir_entries f (resolve p)), f))"

text \<open>\<open>os.MkdirAll\<close> makes the missing ancestors from the root down.\<close>

fun mkdirs :: "fsenv \<Rightarrow> path \<Rightarrow> path \<Rightarrow> (fs, unit) act" where
  "mkdirs v done [] f = (Inr (), f)"
| "mkdirs v done (x # xs) f = (let p = done @ [x] in case lookup f p of
     Some DirE \<Rightarrow> mkdirs v p xs f
   | Some (FileE n) \<Rightarrow> (Inl (OsError ENOTDIR), f)
   | None \<Rightarrow> bindA (oscall v ''Mkdir'' p (\<lambda>f. (Inr (), bind_name p DirE f))) (\<lambda>_. mkdirs v p xs) f)"

definition os_MkdirAll :: "fsenv \<Rightarrow> string \<Rightarrow> (fs, unit) act" where
  "os_MkdirAll v p = mkdirs v [] (resolve p)"

text \<open>\<open>os.Link\<close>: a second name for the inode.\<close>

definition os_Link :: "fsenv \<Rightarrow> string \<Rightarrow> string \<Rightarrow> (fs, unit) act" where
  "os_Link v old new = oscall v ''Link'' (resolve new) (\<lambda>f.
     case lookup f (resolve old) of
       None \<Rightarrow> (Inl (OsError ENOENT), f)
     | Some DirE \<Rightarrow> (Inl (OsError EPERM), f)
     | Some (FileE n) \<Rightarrow>
         (if lookup f (resolve new) \<noteq> None then (Inl (OsError EEXIST), f)
          else if \<not> is_dir f (butlast (resolve new)) then (Inl (OsError ENOENT), f)
          else (Inr (), bind_name (resolve new) (FileE n) f)))"

text \<open>\<open>os.Open\<close> of a file gives its inode; \<open>os.Create\<close> truncates an existing file or makes an
  empty one and gives its inode.\<close>

definition os_Open :: "fsenv \<Rightarrow> string \<Rightarrow> (fs, entry) act" where
  "os_Open v p = oscall v ''Open'' (resolve p) (\<lambda>f. case lookup f (resolve p) of
     None \<Rightarrow> (Inl (OsError ENOENT), f) | Some x \<Rightarrow> (Inr x, f))"

definition os_Create :: "fsenv \<Rightarrow> string \<Rightarrow> (fs, nat) act" where
  "os_Create v p = oscall v ''Create'' (resolve p) (\<lambda>f. case lookup f (resolve p) of
     Some DirE \<Rightarrow> (Inl (OsError EISDIR), f)
   | Some (FileE n) \<Rightarrow> (Inr n, f\<lparr>fs_inodes := (fs_inodes f)(n := '''')\<rparr>)
   | None \<Rightarrow> (if \<not> is_dir f (butlast (resolve p)) then (Inl (OsError ENOENT), f)
       else (Inr (fs_next f), bind_name (resolve p) (FileE (fs_next f))
              (f\<lparr>fs_inodes := (fs_inodes f)(fs_next f := ''''), fs_next := fs_next f + 1\<rparr>))))"

text \<open>\<open>io.Copy\<close> into the freshly created inode \<open>n\<close> of the path \<open>p\<close>. Reading a directory fails; a
  failing copy leaves the bytes it has written.\<close>

definition io_Copy :: "fsenv \<Rightarrow> path \<Rightarrow> nat \<Rightarrow> entry \<Rightarrow> (fs, unit) act" where
  "io_Copy v p n src f = (case src of
     DirE \<Rightarrow> (Inl (OsError EISDIR), f)
   | FileE m \<Rightarrow> (case fe_fault v ''Copy'' p of
       Some x \<Rightarrow> (Inl (OsError x), f\<lparr>fs_inodes := (fs_inodes f)(n := take (fe_written v p) (fs_inodes f m))\<rparr>)
     | None \<Rightarrow> (Inr (), f\<lparr>fs_inodes := (fs_inodes f)(n := fs_inodes f m)\<rparr>)))"

definition os_Close :: "fsenv \<Rightarrow> path \<Rightarrow> (fs, unit) act" where
  "os_Close v p = oscall v ''Close'' p (\<lambda>f. (Inr (), f))"

text \<open>\<open>os.Remove\<close> of a file or an empty directory.\<close>

definition os_Remove :: "fsenv \<Rightarrow> string \<Rightarrow> (fs, unit) act" where
  "os_Remove v p = oscall v ''Remove'' (resolve p) (\<lambda>f. case lookup f (resolve p) of
     None \<Rightarrow> (Inl (OsError ENOENT), f)
   | Some (FileE n) \<Rightarrow> (Inr (), unbind_name (resolve p) f)
   | Some DirE \<Rightarrow> (if dir_entries f (resolve p) = [] then (Inr (), unbind_name (resolve p) f)
       else (Inl (OsError ''directory not empty''), f)))"

text \<open>\<open>os.Rename\<close> of a file: the new name is replaced in one step.\<close>

definition os_Rename :: "fsenv \<Rightarrow> string \<Rightarrow> string \<Rightarrow> (fs, unit) act" where
  "os_Rename v old new = oscall v ''Rename'' (resolve new) (\<lambda>f. case lookup f (resolve old) of
     None \<Rightarrow> (Inl (OsError ENOENT), f)
   | Some DirE \<Rightarrow> (Inl (OsError EPERM), f)
   | Some (FileE n) \<Rightarrow>
       (if lookup f (resolve new) = Some DirE then (Inl (OsError EEXIST), f)
        else if \<not> is_dir f (butlast (resolve new)) then (Inl (OsError ENOENT), f)
        else if lookup f (resolve new) = Some (FileE n) then (Inr (), f)
        else (Inr (), bind_name (resolve new) (FileE n) (unbind_name (resolve old) f))))"

subsection \<open>Facts on paths\<close>

definition proper :: "string \<Rightarrow> bool" where
  "proper x \<longleftrightarrow> x \<noteq> '''' \<and> x \<noteq> ''.'' \<and> x \<noteq> ''..'' \<and> slash \<notin> set x"

lemma split_on_nonempty [simp]: "split_on c s \<noteq> []"
  by (induction s) (simp_all split: list.split)

lemma split_on_none: "c \<notin> set s \<Longrightarrow> split_on c s = [s]"
  by (induction s) auto

lemma split_on_append: "split_on c (s @ c # t) = split_on c s @ split_on c t"
  by (induction s) (auto split: list.splits)

lemma split_on_sep: "x \<in> set (split_on c s) \<Longrightarrow> c \<notin> set x"
  by (induction s arbitrary: x) (force split: if_splits list.splits)+

lemma split_on_Join: "es \<noteq> [] \<Longrightarrow> \<forall>e\<in>set es. slash \<notin> set e \<Longrightarrow> split_on slash (Join es ''/'') = es"
proof (induction es)
  case (Cons x ys)
  then show ?case using split_on_append [of slash x "Join ys ''/''"]
    by (cases ys) (simp_all add: split_on_none slash_def)
qed simp

lemma split_on_extend:
  "slash \<notin> set t \<Longrightarrow> split_on slash (s @ t) = butlast (split_on slash s) @ [last (split_on slash s) @ t]"
  by (induction s) (auto simp: split_on_none split: list.splits)

lemma clean_elems_snoc:
  "proper b \<Longrightarrow> clean_elems r acc (xs @ [b]) = clean_elems r acc xs @ [b]"
proof (induction xs arbitrary: acc)
  case (Cons x xs)
  then show ?case by (cases acc; cases r) simp_all
qed (simp add: proper_def)

lemma clean_elems_snoc_empty: "clean_elems r acc (xs @ [[]]) = clean_elems r acc xs"
proof (induction xs arbitrary: acc)
  case (Cons x xs)
  then show ?case by (cases acc; cases r) simp_all
qed simp

lemma clean_elems_proper: "list_all proper xs \<Longrightarrow> clean_elems r acc xs = rev acc @ xs"
  by (induction xs arbitrary: acc) (auto simp: proper_def)

lemma clean_elems_Cons_skip [simp]: "clean_elems r acc ([] # xs) = clean_elems r acc xs"
  by simp

lemma clean_rooted_proper:
  "list_all proper acc \<Longrightarrow> \<forall>x\<in>set xs. slash \<notin> set x \<Longrightarrow> list_all proper (clean_elems True acc xs)"
proof (induction xs arbitrary: acc)
  case (Cons x xs)
  then show ?case by (cases acc) (simp_all add: proper_def)
qed (simp add: list_all_iff)

lemma resolve_proper: "list_all proper (resolve p)"
  unfolding resolve_def by (rule clean_rooted_proper) (auto dest: split_on_sep)

text \<open>A relative path keeps its leading dot-dots, which the rooted reading drops.\<close>

lemma clean_relative:
  "list_all proper acc \<Longrightarrow> \<forall>x\<in>set xs. slash \<notin> set x \<Longrightarrow>
   \<exists>k. clean_elems False (acc @ replicate m ''..'') xs = replicate k ''..'' @ clean_elems True acc xs"
proof (induction xs arbitrary: acc m)
  case Nil
  then show ?case by (auto intro: exI [of _ m])
next
  case (Cons x xs)
  consider "x = '''' \<or> x = ''.''" | "x = ''..''" | "proper x" using Cons.prems by (auto simp: proper_def)
  then show ?case
  proof cases
    case 1
    then show ?thesis using Cons.IH [of acc m] Cons.prems by auto
  next
    case 2
    show ?thesis
    proof (cases acc)
      case Nil
      have "clean_elems False (acc @ replicate m ''..'') (x # xs) = clean_elems False ([] @ replicate (Suc m) ''..'') xs"
        using 2 Nil by (cases m) simp_all
      then show ?thesis using 2 Nil Cons.IH [of "[]" "Suc m"] Cons.prems by simp
    next
      case (Cons y ys)
      then show ?thesis using 2 Cons.IH [of ys m] Cons.prems by (simp add: proper_def)
    qed
  next
    case 3
    then show ?thesis using Cons.IH [of "x # acc" m] Cons.prems by (simp add: proper_def)
  qed
qed

lemma clean_dotdots: "clean_elems True [] (replicate k ''..'' @ xs) = clean_elems True [] xs"
  by (induction k) simp_all

lemma dotdots_no_slash: "x \<in> set (replicate k ''..'') \<Longrightarrow> slash \<notin> set x"
  by (simp add: slash_def)

lemma resolve_Clean [simp]: "resolve (Clean p) = resolve p"
proof (cases "IsAbs p")
  case True
  let ?es = "clean_elems True [] (split_on slash p)"
  have es: "list_all proper ?es" using resolve_proper [of p] by (simp add: resolve_def)
  then have ns: "\<forall>e\<in>set ?es. slash \<notin> set e" by (auto simp: list_all_iff proper_def)
  have "split_on slash (slash # Join ?es ''/'') = [] # (if ?es = [] then [[]] else ?es)"
    using split_on_Join [OF _ ns] by simp
  then show ?thesis using True clean_elems_proper [OF es, of True "[]"]
    by (simp add: Clean_def Let_def resolve_def)
next
  case False
  obtain k where k: "clean_elems False [] (split_on slash p) = replicate k ''..'' @ resolve p" (is "?es = _")
    using clean_relative [of "[]" "split_on slash p" 0] split_on_sep unfolding resolve_def by fastforce
  have ns: "\<forall>e\<in>set ?es. slash \<notin> set e"
    using resolve_proper [of p] dotdots_no_slash by (auto simp: k list_all_iff proper_def)
  show ?thesis
  proof (cases "?es = []")
    case True
    then have "resolve p = []" using k by simp
    then show ?thesis using False True by (simp add: Clean_def Let_def) (simp add: resolve_def slash_def)
  next
    case False
    then have "resolve (Join ?es ''/'') = clean_elems True [] ?es"
      using split_on_Join [OF _ ns] by (simp add: resolve_def)
    also have "\<dots> = resolve p"
      using clean_dotdots clean_elems_proper [OF resolve_proper, of True "[]"] by (simp add: k)
    finally show ?thesis using \<open>\<not> IsAbs p\<close> False by (simp add: Clean_def Let_def)
  qed
qed

text \<open>Joining a directory and a file name.\<close>

lemma resolve_child: "proper b \<Longrightarrow> resolve (d @ slash # b) = resolve d @ [b]"
  unfolding resolve_def by (simp add: split_on_append split_on_none proper_def clean_elems_snoc)

lemma resolve_Dir:
  assumes "slash \<notin> set b"
  shows "resolve (filepath_Dir (d @ slash # b)) = resolve d"
proof -
  have "rev (dropWhile (\<lambda>c. c \<noteq> slash) (rev (d @ slash # b))) = d @ slash # []"
    using assms by (subst rev_append) (auto simp: dropWhile_append3)
  then show ?thesis
    by (simp add: filepath_Dir_def) (simp add: resolve_def split_on_append clean_elems_snoc_empty)
qed

lemma resolve_Join2: "d \<noteq> [] \<Longrightarrow> proper b \<Longrightarrow> resolve (filepath_Join [d, b]) = resolve d @ [b]"
  using resolve_child [of b d] by (simp add: filepath_Join_def slash_def)

lemma resolve_Join_rel: "d \<noteq> [] \<Longrightarrow> resolve (filepath_Join [d, r]) = resolve (d @ slash # r)"
  by (simp add: filepath_Join_def slash_def)

subsection \<open>Facts on files\<close>

lemma lookup_bind [simp]: "p \<noteq> [] \<Longrightarrow> lookup (bind_name p x f) q = (if q = p then Some x else lookup f q)"
  by (simp add: lookup_def bind_name_def AList.update_conv)

lemma lookup_unbind [simp]: "p \<noteq> [] \<Longrightarrow> lookup (unbind_name p f) q = (if q = p then None else lookup f q)"
  by (simp add: lookup_def unbind_name_def AList.delete_conv)

lemma names_inodes [simp]:
  "fs_inodes (bind_name p x f) = fs_inodes f" "fs_next (bind_name p x f) = fs_next f"
  "fs_inodes (unbind_name p f) = fs_inodes f" "fs_next (unbind_name p f) = fs_next f"
  by (simp_all add: bind_name_def unbind_name_def)

lemma lookup_inodes [simp]:
  "lookup (f\<lparr>fs_inodes := g\<rparr>) q = lookup f q" "lookup (f\<lparr>fs_next := n\<rparr>) q = lookup f q"
  by (simp_all add: lookup_def)

lemma lookup_root [simp]: "lookup f [] = Some DirE"
  by (simp add: lookup_def)

lemma content_bind [simp]: "p \<noteq> [] \<Longrightarrow> content (bind_name p x f) q =
    (if q = p then (case x of DirE \<Rightarrow> None | FileE n \<Rightarrow> Some (fs_inodes f n)) else content f q)"
  by (cases "lookup f q") (auto simp: content_def split: entry.split)

lemma content_unbind [simp]: "p \<noteq> [] \<Longrightarrow> content (unbind_name p f) q = (if q = p then None else content f q)"
  by (cases "lookup f q") (auto simp: content_def split: entry.split)

text \<open>Every name but the root stands in a directory, and a file's inode is one that was handed out.\<close>

definition wf_fs :: "fs \<Rightarrow> bool" where
  "wf_fs f \<longleftrightarrow> (\<forall>p. p \<noteq> [] \<longrightarrow> lookup f p \<noteq> None \<longrightarrow> is_dir f (butlast p)) \<and>
     (\<forall>p n. lookup f p = Some (FileE n) \<longrightarrow> n < fs_next f)"

lemma wf_fs_inode: "wf_fs f \<Longrightarrow> lookup f p = Some (FileE n) \<Longrightarrow> n < fs_next f"
  by (simp add: wf_fs_def)

text \<open>Making directories leaves the files as they are, also when it fails on the way.\<close>

definition same_files :: "fs \<Rightarrow> fs \<Rightarrow> bool" where
  "same_files f f' \<longleftrightarrow> fs_inodes f' = fs_inodes f \<and> fs_next f' = fs_next f \<and>
     (\<forall>q n. lookup f' q = Some (FileE n) \<longleftrightarrow> lookup f q = Some (FileE n)) \<and>
     (\<forall>q. is_dir f q \<longrightarrow> is_dir f' q)"

lemma same_files_refl [simp]: "same_files f f"
  by (simp add: same_files_def)

lemma same_files_trans: "same_files f g \<Longrightarrow> same_files g h \<Longrightarrow> same_files f h"
  by (simp add: same_files_def)

lemma same_files_content: "same_files f f' \<Longrightarrow> content f' p = content f p"
proof -
  assume "same_files f f'"
  then have i: "fs_inodes f' = fs_inodes f" and l: "\<And>n. lookup f' p = Some (FileE n) \<longleftrightarrow> lookup f p = Some (FileE n)"
    by (simp_all add: same_files_def)
  show ?thesis
  proof (cases "\<exists>n. lookup f p = Some (FileE n)")
    case True
    then obtain n where n: "lookup f p = Some (FileE n)" by blast
    then show ?thesis using i l [of n] by (simp add: content_def)
  next
    case False
    then show ?thesis using l by (auto simp: content_def split: option.split entry.split)
  qed
qed

lemma mkdir_same: "lookup f p = None \<Longrightarrow> p \<noteq> [] \<Longrightarrow> same_files f (bind_name p DirE f)"
  by (auto simp: same_files_def is_dir_def)

lemma mkdirs_same: "mkdirs v done xs f = (r, f') \<Longrightarrow> same_files f f'"
proof (induction xs arbitrary: "done" f)
  case (Cons x xs)
  show ?case
  proof (cases "lookup f (done @ [x])")
    case None
    show ?thesis
    proof (cases "fe_fault v ''Mkdir'' (done @ [x])")
      case None
      let ?g = "bind_name (done @ [x]) DirE f"
      have "mkdirs v (done @ [x]) xs ?g = (r, f')"
        using Cons.prems(1) None \<open>lookup f (done @ [x]) = None\<close> by (simp add: bindA_def oscall_def Let_def)
      then have "same_files ?g f'"
        using Cons.IH by blast
      then show ?thesis using mkdir_same [OF \<open>lookup f (done @ [x]) = None\<close>] same_files_trans by blast
    next
      case (Some a)
      then show ?thesis using Cons.prems(1) None by (simp add: bindA_def oscall_def Let_def)
    qed
  next
    case (Some y)
    then show ?thesis using Cons.IH Cons.prems by (cases y) (auto simp: Let_def)
  qed
qed simp

lemma mkdirs_wf: "mkdirs v done xs f = (r, f') \<Longrightarrow> wf_fs f \<Longrightarrow> is_dir f done \<Longrightarrow> wf_fs f'"
proof (induction xs arbitrary: "done" f)
  case (Cons x xs)
  show ?case
  proof (cases "lookup f (done @ [x])")
    case None
    let ?g = "bind_name (done @ [x]) DirE f"
    have g: "wf_fs ?g" "is_dir ?g (done @ [x])"
      using Cons.prems(2,3) None by (auto simp: wf_fs_def is_dir_def)
    show ?thesis
    proof (cases "fe_fault v ''Mkdir'' (done @ [x])")
      case None
      have "mkdirs v (done @ [x]) xs ?g = (r, f')"
        using Cons.prems(1) None \<open>lookup f (done @ [x]) = None\<close> by (simp add: bindA_def oscall_def Let_def)
      then show ?thesis
        using Cons.IH g by blast
    next
      case (Some a)
      then show ?thesis using Cons.prems(1,2) None by (simp add: bindA_def oscall_def Let_def)
    qed
  next
    case (Some y)
    then show ?thesis using Cons.IH Cons.prems by (cases y) (auto simp: Let_def is_dir_def)
  qed
qed simp

text \<open>Without failing calls the directory is there afterwards, unless a file is in the way.\<close>

lemma mkdirs_ok:
  "fs_quiet v \<Longrightarrow> \<forall>q n. prefix q xs \<longrightarrow> lookup f (done @ q) \<noteq> Some (FileE n) \<Longrightarrow> is_dir f done \<Longrightarrow>
   \<exists>f'. mkdirs v done xs f = (Inr (), f') \<and> is_dir f' (done @ xs)"
proof (induction xs arbitrary: "done" f)
  case (Cons x xs)
  have nf: "lookup f (done @ [x]) \<noteq> Some (FileE n)" for n
    using Cons.prems(2) by (auto dest!: spec [of _ "[x]"])
  have tail: "lookup f ((done @ [x]) @ q) \<noteq> Some (FileE n)" if "prefix q xs" for q n
    using Cons.prems(2) that by (auto dest!: spec [of _ "x # q"])
  show ?case
  proof (cases "lookup f (done @ [x])")
    case None
    let ?g = "bind_name (done @ [x]) DirE f"
    have "\<forall>q n. prefix q xs \<longrightarrow> lookup ?g ((done @ [x]) @ q) \<noteq> Some (FileE n)" "is_dir ?g (done @ [x])"
      using tail by (auto simp: is_dir_def)
    then show ?thesis
      using Cons.IH [of ?g "done @ [x]"] Cons.prems(1) None by (simp add: bindA_def Let_def)
  next
    case (Some y)
    then show ?thesis using Cons.IH [of f "done @ [x]"] tail nf Cons.prems(1) by (cases y) (auto simp: Let_def is_dir_def)
  qed
qed simp

lemma Join_snoc: "es \<noteq> [] \<Longrightarrow> Join (es @ [b]) sep = Join es sep @ sep @ b"
proof (induction es)
  case (Cons e es)
  then show ?case by (cases es) simp_all
qed simp

lemma Join2_proper:
  assumes "proper a" "proper b"
  shows "filepath_Join [a, b] = a @ slash # b"
proof -
  have "split_on slash (a @ slash # b) = [a, b]"
    using assms by (simp add: split_on_append split_on_none proper_def)
  moreover have "clean_elems False [] [a, b] = [a, b]"
    using clean_elems_proper [of "[a, b]" False "[]"] assms by simp
  moreover have "\<not> IsAbs (a @ slash # b)" "a \<noteq> []" using assms by (cases a; auto simp: IsAbs_def proper_def)+
  ultimately show ?thesis by (simp add: filepath_Join_def Clean_def Let_def slash_def)
qed

text \<open>Cleaning a path that ends in two proper names.\<close>

lemma Clean_child:
  assumes "proper a" "proper b"
  shows "Clean (d @ slash # a @ slash # b) = Clean (d @ slash # a) @ slash # b"
proof -
  have abs: "IsAbs (d @ slash # a @ slash # b) = IsAbs (d @ slash # a)" by (cases d) (simp_all add: IsAbs_def)
  have sp: "split_on slash (d @ slash # a) = split_on slash d @ [a]"
    "split_on slash (d @ slash # a @ slash # b) = split_on slash d @ [a] @ [b]"
    using assms split_on_append [of slash "d" "a @ slash # b"]
    by (simp_all add: split_on_append split_on_none proper_def)
  show ?thesis unfolding Clean_def Let_def abs sp
    using clean_elems_snoc [OF assms(1)] clean_elems_snoc [OF assms(2), of _ _ "split_on slash d @ [a]"]
      Join_snoc [of "clean_elems r [] (split_on slash d) @ [a]" b "''/''" for r]
    by (auto simp: slash_def)
qed

end
