(* ===== verification/Importer.thy ===== *)
theory Importer
  imports Parser Organizer LibrarySqlite History Go_Os
begin

section \<open>Importing completed downloads\<close>

text \<open>
  internal/importer/import.go. The service works on the catalogue, the history and the file
  system. The stores it calls are the fields of \<open>ImportStores\<close>, the operations of the Go
  interfaces it holds; \<open>sqlite_import_stores\<close> fills them with the SQLite stores. Logging is left out.
\<close>

subsection \<open>Names\<close>

definition minSizeBytes :: int where "minSizeBytes = 40 * 1024 * 1024"

definition mediaExtensions :: "string list" where
  "mediaExtensions = [''.mkv'', ''.mp4'', ''.avi'', ''.ts'', ''.wmv'', ''.flv'']"

definition unpackingExtensions :: "string list" where
  "unpackingExtensions = [''.rar'', ''.r00'', ''.part'']"

definition isMediaFile :: "string \<Rightarrow> bool" where
  "isMediaFile name \<longleftrightarrow> ToLower (Ext name) \<in> set mediaExtensions"

definition is_unpacking :: "string \<times> bool \<Rightarrow> bool" where
  "is_unpacking x \<longleftrightarrow> \<not> snd x \<and> ToLower (Ext (fst x)) \<in> set unpackingExtensions"

definition findEpisode :: "Episode list \<Rightarrow> int \<Rightarrow> int \<Rightarrow> Episode option" where
  "findEpisode episodes season episode =
     List.find (\<lambda>ep. ep_SeasonNumber ep = season \<and> ep_EpisodeNumber ep = episode) episodes"

definition qualityFullName :: "ParsedQuality \<Rightarrow> string" where
  "qualityFullName q =
     (if source_string (pq_Source q) = '''' \<and> resolution_string (pq_Resolution q) = '''' then ''Unknown''
      else Join ((if source_string (pq_Source q) \<noteq> '''' then [source_string (pq_Source q)] else []) @
                 (if resolution_string (pq_Resolution q) \<noteq> '''' then [resolution_string (pq_Resolution q)] else []))
             ''-'')"

subsection \<open>Moving a file\<close>

definition copyFile :: "fsenv \<Rightarrow> string \<Rightarrow> string \<Rightarrow> (fs, unit) act" where
  "copyFile v src dst = bindA (os_Open v src) (\<lambda>input.
     let partial = dst @ ''.partial'' in
     bindA (os_Create v partial) (\<lambda>n f.
       case io_Copy v (resolve partial) n input f of
         (Inl e, f1) \<Rightarrow> (Inl e, snd (os_Remove v partial (snd (os_Close v (resolve partial) f1))))
       | (Inr _, f1) \<Rightarrow>
           (case os_Close v (resolve partial) f1 of
              (Inl e, f2) \<Rightarrow> (Inl e, snd (os_Remove v partial f2))
            | (Inr _, f2) \<Rightarrow> os_Rename v partial dst f2)))"

definition moveFile :: "fsenv \<Rightarrow> string \<Rightarrow> string \<Rightarrow> (fs, unit) act" where
  "moveFile v src dst = bindA (os_MkdirAll v (filepath_Dir dst)) (\<lambda>_ f.
     case os_Link v src dst f of
       (Inr _, f') \<Rightarrow> (Inr (), f')
     | (Inl _, f') \<Rightarrow> copyFile v src dst f')"

subsection \<open>The service\<close>

record 's ImportStores =
  im_SeriesGet :: "int \<Rightarrow> ('s, Series) act"
  im_EpisodesListForSeries :: "int \<Rightarrow> ('s, Episode list) act"
  im_FilesCreate :: "EpisodeFile \<Rightarrow> ('s, EpisodeFile) act"
  im_EpisodesUpdate :: "Episode \<Rightarrow> ('s, unit) act"
  im_HistoryCreate :: "Entry \<Rightarrow> ('s, Entry) act"

definition on_store :: "('s, 'a) act \<Rightarrow> ('s \<times> fs, 'a) act" where
  "on_store m w = (let (r, s) = m (fst w) in (r, (s, snd w)))"

definition on_fs :: "(fs, 'a) act \<Rightarrow> ('s \<times> fs, 'a) act" where
  "on_fs m w = (let (r, f) = m (snd w) in (r, (fst w, f)))"

text \<open>The path of the imported file below the folder of its series.\<close>

definition import_name :: "Series \<Rightarrow> ParsedEpisodeInfo \<Rightarrow> Episode \<Rightarrow> string" where
  "import_name series parsed ep = BuildFilename DefaultEpisodeFormat \<lparr>
     ei_SeriesTitle = se_Title series,
     ei_SeasonNumber = pe_SeasonNumber parsed,
     ei_EpisodeNumber = hd (pe_EpisodeNumbers parsed),
     ei_EpisodeTitle = ep_Title ep,
     ei_QualityName = qualityFullName (pe_Quality parsed),
     ei_ReleaseGroup = pe_ReleaseGroup parsed,
     ei_AirDate = ''''\<rparr>"

definition import_path :: "Series \<Rightarrow> ParsedEpisodeInfo \<Rightarrow> Episode \<Rightarrow> string \<Rightarrow> string" where
  "import_path series parsed ep filename =
     filepath_Join [BuildSeasonFolder (pe_SeasonNumber parsed), import_name series parsed ep @ Ext filename]"

text \<open>The records the import writes; the fields a caller leaves out have Go's zero values.\<close>

definition import_file :: "Series \<Rightarrow> ParsedEpisodeInfo \<Rightarrow> string \<Rightarrow> int \<Rightarrow> EpisodeFile" where
  "import_file series parsed relativePath fsize = \<lparr>
     ef_ID = 0, ef_SeriesID = se_ID series, ef_SeasonNumber = wrap32 (pe_SeasonNumber parsed),
     ef_RelativePath = relativePath, ef_Size = fsize, ef_DateAdded = 0,
     ef_ReleaseGroup = pe_ReleaseGroup parsed, ef_QualityName = qualityFullName (pe_Quality parsed),
     ef_CreatedAt = 0, ef_UpdatedAt = 0\<rparr>"

definition import_entry :: "Series \<Rightarrow> ParsedEpisodeInfo \<Rightarrow> Episode \<Rightarrow> string \<Rightarrow> string \<Rightarrow> Entry" where
  "import_entry series parsed ep filename downloadID = \<lparr>
     he_ID = 0, he_EpisodeID = ep_ID ep, he_SeriesID = se_ID series, he_SourceTitle = filename,
     he_QualityName = qualityFullName (pe_Quality parsed), he_EventType = EventDownloadImported,
     he_Date = 0, he_DownloadID = downloadID, he_Data = None\<rparr>"

text \<open>The second half of \<open>importFile\<close>, once the episode is known: move, record the file, point the
  episode at it, write the history; a failed history write is only logged.\<close>

definition import_matched ::
  "fsenv \<Rightarrow> 's ImportStores \<Rightarrow> string \<Rightarrow> string \<Rightarrow> int \<Rightarrow> Series \<Rightarrow> ParsedEpisodeInfo \<Rightarrow> Episode \<Rightarrow> string \<Rightarrow>
     ('s \<times> fs, unit) act" where
  "import_matched v st srcPath filename fsize series parsed ep downloadID =
     (let relativePath = import_path series parsed ep filename;
          dstPath = filepath_Join [se_Path series, relativePath] in
      bindA (wrapA ''move'' (on_fs (moveFile v srcPath dstPath))) (\<lambda>_.
      bindA (wrapA ''create episode_file record''
              (on_store (im_FilesCreate st (import_file series parsed relativePath fsize)))) (\<lambda>ef.
      bindA (wrapA ''update episode''
              (on_store (im_EpisodesUpdate st (ep\<lparr>ep_EpisodeFileID := Some (ef_ID ef)\<rparr>)))) (\<lambda>_ w.
      (Inr (), snd (on_store (im_HistoryCreate st (import_entry series parsed ep filename downloadID)) w))))))"

definition importFile ::
  "fsenv \<Rightarrow> 's ImportStores \<Rightarrow> string \<Rightarrow> string \<Rightarrow> Series \<Rightarrow> Episode list \<Rightarrow> string \<Rightarrow> ('s \<times> fs, unit) act" where
  "importFile v st srcPath filename series episodes downloadID =
     bindA (wrapA ''stat'' (on_fs (os_Stat v srcPath))) (\<lambda>info.
       case info of
         None \<Rightarrow> retA ()
       | Some fsize \<Rightarrow>
           if fsize < minSizeBytes then retA ()
           else (case ParseTitle (TrimSuffix filename (Ext filename)) of
             Inl _ \<Rightarrow> failA (OsError ''panic: index out of range'')
           | Inr parsed \<Rightarrow>
               if pe_EpisodeNumbers parsed = [] then retA ()
               else (case findEpisode episodes (wrap32 (pe_SeasonNumber parsed))
                            (wrap32 (hd (pe_EpisodeNumbers parsed))) of
                 None \<Rightarrow> retA ()
               | Some ep \<Rightarrow> import_matched v st srcPath filename fsize series parsed ep downloadID)))"

text \<open>A directory has no size to speak of: the entries that are directories are not imported.\<close>

fun import_loop ::
  "fsenv \<Rightarrow> 's ImportStores \<Rightarrow> string \<Rightarrow> Series \<Rightarrow> Episode list \<Rightarrow> string \<Rightarrow> (string \<times> bool) list \<Rightarrow> 's \<times> fs \<Rightarrow> 's \<times> fs"
where
  "import_loop v st folder series episodes downloadID [] w = w"
| "import_loop v st folder series episodes downloadID ((name, isdir) # es) w =
     import_loop v st folder series episodes downloadID es
       (if isdir \<or> \<not> isMediaFile name then w
        else snd (importFile v st (filepath_Join [folder, name]) name series episodes downloadID w))"

definition ProcessFolder ::
  "fsenv \<Rightarrow> 's ImportStores \<Rightarrow> string \<Rightarrow> int \<Rightarrow> string \<Rightarrow> ('s \<times> fs, unit) act" where
  "ProcessFolder v st downloadFolder seriesID downloadID =
     bindA (wrapA ''importer: read dir'' (on_fs (os_ReadDir v downloadFolder))) (\<lambda>entries.
       if \<exists>x\<in>set entries. is_unpacking x then retA ()
       else bindA (wrapA ''importer: get series'' (on_store (im_SeriesGet st seriesID))) (\<lambda>series.
            bindA (wrapA ''importer: list episodes for series'' (on_store (im_EpisodesListForSeries st seriesID)))
              (\<lambda>episodes w. (Inr (), import_loop v st downloadFolder series episodes downloadID entries w))))"

subsection \<open>A move is atomic\<close>

text \<open>A file system with a private scratch file: the name \<open>q\<close> stands for the inode \<open>n\<close>, no other name
  does, and every other name and inode is as in \<open>f\<close>.\<close>

definition scratch_of :: "fs \<Rightarrow> path \<Rightarrow> nat \<Rightarrow> fs \<Rightarrow> bool" where
  "scratch_of f q n g \<longleftrightarrow> lookup g q = Some (FileE n) \<and> (\<forall>p. p \<noteq> q \<longrightarrow> lookup g p = lookup f p) \<and>
     (\<forall>p. p \<noteq> q \<longrightarrow> lookup f p \<noteq> Some (FileE n)) \<and> (\<forall>m. m \<noteq> n \<longrightarrow> fs_inodes g m = fs_inodes f m)"

definition unaliased :: "fs \<Rightarrow> path \<Rightarrow> bool" where
  "unaliased f q \<longleftrightarrow> (\<forall>p n. p \<noteq> q \<longrightarrow> lookup f q = Some (FileE n) \<longrightarrow> lookup f p \<noteq> Some (FileE n))"

lemma scratch_content:
  assumes "scratch_of f q n g" "p \<noteq> q"
  shows "content g p = content f p"
  using assms by (auto simp: scratch_of_def content_def split: option.split entry.split)

lemma create_scratch:
  assumes "wf_fs f" "unaliased f (resolve p)" "resolve p \<noteq> []" "os_Create v p f = (Inr n, g)"
  shows "scratch_of f (resolve p) n g"
proof (cases "lookup f (resolve p)")
  case None
  then show ?thesis using assms wf_fs_inode [OF assms(1)]
    by (auto simp: os_Create_def oscall_def scratch_of_def split: option.splits if_splits)
next
  case (Some x)
  then show ?thesis using assms
    by (cases x) (auto simp: os_Create_def oscall_def scratch_of_def unaliased_def split: option.splits)
qed

lemma scratch_write: "scratch_of f q n g \<Longrightarrow> scratch_of f q n (g\<lparr>fs_inodes := (fs_inodes g)(n := x)\<rparr>)"
  by (simp add: scratch_of_def)

lemma copy_scratch:
  assumes "scratch_of f q n g" "io_Copy v q n src g = (r, g')"
  shows "scratch_of f q n g'"
  using assms scratch_write [OF assms(1)] by (auto simp: io_Copy_def split: entry.splits option.splits)

lemma close_same: "snd (os_Close v p g) = g"
  by (simp add: os_Close_def oscall_def split: option.split)

lemma remove_scratch:
  assumes "scratch_of f (resolve p) n g" "resolve p \<noteq> []" "q \<noteq> resolve p"
  shows "content (snd (os_Remove v p g)) q = content f q"
proof -
  show ?thesis using scratch_content [OF assms(1,3)] assms(2,3)
    by (auto simp: os_Remove_def oscall_def split: option.split entry.split)
qed

lemma rename_scratch:
  assumes "scratch_of f (resolve p) n g" "resolve p \<noteq> []" "resolve p \<noteq> resolve d" "resolve d \<noteq> []"
    and "os_Rename v p d g = (r, g')"
  shows "(r = Inr () \<longrightarrow> content g' (resolve d) = Some (fs_inodes g n)) \<and>
    (\<forall>q. q \<noteq> resolve p \<longrightarrow> q \<noteq> resolve d \<longrightarrow> content g' q = content f q) \<and>
    (\<not> is_ok r \<longrightarrow> content g' (resolve d) = content f (resolve d))"
proof (cases "r = Inr ()")
  case True
  have "lookup g (resolve p) = Some (FileE n)" "lookup g (resolve d) \<noteq> Some (FileE n)"
    using assms(1,3) by (auto simp: scratch_of_def)
  then have "g' = bind_name (resolve d) (FileE n) (unbind_name (resolve p) g)"
    using assms(5) True by (auto simp: os_Rename_def oscall_def split: option.splits if_splits)
  moreover have "content g q = content f q" if "q \<noteq> resolve p" for q using scratch_content [OF assms(1) that] .
  ultimately show ?thesis using assms(2,4) True by auto
next
  case False
  then have "g' = g" using assms(5)
    by (auto simp: os_Rename_def oscall_def split: option.splits if_splits entry.splits)
  then show ?thesis using False scratch_content [OF assms(1)] assms(3) by auto
qed

text \<open>What a copy leaves behind, whatever fails: the destination has either its old or the whole new
  content, and no other file but the scratch file changes.\<close>

definition moved :: "fs \<Rightarrow> path \<Rightarrow> path \<Rightarrow> string \<Rightarrow> (store_error, unit) result \<Rightarrow> fs \<Rightarrow> bool" where
  "moved f d q c r g \<longleftrightarrow> content g d = (if is_ok r then Some c else content f d) \<and>
     (\<forall>p. p \<noteq> d \<longrightarrow> p \<noteq> q \<longrightarrow> content g p = content f p)"

lemma copyFile_moved:
  assumes wf: "wf_fs f" and priv: "unaliased f (resolve (dst @ ''.partial''))"
    and c: "content f (resolve src) = Some c"
    and ne: "resolve dst \<noteq> []" "resolve (dst @ ''.partial'') \<noteq> []" "resolve (dst @ ''.partial'') \<noteq> resolve dst"
      "resolve (dst @ ''.partial'') \<noteq> resolve src"
    and run: "copyFile v src dst f = (r, g)"
  shows "moved f (resolve dst) (resolve (dst @ ''.partial'')) c r g"
proof -
  let ?p = "dst @ ''.partial''" and ?q = "resolve (dst @ ''.partial'')"
  from c obtain m where m: "lookup f (resolve src) = Some (FileE m)" "fs_inodes f m = c"
    by (auto simp: content_def split: option.splits entry.splits)
  show ?thesis
  proof (cases "fst (os_Open v src f)")
    case (Inl e)
    then have "r = Inl e" "g = f" using run
      by (auto simp: copyFile_def bindA_def os_Open_def oscall_def split: option.splits)
    then show ?thesis by (simp add: moved_def)
  next
    case (Inr x)
    then have open_ok: "os_Open v src f = (Inr (FileE m), f)" using m
      by (auto simp: os_Open_def oscall_def split: option.splits)
    obtain rc f1 where cr: "os_Create v ?p f = (rc, f1)" by fastforce
    show ?thesis
    proof (cases rc)
      case (Inl e)
      then have "f1 = f" using cr by (auto simp: os_Create_def oscall_def split: option.splits if_splits entry.splits)
      then have "r = Inl e" "g = f" using run open_ok cr Inl by (auto simp: copyFile_def bindA_def Let_def)
      then show ?thesis by (simp add: moved_def)
    next
      case (Inr n)
      from create_scratch [OF wf priv ne(2) cr [unfolded Inr]] have s1: "scratch_of f ?q n f1" .
      obtain rw f2 where cp: "io_Copy v ?q n (FileE m) f1 = (rw, f2)" by fastforce
      from copy_scratch [OF s1 cp] have s2: "scratch_of f ?q n f2" .
      have run': "(case (rw, f2) of
         (Inl e, f1) \<Rightarrow> (Inl e, snd (os_Remove v ?p (snd (os_Close v ?q f1))))
       | (Inr _, f1) \<Rightarrow>
           (case os_Close v ?q f1 of
              (Inl e, f2) \<Rightarrow> (Inl e, snd (os_Remove v ?p f2))
            | (Inr _, f2) \<Rightarrow> os_Rename v ?p dst f2)) = (r, g)"
        using run open_ok cr cp Inr by (simp add: copyFile_def bindA_def Let_def)
      have gone: "moved f (resolve dst) ?q c (Inl e) (snd (os_Remove v ?p f2))" for e
        using remove_scratch [OF s2 ne(2)] ne(3) by (auto simp: moved_def)
      show ?thesis
      proof (cases rw)
        case (Inl e)
        then show ?thesis using run' gone close_same by auto
      next
        case (Inr u)
        have "m \<noteq> n" using s1 m(1) ne(4) by (auto simp: scratch_of_def)
        then have "fs_inodes f2 n = c"
          using cp Inr m(2) s1 by (auto simp: io_Copy_def scratch_of_def split: option.splits)
        then have ren: "os_Rename v ?p dst f2 = (r, g) \<Longrightarrow> moved f (resolve dst) ?q c r g"
          using rename_scratch [OF s2 ne(2,3,1)] by (cases r) (auto simp: moved_def)
        have "snd (os_Close v ?q f2) = f2" by (rule close_same)
        then show ?thesis using run' gone ren Inr
          by (auto split: sum.splits prod.splits)
      qed
    qed
  qed
qed

lemma unaliased_same: "same_files f g \<Longrightarrow> unaliased f q \<Longrightarrow> unaliased g q"
  by (simp add: same_files_def unaliased_def)

lemma moved_same: "same_files f f1 \<Longrightarrow> moved f1 d q c r g \<Longrightarrow> moved f d q c r g"
  by (simp add: moved_def same_files_content)

lemma proper_partial: "proper b \<Longrightarrow> proper (b @ ''.partial'')"
  by (auto simp: proper_def slash_def)

lemma link_moved:
  assumes "os_Link v src dst f = (Inr (), g)" "content f (resolve src) = Some c" "resolve dst \<noteq> []"
  shows "moved f (resolve dst) q c (Inr ()) g"
  using assms by (auto simp: os_Link_def oscall_def moved_def content_def split: option.splits entry.splits if_splits)

lemma link_fails: "os_Link v src dst f = (Inl e, g) \<Longrightarrow> g = f"
  by (auto simp: os_Link_def oscall_def split: option.splits entry.splits if_splits)

lemma moveFile_moved:
  assumes wf: "wf_fs f" and dst: "dst = d @ slash # b" "proper b"
    and priv: "unaliased f (resolve (dst @ ''.partial''))"
    and c: "content f (resolve src) = Some c" and src: "resolve (dst @ ''.partial'') \<noteq> resolve src"
    and run: "moveFile v src dst f = (r, g)"
  shows "moved f (resolve dst) (resolve (dst @ ''.partial'')) c r g"
proof -
  have q: "resolve (dst @ ''.partial'') = resolve d @ [b @ ''.partial'']"
    using resolve_child [OF proper_partial [OF dst(2)], of d] by (simp add: dst(1))
  have p: "resolve dst = resolve d @ [b]" using resolve_child [OF dst(2)] by (simp add: dst(1))
  have ne: "resolve dst \<noteq> []" "resolve (dst @ ''.partial'') \<noteq> []" "resolve (dst @ ''.partial'') \<noteq> resolve dst"
    by (simp_all add: p q)
  obtain r1 f1 where mk: "os_MkdirAll v (filepath_Dir dst) f = (r1, f1)" by fastforce
  have s1: "same_files f f1" and wf1: "wf_fs f1"
    using mk mkdirs_same mkdirs_wf wf by (auto simp: os_MkdirAll_def is_dir_def)
  note c1 = c [folded same_files_content [OF s1]]
  show ?thesis
  proof (cases r1)
    case (Inl e)
    then have "r = Inl e" "g = f1" using run mk by (simp_all add: moveFile_def bindA_def)
    then show ?thesis using same_files_content [OF s1] by (simp add: moved_def)
  next
    case (Inr u)
    obtain r2 f2 where ln: "os_Link v src dst f1 = (r2, f2)" by fastforce
    show ?thesis
    proof (cases r2)
      case (Inl e)
      then have "copyFile v src dst f1 = (r, g)"
        using run mk ln Inr link_fails by (fastforce simp: moveFile_def bindA_def)
      from copyFile_moved [OF wf1 unaliased_same [OF s1 priv] c1 ne src this] show ?thesis
        by (rule moved_same [OF s1])
    next
      case (Inr u')
      then have "r = Inr ()" "g = f2" using run mk ln \<open>r1 = Inr u\<close> by (auto simp: moveFile_def bindA_def)
      then show ?thesis using moved_same [OF s1] link_moved [OF _ c1 ne(1)] ln Inr by simp
    qed
  qed
qed

text \<open>Without failing calls, and unless a file stands where a directory should be or the other way
  round, the move succeeds.\<close>

definition clear_way :: "fs \<Rightarrow> string \<Rightarrow> string \<Rightarrow> bool" where
  "clear_way f d b \<longleftrightarrow> (\<forall>q n. prefix q (resolve d) \<longrightarrow> lookup f q \<noteq> Some (FileE n)) \<and>
     \<not> is_dir f (resolve d @ [b]) \<and> \<not> is_dir f (resolve d @ [b @ ''.partial''])"

lemma mkdirs_only_prefixes:
  "mkdirs v done xs f = (r, f') \<Longrightarrow> \<not> prefix p (done @ xs) \<Longrightarrow> lookup f' p = lookup f p"
proof (induction xs arbitrary: "done" f)
  case (Cons x xs)
  have ne: "p \<noteq> done @ [x]" using Cons.prems(2) by auto
  have pre: "\<not> prefix p ((done @ [x]) @ xs)" using Cons.prems(2) by simp
  show ?case
  proof (cases "lookup f (done @ [x])")
    case None
    then show ?thesis using Cons.prems(1) Cons.IH [OF _ pre] ne
      by (auto simp: Let_def bindA_def oscall_def split: option.splits)
  next
    case (Some y)
    then show ?thesis using Cons.prems(1) Cons.IH [OF _ pre] by (cases y) (auto simp: Let_def)
  qed
qed simp

lemma moveFile_ok:
  assumes quiet: "fs_quiet v" and dst: "dst = d @ slash # b" "proper b" and way: "clear_way f d b"
    and c: "content f (resolve src) = Some c"
  shows "\<exists>g. moveFile v src dst f = (Inr (), g)"
proof -
  have q: "resolve (dst @ ''.partial'') = resolve d @ [b @ ''.partial'']"
    using resolve_child [OF proper_partial [OF dst(2)], of d] by (simp add: dst(1))
  have p: "resolve dst = resolve d @ [b]" using resolve_child [OF dst(2)] by (simp add: dst(1))
  have rd: "resolve (filepath_Dir dst) = resolve d" using resolve_Dir [of b d] dst by (simp add: proper_def)
  obtain f1 where mk: "os_MkdirAll v (filepath_Dir dst) f = (Inr (), f1)" "is_dir f1 (resolve d)"
    using mkdirs_ok [OF quiet, of "resolve d" f "[]"] way by (auto simp: os_MkdirAll_def rd clear_way_def is_dir_def)
  have s1: "same_files f f1" using mk mkdirs_same by (auto simp: os_MkdirAll_def)
  have nd: "\<not> is_dir f1 (resolve d @ [x])" if "\<not> is_dir f (resolve d @ [x])" for x
  proof -
    have "\<not> prefix (resolve d @ [x]) (resolve d)" by (meson append_prefixD not_Cons_self2 same_prefix_nil prefix_order.antisym append_self_conv prefixI)
    then show ?thesis using mkdirs_only_prefixes [of v "[]" "resolve d" f _ f1 "resolve d @ [x]"] mk(1) that
      by (auto simp: os_MkdirAll_def rd is_dir_def)
  qed
  have c1: "content f1 (resolve src) = Some c" using same_files_content [OF s1] c by simp
  then obtain m where m: "lookup f1 (resolve src) = Some (FileE m)"
    by (auto simp: content_def split: option.splits entry.splits)
  show ?thesis
  proof (cases "lookup f1 (resolve dst)")
    case None
    then have "os_Link v src dst f1 = (Inr (), bind_name (resolve dst) (FileE m) f1)"
      using m mk(2) quiet by (simp add: os_Link_def p)
    then show ?thesis using mk(1) by (simp add: moveFile_def bindA_def)
  next
    case (Some x)
    then have ln: "\<exists>e. os_Link v src dst f1 = (Inl e, f1)" using m quiet by (simp add: os_Link_def)
    obtain n f2 where cr: "os_Create v (dst @ ''.partial'') f1 = (Inr n, f2)"
      and f2: "is_dir f2 (resolve d)" "lookup f2 (resolve d @ [b @ ''.partial'']) = Some (FileE n)"
        "\<not> is_dir f2 (resolve d @ [b])"
    proof (cases "lookup f1 (resolve (dst @ ''.partial''))")
      case None
      then show thesis using that mk(2) nd way quiet by (simp add: os_Create_def q is_dir_def clear_way_def)
    next
      case (Some y)
      then show thesis using that mk(2) nd way quiet
        by (cases y) (simp_all add: os_Create_def q is_dir_def clear_way_def)
    qed
    have "\<exists>g. copyFile v src dst f1 = (Inr (), g)"
      using m cr f2 quiet
      by (auto simp: copyFile_def bindA_def os_Open_def io_Copy_def os_Close_def os_Rename_def fs_quiet_def
          oscall_def p q is_dir_def Let_def)
    then show ?thesis using mk(1) ln by (auto simp: moveFile_def bindA_def)
  qed
qed

subsection \<open>The file system stays tidy\<close>

text \<open>A name with the suffix of the scratch files is never one of several names of a file.\<close>

definition is_partial :: "path \<Rightarrow> bool" where
  "is_partial q \<longleftrightarrow> q \<noteq> [] \<and> HasSuffix (last q) ''.partial''"

definition tidy :: "fs \<Rightarrow> bool" where
  "tidy f \<longleftrightarrow> wf_fs f \<and> (\<forall>q. is_partial q \<longrightarrow> unaliased f q)"

lemma is_partial_suffix [simp]: "is_partial (d @ [b @ ''.partial''])"
  by (simp add: is_partial_def HasSuffix_def suffix_def)

lemma tidy_cong:
  assumes "tidy f" "\<And>p. lookup g p = lookup f p" "fs_next f \<le> fs_next g"
  shows "tidy g"
  using assms(1,3) by (auto simp: tidy_def wf_fs_def unaliased_def is_dir_def assms(2) intro: less_le_trans)

lemma tidy_unbind:
  assumes "tidy f" "lookup f q = Some (FileE n)"
  shows "tidy (unbind_name q f)"
proof -
  have "q \<noteq> []" using assms(2) by (auto simp: lookup_def)
  then show ?thesis using assms by (auto simp: tidy_def wf_fs_def unaliased_def is_dir_def)
qed

text \<open>A new name for a file none of whose names is a scratch name.\<close>

lemma tidy_bind:
  assumes "tidy f" "q \<noteq> []" "is_dir f (butlast q)" "\<not> is_dir f q" "n < fs_next f" "\<not> is_partial q"
    and "\<forall>p. is_partial p \<longrightarrow> lookup f p \<noteq> Some (FileE n)"
  shows "tidy (bind_name q (FileE n) f)"
proof -
  have "q \<noteq> butlast q" by (metis assms(3,4))
  then have "wf_fs (bind_name q (FileE n) f)"
    using assms(1-5) by (auto simp: tidy_def wf_fs_def is_dir_def)
  moreover have "unaliased (bind_name q (FileE n) f) p" if "is_partial p" for p
    using assms(1,2,6,7) that by (auto simp: tidy_def unaliased_def)
  ultimately show ?thesis by (simp add: tidy_def)
qed

lemma tidy_create:
  assumes "tidy f" "os_Create v p f = (r, g)" "resolve p \<noteq> []"
  shows "tidy g"
proof (cases "lookup f (resolve p)")
  case None
  let ?h = "f\<lparr>fs_inodes := (fs_inodes f)(fs_next f := ''''), fs_next := fs_next f + 1\<rparr>"
  have "tidy (bind_name (resolve p) (FileE (fs_next f)) ?h)" if "is_dir f (butlast (resolve p))"
  proof -
    have "wf_fs (bind_name (resolve p) (FileE (fs_next f)) ?h)"
      using assms(1,3) None that by (auto simp: tidy_def wf_fs_def is_dir_def less_Suc_eq)
    moreover have "unaliased (bind_name (resolve p) (FileE (fs_next f)) ?h) q" if "is_partial q" for q
      using assms(1,3) that by (auto simp: tidy_def unaliased_def wf_fs_def)
    ultimately show ?thesis by (simp add: tidy_def)
  qed
  then show ?thesis using None assms by (auto simp: os_Create_def oscall_def split: option.splits if_splits)
next
  case (Some x)
  then show ?thesis using assms tidy_cong [OF assms(1)]
    by (cases x) (auto simp: os_Create_def oscall_def split: option.splits)
qed

lemma tidy_mkdirs:
  assumes "tidy f" "mkdirs v [] xs f = (r, g)"
  shows "tidy g"
  using assms mkdirs_wf [OF assms(2)] unaliased_same [OF mkdirs_same [OF assms(2)]]
  by (auto simp: tidy_def is_dir_def)

lemma tidy_copy: "tidy f \<Longrightarrow> io_Copy v q n x f = (r, g) \<Longrightarrow> tidy g"
  by (auto simp: io_Copy_def split: entry.splits option.splits intro: tidy_cong)

lemma tidy_remove_file:
  assumes "tidy f" "lookup f (resolve p) = Some (FileE n)"
  shows "tidy (snd (os_Remove v p f))"
  using assms tidy_unbind [OF assms] by (auto simp: os_Remove_def oscall_def split: option.split)

lemma tidy_rename:
  assumes "tidy g" "scratch_of f (resolve p) n g" "os_Rename v p d g = (r, g')"
    and "resolve d \<noteq> []" "\<not> is_partial (resolve d)" "is_partial (resolve p)"
  shows "tidy g'"
proof (cases "r = Inr ()")
  case True
  have l: "lookup g (resolve p) = Some (FileE n)" using assms(2) by (simp add: scratch_of_def)
  have ne: "resolve p \<noteq> resolve d" "resolve p \<noteq> []" using assms(5,6) by (auto simp: is_partial_def)
  have nd: "lookup g (resolve d) \<noteq> Some (FileE n)" using assms(2) ne(1) by (auto simp: scratch_of_def)
  have g': "g' = bind_name (resolve d) (FileE n) (unbind_name (resolve p) g)"
    and dir: "is_dir g (butlast (resolve d))" "\<not> is_dir g (resolve d)"
    using assms(3) True l nd by (auto simp: os_Rename_def oscall_def is_dir_def split: option.splits if_splits)
  have "lookup (unbind_name (resolve p) g) q \<noteq> Some (FileE n)" for q
    using assms(2) ne(2) by (auto simp: scratch_of_def)
  moreover have "is_dir (unbind_name (resolve p) g) (butlast (resolve d))" "\<not> is_dir (unbind_name (resolve p) g) (resolve d)"
    using dir l ne by (auto simp: is_dir_def)
  moreover have "n < fs_next (unbind_name (resolve p) g)"
    using assms(1) l by (auto simp: tidy_def dest: wf_fs_inode)
  ultimately show ?thesis
    unfolding g' using tidy_unbind [OF assms(1) l] assms(4,5) by (intro tidy_bind) auto
next
  case False
  then have "g' = g" using assms(3)
    by (auto simp: os_Rename_def oscall_def split: option.splits if_splits entry.splits)
  then show ?thesis using assms(1) by simp
qed

lemma tidy_copyFile:
  assumes "tidy f" "dst = d @ slash # b" "proper b" "\<not> is_partial (resolve dst)" "copyFile v src dst f = (r, g)"
  shows "tidy g"
proof -
  let ?p = "dst @ ''.partial''"
  have q: "resolve ?p = resolve d @ [b @ ''.partial'']"
    using resolve_child [OF proper_partial [OF assms(3)], of d] by (simp add: assms(2))
  have d: "resolve dst \<noteq> []" using resolve_child [OF assms(3), of d] by (simp add: assms(2))
  obtain ro f0 where op: "os_Open v src f = (ro, f0)" by fastforce
  then have f0: "f0 = f" by (auto simp: os_Open_def oscall_def split: option.splits)
  show ?thesis
  proof (cases ro)
    case (Inl e)
    then show ?thesis using assms(1,5) op f0 by (simp add: copyFile_def bindA_def)
  next
    case (Inr x)
    obtain rc f1 where cr: "os_Create v ?p f = (rc, f1)" by fastforce
    have t1: "tidy f1" using tidy_create [OF assms(1) cr] q by simp
    show ?thesis
    proof (cases rc)
      case (Inl e)
      then show ?thesis using assms(5) op f0 \<open>ro = Inr x\<close> cr t1 by (simp add: copyFile_def bindA_def Let_def)
    next
      case (Inr n)
      have s1: "scratch_of f (resolve ?p) n f1"
        using create_scratch [of f ?p v n f1] assms(1) cr Inr q by (simp add: tidy_def)
      obtain rw f2 where cp: "io_Copy v (resolve ?p) n x f1 = (rw, f2)" by fastforce
      note s2 = copy_scratch [OF s1 cp] and t2 = tidy_copy [OF t1 cp]
      have l2: "lookup f2 (resolve ?p) = Some (FileE n)" using s2 by (simp add: scratch_of_def)
      have run: "(case (rw, f2) of
         (Inl e, f1) \<Rightarrow> (Inl e, snd (os_Remove v ?p (snd (os_Close v (resolve ?p) f1))))
       | (Inr _, f1) \<Rightarrow>
           (case os_Close v (resolve ?p) f1 of
              (Inl e, f2) \<Rightarrow> (Inl e, snd (os_Remove v ?p f2))
            | (Inr _, f2) \<Rightarrow> os_Rename v ?p dst f2)) = (r, g)"
        using assms(5) op f0 \<open>ro = Inr x\<close> cr cp Inr by (simp add: copyFile_def bindA_def Let_def)
      have ren: "tidy g" if "os_Rename v ?p dst f2 = (r, g)"
        using tidy_rename [OF t2 s2 that d assms(4)] by (simp add: q)
      show ?thesis using run ren tidy_remove_file [OF t2 l2, of v] close_same [of v "resolve ?p" f2]
        by (auto split: sum.splits prod.splits)
    qed
  qed
qed

lemma tidy_moveFile:
  assumes "tidy f" "dst = d @ slash # b" "proper b" "\<not> is_partial (resolve dst)" "\<not> is_partial (resolve src)"
    and "moveFile v src dst f = (r, g)"
  shows "tidy g"
proof -
  have d: "resolve dst \<noteq> []" using resolve_child [OF assms(3), of d] by (simp add: assms(2))
  obtain r1 f1 where mk: "os_MkdirAll v (filepath_Dir dst) f = (r1, f1)" by fastforce
  then have t1: "tidy f1" using tidy_mkdirs [OF assms(1)] by (simp add: os_MkdirAll_def)
  obtain r2 f2 where ln: "os_Link v src dst f1 = (r2, f2)" by fastforce
  have "tidy f2"
  proof (cases r2)
    case (Inl e)
    then show ?thesis using ln link_fails t1 by blast
  next
    case (Inr u)
    then obtain m where m: "lookup f1 (resolve src) = Some (FileE m)" "lookup f1 (resolve dst) = None"
      "is_dir f1 (butlast (resolve dst))" "f2 = bind_name (resolve dst) (FileE m) f1"
      using ln by (auto simp: os_Link_def oscall_def split: option.splits entry.splits if_splits)
    have "\<forall>p. is_partial p \<longrightarrow> lookup f1 p \<noteq> Some (FileE m)"
      using t1 assms(5) m(1) unfolding tidy_def unaliased_def by metis
    moreover have "m < fs_next f1" using t1 m(1) by (auto simp: tidy_def dest: wf_fs_inode)
    ultimately show ?thesis using t1 m d assms(4) by (auto simp: is_dir_def intro!: tidy_bind)
  qed
  moreover have "r1 = Inl e \<Longrightarrow> g = f1" for e using assms(6) mk by (simp add: moveFile_def bindA_def)
  moreover have "r1 = Inr u \<Longrightarrow> r2 = Inr x \<Longrightarrow> g = f2" for u x
    using assms(6) mk ln by (simp add: moveFile_def bindA_def)
  moreover have "r1 = Inr u \<Longrightarrow> r2 = Inl e \<Longrightarrow> copyFile v src dst f2 = (r, g)" for u e
    using assms(6) mk ln by (simp add: moveFile_def bindA_def)
  ultimately show ?thesis using t1 tidy_copyFile [OF _ assms(2-4)] by (cases r1; cases r2) blast+
qed

subsection \<open>The destination of an import\<close>

lemma media_ext:
  assumes "isMediaFile filename"
  shows "3 \<le> length (Ext filename)" "\<not> HasSuffix (s @ Ext filename) ''.partial''" "slash \<notin> set (Ext filename)"
proof -
  let ?x = "Ext filename"
  have m: "ToLower ?x \<in> set mediaExtensions" using assms by (simp add: isMediaFile_def)
  have "y \<in> set mediaExtensions \<Longrightarrow> (length y = 4 \<or> length y = 3) \<and> last y \<noteq> CHR ''l'' \<and> y \<noteq> []" for y
    by (auto simp: mediaExtensions_def)
  from this [OF m] have l: "length ?x = 4 \<or> length ?x = 3" "?x \<noteq> []" "lower_char (last ?x) \<noteq> CHR ''l''"
    by (auto simp: ToLower_def last_map)
  then show "3 \<le> length ?x" by auto
  have "last ?x \<noteq> CHR ''l''" using l(3) by (auto simp: lower_char_def is_upper_def char_code_def)
  then show "\<not> HasSuffix (s @ ?x) ''.partial''"
    using l(2) by (auto simp: HasSuffix_def suffix_def dest: arg_cong [where f = last])
  show "slash \<notin> set ?x"
    by (auto simp: Ext_def Let_def slash_def dest!: set_takeWhileD)
qed

lemma BuildFilename_no_slash: "slash \<notin> set (BuildFilename fmt info)"
proof -
  have "slash \<in> set illegal_chars" by (simp add: illegal_chars_def slash_def)
  then have "slash \<notin> set (cleanFilename s)" for s
    using TrimSpace_subset [of "filter (\<lambda>c. c \<notin> set illegal_chars) s"]
    unfolding cleanFilename_filter by auto
  then show ?thesis by (simp add: BuildFilename_def Let_def)
qed

lemma proper_import_name:
  assumes "isMediaFile filename"
  shows "proper (import_name series parsed ep @ Ext filename)"
proof -
  have "3 \<le> length (import_name series parsed ep @ Ext filename)" using media_ext(1) [OF assms] by simp
  moreover have "slash \<notin> set (import_name series parsed ep @ Ext filename)"
    using media_ext(3) [OF assms] BuildFilename_no_slash by (simp add: import_name_def)
  ultimately show ?thesis by (auto simp: proper_def simp del: length_append)
qed

lemma proper_season_folder: "proper (BuildSeasonFolder n)"
proof -
  have "slash \<notin> set (pad2 n)"
    using pad2_no_brace(2) [of n] by (auto simp: illegal_chars_def slash_def)
  then show ?thesis by (simp add: proper_def BuildSeasonFolder_def slash_def)
qed

lemma import_path_eq:
  "isMediaFile filename \<Longrightarrow> import_path series parsed ep filename =
     BuildSeasonFolder (pe_SeasonNumber parsed) @ slash # import_name series parsed ep @ Ext filename"
  unfolding import_path_def by (intro Join2_proper proper_season_folder proper_import_name)

text \<open>The folder and the name of the imported file.\<close>

definition import_dir :: "Series \<Rightarrow> ParsedEpisodeInfo \<Rightarrow> string" where
  "import_dir series parsed = Clean (se_Path series @ slash # BuildSeasonFolder (pe_SeasonNumber parsed))"

lemma resolve_import_dir:
  "resolve (import_dir series parsed) = resolve (se_Path series) @ [BuildSeasonFolder (pe_SeasonNumber parsed)]"
  by (simp add: import_dir_def resolve_child proper_season_folder)

lemma import_dst:
  assumes "isMediaFile filename" "se_Path series \<noteq> ''''"
  shows "filepath_Join [se_Path series, import_path series parsed ep filename] =
    import_dir series parsed @ slash # (import_name series parsed ep @ Ext filename)"
proof -
  have "filepath_Join [se_Path series, import_path series parsed ep filename]
      = Clean (se_Path series @ slash # import_path series parsed ep filename)"
    using assms(2) by (simp add: filepath_Join_def slash_def)
  then show ?thesis
    using Clean_child [OF proper_season_folder proper_import_name [OF assms(1)]] import_path_eq [OF assms(1)]
    by (simp add: import_dir_def)
qed

subsection \<open>An import never touches a file outside the folder of the series\<close>

lemma Ext_suffix: "\<exists>s. p = s @ Ext p"
proof (cases "CHR ''.'' \<in> set (takeWhile (\<lambda>c. c \<noteq> slash) (rev p))")
  case True
  let ?r = "takeWhile (\<lambda>c. c \<noteq> slash) (rev p)" and ?nd = "\<lambda>c. c \<noteq> CHR ''.''"
  have "dropWhile ?nd ?r \<noteq> []" using True by (simp add: dropWhile_eq_Nil_conv) 
  then obtain y ys where y: "dropWhile ?nd ?r = y # ys" by (cases "dropWhile ?nd ?r") auto
  then have "y = CHR ''.''" using hd_dropWhile [of ?nd ?r] by simp
  then have "?r = takeWhile ?nd ?r @ ''.'' @ ys" using y takeWhile_dropWhile_id [of ?nd ?r] by simp
  then have "rev p = (takeWhile ?nd ?r @ ''.'') @ ys @ dropWhile (\<lambda>c. c \<noteq> slash) (rev p)"
    using takeWhile_dropWhile_id [of "\<lambda>c. c \<noteq> slash" "rev p"] by (metis append.assoc)
  then have "p = rev (ys @ dropWhile (\<lambda>c. c \<noteq> slash) (rev p)) @ rev (takeWhile ?nd ?r @ ''.'')"
    by (metis rev_append rev_rev_ident)
  moreover have "Ext p = rev (takeWhile ?nd ?r @ ''.'')" using True by (simp only: Ext_def Let_def if_True)
  ultimately show ?thesis by (simp only:) blast
next
  case False
  then show ?thesis by (simp add: Ext_def Let_def)
qed

lemma resolve_folder_file: "proper name \<Longrightarrow> resolve (filepath_Join [folder, name]) = resolve folder @ [name]"
proof (cases "folder = []")
  case True
  assume p: "proper name"
  have "resolve name = [name]" using resolve_child [OF p, of "[]"] p
    by (simp add: resolve_def split_on_none proper_def)
  moreover have "resolve [] = []" by (simp add: resolve_def)
  ultimately show ?thesis using True p by (simp add: filepath_Join_def proper_def)
qed (simp add: resolve_Join2)

lemma media_source_not_partial:
  assumes "proper name" "isMediaFile name"
  shows "\<not> is_partial (resolve (filepath_Join [folder, name]))"
  using media_ext(2) [OF assms(2)] Ext_suffix [of name] resolve_folder_file [OF assms(1)]
  by (metis is_partial_def last_snoc)

text \<open>What an import may change of the files: only what is below the given folder.\<close>

definition confined :: "path \<Rightarrow> fs \<Rightarrow> fs \<Rightarrow> bool" where
  "confined d f g \<longleftrightarrow> (\<forall>p. \<not> strict_prefix d p \<longrightarrow> content g p = content f p)"

lemma confined_refl [simp]: "confined d f f"
  by (simp add: confined_def)

lemma confined_trans: "confined d f g \<Longrightarrow> confined d g h \<Longrightarrow> confined d f h"
  by (simp add: confined_def)

lemma on_store_fs [simp]: "snd (snd (on_store m w)) = snd w"
  by (simp add: on_store_def split: prod.split)

lemma on_store_run: "on_store m w = (r, w') \<Longrightarrow> snd w' = snd w"
  using on_store_fs [of m w] by simp

lemma import_matched_fs:
  "snd (snd (import_matched v st srcPath filename sz series parsed ep downloadID w)) =
   snd (moveFile v srcPath (filepath_Join [se_Path series, import_path series parsed ep filename]) (snd w))"
  by (auto simp: import_matched_def Let_def bindA_def wrapA_def on_fs_def dest!: on_store_run
      split: sum.splits prod.splits)

lemma import_matched_confined:
  assumes "tidy (snd w)" "isMediaFile filename" "se_Path series \<noteq> ''''" "\<not> is_partial (resolve srcPath)"
    and "content (snd w) (resolve srcPath) = Some c"
    and "import_matched v st srcPath filename sz series parsed ep downloadID w = (r, w')"
  shows "tidy (snd w') \<and> confined (resolve (se_Path series)) (snd w) (snd w')"
proof -
  let ?dst = "filepath_Join [se_Path series, import_path series parsed ep filename]"
  let ?b = "import_name series parsed ep @ Ext filename"
  note dst = import_dst [OF assms(2,3), of parsed ep] and b = proper_import_name [OF assms(2), of series parsed ep]
  obtain rm g where mv: "moveFile v srcPath ?dst (snd w) = (rm, g)" by fastforce
  have g: "snd w' = g"
    using import_matched_fs [of v st srcPath filename sz series parsed ep downloadID w] assms(6) mv by simp
  have p: "resolve ?dst = resolve (se_Path series) @ [BuildSeasonFolder (pe_SeasonNumber parsed), ?b]"
    using resolve_child [OF b, of "import_dir series parsed"] by (simp add: dst resolve_import_dir)
  have q: "resolve (?dst @ ''.partial'') = resolve (se_Path series) @ [BuildSeasonFolder (pe_SeasonNumber parsed), ?b @ ''.partial'']"
    using resolve_child [OF proper_partial [OF b], of "import_dir series parsed"] by (simp add: dst resolve_import_dir)
  have np: "\<not> is_partial (resolve ?dst)"
    using media_ext(2) [OF assms(2)] by (simp add: p is_partial_def)
  have pq: "is_partial (resolve (?dst @ ''.partial''))" by (simp add: q is_partial_def HasSuffix_def suffix_def)
  then have un: "unaliased (snd w) (resolve (?dst @ ''.partial''))"
    and ne: "resolve (?dst @ ''.partial'') \<noteq> resolve srcPath" using assms(1,4) by (auto simp: tidy_def)
  have wf: "wf_fs (snd w)" using assms(1) by (simp add: tidy_def)
  from moveFile_moved [OF wf dst b un assms(5) ne mv]
  have "moved (snd w) (resolve ?dst) (resolve (?dst @ ''.partial'')) c rm g" .
  moreover have "strict_prefix (resolve (se_Path series)) (resolve ?dst)"
    "strict_prefix (resolve (se_Path series)) (resolve (?dst @ ''.partial''))"
    unfolding p q by (simp_all add: strict_prefix_def)
  ultimately have "confined (resolve (se_Path series)) (snd w) g"
    unfolding moved_def confined_def by metis
  then show ?thesis using g tidy_moveFile [OF assms(1) dst b np assms(4) mv] by simp
qed

lemma importFile_confined:
  assumes "tidy (snd w)" "isMediaFile filename" "se_Path series \<noteq> ''''" "\<not> is_partial (resolve srcPath)"
    and "importFile v st srcPath filename series episodes downloadID w = (r, w')"
  shows "tidy (snd w') \<and> confined (resolve (se_Path series)) (snd w) (snd w')"
proof (cases "\<exists>c parsed ep. content (snd w) (resolve srcPath) = Some c \<and>
    import_matched v st srcPath filename (int (length c)) series parsed ep downloadID w = (r, w')")
  case True
  then show ?thesis using import_matched_confined [OF assms(1-4)] by blast
next
  case False
  then have "w' = w" using assms(5)
    by (auto simp: importFile_def bindA_def wrapA_def on_fs_def os_Stat_def oscall_def retA_def failA_def content_def
        split: option.splits entry.splits if_splits sum.splits)
  then show ?thesis using assms(1) by simp
qed

lemma import_loop_confined:
  assumes "tidy (snd w)" "se_Path series \<noteq> ''''" "\<forall>x\<in>set es. proper (fst x)"
  shows "tidy (snd (import_loop v st folder series episodes downloadID es w)) \<and>
    confined (resolve (se_Path series)) (snd w) (snd (import_loop v st folder series episodes downloadID es w))"
  using assms
proof (induction es arbitrary: w)
  case (Cons x es)
  obtain name isdir where x: "x = (name, isdir)" by fastforce
  define w1 where "w1 = (if isdir \<or> \<not> isMediaFile name then w
        else snd (importFile v st (filepath_Join [folder, name]) name series episodes downloadID w))"
  have one: "tidy (snd w1) \<and> confined (resolve (se_Path series)) (snd w) (snd w1)"
  proof (cases "isdir \<or> \<not> isMediaFile name")
    case False
    then have m: "isMediaFile name" "proper name" using Cons.prems(3) x by auto
    show ?thesis
      using importFile_confined [OF Cons.prems(1) m(1) Cons.prems(2) media_source_not_partial [OF m(2,1)]
        prod.collapse [symmetric]] False by (simp add: w1_def)
  qed (use Cons.prems(1) in \<open>simp add: w1_def\<close>)
  have step: "import_loop v st folder series episodes downloadID (x # es) w =
      import_loop v st folder series episodes downloadID es w1" unfolding x w1_def by (rule import_loop.simps)
  have "\<forall>x\<in>set es. proper (fst x)" using Cons.prems(3) by simp
  from Cons.IH [OF conjunct1 [OF one] Cons.prems(2) this] one show ?case
    unfolding step using confined_trans by blast
qed simp

subsection \<open>What the service needs of the stores\<close>

text \<open>The columns of a file record that its creator gives.\<close>

definition file_data :: "EpisodeFile \<Rightarrow> int \<times> int \<times> string \<times> int \<times> string \<times> string" where
  "file_data f = (ef_SeriesID f, ef_SeasonNumber f, ef_RelativePath f, ef_Size f, ef_ReleaseGroup f, ef_QualityName f)"

locale import_stores =
  fixes st :: "'s ImportStores"
    and inv :: "'s \<Rightarrow> bool"
    and series_of :: "'s \<Rightarrow> int \<Rightarrow> Series option"
    and episode_of :: "'s \<Rightarrow> int \<Rightarrow> Episode option"
    and file_of :: "'s \<Rightarrow> int \<Rightarrow> EpisodeFile option"
    and entry_of :: "'s \<Rightarrow> int \<Rightarrow> Entry option"
  assumes series_get: "inv s \<Longrightarrow> series_of s i = Some y \<Longrightarrow> im_SeriesGet st i s = (Inr y, s)"
    and series_id: "inv s \<Longrightarrow> series_of s i = Some y \<Longrightarrow> se_ID y = i"
    and episodes_list: "inv s \<Longrightarrow> \<exists>xs. im_EpisodesListForSeries st i s = (Inr xs, s) \<and>
          (\<forall>x. x \<in> set xs \<longleftrightarrow> episode_of s (ep_ID x) = Some x \<and> ep_SeriesID x = i)"
    and file_create: "\<lbrakk>inv s; series_of s (ef_SeriesID f) \<noteq> None; wrap32 (ef_SeasonNumber f) = ef_SeasonNumber f;
          im_FilesCreate st f s = (rf, s')\<rbrakk> \<Longrightarrow>
          inv s' \<and> series_of s' = series_of s \<and> episode_of s' = episode_of s \<and> entry_of s' = entry_of s \<and>
          (\<exists>n z. file_of s n = None \<and> rf = Inr z \<and> ef_ID z = n \<and> file_data z = file_data f \<and>
            file_of s' = (file_of s)(n \<mapsto> z))"
    and episode_update: "\<lbrakk>inv s; episode_of s (ep_ID x) = Some x;
          im_EpisodesUpdate st (x\<lparr>ep_EpisodeFileID := k\<rparr>) s = (u, s')\<rbrakk> \<Longrightarrow>
          u = Inr () \<and> inv s' \<and> series_of s' = series_of s \<and> file_of s' = file_of s \<and> entry_of s' = entry_of s \<and>
          (\<exists>t. episode_of s' = (episode_of s)(ep_ID x \<mapsto> x\<lparr>ep_EpisodeFileID := k, ep_UpdatedAt := t\<rparr>))"
    and history_create: "\<lbrakk>inv s; he_Data h = None; im_HistoryCreate st h s = (rh, s')\<rbrakk> \<Longrightarrow>
          inv s' \<and> series_of s' = series_of s \<and> episode_of s' = episode_of s \<and> file_of s' = file_of s \<and>
          (\<exists>j t d. entry_of s j = None \<and> entry_of s' = (entry_of s)(j \<mapsto> recorded j t d h))"
begin

lemma import_matched_ok:
  assumes inv: "inv s" and v: "fs_quiet v" and wf: "tidy f" and media: "isMediaFile filename"
    and series: "series_of s (se_ID series) = Some series" "se_Path series \<noteq> ''''"
    and ep: "episode_of s (ep_ID ep) = Some ep"
    and src: "content f (resolve srcPath) = Some c" "\<not> is_partial (resolve srcPath)"
    and way: "clear_way f (import_dir series parsed) (import_name series parsed ep @ Ext filename)"
  shows "\<exists>s' g k y t j t' d'.
    import_matched v st srcPath filename (int (length c)) series parsed ep downloadID (s, f) = (Inr (), (s', g)) \<and>
    inv s' \<and>
    content g (resolve (filepath_Join [se_Path series, import_path series parsed ep filename])) = Some c \<and>
    file_of s k = None \<and> file_of s' = (file_of s)(k \<mapsto> y) \<and>
    file_data y = file_data (import_file series parsed (import_path series parsed ep filename) (int (length c))) \<and>
    episode_of s' = (episode_of s)(ep_ID ep \<mapsto> ep\<lparr>ep_EpisodeFileID := Some k, ep_UpdatedAt := t\<rparr>) \<and>
    entry_of s j = None \<and>
    entry_of s' = (entry_of s)(j \<mapsto> recorded j t' d' (import_entry series parsed ep filename downloadID))"
proof -
  let ?rel = "import_path series parsed ep filename"
  let ?dst = "filepath_Join [se_Path series, ?rel]"
  note dst = import_dst [OF media series(2), of parsed ep] and b = proper_import_name [OF media, of series parsed ep]
  obtain g where mv: "moveFile v srcPath ?dst f = (Inr (), g)"
    using moveFile_ok [OF v dst b way src(1)] by blast
  have "content g (resolve ?dst) = Some c"
  proof -
    have q: "resolve (?dst @ ''.partial'') =
        resolve (import_dir series parsed) @ [(import_name series parsed ep @ Ext filename) @ ''.partial'']"
      using resolve_child [OF proper_partial [OF b], of "import_dir series parsed"] by (simp add: dst)
    then have "is_partial (resolve (?dst @ ''.partial''))" by (simp only: is_partial_suffix)
    then have "unaliased f (resolve (?dst @ ''.partial''))" "resolve (?dst @ ''.partial'') \<noteq> resolve srcPath"
      using wf src(2) by (auto simp: tidy_def)
    from moveFile_moved [OF _ dst b this(1) src(1) this(2) mv] wf show ?thesis by (simp add: moved_def tidy_def)
  qed
  moreover
  let ?nf = "import_file series parsed ?rel (int (length c))"
  obtain rf s1 where fc: "im_FilesCreate st ?nf s = (rf, s1)" by fastforce
  have int32: "wrap32 (wrap32 x) = wrap32 x" for x by (simp add: wrap32_def mod_simps)
  have "series_of s (ef_SeriesID ?nf) \<noteq> None" "wrap32 (ef_SeasonNumber ?nf) = ef_SeasonNumber ?nf"
    using series(1) by (simp_all add: import_file_def int32)
  from file_create [OF inv this fc] obtain k y where s1: "inv s1" "episode_of s1 = episode_of s" "entry_of s1 = entry_of s"
    "rf = Inr y" "ef_ID y = k" "file_data y = file_data ?nf" "file_of s k = None" "file_of s1 = (file_of s)(k \<mapsto> y)"
    by blast
  obtain u s2 where up: "im_EpisodesUpdate st (ep\<lparr>ep_EpisodeFileID := Some k\<rparr>) s1 = (u, s2)" by fastforce
  have "episode_of s1 (ep_ID ep) = Some ep" using ep s1(2) by simp
  from episode_update [OF s1(1) this up] obtain t where s2: "u = Inr ()" "inv s2" "file_of s2 = file_of s1"
    "entry_of s2 = entry_of s1" "episode_of s2 = (episode_of s1)(ep_ID ep \<mapsto> ep\<lparr>ep_EpisodeFileID := Some k, ep_UpdatedAt := t\<rparr>)"
    by blast
  let ?h = "import_entry series parsed ep filename downloadID"
  obtain rh s3 where hc: "im_HistoryCreate st ?h s2 = (rh, s3)" by fastforce
  have "he_Data ?h = None" by (simp add: import_entry_def)
  from history_create [OF s2(2) this hc] obtain j t' d' where s3: "inv s3" "episode_of s3 = episode_of s2"
    "file_of s3 = file_of s2" "entry_of s2 j = None" "entry_of s3 = (entry_of s2)(j \<mapsto> recorded j t' d' ?h)" by blast
  have "import_matched v st srcPath filename (int (length c)) series parsed ep downloadID (s, f) = (Inr (), (s3, g))"
    using mv fc up hc s1(4,5) s2(1)
    by (simp add: import_matched_def Let_def bindA_def wrapA_def on_fs_def on_store_def)
  ultimately show ?thesis using s1 s2 s3 by (metis (no_types, lifting))
qed

end

subsection \<open>The service on SQLite\<close>

definition on_lib :: "(library_db, 'a) act \<Rightarrow> (library_db \<times> SqHistory table, 'a) act" where
  "on_lib m s = (let (r, d) = m (fst s) in (r, (d, snd s)))"

definition on_history :: "(SqHistory table, 'a) act \<Rightarrow> (library_db \<times> SqHistory table, 'a) act" where
  "on_history m s = (let (r, h) = m (snd s) in (r, (fst s, h)))"

definition sqlite_import_stores :: "dbenv \<Rightarrow> (library_db \<times> SqHistory table) ImportStores" where
  "sqlite_import_stores e = \<lparr>
     im_SeriesGet = (\<lambda>i. on_lib (sqliteSeries_Get e i)),
     im_EpisodesListForSeries = (\<lambda>i. on_lib (sqliteEpisodes_ListForSeries e i)),
     im_FilesCreate = (\<lambda>f. on_lib (sqliteFiles_Create (app_publish e) e f)),
     im_EpisodesUpdate = (\<lambda>x. on_lib (sqliteEpisodes_Update (app_publish e) e x)),
     im_HistoryCreate = (\<lambda>x. on_history (sqliteHistory_Create e x))\<rparr>"

definition import_inv :: "library_db \<times> SqHistory table \<Rightarrow> bool" where
  "import_inv s \<longleftrightarrow> catalog_inv {} (fst s) \<and> wf_table hq_ID (snd s)"

definition series_view :: "library_db \<Rightarrow> int \<Rightarrow> Series option" where
  "series_view d i = map_option seriesFromSqlite (tbl sr_ID (db_series d) i)"

definition file_view :: "library_db \<Rightarrow> int \<Rightarrow> EpisodeFile option" where
  "file_view d i = map_option episodeFileFromSqlite (tbl sf_ID (db_files d) i)"

lemma wrap32_idem [simp]: "wrap32 (wrap32 x) = wrap32 x"
  by (simp add: wrap32_def mod_simps)

lemma sqlite_format_parse [simp]: "sqlite_format (parseSqliteTime s) = s"
  by (simp add: sqlite_format_def parseSqliteTime_def second_ns_def)

text \<open>Writing back an episode that was read changes nothing but what the caller changed.\<close>

lemma episode_write_back:
  assumes "x = episodeFromSqlite r"
  shows "episodeFromSqlite (r\<lparr>sp_AbsoluteEpisodeNumber := ep_AbsoluteEpisodeNumber x, sp_Title := ep_Title x,
      sp_Overview := ep_Overview x, sp_AirDateUtc := nullStringFromTimePtr (ep_AirDateUtc x),
      sp_Monitored := boolToInt64 (ep_Monitored x), sp_EpisodeFileID := k, sp_UpdatedAt := u\<rparr>)
    = x\<lparr>ep_EpisodeFileID := k, ep_UpdatedAt := parseSqliteTime u\<rparr>"
  unfolding assms
  by (cases "sp_AbsoluteEpisodeNumber r"; cases "sp_AirDateUtc r"; cases k)
     (simp_all add: episodeFromSqlite_def nullStringFromTimePtr_def ptrFromNullString_def ptrFromNullInt32_def
        ptrFromNullInt64_def boolToInt64_def)

lemma sqlite_episode_update:
  assumes "catalog_inv {} d" "quiet e" "episode_view d (ep_ID x) = Some x"
    and "sqliteEpisodes_Update (app_publish e) e (x\<lparr>ep_EpisodeFileID := k\<rparr>) d = (u, d')"
  shows "u = Inr () \<and> catalog_inv {} d' \<and> series_view d' = series_view d \<and> file_view d' = file_view d \<and>
    (\<exists>t. episode_view d' = (episode_view d)(ep_ID x \<mapsto> x\<lparr>ep_EpisodeFileID := k, ep_UpdatedAt := t\<rparr>))"
proof -
  let ?x = "x\<lparr>ep_EpisodeFileID := k\<rparr>" and ?t = "sqlite_format (env_now e)"
  from assms(3) obtain row where row: "tbl sp_ID (db_episodes d) (ep_ID x) = Some row" "x = episodeFromSqlite row"
    by (auto simp: episode_view_def)
  have "tbl sp_ID (db_episodes d) (ep_ID ?x) = Some row" "sp_SeriesID row = ep_SeriesID ?x" using row by simp_all
  note up = episodes_update_inv [OF assms(1,2,4) this]
  have "episode_view d' j = ((episode_view d)(ep_ID x \<mapsto> x\<lparr>ep_EpisodeFileID := k, ep_UpdatedAt := parseSqliteTime ?t\<rparr>)) j" for j
  proof (cases "j = ep_ID x")
    case True
    have "sp_ID row = ep_ID x" using tbl_SomeD [OF row(1)] by simp
    then show ?thesis using up row(1) True episode_write_back [OF row(2), where k = k and u = ?t]
      by (simp add: episode_view_def tbl_upd_rows)
  next
    case False
    have "tbl sp_ID (db_episodes d') j = tbl sp_ID (db_episodes d) j"
      using up False by (auto simp: tbl_upd_rows dest: tbl_SomeD intro!: option.map_cong [where g = id, simplified option.map_id0 id_apply])
    then show ?thesis using False by (simp add: episode_view_def)
  qed
  then have "episode_view d' = (episode_view d)(ep_ID x \<mapsto> x\<lparr>ep_EpisodeFileID := k, ep_UpdatedAt := parseSqliteTime ?t\<rparr>)"
    by (rule ext)
  moreover have "series_view d' = series_view d" "file_view d' = file_view d"
    using up by (simp_all add: series_view_def file_view_def fun_eq_iff)
  ultimately show ?thesis using up by blast
qed

lemma sqlite_file_create:
  assumes "catalog_inv {} d" "quiet e" "series_view d (ef_SeriesID f) \<noteq> None"
    and "wrap32 (ef_SeasonNumber f) = ef_SeasonNumber f" "sqliteFiles_Create (app_publish e) e f d = (r, d')"
  shows "catalog_inv {} d' \<and> series_view d' = series_view d \<and> episode_view d' = episode_view d \<and>
    (\<exists>n z. file_view d n = None \<and> r = Inr z \<and> ef_ID z = n \<and> file_data z = file_data f \<and>
      file_view d' = (file_view d)(n \<mapsto> z))"
proof -
  let ?n = "next_id (db_files d)" and ?mk = "new_file_row e f"
  have "has_series d (ef_SeriesID f)" using assms(3) by (auto simp: series_view_def has_series_def)
  note ok = files_create_ok [OF assms(1,2,5) this]
  have wf: "wf_table sf_ID (db_files d)" using assms(1) by (simp add: catalog_inv_def tables_ok_def)
  have mk: "sf_ID (?mk i) = i" for i by (simp add: new_file_row_def)
  let ?z = "episodeFileFromSqlite (?mk ?n)"
  have "file_view d ?n = None" "file_view d' = (file_view d)(?n \<mapsto> ?z)"
    using ok tbl_insert [OF wf mk] wf by (auto simp: file_view_def)
  moreover have "ef_ID ?z = ?n" "file_data ?z = file_data f"
    using assms(4) by (simp_all add: episodeFileFromSqlite_def new_file_row_def file_data_def)
  ultimately show ?thesis using ok by (auto simp: series_view_def episode_view_def)
qed

interpretation sqimport: import_stores "sqlite_import_stores e" "\<lambda>s. import_inv s \<and> quiet e"
  "\<lambda>s. series_view (fst s)" "\<lambda>s. episode_view (fst s)" "\<lambda>s. file_view (fst s)" "\<lambda>s. sqliteHistory_view (snd s)" for e
proof (unfold_locales, goal_cases)
  case (1 s i y)
  then have "sqliteSeries_Get e i (fst s) = (Inr y, fst s)"
    by (auto simp: sqliteSeries_Get_def sqlite_GetSeries_def rowA_def on_series_def sql_one_id series_view_def
        split: option.splits)
  then show ?case by (simp add: sqlite_import_stores_def on_lib_def)
next
  case (2 s i y)
  then show ?case by (auto simp: series_view_def seriesFromSqlite_def dest: tbl_SomeD)
next
  case (3 s i)
  then show ?case using sink_list [of "fst s" e i]
    by (auto simp: sqlite_import_stores_def on_lib_def import_inv_def)
next
  case (4 s f rf s')
  obtain r d' where run: "sqliteFiles_Create (app_publish e) e f (fst s) = (r, d')" by fastforce
  then have "rf = r" "s' = (d', snd s)" using 4(4) by (simp_all add: sqlite_import_stores_def on_lib_def)
  then show ?case using sqlite_file_create [OF _ _ _ 4(3) run] 4(1,2) by (simp add: import_inv_def)
next
  case (5 s x k u s')
  obtain r d' where run: "sqliteEpisodes_Update (app_publish e) e (x\<lparr>ep_EpisodeFileID := k\<rparr>) (fst s) = (r, d')" by fastforce
  then have "u = r" "s' = (d', snd s)" using 5(3) by (simp_all add: sqlite_import_stores_def on_lib_def)
  then show ?case using sqlite_episode_update [OF _ _ _ run] 5(1,2) by (simp add: import_inv_def)
next
  case (6 s h rh s')
  obtain r t' where run: "sqliteHistory_Create e h (snd s) = (r, t')" by fastforce
  then have "rh = r" "s' = (fst s, t')" using 6(3) by (simp_all add: sqlite_import_stores_def on_history_def)
  then show ?case using sqlite_create [OF _ _ run] 6(1) by (auto simp: import_inv_def)
qed

subsection \<open>Properties of imports\<close>

text \<open>C10: Importing a completed download never damages a file outside the folder of the series. Whatever
  the stores answer and whichever file-system calls fail on the way, after \<open>ProcessFolder\<close> the
  content of every path that is not below the folder of the series it read is what it was; without
  such a series no file changes at all. The file system stays well formed.\<close>

theorem ProcessFolder_confined:
  assumes "tidy f" and "\<forall>p. lookup f p \<noteq> None \<longrightarrow> list_all proper p"
    and "\<forall>x s1. im_SeriesGet st seriesID s = (Inr x, s1) \<longrightarrow> se_Path x \<noteq> ''''"
    and "ProcessFolder v st folder seriesID downloadID (s, f) = (r, (s', g))"
  shows "tidy g \<and> (\<forall>p. content g p \<noteq> content f p \<longrightarrow>
    (\<exists>x s1. im_SeriesGet st seriesID s = (Inr x, s1) \<and> strict_prefix (resolve (se_Path x)) p))"
proof (cases "g = f")
  case False
  have proper: "\<forall>x\<in>set (dir_entries f d). proper (fst x)" for d
  proof
    fix x assume "x \<in> set (dir_entries f d)"
    then obtain p y where p: "(p, y) \<in> set (fs_names f)" "p \<noteq> []" "x = (last p, y = DirE)"
      by (auto simp: dir_entries_def)
    then have "p \<in> fst ` set (fs_names f)" by (force simp: image_iff)
    then have "lookup f p \<noteq> None" using p(2) by (simp add: lookup_def map_of_eq_None_iff)
    then have "list_all proper p" using assms(2) by blast
    then show "proper (fst x)" using p(2,3) by (simp add: list_all_iff)
  qed
  from False assms(4) obtain x s1 eps s2 where x: "im_SeriesGet st seriesID s = (Inr x, s1)"
    and g: "import_loop v st folder x eps downloadID (dir_entries f (resolve folder)) (s2, f) = (s', g)"
    by (auto simp: ProcessFolder_def bindA_def wrapA_def on_fs_def on_store_def os_ReadDir_def oscall_def retA_def
        split: option.splits entry.splits if_splits sum.splits prod.splits)
  from x assms(3) have "se_Path x \<noteq> ''''" by blast
  from import_loop_confined [of "(s2, f)", OF _ this proper, of v st folder eps downloadID "resolve folder"] assms(1)
  have "tidy g" "confined (resolve (se_Path x)) f g" unfolding g by simp_all
  then show ?thesis using x unfolding confined_def by blast
qed (use assms(1) in simp)

definition example_name :: string where "example_name = ''A.S01E01.mkv''"

definition example_fs :: fs where
  "example_fs = \<lparr>fs_names = [([''dl''], DirE), ([''dl'', example_name], FileE 0)],
     fs_inodes = (\<lambda>_. replicate 41943040 (CHR ''x'')), fs_next = 1\<rparr>"

definition example_state :: "library_db \<times> SqHistory table" where
  "example_state = (example_with_episode, empty_table)"

lemma example_lookup: "lookup example_fs p = (if p = [] then Some DirE else if p = [''dl''] then Some DirE
    else if p = [''dl'', example_name] then Some (FileE 0) else None)"
  by (simp add: example_fs_def lookup_def)

lemma example_tidy: "tidy example_fs"
  by (auto simp: tidy_def wf_fs_def is_dir_def unaliased_def is_partial_def HasSuffix_def suffix_def example_lookup
      example_name_def example_fs_def [THEN arg_cong [where f = fs_next]] split: if_splits)

lemma example_proper: "lookup example_fs p \<noteq> None \<Longrightarrow> list_all proper p"
  by (auto simp: example_lookup proper_def example_name_def slash_def split: if_splits)

lemma example_content: "content example_fs [''dl'', example_name] = Some (replicate 41943040 (CHR ''x''))"
  by (simp add: content_def example_lookup) (simp add: example_fs_def)

lemma example_inv: "import_inv example_state"
proof -
  have "catalog_inv {} example_with_episode"
    using example_reachable by (induction rule: rtranclp_induct) (auto intro: empty_library_inv catalog_step_inv)
  then show ?thesis by (simp add: import_inv_def example_state_def)
qed

lemma example_series_view: "\<exists>y. series_view (fst example_state) 1 = Some y \<and> se_ID y = 1 \<and>
    se_Path y = ''/tv/Breaking Bad'' \<and> se_Title y = ''Breaking Bad''"
  by (simp add: example_state_def example_simps series_view_def)

theorem ProcessFolder_confined_witness:
  "content (snd (snd (ProcessFolder \<lparr>fe_fault = (\<lambda>op p. if op = ''Link'' then Some ''EXDEV'' else if op = ''Copy'' then Some ''ENOSPC'' else None),
       fe_written = (\<lambda>_. 7)\<rparr> (sqlite_import_stores (quiet_at 0)) ''/dl'' 1 ''x'' (example_state, example_fs)))) [''dl'', example_name]
   = Some (replicate 41943040 (CHR ''x''))" (is "content (snd (snd (?P (example_state, example_fs)))) _ = _")
proof -
  obtain y where y: "series_view (fst example_state) 1 = Some y" "se_Path y = ''/tv/Breaking Bad''"
    using example_series_view by blast
  from sqimport.series_get [where e = "quiet_at 0", OF _ y(1)] example_inv
  have get: "im_SeriesGet (sqlite_import_stores (quiet_at 0)) 1 example_state = (Inr y, example_state)" by simp
  obtain r s' g where run: "?P (example_state, example_fs) = (r, (s', g))" by (rule prod_cases3)
  have path: "\<forall>x s1. im_SeriesGet (sqlite_import_stores (quiet_at 0)) 1 example_state = (Inr x, s1) \<longrightarrow> se_Path x \<noteq> ''''"
    using get y(2) by auto
  have "\<not> strict_prefix (resolve (se_Path y)) [''dl'', example_name]"
  proof -
    have "resolve (se_Path y) = [''tv'', ''Breaking Bad'']" unfolding y(2) by code_simp
    then show ?thesis by (simp add: strict_prefix_def prefix_def)
  qed
  then have "content g [''dl'', example_name] = content example_fs [''dl'', example_name]"
    using ProcessFolder_confined [OF example_tidy _ path run] example_proper get by auto
  then show ?thesis using run example_content by simp
qed

text \<open>While a folder still holds an archive or partial file the import leaves everything alone: no
  store is called and no file changes.\<close>

theorem ProcessFolder_waits:
  assumes "os_ReadDir v folder f = (Inr entries, f)" and "(name, False) \<in> set entries"
    and "ToLower (Ext name) \<in> {''.rar'', ''.r00'', ''.part''}"
  shows "ProcessFolder v st folder seriesID downloadID (s, f) = (Inr (), (s, f))"
proof -
  have "\<exists>x\<in>set entries. is_unpacking x"
    using assms(2,3) by (intro bexI [of _ "(name, False)"]) (auto simp: is_unpacking_def unpackingExtensions_def)
  then show ?thesis using assms(1)
    by (simp add: ProcessFolder_def bindA_def wrapA_def on_fs_def retA_def)
qed

theorem ProcessFolder_waits_witness:
  "ProcessFolder fs_calm (sqlite_import_stores (quiet_at 0)) ''/dl'' 1 ''x''
     (example_state, \<lparr>fs_names = [([''dl''], DirE), ([''dl'', ''a.mkv''], FileE 0), ([''dl'', ''a.R00''], FileE 1)],
        fs_inodes = (\<lambda>_. ''''), fs_next = 2\<rparr>)
   = (Inr (), (example_state, \<lparr>fs_names = [([''dl''], DirE), ([''dl'', ''a.mkv''], FileE 0), ([''dl'', ''a.R00''], FileE 1)],
        fs_inodes = (\<lambda>_. ''''), fs_next = 2\<rparr>))" (is "_ (_, ?f) = _")
proof -
  have r: "resolve ''/dl'' = [''dl'']" by code_simp
  then have "os_ReadDir fs_calm ''/dl'' ?f = (Inr (dir_entries ?f [''dl'']), ?f)"
    by (simp add: os_ReadDir_def lookup_def)
  moreover have "(''a.R00'', False) \<in> set (dir_entries ?f [''dl''])" by (simp add: dir_entries_def)
  moreover have "ToLower (Ext ''a.R00'') \<in> {''.rar'', ''.r00'', ''.part''}" by code_simp
  ultimately show ?thesis by (rule ProcessFolder_waits)
qed


lemma example_parse: "\<exists>parsed. ParseTitle (TrimSuffix example_name (Ext example_name)) = Inr parsed \<and>
    pe_SeasonNumber parsed = 1 \<and> pe_EpisodeNumbers parsed = [1]"
proof -
  let ?t = "''A.S01E01''"
  have t: "TrimSuffix example_name (Ext example_name) = ?t" unfolding example_name_def by code_simp
  have "map_option (\<lambda>m. (group m 2, group m 3, group m 4)) (FindStringSubmatch reStandard ?t) =
      Some (''01'', ''01'', '''')" by code_simp
  then obtain m where m: "FindStringSubmatch reStandard ?t = Some m"
    "group m 2 = ''01''" "group m 3 = ''01''" "group m 4 = ''''" by auto
  have "Atoi_value ''01'' = 1" "Atoi ''01'' = Inr 1" by code_simp+
  then have "parseStandard ?t (empty_info ?t) = Inr (True,
      (empty_info ?t)\<lparr>pe_SeriesTitle := cleanTitle (group m 1), pe_SeasonNumber := 1, pe_EpisodeNumbers := [1]\<rparr>)"
    by (simp add: parseStandard_def m Let_def empty_info_def)
  then show ?thesis unfolding t by (simp add: ParseTitle_def)
qed

lemma example_list: "\<exists>eps ep. sqliteEpisodes_ListForSeries (quiet_at 0) 1 (fst example_state) = (Inr eps, fst example_state)
    \<and> findEpisode eps 1 1 = Some ep \<and> ep_ID ep = 1"
  by (simp add: example_state_def example_simps sqliteEpisodes_ListForSeries_def sqlite_ListEpisodesForSeries_def
      sql_many_def findEpisode_def)


end
