(* ===== verification/Housekeeping.thy ===== *)
theory Housekeeping
  imports Importer
begin

section \<open>Housekeeping\<close>

text \<open>
  internal/housekeeping/housekeeping.go with the adapters of internal/app/app.go. The runner
  trims the history, drops the records of files that are gone from the disk, recomputes the
  statistics and compacts the database; failures are logged and the run goes on. The file system is
  only read.
\<close>

record EpisodeFileInfo =
  fi_ID :: int
  fi_SeriesID :: int
  fi_RelativePath :: string

record SeriesInfo =
  si_ID :: int
  si_Path :: string

record 's HousekeepingOptions =
  ho_DeleteBefore :: "int \<Rightarrow> ('s, int) act"
  ho_FilesListForSeries :: "int \<Rightarrow> ('s, EpisodeFileInfo list) act"
  ho_FilesDelete :: "int \<Rightarrow> ('s, unit) act"
  ho_SeriesListAll :: "('s, SeriesInfo list) act"
  ho_Recompute :: "int \<Rightarrow> ('s, unit) act"
  ho_Vacuum :: "('s, unit) act"
  ho_HistoryRetention :: int

definition day_ns :: int where "day_ns = 24 * 3600 * second_ns"

definition NewRunner :: "'s HousekeepingOptions \<Rightarrow> 's HousekeepingOptions" where
  "NewRunner opts = (if ho_HistoryRetention opts \<le> 0 then opts\<lparr>ho_HistoryRetention := 90 * day_ns\<rparr> else opts)"

definition trimHistory :: "int \<Rightarrow> 's HousekeepingOptions \<Rightarrow> 's \<Rightarrow> 's" where
  "trimHistory now r s = snd (ho_DeleteBefore r (now - ho_HistoryRetention r) s)"

text \<open>The test of \<open>cleanOrphanEpisodeFiles\<close>: only an error that says the file does not exist counts.\<close>

definition is_gone :: "fsenv \<Rightarrow> fs \<Rightarrow> string \<Rightarrow> bool" where
  "is_gone v f p = (case fst (os_Stat v p f) of Inl e \<Rightarrow> IsNotExist e | Inr _ \<Rightarrow> False)"

fun clean_files :: "fsenv \<Rightarrow> fs \<Rightarrow> 's HousekeepingOptions \<Rightarrow> string \<Rightarrow> EpisodeFileInfo list \<Rightarrow> 's \<Rightarrow> 's" where
  "clean_files v f r path [] s = s"
| "clean_files v f r path (x # xs) s = clean_files v f r path xs
     (if is_gone v f (filepath_Join [path, fi_RelativePath x]) then snd (ho_FilesDelete r (fi_ID x) s) else s)"

fun clean_series :: "fsenv \<Rightarrow> fs \<Rightarrow> 's HousekeepingOptions \<Rightarrow> SeriesInfo list \<Rightarrow> 's \<Rightarrow> 's" where
  "clean_series v f r [] s = s"
| "clean_series v f r (x # xs) s = clean_series v f r xs
     (case ho_FilesListForSeries r (si_ID x) s of
        (Inl _, s') \<Rightarrow> s'
      | (Inr files, s') \<Rightarrow> clean_files v f r (si_Path x) files s')"

definition cleanOrphanEpisodeFiles :: "fsenv \<Rightarrow> fs \<Rightarrow> 's HousekeepingOptions \<Rightarrow> 's \<Rightarrow> 's" where
  "cleanOrphanEpisodeFiles v f r s = (case ho_SeriesListAll r s of
     (Inl _, s') \<Rightarrow> s' | (Inr series, s') \<Rightarrow> clean_series v f r series s')"

fun recompute_all :: "'s HousekeepingOptions \<Rightarrow> SeriesInfo list \<Rightarrow> 's \<Rightarrow> 's" where
  "recompute_all r [] s = s"
| "recompute_all r (x # xs) s = recompute_all r xs (snd (ho_Recompute r (si_ID x) s))"

definition recalculateStatistics :: "'s HousekeepingOptions \<Rightarrow> 's \<Rightarrow> 's" where
  "recalculateStatistics r s = (case ho_SeriesListAll r s of
     (Inl _, s') \<Rightarrow> s' | (Inr series, s') \<Rightarrow> recompute_all r series s')"

definition vacuumDatabase :: "'s HousekeepingOptions \<Rightarrow> 's \<Rightarrow> 's" where
  "vacuumDatabase r s = snd (ho_Vacuum r s)"

definition Runner_Run :: "int \<Rightarrow> fsenv \<Rightarrow> fs \<Rightarrow> 's HousekeepingOptions \<Rightarrow> 's \<Rightarrow> 's" where
  "Runner_Run now v f r s =
     vacuumDatabase r (recalculateStatistics r (cleanOrphanEpisodeFiles v f r (trimHistory now r s)))"

subsection \<open>The runner of the application on SQLite\<close>

definition episodeFileAdapter_ListForSeries :: "dbenv \<Rightarrow> int \<Rightarrow> (library_db, EpisodeFileInfo list) act" where
  "episodeFileAdapter_ListForSeries e i = mapA (map (\<lambda>f. \<lparr>fi_ID = ef_ID f, fi_SeriesID = ef_SeriesID f,
     fi_RelativePath = ef_RelativePath f\<rparr>)) (sqliteFiles_ListForSeries e i)"

definition seriesAdapter_ListAll :: "dbenv \<Rightarrow> (library_db, SeriesInfo list) act" where
  "seriesAdapter_ListAll e = mapA (map (\<lambda>s. \<lparr>si_ID = se_ID s, si_Path = se_Path s\<rparr>)) (sqliteSeries_List e)"

text \<open>VACUUM rebuilds the file and leaves the rows alone.\<close>

definition SQLitePool_Vacuum :: "dbenv \<Rightarrow> ('s, unit) act" where
  "SQLitePool_Vacuum e = stmt e ''VACUUM'' (retA ())"

definition app_housekeeping :: "dbenv \<Rightarrow> int \<Rightarrow> (library_db \<times> SqHistory table) HousekeepingOptions" where
  "app_housekeeping e retention = NewRunner \<lparr>
     ho_DeleteBefore = (\<lambda>t. on_history (sqliteHistory_DeleteBefore e t)),
     ho_FilesListForSeries = (\<lambda>i. on_lib (episodeFileAdapter_ListForSeries e i)),
     ho_FilesDelete = (\<lambda>i. on_lib (sqliteFiles_Delete (app_publish e) e i)),
     ho_SeriesListAll = on_lib (seriesAdapter_ListAll e),
     ho_Recompute = (\<lambda>i. on_lib (sqliteStats_Recompute e i)),
     ho_Vacuum = SQLitePool_Vacuum e,
     ho_HistoryRetention = retention\<rparr>"

definition retention_of :: "int \<Rightarrow> int" where
  "retention_of retention = (if retention \<le> 0 then 90 * day_ns else retention)"

lemma app_housekeeping_simps [simp]:
  "ho_DeleteBefore (app_housekeeping e n) = (\<lambda>t. on_history (sqliteHistory_DeleteBefore e t))"
  "ho_FilesListForSeries (app_housekeeping e n) = (\<lambda>i. on_lib (episodeFileAdapter_ListForSeries e i))"
  "ho_FilesDelete (app_housekeeping e n) = (\<lambda>i. on_lib (sqliteFiles_Delete (app_publish e) e i))"
  "ho_SeriesListAll (app_housekeeping e n) = on_lib (seriesAdapter_ListAll e)"
  "ho_Recompute (app_housekeeping e n) = (\<lambda>i. on_lib (sqliteStats_Recompute e i))"
  "ho_Vacuum (app_housekeeping e n) = SQLitePool_Vacuum e"
  "ho_HistoryRetention (app_housekeeping e n) = retention_of n"
  by (simp_all add: app_housekeeping_def NewRunner_def retention_of_def)

subsection \<open>What a run does\<close>

definition gone_row :: "fsenv \<Rightarrow> fs \<Rightarrow> string \<Rightarrow> SqEpisodeFile \<Rightarrow> bool" where
  "gone_row v f path r = is_gone v f (filepath_Join [path, sf_RelativePath r])"

text \<open>A state in which only file rows and statistics may differ.\<close>

definition cleaned :: "(SqEpisodeFile \<Rightarrow> bool) \<Rightarrow> library_db \<times> SqHistory table \<Rightarrow> library_db \<times> SqHistory table \<Rightarrow> bool" where
  "cleaned p s s' \<longleftrightarrow> import_inv s' \<and> snd s' = snd s \<and> db_series (fst s') = db_series (fst s)
     \<and> db_episodes (fst s') = db_episodes (fst s) \<and> db_files (fst s') = del_rows p (db_files (fst s))"

lemma del_rows_del_rows: "del_rows p (del_rows q t) = del_rows (\<lambda>r. p r \<or> q r) t"
  by (simp add: del_rows_def conj_commute)

lemma del_rows_cong: "(\<And>r. r \<in> set (rows t) \<Longrightarrow> p r = q r) \<Longrightarrow> del_rows p t = del_rows q t"
  unfolding del_rows_def by (simp cong: filter_cong)

lemma del_rows_none [simp]: "del_rows (\<lambda>_. False) t = t"
  by (simp add: del_rows_def)

lemma cleaned_trans: "cleaned p s s1 \<Longrightarrow> cleaned q s1 s2 \<Longrightarrow> cleaned (\<lambda>r. q r \<or> p r) s s2"
  by (simp add: cleaned_def del_rows_del_rows)

lemma cleaned_cong:
  "cleaned p s s' \<Longrightarrow> (\<And>r. r \<in> set (rows (db_files (fst s))) \<Longrightarrow> p r = q r) \<Longrightarrow> cleaned q s s'"
  unfolding cleaned_def using del_rows_cong [of "db_files (fst s)" p q] by simp

lemma clean_files_sqlite:
  assumes "import_inv s" "quiet e"
  shows "cleaned (\<lambda>r. \<exists>x\<in>set xs. sf_ID r = fi_ID x \<and> is_gone v f (filepath_Join [path, fi_RelativePath x])) s
    (clean_files v f (app_housekeeping e n) path xs s)"
  using assms(1)
proof (induction xs arbitrary: s)
  case (Cons x xs)
  show ?case
  proof (cases "is_gone v f (filepath_Join [path, fi_RelativePath x])")
    case True
    obtain r d' where run: "sqliteFiles_Delete (app_publish e) e (fi_ID x) (fst s) = (r, d')" by fastforce
    have "cleaned (\<lambda>r. sf_ID r = fi_ID x) s (d', snd s)"
      using files_delete_inv [OF _ assms(2) run] Cons.prems by (simp add: cleaned_def import_inv_def)
    moreover from this have "import_inv (d', snd s)" by (simp add: cleaned_def)
    ultimately have "cleaned (\<lambda>r. (\<exists>x\<in>set xs. sf_ID r = fi_ID x \<and> is_gone v f (filepath_Join [path, fi_RelativePath x]))
        \<or> sf_ID r = fi_ID x) s (clean_files v f (app_housekeeping e n) path xs (d', snd s))"
      using Cons.IH cleaned_trans by blast
    moreover have "clean_files v f (app_housekeeping e n) path (x # xs) s = clean_files v f (app_housekeeping e n) path xs (d', snd s)"
      using True run by (simp add: on_lib_def)
    ultimately show ?thesis using True by (auto elim!: cleaned_cong)
  next
    case False
    then show ?thesis using Cons.IH [OF Cons.prems] by simp
  qed
qed (simp add: cleaned_def)

lemma sqlite_files_list:
  assumes "quiet e"
  shows "on_lib (episodeFileAdapter_ListForSeries e i) s = (Inr (map (\<lambda>r. \<lparr>fi_ID = sf_ID r, fi_SeriesID = sf_SeriesID r,
    fi_RelativePath = sf_RelativePath r\<rparr>) (sort_key (\<lambda>r. (sf_SeasonNumber r, sf_RelativePath r))
      (filter (\<lambda>r. sf_SeriesID r = i) (rows (db_files (fst s)))))), s)"
  using assms
  by (simp add: on_lib_def episodeFileAdapter_ListForSeries_def sqliteFiles_ListForSeries_def
      sqlite_ListEpisodeFilesForSeries_def act_defs lift_defs sql_many_def episodeFileFromSqlite_def o_def)

text \<open>Deleting the listed rows by id is deleting the rows themselves, since ids are unique.\<close>

lemma clean_one_series:
  assumes "import_inv s" "quiet e"
  shows "cleaned (\<lambda>r. sf_SeriesID r = si_ID x \<and> gone_row v f (si_Path x) r) s
    (clean_series v f (app_housekeeping e n) [x] s)"
proof -
  let ?rs = "filter (\<lambda>r. sf_SeriesID r = si_ID x) (rows (db_files (fst s)))"
  have wf: "wf_table sf_ID (db_files (fst s))" using assms(1) by (simp add: import_inv_def catalog_inv_def tables_ok_def)
  have same: "r = r'" if "r \<in> set (rows (db_files (fst s)))" "r' \<in> set (rows (db_files (fst s)))" "sf_ID r = sf_ID r'" for r r'
    using that wf unfolding wf_table_def by (meson distinct_map inj_onD)
  show ?thesis
    using clean_files_sqlite [OF assms, of "map (\<lambda>r. \<lparr>fi_ID = sf_ID r, fi_SeriesID = sf_SeriesID r,
        fi_RelativePath = sf_RelativePath r\<rparr>) (sort_key (\<lambda>r. (sf_SeasonNumber r, sf_RelativePath r)) ?rs)" v f "si_Path x" n]
      sqlite_files_list [OF assms(2), of "si_ID x" s]
    by (auto simp: gone_row_def elim!: cleaned_cong dest: same)
qed

lemma clean_series_sqlite:
  assumes "import_inv s" "quiet e"
  shows "cleaned (\<lambda>r. \<exists>x\<in>set xs. sf_SeriesID r = si_ID x \<and> gone_row v f (si_Path x) r) s
    (clean_series v f (app_housekeeping e n) xs s)"
  using assms(1)
proof (induction xs arbitrary: s)
  case (Cons x xs)
  let ?s1 = "clean_series v f (app_housekeeping e n) [x] s"
  note one = clean_one_series [OF Cons.prems assms(2), of x v f n]
  then have "import_inv ?s1" by (simp add: cleaned_def)
  note both = cleaned_trans [OF one Cons.IH [OF this]]
  have "clean_series v f (app_housekeeping e n) (x # xs) s = clean_series v f (app_housekeeping e n) xs ?s1" by simp
  then show ?case using both by (auto elim!: cleaned_cong)
qed (simp add: cleaned_def)

lemma sqlite_series_list:
  assumes "quiet e"
  shows "on_lib (seriesAdapter_ListAll e) s =
    (Inr (map (\<lambda>r. \<lparr>si_ID = sr_ID r, si_Path = sr_Path r\<rparr>) (sort_key sr_Title (rows (db_series (fst s))))), s)"
  using assms
  by (simp add: on_lib_def seriesAdapter_ListAll_def sqliteSeries_List_def sqlite_ListSeries_def act_defs lift_defs
      sql_many_def seriesFromSqlite_def o_def)

text \<open>The statistics: every listed series gets a row, and the invariant makes it right.\<close>

lemma recompute_all_sqlite:
  assumes "import_inv s" "quiet e" "\<forall>x\<in>set xs. has_series (fst s) (si_ID x)"
  shows "cleaned (\<lambda>_. False) s (recompute_all (app_housekeeping e n) xs s) \<and>
    si_ID ` set xs \<subseteq> st_SeriesID ` set (db_stats (fst (recompute_all (app_housekeeping e n) xs s)))
    \<and> st_SeriesID ` set (db_stats (fst s)) \<subseteq> st_SeriesID ` set (db_stats (fst (recompute_all (app_housekeeping e n) xs s)))"
  using assms(1,3)
proof (induction xs arbitrary: s)
  case (Cons x xs)
  from recompute_inv [of "{}" "fst s" "si_ID x" e] Cons.prems assms(2) obtain d' where d':
    "sqliteStats_Recompute e (si_ID x) (fst s) = (Inr (), d')" "catalog_inv {} d'" "db_series d' = db_series (fst s)"
    "db_episodes d' = db_episodes (fst s)" "db_files d' = db_files (fst s)"
    "st_SeriesID ` set (db_stats d') = insert (si_ID x) (st_SeriesID ` set (db_stats (fst s)))"
    by (auto simp: import_inv_def)
  have step: "recompute_all (app_housekeeping e n) (x # xs) s = recompute_all (app_housekeeping e n) xs (d', snd s)"
    using d'(1) by (simp add: on_lib_def)
  have one: "cleaned (\<lambda>_. False) s (d', snd s)" "import_inv (d', snd s)"
    using d' Cons.prems(1) by (simp_all add: cleaned_def import_inv_def)
  have "\<forall>y\<in>set xs. has_series (fst (d', snd s)) (si_ID y)" using Cons.prems(2) d'(3) by (simp add: has_series_def)
  note ih = Cons.IH [OF one(2) this]
  have "cleaned (\<lambda>_. False) s (recompute_all (app_housekeeping e n) xs (d', snd s))"
    using cleaned_trans [OF one(1) conjunct1 [OF ih]] by simp
  moreover have "insert (si_ID x) (st_SeriesID ` set (db_stats (fst s)))
      \<subseteq> st_SeriesID ` set (db_stats (fst (recompute_all (app_housekeeping e n) xs (d', snd s))))"
    using ih unfolding d'(6) [symmetric] by simp
  ultimately show ?case using ih unfolding step by simp
qed (simp add: cleaned_def)

subsection \<open>Properties of housekeeping\<close>

lemma file_gone:
  "fs_quiet v \<Longrightarrow> is_gone v f p \<longleftrightarrow> lookup f (resolve p) = None"
  by (simp add: is_gone_def os_Stat_def IsNotExist_def split: option.split entry.split)

lemma Runner_Run_parts:
  assumes "import_inv s" "quiet e"
  shows "\<exists>h. sqliteHistory_DeleteBefore e (now - retention_of n) (snd s) = (Inr (count_rows (\<lambda>r. hq_Date r < sqlite_format (now - retention_of n)) (snd s)), h)
    \<and> cleaned (\<lambda>r. \<exists>x\<in>set (rows (db_series (fst s))). sf_SeriesID r = sr_ID x \<and> gone_row v f (sr_Path x) r) (fst s, h)
        (Runner_Run now v f (app_housekeeping e n) s)
    \<and> sr_ID ` set (rows (db_series (fst s))) \<subseteq> st_SeriesID ` set (db_stats (fst (Runner_Run now v f (app_housekeeping e n) s)))"
proof -
  let ?o = "app_housekeeping e n" and ?t = "now - retention_of n"
  define h where "h = del_rows (\<lambda>r. hq_Date r < sqlite_format ?t) (snd s)"
  have del: "sqliteHistory_DeleteBefore e ?t (snd s) = (Inr (count_rows (\<lambda>r. hq_Date r < sqlite_format ?t) (snd s)), h)"
    using assms(2) by (simp add: sqliteHistory_defs act_defs sql_deleterows_def h_def)
  have inv: "import_inv (fst s, h)" using assms(1) by (simp add: import_inv_def h_def wf_del_rows)
  have trim: "trimHistory now ?o s = (fst s, h)" using del by (simp add: trimHistory_def on_history_def)
  define infos :: "library_db \<times> SqHistory table \<Rightarrow> SeriesInfo list" where
    "infos = (\<lambda>s. map (\<lambda>r. \<lparr>si_ID = sr_ID r, si_Path = sr_Path r\<rparr>) (sort_key sr_Title (rows (db_series (fst s)))))"
  have set_infos: "set (infos s) = (\<lambda>r. \<lparr>si_ID = sr_ID r, si_Path = sr_Path r\<rparr>) ` set (rows (db_series (fst s)))" for s
    by (simp add: infos_def)
  let ?s2 = "clean_series v f ?o (infos (fst s, h)) (fst s, h)"
  have cl: "cleanOrphanEpisodeFiles v f ?o (fst s, h) = ?s2"
    using sqlite_series_list [OF assms(2)] by (simp add: cleanOrphanEpisodeFiles_def infos_def)
  have c2: "cleaned (\<lambda>r. \<exists>x\<in>set (rows (db_series (fst s))). sf_SeriesID r = sr_ID x \<and> gone_row v f (sr_Path x) r) (fst s, h) ?s2"
    using clean_series_sqlite [OF inv assms(2), of "infos (fst s, h)" v f n] by (auto simp: set_infos elim!: cleaned_cong)
  then have s2: "import_inv ?s2" "db_series (fst ?s2) = db_series (fst s)" by (simp_all add: cleaned_def)
  let ?s3 = "recompute_all ?o (infos ?s2) ?s2"
  have rs: "recalculateStatistics ?o ?s2 = ?s3"
    using sqlite_series_list [OF assms(2)] by (simp add: recalculateStatistics_def infos_def)
  have wf: "wf_table sr_ID (db_series (fst s))" using assms(1) by (simp add: import_inv_def catalog_inv_def tables_ok_def)
  have has: "\<forall>x\<in>set (infos ?s2). has_series (fst ?s2) (si_ID x)"
    using tbl_row [OF wf] s2(2) by (auto simp: set_infos has_series_def)
  note r3 = recompute_all_sqlite [OF s2(1) assms(2) has, of n]
  have "Runner_Run now v f ?o s = ?s3"
    using assms(2) by (simp add: Runner_Run_def trim cl rs vacuumDatabase_def SQLitePool_Vacuum_def retA_def)
  moreover have "sr_ID ` set (rows (db_series (fst s))) = si_ID ` set (infos ?s2)"
    using s2(2) by (simp add: set_infos image_image)
  moreover have "cleaned (\<lambda>r. \<exists>x\<in>set (rows (db_series (fst s))). sf_SeriesID r = sr_ID x \<and> gone_row v f (sr_Path x) r) (fst s, h) ?s3"
    using cleaned_trans [OF c2 conjunct1 [OF r3]] by simp
  ultimately show ?thesis using del r3 by auto
qed

lemma file_kept:
  assumes inv: "import_inv s" and v: "fs_quiet v" and row: "tbl sf_ID (db_files (fst s)) k = Some r"
  shows "(\<exists>x\<in>set (rows (db_series (fst s))). sf_SeriesID r = sr_ID x \<and> gone_row v f (sr_Path x) r) \<longleftrightarrow>
    \<not> (\<exists>x. series_view (fst s) (sf_SeriesID r) = Some x \<and>
      lookup f (resolve (filepath_Join [se_Path x, sf_RelativePath r])) \<noteq> None)"
proof -
  have wf: "wf_table sr_ID (db_series (fst s))" and refs: "refs_ok (fst s)"
    using inv by (simp_all add: import_inv_def catalog_inv_def tables_ok_def)
  obtain x where x: "tbl sr_ID (db_series (fst s)) (sf_SeriesID r) = Some x"
    using refs tbl_SomeD [OF row] by (auto simp: refs_ok_def has_series_def)
  have one: "y = x" if "y \<in> set (rows (db_series (fst s)))" "sf_SeriesID r = sr_ID y" for y
    using tbl_row [OF wf that(1)] x that(2) by simp
  have x': "x \<in> set (rows (db_series (fst s)))" "sf_SeriesID r = sr_ID x" using tbl_SomeD [OF x] by simp_all
  have a: "(\<exists>x\<in>set (rows (db_series (fst s))). sf_SeriesID r = sr_ID x \<and> gone_row v f (sr_Path x) r) \<longleftrightarrow>
      gone_row v f (sr_Path x) r"
    using one x' by blast
  have b: "(\<exists>x. series_view (fst s) (sf_SeriesID r) = Some x \<and>
      lookup f (resolve (filepath_Join [se_Path x, sf_RelativePath r])) \<noteq> None) \<longleftrightarrow>
      lookup f (resolve (filepath_Join [sr_Path x, sf_RelativePath r])) \<noteq> None"
    using x by (simp add: series_view_def seriesFromSqlite_def)
  show ?thesis unfolding a b using file_gone [OF v] by (simp add: gone_row_def)
qed

lemma housekeeping_effect:
  assumes "import_inv s" "quiet e" "fs_quiet v" "Runner_Run now v f (app_housekeeping e n) s = s'"
  shows "import_inv s' \<and> series_view (fst s') = series_view (fst s) \<and> episode_view (fst s') = episode_view (fst s)
    \<and> (\<forall>k y. file_view (fst s') k = Some y \<longleftrightarrow> file_view (fst s) k = Some y \<and>
         (\<exists>x. series_view (fst s) (ef_SeriesID y) = Some x \<and>
            lookup f (resolve (filepath_Join [se_Path x, ef_RelativePath y])) \<noteq> None))
    \<and> (\<forall>j y. sqliteHistory_view (snd s') j = Some y \<longleftrightarrow>
         sqliteHistory_view (snd s) j = Some y \<and> sq_gran (now - retention_of n) \<le> he_Date y)
    \<and> (\<forall>i x. series_view (fst s) i = Some x \<longrightarrow>
         (\<exists>r\<in>set (db_stats (fst s')). st_SeriesID r = i \<and> shows_counts (fst s') r))"
proof -
  let ?p = "\<lambda>r. \<exists>x\<in>set (rows (db_series (fst s))). sf_SeriesID r = sr_ID x \<and> gone_row v f (sr_Path x) r"
  obtain c h where h: "sqliteHistory_DeleteBefore e (now - retention_of n) (snd s) = (Inr c, h)"
    and cl: "cleaned ?p (fst s, h) s'"
    and st: "sr_ID ` set (rows (db_series (fst s))) \<subseteq> st_SeriesID ` set (db_stats (fst s'))"
    using Runner_Run_parts [OF assms(1,2), of now n v f] assms(4) by blast
  have parts: "import_inv s'" "snd s' = h" "db_series (fst s') = db_series (fst s)" "db_episodes (fst s') = db_episodes (fst s)"
    "db_files (fst s') = del_rows ?p (db_files (fst s))" using cl by (simp_all add: cleaned_def)
  have wf: "wf_table sf_ID (db_files (fst s))" "wf_table hq_ID (snd s)"
    using assms(1) by (simp_all add: import_inv_def catalog_inv_def tables_ok_def)
  have "file_view (fst s') k = Some y \<longleftrightarrow> file_view (fst s) k = Some y \<and>
      (\<exists>x. series_view (fst s) (ef_SeriesID y) = Some x \<and>
         lookup f (resolve (filepath_Join [se_Path x, ef_RelativePath y])) \<noteq> None)" for k y
  proof (cases "tbl sf_ID (db_files (fst s)) k")
    case (Some r)
    have "file_view (fst s') k = (if ?p r then None else Some (episodeFileFromSqlite r))"
      using Some by (simp add: file_view_def parts(5) tbl_del_rows [OF wf(1)])
    moreover have "file_view (fst s) k = Some (episodeFileFromSqlite r)" using Some by (simp add: file_view_def)
    ultimately show ?thesis using file_kept [OF assms(1,3) Some, of f] by (auto simp: episodeFileFromSqlite_def)
  qed (simp add: file_view_def parts(5) tbl_del_rows [OF wf(1)])
  moreover have "hs_DeleteBefore sqliteHistory e (now - retention_of n) (snd s) = (Inr c, snd s')"
    using h parts(2) by (simp add: sqliteHistory_def)
  then have "sqliteHistory_view (snd s') j = Some y \<longleftrightarrow>
      sqliteHistory_view (snd s) j = Some y \<and> sq_gran (now - retention_of n) \<le> he_Date y" for j y
    using sqhist.delete_before_keeps [OF wf(2) assms(2)] sqhist.delete_before_removes [OF wf(2) assms(2)] by blast
  moreover have "\<exists>r\<in>set (db_stats (fst s')). st_SeriesID r = i \<and> shows_counts (fst s') r"
    if "series_view (fst s) i = Some x" for i x
  proof -
    from that obtain row where "tbl sr_ID (db_series (fst s)) i = Some row" by (auto simp: series_view_def)
    then have "i \<in> st_SeriesID ` set (db_stats (fst s'))" using st tbl_SomeD by fastforce
    then show ?thesis using parts(1) by (auto simp: import_inv_def catalog_inv_def)
  qed
  moreover have "series_view (fst s') = series_view (fst s)" "episode_view (fst s') = episode_view (fst s)"
    using parts(3,4) by (simp_all add: series_view_def episode_view_def fun_eq_iff)
  ultimately show ?thesis using parts(1) by blast
qed

definition example_file :: EpisodeFile where
  "example_file = \<lparr>ef_ID = 0, ef_SeriesID = 1, ef_SeasonNumber = 1, ef_RelativePath = ''Season 01/a.mkv'', ef_Size = 5,
     ef_DateAdded = 0, ef_ReleaseGroup = '''', ef_QualityName = ''Unknown'', ef_CreatedAt = 0, ef_UpdatedAt = 0\<rparr>"

definition example_lib2 :: library_db where
  "example_lib2 = snd (sqliteFiles_Create (app_publish (quiet_at 0)) (quiet_at 0) example_file example_with_episode)"

definition example_lib3 :: library_db where
  "example_lib3 = snd (sqliteEpisodes_Update (app_publish (quiet_at 0)) (quiet_at 0)
     (example_new_episode\<lparr>ep_ID := 1, ep_EpisodeFileID := Some 1\<rparr>) example_lib2)"

lemma example_lib2_inv: "catalog_inv {} example_lib2"
proof -
  have "catalog_inv {} example_with_episode" using example_inv by (simp add: import_inv_def example_state_def)
  then show ?thesis unfolding example_lib2_def
    using files_create_inv [OF _ quiet_quiet_at(1) prod.collapse [symmetric]] by blast
qed

lemmas example3_simps = example_lib3_def example_lib2_def example_file_def sqliteFiles_Create_def sqliteEpisodes_Update_def
  sql_exec_def upd_rows_def episodeFileFromSqlite_def nullStringFromTimePtr_def

lemma example_lib2_row: "\<exists>row. tbl sp_ID (db_episodes example_lib2) 1 = Some row \<and> sp_SeriesID row = 1"
  by (simp add: example3_simps example_simps)

lemma example3_inv: "import_inv (example_lib3, empty_table)"
proof -
  obtain row where row: "tbl sp_ID (db_episodes example_lib2) 1 = Some row" "sp_SeriesID row = 1"
    using example_lib2_row by blast
  let ?x = "example_new_episode\<lparr>ep_ID := 1, ep_EpisodeFileID := Some 1\<rparr>"
  have "tbl sp_ID (db_episodes example_lib2) (ep_ID ?x) = Some row" "sp_SeriesID row = ep_SeriesID ?x"
    using row by (simp_all add: example_new_episode_def)
  from episodes_update_inv [OF example_lib2_inv quiet_quiet_at(1) prod.collapse [symmetric] this, of 0]
  show ?thesis by (simp add: import_inv_def example_lib3_def)
qed

lemma example3_views:
  "\<exists>x y z. episode_view example_lib3 1 = Some x \<and> ep_EpisodeFileID x = Some 1 \<and> file_view example_lib3 1 = Some y
    \<and> ef_SeriesID y = 1 \<and> ef_RelativePath y = ''Season 01/a.mkv'' \<and> series_view example_lib3 1 = Some z
    \<and> se_Path z = ''/tv/Breaking Bad''"
  by (simp add: example3_simps example_simps episode_view_def file_view_def series_view_def ptrFromNullInt64_def)

lemma example_gone: "lookup example_fs (resolve (filepath_Join [''/tv/Breaking Bad'', ''Season 01/a.mkv''])) = None"
proof -
  have "resolve (filepath_Join [''/tv/Breaking Bad'', ''Season 01/a.mkv'']) = [''tv'', ''Breaking Bad'', ''Season 01'', ''a.mkv'']"
    by code_simp
  then show ?thesis by (simp add: example_lookup)
qed

text \<open>C13: A housekeeping run does its four jobs and no more. Series and episodes stay as they are. A file
  record is kept exactly when its file still exists below the folder of its series. A history entry
  is kept exactly when it is not older than the retention (to the second). Afterwards every series
  has a statistics row that shows the numbers of the tables, and the catalogue is consistent.\<close>

theorem housekeeping_sqlite:
  assumes "import_inv s" "quiet e" "fs_quiet v" "Runner_Run now v f (app_housekeeping e n) s = s'"
  shows "import_inv s' \<and> series_view (fst s') = series_view (fst s) \<and> episode_view (fst s') = episode_view (fst s)
    \<and> (\<forall>k y. file_view (fst s') k = Some y \<longleftrightarrow> file_view (fst s) k = Some y \<and>
         (\<exists>x. series_view (fst s) (ef_SeriesID y) = Some x \<and>
            lookup f (resolve (filepath_Join [se_Path x, ef_RelativePath y])) \<noteq> None))
    \<and> (\<forall>j y. sqliteHistory_view (snd s') j = Some y \<longleftrightarrow>
         sqliteHistory_view (snd s) j = Some y \<and> sq_gran (now - retention_of n) \<le> he_Date y)
    \<and> (\<forall>i x. series_view (fst s) i = Some x \<longrightarrow>
         (\<exists>r\<in>set (db_stats (fst s')). st_SeriesID r = i \<and> shows_counts (fst s') r))"
  using assms by (rule housekeeping_effect)

theorem housekeeping_sqlite_witness:
  "file_view (fst (Runner_Run 0 fs_calm example_fs (app_housekeeping (quiet_at 0) 0) (example_lib3, empty_table))) 1 = None
   \<and> file_view example_lib3 1 \<noteq> None"
proof -
  obtain y z where y: "file_view example_lib3 1 = Some y" "ef_SeriesID y = 1" "ef_RelativePath y = ''Season 01/a.mkv''"
    "series_view example_lib3 1 = Some z" "se_Path z = ''/tv/Breaking Bad''" using example3_views by blast
  from housekeeping_sqlite [OF example3_inv quiet_quiet_at(1) fs_quiet_calm refl, of 0 example_fs 0 0]
  have "file_view (fst (Runner_Run 0 fs_calm example_fs (app_housekeeping (quiet_at 0) 0) (example_lib3, empty_table))) 1 \<noteq> Some x" for x
    using y example_gone by auto
  then show ?thesis using y(1) by auto
qed

text \<open>C17: Removing the record of a vanished file leaves the episode pointing at it: after the run the file
  record is gone, but the episode still carries its id.\<close>

theorem housekeeping_dangling:
  assumes "import_inv s" "quiet e" "fs_quiet v" "Runner_Run now v f (app_housekeeping e n) s = s'"
    and "episode_view (fst s) i = Some x" "ep_EpisodeFileID x = Some k" "file_view (fst s) k = Some y"
    and "series_view (fst s) (ef_SeriesID y) = Some z" "lookup f (resolve (filepath_Join [se_Path z, ef_RelativePath y])) = None"
  shows "episode_view (fst s') i = Some x \<and> ep_EpisodeFileID x = Some k \<and> file_view (fst s') k = None"
  using assms(6) housekeeping_effect [OF assms(1-4)] assms(5,7-9)
  by (metis (no_types, lifting) not_None_eq option.inject)

theorem housekeeping_dangling_witness:
  "\<exists>x. episode_view (fst (Runner_Run 0 fs_calm example_fs (app_housekeeping (quiet_at 0) 0) (example_lib3, empty_table))) 1 = Some x
     \<and> ep_EpisodeFileID x = Some 1
     \<and> file_view (fst (Runner_Run 0 fs_calm example_fs (app_housekeeping (quiet_at 0) 0) (example_lib3, empty_table))) 1 = None"
proof -
  obtain x y z where y: "episode_view example_lib3 1 = Some x" "ep_EpisodeFileID x = Some 1"
    "file_view example_lib3 1 = Some y" "ef_SeriesID y = 1" "ef_RelativePath y = ''Season 01/a.mkv''"
    "series_view example_lib3 1 = Some z" "se_Path z = ''/tv/Breaking Bad''" using example3_views by blast
  have "lookup example_fs (resolve (filepath_Join [se_Path z, ef_RelativePath y])) = None" using y example_gone by simp
  from housekeeping_dangling [OF example3_inv quiet_quiet_at(1) fs_quiet_calm refl _ y(2) _ _ this] y show ?thesis by auto
qed

end
