(* ===== verification/Scheduler.thy ===== *)
theory Scheduler
  imports CommandsSqlite CommandsPostgres "HOL-Library.List_Lexorder" "HOL-Library.Char_ord"
begin

section \<open>The scheduler\<close>

text \<open>
  internal/scheduler: the scheduled tasks with their two stores, and the tick that enqueues the
  commands of the tasks that are due and sweeps expired leases. \<open>TaskStore\<close> is the Go interface as a
  record; the locale \<open>task_store\<close> states what a store promises and \<open>scheduling\<close> what the tick does on
  any task store and any command queue. The timer loop around the tick is not modelled.
\<close>

subsection \<open>Tasks\<close>

record ScheduledTask =
  ta_TypeName :: string
  ta_IntervalSecs :: int
  ta_LastExecution :: "int option"
  ta_NextExecution :: int

record 't TaskStore =
  ts_GetDueTasks :: "dbenv \<Rightarrow> ('t, ScheduledTask list) act"
  ts_UpdateExecution :: "dbenv \<Rightarrow> string \<Rightarrow> int \<Rightarrow> ('t, unit) act"
  ts_Upsert :: "dbenv \<Rightarrow> ScheduledTask \<Rightarrow> ('t, unit) act"
  ts_Get :: "dbenv \<Rightarrow> string \<Rightarrow> ('t, ScheduledTask) act"
  ts_List :: "dbenv \<Rightarrow> ('t, ScheduledTask list) act"

subsection \<open>The SQLite store\<close>

record SqTask =
  sk_TypeName :: string
  sk_IntervalSecs :: int
  sk_LastExecution :: "int option"
  sk_NextExecution :: int

definition scheduledTaskFromSqlite :: "SqTask \<Rightarrow> ScheduledTask" where
  "scheduledTaskFromSqlite r = \<lparr>ta_TypeName = sk_TypeName r, ta_IntervalSecs = sk_IntervalSecs r,
     ta_LastExecution = ptrFromNullString (sk_LastExecution r), ta_NextExecution = parseSqliteTime (sk_NextExecution r)\<rparr>"

definition sqlite_GetDueTasks :: "dbenv \<Rightarrow> (SqTask list, SqTask list) act" where
  "sqlite_GetDueTasks e = stmt e ''GetDueTasks''
     (\<lambda>t. (Inr (sort_key sk_NextExecution (filter (\<lambda>r. sk_NextExecution r \<le> sqlite_format (env_now e)) t)), t))"

definition sqlite_GetScheduledTask :: "dbenv \<Rightarrow> string \<Rightarrow> (SqTask list, SqTask) act" where
  "sqlite_GetScheduledTask e n = stmt e ''GetScheduledTask'' (\<lambda>t. (first_row (filter (\<lambda>r. sk_TypeName r = n) t), t))"

definition sqlite_ListScheduledTasks :: "dbenv \<Rightarrow> (SqTask list, SqTask list) act" where
  "sqlite_ListScheduledTasks e = stmt e ''ListScheduledTasks'' (\<lambda>t. (Inr (sort_key sk_TypeName t), t))"

definition sqlite_UpdateTaskExecution :: "dbenv \<Rightarrow> int \<Rightarrow> string \<Rightarrow> (SqTask list, unit) act" where
  "sqlite_UpdateTaskExecution e next n = stmt e ''UpdateTaskExecution'' (\<lambda>t. (Inr (),
     map (\<lambda>r. if sk_TypeName r = n then r\<lparr>sk_LastExecution := Some (sqlite_format (env_now e)), sk_NextExecution := next\<rparr> else r) t))"

definition sqlite_UpsertScheduledTask :: "dbenv \<Rightarrow> string \<Rightarrow> int \<Rightarrow> int \<Rightarrow> (SqTask list, unit) act" where
  "sqlite_UpsertScheduledTask e n interval next = stmt e ''UpsertScheduledTask'' (\<lambda>t. (Inr (),
     if \<exists>r\<in>set t. sk_TypeName r = n
     then map (\<lambda>r. if sk_TypeName r = n then r\<lparr>sk_IntervalSecs := interval\<rparr> else r) t
     else t @ [\<lparr>sk_TypeName = n, sk_IntervalSecs = interval, sk_LastExecution = None, sk_NextExecution = next\<rparr>]))"

definition sqliteTasks_GetDueTasks :: "dbenv \<Rightarrow> (SqTask list, ScheduledTask list) act" where
  "sqliteTasks_GetDueTasks e =
     mapA (map scheduledTaskFromSqlite) (wrapA ''scheduler: get due tasks'' (sqlite_GetDueTasks e))"

definition sqliteTasks_UpdateExecution :: "dbenv \<Rightarrow> string \<Rightarrow> int \<Rightarrow> (SqTask list, unit) act" where
  "sqliteTasks_UpdateExecution e n next = wrapA ''scheduler: update execution''
     (SQLitePool_Write e (sqlite_UpdateTaskExecution e (sqlite_format next) n))"

definition sqliteTasks_Upsert :: "dbenv \<Rightarrow> ScheduledTask \<Rightarrow> (SqTask list, unit) act" where
  "sqliteTasks_Upsert e task = wrapA ''scheduler: upsert'' (SQLitePool_Write e
     (sqlite_UpsertScheduledTask e (ta_TypeName task) (ta_IntervalSecs task) (sqlite_format (ta_NextExecution task))))"

definition sqliteTasks_Get :: "dbenv \<Rightarrow> string \<Rightarrow> (SqTask list, ScheduledTask) act" where
  "sqliteTasks_Get e n = rowA (Inl (Wrap ''scheduler: get'' (ErrNotFound ''scheduler: not found''))) ''scheduler: get''
     scheduledTaskFromSqlite (sqlite_GetScheduledTask e n)"

definition sqliteTasks_List :: "dbenv \<Rightarrow> (SqTask list, ScheduledTask list) act" where
  "sqliteTasks_List e = mapA (map scheduledTaskFromSqlite) (wrapA ''scheduler: list'' (sqlite_ListScheduledTasks e))"

definition sqliteTasks :: "SqTask list TaskStore" where
  "sqliteTasks = \<lparr>ts_GetDueTasks = sqliteTasks_GetDueTasks, ts_UpdateExecution = sqliteTasks_UpdateExecution,
     ts_Upsert = sqliteTasks_Upsert, ts_Get = sqliteTasks_Get, ts_List = sqliteTasks_List\<rparr>"

subsection \<open>The Postgres store\<close>

record PgTask =
  pk_TypeName :: string
  pk_IntervalSecs :: int
  pk_LastExecution :: "int option"
  pk_NextExecution :: int

definition scheduledTaskFromPostgres :: "PgTask \<Rightarrow> ScheduledTask" where
  "scheduledTaskFromPostgres r = \<lparr>ta_TypeName = pk_TypeName r, ta_IntervalSecs = pk_IntervalSecs r,
     ta_LastExecution = ptrFromPgTimestamptz (pk_LastExecution r), ta_NextExecution = pg_time (pk_NextExecution r)\<rparr>"

definition postgres_GetDueTasks :: "dbenv \<Rightarrow> (PgTask list, PgTask list) act" where
  "postgres_GetDueTasks e = stmt e ''GetDueTasks''
     (\<lambda>t. (Inr (sort_key pk_NextExecution (filter (\<lambda>r. pk_NextExecution r \<le> pg_micros (env_now e)) t)), t))"

definition postgres_GetScheduledTask :: "dbenv \<Rightarrow> string \<Rightarrow> (PgTask list, PgTask) act" where
  "postgres_GetScheduledTask e n = stmt e ''GetScheduledTask'' (\<lambda>t. (first_row (filter (\<lambda>r. pk_TypeName r = n) t), t))"

definition postgres_ListScheduledTasks :: "(string \<Rightarrow> string) \<Rightarrow> dbenv \<Rightarrow> (PgTask list, PgTask list) act" where
  "postgres_ListScheduledTasks collate e = stmt e ''ListScheduledTasks'' (\<lambda>t. (Inr (sort_key (\<lambda>r. collate (pk_TypeName r)) t), t))"

definition postgres_UpdateTaskExecution :: "dbenv \<Rightarrow> int \<Rightarrow> string \<Rightarrow> (PgTask list, unit) act" where
  "postgres_UpdateTaskExecution e next n = stmt e ''UpdateTaskExecution'' (\<lambda>t. (Inr (),
     map (\<lambda>r. if pk_TypeName r = n then r\<lparr>pk_LastExecution := Some (pg_micros (env_now e)), pk_NextExecution := next\<rparr> else r) t))"

definition postgres_UpsertScheduledTask :: "dbenv \<Rightarrow> string \<Rightarrow> int \<Rightarrow> int \<Rightarrow> (PgTask list, unit) act" where
  "postgres_UpsertScheduledTask e n interval next = stmt e ''UpsertScheduledTask'' (\<lambda>t. (Inr (),
     if \<exists>r\<in>set t. pk_TypeName r = n
     then map (\<lambda>r. if pk_TypeName r = n then r\<lparr>pk_IntervalSecs := interval\<rparr> else r) t
     else t @ [\<lparr>pk_TypeName = n, pk_IntervalSecs = interval, pk_LastExecution = None, pk_NextExecution = next\<rparr>]))"

definition postgresTasks_GetDueTasks :: "dbenv \<Rightarrow> (PgTask list, ScheduledTask list) act" where
  "postgresTasks_GetDueTasks e =
     mapA (map scheduledTaskFromPostgres) (wrapA ''scheduler: get due tasks'' (postgres_GetDueTasks e))"

definition postgresTasks_UpdateExecution :: "dbenv \<Rightarrow> string \<Rightarrow> int \<Rightarrow> (PgTask list, unit) act" where
  "postgresTasks_UpdateExecution e n next =
     wrapA ''scheduler: update execution'' (postgres_UpdateTaskExecution e (pg_micros next) n)"

definition postgresTasks_Upsert :: "dbenv \<Rightarrow> ScheduledTask \<Rightarrow> (PgTask list, unit) act" where
  "postgresTasks_Upsert e task = wrapA ''scheduler: upsert''
     (postgres_UpsertScheduledTask e (ta_TypeName task) (wrap32 (ta_IntervalSecs task)) (pg_micros (ta_NextExecution task)))"

definition postgresTasks_Get :: "dbenv \<Rightarrow> string \<Rightarrow> (PgTask list, ScheduledTask) act" where
  "postgresTasks_Get e n = rowA (Inl (Wrap ''scheduler: get'' (ErrNotFound ''scheduler: not found''))) ''scheduler: get''
     scheduledTaskFromPostgres (postgres_GetScheduledTask e n)"

definition postgresTasks_List :: "(string \<Rightarrow> string) \<Rightarrow> dbenv \<Rightarrow> (PgTask list, ScheduledTask list) act" where
  "postgresTasks_List collate e = mapA (map scheduledTaskFromPostgres) (wrapA ''scheduler: list'' (postgres_ListScheduledTasks collate e))"

definition postgresTasks :: "(string \<Rightarrow> string) \<Rightarrow> PgTask list TaskStore" where
  "postgresTasks collate = \<lparr>ts_GetDueTasks = postgresTasks_GetDueTasks, ts_UpdateExecution = postgresTasks_UpdateExecution,
     ts_Upsert = postgresTasks_Upsert, ts_Get = postgresTasks_Get, ts_List = postgresTasks_List collate\<rparr>"

subsection \<open>The tick\<close>

definition processDueTask :: "'t TaskStore \<Rightarrow> 's Queue \<Rightarrow> dbenv \<Rightarrow> ScheduledTask \<Rightarrow> 't \<times> 's \<Rightarrow> 't \<times> 's" where
  "processDueTask ts q e task w =
     (let dedupKey = ta_TypeName task in
      case q_FindDuplicate q e dedupKey (snd w) of
        (Inl _, s1) \<Rightarrow> (fst w, s1)
      | (Inr (_, found), s1) \<Rightarrow>
          (if found then (fst w, s1)
           else (case q_Enqueue q e (ta_TypeName task) None PriorityNormal TriggerScheduled dedupKey s1 of
               (Inl _, s2) \<Rightarrow> (fst w, s2)
             | (Inr _, s2) \<Rightarrow> (snd (ts_UpdateExecution ts e (ta_TypeName task)
                   (env_now e + wrap64 (ta_IntervalSecs task * second_ns)) (fst w)), s2))))"

definition tick :: "'t TaskStore \<Rightarrow> 's Queue \<Rightarrow> dbenv \<Rightarrow> 't \<times> 's \<Rightarrow> 't \<times> 's" where
  "tick ts q e w =
     (let w1 = (case ts_GetDueTasks ts e (fst w) of
          (Inl _, t) \<Rightarrow> (t, snd w)
        | (Inr tasks, t) \<Rightarrow> fold (processDueTask ts q e) tasks (t, snd w))
      in (fst w1, snd (q_SweepExpiredLeases q e (snd w1))))"

subsection \<open>What a task store promises\<close>

locale task_store =
  fixes ts :: "'t TaskStore"
    and tinv :: "'t \<Rightarrow> bool"
    and tview :: "'t \<Rightarrow> string \<Rightarrow> ScheduledTask option"
    and tgran :: "int \<Rightarrow> int"
    and interval :: "int \<Rightarrow> int"
  assumes due_ok: "\<lbrakk>tinv t; quiet e; ts_GetDueTasks ts e t = (rd, t')\<rbrakk> \<Longrightarrow>
        t' = t \<and> (\<exists>xs. rd = Inr xs \<and> distinct (map ta_TypeName xs) \<and>
          sorted_wrt (\<lambda>a b. ta_NextExecution a \<le> ta_NextExecution b) xs \<and>
          (\<forall>x. x \<in> set xs \<longleftrightarrow> tview t (ta_TypeName x) = Some x \<and> ta_NextExecution x \<le> tgran (env_now e)))"
    and update_ok: "\<lbrakk>tinv t; quiet e; ts_UpdateExecution ts e n next t = (ru, t')\<rbrakk> \<Longrightarrow>
        ru = Inr () \<and> tinv t' \<and> tview t' = (tview t)(n := map_option
          (\<lambda>x. x\<lparr>ta_LastExecution := Some (tgran (env_now e)), ta_NextExecution := tgran next\<rparr>) (tview t n))"
    and upsert_ok: "\<lbrakk>tinv t; quiet e; ts_Upsert ts e x t = (ru, t')\<rbrakk> \<Longrightarrow>
        ru = Inr () \<and> tinv t' \<and> tview t' = (tview t)(ta_TypeName x \<mapsto> (case tview t (ta_TypeName x) of
          None \<Rightarrow> \<lparr>ta_TypeName = ta_TypeName x, ta_IntervalSecs = interval (ta_IntervalSecs x), ta_LastExecution = None,
            ta_NextExecution = tgran (ta_NextExecution x)\<rparr>
        | Some y \<Rightarrow> y\<lparr>ta_IntervalSecs := interval (ta_IntervalSecs x)\<rparr>))"

text \<open>A task table: at most one row per name, and the statements of both stores on its view.\<close>

definition task_view :: "('r \<Rightarrow> string) \<Rightarrow> ('r \<Rightarrow> ScheduledTask) \<Rightarrow> 'r list \<Rightarrow> string \<Rightarrow> ScheduledTask option" where
  "task_view nm conv t n = map_option conv (List.find (\<lambda>r. nm r = n) t)"

lemma task_view_Some:
  assumes "distinct (map nm t)"
  shows "task_view nm conv t n = Some x \<longleftrightarrow> (\<exists>r\<in>set t. nm r = n \<and> x = conv r)"
proof -
  have "List.find (\<lambda>r. nm r = n) t = Some r \<longleftrightarrow> r \<in> set t \<and> nm r = n" for r
    using assms by (induction t) auto
  then show ?thesis by (auto simp: task_view_def)
qed

lemma find_map_nm: "(\<And>r. nm (f r) = nm r) \<Longrightarrow> List.find (\<lambda>r. nm r = n) (map f t) = map_option f (List.find (\<lambda>r. nm r = n) t)"
  by (induction t) auto

lemma task_view_update:
  assumes "\<And>r. nm (f r) = nm r" "\<And>r. nm r = n \<Longrightarrow> conv (f r) = g (conv r)"
  shows "task_view nm conv (map (\<lambda>r. if nm r = n then f r else r) t) = (task_view nm conv t)(n := map_option g (task_view nm conv t n))"
proof (rule ext)
  fix m
  have find: "List.find (\<lambda>r. nm r = m) (map (\<lambda>r. if nm r = n then f r else r) t) =
      map_option (\<lambda>r. if nm r = n then f r else r) (List.find (\<lambda>r. nm r = m) t)"
    by (rule find_map_nm) (simp add: assms(1))
  show "task_view nm conv (map (\<lambda>r. if nm r = n then f r else r) t) m =
      ((task_view nm conv t)(n := map_option g (task_view nm conv t n))) m"
  proof (cases "List.find (\<lambda>r. nm r = m) t")
    case (Some a)
    then have "nm a = m" using find_Some_set by fastforce
    then show ?thesis using find Some assms(2) by (cases "m = n") (simp_all add: task_view_def)
  qed (use find in \<open>auto simp: task_view_def\<close>)
qed

lemma task_view_new:
  assumes "\<forall>r\<in>set t. nm r \<noteq> nm x"
  shows "task_view nm conv (t @ [x]) = (task_view nm conv t)(nm x \<mapsto> conv x)" "task_view nm conv t (nm x) = None"
proof -
  have "List.find (\<lambda>r. nm r = m) (t @ [x]) = (if m = nm x then Some x else List.find (\<lambda>r. nm r = m) t)" for m
    using assms by (induction t) auto
  then show "task_view nm conv (t @ [x]) = (task_view nm conv t)(nm x \<mapsto> conv x)" by (auto simp: task_view_def)
  show "task_view nm conv t (nm x) = None" using assms by (simp add: task_view_def find_None_set)
qed

lemma distinct_names_map: "(\<And>r. nm (f r) = nm r) \<Longrightarrow> distinct (map nm (map f t)) = distinct (map nm t)"
  by (simp add: o_def)

locale task_rows =
  fixes nm :: "'r \<Rightarrow> string" and conv :: "'r \<Rightarrow> ScheduledTask" and key :: "'r \<Rightarrow> int" and instant :: "int \<Rightarrow> int"
  assumes conv_name: "ta_TypeName (conv r) = nm r"
    and conv_next: "ta_NextExecution (conv r) = instant (key r)"
    and instant_le: "instant a \<le> instant b \<longleftrightarrow> a \<le> b"
begin

lemma due_rows:
  assumes "distinct (map nm t)" "xs = map conv (sort_key key (filter (\<lambda>r. key r \<le> b) t))"
  shows "distinct (map ta_TypeName xs)" "sorted_wrt (\<lambda>a b. ta_NextExecution a \<le> ta_NextExecution b) xs"
    "x \<in> set xs \<longleftrightarrow> task_view nm conv t (ta_TypeName x) = Some x \<and> ta_NextExecution x \<le> instant b"
proof -
  let ?rs = "sort_key key (filter (\<lambda>r. key r \<le> b) t)"
  have "distinct (map nm (filter (\<lambda>r. key r \<le> b) t))" using assms(1) by (rule distinct_map_filter)
  then show "distinct (map ta_TypeName xs)" by (simp add: assms(2) conv_name distinct_map o_def)
  have "sorted (map key ?rs)" by simp
  then have "sorted_wrt (\<lambda>a b. key a \<le> key b) ?rs" by (simp add: sorted_map)
  then show "sorted_wrt (\<lambda>a b. ta_NextExecution a \<le> ta_NextExecution b) xs"
    unfolding assms(2) sorted_wrt_map by (rule sorted_wrt_mono_rel [rotated]) (simp add: conv_next instant_le)
  show "x \<in> set xs \<longleftrightarrow> task_view nm conv t (ta_TypeName x) = Some x \<and> ta_NextExecution x \<le> instant b"
    unfolding assms(2) by (auto simp: task_view_Some [OF assms(1)] conv_name conv_next instant_le)
qed

lemma update_rows:
  assumes "distinct (map nm t)" "\<And>r. nm (f r) = nm r" "\<And>r. conv (f r) = g (conv r)"
  shows "distinct (map nm (map (\<lambda>r. if nm r = n then f r else r) t))"
    "task_view nm conv (map (\<lambda>r. if nm r = n then f r else r) t) = (task_view nm conv t)(n := map_option g (task_view nm conv t n))"
  using assms by (simp_all add: distinct_names_map task_view_update del: map_map)

lemma upsert_rows:
  assumes "distinct (map nm t)" "\<And>r. nm (f r) = nm r" "\<And>r. conv (f r) = g (conv r)"
    and "t' = (if \<exists>r\<in>set t. nm r = nm x then map (\<lambda>r. if nm r = nm x then f r else r) t else t @ [x])"
  shows "distinct (map nm t')" "task_view nm conv t' = (task_view nm conv t)(nm x \<mapsto>
    (case task_view nm conv t (nm x) of None \<Rightarrow> conv x | Some y \<Rightarrow> g y))"
proof -
  show "distinct (map nm t')" using assms update_rows(1) [OF assms(1-3)] by auto
  show "task_view nm conv t' = (task_view nm conv t)(nm x \<mapsto> (case task_view nm conv t (nm x) of None \<Rightarrow> conv x | Some y \<Rightarrow> g y))"
  proof (cases "\<exists>r\<in>set t. nm r = nm x")
    case True
    then obtain y where "task_view nm conv t (nm x) = Some y" using task_view_Some [OF assms(1)] by blast
    then show ?thesis using True assms(4) update_rows(2) [OF assms(1-3), of "nm x"] by simp
  next
    case False
    then show ?thesis using assms(4) task_view_new [of t nm x] by auto
  qed
qed

end

lemmas sq_task_defs = sqliteTasks_def sqliteTasks_GetDueTasks_def sqliteTasks_UpdateExecution_def sqliteTasks_Upsert_def
  sqlite_GetDueTasks_def sqlite_UpdateTaskExecution_def sqlite_UpsertScheduledTask_def

lemmas pg_task_defs = postgresTasks_def postgresTasks_GetDueTasks_def postgresTasks_UpdateExecution_def postgresTasks_Upsert_def
  postgres_GetDueTasks_def postgres_UpdateTaskExecution_def postgres_UpsertScheduledTask_def

interpretation sqtask_rows: task_rows sk_TypeName scheduledTaskFromSqlite sk_NextExecution parseSqliteTime
  by unfold_locales (simp_all add: scheduledTaskFromSqlite_def)

interpretation pgtask_rows: task_rows pk_TypeName scheduledTaskFromPostgres pk_NextExecution pg_time
  by unfold_locales (simp_all add: scheduledTaskFromPostgres_def)

interpretation sqtasks: task_store sqliteTasks "\<lambda>t. distinct (map sk_TypeName t)" "task_view sk_TypeName scheduledTaskFromSqlite"
  sq_gran "\<lambda>i. i"
proof (unfold_locales, goal_cases)
  case (1 t e rd t')
  have "rd = Inr (map scheduledTaskFromSqlite (sort_key sk_NextExecution
      (filter (\<lambda>r. sk_NextExecution r \<le> sqlite_format (env_now e)) t)))" "t' = t"
    using 1(2,3) by (auto simp: sq_task_defs act_defs)
  then show ?case using sqtask_rows.due_rows [OF 1(1) refl, where b = "sqlite_format (env_now e)"] by (simp only: sq_time) blast
next
  case (2 t e n next' ru t')
  let ?f = "\<lambda>r. r\<lparr>sk_LastExecution := Some (sqlite_format (env_now e)), sk_NextExecution := sqlite_format next'\<rparr>"
  have "t' = map (\<lambda>r. if sk_TypeName r = n then ?f r else r) t" "ru = Inr ()"
    using 2(2,3) by (auto simp: sq_task_defs act_defs)
  then show ?case using sqtask_rows.update_rows [OF 2(1), of ?f
      "\<lambda>x. x\<lparr>ta_LastExecution := Some (sq_gran (env_now e)), ta_NextExecution := sq_gran next'\<rparr>"] by (simp add: scheduledTaskFromSqlite_def ptrFromNullString_def)
next
  case (3 t e x ru t')
  let ?f = "\<lambda>r. r\<lparr>sk_IntervalSecs := ta_IntervalSecs x\<rparr>"
  let ?x = "\<lparr>sk_TypeName = ta_TypeName x, sk_IntervalSecs = ta_IntervalSecs x, sk_LastExecution = None,
        sk_NextExecution = sqlite_format (ta_NextExecution x)\<rparr>"
  have t: "t' = (if \<exists>r\<in>set t. sk_TypeName r = sk_TypeName ?x then map (\<lambda>r. if sk_TypeName r = sk_TypeName ?x then ?f r else r) t
      else t @ [?x])" and ru: "ru = Inr ()"
    using 3(2,3) by (auto simp: sq_task_defs act_defs)
  show ?case using ru sqtask_rows.upsert_rows [OF 3(1) _ _ t, of "\<lambda>y. y\<lparr>ta_IntervalSecs := ta_IntervalSecs x\<rparr>"]
    by (simp add: scheduledTaskFromSqlite_def ptrFromNullString_def split: option.split)
qed

interpretation pgtasks: task_store "postgresTasks collate" "\<lambda>t. distinct (map pk_TypeName t)" "task_view pk_TypeName scheduledTaskFromPostgres"
  pg_gran wrap32 for collate
proof (unfold_locales, goal_cases)
  case (1 t e rd t')
  have "rd = Inr (map scheduledTaskFromPostgres (sort_key pk_NextExecution
      (filter (\<lambda>r. pk_NextExecution r \<le> pg_micros (env_now e)) t)))" "t' = t"
    using 1(2,3) by (auto simp: pg_task_defs act_defs)
  then show ?case using pgtask_rows.due_rows [OF 1(1) refl, where b = "pg_micros (env_now e)"]
    by (simp only: pg_time_micros) blast
next
  case (2 t e n next' ru t')
  let ?f = "\<lambda>r. r\<lparr>pk_LastExecution := Some (pg_micros (env_now e)), pk_NextExecution := pg_micros next'\<rparr>"
  have "t' = map (\<lambda>r. if pk_TypeName r = n then ?f r else r) t" "ru = Inr ()"
    using 2(2,3) by (auto simp: pg_task_defs act_defs)
  then show ?case using pgtask_rows.update_rows [OF 2(1), of ?f
      "\<lambda>x. x\<lparr>ta_LastExecution := Some (pg_gran (env_now e)), ta_NextExecution := pg_gran next'\<rparr>"]
    by (simp add: scheduledTaskFromPostgres_def ptrFromPgTimestamptz_def)
next
  case (3 t e x ru t')
  let ?f = "\<lambda>r. r\<lparr>pk_IntervalSecs := wrap32 (ta_IntervalSecs x)\<rparr>"
  let ?x = "\<lparr>pk_TypeName = ta_TypeName x, pk_IntervalSecs = wrap32 (ta_IntervalSecs x), pk_LastExecution = None,
        pk_NextExecution = pg_micros (ta_NextExecution x)\<rparr>"
  have t: "t' = (if \<exists>r\<in>set t. pk_TypeName r = pk_TypeName ?x then map (\<lambda>r. if pk_TypeName r = pk_TypeName ?x then ?f r else r) t
      else t @ [?x])" and ru: "ru = Inr ()"
    using 3(2,3) by (auto simp: pg_task_defs act_defs)
  show ?case using ru pgtask_rows.upsert_rows [OF 3(1) _ _ t, of "\<lambda>y. y\<lparr>ta_IntervalSecs := wrap32 (ta_IntervalSecs x)\<rparr>"]
    by (simp add: scheduledTaskFromPostgres_def ptrFromPgTimestamptz_def split: option.split)
qed

subsection \<open>What the tick does\<close>

text \<open>
  The commands a reader of the queue sees under a deduplication key that have not ended, and the
  promise that there is at most one of them.
\<close>

definition active_at :: "(int \<Rightarrow> Command option) \<Rightarrow> string \<Rightarrow> int \<Rightarrow> bool" where
  "active_at v k i = (case v i of None \<Rightarrow> False | Some c \<Rightarrow> active c \<and> cmd_DedupKey c = k)"

definition has_active :: "(int \<Rightarrow> Command option) \<Rightarrow> string \<Rightarrow> bool" where
  "has_active v k \<longleftrightarrow> (\<exists>i. active_at v k i)"

definition one_active :: "(int \<Rightarrow> Command option) \<Rightarrow> string \<Rightarrow> bool" where
  "one_active v k \<longleftrightarrow> (\<forall>i j. active_at v k i \<longrightarrow> active_at v k j \<longrightarrow> i = j)"

lemma has_active_iff: "has_active v k \<longleftrightarrow> (\<exists>i c. v i = Some c \<and> active c \<and> cmd_DedupKey c = k)"
  by (auto simp: has_active_def active_at_def split: option.splits)

lemma active_swept [simp]: "active (swept t c) = active c" "cmd_DedupKey (swept t c) = cmd_DedupKey c"
  by (auto simp: swept_def active_def expired_def)

lemma active_at_swept:
  assumes "\<And>i. v' i = map_option (swept t) (v i)"
  shows "active_at v' k = active_at v k"
  by (rule ext) (simp add: active_at_def assms split: option.split)

lemma active_fresh [simp]: "active (fresh_command i n b p tr k t)" "cmd_DedupKey (fresh_command i n b p tr k t) = k"
  by (simp_all add: active_def fresh_command_def)

lemma active_at_new:
  "v i = None \<Longrightarrow> active_at (v(i \<mapsto> fresh_command i n b p tr k t)) m j \<longleftrightarrow> m = k \<and> j = i \<or> active_at v m j"
  by (auto simp: active_at_def)

lemma has_active_new: "v i = None \<Longrightarrow> has_active (v(i \<mapsto> fresh_command i n b p tr k t)) m \<longleftrightarrow> m = k \<or> has_active v m"
  by (auto simp: has_active_def active_at_new)

lemma one_active_new:
  "\<lbrakk>v i = None; \<not> has_active v k; one_active v m\<rbrakk> \<Longrightarrow> one_active (v(i \<mapsto> fresh_command i n b p tr k t)) m"
  by (auto simp: one_active_def active_at_new has_active_def)

text \<open>The task as it stands after a command for it was enqueued: due again an interval later.\<close>

definition advanced :: "(int \<Rightarrow> int) \<Rightarrow> int \<Rightarrow> ScheduledTask \<Rightarrow> ScheduledTask" where
  "advanced g now x = x\<lparr>ta_LastExecution := Some (g now),
     ta_NextExecution := g (now + wrap64 (ta_IntervalSecs x * second_ns))\<rparr>"

locale scheduling = task_store ts tinv tview tgran interval + command_queue q inv view gran res_ok res_of
  for ts :: "'t TaskStore" and tinv tview tgran interval
    and q :: "'s Queue" and inv view gran res_ok res_of
begin

text \<open>One due task. If its key is active nothing happens, otherwise a command is enqueued and the
  task moves on, provided the queue takes a command without a body.\<close>

lemma process_active:
  assumes "inv s" "quiet e" "has_active (view s) (ta_TypeName x)"
  shows "processDueTask ts q e x (t, s) = (t, s)"
proof -
  obtain rf s1 where f: "q_FindDuplicate q e (ta_TypeName x) s = (rf, s1)" by (cases "q_FindDuplicate q e (ta_TypeName x) s")
  from find_dup_ok [OF assms(1,2) f] assms(3) obtain i where "s1 = s" "rf = Inr (i, True)"
    unfolding has_active_iff by metis
  then show ?thesis using f by (simp add: processDueTask_def)
qed

lemma process_idle:
  assumes "tinv t" "inv s" "quiet e" "\<not> has_active (view s) (ta_TypeName x)" "res_ok None" "tview t (ta_TypeName x) = Some x"
    and "processDueTask ts q e x (t, s) = (t', s')"
  shows "tinv t'" "inv s'" "tview t' = (tview t)(ta_TypeName x \<mapsto> advanced tgran (env_now e) x)"
    "\<exists>i. view s i = None \<and> view s' = (view s)(i \<mapsto> fresh_command i (ta_TypeName x) (res_of None) PriorityNormal TriggerScheduled
       (ta_TypeName x) (gran (env_now e)))"
proof -
  obtain rf s1 where f: "q_FindDuplicate q e (ta_TypeName x) s = (rf, s1)" by (cases "q_FindDuplicate q e (ta_TypeName x) s")
  from find_dup_ok [OF assms(2,3) f] assms(4) obtain i where s1: "s1 = s" "rf = Inr (i, False)"
    unfolding has_active_iff by metis
  obtain rg s2 where g: "q_Enqueue q e (ta_TypeName x) None PriorityNormal TriggerScheduled (ta_TypeName x) s = (rg, s2)"
    by (cases "q_Enqueue q e (ta_TypeName x) None PriorityNormal TriggerScheduled (ta_TypeName x) s")
  have enq: "inv s2 \<and> (\<exists>i. view s i = None \<and> rg = Inr (fresh_command i (ta_TypeName x) (res_of None) PriorityNormal TriggerScheduled
      (ta_TypeName x) (gran (env_now e))) \<and> view s2 = (view s)(i \<mapsto> fresh_command i (ta_TypeName x) (res_of None) PriorityNormal
      TriggerScheduled (ta_TypeName x) (gran (env_now e))))"
    by (rule enqueue_ok [OF assms(2,3,5) _ g]) simp
  then obtain c where "rg = Inr c" by blast
  obtain ru t2 where u: "ts_UpdateExecution ts e (ta_TypeName x) (env_now e + wrap64 (ta_IntervalSecs x * second_ns)) t = (ru, t2)"
    by (cases "ts_UpdateExecution ts e (ta_TypeName x) (env_now e + wrap64 (ta_IntervalSecs x * second_ns)) t")
  have "t' = t2" "s' = s2" using assms(7) f s1 g u \<open>rg = Inr c\<close> by (simp_all add: processDueTask_def)
  with enq update_ok [OF assms(1,3) u] assms(6) show "tinv t'" "inv s'"
    "tview t' = (tview t)(ta_TypeName x \<mapsto> advanced tgran (env_now e) x)"
    "\<exists>i. view s i = None \<and> view s' = (view s)(i \<mapsto> fresh_command i (ta_TypeName x) (res_of None) PriorityNormal TriggerScheduled
       (ta_TypeName x) (gran (env_now e)))"
    by (auto simp: advanced_def)
qed

lemma process_refused:
  assumes "inv s" "quiet e" "\<not> res_ok None"
  shows "processDueTask ts q e x (t, s) = (t, s)"
proof (cases "has_active (view s) (ta_TypeName x)")
  case False
  obtain rf s1 where f: "q_FindDuplicate q e (ta_TypeName x) s = (rf, s1)" by (cases "q_FindDuplicate q e (ta_TypeName x) s")
  from find_dup_ok [OF assms(1,2) f] False obtain i where s1: "s1 = s" "rf = Inr (i, False)"
    unfolding has_active_iff by metis
  obtain rg s2 where g: "q_Enqueue q e (ta_TypeName x) None PriorityNormal TriggerScheduled (ta_TypeName x) s = (rg, s2)"
    by (cases "q_Enqueue q e (ta_TypeName x) None PriorityNormal TriggerScheduled (ta_TypeName x) s")
  from enqueue_refused [OF assms(1-3) g] f s1 g show ?thesis by (auto simp: processDueTask_def)
qed (rule process_active [OF assms(1,2)])

text \<open>The loop over the due tasks.\<close>

lemma process_all:
  assumes "tinv t" "inv s" "quiet e" "res_ok None" "distinct (map ta_TypeName xs)"
    "\<forall>x\<in>set xs. tview t (ta_TypeName x) = Some x" "fold (processDueTask ts q e) xs (t, s) = (t', s')"
  shows "tinv t' \<and> inv s' \<and>
    (\<forall>k. has_active (view s') k \<longleftrightarrow> has_active (view s) k \<or> k \<in> ta_TypeName ` set xs) \<and>
    (\<forall>k. one_active (view s) k \<longrightarrow> one_active (view s') k) \<and>
    (\<forall>i c. view s i = Some c \<longrightarrow> view s' i = Some c) \<and>
    (\<forall>n. tview t' n = (if n \<in> ta_TypeName ` set xs \<and> \<not> has_active (view s) n
       then map_option (advanced tgran (env_now e)) (tview t n) else tview t n))"
  using assms(1,2,5-7)
proof (induction xs arbitrary: t s)
  case (Cons x xs)
  obtain t1 s1 where p: "processDueTask ts q e x (t, s) = (t1, s1)" by (cases "processDueTask ts q e x (t, s)")
  have rest: "fold (processDueTask ts q e) xs (t1, s1) = (t', s')" using Cons.prems(5) p by simp
  show ?case
  proof (cases "has_active (view s) (ta_TypeName x)")
    case True
    then have "t1 = t" "s1 = s" using process_active [OF Cons.prems(2) assms(3)] p by auto
    with True show ?thesis using Cons.IH [OF Cons.prems(1,2) _ _ rest [unfolded \<open>t1 = t\<close> \<open>s1 = s\<close>]] Cons.prems(3,4) by auto
  next
    case False
    note idle = process_idle [OF Cons.prems(1,2) assms(3) False assms(4) _ p]
    have x: "tview t (ta_TypeName x) = Some x" using Cons.prems(4) by simp
    from idle(4) [OF x] obtain i where i: "view s i = None" "view s1 = (view s)(i \<mapsto> fresh_command i (ta_TypeName x) (res_of None)
       PriorityNormal TriggerScheduled (ta_TypeName x) (gran (env_now e)))" by blast
    have has: "has_active (view s1) k \<longleftrightarrow> k = ta_TypeName x \<or> has_active (view s) k" for k
      unfolding i(2) using i(1) by (rule has_active_new)
    have one: "one_active (view s1) k" if "one_active (view s) k" for k
      unfolding i(2) using i(1) False that by (rule one_active_new)
    have keep: "view s1 j = Some c" if "view s j = Some c" for j c using that i by auto
    have "\<forall>y\<in>set xs. tview t1 (ta_TypeName y) = Some y" using Cons.prems(3,4) idle(3) [OF x] by (auto simp: image_iff)
    from Cons.IH [OF idle(1) [OF x] idle(2) [OF x] _ this rest] Cons.prems(3) have ih:
      "tinv t' \<and> inv s'" "\<And>k. has_active (view s') k \<longleftrightarrow> has_active (view s1) k \<or> k \<in> ta_TypeName ` set xs"
      "\<And>k. one_active (view s1) k \<Longrightarrow> one_active (view s') k" "\<And>i c. view s1 i = Some c \<Longrightarrow> view s' i = Some c"
      "\<And>n. tview t' n = (if n \<in> ta_TypeName ` set xs \<and> \<not> has_active (view s1) n
       then map_option (advanced tgran (env_now e)) (tview t1 n) else tview t1 n)" by auto
    have "tview t' n = (if n \<in> ta_TypeName ` set (x # xs) \<and> \<not> has_active (view s) n
       then map_option (advanced tgran (env_now e)) (tview t n) else tview t n)" for n
      unfolding ih(5) has using idle(3) [OF x] False x Cons.prems(3) by auto
    then show ?thesis using ih(1-4) has one keep by auto
  qed
qed auto

lemma tick_ok:
  assumes "tinv t" "inv s" "quiet e" "res_ok None" "tick ts q e (t, s) = (t', s')"
  defines "due n \<equiv> (\<exists>x. tview t n = Some x \<and> ta_TypeName x = n \<and> ta_NextExecution x \<le> tgran (env_now e))"
  shows "tinv t'" "inv s'" "has_active (view s') k \<longleftrightarrow> has_active (view s) k \<or> due k"
    "one_active (view s) k \<Longrightarrow> one_active (view s') k"
    "view s i = Some c \<Longrightarrow> view s' i = Some (swept (gran (env_now e)) c)"
    "tview t' n = (if due n \<and> \<not> has_active (view s) n then map_option (advanced tgran (env_now e)) (tview t n) else tview t n)"
proof -
  obtain rd t0 where d: "ts_GetDueTasks ts e t = (rd, t0)" by (cases "ts_GetDueTasks ts e t")
  from due_ok [OF assms(1,3) d] obtain xs where xs: "t0 = t" "rd = Inr xs" "distinct (map ta_TypeName xs)"
    "\<And>x. x \<in> set xs \<longleftrightarrow> tview t (ta_TypeName x) = Some x \<and> ta_NextExecution x \<le> tgran (env_now e)" by auto
  obtain t1 s1 where f: "fold (processDueTask ts q e) xs (t, s) = (t1, s1)" by (cases "fold (processDueTask ts q e) xs (t, s)")
  obtain rs s2 where w: "q_SweepExpiredLeases q e s1 = (rs, s2)" by (cases "q_SweepExpiredLeases q e s1")
  have res: "t' = t1" "s' = s2" using assms(5) d xs(1,2) f w by (simp_all add: tick_def)
  have in_due: "k \<in> ta_TypeName ` set xs \<longleftrightarrow> due k" for k using xs(4) by (auto simp: due_def image_iff)
  have "\<forall>x\<in>set xs. tview t (ta_TypeName x) = Some x" using xs(4) by blast
  note all = process_all [OF assms(1-4) xs(3) this f, unfolded in_due]
  then have "inv s1" by blast
  from sweep_ok [OF this assms(3) w] have sw: "inv s2" "\<And>i. view s2 i = map_option (swept (gran (env_now e))) (view s1 i)" by auto
  show "tinv t'" "inv s'" "tview t' n = (if due n \<and> \<not> has_active (view s) n then map_option (advanced tgran (env_now e)) (tview t n) else tview t n)"
    using all sw res by auto
  show "has_active (view s') k \<longleftrightarrow> has_active (view s) k \<or> due k" using all active_at_swept [OF sw(2)] res by (simp add: has_active_def one_active_def)
  show "one_active (view s) k \<Longrightarrow> one_active (view s') k" using all active_at_swept [OF sw(2)] res by (simp add: has_active_def one_active_def)
  show "view s i = Some c \<Longrightarrow> view s' i = Some (swept (gran (env_now e)) c)" using all sw(2) res by simp
qed

lemma tick_refused:
  assumes "tinv t" "inv s" "quiet e" "\<not> res_ok None"
  shows "tick ts q e (t, s) = (t, snd (q_SweepExpiredLeases q e s))"
proof -
  obtain rd t0 where d: "ts_GetDueTasks ts e t = (rd, t0)" by (cases "ts_GetDueTasks ts e t")
  from due_ok [OF assms(1,3) d] obtain xs where xs: "t0 = t" "rd = Inr xs" by auto
  have "fold (processDueTask ts q e) xs (t, s) = (t, s)" by (induction xs) (simp_all add: process_refused [OF assms(2-4)])
  then show ?thesis using d xs by (simp add: tick_def)
qed

end

subsection \<open>The scheduler on the two databases\<close>

interpretation sqsched: scheduling sqliteTasks "\<lambda>t. distinct (map sk_TypeName t)" "task_view sk_TypeName scheduledTaskFromSqlite"
  sq_gran "\<lambda>i. i" sqliteQueue "wf_table sc_ID" "rows_view sc_ID commandFromSqlite" sq_gran "\<lambda>_. True" "\<lambda>b. Some (bytes_of b)" ..

interpretation pgsched: scheduling "postgresTasks collate" "\<lambda>t. distinct (map pk_TypeName t)" "task_view pk_TypeName scheduledTaskFromPostgres"
  pg_gran wrap32 "postgresQueue jsonb" "wf_table pc_ID" "rows_view pc_ID commandFromPostgres" pg_gran
  "\<lambda>b. pg_json jsonb b \<noteq> None" "pg_json jsonb" for collate jsonb ..

text \<open>What readers of the two SQLite tables see.\<close>

abbreviation sq_commands :: "SqCommand table \<Rightarrow> int \<Rightarrow> Command option" where
  "sq_commands \<equiv> rows_view sc_ID commandFromSqlite"

abbreviation sq_tasks :: "SqTask list \<Rightarrow> string \<Rightarrow> ScheduledTask option" where
  "sq_tasks \<equiv> task_view sk_TypeName scheduledTaskFromSqlite"

text \<open>A task the SQLite table shows as due at the clock of the call.\<close>

definition sqlite_due :: "dbenv \<Rightarrow> SqTask list \<Rightarrow> string \<Rightarrow> bool" where
  "sqlite_due e t n = list_ex (\<lambda>r. sk_TypeName r = n \<and> sk_NextExecution r \<le> sqlite_format (env_now e)) t"

lemma sqlite_due_iff:
  assumes "distinct (map sk_TypeName t)"
  shows "sqlite_due e t n \<longleftrightarrow> (\<exists>x. task_view sk_TypeName scheduledTaskFromSqlite t n = Some x \<and> ta_TypeName x = n \<and>
    ta_NextExecution x \<le> sq_gran (env_now e))"
proof -
  have "ta_NextExecution (scheduledTaskFromSqlite r) \<le> sq_gran (env_now e) \<longleftrightarrow> sk_NextExecution r \<le> sqlite_format (env_now e)" for r
    unfolding sq_time [symmetric] by (simp add: scheduledTaskFromSqlite_def del: sq_time)
  then show ?thesis unfolding sqlite_due_def list_ex_iff task_view_Some [OF assms]
    by (auto simp: scheduledTaskFromSqlite_def)
qed

text \<open>C7: One tick of the scheduler on SQLite, when no statement fails: afterwards a key has a queued or
  running command exactly if it had one before or a task of that name was due; a key with at most one
  such command still has at most one; every earlier command is kept, with its lease taken away if it
  had run out; and exactly the due tasks whose key was idle have moved on, to be due one interval
  after the tick.\<close>

theorem sqlite_tick:
  assumes "distinct (map sk_TypeName t)" "wf_table sc_ID s" "quiet e" "tick sqliteTasks sqliteQueue e (t, s) = (t', s')"
  shows "distinct (map sk_TypeName t') \<and> wf_table sc_ID s' \<and>
    (\<forall>k. has_active (sq_commands s') k \<longleftrightarrow> has_active (sq_commands s) k \<or> sqlite_due e t k) \<and>
    (\<forall>k. one_active (sq_commands s) k \<longrightarrow> one_active (sq_commands s') k) \<and>
    (\<forall>i c. sq_commands s i = Some c \<longrightarrow> sq_commands s' i = Some (swept (sq_gran (env_now e)) c)) \<and>
    (\<forall>n. sq_tasks t' n = (if sqlite_due e t n \<and> \<not> has_active (sq_commands s) n
       then map_option (advanced sq_gran (env_now e)) (sq_tasks t n) else sq_tasks t n))"
  unfolding sqlite_due_iff [OF assms(1)]
  using sqsched.tick_ok [OF assms(1-3) TrueI assms(4)] by blast

definition example_tasks :: "SqTask list" where
  "example_tasks = [\<lparr>sk_TypeName = ''RssSync'', sk_IntervalSecs = 900, sk_LastExecution = None, sk_NextExecution = 5\<rparr>,
     \<lparr>sk_TypeName = ''HealthCheck'', sk_IntervalSecs = 1800, sk_LastExecution = None, sk_NextExecution = 500\<rparr>]"

lemma example_tasks_facts: "distinct (map sk_TypeName example_tasks)" "sqlite_due (quiet_at 10000000000) example_tasks ''RssSync''"
  "\<not> sqlite_due (quiet_at 10000000000) example_tasks ''HealthCheck''"
  by (simp_all add: example_tasks_def sqlite_due_def quiet_at_def sqlite_format_def second_ns_def)

theorem sqlite_tick_witness:
  "has_active (sq_commands (snd (tick sqliteTasks sqliteQueue (quiet_at 10000000000) (example_tasks, \<lparr>rows = [], next_id = 1\<rparr>)))) ''RssSync''
   \<and> map_option ta_NextExecution (sq_tasks (fst (tick sqliteTasks sqliteQueue (quiet_at 10000000000)
       (example_tasks, \<lparr>rows = [], next_id = 1\<rparr>))) ''RssSync'') = Some 910000000000"
proof -
  obtain t' s' where t: "tick sqliteTasks sqliteQueue (quiet_at 10000000000) (example_tasks, \<lparr>rows = [], next_id = 1\<rparr>) = (t', s')"
    by (cases "tick sqliteTasks sqliteQueue (quiet_at 10000000000) (example_tasks, \<lparr>rows = [], next_id = 1\<rparr>)")
  have "wf_table sc_ID \<lparr>rows = [], next_id = 1\<rparr>" by (simp add: wf_table_def)
  note tick = sqlite_tick [OF example_tasks_facts(1) this _ t]
  have idle: "\<not> has_active (sq_commands \<lparr>rows = [], next_id = 1\<rparr>) k" for k
    by (simp add: has_active_iff rows_view_def tbl_def)
  have "map_option ta_NextExecution (sq_tasks t' ''RssSync'') = map_option ta_NextExecution
      (map_option (advanced sq_gran 10000000000) (sq_tasks example_tasks ''RssSync''))"
    using tick example_tasks_facts idle by simp
  also have "\<dots> = Some 910000000000"
    by (simp add: task_view_def example_tasks_def advanced_def scheduledTaskFromSqlite_def sq_gran_def second_ns_def int64_range_def)
  finally show ?thesis using tick example_tasks_facts t by simp
qed

text \<open>C18: On Postgres the scheduler never starts anything: it enqueues commands without a body, the body
  column refuses NULL, and so a tick changes nothing but the expired leases, whatever is due.\<close>

theorem postgres_tick_never_enqueues:
  assumes "distinct (map pk_TypeName t)" "wf_table pc_ID s" "quiet e"
  shows "tick (postgresTasks collate) (postgresQueue jsonb) e (t, s) = (t, snd (q_SweepExpiredLeases (postgresQueue jsonb) e s))"
  by (rule pgsched.tick_refused [OF assms]) (simp add: pg_json_def)

definition example_pgtasks :: "PgTask list" where
  "example_pgtasks = [\<lparr>pk_TypeName = ''RssSync'', pk_IntervalSecs = 900, pk_LastExecution = None, pk_NextExecution = 5\<rparr>]"

theorem postgres_tick_never_enqueues_witness:
  "fst (tick (postgresTasks (\<lambda>x. x)) (postgresQueue Some) (quiet_at 10000000000) (example_pgtasks, \<lparr>rows = [], next_id = 1\<rparr>)) = example_pgtasks
   \<and> fst (postgresTasks_GetDueTasks (quiet_at 10000000000) example_pgtasks) = Inr (map scheduledTaskFromPostgres example_pgtasks)"
proof -
  have "distinct (map pk_TypeName example_pgtasks)" "wf_table pc_ID \<lparr>rows = [], next_id = 1\<rparr>"
    by (simp_all add: example_pgtasks_def wf_table_def)
  from postgres_tick_never_enqueues [OF this, of "quiet_at 10000000000" "\<lambda>x. x" Some]
  have "fst (tick (postgresTasks (\<lambda>x. x)) (postgresQueue Some) (quiet_at 10000000000) (example_pgtasks, \<lparr>rows = [], next_id = 1\<rparr>)) = example_pgtasks"
    by simp
  moreover have "fst (postgresTasks_GetDueTasks (quiet_at 10000000000) example_pgtasks) = Inr (map scheduledTaskFromPostgres example_pgtasks)"
    by (simp add: postgresTasks_GetDueTasks_def postgres_GetDueTasks_def act_defs example_pgtasks_def pg_micros_def micro_ns_def)
  ultimately show ?thesis ..
qed

end
