(* ===== verification/Crud_Store.thy ===== *)
theory Crud_Store
  imports Sqlite_Time Postgres_Types "HOL-Library.List_Lexorder" "HOL-Library.Char_ord"
begin

section \<open>Stores of configured items\<close>

text \<open>
  Several packages keep a list of configured items behind the same five operations. \<open>InstanceStore\<close> is that
  Go interface as a record. Its specification is a shelf: the items in the order they were added and
  the next id, with the five operations as pure functions. The locale \<open>crud_store\<close> states that a store
  behaves like a shelf, call by call, and derives that every sequence of calls gives the results of
  the specification. \<open>table_store\<close> reduces this to facts about single rows of a table.
\<close>

record ('s, 'a) InstanceStore =
  is_Create :: "dbenv \<Rightarrow> 'a \<Rightarrow> ('s, 'a) act"
  is_GetByID :: "dbenv \<Rightarrow> int \<Rightarrow> ('s, 'a) act"
  is_List :: "dbenv \<Rightarrow> ('s, 'a list) act"
  is_Update :: "dbenv \<Rightarrow> 'a \<Rightarrow> ('s, unit) act"
  is_Delete :: "dbenv \<Rightarrow> int \<Rightarrow> ('s, unit) act"

subsection \<open>The specification\<close>

text \<open>
  What differs between stores: the id of an item, what becomes of an id argument, which items
  are accepted, the item that is stored for a new one (given the instant and the id), what an
  update makes of the stored item, and the key by which a listing is sorted.
\<close>

record ('a, 'k) crud_spec =
  cs_iid :: "'a \<Rightarrow> int"
  cs_ident :: "int \<Rightarrow> int"
  cs_accepts :: "'a \<Rightarrow> bool"
  cs_made :: "int \<Rightarrow> int \<Rightarrow> 'a \<Rightarrow> 'a"
  cs_changed :: "'a \<Rightarrow> 'a \<Rightarrow> 'a"
  cs_order :: "'a \<Rightarrow> 'k"

record 'a shelf =
  sh_items :: "'a list"
  sh_next :: int

datatype 'a crud_op = OpCreate 'a | OpGet int | OpList | OpUpdate 'a | OpDelete int

datatype 'a crud_out = Item 'a | Items "'a list" | Done | Missing | Refused

fun spec_do :: "('a, 'k::linorder) crud_spec \<Rightarrow> int \<Rightarrow> 'a crud_op \<Rightarrow> 'a shelf \<Rightarrow> 'a crud_out \<times> 'a shelf" where
  "spec_do sp now (OpCreate x) h =
     (if cs_accepts sp x
      then (Item (cs_made sp now (sh_next h) x),
            \<lparr>sh_items = sh_items h @ [cs_made sp now (sh_next h) x], sh_next = sh_next h + 1\<rparr>)
      else (Refused, h))"
| "spec_do sp now (OpGet i) h =
     (case List.find (\<lambda>y. cs_iid sp y = cs_ident sp i) (sh_items h) of None \<Rightarrow> Missing | Some y \<Rightarrow> Item y, h)"
| "spec_do sp now OpList h = (Items (sort_key (cs_order sp) (sh_items h)), h)"
| "spec_do sp now (OpUpdate x) h =
     (if cs_accepts sp x
      then (Done, h\<lparr>sh_items := map (\<lambda>y. if cs_iid sp y = cs_ident sp (cs_iid sp x) then cs_changed sp x y else y) (sh_items h)\<rparr>)
      else (Refused, h))"
| "spec_do sp now (OpDelete i) h = (Done, h\<lparr>sh_items := filter (\<lambda>y. cs_iid sp y \<noteq> cs_ident sp i) (sh_items h)\<rparr>)"

fun spec_run :: "('a, 'k::linorder) crud_spec \<Rightarrow> (int \<times> 'a crud_op) list \<Rightarrow> 'a shelf \<Rightarrow> 'a crud_out list \<times> 'a shelf" where
  "spec_run sp [] h = ([], h)"
| "spec_run sp ((now, op) # ops) h = (case spec_do sp now op h of (o1, h1) \<Rightarrow>
     (case spec_run sp ops h1 of (os, h2) \<Rightarrow> (o1 # os, h2)))"

text \<open>A store driven by the same calls: every error but the not-found sentinel counts as a refusal.\<close>

definition out_of :: "('a \<Rightarrow> 'b crud_out) \<Rightarrow> (store_error, 'a) result \<Rightarrow> 'b crud_out" where
  "out_of f r = (case r of Inr x \<Rightarrow> f x | Inl (ErrNotFound _) \<Rightarrow> Missing | Inl _ \<Rightarrow> Refused)"

fun store_do :: "('s, 'a) InstanceStore \<Rightarrow> dbenv \<Rightarrow> 'a crud_op \<Rightarrow> 's \<Rightarrow> 'a crud_out \<times> 's" where
  "store_do st e (OpCreate x) s = apfst (out_of Item) (is_Create st e x s)"
| "store_do st e (OpGet i) s = apfst (out_of Item) (is_GetByID st e i s)"
| "store_do st e OpList s = apfst (out_of Items) (is_List st e s)"
| "store_do st e (OpUpdate x) s = apfst (out_of (\<lambda>_. Done)) (is_Update st e x s)"
| "store_do st e (OpDelete i) s = apfst (out_of (\<lambda>_. Done)) (is_Delete st e i s)"

fun store_run :: "('s, 'a) InstanceStore \<Rightarrow> (dbenv \<times> 'a crud_op) list \<Rightarrow> 's \<Rightarrow> 'a crud_out list \<times> 's" where
  "store_run st [] s = ([], s)"
| "store_run st ((e, op) # ops) s = (case store_do st e op s of (o1, s1) \<Rightarrow>
     (case store_run st ops s1 of (os, s2) \<Rightarrow> (o1 # os, s2)))"

subsection \<open>The contract\<close>

locale crud_store =
  fixes st :: "('s, 'a) InstanceStore" and inv :: "'s \<Rightarrow> bool" and shelf :: "'s \<Rightarrow> 'a shelf" and sp :: "('a, 'k::linorder) crud_spec"
  assumes call_refines: "\<lbrakk>inv s; quiet e; store_do st e op s = (out, s')\<rbrakk> \<Longrightarrow>
        inv s' \<and> spec_do sp (env_now e) op (shelf s) = (out, shelf s')"
begin

lemma run_refines:
  "\<lbrakk>inv s; list_all (\<lambda>(e, _). quiet e) ops; store_run st ops s = (outs, s')\<rbrakk> \<Longrightarrow>
   inv s' \<and> spec_run sp (map (\<lambda>(e, op). (env_now e, op)) ops) (shelf s) = (outs, shelf s')"
proof (induction ops arbitrary: s outs s')
  case (Cons x ops)
  obtain e op where x: "x = (e, op)" by (cases x)
  obtain o1 s1 where a: "store_do st e op s = (o1, s1)" by (cases "store_do st e op s")
  obtain os s2 where b: "store_run st ops s1 = (os, s2)" by (cases "store_run st ops s1")
  from Cons.prems x a b have "outs = o1 # os" "s' = s2" "quiet e" "list_all (\<lambda>(e, _). quiet e) ops" by auto
  then show ?case using call_refines [OF Cons.prems(1) _ a] Cons.IH [OF _ _ b] x by auto
qed simp

end

subsection \<open>Stores over one table\<close>

text \<open>
  The shelf of a table, and the laws for operations that are one statement each, when no
  statement fails. \<open>conv\<close> reads a row, \<open>mk\<close> makes the row of a new item, \<open>upd\<close> is the assignment of an
  update; \<open>None\<close> from the latter two is the engine's refusal of a value.
\<close>

lemma fail_simps [simp]: "wrapA m (failA x) = failA (Wrap m x)" "mapA f (failA x) = failA x" "failA x = failA y \<longleftrightarrow> x = y"
  by (auto simp: wrapA_def mapA_def failA_def fun_eq_iff)

definition table_shelf :: "('r \<Rightarrow> 'a) \<Rightarrow> 'r table \<Rightarrow> 'a shelf" where
  "table_shelf conv t = \<lparr>sh_items = map conv (rows t), sh_next = next_id t\<rparr>"

locale table_store =
  fixes st :: "('r table, 'a) InstanceStore" and rid :: "'r \<Rightarrow> int" and conv :: "'r \<Rightarrow> 'a"
    and mk :: "int \<Rightarrow> 'a \<Rightarrow> int \<Rightarrow> 'r" and upd :: "'a \<Rightarrow> 'r \<Rightarrow> 'r" and sp :: "('a, 'k::linorder) crud_spec"
  assumes conv_iid: "cs_iid sp (conv r) = rid r"
    and conv_made: "cs_accepts sp x \<Longrightarrow> cs_made sp now i x = conv (mk now x i)"
    and conv_changed: "cs_accepts sp x \<Longrightarrow> cs_changed sp x (conv r) = conv (upd x r)"
    and mk_id: "rid (mk now x i) = i" and upd_id: "rid (upd x r) = rid r"
    and Create: "quiet e \<Longrightarrow> cs_accepts sp x \<Longrightarrow> is_Create st e x = mapA conv (sql_insert (mk (env_now e) x))"
    and Create_refused: "quiet e \<Longrightarrow> \<not> cs_accepts sp x \<Longrightarrow> \<exists>m d. is_Create st e x = failA (Wrap m (DbError d))"
    and GetByID: "quiet e \<Longrightarrow> \<exists>nf gm. is_GetByID st e i = rowA (Inl (ErrNotFound nf)) gm conv (sql_one (\<lambda>r. rid r = cs_ident sp i))"
    and List: "quiet e \<Longrightarrow> is_List st e = mapA (map conv) (sql_many (\<lambda>_. True) (\<lambda>r. cs_order sp (conv r)))"
    and Update: "quiet e \<Longrightarrow> cs_accepts sp x \<Longrightarrow> is_Update st e x = sql_exec (\<lambda>r. rid r = cs_ident sp (cs_iid sp x)) (upd x)"
    and Update_refused: "quiet e \<Longrightarrow> \<not> cs_accepts sp x \<Longrightarrow> \<exists>m d. is_Update st e x = failA (Wrap m (DbError d))"
    and Delete: "quiet e \<Longrightarrow> is_Delete st e i = sql_delete (\<lambda>r. rid r = cs_ident sp i)"
begin

lemma find_conv: "List.find (\<lambda>y. cs_iid sp y = i) (map conv xs) = map_option conv (List.find (\<lambda>r. rid r = i) xs)"
  by (induction xs) (auto simp: conv_iid)

lemma get_refines:
  assumes "quiet e"
  shows "store_do st e (OpGet i) s = (fst (spec_do sp now (OpGet i) (table_shelf conv s)), s)"
  using GetByID [OF assms, of i]
  by (auto simp: sql_one_id rowA_def table_shelf_def find_conv out_of_def tbl_def split: option.split)

lemma insort_conv: "map conv (insort_key (\<lambda>r. cs_order sp (conv r)) x xs) = insort_key (cs_order sp) (conv x) (map conv xs)"
  by (induction xs) auto

lemma sort_conv: "map conv (sort_key (\<lambda>r. cs_order sp (conv r)) xs) = sort_key (cs_order sp) (map conv xs)"
  by (induction xs) (simp_all add: insort_conv)

lemma statement_refines:
  assumes "wf_table rid s" "quiet e" "store_do st e op s = (out, s')"
  shows "wf_table rid s' \<and> spec_do sp (env_now e) op (table_shelf conv s) = (out, table_shelf conv s')"
proof (cases op)
  case (OpCreate x)
  show ?thesis
  proof (cases "cs_accepts sp x")
    case True
    then have "out = Item (conv (mk (env_now e) x (next_id s)))" "s' = snd (sql_insert (mk (env_now e) x) s)"
      using assms(2,3) OpCreate by (auto simp: Create mapA_def sql_insert_def out_of_def)
    then show ?thesis using True OpCreate wf_insert [OF assms(1), of "mk (env_now e) x"]
      by (simp add: table_shelf_def sql_insert_def conv_made mk_id)
  next
    case False
    then show ?thesis using Create_refused [OF assms(2) False] assms OpCreate by (auto simp: failA_def out_of_def)
  qed
next
  case (OpGet i)
  then show ?thesis using get_refines [OF assms(2), of i s "env_now e"] assms(1,3) by auto
next
  case OpList
  then show ?thesis using assms by (auto simp: List mapA_def sql_many_def out_of_def table_shelf_def sort_conv)
next
  case (OpUpdate x)
  show ?thesis
  proof (cases "cs_accepts sp x")
    case True
    then have "out = Done" "s' = upd_rows (\<lambda>r. rid r = cs_ident sp (cs_iid sp x)) (upd x) s"
      using assms(2,3) OpUpdate by (auto simp: Update sql_exec_def out_of_def)
    then show ?thesis using True OpUpdate wf_upd_rows [OF assms(1), of "upd x"]
      by (auto simp: table_shelf_def upd_rows_def conv_iid conv_changed upd_id)
  next
    case False
    then show ?thesis using Update_refused [OF assms(2) False] assms OpUpdate by (auto simp: failA_def out_of_def)
  qed
next
  case (OpDelete i)
  then have "out = Done" "s' = del_rows (\<lambda>r. rid r = cs_ident sp i) s"
    using assms(2,3) by (auto simp: Delete sql_delete_def out_of_def)
  then show ?thesis using OpDelete wf_del_rows [OF assms(1)]
    by (simp add: table_shelf_def del_rows_def filter_map o_def conv_iid)
qed

end

sublocale table_store \<subseteq> crud_store st "wf_table rid" "table_shelf conv" sp
  by unfold_locales (rule statement_refines)

subsection \<open>Stores that decode their rows\<close>

text \<open>
  Some rows hold JSON that is decoded when a row is read, which can fail. \<open>ok\<close> says which rows decode, \<open>dec\<close> to
  what. When the store only ever writes rows that decode it behaves like the store \<open>table_ops\<close> that
  reads its rows by \<open>dec\<close>.
\<close>

definition table_ops :: "('r \<Rightarrow> int) \<Rightarrow> ('r \<Rightarrow> 'a) \<Rightarrow> (int \<Rightarrow> 'a \<Rightarrow> int \<Rightarrow> 'r) \<Rightarrow> ('a \<Rightarrow> 'r \<Rightarrow> 'r) \<Rightarrow> ('a, 'k::linorder) crud_spec
     \<Rightarrow> ('r table, 'a) InstanceStore" where
  "table_ops rid dec mk upd sp = \<lparr>
     is_Create = (\<lambda>e x. if cs_accepts sp x then mapA dec (sql_insert (mk (env_now e) x)) else failA (Wrap '''' (DbError ''''))),
     is_GetByID = (\<lambda>e i. rowA (Inl (ErrNotFound '''')) '''' dec (sql_one (\<lambda>r. rid r = cs_ident sp i))),
     is_List = (\<lambda>e. mapA (map dec) (sql_many (\<lambda>_. True) (\<lambda>r. cs_order sp (dec r)))),
     is_Update = (\<lambda>e x. if cs_accepts sp x then sql_exec (\<lambda>r. rid r = cs_ident sp (cs_iid sp x)) (upd x)
        else failA (Wrap '''' (DbError ''''))),
     is_Delete = (\<lambda>e i. sql_delete (\<lambda>r. rid r = cs_ident sp i))\<rparr>"

fun op_item :: "('a \<Rightarrow> bool) \<Rightarrow> 'a crud_op \<Rightarrow> bool" where
  "op_item good (OpCreate x) = good x"
| "op_item good (OpUpdate x) = good x"
| "op_item good _ = True"

locale decoded_store =
  fixes st :: "('r table, 'a) InstanceStore" and rid :: "'r \<Rightarrow> int" and dec :: "'r \<Rightarrow> 'a" and ok :: "'r \<Rightarrow> bool"
    and good :: "'a \<Rightarrow> bool"
    and mk :: "int \<Rightarrow> 'a \<Rightarrow> int \<Rightarrow> 'r" and upd :: "'a \<Rightarrow> 'r \<Rightarrow> 'r" and sp :: "('a, 'k::linorder) crud_spec"
  assumes iid: "cs_iid sp (dec r) = rid r"
    and made: "cs_accepts sp x \<Longrightarrow> cs_made sp now i x = dec (mk now x i)"
    and changed: "cs_accepts sp x \<Longrightarrow> cs_changed sp x (dec r) = dec (upd x r)"
    and made_id: "rid (mk now x i) = i" and changed_id: "rid (upd x r) = rid r"
    and made_ok: "good x \<Longrightarrow> ok (mk now x i)"
    and changed_ok: "good x \<Longrightarrow> ok r \<Longrightarrow> ok (upd x r)"
    and like_table: "quiet e \<Longrightarrow> list_all ok (rows s) \<Longrightarrow> op_item good op \<Longrightarrow>
      store_do st e op s = store_do (table_ops rid dec mk upd sp) e op s"

sublocale decoded_store \<subseteq> plain: table_store "table_ops rid dec mk upd sp" rid dec mk upd sp
  by unfold_locales (auto simp: table_ops_def iid made changed made_id changed_id)

context decoded_store
begin

lemma rows_ok:
  assumes "list_all ok (rows s)" "op_item good op" "store_do (table_ops rid dec mk upd sp) e op s = (out, s')"
  shows "list_all ok (rows s')"
  using assms by (cases op) (auto simp: table_ops_def act_defs sql_defs upd_rows_def del_rows_def list_all_iff
      made_ok changed_ok split: if_splits sum.splits)

lemma decoded_run:
  assumes "list_all ok (rows s)" "list_all (\<lambda>(e, op). quiet e \<and> op_item good op) ops"
  shows "store_run st ops s = store_run (table_ops rid dec mk upd sp) ops s"
  using assms
proof (induction ops arbitrary: s)
  case (Cons x ops)
  obtain e op where x: "x = (e, op)" by (cases x)
  obtain out s1 where step: "store_do (table_ops rid dec mk upd sp) e op s = (out, s1)" by fastforce
  from x Cons.prems have "store_do st e op s = (out, s1)" "list_all ok (rows s1)"
    using like_table [of e s op] rows_ok [OF _ _ step] step by auto
  then show ?case using Cons x step by simp
qed simp

end

subsection \<open>Comparing two specifications\<close>

text \<open>
  Two specifications that treat the calls of a sequence alike, up to what \<open>er\<close> forgets of an item, give
  the same results up to what \<open>er\<close> forgets.
\<close>

fun same_call :: "('a \<Rightarrow> 'a) \<Rightarrow> ('a, 'k::linorder) crud_spec \<Rightarrow> ('a, 'k) crud_spec \<Rightarrow> 'a crud_op \<Rightarrow> bool" where
  "same_call er a b (OpCreate x) \<longleftrightarrow> cs_accepts a x = cs_accepts b x \<and> (\<forall>t i. er (cs_made a t i x) = er (cs_made b t i x))"
| "same_call er a b (OpGet i) \<longleftrightarrow> cs_ident a i = cs_ident b i"
| "same_call er a b OpList \<longleftrightarrow> True"
| "same_call er a b (OpUpdate x) \<longleftrightarrow> cs_accepts a x = cs_accepts b x \<and> cs_ident a (cs_iid a x) = cs_ident b (cs_iid b x) \<and>
     (\<forall>y z. er y = er z \<longrightarrow> er (cs_changed a x y) = er (cs_changed b x z))"
| "same_call er a b (OpDelete i) \<longleftrightarrow> cs_ident a i = cs_ident b i"

definition alike :: "('a \<Rightarrow> 'a) \<Rightarrow> ('a, 'k::linorder) crud_spec \<Rightarrow> ('a, 'k) crud_spec \<Rightarrow> bool" where
  "alike er a b \<longleftrightarrow> (\<forall>x y. er x = er y \<longrightarrow> cs_iid a x = cs_iid b y \<and> cs_order a x = cs_order b y)"

definition same_shelf :: "('a \<Rightarrow> 'a) \<Rightarrow> 'a shelf \<Rightarrow> 'a shelf \<Rightarrow> bool" where
  "same_shelf er g h \<longleftrightarrow> list_all2 (\<lambda>x y. er x = er y) (sh_items g) (sh_items h) \<and> sh_next g = sh_next h"

definition same_out :: "('a \<Rightarrow> 'a) \<Rightarrow> 'a crud_out \<Rightarrow> 'a crud_out \<Rightarrow> bool" where
  "same_out er p q \<longleftrightarrow> map_crud_out er p = map_crud_out er q"

lemma alikeD: "alike er a b \<Longrightarrow> er x = er y \<Longrightarrow> cs_iid a x = cs_iid b y \<and> cs_order a x = cs_order b y"
  by (simp add: alike_def)

lemma list_all2_er: "list_all2 (\<lambda>x y. er x = er y) xs ys \<longleftrightarrow> map er xs = map er ys"
  by (auto simp: list_all2_conv_all_nth list_eq_iff_nth_eq)

lemma insort_alike:
  assumes "list_all2 (\<lambda>x y. er x = er y) xs ys" "er x = er y" "alike er a b"
  shows "list_all2 (\<lambda>x y. er x = er y) (insort_key (cs_order a) x xs) (insort_key (cs_order b) y ys)"
  using assms by (induction xs ys rule: list_all2_induct) (auto simp: alike_def)

lemma sort_alike:
  assumes "list_all2 (\<lambda>x y. er x = er y) xs ys" "alike er a b"
  shows "list_all2 (\<lambda>x y. er x = er y) (sort_key (cs_order a) xs) (sort_key (cs_order b) ys)"
  using assms by (induction xs ys rule: list_all2_induct) (auto intro: insort_alike)

lemma find_alike:
  assumes "list_all2 (\<lambda>x y. er x = er y) xs ys" "alike er a b"
  shows "map_option er (List.find (\<lambda>y. cs_iid a y = i) xs) = map_option er (List.find (\<lambda>y. cs_iid b y = i) ys)"
  using assms(1)
proof (induction xs ys rule: list_all2_induct)
  case (Cons x xs y ys)
  with alikeD [OF assms(2) Cons.hyps(1)] show ?case by auto
qed simp

lemma filter_alike:
  assumes "list_all2 (\<lambda>x y. er x = er y) xs ys" "alike er a b"
  shows "list_all2 (\<lambda>x y. er x = er y) (filter (\<lambda>y. cs_iid a y \<noteq> i) xs) (filter (\<lambda>y. cs_iid b y \<noteq> i) ys)"
  using assms(1)
proof (induction xs ys rule: list_all2_induct)
  case (Cons x xs y ys)
  with alikeD [OF assms(2) Cons.hyps(1)] show ?case by auto
qed simp

lemma map_alike:
  assumes "list_all2 (\<lambda>x y. er x = er y) xs ys" "alike er a b" "\<forall>y z. er y = er z \<longrightarrow> er (f y) = er (g z)"
  shows "list_all2 (\<lambda>x y. er x = er y) (map (\<lambda>y. if cs_iid a y = i then f y else y) xs)
    (map (\<lambda>y. if cs_iid b y = i then g y else y) ys)"
  using assms(1)
proof (induction xs ys rule: list_all2_induct)
  case (Cons x xs y ys)
  with alikeD [OF assms(2) Cons.hyps(1)] assms(3) show ?case by auto
qed simp

lemma spec_do_alike:
  assumes "same_shelf er g h" "alike er a b" "same_call er a b op"
  shows "same_out er (fst (spec_do a t op g)) (fst (spec_do b t op h)) \<and>
    same_shelf er (snd (spec_do a t op g)) (snd (spec_do b t op h))"
proof (cases op)
  case (OpCreate x)
  then show ?thesis using assms by (auto simp: same_shelf_def same_out_def list_all2_appendI)
next
  case (OpGet i)
  have "map_option er (List.find (\<lambda>y. cs_iid a y = cs_ident a i) (sh_items g)) = map_option er (List.find (\<lambda>y. cs_iid b y = cs_ident b i) (sh_items h))"
    using assms find_alike [of er "sh_items g" "sh_items h" a b "cs_ident b i"] OpGet by (auto simp: same_shelf_def)
  then show ?thesis using assms(1) OpGet
    by (cases "List.find (\<lambda>y. cs_iid a y = cs_ident a i) (sh_items g)";
        cases "List.find (\<lambda>y. cs_iid b y = cs_ident b i) (sh_items h)") (auto simp: same_out_def)
next
  case OpList
  then show ?thesis using assms sort_alike [of er "sh_items g" "sh_items h" a b]
    by (auto simp: same_shelf_def same_out_def list_all2_er)
next
  case (OpUpdate x)
  then show ?thesis using assms
      map_alike [of er "sh_items g" "sh_items h" a b "cs_changed a x" "cs_changed b x" "cs_ident b (cs_iid b x)"]
    by (auto simp: same_shelf_def same_out_def)
next
  case (OpDelete i)
  then show ?thesis using assms filter_alike [of er "sh_items g" "sh_items h" a b "cs_ident b i"]
    by (auto simp: same_shelf_def same_out_def)
qed

lemma spec_run_alike:
  assumes "same_shelf er g h" "alike er a b" "list_all (\<lambda>(t, op). same_call er a b op) ops"
  shows "list_all2 (same_out er) (fst (spec_run a ops g)) (fst (spec_run b ops h))"
  using assms
proof (induction ops arbitrary: g h)
  case (Cons x ops)
  obtain t op where x: "x = (t, op)" by (cases x)
  then have "same_call er a b op" "list_all (\<lambda>(t, op). same_call er a b op) ops" using Cons.prems(3) by auto
  note ops = this
  have "list_all2 (same_out er) (fst (spec_run a ops (snd (spec_do a t op g)))) (fst (spec_run b ops (snd (spec_do b t op h))))"
    using Cons.IH [OF _ Cons.prems(2) ops(2)] spec_do_alike [OF Cons.prems(1,2) ops(1)] by blast
  then show ?case using spec_do_alike [OF Cons.prems(1,2) ops(1), of t] x by (simp add: case_prod_beta)
qed simp

definition empty_shelf :: "'a shelf" where
  "empty_shelf = \<lparr>sh_items = [], sh_next = 1\<rparr>"

definition timed :: "(dbenv \<times> 'a crud_op) list \<Rightarrow> (int \<times> 'a crud_op) list" where
  "timed ops = map (\<lambda>(e, op). (env_now e, op)) ops"

definition quiet_calls :: "(dbenv \<times> 'a crud_op) list \<Rightarrow> bool" where
  "quiet_calls ops = list_all (\<lambda>(e, _). quiet e) ops"

lemma table_shelf_empty [simp]: "table_shelf conv empty_table = empty_shelf"
  by (simp add: table_shelf_def empty_table_def empty_shelf_def)

lemma same_shelf_refl [simp]: "same_shelf er h h"
  by (simp add: same_shelf_def list_all2_er)

context table_store
begin

lemma run_from_empty:
  assumes "quiet_calls ops"
  shows "fst (store_run st ops empty_table) = fst (spec_run sp (timed ops) empty_shelf)"
proof -
  obtain outs s' where "store_run st ops empty_table = (outs, s')" by (cases "store_run st ops empty_table")
  from run_refines [OF _ assms [unfolded quiet_calls_def] this] this show ?thesis by (simp add: timed_def)
qed

end

context decoded_store
begin

lemma decoded_from_empty:
  assumes "list_all (\<lambda>(e, op). quiet e \<and> op_item good op) ops"
  shows "fst (store_run st ops empty_table) = fst (spec_run sp (timed ops) empty_shelf)"
proof -
  have "quiet_calls ops" using assms by (auto simp: quiet_calls_def list_all_iff)
  from plain.run_from_empty [OF this] decoded_run [OF _ assms, of empty_table] show ?thesis
    by (simp add: empty_table_def)
qed

end

end
