(* ===== verification/Providers.thy ===== *)
theory Providers
  imports Crud_Store
begin

section \<open>The configured providers\<close>

text \<open>
  The instance stores of internal/providers/indexer, downloadclient and notification on SQLite and
  Postgres, over the statements of internal/db/gen. Each store behaves like a shelf of instances
  (theory Crud_Store): the six interpretations below. SQLite keeps booleans as numbers and settings as
  text; Postgres has boolean and JSONB columns and 32-bit integers, to which the store converts ids and
  priorities without a range check.
\<close>

subsection \<open>internal/providers/indexer\<close>

record IndexerInstance =
  ii_ID :: int
  ii_Name :: string
  ii_Implementation :: string
  ii_Settings :: RawMessage
  ii_EnableRss :: bool
  ii_EnableAutomaticSearch :: bool
  ii_EnableInteractiveSearch :: bool
  ii_Priority :: int
  ii_Added :: int

record SqIndexer =
  iq_ID :: int
  iq_Name :: string
  iq_Implementation :: string
  iq_Settings :: string
  iq_EnableRss :: int
  iq_EnableAutomaticSearch :: int
  iq_EnableInteractiveSearch :: int
  iq_Priority :: int
  iq_Added :: int

record PgIndexer =
  ix_ID :: int
  ix_Name :: string
  ix_Implementation :: string
  ix_Settings :: string
  ix_EnableRss :: bool
  ix_EnableAutomaticSearch :: bool
  ix_EnableInteractiveSearch :: bool
  ix_Priority :: int
  ix_Added :: int

definition boolToInt :: "bool \<Rightarrow> int" where
  "boolToInt b = (if b then 1 else 0)"

text \<open>Empty or nil settings are stored as an empty object.\<close>

definition sqliteSettings :: "RawMessage \<Rightarrow> string" where
  "sqliteSettings s = (if bytes_of s = [] then ''{}'' else bytes_of s)"

definition marshalSettings :: "RawMessage \<Rightarrow> RawMessage" where
  "marshalSettings s = (if bytes_of s = [] then Some ''{}'' else s)"

definition indexer_FromSQLite :: "SqIndexer \<Rightarrow> IndexerInstance" where
  "indexer_FromSQLite r = \<lparr>ii_ID = iq_ID r, ii_Name = iq_Name r, ii_Implementation = iq_Implementation r,
     ii_Settings = Some (iq_Settings r), ii_EnableRss = iq_EnableRss r \<noteq> 0,
       ii_EnableAutomaticSearch = iq_EnableAutomaticSearch r \<noteq> 0,
       ii_EnableInteractiveSearch = iq_EnableInteractiveSearch r \<noteq> 0, ii_Priority = iq_Priority r,
     ii_Added = parseSqliteTime (iq_Added r)\<rparr>"

definition sqIndexerRow :: "int \<Rightarrow> IndexerInstance \<Rightarrow> int \<Rightarrow> SqIndexer" where
  "sqIndexerRow now x i = \<lparr>iq_ID = i, iq_Name = ii_Name x, iq_Implementation = ii_Implementation x,
     iq_Settings = sqliteSettings (ii_Settings x), iq_EnableRss = boolToInt (ii_EnableRss x),
       iq_EnableAutomaticSearch = boolToInt (ii_EnableAutomaticSearch x),
       iq_EnableInteractiveSearch = boolToInt (ii_EnableInteractiveSearch x), iq_Priority = ii_Priority x,
     iq_Added = sqlite_format now\<rparr>"

definition sqIndexerSet :: "IndexerInstance \<Rightarrow> SqIndexer \<Rightarrow> SqIndexer" where
  "sqIndexerSet x r = r\<lparr>iq_Name := ii_Name x, iq_Implementation := ii_Implementation x,
     iq_Settings := sqliteSettings (ii_Settings x), iq_EnableRss := boolToInt (ii_EnableRss x),
       iq_EnableAutomaticSearch := boolToInt (ii_EnableAutomaticSearch x),
       iq_EnableInteractiveSearch := boolToInt (ii_EnableInteractiveSearch x), iq_Priority := ii_Priority x\<rparr>"

definition sqlite_CreateIndexer :: "dbenv \<Rightarrow> IndexerInstance \<Rightarrow> (SqIndexer table, SqIndexer) act" where
  "sqlite_CreateIndexer e x = stmt e ''CreateIndexer'' (sql_insert (sqIndexerRow (env_now e) x))"

definition sqlite_GetIndexerByID :: "dbenv \<Rightarrow> int \<Rightarrow> (SqIndexer table, SqIndexer) act" where
  "sqlite_GetIndexerByID e i = stmt e ''GetIndexerByID'' (sql_one (\<lambda>r. iq_ID r = i))"

definition sqlite_ListIndexers :: "dbenv \<Rightarrow> (SqIndexer table, SqIndexer list) act" where
  "sqlite_ListIndexers e = stmt e ''ListIndexers'' (sql_many (\<lambda>_. True) iq_Name)"

definition sqlite_UpdateIndexer :: "dbenv \<Rightarrow> IndexerInstance \<Rightarrow> (SqIndexer table, unit) act" where
  "sqlite_UpdateIndexer e x = stmt e ''UpdateIndexer'' (sql_exec (\<lambda>r. iq_ID r = ii_ID x) (sqIndexerSet x))"

definition sqlite_DeleteIndexer :: "dbenv \<Rightarrow> int \<Rightarrow> (SqIndexer table, unit) act" where
  "sqlite_DeleteIndexer e i = stmt e ''DeleteIndexer'' (sql_delete (\<lambda>r. iq_ID r = i))"

definition sqliteIndexers_Create :: "dbenv \<Rightarrow> IndexerInstance \<Rightarrow> (SqIndexer table,
       IndexerInstance) act" where
  "sqliteIndexers_Create e x = SQLitePool_Write e (mapA indexer_FromSQLite (wrapA ''indexer: create'' (sqlite_CreateIndexer e x)))"

definition sqliteIndexers_GetByID :: "dbenv \<Rightarrow> int \<Rightarrow> (SqIndexer table, IndexerInstance) act" where
  "sqliteIndexers_GetByID e i = rowA (Inl (ErrNotFound ''indexer: not found'')) ''indexer: get by id'' indexer_FromSQLite (sqlite_GetIndexerByID e i)"

definition sqliteIndexers_List :: "dbenv \<Rightarrow> (SqIndexer table, IndexerInstance list) act" where
  "sqliteIndexers_List e = mapA (map indexer_FromSQLite) (wrapA ''indexer: list'' (sqlite_ListIndexers e))"

definition sqliteIndexers_Update :: "dbenv \<Rightarrow> IndexerInstance \<Rightarrow> (SqIndexer table, unit) act" where
  "sqliteIndexers_Update e x = wrapA ''indexer: update'' (SQLitePool_Write e (sqlite_UpdateIndexer e x))"

definition sqliteIndexers_Delete :: "dbenv \<Rightarrow> int \<Rightarrow> (SqIndexer table, unit) act" where
  "sqliteIndexers_Delete e i = wrapA ''indexer: delete'' (SQLitePool_Write e (sqlite_DeleteIndexer e i))"

definition sqliteIndexers :: "(SqIndexer table, IndexerInstance) InstanceStore" where
  "sqliteIndexers = \<lparr>is_Create = sqliteIndexers_Create, is_GetByID = sqliteIndexers_GetByID,
       is_List = sqliteIndexers_List,
     is_Update = sqliteIndexers_Update, is_Delete = sqliteIndexers_Delete\<rparr>"

definition indexer_FromPostgres :: "PgIndexer \<Rightarrow> IndexerInstance" where
  "indexer_FromPostgres r = \<lparr>ii_ID = ix_ID r, ii_Name = ix_Name r, ii_Implementation = ix_Implementation r,
     ii_Settings = Some (ix_Settings r), ii_EnableRss = ix_EnableRss r,
       ii_EnableAutomaticSearch = ix_EnableAutomaticSearch r, ii_EnableInteractiveSearch = ix_EnableInteractiveSearch r,
       ii_Priority = ix_Priority r,
     ii_Added = pg_time (ix_Added r)\<rparr>"

definition pgIndexerRow :: "int \<Rightarrow> IndexerInstance \<Rightarrow> string \<Rightarrow> int \<Rightarrow> PgIndexer" where
  "pgIndexerRow now x v i = \<lparr>ix_ID = i, ix_Name = ii_Name x, ix_Implementation = ii_Implementation x,
     ix_Settings = v, ix_EnableRss = ii_EnableRss x, ix_EnableAutomaticSearch = ii_EnableAutomaticSearch x,
       ix_EnableInteractiveSearch = ii_EnableInteractiveSearch x, ix_Priority = wrap32 (ii_Priority x),
     ix_Added = pg_micros now\<rparr>"

definition pgIndexerSet :: "IndexerInstance \<Rightarrow> string \<Rightarrow> PgIndexer \<Rightarrow> PgIndexer" where
  "pgIndexerSet x v r = r\<lparr>ix_Name := ii_Name x, ix_Implementation := ii_Implementation x,
     ix_Settings := v, ix_EnableRss := ii_EnableRss x, ix_EnableAutomaticSearch := ii_EnableAutomaticSearch x,
       ix_EnableInteractiveSearch := ii_EnableInteractiveSearch x, ix_Priority := wrap32 (ii_Priority x)\<rparr>"

definition postgres_CreateIndexer :: "jsonb_input \<Rightarrow> dbenv \<Rightarrow> IndexerInstance \<Rightarrow> (PgIndexer table, PgIndexer) act" where
  "postgres_CreateIndexer jsonb e x = stmt e ''CreateIndexer'' (case jsonb_param jsonb (marshalSettings (ii_Settings x)) of
     Inl err \<Rightarrow> failA err
   | Inr v \<Rightarrow> sql_insert (pgIndexerRow (env_now e) x v))"

definition postgres_GetIndexerByID :: "dbenv \<Rightarrow> int \<Rightarrow> (PgIndexer table, PgIndexer) act" where
  "postgres_GetIndexerByID e i = stmt e ''GetIndexerByID'' (sql_one (\<lambda>r. ix_ID r = i))"

definition postgres_ListIndexers :: "(string \<Rightarrow> string) \<Rightarrow> dbenv \<Rightarrow> (PgIndexer table,
       PgIndexer list) act" where
  "postgres_ListIndexers collate e = stmt e ''ListIndexers'' (sql_many (\<lambda>_. True) (\<lambda>r. collate (ix_Name r)))"

definition postgres_UpdateIndexer :: "jsonb_input \<Rightarrow> dbenv \<Rightarrow> IndexerInstance \<Rightarrow> (PgIndexer table, unit) act" where
  "postgres_UpdateIndexer jsonb e x = stmt e ''UpdateIndexer'' (case jsonb_param jsonb (marshalSettings (ii_Settings x)) of
     Inl err \<Rightarrow> failA err
   | Inr v \<Rightarrow> sql_exec (\<lambda>r. ix_ID r = wrap32 (ii_ID x)) (pgIndexerSet x v))"

definition postgres_DeleteIndexer :: "dbenv \<Rightarrow> int \<Rightarrow> (PgIndexer table, unit) act" where
  "postgres_DeleteIndexer e i = stmt e ''DeleteIndexer'' (sql_delete (\<lambda>r. ix_ID r = i))"

definition postgresIndexers_Create :: "jsonb_input \<Rightarrow> dbenv \<Rightarrow> IndexerInstance \<Rightarrow> (PgIndexer table, IndexerInstance) act" where
  "postgresIndexers_Create jsonb e x = mapA indexer_FromPostgres (wrapA ''indexer: create'' (postgres_CreateIndexer jsonb e x))"

definition postgresIndexers_GetByID :: "dbenv \<Rightarrow> int \<Rightarrow> (PgIndexer table, IndexerInstance) act" where
  "postgresIndexers_GetByID e i = rowA (Inl (ErrNotFound ''indexer: not found'')) ''indexer: get by id'' indexer_FromPostgres (postgres_GetIndexerByID e (wrap32 i))"

definition postgresIndexers_List :: "(string \<Rightarrow> string) \<Rightarrow> dbenv \<Rightarrow> (PgIndexer table,
       IndexerInstance list) act" where
  "postgresIndexers_List collate e = mapA (map indexer_FromPostgres) (wrapA ''indexer: list'' (postgres_ListIndexers collate e))"

definition postgresIndexers_Update :: "jsonb_input \<Rightarrow> dbenv \<Rightarrow> IndexerInstance \<Rightarrow> (PgIndexer table, unit) act" where
  "postgresIndexers_Update jsonb e x = wrapA ''indexer: update'' (postgres_UpdateIndexer jsonb e x)"

definition postgresIndexers_Delete :: "dbenv \<Rightarrow> int \<Rightarrow> (PgIndexer table, unit) act" where
  "postgresIndexers_Delete e i = wrapA ''indexer: delete'' (postgres_DeleteIndexer e (wrap32 i))"

definition postgresIndexers :: "(string \<Rightarrow> string) \<Rightarrow> jsonb_input \<Rightarrow> (PgIndexer table,
       IndexerInstance) InstanceStore" where
  "postgresIndexers collate jsonb = \<lparr>is_Create = postgresIndexers_Create jsonb,
       is_GetByID = postgresIndexers_GetByID, is_List = postgresIndexers_List collate,
     is_Update = postgresIndexers_Update jsonb, is_Delete = postgresIndexers_Delete\<rparr>"

subsection \<open>internal/providers/downloadclient\<close>

record DownloadClientInstance =
  di_ID :: int
  di_Name :: string
  di_Implementation :: string
  di_Settings :: RawMessage
  di_Enable :: bool
  di_Priority :: int
  di_RemoveCompletedDownloads :: bool
  di_RemoveFailedDownloads :: bool
  di_Added :: int

record SqDownloadClient =
  dq_ID :: int
  dq_Name :: string
  dq_Implementation :: string
  dq_Settings :: string
  dq_Enable :: int
  dq_Priority :: int
  dq_RemoveCompletedDownloads :: int
  dq_RemoveFailedDownloads :: int
  dq_Added :: int

record PgDownloadClient =
  dx_ID :: int
  dx_Name :: string
  dx_Implementation :: string
  dx_Settings :: string
  dx_Enable :: bool
  dx_Priority :: int
  dx_RemoveCompletedDownloads :: bool
  dx_RemoveFailedDownloads :: bool
  dx_Added :: int

definition dcBoolToInt :: "bool \<Rightarrow> int" where
  "dcBoolToInt b = (if b then 1 else 0)"

text \<open>Empty or nil settings are stored as an empty object.\<close>

definition dcSQLiteSettings :: "RawMessage \<Rightarrow> string" where
  "dcSQLiteSettings s = (if bytes_of s = [] then ''{}'' else bytes_of s)"

definition marshalDCSettings :: "RawMessage \<Rightarrow> RawMessage" where
  "marshalDCSettings s = (if bytes_of s = [] then Some ''{}'' else s)"

definition downloadclient_FromSQLite :: "SqDownloadClient \<Rightarrow> DownloadClientInstance" where
  "downloadclient_FromSQLite r = \<lparr>di_ID = dq_ID r, di_Name = dq_Name r, di_Implementation = dq_Implementation r,
     di_Settings = Some (dq_Settings r), di_Enable = dq_Enable r \<noteq> 0, di_Priority = dq_Priority r,
       di_RemoveCompletedDownloads = dq_RemoveCompletedDownloads r \<noteq> 0,
       di_RemoveFailedDownloads = dq_RemoveFailedDownloads r \<noteq> 0,
     di_Added = parseSqliteTime (dq_Added r)\<rparr>"

definition sqDownloadClientRow :: "int \<Rightarrow> DownloadClientInstance \<Rightarrow> int \<Rightarrow> SqDownloadClient" where
  "sqDownloadClientRow now x i = \<lparr>dq_ID = i, dq_Name = di_Name x, dq_Implementation = di_Implementation x,
     dq_Settings = dcSQLiteSettings (di_Settings x), dq_Enable = dcBoolToInt (di_Enable x), dq_Priority = di_Priority x,
       dq_RemoveCompletedDownloads = dcBoolToInt (di_RemoveCompletedDownloads x),
       dq_RemoveFailedDownloads = dcBoolToInt (di_RemoveFailedDownloads x),
     dq_Added = sqlite_format now\<rparr>"

definition sqDownloadClientSet :: "DownloadClientInstance \<Rightarrow> SqDownloadClient \<Rightarrow> SqDownloadClient" where
  "sqDownloadClientSet x r = r\<lparr>dq_Name := di_Name x, dq_Implementation := di_Implementation x,
     dq_Settings := dcSQLiteSettings (di_Settings x), dq_Enable := dcBoolToInt (di_Enable x),
       dq_Priority := di_Priority x, dq_RemoveCompletedDownloads := dcBoolToInt (di_RemoveCompletedDownloads x),
       dq_RemoveFailedDownloads := dcBoolToInt (di_RemoveFailedDownloads x)\<rparr>"

definition sqlite_CreateDownloadClient :: "dbenv \<Rightarrow> DownloadClientInstance \<Rightarrow> (SqDownloadClient table, SqDownloadClient) act" where
  "sqlite_CreateDownloadClient e x = stmt e ''CreateDownloadClient'' (sql_insert (sqDownloadClientRow (env_now e) x))"

definition sqlite_GetDownloadClientByID :: "dbenv \<Rightarrow> int \<Rightarrow> (SqDownloadClient table,
       SqDownloadClient) act" where
  "sqlite_GetDownloadClientByID e i = stmt e ''GetDownloadClientByID'' (sql_one (\<lambda>r. dq_ID r = i))"

definition sqlite_ListDownloadClients :: "dbenv \<Rightarrow> (SqDownloadClient table, SqDownloadClient list) act" where
  "sqlite_ListDownloadClients e = stmt e ''ListDownloadClients'' (sql_many (\<lambda>_. True) dq_Name)"

definition sqlite_UpdateDownloadClient :: "dbenv \<Rightarrow> DownloadClientInstance \<Rightarrow> (SqDownloadClient table, unit) act" where
  "sqlite_UpdateDownloadClient e x = stmt e ''UpdateDownloadClient'' (sql_exec (\<lambda>r. dq_ID r = di_ID x) (sqDownloadClientSet x))"

definition sqlite_DeleteDownloadClient :: "dbenv \<Rightarrow> int \<Rightarrow> (SqDownloadClient table, unit) act" where
  "sqlite_DeleteDownloadClient e i = stmt e ''DeleteDownloadClient'' (sql_delete (\<lambda>r. dq_ID r = i))"

definition sqliteDownloadClients_Create :: "dbenv \<Rightarrow> DownloadClientInstance \<Rightarrow> (SqDownloadClient table, DownloadClientInstance) act" where
  "sqliteDownloadClients_Create e x = SQLitePool_Write e (mapA downloadclient_FromSQLite (wrapA ''downloadclient: create'' (sqlite_CreateDownloadClient e x)))"

definition sqliteDownloadClients_GetByID :: "dbenv \<Rightarrow> int \<Rightarrow> (SqDownloadClient table,
       DownloadClientInstance) act" where
  "sqliteDownloadClients_GetByID e i = rowA (Inl (ErrNotFound ''downloadclient: not found'')) ''downloadclient: get by id'' downloadclient_FromSQLite (sqlite_GetDownloadClientByID e i)"

definition sqliteDownloadClients_List :: "dbenv \<Rightarrow> (SqDownloadClient table,
       DownloadClientInstance list) act" where
  "sqliteDownloadClients_List e = mapA (map downloadclient_FromSQLite) (wrapA ''downloadclient: list'' (sqlite_ListDownloadClients e))"

definition sqliteDownloadClients_Update :: "dbenv \<Rightarrow> DownloadClientInstance \<Rightarrow> (SqDownloadClient table, unit) act" where
  "sqliteDownloadClients_Update e x = wrapA ''downloadclient: update'' (SQLitePool_Write e (sqlite_UpdateDownloadClient e x))"

definition sqliteDownloadClients_Delete :: "dbenv \<Rightarrow> int \<Rightarrow> (SqDownloadClient table, unit) act" where
  "sqliteDownloadClients_Delete e i = wrapA ''downloadclient: delete'' (SQLitePool_Write e (sqlite_DeleteDownloadClient e i))"

definition sqliteDownloadClients :: "(SqDownloadClient table, DownloadClientInstance) InstanceStore" where
  "sqliteDownloadClients = \<lparr>is_Create = sqliteDownloadClients_Create, is_GetByID = sqliteDownloadClients_GetByID,
       is_List = sqliteDownloadClients_List,
     is_Update = sqliteDownloadClients_Update, is_Delete = sqliteDownloadClients_Delete\<rparr>"

definition downloadclient_FromPostgres :: "PgDownloadClient \<Rightarrow> DownloadClientInstance" where
  "downloadclient_FromPostgres r = \<lparr>di_ID = dx_ID r, di_Name = dx_Name r, di_Implementation = dx_Implementation r,
     di_Settings = Some (dx_Settings r), di_Enable = dx_Enable r, di_Priority = dx_Priority r,
       di_RemoveCompletedDownloads = dx_RemoveCompletedDownloads r, di_RemoveFailedDownloads = dx_RemoveFailedDownloads r,
     di_Added = pg_time (dx_Added r)\<rparr>"

definition pgDownloadClientRow :: "int \<Rightarrow> DownloadClientInstance \<Rightarrow> string \<Rightarrow> int \<Rightarrow> PgDownloadClient" where
  "pgDownloadClientRow now x v i = \<lparr>dx_ID = i, dx_Name = di_Name x, dx_Implementation = di_Implementation x,
     dx_Settings = v, dx_Enable = di_Enable x, dx_Priority = wrap32 (di_Priority x),
       dx_RemoveCompletedDownloads = di_RemoveCompletedDownloads x, dx_RemoveFailedDownloads = di_RemoveFailedDownloads x,
     dx_Added = pg_micros now\<rparr>"

definition pgDownloadClientSet :: "DownloadClientInstance \<Rightarrow> string \<Rightarrow> PgDownloadClient \<Rightarrow> PgDownloadClient" where
  "pgDownloadClientSet x v r = r\<lparr>dx_Name := di_Name x, dx_Implementation := di_Implementation x,
     dx_Settings := v, dx_Enable := di_Enable x, dx_Priority := wrap32 (di_Priority x),
       dx_RemoveCompletedDownloads := di_RemoveCompletedDownloads x,
       dx_RemoveFailedDownloads := di_RemoveFailedDownloads x\<rparr>"

definition postgres_CreateDownloadClient :: "jsonb_input \<Rightarrow> dbenv \<Rightarrow> DownloadClientInstance \<Rightarrow> (PgDownloadClient table, PgDownloadClient) act" where
  "postgres_CreateDownloadClient jsonb e x = stmt e ''CreateDownloadClient'' (case jsonb_param jsonb (marshalDCSettings (di_Settings x)) of
     Inl err \<Rightarrow> failA err
   | Inr v \<Rightarrow> sql_insert (pgDownloadClientRow (env_now e) x v))"

definition postgres_GetDownloadClientByID :: "dbenv \<Rightarrow> int \<Rightarrow> (PgDownloadClient table,
       PgDownloadClient) act" where
  "postgres_GetDownloadClientByID e i = stmt e ''GetDownloadClientByID'' (sql_one (\<lambda>r. dx_ID r = i))"

definition postgres_ListDownloadClients :: "(string \<Rightarrow> string) \<Rightarrow> dbenv \<Rightarrow> (PgDownloadClient table, PgDownloadClient list) act" where
  "postgres_ListDownloadClients collate e = stmt e ''ListDownloadClients'' (sql_many (\<lambda>_. True) (\<lambda>r. collate (dx_Name r)))"

definition postgres_UpdateDownloadClient :: "jsonb_input \<Rightarrow> dbenv \<Rightarrow> DownloadClientInstance \<Rightarrow> (PgDownloadClient table, unit) act" where
  "postgres_UpdateDownloadClient jsonb e x = stmt e ''UpdateDownloadClient'' (case jsonb_param jsonb (marshalDCSettings (di_Settings x)) of
     Inl err \<Rightarrow> failA err
   | Inr v \<Rightarrow> sql_exec (\<lambda>r. dx_ID r = wrap32 (di_ID x)) (pgDownloadClientSet x v))"

definition postgres_DeleteDownloadClient :: "dbenv \<Rightarrow> int \<Rightarrow> (PgDownloadClient table, unit) act" where
  "postgres_DeleteDownloadClient e i = stmt e ''DeleteDownloadClient'' (sql_delete (\<lambda>r. dx_ID r = i))"

definition postgresDownloadClients_Create :: "jsonb_input \<Rightarrow> dbenv \<Rightarrow> DownloadClientInstance \<Rightarrow> (PgDownloadClient table, DownloadClientInstance) act" where
  "postgresDownloadClients_Create jsonb e x = mapA downloadclient_FromPostgres (wrapA ''downloadclient: create'' (postgres_CreateDownloadClient jsonb e x))"

definition postgresDownloadClients_GetByID :: "dbenv \<Rightarrow> int \<Rightarrow> (PgDownloadClient table,
       DownloadClientInstance) act" where
  "postgresDownloadClients_GetByID e i = rowA (Inl (ErrNotFound ''downloadclient: not found'')) ''downloadclient: get by id'' downloadclient_FromPostgres (postgres_GetDownloadClientByID e (wrap32 i))"

definition postgresDownloadClients_List :: "(string \<Rightarrow> string) \<Rightarrow> dbenv \<Rightarrow> (PgDownloadClient table, DownloadClientInstance list) act" where
  "postgresDownloadClients_List collate e = mapA (map downloadclient_FromPostgres) (wrapA ''downloadclient: list'' (postgres_ListDownloadClients collate e))"

definition postgresDownloadClients_Update :: "jsonb_input \<Rightarrow> dbenv \<Rightarrow> DownloadClientInstance \<Rightarrow> (PgDownloadClient table, unit) act" where
  "postgresDownloadClients_Update jsonb e x = wrapA ''downloadclient: update'' (postgres_UpdateDownloadClient jsonb e x)"

definition postgresDownloadClients_Delete :: "dbenv \<Rightarrow> int \<Rightarrow> (PgDownloadClient table, unit) act" where
  "postgresDownloadClients_Delete e i = wrapA ''downloadclient: delete'' (postgres_DeleteDownloadClient e (wrap32 i))"

definition postgresDownloadClients :: "(string \<Rightarrow> string) \<Rightarrow> jsonb_input \<Rightarrow> (PgDownloadClient table, DownloadClientInstance) InstanceStore" where
  "postgresDownloadClients collate jsonb = \<lparr>is_Create = postgresDownloadClients_Create jsonb,
       is_GetByID = postgresDownloadClients_GetByID, is_List = postgresDownloadClients_List collate,
     is_Update = postgresDownloadClients_Update jsonb, is_Delete = postgresDownloadClients_Delete\<rparr>"

subsection \<open>internal/providers/notification\<close>

record NotificationInstance =
  ni_ID :: int
  ni_Name :: string
  ni_Implementation :: string
  ni_Settings :: RawMessage
  ni_OnGrab :: bool
  ni_OnDownload :: bool
  ni_OnHealthIssue :: bool
  ni_Tags :: RawMessage
  ni_Added :: int

record SqNotification =
  nq_ID :: int
  nq_Name :: string
  nq_Implementation :: string
  nq_Settings :: string
  nq_OnGrab :: int
  nq_OnDownload :: int
  nq_OnHealthIssue :: int
  nq_Tags :: string
  nq_Added :: int

record PgNotification =
  nx_ID :: int
  nx_Name :: string
  nx_Implementation :: string
  nx_Settings :: string
  nx_OnGrab :: bool
  nx_OnDownload :: bool
  nx_OnHealthIssue :: bool
  nx_Tags :: string
  nx_Added :: int

definition notifBoolToInt :: "bool \<Rightarrow> int" where
  "notifBoolToInt b = (if b then 1 else 0)"

definition notifSQLiteStr :: "RawMessage \<Rightarrow> string \<Rightarrow> string" where
  "notifSQLiteStr s fallback = (if bytes_of s = [] then fallback else bytes_of s)"

definition notifMarshalSettings :: "RawMessage \<Rightarrow> RawMessage" where
  "notifMarshalSettings s = (if bytes_of s = [] then Some ''{}'' else s)"

definition notifMarshalTags :: "RawMessage \<Rightarrow> RawMessage" where
  "notifMarshalTags t = (if bytes_of t = [] then Some ''[]'' else t)"

definition notification_FromSQLite :: "SqNotification \<Rightarrow> NotificationInstance" where
  "notification_FromSQLite r = \<lparr>ni_ID = nq_ID r, ni_Name = nq_Name r, ni_Implementation = nq_Implementation r,
     ni_Settings = Some (nq_Settings r), ni_OnGrab = nq_OnGrab r \<noteq> 0, ni_OnDownload = nq_OnDownload r \<noteq> 0,
       ni_OnHealthIssue = nq_OnHealthIssue r \<noteq> 0, ni_Tags = Some (nq_Tags r),
     ni_Added = parseSqliteTime (nq_Added r)\<rparr>"

definition sqNotificationRow :: "int \<Rightarrow> NotificationInstance \<Rightarrow> int \<Rightarrow> SqNotification" where
  "sqNotificationRow now x i = \<lparr>nq_ID = i, nq_Name = ni_Name x, nq_Implementation = ni_Implementation x,
     nq_Settings = notifSQLiteStr (ni_Settings x) ''{}'', nq_OnGrab = notifBoolToInt (ni_OnGrab x),
       nq_OnDownload = notifBoolToInt (ni_OnDownload x), nq_OnHealthIssue = notifBoolToInt (ni_OnHealthIssue x),
       nq_Tags = notifSQLiteStr (ni_Tags x) ''[]'',
     nq_Added = sqlite_format now\<rparr>"

definition sqNotificationSet :: "NotificationInstance \<Rightarrow> SqNotification \<Rightarrow> SqNotification" where
  "sqNotificationSet x r = r\<lparr>nq_Name := ni_Name x, nq_Implementation := ni_Implementation x,
     nq_Settings := notifSQLiteStr (ni_Settings x) ''{}'', nq_OnGrab := notifBoolToInt (ni_OnGrab x),
       nq_OnDownload := notifBoolToInt (ni_OnDownload x), nq_OnHealthIssue := notifBoolToInt (ni_OnHealthIssue x),
       nq_Tags := notifSQLiteStr (ni_Tags x) ''[]''\<rparr>"

definition sqlite_CreateNotification :: "dbenv \<Rightarrow> NotificationInstance \<Rightarrow> (SqNotification table,
       SqNotification) act" where
  "sqlite_CreateNotification e x = stmt e ''CreateNotification'' (sql_insert (sqNotificationRow (env_now e) x))"

definition sqlite_GetNotificationByID :: "dbenv \<Rightarrow> int \<Rightarrow> (SqNotification table,
       SqNotification) act" where
  "sqlite_GetNotificationByID e i = stmt e ''GetNotificationByID'' (sql_one (\<lambda>r. nq_ID r = i))"

definition sqlite_ListNotifications :: "dbenv \<Rightarrow> (SqNotification table, SqNotification list) act" where
  "sqlite_ListNotifications e = stmt e ''ListNotifications'' (sql_many (\<lambda>_. True) nq_Name)"

definition sqlite_UpdateNotification :: "dbenv \<Rightarrow> NotificationInstance \<Rightarrow> (SqNotification table,
       unit) act" where
  "sqlite_UpdateNotification e x = stmt e ''UpdateNotification'' (sql_exec (\<lambda>r. nq_ID r = ni_ID x) (sqNotificationSet x))"

definition sqlite_DeleteNotification :: "dbenv \<Rightarrow> int \<Rightarrow> (SqNotification table, unit) act" where
  "sqlite_DeleteNotification e i = stmt e ''DeleteNotification'' (sql_delete (\<lambda>r. nq_ID r = i))"

definition sqliteNotifications_Create :: "dbenv \<Rightarrow> NotificationInstance \<Rightarrow> (SqNotification table,
       NotificationInstance) act" where
  "sqliteNotifications_Create e x = SQLitePool_Write e (mapA notification_FromSQLite (wrapA ''notification: create'' (sqlite_CreateNotification e x)))"

definition sqliteNotifications_GetByID :: "dbenv \<Rightarrow> int \<Rightarrow> (SqNotification table,
       NotificationInstance) act" where
  "sqliteNotifications_GetByID e i = rowA (Inl (ErrNotFound ''notification: not found'')) ''notification: get by id'' notification_FromSQLite (sqlite_GetNotificationByID e i)"

definition sqliteNotifications_List :: "dbenv \<Rightarrow> (SqNotification table, NotificationInstance list) act" where
  "sqliteNotifications_List e = mapA (map notification_FromSQLite) (wrapA ''notification: list'' (sqlite_ListNotifications e))"

definition sqliteNotifications_Update :: "dbenv \<Rightarrow> NotificationInstance \<Rightarrow> (SqNotification table,
       unit) act" where
  "sqliteNotifications_Update e x = wrapA ''notification: update'' (SQLitePool_Write e (sqlite_UpdateNotification e x))"

definition sqliteNotifications_Delete :: "dbenv \<Rightarrow> int \<Rightarrow> (SqNotification table, unit) act" where
  "sqliteNotifications_Delete e i = wrapA ''notification: delete'' (SQLitePool_Write e (sqlite_DeleteNotification e i))"

definition sqliteNotifications :: "(SqNotification table, NotificationInstance) InstanceStore" where
  "sqliteNotifications = \<lparr>is_Create = sqliteNotifications_Create, is_GetByID = sqliteNotifications_GetByID,
       is_List = sqliteNotifications_List,
     is_Update = sqliteNotifications_Update, is_Delete = sqliteNotifications_Delete\<rparr>"

definition notification_FromPostgres :: "PgNotification \<Rightarrow> NotificationInstance" where
  "notification_FromPostgres r = \<lparr>ni_ID = nx_ID r, ni_Name = nx_Name r, ni_Implementation = nx_Implementation r,
     ni_Settings = Some (nx_Settings r), ni_OnGrab = nx_OnGrab r, ni_OnDownload = nx_OnDownload r,
       ni_OnHealthIssue = nx_OnHealthIssue r, ni_Tags = Some (nx_Tags r),
     ni_Added = pg_time (nx_Added r)\<rparr>"

definition pgNotificationRow :: "int \<Rightarrow> NotificationInstance \<Rightarrow> string \<Rightarrow> string \<Rightarrow> int \<Rightarrow> PgNotification" where
  "pgNotificationRow now x v tags i = \<lparr>nx_ID = i, nx_Name = ni_Name x, nx_Implementation = ni_Implementation x,
     nx_Settings = v, nx_OnGrab = ni_OnGrab x, nx_OnDownload = ni_OnDownload x, nx_OnHealthIssue = ni_OnHealthIssue x,
       nx_Tags = tags,
     nx_Added = pg_micros now\<rparr>"

definition pgNotificationSet :: "NotificationInstance \<Rightarrow> string \<Rightarrow> string \<Rightarrow> PgNotification \<Rightarrow> PgNotification" where
  "pgNotificationSet x v tags r = r\<lparr>nx_Name := ni_Name x, nx_Implementation := ni_Implementation x,
     nx_Settings := v, nx_OnGrab := ni_OnGrab x, nx_OnDownload := ni_OnDownload x,
       nx_OnHealthIssue := ni_OnHealthIssue x, nx_Tags := tags\<rparr>"

definition postgres_CreateNotification :: "jsonb_input \<Rightarrow> dbenv \<Rightarrow> NotificationInstance \<Rightarrow> (PgNotification table, PgNotification) act" where
  "postgres_CreateNotification jsonb e x = stmt e ''CreateNotification'' (case jsonb_param jsonb (notifMarshalSettings (ni_Settings x)) of
     Inl err \<Rightarrow> failA err
   | Inr v \<Rightarrow> (case jsonb_param jsonb (notifMarshalTags (ni_Tags x)) of Inl err \<Rightarrow> failA err | Inr tags \<Rightarrow> sql_insert (pgNotificationRow (env_now e) x v tags)))"

definition postgres_GetNotificationByID :: "dbenv \<Rightarrow> int \<Rightarrow> (PgNotification table,
       PgNotification) act" where
  "postgres_GetNotificationByID e i = stmt e ''GetNotificationByID'' (sql_one (\<lambda>r. nx_ID r = i))"

definition postgres_ListNotifications :: "(string \<Rightarrow> string) \<Rightarrow> dbenv \<Rightarrow> (PgNotification table, PgNotification list) act" where
  "postgres_ListNotifications collate e = stmt e ''ListNotifications'' (sql_many (\<lambda>_. True) (\<lambda>r. collate (nx_Name r)))"

definition postgres_UpdateNotification :: "jsonb_input \<Rightarrow> dbenv \<Rightarrow> NotificationInstance \<Rightarrow> (PgNotification table, unit) act" where
  "postgres_UpdateNotification jsonb e x = stmt e ''UpdateNotification'' (case jsonb_param jsonb (notifMarshalSettings (ni_Settings x)) of
     Inl err \<Rightarrow> failA err
   | Inr v \<Rightarrow> (case jsonb_param jsonb (notifMarshalTags (ni_Tags x)) of Inl err \<Rightarrow> failA err | Inr tags \<Rightarrow> sql_exec (\<lambda>r. nx_ID r = wrap32 (ni_ID x)) (pgNotificationSet x v tags)))"

definition postgres_DeleteNotification :: "dbenv \<Rightarrow> int \<Rightarrow> (PgNotification table, unit) act" where
  "postgres_DeleteNotification e i = stmt e ''DeleteNotification'' (sql_delete (\<lambda>r. nx_ID r = i))"

definition postgresNotifications_Create :: "jsonb_input \<Rightarrow> dbenv \<Rightarrow> NotificationInstance \<Rightarrow> (PgNotification table, NotificationInstance) act" where
  "postgresNotifications_Create jsonb e x = mapA notification_FromPostgres (wrapA ''notification: create'' (postgres_CreateNotification jsonb e x))"

definition postgresNotifications_GetByID :: "dbenv \<Rightarrow> int \<Rightarrow> (PgNotification table,
       NotificationInstance) act" where
  "postgresNotifications_GetByID e i = rowA (Inl (ErrNotFound ''notification: not found'')) ''notification: get by id'' notification_FromPostgres (postgres_GetNotificationByID e (wrap32 i))"

definition postgresNotifications_List :: "(string \<Rightarrow> string) \<Rightarrow> dbenv \<Rightarrow> (PgNotification table, NotificationInstance list) act" where
  "postgresNotifications_List collate e = mapA (map notification_FromPostgres) (wrapA ''notification: list'' (postgres_ListNotifications collate e))"

definition postgresNotifications_Update :: "jsonb_input \<Rightarrow> dbenv \<Rightarrow> NotificationInstance \<Rightarrow> (PgNotification table, unit) act" where
  "postgresNotifications_Update jsonb e x = wrapA ''notification: update'' (postgres_UpdateNotification jsonb e x)"

definition postgresNotifications_Delete :: "dbenv \<Rightarrow> int \<Rightarrow> (PgNotification table, unit) act" where
  "postgresNotifications_Delete e i = wrapA ''notification: delete'' (postgres_DeleteNotification e (wrap32 i))"

definition postgresNotifications :: "(string \<Rightarrow> string) \<Rightarrow> jsonb_input \<Rightarrow> (PgNotification table, NotificationInstance) InstanceStore" where
  "postgresNotifications collate jsonb = \<lparr>is_Create = postgresNotifications_Create jsonb,
       is_GetByID = postgresNotifications_GetByID, is_List = postgresNotifications_List collate,
     is_Update = postgresNotifications_Update jsonb, is_Delete = postgresNotifications_Delete\<rparr>"

subsection \<open>The stores as shelves\<close>

text \<open>
  The specification of each store, over the granularity \<open>g\<close> of its clock, the conversion \<open>w\<close> of its
  integer columns, what the engine makes of a JSON text, and the order of texts.
\<close>

definition blob :: "string \<Rightarrow> RawMessage \<Rightarrow> string" where
  "blob fallback s = (if bytes_of s = [] then fallback else bytes_of s)"

definition indexer_spec :: "(int \<Rightarrow> int) \<Rightarrow> (int \<Rightarrow> int) \<Rightarrow> jsonb_input \<Rightarrow> (string \<Rightarrow> string) \<Rightarrow> (IndexerInstance, string) crud_spec" where
  "indexer_spec g w json ord = \<lparr>cs_iid = ii_ID, cs_ident = w,
     cs_accepts = (\<lambda>x. json (blob ''{}'' (ii_Settings x)) \<noteq> None),
     cs_made = (\<lambda>now i x. x\<lparr>ii_ID := i, ii_Settings := json (blob ''{}'' (ii_Settings x)),
       ii_Priority := w (ii_Priority x), ii_Added := g now\<rparr>),
     cs_changed = (\<lambda>x y. x\<lparr>ii_ID := ii_ID y, ii_Settings := json (blob ''{}'' (ii_Settings x)),
       ii_Priority := w (ii_Priority x), ii_Added := ii_Added y\<rparr>),
     cs_order = (\<lambda>x. ord (ii_Name x))\<rparr>"

definition downloadclient_spec :: "(int \<Rightarrow> int) \<Rightarrow> (int \<Rightarrow> int) \<Rightarrow> jsonb_input \<Rightarrow> (string \<Rightarrow> string) \<Rightarrow> (DownloadClientInstance, string) crud_spec" where
  "downloadclient_spec g w json ord = \<lparr>cs_iid = di_ID, cs_ident = w,
     cs_accepts = (\<lambda>x. json (blob ''{}'' (di_Settings x)) \<noteq> None),
     cs_made = (\<lambda>now i x. x\<lparr>di_ID := i, di_Settings := json (blob ''{}'' (di_Settings x)),
       di_Priority := w (di_Priority x), di_Added := g now\<rparr>),
     cs_changed = (\<lambda>x y. x\<lparr>di_ID := di_ID y, di_Settings := json (blob ''{}'' (di_Settings x)),
       di_Priority := w (di_Priority x), di_Added := di_Added y\<rparr>),
     cs_order = (\<lambda>x. ord (di_Name x))\<rparr>"

definition notification_spec :: "(int \<Rightarrow> int) \<Rightarrow> (int \<Rightarrow> int) \<Rightarrow> jsonb_input \<Rightarrow> (string \<Rightarrow> string) \<Rightarrow> (NotificationInstance, string) crud_spec" where
  "notification_spec g w json ord = \<lparr>cs_iid = ni_ID, cs_ident = w,
     cs_accepts = (\<lambda>x. json (blob ''{}'' (ni_Settings x)) \<noteq> None \<and> json (blob ''[]'' (ni_Tags x)) \<noteq> None),
     cs_made = (\<lambda>now i x. x\<lparr>ni_ID := i, ni_Settings := json (blob ''{}'' (ni_Settings x)),
       ni_Tags := json (blob ''[]'' (ni_Tags x)), ni_Added := g now\<rparr>),
     cs_changed = (\<lambda>x y. x\<lparr>ni_ID := ni_ID y, ni_Settings := json (blob ''{}'' (ni_Settings x)),
       ni_Tags := json (blob ''[]'' (ni_Tags x)), ni_Added := ni_Added y\<rparr>),
     cs_order = (\<lambda>x. ord (ni_Name x))\<rparr>"

lemmas settings_defs = blob_def sqliteSettings_def marshalSettings_def dcSQLiteSettings_def marshalDCSettings_def
  notifSQLiteStr_def notifMarshalSettings_def notifMarshalTags_def boolToInt_def dcBoolToInt_def notifBoolToInt_def

text \<open>The value a JSONB column gets for a parameter that is never nil.\<close>

lemma jsonb_param_blob:
  assumes "m = (if bytes_of s = [] then Some d else s)"
  shows "jsonb_param jsonb m = (case jsonb (blob d s) of
    None \<Rightarrow> Inl (DbError ''invalid input syntax for type json'') | Some v \<Rightarrow> Inr v)"
  unfolding assms by (auto simp: jsonb_param_def blob_def bytes_of_def split: option.split)

lemmas jsonb_settings = jsonb_param_blob [OF marshalSettings_def] jsonb_param_blob [OF marshalDCSettings_def]
  jsonb_param_blob [OF notifMarshalSettings_def] jsonb_param_blob [OF notifMarshalTags_def]

lemmas sqliteIndexers_defs = sqliteIndexers_def sqliteIndexers_Create_def sqliteIndexers_GetByID_def sqliteIndexers_List_def sqliteIndexers_Update_def sqliteIndexers_Delete_def
  sqlite_CreateIndexer_def sqlite_GetIndexerByID_def sqlite_ListIndexers_def sqlite_UpdateIndexer_def sqlite_DeleteIndexer_def indexer_spec_def indexer_FromSQLite_def
  sqIndexerRow_def sqIndexerSet_def

lemmas postgresIndexers_defs = postgresIndexers_def postgresIndexers_Create_def postgresIndexers_GetByID_def postgresIndexers_List_def postgresIndexers_Update_def postgresIndexers_Delete_def
  postgres_CreateIndexer_def postgres_GetIndexerByID_def postgres_ListIndexers_def postgres_UpdateIndexer_def postgres_DeleteIndexer_def indexer_spec_def indexer_FromPostgres_def
  pgIndexerRow_def pgIndexerSet_def

interpretation sqindexers: table_store sqliteIndexers iq_ID indexer_FromSQLite sqIndexerRow sqIndexerSet "indexer_spec sq_gran (\<lambda>i. i) Some (\<lambda>n. n)"
  by unfold_locales (auto simp: sqliteIndexers_defs settings_defs act_defs sql_defs intro!: ext)

interpretation pgindexers: table_store "postgresIndexers collate jsonb" ix_ID indexer_FromPostgres
  "\<lambda>now x. pgIndexerRow now x (the (jsonb (blob ''{}'' (ii_Settings x))))" "\<lambda>x. pgIndexerSet x (the (jsonb (blob ''{}'' (ii_Settings x))))"
  "indexer_spec pg_gran wrap32 jsonb collate" for collate jsonb
  by unfold_locales (auto simp: postgresIndexers_defs jsonb_settings act_defs sql_defs intro!: ext split: option.splits)

lemmas sqliteDownloadClients_defs = sqliteDownloadClients_def sqliteDownloadClients_Create_def sqliteDownloadClients_GetByID_def sqliteDownloadClients_List_def sqliteDownloadClients_Update_def sqliteDownloadClients_Delete_def
  sqlite_CreateDownloadClient_def sqlite_GetDownloadClientByID_def sqlite_ListDownloadClients_def sqlite_UpdateDownloadClient_def sqlite_DeleteDownloadClient_def downloadclient_spec_def downloadclient_FromSQLite_def
  sqDownloadClientRow_def sqDownloadClientSet_def

lemmas postgresDownloadClients_defs = postgresDownloadClients_def postgresDownloadClients_Create_def postgresDownloadClients_GetByID_def postgresDownloadClients_List_def postgresDownloadClients_Update_def postgresDownloadClients_Delete_def
  postgres_CreateDownloadClient_def postgres_GetDownloadClientByID_def postgres_ListDownloadClients_def postgres_UpdateDownloadClient_def postgres_DeleteDownloadClient_def downloadclient_spec_def downloadclient_FromPostgres_def
  pgDownloadClientRow_def pgDownloadClientSet_def

interpretation sqdownloadclients: table_store sqliteDownloadClients dq_ID downloadclient_FromSQLite sqDownloadClientRow sqDownloadClientSet "downloadclient_spec sq_gran (\<lambda>i. i) Some (\<lambda>n. n)"
  by unfold_locales (auto simp: sqliteDownloadClients_defs settings_defs act_defs sql_defs intro!: ext)

interpretation pgdownloadclients: table_store "postgresDownloadClients collate jsonb" dx_ID downloadclient_FromPostgres
  "\<lambda>now x. pgDownloadClientRow now x (the (jsonb (blob ''{}'' (di_Settings x))))" "\<lambda>x. pgDownloadClientSet x (the (jsonb (blob ''{}'' (di_Settings x))))"
  "downloadclient_spec pg_gran wrap32 jsonb collate" for collate jsonb
  by unfold_locales (auto simp: postgresDownloadClients_defs jsonb_settings act_defs sql_defs intro!: ext split: option.splits)

lemmas sqliteNotifications_defs = sqliteNotifications_def sqliteNotifications_Create_def sqliteNotifications_GetByID_def sqliteNotifications_List_def sqliteNotifications_Update_def sqliteNotifications_Delete_def
  sqlite_CreateNotification_def sqlite_GetNotificationByID_def sqlite_ListNotifications_def sqlite_UpdateNotification_def sqlite_DeleteNotification_def notification_spec_def notification_FromSQLite_def
  sqNotificationRow_def sqNotificationSet_def

lemmas postgresNotifications_defs = postgresNotifications_def postgresNotifications_Create_def postgresNotifications_GetByID_def postgresNotifications_List_def postgresNotifications_Update_def postgresNotifications_Delete_def
  postgres_CreateNotification_def postgres_GetNotificationByID_def postgres_ListNotifications_def postgres_UpdateNotification_def postgres_DeleteNotification_def notification_spec_def notification_FromPostgres_def
  pgNotificationRow_def pgNotificationSet_def

interpretation sqnotifications: table_store sqliteNotifications nq_ID notification_FromSQLite sqNotificationRow sqNotificationSet "notification_spec sq_gran (\<lambda>i. i) Some (\<lambda>n. n)"
  by unfold_locales (auto simp: sqliteNotifications_defs settings_defs act_defs sql_defs intro!: ext)

interpretation pgnotifications: table_store "postgresNotifications collate jsonb" nx_ID notification_FromPostgres
  "\<lambda>now x. pgNotificationRow now x (the (jsonb (blob ''{}'' (ni_Settings x)))) (the (jsonb (blob ''[]'' (ni_Tags x))))" "\<lambda>x. pgNotificationSet x (the (jsonb (blob ''{}'' (ni_Settings x)))) (the (jsonb (blob ''[]'' (ni_Tags x))))"
  "notification_spec pg_gran wrap32 jsonb collate" for collate jsonb
  by unfold_locales (auto simp: postgresNotifications_defs jsonb_settings act_defs sql_defs intro!: ext split: option.splits)

text \<open>C8: From an empty table, any sequence of calls of the six instance stores returns, call by call, what
  the specification returns: new instances get the next id, empty settings become an empty object,
  ids select at most the one instance, updates keep id and time of creation, listings are sorted by
  name, and on Postgres text that is not JSON is refused and integers are taken modulo two to the 32.\<close>

theorem instance_stores_refine:
  assumes "quiet_calls iops" "quiet_calls dops" "quiet_calls nops"
  shows "fst (store_run sqliteIndexers iops empty_table)
      = fst (spec_run (indexer_spec sq_gran (\<lambda>i. i) Some (\<lambda>n. n)) (timed iops) empty_shelf)
    \<and> fst (store_run (postgresIndexers collate jsonb) iops empty_table)
      = fst (spec_run (indexer_spec pg_gran wrap32 jsonb collate) (timed iops) empty_shelf)
    \<and> fst (store_run sqliteDownloadClients dops empty_table)
      = fst (spec_run (downloadclient_spec sq_gran (\<lambda>i. i) Some (\<lambda>n. n)) (timed dops) empty_shelf)
    \<and> fst (store_run (postgresDownloadClients collate jsonb) dops empty_table)
      = fst (spec_run (downloadclient_spec pg_gran wrap32 jsonb collate) (timed dops) empty_shelf)
    \<and> fst (store_run sqliteNotifications nops empty_table)
      = fst (spec_run (notification_spec sq_gran (\<lambda>i. i) Some (\<lambda>n. n)) (timed nops) empty_shelf)
    \<and> fst (store_run (postgresNotifications collate jsonb) nops empty_table)
      = fst (spec_run (notification_spec pg_gran wrap32 jsonb collate) (timed nops) empty_shelf)"
  using sqindexers.run_from_empty [OF assms(1)] pgindexers.run_from_empty [OF assms(1)]
    sqdownloadclients.run_from_empty [OF assms(2)] pgdownloadclients.run_from_empty [OF assms(2)]
    sqnotifications.run_from_empty [OF assms(3)] pgnotifications.run_from_empty [OF assms(3)]
  by blast

definition example_indexer :: IndexerInstance where
  "example_indexer = \<lparr>ii_ID = 0, ii_Name = ''nyaa'', ii_Implementation = ''Nyaa'', ii_Settings = None, ii_EnableRss = True,
     ii_EnableAutomaticSearch = False, ii_EnableInteractiveSearch = True, ii_Priority = 25, ii_Added = 0\<rparr>"

definition example_calls :: "(dbenv \<times> IndexerInstance crud_op) list" where
  "example_calls = [(quiet_at 5000000000, OpCreate example_indexer), (quiet_at 6000000000, OpUpdate (example_indexer\<lparr>ii_ID := 1, ii_Priority := 3\<rparr>)),
     (quiet_at 7000000000, OpGet 1), (quiet_at 8000000000, OpDelete 1), (quiet_at 9000000000, OpGet 1)]"

lemma example_calls_quiet: "quiet_calls example_calls" "quiet_calls []"
  by (simp_all add: quiet_calls_def example_calls_def)

lemma example_spec_run:
  "fst (spec_run (indexer_spec sq_gran (\<lambda>i. i) Some (\<lambda>n. n)) (timed example_calls) empty_shelf) =
     [Item (example_indexer\<lparr>ii_ID := 1, ii_Settings := Some ''{}'', ii_Added := 5000000000\<rparr>), Done,
      Item (example_indexer\<lparr>ii_ID := 1, ii_Settings := Some ''{}'', ii_Priority := 3, ii_Added := 5000000000\<rparr>), Done, Missing]"
  by (simp add: timed_def example_calls_def example_indexer_def indexer_spec_def empty_shelf_def blob_def bytes_of_def
      sq_gran_def second_ns_def)

theorem instance_stores_refine_witness:
  "fst (store_run sqliteIndexers example_calls empty_table) =
     [Item (example_indexer\<lparr>ii_ID := 1, ii_Settings := Some ''{}'', ii_Added := 5000000000\<rparr>), Done,
      Item (example_indexer\<lparr>ii_ID := 1, ii_Settings := Some ''{}'', ii_Priority := 3, ii_Added := 5000000000\<rparr>), Done, Missing]"
  using instance_stores_refine [OF example_calls_quiet(1,2,2)] example_spec_run by simp

text \<open>Calls on which the two databases cannot differ: integers that fit the columns of Postgres, and
  settings in the form in which its JSON type prints them.\<close>

fun portable :: "jsonb_input \<Rightarrow> IndexerInstance crud_op \<Rightarrow> bool" where
  "portable jsonb (OpCreate x) \<longleftrightarrow> int32_range (ii_Priority x) \<and> jsonb (blob ''{}'' (ii_Settings x)) = Some (blob ''{}'' (ii_Settings x))"
| "portable jsonb (OpGet i) \<longleftrightarrow> int32_range i"
| "portable jsonb OpList \<longleftrightarrow> True"
| "portable jsonb (OpUpdate x) \<longleftrightarrow> int32_range (ii_ID x) \<and> int32_range (ii_Priority x)
     \<and> jsonb (blob ''{}'' (ii_Settings x)) = Some (blob ''{}'' (ii_Settings x))"
| "portable jsonb (OpDelete i) \<longleftrightarrow> int32_range i"

definition forget_added :: "IndexerInstance \<Rightarrow> IndexerInstance" where
  "forget_added x = x\<lparr>ii_Added := 0\<rparr>"

lemma forget_added_iff: "forget_added x = forget_added y \<longleftrightarrow> ii_ID x = ii_ID y \<and> ii_Name x = ii_Name y \<and>
    ii_Implementation x = ii_Implementation y \<and> ii_Settings x = ii_Settings y \<and> ii_EnableRss x = ii_EnableRss y \<and>
    ii_EnableAutomaticSearch x = ii_EnableAutomaticSearch y \<and>
    ii_EnableInteractiveSearch x = ii_EnableInteractiveSearch y \<and> ii_Priority x = ii_Priority y"
  by (cases x; cases y) (simp add: forget_added_def)

lemma portable_same_call:
  "portable jsonb op \<Longrightarrow> same_call forget_added (indexer_spec sq_gran (\<lambda>i. i) Some (\<lambda>n. n)) (indexer_spec pg_gran wrap32 jsonb (\<lambda>n. n)) op"
  by (cases op) (auto simp: indexer_spec_def forget_added_iff)

lemma indexer_specs_alike: "alike forget_added (indexer_spec g w j ord) (indexer_spec g' w' j' ord)"
  by (simp add: alike_def indexer_spec_def forget_added_iff)

text \<open>On portable calls, with texts compared byte by byte, the SQLite and the Postgres store of the
  indexers return the same results but for the precision of the creation time.\<close>

theorem indexer_stores_agree:
  assumes "quiet_calls ops" "list_all (\<lambda>(_, op). portable jsonb op) ops"
  shows "list_all2 (same_out forget_added) (fst (store_run sqliteIndexers ops empty_table))
    (fst (store_run (postgresIndexers (\<lambda>n. n) jsonb) ops empty_table))"
  unfolding sqindexers.run_from_empty [OF assms(1)] pgindexers.run_from_empty [OF assms(1)]
proof (rule spec_run_alike [OF same_shelf_refl indexer_specs_alike])
  show "list_all (\<lambda>(t, op). same_call forget_added (indexer_spec sq_gran (\<lambda>i. i) Some (\<lambda>n. n))
      (indexer_spec pg_gran wrap32 jsonb (\<lambda>n. n)) op) (timed ops)"
    using assms(2) portable_same_call by (fastforce simp: timed_def list_all_iff)
qed

theorem indexer_stores_agree_witness:
  "list_all2 (same_out forget_added)
     [Item (example_indexer\<lparr>ii_ID := 1, ii_Settings := Some ''{}'', ii_Added := 5000000000\<rparr>), Done,
      Item (example_indexer\<lparr>ii_ID := 1, ii_Settings := Some ''{}'', ii_Priority := 3, ii_Added := 5000000000\<rparr>), Done, Missing]
     (fst (store_run (postgresIndexers (\<lambda>n. n) Some) example_calls empty_table))"
proof -
  have "list_all (\<lambda>(_, op). portable Some op) example_calls"
    by (simp add: example_calls_def example_indexer_def int32_range_def)
  from indexer_stores_agree [OF example_calls_quiet(1) this] show ?thesis
    using sqindexers.run_from_empty [OF example_calls_quiet(1)] example_spec_run by simp
qed

end
