(* ===== verification/Grab.thy ===== *)
theory Grab
  imports Providers History DecisionEngine
begin

section \<open>Grabbing a release\<close>

text \<open>
  internal/grab, with the provider interfaces of internal/providers/indexer and downloadclient and
  their registries. A download client is code that talks to another program: the factory registered
  under an implementation name is \<open>DownloadClientImpl\<close>, whose operations depend on the settings the
  stored instance overlays and act on the world outside. \<open>GrabStores\<close> holds what the service calls.
\<close>

subsection \<open>Provider interfaces\<close>

definition ProtocolUsenet :: string where "ProtocolUsenet = ''usenet''"
definition ProtocolTorrent :: string where "ProtocolTorrent = ''torrent''"

record IndexerRelease =
  ir_Title :: string
  ir_GUID :: string
  ir_DownloadURL :: string
  ir_InfoURL :: string
  ir_Size :: int
  ir_PublishDate :: int
  ir_Indexer :: string
  ir_Protocol :: string
  ir_Seeders :: int
  ir_Leechers :: int
  ir_Categories :: "int list"

record DownloadItem =
  dl_DownloadID :: string
  dl_Title :: string
  dl_Status :: string
  dl_TotalSize :: int
  dl_Remaining :: int
  dl_OutputPath :: string

text \<open>\<open>dc_Unmarshal\<close> is the error, if any, of decoding a settings text into the client's settings; the
  other operations take the text that was overlaid, \<open>None\<close> for the defaults of the factory.\<close>

record 's DownloadClientImpl =
  dc_Protocol :: string
  dc_Unmarshal :: "string \<Rightarrow> store_error option"
  dc_Add :: "RawMessage \<Rightarrow> string \<Rightarrow> string \<Rightarrow> ('s, string) act"
  dc_Items :: "RawMessage \<Rightarrow> ('s, DownloadItem list) act"

record 's IndexerImpl =
  ix_Unmarshal :: "string \<Rightarrow> store_error option"
  ix_FetchRss :: "RawMessage \<Rightarrow> ('s, IndexerRelease list) act"

text \<open>The registries: registering a name twice panics.\<close>

type_synonym 'f ProviderRegistry = "string \<Rightarrow> 'f option"

definition Provider_Register :: "string \<Rightarrow> 'f \<Rightarrow> 'f ProviderRegistry \<Rightarrow> (string, 'f ProviderRegistry) result" where
  "Provider_Register name f r = (case r name of
     Some _ \<Rightarrow> Inl (''duplicate registration for '' @ show_q name)
   | None \<Rightarrow> Inr (r(name \<mapsto> f)))"

definition Provider_Get :: "'f ProviderRegistry \<Rightarrow> string \<Rightarrow> (store_error, 'f) result" where
  "Provider_Get r name = (case r name of
     Some f \<Rightarrow> Inr f
   | None \<Rightarrow> Inl (Errorf (''no factory registered for '' @ show_q name)))"

text \<open>Registered factories stay, and are found under their names.\<close>

lemma Provider_Register_Get:
  "Provider_Register n f r = Inr r' \<Longrightarrow> Provider_Get r' m = (if m = n then Inr f else Provider_Get r m) \<and> r n = None"
  by (auto simp: Provider_Register_def Provider_Get_def split: option.splits if_splits)

subsection \<open>grab.go\<close>

record ReleasesGrabbed =
  rg_SeriesID :: int
  rg_EpisodeIDs :: "int list"
  rg_Title :: string
  rg_DownloadID :: string

record 's GrabStores =
  gb_ClientsList :: "('s, DownloadClientInstance list) act"
  gb_Registry :: "'s DownloadClientImpl ProviderRegistry"
  gb_HistoryCreate :: "Entry \<Rightarrow> ('s, Entry) act"
  gb_Publish :: "ReleasesGrabbed \<Rightarrow> ('s, unit) act"

definition grab_candidates :: "'s DownloadClientImpl ProviderRegistry \<Rightarrow> string \<Rightarrow> DownloadClientInstance list \<Rightarrow> DownloadClientInstance list" where
  "grab_candidates reg protocol all = filter (\<lambda>inst. di_Enable inst \<and>
     (case Provider_Get reg (di_Implementation inst) of Inl _ \<Rightarrow> False | Inr dc \<Rightarrow> dc_Protocol dc = protocol)) all"

definition best_client :: "DownloadClientInstance \<Rightarrow> DownloadClientInstance list \<Rightarrow> DownloadClientInstance" where
  "best_client c cs = foldl (\<lambda>best c. if di_Priority c < di_Priority best then c else best) c cs"

text \<open>Overlaying stored settings on the defaults of a factory.\<close>

definition overlay_settings :: "(string \<Rightarrow> store_error option) \<Rightarrow> RawMessage \<Rightarrow> (store_error, RawMessage) result" where
  "overlay_settings unmarshal settings =
     (if bytes_of settings = [] then Inr None
      else (case unmarshal (bytes_of settings) of Some err \<Rightarrow> Inl err | None \<Rightarrow> Inr (Some (bytes_of settings))))"

definition grab_entry :: "IndexerRelease \<Rightarrow> int \<Rightarrow> string \<Rightarrow> string \<Rightarrow> int \<Rightarrow> Entry" where
  "grab_entry release seriesID qualityName downloadID epID = \<lparr>he_ID = 0, he_EpisodeID = epID, he_SeriesID = seriesID,
     he_SourceTitle = ir_Title release, he_QualityName = qualityName, he_EventType = EventGrabbed, he_Date = 0,
     he_DownloadID = downloadID, he_Data = Some ''{}''\<rparr>"

text \<open>Steps 6 and 7: history entries and the event; their errors are only logged.\<close>

definition grab_record :: "'s GrabStores \<Rightarrow> IndexerRelease \<Rightarrow> int \<Rightarrow> int list \<Rightarrow> string \<Rightarrow> string \<Rightarrow> ('s, unit) act" where
  "grab_record st release seriesID episodeIDs qualityName downloadID s =
     (let s1 = fold (\<lambda>epID s. snd (gb_HistoryCreate st (grab_entry release seriesID qualityName downloadID epID) s)) episodeIDs s;
          evt = \<lparr>rg_SeriesID = seriesID, rg_EpisodeIDs = episodeIDs, rg_Title = ir_Title release, rg_DownloadID = downloadID\<rparr>
      in (Inr (), snd (gb_Publish st evt s1)))"

definition grab_send :: "'s GrabStores \<Rightarrow> IndexerRelease \<Rightarrow> int \<Rightarrow> int list \<Rightarrow> string \<Rightarrow> DownloadClientInstance \<Rightarrow> ('s, unit) act" where
  "grab_send st release seriesID episodeIDs qualityName best =
     (case Provider_Get (gb_Registry st) (di_Implementation best) of
        Inl err \<Rightarrow> failA (Wrap (''grab: factory for '' @ show_q (di_Implementation best)) err)
      | Inr dc \<Rightarrow>
          (case overlay_settings (dc_Unmarshal dc) (di_Settings best) of
             Inl err \<Rightarrow> failA (Wrap (''grab: unmarshal settings for '' @ show_q (di_Implementation best)) err)
           | Inr settings \<Rightarrow>
               bindA (wrapA (''grab: add to download client '' @ show_q (di_Name best))
                   (dc_Add dc settings (ir_DownloadURL release) (ir_Title release)))
                 (grab_record st release seriesID episodeIDs qualityName)))"

definition Service_Grab :: "'s GrabStores \<Rightarrow> IndexerRelease \<Rightarrow> int \<Rightarrow> int list \<Rightarrow> string \<Rightarrow> ('s, unit) act" where
  "Service_Grab st release seriesID episodeIDs qualityName =
     bindA (wrapA ''grab: list download clients'' (gb_ClientsList st)) (\<lambda>all.
       case grab_candidates (gb_Registry st) (ir_Protocol release) all of
         [] \<Rightarrow> failA (Errorf (''grab: no enabled download client found for protocol '' @ show_q (ir_Protocol release)))
       | c # cs \<Rightarrow> grab_send st release seriesID episodeIDs qualityName (best_client c cs))"

text \<open>The chosen client is a candidate, and no candidate has a smaller priority.\<close>

lemma best_client_best:
  "best_client c cs \<in> set (c # cs) \<and> (\<forall>d\<in>set (c # cs). di_Priority (best_client c cs) \<le> di_Priority d)"
proof (induction cs arbitrary: c)
  case (Cons d cs)
  let ?b = "if di_Priority d < di_Priority c then d else c"
  have "best_client c (d # cs) = best_client ?b cs" by (simp add: best_client_def)
  with Cons.IH [of ?b] show ?case by auto
qed (simp add: best_client_def)

subsection \<open>The service over its stores\<close>

text \<open>The state of a service: the two tables, the world its clients act on and the events it published.\<close>

record ('c, 'h, 'w) grab_state =
  gs_clients :: 'c
  gs_history :: 'h
  gs_outside :: 'w
  gs_events :: "ReleasesGrabbed list"

definition on_clients :: "('c, 'a) act \<Rightarrow> (('c, 'h, 'w) grab_state, 'a) act" where
  "on_clients m s = (let (r, c) = m (gs_clients s) in (r, s\<lparr>gs_clients := c\<rparr>))"

definition on_hist :: "('h, 'a) act \<Rightarrow> (('c, 'h, 'w) grab_state, 'a) act" where
  "on_hist m s = (let (r, h) = m (gs_history s) in (r, s\<lparr>gs_history := h\<rparr>))"

definition on_outside :: "('w, 'a) act \<Rightarrow> (('c, 'h, 'w) grab_state, 'a) act" where
  "on_outside m s = (let (r, w) = m (gs_outside s) in (r, s\<lparr>gs_outside := w\<rparr>))"

definition impl_outside :: "'w DownloadClientImpl \<Rightarrow> ('c, 'h, 'w) grab_state DownloadClientImpl" where
  "impl_outside dc = \<lparr>dc_Protocol = dc_Protocol dc, dc_Unmarshal = dc_Unmarshal dc,
     dc_Add = (\<lambda>set url title. on_outside (dc_Add dc set url title)), dc_Items = (\<lambda>set. on_outside (dc_Items dc set))\<rparr>"

definition grab_service ::
  "('c, DownloadClientInstance) InstanceStore \<Rightarrow> 'h HistoryStore \<Rightarrow> 'w DownloadClientImpl ProviderRegistry \<Rightarrow> dbenv \<Rightarrow>
     ('c, 'h, 'w) grab_state GrabStores" where
  "grab_service st h reg e = \<lparr>gb_ClientsList = on_clients (is_List st e),
     gb_Registry = (\<lambda>n. map_option impl_outside (reg n)),
     gb_HistoryCreate = (\<lambda>x. on_hist (hs_Create h e x)),
     gb_Publish = (\<lambda>evt s. (Inr (), s\<lparr>gs_events := gs_events s @ [evt]\<rparr>))\<rparr>"

text \<open>Entries added to a history one after the other, each under an id that was free.\<close>

fun adds_entries :: "(int \<Rightarrow> Entry \<Rightarrow> Entry) \<Rightarrow> Entry list \<Rightarrow> (int \<Rightarrow> Entry option) \<Rightarrow> (int \<Rightarrow> Entry option) \<Rightarrow> bool" where
  "adds_entries f [] v v' \<longleftrightarrow> v' = v"
| "adds_entries f (x # xs) v v' \<longleftrightarrow> (\<exists>i. v i = None \<and> adds_entries f xs (v(i \<mapsto> f i x)) v')"

lemma adds_entries_keeps: "adds_entries f xs v v' \<Longrightarrow> v j = Some y \<Longrightarrow> v' j = Some y"
proof (induction xs arbitrary: v)
  case (Cons x xs)
  then obtain i where i: "v i = None" "adds_entries f xs (v(i \<mapsto> f i x)) v'" by auto
  then have "j \<noteq> i" using Cons.prems(2) by auto
  then show ?case using Cons.IH [OF i(2)] Cons.prems(2) by simp
qed simp

text \<open>What a call does, given the clients as they are listed: \<open>v\<close> and \<open>v'\<close> are the views of the history.\<close>

definition nothing_sent :: "('c, 'h, 'w) grab_state \<Rightarrow> ('c, 'h, 'w) grab_state \<Rightarrow> bool" where
  "nothing_sent s s' \<longleftrightarrow> gs_history s' = gs_history s \<and> gs_outside s' = gs_outside s \<and> gs_events s' = gs_events s"

definition sent_to ::
  "('h \<Rightarrow> int \<Rightarrow> Entry option) \<Rightarrow> (int \<Rightarrow> Entry \<Rightarrow> Entry) \<Rightarrow> IndexerRelease \<Rightarrow> int \<Rightarrow> int list \<Rightarrow> string \<Rightarrow> DownloadClientInstance \<Rightarrow>
     'w DownloadClientImpl \<Rightarrow> ('c, 'h, 'w) grab_state \<Rightarrow> (store_error, unit) result \<Rightarrow> ('c, 'h, 'w) grab_state \<Rightarrow> bool" where
  "sent_to view stored release sid eps q best dc s r s' \<longleftrightarrow>
     (case overlay_settings (dc_Unmarshal dc) (di_Settings best) of
        Inl _ \<Rightarrow> \<not> is_ok r \<and> nothing_sent s s'
      | Inr settings \<Rightarrow>
          (case dc_Add dc settings (ir_DownloadURL release) (ir_Title release) (gs_outside s) of
             (Inl _, w) \<Rightarrow> \<not> is_ok r \<and> gs_outside s' = w \<and> gs_history s' = gs_history s \<and> gs_events s' = gs_events s
           | (Inr downloadID, w) \<Rightarrow> r = Inr () \<and> gs_outside s' = w
               \<and> adds_entries stored (map (grab_entry release sid q downloadID) eps) (view (gs_history s)) (view (gs_history s'))
               \<and> gs_events s' = gs_events s @ [\<lparr>rg_SeriesID = sid, rg_EpisodeIDs = eps, rg_Title = ir_Title release, rg_DownloadID = downloadID\<rparr>]))"

lemma sent_to_clients [simp]: "sent_to view stored release sid eps q best dc (s\<lparr>gs_clients := c\<rparr>) r s' =
    sent_to view stored release sid eps q best dc s r s'"
  by (simp add: sent_to_def nothing_sent_def split: sum.split prod.split)

locale grabbing = clients: crud_store st cinv shelf sp + hist: history_store h hinv view gran kept
  for st :: "('c, DownloadClientInstance) InstanceStore" and cinv shelf sp
    and h :: "'h HistoryStore" and hinv view gran kept +
  fixes empty_object :: string
  assumes keeps_empty: "kept (Some ''{}'') = Some empty_object"
begin

definition stored :: "dbenv \<Rightarrow> int \<Rightarrow> Entry \<Rightarrow> Entry" where
  "stored e i = recorded i (gran (env_now e)) empty_object"

lemma record_entries:
  assumes "hinv (gs_history s)" "quiet e"
    and "fold (\<lambda>epID s. snd (on_hist (hs_Create h e (grab_entry release sid q dl epID)) s)) eps s = s'"
  shows "hinv (gs_history s') \<and> adds_entries (stored e) (map (grab_entry release sid q dl) eps) (view (gs_history s)) (view (gs_history s'))
    \<and> gs_clients s' = gs_clients s \<and> gs_outside s' = gs_outside s \<and> gs_events s' = gs_events s"
  using assms(1,3)
proof (induction eps arbitrary: s)
  case (Cons ep eps)
  obtain r t where c: "hs_Create h e (grab_entry release sid q dl ep) (gs_history s) = (r, t)"
    by (cases "hs_Create h e (grab_entry release sid q dl ep) (gs_history s)")
  have "kept (he_Data (grab_entry release sid q dl ep)) = Some empty_object" by (simp add: grab_entry_def keeps_empty)
  from hist.create_ok [OF Cons.prems(1) assms(2) this c] obtain i where i: "hinv t" "view (gs_history s) i = None"
    "view t = (view (gs_history s))(i \<mapsto> stored e i (grab_entry release sid q dl ep))" by (auto simp: stored_def)
  let ?s = "s\<lparr>gs_history := t\<rparr>"
  have "fold (\<lambda>epID s. snd (on_hist (hs_Create h e (grab_entry release sid q dl epID)) s)) eps ?s = s'"
    using Cons.prems(2) c by (simp add: on_hist_def)
  from Cons.IH [OF _ this] i(1) have
    "hinv (gs_history s') \<and> adds_entries (stored e) (map (grab_entry release sid q dl) eps) (view t) (view (gs_history s'))
     \<and> gs_clients s' = gs_clients s \<and> gs_outside s' = gs_outside s \<and> gs_events s' = gs_events s" by simp
  then show ?case using i(2) unfolding i(3) by auto
qed simp

lemma send:
  assumes "hinv (gs_history s)" "quiet e" "reg (di_Implementation best) = Some dc"
    and "grab_send (grab_service st h reg e) release sid eps q best s = (r, s')"
  shows "gs_clients s' = gs_clients s \<and> hinv (gs_history s') \<and> sent_to view (stored e) release sid eps q best dc s r s'"
proof -
  have get: "Provider_Get (gb_Registry (grab_service st h reg e)) (di_Implementation best) = Inr (impl_outside dc)"
    using assms(3) by (simp add: grab_service_def Provider_Get_def)
  show ?thesis
  proof (cases "overlay_settings (dc_Unmarshal dc) (di_Settings best)")
    case (Inl err)
    then show ?thesis using assms(1,4) get
      by (auto simp: grab_send_def impl_outside_def failA_def sent_to_def nothing_sent_def)
  next
    case (Inr settings)
    obtain x w where add: "dc_Add dc settings (ir_DownloadURL release) (ir_Title release) (gs_outside s) = (x, w)"
      by (cases "dc_Add dc settings (ir_DownloadURL release) (ir_Title release) (gs_outside s)")
    show ?thesis
    proof (cases x)
      case (Inl err)
      then show ?thesis using assms(1,4) get Inr add
        by (auto simp: grab_send_def impl_outside_def bindA_def wrapA_def on_outside_def sent_to_def)
    next
      case id: (Inr downloadID)
      let ?s = "s\<lparr>gs_outside := w\<rparr>"
      let ?t = "fold (\<lambda>epID s. snd (on_hist (hs_Create h e (grab_entry release sid q downloadID epID)) s)) eps ?s"
      have "r = Inr ()" "s' = ?t\<lparr>gs_events := gs_events ?t @ [\<lparr>rg_SeriesID = sid, rg_EpisodeIDs = eps,
          rg_Title = ir_Title release, rg_DownloadID = downloadID\<rparr>]\<rparr>"
        using assms(4) get Inr add id
        by (simp_all add: grab_send_def impl_outside_def bindA_def wrapA_def on_outside_def grab_record_def grab_service_def Let_def)
      with record_entries [of ?s e release sid q downloadID eps ?t] assms(1,2) Inr add id show ?thesis
        by (simp add: sent_to_def)
    qed
  qed
qed

lemma grab_ok:
  assumes "cinv (gs_clients s)" "hinv (gs_history s)" "quiet e"
    and "Service_Grab (grab_service st h reg e) release sid eps q s = (r, s')"
    and "cands = grab_candidates reg (ir_Protocol release) (sort_key (cs_order sp) (sh_items (shelf (gs_clients s))))"
  shows "cinv (gs_clients s') \<and> hinv (gs_history s') \<and> shelf (gs_clients s') = shelf (gs_clients s) \<and>
    (if cands = [] then \<not> is_ok r \<and> nothing_sent s s'
     else \<exists>best dc. best \<in> set cands \<and> (\<forall>c\<in>set cands. di_Priority best \<le> di_Priority c) \<and> reg (di_Implementation best) = Some dc
       \<and> sent_to view (stored e) release sid eps q best dc s r s')"
proof -
  obtain l c where l: "is_List st e (gs_clients s) = (l, c)" by (cases "is_List st e (gs_clients s)")
  have "store_do st e OpList (gs_clients s) = (out_of Items l, c)" using l by simp
  from clients.call_refines [OF assms(1,3) this] have c: "cinv c" "shelf c = shelf (gs_clients s)"
    "out_of Items l = Items (sort_key (cs_order sp) (sh_items (shelf (gs_clients s))))" by auto
  then have ll: "l = Inr (sort_key (cs_order sp) (sh_items (shelf (gs_clients s))))"
    by (auto simp: out_of_def split: sum.splits store_error.splits)
  let ?s = "s\<lparr>gs_clients := c\<rparr>"
  have cands: "grab_candidates (gb_Registry (grab_service st h reg e)) p xs = grab_candidates reg p xs" for p xs
    unfolding grab_candidates_def
    by (rule filter_cong) (auto simp: grab_service_def Provider_Get_def impl_outside_def split: option.split)
  have list: "gb_ClientsList (grab_service st h reg e) s = (l, ?s)" using l by (simp add: grab_service_def on_clients_def)
  have run: "(case cands of [] \<Rightarrow> failA (Errorf (''grab: no enabled download client found for protocol '' @ show_q (ir_Protocol release)))
      | c # cs \<Rightarrow> grab_send (grab_service st h reg e) release sid eps q (best_client c cs)) ?s = (r, s')"
    using assms(4) list ll unfolding assms(5) Service_Grab_def cands bindA_def wrapA_def by simp
  show ?thesis
  proof (cases cands)
    case Nil
    then show ?thesis using run c assms(2) by (auto simp: failA_def nothing_sent_def)
  next
    case (Cons d cs)
    let ?b = "best_client d cs"
    have b: "?b \<in> set cands" "\<forall>c\<in>set cands. di_Priority ?b \<le> di_Priority c" using best_client_best [of d cs] Cons by auto
    then obtain dc where dc: "reg (di_Implementation ?b) = Some dc"
      unfolding assms(5) by (auto simp: grab_candidates_def Provider_Get_def split: option.splits)
    have "hinv (gs_history ?s)" using assms(2) by simp
    from send [where reg = reg and best = ?b, OF this assms(3) dc] run Cons c have
      "gs_clients s' = c \<and> hinv (gs_history s') \<and> sent_to view (stored e) release sid eps q ?b dc s r s'" by simp
    moreover have "cands \<noteq> []" using Cons by simp
    ultimately show ?thesis unfolding if_not_P [OF \<open>cands \<noteq> []\<close>] using b dc c(1,2) by blast
  qed
qed

end

interpretation sqgrab: grabbing sqliteDownloadClients "wf_table dq_ID" "table_shelf downloadclient_FromSQLite"
  "downloadclient_spec sq_gran (\<lambda>i. i) Some (\<lambda>n. n)"
  sqliteHistory "wf_table hq_ID" sqliteHistory_view sq_gran "\<lambda>d. Some (historyDataSQLite d)" "''{}''"
  by unfold_locales (simp add: historyDataSQLite_def bytes_of_def)

text \<open>The download clients as a listing of the SQLite store returns them.\<close>

definition listed_clients :: "SqDownloadClient table \<Rightarrow> DownloadClientInstance list" where
  "listed_clients t = sort_key di_Name (map downloadclient_FromSQLite (rows t))"

text \<open>C5: A grab on SQLite, when no statement fails. If no enabled client of the release's protocol has a
  registered implementation, it fails and nothing is sent. Otherwise it uses such a client of least
  priority value: if its settings cannot be decoded, nothing is sent; if the client refuses the
  release, nothing is recorded; and if it takes the release under a download id, there is
  one new history entry for each episode, carrying that id, and one event.\<close>

theorem grab_sqlite:
  assumes "wf_table dq_ID (gs_clients s)" "wf_table hq_ID (gs_history s)" "quiet e"
    and "Service_Grab (grab_service sqliteDownloadClients sqliteHistory reg e) release sid eps q s = (r, s')"
    and "cands = grab_candidates reg (ir_Protocol release) (listed_clients (gs_clients s))"
  shows "if cands = [] then \<not> is_ok r \<and> nothing_sent s s'
     else \<exists>best dc. best \<in> set cands \<and> list_all (\<lambda>c. di_Priority best \<le> di_Priority c) cands
       \<and> reg (di_Implementation best) = Some dc
       \<and> sent_to sqliteHistory_view (\<lambda>i. recorded i (sq_gran (env_now e)) ''{}'') release sid eps q best dc s r s'"
proof -
  have "sqgrab.stored e = (\<lambda>i. recorded i (sq_gran (env_now e)) ''{}'')" by (rule ext) (simp add: sqgrab.stored_def)
  then show ?thesis using sqgrab.grab_ok [OF assms(1-4), of cands] assms(5)
    by (simp add: listed_clients_def table_shelf_def downloadclient_spec_def list_all_iff split: if_splits)
qed

text \<open>A client that takes every release and remembers what it was sent.\<close>

definition example_client :: "(string \<times> string) list DownloadClientImpl" where
  "example_client = \<lparr>dc_Protocol = ProtocolUsenet, dc_Unmarshal = (\<lambda>_. None),
     dc_Add = (\<lambda>_ url title w. (Inr ''nzo1'', w @ [(url, title)])), dc_Items = (\<lambda>_ w. (Inr [], w))\<rparr>"

definition example_registry :: "(string \<times> string) list DownloadClientImpl ProviderRegistry" where
  "example_registry = [''SABnzbd'' \<mapsto> example_client]"

definition example_client_row :: "int \<Rightarrow> bool \<Rightarrow> int \<Rightarrow> SqDownloadClient" where
  "example_client_row i enable prio = \<lparr>dq_ID = i, dq_Name = ''sab'', dq_Implementation = ''SABnzbd'', dq_Settings = ''{}'',
     dq_Enable = dcBoolToInt enable, dq_Priority = prio, dq_RemoveCompletedDownloads = 1, dq_RemoveFailedDownloads = 1, dq_Added = 0\<rparr>"

definition example_grab_state :: "(SqDownloadClient table, SqHistory table, (string \<times> string) list) grab_state" where
  "example_grab_state = \<lparr>gs_clients = \<lparr>rows = [example_client_row 1 False 1, example_client_row 2 True 5], next_id = 3\<rparr>,
     gs_history = empty_table, gs_outside = [], gs_events = []\<rparr>"

definition example_release :: IndexerRelease where
  "example_release = \<lparr>ir_Title = ''Show.S01E01.720p'', ir_GUID = ''g'', ir_DownloadURL = ''http://x/1'', ir_InfoURL = '''', ir_Size = 0,
     ir_PublishDate = 0, ir_Indexer = ''nyaa'', ir_Protocol = ProtocolUsenet, ir_Seeders = 0, ir_Leechers = 0, ir_Categories = []\<rparr>"

theorem grab_sqlite_witness:
  "gs_outside (snd (Service_Grab (grab_service sqliteDownloadClients sqliteHistory example_registry (quiet_at 0)) example_release 7 [3] ''q''
     example_grab_state)) = [(''http://x/1'', ''Show.S01E01.720p'')]"
proof -
  let ?run = "Service_Grab (grab_service sqliteDownloadClients sqliteHistory example_registry (quiet_at 0)) example_release 7 [3] ''q'' example_grab_state"
  obtain r s' where run: "?run = (r, s')" by (cases ?run)
  let ?c = "downloadclient_FromSQLite (example_client_row 2 True 5)"
  have cands: "grab_candidates example_registry (ir_Protocol example_release) (listed_clients (gs_clients example_grab_state)) = [?c]"
    by (simp add: listed_clients_def example_grab_state_def example_client_row_def downloadclient_FromSQLite_def grab_candidates_def
        dcBoolToInt_def Provider_Get_def example_registry_def example_client_def example_release_def)
  have "wf_table dq_ID (gs_clients example_grab_state)" "wf_table hq_ID (gs_history example_grab_state)"
    by (simp_all add: example_grab_state_def wf_table_def example_client_row_def empty_table_def)
  from grab_sqlite [OF this _ run cands [symmetric]]
  have "sent_to sqliteHistory_view (\<lambda>i. recorded i (sq_gran 0) ''{}'') example_release 7 [3] ''q'' ?c example_client example_grab_state r s'"
    by (auto simp: example_registry_def downloadclient_FromSQLite_def example_client_row_def)
  then show ?thesis using run
    by (simp add: sent_to_def overlay_settings_def downloadclient_FromSQLite_def example_client_row_def bytes_of_def example_client_def
        example_release_def example_grab_state_def)
qed

end
