(* ===== verification/RssSync.thy ===== *)
theory RssSync
  imports Grab LibrarySqlite
begin

section \<open>RSS synchronisation\<close>

text \<open>
  internal/rsssync: the handler of the RssSync command, from the feeds of the indexers to the grabs.
  What it calls is the record \<open>RssStores\<close>; the indexers are code that talks to other programs, so
  their operations are fields of \<open>IndexerImpl\<close>. The handler visits the groups of candidates in the
  order of Go's iteration over a map, which is unspecified: the argument \<open>visit\<close>, a permutation.
  Logging is left out.
\<close>

subsection \<open>Data\<close>

record groupKey =
  gk_seriesID :: int
  gk_season :: int
  gk_episode :: int

record candidate =
  ca_remote :: RemoteEpisode
  ca_release :: IndexerRelease
  ca_episodeID :: int

type_synonym groups = "(groupKey \<times> candidate list) list"

record 's RssStores =
  rs_Indexers :: "('s, IndexerInstance list) act"
  rs_Registry :: "'s IndexerImpl ProviderRegistry"
  rs_QualityDefs :: "('s, QualityDefinition list) act"
  rs_CustomFormats :: "('s, CustomFormat list) act"
  rs_Profile :: "int \<Rightarrow> ('s, QualityProfile) act"
  rs_Series :: "('s, Series list) act"
  rs_Episodes :: "int \<Rightarrow> ('s, Episode list) act"
  rs_Engine :: "'s \<Rightarrow> Engine"
  rs_Grab :: "IndexerRelease \<Rightarrow> int \<Rightarrow> int list \<Rightarrow> string \<Rightarrow> ('s, unit) act"

text \<open>The regular expressions of custom formats and floating-point rounding, as in theory CustomFormats.\<close>

record rss_env =
  rv_compile :: compiler
  rv_round :: "rat \<Rightarrow> rat"

subsection \<open>Helpers\<close>

definition libraryLookup_FindByTitle :: "('s, Series list) act \<Rightarrow> string \<Rightarrow> ('s, int \<times> bool) act" where
  "libraryLookup_FindByTitle series title = mapA (\<lambda>all.
     let normalized = ToLower (TrimSpace title) in
     case List.find (\<lambda>s. ToLower (se_Title s) = normalized \<or> ToLower (se_Slug s) = normalized) all of
       Some s \<Rightarrow> (se_ID s, True)
     | None \<Rightarrow> (0, False)) series"

definition resolveQualityID :: "ParsedQuality \<Rightarrow> QualityDefinition list \<Rightarrow> int" where
  "resolveQualityID parsed defs =
     (case List.find (\<lambda>d. qd_Source d = source_string (pq_Source parsed) \<and> qd_Resolution d = resolution_string (pq_Resolution parsed)) defs of
        Some d \<Rightarrow> qd_ID d
      | None \<Rightarrow> 0)"

definition qualityNameForID :: "int \<Rightarrow> QualityDefinition list \<Rightarrow> string" where
  "qualityNameForID i defs = (case List.find (\<lambda>d. qd_ID d = i) defs of Some d \<Rightarrow> qd_Name d | None \<Rightarrow> '''')"

definition matchedCFIDs :: "rss_env \<Rightarrow> ParsedEpisodeInfo \<Rightarrow> CustomFormat list \<Rightarrow> int list" where
  "matchedCFIDs v parsed formats = map cf_ID (filter (CustomFormat_Match (rv_compile v) (rv_round v) parsed) formats)"

definition anyProfile :: QualityProfile where
  "anyProfile = \<lparr>qp_ID = 1, qp_Name = ''Any'', qp_UpgradeAllowed = False, qp_Cutoff = 0, qp_Items = [], qp_MinFormatScore = 0,
     qp_CutoffFormatScore = 0, qp_FormatItems = []\<rparr>"

subsection \<open>Step 1: the feeds\<close>

fun rss_fetch :: "'s RssStores \<Rightarrow> IndexerInstance list \<Rightarrow> 's \<Rightarrow> IndexerRelease list \<times> 's" where
  "rss_fetch st [] s = ([], s)"
| "rss_fetch st (inst # insts) s =
     (if \<not> ii_EnableRss inst then rss_fetch st insts s
      else (case Provider_Get (rs_Registry st) (ii_Implementation inst) of
          Inl _ \<Rightarrow> rss_fetch st insts s
        | Inr idx \<Rightarrow>
            (case overlay_settings (ix_Unmarshal idx) (ii_Settings inst) of
               Inl _ \<Rightarrow> rss_fetch st insts s
             | Inr settings \<Rightarrow>
                 (case ix_FetchRss idx settings s of
                    (Inl _, s1) \<Rightarrow> rss_fetch st insts s1
                  | (Inr releases, s1) \<Rightarrow> (case rss_fetch st insts s1 of (rest, s2) \<Rightarrow> (releases @ rest, s2))))))"

subsection \<open>Step 3: candidates\<close>

definition rss_remote ::
  "rss_env \<Rightarrow> QualityDefinition list \<Rightarrow> CustomFormat list \<Rightarrow> QualityProfile \<Rightarrow> IndexerRelease \<Rightarrow> ParsedEpisodeInfo \<Rightarrow> int \<Rightarrow> int \<Rightarrow>
     RemoteEpisode" where
  "rss_remote v defs cfs profile rel parsed seriesID epID = \<lparr>
     re_Release = \<lparr>rel_Title = ir_Title rel, rel_Size = ir_Size rel, rel_Indexer = ir_Indexer rel, rel_Age = 0,
       rel_Protocol = ir_Protocol rel, rel_Seeders = 0\<rparr>,
     re_ParsedInfo = parsed, re_SeriesID = seriesID, re_EpisodeIDs = [epID], re_Quality = pe_Quality parsed,
     re_QualityID = resolveQualityID (pe_Quality parsed) defs,
     re_CustomFormats = matchedCFIDs v parsed cfs,
     re_CFScore = Score (rv_compile v) (rv_round v) parsed cfs profile,
     re_ExistingFileQualityID = 0, re_ExistingFileReleaseGroup = ''''\<rparr>"

fun add_candidate :: "groupKey \<Rightarrow> candidate \<Rightarrow> groups \<Rightarrow> groups" where
  "add_candidate key c [] = [(key, [c])]"
| "add_candidate key c ((k, cs) # gs) = (if k = key then (k, cs @ [c]) # gs else (k, cs) # add_candidate key c gs)"

definition matched_episode :: "Episode list \<Rightarrow> int \<Rightarrow> int \<Rightarrow> Episode option" where
  "matched_episode allEps season epNum = List.find (\<lambda>ep. ep_SeasonNumber ep = season \<and> ep_EpisodeNumber ep = epNum) allEps"

fun rss_episodes ::
  "rss_env \<Rightarrow> Engine \<Rightarrow> QualityDefinition list \<Rightarrow> CustomFormat list \<Rightarrow> QualityProfile \<Rightarrow> IndexerRelease \<Rightarrow> ParsedEpisodeInfo \<Rightarrow> int \<Rightarrow>
     Episode list \<Rightarrow> int list \<Rightarrow> groups \<Rightarrow> groups" where
  "rss_episodes v engine defs cfs profile rel parsed seriesID allEps [] gs = gs"
| "rss_episodes v engine defs cfs profile rel parsed seriesID allEps (epNum # ns) gs =
     rss_episodes v engine defs cfs profile rel parsed seriesID allEps ns
       (case matched_episode allEps (pe_SeasonNumber parsed) epNum of
          None \<Rightarrow> gs
        | Some ep \<Rightarrow>
            if \<not> ep_Monitored ep then gs
            else (let remote = rss_remote v defs cfs profile rel parsed seriesID (ep_ID ep) in
              if fst (Evaluate engine remote profile) = Reject then gs
              else add_candidate \<lparr>gk_seriesID = seriesID, gk_season = pe_SeasonNumber parsed, gk_episode = epNum\<rparr>
                     \<lparr>ca_remote = remote, ca_release = rel, ca_episodeID = ep_ID ep\<rparr> gs))"

definition rss_release ::
  "rss_env \<Rightarrow> 's RssStores \<Rightarrow> QualityDefinition list \<Rightarrow> CustomFormat list \<Rightarrow> QualityProfile \<Rightarrow> IndexerRelease \<Rightarrow> groups \<Rightarrow> ('s, groups) act" where
  "rss_release v st defs cfs profile rel gs s =
     (case ParseTitle (ir_Title rel) of
        Inl _ \<Rightarrow> (Inl (OsError ''panic: index out of range''), s)
      | Inr parsed \<Rightarrow>
          if pe_SeriesTitle parsed = '''' then (Inr gs, s)
          else (case libraryLookup_FindByTitle (rs_Series st) (pe_SeriesTitle parsed) s of
              (Inl _, s1) \<Rightarrow> (Inr gs, s1)
            | (Inr (seriesID, found), s1) \<Rightarrow>
                if \<not> found then (Inr gs, s1)
                else if pe_EpisodeNumbers parsed = [] then (Inr gs, s1)
                else (case rs_Episodes st seriesID s1 of
                    (Inl _, s2) \<Rightarrow> (Inr gs, s2)
                  | (Inr allEps, s2) \<Rightarrow>
                      (Inr (rss_episodes v (rs_Engine st s2) defs cfs profile rel parsed seriesID allEps (pe_EpisodeNumbers parsed) gs), s2))))"

fun rss_releases ::
  "rss_env \<Rightarrow> 's RssStores \<Rightarrow> QualityDefinition list \<Rightarrow> CustomFormat list \<Rightarrow> QualityProfile \<Rightarrow> IndexerRelease list \<Rightarrow> groups \<Rightarrow> ('s, groups) act" where
  "rss_releases v st defs cfs profile [] gs = retA gs"
| "rss_releases v st defs cfs profile (rel # rels) gs =
     bindA (rss_release v st defs cfs profile rel gs) (rss_releases v st defs cfs profile rels)"

subsection \<open>Step 4: ranking and grabbing\<close>

definition zero_release :: IndexerRelease where
  "zero_release = \<lparr>ir_Title = '''', ir_GUID = '''', ir_DownloadURL = '''', ir_InfoURL = '''', ir_Size = 0, ir_PublishDate = 0,
     ir_Indexer = '''', ir_Protocol = '''', ir_Seeders = 0, ir_Leechers = 0, ir_Categories = []\<rparr>"

definition rss_winner :: "RemoteEpisode \<Rightarrow> candidate list \<Rightarrow> IndexerRelease \<times> int" where
  "rss_winner best candidates =
     (case List.find (\<lambda>c. rel_Title (re_Release (ca_remote c)) = rel_Title (re_Release best) \<and>
                          re_CFScore (ca_remote c) = re_CFScore best) candidates of
        Some c \<Rightarrow> (ca_release c, ca_episodeID c)
      | None \<Rightarrow> (zero_release, 0))"

definition rss_grab_group ::
  "'s RssStores \<Rightarrow> QualityDefinition list \<Rightarrow> QualityProfile \<Rightarrow> groupKey \<times> candidate list \<Rightarrow> 's \<Rightarrow> 's" where
  "rss_grab_group st defs profile g s =
     (case Rank (map ca_remote (snd g)) profile of
        [] \<Rightarrow> s
      | best # _ \<Rightarrow>
          (case rss_winner best (snd g) of (release, episodeID) \<Rightarrow>
             snd (rs_Grab st release (gk_seriesID (fst g)) [episodeID] (qualityNameForID (re_QualityID best) defs) s)))"

definition rss_process ::
  "rss_env \<Rightarrow> (groups \<Rightarrow> groups) \<Rightarrow> 's RssStores \<Rightarrow> QualityDefinition list \<Rightarrow> CustomFormat list \<Rightarrow> QualityProfile \<Rightarrow> IndexerRelease list \<Rightarrow> ('s, unit) act" where
  "rss_process v visit st defs cfs profile rels =
     bindA (rss_releases v st defs cfs profile rels []) (\<lambda>gs s. (Inr (), fold (rss_grab_group st defs profile) (visit gs) s))"

definition RssSync_Handle :: "rss_env \<Rightarrow> (groups \<Rightarrow> groups) \<Rightarrow> 's RssStores \<Rightarrow> ('s, unit) act" where
  "RssSync_Handle v visit st =
     bindA (wrapA ''rsssync: list indexers'' (rs_Indexers st)) (\<lambda>instances s.
       case rss_fetch st instances s of (allReleases, s1) \<Rightarrow>
         if allReleases = [] then (Inr (), s1)
         else bindA (wrapA ''rsssync: get quality definitions'' (rs_QualityDefs st)) (\<lambda>allDefs.
              bindA (wrapA ''rsssync: list custom formats'' (rs_CustomFormats st)) (\<lambda>allCFs s2.
                case rs_Profile st 1 s2 of (p, s3) \<Rightarrow>
                  rss_process v visit st allDefs allCFs (case p of Inl _ \<Rightarrow> anyProfile | Inr x \<Rightarrow> x) allReleases s3)) s1)"

subsection \<open>Groups as sets of candidates\<close>

definition in_groups :: "groups \<Rightarrow> groupKey \<Rightarrow> candidate \<Rightarrow> bool" where
  "in_groups gs k c \<longleftrightarrow> (\<exists>cs. (k, cs) \<in> set gs \<and> c \<in> set cs)"

definition wf_groups :: "groups \<Rightarrow> bool" where
  "wf_groups gs \<longleftrightarrow> distinct (map fst gs) \<and> (\<forall>g\<in>set gs. snd g \<noteq> [])"

lemma in_groups_Nil [simp]: "\<not> in_groups [] k c" "wf_groups []"
  by (simp_all add: in_groups_def wf_groups_def)

lemma in_groups_Cons: "in_groups (g # gs) k d \<longleftrightarrow> k = fst g \<and> d \<in> set (snd g) \<or> in_groups gs k d"
  by (cases g) (auto simp: in_groups_def)

lemma in_add_candidate: "in_groups (add_candidate key c gs) k d \<longleftrightarrow> in_groups gs k d \<or> k = key \<and> d = c"
  by (induction key c gs rule: add_candidate.induct) (auto simp: in_groups_Cons)

lemma keys_add_candidate: "fst ` set (add_candidate key c gs) = insert key (fst ` set gs)"
  by (induction key c gs rule: add_candidate.induct) auto

lemma wf_add_candidate: "wf_groups gs \<Longrightarrow> wf_groups (add_candidate key c gs)"
proof (induction key c gs rule: add_candidate.induct)
  case (2 key c k cs gs)
  then show ?case using keys_add_candidate [of key c gs] by (auto simp: wf_groups_def)
qed (simp add: wf_groups_def)

text \<open>The candidate a release offers for an episode of a series, if the episode is in the library and
  monitored and the engine accepts it.\<close>

definition offers ::
  "rss_env \<Rightarrow> Engine \<Rightarrow> QualityDefinition list \<Rightarrow> CustomFormat list \<Rightarrow> QualityProfile \<Rightarrow> IndexerRelease \<Rightarrow> ParsedEpisodeInfo \<Rightarrow> int \<Rightarrow>
     Episode list \<Rightarrow> groupKey \<Rightarrow> candidate \<Rightarrow> bool" where
  "offers v engine defs cfs profile rel parsed seriesID allEps k c \<longleftrightarrow>
     gk_seriesID k = seriesID \<and> gk_season k = pe_SeasonNumber parsed \<and>
     (\<exists>ep. matched_episode allEps (gk_season k) (gk_episode k) = Some ep \<and> ep_Monitored ep \<and>
        c = \<lparr>ca_remote = rss_remote v defs cfs profile rel parsed seriesID (ep_ID ep), ca_release = rel, ca_episodeID = ep_ID ep\<rparr>) \<and>
     fst (Evaluate engine (ca_remote c) profile) = Accept"

lemma groupKey_eq: "k = \<lparr>gk_seriesID = a, gk_season = b, gk_episode = c\<rparr> \<longleftrightarrow> gk_seriesID k = a \<and> gk_season k = b \<and> gk_episode k = c"
  by (cases k) auto

lemma not_Reject: "d \<noteq> Reject \<longleftrightarrow> d = Accept"
  by (cases d) auto

lemma rss_episodes_in:
  "in_groups (rss_episodes v engine defs cfs profile rel parsed sid allEps ns gs) k c \<longleftrightarrow>
     in_groups gs k c \<or> gk_episode k \<in> set ns \<and> offers v engine defs cfs profile rel parsed sid allEps k c"
proof (induction ns arbitrary: gs)
  case (Cons n ns)
  let ?one = "gk_episode k = n \<and> offers v engine defs cfs profile rel parsed sid allEps k c"
  let ?gs = "case matched_episode allEps (pe_SeasonNumber parsed) n of
          None \<Rightarrow> gs
        | Some ep \<Rightarrow>
            if \<not> ep_Monitored ep then gs
            else (let remote = rss_remote v defs cfs profile rel parsed sid (ep_ID ep) in
              if fst (Evaluate engine remote profile) = Reject then gs
              else add_candidate \<lparr>gk_seriesID = sid, gk_season = pe_SeasonNumber parsed, gk_episode = n\<rparr>
                     \<lparr>ca_remote = remote, ca_release = rel, ca_episodeID = ep_ID ep\<rparr> gs)"
  have "in_groups ?gs k c \<longleftrightarrow> in_groups gs k c \<or> ?one"
    by (auto simp: Let_def in_add_candidate groupKey_eq offers_def not_Reject split: option.split)
  then show ?case by (auto simp: Cons.IH)
qed simp

lemma rss_episodes_wf: "wf_groups gs \<Longrightarrow> wf_groups (rss_episodes v engine defs cfs profile rel parsed sid allEps ns gs)"
  by (induction ns arbitrary: gs) (auto simp: Let_def wf_add_candidate split: option.split)

subsection \<open>What the handler grabs\<close>

text \<open>
  The candidates of an episode, given the releases and what the series and episode stores answer:
  the title parses, names a series of the library, and the episode is one it numbers.
\<close>

definition rss_candidate ::
  "rss_env \<Rightarrow> 's RssStores \<Rightarrow> 's \<Rightarrow> QualityDefinition list \<Rightarrow> CustomFormat list \<Rightarrow> QualityProfile \<Rightarrow> IndexerRelease list \<Rightarrow>
     groupKey \<Rightarrow> candidate \<Rightarrow> bool" where
  "rss_candidate v st s defs cfs profile rels k c \<longleftrightarrow>
     (\<exists>rel parsed sid allEps. rel \<in> set rels \<and> ParseTitle (ir_Title rel) = Inr parsed \<and> pe_SeriesTitle parsed \<noteq> '''' \<and>
        fst (libraryLookup_FindByTitle (rs_Series st) (pe_SeriesTitle parsed) s) = Inr (sid, True) \<and>
        fst (rs_Episodes st sid s) = Inr allEps \<and> gk_episode k \<in> set (pe_EpisodeNumbers parsed) \<and>
        offers v (rs_Engine st s) defs cfs profile rel parsed sid allEps k c)"

lemma rss_candidate_facts:
  assumes "rss_candidate v st s defs cfs profile rels k c"
  shows "ca_release c \<in> set rels" "rel_Title (re_Release (ca_remote c)) = ir_Title (ca_release c)"
    "ParseTitle (ir_Title (ca_release c)) = Inr (re_ParsedInfo (ca_remote c))"
    "re_QualityID (ca_remote c) = resolveQualityID (pe_Quality (re_ParsedInfo (ca_remote c))) defs"
    "re_CFScore (ca_remote c) = Score (rv_compile v) (rv_round v) (re_ParsedInfo (ca_remote c)) cfs profile"
    "re_ExistingFileQualityID (ca_remote c) = 0" "fst (Evaluate (rs_Engine st s) (ca_remote c) profile) = Accept"
  using assms by (auto simp: rss_candidate_def offers_def rss_remote_def)

text \<open>A grab, and the choice among the candidates of an episode: no candidate scores higher, and none
  that scores the same has a better quality.\<close>

definition grab_call :: "'s RssStores \<Rightarrow> QualityDefinition list \<Rightarrow> groupKey \<times> candidate \<Rightarrow> 's \<Rightarrow> 's" where
  "grab_call st defs x s = (case x of (k, c) \<Rightarrow>
     snd (rs_Grab st (ca_release c) (gk_seriesID k) [ca_episodeID c] (qualityNameForID (re_QualityID (ca_remote c)) defs) s))"

definition preferred :: "QualityProfile \<Rightarrow> candidate \<Rightarrow> candidate \<Rightarrow> bool" where
  "preferred profile c d \<longleftrightarrow> re_CFScore (ca_remote d) < re_CFScore (ca_remote c) \<or>
     re_CFScore (ca_remote d) = re_CFScore (ca_remote c) \<and>
     qualityIndex (ca_remote c) profile \<le> qualityIndex (ca_remote d) profile"

lemma not_outranked: "\<not> rank_less p a b \<Longrightarrow> re_CFScore a < re_CFScore b \<or>
    re_CFScore a = re_CFScore b \<and> qualityIndex b p \<le> qualityIndex a p"
  by (auto simp: rank_less_def Let_def split: if_splits)

locale rss_reads =
  fixes st :: "'s RssStores"
  assumes reads: "snd (rs_QualityDefs st s) = s" "snd (rs_CustomFormats st s) = s" "snd (rs_Profile st i s) = s"
    "snd (rs_Series st s) = s" "snd (rs_Episodes st i s) = s"
begin

lemma lookup_state [simp]: "snd (libraryLookup_FindByTitle (rs_Series st) t s) = s"
  using reads(4) [of s] by (cases "rs_Series st s") (auto simp: libraryLookup_FindByTitle_def mapA_def split: sum.split)

lemma rss_release_groups:
  assumes "wf_groups gs"
  shows "\<exists>gs'. rss_release v st defs cfs profile rel gs s = (Inr gs', s) \<and> wf_groups gs' \<and>
    (\<forall>k c. in_groups gs' k c \<longleftrightarrow> in_groups gs k c \<or> rss_candidate v st s defs cfs profile [rel] k c)"
proof -
  obtain parsed where p: "ParseTitle (ir_Title rel) = Inr parsed" using ParseTitle_total by blast
  obtain l s1 where l: "libraryLookup_FindByTitle (rs_Series st) (pe_SeriesTitle parsed) s = (l, s1)"
    by (cases "libraryLookup_FindByTitle (rs_Series st) (pe_SeriesTitle parsed) s")
  then have s1: "s1 = s" using lookup_state [of "pe_SeriesTitle parsed" s] by simp
  show ?thesis
  proof (cases "\<exists>sid. l = Inr (sid, True) \<and> pe_SeriesTitle parsed \<noteq> '''' \<and> pe_EpisodeNumbers parsed \<noteq> []")
    case False
    then have "\<not> rss_candidate v st s defs cfs profile [rel] k c" for k c using p l by (auto simp: rss_candidate_def)
    moreover have "rss_release v st defs cfs profile rel gs s = (Inr gs, s)"
      using False p l s1 by (auto simp: rss_release_def split: sum.split)
    ultimately show ?thesis using assms by blast
  next
    case True
    then obtain sid where sid: "l = Inr (sid, True)" and t: "pe_SeriesTitle parsed \<noteq> ''''" "pe_EpisodeNumbers parsed \<noteq> []" by blast
    obtain a s2 where a: "rs_Episodes st sid s = (a, s2)" by (cases "rs_Episodes st sid s")
    then have s2: "s2 = s" using reads(5) [of sid s] by simp
    show ?thesis
    proof (cases a)
      case (Inl err)
      then have "\<not> rss_candidate v st s defs cfs profile [rel] k c" for k c using p l sid a by (auto simp: rss_candidate_def)
      moreover have "rss_release v st defs cfs profile rel gs s = (Inr gs, s)"
        using p l s1 sid t a s2 Inl by (simp add: rss_release_def)
      ultimately show ?thesis using assms by blast
    next
      case (Inr allEps)
      let ?gs = "rss_episodes v (rs_Engine st s) defs cfs profile rel parsed sid allEps (pe_EpisodeNumbers parsed) gs"
      have "rss_release v st defs cfs profile rel gs s = (Inr ?gs, s)"
        using p l s1 sid t a s2 Inr by (simp add: rss_release_def)
      moreover have "rss_candidate v st s defs cfs profile [rel] k c \<longleftrightarrow> gk_episode k \<in> set (pe_EpisodeNumbers parsed) \<and>
          offers v (rs_Engine st s) defs cfs profile rel parsed sid allEps k c" for k c
        using p l sid a t Inr by (auto simp: rss_candidate_def)
      ultimately show ?thesis using rss_episodes_wf [OF assms] by (simp add: rss_episodes_in)
    qed
  qed
qed

lemma rss_candidate_Cons: "rss_candidate v st s defs cfs profile (rel # rels) k c \<longleftrightarrow>
    rss_candidate v st s defs cfs profile [rel] k c \<or> rss_candidate v st s defs cfs profile rels k c"
  by (auto simp: rss_candidate_def)

lemma rss_releases_groups:
  assumes "wf_groups gs"
  shows "\<exists>gs'. rss_releases v st defs cfs profile rels gs s = (Inr gs', s) \<and> wf_groups gs' \<and>
    (\<forall>k c. in_groups gs' k c \<longleftrightarrow> in_groups gs k c \<or> rss_candidate v st s defs cfs profile rels k c)"
  using assms
proof (induction rels arbitrary: gs)
  case Nil
  then show ?case by (simp add: retA_def rss_candidate_def)
next
  case (Cons rel rels)
  from rss_release_groups [OF Cons.prems, of v defs cfs profile rel s] obtain g1 where
    g1: "rss_release v st defs cfs profile rel gs s = (Inr g1, s)" "wf_groups g1"
    "\<And>k c. in_groups g1 k c \<longleftrightarrow> in_groups gs k c \<or> rss_candidate v st s defs cfs profile [rel] k c" by blast
  from Cons.IH [OF g1(2)] obtain g2 where
    g2: "rss_releases v st defs cfs profile rels g1 s = (Inr g2, s)" "wf_groups g2"
    "\<And>k c. in_groups g2 k c \<longleftrightarrow> in_groups g1 k c \<or> rss_candidate v st s defs cfs profile rels k c" by blast
  have "rss_releases v st defs cfs profile (rel # rels) gs s = (Inr g2, s)" using g1(1) g2(1) by (simp add: bindA_def)
  then show ?case using g1(3) g2(2,3) rss_candidate_Cons by blast
qed

end

context rss_reads
begin

lemma winner_call:
  assumes "wf_groups gs" "g \<in> set gs" "\<And>k c. in_groups gs k c \<longleftrightarrow> rss_candidate v st s0 defs cfs profile rels k c"
  shows "\<exists>c. rss_candidate v st s0 defs cfs profile rels (fst g) c \<and>
    (\<forall>d. rss_candidate v st s0 defs cfs profile rels (fst g) d \<longrightarrow> preferred profile c d) \<and>
    (\<forall>s. rss_grab_group st defs profile g s = grab_call st defs (fst g, c) s)"
proof -
  have members: "d \<in> set (snd g) \<longleftrightarrow> rss_candidate v st s0 defs cfs profile rels (fst g) d" for d
  proof -
    have "in_groups gs (fst g) d \<longleftrightarrow> d \<in> set (snd g)"
      using assms(1,2) eq_key_imp_eq_value [of gs "fst g" "snd g"] by (force simp: in_groups_def wf_groups_def)
    then show ?thesis using assms(3) by simp
  qed
  have "Rank (map ca_remote (snd g)) profile \<noteq> []" using assms(1,2) by (simp add: wf_groups_def)
  then obtain best rest where rank: "Rank (map ca_remote (snd g)) profile = best # rest" by (meson neq_Nil_conv)
  have best: "best \<in> set (map ca_remote (snd g))" using set_Rank [of "map ca_remote (snd g)" profile] rank by auto
  have top: "\<not> rank_less profile (ca_remote d) best" if "d \<in> set (snd g)" for d
    using Rank_hd_best [of "ca_remote d" "map ca_remote (snd g)" profile] that rank by simp
  let ?p = "\<lambda>c. rel_Title (re_Release (ca_remote c)) = rel_Title (re_Release best) \<and> re_CFScore (ca_remote c) = re_CFScore best"
  have "\<exists>c\<in>set (snd g). ?p c" using best by auto
  then have "List.find ?p (snd g) \<noteq> None" unfolding find_None_set by blast
  then obtain c where c: "List.find ?p (snd g) = Some c" by blast
  then have cin: "c \<in> set (snd g)" "?p c" using find_Some_set by fastforce+
  obtain b where b: "b \<in> set (snd g)" "best = ca_remote b" using best by auto
  have "re_ParsedInfo (ca_remote c) = re_ParsedInfo best"
    using rss_candidate_facts(2,3) [of v st s0 defs cfs profile rels "fst g"] members cin b by (metis Inr_inject)
  then have q: "re_QualityID (ca_remote c) = re_QualityID best"
    using rss_candidate_facts(4) [of v st s0 defs cfs profile rels "fst g"] members cin(1) b by metis
  have "preferred profile c d" if "rss_candidate v st s0 defs cfs profile rels (fst g) d" for d
    using not_outranked [OF top] that members cin(2) q by (fastforce simp: preferred_def qualityIndex_def)
  moreover have "rss_grab_group st defs profile g s = grab_call st defs (fst g, c) s" for s
    using rank c q by (simp add: rss_grab_group_def rss_winner_def grab_call_def)
  ultimately show ?thesis using members cin(1) by blast
qed

lemma process_grabs:
  assumes "\<And>gs. mset (visit gs) = mset gs" "rss_process v visit st defs cfs profile rels s = (r, s')"
  shows "r = Inr () \<and> (\<exists>calls. s' = fold (grab_call st defs) calls s \<and> distinct (map fst calls) \<and>
    (\<forall>k c. (k, c) \<in> set calls \<longrightarrow> rss_candidate v st s defs cfs profile rels k c \<and>
       (\<forall>d. rss_candidate v st s defs cfs profile rels k d \<longrightarrow> preferred profile c d)) \<and>
    (\<forall>k c. rss_candidate v st s defs cfs profile rels k c \<longrightarrow> k \<in> fst ` set calls))"
proof -
  from rss_releases_groups [of "[]" v defs cfs profile rels s] obtain gs where
    gs: "rss_releases v st defs cfs profile rels [] s = (Inr gs, s)" "wf_groups gs"
    "\<And>k c. in_groups gs k c \<longleftrightarrow> rss_candidate v st s defs cfs profile rels k c" by auto
  let ?vs = "visit gs"
  have same: "set ?vs = set gs" "mset (map fst ?vs) = mset (map fst gs)"
    using assms(1) [of gs] mset_eq_setD by (auto simp: mset_map)
  define pick where "pick g = (SOME c. rss_candidate v st s defs cfs profile rels (fst g) c \<and>
    (\<forall>d. rss_candidate v st s defs cfs profile rels (fst g) d \<longrightarrow> preferred profile c d) \<and>
    (\<forall>s. rss_grab_group st defs profile g s = grab_call st defs (fst g, c) s))" for g
  have pick: "rss_candidate v st s defs cfs profile rels (fst g) (pick g) \<and>
    (\<forall>d. rss_candidate v st s defs cfs profile rels (fst g) d \<longrightarrow> preferred profile (pick g) d) \<and>
    (\<forall>s. rss_grab_group st defs profile g s = grab_call st defs (fst g, pick g) s)" if "g \<in> set gs" for g
    unfolding pick_def by (rule someI_ex [OF winner_call [OF gs(2) that gs(3)]])
  let ?calls = "map (\<lambda>g. (fst g, pick g)) ?vs"
  have "r = Inr ()" "s' = fold (rss_grab_group st defs profile) ?vs s"
    using assms(2) gs(1) by (simp_all add: rss_process_def bindA_def)
  moreover have "fold (rss_grab_group st defs profile) ?vs s = fold (grab_call st defs) ?calls s"
    unfolding fold_map o_def by (rule fold_cong) (use pick same in auto)
  moreover have "distinct (map fst ?calls)"
    using gs(2) same(2) mset_eq_imp_distinct_iff by (fastforce simp: wf_groups_def o_def)
  moreover have "k \<in> fst ` set ?calls" if "rss_candidate v st s defs cfs profile rels k c" for k c
    using that gs(3) [of k c] same(1) by (force simp: in_groups_def)
  ultimately show ?thesis using pick same(1) by (intro conjI exI [of _ ?calls]) auto
qed

end

subsection \<open>The handler on SQLite\<close>

record 'w rss_state =
  rx_lib :: library_db
  rx_indexers :: "SqIndexer table"
  rx_grab :: "(SqDownloadClient table, SqHistory table, 'w) grab_state"

definition rss_on_lib :: "(library_db, 'a) act \<Rightarrow> ('w rss_state, 'a) act" where
  "rss_on_lib m s = (let (r, d) = m (rx_lib s) in (r, s\<lparr>rx_lib := d\<rparr>))"

definition rss_on_indexers :: "(SqIndexer table, 'a) act \<Rightarrow> ('w rss_state, 'a) act" where
  "rss_on_indexers m s = (let (r, d) = m (rx_indexers s) in (r, s\<lparr>rx_indexers := d\<rparr>))"

definition rss_on_grab :: "((SqDownloadClient table, SqHistory table, 'w) grab_state, 'a) act \<Rightarrow> ('w rss_state, 'a) act" where
  "rss_on_grab m s = (let (r, d) = m (rx_grab s) in (r, s\<lparr>rx_grab := d\<rparr>))"

definition rss_indexer :: "'w IndexerImpl \<Rightarrow> 'w rss_state IndexerImpl" where
  "rss_indexer i = \<lparr>ix_Unmarshal = ix_Unmarshal i, ix_FetchRss = (\<lambda>set. rss_on_grab (on_outside (ix_FetchRss i set)))\<rparr>"

text \<open>The tables of qualities, profiles and custom formats and the engine, which reads the blocklist and the
  release profiles, enter as what reading them returns.\<close>

record rss_tables =
  rt_defs :: "(store_error, QualityDefinition list) result"
  rt_formats :: "(store_error, CustomFormat list) result"
  rt_profile :: "int \<Rightarrow> (store_error, QualityProfile) result"
  rt_engine :: Engine

definition sqlite_rss ::
  "dbenv \<Rightarrow> rss_tables \<Rightarrow> 'w IndexerImpl ProviderRegistry \<Rightarrow> 'w DownloadClientImpl ProviderRegistry \<Rightarrow> 'w rss_state RssStores" where
  "sqlite_rss e t idx dcs = \<lparr>
     rs_Indexers = rss_on_indexers (sqliteIndexers_List e),
     rs_Registry = (\<lambda>n. map_option rss_indexer (idx n)),
     rs_QualityDefs = (\<lambda>s. (rt_defs t, s)), rs_CustomFormats = (\<lambda>s. (rt_formats t, s)), rs_Profile = (\<lambda>i s. (rt_profile t i, s)),
     rs_Series = rss_on_lib (sqliteSeries_List e), rs_Episodes = (\<lambda>i. rss_on_lib (sqliteEpisodes_ListForSeries e i)),
     rs_Engine = (\<lambda>_. rt_engine t),
     rs_Grab = (\<lambda>release sid eps q. rss_on_grab
       (Service_Grab (grab_service sqliteDownloadClients sqliteHistory dcs e) release sid eps q))\<rparr>"

lemma snd_mapA: "snd (mapA g m s) = snd (m s)" "snd (wrapA msg m s) = snd (m s)"
  by (auto simp: mapA_def wrapA_def split: prod.split sum.split)

lemma snd_stmt: "snd (m s) = s \<Longrightarrow> snd (stmt e n m s) = s"
  by (simp add: stmt_def split: option.split)

interpretation sqrss: rss_reads "sqlite_rss e t idx dcs" for e t idx dcs
proof
  fix s :: "'a rss_state" and i
  have series: "snd (sqliteSeries_List e d) = d" for d
    unfolding sqliteSeries_List_def sqlite_ListSeries_def snd_mapA by (rule snd_stmt) (simp add: on_series_def sql_many_def)
  show "snd (rs_Series (sqlite_rss e t idx dcs) s) = s"
    using series [of "rx_lib s"] by (cases "sqliteSeries_List e (rx_lib s)") (simp add: sqlite_rss_def rss_on_lib_def)
  have eps: "snd (sqliteEpisodes_ListForSeries e i d) = d" for d
    unfolding sqliteEpisodes_ListForSeries_def sqlite_ListEpisodesForSeries_def snd_mapA
    by (rule snd_stmt) (simp add: on_episodes_def sql_many_def)
  show "snd (rs_Episodes (sqlite_rss e t idx dcs) i s) = s"
    using eps [of "rx_lib s"] by (cases "sqliteEpisodes_ListForSeries e i (rx_lib s)") (simp add: sqlite_rss_def rss_on_lib_def)
qed (simp_all add: sqlite_rss_def)

text \<open>C3: An RSS synchronisation on SQLite that fetched releases and could read its tables succeeds, and its effect
  is a sequence of grabs, whatever the order in which it visits the groups: at most one grab for each episode of
  each series; each grabs a release that was fetched, whose title names the series and numbers the episode, for
  an episode of the library that is monitored, and that the engine accepts; no other such release for the episode scores higher,
  nor scores the same with a better quality; and every episode that has such a release is grabbed.\<close>

theorem rss_sync_sqlite:
  assumes visit: "\<And>gs. mset (visit gs) = mset gs"
    and "fst (sqliteIndexers_List e (rx_indexers s)) = Inr insts" "rss_fetch (sqlite_rss e t idx dcs) insts s = (rels, s1)"
    and "rels \<noteq> []" "rt_defs t = Inr defs" "rt_formats t = Inr cfs" "rt_profile t 1 = Inr profile"
    and "RssSync_Handle v visit (sqlite_rss e t idx dcs) s = (r, s')"
  shows "r = Inr () \<and> (\<exists>calls. s' = fold (grab_call (sqlite_rss e t idx dcs) defs) calls s1 \<and> distinct (map fst calls) \<and>
    (\<forall>k c. (k, c) \<in> set calls \<longrightarrow> rss_candidate v (sqlite_rss e t idx dcs) s1 defs cfs profile rels k c \<and>
       (\<forall>d. rss_candidate v (sqlite_rss e t idx dcs) s1 defs cfs profile rels k d \<longrightarrow> preferred profile c d)) \<and>
    (\<forall>k c. rss_candidate v (sqlite_rss e t idx dcs) s1 defs cfs profile rels k c \<longrightarrow> k \<in> fst ` set calls))"
proof -
  have "snd (sqliteIndexers_List e (rx_indexers s)) = rx_indexers s"
    unfolding sqliteIndexers_List_def sqlite_ListIndexers_def snd_mapA by (rule snd_stmt) (simp add: sql_many_def)
  then have "sqliteIndexers_List e (rx_indexers s) = (Inr insts, rx_indexers s)" using assms(2) by (metis prod.collapse)
  then have "rs_Indexers (sqlite_rss e t idx dcs) s = (Inr insts, s)" by (simp add: sqlite_rss_def rss_on_indexers_def)
  moreover have "rs_QualityDefs (sqlite_rss e t idx dcs) x = (Inr defs, x)" "rs_CustomFormats (sqlite_rss e t idx dcs) x = (Inr cfs, x)"
    "rs_Profile (sqlite_rss e t idx dcs) 1 x = (Inr profile, x)" for x
    using assms(5-7) by (simp_all add: sqlite_rss_def)
  ultimately have "rss_process v visit (sqlite_rss e t idx dcs) defs cfs profile rels s1 = (r, s')"
    using assms(3,4,8) by (simp add: RssSync_Handle_def bindA_def wrapA_def)
  from sqrss.process_grabs [OF visit this] show ?thesis .
qed

text \<open>C19: The handler does not look at the files an episode already has: the groups of candidates do not change
  when the file references of the episodes do, and the specifications that compare a release with an existing file
  accept every candidate it builds.\<close>

theorem rss_ignores_existing_files:
  "rss_episodes v engine defs cfs profile rel parsed sid (map (\<lambda>ep. ep\<lparr>ep_EpisodeFileID := f ep\<rparr>) allEps) ns gs =
     rss_episodes v engine defs cfs profile rel parsed sid allEps ns gs
   \<and> spec_Evaluate UpgradeAllowedSpec (rss_remote v defs cfs profile rel parsed sid epID) profile = accept
   \<and> spec_Evaluate UpgradableSpec (rss_remote v defs cfs profile rel parsed sid epID) profile = accept
   \<and> spec_Evaluate RepackSpec (rss_remote v defs cfs profile rel parsed sid epID) profile = accept"
proof (intro conjI)
  have "matched_episode (map (\<lambda>ep. ep\<lparr>ep_EpisodeFileID := f ep\<rparr>) allEps) a b =
      map_option (\<lambda>ep. ep\<lparr>ep_EpisodeFileID := f ep\<rparr>) (matched_episode allEps a b)" for a b
    unfolding matched_episode_def by (induction allEps) auto
  then show "rss_episodes v engine defs cfs profile rel parsed sid (map (\<lambda>ep. ep\<lparr>ep_EpisodeFileID := f ep\<rparr>) allEps) ns gs =
      rss_episodes v engine defs cfs profile rel parsed sid allEps ns gs"
    by (induction ns arbitrary: gs) (auto simp: Let_def split: option.split)
qed (simp_all add: rss_remote_def UpgradeAllowedSpec_def UpgradableSpec_def RepackSpec_def)

text \<open>One series, one monitored episode, one indexer whose feed has one release for it.\<close>

definition rss_example_lib :: library_db where
  "rss_example_lib = snd (sqliteEpisodes_Create (app_publish (quiet_at 0)) (quiet_at 0) example_new_episode
     (snd (sqliteSeries_Create (app_publish (quiet_at 0)) (quiet_at 0) (example_series\<lparr>se_Title := ''A''\<rparr>) (empty_library [1]))))"

definition rss_example_state :: "(string \<times> string) list rss_state" where
  "rss_example_state = \<lparr>rx_lib = rss_example_lib,
     rx_indexers = \<lparr>rows = [sqIndexerRow 0 example_indexer 1], next_id = 2\<rparr>, rx_grab = example_grab_state\<rparr>"

definition rss_example_release :: IndexerRelease where
  "rss_example_release = example_release\<lparr>ir_Title := ''A.S01E01''\<rparr>"

definition rss_example_feed :: "(string \<times> string) list IndexerImpl ProviderRegistry" where
  "rss_example_feed = [''Nyaa'' \<mapsto> \<lparr>ix_Unmarshal = (\<lambda>_. None), ix_FetchRss = (\<lambda>_ w. (Inr [rss_example_release], w))\<rparr>]"

definition rss_example_tables :: rss_tables where
  "rss_example_tables = \<lparr>rt_defs = Inr [], rt_formats = Inr [], rt_profile = (\<lambda>_. Inr anyProfile), rt_engine = [NotSampleSpec]\<rparr>"

definition rss_example_stores :: "(string \<times> string) list rss_state RssStores" where
  "rss_example_stores = sqlite_rss (quiet_at 0) rss_example_tables rss_example_feed example_registry"

definition rss_example_env :: rss_env where
  "rss_example_env = \<lparr>rv_compile = (\<lambda>_. None), rv_round = (\<lambda>x. x)\<rparr>"

lemma rss_example_parse: "\<exists>parsed. ParseTitle ''A.S01E01'' = Inr parsed \<and> pe_SeriesTitle parsed = ''A'' \<and>
    pe_SeasonNumber parsed = 1 \<and> pe_EpisodeNumbers parsed = [1]"
proof -
  let ?t = "''A.S01E01''"
  have "map_option (\<lambda>m. (cleanTitle (group m 1), group m 2, group m 3, group m 4)) (FindStringSubmatch reStandard ?t) =
      Some (''A'', ''01'', ''01'', '''')" by code_simp
  then obtain m where m: "FindStringSubmatch reStandard ?t = Some m" "cleanTitle (group m 1) = ''A''"
    "group m 2 = ''01''" "group m 3 = ''01''" "group m 4 = ''''" by auto
  have "Atoi_value ''01'' = 1" "Atoi ''01'' = Inr 1" by code_simp+
  then have "parseStandard ?t (empty_info ?t) = Inr (True,
      (empty_info ?t)\<lparr>pe_SeriesTitle := ''A'', pe_SeasonNumber := 1, pe_EpisodeNumbers := [1]\<rparr>)"
    by (simp add: parseStandard_def m m(2) [simplified] Let_def empty_info_def)
  then show ?thesis by (simp add: ParseTitle_def)
qed

lemma rss_example_lookup: "fst (libraryLookup_FindByTitle (rs_Series rss_example_stores) ''A'' rss_example_state) = Inr (1, True)"
proof -
  have "\<exists>x. sqliteSeries_List (quiet_at 0) rss_example_lib = (Inr [x], rss_example_lib) \<and> se_Title x = ''A'' \<and> se_ID x = 1"
    by (simp add: rss_example_lib_def example_simps sqliteSeries_List_def sqlite_ListSeries_def sql_many_def)
  moreover have "ToLower (TrimSpace ''A'') = ''a''" "ToLower ''A'' = ''a''" by code_simp+
  ultimately show ?thesis
    by (auto simp: libraryLookup_FindByTitle_def rss_example_stores_def sqlite_rss_def rss_on_lib_def rss_example_state_def mapA_def)
qed

lemma rss_example_episodes: "\<exists>eps ep. fst (rs_Episodes rss_example_stores 1 rss_example_state) = Inr eps \<and>
    matched_episode eps 1 1 = Some ep \<and> ep_Monitored ep"
  by (simp add: rss_example_stores_def sqlite_rss_def rss_on_lib_def rss_example_state_def rss_example_lib_def example_simps
      sqliteEpisodes_ListForSeries_def sqlite_ListEpisodesForSeries_def sql_many_def matched_episode_def)

lemma rss_example_candidate:
  "\<exists>k c. rss_candidate rss_example_env rss_example_stores rss_example_state [] [] anyProfile [rss_example_release] k c"
proof -
  obtain parsed where p: "ParseTitle ''A.S01E01'' = Inr parsed" "pe_SeriesTitle parsed = ''A''"
    "pe_SeasonNumber parsed = 1" "pe_EpisodeNumbers parsed = [1]" using rss_example_parse by blast
  obtain eps ep where e: "fst (rs_Episodes rss_example_stores 1 rss_example_state) = Inr eps" "matched_episode eps 1 1 = Some ep"
    "ep_Monitored ep" using rss_example_episodes by blast
  let ?k = "\<lparr>gk_seriesID = 1, gk_season = 1, gk_episode = 1\<rparr>"
  let ?c = "\<lparr>ca_remote = rss_remote rss_example_env [] [] anyProfile rss_example_release parsed 1 (ep_ID ep),
    ca_release = rss_example_release, ca_episodeID = ep_ID ep\<rparr>"
  have "rs_Engine rss_example_stores rss_example_state = [NotSampleSpec]"
    by (simp add: rss_example_stores_def sqlite_rss_def rss_example_tables_def)
  then have "offers rss_example_env (rs_Engine rss_example_stores rss_example_state) [] [] anyProfile rss_example_release parsed 1 eps ?k ?c"
    using p e by (simp add: offers_def Evaluate_def NotSampleSpec_def rss_remote_def rss_example_release_def example_release_def
        accept_def Let_def)
  then show ?thesis using p e rss_example_lookup unfolding rss_candidate_def
    by (intro exI [of _ ?k] exI [of _ ?c] exI [of _ rss_example_release] exI [of _ parsed] exI [of _ 1] exI [of _ eps])
      (simp add: rss_example_release_def)
qed

theorem rss_sync_sqlite_witness:
  "\<exists>k c cs. ca_release c = rss_example_release \<and>
     RssSync_Handle rss_example_env (\<lambda>gs. gs) rss_example_stores rss_example_state =
       (Inr (), fold (grab_call rss_example_stores []) ((k, c) # cs) rss_example_state)"
proof -
  obtain r s' where run: "RssSync_Handle rss_example_env (\<lambda>gs. gs) rss_example_stores rss_example_state = (r, s')"
    by (cases "RssSync_Handle rss_example_env (\<lambda>gs. gs) rss_example_stores rss_example_state")
  let ?i = "indexer_FromSQLite (sqIndexerRow 0 example_indexer 1)"
  have l: "fst (sqliteIndexers_List (quiet_at 0) (rx_indexers rss_example_state)) = Inr [?i]"
    by (simp add: sqliteIndexers_List_def sqlite_ListIndexers_def mapA_def wrapA_def sql_many_def rss_example_state_def)
  have f: "rss_fetch rss_example_stores [?i] rss_example_state = ([rss_example_release], rss_example_state)"
    by (simp add: rss_example_stores_def sqlite_rss_def indexer_FromSQLite_def sqIndexerRow_def example_indexer_def boolToInt_def
        Provider_Get_def rss_example_feed_def rss_indexer_def overlay_settings_def bytes_of_def sqliteSettings_def
        rss_on_grab_def on_outside_def)
  have tables: "rt_defs rss_example_tables = Inr []" "rt_formats rss_example_tables = Inr []" "rt_profile rss_example_tables 1 = Inr anyProfile"
    by (simp_all add: rss_example_tables_def)
  note main = rss_sync_sqlite [where visit = "\<lambda>gs. gs", OF refl l f [unfolded rss_example_stores_def] _ tables
      run [unfolded rss_example_stores_def], folded rss_example_stores_def]
  obtain calls where calls: "r = Inr ()" "s' = fold (grab_call rss_example_stores []) calls rss_example_state"
    "\<And>k c. (k, c) \<in> set calls \<Longrightarrow> rss_candidate rss_example_env rss_example_stores rss_example_state [] [] anyProfile [rss_example_release] k c"
    "\<And>k c. rss_candidate rss_example_env rss_example_stores rss_example_state [] [] anyProfile [rss_example_release] k c \<Longrightarrow> k \<in> fst ` set calls"
    using main by blast
  with rss_example_candidate obtain k c cs where "calls = (k, c) # cs" by (cases calls) auto
  then show ?thesis using calls(1,2) run rss_candidate_facts(1) [OF calls(3) [of k c]] by auto
qed

end
