(* ===== verification/Go_Json.thy ===== *)
theory Go_Json
  imports Sql_Store Go_Strings
begin

section \<open>encoding/json\<close>

text \<open>
  The parts of Go's \<open>encoding/json\<close> that the program uses, on byte strings: the document
  \<open>json.Marshal\<close> writes for a value, the scanner and decoder of \<open>json.Unmarshal\<close>, and the decoding
  of a document into integers, strings, booleans, slices and struct fields. A document is parsed into \<open>json\<close>, in
  which numbers keep their literal and objects keep the order and the duplicates of their members. The
  text of the two kinds of error is not modelled.
\<close>

datatype json = JNull | JBool bool | JNum string | JStr string | JArr "json list" | JObj "(string \<times> json) list"

subsection \<open>UTF-8\<close>

text \<open>The length of the valid encoding of a character at the head of a byte string, 0 when there
  is none (\<open>utf8.DecodeRune\<close>).\<close>

definition cont_byte :: "char \<Rightarrow> bool" where
  "cont_byte c \<longleftrightarrow> 128 \<le> char_code c \<and> char_code c \<le> 191"

definition second_byte :: "nat \<Rightarrow> char \<Rightarrow> bool" where
  "second_byte x c \<longleftrightarrow> cont_byte c \<and> (x = 224 \<longrightarrow> 160 \<le> char_code c) \<and> (x = 237 \<longrightarrow> char_code c \<le> 159) \<and>
     (x = 240 \<longrightarrow> 144 \<le> char_code c) \<and> (x = 244 \<longrightarrow> char_code c \<le> 143)"

fun utf8_len :: "string \<Rightarrow> nat" where
  "utf8_len [] = 0"
| "utf8_len (a # s) = (let x = char_code a in
     if x < 128 then 1
     else if 194 \<le> x \<and> x \<le> 223 then (case s of b # _ \<Rightarrow> if cont_byte b then 2 else 0 | _ \<Rightarrow> 0)
     else if 224 \<le> x \<and> x \<le> 239 then
       (case s of b # c # _ \<Rightarrow> if second_byte x b \<and> cont_byte c then 3 else 0 | _ \<Rightarrow> 0)
     else if 240 \<le> x \<and> x \<le> 244 then
       (case s of b # c # d # _ \<Rightarrow> if second_byte x b \<and> cont_byte c \<and> cont_byte d then 4 else 0 | _ \<Rightarrow> 0)
     else 0)"

definition utf8_enc :: "nat \<Rightarrow> string" where
  "utf8_enc n =
     (if n < 128 then [char_of n]
      else if n < 2048 then [char_of (192 + n div 64), char_of (128 + n mod 64)]
      else if n < 65536 then [char_of (224 + n div 4096), char_of (128 + n div 64 mod 64), char_of (128 + n mod 64)]
      else [char_of (240 + n div 262144), char_of (128 + n div 4096 mod 64), char_of (128 + n div 64 mod 64),
            char_of (128 + n mod 64)])"

abbreviation rune_error :: string where
  "rune_error \<equiv> utf8_enc 65533"

fun valid_utf8 :: "string \<Rightarrow> bool" where
  "valid_utf8 [] = True"
| "valid_utf8 (a # s) = (utf8_len (a # s) \<noteq> 0 \<and> valid_utf8 (drop (utf8_len (a # s) - 1) s))"

lemma valid_utf8_ascii: "list_all (\<lambda>c. char_code c < 128) s \<Longrightarrow> valid_utf8 s"
  by (induction s) auto

lemma utf8_len_le: "utf8_len s \<le> length s"
  by (cases s) (auto simp: Let_def split: list.splits)

lemma utf8_len_take: "utf8_len s \<noteq> 0 \<Longrightarrow> utf8_len (take (utf8_len s) s @ t) = utf8_len s"
  by (cases s) (auto simp: Let_def split: list.splits if_splits)

lemma utf8_len_ascii [simp]: "char_code a < 128 \<Longrightarrow> utf8_len (a # s) = 1"
  by (simp add: Let_def)

declare utf8_len.simps(2) [simp del]

subsection \<open>Strings\<close>

definition hex_digit :: "nat \<Rightarrow> char" where
  "hex_digit n = (if n < 10 then char_of (48 + n) else char_of (87 + n))"

text \<open>The form of one ASCII character: quotes, backslashes and control characters are escaped, and so
  are the three characters that are special in HTML.\<close>

definition esc_char :: "char \<Rightarrow> string" where
  "esc_char c =
     (if c = CHR 34 \<or> c = CHR 92 then [CHR 92, c]
      else if c = CHR 8 then [CHR 92, CHR ''b'']
      else if c = CHR 12 then [CHR 92, CHR ''f'']
      else if c = CHR 10 then [CHR 92, CHR ''n'']
      else if c = CHR 13 then [CHR 92, CHR ''r'']
      else if c = CHR 9 then [CHR 92, CHR ''t'']
      else if char_code c < 32 \<or> c = CHR ''<'' \<or> c = CHR ''>'' \<or> c = CHR ''&''
        then [CHR 92, CHR ''u'', CHR ''0'', CHR ''0'', hex_digit (char_code c div 16), hex_digit (char_code c mod 16)]
      else [c])"

fun enc_chars :: "string \<Rightarrow> string" where
  "enc_chars [] = []"
| "enc_chars (a # s) =
     (if char_code a < 128 then esc_char a @ enc_chars s
      else (let n = utf8_len (a # s) in
        if n = 0 then CHR 92 # ''ufffd'' @ enc_chars s
        else (if take n (a # s) = utf8_enc 8232 then CHR 92 # ''u2028''
              else if take n (a # s) = utf8_enc 8233 then CHR 92 # ''u2029''
              else take n (a # s)) @ enc_chars (drop (n - 1) s)))"

definition enc_string :: "string \<Rightarrow> string" where
  "enc_string s = CHR 34 # enc_chars s @ [CHR 34]"

definition hex_val :: "char \<Rightarrow> nat option" where
  "hex_val c = (let x = char_code c in
     if 48 \<le> x \<and> x \<le> 57 then Some (x - 48)
     else if 97 \<le> x \<and> x \<le> 102 then Some (x - 87)
     else if 65 \<le> x \<and> x \<le> 70 then Some (x - 55) else None)"

fun hex4 :: "string \<Rightarrow> nat option" where
  "hex4 (a # b # c # d # _) =
     (case (hex_val a, hex_val b, hex_val c, hex_val d) of
        (Some w, Some x, Some y, Some z) \<Rightarrow> Some (((w * 16 + x) * 16 + y) * 16 + z)
      | _ \<Rightarrow> None)"
| "hex4 _ = None"

definition getu4 :: "string \<Rightarrow> nat option" where
  "getu4 s = (if take 2 s = [CHR 92, CHR ''u''] then hex4 (drop 2 s) else None)"

definition simple_escape :: "char \<Rightarrow> char option" where
  "simple_escape c =
     (if c = CHR 34 \<or> c = CHR 92 \<or> c = CHR ''/'' then Some c
      else if c = CHR ''b'' then Some (CHR 8)
      else if c = CHR ''f'' then Some (CHR 12)
      else if c = CHR ''n'' then Some (CHR 10)
      else if c = CHR ''r'' then Some (CHR 13)
      else if c = CHR ''t'' then Some (CHR 9) else None)"

definition put :: "string \<Rightarrow> (string \<times> string) option \<Rightarrow> (string \<times> string) option" where
  "put p r = map_option (\<lambda>(s, rest). (p @ s, rest)) r"

text \<open>The characters of a string literal after its opening quote, decoded, and what follows the
  closing quote. A surrogate that has no partner and a byte that is not UTF-8 become U+FFFD.\<close>

function (sequential) parse_chars :: "string \<Rightarrow> (string \<times> string) option" where
  "parse_chars [] = None"
| "parse_chars (a # s) =
     (if a = CHR 34 then Some ([], s)
      else if a = CHR 92 then
        (case s of
           [] \<Rightarrow> None
         | x # r \<Rightarrow>
             if x = CHR ''u'' then
               (case hex4 r of
                  None \<Rightarrow> None
                | Some n \<Rightarrow>
                    if 55296 \<le> n \<and> n < 57344 then
                      (case getu4 (drop 4 r) of
                         Some m \<Rightarrow>
                           if n < 56320 \<and> 56320 \<le> m \<and> m < 57344
                           then put (utf8_enc ((n - 55296) * 1024 + (m - 56320) + 65536)) (parse_chars (drop 10 r))
                           else put rune_error (parse_chars (drop 4 r))
                       | None \<Rightarrow> put rune_error (parse_chars (drop 4 r)))
                    else put (utf8_enc n) (parse_chars (drop 4 r)))
             else (case simple_escape x of None \<Rightarrow> None | Some c \<Rightarrow> put [c] (parse_chars r)))
      else if char_code a < 32 then None
      else if char_code a < 128 then put [a] (parse_chars s)
      else if utf8_len (a # s) = 0 then put rune_error (parse_chars s)
      else put (take (utf8_len (a # s)) (a # s)) (parse_chars (drop (utf8_len (a # s) - 1) s)))"
  by pat_completeness auto
termination by (relation "measure length") auto

declare parse_chars.simps [simp del]

lemma put_Some: "put p r = Some (s, rest) \<longleftrightarrow> (\<exists>s'. r = Some (s', rest) \<and> s = p @ s')"
  by (auto simp: put_def)

lemma put_simps [simp]: "put p None = None" "put p (Some (s, rest)) = Some (p @ s, rest)"
  by (simp_all add: put_def)

text \<open>The decoder consumes at least the closing quote.\<close>

lemma parse_chars_shorter: "parse_chars s = Some (v, rest) \<Longrightarrow> length rest < length s"
proof (induction s arbitrary: v rest rule: parse_chars.induct)
  case (2 a s)
  show ?case
  proof (cases "a = CHR 34 \<or> a \<noteq> CHR 92")
    case True
    with 2 show ?thesis
      by (subst (asm) parse_chars.simps) (fastforce simp: put_Some split: if_splits)
  next
    case False
    with 2 show ?thesis
      by (subst (asm) parse_chars.simps)
        (fastforce simp: put_Some split: if_splits list.splits option.splits)
  qed
qed (simp add: parse_chars.simps)

lemma hex_val_digit [simp]: "n < 16 \<Longrightarrow> hex_val (hex_digit n) = Some n"
  by (auto simp: hex_val_def hex_digit_def char_code_def Let_def)

lemma hex_val_0 [simp]: "hex_val (CHR ''0'') = Some 0"
  by code_simp

lemma hex4_00:
  assumes "x < 16" "y < 16"
  shows "hex4 (CHR ''0'' # CHR ''0'' # hex_digit x # hex_digit y # s) = Some (x * 16 + y)"
  by (simp add: assms)

lemma hex4_esc:
  assumes "char_code c < 128"
  shows "hex4 (CHR ''0'' # CHR ''0'' # hex_digit (char_code c div 16) # hex_digit (char_code c mod 16) # s) = Some (char_code c)"
  using assms by (subst hex4_00) auto

lemma utf8_enc_ascii: "char_code c < 128 \<Longrightarrow> utf8_enc (char_code c) = [c]"
  by (simp add: utf8_enc_def)

lemma parse_u_esc:
  assumes "hex4 (take 4 s) = Some n" "n < 55296"
  shows "parse_chars (CHR 92 # CHR ''u'' # s) = put (utf8_enc n) (parse_chars (drop 4 s))"
proof -
  obtain a b c d r where "s = a # b # c # d # r"
    using assms(1) by (cases s rule: hex4.cases) auto
  then show ?thesis using assms by (simp add: parse_chars.simps)
qed

lemma parse_esc_char:
  assumes "char_code c < 128"
  shows "parse_chars (esc_char c @ s) = put [c] (parse_chars s)"
proof (cases "c \<in> {CHR 34, CHR 92, CHR 8, CHR 12, CHR 10, CHR 13, CHR 9}")
  case True
  then show ?thesis by (auto simp: esc_char_def simple_escape_def parse_chars.simps)
next
  case False
  show ?thesis
  proof (cases "char_code c < 32 \<or> c = CHR ''<'' \<or> c = CHR ''>'' \<or> c = CHR ''&''")
    case True
    with False have "esc_char c = CHR 92 # CHR ''u'' #
        [CHR ''0'', CHR ''0'', hex_digit (char_code c div 16), hex_digit (char_code c mod 16)]"
      by (simp add: esc_char_def)
    then show ?thesis using assms hex4_esc [OF assms, of "[]"]
      by (simp add: parse_u_esc [where n = "char_code c"] utf8_enc_ascii)
  next
    case no: False
    with False assms show ?thesis by (simp add: esc_char_def parse_chars.simps)
  qed
qed

lemma parse_utf8:
  assumes "128 \<le> char_code a" "utf8_len (a # s) = n" "n \<noteq> 0"
  shows "parse_chars (take n (a # s) @ t) = put (take n (a # s)) (parse_chars t)"
proof -
  obtain k where n: "n = Suc k" using assms(3) by (cases n) auto
  have len: "utf8_len (take n (a # s) @ t) = n" using utf8_len_take [of "a # s" t] assms by simp
  moreover have "k \<le> length s" using utf8_len_le [of "a # s"] assms n by simp
  moreover have "a \<noteq> CHR 34" "a \<noteq> CHR 92" using assms(1) by (auto simp: char_code_def)
  ultimately show ?thesis using assms(1) by (simp add: n parse_chars.simps)
qed

lemma parse_u2028: "parse_chars ((CHR 92 # ''u2028'') @ t) = put (utf8_enc 8232) (parse_chars t)"
  using parse_u_esc [of "''2028'' @ t" 8232] by (simp add: hex_val_def Let_def char_code_def)

lemma parse_u2029: "parse_chars ((CHR 92 # ''u2029'') @ t) = put (utf8_enc 8233) (parse_chars t)"
  using parse_u_esc [of "''2029'' @ t" 8233] by (simp add: hex_val_def Let_def char_code_def)

lemma parse_enc_chars: "valid_utf8 s \<Longrightarrow> parse_chars (enc_chars s @ CHR 34 # rest) = Some (s, rest)"
proof (induction s rule: enc_chars.induct)
  case 1
  then show ?case by (simp add: parse_chars.simps)
next
  case (2 a s)
  show ?case
  proof (cases "char_code a < 128")
    case True
    then show ?thesis using 2 by (simp add: parse_esc_char)
  next
    case False
    define n where "n = utf8_len (a # s)"
    have n: "n \<noteq> 0" "valid_utf8 (drop (n - 1) s)" using "2.prems" by (auto simp: n_def)
    then have IH: "parse_chars (enc_chars (drop (n - 1) s) @ CHR 34 # rest) = Some (drop (n - 1) s, rest)"
      using "2.IH"(3) [OF False n_def] by simp
    have split: "take n (a # s) @ drop (n - 1) s = a # s" using n(1) by (cases n) auto
    have "parse_chars ((if take n (a # s) = utf8_enc 8232 then CHR 92 # ''u2028''
              else if take n (a # s) = utf8_enc 8233 then CHR 92 # ''u2029'' else take n (a # s)) @ t) =
            put (take n (a # s)) (parse_chars t)" for t
      using parse_u2028 [of t] parse_u2029 [of t] parse_utf8 [of a s n t] False n(1) n_def
      by (simp del: take_Suc_Cons append_Cons)
    then show ?thesis using False n(1) IH split by (simp add: n_def [symmetric] Let_def)
  qed
qed

subsection \<open>Numbers\<close>

text \<open>The scanner of a number literal: the integer part, the fraction and the exponent.\<close>

definition scan_int :: "string \<Rightarrow> (string \<times> string) option" where
  "scan_int s =
     (let sign = (if take 1 s = ''-'' then ''-'' else []); r = drop (length sign) s in
      case r of
        [] \<Rightarrow> None
      | c # cs \<Rightarrow> if c = CHR ''0'' then Some (sign @ ''0'', cs)
          else if is_digit c then Some (sign @ takeWhile is_digit r, dropWhile is_digit r) else None)"

definition scan_frac :: "string \<Rightarrow> (string \<times> string) option" where
  "scan_frac s =
     (if take 1 s = ''.'' then
        (let r = drop 1 s in if takeWhile is_digit r = [] then None
         else Some (''.'' @ takeWhile is_digit r, dropWhile is_digit r))
      else Some ([], s))"

definition scan_exp :: "string \<Rightarrow> (string \<times> string) option" where
  "scan_exp s =
     (if take 1 s = ''e'' \<or> take 1 s = ''E'' then
        (let e = take 1 s; sign = (if take 1 (drop 1 s) \<in> {''+'', ''-''} then take 1 (drop 1 s) else []);
             r = drop (1 + length sign) s in
         if takeWhile is_digit r = [] then None
         else Some (e @ sign @ takeWhile is_digit r, dropWhile is_digit r))
      else Some ([], s))"

definition scan_num :: "string \<Rightarrow> (string \<times> string) option" where
  "scan_num s = (case scan_int s of None \<Rightarrow> None | Some (a, s1) \<Rightarrow>
     (case scan_frac s1 of None \<Rightarrow> None | Some (b, s2) \<Rightarrow>
       (case scan_exp s2 of None \<Rightarrow> None | Some (c, s3) \<Rightarrow> Some (a @ b @ c, s3))))"

definition num_lit :: "string \<Rightarrow> bool" where
  "num_lit l \<longleftrightarrow> scan_num l = Some (l, [])"

lemma length_dropWhile_less: "takeWhile P s \<noteq> [] \<Longrightarrow> length (dropWhile P s) < length s"
  by (metis add_less_cancel_right length_append length_greater_0_conv less_add_same_cancel2 takeWhile_dropWhile_id)

lemma scan_int_shorter: "scan_int s = Some (a, r) \<Longrightarrow> length r < length s"
  using length_dropWhile_le [of is_digit "drop 1 s"] length_dropWhile_le [of is_digit "tl s"]
  by (cases s) (auto simp: scan_int_def Let_def less_Suc_eq_le split: list.splits if_splits
      intro: le_trans [OF length_dropWhile_le])

lemma scan_frac_shorter: "scan_frac s = Some (a, r) \<Longrightarrow> length r \<le> length s"
  by (cases s) (auto simp: scan_frac_def Let_def split: if_splits intro: le_trans [OF length_dropWhile_le])

lemma scan_exp_shorter: "scan_exp s = Some (a, r) \<Longrightarrow> length r \<le> length s"
  by (auto simp: scan_exp_def Let_def split: if_splits intro: le_trans [OF length_dropWhile_le])

lemma scan_num_shorter: "scan_num s = Some (a, r) \<Longrightarrow> length r < length s"
  by (auto simp: scan_num_def dest!: scan_int_shorter scan_frac_shorter scan_exp_shorter split: option.splits)

subsection \<open>Documents\<close>

definition is_ws :: "char \<Rightarrow> bool" where
  "is_ws c \<longleftrightarrow> c = CHR '' '' \<or> c = CHR 9 \<or> c = CHR 10 \<or> c = CHR 13"

definition skip_ws :: "string \<Rightarrow> string" where
  "skip_ws s = dropWhile is_ws s"

lemma skip_ws_le: "length (skip_ws s) \<le> length s"
  by (simp add: skip_ws_def length_dropWhile_le)

lemma skip_ws_Cons: "skip_ws s = c # cs \<Longrightarrow> length cs < length s"
  using skip_ws_le [of s] by simp

text \<open>A value, the members of an object and the elements of an array, each with what follows it.
  \<open>d\<close> is the number of levels that may still be opened; a comma is followed only into a shorter
  rest, which is every time.\<close>

function parse_value :: "nat \<Rightarrow> string \<Rightarrow> (json \<times> string) option"
  and parse_members :: "nat \<Rightarrow> string \<Rightarrow> ((string \<times> json) list \<times> string) option"
  and parse_elems :: "nat \<Rightarrow> string \<Rightarrow> (json list \<times> string) option"
where
  "parse_value d s =
     (case skip_ws s of
        [] \<Rightarrow> None
      | c # cs \<Rightarrow>
          if c = CHR 34 then map_option (apfst JStr) (parse_chars cs)
          else if c = CHR 123 then
            (if d = 0 then None
             else if take 1 (skip_ws cs) = [CHR 125] then Some (JObj [], drop 1 (skip_ws cs))
             else map_option (apfst JObj) (parse_members (d - 1) cs))
          else if c = CHR 91 then
            (if d = 0 then None
             else if take 1 (skip_ws cs) = [CHR 93] then Some (JArr [], drop 1 (skip_ws cs))
             else map_option (apfst JArr) (parse_elems (d - 1) cs))
          else if take 4 (c # cs) = ''true'' then Some (JBool True, drop 4 (c # cs))
          else if take 5 (c # cs) = ''false'' then Some (JBool False, drop 5 (c # cs))
          else if take 4 (c # cs) = ''null'' then Some (JNull, drop 4 (c # cs))
          else map_option (apfst JNum) (scan_num (c # cs)))"
| "parse_members d s =
     (case skip_ws s of
        [] \<Rightarrow> None
      | q # cs \<Rightarrow> if q \<noteq> CHR 34 then None
          else (case parse_chars cs of
             None \<Rightarrow> None
           | Some (k, r) \<Rightarrow>
               (case skip_ws r of
                  [] \<Rightarrow> None
                | c # r1 \<Rightarrow> if c \<noteq> CHR 58 then None
                    else (case parse_value d r1 of
                       None \<Rightarrow> None
                     | Some (v, r2) \<Rightarrow>
                         (case skip_ws r2 of
                            [] \<Rightarrow> None
                          | x # r3 \<Rightarrow> if x = CHR 125 then Some ([(k, v)], r3)
                              else if x = CHR 44 \<and> length r3 < length s
                              then map_option (apfst ((#) (k, v))) (parse_members d r3) else None)))))"
| "parse_elems d s =
     (case parse_value d s of
        None \<Rightarrow> None
      | Some (v, r) \<Rightarrow>
          (case skip_ws r of
             [] \<Rightarrow> None
           | x # r1 \<Rightarrow> if x = CHR 93 then Some ([v], r1)
               else if x = CHR 44 \<and> length r1 < length s
               then map_option (apfst ((#) v)) (parse_elems d r1) else None))"
  by pat_completeness auto
termination
  by (relation "measure (case_sum (\<lambda>(_, s). 2 * length s) (case_sum (\<lambda>(_, s). 2 * length s + 1) (\<lambda>(_, s). 2 * length s + 1)))")
    (auto dest!: skip_ws_Cons parse_chars_shorter)

declare parse_value.simps [simp del] parse_members.simps [simp del] parse_elems.simps [simp del]

text \<open>Every parser consumes something, so the guards on the rest never fail.\<close>

lemma parse_shorter:
  "parse_value d s = Some (v, r) \<Longrightarrow> length r < length s"
  "parse_members d s = Some (ms, r) \<Longrightarrow> length r < length s"
  "parse_elems d s = Some (vs, r) \<Longrightarrow> length r < length s"
proof (induction d s and d s and d s arbitrary: v r and ms r and vs r rule: parse_value_parse_members_parse_elems.induct)
  case (1 d s)
  obtain c cs where s: "skip_ws s = c # cs" using 1(3) by (cases "skip_ws s") (auto simp: parse_value.simps)
  have len: "length cs < length s" using s by (rule skip_ws_Cons)
  have "length r \<le> length cs"
  proof (cases "c = CHR 123 \<or> c = CHR 91")
    case True
    then show ?thesis using 1(3) s 1(1,2) [OF s] skip_ws_le [of cs]
      by (auto simp: parse_value.simps [of d s] split: if_splits)
  next
    case False
    then show ?thesis using 1(3) s
      by (auto simp: parse_value.simps [of d s] split: if_splits dest!: parse_chars_shorter scan_num_shorter)
  qed
  with len show ?case by simp
next
  case (2 d s)
  obtain cs k r0 r1 v r2 x r3 where eqs: "skip_ws s = CHR 34 # cs" "parse_chars cs = Some (k, r0)"
      "skip_ws r0 = CHR 58 # r1" "parse_value d r1 = Some (v, r2)" "skip_ws r2 = x # r3"
      and res: "r = r3 \<or> x \<noteq> CHR 125 \<and> x = CHR 44 \<and> length r3 < length s \<and> (\<exists>ms'. parse_members d r3 = Some (ms', r))"
    using 2(3) by (subst (asm) parse_members.simps) (auto split: list.splits option.splits if_splits)
  have "length r2 < length r1" using 2(1) eqs by simp
  then have "length r3 < length s" using eqs by (auto dest!: skip_ws_Cons parse_chars_shorter)
  moreover have "length r < length r3" if "r \<noteq> r3" using res 2(2) eqs that by auto
  ultimately show ?case by (cases "r = r3") auto
next
  case (3 d s)
  obtain v r0 x r1 where eqs: "parse_value d s = Some (v, r0)" "skip_ws r0 = x # r1"
      and res: "r = r1 \<or> x \<noteq> CHR 93 \<and> x = CHR 44 \<and> length r1 < length s \<and> (\<exists>vs'. parse_elems d r1 = Some (vs', r))"
    using 3(3) by (subst (asm) parse_elems.simps) (auto split: list.splits option.splits if_splits)
  have "length r1 < length s" using 3(1) eqs by (auto dest!: skip_ws_Cons)
  moreover have "length r < length r1" if "r \<noteq> r1" using res 3(2) eqs that by auto
  ultimately show ?case by (cases "r = r1") auto
qed

subsection \<open>Marshal and Unmarshal\<close>

text \<open>What \<open>json.Marshal\<close> writes: no white space, members in order.\<close>

fun print_json :: "json \<Rightarrow> string" where
  "print_json JNull = ''null''"
| "print_json (JBool b) = (if b then ''true'' else ''false'')"
| "print_json (JNum l) = l"
| "print_json (JStr s) = enc_string s"
| "print_json (JArr vs) = ''['' @ Join (map print_json vs) '','' @ '']''"
| "print_json (JObj ms) = [CHR 123] @ Join (map (\<lambda>(k, v). enc_string k @ '':'' @ print_json v) ms) '','' @ [CHR 125]"

definition maxNestingDepth :: nat where "maxNestingDepth = 10000"

definition parse_json :: "string \<Rightarrow> (store_error, json) result" where
  "parse_json s = (case parse_value maxNestingDepth s of
     Some (v, r) \<Rightarrow> if skip_ws r = [] then Inr v else Inl JsonSyntax
   | None \<Rightarrow> Inl JsonSyntax)"

text \<open>The documents that a program value can give: number literals, UTF-8 text, bounded nesting.\<close>

fun doc_ok :: "nat \<Rightarrow> json \<Rightarrow> bool" where
  "doc_ok d (JNum l) = num_lit l"
| "doc_ok d (JStr s) = valid_utf8 s"
| "doc_ok d (JArr vs) = (0 < d \<and> list_all (doc_ok (d - 1)) vs)"
| "doc_ok d (JObj ms) = (0 < d \<and> list_all (\<lambda>(k, v). valid_utf8 k \<and> doc_ok (d - 1) v) ms)"
| "doc_ok d _ = True"

definition num_end :: "string \<Rightarrow> bool" where
  "num_end s \<longleftrightarrow> s = [] \<or> \<not> is_digit (hd s) \<and> hd s \<noteq> CHR ''.'' \<and> hd s \<noteq> CHR ''e'' \<and> hd s \<noteq> CHR ''E''"

lemma While_append:
  assumes "t = [] \<or> \<not> P (hd t)"
  shows "takeWhile P (s @ t) = takeWhile P s" "dropWhile P (s @ t) = dropWhile P s @ t"
  using assms by (induction s) (cases t; auto)+

lemma scan_int_append: "scan_int s = Some (a, r) \<Longrightarrow> num_end t \<Longrightarrow> scan_int (s @ t) = Some (a, r @ t)"
  using While_append [of t is_digit "[]"]
  by (cases s; cases "tl s") (auto simp: scan_int_def Let_def While_append num_end_def split: if_splits)

lemma scan_frac_append: "scan_frac s = Some (a, r) \<Longrightarrow> num_end t \<Longrightarrow> scan_frac (s @ t) = Some (a, r @ t)"
  by (cases s; cases t) (auto simp: scan_frac_def Let_def While_append num_end_def split: if_splits)

lemma scan_exp_append: "scan_exp s = Some (a, r) \<Longrightarrow> num_end t \<Longrightarrow> scan_exp (s @ t) = Some (a, r @ t)"
  by (cases s; cases t; cases "tl s") (auto simp: scan_exp_def Let_def While_append num_end_def split: if_splits)

lemma scan_num_append: "scan_num s = Some (a, r) \<Longrightarrow> num_end t \<Longrightarrow> scan_num (s @ t) = Some (a, r @ t)"
  by (auto simp: scan_num_def scan_int_append scan_frac_append scan_exp_append split: option.splits)

lemma num_lit_hd: "num_lit l \<Longrightarrow> \<exists>c cs. l = c # cs \<and> (c = CHR ''-'' \<or> is_digit c)"
  by (cases l) (auto simp: num_lit_def scan_num_def scan_int_def is_digit_def char_code_def Let_def split: option.splits if_splits list.splits)

lemma print_hd: "doc_ok d v \<Longrightarrow> \<exists>c cs. print_json v = c # cs \<and> \<not> is_ws c \<and> c \<noteq> CHR 93 \<and> c \<noteq> CHR 125"
  by (cases v) (auto simp: enc_string_def is_ws_def is_digit_def char_code_def dest!: num_lit_hd)

lemma skip_ws_id [simp]: "\<not> is_ws c \<Longrightarrow> skip_ws (c # s) = c # s"
  by (simp add: skip_ws_def)

lemma skip_print [simp]: "doc_ok d v \<Longrightarrow> skip_ws (print_json v @ t) = print_json v @ t"
  using print_hd [of d v] by auto

lemma skip_marks [simp]: "skip_ws (CHR 93 # s) = CHR 93 # s" "skip_ws (CHR 125 # s) = CHR 125 # s"
  "skip_ws (CHR 44 # s) = CHR 44 # s" "skip_ws (CHR 58 # s) = CHR 58 # s" "skip_ws (CHR 34 # s) = CHR 34 # s"
  "skip_ws (CHR 123 # s) = CHR 123 # s" "skip_ws (CHR 91 # s) = CHR 91 # s"
  by (simp_all add: is_ws_def)

lemma num_end_marks [simp]: "num_end []" "num_end (CHR 93 # s)" "num_end (CHR 125 # s)" "num_end (CHR 44 # s)"
  by (simp_all add: num_end_def is_digit_def char_code_def)

lemma Join_Cons: "Join (x # xs) sep = x @ (if xs = [] then [] else sep @ Join xs sep)"
  by (cases xs) auto

lemma parse_elems_print:
  assumes "\<And>v t. v \<in> set vs \<Longrightarrow> num_end t \<Longrightarrow> parse_value d (print_json v @ t) = Some (v, t)" "vs \<noteq> []"
  shows "parse_elems d (Join (map print_json vs) '','' @ CHR 93 # rest) = Some (vs, rest)"
  using assms
proof (induction vs)
  case (Cons v vs)
  then show ?case by (subst parse_elems.simps) (auto simp: Join_Cons)
qed simp

lemma parse_members_print:
  assumes "\<And>k v t. (k, v) \<in> set ms \<Longrightarrow> num_end t \<Longrightarrow> valid_utf8 k \<and> parse_value d (print_json v @ t) = Some (v, t)"
    and "ms \<noteq> []"
  shows "parse_members d (Join (map (\<lambda>(k, v). enc_string k @ '':'' @ print_json v) ms) '','' @ CHR 125 # rest) = Some (ms, rest)"
  using assms
proof (induction ms)
  case (Cons m ms)
  obtain k v where m: "m = (k, v)" by (cases m)
  have k: "parse_chars (enc_chars k @ CHR 34 # t) = Some (k, t)" for t
    using Cons.prems(1) [of k v "[]"] m by (simp add: parse_enc_chars)
  have v: "parse_value d (print_json v @ t) = Some (v, t)" if "num_end t" for t
    using Cons.prems(1) [of k v t] m that by simp
  show ?case
  proof (cases "ms = []")
    case True
    then show ?thesis by (simp add: parse_members.simps m enc_string_def k v)
  next
    case False
    then have "parse_members d (Join (map (\<lambda>(k, v). enc_string k @ '':'' @ print_json v) ms) '','' @ CHR 125 # rest) = Some (ms, rest)"
      using Cons by auto
    with False show ?thesis by (simp add: parse_members.simps [of d "enc_string k @ _"] m Join_Cons) (simp add: enc_string_def k v)
  qed
qed simp

lemma take1_Join:
  assumes "\<And>v. v \<in> set vs \<Longrightarrow> \<exists>c cs. f v = c # cs \<and> \<not> is_ws c \<and> c \<noteq> x" "vs \<noteq> []"
  shows "take 1 (skip_ws (Join (map f vs) '','' @ t)) \<noteq> [x]"
proof -
  obtain v ws where vs: "vs = v # ws" using assms(2) by (cases vs) auto
  then obtain c cs where "f v = c # cs" "\<not> is_ws c" "c \<noteq> x" using assms(1) [of v] by auto
  with vs show ?thesis by (simp add: Join_Cons)
qed

lemma parse_print: "doc_ok d v \<Longrightarrow> num_end t \<Longrightarrow> parse_value d (print_json v @ t) = Some (v, t)"
proof (induction v arbitrary: d t)
  case (JNum l)
  then have "num_lit l" by simp
  then obtain c cs where l: "l = c # cs" "c = CHR ''-'' \<or> is_digit c" using num_lit_hd [of l] by auto
  then have "\<not> is_ws c" "c \<notin> {CHR 34, CHR 123, CHR 91, CHR ''t'', CHR ''f'', CHR ''n''}"
    by (auto simp: is_ws_def is_digit_def char_code_def)
  then show ?case using JNum l(1) scan_num_append [of l l "[]" t]
    by (simp add: parse_value.simps num_lit_def)
next
  case (JStr s)
  then show ?case by (simp add: parse_value.simps enc_string_def parse_enc_chars)
next
  case (JArr vs)
  then show ?case
  proof (cases "vs = []")
    case False
    have "take 1 (skip_ws (Join (map print_json vs) '','' @ CHR 93 # t)) \<noteq> [CHR 93]"
      by (rule take1_Join) (use JArr.prems False print_hd in \<open>fastforce simp: list_all_iff\<close>)+
    moreover have "parse_elems (d - 1) (Join (map print_json vs) '','' @ CHR 93 # t) = Some (vs, t)"
      by (rule parse_elems_print) (use JArr False in \<open>auto simp: list_all_iff\<close>)
    ultimately show ?thesis using JArr.prems False by (simp add: parse_value.simps)
  qed (simp add: parse_value.simps)
next
  case (JObj ms)
  then show ?case
  proof (cases "ms = []")
    case False
    let ?f = "\<lambda>(k, v). enc_string k @ '':'' @ print_json v"
    have "take 1 (skip_ws (Join (map ?f ms) '','' @ CHR 125 # t)) \<noteq> [CHR 125]"
      by (rule take1_Join) (use False in \<open>auto simp: enc_string_def is_ws_def\<close>)
    moreover have "parse_members (d - 1) (Join (map ?f ms) '','' @ CHR 125 # t) = Some (ms, t)"
      by (rule parse_members_print) (use JObj False in \<open>fastforce simp: list_all_iff\<close>)+
    ultimately show ?thesis using JObj.prems False by (simp add: parse_value.simps)
  qed (simp add: parse_value.simps)
qed (simp_all add: parse_value.simps is_ws_def)

text \<open>Reading back a written document gives the document.\<close>

lemma parse_json_print: "doc_ok maxNestingDepth v \<Longrightarrow> parse_json (print_json v) = Inr v"
  using parse_print [of maxNestingDepth v "[]"] by (simp add: parse_json_def skip_ws_def)

lemma parse_json_Nil [simp]: "parse_json [] = Inl JsonSyntax"
  by (simp add: parse_json_def parse_value.simps skip_ws_def)

subsection \<open>Decoding into Go values\<close>

text \<open>
  A decoder takes the document and the value the target holds before. \<open>null\<close> leaves a number, a string, a
  boolean and a struct as they are and makes a slice nil.
\<close>

type_synonym 'a decoder = "json \<Rightarrow> 'a \<Rightarrow> (store_error, 'a) result"

definition dec_int64 :: "int decoder" where
  "dec_int64 j old = (case j of JNull \<Rightarrow> Inr old
     | JNum l \<Rightarrow> (case Atoi l of Inr i \<Rightarrow> Inr i | Inl _ \<Rightarrow> Inl JsonType)
     | _ \<Rightarrow> Inl JsonType)"

definition dec_int32 :: "int decoder" where
  "dec_int32 j old = bindR (dec_int64 j old) (\<lambda>i. if j = JNull \<or> int32_range i then Inr i else Inl JsonType)"

definition dec_string :: "string decoder" where
  "dec_string j old = (case j of JNull \<Rightarrow> Inr old | JStr s \<Rightarrow> Inr s | _ \<Rightarrow> Inl JsonType)"

definition dec_bool :: "bool decoder" where
  "dec_bool j old = (case j of JNull \<Rightarrow> Inr old | JBool b \<Rightarrow> Inr b | _ \<Rightarrow> Inl JsonType)"

fun dec_list :: "'a decoder \<Rightarrow> 'a \<Rightarrow> json list \<Rightarrow> (store_error, 'a list) result" where
  "dec_list f z [] = Inr []"
| "dec_list f z (j # js) = bindR (f j z) (\<lambda>x. bindR (dec_list f z js) (\<lambda>xs. Inr (x # xs)))"

text \<open>A slice into a fresh target: \<open>None\<close> is nil, \<open>z\<close> the zero value of an element.\<close>

definition dec_slice :: "'a decoder \<Rightarrow> 'a \<Rightarrow> 'a list option decoder" where
  "dec_slice f z j old = (case j of JNull \<Rightarrow> Inr None | JArr js \<Rightarrow> map_sum id Some (dec_list f z js) | _ \<Rightarrow> Inl JsonType)"

text \<open>
  A member of an object goes to the field of the same name, or else to the field whose name is the
  same when letters are folded (the long s and the Kelvin sign fold to ASCII letters); other members are
  skipped, and a later member overwrites an earlier one.
\<close>

fun foldName :: "string \<Rightarrow> string" where
  "foldName [] = []"
| "foldName (a # s) =
     (if take 2 (a # s) = utf8_enc 383 then CHR ''S'' # foldName (drop 1 s)
      else if take 3 (a # s) = utf8_enc 8490 then CHR ''K'' # foldName (drop 2 s)
      else (if is_lower a then char_of (char_code a - 32) else a) # foldName s)"

type_synonym 'r fields = "(string \<times> 'r decoder) list"

definition field_for :: "'r fields \<Rightarrow> string \<Rightarrow> 'r decoder option" where
  "field_for fs k = (case map_of fs k of Some f \<Rightarrow> Some f
     | None \<Rightarrow> map_option snd (List.find (\<lambda>(n, _). foldName n = foldName k) fs))"

fun dec_members :: "'r fields \<Rightarrow> (string \<times> json) list \<Rightarrow> 'r \<Rightarrow> (store_error, 'r) result" where
  "dec_members fs [] r = Inr r"
| "dec_members fs ((k, j) # ms) r =
     bindR (case field_for fs k of None \<Rightarrow> Inr r | Some f \<Rightarrow> f j r) (dec_members fs ms)"

definition dec_struct :: "'r fields \<Rightarrow> 'r decoder" where
  "dec_struct fs j r = (case j of JNull \<Rightarrow> Inr r | JObj ms \<Rightarrow> dec_members fs ms r | _ \<Rightarrow> Inl JsonType)"

definition fld :: "('r \<Rightarrow> 'a) \<Rightarrow> (('a \<Rightarrow> 'a) \<Rightarrow> 'r \<Rightarrow> 'r) \<Rightarrow> 'a decoder \<Rightarrow> 'r decoder" where
  "fld get upd f j r = bindR (f j (get r)) (\<lambda>x. Inr (upd (\<lambda>_. x) r))"

definition Unmarshal :: "'a decoder \<Rightarrow> string \<Rightarrow> 'a \<Rightarrow> (store_error, 'a) result" where
  "Unmarshal f s x = bindR (parse_json s) (\<lambda>j. f j x)"

lemma Unmarshal_print: "doc_ok maxNestingDepth v \<Longrightarrow> Unmarshal f (print_json v) x = f v x"
  by (simp add: Unmarshal_def parse_json_print)

lemma Unmarshal_Nil [simp]: "Unmarshal f [] x = Inl JsonSyntax"
  by (simp add: Unmarshal_def)

lemma field_for_exact: "map_of fs k = Some f \<Longrightarrow> field_for fs k = Some f"
  by (simp add: field_for_def)

subsection \<open>Encoding Go values\<close>

abbreviation json_int :: "int \<Rightarrow> json" where
  "json_int i \<equiv> JNum (show_int i)"

definition enc_slice :: "('a \<Rightarrow> json) \<Rightarrow> 'a list option \<Rightarrow> json" where
  "enc_slice f xs = (case xs of None \<Rightarrow> JNull | Some ys \<Rightarrow> JArr (map f ys))"

lemma show_nat_0 [simp]: "show_nat 0 = ''0''"
  by code_simp

lemma digit_char_nz: "0 < d \<Longrightarrow> d < 10 \<Longrightarrow> digit_char d \<noteq> CHR ''0''"
  using digit_char_code [of d] by (auto simp: char_code_def)

lemma show_nat_hd: "0 < n \<Longrightarrow> \<exists>c cs. show_nat n = c # cs \<and> c \<noteq> CHR ''0'' \<and> is_digit c"
proof (induction n rule: show_nat.induct)
  case (1 n)
  show ?case
  proof (cases "n < 10")
    case True
    then show ?thesis using 1(2) digit_char_nz by (subst show_nat.simps) simp
  next
    case False
    then have "0 < n div 10" by simp
    with 1(1) [OF False] show ?thesis by (subst show_nat.simps) (use False in auto)
  qed
qed

lemma digits_run: "list_all is_digit s \<Longrightarrow> takeWhile is_digit s = s \<and> dropWhile is_digit s = []"
  by (simp add: list_all_iff)

lemma num_lit_show_nat: "num_lit (show_nat n)" "num_lit (CHR ''-'' # show_nat n)"
proof -
  have "scan_int (show_nat n) = Some (show_nat n, []) \<and> scan_int (CHR ''-'' # show_nat n) = Some (CHR ''-'' # show_nat n, [])"
  proof (cases "n = 0")
    case False
    then obtain c cs where c: "show_nat n = c # cs" "c \<noteq> CHR ''0''" "is_digit c" using show_nat_hd by blast
    then have "c \<noteq> CHR ''-''" by (auto simp: is_digit_def char_code_def)
    then show ?thesis using c digits_run [OF show_nat_digits [of n]] by (simp add: scan_int_def Let_def)
  qed (simp add: scan_int_def)
  then show "num_lit (show_nat n)" "num_lit (CHR ''-'' # show_nat n)"
    by (simp_all add: num_lit_def scan_num_def scan_frac_def scan_exp_def)
qed

lemma num_lit_show_int [simp]: "num_lit (show_int i)"
  by (simp add: show_int_def num_lit_show_nat)

lemma Atoi_show_int:
  assumes "int64_range i"
  shows "Atoi (show_int i) = Inr i"
proof -
  have ds: "list_all is_digit (show_nat n) \<and> show_nat n \<noteq> []" for n using show_nat_digits by simp
  obtain c cs where c: "show_nat (nat i) = c # cs" by (cases "show_nat (nat i)") auto
  have "is_digit c" using show_nat_digits [of "nat i"] c by simp
  then have "c \<noteq> CHR ''-''" "c \<noteq> CHR ''+''" by (auto simp: is_digit_def char_code_def)
  then show ?thesis using assms ds digits_val_show_nat [of "nat i"] digits_val_show_nat [of "nat (- i)"] show_nat_digits [of "nat i"]
    by (auto simp: show_int_def Atoi_def Let_def c int64_range_def)
qed

lemma dec_int64_show [simp]: "int64_range i \<Longrightarrow> dec_int64 (json_int i) x = Inr i"
  by (simp add: dec_int64_def Atoi_show_int)

lemma dec_string_JStr [simp]: "dec_string (JStr s) x = Inr s"
  by (simp add: dec_string_def)

lemma dec_bool_JBool [simp]: "dec_bool (JBool b) x = Inr b"
  by (simp add: dec_bool_def)

lemma dec_list_map: "(\<And>x. x \<in> set xs \<Longrightarrow> f (g x) z = Inr x) \<Longrightarrow> dec_list f z (map g xs) = Inr xs"
  by (induction xs) auto

lemma dec_slice_enc:
  "(\<And>x ys. xs = Some ys \<Longrightarrow> x \<in> set ys \<Longrightarrow> f (g x) z = Inr x) \<Longrightarrow> dec_slice f z (enc_slice g xs) old = Inr xs"
  by (auto simp: dec_slice_def enc_slice_def dec_list_map split: option.split)

end
