(* ===== verification/Handlers.thy ===== *)
theory Handlers
  imports Scheduler Grab Importer Go_Json
begin

section \<open>Command handlers for downloads\<close>

text \<open>
  internal/commands/handlers: \<open>CleanupHandler\<close>, \<open>ProcessDownloadHandler\<close>, \<open>ScanSeriesFolderHandler\<close> and
  \<open>RefreshMonitoredDownloadsHandler\<close>. The last polls the download clients and enqueues, for every
  completed item that was grabbed before, the command that the second one runs; the two agree on the
  JSON body of that command. The locale \<open>polling\<close> proves what a poll adds to the queue from the
  contracts of the client store, the history and the queue.
\<close>

subsection \<open>cleanup.go, process_download.go, scan_series.go\<close>

definition seven_days :: int where "seven_days = 7 * 24 * 3600 * 1000000000"

definition Cleanup_Handle :: "'s Queue \<Rightarrow> dbenv \<Rightarrow> ('s, unit) act" where
  "Cleanup_Handle q e = mapA (\<lambda>_. ()) (q_DeleteOldCompleted q e (env_now e - seven_days))"

record process_body =
  pb_DownloadFolder :: string
  pb_SeriesID :: int
  pb_DownloadID :: string

definition process_fields :: "process_body fields" where
  "process_fields =
     [(''downloadFolder'', fld pb_DownloadFolder pb_DownloadFolder_update dec_string),
      (''seriesId'', fld pb_SeriesID pb_SeriesID_update dec_int64),
      (''downloadId'', fld pb_DownloadID pb_DownloadID_update dec_string)]"

definition zero_process_body :: process_body where
  "zero_process_body = \<lparr>pb_DownloadFolder = [], pb_SeriesID = 0, pb_DownloadID = []\<rparr>"

definition ProcessDownload_Handle :: "fsenv \<Rightarrow> 's ImportStores \<Rightarrow> Command \<Rightarrow> ('s \<times> fs, unit) act" where
  "ProcessDownload_Handle v st cmd =
     (case Unmarshal (dec_struct process_fields) (bytes_of (cmd_Body cmd)) zero_process_body of
        Inl err \<Rightarrow> failA (Wrap ''parse body'' err)
      | Inr body \<Rightarrow> ProcessFolder v st (pb_DownloadFolder body) (pb_SeriesID body) (pb_DownloadID body))"

text \<open>The body of the commands about one series.\<close>

definition series_fields :: "int fields" where
  "series_fields = [(''seriesId'', dec_int64)]"

definition series_body :: "Command \<Rightarrow> (store_error, int) result" where
  "series_body cmd = Unmarshal (dec_struct series_fields) (bytes_of (cmd_Body cmd)) 0"

definition ScanSeries_Handle :: "fsenv \<Rightarrow> 's ImportStores \<Rightarrow> Command \<Rightarrow> ('s \<times> fs, unit) act" where
  "ScanSeries_Handle v st cmd =
     (case series_body cmd of
        Inl err \<Rightarrow> failA (Wrap ''parse body'' err)
      | Inr seriesID \<Rightarrow>
          bindA (wrapA ''get series'' (on_store (im_SeriesGet st seriesID)))
            (\<lambda>series. ProcessFolder v st (se_Path series) (se_ID series) ''''))"

subsection \<open>refresh_downloads.go\<close>

record 's RefreshStores =
  rf_ClientsList :: "('s, DownloadClientInstance list) act"
  rf_Registry :: "'s DownloadClientImpl ProviderRegistry"
  rf_FindByDownloadID :: "string \<Rightarrow> ('s, Entry list) act"
  rf_FindDuplicate :: "string \<Rightarrow> ('s, int \<times> bool) act"
  rf_Enqueue :: "string \<Rightarrow> RawMessage \<Rightarrow> Priority \<Rightarrow> Trigger \<Rightarrow> string \<Rightarrow> ('s, Command) act"

definition download_key :: "string \<Rightarrow> string" where
  "download_key i = ''ProcessDownload:'' @ i"

definition download_doc :: "DownloadItem \<Rightarrow> int \<Rightarrow> json" where
  "download_doc item seriesID = JObj [(''downloadFolder'', JStr (dl_OutputPath item)),
     (''seriesId'', json_int seriesID), (''downloadId'', JStr (dl_DownloadID item))]"

definition refresh_item :: "'s RefreshStores \<Rightarrow> DownloadItem \<Rightarrow> 's \<Rightarrow> 's" where
  "refresh_item st item s =
     (if dl_Status item \<noteq> ''completed'' then s
      else (case rf_FindByDownloadID st (dl_DownloadID item) s of
          (Inl _, s1) \<Rightarrow> s1
        | (Inr [], s1) \<Rightarrow> s1
        | (Inr (entry # _), s1) \<Rightarrow>
            (case rf_FindDuplicate st (download_key (dl_DownloadID item)) s1 of
               (Inl _, s2) \<Rightarrow> s2
             | (Inr (_, found), s2) \<Rightarrow>
                 if found then s2
                 else snd (rf_Enqueue st ''ProcessDownload'' (Some (print_json (download_doc item (he_SeriesID entry))))
                        PriorityNormal TriggerScheduled (download_key (dl_DownloadID item)) s2))))"

definition refresh_client :: "'s RefreshStores \<Rightarrow> DownloadClientInstance \<Rightarrow> 's \<Rightarrow> 's" where
  "refresh_client st inst s =
     (if \<not> di_Enable inst then s
      else (case Provider_Get (rf_Registry st) (di_Implementation inst) of
          Inl _ \<Rightarrow> s
        | Inr dc \<Rightarrow>
            (case overlay_settings (dc_Unmarshal dc) (di_Settings inst) of
               Inl _ \<Rightarrow> s
             | Inr settings \<Rightarrow>
                 (case dc_Items dc settings s of
                    (Inl _, s1) \<Rightarrow> s1
                  | (Inr items, s1) \<Rightarrow> fold (refresh_item st) items s1))))"

definition RefreshDownloads_Handle :: "'s RefreshStores \<Rightarrow> ('s, unit) act" where
  "RefreshDownloads_Handle st =
     bindA (wrapA ''refresh_downloads: list instances'' (rf_ClientsList st))
       (\<lambda>instances s. (Inr (), fold (refresh_client st) instances s))"

text \<open>The handler over a client store, a history, a queue and the world its clients act on.\<close>

record ('c, 'h, 'q, 'w) refresh_state =
  rd_clients :: 'c
  rd_history :: 'h
  rd_queue :: 'q
  rd_outside :: 'w

definition impl_polled :: "'w DownloadClientImpl \<Rightarrow> ('c, 'h, 'q, 'w) refresh_state DownloadClientImpl" where
  "impl_polled dc = \<lparr>dc_Protocol = dc_Protocol dc, dc_Unmarshal = dc_Unmarshal dc,
     dc_Add = (\<lambda>set url title s. let (r, w) = dc_Add dc set url title (rd_outside s) in (r, s\<lparr>rd_outside := w\<rparr>)),
     dc_Items = (\<lambda>set s. let (r, w) = dc_Items dc set (rd_outside s) in (r, s\<lparr>rd_outside := w\<rparr>))\<rparr>"

definition refresh_service ::
  "('c, DownloadClientInstance) InstanceStore \<Rightarrow> 'h HistoryStore \<Rightarrow> 'q Queue \<Rightarrow> 'w DownloadClientImpl ProviderRegistry \<Rightarrow>
     dbenv \<Rightarrow> ('c, 'h, 'q, 'w) refresh_state RefreshStores" where
  "refresh_service st h q reg e = \<lparr>
     rf_ClientsList = (\<lambda>s. let (r, c) = is_List st e (rd_clients s) in (r, s\<lparr>rd_clients := c\<rparr>)),
     rf_Registry = (\<lambda>n. map_option impl_polled (reg n)),
     rf_FindByDownloadID = (\<lambda>i s. let (r, x) = hs_FindByDownloadID h e i (rd_history s) in (r, s\<lparr>rd_history := x\<rparr>)),
     rf_FindDuplicate = (\<lambda>k s. let (r, x) = q_FindDuplicate q e k (rd_queue s) in (r, s\<lparr>rd_queue := x\<rparr>)),
     rf_Enqueue = (\<lambda>n b p t k s. let (r, x) = q_Enqueue q e n b p t k (rd_queue s) in (r, s\<lparr>rd_queue := x\<rparr>))\<rparr>"

subsection \<open>What a poll adds to the queue\<close>

text \<open>The items the enabled clients report, client by client; a client that is unknown, has settings that
  do not decode or fails to answer reports nothing.\<close>

definition poll_client :: "'w DownloadClientImpl ProviderRegistry \<Rightarrow> DownloadClientInstance \<Rightarrow> 'w \<Rightarrow> DownloadItem list \<times> 'w" where
  "poll_client reg inst w =
     (if \<not> di_Enable inst then ([], w)
      else (case reg (di_Implementation inst) of
          None \<Rightarrow> ([], w)
        | Some dc \<Rightarrow>
            (case overlay_settings (dc_Unmarshal dc) (di_Settings inst) of
               Inl _ \<Rightarrow> ([], w)
             | Inr settings \<Rightarrow>
                 (case dc_Items dc settings w of (Inl _, w1) \<Rightarrow> ([], w1) | (Inr items, w1) \<Rightarrow> (items, w1)))))"

fun polled :: "'w DownloadClientImpl ProviderRegistry \<Rightarrow> DownloadClientInstance list \<Rightarrow> 'w \<Rightarrow> DownloadItem list \<times> 'w" where
  "polled reg [] w = ([], w)"
| "polled reg (inst # insts) w =
     (case poll_client reg inst w of (xs, w1) \<Rightarrow> (case polled reg insts w1 of (ys, w2) \<Rightarrow> (xs @ ys, w2)))"

text \<open>An item that is complete and was recorded in the history, and the newest record of a download.\<close>

definition wanted :: "(int \<Rightarrow> Entry option) \<Rightarrow> DownloadItem \<Rightarrow> bool" where
  "wanted hv item \<longleftrightarrow> dl_Status item = ''completed'' \<and> (\<exists>j y. hv j = Some y \<and> he_DownloadID y = dl_DownloadID item)"

definition newest_grab :: "(int \<Rightarrow> Entry option) \<Rightarrow> string \<Rightarrow> Entry \<Rightarrow> bool" where
  "newest_grab hv k y \<longleftrightarrow> hv (he_ID y) = Some y \<and> he_DownloadID y = k \<and>
     (\<forall>j z. hv j = Some z \<longrightarrow> he_DownloadID z = k \<longrightarrow> he_Date z \<le> he_Date y)"

definition download_command :: "DownloadItem \<Rightarrow> int \<Rightarrow> int \<Rightarrow> int \<Rightarrow> Command" where
  "download_command item sid t i = fresh_command i ''ProcessDownload'' (Some (print_json (download_doc item sid)))
     PriorityNormal TriggerScheduled (download_key (dl_DownloadID item)) t"

definition queues_item ::
  "(int \<Rightarrow> Entry option) \<Rightarrow> int \<Rightarrow> DownloadItem \<Rightarrow> (int \<Rightarrow> Command option) \<Rightarrow> (int \<Rightarrow> Command option) \<Rightarrow> bool" where
  "queues_item hv t item v v' \<longleftrightarrow>
     (if wanted hv item \<and> \<not> has_active v (download_key (dl_DownloadID item))
      then \<exists>i y. newest_grab hv (dl_DownloadID item) y \<and> v i = None \<and> v' = v(i \<mapsto> download_command item (he_SeriesID y) t i)
      else v' = v)"

fun queues ::
  "(int \<Rightarrow> Entry option) \<Rightarrow> int \<Rightarrow> DownloadItem list \<Rightarrow> (int \<Rightarrow> Command option) \<Rightarrow> (int \<Rightarrow> Command option) \<Rightarrow> bool" where
  "queues hv t [] v v' \<longleftrightarrow> v' = v"
| "queues hv t (x # xs) v v' \<longleftrightarrow> (\<exists>v1. queues_item hv t x v v1 \<and> queues hv t xs v1 v')"

lemma queues_append: "queues hv t (xs @ ys) v v' \<longleftrightarrow> (\<exists>v1. queues hv t xs v v1 \<and> queues hv t ys v1 v')"
  by (induction xs arbitrary: v) auto

lemma download_key_inject [simp]: "download_key a = download_key b \<longleftrightarrow> a = b"
  by (simp add: download_key_def)

lemma download_command_simps [simp]: "cmd_DedupKey (download_command item sid t i) = download_key (dl_DownloadID item)"
  "cmd_Body (download_command item sid t i) = Some (print_json (download_doc item sid))"
  by (simp_all add: download_command_def fresh_command_def)

lemma has_active_download:
  "v i = None \<Longrightarrow> has_active (v(i \<mapsto> download_command item sid t i)) k \<longleftrightarrow> k = download_key (dl_DownloadID item) \<or> has_active v k"
  by (simp add: download_command_def has_active_new)

lemma queues_item_keeps:
  assumes "queues_item hv t x v v'"
  shows "v j = Some c \<Longrightarrow> v' j = Some c" and "has_active v k \<Longrightarrow> has_active v' k"
    and "wanted hv x \<Longrightarrow> has_active v' (download_key (dl_DownloadID x))"
    and "has_active v k \<Longrightarrow> v' j = Some c \<Longrightarrow> cmd_DedupKey c = k \<Longrightarrow> v j = Some c"
  using assms by (auto simp: queues_item_def has_active_download split: if_splits)

lemma queues_keeps: "queues hv t xs v v' \<Longrightarrow> v j = Some c \<Longrightarrow> v' j = Some c"
  by (induction xs arbitrary: v) (auto dest: queues_item_keeps(1))

lemma queues_active: "queues hv t xs v v' \<Longrightarrow> has_active v k \<Longrightarrow> has_active v' k"
  by (induction xs arbitrary: v) (auto dest: queues_item_keeps(2))

lemma queues_wanted:
  "queues hv t xs v v' \<Longrightarrow> x \<in> set xs \<Longrightarrow> wanted hv x \<Longrightarrow> has_active v' (download_key (dl_DownloadID x))"
  by (induction xs arbitrary: v) (auto dest: queues_item_keeps(3) queues_active)

lemma queues_no_more:
  "queues hv t xs v v' \<Longrightarrow> has_active v (cmd_DedupKey c) \<Longrightarrow> v' j = Some c \<Longrightarrow> v j = Some c"
proof (induction xs arbitrary: v)
  case (Cons y xs)
  then obtain v1 where v1: "queues_item hv t y v v1" "queues hv t xs v1 v'" by auto
  from Cons.IH [OF v1(2) queues_item_keeps(2) [OF v1(1) Cons.prems(2)] Cons.prems(3)]
  show ?case using queues_item_keeps(4) [OF v1(1) Cons.prems(2)] by simp
qed simp

text \<open>The commands that are new after a poll.\<close>

lemma queues_new:
  assumes "queues hv t xs v v'" "v j = None" "v' j = Some c"
  shows "\<exists>item y. item \<in> set xs \<and> wanted hv item \<and> newest_grab hv (dl_DownloadID item) y
    \<and> \<not> has_active v (download_key (dl_DownloadID item)) \<and> c = download_command item (he_SeriesID y) t j"
  using assms(1,2)
proof (induction xs arbitrary: v)
  case Nil
  then show ?case using assms(3) by simp
next
  case (Cons x xs)
  then obtain v1 where v1: "queues_item hv t x v v1" "queues hv t xs v1 v'" by auto
  show ?case
  proof (cases "v1 j")
    case None
    from Cons.IH [OF v1(2) None] queues_item_keeps(2) [OF v1(1)] show ?thesis by fastforce
  next
    case (Some b)
    with queues_keeps [OF v1(2)] assms(3) have "b = c" by fastforce
    with Some v1(1) Cons.prems(2) show ?thesis
      by (fastforce simp: queues_item_def split: if_splits)
  qed
qed

lemma queues_distinct:
  assumes "queues hv t xs v v'" "v j = None" "v k = None" "v' j = Some c" "v' k = Some b" "cmd_DedupKey c = cmd_DedupKey b"
  shows "j = k"
  using assms(1-3)
proof (induction xs arbitrary: v)
  case Nil
  then show ?case using assms(4) by simp
next
  case (Cons x xs)
  then obtain v1 where v1: "queues_item hv t x v v1" "queues hv t xs v1 v'" by auto
  have other: "v1 m = None" if "v1 l = Some a" "v l = None" "v m = None" "m \<noteq> l" for l m a
    using v1(1) that by (auto simp: queues_item_def split: if_splits)
  have act: "has_active v1 (cmd_DedupKey a)" if "v1 l = Some a" "v l = None" for l a
    using v1(1) that by (auto simp: queues_item_def has_active_download split: if_splits)
  show ?case
  proof (cases "v1 j = None \<and> v1 k = None")
    case True
    then show ?thesis using Cons.IH [OF v1(2)] by simp
  next
    case False
    then show ?thesis
      using other act queues_keeps [OF v1(2)] queues_no_more [OF v1(2)] Cons.prems(2,3) assms(4-6)
      by (metis option.distinct(1) option.exhaust option.inject)
  qed
qed

lemma lists_newest:
  assumes "lists_entries hv (\<lambda>y. he_DownloadID y = k) s (y # ys)" "\<And>j z. hv s j = Some z \<Longrightarrow> he_ID z = j"
  shows "newest_grab (hv s) k y"
  unfolding newest_grab_def
proof (intro conjI allI impI)
  show "hv s (he_ID y) = Some y" "he_DownloadID y = k" using assms(1) by (auto simp: lists_entries_def)
  fix j z assume "hv s j = Some z" "he_DownloadID z = k"
  then have "z \<in> set (y # ys)" using assms by (simp add: lists_entries_def)
  then show "he_Date z \<le> he_Date y" using assms(1) by (auto simp: lists_entries_def)
qed

lemma lists_none: "lists_entries hv p s [] \<Longrightarrow> (\<And>j z. hv s j = Some z \<Longrightarrow> he_ID z = j) \<Longrightarrow> hv s j = Some z \<Longrightarrow> \<not> p z"
  by (auto simp: lists_entries_def)

locale polling = clients: crud_store st cinv shelf sp + hist: history_store h hinv hview hgran kept
    + queue: command_queue q inv view gran res_ok res_of
  for st :: "('c, DownloadClientInstance) InstanceStore" and cinv shelf sp
    and h :: "'h HistoryStore" and hinv hview hgran kept
    and q :: "'q Queue" and inv view gran res_ok res_of +
  assumes takes_docs: "res_ok (Some (print_json v))" and keeps_docs: "res_of (Some (print_json v)) = Some (print_json v)"
begin

lemma item_ok:
  assumes "hinv (rd_history s)" "inv (rd_queue s)" "quiet e" "s' = refresh_item (refresh_service st h q reg e) item s"
  shows "rd_clients s' = rd_clients s \<and> rd_history s' = rd_history s \<and> rd_outside s' = rd_outside s \<and> inv (rd_queue s') \<and>
    queues_item (hview (rd_history s)) (gran (env_now e)) item (view (rd_queue s)) (view (rd_queue s'))"
proof (cases "dl_Status item = ''completed''")
  case False
  then show ?thesis using assms by (simp add: refresh_item_def queues_item_def wanted_def)
next
  case True
  let ?k = "download_key (dl_DownloadID item)"
  obtain rl x where f: "hs_FindByDownloadID h e (dl_DownloadID item) (rd_history s) = (rl, x)"
    by (cases "hs_FindByDownloadID h e (dl_DownloadID item) (rd_history s)")
  from hist.download_ok [OF assms(1,3) f] obtain ys where ys: "x = rd_history s" "rl = Inr ys"
    "lists_entries hview (\<lambda>y. he_DownloadID y = dl_DownloadID item) (rd_history s) ys" by auto
  note ids = hist.view_id [OF assms(1)]
  show ?thesis
  proof (cases ys)
    case Nil
    then have "\<not> wanted (hview (rd_history s)) item" using lists_none [OF ys(3) [unfolded Nil] ids] by (auto simp: wanted_def)
    then show ?thesis using assms True f ys Nil by (simp add: refresh_item_def refresh_service_def queues_item_def)
  next
    case (Cons y zs)
    have new: "newest_grab (hview (rd_history s)) (dl_DownloadID item) y"
      using lists_newest [OF ys(3) [unfolded Cons] ids] .
    then have w: "wanted (hview (rd_history s)) item" using True by (auto simp: wanted_def newest_grab_def)
    obtain rf x2 where d: "q_FindDuplicate q e ?k (rd_queue s) = (rf, x2)" by (cases "q_FindDuplicate q e ?k (rd_queue s)")
    from queue.find_dup_ok [OF assms(2,3) d] obtain i b where b: "x2 = rd_queue s" "rf = Inr (i, b)"
      "b \<longleftrightarrow> has_active (view (rd_queue s)) ?k" unfolding has_active_iff by (metis (no_types, lifting))
    obtain rg x3 where g: "q_Enqueue q e ''ProcessDownload'' (Some (print_json (download_doc item (he_SeriesID y))))
        PriorityNormal TriggerScheduled ?k (rd_queue s) = (rg, x3)" by (cases "q_Enqueue q e ''ProcessDownload''
        (Some (print_json (download_doc item (he_SeriesID y)))) PriorityNormal TriggerScheduled ?k (rd_queue s)")
    have "inv x3 \<and> (\<exists>i. view (rd_queue s) i = None \<and>
        view x3 = (view (rd_queue s))(i \<mapsto> download_command item (he_SeriesID y) (gran (env_now e)) i))"
      using queue.enqueue_ok [OF assms(2,3) takes_docs _ g] by (auto simp: keeps_docs download_command_def)
    then show ?thesis using assms True f ys Cons d b g new w
      by (auto simp: refresh_item_def refresh_service_def queues_item_def)
  qed
qed

lemma items_ok:
  assumes "hinv (rd_history s)" "inv (rd_queue s)" "quiet e" "s' = fold (refresh_item (refresh_service st h q reg e)) items s"
  shows "rd_clients s' = rd_clients s \<and> rd_history s' = rd_history s \<and> rd_outside s' = rd_outside s \<and> inv (rd_queue s') \<and>
    queues (hview (rd_history s)) (gran (env_now e)) items (view (rd_queue s)) (view (rd_queue s'))"
  using assms(1,2,4)
proof (induction items arbitrary: s)
  case (Cons item items)
  let ?t = "refresh_item (refresh_service st h q reg e) item s"
  have t: "rd_clients ?t = rd_clients s" "rd_history ?t = rd_history s" "rd_outside ?t = rd_outside s" "inv (rd_queue ?t)"
    "queues_item (hview (rd_history s)) (gran (env_now e)) item (view (rd_queue s)) (view (rd_queue ?t))"
    using item_ok [OF Cons.prems(1,2) assms(3) refl, of reg item] by simp_all
  from Cons.IH [of ?t] Cons.prems(1,3) t show ?case by auto
qed simp

lemma clients_ok:
  assumes "hinv (rd_history s)" "inv (rd_queue s)" "quiet e" "s' = fold (refresh_client (refresh_service st h q reg e)) insts s"
    and "polled reg insts (rd_outside s) = (items, w)"
  shows "rd_clients s' = rd_clients s \<and> rd_history s' = rd_history s \<and> rd_outside s' = w \<and> inv (rd_queue s') \<and>
    queues (hview (rd_history s)) (gran (env_now e)) items (view (rd_queue s)) (view (rd_queue s'))"
  using assms(1,2,4,5)
proof (induction insts arbitrary: s items)
  case (Cons inst insts)
  let ?t = "refresh_client (refresh_service st h q reg e) inst s"
  obtain xs w1 where p: "poll_client reg inst (rd_outside s) = (xs, w1)" by (cases "poll_client reg inst (rd_outside s)")
  obtain ys w2 where p2: "polled reg insts w1 = (ys, w2)" by (cases "polled reg insts w1")
  have eq: "items = xs @ ys" "w = w2" using Cons.prems(4) p p2 by simp_all
  have "?t = fold (refresh_item (refresh_service st h q reg e)) xs (s\<lparr>rd_outside := w1\<rparr>)"
    using p by (auto simp: refresh_client_def poll_client_def refresh_service_def [of st h q reg e] Provider_Get_def impl_polled_def
        split: if_splits option.splits sum.splits prod.splits)
  from items_ok [OF _ _ assms(3) this] Cons.prems(1,2) have t: "rd_clients ?t = rd_clients s" "rd_history ?t = rd_history s"
    "rd_outside ?t = w1" "inv (rd_queue ?t)"
    "queues (hview (rd_history s)) (gran (env_now e)) xs (view (rd_queue s)) (view (rd_queue ?t))" by simp_all
  from Cons.IH [of ?t ys] Cons.prems(1,3) t p2 eq show ?case by (auto simp: queues_append)
qed simp

lemma poll_ok:
  assumes "cinv (rd_clients s)" "hinv (rd_history s)" "inv (rd_queue s)" "quiet e"
    and "RefreshDownloads_Handle (refresh_service st h q reg e) s = (r, s')"
    and "polled reg (sort_key (cs_order sp) (sh_items (shelf (rd_clients s)))) (rd_outside s) = (items, w)"
  shows "r = Inr () \<and> cinv (rd_clients s') \<and> shelf (rd_clients s') = shelf (rd_clients s) \<and> rd_history s' = rd_history s \<and>
    rd_outside s' = w \<and> inv (rd_queue s') \<and>
    queues (hview (rd_history s)) (gran (env_now e)) items (view (rd_queue s)) (view (rd_queue s'))"
proof -
  obtain l c where l: "is_List st e (rd_clients s) = (l, c)" by (cases "is_List st e (rd_clients s)")
  have "store_do st e OpList (rd_clients s) = (out_of Items l, c)" using l by simp
  from clients.call_refines [OF assms(1,4) this] have c: "cinv c" "shelf c = shelf (rd_clients s)"
    "out_of Items l = Items (sort_key (cs_order sp) (sh_items (shelf (rd_clients s))))" by auto
  then have ll: "l = Inr (sort_key (cs_order sp) (sh_items (shelf (rd_clients s))))"
    by (auto simp: out_of_def split: sum.splits store_error.splits)
  have "r = Inr ()" "s' = fold (refresh_client (refresh_service st h q reg e))
      (sort_key (cs_order sp) (sh_items (shelf (rd_clients s)))) (s\<lparr>rd_clients := c\<rparr>)"
    using assms(5) l ll by (simp_all add: RefreshDownloads_Handle_def bindA_def wrapA_def refresh_service_def)
  with clients_ok [OF _ _ assms(4) this(2)] assms(2,3,6) c show ?thesis by simp
qed

end

interpretation sqpoll: polling sqliteDownloadClients "wf_table dq_ID" "table_shelf downloadclient_FromSQLite"
  "downloadclient_spec sq_gran (\<lambda>i. i) Some (\<lambda>n. n)"
  sqliteHistory "wf_table hq_ID" sqliteHistory_view sq_gran "\<lambda>d. Some (historyDataSQLite d)"
  sqliteQueue "wf_table sc_ID" "rows_view sc_ID commandFromSqlite" sq_gran "\<lambda>_. True" "\<lambda>b. Some (bytes_of b)"
  by unfold_locales (simp_all add: bytes_of_def)

subsection \<open>The two ends of a ProcessDownload command\<close>

lemma process_body_decodes:
  assumes "valid_utf8 (dl_OutputPath item)" "valid_utf8 (dl_DownloadID item)" "int64_range sid"
  shows "Unmarshal (dec_struct process_fields) (print_json (download_doc item sid)) zero_process_body =
    Inr \<lparr>pb_DownloadFolder = dl_OutputPath item, pb_SeriesID = sid, pb_DownloadID = dl_DownloadID item\<rparr>"
proof -
  have "valid_utf8 ''downloadFolder''" "valid_utf8 ''seriesId''" "valid_utf8 ''downloadId''"
    by (rule valid_utf8_ascii, simp add: char_code_def)+
  then have "doc_ok maxNestingDepth (download_doc item sid)" using assms by (simp add: download_doc_def maxNestingDepth_def)
  then show ?thesis
    by (simp add: Unmarshal_print)
      (simp add: download_doc_def dec_struct_def process_fields_def field_for_def fld_def zero_process_body_def assms(3))
qed

lemma process_download_runs:
  assumes "valid_utf8 (dl_OutputPath item)" "valid_utf8 (dl_DownloadID item)" "int64_range sid"
  shows "ProcessDownload_Handle v st (download_command item sid t i) = ProcessFolder v st (dl_OutputPath item) sid (dl_DownloadID item)"
  using process_body_decodes [OF assms] by (simp add: ProcessDownload_Handle_def bytes_of_def)

text \<open>The weekly clean-up of the queue drops the commands that ended more than seven days ago.\<close>

lemma sqlite_cleanup:
  assumes "wf_table sc_ID s" "quiet e" "Cleanup_Handle sqliteQueue e s = (r, s')"
  shows "wf_table sc_ID s' \<and> sq_view s' i = (case sq_view s i of None \<Rightarrow> None
    | Some c \<Rightarrow> if ended_before (sq_gran (env_now e - seven_days)) c then None else Some c)"
proof -
  obtain n where "q_DeleteOldCompleted sqliteQueue e (env_now e - seven_days) s = (n, s')"
    using assms(3) by (auto simp: Cleanup_Handle_def mapA_def split: prod.splits sum.splits)
  from sqlite.delete_old_ok [OF assms(1,2) this] show ?thesis by simp
qed

subsection \<open>Properties\<close>

text \<open>C20: One poll of the download clients on SQLite, when no statement fails. Every command that was in
  the queue stays as it is. Every completed item that has a history entry has an active ProcessDownload
  command afterwards, and an item without one, or whose command is still active, adds none: the new
  commands carry different keys, and each was enqueued for a reported item that had no active
  command, with the folder of the item and the series of its newest history entry. When the worker
  takes such a command, the handler reads back these three values and imports that folder. A command that
  has ended does not count as active, so an item the client keeps reporting is imported again after
  each run.\<close>

theorem refresh_downloads_sqlite:
  assumes "wf_table dq_ID (rd_clients s)" "wf_table hq_ID (rd_history s)" "wf_table sc_ID (rd_queue s)" "quiet e"
    and "RefreshDownloads_Handle (refresh_service sqliteDownloadClients sqliteHistory sqliteQueue reg e) s = (r, s')"
    and "polled reg (listed_clients (rd_clients s)) (rd_outside s) = (items, w)"
  shows "r = Inr () \<and> rd_history s' = rd_history s \<and> sq_view (rd_queue s) \<subseteq>\<^sub>m sq_view (rd_queue s') \<and>
    (\<forall>item\<in>set items. wanted (sqliteHistory_view (rd_history s)) item \<longrightarrow>
       has_active (sq_view (rd_queue s')) (download_key (dl_DownloadID item))) \<and>
    (\<forall>j c. sq_view (rd_queue s) j = None \<longrightarrow> sq_view (rd_queue s') j = Some c \<longrightarrow>
       (\<exists>item\<in>set items. \<exists>y. wanted (sqliteHistory_view (rd_history s)) item
          \<and> newest_grab (sqliteHistory_view (rd_history s)) (dl_DownloadID item) y
          \<and> \<not> has_active (sq_view (rd_queue s)) (download_key (dl_DownloadID item))
          \<and> cmd_Name c = ''ProcessDownload'' \<and> cmd_DedupKey c = download_key (dl_DownloadID item)
          \<and> (valid_utf8 (dl_OutputPath item) \<and> valid_utf8 (dl_DownloadID item) \<and> int64_range (he_SeriesID y) \<longrightarrow>
               ProcessDownload_Handle v st c = ProcessFolder v st (dl_OutputPath item) (he_SeriesID y) (dl_DownloadID item)))) \<and>
    (\<forall>j k c b. sq_view (rd_queue s) j = None \<longrightarrow> sq_view (rd_queue s) k = None \<longrightarrow> sq_view (rd_queue s') j = Some c \<longrightarrow>
       sq_view (rd_queue s') k = Some b \<longrightarrow> cmd_DedupKey c = cmd_DedupKey b \<longrightarrow> j = k)"
proof -
  have "polled reg (sort_key (cs_order (downloadclient_spec sq_gran (\<lambda>i. i) Some (\<lambda>n. n)))
      (sh_items (table_shelf downloadclient_FromSQLite (rd_clients s)))) (rd_outside s) = (items, w)"
    using assms(6) by (simp add: listed_clients_def table_shelf_def downloadclient_spec_def)
  from sqpoll.poll_ok [OF assms(1-5) this] have r: "r = Inr ()" "rd_history s' = rd_history s"
    and q: "queues (sqliteHistory_view (rd_history s)) (sq_gran (env_now e)) items (sq_view (rd_queue s)) (sq_view (rd_queue s'))"
    by simp_all
  have "cmd_Name (download_command item sid t j) = ''ProcessDownload''" for item sid t j
    by (simp add: download_command_def fresh_command_def)
  note command = this download_command_simps(1) process_download_runs
  show ?thesis
  proof (intro conjI allI ballI impI, goal_cases)
    case 3
    then show ?case using queues_keeps [OF q] by (force simp: map_le_def)
  next
    case (4 item)
    then show ?case using queues_wanted [OF q] by simp
  next
    case (5 j c)
    from queues_new [OF q this] obtain item y where "item \<in> set items" "wanted (sqliteHistory_view (rd_history s)) item"
      "newest_grab (sqliteHistory_view (rd_history s)) (dl_DownloadID item) y"
      "\<not> has_active (sq_view (rd_queue s)) (download_key (dl_DownloadID item))"
      "c = download_command item (he_SeriesID y) (sq_gran (env_now e)) j" by blast
    then show ?case by (intro bexI [of _ item] exI [of _ y]) (simp_all add: command)
  next
    case (6 j k c b)
    then show ?case using queues_distinct [OF q] by simp
  qed (use r in simp_all)
qed

definition reporting_client :: "unit DownloadClientImpl" where
  "reporting_client = \<lparr>dc_Protocol = ProtocolUsenet, dc_Unmarshal = (\<lambda>_. None), dc_Add = (\<lambda>_ _ _ w. (Inr ''nzo1'', w)),
     dc_Items = (\<lambda>_ w. (Inr [\<lparr>dl_DownloadID = ''nzo1'', dl_Title = ''Show.S01E01'', dl_Status = ''completed'', dl_TotalSize = 1,
       dl_Remaining = 0, dl_OutputPath = ''/dl/show''\<rparr>], w))\<rparr>"

text \<open>A command for the item has been run before; the client still reports the item.\<close>

definition example_refresh_state :: "(SqDownloadClient table, SqHistory table, SqCommand table, unit) refresh_state" where
  "example_refresh_state = \<lparr>rd_clients = \<lparr>rows = [example_client_row 1 True 1], next_id = 2\<rparr>,
     rd_history = \<lparr>rows = [\<lparr>hq_ID = 1, hq_EpisodeID = 3, hq_SeriesID = 7, hq_SourceTitle = ''Show.S01E01'', hq_QualityName = ''q'',
       hq_EventType = ''grabbed'', hq_Date = 0, hq_DownloadID = ''nzo1'', hq_Data = ''{}''\<rparr>], next_id = 2\<rparr>,
     rd_queue = \<lparr>rows = [\<lparr>sc_ID = 1, sc_Name = ''ProcessDownload'', sc_Body = ''{}'', sc_Priority = 2, sc_Status = ''completed'',
       sc_QueuedAt = 0, sc_StartedAt = Some 0, sc_EndedAt = Some 1, sc_DurationMs = Some 1, sc_Exception = '''', sc_Trigger = ''scheduled'',
       sc_Message = '''', sc_Result = ''{}'', sc_WorkerID = ''a'', sc_LeaseUntil = None, sc_DedupKey = ''ProcessDownload:nzo1''\<rparr>],
       next_id = 2\<rparr>, rd_outside = ()\<rparr>"

theorem refresh_downloads_sqlite_witness:
  "\<not> has_active (sq_view (rd_queue example_refresh_state)) (download_key ''nzo1'') \<and>
   has_active (sq_view (rd_queue (snd (RefreshDownloads_Handle (refresh_service sqliteDownloadClients sqliteHistory sqliteQueue
     [''SABnzbd'' \<mapsto> reporting_client] (quiet_at 0)) example_refresh_state)))) (download_key ''nzo1'')"
proof -
  let ?reg = "[''SABnzbd'' \<mapsto> reporting_client]"
  let ?run = "RefreshDownloads_Handle (refresh_service sqliteDownloadClients sqliteHistory sqliteQueue ?reg (quiet_at 0)) example_refresh_state"
  let ?item = "\<lparr>dl_DownloadID = ''nzo1'', dl_Title = ''Show.S01E01'', dl_Status = ''completed'', dl_TotalSize = 1,
       dl_Remaining = 0, dl_OutputPath = ''/dl/show''\<rparr>"
  obtain r s' where run: "?run = (r, s')" by (cases ?run)
  have wf: "wf_table dq_ID (rd_clients example_refresh_state)" "wf_table hq_ID (rd_history example_refresh_state)"
    "wf_table sc_ID (rd_queue example_refresh_state)"
    by (simp_all add: example_refresh_state_def wf_table_def example_client_row_def)
  have items: "polled ?reg (listed_clients (rd_clients example_refresh_state)) (rd_outside example_refresh_state) = ([?item], ())"
    by (simp add: listed_clients_def example_refresh_state_def example_client_row_def downloadclient_FromSQLite_def poll_client_def
        dcBoolToInt_def overlay_settings_def bytes_of_def reporting_client_def)
  have "sqliteHistory_view (rd_history example_refresh_state) 1 \<noteq> None"
    "\<forall>y. sqliteHistory_view (rd_history example_refresh_state) 1 = Some y \<longrightarrow> he_DownloadID y = ''nzo1''"
    by (simp_all add: sqliteHistory_view_def history_view_def example_refresh_state_def historyFromSQLite_def tbl_def)
  then have want: "wanted (sqliteHistory_view (rd_history example_refresh_state)) ?item" by (auto simp: wanted_def)
  have "\<not> has_active (sq_view (rd_queue example_refresh_state)) (download_key ''nzo1'')"
    by (auto simp: has_active_iff rows_view_def tbl_def example_refresh_state_def commandFromSqlite_def active_def
        StatusQueued_def StatusRunning_def split: if_splits)
  moreover have "has_active (sq_view (rd_queue s')) (download_key ''nzo1'')"
    using refresh_downloads_sqlite [OF wf _ run items, where v = fs_calm and st = "sqlite_import_stores (quiet_at 0)"] want by simp
  ultimately show ?thesis using run by simp
qed

end
