(* ===== verification/Metadata.thy ===== *)
theory Metadata
  imports Sql_Store Go_Strings
begin

section \<open>The metadata source and its cache\<close>

text \<open>
  internal/providers/metadatasource: the interface to the provider of series and episode data, and
  the caching decorator of metadatasource/cached. The provider itself answers over HTTP, so it is a record of
  operations on the world. The cache is one map from text keys to values of any type; its readers assert the
  type they expect, and a wrong type panics. The properties are that no reachable cache makes them panic, and that an
  answer is never older than the time to live of its kind.
\<close>

subsection \<open>metadatasource.go\<close>

record SeriesSearchResult =
  sr_TvdbId :: int
  sr_Name :: string
  sr_Year :: int
  sr_Overview :: string
  sr_State :: string
  sr_Network :: string
  sr_SlugText :: string

record SeriesMeta =
  me_TvdbID :: int
  me_Title :: string
  me_Year :: int
  me_Overview :: string
  me_Status :: string
  me_Network :: string
  me_Runtime :: int
  me_AirTime :: string
  me_Slug :: string
  me_Genres :: "string list"

record EpisodeMeta =
  em_TvdbID :: int
  em_SeasonNumber :: int
  em_EpisodeNumber :: int
  em_AbsoluteEpisodeNumber :: "int option"
  em_Title :: string
  em_Overview :: string
  em_AirDate :: "int option"

record 's MetadataSource =
  src_SearchSeries :: "string \<Rightarrow> ('s, SeriesSearchResult list) act"
  src_GetSeries :: "int \<Rightarrow> ('s, SeriesMeta) act"
  src_GetEpisodes :: "int \<Rightarrow> ('s, EpisodeMeta list) act"

subsection \<open>cached.go\<close>

record Options =
  op_SeriesTTL :: int
  op_EpisodesTTL :: int
  op_SearchTTL :: int
  op_SweepEvery :: int

definition hour_ns :: int where "hour_ns = 3600 * 1000000000"

definition withDefaults :: "Options \<Rightarrow> Options" where
  "withDefaults o' = \<lparr>
     op_SeriesTTL = (if op_SeriesTTL o' = 0 then 24 * hour_ns else op_SeriesTTL o'),
     op_EpisodesTTL = (if op_EpisodesTTL o' = 0 then 6 * hour_ns else op_EpisodesTTL o'),
     op_SearchTTL = (if op_SearchTTL o' = 0 then hour_ns else op_SearchTTL o'),
     op_SweepEvery = (if op_SweepEvery o' = 0 then 10 * 60 * 1000000000 else op_SweepEvery o')\<rparr>"

text \<open>The dynamic types a cached value can have.\<close>

datatype cached_value = SearchV "SeriesSearchResult list" | SeriesV SeriesMeta | EpisodesV "EpisodeMeta list"

record cacheEntry =
  ce_value :: cached_value
  ce_expiresAt :: int

type_synonym cache = "string \<rightharpoonup> cacheEntry"

record 'w cached_source =
  cs_cache :: cache
  cs_world :: 'w

definition cache_get :: "cache \<Rightarrow> string \<Rightarrow> int \<Rightarrow> cached_value option" where
  "cache_get c key now = (case c key of None \<Rightarrow> None
     | Some en \<Rightarrow> if ce_expiresAt en < now then None else Some (ce_value en))"

definition cache_set :: "string \<Rightarrow> cached_value \<Rightarrow> int \<Rightarrow> int \<Rightarrow> cache \<Rightarrow> cache" where
  "cache_set key v ttl now c = c(key \<mapsto> \<lparr>ce_value = v, ce_expiresAt = now + ttl\<rparr>)"

definition on_world :: "('w, 'a) act \<Rightarrow> ('w cached_source, 'a) act" where
  "on_world m s = (let (r, w) = m (cs_world s) in (r, s\<lparr>cs_world := w\<rparr>))"

text \<open>A failed type assertion is a panic, written as an error that no other path returns. The
  clock is read before the lookup and again when a fresh answer is stored.\<close>

definition type_panic :: store_error where "type_panic = OsError ''panic: interface conversion''"

definition cached_call ::
  "string \<Rightarrow> int \<Rightarrow> (cached_value \<Rightarrow> 'a option) \<Rightarrow> ('a \<Rightarrow> cached_value) \<Rightarrow> ('w, 'a) act \<Rightarrow> int \<times> int \<Rightarrow>
     ('w cached_source, 'a) act" where
  "cached_call key ttl assert wrap fetch clock s =
     (case cache_get (cs_cache s) key (fst clock) of
        Some v \<Rightarrow> (case assert v of Some x \<Rightarrow> (Inr x, s) | None \<Rightarrow> (Inl type_panic, s))
      | None \<Rightarrow>
          (case on_world fetch s of
             (Inl err, s1) \<Rightarrow> (Inl err, s1)
           | (Inr x, s1) \<Rightarrow> (Inr x, s1\<lparr>cs_cache := cache_set key (wrap x) ttl (snd clock) (cs_cache s1)\<rparr>)))"

definition search_key :: "string \<Rightarrow> string" where "search_key query = ''search:'' @ query"
definition series_key :: "int \<Rightarrow> string" where "series_key i = ''series:'' @ show_int i"
definition episodes_key :: "int \<Rightarrow> string" where "episodes_key i = ''episodes:'' @ show_int i"

definition Cached_SearchSeries :: "Options \<Rightarrow> 'w MetadataSource \<Rightarrow> int \<times> int \<Rightarrow> string \<Rightarrow> ('w cached_source, SeriesSearchResult list) act" where
  "Cached_SearchSeries opts inner clock query = cached_call (search_key query) (op_SearchTTL opts)
     (\<lambda>v. case v of SearchV x \<Rightarrow> Some x | _ \<Rightarrow> None) SearchV (src_SearchSeries inner query) clock"

definition Cached_GetSeries :: "Options \<Rightarrow> 'w MetadataSource \<Rightarrow> int \<times> int \<Rightarrow> int \<Rightarrow> ('w cached_source, SeriesMeta) act" where
  "Cached_GetSeries opts inner clock tvdbID = cached_call (series_key tvdbID) (op_SeriesTTL opts)
     (\<lambda>v. case v of SeriesV x \<Rightarrow> Some x | _ \<Rightarrow> None) SeriesV (src_GetSeries inner tvdbID) clock"

definition Cached_GetEpisodes :: "Options \<Rightarrow> 'w MetadataSource \<Rightarrow> int \<times> int \<Rightarrow> int \<Rightarrow> ('w cached_source, EpisodeMeta list) act" where
  "Cached_GetEpisodes opts inner clock tvdbID = cached_call (episodes_key tvdbID) (op_EpisodesTTL opts)
     (\<lambda>v. case v of EpisodesV x \<Rightarrow> Some x | _ \<Rightarrow> None) EpisodesV (src_GetEpisodes inner tvdbID) clock"

definition Invalidate :: "int \<Rightarrow> 'w cached_source \<Rightarrow> 'w cached_source" where
  "Invalidate tvdbID s = s\<lparr>cs_cache := (cs_cache s)(series_key tvdbID := None, episodes_key tvdbID := None)\<rparr>"

definition cache_sweep :: "int \<Rightarrow> 'w cached_source \<Rightarrow> 'w cached_source" where
  "cache_sweep now s = s\<lparr>cs_cache := (\<lambda>k. case cs_cache s k of None \<Rightarrow> None
     | Some en \<Rightarrow> if ce_expiresAt en < now then None else Some en)\<rparr>"

definition New :: "'w \<Rightarrow> 'w cached_source" where
  "New w = \<lparr>cs_cache = Map.empty, cs_world = w\<rparr>"

subsection \<open>The steps of a source, with a record of what was fetched\<close>

text \<open>A fetch is the key it was made under, the answer and the instant it was stored. A call fetches
  when the cache has no live entry and the provider answers.\<close>

type_synonym fetches = "(string \<times> cached_value \<times> int) set"

definition note_fetch :: "string \<Rightarrow> ('a \<Rightarrow> cached_value) \<Rightarrow> ('w, 'a) act \<Rightarrow> int \<times> int \<Rightarrow> 'w cached_source \<Rightarrow> fetches \<Rightarrow> fetches" where
  "note_fetch key wrap fetch clock s l =
     (if cache_get (cs_cache s) key (fst clock) = None
      then (case fst (fetch (cs_world s)) of Inr x \<Rightarrow> insert (key, wrap x, snd clock) l | Inl _ \<Rightarrow> l) else l)"

inductive cached_step ::
  "Options \<Rightarrow> 'w MetadataSource \<Rightarrow> fetches \<times> 'w cached_source \<Rightarrow> fetches \<times> 'w cached_source \<Rightarrow> bool"
  for opts :: Options and inner :: "'w MetadataSource"
where
  Search: "Cached_SearchSeries opts inner clock query s = (r, s') \<Longrightarrow>
     cached_step opts inner (l, s) (note_fetch (search_key query) SearchV (src_SearchSeries inner query) clock s l, s')"
| Series: "Cached_GetSeries opts inner clock i s = (rs, s') \<Longrightarrow>
     cached_step opts inner (l, s) (note_fetch (series_key i) SeriesV (src_GetSeries inner i) clock s l, s')"
| Episodes: "Cached_GetEpisodes opts inner clock i s = (re, s') \<Longrightarrow>
     cached_step opts inner (l, s) (note_fetch (episodes_key i) EpisodesV (src_GetEpisodes inner i) clock s l, s')"
| Drop: "cached_step opts inner (l, s) (l, Invalidate i s)"
| Sweep: "cached_step opts inner (l, s) (l, cache_sweep now s)"

text \<open>The kind of a key, and the invariant: a live entry has the type its key promises, and was fetched
  under its key one time to live before it expires.\<close>

fun key_fits :: "string \<Rightarrow> cached_value \<Rightarrow> bool" where
  "key_fits k (SearchV _) \<longleftrightarrow> take 7 k = ''search:''"
| "key_fits k (SeriesV _) \<longleftrightarrow> take 7 k = ''series:''"
| "key_fits k (EpisodesV _) \<longleftrightarrow> take 9 k = ''episodes:''"

fun ttl_of :: "Options \<Rightarrow> cached_value \<Rightarrow> int" where
  "ttl_of opts (SearchV _) = op_SearchTTL opts"
| "ttl_of opts (SeriesV _) = op_SeriesTTL opts"
| "ttl_of opts (EpisodesV _) = op_EpisodesTTL opts"

definition cache_ok :: "Options \<Rightarrow> fetches \<times> 'w cached_source \<Rightarrow> bool" where
  "cache_ok opts p \<longleftrightarrow> (\<forall>k en. cs_cache (snd p) k = Some en \<longrightarrow>
     key_fits k (ce_value en) \<and> (k, ce_value en, ce_expiresAt en - ttl_of opts (ce_value en)) \<in> fst p)"

lemma cached_call_ok:
  assumes "cache_ok opts (l, s)" "cached_call key ttl assert wrap fetch clock s = (r, s')"
    and "\<And>x. key_fits key (wrap x) \<and> ttl_of opts (wrap x) = ttl"
  shows "cache_ok opts (note_fetch key wrap fetch clock s l, s')"
proof (cases "cache_get (cs_cache s) key (fst clock)")
  case (Some v)
  then have "s' = s" using assms(2) by (auto simp: cached_call_def split: option.splits)
  then show ?thesis using assms(1) Some by (simp add: note_fetch_def)
next
  case None
  obtain a w where f: "fetch (cs_world s) = (a, w)" by (cases "fetch (cs_world s)")
  then show ?thesis using assms(1,2) None assms(3)
    by (cases a) (auto simp: cache_ok_def cached_call_def note_fetch_def on_world_def cache_set_def split: if_splits)
qed

lemma keys_fit [simp]: "take 7 (search_key q) = ''search:''" "take 7 (series_key i) = ''series:''" "take 9 (episodes_key i) = ''episodes:''"
  by (simp_all add: search_key_def series_key_def episodes_key_def)

lemma cached_step_ok: "cached_step opts inner p p' \<Longrightarrow> cache_ok opts p \<Longrightarrow> cache_ok opts p'"
proof (induction rule: cached_step.induct)
  case (Drop l s i)
  then show ?case by (auto simp: cache_ok_def Invalidate_def)
next
  case (Sweep l s now)
  then show ?case by (auto simp: cache_ok_def cache_sweep_def split: option.splits if_splits)
next
  case (Search clock query s r s' l)
  show ?case by (rule cached_call_ok [OF Search(2,1) [unfolded Cached_SearchSeries_def]]) simp
next
  case (Series clock i s r s' l)
  show ?case by (rule cached_call_ok [OF Series(2,1) [unfolded Cached_GetSeries_def]]) simp
next
  case (Episodes clock i s r s' l)
  show ?case by (rule cached_call_ok [OF Episodes(2,1) [unfolded Cached_GetEpisodes_def]]) simp
qed

lemma cached_reachable: "(cached_step opts inner)\<^sup>*\<^sup>* ({}, New w) p \<Longrightarrow> cache_ok opts p"
proof (induction rule: rtranclp_induct)
  case base
  show ?case by (simp add: cache_ok_def New_def)
qed (rule cached_step_ok)

text \<open>What a call returns from a consistent cache.\<close>

definition answers ::
  "string \<Rightarrow> ('a \<Rightarrow> cached_value) \<Rightarrow> int \<Rightarrow> int \<Rightarrow> fetches \<Rightarrow> ('w, 'a) act \<Rightarrow> 'w \<Rightarrow> (store_error, 'a) result \<Rightarrow> bool" where
  "answers key wrap ttl now l fetch w r \<longleftrightarrow>
     (\<exists>x t. r = Inr x \<and> (key, wrap x, t) \<in> l \<and> now \<le> t + ttl) \<or> r = fst (fetch w)"

lemma cached_call_answers:
  assumes "cache_ok opts (l, s)" "cached_call key ttl assert wrap fetch clock s = (r, s')"
    and "\<And>v. key_fits key v \<Longrightarrow> \<exists>x. v = wrap x \<and> assert v = Some x \<and> ttl_of opts v = ttl"
  shows "answers key wrap ttl (fst clock) l fetch (cs_world s) r"
proof (cases "cache_get (cs_cache s) key (fst clock)")
  case None
  then show ?thesis using assms(2)
    by (auto simp: cached_call_def on_world_def answers_def split: prod.splits sum.splits)
next
  case (Some v)
  then obtain en where en: "cs_cache s key = Some en" "v = ce_value en" "fst clock \<le> ce_expiresAt en"
    by (auto simp: cache_get_def split: option.splits if_splits)
  then have f: "key_fits key v" "(key, v, ce_expiresAt en - ttl_of opts v) \<in> l" using assms(1) by (auto simp: cache_ok_def)
  from assms(3) [OF f(1)] obtain x where "v = wrap x" "assert v = Some x" "ttl_of opts v = ttl" by blast
  then show ?thesis using assms(2) Some f(2) en(3)
    by (auto simp: cached_call_def answers_def intro!: exI [of _ "ce_expiresAt en - ttl"])
qed

lemma fits_kind:
  "key_fits (search_key q) v \<Longrightarrow> \<exists>x. v = SearchV x" "key_fits (series_key i) v \<Longrightarrow> \<exists>x. v = SeriesV x"
  "key_fits (episodes_key i) v \<Longrightarrow> \<exists>x. v = EpisodesV x"
  by (cases v; simp add: search_key_def series_key_def episodes_key_def)+

text \<open>C21: The cache of the metadata source is well typed. In every state that calls, invalidations and
  sweeps reach from a new source, at whatever clock readings, a search, a series request and an episodes
  request find a value of the type they assert, so no assertion panics: each returns either an answer the
  provider gave under the same key and stored no longer than the time to live of that kind ago, or what
  the provider answers now. After an invalidation of a series the provider is always asked.\<close>

theorem cached_source_typed:
  assumes "(cached_step opts inner)\<^sup>*\<^sup>* ({}, New w) (l, s)"
  shows "answers (search_key query) SearchV (op_SearchTTL opts) (fst clock) l (src_SearchSeries inner query) (cs_world s)
      (fst (Cached_SearchSeries opts inner clock query s)) \<and>
    answers (series_key i) SeriesV (op_SeriesTTL opts) (fst clock) l (src_GetSeries inner i) (cs_world s)
      (fst (Cached_GetSeries opts inner clock i s)) \<and>
    answers (episodes_key i) EpisodesV (op_EpisodesTTL opts) (fst clock) l (src_GetEpisodes inner i) (cs_world s)
      (fst (Cached_GetEpisodes opts inner clock i s)) \<and>
    fst (Cached_GetSeries opts inner clock i (Invalidate i s)) = fst (src_GetSeries inner i (cs_world s))"
proof (intro conjI)
  have ok: "cache_ok opts (l, s)" using assms by (rule cached_reachable)
  show "answers (search_key query) SearchV (op_SearchTTL opts) (fst clock) l (src_SearchSeries inner query) (cs_world s)
      (fst (Cached_SearchSeries opts inner clock query s))"
    unfolding Cached_SearchSeries_def by (rule cached_call_answers [OF ok prod.collapse [symmetric]]) (auto dest: fits_kind)
  show "answers (series_key i) SeriesV (op_SeriesTTL opts) (fst clock) l (src_GetSeries inner i) (cs_world s)
      (fst (Cached_GetSeries opts inner clock i s))"
    unfolding Cached_GetSeries_def by (rule cached_call_answers [OF ok prod.collapse [symmetric]]) (auto dest: fits_kind)
  show "answers (episodes_key i) EpisodesV (op_EpisodesTTL opts) (fst clock) l (src_GetEpisodes inner i) (cs_world s)
      (fst (Cached_GetEpisodes opts inner clock i s))"
    unfolding Cached_GetEpisodes_def by (rule cached_call_answers [OF ok prod.collapse [symmetric]]) (auto dest: fits_kind)
  show "fst (Cached_GetSeries opts inner clock i (Invalidate i s)) = fst (src_GetSeries inner i (cs_world s))"
    by (simp add: Cached_GetSeries_def cached_call_def cache_get_def Invalidate_def on_world_def split: prod.split sum.split)
qed

definition example_meta :: SeriesMeta where
  "example_meta = \<lparr>me_TvdbID = 5, me_Title = ''Show'', me_Year = 2020, me_Overview = '''', me_Status = ''Ended'', me_Network = '''',
     me_Runtime = 42, me_AirTime = '''', me_Slug = ''show'', me_Genres = []\<rparr>"

definition example_source :: "unit MetadataSource" where
  "example_source = \<lparr>src_SearchSeries = (\<lambda>_ w. (Inr [], w)), src_GetSeries = (\<lambda>_ w. (Inr example_meta, w)), src_GetEpisodes = (\<lambda>_ w. (Inr [], w))\<rparr>"

definition example_options :: Options where
  "example_options = withDefaults \<lparr>op_SeriesTTL = 0, op_EpisodesTTL = 0, op_SearchTTL = 0, op_SweepEvery = 0\<rparr>"

definition example_cached :: "unit cached_source" where
  "example_cached = snd (Cached_GetSeries example_options example_source (0, 1) 5 (New ()))"

theorem cached_source_typed_witness:
  "fst (Cached_GetSeries example_options example_source (2, 2) 5 example_cached) = Inr example_meta"
proof -
  have "cached_step example_options example_source ({}, New ()) ({(series_key 5, SeriesV example_meta, 1)}, example_cached)"
    using cached_step.Series [OF prod.collapse [symmetric], where opts = example_options and inner = example_source
      and clock = "(0, 1)" and i = 5 and s = "New ()" and l = "{}"]
    unfolding example_cached_def [symmetric] by (simp add: note_fetch_def New_def cache_get_def) (simp add: example_source_def)
  then have "(cached_step example_options example_source)\<^sup>*\<^sup>* ({}, New ()) ({(series_key 5, SeriesV example_meta, 1)}, example_cached)"
    by (rule r_into_rtranclp)
  from cached_source_typed [OF this, of "''''" "(2, 2)" 5] show ?thesis
    by (auto simp: answers_def example_source_def)
qed

end
