(* ===== verification/RefreshSeries.thy ===== *)
theory RefreshSeries
  imports Handlers Metadata
begin

section \<open>Refreshing a series\<close>

text \<open>
  internal/commands/handlers/refresh_series.go: the handler takes the title and the status of a series, and its
  seasons and episodes, from the metadata source. The locale \<open>refresh_library\<close> states what it needs of the stores
  of the library, as maps from ids to records, and derives what a run leaves in them; the SQLite stores
  provide it.
\<close>

record 's RefreshLibrary =
  rl_SeriesGet :: "int \<Rightarrow> ('s, Series) act"
  rl_SeriesUpdate :: "Series \<Rightarrow> ('s, unit) act"
  rl_SeasonsUpsert :: "Season \<Rightarrow> ('s, unit) act"
  rl_EpisodesListForSeries :: "int \<Rightarrow> ('s, Episode list) act"
  rl_EpisodesUpdate :: "Episode \<Rightarrow> ('s, unit) act"
  rl_EpisodesCreate :: "Episode \<Rightarrow> ('s, Episode) act"

subsection \<open>The handler\<close>

fun upsert_seasons :: "'s RefreshLibrary \<Rightarrow> int \<Rightarrow> int set \<Rightarrow> EpisodeMeta list \<Rightarrow> 's \<Rightarrow> 's" where
  "upsert_seasons lib sid seen [] s = s"
| "upsert_seasons lib sid seen (m # ms) s =
     (if em_SeasonNumber m \<in> seen then upsert_seasons lib sid seen ms s
      else upsert_seasons lib sid (insert (em_SeasonNumber m) seen) ms
        (snd (rl_SeasonsUpsert lib \<lparr>sea_SeriesID = sid, sea_SeasonNumber = wrap32 (em_SeasonNumber m), sea_Monitored = True\<rparr> s)))"

definition ep_key :: "int \<Rightarrow> int \<Rightarrow> string" where
  "ep_key season number = show_int season @ ''-'' @ show_int number"

definition existing_map :: "Episode list \<Rightarrow> string \<rightharpoonup> Episode" where
  "existing_map eps = fold (\<lambda>x m. m(ep_key (ep_SeasonNumber x) (ep_EpisodeNumber x) \<mapsto> x)) eps Map.empty"

definition meta_key :: "EpisodeMeta \<Rightarrow> string" where
  "meta_key m = ep_key (em_SeasonNumber m) (em_EpisodeNumber m)"

definition with_meta :: "EpisodeMeta \<Rightarrow> Episode \<Rightarrow> Episode" where
  "with_meta m x = x\<lparr>ep_Title := em_Title m, ep_Overview := em_Overview m, ep_AirDateUtc := em_AirDate m,
     ep_AbsoluteEpisodeNumber := map_option wrap32 (em_AbsoluteEpisodeNumber m)\<rparr>"

definition new_from_meta :: "int \<Rightarrow> EpisodeMeta \<Rightarrow> Episode" where
  "new_from_meta sid m = \<lparr>ep_ID = 0, ep_SeriesID = sid, ep_SeasonNumber = wrap32 (em_SeasonNumber m),
     ep_EpisodeNumber = wrap32 (em_EpisodeNumber m), ep_AbsoluteEpisodeNumber = map_option wrap32 (em_AbsoluteEpisodeNumber m),
     ep_Title = em_Title m, ep_Overview = em_Overview m, ep_AirDateUtc = em_AirDate m, ep_Monitored = True,
     ep_EpisodeFileID = None, ep_CreatedAt = 0, ep_UpdatedAt = 0\<rparr>"

definition upsert_episode :: "'s RefreshLibrary \<Rightarrow> int \<Rightarrow> (string \<rightharpoonup> Episode) \<Rightarrow> EpisodeMeta \<Rightarrow> 's \<Rightarrow> 's" where
  "upsert_episode lib sid existing m s =
     (case existing (meta_key m) of
        Some x \<Rightarrow> snd (rl_EpisodesUpdate lib (with_meta m x) s)
      | None \<Rightarrow> snd (rl_EpisodesCreate lib (new_from_meta sid m) s))"

text \<open>\<open>drop_cached\<close> is the source's \<open>Invalidate\<close>, if it has one.\<close>

definition RefreshSeries_Handle ::
  "'s RefreshLibrary \<Rightarrow> 's MetadataSource \<Rightarrow> (int \<Rightarrow> 's \<Rightarrow> 's) option \<Rightarrow> Command \<Rightarrow> ('s, unit) act" where
  "RefreshSeries_Handle lib src drop_cached cmd =
     (case series_body cmd of
        Inl err \<Rightarrow> failA (Wrap ''parse body'' err)
      | Inr seriesID \<Rightarrow>
          bindA (wrapA (''get series '' @ show_int seriesID) (rl_SeriesGet lib seriesID)) (\<lambda>series s0.
          (let s = (case drop_cached of Some f \<Rightarrow> f (se_TvdbID series) s0 | None \<Rightarrow> s0) in
           bindA (wrapA ''get series metadata'' (src_GetSeries src (se_TvdbID series))) (\<lambda>info.
           bindA (wrapA ''update series'' (rl_SeriesUpdate lib (series\<lparr>se_Title := me_Title info, se_Status := me_Status info\<rparr>))) (\<lambda>_.
           bindA (wrapA ''get episodes'' (src_GetEpisodes src (se_TvdbID series))) (\<lambda>episodes s.
           bindA (wrapA ''list existing episodes'' (rl_EpisodesListForSeries lib (se_ID series))) (\<lambda>existing s.
             (Inr (), fold (upsert_episode lib (se_ID series) (existing_map existing)) episodes s))
             (upsert_seasons lib (se_ID series) {} episodes s)))) s)))"

text \<open>The handler runs on the library and the world of the source.\<close>

definition on_left :: "('s, 'a) act \<Rightarrow> ('s \<times> 'w, 'a) act" where
  "on_left m p = (let (r, s) = m (fst p) in (r, (s, snd p)))"

definition on_right :: "('w, 'a) act \<Rightarrow> ('s \<times> 'w, 'a) act" where
  "on_right m p = (let (r, w) = m (snd p) in (r, (fst p, w)))"

definition lib_left :: "'s RefreshLibrary \<Rightarrow> ('s \<times> 'w) RefreshLibrary" where
  "lib_left lib = \<lparr>rl_SeriesGet = (\<lambda>i. on_left (rl_SeriesGet lib i)), rl_SeriesUpdate = (\<lambda>x. on_left (rl_SeriesUpdate lib x)),
     rl_SeasonsUpsert = (\<lambda>x. on_left (rl_SeasonsUpsert lib x)),
     rl_EpisodesListForSeries = (\<lambda>i. on_left (rl_EpisodesListForSeries lib i)),
     rl_EpisodesUpdate = (\<lambda>x. on_left (rl_EpisodesUpdate lib x)), rl_EpisodesCreate = (\<lambda>x. on_left (rl_EpisodesCreate lib x))\<rparr>"

definition source_right :: "'w MetadataSource \<Rightarrow> ('s \<times> 'w) MetadataSource" where
  "source_right src = \<lparr>src_SearchSeries = (\<lambda>x. on_right (src_SearchSeries src x)),
     src_GetSeries = (\<lambda>i. on_right (src_GetSeries src i)), src_GetEpisodes = (\<lambda>i. on_right (src_GetEpisodes src i))\<rparr>"

definition inv_right :: "(int \<Rightarrow> 'w \<Rightarrow> 'w) option \<Rightarrow> (int \<Rightarrow> 's \<times> 'w \<Rightarrow> 's \<times> 'w) option" where
  "inv_right g = map_option (\<lambda>f i p. (fst p, f i (snd p))) g"

subsection \<open>Keys\<close>

lemma show_nat_inject [simp]: "show_nat a = show_nat b \<longleftrightarrow> a = b"
  using digits_val_show_nat by metis

lemma show_nat_no_dash: "CHR ''-'' \<notin> set (show_nat n)"
  using show_nat_digits [of n] by (auto simp: list_all_iff is_digit_def char_code_def)

lemma split_at_dash:
  assumes "CHR ''-'' \<notin> set a" "CHR ''-'' \<notin> set b" "a @ CHR ''-'' # x = b @ CHR ''-'' # y"
  shows "a = b \<and> x = y"
  using assms by (auto simp: append_eq_append_conv2 Cons_eq_append_conv append_eq_Cons_conv)

lemma show_int_inject [simp]: "show_int a = show_int b \<longleftrightarrow> a = b"
proof
  assume "show_int a = show_int b"
  moreover have "show_nat n \<noteq> CHR ''-'' # s" "CHR ''-'' # s \<noteq> show_nat n" for n s
    using show_nat_no_dash [of n] by (metis list.set_intros(1))+
  ultimately show "a = b" by (auto simp: show_int_def split: if_splits)
qed simp

text \<open>The text key of an episode determines its numbers, signs included.\<close>

lemma ep_key_inject [simp]: "ep_key a b = ep_key c d \<longleftrightarrow> a = c \<and> b = d"
proof
  assume eq: "ep_key a b = ep_key c d"
  have hd: "show_nat n @ t \<noteq> CHR ''-'' # s" for n t s using show_nat_no_dash [of n] show_nat_nonempty [of n]
    by (cases "show_nat n") auto
  show "a = c \<and> b = d"
  proof (cases "a < 0 \<longleftrightarrow> c < 0")
    case True
    then have "show_nat (nat \<bar>a\<bar>) @ CHR ''-'' # show_int b = show_nat (nat \<bar>c\<bar>) @ CHR ''-'' # show_int d"
      using eq by (auto simp: ep_key_def show_int_def [of a] show_int_def [of c] split: if_splits)
    from split_at_dash [OF show_nat_no_dash show_nat_no_dash this] True show ?thesis by auto
  next
    case False
    then show ?thesis using eq hd by (auto simp: ep_key_def show_int_def [of a] show_int_def [of c] split: if_splits)
      (metis hd)+
  qed
qed simp

subsection \<open>What a run does to the episodes of a series\<close>

text \<open>One metadata episode, applied to the episodes as a map: the existing episode of its key is rewritten,
  or a new one added. \<open>g\<close> is what the store keeps of an instant.\<close>

definition stored_meta :: "(int \<Rightarrow> int) \<Rightarrow> EpisodeMeta \<Rightarrow> Episode \<Rightarrow> int \<Rightarrow> Episode" where
  "stored_meta g m x t = (with_meta m x)\<lparr>ep_AirDateUtc := map_option g (em_AirDate m), ep_UpdatedAt := t\<rparr>"

definition stored_new :: "(int \<Rightarrow> int) \<Rightarrow> int \<Rightarrow> EpisodeMeta \<Rightarrow> int \<Rightarrow> int \<Rightarrow> Episode" where
  "stored_new g sid m j t = (new_from_meta sid m)\<lparr>ep_ID := j, ep_AirDateUtc := map_option g (em_AirDate m),
     ep_CreatedAt := t, ep_UpdatedAt := t\<rparr>"

definition applies_one ::
  "(int \<Rightarrow> int) \<Rightarrow> int \<Rightarrow> (string \<rightharpoonup> Episode) \<Rightarrow> EpisodeMeta \<Rightarrow> (int \<Rightarrow> Episode option) \<Rightarrow> (int \<Rightarrow> Episode option) \<Rightarrow> bool" where
  "applies_one g sid M m v v' \<longleftrightarrow> (case M (meta_key m) of
     Some x \<Rightarrow> \<exists>t. v' = v(ep_ID x \<mapsto> stored_meta g m x t)
   | None \<Rightarrow> \<exists>j t. v j = None \<and> v' = v(j \<mapsto> stored_new g sid m j t))"

fun applies ::
  "(int \<Rightarrow> int) \<Rightarrow> int \<Rightarrow> (string \<rightharpoonup> Episode) \<Rightarrow> EpisodeMeta list \<Rightarrow> (int \<Rightarrow> Episode option) \<Rightarrow> (int \<Rightarrow> Episode option) \<Rightarrow> bool" where
  "applies g sid M [] v v' \<longleftrightarrow> v' = v"
| "applies g sid M (m # ms) v v' \<longleftrightarrow> (\<exists>v1. applies_one g sid M m v v1 \<and> applies g sid M ms v1 v')"

text \<open>The map of existing episodes belongs to a view: it holds exactly the episodes of the series.\<close>

definition describes :: "int \<Rightarrow> (string \<rightharpoonup> Episode) \<Rightarrow> (int \<Rightarrow> Episode option) \<Rightarrow> string \<Rightarrow> bool" where
  "describes sid M v k \<longleftrightarrow> (case M k of
     Some x \<Rightarrow> v (ep_ID x) = Some x \<and> ep_SeriesID x = sid \<and> ep_key (ep_SeasonNumber x) (ep_EpisodeNumber x) = k \<and>
       (\<forall>j y. v j = Some y \<longrightarrow> ep_SeriesID y = sid \<longrightarrow> ep_key (ep_SeasonNumber y) (ep_EpisodeNumber y) = k \<longrightarrow> j = ep_ID x)
   | None \<Rightarrow> \<forall>j x. v j = Some x \<longrightarrow> ep_SeriesID x = sid \<longrightarrow> ep_key (ep_SeasonNumber x) (ep_EpisodeNumber x) \<noteq> k)"

lemma find_snoc: "List.find P (xs @ [y]) = (case List.find P xs of Some z \<Rightarrow> Some z | None \<Rightarrow> if P y then Some y else None)"
  by (induction xs) auto

lemma fold_map_find:
  "fold (\<lambda>x m. m(key x \<mapsto> x)) xs m k = (case List.find (\<lambda>x. key x = k) (rev xs) of Some x \<Rightarrow> Some x | None \<Rightarrow> m k)"
  by (induction xs arbitrary: m) (auto simp: find_snoc fun_upd_def split: option.split)

lemmas existing_map_fold = fold_map_find [where key = "\<lambda>x. ep_key (ep_SeasonNumber x) (ep_EpisodeNumber x)"]

lemma existing_map_describes:
  assumes "\<And>x. x \<in> set eps \<longleftrightarrow> v (ep_ID x) = Some x \<and> ep_SeriesID x = sid" "\<And>j x. v j = Some x \<Longrightarrow> ep_ID x = j"
    and "\<And>i j x y. \<lbrakk>v i = Some x; v j = Some y; ep_SeriesID x = sid; ep_SeriesID y = sid; ep_SeasonNumber x = ep_SeasonNumber y;
      ep_EpisodeNumber x = ep_EpisodeNumber y\<rbrakk> \<Longrightarrow> i = j"
  shows "describes sid (existing_map eps) v k"
proof (cases "existing_map eps k")
  case None
  then show ?thesis using assms
    by (auto simp: describes_def existing_map_def existing_map_fold find_None_set split: option.splits)
next
  case (Some x)
  then have "List.find (\<lambda>x. ep_key (ep_SeasonNumber x) (ep_EpisodeNumber x) = k) (rev eps) = Some x"
    by (auto simp: existing_map_def existing_map_fold split: option.splits)
  from find_Some_set [OF this] Some assms(1) [of x] show ?thesis
    by (auto simp: describes_def dest: assms(3) [of _ _ "ep_ID x" x])
qed

text \<open>A step for another key leaves the map right.\<close>

lemma stored_simps [simp]:
  "ep_ID (stored_meta g m x t) = ep_ID x" "ep_SeriesID (stored_meta g m x t) = ep_SeriesID x"
  "ep_SeasonNumber (stored_meta g m x t) = ep_SeasonNumber x" "ep_EpisodeNumber (stored_meta g m x t) = ep_EpisodeNumber x"
  "ep_Monitored (stored_meta g m x t) = ep_Monitored x" "ep_EpisodeFileID (stored_meta g m x t) = ep_EpisodeFileID x"
  "ep_Title (stored_meta g m x t) = em_Title m"
  "ep_ID (stored_new g sid m j t) = j" "ep_SeriesID (stored_new g sid m j t) = sid"
  "ep_SeasonNumber (stored_new g sid m j t) = wrap32 (em_SeasonNumber m)" "ep_EpisodeNumber (stored_new g sid m j t) = wrap32 (em_EpisodeNumber m)"
  "ep_Monitored (stored_new g sid m j t)" "ep_EpisodeFileID (stored_new g sid m j t) = None" "ep_Title (stored_new g sid m j t) = em_Title m"
  by (simp_all add: stored_meta_def stored_new_def with_meta_def new_from_meta_def)

definition meta_ok :: "EpisodeMeta \<Rightarrow> bool" where
  "meta_ok m \<longleftrightarrow> int32_range (em_SeasonNumber m) \<and> int32_range (em_EpisodeNumber m)"

lemma describes_Some:
  assumes "describes sid M v k" "M k = Some x"
  shows "v (ep_ID x) = Some x" "ep_SeriesID x = sid" "ep_key (ep_SeasonNumber x) (ep_EpisodeNumber x) = k"
    and "v j = Some y \<Longrightarrow> ep_SeriesID y = sid \<Longrightarrow> ep_key (ep_SeasonNumber y) (ep_EpisodeNumber y) = k \<Longrightarrow> j = ep_ID x"
  using assms by (simp_all add: describes_def)

lemma describes_None:
  "\<lbrakk>describes sid M v k; M k = None; v j = Some x; ep_SeriesID x = sid\<rbrakk> \<Longrightarrow> ep_key (ep_SeasonNumber x) (ep_EpisodeNumber x) \<noteq> k"
  by (simp add: describes_def)

text \<open>A step changes the view at one id, to an episode of its key.\<close>

lemma applies_one_cases:
  assumes "applies_one g sid M m v v1" "describes sid M v (meta_key m)" "meta_ok m"
  obtains (old) x t where "M (meta_key m) = Some x" "v1 = v(ep_ID x \<mapsto> stored_meta g m x t)"
      "v (ep_ID x) = Some x" "ep_SeriesID x = sid" "ep_key (ep_SeasonNumber x) (ep_EpisodeNumber x) = meta_key m"
    | (new) j t where "M (meta_key m) = None" "v j = None" "v1 = v(j \<mapsto> stored_new g sid m j t)"
      "ep_key (ep_SeasonNumber (stored_new g sid m j t)) (ep_EpisodeNumber (stored_new g sid m j t)) = meta_key m"
proof (cases "M (meta_key m)")
  case None
  then obtain j t where "v j = None" "v1 = v(j \<mapsto> stored_new g sid m j t)" using assms(1) by (auto simp: applies_one_def)
  then show ?thesis using None assms(3) by (intro new) (simp_all add: meta_key_def meta_ok_def)
next
  case (Some x)
  then obtain t where "v1 = v(ep_ID x \<mapsto> stored_meta g m x t)" using assms(1) by (auto simp: applies_one_def)
  then show ?thesis using Some describes_Some(1-3) [OF assms(2) Some] by (intro old) simp_all
qed

lemma applies_one_describes:
  assumes "applies_one g sid M m v v1" "describes sid M v (meta_key m)" "describes sid M v k" "k \<noteq> meta_key m" "meta_ok m"
  shows "describes sid M v1 k"
proof -
  obtain j y where v1: "v1 = v(j \<mapsto> y)" "ep_key (ep_SeasonNumber y) (ep_EpisodeNumber y) = meta_key m"
    and j: "v j = None \<or> (\<exists>z. v j = Some z \<and> ep_key (ep_SeasonNumber z) (ep_EpisodeNumber z) = meta_key m)"
  proof (cases rule: applies_one_cases [OF assms(1,2,5)])
    case (1 x t)
    then show ?thesis using that [of "ep_ID x" "stored_meta g m x t"] by simp
  next
    case (2 j t)
    then show ?thesis using that by blast
  qed
  show ?thesis
  proof (cases "M k")
    case None
    then show ?thesis using describes_None [OF assms(3) None] assms(4) v1 by (simp add: describes_def)
  next
    case (Some x)
    note d = describes_Some [OF assms(3) Some]
    have "ep_ID x \<noteq> j" using j assms(4) d(1,3) by auto
    moreover have "i = ep_ID x" if "v1 i = Some z" "ep_SeriesID z = sid" "ep_key (ep_SeasonNumber z) (ep_EpisodeNumber z) = k" for i z
      using that v1 assms(4) by (cases "i = j") (auto intro: d(4))
    ultimately show ?thesis unfolding describes_def using v1(1) d(1-3) Some by simp
  qed
qed

lemma applies_one_rest:
  assumes "applies_one g sid M m v v1" "distinct (map meta_key (m # ms))"
    and "\<forall>m'\<in>set (m # ms). describes sid M v (meta_key m') \<and> meta_ok m'"
  shows "\<forall>m'\<in>set ms. describes sid M v1 (meta_key m') \<and> meta_ok m'"
proof
  fix m' assume "m' \<in> set ms"
  then have "meta_key m' \<noteq> meta_key m" using assms(2) by (auto simp: image_iff)
  then show "describes sid M v1 (meta_key m') \<and> meta_ok m'"
    using applies_one_describes [OF assms(1), of "meta_key m'"] assms(3) \<open>m' \<in> set ms\<close> by simp
qed

text \<open>What the steps amount to when the keys of the metadata are distinct.\<close>

abbreviation key_of :: "Episode \<Rightarrow> string" where
  "key_of x \<equiv> ep_key (ep_SeasonNumber x) (ep_EpisodeNumber x)"

lemma applies_old:
  assumes "applies g sid M ms v v'" "distinct (map meta_key ms)" "\<forall>m\<in>set ms. describes sid M v (meta_key m) \<and> meta_ok m"
    and "v j = Some x" "ep_ID x = j"
  shows "if ep_SeriesID x = sid \<and> key_of x \<in> meta_key ` set ms
    then \<exists>m\<in>set ms. \<exists>t. meta_key m = key_of x \<and> v' j = Some (stored_meta g m x t)
    else v' j = Some x"
  using assms
proof (induction ms arbitrary: v x)
  case (Cons m ms)
  then obtain v1 where v1: "applies_one g sid M m v v1" "applies g sid M ms v1 v'" by auto
  have d: "describes sid M v (meta_key m)" "meta_ok m" using Cons.prems(3) by simp_all
  note rest = applies_one_rest [OF v1(1) Cons.prems(2,3)]
  note IH = Cons.IH [OF v1(2) _ rest]
  show ?case
  proof (cases "ep_SeriesID x = sid \<and> key_of x = meta_key m")
    case True
    then obtain y where y: "M (meta_key m) = Some y"
      using describes_None [OF d(1) _ Cons.prems(4)] by (cases "M (meta_key m)") auto
    have "ep_ID y = j" using describes_Some(4) [OF d(1) y Cons.prems(4)] True by simp
    then have "y = x" using Cons.prems(4) describes_Some(1) [OF d(1) y] by simp
    with y v1(1) \<open>ep_ID y = j\<close> obtain t where "v1 j = Some (stored_meta g m x t)" by (auto simp: applies_one_def)
    from IH [OF _ this] Cons.prems(2,5) True have "v' j = Some (stored_meta g m x t)" by auto
    then show ?thesis using True by auto
  next
    case False
    have "v1 j = Some x" by (rule applies_one_cases [OF v1(1) d]) (use False Cons.prems(4) in auto)
    from IH [OF _ this] Cons.prems(2,5) False show ?thesis by (auto split: if_splits)
  qed
qed simp

lemma applies_covers:
  assumes "applies g sid M ms v v'" "distinct (map meta_key ms)" "\<forall>m\<in>set ms. describes sid M v (meta_key m) \<and> meta_ok m"
    and "m \<in> set ms"
  shows "\<exists>j x. v' j = Some x \<and> ep_SeriesID x = sid \<and> ep_SeasonNumber x = em_SeasonNumber m \<and>
    ep_EpisodeNumber x = em_EpisodeNumber m \<and> ep_Title x = em_Title m"
  using assms
proof (induction ms arbitrary: v)
  case (Cons n ms)
  then obtain v1 where v1: "applies_one g sid M n v v1" "applies g sid M ms v1 v'" by auto
  have d: "describes sid M v (meta_key n)" "meta_ok n" using Cons.prems(3) by simp_all
  note rest = applies_one_rest [OF v1(1) Cons.prems(2,3)]
  show ?case
  proof (cases "m = n")
    case False
    then show ?thesis using Cons.IH [OF v1(2) _ rest] Cons.prems(2,4) by simp
  next
    case True
    obtain j x where x: "v1 j = Some x" "ep_ID x = j" "ep_SeriesID x = sid" "key_of x = meta_key n" "ep_Title x = em_Title n"
    proof (cases rule: applies_one_cases [OF v1(1) d])
      case (1 x t)
      then show ?thesis using that [of "ep_ID x" "stored_meta g n x t"] by simp
    next
      case (2 j t)
      then show ?thesis using that [of j "stored_new g sid n j t"] by simp
    qed
    have "v' j = Some x" using applies_old [OF v1(2) _ rest x(1,2)] Cons.prems(2) x(4) by (auto split: if_splits)
    then show ?thesis using x True by (auto simp: meta_key_def)
  qed
qed simp

lemma applies_new:
  assumes "applies g sid M ms v v'" "distinct (map meta_key ms)" "\<forall>m\<in>set ms. describes sid M v (meta_key m) \<and> meta_ok m"
    and "v j = None" "v' j = Some x"
  shows "\<exists>m\<in>set ms. \<exists>t. x = stored_new g sid m j t"
  using assms
proof (induction ms arbitrary: v)
  case (Cons n ms)
  then obtain v1 where v1: "applies_one g sid M n v v1" "applies g sid M ms v1 v'" by auto
  have d: "describes sid M v (meta_key n)" "meta_ok n" using Cons.prems(3) by simp_all
  note rest = applies_one_rest [OF v1(1) Cons.prems(2,3)]
  show ?case
  proof (cases "v1 j")
    case None
    then show ?thesis using Cons.IH [OF v1(2) _ rest] Cons.prems(2,5) by auto
  next
    case (Some y)
    then obtain t where y: "y = stored_new g sid n j t"
      by (rule_tac applies_one_cases [OF v1(1) d]) (use Cons.prems(4) in \<open>auto split: if_splits\<close>)
    moreover have "key_of y = meta_key n" "ep_ID y = j" using d(2) y by (simp_all add: meta_key_def meta_ok_def)
    ultimately have "v' j = Some y" using applies_old [OF v1(2) _ rest Some] Cons.prems(2) by (auto split: if_splits)
    then show ?thesis using y Cons.prems(5) by auto
  qed
qed simp

subsection \<open>What the handler needs of the library\<close>

lemma lift_seasons: "upsert_seasons (lib_left lib) sid seen ms (s, w) = (upsert_seasons lib sid seen ms s, w)"
  by (induction ms arbitrary: seen s) (simp_all add: lib_left_def on_left_def split: prod.split)

lemma lift_episode: "upsert_episode (lib_left lib) sid M m (s, w) = (upsert_episode lib sid M m s, w)"
  by (simp add: upsert_episode_def lib_left_def on_left_def split: option.split prod.split)

lemma lib_left_simps:
  "rl_SeriesGet (lib_left lib) i = on_left (rl_SeriesGet lib i)" "rl_SeriesUpdate (lib_left lib) x = on_left (rl_SeriesUpdate lib x)"
  "rl_EpisodesListForSeries (lib_left lib) i = on_left (rl_EpisodesListForSeries lib i)"
  by (simp_all add: lib_left_def)

lemma lift_episodes: "fold (upsert_episode (lib_left lib) sid M) ms (s, w) = (fold (upsert_episode lib sid M) ms s, w)"
  by (induction ms arbitrary: s) (simp_all add: lift_episode)

locale refresh_library =
  fixes lib :: "'s RefreshLibrary"
    and inv :: "'s \<Rightarrow> bool"
    and series_of :: "'s \<Rightarrow> int \<Rightarrow> Series option"
    and season_of :: "'s \<Rightarrow> int \<times> int \<Rightarrow> bool option"
    and episode_of :: "'s \<Rightarrow> int \<Rightarrow> Episode option"
    and gran :: "int \<Rightarrow> int"
  assumes series_get: "inv s \<Longrightarrow> series_of s i = Some y \<Longrightarrow> rl_SeriesGet lib i s = (Inr y, s)"
    and series_id: "inv s \<Longrightarrow> series_of s i = Some y \<Longrightarrow> se_ID y = i"
    and series_update: "\<lbrakk>inv s; series_of s (se_ID y) = Some y; rl_SeriesUpdate lib (y\<lparr>se_Title := a, se_Status := b\<rparr>) s = (u, s')\<rbrakk> \<Longrightarrow>
          u = Inr () \<and> inv s' \<and> episode_of s' = episode_of s \<and> season_of s' = season_of s \<and>
          (\<exists>k t. series_of s' = (series_of s)(se_ID y \<mapsto> y\<lparr>se_Title := a, se_Status := b, se_MonitorNewItems := k, se_UpdatedAt := t\<rparr>))"
    and season_upsert: "\<lbrakk>inv s; series_of s (sea_SeriesID z) \<noteq> None; rl_SeasonsUpsert lib z s = (u, s')\<rbrakk> \<Longrightarrow>
          inv s' \<and> series_of s' = series_of s \<and> episode_of s' = episode_of s \<and>
          season_of s' = (season_of s)((sea_SeriesID z, sea_SeasonNumber z) \<mapsto> sea_Monitored z)"
    and episodes_list: "inv s \<Longrightarrow> \<exists>xs. rl_EpisodesListForSeries lib i s = (Inr xs, s) \<and>
          (\<forall>x. x \<in> set xs \<longleftrightarrow> episode_of s (ep_ID x) = Some x \<and> ep_SeriesID x = i)"
    and episode_id: "inv s \<Longrightarrow> episode_of s i = Some x \<Longrightarrow> ep_ID x = i"
    and episode_key_unique: "\<lbrakk>inv s; episode_of s i = Some x; episode_of s j = Some x'; ep_SeriesID x = ep_SeriesID x';
          ep_SeasonNumber x = ep_SeasonNumber x'; ep_EpisodeNumber x = ep_EpisodeNumber x'\<rbrakk> \<Longrightarrow> i = j"
    and episode_update: "\<lbrakk>inv s; episode_of s (ep_ID x) = Some x; rl_EpisodesUpdate lib (with_meta m x) s = (u, s')\<rbrakk> \<Longrightarrow>
          inv s' \<and> series_of s' = series_of s \<and> season_of s' = season_of s \<and>
          (\<exists>t. episode_of s' = (episode_of s)(ep_ID x \<mapsto> stored_meta gran m x t))"
    and episode_create: "\<lbrakk>inv s; series_of s i \<noteq> None; \<forall>j x. episode_of s j = Some x \<longrightarrow> ep_SeriesID x = i \<longrightarrow>
            (ep_SeasonNumber x, ep_EpisodeNumber x) \<noteq> (wrap32 (em_SeasonNumber m), wrap32 (em_EpisodeNumber m));
          rl_EpisodesCreate lib (new_from_meta i m) s = (rx, s')\<rbrakk> \<Longrightarrow>
          inv s' \<and> series_of s' = series_of s \<and> season_of s' = season_of s \<and>
          (\<exists>j t. episode_of s j = None \<and> episode_of s' = (episode_of s)(j \<mapsto> stored_new gran i m j t))"
begin

lemma seasons_ok:
  assumes "inv s" "series_of s sid \<noteq> None" "\<forall>m\<in>set ms. meta_ok m" "\<forall>n\<in>seen. season_of s (sid, n) = Some True"
    and "s' = upsert_seasons lib sid seen ms s"
  shows "inv s' \<and> series_of s' = series_of s \<and> episode_of s' = episode_of s \<and>
    season_of s' = (\<lambda>k. if fst k = sid \<and> snd k \<in> em_SeasonNumber ` set ms then Some True else season_of s k)"
  using assms
proof (induction ms arbitrary: seen s)
  case (Cons m ms)
  show ?case
  proof (cases "em_SeasonNumber m \<in> seen")
    case True
    with Cons.IH [of s seen] Cons.prems show ?thesis by (fastforce simp: fun_eq_iff)
  next
    case False
    let ?z = "\<lparr>sea_SeriesID = sid, sea_SeasonNumber = wrap32 (em_SeasonNumber m), sea_Monitored = True\<rparr>"
    obtain u s1 where u: "rl_SeasonsUpsert lib ?z s = (u, s1)" by (cases "rl_SeasonsUpsert lib ?z s")
    have "int32_range (em_SeasonNumber m)" using Cons.prems(3) by (simp add: meta_ok_def)
    with season_upsert [OF Cons.prems(1) _ u] Cons.prems(2) have s1: "inv s1" "series_of s1 = series_of s" "episode_of s1 = episode_of s"
      "season_of s1 = (season_of s)((sid, em_SeasonNumber m) \<mapsto> True)" by simp_all
    from Cons.IH [OF s1(1), of "insert (em_SeasonNumber m) seen"] s1 Cons.prems(2-5) False u show ?thesis
      by (auto simp: fun_eq_iff)
  qed
qed (simp add: fun_eq_iff)

lemma episode_ok:
  assumes "inv s" "series_of s sid \<noteq> None" "describes sid M (episode_of s) (meta_key m)" "meta_ok m" "s' = upsert_episode lib sid M m s"
  shows "inv s' \<and> series_of s' = series_of s \<and> season_of s' = season_of s \<and> applies_one gran sid M m (episode_of s) (episode_of s')"
proof (cases "M (meta_key m)")
  case (Some x)
  obtain u t where u: "rl_EpisodesUpdate lib (with_meta m x) s = (u, t)" by (cases "rl_EpisodesUpdate lib (with_meta m x) s")
  from episode_update [OF assms(1) describes_Some(1) [OF assms(3) Some] u] assms(5) u Some show ?thesis
    by (auto simp: upsert_episode_def applies_one_def)
next
  case None
  obtain r t where r: "rl_EpisodesCreate lib (new_from_meta sid m) s = (r, t)" by (cases "rl_EpisodesCreate lib (new_from_meta sid m) s")
  have "\<forall>j x. episode_of s j = Some x \<longrightarrow> ep_SeriesID x = sid \<longrightarrow>
      (ep_SeasonNumber x, ep_EpisodeNumber x) \<noteq> (wrap32 (em_SeasonNumber m), wrap32 (em_EpisodeNumber m))"
    using describes_None [OF assms(3) None] assms(4) by (auto simp: meta_key_def meta_ok_def)
  from episode_create [OF assms(1,2) this r] assms(5) r None show ?thesis
    by (auto simp: upsert_episode_def applies_one_def)
qed

lemma episodes_ok:
  assumes "inv s" "series_of s sid \<noteq> None" "distinct (map meta_key ms)"
    "\<forall>m\<in>set ms. describes sid M (episode_of s) (meta_key m) \<and> meta_ok m" "s' = fold (upsert_episode lib sid M) ms s"
  shows "inv s' \<and> series_of s' = series_of s \<and> season_of s' = season_of s \<and> applies gran sid M ms (episode_of s) (episode_of s')"
  using assms
proof (induction ms arbitrary: s)
  case (Cons m ms)
  let ?t = "upsert_episode lib sid M m s"
  have t: "inv ?t" "series_of ?t = series_of s" "season_of ?t = season_of s" "applies_one gran sid M m (episode_of s) (episode_of ?t)"
    using episode_ok [OF Cons.prems(1,2) _ _ refl, of M m] Cons.prems(4) by simp_all
  from Cons.IH [OF t(1), unfolded t(2,3)] applies_one_rest [OF t(4) Cons.prems(3,4)] Cons.prems(2,3,5) t(4) show ?case by auto
qed simp

lemma refresh_ok:
  assumes "inv s" "series_body cmd = Inr sid" "series_of s sid = Some y"
    and "src_GetSeries src (se_TvdbID y) (case g of Some f \<Rightarrow> f (se_TvdbID y) w | None \<Rightarrow> w) = (Inr info, w1)"
    and "src_GetEpisodes src (se_TvdbID y) w1 = (Inr ms, w2)"
    and "distinct (map meta_key ms)" "\<forall>m\<in>set ms. meta_ok m"
  shows "\<exists>s' M. RefreshSeries_Handle (lib_left lib) (source_right src) (inv_right g) cmd (s, w) = (Inr (), (s', w2)) \<and> inv s' \<and>
    (\<exists>k t. series_of s' = (series_of s)(sid \<mapsto> y\<lparr>se_Title := me_Title info, se_Status := me_Status info,
       se_MonitorNewItems := k, se_UpdatedAt := t\<rparr>)) \<and>
    season_of s' = (\<lambda>k. if fst k = sid \<and> snd k \<in> em_SeasonNumber ` set ms then Some True else season_of s k) \<and>
    applies gran sid M ms (episode_of s) (episode_of s') \<and> (\<forall>m\<in>set ms. describes sid M (episode_of s) (meta_key m) \<and> meta_ok m)"
proof -
  have id: "se_ID y = sid" using series_id [OF assms(1,3)] .
  let ?y = "y\<lparr>se_Title := me_Title info, se_Status := me_Status info\<rparr>"
  obtain u s1 where u: "rl_SeriesUpdate lib ?y s = (u, s1)" by (cases "rl_SeriesUpdate lib ?y s")
  from series_update [OF assms(1) _ u] assms(3) id obtain k t where s1: "u = Inr ()" "inv s1" "episode_of s1 = episode_of s"
    "season_of s1 = season_of s" and ser: "series_of s1 = (series_of s)(sid \<mapsto> y\<lparr>se_Title := me_Title info, se_Status := me_Status info,
       se_MonitorNewItems := k, se_UpdatedAt := t\<rparr>)" by auto
  define s2 where "s2 = upsert_seasons lib sid {} ms s1"
  from seasons_ok [OF s1(2) _ assms(7) _ s2_def, unfolded s1(3,4)] ser have s2: "inv s2" "series_of s2 = series_of s1" "episode_of s2 = episode_of s"
    "season_of s2 = (\<lambda>k. if fst k = sid \<and> snd k \<in> em_SeasonNumber ` set ms then Some True else season_of s k)" by simp_all
  from episodes_list [OF s2(1), of sid] obtain xs where xs: "rl_EpisodesListForSeries lib sid s2 = (Inr xs, s2)"
    "\<forall>x. x \<in> set xs \<longleftrightarrow> episode_of s2 (ep_ID x) = Some x \<and> ep_SeriesID x = sid" by blast
  define M where "M = existing_map xs"
  define s3 where "s3 = fold (upsert_episode lib sid M) ms s2"
  have d: "describes sid M (episode_of s2) k" for k unfolding M_def
    by (rule existing_map_describes) (use xs(2) episode_id [OF s2(1)] episode_key_unique [OF s2(1)] in auto)
  then have dm: "\<forall>m\<in>set ms. describes sid M (episode_of s2) (meta_key m) \<and> meta_ok m" using assms(7) by simp
  from episodes_ok [OF s2(1) _ assms(6) dm s3_def] s2(2) ser have s3: "inv s3" "series_of s3 = series_of s1"
    "season_of s3 = season_of s2" "applies gran sid M ms (episode_of s2) (episode_of s3)" by simp_all
  have "RefreshSeries_Handle (lib_left lib) (source_right src) (inv_right g) cmd (s, w) = (Inr (), (s3, w2))"
    using assms(2,4,5) series_get [OF assms(1,3)] u s1(1) xs(1) id
    by (cases g) (simp_all add: RefreshSeries_Handle_def bindA_def wrapA_def inv_right_def source_right_def on_right_def Let_def
        lift_seasons lift_episodes s2_def [symmetric] s3_def M_def lib_left_simps on_left_def)
  then show ?thesis using s3 s2 ser dm by auto
qed

end

subsection \<open>The library on SQLite\<close>

definition sqlite_refresh_library :: "dbenv \<Rightarrow> library_db RefreshLibrary" where
  "sqlite_refresh_library e = \<lparr>rl_SeriesGet = sqliteSeries_Get e, rl_SeriesUpdate = sqliteSeries_Update (app_publish e) e,
     rl_SeasonsUpsert = sqliteSeasons_Upsert (app_publish e) e, rl_EpisodesListForSeries = sqliteEpisodes_ListForSeries e,
     rl_EpisodesUpdate = sqliteEpisodes_Update (app_publish e) e, rl_EpisodesCreate = sqliteEpisodes_Create (app_publish e) e\<rparr>"

definition season_view :: "library_db \<Rightarrow> int \<times> int \<Rightarrow> bool option" where
  "season_view d k = map_option (\<lambda>r. sn_Monitored r \<noteq> 0) (List.find (\<lambda>r. (sn_SeriesID r, sn_SeasonNumber r) = k) (db_seasons d))"

text \<open>The catalogue's invariant, with the foreign key of the quality profile and the width of the episode numbers.\<close>

definition refresh_inv :: "library_db \<Rightarrow> bool" where
  "refresh_inv d \<longleftrightarrow> catalog_inv {} d \<and> (\<forall>r\<in>set (rows (db_series d)). qp_exists (sr_QualityProfileID r) d) \<and>
     (\<forall>r\<in>set (rows (db_episodes d)). int32_range (sp_SeasonNumber r) \<and> int32_range (sp_EpisodeNumber r))"

lemma find_map_key:
  assumes "\<And>r. k (f r) = k r"
  shows "List.find (\<lambda>r. k r = j) (map f xs) = map_option f (List.find (\<lambda>r. k r = j) xs)"
  using assms by (induction xs) auto

lemma find_append: "List.find P (xs @ ys) = (case List.find P xs of Some z \<Rightarrow> Some z | None \<Rightarrow> List.find P ys)"
  by (induction xs) auto

lemma season_view_upsert:
  assumes "quiet e" "has_series d (sea_SeriesID s)" "sqliteSeasons_Upsert (app_publish e) e s d = (r, d')"
  shows "season_view d' = (season_view d)((sea_SeriesID s, sea_SeasonNumber s) \<mapsto> sea_Monitored s)"
proof
  fix k
  let ?k = "\<lambda>r. (sn_SeriesID r, sn_SeasonNumber r)" and ?x = "(sea_SeriesID s, sea_SeasonNumber s)"
  let ?f = "\<lambda>r. if sn_SeriesID r = sea_SeriesID s \<and> sn_SeasonNumber r = sea_SeasonNumber s
      then r\<lparr>sn_Monitored := boolToInt64 (sea_Monitored s)\<rparr> else r"
  note ds = conjunct2 [OF seasons_upsert_ok [OF assms]]
  show "season_view d' k = ((season_view d)(?x \<mapsto> sea_Monitored s)) k"
  proof (cases "List.find (\<lambda>r. ?k r = ?x) (db_seasons d)")
    case None
    then have "\<not> (\<exists>r\<in>set (db_seasons d). sn_SeriesID r = sea_SeriesID s \<and> sn_SeasonNumber r = sea_SeasonNumber s)"
      by (auto simp: find_None_set)
    then show ?thesis using None unfolding season_view_def ds
      by (auto simp: find_append boolToInt64_def split: option.split)
  next
    case (Some z)
    then have ex: "\<exists>r\<in>set (db_seasons d). sn_SeriesID r = sea_SeriesID s \<and> sn_SeasonNumber r = sea_SeasonNumber s"
      using find_Some_set [OF Some] by auto
    have "List.find (\<lambda>r. ?k r = k) (db_seasons d') = map_option ?f (List.find (\<lambda>r. ?k r = k) (db_seasons d))"
      unfolding ds if_P [OF ex] by (rule find_map_key) simp
    then show ?thesis using Some find_Some_set [of "\<lambda>r. ?k r = k" "db_seasons d"] unfolding season_view_def
      by (cases "List.find (\<lambda>r. ?k r = k) (db_seasons d)") (auto simp: boolToInt64_def)
  qed
qed

lemma qp_exists_cong: "db_quality_profiles d' = db_quality_profiles d \<Longrightarrow> qp_exists v d' = qp_exists v d"
  by (simp add: qp_exists_def split: option.split)

lemma series_unique_self:
  assumes "catalog_inv {} d" "r \<in> set (rows (db_series d))" "se_TvdbID s = sr_TvdbID r" "se_Slug s = sr_Slug r" "se_Path s = sr_Path r"
  shows "series_unique (Some (sr_ID r)) s d"
  using assms unfolding series_unique_def catalog_inv_def tables_ok_def by (auto simp: distinct_map inj_on_def)

lemma sqlite_series_update:
  assumes "refresh_inv d" "quiet e" "series_view d (se_ID y) = Some y"
    and "sqliteSeries_Update (app_publish e) e (y\<lparr>se_Title := a, se_Status := b\<rparr>) d = (u, d')"
  shows "u = Inr () \<and> refresh_inv d' \<and> episode_view d' = episode_view d \<and> season_view d' = season_view d \<and>
    (\<exists>k t. series_view d' = (series_view d)(se_ID y \<mapsto> y\<lparr>se_Title := a, se_Status := b, se_MonitorNewItems := k, se_UpdatedAt := t\<rparr>))"
proof -
  let ?y = "y\<lparr>se_Title := a, se_Status := b\<rparr>"
  have inv: "catalog_inv {} d" using assms(1) by (simp add: refresh_inv_def)
  from assms(3) obtain r where r: "tbl sr_ID (db_series d) (se_ID y) = Some r" "y = seriesFromSqlite r" by (auto simp: series_view_def)
  have rs: "r \<in> set (rows (db_series d))" using tbl_SomeD [OF r(1)] by simp
  have f: "sr_ID r = se_ID y" "se_TvdbID y = sr_TvdbID r" "se_Slug y = sr_Slug r" "se_Path y = sr_Path r"
    "se_QualityProfileID y = (case sr_QualityProfileID r of None \<Rightarrow> 0 | Some i \<Rightarrow> i)"
    unfolding r(2) by (simp_all add: seriesFromSqlite_def)
  have q: "qp_exists (sr_QualityProfileID r) d" using assms(1) rs by (simp add: refresh_inv_def)
  have "has_series d (se_ID ?y)" using r(1) by (simp add: has_series_def)
  moreover have "series_unique (Some (se_ID ?y)) ?y d"
    using series_unique_self [OF inv rs, of ?y] f by simp
  moreover have qp: "qp_exists (qp_param (se_QualityProfileID ?y)) d"
    using q f(5) by (auto simp: qp_param_def qp_exists_def split: option.splits)
  ultimately have up: "u = Inr ()" "d' = d\<lparr>db_series := upd_rows (\<lambda>r. sr_ID r = se_ID y) (series_set e ?y) (db_series d)\<rparr>"
    "catalog_inv {} d'" using series_update_ok [OF inv assms(2), of ?y] assms(4) by simp_all
  have id: "sr_ID (series_set e ?y z) = sr_ID z" for z by (simp add: series_set_def)
  have "series_view d' i = ((series_view d)(se_ID y \<mapsto> y\<lparr>se_Title := a, se_Status := b,
      se_MonitorNewItems := monitor_new_items ?y, se_UpdatedAt := parseSqliteTime (sqlite_format (env_now e))\<rparr>)) i" for i
  proof (cases "i = se_ID y")
    case True
    have "seriesFromSqlite (series_set e ?y r) = y\<lparr>se_Title := a, se_Status := b,
      se_MonitorNewItems := monitor_new_items ?y, se_UpdatedAt := parseSqliteTime (sqlite_format (env_now e))\<rparr>"
      unfolding r(2) by (cases "sr_QualityProfileID r") (simp_all add: series_set_def seriesFromSqlite_def boolToInt64_def qp_param_def)
    then show ?thesis using r(1) f(1) True by (simp add: up(2) series_view_def tbl_upd_rows id)
  next
    case False
    then show ?thesis
      by (auto simp: up(2) series_view_def tbl_upd_rows id option.map_comp o_def dest: tbl_SomeD intro!: option.map_cong)
  qed
  then have "series_view d' = (series_view d)(se_ID y \<mapsto> y\<lparr>se_Title := a, se_Status := b,
      se_MonitorNewItems := monitor_new_items ?y, se_UpdatedAt := parseSqliteTime (sqlite_format (env_now e))\<rparr>)" by (rule ext)
  moreover have "refresh_inv d'"
  proof -
    have p: "qp_exists v d' = qp_exists v d" for v by (rule qp_exists_cong) (simp add: up(2))
    have "rows (db_series d') = map (\<lambda>r. if sr_ID r = se_ID y then series_set e ?y r else r) (rows (db_series d))"
      "db_episodes d' = db_episodes d" by (simp_all add: up(2) upd_rows_def)
    then show ?thesis using assms(1) up(3) qp unfolding refresh_inv_def p by (auto simp: series_set_def)
  qed
  moreover have "episode_view d' = episode_view d" "season_view d' = season_view d"
    by (simp_all add: up(2) fun_eq_iff episode_view_def season_view_def)
  ultimately show ?thesis using up(1) by blast
qed

lemma refresh_inv_keep:
  assumes "refresh_inv d" "catalog_inv {} d'" "db_series d' = db_series d" "db_quality_profiles d' = db_quality_profiles d"
    and "\<And>r. r \<in> set (rows (db_episodes d')) \<Longrightarrow> int32_range (sp_SeasonNumber r) \<and> int32_range (sp_EpisodeNumber r)"
  shows "refresh_inv d'"
  using assms qp_exists_cong [OF assms(4)] by (simp add: refresh_inv_def)

lemma map_wrap32 [simp]: "map_option wrap32 (map_option wrap32 x) = map_option wrap32 x"
  by (cases x) simp_all

lemma episode_meta_row:
  assumes "x = episodeFromSqlite r"
  shows "episodeFromSqlite (r\<lparr>sp_AbsoluteEpisodeNumber := ep_AbsoluteEpisodeNumber (with_meta m x), sp_Title := ep_Title (with_meta m x),
      sp_Overview := ep_Overview (with_meta m x), sp_AirDateUtc := nullStringFromTimePtr (ep_AirDateUtc (with_meta m x)),
      sp_Monitored := boolToInt64 (ep_Monitored (with_meta m x)), sp_EpisodeFileID := ep_EpisodeFileID (with_meta m x), sp_UpdatedAt := u\<rparr>)
    = stored_meta sq_gran m x (parseSqliteTime u)"
  unfolding assms
  by (cases "em_AbsoluteEpisodeNumber m"; cases "em_AirDate m"; cases "sp_EpisodeFileID r")
     (simp_all add: episodeFromSqlite_def stored_meta_def with_meta_def nullStringFromTimePtr_def ptrFromNullString_def
        ptrFromNullInt32_def ptrFromNullInt64_def boolToInt64_def)

lemma sqlite_episode_meta:
  assumes "refresh_inv d" "quiet e" "episode_view d (ep_ID x) = Some x"
    and "sqliteEpisodes_Update (app_publish e) e (with_meta m x) d = (u, d')"
  shows "refresh_inv d' \<and> series_view d' = series_view d \<and> season_view d' = season_view d \<and>
    (\<exists>t. episode_view d' = (episode_view d)(ep_ID x \<mapsto> stored_meta sq_gran m x t))"
proof -
  let ?t = "sqlite_format (env_now e)"
  have inv: "catalog_inv {} d" using assms(1) by (simp add: refresh_inv_def)
  from assms(3) obtain row where row: "tbl sp_ID (db_episodes d) (ep_ID x) = Some row" "x = episodeFromSqlite row"
    by (auto simp: episode_view_def)
  have id: "ep_ID (with_meta m x) = ep_ID x" "ep_SeriesID (with_meta m x) = ep_SeriesID x" by (simp_all add: with_meta_def)
  have "tbl sp_ID (db_episodes d) (ep_ID (with_meta m x)) = Some row" "sp_SeriesID row = ep_SeriesID (with_meta m x)" using row id by simp_all
  note up = episodes_update_inv [OF inv assms(2,4) this, unfolded id]
  have "episode_view d' j = ((episode_view d)(ep_ID x \<mapsto> stored_meta sq_gran m x (parseSqliteTime ?t))) j" for j
  proof (cases "j = ep_ID x")
    case True
    have "sp_ID row = ep_ID x" using tbl_SomeD [OF row(1)] by simp
    then show ?thesis using up row(1) True episode_meta_row [OF row(2), where m = m and u = ?t]
      by (simp add: episode_view_def tbl_upd_rows)
  next
    case False
    have "tbl sp_ID (db_episodes d') j = tbl sp_ID (db_episodes d) j"
      using up False by (auto simp: tbl_upd_rows dest: tbl_SomeD intro!: option.map_cong [where g = id, simplified option.map_id0 id_apply])
    then show ?thesis using False by (simp add: episode_view_def)
  qed
  then have "episode_view d' = (episode_view d)(ep_ID x \<mapsto> stored_meta sq_gran m x (parseSqliteTime ?t))" by (rule ext)
  moreover have "refresh_inv d'"
    by (rule refresh_inv_keep [OF assms(1)]) (use up assms(1) in \<open>auto simp: upd_rows_def refresh_inv_def\<close>)
  moreover have "series_view d' = series_view d" "season_view d' = season_view d"
    using up by (simp_all add: series_view_def season_view_def fun_eq_iff)
  ultimately show ?thesis by blast
qed

lemma new_row_view:
  "episodeFromSqlite (new_episode_row e (new_from_meta i m) j) = stored_new sq_gran i m j (parseSqliteTime (sqlite_format (env_now e)))"
  by (cases "em_AbsoluteEpisodeNumber m"; cases "em_AirDate m")
     (simp_all add: new_episode_row_def episodeFromSqlite_def stored_new_def new_from_meta_def nullStringFromTimePtr_def
        ptrFromNullString_def ptrFromNullInt32_def ptrFromNullInt64_def boolToInt64_def)

lemma int32_range_wrap32 [simp]: "int32_range (wrap32 x)"
  by (simp add: wrap32_def int32_range_def)

lemma sqlite_episode_new:
  assumes "refresh_inv d" "quiet e" "series_view d i \<noteq> None"
    and "\<forall>j x. episode_view d j = Some x \<longrightarrow> ep_SeriesID x = i \<longrightarrow>
        (ep_SeasonNumber x, ep_EpisodeNumber x) \<noteq> (wrap32 (em_SeasonNumber m), wrap32 (em_EpisodeNumber m))"
    and "sqliteEpisodes_Create (app_publish e) e (new_from_meta i m) d = (r, d')"
  shows "refresh_inv d' \<and> series_view d' = series_view d \<and> season_view d' = season_view d \<and>
    (\<exists>j t. episode_view d j = None \<and> episode_view d' = (episode_view d)(j \<mapsto> stored_new sq_gran i m j t))"
proof -
  let ?x = "new_from_meta i m"
  have inv: "catalog_inv {} d" using assms(1) by (simp add: refresh_inv_def)
  note wf = episodes_wf [OF inv]
  have x: "ep_SeriesID ?x = i" "ep_SeasonNumber ?x = wrap32 (em_SeasonNumber m)" "ep_EpisodeNumber ?x = wrap32 (em_EpisodeNumber m)"
    by (simp_all add: new_from_meta_def)
  have "episode_unique ?x d"
    unfolding episode_unique_def x
  proof
    fix r assume r: "r \<in> set (rows (db_episodes d))"
    then have "episode_view d (sp_ID r) = Some (episodeFromSqlite r)" using tbl_Some_iff [OF wf, of "sp_ID r" r] by (simp add: episode_view_def)
    moreover have "int32_range (sp_SeasonNumber r)" "int32_range (sp_EpisodeNumber r)" using assms(1) r by (auto simp: refresh_inv_def)
    then have "ep_SeasonNumber (episodeFromSqlite r) = sp_SeasonNumber r" "ep_EpisodeNumber (episodeFromSqlite r) = sp_EpisodeNumber r"
      by (simp_all add: episodeFromSqlite_def)
    ultimately show "(sp_SeriesID r, sp_SeasonNumber r, sp_EpisodeNumber r) \<noteq> (i, wrap32 (em_SeasonNumber m), wrap32 (em_EpisodeNumber m))"
      using assms(4) by fastforce
  qed
  moreover have "has_series d (ep_SeriesID ?x)" using assms(3) x by (auto simp: series_view_def has_series_def)
  ultimately have ok: "catalog_inv {} d'" "db_series d' = db_series d" "db_seasons d' = db_seasons d"
    "db_quality_profiles d' = db_quality_profiles d" "db_episodes d' = snd (sql_insert (new_episode_row e ?x) (db_episodes d))"
    using episodes_create_ok [OF inv assms(2,5)] by simp_all
  have mk: "sp_ID (new_episode_row e ?x j) = j" for j by (simp add: new_episode_row_def)
  have "refresh_inv d'"
    by (rule refresh_inv_keep [OF assms(1) ok(1,2,4)])
      (use assms(1) ok(5) x in \<open>auto simp: sql_insert_def new_episode_row_def refresh_inv_def\<close>)
  moreover have "episode_view d (next_id (db_episodes d)) = None" using wf by (simp add: episode_view_def)
  moreover have "episode_view d' = (episode_view d)(next_id (db_episodes d) \<mapsto>
      stored_new sq_gran i m (next_id (db_episodes d)) (parseSqliteTime (sqlite_format (env_now e))))"
    using tbl_insert [OF wf mk] by (auto simp: episode_view_def ok(5) new_row_view)
  moreover have "series_view d' = series_view d" "season_view d' = season_view d"
    using ok by (simp_all add: series_view_def season_view_def fun_eq_iff)
  ultimately show ?thesis by blast
qed

interpretation sqrefresh: refresh_library "sqlite_refresh_library e" "\<lambda>d. refresh_inv d \<and> quiet e" series_view season_view episode_view sq_gran for e
proof (unfold_locales, goal_cases)
  case (1 d i y)
  then show ?case
    by (auto simp: sqlite_refresh_library_def sqliteSeries_Get_def sqlite_GetSeries_def rowA_def on_series_def sql_one_id series_view_def
        split: option.splits)
next
  case (2 d i y)
  then show ?case by (auto simp: series_view_def seriesFromSqlite_def dest: tbl_SomeD)
next
  case (3 d y a b u d')
  then show ?case using sqlite_series_update [of d e y a b u d'] by (simp add: sqlite_refresh_library_def)
next
  case (4 d z u d')
  then have up: "sqliteSeasons_Upsert (app_publish e) e z d = (u, d')" and hs: "has_series d (sea_SeriesID z)"
    by (auto simp: sqlite_refresh_library_def series_view_def has_series_def)
  from 4 have q: "quiet e" and inv: "refresh_inv d" "catalog_inv {} d" by (simp_all add: refresh_inv_def)
  from seasons_upsert_ok [OF q hs up] obtain v where d': "d' = d\<lparr>db_seasons := v\<rparr>" by blast
  have "refresh_inv d'" by (rule refresh_inv_keep [OF inv(1) seasons_inv(1) [OF inv(2) q up]]) (use inv(1) in \<open>simp_all add: d' refresh_inv_def\<close>)
  then show ?case using season_view_upsert [OF q hs up] q by (simp add: d' fun_eq_iff series_view_def episode_view_def)
next
  case (5 d i)
  then show ?case using sink_list [of d e i] by (auto simp: sqlite_refresh_library_def refresh_inv_def)
next
  case (6 d i x)
  then show ?case by (auto simp: episode_view_def dest: tbl_SomeD)
next
  case (7 d i x j x')
  then obtain r r' where r: "tbl sp_ID (db_episodes d) i = Some r" "x = episodeFromSqlite r"
    "tbl sp_ID (db_episodes d) j = Some r'" "x' = episodeFromSqlite r'" by (auto simp: episode_view_def)
  then have m: "r \<in> set (rows (db_episodes d))" "r' \<in> set (rows (db_episodes d))" "sp_ID r = i" "sp_ID r' = j"
    using tbl_SomeD [OF r(1)] tbl_SomeD [OF r(3)] by simp_all
  have "episode_key r = episode_key r'"
    using 7(1,4-6) r m(1,2) by (auto simp: refresh_inv_def episode_key_def episodeFromSqlite_def)
  moreover have "inj_on episode_key (set (rows (db_episodes d)))"
    using 7(1) by (auto simp: refresh_inv_def catalog_inv_def tables_ok_def distinct_map)
  ultimately show ?case using m by (auto simp: inj_on_def)
next
  case (8 d x m u d')
  then show ?case using sqlite_episode_meta [of d e x m u d'] by (simp add: sqlite_refresh_library_def)
next
  case (9 d i m r d')
  then show ?case using sqlite_episode_new [of d e i m r d'] by (simp add: sqlite_refresh_library_def)
qed

subsection \<open>Properties\<close>

text \<open>C22: A refresh on SQLite, when no statement fails and the metadata source answers with episodes of
  different numbers that fit 32 bits. The series takes the title and status of the source. Every episode of
  the source is in the library afterwards under its numbers with the source's title; an episode of the series
  that was there keeps its id, its monitored flag and its file, and takes title, overview, air date
  and absolute number if the source has it; all other episodes are as before; every added one is monitored and
  has no file. The catalogue stays consistent. Every season the source mentions is monitored
  afterwards, whether it was before or not.\<close>

theorem refresh_series_sqlite:
  assumes "refresh_inv d" "quiet e" "series_body cmd = Inr sid" "series_view d sid = Some y"
    and "src_GetSeries src (se_TvdbID y) (case g of Some f \<Rightarrow> f (se_TvdbID y) w | None \<Rightarrow> w) = (Inr info, w1)"
    and "src_GetEpisodes src (se_TvdbID y) w1 = (Inr ms, w2)"
    and "distinct (map (\<lambda>m. (em_SeasonNumber m, em_EpisodeNumber m)) ms)" "\<forall>m\<in>set ms. meta_ok m"
  shows "\<exists>d'. RefreshSeries_Handle (lib_left (sqlite_refresh_library e)) (source_right src) (inv_right g) cmd (d, w) = (Inr (), (d', w2)) \<and>
    catalog_inv {} d' \<and>
    (\<exists>k t. series_view d' = (series_view d)(sid \<mapsto> y\<lparr>se_Title := me_Title info, se_Status := me_Status info,
       se_MonitorNewItems := k, se_UpdatedAt := t\<rparr>)) \<and>
    season_view d' = (\<lambda>k. if fst k = sid \<and> snd k \<in> em_SeasonNumber ` set ms then Some True else season_view d k) \<and>
    (\<forall>m\<in>set ms. \<exists>j x. episode_view d' j = Some x \<and> ep_SeriesID x = sid \<and> ep_SeasonNumber x = em_SeasonNumber m \<and>
       ep_EpisodeNumber x = em_EpisodeNumber m \<and> ep_Title x = em_Title m) \<and>
    (\<forall>j x. episode_view d j = Some x \<longrightarrow>
       (if ep_SeriesID x = sid \<and> (ep_SeasonNumber x, ep_EpisodeNumber x) \<in> (\<lambda>m. (em_SeasonNumber m, em_EpisodeNumber m)) ` set ms
        then \<exists>m\<in>set ms. \<exists>t. episode_view d' j = Some (stored_meta sq_gran m x t) \<and>
          em_SeasonNumber m = ep_SeasonNumber x \<and> em_EpisodeNumber m = ep_EpisodeNumber x
        else episode_view d' j = Some x)) \<and>
    (\<forall>j x. episode_view d j = None \<longrightarrow> episode_view d' j = Some x \<longrightarrow> (\<exists>m\<in>set ms. \<exists>t. x = stored_new sq_gran sid m j t))"
proof -
  have key: "meta_key m = ep_key a b \<longleftrightarrow> em_SeasonNumber m = a \<and> em_EpisodeNumber m = b" for m a b
    by (simp add: meta_key_def)
  have "distinct (map meta_key ms)" using assms(7) by (auto simp: distinct_map inj_on_def meta_key_def)
  note dist = this
  from sqrefresh.refresh_ok [where e = e, OF conjI [OF assms(1,2)] assms(3-6) dist assms(8)] obtain d' M k t where
    run: "RefreshSeries_Handle (lib_left (sqlite_refresh_library e)) (source_right src) (inv_right g) cmd (d, w) = (Inr (), (d', w2))"
    and d': "refresh_inv d'" "series_view d' = (series_view d)(sid \<mapsto> y\<lparr>se_Title := me_Title info, se_Status := me_Status info,
       se_MonitorNewItems := k, se_UpdatedAt := t\<rparr>)"
    "season_view d' = (\<lambda>k. if fst k = sid \<and> snd k \<in> em_SeasonNumber ` set ms then Some True else season_view d k)"
    and app: "applies sq_gran sid M ms (episode_view d) (episode_view d')"
      "\<forall>m\<in>set ms. describes sid M (episode_view d) (meta_key m) \<and> meta_ok m" by blast
  have id: "ep_ID x = j" if "episode_view d j = Some x" for j x using sqrefresh.episode_id [of d e] assms(1,2) that by blast
  have "if ep_SeriesID x = sid \<and> (ep_SeasonNumber x, ep_EpisodeNumber x) \<in> (\<lambda>m. (em_SeasonNumber m, em_EpisodeNumber m)) ` set ms
      then \<exists>m\<in>set ms. \<exists>t. episode_view d' j = Some (stored_meta sq_gran m x t) \<and>
          em_SeasonNumber m = ep_SeasonNumber x \<and> em_EpisodeNumber m = ep_EpisodeNumber x
      else episode_view d' j = Some x" if x: "episode_view d j = Some x" for j x
  proof -
    have "key_of x \<in> meta_key ` set ms \<longleftrightarrow> (ep_SeasonNumber x, ep_EpisodeNumber x) \<in> (\<lambda>m. (em_SeasonNumber m, em_EpisodeNumber m)) ` set ms"
      by (auto simp: image_iff meta_key_def)
    then show ?thesis using applies_old [OF app(1) dist app(2) x id [OF x]] by (auto simp: key split: if_splits)
  qed
  moreover have "catalog_inv {} d'" using d'(1) by (simp add: refresh_inv_def)
  ultimately show ?thesis using run d'(2,3) applies_covers [OF app(1) dist app(2)] applies_new [OF app(1) dist app(2)] by blast
qed

definition example_unmonitored :: library_db where
  "example_unmonitored = snd (sqliteSeasons_Upsert (app_publish (quiet_at 0)) (quiet_at 0)
     \<lparr>sea_SeriesID = 1, sea_SeasonNumber = 1, sea_Monitored = False\<rparr> example_with_episode)"

definition refresh_command :: Command where
  "refresh_command = fresh_command 1 ''RefreshSeries'' (Some (print_json (JObj [(''seriesId'', json_int 1)]))) PriorityNormal
     TriggerManual '''' 0"

definition example_episodes_source :: "unit MetadataSource" where
  "example_episodes_source = example_source\<lparr>src_GetEpisodes := (\<lambda>_ w. (Inr [\<lparr>em_TvdbID = 1, em_SeasonNumber = 1, em_EpisodeNumber = 2,
     em_AbsoluteEpisodeNumber = None, em_Title = ''Cat'', em_Overview = '''', em_AirDate = None\<rparr>], w))\<rparr>"

lemma example_unmonitored_inv: "refresh_inv example_unmonitored"
proof -
  have "catalog_inv {} example_with_episode"
    using example_reachable empty_library_inv [of "[1]"] catalog_step_inv by (induction rule: rtranclp_induct) blast+
  then have "catalog_inv {} example_unmonitored"
    unfolding example_unmonitored_def using seasons_inv(1) [OF _ quiet_quiet_at(1) prod.collapse [symmetric]] by blast
  then show ?thesis
    by (simp add: refresh_inv_def) (simp add: example_unmonitored_def sqliteSeasons_Upsert_def example_simps int32_range_def)
qed

theorem refresh_series_sqlite_witness:
  "season_view example_unmonitored (1, 1) = Some False \<and>
   season_view (fst (snd (RefreshSeries_Handle (lib_left (sqlite_refresh_library (quiet_at 0))) (source_right example_episodes_source) None
     refresh_command (example_unmonitored, ())))) (1, 1) = Some True"
proof -
  have body: "series_body refresh_command = Inr 1"
  proof -
    have "valid_utf8 ''seriesId''" by (rule valid_utf8_ascii) (simp add: char_code_def)
    then have "doc_ok maxNestingDepth (JObj [(''seriesId'', json_int 1)])" by (simp add: maxNestingDepth_def)
    from Unmarshal_print [OF this, of "dec_struct series_fields" 0] show ?thesis
      by (simp add: series_body_def refresh_command_def fresh_command_def bytes_of_def dec_struct_def series_fields_def field_for_def
          int64_range_def)
  qed
  obtain y where y: "series_view example_unmonitored 1 = Some y"
    by (simp add: series_view_def example_unmonitored_def sqliteSeasons_Upsert_def example_simps)
  have "season_view example_unmonitored (1, 1) = Some False"
    by (simp add: season_view_def example_unmonitored_def sqliteSeasons_Upsert_def example_simps)
  moreover
  let ?m = "\<lparr>em_TvdbID = 1, em_SeasonNumber = 1, em_EpisodeNumber = 2, em_AbsoluteEpisodeNumber = None,
      em_Title = ''Cat'', em_Overview = '''', em_AirDate = None\<rparr>"
  have src: "src_GetSeries example_episodes_source (se_TvdbID y) (case None of Some f \<Rightarrow> f (se_TvdbID y) () | None \<Rightarrow> ()) = (Inr example_meta, ())"
    "src_GetEpisodes example_episodes_source (se_TvdbID y) () = (Inr [?m], ())"
    by (simp_all add: example_episodes_source_def example_source_def)
  have ok: "distinct (map (\<lambda>m. (em_SeasonNumber m, em_EpisodeNumber m)) [?m])" "\<forall>m\<in>set [?m]. meta_ok m"
    by (simp_all add: meta_ok_def int32_range_def)
  have "season_view (fst (snd (RefreshSeries_Handle (lib_left (sqlite_refresh_library (quiet_at 0))) (source_right example_episodes_source)
      (inv_right None) refresh_command (example_unmonitored, ())))) (1, 1) = Some True"
    using refresh_series_sqlite [OF example_unmonitored_inv quiet_quiet_at(1) [of 0] body y src ok] by force
  ultimately show ?thesis by (simp add: inv_right_def)
qed

end
