(* ===== verification/Realtime.thy ===== *)
theory Realtime
  imports Events LibrarySqlite Commands Go_Strings "HOL-Library.Multiset"
begin

section \<open>The broker of real-time messages\<close>

text \<open>
  internal/realtime/broker.go and the stream of internal/realtime/sse.go. A connected client is a
  record on a heap, addressed by its index, with the buffered channel its transport handler
  reads. The broker keeps the addresses of the registered clients. \<open>Broadcast\<close> copies them under
  the lock and sends after it has released it; \<open>Unsubscribe\<close> removes the address under the lock and
  closes the channel afterwards. These are the points where goroutines interleave, and the step relation
  \<open>broker_step\<close> has one rule for each stretch between them. The order of a snapshot is that of a Go map, so any
  order is possible.

  The invariant of all interleavings accounts for every message: what a client has received, what waits in its
  channel, what was dropped because the channel was full and what running broadcasts still have to
  send are together the messages broadcast since it subscribed that pass its filter. The same
  relation shows that a broadcast that took its snapshot before a client unsubscribed panics.
\<close>

subsection \<open>Messages and clients\<close>

definition MsgSeries :: string where "MsgSeries = ''series''"
definition MsgEpisode :: string where "MsgEpisode = ''episode''"
definition MsgEpisodeFile :: string where "MsgEpisodeFile = ''episodefile''"
definition MsgCommand :: string where "MsgCommand = ''command''"

datatype domain_event = LibraryEvent library_event | CommandEvent command_event

record Message =
  m_Name :: string
  m_Action :: string
  m_Resource :: domain_event

text \<open>
  \<open>cl_buf\<close>, \<open>cl_cap\<close> and \<open>cl_closed\<close> are the channel. The last three fields are history: what the reader has
  taken out of the channel, what \<open>Broadcast\<close> dropped, and how many broadcasts had started when the client
  subscribed.
\<close>

record Client =
  cl_buf :: "Message list"
  cl_cap :: nat
  cl_closed :: bool
  cl_filter :: "string list option"
  cl_got :: "Message list"
  cl_dropped :: "Message list"
  cl_since :: nat

datatype panic = SendOnClosed | CloseOfClosed

text \<open>\<open>br_sends\<close> holds the running \<open>Broadcast\<close> calls with the rest of their snapshots, \<open>br_closing\<close> the
  \<open>Unsubscribe\<close> calls between the unlock and the close, \<open>br_log\<close> is the history of broadcasts.\<close>

record Broker =
  br_bufSize :: nat
  br_clients :: "nat list"
  br_heap :: "Client list"
  br_sends :: "(Message \<times> nat list) list"
  br_closing :: "nat list"
  br_panic :: "panic option"
  br_log :: "Message list"

definition NewBroker :: "nat \<Rightarrow> Broker" where
  "NewBroker bufSize = \<lparr>br_bufSize = bufSize, br_clients = [], br_heap = [], br_sends = [],
     br_closing = [], br_panic = None, br_log = []\<rparr>"

subsection \<open>Subscribe and Unsubscribe\<close>

definition new_client :: "string list \<Rightarrow> Broker \<Rightarrow> Client" where
  "new_client types b = \<lparr>cl_buf = [], cl_cap = br_bufSize b, cl_closed = False,
     cl_filter = (if 0 < length types then Some types else None),
     cl_got = [], cl_dropped = [], cl_since = length (br_log b)\<rparr>"

definition Subscribe :: "string list \<Rightarrow> Broker \<Rightarrow> nat \<times> Broker" where
  "Subscribe types b =
     (let c = length (br_heap b)
      in (c, b\<lparr>br_heap := br_heap b @ [new_client types b], br_clients := br_clients b @ [c]\<rparr>))"

definition unregister :: "nat \<Rightarrow> Broker \<Rightarrow> Broker" where
  "unregister c b = b\<lparr>br_clients := removeAll c (br_clients b), br_closing := br_closing b @ [c]\<rparr>"

definition close_channel :: "nat \<Rightarrow> Broker \<Rightarrow> Broker" where
  "close_channel c b =
     (let b' = b\<lparr>br_closing := removeAll c (br_closing b)\<rparr>
      in if cl_closed (br_heap b ! c) then b'\<lparr>br_panic := Some CloseOfClosed\<rparr>
         else b'\<lparr>br_heap := (br_heap b)[c := (br_heap b ! c)\<lparr>cl_closed := True\<rparr>]\<rparr>)"

definition Unsubscribe :: "nat \<Rightarrow> Broker \<Rightarrow> Broker" where
  "Unsubscribe c b = close_channel c (unregister c b)"

subsection \<open>Broadcast\<close>

definition wants :: "Client \<Rightarrow> Message \<Rightarrow> bool" where
  "wants c msg = (case cl_filter c of None \<Rightarrow> True | Some names \<Rightarrow> m_Name msg \<in> set names)"

text \<open>The select with a default branch: a send on a closed channel panics, a waiting reader is
  handed the message, a full channel lets the default branch drop it.\<close>

definition try_send :: "bool \<Rightarrow> Message \<Rightarrow> Client \<Rightarrow> panic + Client" where
  "try_send waiting msg c =
     (if cl_closed c then Inl SendOnClosed
      else if waiting \<and> cl_buf c = [] then Inr (c\<lparr>cl_got := cl_got c @ [msg]\<rparr>)
      else if length (cl_buf c) < cl_cap c then Inr (c\<lparr>cl_buf := cl_buf c @ [msg]\<rparr>)
      else Inr (c\<lparr>cl_dropped := cl_dropped c @ [msg]\<rparr>))"

definition deliver :: "bool \<Rightarrow> Message \<Rightarrow> nat \<Rightarrow> Broker \<Rightarrow> Broker" where
  "deliver waiting msg i b =
     (if \<not> wants (br_heap b ! i) msg then b
      else case try_send waiting msg (br_heap b ! i) of
        Inl p \<Rightarrow> b\<lparr>br_panic := Some p\<rparr>
      | Inr c \<Rightarrow> b\<lparr>br_heap := (br_heap b)[i := c]\<rparr>)"

text \<open>The two stretches of \<open>Broadcast\<close>: the snapshot, and one turn of the loop over it.\<close>

definition begin_broadcast :: "Message \<Rightarrow> nat list \<Rightarrow> Broker \<Rightarrow> Broker" where
  "begin_broadcast msg snapshot b =
     b\<lparr>br_sends := br_sends b @ [(msg, snapshot)], br_log := br_log b @ [msg]\<rparr>"

definition send_turn :: "bool \<Rightarrow> nat \<Rightarrow> Broker \<Rightarrow> Broker" where
  "send_turn waiting k b = (case br_sends b ! k of
       (msg, []) \<Rightarrow> b\<lparr>br_sends := take k (br_sends b) @ drop (Suc k) (br_sends b)\<rparr>
     | (msg, i # rest) \<Rightarrow> deliver waiting msg i (b\<lparr>br_sends := (br_sends b)[k := (msg, rest)]\<rparr>))"

text \<open>The call as a whole, when nothing runs beside it and no reader is waiting.\<close>

definition Broadcast :: "Message \<Rightarrow> Broker \<Rightarrow> Broker" where
  "Broadcast msg b =
     fold (\<lambda>i b. if br_panic b = None then deliver False msg i b else b) (br_clients b) (b\<lparr>br_log := br_log b @ [msg]\<rparr>)"

definition receive :: "nat \<Rightarrow> Broker \<Rightarrow> Broker" where
  "receive i b = (let c = br_heap b ! i in
     b\<lparr>br_heap := (br_heap b)[i := c\<lparr>cl_buf := tl (cl_buf c), cl_got := cl_got c @ [hd (cl_buf c)]\<rparr>]\<rparr>)"

subsection \<open>All interleavings\<close>

text \<open>A transport handler unsubscribes the client it subscribed, once, in a deferred call: the rule
  for \<open>Unsubscribe\<close> takes a registered client. A panic ends the program.\<close>

inductive broker_step :: "Broker \<Rightarrow> Broker \<Rightarrow> bool" where
  Subscribed: "br_panic b = None \<Longrightarrow> broker_step b (snd (Subscribe types b))"
| Unregistered: "\<lbrakk>br_panic b = None; i \<in> set (br_clients b)\<rbrakk> \<Longrightarrow> broker_step b (unregister i b)"
| Closed: "\<lbrakk>br_panic b = None; i \<in> set (br_closing b)\<rbrakk> \<Longrightarrow> broker_step b (close_channel i b)"
| Snapshot: "\<lbrakk>br_panic b = None; mset snapshot = mset (br_clients b)\<rbrakk> \<Longrightarrow>
     broker_step b (begin_broadcast msg snapshot b)"
| Send: "\<lbrakk>br_panic b = None; k < length (br_sends b)\<rbrakk> \<Longrightarrow> broker_step b (send_turn waiting k b)"
| Received: "\<lbrakk>br_panic b = None; i < length (br_heap b); cl_buf (br_heap b ! i) \<noteq> []\<rbrakk> \<Longrightarrow>
     broker_step b (receive i b)"

text \<open>What running broadcasts still have to offer to a client.\<close>

definition pending :: "Broker \<Rightarrow> nat \<Rightarrow> Message multiset" where
  "pending b i = mset (map fst (filter (\<lambda>(msg, rest). wants (br_heap b ! i) msg \<and> i \<in> set rest) (br_sends b)))"

definition seen :: "Client \<Rightarrow> Message multiset" where
  "seen c = mset (cl_got c @ cl_buf c @ cl_dropped c)"

definition offered :: "Broker \<Rightarrow> nat \<Rightarrow> Message multiset" where
  "offered b i = mset (filter (wants (br_heap b ! i)) (drop (cl_since (br_heap b ! i)) (br_log b)))"

definition client_ok :: "Broker \<Rightarrow> nat \<Rightarrow> bool" where
  "client_ok b i \<longleftrightarrow> cl_cap (br_heap b ! i) = br_bufSize b
     \<and> length (cl_buf (br_heap b ! i)) \<le> br_bufSize b
     \<and> cl_since (br_heap b ! i) \<le> length (br_log b)
     \<and> (if i \<in> set (br_clients b)
        then \<not> cl_closed (br_heap b ! i) \<and> seen (br_heap b ! i) + pending b i = offered b i
        else seen (br_heap b ! i) + pending b i \<subseteq># offered b i)"

definition broker_inv :: "Broker \<Rightarrow> bool" where
  "broker_inv b \<longleftrightarrow> distinct (br_clients b @ br_closing b)
     \<and> set (br_clients b) \<union> set (br_closing b) \<subseteq> {..<length (br_heap b)}
     \<and> (\<forall>i\<in>set (br_closing b). \<not> cl_closed (br_heap b ! i))
     \<and> (\<forall>(msg, rest)\<in>set (br_sends b). distinct rest \<and> set rest \<subseteq> {..<length (br_heap b)})
     \<and> (br_panic b = None \<longrightarrow> (\<forall>i<length (br_heap b). client_ok b i))
     \<and> br_panic b \<noteq> Some CloseOfClosed"

subsection \<open>Every step keeps the invariant\<close>

lemma broker_invI:
  assumes "distinct (br_clients b @ br_closing b)"
    and "set (br_clients b) \<union> set (br_closing b) \<subseteq> {..<length (br_heap b)}"
    and "\<And>i. i \<in> set (br_closing b) \<Longrightarrow> \<not> cl_closed (br_heap b ! i)"
    and "\<And>msg rest. (msg, rest) \<in> set (br_sends b) \<Longrightarrow> distinct rest \<and> set rest \<subseteq> {..<length (br_heap b)}"
    and "\<And>i. \<lbrakk>br_panic b = None; i < length (br_heap b)\<rbrakk> \<Longrightarrow> client_ok b i"
    and "br_panic b \<noteq> Some CloseOfClosed"
  shows "broker_inv b"
  using assms unfolding broker_inv_def by blast

lemma broker_invD:
  assumes "broker_inv b"
  shows "distinct (br_clients b)" "distinct (br_closing b)" "set (br_clients b) \<inter> set (br_closing b) = {}"
    and "\<And>i. i \<in> set (br_clients b) \<Longrightarrow> i < length (br_heap b)"
    and "\<And>i. i \<in> set (br_closing b) \<Longrightarrow> i < length (br_heap b) \<and> \<not> cl_closed (br_heap b ! i)"
    and "\<And>msg rest. (msg, rest) \<in> set (br_sends b) \<Longrightarrow> distinct rest \<and> set rest \<subseteq> {..<length (br_heap b)}"
    and "\<And>i. \<lbrakk>br_panic b = None; i < length (br_heap b)\<rbrakk> \<Longrightarrow> client_ok b i"
  using assms unfolding broker_inv_def by auto

lemma NewBroker_inv: "broker_inv (NewBroker n)"
  by (simp add: broker_inv_def NewBroker_def)

text \<open>Replacing one client record, with the same filter and the same history of the log.\<close>

definition put_client :: "nat \<Rightarrow> Client \<Rightarrow> Broker \<Rightarrow> Broker" where
  "put_client c x b = b\<lparr>br_heap := (br_heap b)[c := x]\<rparr>"

lemma put_client_simps [simp]:
  "br_heap (put_client c x b) = (br_heap b)[c := x]" "br_sends (put_client c x b) = br_sends b"
  "br_clients (put_client c x b) = br_clients b" "br_closing (put_client c x b) = br_closing b"
  "br_panic (put_client c x b) = br_panic b" "br_log (put_client c x b) = br_log b"
  "br_bufSize (put_client c x b) = br_bufSize b"
  by (simp_all add: put_client_def)

definition same_kind :: "Client \<Rightarrow> Client \<Rightarrow> bool" where
  "same_kind x y \<longleftrightarrow> cl_filter x = cl_filter y \<and> cl_since x = cl_since y \<and> cl_cap x = cl_cap y"

lemma put_client_account:
  assumes "c < length (br_heap b)" "same_kind x (br_heap b ! c)"
  shows "pending (put_client c x b) i = pending b i" "offered (put_client c x b) i = offered b i"
  using assms by (cases "i = c"; simp add: pending_def offered_def wants_def same_kind_def)+

lemma put_client_ok:
  assumes "client_ok b i" "c < length (br_heap b)" "same_kind x (br_heap b ! c)"
    and "length (cl_buf x) \<le> br_bufSize b" "seen x = seen (br_heap b ! c)"
    and "c \<in> set (br_clients b) \<Longrightarrow> \<not> cl_closed x"
  shows "client_ok (put_client c x b) i"
  using assms put_client_account [OF assms(2,3), of i]
  by (cases "i = c") (auto simp: client_ok_def same_kind_def)

lemma nth_append_lt: "i < length xs \<Longrightarrow> (xs @ ys) ! i = xs ! i"
  by (simp add: nth_append)

lemma Subscribe_inv:
  assumes inv: "broker_inv b" and "br_panic b = None"
  shows "broker_inv (snd (Subscribe types b))"
proof (rule broker_invI)
  let ?b = "snd (Subscribe types b)" and ?n = "length (br_heap b)"
  note I = broker_invD [OF inv]
  have old: "br_heap ?b ! i = br_heap b ! i" if "i < ?n" for i
    using that by (simp add: Subscribe_def Let_def nth_append_lt)
  have unsent: "\<not> (\<exists>msg rest. (msg, rest) \<in> set (br_sends b) \<and> ?n \<in> set rest)"
    using I(6) by fastforce
  show "client_ok ?b i" if i: "i < length (br_heap ?b)" for i
  proof (cases "i = ?n")
    case True
    then show ?thesis using unsent
      by (auto simp: client_ok_def Subscribe_def Let_def new_client_def pending_def seen_def offered_def filter_empty_conv)
  next
    case False
    with i have "i < ?n" by (simp add: Subscribe_def Let_def)
    with I(7) [OF assms(2) this] old [OF this] show ?thesis
      by (auto simp: client_ok_def pending_def offered_def Subscribe_def Let_def)
  qed
  show "(msg, rest) \<in> set (br_sends ?b) \<Longrightarrow> distinct rest \<and> set rest \<subseteq> {..<length (br_heap ?b)}" for msg rest
    using I(6) [of msg rest] by (auto simp: Subscribe_def Let_def)
  show "i \<in> set (br_closing ?b) \<Longrightarrow> \<not> cl_closed (br_heap ?b ! i)" for i
    using I(5) [of i] old [of i] by (simp add: Subscribe_def Let_def)
qed (use broker_invD [OF inv] assms(2) in \<open>fastforce simp: Subscribe_def Let_def\<close>)+

lemma unregister_inv:
  assumes inv: "broker_inv b" and "br_panic b = None" "c \<in> set (br_clients b)"
  shows "broker_inv (unregister c b)"
proof (rule broker_invI)
  note I = broker_invD [OF inv]
  show "client_ok (unregister c b) i" if "i < length (br_heap (unregister c b))" for i
    using I(7) [OF assms(2), of i] that
    by (auto simp: client_ok_def pending_def offered_def unregister_def split: if_splits)
  show "i \<in> set (br_closing (unregister c b)) \<Longrightarrow> \<not> cl_closed (br_heap (unregister c b) ! i)" for i
    using I(5) [of i] I(7) [OF assms(2) I(4) [OF assms(3)]] assms(3)
    by (auto simp: unregister_def client_ok_def)
  show "(msg, rest) \<in> set (br_sends (unregister c b)) \<Longrightarrow>
      distinct rest \<and> set rest \<subseteq> {..<length (br_heap (unregister c b))}" for msg rest
    using I(6) [of msg rest] by (simp add: unregister_def)
qed (use broker_invD [OF inv] assms in \<open>fastforce simp: unregister_def distinct_removeAll\<close>)+

lemma close_channel_inv:
  assumes inv: "broker_inv b" and "br_panic b = None" "c \<in> set (br_closing b)"
  shows "broker_inv (close_channel c b)"
proof (rule broker_invI)
  note I = broker_invD [OF inv]
  let ?b = "close_channel c b"
  have c: "c < length (br_heap b)" "\<not> cl_closed (br_heap b ! c)" "c \<notin> set (br_clients b)"
    using I(5) [OF assms(3)] I(3) assms(3) by auto
  have b: "?b = (put_client c ((br_heap b ! c)\<lparr>cl_closed := True\<rparr>) b)\<lparr>br_closing := removeAll c (br_closing b)\<rparr>"
    using c by (simp add: close_channel_def put_client_def)
  show "client_ok ?b i" if "i < length (br_heap ?b)" for i
  proof -
    have "client_ok (put_client c ((br_heap b ! c)\<lparr>cl_closed := True\<rparr>) b) i"
      using I(7) [OF assms(2), of c] I(7) [OF assms(2), of i] that c unfolding b
      by (intro put_client_ok) (auto simp: same_kind_def seen_def client_ok_def)
    then show ?thesis unfolding b by (auto simp: client_ok_def pending_def offered_def split: if_splits)
  qed
  show "i \<in> set (br_closing ?b) \<Longrightarrow> \<not> cl_closed (br_heap ?b ! i)" for i
    using I(5) [of i] unfolding b by simp
  show "(msg, rest) \<in> set (br_sends ?b) \<Longrightarrow> distinct rest \<and> set rest \<subseteq> {..<length (br_heap ?b)}" for msg rest
    using I(6) [of msg rest] unfolding b by simp
  show "distinct (br_clients ?b @ br_closing ?b)" "br_panic ?b \<noteq> Some CloseOfClosed"
    using I(1-3) assms(2) unfolding b by (auto simp: distinct_removeAll)
  show "set (br_clients ?b) \<union> set (br_closing ?b) \<subseteq> {..<length (br_heap ?b)}"
    using I(4,5) unfolding b by fastforce
qed

lemma begin_broadcast_inv:
  assumes inv: "broker_inv b" and "br_panic b = None" and snap: "mset snapshot = mset (br_clients b)"
  shows "broker_inv (begin_broadcast msg snapshot b)"
proof (rule broker_invI)
  note I = broker_invD [OF inv]
  let ?b = "begin_broadcast msg snapshot b"
  have set_snap: "set snapshot = set (br_clients b)" and dist: "distinct snapshot"
    using mset_eq_setD [OF snap] mset_eq_imp_distinct_iff [OF snap] I(1) by simp_all
  have pend: "pending ?b i = pending b i + (if i \<in> set (br_clients b) \<and> wants (br_heap b ! i) msg then {#msg#} else {#})" for i
    by (auto simp: pending_def begin_broadcast_def set_snap)
  have off: "offered ?b i = offered b i + (if wants (br_heap b ! i) msg then {#msg#} else {#})"
    if "cl_since (br_heap b ! i) \<le> length (br_log b)" for i
    using that by (simp add: offered_def begin_broadcast_def)
  show "client_ok ?b i" if i: "i < length (br_heap ?b)" for i
  proof -
    have ok: "client_ok b i" using I(7) [OF assms(2), of i] i by (simp add: begin_broadcast_def)
    have sub: "A \<subseteq># B \<Longrightarrow> A \<subseteq># add_mset msg B" for A B
      using mset_subset_eq_add_right [of B "{#msg#}"] by (auto intro: subset_mset.order_trans)
    from ok off [of i] pend [of i] show ?thesis
      by (cases "i \<in> set (br_clients b)"; cases "wants (br_heap b ! i) msg")
        (simp_all add: client_ok_def begin_broadcast_def sub)
  qed
  show "(m, rest) \<in> set (br_sends ?b) \<Longrightarrow> distinct rest \<and> set rest \<subseteq> {..<length (br_heap ?b)}" for m rest
    using I(6) [of m rest] I(4) dist by (auto simp: begin_broadcast_def set_snap)
  show "i \<in> set (br_closing ?b) \<Longrightarrow> \<not> cl_closed (br_heap ?b ! i)" for i
    using I(5) [of i] by (simp add: begin_broadcast_def)
qed (use broker_invD [OF inv] assms(2) in \<open>fastforce simp: begin_broadcast_def\<close>)+

lemma receive_inv:
  assumes inv: "broker_inv b" and "br_panic b = None" and c: "c < length (br_heap b)" "cl_buf (br_heap b ! c) \<noteq> []"
  shows "broker_inv (receive c b)"
proof (rule broker_invI)
  note I = broker_invD [OF inv]
  let ?b = "receive c b"
  let ?x = "(br_heap b ! c)\<lparr>cl_buf := tl (cl_buf (br_heap b ! c)),
    cl_got := cl_got (br_heap b ! c) @ [hd (cl_buf (br_heap b ! c))]\<rparr>"
  have b: "?b = put_client c ?x b"
    by (simp add: receive_def put_client_def Let_def)
  have seen: "seen ?x = seen (br_heap b ! c)"
    using c(2) by (cases "cl_buf (br_heap b ! c)") (simp_all add: seen_def)
  show "client_ok ?b i" if "i < length (br_heap ?b)" for i
    using I(7) [OF assms(2), of c] I(7) [OF assms(2), of i] that c seen unfolding b
    by (intro put_client_ok) (auto simp: same_kind_def client_ok_def)
  show "i \<in> set (br_closing ?b) \<Longrightarrow> \<not> cl_closed (br_heap ?b ! i)" for i
    using I(5) [of i] c unfolding b by (cases "i = c") auto
  show "(m, rest) \<in> set (br_sends ?b) \<Longrightarrow> distinct rest \<and> set rest \<subseteq> {..<length (br_heap ?b)}" for m rest
    using I(6) [of m rest] unfolding b by simp
  show "set (br_clients ?b) \<union> set (br_closing ?b) \<subseteq> {..<length (br_heap ?b)}"
    using I(4,5) unfolding b by fastforce
  show "distinct (br_clients ?b @ br_closing ?b)" "br_panic ?b \<noteq> Some CloseOfClosed"
    using I(1-3) assms(2) unfolding b by auto
qed


text \<open>One turn of a running broadcast.\<close>

definition set_send :: "nat \<Rightarrow> Message \<times> nat list \<Rightarrow> Broker \<Rightarrow> Broker" where
  "set_send k p b = b\<lparr>br_sends := (br_sends b)[k := p]\<rparr>"

lemma set_send_simps [simp]:
  "br_heap (set_send k p b) = br_heap b" "br_sends (set_send k p b) = (br_sends b)[k := p]"
  "br_clients (set_send k p b) = br_clients b" "br_closing (set_send k p b) = br_closing b"
  "br_panic (set_send k p b) = br_panic b" "br_log (set_send k p b) = br_log b"
  "br_bufSize (set_send k p b) = br_bufSize b" "offered (set_send k p b) i = offered b i"
  by (simp_all add: set_send_def offered_def)

lemma mset_filter_update:
  assumes "k < length xs"
  shows "mset (map f (filter P xs)) + (if P y then {#f y#} else {#})
    = mset (map f (filter P (xs[k := y]))) + (if P (xs ! k) then {#f (xs ! k)#} else {#})"
  using assms by (subst id_take_nth_drop [OF assms]) (simp add: upd_conv_take_nth_drop)

lemma pending_set_send:
  assumes "k < length (br_sends b)" "br_sends b ! k = (msg, j # rest)" "j \<notin> set rest"
  shows "pending b i = pending (set_send k (msg, rest) b) i
    + (if i = j \<and> wants (br_heap b ! i) msg then {#msg#} else {#})"
  using mset_filter_update [OF assms(1), of fst "\<lambda>(msg, rest). wants (br_heap b ! i) msg \<and> i \<in> set rest" "(msg, rest)"]
    assms(2,3) by (auto simp: pending_def split: if_splits)

lemma try_send_ok:
  assumes "try_send waiting msg c = Inr x"
  shows "same_kind x c" "seen x = add_mset msg (seen c)" "\<not> cl_closed c" "\<not> cl_closed x"
    and "length (cl_buf c) \<le> cl_cap c \<Longrightarrow> length (cl_buf x) \<le> cl_cap c"
  using assms by (auto simp: try_send_def same_kind_def seen_def split: if_splits)

lemma set_send_sends:
  assumes "k < length (br_sends b)" "br_sends b ! k = (msg, j # rest)" "(m, r) \<in> set ((br_sends b)[k := (msg, rest)])"
  obtains "(m, r) \<in> set (br_sends b)" | "m = msg" "r = rest" "(msg, j # rest) \<in> set (br_sends b)"
  using assms set_update_subset_insert [of "br_sends b" k "(msg, rest)"] nth_mem [OF assms(1)] by fastforce

lemma deliver_cases:
  obtains (skip) "\<not> wants (br_heap b ! i) msg" "deliver waiting msg i b = b"
  | (panic) "wants (br_heap b ! i) msg" "deliver waiting msg i b = b\<lparr>br_panic := Some SendOnClosed\<rparr>"
  | (sent) x where "wants (br_heap b ! i) msg" "try_send waiting msg (br_heap b ! i) = Inr x"
      "deliver waiting msg i b = put_client i x b"
  by (cases "try_send waiting msg (br_heap b ! i)"; cases "wants (br_heap b ! i) msg")
    (auto simp: deliver_def put_client_def try_send_def split: if_splits)

lemma send_inv:
  assumes inv: "broker_inv b" and "br_panic b = None" "k < length (br_sends b)" "br_sends b ! k = (msg, j # rest)"
  shows "broker_inv (deliver waiting msg j (set_send k (msg, rest) b))"
proof -
  note I = broker_invD [OF inv]
  let ?s = "set_send k (msg, rest) b"
  have j: "j \<notin> set rest" "j < length (br_heap b)"
    using I(6) [of msg "j # rest"] nth_mem [OF assms(3)] assms(4) by auto
  note pend = pending_set_send [OF assms(3,4) j(1)]
  have sends: "distinct r \<and> set r \<subseteq> {..<length (br_heap b)}" if "(m, r) \<in> set (br_sends ?s)" for m r
    using that unfolding set_send_simps
  proof (rule set_send_sends [OF assms(3,4)])
    assume "m = msg" "r = rest" "(msg, j # rest) \<in> set (br_sends b)"
    then show ?thesis using I(6) [of msg "j # rest"] by simp
  qed (rule I(6))
  have others: "distinct (br_clients b @ br_closing b)"
    "set (br_clients b) \<union> set (br_closing b) \<subseteq> {..<length (br_heap b)}"
    using I(1-5) by auto
  show ?thesis
  proof (cases rule: deliver_cases [of ?s j msg waiting])
    case skip
    then have "client_ok ?s i" if "i < length (br_heap b)" for i
      using I(7) [OF assms(2) that] pend [of i] by (auto simp: client_ok_def split: if_splits)
    then show ?thesis unfolding skip(2) using others sends I(5) assms(2) by (intro broker_invI) auto
  next
    case panic
    then show ?thesis unfolding panic(2) using others sends I(5) by (intro broker_invI) auto
  next
    case (sent x)
    note x = try_send_ok [OF sent(2)]
    have acc: "pending (put_client j x ?s) i = pending ?s i" "offered (put_client j x ?s) i = offered b i" for i
      using put_client_account [of j ?s x i] x(1) j(2) by simp_all
    have "client_ok (put_client j x ?s) i" if "i < length (br_heap b)" for i
      using I(7) [OF assms(2) that] pend [of i] x sent(1) j(2) acc [of i]
      by (cases "i = j") (auto simp: client_ok_def same_kind_def split: if_splits)
    then show ?thesis unfolding sent(3) using others sends I(5) assms(2) x(4) j(2)
      by (intro broker_invI) (auto simp: nth_list_update)
  qed
qed

lemma finish_inv:
  assumes inv: "broker_inv b" and "br_panic b = None" "k < length (br_sends b)" "br_sends b ! k = (msg, [])"
  shows "broker_inv (b\<lparr>br_sends := take k (br_sends b) @ drop (Suc k) (br_sends b)\<rparr>)" (is "broker_inv ?b")
proof (rule broker_invI)
  note I = broker_invD [OF inv]
  have "pending b i = pending ?b i" for i
    using arg_cong [OF id_take_nth_drop [OF assms(3)], of "filter (\<lambda>(msg, rest). wants (br_heap b ! i) msg \<and> i \<in> set rest)"]
    by (simp add: pending_def assms(4) flip: mset_filter)
  then show "client_ok ?b i" if "i < length (br_heap ?b)" for i
    using I(7) [OF assms(2), of i] that by (auto simp: client_ok_def offered_def split: if_splits)
  show "(m, r) \<in> set (br_sends ?b) \<Longrightarrow> distinct r \<and> set r \<subseteq> {..<length (br_heap ?b)}" for m r
    using I(6) [of m r] by (auto dest: in_set_takeD in_set_dropD)
qed (use broker_invD [OF inv] assms(2) in fastforce)+

lemma send_turn_inv:
  assumes "broker_inv b" "br_panic b = None" "k < length (br_sends b)"
  shows "broker_inv (send_turn waiting k b)"
proof (cases "br_sends b ! k")
  case (Pair msg rest)
  then show ?thesis using finish_inv [OF assms, of msg] send_inv [OF assms, of msg]
    by (cases rest) (auto simp: send_turn_def set_send_def)
qed

lemma broker_step_inv: "broker_step b b' \<Longrightarrow> broker_inv b \<Longrightarrow> broker_inv b'"
  by (cases rule: broker_step.cases)
    (auto intro: Subscribe_inv unregister_inv close_channel_inv begin_broadcast_inv send_turn_inv receive_inv)

lemma broker_reachable_inv: "broker_step\<^sup>*\<^sup>* (NewBroker n) b \<Longrightarrow> broker_inv b"
  by (induction rule: rtranclp_induct) (auto intro: NewBroker_inv broker_step_inv)

lemma br_bufSize_step: "broker_step b b' \<Longrightarrow> br_bufSize b' = br_bufSize b"
proof (induction rule: broker_step.induct)
  case (Send b k waiting)
  obtain msg rest where "br_sends b ! k = (msg, rest)" by fastforce
  then show ?case by (cases rest) (auto simp: send_turn_def deliver_def split: sum.splits)
qed (auto simp: Subscribe_def unregister_def close_channel_def begin_broadcast_def receive_def Let_def)

lemma br_bufSize_reachable: "broker_step\<^sup>*\<^sup>* (NewBroker n) b \<Longrightarrow> br_bufSize b = n"
  by (induction rule: rtranclp_induct) (auto simp: br_bufSize_step NewBroker_def)

subsection \<open>The subscriptions on the event bus\<close>

datatype domain_type = LibraryType library_event_type | T_CommandStarted | T_CommandCompleted | T_CommandFailed

fun domain_typeOf :: "domain_event \<Rightarrow> domain_type" where
  "domain_typeOf (LibraryEvent e) = LibraryType (typeOf e)"
| "domain_typeOf (CommandEvent (CommandStarted _ _)) = T_CommandStarted"
| "domain_typeOf (CommandEvent (CommandCompleted _ _ _)) = T_CommandCompleted"
| "domain_typeOf (CommandEvent (CommandFailed _ _ _)) = T_CommandFailed"

definition relay ::
  "domain_type \<Rightarrow> string \<Rightarrow> string \<Rightarrow> (domain_type, Broker, domain_event) bus \<Rightarrow> (domain_type, Broker, domain_event) bus" where
  "relay t name action =
     SubscribeAsync t (\<lambda>ev. if domain_typeOf ev = t then Some ev else None)
       (\<lambda>e. Broadcast \<lparr>m_Name = name, m_Action = action, m_Resource = e\<rparr>)"

definition SubscribeToEvents :: "(domain_type, Broker, domain_event) bus \<Rightarrow> (domain_type, Broker, domain_event) bus" where
  "SubscribeToEvents bus =
     relay T_CommandFailed MsgCommand ''failed'' (
     relay T_CommandCompleted MsgCommand ''updated'' (
     relay T_CommandStarted MsgCommand ''updated'' (
     relay (LibraryType T_EpisodeFileDeleted) MsgEpisodeFile ''deleted'' (
     relay (LibraryType T_EpisodeFileAdded) MsgEpisodeFile ''updated'' (
     relay (LibraryType T_EpisodeDeleted) MsgEpisode ''deleted'' (
     relay (LibraryType T_EpisodeUpdated) MsgEpisode ''updated'' (
     relay (LibraryType T_EpisodeAdded) MsgEpisode ''updated'' (
     relay (LibraryType T_SeriesDeleted) MsgSeries ''deleted'' (
     relay (LibraryType T_SeriesUpdated) MsgSeries ''updated'' (
     relay (LibraryType T_SeriesAdded) MsgSeries ''updated'' bus))))))))))"

text \<open>The name and the action of the message an event becomes: season changes are not relayed.\<close>

fun relayed :: "domain_event \<Rightarrow> (string \<times> string) option" where
  "relayed (LibraryEvent e) = (case e of
     SeriesAdded _ _ _ \<Rightarrow> Some (''series'', ''updated'') | SeriesUpdated _ _ \<Rightarrow> Some (''series'', ''updated'')
   | SeriesDeleted _ \<Rightarrow> Some (''series'', ''deleted'') | SeasonUpdated _ _ _ \<Rightarrow> None
   | EpisodeAdded _ _ \<Rightarrow> Some (''episode'', ''updated'') | EpisodeUpdated _ _ \<Rightarrow> Some (''episode'', ''updated'')
   | EpisodeDeleted _ _ \<Rightarrow> Some (''episode'', ''deleted'') | EpisodeFileAdded _ _ _ \<Rightarrow> Some (''episodefile'', ''updated'')
   | EpisodeFileDeleted _ _ \<Rightarrow> Some (''episodefile'', ''deleted''))"
| "relayed (CommandEvent e) = (case e of CommandFailed _ _ _ \<Rightarrow> Some (''command'', ''failed'') | _ \<Rightarrow> Some (''command'', ''updated''))"

lemma SubscribeAsync_one:
  "b t = [] \<Longrightarrow> SubscribeAsync t typed handler b
     = b(t := [\<lparr>h_order = 0, h_async = True, h_fn = typed_fn typed (\<lambda>e s. (Inr (), handler e s))\<rparr>])"
  by (simp add: SubscribeAsync_def register_def)

lemma relay_one: "b t = [] \<Longrightarrow> relay t name action b = b(t := [\<lparr>h_order = 0, h_async = True,
    h_fn = typed_fn (\<lambda>ev. if domain_typeOf ev = t then Some ev else None)
      (\<lambda>e s. (Inr (), Broadcast \<lparr>m_Name = name, m_Action = action, m_Resource = e\<rparr> s))\<rparr>])"
  by (simp add: relay_def SubscribeAsync_one)

lemmas message_names = MsgSeries_def MsgEpisode_def MsgEpisodeFile_def MsgCommand_def

text \<open>With no free slot in the pool of the bus the relay runs within \<open>Publish\<close>.\<close>

lemma Publish_relays:
  "Publish domain_typeOf [] (SubscribeToEvents NewBus) ev b = (Inr [], case relayed ev of
     None \<Rightarrow> b
   | Some (name, action) \<Rightarrow> Broadcast \<lparr>m_Name = name, m_Action = action, m_Resource = ev\<rparr> b)"
proof (cases ev)
  case (LibraryEvent e)
  then show ?thesis
    by (cases e) (simp_all add: Publish_def SubscribeToEvents_def NewBus_def relay_one typed_fn_def message_names Let_def)
next
  case (CommandEvent e)
  then show ?thesis
    by (cases e) (simp_all add: Publish_def SubscribeToEvents_def NewBus_def relay_one typed_fn_def message_names Let_def)
qed

text \<open>What a broadcast does to one open client.\<close>

definition offer :: "Message \<Rightarrow> Client \<Rightarrow> Client" where
  "offer msg c = (if \<not> wants c msg then c
     else if length (cl_buf c) < cl_cap c then c\<lparr>cl_buf := cl_buf c @ [msg]\<rparr>
     else c\<lparr>cl_dropped := cl_dropped c @ [msg]\<rparr>)"

lemma deliver_open:
  assumes "i < length (br_heap b)" "\<not> cl_closed (br_heap b ! i)"
  shows "deliver False msg i b = put_client i (offer msg (br_heap b ! i)) b"
  using assms by (auto simp: deliver_def try_send_def offer_def put_client_def)

lemma deliver_all:
  assumes "distinct is" "set is \<subseteq> {..<length (br_heap b)}" "\<And>i. i \<in> set is \<Longrightarrow> \<not> cl_closed (br_heap b ! i)"
    and "br_panic b = None"
  shows "fold (\<lambda>i b. if br_panic b = None then deliver False msg i b else b) is b
    = b\<lparr>br_heap := map (\<lambda>i. if i \<in> set is then offer msg (br_heap b ! i) else br_heap b ! i) [0..<length (br_heap b)]\<rparr>"
  using assms
proof (induction "is" arbitrary: b)
  case (Cons i "is")
  let ?b = "put_client i (offer msg (br_heap b ! i)) b"
  have "fold (\<lambda>i b. if br_panic b = None then deliver False msg i b else b) (i # is) b
      = fold (\<lambda>i b. if br_panic b = None then deliver False msg i b else b) is ?b"
    using Cons.prems by (simp add: deliver_open)
  also have "\<dots> = ?b\<lparr>br_heap := map (\<lambda>i. if i \<in> set is then offer msg (br_heap ?b ! i) else br_heap ?b ! i) [0..<length (br_heap ?b)]\<rparr>"
    using Cons.prems by (intro Cons.IH) (auto simp: nth_list_update)
  also have "\<dots> = b\<lparr>br_heap := map (\<lambda>j. if j \<in> set (i # is) then offer msg (br_heap b ! j) else br_heap b ! j) [0..<length (br_heap b)]\<rparr>"
    using Cons.prems by (auto simp: put_client_def nth_list_update intro!: map_cong)
  finally show ?case .
qed (simp add: map_nth)

subsection \<open>The event stream\<close>

text \<open>sse.go: the filter a request asks for, and the frame written for a message. The JSON text of
  the body is an argument: marshalling it can fail, and the message is then skipped.\<close>

fun Split :: "char \<Rightarrow> string \<Rightarrow> string list" where
  "Split sep [] = [[]]"
| "Split sep (c # cs) = (if c = sep then [] # Split sep cs
     else case Split sep cs of p # ps \<Rightarrow> (c # p) # ps | [] \<Rightarrow> [[c]])"

definition sse_filter :: "string \<Rightarrow> string list" where
  "sse_filter raw = (if raw = '''' then [] else filter (\<lambda>part. part \<noteq> '''') (map TrimSpace (Split (CHR '','') raw)))"

definition sse_write :: "(Message \<Rightarrow> string option) \<Rightarrow> Message \<Rightarrow> string \<Rightarrow> string" where
  "sse_write marshal msg out = (case marshal msg of None \<Rightarrow> out
     | Some body \<Rightarrow> out @ ''event: '' @ m_Name msg @ [CHR 0x0A] @ ''data: '' @ body @ [CHR 0x0A, CHR 0x0A])"

definition sse_stream :: "(Message \<Rightarrow> string option) \<Rightarrow> Client \<Rightarrow> string" where
  "sse_stream marshal c = fold (sse_write marshal) (cl_got c) ''''"

subsection \<open>The race between a broadcast and a disconnect\<close>

definition before_race :: "nat \<Rightarrow> Message \<Rightarrow> Broker" where
  "before_race n msg = close_channel 0 (unregister 0 (begin_broadcast msg [0] (snd (Subscribe [] (NewBroker n)))))"

lemmas broker_ops = Subscribe_def new_client_def NewBroker_def begin_broadcast_def unregister_def close_channel_def
  send_turn_def deliver_def try_send_def wants_def Let_def

lemma before_race_reachable: "broker_step\<^sup>*\<^sup>* (NewBroker n) (before_race n msg)"
proof -
  let ?s = "snd (Subscribe [] (NewBroker n))"
  let ?r = "begin_broadcast msg [0] ?s"
  let ?u = "unregister 0 ?r"
  have "broker_step (NewBroker n) ?s" by (rule Subscribed) (simp add: broker_ops)
  moreover have "broker_step ?s ?r" by (rule Snapshot) (simp_all add: broker_ops)
  moreover have "broker_step ?r ?u" by (rule Unregistered) (simp_all add: broker_ops)
  moreover have "broker_step ?u (before_race n msg)"
    unfolding before_race_def by (rule Closed) (simp_all add: broker_ops)
  ultimately show ?thesis by (meson converse_rtranclp_into_rtranclp rtranclp.rtrancl_refl)
qed

lemma race: "broker_step (before_race n msg) (send_turn False 0 (before_race n msg))"
  "br_panic (send_turn False 0 (before_race n msg)) = Some SendOnClosed"
  by (rule Send; simp add: before_race_def broker_ops) (simp add: before_race_def broker_ops)

lemma racing_run: "\<exists>b. broker_step\<^sup>*\<^sup>* (NewBroker n) b \<and> br_panic b = Some SendOnClosed"
  using rtranclp.rtrancl_into_rtrancl [OF before_race_reachable race(1)] race(2) by blast

lemma send_turn_panics:
  assumes "br_panic b = None" "br_panic (send_turn waiting k b) \<noteq> None"
  obtains msg i rest where "br_sends b ! k = (msg, i # rest)" "wants (br_heap b ! i) msg" "cl_closed (br_heap b ! i)"
proof (cases "br_sends b ! k")
  case (Pair msg rest)
  with assms that show ?thesis
    by (cases rest) (auto simp: send_turn_def deliver_def try_send_def split: if_splits sum.splits)
qed

lemma racing_only:
  assumes "broker_step\<^sup>*\<^sup>* (NewBroker n) b" "broker_step b b'" "br_panic b' \<noteq> None"
  shows "\<exists>msg i rest. (msg, i # rest) \<in> set (br_sends b) \<and> wants (br_heap b ! i) msg
    \<and> cl_closed (br_heap b ! i) \<and> i \<notin> set (br_clients b)"
proof -
  note I = broker_invD [OF broker_reachable_inv [OF assms(1)]]
  from assms(2) show ?thesis
  proof (cases rule: broker_step.cases)
    case (Send k waiting)
    from Send(2) assms(3) obtain msg i rest where s: "br_sends b ! k = (msg, i # rest)"
      "wants (br_heap b ! i) msg" "cl_closed (br_heap b ! i)"
      unfolding Send(1) by (rule send_turn_panics)
    then have "(msg, i # rest) \<in> set (br_sends b)" using nth_mem [OF Send(3)] by simp
    moreover have "i \<notin> set (br_clients b)" using I(4,7) Send(2) s(3) by (auto simp: client_ok_def)
    ultimately show ?thesis using s by blast
  qed (use assms(3) I(5) in \<open>auto simp: Subscribe_def unregister_def close_channel_def begin_broadcast_def receive_def Let_def\<close>)
qed

subsection \<open>Properties\<close>

text \<open>C25: In every interleaving of subscriptions, disconnects, broadcasts and reads, as long as the
  program has not panicked, a registered client has an open channel with at most the configured
  number of messages, and the messages it has read, those in its channel, those dropped and those running
  broadcasts still have to send it are, counted with multiplicity, exactly the messages broadcast since it
  subscribed that its filter accepts. No channel is ever closed twice.\<close>

theorem broker_accounts:
  assumes "broker_step\<^sup>*\<^sup>* (NewBroker n) b"
  shows "br_panic b \<noteq> Some CloseOfClosed
    \<and> (br_panic b = None \<and> i \<in> set (br_clients b) \<longrightarrow>
      \<not> cl_closed (br_heap b ! i) \<and> length (cl_buf (br_heap b ! i)) \<le> n
      \<and> mset (cl_got (br_heap b ! i) @ cl_buf (br_heap b ! i) @ cl_dropped (br_heap b ! i)) + pending b i
        = mset (filter (wants (br_heap b ! i)) (drop (cl_since (br_heap b ! i)) (br_log b))))"
proof -
  note inv = broker_reachable_inv [OF assms]
  have "client_ok b i" if "br_panic b = None" "i \<in> set (br_clients b)"
    using that broker_invD(4,7) [OF inv] by blast
  moreover have "br_panic b \<noteq> Some CloseOfClosed" using inv by (simp add: broker_inv_def)
  ultimately show ?thesis using br_bufSize_reachable [OF assms]
    by (simp add: client_ok_def seen_def offered_def)
qed

definition example_message :: Message where
  "example_message = \<lparr>m_Name = ''series'', m_Action = ''deleted'', m_Resource = LibraryEvent (SeriesDeleted 7)\<rparr>"

definition example_broker :: Broker where
  "example_broker = begin_broadcast example_message [0] (snd (Subscribe [''series''] (NewBroker 1)))"

lemma example_broker_reachable: "broker_step\<^sup>*\<^sup>* (NewBroker 1) example_broker"
proof -
  have "broker_step (NewBroker 1) (snd (Subscribe [''series''] (NewBroker 1)))"
    by (rule Subscribed) (simp add: NewBroker_def)
  moreover have "broker_step (snd (Subscribe [''series''] (NewBroker 1))) example_broker"
    unfolding example_broker_def by (rule Snapshot) (simp_all add: Subscribe_def NewBroker_def Let_def)
  ultimately show ?thesis by (simp add: converse_rtranclp_into_rtranclp)
qed

theorem broker_accounts_witness:
  "br_panic (send_turn False 0 example_broker) \<noteq> Some CloseOfClosed
   \<and> mset [example_message] + pending (send_turn False 0 example_broker) 0 = mset [example_message]"
proof -
  have reach: "broker_step\<^sup>*\<^sup>* (NewBroker 1) (send_turn False 0 example_broker)"
    by (rule rtranclp.rtrancl_into_rtrancl [OF example_broker_reachable], rule Send)
      (simp_all add: example_broker_def begin_broadcast_def Subscribe_def NewBroker_def Let_def)
  have "br_panic (send_turn False 0 example_broker) = None" "0 \<in> set (br_clients (send_turn False 0 example_broker))"
    "br_heap (send_turn False 0 example_broker) = [\<lparr>cl_buf = [example_message], cl_cap = 1, cl_closed = False,
       cl_filter = Some [''series''], cl_got = [], cl_dropped = [], cl_since = 0\<rparr>]"
    "br_log (send_turn False 0 example_broker) = [example_message]"
    by (simp_all add: example_broker_def example_message_def send_turn_def deliver_def wants_def try_send_def begin_broadcast_def
        Subscribe_def new_client_def NewBroker_def Let_def)
  with broker_accounts [OF reach, where i = 0] show ?thesis
    by (simp add: wants_def example_message_def)
qed

text \<open>C26: With any buffer size, a client that disconnects after a broadcast has taken its snapshot and
  before it is served makes that broadcast send on a closed channel, which panics. This is the only way a step
  of the broker can panic.\<close>

theorem broadcast_panics_after_unsubscribe:
  "(\<exists>b. broker_step\<^sup>*\<^sup>* (NewBroker n) b \<and> br_panic b = Some SendOnClosed)
   \<and> (broker_step\<^sup>*\<^sup>* (NewBroker n) b \<and> broker_step b b' \<and> br_panic b' \<noteq> None \<longrightarrow>
       (\<exists>msg i rest. (msg, i # rest) \<in> set (br_sends b) \<and> wants (br_heap b ! i) msg
          \<and> cl_closed (br_heap b ! i) \<and> i \<notin> set (br_clients b)))"
  using racing_run [of n] racing_only [of n b b'] by blast

theorem broadcast_panics_after_unsubscribe_witness:
  "\<exists>msg i rest. (msg, i # rest) \<in> set (br_sends (before_race 16 example_message))
     \<and> wants (br_heap (before_race 16 example_message) ! i) msg
     \<and> cl_closed (br_heap (before_race 16 example_message) ! i) \<and> i \<notin> set (br_clients (before_race 16 example_message))"
  using broadcast_panics_after_unsubscribe [of 16 "before_race 16 example_message"
      "send_turn False 0 (before_race 16 example_message)"]
    before_race_reachable [of 16 example_message] race [of 16 example_message] by simp



end
