(* ===== verification/SqlitePool.thy ===== *)
theory SqlitePool
  imports Sql_Store
begin

section \<open>The write pool with concurrent callers\<close>

text \<open>
  internal/db/sqlite.go: \<open>Write\<close>, \<open>writerLoop\<close> and \<open>Close\<close> with every caller a goroutine of its own.
  A call offers its request on an unbuffered channel, in a select with the closing of the pool and the end of
  its context; the writer goroutine takes one request at a time, runs its callback and puts the
  answer into the request's buffered channel; the call then waits for the answer or the end
  of its context. The other theories use \<open>SQLitePool_Write\<close>, a call as one atomic action. The refinement
  property of this theory says that they may: the calls of any interleaving can be put in an order in
  which running them one after the other as \<open>SQLitePool_Write\<close> gives the same answers and the same database.
  The termination property says that the pool never blocks a caller for ever.
\<close>

subsection \<open>The goroutines\<close>

text \<open>A call before the hand-over, after it, after it when its context has ended and the callback has
  still to run, with the answer waiting, and returned.\<close>

datatype call_state =
    Offering
  | Accepted
  | Abandoned "(store_error, unit) result"
  | Answered "(store_error, unit) result"
  | Returned "(store_error, unit) result"

record 's write_call =
  wc_fn :: "('s, unit) act"
  wc_state :: call_state

datatype writer = WriterWaiting | WriterRunning nat | WriterExited

record 's SQLitePool =
  sp_db :: 's
  sp_closed :: bool
  sp_writer :: writer
  sp_calls :: "'s write_call list"

definition opened :: "'s \<Rightarrow> 's SQLitePool" where
  "opened s = \<lparr>sp_db = s, sp_closed = False, sp_writer = WriterWaiting, sp_calls = []\<rparr>"

definition state_of :: "'s SQLitePool \<Rightarrow> nat \<Rightarrow> call_state" where
  "state_of p i = wc_state (sp_calls p ! i)"

definition fn_of :: "'s SQLitePool \<Rightarrow> nat \<Rightarrow> ('s, unit) act" where
  "fn_of p i = wc_fn (sp_calls p ! i)"

definition to_state :: "nat \<Rightarrow> call_state \<Rightarrow> 's SQLitePool \<Rightarrow> 's SQLitePool" where
  "to_state i st p = p\<lparr>sp_calls := (sp_calls p)[i := (sp_calls p ! i)\<lparr>wc_state := st\<rparr>]\<rparr>"

text \<open>\<open>writerLoop\<close> runs the callback and sends the error on \<open>done\<close>; the send never blocks.\<close>

definition run_request :: "nat \<Rightarrow> 's SQLitePool \<Rightarrow> 's SQLitePool" where
  "run_request i p = (case fn_of p i (sp_db p) of (r, s) \<Rightarrow>
     (to_state i (case state_of p i of Abandoned x \<Rightarrow> Returned x | _ \<Rightarrow> Answered r) p)\<lparr>sp_db := s, sp_writer := WriterWaiting\<rparr>)"

definition pool_closed :: "(store_error, unit) result" where
  "pool_closed = Inl (DbError ''db: sqlite pool closed'')"

text \<open>What the goroutines do once a call has been made: the steps that need nothing from outside.\<close>

inductive inner_step :: "'s SQLitePool \<Rightarrow> 's SQLitePool \<Rightarrow> bool" where
  HandOver: "\<lbrakk>i < length (sp_calls p); state_of p i = Offering; sp_writer p = WriterWaiting\<rbrakk> \<Longrightarrow>
     inner_step p ((to_state i Accepted p)\<lparr>sp_writer := WriterRunning i\<rparr>)"
| RefuseClosed: "\<lbrakk>i < length (sp_calls p); state_of p i = Offering; sp_closed p\<rbrakk> \<Longrightarrow>
     inner_step p (to_state i (Returned pool_closed) p)"
| RunRequest: "sp_writer p = WriterRunning i \<Longrightarrow> inner_step p (run_request i p)"
| TakeAnswer: "\<lbrakk>i < length (sp_calls p); state_of p i = Answered r\<rbrakk> \<Longrightarrow> inner_step p (to_state i (Returned r) p)"
| LoopReturns: "\<lbrakk>sp_closed p; sp_writer p = WriterWaiting\<rbrakk> \<Longrightarrow> inner_step p (p\<lparr>sp_writer := WriterExited\<rparr>)"

text \<open>With the calls themselves, the closing of the pool and contexts that end at any moment.\<close>

inductive write_step :: "'s SQLitePool \<Rightarrow> 's SQLitePool \<Rightarrow> bool" where
  Inner: "inner_step p p' \<Longrightarrow> write_step p p'"
| Call: "write_step p (p\<lparr>sp_calls := sp_calls p @ [\<lparr>wc_fn = fn, wc_state = Offering\<rparr>]\<rparr>)"
| Close: "write_step p (p\<lparr>sp_closed := True\<rparr>)"
| CancelOffer: "\<lbrakk>i < length (sp_calls p); state_of p i = Offering\<rbrakk> \<Longrightarrow>
     write_step p (to_state i (Returned (Inl (DbError x))) p)"
| CancelAccepted: "\<lbrakk>i < length (sp_calls p); state_of p i = Accepted\<rbrakk> \<Longrightarrow>
     write_step p (to_state i (Abandoned (Inl (DbError x))) p)"
| CancelAnswered: "\<lbrakk>i < length (sp_calls p); state_of p i = Answered r\<rbrakk> \<Longrightarrow>
     write_step p (to_state i (Returned (Inl (DbError x))) p)"

subsection \<open>The serial specification\<close>

text \<open>Calls one after the other, each as the atomic \<open>SQLitePool_Write\<close> with the outcome it met.\<close>

definition met :: "write_outcome \<Rightarrow> dbenv" where
  "met w = quiet_at 0\<lparr>env_write := w\<rparr>"

fun serial :: "(('s, unit) act \<times> write_outcome) list \<Rightarrow> 's \<Rightarrow> (store_error, unit) result list \<times> 's" where
  "serial [] s = ([], s)"
| "serial ((fn, w) # ops) s = (case SQLitePool_Write (met w) fn s of (r, s') \<Rightarrow>
     (case serial ops s' of (rs, s'') \<Rightarrow> (r # rs, s'')))"

text \<open>The answer a caller has got.\<close>

fun answer :: "call_state \<Rightarrow> (store_error, unit) result option" where
  "answer (Returned r) = Some r"
| "answer (Abandoned r) = Some r"
| "answer _ = None"

definition settled :: "call_state \<Rightarrow> bool" where
  "settled st = (case st of Answered _ \<Rightarrow> True | Returned _ \<Rightarrow> True | _ \<Rightarrow> False)"

definition with_writer :: "call_state \<Rightarrow> bool" where
  "with_writer st = (case st of Accepted \<Rightarrow> True | Abandoned _ \<Rightarrow> True | _ \<Rightarrow> False)"

subsection \<open>The refinement\<close>

lemma call_ops [simp]:
  "length (sp_calls (to_state i st p)) = length (sp_calls p)"
  "fn_of (to_state i st p) j = fn_of p j" "sp_db (to_state i st p) = sp_db p"
  "sp_writer (to_state i st p) = sp_writer p" "sp_closed (to_state i st p) = sp_closed p"
  "i < length (sp_calls p) \<Longrightarrow> state_of (to_state i st p) j = (if j = i then st else state_of p j)"
  by (auto simp: to_state_def fn_of_def state_of_def nth_list_update)
    (cases "i < length (sp_calls p)"; cases "j = i"; simp add: list_update_beyond)

lemma frame_ops [simp]:
  "fn_of (p\<lparr>sp_db := s\<rparr>) j = fn_of p j" "fn_of (p\<lparr>sp_writer := w\<rparr>) j = fn_of p j" "fn_of (p\<lparr>sp_closed := c\<rparr>) j = fn_of p j"
  "state_of (p\<lparr>sp_db := s\<rparr>) j = state_of p j" "state_of (p\<lparr>sp_writer := w\<rparr>) j = state_of p j"
  "state_of (p\<lparr>sp_closed := c\<rparr>) j = state_of p j"
  by (simp_all add: fn_of_def state_of_def)

definition call_list :: "'s SQLitePool \<Rightarrow> (nat \<times> write_outcome) list \<Rightarrow> (('s, unit) act \<times> write_outcome) list" where
  "call_list p ops = map (\<lambda>(i, w). (fn_of p i, w)) ops"

definition linear :: "'s \<Rightarrow> 's SQLitePool \<Rightarrow> (nat \<times> write_outcome) list \<Rightarrow> (store_error, unit) result list \<Rightarrow> bool" where
  "linear s0 p ops rs \<longleftrightarrow> distinct (map fst ops)
     \<and> set (map fst ops) = {i. i < length (sp_calls p) \<and> settled (state_of p i)}
     \<and> serial (call_list p ops) s0 = (rs, sp_db p)
     \<and> (\<forall>k<length ops. case state_of p (fst (ops ! k)) of
          Answered r \<Rightarrow> snd (ops ! k) = Written \<and> rs ! k = r | Returned r \<Rightarrow> rs ! k = r | _ \<Rightarrow> False)"

definition pool_inv :: "'s \<Rightarrow> 's SQLitePool \<Rightarrow> bool" where
  "pool_inv s0 p \<longleftrightarrow> (\<exists>ops rs. linear s0 p ops rs)
     \<and> (\<forall>i<length (sp_calls p). with_writer (state_of p i) \<longleftrightarrow> sp_writer p = WriterRunning i)
     \<and> (\<forall>i. sp_writer p = WriterRunning i \<longrightarrow> i < length (sp_calls p))
     \<and> (\<forall>i<length (sp_calls p). \<forall>r. state_of p i = Abandoned r \<longrightarrow> (\<exists>x. r = Inl (DbError x)))"

lemma met_write: "SQLitePool_Write (met w) fn s = (case w of
     Written \<Rightarrow> fn s | PoolClosed \<Rightarrow> (pool_closed, s) | CancelledBefore x \<Rightarrow> (Inl (DbError x), s)
   | CancelledDuring x \<Rightarrow> (Inl (DbError x), snd (fn s)))"
  by (simp add: SQLitePool_Write.simps met_def quiet_at_def pool_closed_def split: write_outcome.split)

lemma serial_snoc:
  assumes "serial ops s = (rs, t)" "SQLitePool_Write (met w) fn t = (r, t')"
  shows "serial (ops @ [(fn, w)]) s = (rs @ [r], t')"
  using assms by (induction ops s arbitrary: rs rule: serial.induct) (auto split: prod.splits)

lemma serial_length: "serial ops s = (rs, t) \<Longrightarrow> length rs = length ops"
  by (induction ops s arbitrary: rs rule: serial.induct) (auto split: prod.splits)

lemma serial_cancel:
  assumes "serial ops s = (rs, t)" "k < length ops" "ops ! k = (fn, Written)"
  shows "serial (ops[k := (fn, CancelledDuring x)]) s = (rs[k := Inl (DbError x)], t)"
  using assms
proof (induction ops s arbitrary: rs k rule: serial.induct)
  case (2 fn' w ops s)
  then show ?case by (cases k) (auto simp: met_write split: prod.splits)
qed simp

text \<open>A call that settles is put at the end of the order; its effect is the last so far.\<close>

lemma linear_snoc:
  assumes lin: "linear s0 p ops rs" and i: "i < length (sp_calls p)" "\<not> settled (state_of p i)"
    and w: "SQLitePool_Write (met w) (fn_of p i) (sp_db p) = (r, t)"
    and st: "st = Returned r \<or> st = Answered r \<and> w = Written"
    and p': "sp_calls p' = sp_calls (to_state i st p)" "sp_db p' = t"
  shows "linear s0 p' (ops @ [(i, w)]) (rs @ [r])"
proof -
  have fn: "fn_of p' = fn_of p"
    using p'(1) by (intro ext) (metis call_ops(2) fn_of_def)
  have state: "state_of p' j = (if j = i then st else state_of p j)" for j
    using p'(1) call_ops(6) [OF i(1), of st j] by (simp add: state_of_def)
  from lin have ser: "serial (call_list p ops) s0 = (rs, sp_db p)" and new: "i \<notin> set (map fst ops)"
    using i by (auto simp: linear_def)
  have "serial (call_list p' (ops @ [(i, w)])) s0 = (rs @ [r], sp_db p')"
    using serial_snoc [OF ser w] p'(2) by (simp add: call_list_def fn)
  moreover have "fst (ops ! k) \<noteq> i" if "k < length ops" for k
    using new nth_mem [OF that] by force
  moreover have "length rs = length ops" using serial_length [OF ser] by (simp add: call_list_def)
  ultimately show ?thesis using lin st new i(1) p'(1)
    by (auto simp: linear_def state settled_def nth_append split: call_state.splits)
qed

text \<open>Taking the answer, and losing it to the end of the context.\<close>

lemma linear_taken:
  assumes lin: "linear s0 p ops rs" and i: "i < length (sp_calls p)" "state_of p i = Answered r"
  shows "linear s0 (to_state i (Returned r) p) ops rs"
  using assms unfolding linear_def
  by (auto simp: settled_def call_list_def split: call_state.splits if_splits)

lemma linear_cancelled:
  assumes lin: "linear s0 p ops rs" and i: "i < length (sp_calls p)" "state_of p i = Answered r"
  shows "\<exists>ops' rs'. linear s0 (to_state i (Returned (Inl (DbError x))) p) ops' rs'"
proof -
  have "i \<in> set (map fst ops)" using lin i by (auto simp: linear_def settled_def)
  then obtain k w where k: "k < length ops" "ops ! k = (i, w)"
    by (auto simp: in_set_conv_nth)
  with lin i have w: "w = Written" by (auto simp: linear_def split: call_state.splits)
  have uniq: "fst (ops ! j) = i \<longleftrightarrow> j = k" if "j < length ops" for j
    using lin k that nth_eq_iff_index_eq [of "map fst ops" j k] by (auto simp: linear_def)
  have ser: "serial (call_list p ops) s0 = (rs, sp_db p)" using lin by (simp add: linear_def)
  then have "serial ((call_list p ops)[k := (fn_of p i, CancelledDuring x)]) s0 = (rs[k := Inl (DbError x)], sp_db p)"
    using k w by (intro serial_cancel) (simp_all add: call_list_def)
  moreover have "length rs = length ops" using serial_length [OF ser] by (simp add: call_list_def)
  moreover have "map fst (ops[k := (i, CancelledDuring x)]) = map fst ops"
    using k by (metis fst_conv list_update_id map_update nth_map)
  ultimately have "linear s0 (to_state i (Returned (Inl (DbError x))) p) (ops[k := (i, CancelledDuring x)]) (rs[k := Inl (DbError x)])"
    using lin i k uniq
    by (auto simp: linear_def call_list_def map_update settled_def nth_list_update split: call_state.splits if_splits)
  then show ?thesis by blast
qed

subsection \<open>Every step keeps the invariant\<close>

lemma linear_frame: "sp_calls p' = sp_calls p \<Longrightarrow> sp_db p' = sp_db p \<Longrightarrow> linear s0 p' ops rs = linear s0 p ops rs"
  by (simp add: linear_def call_list_def fn_of_def state_of_def)

lemma linear_unsettled:
  assumes "linear s0 p ops rs" "i < length (sp_calls p)" "\<not> settled (state_of p i)" "\<not> settled st"
  shows "linear s0 (to_state i st p) ops rs"
proof -
  have "i \<notin> set (map fst ops)" using assms by (simp add: linear_def)
  then have "fst (ops ! k) \<noteq> i" if "k < length ops" for k using nth_mem [OF that] by force
  with assms show ?thesis by (auto simp: linear_def call_list_def)
qed

lemma linear_call:
  assumes "linear s0 p ops rs"
  shows "linear s0 (p\<lparr>sp_calls := sp_calls p @ [\<lparr>wc_fn = fn, wc_state = Offering\<rparr>]\<rparr>) ops rs" (is "linear s0 ?p ops rs")
proof -
  have old: "fn_of ?p i = fn_of p i" "state_of ?p i = state_of p i" if "i < length (sp_calls p)" for i
    using that by (simp_all add: fn_of_def state_of_def nth_append)
  have known: "i < length (sp_calls p)" if "i \<in> set (map fst ops)" for i using assms that by (auto simp: linear_def)
  then have "call_list ?p ops = call_list p ops"
    unfolding call_list_def by (intro map_cong) (force simp: old(1))+
  moreover have "fst (ops ! k) < length (sp_calls p)" if "k < length ops" for k
    using known nth_mem [OF that] by force
  moreover have "state_of ?p (length (sp_calls p)) = Offering" by (simp add: state_of_def)
  ultimately show ?thesis using assms old(2)
    by (auto simp: linear_def settled_def less_Suc_eq)
qed

lemma inner_step_inv: "inner_step p p' \<Longrightarrow> pool_inv s0 p \<Longrightarrow> pool_inv s0 p'"
proof (induction rule: inner_step.induct)
  case (HandOver i p)
  then show ?case
    using linear_unsettled [of s0 p _ _ i Accepted]
    by (auto simp: pool_inv_def with_writer_def settled_def linear_frame [of "_\<lparr>sp_writer := _\<rparr>" "to_state i Accepted p"])
next
  case (RefuseClosed i p)
  then obtain ops rs where "linear s0 p ops rs" by (auto simp: pool_inv_def)
  then have "linear s0 (to_state i (Returned pool_closed) p) (ops @ [(i, PoolClosed)]) (rs @ [pool_closed])"
    using RefuseClosed by (intro linear_snoc) (auto simp: settled_def met_write)
  with RefuseClosed show ?case by (auto simp: pool_inv_def with_writer_def)
next
  case (RunRequest p i)
  then obtain ops rs where lin: "linear s0 p ops rs" by (auto simp: pool_inv_def)
  obtain r s where fn: "fn_of p i (sp_db p) = (r, s)" by fastforce
  from RunRequest have i: "i < length (sp_calls p)" "with_writer (state_of p i)" by (auto simp: pool_inv_def)
  have "\<exists>ops' rs'. linear s0 (run_request i p) ops' rs'"
  proof (cases "state_of p i")
    case Accepted
    then have "linear s0 (run_request i p) (ops @ [(i, Written)]) (rs @ [r])"
      using i fn by (intro linear_snoc [OF lin, where st = "Answered r"])
        (auto simp: settled_def met_write run_request_def)
    then show ?thesis by blast
  next
    case (Abandoned a)
    with RunRequest i obtain x where x: "a = Inl (DbError x)" unfolding pool_inv_def by blast
    then have "linear s0 (run_request i p) (ops @ [(i, CancelledDuring x)]) (rs @ [a])"
      using i fn Abandoned by (intro linear_snoc [OF lin, where st = "Returned a"])
        (auto simp: settled_def met_write run_request_def)
    then show ?thesis by blast
  qed (use i in \<open>simp_all add: with_writer_def\<close>)
  with RunRequest i fn show ?case
    by (auto simp: pool_inv_def run_request_def with_writer_def split: call_state.splits)
next
  case (TakeAnswer i p r)
  then show ?case using linear_taken [of s0 p _ _ i r]
    by (auto simp: pool_inv_def with_writer_def)
next
  case (LoopReturns p)
  then show ?case by (auto simp: pool_inv_def linear_frame [of "p\<lparr>sp_writer := WriterExited\<rparr>" p])
qed

lemma write_step_inv: "write_step p p' \<Longrightarrow> pool_inv s0 p \<Longrightarrow> pool_inv s0 p'"
proof (induction rule: write_step.induct)
  case (Inner p p')
  then show ?case by (rule inner_step_inv)
next
  case (Call p fn)
  have old: "state_of (p\<lparr>sp_calls := sp_calls p @ [\<lparr>wc_fn = fn, wc_state = Offering\<rparr>]\<rparr>) i
      = (if i < length (sp_calls p) then state_of p i else Offering)" if "i < Suc (length (sp_calls p))" for i
    using that by (auto simp: state_of_def nth_append)
  with Call show ?case using linear_call [of s0 p _ _ fn]
    by (fastforce simp: pool_inv_def with_writer_def)
next
  case (Close p)
  then show ?case by (auto simp: pool_inv_def linear_frame [of "p\<lparr>sp_closed := True\<rparr>" p])
next
  case (CancelOffer i p x)
  then obtain ops rs where "linear s0 p ops rs" by (auto simp: pool_inv_def)
  then have "linear s0 (to_state i (Returned (Inl (DbError x))) p) (ops @ [(i, CancelledBefore x)]) (rs @ [Inl (DbError x)])"
    using CancelOffer by (intro linear_snoc) (auto simp: settled_def met_write)
  with CancelOffer show ?case by (auto simp: pool_inv_def with_writer_def)
next
  case (CancelAccepted i p x)
  then show ?case using linear_unsettled [of s0 p _ _ i "Abandoned (Inl (DbError x))"]
    by (auto simp: pool_inv_def with_writer_def settled_def)
next
  case (CancelAnswered i p r x)
  then show ?case using linear_cancelled [of s0 p _ _ i r x]
    by (auto simp: pool_inv_def with_writer_def)
qed

lemma opened_inv: "pool_inv s (opened s)"
  by (auto simp: pool_inv_def opened_def linear_def call_list_def intro!: exI [of _ "[]"])

lemma write_reachable_inv: "write_step\<^sup>*\<^sup>* (opened s) p \<Longrightarrow> pool_inv s p"
  by (induction rule: rtranclp_induct) (auto intro: opened_inv write_step_inv)

subsection \<open>Termination\<close>

text \<open>How many inner steps a call and the writer can still take.\<close>

fun call_weight :: "call_state \<Rightarrow> nat" where
  "call_weight Offering = 3"
| "call_weight Accepted = 2"
| "call_weight (Abandoned _) = 1"
| "call_weight (Answered _) = 1"
| "call_weight (Returned _) = 0"

definition pool_weight :: "'s SQLitePool \<Rightarrow> nat" where
  "pool_weight p = sum_list (map (call_weight \<circ> wc_state) (sp_calls p)) + (if sp_writer p = WriterExited then 0 else 1)"

lemma sum_list_smaller:
  fixes f :: "'a \<Rightarrow> nat"
  assumes "i < length xs" "f y < f (xs ! i)"
  shows "sum_list (map f (xs[i := y])) < sum_list (map f xs)"
proof -
  have "sum_list (map f xs) = sum_list (map f (take i xs)) + f (xs ! i) + sum_list (map f (drop (Suc i) xs))"
    by (subst id_take_nth_drop [OF assms(1)]) simp
  with assms show ?thesis by (simp add: upd_conv_take_nth_drop)
qed

lemma to_state_weight:
  assumes "i < length (sp_calls p)" "call_weight st < call_weight (state_of p i)"
  shows "sum_list (map (call_weight \<circ> wc_state) (sp_calls (to_state i st p))) < sum_list (map (call_weight \<circ> wc_state) (sp_calls p))"
  unfolding to_state_def using assms by (simp add: sum_list_smaller state_of_def)

lemma inner_step_weight:
  assumes "inner_step p p'" "pool_inv s0 p"
  shows "pool_weight p' < pool_weight p"
  using assms
proof (cases rule: inner_step.cases)
  case (RunRequest i)
  then have i: "i < length (sp_calls p)" "with_writer (state_of p i)" using assms(2) by (auto simp: pool_inv_def)
  let ?st = "case state_of p i of Abandoned x \<Rightarrow> Returned x | _ \<Rightarrow> Answered (fst (fn_of p i (sp_db p)))"
  have "call_weight ?st < call_weight (state_of p i)" using i(2) by (auto simp: with_writer_def split: call_state.splits)
  from to_state_weight [OF i(1) this] RunRequest show ?thesis
    by (simp add: pool_weight_def run_request_def split_beta)
qed (auto simp: pool_weight_def to_state_weight)

text \<open>A pool in which no inner step is left has answered every call.\<close>

lemma stuck_returned:
  assumes inv: "pool_inv s0 p" and "sp_writer p \<noteq> WriterExited \<or> sp_closed p" and stuck: "\<And>p'. \<not> inner_step p p'"
    and i: "i < length (sp_calls p)"
  shows "\<exists>r. state_of p i = Returned r"
proof -
  have idle: "sp_writer p \<noteq> WriterRunning j" for j using stuck RunRequest by blast
  have "\<not> with_writer (state_of p i)" using inv idle i by (auto simp: pool_inv_def)
  moreover have "state_of p i \<noteq> Answered r" for r using stuck TakeAnswer [OF i] by blast
  moreover have "state_of p i \<noteq> Offering"
    using stuck HandOver [OF i] RefuseClosed [OF i] assms(2) idle by (cases "sp_writer p") blast+
  ultimately show ?thesis by (cases "state_of p i") (auto simp: with_writer_def)
qed

lemma exited_closed: "write_step\<^sup>*\<^sup>* (opened s) p \<Longrightarrow> sp_writer p \<noteq> WriterExited \<or> sp_closed p"
proof (induction rule: rtranclp_induct)
  case (step p p')
  from step.hyps(2) step.IH show ?case
    by (cases rule: write_step.cases) (auto elim: inner_step.cases simp: run_request_def split: prod.splits)
qed (simp add: opened_def)

lemma inner_runs_end: "\<lbrakk>inner_step\<^sup>*\<^sup>* p p'; pool_inv s0 p\<rbrakk> \<Longrightarrow> pool_inv s0 p' \<and> pool_weight p' \<le> pool_weight p"
  by (induction rule: rtranclp_induct) (auto dest: inner_step_inv inner_step_weight)

lemma inner_runs_bounded: "\<lbrakk>(inner_step ^^ n) p p'; pool_inv s0 p\<rbrakk> \<Longrightarrow> pool_inv s0 p' \<and> pool_weight p' + n \<le> pool_weight p"
proof (induction n arbitrary: p')
  case (Suc n)
  then obtain q where "(inner_step ^^ n) p q" "inner_step q p'" by auto
  with Suc.IH Suc.prems(2) inner_step_inv inner_step_weight show ?case by fastforce
qed simp

lemma pool_weight_bound: "pool_weight p \<le> 3 * length (sp_calls p) + 1"
proof -
  have "call_weight st \<le> 3" for st by (cases st) simp_all
  then have "sum_list (map (call_weight \<circ> wc_state) cs) \<le> 3 * length cs" for cs :: "'a write_call list"
    by (induction cs) (simp_all add: add_le_mono)
  from this [of "sp_calls p"] show ?thesis by (simp add: pool_weight_def)
qed

lemma inner_reachable: "(inner_step ^^ n) p p' \<Longrightarrow> write_step\<^sup>*\<^sup>* p p'"
  by (induction n arbitrary: p') (auto intro: rtranclp.rtrancl_into_rtrancl Inner)

subsection \<open>Properties\<close>

text \<open>C23: In every state that concurrent calls of \<open>Write\<close>, contexts that end at any moment and the closing of the
  pool can reach, there is an order of the calls that have settled such that running them one after the other,
  each as one atomic \<open>SQLitePool_Write\<close> whose outcome is that of the call, gives the database of the pool and, for each
  call that has returned with its callback done or never to be run, the answer it returned. No call is in the
  order twice, and a call whose callback has not run is not in it.\<close>

theorem sqlite_pool_serial:
  assumes "write_step\<^sup>*\<^sup>* (opened s) p"
  shows "\<exists>ops rs. distinct (map fst ops)
    \<and> serial (map (\<lambda>(i, w). (fn_of p i, w)) ops) s = (rs, sp_db p)
    \<and> (\<forall>i<length (sp_calls p). i \<notin> set (map fst ops) \<longleftrightarrow> state_of p i \<in> {Offering, Accepted} \<union> range Abandoned)
    \<and> (\<forall>i<length (sp_calls p). \<forall>r. state_of p i = Returned r \<longrightarrow> (\<exists>k<length ops. fst (ops ! k) = i \<and> rs ! k = r))"
proof -
  from write_reachable_inv [OF assms] obtain ops rs where lin: "linear s p ops rs" by (auto simp: pool_inv_def)
  have "\<exists>k<length ops. fst (ops ! k) = i \<and> rs ! k = r" if "i < length (sp_calls p)" "state_of p i = Returned r" for i r
  proof -
    have "i \<in> set (map fst ops)" using lin that by (simp add: linear_def settled_def)
    then obtain k where k: "k < length ops" "fst (ops ! k) = i" by (auto simp: in_set_conv_nth)
    with lin that(2) have "rs ! k = r" by (auto simp: linear_def)
    with k show ?thesis by blast
  qed
  moreover have "i \<notin> set (map fst ops) \<longleftrightarrow> state_of p i \<in> {Offering, Accepted} \<union> range Abandoned"
    if "i < length (sp_calls p)" for i
    using lin that by (auto simp: linear_def settled_def split: call_state.splits)
  ultimately show ?thesis using lin unfolding linear_def call_list_def by blast
qed

definition bump :: "(int, unit) act" where
  "bump s = (Inr (), s + 1)"

definition example_pool :: "int SQLitePool" where
  "example_pool = \<lparr>sp_db = 0, sp_closed = False, sp_writer = WriterRunning 0,
     sp_calls = [\<lparr>wc_fn = bump, wc_state = Accepted\<rparr>]\<rparr>"

lemma example_pool_reachable: "write_step\<^sup>*\<^sup>* (opened 0) example_pool"
proof -
  let ?q = "opened 0\<lparr>sp_calls := [\<lparr>wc_fn = bump, wc_state = Offering\<rparr>]\<rparr>"
  have "write_step (opened 0) ?q" using Call [of "opened 0" bump] by (simp add: opened_def)
  moreover have "write_step ?q example_pool"
    using HandOver [of 0 ?q] by (auto intro!: Inner simp: opened_def example_pool_def to_state_def state_of_def)
  ultimately show ?thesis by (simp add: converse_rtranclp_into_rtranclp)
qed

lemma example_run: "run_request 0 example_pool = \<lparr>sp_db = 1, sp_closed = False, sp_writer = WriterWaiting,
     sp_calls = [\<lparr>wc_fn = bump, wc_state = Answered (Inr ())\<rparr>]\<rparr>"
  by (simp add: run_request_def example_pool_def fn_of_def state_of_def to_state_def bump_def)

theorem sqlite_pool_serial_witness:
  "\<exists>ops rs. distinct (map fst ops)
     \<and> serial (map (\<lambda>(i, w). (fn_of (run_request 0 example_pool) i, w)) ops) 0 = (rs, 1) \<and> 0 \<in> set (map fst ops)"
proof -
  have "write_step example_pool (run_request 0 example_pool)"
    by (rule Inner, rule RunRequest) (simp add: example_pool_def)
  then have "write_step\<^sup>*\<^sup>* (opened 0) (run_request 0 example_pool)"
    by (rule rtranclp.rtrancl_into_rtrancl [OF example_pool_reachable])
  from sqlite_pool_serial [OF this] obtain ops rs where "distinct (map fst ops)"
    "serial (map (\<lambda>(i, w). (fn_of (run_request 0 example_pool) i, w)) ops) 0 = (rs, sp_db (run_request 0 example_pool))"
    "\<forall>i<length (sp_calls (run_request 0 example_pool)). i \<notin> set (map fst ops) \<longleftrightarrow>
       state_of (run_request 0 example_pool) i \<in> {Offering, Accepted} \<union> range Abandoned" by blast
  then show ?thesis by (intro exI [of _ ops] exI [of _ rs]) (auto simp: example_run state_of_def)
qed

text \<open>C24: From any reachable state of the pool, the goroutines can take at most three steps per call and one more without a
  new call, a closing or the end of a context, so \<open>Write\<close> and the writer loop cannot run for ever; and when none of
  these steps is left every call has returned: no caller of \<open>Write\<close> is ever blocked for good, even when
  the pool has been closed.\<close>

theorem sqlite_pool_terminates:
  assumes "write_step\<^sup>*\<^sup>* (opened s) p" and "(inner_step ^^ n) p p'"
  shows "n \<le> 3 * length (sp_calls p) + 1
    \<and> ((\<nexists>q. inner_step p' q) \<longrightarrow> (\<forall>i<length (sp_calls p'). \<exists>r. state_of p' i = Returned r))"
proof -
  note inv = write_reachable_inv [OF assms(1)]
  from inner_runs_bounded [OF assms(2) inv] have "pool_inv s p'" "n \<le> pool_weight p" by auto
  moreover have "write_step\<^sup>*\<^sup>* (opened s) p'" using assms(1) inner_reachable [OF assms(2)] by (rule rtranclp_trans)
  ultimately show ?thesis using pool_weight_bound [of p] exited_closed stuck_returned [of s p'] by fastforce
qed

theorem sqlite_pool_terminates_witness:
  "(2 :: nat) \<le> 3 * length (sp_calls example_pool) + 1
   \<and> (\<exists>r. state_of (to_state 0 (Returned (Inr ())) (run_request 0 example_pool)) 0 = Returned r)"
proof -
  let ?p = "to_state 0 (Returned (Inr ())) (run_request 0 example_pool)"
  have "inner_step example_pool (run_request 0 example_pool)" by (rule RunRequest) (simp add: example_pool_def)
  moreover have "inner_step (run_request 0 example_pool) ?p" by (rule TakeAnswer) (simp_all add: example_run state_of_def)
  ultimately have two: "(inner_step ^^ 2) example_pool ?p" by (auto simp: numeral_2_eq_2)
  have "\<nexists>q. inner_step ?p q"
    by (auto simp: example_run to_state_def state_of_def elim: inner_step.cases)
  with sqlite_pool_terminates [OF example_pool_reachable two] show ?thesis
    by (simp add: example_run)
qed

end
