(* ===== verification/Keyed_Store.thy ===== *)
theory Keyed_Store
  imports Crud_Store Go_Strings
begin

section \<open>Stores with a unique text column\<close>

text \<open>
  The tags and the root folders are rows with a text under a UNIQUE constraint. \<open>unique_insert\<close> and
  \<open>unique_update\<close> are the statements: a violation is an error of the engine whose text the stores look at. On Postgres
  the sequence behind a SERIAL column moves on even when the insert fails. The locale \<open>keyed_store\<close> is
  what clients of such a store rely on: which texts can be created, and with what result.
\<close>

subsection \<open>Statements\<close>

definition unique_insert :: "bool \<Rightarrow> string \<Rightarrow> ('r \<Rightarrow> string) \<Rightarrow> (int \<Rightarrow> 'r) \<Rightarrow> ('r table, 'r) act" where
  "unique_insert burns err key mk t =
     (if key (mk (next_id t)) \<in> key ` set (rows t)
      then (Inl (DbError err), if burns then t\<lparr>next_id := next_id t + 1\<rparr> else t)
      else sql_insert mk t)"

definition unique_update :: "string \<Rightarrow> ('r \<Rightarrow> int) \<Rightarrow> ('r \<Rightarrow> string) \<Rightarrow> int \<Rightarrow> ('r \<Rightarrow> 'r) \<Rightarrow> ('r table, unit) act" where
  "unique_update err rid key i f t =
     (if \<exists>r\<in>set (rows t). rid r = i \<and> (\<exists>r'\<in>set (rows t). rid r' \<noteq> i \<and> key r' = key (f r))
      then (Inl (DbError err), t)
      else sql_exec (\<lambda>r. rid r = i) f t)"

text \<open>The texts of the two engines for a violated constraint, and the tests the stores make on an
  error. A Postgres error carries its code, the end of its text here.\<close>

definition sqlite_unique :: "string \<Rightarrow> string" where
  "sqlite_unique col = ''constraint failed: UNIQUE constraint failed: '' @ col @ '' (2067)''"

definition pg_unique :: "string \<Rightarrow> string" where
  "pg_unique cons = ''ERROR: duplicate key value violates unique constraint '' @ cons @ '' (SQLSTATE 23505)''"

fun error_text :: "store_error \<Rightarrow> string" where
  "error_text NoRows = ''sql: no rows in result set''"
| "error_text (DbError m) = m"
| "error_text (OsError m) = m"
| "error_text (ErrNotFound m) = m"
| "error_text (Errorf m) = m"
| "error_text JsonSyntax = ''invalid character''"
| "error_text JsonType = ''json: cannot unmarshal''"
| "error_text (Wrap m e) = m @ '': '' @ error_text e"

definition isSQLiteUniqueErr :: "store_error \<Rightarrow> bool" where
  "isSQLiteUniqueErr err \<longleftrightarrow>
     Contains (error_text err) ''UNIQUE constraint failed'' \<or> Contains (error_text err) ''constraint failed: UNIQUE''"

fun pg_code :: "store_error \<Rightarrow> string option" where
  "pg_code (DbError m) = (let t = rev (take 16 (rev m)) in
     if HasPrefix t ''(SQLSTATE '' \<and> HasSuffix t '')'' then Some (take 5 (drop 10 t)) else None)"
| "pg_code (Wrap m e) = pg_code e"
| "pg_code _ = None"

definition isPostgresUniqueErr :: "store_error \<Rightarrow> bool" where
  "isPostgresUniqueErr err = (case pg_code err of
     Some code \<Rightarrow> code = ''23505''
   | None \<Rightarrow> Contains (ToLower (error_text err)) ''unique'')"

lemma Contains_prefix: "prefix sub s \<Longrightarrow> Contains s sub"
  by (cases s) auto

lemma Contains_skip: "Contains s sub \<Longrightarrow> Contains (c # s) sub"
  by simp

lemma Contains_append: "Contains s sub \<Longrightarrow> Contains (p @ s) sub"
  by (induction p) auto

lemma sqlite_unique_is [simp]: "isSQLiteUniqueErr (DbError (sqlite_unique col))"
proof -
  have "sqlite_unique col = ''constraint failed: UNIQUE'' @ '' constraint failed: '' @ col @ '' (2067)''"
    by (simp add: sqlite_unique_def)
  then have "prefix ''constraint failed: UNIQUE'' (sqlite_unique col)" by (simp add: prefix_def)
  then show ?thesis by (simp add: isSQLiteUniqueErr_def Contains_prefix)
qed

lemma pg_unique_is [simp]: "isPostgresUniqueErr (DbError (pg_unique cons))"
proof -
  have "rev (take 16 (rev (pg_unique cons))) = ''(SQLSTATE 23505)''" by (simp add: pg_unique_def)
  then have "pg_code (DbError (pg_unique cons)) = Some ''23505''"
    by (simp add: HasPrefix_def HasSuffix_def suffix_def)
  then show ?thesis by (simp add: isPostgresUniqueErr_def)
qed

text \<open>What the stores make of the error of a writing statement.\<close>

definition dupA :: "(store_error \<Rightarrow> bool) \<Rightarrow> store_error \<Rightarrow> (store_error \<Rightarrow> store_error) \<Rightarrow> ('s, 'a) act \<Rightarrow> ('s, 'a) act" where
  "dupA is_dup sentinel other m s = (case m s of
     (Inl x, s') \<Rightarrow> (Inl (if is_dup x then sentinel else other x), s')
   | (Inr v, s') \<Rightarrow> (Inr v, s'))"

lemma wf_burnt: "wf_table rid t \<Longrightarrow> wf_table rid (t\<lparr>next_id := next_id t + 1\<rparr>)"
  unfolding wf_table_def by auto

subsection \<open>The contract\<close>

locale keyed_store =
  fixes create :: "dbenv \<Rightarrow> string \<Rightarrow> ('s, 'a) act" and inv :: "'s \<Rightarrow> bool" and items :: "'s \<Rightarrow> 'a list"
    and key :: "'a \<Rightarrow> string" and norm :: "string \<Rightarrow> string" and dup :: store_error
  assumes create_new: "\<lbrakk>inv s; quiet e; norm k \<noteq> ''''; norm k \<notin> key ` set (items s)\<rbrakk> \<Longrightarrow>
      \<exists>x s'. create e k s = (Inr x, s') \<and> items s' = items s @ [x] \<and> key x = norm k \<and> inv s'"
    and create_dup: "\<lbrakk>inv s; quiet e; norm k \<noteq> ''''; norm k \<in> key ` set (items s)\<rbrakk> \<Longrightarrow>
      \<exists>s'. create e k s = (Inl dup, s') \<and> items s' = items s \<and> inv s'"
    and keys_distinct: "inv s \<Longrightarrow> distinct (map key (items s))"
begin

text \<open>Making sure that a text is there, twice or once, is the same.\<close>

lemma ensure:
  assumes "inv s" "quiet e" "norm k \<noteq> ''''" "create e k s = (r, s')"
  shows "inv s'" "\<exists>new. items s' = items s @ new \<and> map key new = (if norm k \<in> key ` set (items s) then [] else [norm k])"
    and "r = Inl dup \<or> (\<exists>x. r = Inr x)"
  using create_new [OF assms(1-3)] create_dup [OF assms(1-3)] assms(4)
  by (cases "norm k \<in> key ` set (items s)"; auto)+

end

end
