(* ===== verification/Tags.thy ===== *)
theory Tags
  imports Keyed_Store
begin

section \<open>Tags\<close>

text \<open>
  internal/tags: the label of a tag is trimmed and lower-cased on every write and on a lookup by label, and
  is unique. Both stores are modelled statement by statement. On SQLite an update that violates the
  constraint returns the duplicate sentinel wrapped in a message, on Postgres the sentinel itself.
\<close>

record Tag =
  tag_ID :: int
  tag_Label :: string

definition NormalizeLabel :: "string \<Rightarrow> string" where
  "NormalizeLabel label = ToLower (TrimSpace label)"

definition ErrTagNotFound :: store_error where "ErrTagNotFound = ErrNotFound ''tags: not found''"
definition ErrDuplicateLabel :: store_error where "ErrDuplicateLabel = Errorf ''tags: duplicate label''"
definition label_required :: store_error where "label_required = Errorf ''tags: label is required''"

record 's TagStore =
  ts_Create :: "dbenv \<Rightarrow> string \<Rightarrow> ('s, Tag) act"
  ts_GetByID :: "dbenv \<Rightarrow> int \<Rightarrow> ('s, Tag) act"
  ts_GetByLabel :: "dbenv \<Rightarrow> string \<Rightarrow> ('s, Tag) act"
  ts_List :: "dbenv \<Rightarrow> ('s, Tag list) act"
  ts_Update :: "dbenv \<Rightarrow> Tag \<Rightarrow> ('s, unit) act"
  ts_Delete :: "dbenv \<Rightarrow> int \<Rightarrow> ('s, unit) act"

subsection \<open>SQLite\<close>

definition tag_row :: "string \<Rightarrow> int \<Rightarrow> Tag" where
  "tag_row label i = \<lparr>tag_ID = i, tag_Label = label\<rparr>"

definition tags_label_unique :: string where "tags_label_unique = sqlite_unique ''tags.label''"

definition sqlite_CreateTag :: "dbenv \<Rightarrow> string \<Rightarrow> (Tag table, Tag) act" where
  "sqlite_CreateTag e label = stmt e ''CreateTag'' (unique_insert False tags_label_unique tag_Label (tag_row label))"

definition sqlite_GetTagByID :: "dbenv \<Rightarrow> int \<Rightarrow> (Tag table, Tag) act" where
  "sqlite_GetTagByID e i = stmt e ''GetTagByID'' (sql_one (\<lambda>r. tag_ID r = i))"

definition sqlite_GetTagByLabel :: "dbenv \<Rightarrow> string \<Rightarrow> (Tag table, Tag) act" where
  "sqlite_GetTagByLabel e label = stmt e ''GetTagByLabel'' (sql_one (\<lambda>r. tag_Label r = label))"

definition sqlite_ListTags :: "dbenv \<Rightarrow> (Tag table, Tag list) act" where
  "sqlite_ListTags e = stmt e ''ListTags'' (sql_many (\<lambda>_. True) tag_Label)"

definition sqlite_UpdateTag :: "dbenv \<Rightarrow> string \<Rightarrow> int \<Rightarrow> (Tag table, unit) act" where
  "sqlite_UpdateTag e label i =
     stmt e ''UpdateTag'' (unique_update tags_label_unique tag_ID tag_Label i (\<lambda>r. r\<lparr>tag_Label := label\<rparr>))"

definition sqlite_DeleteTag :: "dbenv \<Rightarrow> int \<Rightarrow> (Tag table, unit) act" where
  "sqlite_DeleteTag e i = stmt e ''DeleteTag'' (sql_delete (\<lambda>r. tag_ID r = i))"

definition sqliteTags_Create :: "dbenv \<Rightarrow> string \<Rightarrow> (Tag table, Tag) act" where
  "sqliteTags_Create e label0 = (let label = NormalizeLabel label0 in
     if label = '''' then failA label_required
     else SQLitePool_Write e (dupA isSQLiteUniqueErr ErrDuplicateLabel (Wrap ''tags: create'') (sqlite_CreateTag e label)))"

definition sqliteTags_GetByID :: "dbenv \<Rightarrow> int \<Rightarrow> (Tag table, Tag) act" where
  "sqliteTags_GetByID e i = rowA (Inl ErrTagNotFound) ''tags: get by id'' (\<lambda>r. r) (sqlite_GetTagByID e i)"

definition sqliteTags_GetByLabel :: "dbenv \<Rightarrow> string \<Rightarrow> (Tag table, Tag) act" where
  "sqliteTags_GetByLabel e label =
     rowA (Inl ErrTagNotFound) ''tags: get by label'' (\<lambda>r. r) (sqlite_GetTagByLabel e (NormalizeLabel label))"

definition sqliteTags_List :: "dbenv \<Rightarrow> (Tag table, Tag list) act" where
  "sqliteTags_List e = wrapA ''tags: list'' (sqlite_ListTags e)"

definition sqliteTags_Update :: "dbenv \<Rightarrow> Tag \<Rightarrow> (Tag table, unit) act" where
  "sqliteTags_Update e t = (let label = NormalizeLabel (tag_Label t) in
     if label = '''' then failA label_required
     else wrapA ''tags: update'' (SQLitePool_Write e
       (dupA isSQLiteUniqueErr ErrDuplicateLabel (\<lambda>x. x) (sqlite_UpdateTag e label (tag_ID t)))))"

definition sqliteTags_Delete :: "dbenv \<Rightarrow> int \<Rightarrow> (Tag table, unit) act" where
  "sqliteTags_Delete e i = wrapA ''tags: delete'' (SQLitePool_Write e (sqlite_DeleteTag e i))"

definition sqliteTags :: "Tag table TagStore" where
  "sqliteTags = \<lparr>ts_Create = sqliteTags_Create, ts_GetByID = sqliteTags_GetByID, ts_GetByLabel = sqliteTags_GetByLabel,
     ts_List = sqliteTags_List, ts_Update = sqliteTags_Update, ts_Delete = sqliteTags_Delete\<rparr>"

subsection \<open>Postgres\<close>

text \<open>Ids are SERIAL, 32 bits; the order of a listing is that of the collation of the database.\<close>

definition pg_tags_label_unique :: string where "pg_tags_label_unique = pg_unique ''tags_label_key''"

definition postgres_CreateTag :: "dbenv \<Rightarrow> string \<Rightarrow> (Tag table, Tag) act" where
  "postgres_CreateTag e label = stmt e ''CreateTag'' (unique_insert True pg_tags_label_unique tag_Label (tag_row label))"

definition postgres_GetTagByID :: "dbenv \<Rightarrow> int \<Rightarrow> (Tag table, Tag) act" where
  "postgres_GetTagByID e i = stmt e ''GetTagByID'' (sql_one (\<lambda>r. tag_ID r = i))"

definition postgres_GetTagByLabel :: "dbenv \<Rightarrow> string \<Rightarrow> (Tag table, Tag) act" where
  "postgres_GetTagByLabel e label = stmt e ''GetTagByLabel'' (sql_one (\<lambda>r. tag_Label r = label))"

definition postgres_ListTags :: "(string \<Rightarrow> string) \<Rightarrow> dbenv \<Rightarrow> (Tag table, Tag list) act" where
  "postgres_ListTags collate e = stmt e ''ListTags'' (sql_many (\<lambda>_. True) (\<lambda>r. collate (tag_Label r)))"

definition postgres_UpdateTag :: "dbenv \<Rightarrow> string \<Rightarrow> int \<Rightarrow> (Tag table, unit) act" where
  "postgres_UpdateTag e label i =
     stmt e ''UpdateTag'' (unique_update pg_tags_label_unique tag_ID tag_Label i (\<lambda>r. r\<lparr>tag_Label := label\<rparr>))"

definition postgres_DeleteTag :: "dbenv \<Rightarrow> int \<Rightarrow> (Tag table, unit) act" where
  "postgres_DeleteTag e i = stmt e ''DeleteTag'' (sql_delete (\<lambda>r. tag_ID r = i))"

definition postgresTags_Create :: "dbenv \<Rightarrow> string \<Rightarrow> (Tag table, Tag) act" where
  "postgresTags_Create e label0 = (let label = NormalizeLabel label0 in
     if label = '''' then failA label_required
     else dupA isPostgresUniqueErr ErrDuplicateLabel (Wrap ''tags: create'') (postgres_CreateTag e label))"

definition postgresTags_GetByID :: "dbenv \<Rightarrow> int \<Rightarrow> (Tag table, Tag) act" where
  "postgresTags_GetByID e i = rowA (Inl ErrTagNotFound) ''tags: get by id'' (\<lambda>r. r) (postgres_GetTagByID e (wrap32 i))"

definition postgresTags_GetByLabel :: "dbenv \<Rightarrow> string \<Rightarrow> (Tag table, Tag) act" where
  "postgresTags_GetByLabel e label =
     rowA (Inl ErrTagNotFound) ''tags: get by label'' (\<lambda>r. r) (postgres_GetTagByLabel e (NormalizeLabel label))"

definition postgresTags_List :: "(string \<Rightarrow> string) \<Rightarrow> dbenv \<Rightarrow> (Tag table, Tag list) act" where
  "postgresTags_List collate e = wrapA ''tags: list'' (postgres_ListTags collate e)"

definition postgresTags_Update :: "dbenv \<Rightarrow> Tag \<Rightarrow> (Tag table, unit) act" where
  "postgresTags_Update e t = (let label = NormalizeLabel (tag_Label t) in
     if label = '''' then failA label_required
     else dupA isPostgresUniqueErr ErrDuplicateLabel (Wrap ''tags: update'') (postgres_UpdateTag e label (wrap32 (tag_ID t))))"

definition postgresTags_Delete :: "dbenv \<Rightarrow> int \<Rightarrow> (Tag table, unit) act" where
  "postgresTags_Delete e i = wrapA ''tags: delete'' (postgres_DeleteTag e (wrap32 i))"

definition postgresTags :: "(string \<Rightarrow> string) \<Rightarrow> Tag table TagStore" where
  "postgresTags collate = \<lparr>ts_Create = postgresTags_Create, ts_GetByID = postgresTags_GetByID,
     ts_GetByLabel = postgresTags_GetByLabel, ts_List = postgresTags_List collate, ts_Update = postgresTags_Update,
     ts_Delete = postgresTags_Delete\<rparr>"

subsection \<open>What both stores promise\<close>

text \<open>Ids are unique and increasing, labels are normalised, non-empty and unique.\<close>

definition tags_inv :: "Tag table \<Rightarrow> bool" where
  "tags_inv t \<longleftrightarrow> wf_table tag_ID t \<and> distinct (map tag_Label (rows t))
     \<and> (\<forall>r\<in>set (rows t). tag_Label r \<noteq> '''' \<and> NormalizeLabel (tag_Label r) = tag_Label r)"

lemma NormalizeLabel_idem [simp]: "NormalizeLabel (NormalizeLabel l) = NormalizeLabel l"
proof -
  have "trimmed (ToLower s)" if "trimmed s" for s
    using that by (cases "s = []") (auto simp: trimmed_def ToLower_def hd_map last_map lower_char_space)
  then show ?thesis by (simp add: NormalizeLabel_def TrimSpace_id TrimSpace_trimmed)
qed

lemma tags_insert_inv:
  assumes "tags_inv t" "label \<noteq> ''''" "NormalizeLabel label = label" "label \<notin> tag_Label ` set (rows t)"
  shows "tags_inv (snd (sql_insert (tag_row label) t))"
  using assms wf_insert [of tag_ID t "tag_row label"]
  by (auto simp: tags_inv_def tag_row_def sql_insert_def)

lemma unique_update_inv:
  assumes inv: "tags_inv t" "label \<noteq> ''''" "NormalizeLabel label = label"
  shows "tags_inv (snd (unique_update err tag_ID tag_Label i (\<lambda>r. r\<lparr>tag_Label := label\<rparr>) t))"
proof (cases "\<exists>r\<in>set (rows t). tag_ID r = i \<and> (\<exists>r'\<in>set (rows t). tag_ID r' \<noteq> i \<and> tag_Label r' = label)")
  case True
  then show ?thesis using inv by (simp add: unique_update_def)
next
  case False
  let ?f = "\<lambda>r. if tag_ID r = i then r\<lparr>tag_Label := label\<rparr> else r"
  have wf: "wf_table tag_ID (upd_rows (\<lambda>r. tag_ID r = i) (\<lambda>r. r\<lparr>tag_Label := label\<rparr>) t)"
    using inv(1) by (intro wf_upd_rows) (auto simp: tags_inv_def)
  have "inj_on tag_ID (set (rows t))" "distinct (rows t)" "inj_on tag_Label (set (rows t))"
    using inv(1) by (auto simp: tags_inv_def wf_table_def distinct_map)
  moreover have "inj_on (tag_Label \<circ> ?f) (set (rows t))"
    using False calculation(1,3) by (intro inj_onI) (auto simp: inj_on_def split: if_splits)
  ultimately have "distinct (map (tag_Label \<circ> ?f) (rows t))" by (simp add: distinct_map)
  then show ?thesis using False wf inv
    by (auto simp: unique_update_def sql_exec_def tags_inv_def upd_rows_def)
qed

lemma tags_delete_inv: "tags_inv t \<Longrightarrow> tags_inv (del_rows p t)"
  using wf_del_rows [of tag_ID t p] by (auto simp: tags_inv_def del_rows_def distinct_map inj_on_def)

text \<open>A creation on either engine: the statement between the normalisation and the sentinel.\<close>

lemma tag_create_cases:
  assumes "tags_inv t" "label \<noteq> ''''" "NormalizeLabel label = label" "is_dup (DbError err)"
    "dupA is_dup ErrDuplicateLabel other (unique_insert burns err tag_Label (tag_row label)) t = (r, t')"
  shows "tags_inv t' \<and> (if label \<in> tag_Label ` set (rows t) then r = Inl ErrDuplicateLabel \<and> rows t' = rows t
    else r = Inr (tag_row label (next_id t)) \<and> rows t' = rows t @ [tag_row label (next_id t)])"
proof (cases "label \<in> tag_Label ` set (rows t)")
  case True
  then show ?thesis using assms wf_burnt [of tag_ID t]
    by (cases burns) (auto simp: dupA_def unique_insert_def tag_row_def tags_inv_def)
next
  case False
  then show ?thesis using assms tags_insert_inv [OF assms(1-3) False]
    by (auto simp: dupA_def unique_insert_def tag_row_def sql_insert_def)
qed

lemma sqliteTags_Create_quiet:
  "quiet e \<Longrightarrow> NormalizeLabel l \<noteq> '''' \<Longrightarrow> sqliteTags_Create e l
     = dupA isSQLiteUniqueErr ErrDuplicateLabel (Wrap ''tags: create'') (unique_insert False tags_label_unique tag_Label (tag_row (NormalizeLabel l)))"
  by (simp add: sqliteTags_Create_def sqlite_CreateTag_def Let_def)

lemma postgresTags_Create_quiet:
  "quiet e \<Longrightarrow> NormalizeLabel l \<noteq> '''' \<Longrightarrow> postgresTags_Create e l
     = dupA isPostgresUniqueErr ErrDuplicateLabel (Wrap ''tags: create'') (unique_insert True pg_tags_label_unique tag_Label (tag_row (NormalizeLabel l)))"
  by (simp add: postgresTags_Create_def postgres_CreateTag_def Let_def)

lemma sqliteTags_Create_cases:
  assumes "tags_inv t" "quiet e" "NormalizeLabel l \<noteq> ''''" "sqliteTags_Create e l t = (r, t')"
  shows "tags_inv t' \<and> (if NormalizeLabel l \<in> tag_Label ` set (rows t) then r = Inl ErrDuplicateLabel \<and> rows t' = rows t
    else r = Inr (tag_row (NormalizeLabel l) (next_id t)) \<and> rows t' = rows t @ [tag_row (NormalizeLabel l) (next_id t)])"
  using assms(4) unfolding sqliteTags_Create_quiet [OF assms(2,3)]
  by (intro tag_create_cases [OF assms(1,3)]) (simp_all add: tags_label_unique_def)

lemma postgresTags_Create_cases:
  assumes "tags_inv t" "quiet e" "NormalizeLabel l \<noteq> ''''" "postgresTags_Create e l t = (r, t')"
  shows "tags_inv t' \<and> (if NormalizeLabel l \<in> tag_Label ` set (rows t) then r = Inl ErrDuplicateLabel \<and> rows t' = rows t
    else r = Inr (tag_row (NormalizeLabel l) (next_id t)) \<and> rows t' = rows t @ [tag_row (NormalizeLabel l) (next_id t)])"
  using assms(4) unfolding postgresTags_Create_quiet [OF assms(2,3)]
  by (intro tag_create_cases [OF assms(1,3)]) (simp_all add: pg_tags_label_unique_def)

interpretation sqtags: keyed_store sqliteTags_Create tags_inv rows tag_Label NormalizeLabel ErrDuplicateLabel
proof unfold_locales
  fix s e k
  assume a: "tags_inv s" "quiet e" "NormalizeLabel k \<noteq> ''''"
  obtain r s' where c: "sqliteTags_Create e k s = (r, s')" by fastforce
  note cases = sqliteTags_Create_cases [OF a c]
  show "\<exists>x s'. sqliteTags_Create e k s = (Inr x, s') \<and> rows s' = rows s @ [x] \<and> tag_Label x = NormalizeLabel k \<and> tags_inv s'"
    if "NormalizeLabel k \<notin> tag_Label ` set (rows s)" using that cases c by (simp add: tag_row_def)
  show "\<exists>s'. sqliteTags_Create e k s = (Inl ErrDuplicateLabel, s') \<and> rows s' = rows s \<and> tags_inv s'"
    if "NormalizeLabel k \<in> tag_Label ` set (rows s)" using that cases c by simp
qed (simp add: tags_inv_def)

interpretation pgtags: keyed_store postgresTags_Create tags_inv rows tag_Label NormalizeLabel ErrDuplicateLabel
proof unfold_locales
  fix s e k
  assume a: "tags_inv s" "quiet e" "NormalizeLabel k \<noteq> ''''"
  obtain r s' where c: "postgresTags_Create e k s = (r, s')" by fastforce
  note cases = postgresTags_Create_cases [OF a c]
  show "\<exists>x s'. postgresTags_Create e k s = (Inr x, s') \<and> rows s' = rows s @ [x] \<and> tag_Label x = NormalizeLabel k \<and> tags_inv s'"
    if "NormalizeLabel k \<notin> tag_Label ` set (rows s)" using that cases c by (simp add: tag_row_def)
  show "\<exists>s'. postgresTags_Create e k s = (Inl ErrDuplicateLabel, s') \<and> rows s' = rows s \<and> tags_inv s'"
    if "NormalizeLabel k \<in> tag_Label ` set (rows s)" using that cases c by simp
qed (simp add: tags_inv_def)

end
