(* ===== verification/RootFolders.thy ===== *)
theory RootFolders
  imports Keyed_Store Go_Os LibrarySqlite
begin

section \<open>Root folders\<close>

text \<open>
  internal/rootfolder: the two stores, whose paths are trimmed and unique, and \<open>BackfillFromSeries\<close>, which the
  application runs at every start to register the parent folders of the series it knows. Its contract is proved
  once for any store with a unique text (locale \<open>root_store\<close>) and holds for both engines.
\<close>

record RootFolder =
  rf_ID :: int
  rf_Path :: string
  rf_CreatedAt :: int

definition ErrRootNotFound :: store_error where "ErrRootNotFound = ErrNotFound ''rootfolder: not found''"
definition ErrAlreadyExists :: store_error where "ErrAlreadyExists = Errorf ''rootfolder: already exists''"
definition path_required :: store_error where "path_required = Errorf ''rootfolder: path is required''"

text \<open>A row: the creation time is a second on SQLite and a microsecond on Postgres.\<close>

record RootFolderRow =
  rr_ID :: int
  rr_Path :: string
  rr_CreatedAt :: int

record 's RootFolderStore =
  rf_Create :: "dbenv \<Rightarrow> string \<Rightarrow> ('s, RootFolder) act"
  rf_Get :: "dbenv \<Rightarrow> int \<Rightarrow> ('s, RootFolder) act"
  rf_GetByPath :: "dbenv \<Rightarrow> string \<Rightarrow> ('s, RootFolder) act"
  rf_List :: "dbenv \<Rightarrow> ('s, RootFolder list) act"
  rf_Delete :: "dbenv \<Rightarrow> int \<Rightarrow> ('s, unit) act"

subsection \<open>SQLite\<close>

definition rowToDomain :: "RootFolderRow \<Rightarrow> RootFolder" where
  "rowToDomain r = \<lparr>rf_ID = rr_ID r, rf_Path = rr_Path r, rf_CreatedAt = parseSqliteTime (rr_CreatedAt r)\<rparr>"

definition root_row :: "string \<Rightarrow> int \<Rightarrow> int \<Rightarrow> RootFolderRow" where
  "root_row path created i = \<lparr>rr_ID = i, rr_Path = path, rr_CreatedAt = created\<rparr>"

definition sqlite_CreateRootFolder :: "dbenv \<Rightarrow> string \<Rightarrow> (RootFolderRow table, RootFolderRow) act" where
  "sqlite_CreateRootFolder e path = stmt e ''CreateRootFolder''
     (unique_insert False (sqlite_unique ''root_folders.path'') rr_Path (root_row path (sqlite_format (env_now e))))"

definition sqlite_GetRootFolder :: "dbenv \<Rightarrow> int \<Rightarrow> (RootFolderRow table, RootFolderRow) act" where
  "sqlite_GetRootFolder e i = stmt e ''GetRootFolder'' (sql_one (\<lambda>r. rr_ID r = i))"

definition sqlite_GetRootFolderByPath :: "dbenv \<Rightarrow> string \<Rightarrow> (RootFolderRow table, RootFolderRow) act" where
  "sqlite_GetRootFolderByPath e path = stmt e ''GetRootFolderByPath'' (sql_one (\<lambda>r. rr_Path r = path))"

definition sqlite_ListRootFolders :: "dbenv \<Rightarrow> (RootFolderRow table, RootFolderRow list) act" where
  "sqlite_ListRootFolders e = stmt e ''ListRootFolders'' (sql_many (\<lambda>_. True) rr_Path)"

definition sqlite_DeleteRootFolder :: "dbenv \<Rightarrow> int \<Rightarrow> (RootFolderRow table, unit) act" where
  "sqlite_DeleteRootFolder e i = stmt e ''DeleteRootFolder'' (sql_delete (\<lambda>r. rr_ID r = i))"

definition sqliteRootFolders_Create :: "dbenv \<Rightarrow> string \<Rightarrow> (RootFolderRow table, RootFolder) act" where
  "sqliteRootFolders_Create e path0 = (let path = TrimSpace path0 in
     if path = '''' then failA path_required
     else SQLitePool_Write e (mapA rowToDomain
       (dupA isSQLiteUniqueErr ErrAlreadyExists (Wrap ''rootfolder: create'') (sqlite_CreateRootFolder e path))))"

definition sqliteRootFolders_Get :: "dbenv \<Rightarrow> int \<Rightarrow> (RootFolderRow table, RootFolder) act" where
  "sqliteRootFolders_Get e i = rowA (Inl ErrRootNotFound) ''rootfolder: get'' rowToDomain (sqlite_GetRootFolder e i)"

definition sqliteRootFolders_GetByPath :: "dbenv \<Rightarrow> string \<Rightarrow> (RootFolderRow table, RootFolder) act" where
  "sqliteRootFolders_GetByPath e path =
     rowA (Inl ErrRootNotFound) ''rootfolder: get by path'' rowToDomain (sqlite_GetRootFolderByPath e (TrimSpace path))"

definition sqliteRootFolders_List :: "dbenv \<Rightarrow> (RootFolderRow table, RootFolder list) act" where
  "sqliteRootFolders_List e = mapA (map rowToDomain) (wrapA ''rootfolder: list'' (sqlite_ListRootFolders e))"

definition sqliteRootFolders_Delete :: "dbenv \<Rightarrow> int \<Rightarrow> (RootFolderRow table, unit) act" where
  "sqliteRootFolders_Delete e i = wrapA ''rootfolder: delete'' (SQLitePool_Write e (sqlite_DeleteRootFolder e i))"

definition sqliteRootFolders :: "RootFolderRow table RootFolderStore" where
  "sqliteRootFolders = \<lparr>rf_Create = sqliteRootFolders_Create, rf_Get = sqliteRootFolders_Get,
     rf_GetByPath = sqliteRootFolders_GetByPath, rf_List = sqliteRootFolders_List, rf_Delete = sqliteRootFolders_Delete\<rparr>"

subsection \<open>Postgres\<close>

definition pgRowToDomain :: "RootFolderRow \<Rightarrow> RootFolder" where
  "pgRowToDomain r = \<lparr>rf_ID = rr_ID r, rf_Path = rr_Path r, rf_CreatedAt = pg_time (rr_CreatedAt r)\<rparr>"

definition postgres_CreateRootFolder :: "dbenv \<Rightarrow> string \<Rightarrow> (RootFolderRow table, RootFolderRow) act" where
  "postgres_CreateRootFolder e path = stmt e ''CreateRootFolder''
     (unique_insert True (pg_unique ''root_folders_path_key'') rr_Path (root_row path (pg_micros (env_now e))))"

definition postgres_GetRootFolder :: "dbenv \<Rightarrow> int \<Rightarrow> (RootFolderRow table, RootFolderRow) act" where
  "postgres_GetRootFolder e i = stmt e ''GetRootFolder'' (sql_one (\<lambda>r. rr_ID r = i))"

definition postgres_GetRootFolderByPath :: "dbenv \<Rightarrow> string \<Rightarrow> (RootFolderRow table, RootFolderRow) act" where
  "postgres_GetRootFolderByPath e path = stmt e ''GetRootFolderByPath'' (sql_one (\<lambda>r. rr_Path r = path))"

definition postgres_ListRootFolders :: "(string \<Rightarrow> string) \<Rightarrow> dbenv \<Rightarrow> (RootFolderRow table, RootFolderRow list) act" where
  "postgres_ListRootFolders collate e = stmt e ''ListRootFolders'' (sql_many (\<lambda>_. True) (\<lambda>r. collate (rr_Path r)))"

definition postgres_DeleteRootFolder :: "dbenv \<Rightarrow> int \<Rightarrow> (RootFolderRow table, unit) act" where
  "postgres_DeleteRootFolder e i = stmt e ''DeleteRootFolder'' (sql_delete (\<lambda>r. rr_ID r = i))"

definition postgresRootFolders_Create :: "dbenv \<Rightarrow> string \<Rightarrow> (RootFolderRow table, RootFolder) act" where
  "postgresRootFolders_Create e path0 = (let path = TrimSpace path0 in
     if path = '''' then failA path_required
     else mapA pgRowToDomain
       (dupA isPostgresUniqueErr ErrAlreadyExists (Wrap ''rootfolder: create'') (postgres_CreateRootFolder e path)))"

definition postgresRootFolders_Get :: "dbenv \<Rightarrow> int \<Rightarrow> (RootFolderRow table, RootFolder) act" where
  "postgresRootFolders_Get e i =
     rowA (Inl ErrRootNotFound) ''rootfolder: get'' pgRowToDomain (postgres_GetRootFolder e (wrap32 i))"

definition postgresRootFolders_GetByPath :: "dbenv \<Rightarrow> string \<Rightarrow> (RootFolderRow table, RootFolder) act" where
  "postgresRootFolders_GetByPath e path =
     rowA (Inl ErrRootNotFound) ''rootfolder: get by path'' pgRowToDomain (postgres_GetRootFolderByPath e (TrimSpace path))"

definition postgresRootFolders_List :: "(string \<Rightarrow> string) \<Rightarrow> dbenv \<Rightarrow> (RootFolderRow table, RootFolder list) act" where
  "postgresRootFolders_List collate e =
     mapA (map pgRowToDomain) (wrapA ''rootfolder: list'' (postgres_ListRootFolders collate e))"

definition postgresRootFolders_Delete :: "dbenv \<Rightarrow> int \<Rightarrow> (RootFolderRow table, unit) act" where
  "postgresRootFolders_Delete e i = wrapA ''rootfolder: delete'' (postgres_DeleteRootFolder e (wrap32 i))"

definition postgresRootFolders :: "(string \<Rightarrow> string) \<Rightarrow> RootFolderRow table RootFolderStore" where
  "postgresRootFolders collate = \<lparr>rf_Create = postgresRootFolders_Create, rf_Get = postgresRootFolders_Get,
     rf_GetByPath = postgresRootFolders_GetByPath, rf_List = postgresRootFolders_List collate,
     rf_Delete = postgresRootFolders_Delete\<rparr>"

subsection \<open>backfill.go\<close>

text \<open>The loop over the series, with the set of roots seen so far.\<close>

fun backfill_roots :: "('s RootFolderStore) \<Rightarrow> dbenv \<Rightarrow> string list \<Rightarrow> Series list \<Rightarrow> ('s, unit) act" where
  "backfill_roots rf e seen [] = retA ()"
| "backfill_roots rf e seen (x # xs) =
     (if se_Path x = '''' then backfill_roots rf e seen xs
      else let root = filepath_Dir (se_Path x) in
        if root \<in> set seen then backfill_roots rf e seen xs
        else (\<lambda>s. case rf_Create rf e root s of
               (Inl err, s') \<Rightarrow> if error_is err ErrAlreadyExists then backfill_roots rf e (root # seen) xs s'
                 else (Inl (Wrap (''rootfolder: backfill create '' @ root) err), s')
             | (Inr _, s') \<Rightarrow> backfill_roots rf e (root # seen) xs s'))"

text \<open>The two stores work on their own tables, the two components of the state.\<close>

definition BackfillFromSeries ::
  "'s RootFolderStore \<Rightarrow> (dbenv \<Rightarrow> ('t, Series list) act) \<Rightarrow> dbenv \<Rightarrow> ('s \<times> 't, unit) act" where
  "BackfillFromSeries rf series_List e st = (case series_List e (snd st) of
     (Inl x, t) \<Rightarrow> (Inl (Wrap ''rootfolder: backfill list series'' x), (fst st, t))
   | (Inr all, t) \<Rightarrow> (case backfill_roots rf e [] all (fst st) of (r, s') \<Rightarrow> (r, (s', t))))"

subsection \<open>The contract of the backfill\<close>

definition series_roots :: "Series list \<Rightarrow> string set" where
  "series_roots xs = set (map (\<lambda>x. TrimSpace (filepath_Dir (se_Path x))) (filter (\<lambda>x. se_Path x \<noteq> '''') xs))"

lemma series_roots_simps [simp]: "series_roots [] = {}"
  "series_roots (x # xs) = (if se_Path x = '''' then {} else {TrimSpace (filepath_Dir (se_Path x))}) \<union> series_roots xs"
  by (auto simp: series_roots_def)

locale root_store = keyed_store "rf_Create rf" inv items rf_Path TrimSpace ErrAlreadyExists
  for rf :: "'s RootFolderStore" and inv :: "'s \<Rightarrow> bool" and items :: "'s \<Rightarrow> RootFolder list"
begin

lemma backfill_run:
  assumes "inv s" "quiet e" "'''' \<notin> series_roots xs" "TrimSpace ` set seen \<subseteq> rf_Path ` set (items s)"
    "backfill_roots rf e seen xs s = (r, s')"
  shows "r = Inr () \<and> inv s' \<and> (\<exists>new. items s' = items s @ new)
    \<and> rf_Path ` set (items s') = rf_Path ` set (items s) \<union> series_roots xs"
  using assms
proof (induction xs arbitrary: seen s)
  case Nil
  then show ?case by (simp add: retA_def)
next
  case (Cons x xs)
  let ?root = "filepath_Dir (se_Path x)"
  have rest: "'''' \<notin> series_roots xs" using Cons.prems(3) by simp
  consider (blank) "se_Path x = ''''" | (seen) "se_Path x \<noteq> ''''" "?root \<in> set seen"
    | (new) "se_Path x \<noteq> ''''" "?root \<notin> set seen" by blast
  then show ?case
  proof cases
    case blank
    then show ?thesis using Cons.IH [OF Cons.prems(1,2) rest Cons.prems(4)] Cons.prems(5) by simp
  next
    case seen
    then have "TrimSpace ?root \<in> rf_Path ` set (items s)" using Cons.prems(4) by auto
    then show ?thesis using Cons.IH [OF Cons.prems(1,2) rest Cons.prems(4)] Cons.prems(5) seen
      by (simp add: Let_def) blast
  next
    case new
    obtain c s1 where c: "rf_Create rf e ?root s = (c, s1)" by fastforce
    have "TrimSpace ?root \<noteq> ''''" using Cons.prems(3) new by auto
    note E = ensure [OF Cons.prems(1,2) this c]
    from E(2) obtain added where added: "items s1 = items s @ added"
      "map rf_Path added = (if TrimSpace ?root \<in> rf_Path ` set (items s) then [] else [TrimSpace ?root])" by blast
    have "rf_Path ` set added = set (map rf_Path added)" by simp
    then have keys: "rf_Path ` set (items s1) = insert (TrimSpace ?root) (rf_Path ` set (items s))"
      unfolding added(1) set_append image_Un added(2) by auto
    have "backfill_roots rf e (?root # seen) xs s1 = (r, s')"
      using Cons.prems(5) new c E(3) by (auto simp: Let_def ErrAlreadyExists_def split: if_splits)
    note run = Cons.IH [OF E(1) Cons.prems(2) rest _ this]
    have "TrimSpace ` set (?root # seen) \<subseteq> rf_Path ` set (items s1)" using keys Cons.prems(4) by auto
    from run [OF this] show ?thesis unfolding keys using added(1) new(1) by auto
  qed
qed

text \<open>A second run, at whatever time, adds nothing.\<close>

lemma backfill_again:
  assumes "inv s" "quiet e" "'''' \<notin> series_roots xs" "series_roots xs \<subseteq> rf_Path ` set (items s)"
    "backfill_roots rf e [] xs s = (r, s')"
  shows "r = Inr () \<and> items s' = items s"
proof -
  from backfill_run [OF assms(1-3) _ assms(5)] obtain new where new: "r = Inr ()" "inv s'" "items s' = items s @ new"
    "rf_Path ` set (items s') = rf_Path ` set (items s)" using Un_absorb2 [OF assms(4)] by auto
  have "new = []"
  proof (rule ccontr)
    assume "new \<noteq> []"
    then obtain x where "x \<in> set new" by (cases new) auto
    with new(3,4) have "rf_Path x \<in> rf_Path ` set (items s)" by (metis Un_iff image_eqI set_append)
    with keys_distinct [OF new(2)] \<open>x \<in> set new\<close> new(3) show False by force
  qed
  with new show ?thesis by simp
qed

end

subsection \<open>Both engines keep the contract\<close>

definition roots_inv :: "RootFolderRow table \<Rightarrow> bool" where
  "roots_inv t \<longleftrightarrow> wf_table rr_ID t \<and> distinct (map rr_Path (rows t))"

lemma root_create_cases:
  assumes "roots_inv t" "is_dup (DbError err)" "\<And>r. rf_Path (conv r) = rr_Path r"
    "mapA conv (dupA is_dup ErrAlreadyExists other (unique_insert burns err rr_Path (root_row path now))) t = (r, t')"
  shows "roots_inv t' \<and> (if path \<in> rr_Path ` set (rows t) then r = Inl ErrAlreadyExists \<and> rows t' = rows t
    else r = Inr (conv (root_row path now (next_id t))) \<and> rows t' = rows t @ [root_row path now (next_id t)])"
proof (cases "path \<in> rr_Path ` set (rows t)")
  case True
  then show ?thesis using assms wf_burnt [of rr_ID t]
    by (cases burns) (auto simp: mapA_def dupA_def unique_insert_def root_row_def roots_inv_def)
next
  case False
  then show ?thesis using assms wf_insert [of rr_ID t "root_row path now"]
    by (auto simp: mapA_def dupA_def unique_insert_def root_row_def sql_insert_def roots_inv_def)
qed

lemma root_storeI:
  assumes "\<And>e path t r t'. \<lbrakk>roots_inv t; quiet e; TrimSpace path \<noteq> ''''; rf_Create rf e path t = (r, t')\<rbrakk> \<Longrightarrow>
      roots_inv t' \<and> (if TrimSpace path \<in> rr_Path ` set (rows t) then r = Inl ErrAlreadyExists \<and> rows t' = rows t
        else \<exists>x. rr_Path x = TrimSpace path \<and> r = Inr (conv x) \<and> rows t' = rows t @ [x])"
    and conv: "\<And>r. rf_Path (conv r) = rr_Path r"
  shows "root_store rf roots_inv (\<lambda>t. map conv (rows t))"
proof unfold_locales
  have keys: "rf_Path ` set (map conv xs) = rr_Path ` set xs" for xs by (simp add: conv image_image)
  fix s e k
  assume a: "roots_inv s" "quiet e" "TrimSpace k \<noteq> ''''"
  obtain r s' where c: "rf_Create rf e k s = (r, s')" by fastforce
  note cases = assms(1) [OF a c]
  show "\<exists>x s'. rf_Create rf e k s = (Inr x, s') \<and> map conv (rows s') = map conv (rows s) @ [x]
      \<and> rf_Path x = TrimSpace k \<and> roots_inv s'"
    if "TrimSpace k \<notin> rf_Path ` set (map conv (rows s))" using that cases c conv unfolding keys by auto
  show "\<exists>s'. rf_Create rf e k s = (Inl ErrAlreadyExists, s') \<and> map conv (rows s') = map conv (rows s) \<and> roots_inv s'"
    if "TrimSpace k \<in> rf_Path ` set (map conv (rows s))" using that cases c unfolding keys by auto
next
  fix s assume "roots_inv s"
  then show "distinct (map rf_Path (map conv (rows s)))" by (simp add: roots_inv_def conv o_def)
qed

interpretation sqroots: root_store sqliteRootFolders roots_inv "\<lambda>t. map rowToDomain (rows t)"
proof (rule root_storeI)
  fix e path t r t'
  assume a: "roots_inv t" "quiet e" "TrimSpace path \<noteq> ''''" "rf_Create sqliteRootFolders e path t = (r, t')"
  then have "mapA rowToDomain (dupA isSQLiteUniqueErr ErrAlreadyExists (Wrap ''rootfolder: create'')
      (unique_insert False (sqlite_unique ''root_folders.path'') rr_Path (root_row (TrimSpace path) (sqlite_format (env_now e))))) t = (r, t')"
    by (simp add: sqliteRootFolders_def sqliteRootFolders_Create_def sqlite_CreateRootFolder_def Let_def)
  from root_create_cases [OF a(1) _ _ this] show "roots_inv t' \<and> (if TrimSpace path \<in> rr_Path ` set (rows t)
      then r = Inl ErrAlreadyExists \<and> rows t' = rows t
      else \<exists>x. rr_Path x = TrimSpace path \<and> r = Inr (rowToDomain x) \<and> rows t' = rows t @ [x])"
    by (auto simp: rowToDomain_def root_row_def)
qed (simp add: rowToDomain_def)

interpretation pgroots: root_store "postgresRootFolders collate" roots_inv "\<lambda>t. map pgRowToDomain (rows t)"
proof (rule root_storeI)
  fix e path t r t'
  assume a: "roots_inv t" "quiet e" "TrimSpace path \<noteq> ''''" "rf_Create (postgresRootFolders collate) e path t = (r, t')"
  then have "mapA pgRowToDomain (dupA isPostgresUniqueErr ErrAlreadyExists (Wrap ''rootfolder: create'')
      (unique_insert True (pg_unique ''root_folders_path_key'') rr_Path (root_row (TrimSpace path) (pg_micros (env_now e))))) t = (r, t')"
    by (simp add: postgresRootFolders_def postgresRootFolders_Create_def postgres_CreateRootFolder_def Let_def)
  from root_create_cases [OF a(1) _ _ this] show "roots_inv t' \<and> (if TrimSpace path \<in> rr_Path ` set (rows t)
      then r = Inl ErrAlreadyExists \<and> rows t' = rows t
      else \<exists>x. rr_Path x = TrimSpace path \<and> r = Inr (pgRowToDomain x) \<and> rows t' = rows t @ [x])"
    by (auto simp: pgRowToDomain_def root_row_def)
qed (simp add: pgRowToDomain_def)

subsection \<open>Properties\<close>

lemma conv_rows:
  assumes "inj conv" "map conv xs = map conv ys @ zs"
  shows "\<exists>new. xs = ys @ new"
  using assms by (auto simp: map_eq_append_conv dest: map_injective)

lemma backfill_rows:
  assumes st: "root_store rf roots_inv (\<lambda>t. map conv (rows t))"
    and conv: "\<And>r. rf_Path (conv r) = rr_Path r" "inj conv"
    and pre: "roots_inv t" "quiet e" "quiet e'" "'''' \<notin> series_roots all"
    and run: "backfill_roots rf e [] all t = (r, t')" "backfill_roots rf e' [] all t' = (r', t'')"
  shows "r = Inr () \<and> roots_inv t' \<and> (\<exists>new. rows t' = rows t @ new)
      \<and> rr_Path ` set (rows t') = rr_Path ` set (rows t) \<union> series_roots all \<and> r' = Inr () \<and> rows t'' = rows t'"
proof -
  have keys: "rf_Path ` set (map conv xs) = rr_Path ` set xs" for xs by (simp add: conv(1) image_image)
  note one = root_store.backfill_run [OF st pre(1,2,4) _ run(1), unfolded keys]
  then have "series_roots all \<subseteq> rr_Path ` set (rows t')" by simp
  with root_store.backfill_again [OF st _ pre(3,4) _ run(2), unfolded keys] one
  have "r' = Inr ()" "rows t'' = rows t'" using conv(2) by (auto dest: map_injective)
  moreover obtain new where "map conv (rows t') = map conv (rows t) @ new" using one by auto
  from conv_rows [OF conv(2) this] have "\<exists>new. rows t' = rows t @ new" .
  ultimately show ?thesis using one by simp
qed

lemma rowToDomain_conv: "rf_Path (rowToDomain r) = rr_Path r" "inj rowToDomain"
  by (auto simp: inj_def rowToDomain_def parseSqliteTime_def second_ns_def)

lemma pgRowToDomain_conv: "rf_Path (pgRowToDomain r) = rr_Path r" "inj pgRowToDomain"
  by (auto simp: inj_def pgRowToDomain_def pg_time_def micro_ns_def)

text \<open>On SQLite and on Postgres, a start-up backfill on an undisturbed database, when no series has a parent folder that
  is blank, succeeds and leaves exactly the old root folders, unchanged and first, and the trimmed parent folder of
  every series with a path, each once; a second backfill over the same series, at any time, changes no row.\<close>

theorem backfill_idempotent:
  assumes "rf = sqliteRootFolders \<or> rf = postgresRootFolders collate" "roots_inv t" "quiet e" "quiet e'"
    and "series_List e db = (Inr all, db)" "series_List e' db = (Inr all, db)" "'''' \<notin> series_roots all"
  shows "\<exists>t' new t''. BackfillFromSeries rf series_List e (t, db) = (Inr (), (t', db))
    \<and> rows t' = rows t @ new \<and> distinct (map rr_Path (rows t'))
    \<and> rr_Path ` set (rows t') = rr_Path ` set (rows t) \<union> series_roots all
    \<and> BackfillFromSeries rf series_List e' (t', db) = (Inr (), (t'', db)) \<and> rows t'' = rows t'"
proof -
  obtain r t' where run: "backfill_roots rf e [] all t = (r, t')" by fastforce
  obtain r' t'' where again: "backfill_roots rf e' [] all t' = (r', t'')" by fastforce
  have "r = Inr () \<and> roots_inv t' \<and> (\<exists>new. rows t' = rows t @ new)
      \<and> rr_Path ` set (rows t') = rr_Path ` set (rows t) \<union> series_roots all \<and> r' = Inr () \<and> rows t'' = rows t'"
    using assms(1)
      backfill_rows [OF sqroots.root_store_axioms rowToDomain_conv assms(2-4,7), of r t' r' t'']
      backfill_rows [OF pgroots.root_store_axioms pgRowToDomain_conv assms(2-4,7), of collate r t' r' t''] run again
    by blast
  with run again assms(5,6) show ?thesis
    by (auto simp: BackfillFromSeries_def roots_inv_def)
qed

definition rooted_series :: Series where
  "rooted_series = \<lparr>se_ID = 1, se_TvdbID = 1001, se_Title = ''Show'', se_Slug = ''show'', se_Status = ''continuing'',
     se_SeriesType = ''standard'', se_Path = ''/tv/Show'', se_Monitored = True, se_QualityProfileID = 1,
     se_SeasonFolder = True, se_MonitorNewItems = ''all'', se_Added = 0, se_CreatedAt = 0, se_UpdatedAt = 0\<rparr>"

theorem backfill_idempotent_witness:
  "\<exists>t' new t''. BackfillFromSeries sqliteRootFolders (\<lambda>_ db. (Inr [rooted_series], db)) (quiet_at 0) (empty_table, ())
      = (Inr (), (t', ()))
    \<and> rows t' = rows (empty_table :: RootFolderRow table) @ new \<and> distinct (map rr_Path (rows t'))
    \<and> rr_Path ` set (rows t') = rr_Path ` set (rows (empty_table :: RootFolderRow table)) \<union> {''/tv''}
    \<and> BackfillFromSeries sqliteRootFolders (\<lambda>_ db. (Inr [rooted_series], db)) (quiet_at 9) (t', ()) = (Inr (), (t'', ()))
    \<and> rows t'' = rows t'"
proof -
  have roots: "series_roots [rooted_series] = {''/tv''}" by code_simp
  have "roots_inv empty_table" by (simp add: roots_inv_def empty_table_def wf_table_def)
  then show ?thesis
    using backfill_idempotent [of sqliteRootFolders "\<lambda>s. s" empty_table "quiet_at 0" "quiet_at 9"
        "\<lambda>_ db. (Inr [rooted_series], db)" "()" "[rooted_series]"] roots by simp
qed

end
