(* ===== verification/RecycleBin.thy ===== *)
theory RecycleBin
  imports Go_Os "HOL-Library.Multiset"
begin

section \<open>The recycle bin\<close>

text \<open>
  internal/recyclebin on the file system of Go_Os, extended by a modification time per name. Adding or removing a
  name sets the time of its directory. \<open>DeleteFile\<close> and \<open>DeleteFolder\<close> move into the bin, \<open>Cleanup\<close>
  removes the entries of the bin that are old enough, \<open>Empty\<close> all of them. The properties say what a clean-up removes and
  keeps, for every file below the bin, and that a file moved into the bin replaces one of the same name.
\<close>

record binfs =
  bf_fs :: fs
  bf_mtime :: "path \<Rightarrow> int"

subsection \<open>Calls of package os\<close>

definition onfs :: "(fs, 'a) act \<Rightarrow> (binfs, 'a) act" where
  "onfs m s = (case m (bf_fs s) of (r, f) \<Rightarrow> (r, s\<lparr>bf_fs := f\<rparr>))"

text \<open>A call that succeeds at the instant \<open>now\<close> in changing the names in the directories \<open>ds\<close>.\<close>

definition touching :: "int \<Rightarrow> path list \<Rightarrow> (fs, 'a) act \<Rightarrow> (binfs, 'a) act" where
  "touching now ds m s = (case m (bf_fs s) of
     (Inl e, f) \<Rightarrow> (Inl e, s\<lparr>bf_fs := f\<rparr>)
   | (Inr x, f) \<Rightarrow> (Inr x, s\<lparr>bf_fs := f, bf_mtime := \<lambda>p. if p \<in> set ds then now else bf_mtime s p\<rparr>))"

definition below :: "path \<Rightarrow> path \<Rightarrow> bool" where
  "below d p \<longleftrightarrow> prefix d p"

definition remove_tree :: "path \<Rightarrow> fs \<Rightarrow> fs" where
  "remove_tree d f = f\<lparr>fs_names := filter (\<lambda>(p, _). \<not> below d p) (fs_names f)\<rparr>"

text \<open>\<open>os.RemoveAll\<close>: nothing for an empty or missing path, an error for one that ends in a dot element.\<close>

definition os_RemoveAll :: "fsenv \<Rightarrow> int \<Rightarrow> string \<Rightarrow> (binfs, unit) act" where
  "os_RemoveAll v now p =
     (if p = '''' then retA ()
      else if p = ''.'' \<or> HasSuffix p ''/.'' then failA (OsError ''invalid argument'')
      else (\<lambda>s. if lookup (bf_fs s) (resolve p) = None then (Inr (), s)
        else touching now [butlast (resolve p)] (oscall v ''RemoveAll'' (resolve p)
          (\<lambda>f. (Inr (), remove_tree (resolve p) f))) s))"

definition move_tree :: "path \<Rightarrow> path \<Rightarrow> fs \<Rightarrow> fs" where
  "move_tree old new f = f\<lparr>fs_names := map (\<lambda>(p, x). (if below old p then new @ drop (length old) p else p, x))
     (filter (\<lambda>(p, _). \<not> below new p) (fs_names f))\<rparr>"

text \<open>\<open>os.Rename\<close> of a directory: not into itself, and only over nothing or an empty directory.\<close>

definition rename_dir :: "fsenv \<Rightarrow> path \<Rightarrow> path \<Rightarrow> (fs, unit) act" where
  "rename_dir v old new = oscall v ''Rename'' new (\<lambda>f.
     if old = new then (Inr (), f)
     else if below old new then (Inl (OsError ''invalid argument''), f)
     else if \<not> is_dir f (butlast new) then (Inl (OsError ENOENT), f)
     else case lookup f new of
       Some (FileE _) \<Rightarrow> (Inl (OsError ENOTDIR), f)
     | Some DirE \<Rightarrow> (if dir_entries f new = [] then (Inr (), move_tree old new f) else (Inl (OsError EEXIST), f))
     | None \<Rightarrow> (Inr (), move_tree old new f))"

definition os_Rename_any :: "fsenv \<Rightarrow> int \<Rightarrow> string \<Rightarrow> string \<Rightarrow> (binfs, unit) act" where
  "os_Rename_any v now old new s =
     (let p = resolve old; q = resolve new;
          m = (if lookup (bf_fs s) p = Some DirE then rename_dir v p q else os_Rename v old new)
      in case touching now [butlast p, butlast q] m s of
           (Inl e, s') \<Rightarrow> (Inl e, s')
         | (Inr x, s') \<Rightarrow> (Inr x, s'\<lparr>bf_mtime := \<lambda>r. if below q r then bf_mtime s (p @ drop (length q) r) else bf_mtime s' r\<rparr>))"

definition os_Chtimes :: "fsenv \<Rightarrow> string \<Rightarrow> int \<Rightarrow> (binfs, unit) act" where
  "os_Chtimes v p t s = (case fe_fault v ''Chtimes'' (resolve p) of
     Some x \<Rightarrow> (Inl (OsError x), s)
   | None \<Rightarrow> (if lookup (bf_fs s) (resolve p) = None then (Inl (OsError ENOENT), s)
       else (Inr (), s\<lparr>bf_mtime := (bf_mtime s)(resolve p := t)\<rparr>)))"

text \<open>\<open>bin_copyFile\<close>: the sync is one more call that can fail.\<close>

definition bin_copyFile :: "fsenv \<Rightarrow> int \<Rightarrow> string \<Rightarrow> string \<Rightarrow> (binfs, unit) act" where
  "bin_copyFile v now src dst =
     bindA (onfs (os_Open v src)) (\<lambda>src_file.
     bindA (touching now [butlast (resolve dst), resolve dst] (os_Create v dst)) (\<lambda>out.
     bindA (onfs (io_Copy v (resolve dst) out src_file)) (\<lambda>_.
     onfs (oscall v ''Sync'' (resolve dst) (\<lambda>f. (Inr (), f))))))"

subsection \<open>recyclebin.go\<close>

definition DeleteFile :: "fsenv \<Rightarrow> int \<Rightarrow> string \<Rightarrow> string \<Rightarrow> string \<Rightarrow> (binfs, string) act" where
  "DeleteFile v now path recycleBin subfolder =
     (if recycleBin = '''' then (\<lambda>s. case touching now [butlast (resolve path)] (os_Remove v path) s of
         (Inl e, s') \<Rightarrow> if IsNotExist e then (Inr '''', s') else (Inl (Wrap ''recyclebin: permanent delete'' e), s')
       | (Inr _, s') \<Rightarrow> (Inr '''', s'))
      else let dest = filepath_Join [recycleBin, subfolder, Base path] in
        bindA (wrapA ''recyclebin: mkdir'' (onfs (os_MkdirAll v (filepath_Dir dest)))) (\<lambda>_.
        bindA (\<lambda>s. case os_Rename_any v now path dest s of
            (Inr x, s') \<Rightarrow> (Inr x, s')
          | (Inl _, s') \<Rightarrow>
              bindA (wrapA ''recyclebin: cross-fs copy'' (bin_copyFile v now path dest)) (\<lambda>_.
                wrapA ''recyclebin: remove source after copy''
                  (touching now [butlast (resolve path)] (os_Remove v path))) s') (\<lambda>_.
        \<lambda>s. (Inr dest, snd (os_Chtimes v dest now s)))))"

definition DeleteFolder :: "fsenv \<Rightarrow> int \<Rightarrow> string \<Rightarrow> string \<Rightarrow> (binfs, string) act" where
  "DeleteFolder v now path recycleBin =
     (if recycleBin = '''' then
        bindA (wrapA ''recyclebin: permanent delete folder'' (os_RemoveAll v now path)) (\<lambda>_. retA '''')
      else let dest = filepath_Join [recycleBin, Base path] in
        bindA (wrapA ''recyclebin: mkdir'' (onfs (os_MkdirAll v (filepath_Dir dest)))) (\<lambda>_.
        bindA (wrapA ''recyclebin: move folder'' (os_Rename_any v now path dest)) (\<lambda>_.
        \<lambda>s. (Inr dest, snd (os_Chtimes v dest now s)))))"

text \<open>The two loops over the entries of the bin. \<open>Info\<close> of an entry that is gone fails, and the entry is skipped. With an
  error \<open>Cleanup\<close> also returns the count so far, which its caller drops.\<close>

fun cleanup_entries :: "fsenv \<Rightarrow> int \<Rightarrow> string \<Rightarrow> int \<Rightarrow> int \<Rightarrow> (string \<times> bool) list \<Rightarrow> (binfs, int) act" where
  "cleanup_entries v now bin cutoff removed [] s = (Inr removed, s)"
| "cleanup_entries v now bin cutoff removed (e # es) s =
     (let full = filepath_Join [bin, fst e]; p = resolve bin @ [fst e] in
      if fe_fault v ''Info'' p \<noteq> None \<or> lookup (bf_fs s) p = None then cleanup_entries v now bin cutoff removed es s
      else if bf_mtime s p > cutoff then cleanup_entries v now bin cutoff removed es s
      else case os_RemoveAll v now full s of
        (Inl x, s') \<Rightarrow> (Inl (Wrap ''recyclebin: remove'' x), s')
      | (Inr _, s') \<Rightarrow> cleanup_entries v now bin cutoff (removed + 1) es s')"

definition Cleanup :: "fsenv \<Rightarrow> int \<Rightarrow> string \<Rightarrow> int \<Rightarrow> (binfs, int) act" where
  "Cleanup v now recycleBin maxAge =
     (if recycleBin = '''' \<or> maxAge \<le> 0 then retA 0
      else (\<lambda>s. case onfs (os_Stat v recycleBin) s of
        (Inl e, s') \<Rightarrow> if IsNotExist e then (Inr 0, s') else (Inl (Wrap ''recyclebin: stat'' e), s')
      | (Inr (Some _), s') \<Rightarrow> (Inl (Errorf (''recyclebin: '' @ recycleBin @ '' is not a directory'')), s')
      | (Inr None, s') \<Rightarrow>
          bindA (wrapA ''recyclebin: readdir'' (onfs (os_ReadDir v recycleBin))) (\<lambda>entries.
            cleanup_entries v now recycleBin (now - maxAge) 0 entries) s'))"

fun empty_entries :: "fsenv \<Rightarrow> int \<Rightarrow> string \<Rightarrow> (string \<times> bool) list \<Rightarrow> (binfs, unit) act" where
  "empty_entries v now bin [] s = (Inr (), s)"
| "empty_entries v now bin (e # es) s = (case os_RemoveAll v now (filepath_Join [bin, fst e]) s of
     (Inl x, s') \<Rightarrow> (Inl (Wrap ''recyclebin: remove'' x), s')
   | (Inr _, s') \<Rightarrow> empty_entries v now bin es s')"

definition Empty :: "fsenv \<Rightarrow> int \<Rightarrow> string \<Rightarrow> (binfs, unit) act" where
  "Empty v now recycleBin =
     (if recycleBin = '''' then retA ()
      else (\<lambda>s. case onfs (os_ReadDir v recycleBin) s of
        (Inl e, s') \<Rightarrow> if IsNotExist e then (Inr (), s') else (Inl (Wrap ''recyclebin: readdir'' e), s')
      | (Inr entries, s') \<Rightarrow> empty_entries v now recycleBin entries s'))"

text \<open>The scheduled task: the configured number of days as a duration of Go, in nanoseconds.\<close>

definition day_ns :: int where "day_ns = 24 * 3600 * 1000000000"

definition recycleBinCleanup_Handle ::
  "fsenv \<Rightarrow> int \<Rightarrow> (binfs, string \<times> int) act \<Rightarrow> (binfs, unit) act" where
  "recycleBinCleanup_Handle v now host_config =
     bindA (wrapA ''recycle-bin cleanup: get host config'' host_config) (\<lambda>(bin, days).
     bindA (wrapA ''recycle-bin cleanup'' (Cleanup v now bin (wrap64 (wrap64 (days * 24) * (3600 * 1000000000))))) (\<lambda>_. retA ()))"

subsection \<open>Paths of entries\<close>

lemma Join_append_one: "Join (xs @ [n]) ''/'' = (if xs = [] then n else Join xs ''/'' @ slash # n)"
proof (induction xs)
  case (Cons x xs)
  then show ?case by (cases xs) (simp_all add: slash_def)
qed simp

lemma proper_no_dot:
  assumes "proper n"
  shows "y @ n \<noteq> ''.'' \<or> y \<noteq> []" "\<not> suffix ''/.'' (y @ n)"
proof -
  show "y @ n \<noteq> ''.'' \<or> y \<noteq> []" using assms by (auto simp: proper_def)
  show "\<not> suffix ''/.'' (y @ n)"
  proof
    assume "suffix ''/.'' (y @ n)"
    then obtain z where z: "y @ n = z @ [slash] @ ''.''" by (auto simp: suffix_def slash_def)
    obtain m c where n: "n = m @ [c]" using assms by (cases n rule: rev_cases) (auto simp: proper_def)
    with z have c: "c = CHR ''.''" "y @ m = z @ [slash]" by auto
    show False
    proof (cases m rule: rev_cases)
      case Nil
      then show False using n c assms by (simp add: proper_def)
    next
      case (snoc k x)
      then have "x = slash" using c by simp
      then show False using n snoc assms by (simp add: proper_def)
    qed
  qed
qed

lemma entry_path:
  assumes "bin \<noteq> []" "proper n"
  obtains y where "filepath_Join [bin, n] = y @ n" "filepath_Join [bin, n] = n \<or> y \<noteq> []"
proof -
  have split: "split_on slash (bin @ slash # n) = split_on slash bin @ [n]"
    using assms(2) by (simp add: split_on_append split_on_none proper_def)
  let ?es = "\<lambda>r. clean_elems r [] (split_on slash bin)"
  have join: "filepath_Join [bin, n] = Clean (bin @ slash # n)"
    using assms by (simp add: filepath_Join_def slash_def)
  have abs: "IsAbs (bin @ slash # n) = IsAbs bin" using assms(1) by (cases bin) (simp_all add: IsAbs_def)
  have "Clean (bin @ slash # n) = (if IsAbs bin then slash # Join (?es True @ [n]) ''/'' else Join (?es False @ [n]) ''/'')"
    using assms(2) by (simp add: Clean_def Let_def abs split clean_elems_snoc)
  then show thesis using that [of "if IsAbs bin then slash # (if ?es True = [] then [] else Join (?es True) ''/'' @ [slash])
      else (if ?es False = [] then [] else Join (?es False) ''/'' @ [slash])"]
    unfolding join by (auto simp: Join_append_one)
qed

lemma RemoveAll_entry:
  assumes "fs_quiet v" "bin \<noteq> []" "proper n" "lookup (bf_fs s) (resolve bin @ [n]) \<noteq> None"
  shows "os_RemoveAll v now (filepath_Join [bin, n]) s
    = (Inr (), s\<lparr>bf_fs := remove_tree (resolve bin @ [n]) (bf_fs s),
        bf_mtime := \<lambda>p. if p = resolve bin then now else bf_mtime s p\<rparr>)"
proof -
  obtain y where y: "filepath_Join [bin, n] = y @ n" "filepath_Join [bin, n] = n \<or> y \<noteq> []"
    using entry_path [OF assms(2,3)] by blast
  have ne: "filepath_Join [bin, n] \<noteq> ''''" "filepath_Join [bin, n] \<noteq> ''.''"
    using y assms(3) by (auto simp: proper_def append_eq_Cons_conv)
  moreover have "\<not> HasSuffix (filepath_Join [bin, n]) ''/.''"
    using proper_no_dot(2) [OF assms(3), of y] y(1) by (simp add: HasSuffix_def)
  moreover have "resolve (filepath_Join [bin, n]) = resolve bin @ [n]"
    using resolve_Join2 [OF assms(2,3)] .
  ultimately show ?thesis using assms(1,4) by (auto simp: os_RemoveAll_def touching_def)
qed

subsection \<open>What the loops remove\<close>

lemma lookup_remove_tree: "d \<noteq> [] \<Longrightarrow> lookup (remove_tree d f) p = (if below d p then None else lookup f p)"
proof -
  assume d: "d \<noteq> []"
  have "map_of (filter (\<lambda>(p, _). \<not> below d p) xs) p = (if below d p then None else map_of xs p)" for xs :: "(path \<times> entry) list"
    by (induction xs) (auto simp: below_def)
  with d show ?thesis by (auto simp: lookup_def remove_tree_def below_def)
qed

lemma remove_tree_inodes [simp]: "fs_inodes (remove_tree d f) = fs_inodes f" "fs_next (remove_tree d f) = fs_next f"
  by (simp_all add: remove_tree_def)

lemma below_sibling [simp]: "below (d @ [a]) (d @ [b]) \<longleftrightarrow> a = b"
  by (simp add: below_def)

definition old_entry :: "binfs \<Rightarrow> path \<Rightarrow> int \<Rightarrow> string \<Rightarrow> bool" where
  "old_entry s d cutoff n \<longleftrightarrow> lookup (bf_fs s) (d @ [n]) \<noteq> None \<and> bf_mtime s (d @ [n]) \<le> cutoff"

lemma cleanup_entries_run:
  assumes "fs_quiet v" "bin \<noteq> []" "list_all (\<lambda>e. proper (fst e)) es" "distinct (map fst es)"
  shows "\<exists>s'. cleanup_entries v now bin cutoff removed es s
      = (Inr (removed + int (length (filter (\<lambda>e. old_entry s (resolve bin) cutoff (fst e)) es))), s')
    \<and> fs_inodes (bf_fs s') = fs_inodes (bf_fs s)
    \<and> (\<forall>p. lookup (bf_fs s') p = (if \<exists>e\<in>set es. old_entry s (resolve bin) cutoff (fst e) \<and> below (resolve bin @ [fst e]) p
        then None else lookup (bf_fs s) p))"
  using assms(3,4)
proof (induction es arbitrary: s removed)
  case (Cons e es)
  let ?d = "resolve bin"
  have quiet: "fe_fault v ''Info'' p = None" for p using assms(1) by (simp add: fs_quiet_def)
  show ?case
  proof (cases "old_entry s ?d cutoff (fst e)")
    case True
    let ?s = "s\<lparr>bf_fs := remove_tree (?d @ [fst e]) (bf_fs s), bf_mtime := \<lambda>p. if p = ?d then now else bf_mtime s p\<rparr>"
    have others: "old_entry ?s ?d cutoff (fst x) = old_entry s ?d cutoff (fst x)" if "x \<in> set es" for x
      using that Cons.prems(2) by (force simp: old_entry_def lookup_remove_tree)
    have step: "cleanup_entries v now bin cutoff removed (e # es) s = cleanup_entries v now bin cutoff (removed + 1) es ?s"
      using True quiet Cons.prems RemoveAll_entry [OF assms(1,2), of "fst e" s now]
      by (auto simp: old_entry_def Let_def)
    from Cons.IH [of "removed + 1" ?s] Cons.prems obtain s' where
      "cleanup_entries v now bin cutoff (removed + 1) es ?s
        = (Inr (removed + 1 + int (length (filter (\<lambda>e. old_entry ?s ?d cutoff (fst e)) es))), s')"
      "fs_inodes (bf_fs s') = fs_inodes (bf_fs s)"
      "\<forall>p. lookup (bf_fs s') p = (if \<exists>e\<in>set es. old_entry ?s ?d cutoff (fst e) \<and> below (?d @ [fst e]) p
        then None else lookup (bf_fs ?s) p)" by auto
    then show ?thesis using others True step
      by (intro exI [of _ s']) (auto simp: lookup_remove_tree cong: filter_cong)
  next
    case False
    then have "cleanup_entries v now bin cutoff removed (e # es) s = cleanup_entries v now bin cutoff removed es s"
      using quiet by (auto simp: old_entry_def Let_def)
    with Cons.IH [of removed s] Cons.prems False show ?thesis by auto
  qed
qed simp

text \<open>The listing of a directory has every name in it once.\<close>

lemma dir_entries_names: "n \<in> fst ` set (dir_entries f d) \<longleftrightarrow> lookup f (d @ [n]) \<noteq> None"
proof -
  have "n \<in> fst ` set (dir_entries f d) \<longleftrightarrow> (\<exists>p x. (p, x) \<in> set (fs_names f) \<and> p \<noteq> [] \<and> butlast p = d \<and> last p = n)"
    by (force simp: dir_entries_def image_iff)
  also have "\<dots> \<longleftrightarrow> (\<exists>x. (d @ [n], x) \<in> set (fs_names f))"
    using snoc_eq_iff_butlast [of d n] by metis
  also have "\<dots> \<longleftrightarrow> d @ [n] \<in> fst ` set (fs_names f)" by force
  finally show ?thesis by (simp add: lookup_def map_of_eq_None_iff)
qed

lemma dir_entries_distinct:
  assumes "distinct (map fst (fs_names f))"
  shows "distinct (map fst (dir_entries f d))"
proof -
  let ?xs = "filter (\<lambda>(p, x). p \<noteq> [] \<and> butlast p = d) (fs_names f)"
  have "distinct (map fst ?xs)" using assms by (simp add: distinct_map_filter)
  moreover have "inj_on last (set (map fst ?xs))"
    by (auto simp: inj_on_def) (metis append_butlast_last_id)
  ultimately have "distinct (map (last \<circ> fst) ?xs)" by (simp add: distinct_map comp_inj_on_iff [symmetric] image_image)
  moreover have "mset (map fst (dir_entries f d)) = mset (map (last \<circ> fst) ?xs)"
    by (simp add: dir_entries_def multiset.map_comp o_def split_beta)
  ultimately show ?thesis using mset_eq_imp_distinct_iff by blast
qed

text \<open>Names as the system has them: each once, made of proper elements.\<close>

definition names_ok :: "fs \<Rightarrow> bool" where
  "names_ok f \<longleftrightarrow> distinct (map fst (fs_names f)) \<and> list_all (\<lambda>(p, _). list_all proper p) (fs_names f)"

lemma dir_entries_proper:
  assumes "names_ok f"
  shows "list_all (\<lambda>e. proper (fst e)) (dir_entries f d)"
  using assms by (auto simp: names_ok_def dir_entries_def list_all_iff split_beta)

lemma Cleanup_run:
  assumes "fs_quiet v" "bin \<noteq> ''''" "0 < maxAge" "is_dir (bf_fs s) (resolve bin)" "names_ok (bf_fs s)"
  shows "\<exists>s'. Cleanup v now bin maxAge s = (Inr (int (card {n. old_entry s (resolve bin) (now - maxAge) n})), s')
    \<and> fs_inodes (bf_fs s') = fs_inodes (bf_fs s)
    \<and> (\<forall>p. lookup (bf_fs s') p = (if \<exists>n. old_entry s (resolve bin) (now - maxAge) n \<and> below (resolve bin @ [n]) p
        then None else lookup (bf_fs s) p))"
proof -
  let ?d = "resolve bin" and ?es = "dir_entries (bf_fs s) (resolve bin)"
  let ?old = "old_entry s ?d (now - maxAge)"
  have names: "?old n \<Longrightarrow> n \<in> fst ` set ?es" for n using dir_entries_names by (simp add: old_entry_def)
  have dist: "distinct (map fst ?es)" using assms(5) by (auto simp: names_ok_def intro: dir_entries_distinct)
  have "{n. ?old n} = set (map fst (filter (\<lambda>e. ?old (fst e)) ?es))" using names by force
  moreover have "distinct (map fst (filter (\<lambda>e. ?old (fst e)) ?es))" using dist by (rule distinct_map_filter)
  ultimately have card: "card {n. ?old n} = length (filter (\<lambda>e. ?old (fst e)) ?es)"
    using distinct_card by fastforce
  have "Cleanup v now bin maxAge s = cleanup_entries v now bin (now - maxAge) 0 ?es s"
    using assms(1-4) by (simp add: Cleanup_def onfs_def os_Stat_def os_ReadDir_def is_dir_def bindA_def wrapA_def)
  moreover have "(\<exists>e\<in>set ?es. ?old (fst e) \<and> below (?d @ [fst e]) p) \<longleftrightarrow> (\<exists>n. ?old n \<and> below (?d @ [n]) p)" for p
    using names by force
  ultimately show ?thesis
    using cleanup_entries_run [OF assms(1,2) dir_entries_proper [OF assms(5)] dist, of now "now - maxAge" 0 s] card by simp
qed

subsection \<open>Properties\<close>

text \<open>C28: When no call of the operating system fails, a clean-up of an existing recycle bin with a positive age
  removes exactly the entries of the bin last modified no later than that age ago, each with everything below it,
  returns their number, and leaves every other name and the content of every file as they were; the handler of the
  scheduled task does the same for the configured number of days and nothing when the bin is not
  configured or the number of days is zero.\<close>

theorem recycle_cleanup:
  assumes "fs_quiet v" "names_ok (bf_fs s)" "0 \<le> days" "days < 100000"
    and "bin \<noteq> '''' \<Longrightarrow> is_dir (bf_fs s) (resolve bin)"
  shows "\<exists>s'. recycleBinCleanup_Handle v now (retA (bin, days)) s = (Inr (), s')
    \<and> (\<forall>p. lookup (bf_fs s') p = (if bin \<noteq> '''' \<and> 0 < days
          \<and> (\<exists>n. old_entry s (resolve bin) (now - days * day_ns) n \<and> below (resolve bin @ [n]) p)
        then None else lookup (bf_fs s) p))
    \<and> (\<forall>p. lookup (bf_fs s') p \<noteq> None \<longrightarrow> content (bf_fs s') p = content (bf_fs s) p)"
proof -
  have "wrap64 (wrap64 (days * 24) * (3600 * 1000000000)) = days * day_ns"
    using assms(3,4) by (simp add: int64_range_def day_ns_def)
  then have handle: "recycleBinCleanup_Handle v now (retA (bin, days)) s
      = (case Cleanup v now bin (days * day_ns) s of (Inl x, s') \<Rightarrow> (Inl (Wrap ''recycle-bin cleanup'' x), s') | (Inr _, s') \<Rightarrow> (Inr (), s'))"
    by (auto simp: recycleBinCleanup_Handle_def bindA_def wrapA_def retA_def split: sum.split prod.split)
  show ?thesis
  proof (cases "bin \<noteq> '''' \<and> 0 < days")
    case False
    then have "Cleanup v now bin (days * day_ns) = retA 0" using assms(3) by (auto simp: Cleanup_def day_ns_def)
    with False show ?thesis unfolding handle by (auto simp: retA_def)
  next
    case True
    then have pre: "bin \<noteq> ''''" "0 < days * day_ns" "is_dir (bf_fs s) (resolve bin)" using assms(5) by (auto simp: day_ns_def)
    from Cleanup_run [OF assms(1) pre assms(2), of now] obtain s' where
      "Cleanup v now bin (days * day_ns) s = (Inr (int (card {n. old_entry s (resolve bin) (now - days * day_ns) n})), s')"
      "fs_inodes (bf_fs s') = fs_inodes (bf_fs s)"
      "\<forall>p. lookup (bf_fs s') p = (if \<exists>n. old_entry s (resolve bin) (now - days * day_ns) n \<and> below (resolve bin @ [n]) p
        then None else lookup (bf_fs s) p)" by auto
    then show ?thesis unfolding handle using True by (auto simp: content_def split: entry.split)
  qed
qed

definition example_bin :: binfs where
  "example_bin = \<lparr>bf_fs = \<lparr>fs_names = [([''bin''], DirE), ([''bin'', ''old''], DirE), ([''bin'', ''old'', ''a.mkv''], FileE 0),
       ([''bin'', ''b.mkv''], FileE 1), ([''tv''], DirE), ([''tv'', ''b.mkv''], FileE 2)],
     fs_inodes = (\<lambda>n. if n = 1 then ''first'' else ''second''), fs_next = 3\<rparr>,
     bf_mtime = (\<lambda>p. if p = [''bin'', ''old''] then 0 else 5 * day_ns)\<rparr>"

theorem recycle_cleanup_witness:
  "\<exists>s'. recycleBinCleanup_Handle fs_calm (6 * day_ns) (retA (''/bin'', 3)) example_bin = (Inr (), s')
     \<and> lookup (bf_fs s') [''bin'', ''old'', ''a.mkv''] = None \<and> lookup (bf_fs s') [''bin'', ''b.mkv''] = Some (FileE 1)"
proof -
  have res: "resolve ''/bin'' = [''bin'']" by code_simp
  have ok: "names_ok (bf_fs example_bin)" "is_dir (bf_fs example_bin) (resolve ''/bin'')" unfolding res
    by (simp_all add: names_ok_def example_bin_def proper_def slash_def is_dir_def lookup_def)
  have old: "old_entry example_bin [''bin''] (3 * day_ns) n \<longleftrightarrow> n = ''old''" for n
    by (auto simp: old_entry_def example_bin_def lookup_def day_ns_def)
  have look: "lookup (bf_fs example_bin) [''bin'', ''b.mkv''] = Some (FileE 1)"
    by (simp add: example_bin_def lookup_def)
  from recycle_cleanup [OF _ ok(1), of fs_calm 3 "''/bin''" "6 * day_ns"] ok(2) obtain s' where
    "recycleBinCleanup_Handle fs_calm (6 * day_ns) (retA (''/bin'', 3)) example_bin = (Inr (), s')"
    "\<forall>p. lookup (bf_fs s') p = (if ''/bin'' \<noteq> '''' \<and> (0 :: int) < 3
       \<and> (\<exists>n. old_entry example_bin (resolve ''/bin'') (6 * day_ns - 3 * day_ns) n \<and> below (resolve ''/bin'' @ [n]) p)
       then None else lookup (bf_fs example_bin) p)" by auto
  then show ?thesis using look by (auto simp: res old below_def)
qed

text \<open>A file moved into the bin takes the place of one of the same name that is there.\<close>

lemma DeleteFile_overwrites:
  "(case DeleteFile fs_calm (7 * day_ns) ''/tv/b.mkv'' ''/bin'' '''' example_bin of (r, s') \<Rightarrow>
     (r, content (bf_fs s') [''bin'', ''b.mkv''], filter (\<lambda>(p, x). x = FileE 1) (fs_names (bf_fs s'))))
   = (Inr ''/bin/b.mkv'', Some ''second'', [])"
  by code_simp

end
