(* ===== verification/AutoTag.thy ===== *)
theory AutoTag
  imports Profiles
begin

section \<open>Auto tagging\<close>

text \<open>
  internal/autotag: the rules that put tags on series. \<open>Matches\<close> is the loop of the source; \<open>Matches_iff\<close> says what it
  computes. Applying a rule adds each of its tags once, behind the tags that are there; removing it takes them away, so that a
  rule applied to a series without its tags and then removed leaves the series as it was. A regular expression is compiled by the parameter
  \<open>compile\<close>, as in the release profiles.
\<close>

record AutoSpecification =
  as_Name :: string
  as_Implementation :: string
  as_Negate :: bool
  as_Required :: bool
  as_Value :: string

record Rule =
  ru_ID :: int
  ru_Name :: string
  ru_RemoveTagsAutomatically :: bool
  ru_Tags :: "int list"
  ru_Specifications :: "AutoSpecification list"

record SeriesAttr =
  sa_Title :: string
  sa_Genres :: "string list"
  sa_Status :: string
  sa_SeriesType :: string
  sa_Network :: string
  sa_Year :: int
  sa_OriginalLang :: string
  sa_RootFolderPath :: string

text \<open>\<open>parseInt\<close> reads digits with wrapping arithmetic and gives zero as soon as something else comes.\<close>

fun parseInt_loop :: "int \<Rightarrow> string \<Rightarrow> int" where
  "parseInt_loop n [] = n"
| "parseInt_loop n (c # cs) = (if \<not> is_digit c then 0
     else parseInt_loop (wrap64 (wrap64 (n * 10) + (int (char_code c) - 48))) cs)"

definition autotag_parseInt :: "string \<Rightarrow> int" where
  "autotag_parseInt s = parseInt_loop 0 (TrimSpace s)"

definition year_matches :: "string \<Rightarrow> int \<Rightarrow> bool" where
  "year_matches value year =
     (if Contains value ''-'' then
        (let parts = SplitN2 value (CHR ''-'')
         in autotag_parseInt (parts ! 0) \<le> year \<and> year \<le> autotag_parseInt (parts ! 1))
      else year = autotag_parseInt value)"

definition autotag_matchSpec :: "compiler \<Rightarrow> AutoSpecification \<Rightarrow> SeriesAttr \<Rightarrow> bool" where
  "autotag_matchSpec compile s a =
     (if as_Implementation s = ''GenreSpecification'' then (\<exists>g\<in>set (sa_Genres a). EqualFold g (as_Value s))
      else if as_Implementation s = ''SeriesStatusSpecification'' then EqualFold (sa_Status a) (as_Value s)
      else if as_Implementation s = ''SeriesTypeSpecification'' then EqualFold (sa_SeriesType a) (as_Value s)
      else if as_Implementation s = ''NetworkSpecification'' then
        (case compile (''(?i)'' @ as_Value s) of
           None \<Rightarrow> Contains (ToLower (sa_Network a)) (ToLower (as_Value s))
         | Some re \<Rightarrow> re (sa_Network a))
      else if as_Implementation s = ''OriginalLanguageSpecification'' then EqualFold (sa_OriginalLang a) (as_Value s)
      else if as_Implementation s = ''YearSpecification'' then year_matches (as_Value s) (sa_Year a)
      else if as_Implementation s = ''RootFolderSpecification'' then EqualFold (sa_RootFolderPath a) (as_Value s)
      else False)"

text \<open>The loop of \<open>Matches\<close> with its two flags.\<close>

fun matches_loop :: "compiler \<Rightarrow> SeriesAttr \<Rightarrow> bool \<Rightarrow> bool \<Rightarrow> AutoSpecification list \<Rightarrow> bool" where
  "matches_loop compile a anyOptional haveOptional [] = (if \<not> haveOptional then True else anyOptional)"
| "matches_loop compile a anyOptional haveOptional (s # ss) =
     (let m = (if as_Negate s then \<not> autotag_matchSpec compile s a else autotag_matchSpec compile s a) in
      if as_Required s then (if \<not> m then False else matches_loop compile a anyOptional haveOptional ss)
      else matches_loop compile a (anyOptional \<or> m) True ss)"

definition AutoTag_Matches :: "compiler \<Rightarrow> Rule \<Rightarrow> SeriesAttr \<Rightarrow> bool" where
  "AutoTag_Matches compile rule a =
     (if ru_Specifications rule = [] then False else matches_loop compile a False False (ru_Specifications rule))"

fun apply_loop :: "int list \<Rightarrow> int list \<Rightarrow> int list \<Rightarrow> int list" where
  "apply_loop seen out [] = out"
| "apply_loop seen out (t # ts) = (if t \<in> set seen then apply_loop seen out ts else apply_loop (t # seen) (out @ [t]) ts)"

definition ApplyTags :: "int list \<Rightarrow> Rule \<Rightarrow> int list" where
  "ApplyTags existing rule = apply_loop existing existing (ru_Tags rule)"

definition RemoveTags :: "int list \<Rightarrow> Rule \<Rightarrow> int list" where
  "RemoveTags existing rule = filter (\<lambda>t. t \<notin> set (ru_Tags rule)) existing"

subsection \<open>Facts\<close>

definition holds :: "compiler \<Rightarrow> SeriesAttr \<Rightarrow> AutoSpecification \<Rightarrow> bool" where
  "holds compile a s \<longleftrightarrow> autotag_matchSpec compile s a \<noteq> as_Negate s"

lemma matches_loop_iff:
  "matches_loop compile a o1 h ss \<longleftrightarrow> (\<forall>s\<in>set ss. as_Required s \<longrightarrow> holds compile a s)
     \<and> (h \<or> (\<exists>s\<in>set ss. \<not> as_Required s) \<longrightarrow> (h \<and> o1) \<or> o1 \<or> (\<exists>s\<in>set ss. \<not> as_Required s \<and> holds compile a s))"
  by (induction ss arbitrary: o1 h) (auto simp: holds_def Let_def)

text \<open>All required conditions hold, and one of the optional ones if there are any; a rule without conditions matches
  nothing.\<close>

lemma Matches_iff:
  "AutoTag_Matches compile rule a \<longleftrightarrow> ru_Specifications rule \<noteq> []
     \<and> (\<forall>s\<in>set (ru_Specifications rule). as_Required s \<longrightarrow> holds compile a s)
     \<and> ((\<exists>s\<in>set (ru_Specifications rule). \<not> as_Required s) \<longrightarrow>
        (\<exists>s\<in>set (ru_Specifications rule). \<not> as_Required s \<and> holds compile a s))"
  by (auto simp: AutoTag_Matches_def matches_loop_iff)

lemma apply_loop_run:
  "set out \<subseteq> set seen \<Longrightarrow> \<exists>new. apply_loop seen out ts = out @ new \<and> distinct new \<and> set new = set ts - set seen"
proof (induction ts arbitrary: seen out)
  case (Cons t ts)
  show ?case
  proof (cases "t \<in> set seen")
    case True
    then show ?thesis using Cons by auto
  next
    case False
    from Cons.prems have "set (out @ [t]) \<subseteq> set (t # seen)" by auto
    from Cons.IH [OF this] obtain new where "apply_loop (t # seen) (out @ [t]) ts = (out @ [t]) @ new"
      "distinct new" "set new = set ts - set (t # seen)" by blast
    with False show ?thesis by (intro exI [of _ "t # new"]) auto
  qed
qed simp

lemma ApplyTags_run: "\<exists>new. ApplyTags existing rule = existing @ new \<and> distinct new \<and> set new = set (ru_Tags rule) - set existing"
  unfolding ApplyTags_def by (rule apply_loop_run) simp

lemma ApplyTags_idem: "ApplyTags (ApplyTags existing rule) rule = ApplyTags existing rule"
proof -
  obtain new where new: "ApplyTags existing rule = existing @ new" "set new = set (ru_Tags rule) - set existing"
    using ApplyTags_run by blast
  obtain more where "ApplyTags (existing @ new) rule = (existing @ new) @ more" "set more = set (ru_Tags rule) - set (existing @ new)"
    using ApplyTags_run by blast
  moreover from this(2) have "set more = {}" using new(2) by auto
  ultimately show ?thesis using new(1) by simp
qed

lemma RemoveTags_ApplyTags: "set existing \<inter> set (ru_Tags rule) = {} \<Longrightarrow> RemoveTags (ApplyTags existing rule) rule = existing"
  using ApplyTags_run [of existing rule] by (force simp: RemoveTags_def filter_empty_conv filter_id_conv)

text \<open>A year rule over a range of plain numbers.\<close>

lemma year_range:
  assumes "Contains value ''-''" "SplitN2 value (CHR ''-'') = [lo, hi]"
  shows "year_matches value y \<longleftrightarrow> autotag_parseInt lo \<le> y \<and> y \<le> autotag_parseInt hi"
  using assms by (simp add: year_matches_def)

end
