(* ===== verification/SceneMapping.thy ===== *)
theory SceneMapping
  imports Go_Strings
begin

section \<open>Scene mappings\<close>

text \<open>
  internal/scenemapping: the lookups over the cached mappings and the normal form of titles they compare. The loop
  of \<open>normalize\<close> over bytes is the definition; \<open>normalize_words\<close> says that it lower-cases the runs of letters and digits and
  joins them with single blanks.
\<close>

record SceneMapping =
  sm_ID :: int
  sm_TvdbID :: int
  sm_SeasonNumber :: "int option"
  sm_SceneSeasonNumber :: "int option"
  sm_SceneOrigin :: string
  sm_Comment :: string
  sm_FilterRegex :: string
  sm_ParseTerm :: string
  sm_SearchTerm :: string
  sm_Title :: string
  sm_Type :: string
  sm_UpdatedAt :: int

fun LookupSceneSeason :: "SceneMapping list \<Rightarrow> int \<Rightarrow> int \<Rightarrow> int" where
  "LookupSceneSeason [] tvdbID season = season"
| "LookupSceneSeason (m # ms) tvdbID season =
     (if sm_TvdbID m \<noteq> tvdbID then LookupSceneSeason ms tvdbID season
      else if sm_SeasonNumber m = None \<or> sm_SeasonNumber m = Some season then
        (case sm_SceneSeasonNumber m of Some n \<Rightarrow> n | None \<Rightarrow> LookupSceneSeason ms tvdbID season)
      else LookupSceneSeason ms tvdbID season)"

text \<open>The loop of \<open>normalize\<close>: the output so far, in reverse, and whether it ends in a separator.\<close>

fun normalize_loop :: "string \<Rightarrow> bool \<Rightarrow> string \<Rightarrow> string" where
  "normalize_loop out lastSep [] = out"
| "normalize_loop out lastSep (c # cs) =
     (if is_alnum c then normalize_loop (lower_char c # out) False cs
      else if \<not> lastSep then normalize_loop (CHR '' '' # out) True cs
      else normalize_loop out lastSep cs)"

definition scene_normalize :: "string \<Rightarrow> string" where
  "scene_normalize s = (case normalize_loop [] True s of
     c # out \<Rightarrow> if c = CHR '' '' then rev out else rev (c # out)
   | [] \<Rightarrow> [])"

fun LookupTvdbIDByTitle :: "SceneMapping list \<Rightarrow> string \<Rightarrow> int option" where
  "LookupTvdbIDByTitle [] parsedTitle = None"
| "LookupTvdbIDByTitle (m # ms) parsedTitle =
     (if sm_ParseTerm m = '''' then LookupTvdbIDByTitle ms parsedTitle
      else if scene_normalize (sm_ParseTerm m) = scene_normalize parsedTitle then Some (sm_TvdbID m)
      else LookupTvdbIDByTitle ms parsedTitle)"

subsection \<open>The normal form\<close>

text \<open>The words of a title: its maximal runs of letters and digits, in lower case.\<close>

fun runs :: "string \<Rightarrow> string \<Rightarrow> string list" where
  "runs w [] = (if w = [] then [] else [rev w])"
| "runs w (c # cs) = (if is_alnum c then runs (lower_char c # w) cs
     else if w = [] then runs [] cs else rev w # runs [] cs)"

definition title_words :: "string \<Rightarrow> string list" where
  "title_words s = runs [] s"

definition strip_sep :: "string \<Rightarrow> string" where
  "strip_sep out = (case out of c # out' \<Rightarrow> if c = CHR '' '' then rev out' else rev (c # out') | [] \<Rightarrow> [])"

definition pending_words :: "string list \<Rightarrow> string" where
  "pending_words ws = rev (concat (map (\<lambda>x. x @ '' '') ws))"

lemma lower_not_blank: "is_alnum c \<Longrightarrow> lower_char c \<noteq> CHR '' ''"
proof
  assume "is_alnum c" "lower_char c = CHR '' ''"
  then have "is_space c" using lower_char_space [of c] by (simp add: is_space_def char_code_def)
  with \<open>is_alnum c\<close> show False by (auto simp: is_alnum_def is_space_def is_digit_def is_upper_def is_lower_def)
qed

lemma Join_blank: "concat (map (\<lambda>x. x @ '' '') ws) @ v = Join (ws @ [v]) '' ''"
proof (induction ws)
  case (Cons w ws)
  then show ?case by (cases ws) simp_all
qed simp

lemma strip_pending: "strip_sep (pending_words ws) = Join ws '' ''"
proof (cases ws rule: rev_cases)
  case (snoc vs v)
  then show ?thesis using Join_blank [of vs v] by (simp add: strip_sep_def pending_words_def)
qed (simp add: strip_sep_def pending_words_def)

lemma strip_word: "w \<noteq> [] \<Longrightarrow> hd w \<noteq> CHR '' '' \<Longrightarrow> strip_sep (w @ pending_words ws) = Join (ws @ [rev w]) '' ''"
  using Join_blank [of ws "rev w"] by (cases w) (simp_all add: strip_sep_def pending_words_def)

lemma normalize_loop_words:
  "(w \<noteq> [] \<Longrightarrow> hd w \<noteq> CHR '' '') \<Longrightarrow>
   strip_sep (normalize_loop (w @ pending_words ws) (w = []) cs) = Join (ws @ runs w cs) '' ''"
proof (induction cs arbitrary: w ws)
  case Nil
  then show ?case by (simp add: strip_pending strip_word)
next
  case (Cons c cs)
  consider (letter) "is_alnum c" | (stop) "\<not> is_alnum c" "w \<noteq> []" | (more) "\<not> is_alnum c" "w = []" by blast
  then show ?case
  proof cases
    case letter
    then show ?thesis using Cons.IH [of "lower_char c # w" ws] lower_not_blank by simp
  next
    case stop
    have "CHR '' '' # w @ pending_words ws = pending_words (ws @ [rev w])" by (simp add: pending_words_def)
    then show ?thesis using Cons.IH [of "[]" "ws @ [rev w]"] stop by simp
  next
    case more
    then show ?thesis using Cons.IH [of "[]" ws] by simp
  qed
qed

lemma normalize_words: "scene_normalize s = Join (title_words s) '' ''"
  using normalize_loop_words [of "[]" "[]" s]
  by (simp add: scene_normalize_def strip_sep_def pending_words_def title_words_def)

text \<open>Two titles are equal for the lookup exactly when they have the same words.\<close>

lemma LookupTvdbID_hit:
  "LookupTvdbIDByTitle ms title = (case List.find (\<lambda>m. sm_ParseTerm m \<noteq> ''''
      \<and> Join (title_words (sm_ParseTerm m)) '' '' = Join (title_words title) '' '') ms of
     None \<Rightarrow> None | Some m \<Rightarrow> Some (sm_TvdbID m))"
  by (induction ms) (auto simp: normalize_words)

lemma LookupSceneSeason_first:
  "LookupSceneSeason ms tvdbID season = (case List.find (\<lambda>m. sm_TvdbID m = tvdbID
      \<and> (sm_SeasonNumber m = None \<or> sm_SeasonNumber m = Some season) \<and> sm_SceneSeasonNumber m \<noteq> None) ms of
     None \<Rightarrow> season | Some m \<Rightarrow> the (sm_SceneSeasonNumber m))"
  by (induction ms) (auto split: option.splits)

end
