(* ===== verification/ProfileStores.thy ===== *)
theory ProfileStores
  imports Crud_Store Profiles Go_Json
begin

section \<open>Stores of delay and release profiles\<close>

text \<open>
  internal/delayprofile and internal/releaseprofile: the SQLite and the Postgres store of each. Lists of tags and terms are
  JSON in their columns, written by \<open>json.Marshal\<close> and read by \<open>json.Unmarshal\<close> (theory Go_Json); a row that does not
  decode is an error. For calls with valid text the four stores are instances of the locale \<open>decoded_store\<close>, so every
  sequence of calls gives the results of the specification. On Postgres the engine stores its own text for a JSON value: \<open>jsonb\<close> is a parameter of
  the store, and \<open>keeps_json\<close> what the stores rely on.
\<close>

subsection \<open>JSON columns\<close>

definition marshal_ints :: "int list \<Rightarrow> string" where
  "marshal_ints tags = print_json (JArr (map json_int tags))"

definition marshal_strs :: "string list \<Rightarrow> string" where
  "marshal_strs ss = print_json (JArr (map JStr ss))"

definition nonNil :: "'a list option \<Rightarrow> 'a list" where
  "nonNil v = (case v of None \<Rightarrow> [] | Some xs \<Rightarrow> xs)"

definition unmarshal_ints :: "string \<Rightarrow> (store_error, int list) result" where
  "unmarshal_ints t = map_sum id nonNil (Unmarshal (dec_slice dec_int64 0) t None)"

definition unmarshal_strs :: "string \<Rightarrow> (store_error, string list) result" where
  "unmarshal_strs t = map_sum id nonNil (Unmarshal (dec_slice dec_string '''') t None)"

definition wrapR :: "string \<Rightarrow> (store_error, 'a) result \<Rightarrow> (store_error, 'a) result" where
  "wrapR m r = map_sum (Wrap m) id r"

lemma doc_ok_ints: "doc_ok maxNestingDepth (JArr (map json_int tags))"
  by (simp add: maxNestingDepth_def list_all_iff)

lemma doc_ok_strs: "list_all valid_utf8 ss \<Longrightarrow> doc_ok maxNestingDepth (JArr (map JStr ss))"
  by (simp add: maxNestingDepth_def list_all_iff)

lemma dec_ints: "list_all int64_range tags \<Longrightarrow> dec_slice dec_int64 0 (JArr (map json_int tags)) old = Inr (Some tags)"
  using dec_slice_enc [of "Some tags" dec_int64 json_int 0 old] by (simp add: enc_slice_def list_all_iff)

lemma dec_strs: "dec_slice dec_string '''' (JArr (map JStr ss)) old = Inr (Some ss)"
  using dec_slice_enc [of "Some ss" dec_string JStr "''''" old] by (simp add: enc_slice_def)

text \<open>What a text read back from the column has to be for the value that was written.\<close>

definition reads_as :: "json \<Rightarrow> string \<Rightarrow> bool" where
  "reads_as v t \<longleftrightarrow> parse_json t = Inr v"

lemma reads_ints: "reads_as (JArr (map json_int tags)) t \<Longrightarrow> list_all int64_range tags \<Longrightarrow> unmarshal_ints t = Inr tags"
  by (simp add: reads_as_def unmarshal_ints_def Unmarshal_def dec_ints nonNil_def)

lemma reads_strs: "reads_as (JArr (map JStr ss)) t \<Longrightarrow> unmarshal_strs t = Inr ss"
  by (simp add: reads_as_def unmarshal_strs_def Unmarshal_def dec_strs nonNil_def)

lemma marshal_reads: "reads_as (JArr (map json_int tags)) (marshal_ints tags)"
  "list_all valid_utf8 ss \<Longrightarrow> reads_as (JArr (map JStr ss)) (marshal_strs ss)"
  unfolding reads_as_def marshal_ints_def marshal_strs_def
  by (rule parse_json_print [OF doc_ok_ints], rule parse_json_print [OF doc_ok_strs])

text \<open>The documented behaviour of a \<open>jsonb\<close> column the stores rely on: an array of integers or of strings without NUL
  is accepted, and what is read back is the same array.\<close>

definition keeps_json :: "jsonb_input \<Rightarrow> bool" where
  "keeps_json jsonb \<longleftrightarrow>
     (\<forall>tags. \<exists>t. jsonb (marshal_ints tags) = Some t \<and> reads_as (JArr (map json_int tags)) t)
   \<and> (\<forall>ss. list_all (\<lambda>s. valid_utf8 s \<and> CHR 0x00 \<notin> set s) ss \<longrightarrow>
        (\<exists>t. jsonb (marshal_strs ss) = Some t \<and> reads_as (JArr (map JStr ss)) t))"

text \<open>A listing decodes row by row and stops at the first failure.\<close>

fun decode_rows :: "('r \<Rightarrow> (store_error, 'a) result) \<Rightarrow> 'r list \<Rightarrow> (store_error, 'a list) result" where
  "decode_rows f [] = Inr []"
| "decode_rows f (r # rs) = bindR (f r) (\<lambda>x. bindR (decode_rows f rs) (\<lambda>xs. Inr (x # xs)))"

lemma decode_rows_ok: "list_all (\<lambda>r. f r = Inr (dec r)) rs \<Longrightarrow> decode_rows f rs = Inr (map dec rs)"
  by (induction rs) simp_all

definition decodeA :: "('r \<Rightarrow> (store_error, 'a) result) \<Rightarrow> ('s, 'r) act \<Rightarrow> ('s, 'a) act" where
  "decodeA f m s = (case m s of (Inl e, s') \<Rightarrow> (Inl e, s') | (Inr r, s') \<Rightarrow> (f r, s'))"

definition profileBoolToInt64 :: "bool \<Rightarrow> int" where
  "profileBoolToInt64 b = (if b then 1 else 0)"

lemma profileBoolToInt64_iff [simp]: "profileBoolToInt64 b \<noteq> 0 \<longleftrightarrow> b" "profileBoolToInt64 b = 0 \<longleftrightarrow> \<not> b"
  by (simp_all add: profileBoolToInt64_def)

subsection \<open>Delay profiles on SQLite\<close>

record SqDelayProfile =
  dq_ID :: int
  dq_EnableUsenet :: int
  dq_EnableTorrent :: int
  dq_PreferredProtocol :: Protocol
  dq_UsenetDelay :: int
  dq_TorrentDelay :: int
  dq_SortOrder :: int
  dq_BypassIfHighestQuality :: int
  dq_BypassIfAboveCustomFormatScore :: int
  dq_MinimumCustomFormatScore :: int
  dq_Tags :: string

definition delay_of_sq :: "SqDelayProfile \<Rightarrow> int list \<Rightarrow> DelayProfile" where
  "delay_of_sq r tags =
     \<lparr>dp_ID = dq_ID r, dp_EnableUsenet = dq_EnableUsenet r \<noteq> 0, dp_EnableTorrent = dq_EnableTorrent r \<noteq> 0,
      dp_PreferredProtocol = dq_PreferredProtocol r, dp_UsenetDelay = dq_UsenetDelay r, dp_TorrentDelay = dq_TorrentDelay r,
      dp_Order = dq_SortOrder r, dp_BypassIfHighestQuality = dq_BypassIfHighestQuality r \<noteq> 0,
      dp_BypassIfAboveCustomFormatScore = dq_BypassIfAboveCustomFormatScore r \<noteq> 0,
      dp_MinimumCustomFormatScore = dq_MinimumCustomFormatScore r, dp_Tags = tags\<rparr>"

definition delay_fromSQLite :: "SqDelayProfile \<Rightarrow> (store_error, DelayProfile) result" where
  "delay_fromSQLite r =
     bindR (wrapR ''delayprofile: unmarshal tags'' (unmarshal_ints (dq_Tags r))) (\<lambda>tags. Inr (delay_of_sq r tags))"

definition sqDelayRow :: "DelayProfile \<Rightarrow> int \<Rightarrow> SqDelayProfile" where
  "sqDelayRow p i = \<lparr>dq_ID = i, dq_EnableUsenet = profileBoolToInt64 (dp_EnableUsenet p), dq_EnableTorrent = profileBoolToInt64 (dp_EnableTorrent p),
     dq_PreferredProtocol = dp_PreferredProtocol p, dq_UsenetDelay = dp_UsenetDelay p, dq_TorrentDelay = dp_TorrentDelay p,
     dq_SortOrder = dp_Order p, dq_BypassIfHighestQuality = profileBoolToInt64 (dp_BypassIfHighestQuality p),
     dq_BypassIfAboveCustomFormatScore = profileBoolToInt64 (dp_BypassIfAboveCustomFormatScore p),
     dq_MinimumCustomFormatScore = dp_MinimumCustomFormatScore p, dq_Tags = marshal_ints (dp_Tags p)\<rparr>"

text \<open>A new profile without a protocol gets usenet; an update takes the protocol as it is.\<close>

definition default_protocol :: "DelayProfile \<Rightarrow> DelayProfile" where
  "default_protocol p = (if dp_PreferredProtocol p = '''' then p\<lparr>dp_PreferredProtocol := DelayProtocolUsenet\<rparr> else p)"

definition sqlite_CreateDelayProfile :: "dbenv \<Rightarrow> DelayProfile \<Rightarrow> (SqDelayProfile table, SqDelayProfile) act" where
  "sqlite_CreateDelayProfile e p = stmt e ''CreateDelayProfile'' (sql_insert (sqDelayRow p))"

definition sqlite_GetDelayProfileByID :: "dbenv \<Rightarrow> int \<Rightarrow> (SqDelayProfile table, SqDelayProfile) act" where
  "sqlite_GetDelayProfileByID e i = stmt e ''GetDelayProfileByID'' (sql_one (\<lambda>r. dq_ID r = i))"

definition sqlite_ListDelayProfiles :: "dbenv \<Rightarrow> (SqDelayProfile table, SqDelayProfile list) act" where
  "sqlite_ListDelayProfiles e = stmt e ''ListDelayProfiles'' (sql_many (\<lambda>_. True) (\<lambda>r. (dq_SortOrder r, dq_ID r)))"

definition sqlite_UpdateDelayProfile :: "dbenv \<Rightarrow> DelayProfile \<Rightarrow> (SqDelayProfile table, unit) act" where
  "sqlite_UpdateDelayProfile e p = stmt e ''UpdateDelayProfile'' (sql_exec (\<lambda>r. dq_ID r = dp_ID p) (\<lambda>r. sqDelayRow p (dq_ID r)))"

definition sqlite_DeleteDelayProfile :: "dbenv \<Rightarrow> int \<Rightarrow> (SqDelayProfile table, unit) act" where
  "sqlite_DeleteDelayProfile e i = stmt e ''DeleteDelayProfile'' (sql_delete (\<lambda>r. dq_ID r = i))"

definition sqliteDelay_Create :: "dbenv \<Rightarrow> DelayProfile \<Rightarrow> (SqDelayProfile table, DelayProfile) act" where
  "sqliteDelay_Create e p = wrapA ''delayprofile: create'' (SQLitePool_Write e
     (decodeA delay_fromSQLite (sqlite_CreateDelayProfile e (default_protocol p))))"

definition sqliteDelay_GetByID :: "dbenv \<Rightarrow> int \<Rightarrow> (SqDelayProfile table, DelayProfile) act" where
  "sqliteDelay_GetByID e i = decodeA delay_fromSQLite
     (rowA (Inl (ErrNotFound ''delayprofile: not found'')) ''delayprofile: get'' (\<lambda>r. r) (sqlite_GetDelayProfileByID e i))"

definition sqliteDelay_List :: "dbenv \<Rightarrow> (SqDelayProfile table, DelayProfile list) act" where
  "sqliteDelay_List e = decodeA (decode_rows delay_fromSQLite) (wrapA ''delayprofile: list'' (sqlite_ListDelayProfiles e))"

definition sqliteDelay_Update :: "dbenv \<Rightarrow> DelayProfile \<Rightarrow> (SqDelayProfile table, unit) act" where
  "sqliteDelay_Update e p = SQLitePool_Write e (sqlite_UpdateDelayProfile e p)"

definition sqliteDelay_Delete :: "dbenv \<Rightarrow> int \<Rightarrow> (SqDelayProfile table, unit) act" where
  "sqliteDelay_Delete e i = SQLitePool_Write e (sqlite_DeleteDelayProfile e i)"

definition sqliteDelayProfiles :: "(SqDelayProfile table, DelayProfile) InstanceStore" where
  "sqliteDelayProfiles = \<lparr>is_Create = sqliteDelay_Create, is_GetByID = sqliteDelay_GetByID, is_List = sqliteDelay_List,
     is_Update = sqliteDelay_Update, is_Delete = sqliteDelay_Delete\<rparr>"

subsection \<open>Delay profiles on Postgres\<close>

record PgDelayProfile =
  dx_ID :: int
  dx_EnableUsenet :: bool
  dx_EnableTorrent :: bool
  dx_PreferredProtocol :: Protocol
  dx_UsenetDelay :: int
  dx_TorrentDelay :: int
  dx_SortOrder :: int
  dx_BypassIfHighestQuality :: bool
  dx_BypassIfAboveCustomFormatScore :: bool
  dx_MinimumCustomFormatScore :: int
  dx_Tags :: string

definition delay_of_pg :: "PgDelayProfile \<Rightarrow> int list \<Rightarrow> DelayProfile" where
  "delay_of_pg r tags =
     \<lparr>dp_ID = dx_ID r, dp_EnableUsenet = dx_EnableUsenet r, dp_EnableTorrent = dx_EnableTorrent r,
      dp_PreferredProtocol = dx_PreferredProtocol r, dp_UsenetDelay = dx_UsenetDelay r, dp_TorrentDelay = dx_TorrentDelay r,
      dp_Order = dx_SortOrder r, dp_BypassIfHighestQuality = dx_BypassIfHighestQuality r,
      dp_BypassIfAboveCustomFormatScore = dx_BypassIfAboveCustomFormatScore r,
      dp_MinimumCustomFormatScore = dx_MinimumCustomFormatScore r, dp_Tags = tags\<rparr>"

definition delay_fromPG :: "PgDelayProfile \<Rightarrow> (store_error, DelayProfile) result" where
  "delay_fromPG r = bindR (unmarshal_ints (dx_Tags r)) (\<lambda>tags. Inr (delay_of_pg r tags))"

definition pgDelayRow :: "DelayProfile \<Rightarrow> string \<Rightarrow> int \<Rightarrow> PgDelayProfile" where
  "pgDelayRow p tags i = \<lparr>dx_ID = i, dx_EnableUsenet = dp_EnableUsenet p, dx_EnableTorrent = dp_EnableTorrent p,
     dx_PreferredProtocol = dp_PreferredProtocol p, dx_UsenetDelay = wrap32 (dp_UsenetDelay p),
     dx_TorrentDelay = wrap32 (dp_TorrentDelay p), dx_SortOrder = wrap32 (dp_Order p),
     dx_BypassIfHighestQuality = dp_BypassIfHighestQuality p,
     dx_BypassIfAboveCustomFormatScore = dp_BypassIfAboveCustomFormatScore p,
     dx_MinimumCustomFormatScore = wrap32 (dp_MinimumCustomFormatScore p), dx_Tags = tags\<rparr>"

text \<open>A statement with a \<open>jsonb\<close> parameter: the engine refuses what is not JSON.\<close>

definition with_json :: "(store_error, string) result \<Rightarrow> (string \<Rightarrow> ('s, 'a) act) \<Rightarrow> ('s, 'a) act" where
  "with_json v m = (case v of Inl x \<Rightarrow> failA x | Inr t \<Rightarrow> m t)"

definition postgres_CreateDelayProfile :: "jsonb_input \<Rightarrow> dbenv \<Rightarrow> DelayProfile \<Rightarrow> (PgDelayProfile table, PgDelayProfile) act" where
  "postgres_CreateDelayProfile jsonb e p = stmt e ''CreateDelayProfile''
     (with_json (jsonb_param jsonb (Some (marshal_ints (dp_Tags p)))) (\<lambda>t. sql_insert (pgDelayRow p t)))"

definition postgres_GetDelayProfileByID :: "dbenv \<Rightarrow> int \<Rightarrow> (PgDelayProfile table, PgDelayProfile) act" where
  "postgres_GetDelayProfileByID e i = stmt e ''GetDelayProfileByID'' (sql_one (\<lambda>r. dx_ID r = i))"

definition postgres_ListDelayProfiles :: "dbenv \<Rightarrow> (PgDelayProfile table, PgDelayProfile list) act" where
  "postgres_ListDelayProfiles e = stmt e ''ListDelayProfiles'' (sql_many (\<lambda>_. True) (\<lambda>r. (dx_SortOrder r, dx_ID r)))"

definition postgres_UpdateDelayProfile :: "jsonb_input \<Rightarrow> dbenv \<Rightarrow> DelayProfile \<Rightarrow> (PgDelayProfile table, unit) act" where
  "postgres_UpdateDelayProfile jsonb e p = stmt e ''UpdateDelayProfile''
     (with_json (jsonb_param jsonb (Some (marshal_ints (dp_Tags p))))
       (\<lambda>t. sql_exec (\<lambda>r. dx_ID r = wrap32 (dp_ID p)) (\<lambda>r. pgDelayRow p t (dx_ID r))))"

definition postgres_DeleteDelayProfile :: "dbenv \<Rightarrow> int \<Rightarrow> (PgDelayProfile table, unit) act" where
  "postgres_DeleteDelayProfile e i = stmt e ''DeleteDelayProfile'' (sql_delete (\<lambda>r. dx_ID r = i))"

definition postgresDelay_Create :: "jsonb_input \<Rightarrow> dbenv \<Rightarrow> DelayProfile \<Rightarrow> (PgDelayProfile table, DelayProfile) act" where
  "postgresDelay_Create jsonb e p = decodeA delay_fromPG
     (wrapA ''delayprofile: create'' (postgres_CreateDelayProfile jsonb e (default_protocol p)))"

definition postgresDelay_GetByID :: "dbenv \<Rightarrow> int \<Rightarrow> (PgDelayProfile table, DelayProfile) act" where
  "postgresDelay_GetByID e i = decodeA delay_fromPG
     (rowA (Inl (ErrNotFound ''delayprofile: not found'')) ''delayprofile: get'' (\<lambda>r. r) (postgres_GetDelayProfileByID e (wrap32 i)))"

definition postgresDelay_List :: "dbenv \<Rightarrow> (PgDelayProfile table, DelayProfile list) act" where
  "postgresDelay_List e = decodeA (decode_rows delay_fromPG) (wrapA ''delayprofile: list'' (postgres_ListDelayProfiles e))"

definition postgresDelay_Update :: "jsonb_input \<Rightarrow> dbenv \<Rightarrow> DelayProfile \<Rightarrow> (PgDelayProfile table, unit) act" where
  "postgresDelay_Update jsonb e p = wrapA ''delayprofile: update'' (postgres_UpdateDelayProfile jsonb e p)"

definition postgresDelay_Delete :: "dbenv \<Rightarrow> int \<Rightarrow> (PgDelayProfile table, unit) act" where
  "postgresDelay_Delete e i = wrapA ''delayprofile: delete'' (postgres_DeleteDelayProfile e (wrap32 i))"

definition postgresDelayProfiles :: "jsonb_input \<Rightarrow> (PgDelayProfile table, DelayProfile) InstanceStore" where
  "postgresDelayProfiles jsonb = \<lparr>is_Create = postgresDelay_Create jsonb, is_GetByID = postgresDelay_GetByID,
     is_List = postgresDelay_List, is_Update = postgresDelay_Update jsonb, is_Delete = postgresDelay_Delete\<rparr>"

text \<open>The specification: \<open>n\<close> is what becomes of an integer column. The tags of a Go value are 64-bit integers.\<close>

definition delay_good :: "DelayProfile \<Rightarrow> bool" where
  "delay_good p \<longleftrightarrow> list_all int64_range (dp_Tags p)"

definition delay_narrow :: "(int \<Rightarrow> int) \<Rightarrow> DelayProfile \<Rightarrow> DelayProfile" where
  "delay_narrow n p = p\<lparr>dp_UsenetDelay := n (dp_UsenetDelay p), dp_TorrentDelay := n (dp_TorrentDelay p), dp_Order := n (dp_Order p),
     dp_MinimumCustomFormatScore := n (dp_MinimumCustomFormatScore p)\<rparr>"

definition delay_spec :: "(int \<Rightarrow> int) \<Rightarrow> (DelayProfile, int \<times> int) crud_spec" where
  "delay_spec n = \<lparr>cs_iid = dp_ID, cs_ident = n, cs_accepts = delay_good,
     cs_made = (\<lambda>now i p. (delay_narrow n (default_protocol p))\<lparr>dp_ID := i\<rparr>),
     cs_changed = (\<lambda>p y. (delay_narrow n p)\<lparr>dp_ID := dp_ID y\<rparr>),
     cs_order = (\<lambda>p. (dp_Order p, dp_ID p))\<rparr>"

definition or_else :: "'a \<Rightarrow> (store_error, 'a) result \<Rightarrow> 'a" where
  "or_else d r = (case r of Inl _ \<Rightarrow> d | Inr x \<Rightarrow> x)"

lemma or_else_Inr [simp]: "or_else d (Inr x) = x"
  by (simp add: or_else_def)

subsection \<open>Decoding actions\<close>

lemma decodeA_insert:
  "f (mk (next_id s)) = Inr (dec (mk (next_id s))) \<Longrightarrow> decodeA f (sql_insert mk) s = mapA dec (sql_insert mk) s"
  by (simp add: decodeA_def mapA_def sql_insert_def)

lemma decodeA_many:
  assumes "list_all (\<lambda>r. f r = Inr (dec r)) (rows s)"
  shows "decodeA (decode_rows f) (sql_many P k) s = mapA (map dec) (sql_many P k) s"
proof -
  have "list_all (\<lambda>r. f r = Inr (dec r)) (sort_key k (filter P (rows s)))" using assms by (simp add: list_all_iff)
  from decode_rows_ok [OF this] show ?thesis by (simp add: decodeA_def mapA_def sql_many_def)
qed

lemma decodeA_one:
  assumes "list_all (\<lambda>r. f r = Inr (dec r)) (rows s)"
  shows "decodeA f (rowA (Inl nf) m (\<lambda>r. r) (sql_one P)) s = rowA (Inl nf) m dec (sql_one P) s"
proof (cases "filter P (rows s)")
  case Nil
  then show ?thesis by (simp add: decodeA_def rowA_def sql_one_def first_row_def)
next
  case (Cons r rs)
  then have "r \<in> set (filter P (rows s))" by simp
  then have "r \<in> set (rows s)" by simp
  with assms have "f r = Inr (dec r)" by (simp add: list_all_iff)
  with Cons show ?thesis by (simp add: decodeA_def rowA_def sql_one_def first_row_def)
qed

lemma out_of_mapA: "apfst (out_of f) (wrapA m (mapA dec (sql_insert mk)) s) = apfst (out_of f) (mapA dec (sql_insert mk) s)"
  "apfst (out_of h) (wrapA m (sql_exec P g) s) = apfst (out_of h) (sql_exec P g s)"
  "apfst (out_of h) (wrapA m (sql_delete P) s) = apfst (out_of h) (sql_delete P s)"
  "wrapA m (sql_many P k) = sql_many P k"
  by (auto simp: wrapA_def mapA_def sql_defs)

lemma out_of_create:
  assumes "f (mk (next_id s)) = Inr (dec (mk (next_id s)))"
  shows "apfst (out_of Item) (wrapA m (decodeA f (sql_insert mk)) s) = apfst (out_of Item) (mapA dec (sql_insert mk) s)"
    and "apfst (out_of Item) (decodeA f (wrapA m (sql_insert mk)) s) = apfst (out_of Item) (mapA dec (sql_insert mk) s)"
  using assms by (simp_all add: wrapA_def decodeA_def mapA_def sql_insert_def)

lemma out_of_row: "apfst (out_of Item) (rowA (Inl (ErrNotFound n)) m dec (sql_one P) s)
    = apfst (out_of Item) (rowA (Inl (ErrNotFound n')) m' dec (sql_one P) s)"
  by (auto simp: rowA_def sql_one_def out_of_def first_row_def split: list.split)

subsection \<open>The delay profile stores refine their specification\<close>

definition delay_sq_dec :: "SqDelayProfile \<Rightarrow> DelayProfile" where
  "delay_sq_dec r = delay_of_sq r (or_else [] (unmarshal_ints (dq_Tags r)))"

definition delay_sq_ok :: "SqDelayProfile \<Rightarrow> bool" where
  "delay_sq_ok r \<longleftrightarrow> is_ok (unmarshal_ints (dq_Tags r))"

lemma delay_sq_decodes: "delay_sq_ok r \<Longrightarrow> delay_fromSQLite r = Inr (delay_sq_dec r)"
  by (cases "unmarshal_ints (dq_Tags r)") (simp_all add: delay_sq_ok_def delay_fromSQLite_def delay_sq_dec_def wrapR_def)

lemma delay_sq_key [simp]: "dp_Order (delay_sq_dec r) = dq_SortOrder r" "dp_ID (delay_sq_dec r) = dq_ID r"
  by (simp_all add: delay_sq_dec_def delay_of_sq_def)

lemma unmarshal_marshal_ints: "list_all int64_range tags \<Longrightarrow> unmarshal_ints (marshal_ints tags) = Inr tags"
  by (rule reads_ints [OF marshal_reads(1)])

lemma default_protocol_tags [simp]: "dp_Tags (default_protocol p) = dp_Tags p"
  by (simp add: default_protocol_def)

lemmas delay_sq_defs = sqliteDelayProfiles_def sqliteDelay_Create_def sqliteDelay_GetByID_def sqliteDelay_List_def
  sqliteDelay_Update_def sqliteDelay_Delete_def sqlite_CreateDelayProfile_def sqlite_GetDelayProfileByID_def
  sqlite_ListDelayProfiles_def sqlite_UpdateDelayProfile_def sqlite_DeleteDelayProfile_def

interpretation sqdelay: decoded_store sqliteDelayProfiles dq_ID delay_sq_dec delay_sq_ok delay_good
  "\<lambda>now p. sqDelayRow (default_protocol p)" "\<lambda>p r. sqDelayRow p (dq_ID r)" "delay_spec (\<lambda>i. i)"
proof unfold_locales
  fix e :: dbenv and s :: "SqDelayProfile table" and op
  assume q: "quiet e" and rows: "list_all delay_sq_ok (rows s)" and good: "op_item delay_good op"
  have all: "list_all (\<lambda>r. delay_fromSQLite r = Inr (delay_sq_dec r)) (rows s)"
    using rows by (simp add: list_all_iff delay_sq_decodes)
  have new: "delay_fromSQLite (sqDelayRow (default_protocol p) i) = Inr (delay_sq_dec (sqDelayRow (default_protocol p) i))"
    if "delay_good p" for p i
    using that by (intro delay_sq_decodes) (simp add: delay_sq_ok_def sqDelayRow_def delay_good_def unmarshal_marshal_ints)
  show "store_do sqliteDelayProfiles e op s
      = store_do (table_ops dq_ID delay_sq_dec (\<lambda>now p. sqDelayRow (default_protocol p)) (\<lambda>p r. sqDelayRow p (dq_ID r)) (delay_spec (\<lambda>i. i))) e op s"
  proof (cases op)
    case (OpCreate p)
    then show ?thesis using q good new out_of_create [of delay_fromSQLite "sqDelayRow (default_protocol p)" s delay_sq_dec]
      by (simp add: delay_sq_defs table_ops_def delay_spec_def)
  next
    case (OpGet i)
    then show ?thesis using q all out_of_row by (simp add: delay_sq_defs table_ops_def decodeA_one delay_spec_def)
  next
    case OpList
    then show ?thesis using q all by (simp add: delay_sq_defs table_ops_def decodeA_many out_of_mapA delay_spec_def)
  next
    case (OpUpdate p)
    then show ?thesis using q good by (simp add: delay_sq_defs table_ops_def delay_spec_def)
  next
    case (OpDelete i)
    then show ?thesis using q by (simp add: delay_sq_defs table_ops_def delay_spec_def)
  qed
qed (simp_all add: delay_spec_def delay_sq_dec_def delay_of_sq_def sqDelayRow_def delay_good_def delay_narrow_def delay_sq_ok_def
      unmarshal_marshal_ints default_protocol_def)

definition delay_pg_dec :: "PgDelayProfile \<Rightarrow> DelayProfile" where
  "delay_pg_dec r = delay_of_pg r (or_else [] (unmarshal_ints (dx_Tags r)))"

definition delay_pg_ok :: "PgDelayProfile \<Rightarrow> bool" where
  "delay_pg_ok r \<longleftrightarrow> is_ok (unmarshal_ints (dx_Tags r))"

lemma delay_pg_decodes: "delay_pg_ok r \<Longrightarrow> delay_fromPG r = Inr (delay_pg_dec r)"
  by (cases "unmarshal_ints (dx_Tags r)") (simp_all add: delay_pg_ok_def delay_fromPG_def delay_pg_dec_def)

lemma delay_pg_key [simp]: "dp_Order (delay_pg_dec r) = dx_SortOrder r" "dp_ID (delay_pg_dec r) = dx_ID r"
  by (simp_all add: delay_pg_dec_def delay_of_pg_def)

lemmas delay_pg_defs = postgresDelayProfiles_def postgresDelay_Create_def postgresDelay_GetByID_def postgresDelay_List_def
  postgresDelay_Update_def postgresDelay_Delete_def postgres_CreateDelayProfile_def postgres_GetDelayProfileByID_def
  postgres_ListDelayProfiles_def postgres_UpdateDelayProfile_def postgres_DeleteDelayProfile_def

definition kept_ints :: "jsonb_input \<Rightarrow> int list \<Rightarrow> string" where
  "kept_ints jsonb tags = the (jsonb (marshal_ints tags))"

lemma kept_ints:
  assumes "keeps_json jsonb"
  shows "jsonb (marshal_ints tags) = Some (kept_ints jsonb tags)"
    and "list_all int64_range tags \<Longrightarrow> unmarshal_ints (kept_ints jsonb tags) = Inr tags"
proof -
  obtain t where "jsonb (marshal_ints tags) = Some t" "reads_as (JArr (map json_int tags)) t"
    using assms by (auto simp: keeps_json_def)
  then show "jsonb (marshal_ints tags) = Some (kept_ints jsonb tags)"
    "list_all int64_range tags \<Longrightarrow> unmarshal_ints (kept_ints jsonb tags) = Inr tags"
    by (simp_all add: kept_ints_def reads_ints)
qed

definition pgDelayMade :: "jsonb_input \<Rightarrow> int \<Rightarrow> DelayProfile \<Rightarrow> int \<Rightarrow> PgDelayProfile" where
  "pgDelayMade jsonb now p = pgDelayRow (default_protocol p) (kept_ints jsonb (dp_Tags p))"

definition pgDelayChanged :: "jsonb_input \<Rightarrow> DelayProfile \<Rightarrow> PgDelayProfile \<Rightarrow> PgDelayProfile" where
  "pgDelayChanged jsonb p r = pgDelayRow p (kept_ints jsonb (dp_Tags p)) (dx_ID r)"

lemma pgdelay_store:
  assumes keeps: "keeps_json jsonb"
  shows "decoded_store (postgresDelayProfiles jsonb) dx_ID delay_pg_dec delay_pg_ok delay_good
    (pgDelayMade jsonb) (pgDelayChanged jsonb) (delay_spec wrap32)"
proof unfold_locales
  fix e :: dbenv and s :: "PgDelayProfile table" and op
  assume q: "quiet e" and rows: "list_all delay_pg_ok (rows s)" and good: "op_item delay_good op"
  have all: "list_all (\<lambda>r. delay_fromPG r = Inr (delay_pg_dec r)) (rows s)"
    using rows by (simp add: list_all_iff delay_pg_decodes)
  have new: "delay_fromPG (pgDelayMade jsonb now p i) = Inr (delay_pg_dec (pgDelayMade jsonb now p i))" if "delay_good p" for now p i
    using that kept_ints(2) [OF keeps]
    by (intro delay_pg_decodes) (simp add: delay_pg_ok_def pgDelayRow_def pgDelayMade_def delay_good_def)
  have js: "jsonb_param jsonb (Some (marshal_ints tags)) = Inr (kept_ints jsonb tags)" for tags
    using kept_ints(1) [OF keeps, of tags] by (simp add: jsonb_param_def)
  show "store_do (postgresDelayProfiles jsonb) e op s
      = store_do (table_ops dx_ID delay_pg_dec (pgDelayMade jsonb) (pgDelayChanged jsonb) (delay_spec wrap32)) e op s"
  proof (cases op)
    case (OpCreate p)
    then show ?thesis using q good new js out_of_create [of delay_fromPG "pgDelayMade jsonb (env_now e) p" s delay_pg_dec]
      by (simp add: delay_pg_defs table_ops_def delay_spec_def with_json_def pgDelayMade_def)
  next
    case (OpGet i)
    then show ?thesis using q all out_of_row by (simp add: delay_pg_defs table_ops_def decodeA_one delay_spec_def)
  next
    case OpList
    then show ?thesis using q all
      by (simp add: delay_pg_defs table_ops_def decodeA_many out_of_mapA delay_spec_def)
  next
    case (OpUpdate p)
    then show ?thesis using q good js
      by (simp add: delay_pg_defs table_ops_def delay_spec_def with_json_def out_of_mapA pgDelayChanged_def [abs_def])
  next
    case (OpDelete i)
    then show ?thesis using q by (simp add: delay_pg_defs table_ops_def delay_spec_def out_of_mapA)
  qed
qed (simp_all add: delay_spec_def delay_pg_dec_def delay_of_pg_def pgDelayRow_def delay_good_def delay_narrow_def delay_pg_ok_def
      pgDelayMade_def pgDelayChanged_def kept_ints [OF keeps] default_protocol_def)

subsection \<open>Release profiles on SQLite\<close>

record SqReleaseProfile =
  rq_ID :: int
  rq_Name :: string
  rq_Enabled :: int
  rq_Required :: string
  rq_Ignored :: string
  rq_IndexerID :: int
  rq_Tags :: string

definition release_of_sq :: "SqReleaseProfile \<Rightarrow> string list \<Rightarrow> string list \<Rightarrow> int list \<Rightarrow> ReleaseProfile" where
  "release_of_sq r req ign tags = \<lparr>rp_ID = rq_ID r, rp_Name = rq_Name r, rp_Enabled = rq_Enabled r \<noteq> 0, rp_Required = req,
     rp_Ignored = ign, rp_IndexerID = rq_IndexerID r, rp_Tags = tags\<rparr>"

definition release_fromSQLite :: "SqReleaseProfile \<Rightarrow> (store_error, ReleaseProfile) result" where
  "release_fromSQLite r =
     bindR (wrapR ''releaseprofile: unmarshal required'' (unmarshal_strs (rq_Required r))) (\<lambda>req.
     bindR (wrapR ''releaseprofile: unmarshal ignored'' (unmarshal_strs (rq_Ignored r))) (\<lambda>ign.
     bindR (wrapR ''releaseprofile: unmarshal tags'' (unmarshal_ints (rq_Tags r))) (\<lambda>tags.
     Inr (release_of_sq r req ign tags))))"

definition sqReleaseRow :: "ReleaseProfile \<Rightarrow> int \<Rightarrow> SqReleaseProfile" where
  "sqReleaseRow p i = \<lparr>rq_ID = i, rq_Name = rp_Name p, rq_Enabled = profileBoolToInt64 (rp_Enabled p),
     rq_Required = marshal_strs (rp_Required p), rq_Ignored = marshal_strs (rp_Ignored p), rq_IndexerID = rp_IndexerID p,
     rq_Tags = marshal_ints (rp_Tags p)\<rparr>"

definition sqlite_CreateReleaseProfile :: "dbenv \<Rightarrow> ReleaseProfile \<Rightarrow> (SqReleaseProfile table, SqReleaseProfile) act" where
  "sqlite_CreateReleaseProfile e p = stmt e ''CreateReleaseProfile'' (sql_insert (sqReleaseRow p))"

definition sqlite_GetReleaseProfileByID :: "dbenv \<Rightarrow> int \<Rightarrow> (SqReleaseProfile table, SqReleaseProfile) act" where
  "sqlite_GetReleaseProfileByID e i = stmt e ''GetReleaseProfileByID'' (sql_one (\<lambda>r. rq_ID r = i))"

definition sqlite_ListReleaseProfiles :: "dbenv \<Rightarrow> (SqReleaseProfile table, SqReleaseProfile list) act" where
  "sqlite_ListReleaseProfiles e = stmt e ''ListReleaseProfiles'' (sql_many (\<lambda>_. True) rq_Name)"

definition sqlite_UpdateReleaseProfile :: "dbenv \<Rightarrow> ReleaseProfile \<Rightarrow> (SqReleaseProfile table, unit) act" where
  "sqlite_UpdateReleaseProfile e p = stmt e ''UpdateReleaseProfile'' (sql_exec (\<lambda>r. rq_ID r = rp_ID p) (\<lambda>r. sqReleaseRow p (rq_ID r)))"

definition sqlite_DeleteReleaseProfile :: "dbenv \<Rightarrow> int \<Rightarrow> (SqReleaseProfile table, unit) act" where
  "sqlite_DeleteReleaseProfile e i = stmt e ''DeleteReleaseProfile'' (sql_delete (\<lambda>r. rq_ID r = i))"

definition sqliteRelease_Create :: "dbenv \<Rightarrow> ReleaseProfile \<Rightarrow> (SqReleaseProfile table, ReleaseProfile) act" where
  "sqliteRelease_Create e p = wrapA ''releaseprofile: create'' (SQLitePool_Write e
     (decodeA release_fromSQLite (sqlite_CreateReleaseProfile e p)))"

definition sqliteRelease_GetByID :: "dbenv \<Rightarrow> int \<Rightarrow> (SqReleaseProfile table, ReleaseProfile) act" where
  "sqliteRelease_GetByID e i = decodeA release_fromSQLite
     (rowA (Inl (ErrNotFound ''releaseprofile: not found'')) ''releaseprofile: get'' (\<lambda>r. r) (sqlite_GetReleaseProfileByID e i))"

definition sqliteRelease_List :: "dbenv \<Rightarrow> (SqReleaseProfile table, ReleaseProfile list) act" where
  "sqliteRelease_List e = decodeA (decode_rows release_fromSQLite) (wrapA ''releaseprofile: list'' (sqlite_ListReleaseProfiles e))"

definition sqliteRelease_Update :: "dbenv \<Rightarrow> ReleaseProfile \<Rightarrow> (SqReleaseProfile table, unit) act" where
  "sqliteRelease_Update e p = SQLitePool_Write e (sqlite_UpdateReleaseProfile e p)"

definition sqliteRelease_Delete :: "dbenv \<Rightarrow> int \<Rightarrow> (SqReleaseProfile table, unit) act" where
  "sqliteRelease_Delete e i = SQLitePool_Write e (sqlite_DeleteReleaseProfile e i)"

definition sqliteReleaseProfiles :: "(SqReleaseProfile table, ReleaseProfile) InstanceStore" where
  "sqliteReleaseProfiles = \<lparr>is_Create = sqliteRelease_Create, is_GetByID = sqliteRelease_GetByID, is_List = sqliteRelease_List,
     is_Update = sqliteRelease_Update, is_Delete = sqliteRelease_Delete\<rparr>"

subsection \<open>Release profiles on Postgres\<close>

record PgReleaseProfile =
  rx_ID :: int
  rx_Name :: string
  rx_Enabled :: bool
  rx_Required :: string
  rx_Ignored :: string
  rx_IndexerID :: int
  rx_Tags :: string

definition release_of_pg :: "PgReleaseProfile \<Rightarrow> string list \<Rightarrow> string list \<Rightarrow> int list \<Rightarrow> ReleaseProfile" where
  "release_of_pg r req ign tags = \<lparr>rp_ID = rx_ID r, rp_Name = rx_Name r, rp_Enabled = rx_Enabled r, rp_Required = req,
     rp_Ignored = ign, rp_IndexerID = rx_IndexerID r, rp_Tags = tags\<rparr>"

definition release_fromPG :: "PgReleaseProfile \<Rightarrow> (store_error, ReleaseProfile) result" where
  "release_fromPG r =
     bindR (unmarshal_strs (rx_Required r)) (\<lambda>req. bindR (unmarshal_strs (rx_Ignored r)) (\<lambda>ign.
     bindR (unmarshal_ints (rx_Tags r)) (\<lambda>tags. Inr (release_of_pg r req ign tags))))"

definition pgReleaseRow :: "ReleaseProfile \<Rightarrow> string \<Rightarrow> string \<Rightarrow> string \<Rightarrow> int \<Rightarrow> PgReleaseProfile" where
  "pgReleaseRow p req ign tags i = \<lparr>rx_ID = i, rx_Name = rp_Name p, rx_Enabled = rp_Enabled p, rx_Required = req,
     rx_Ignored = ign, rx_IndexerID = wrap32 (rp_IndexerID p), rx_Tags = tags\<rparr>"

text \<open>The three JSON parameters of a statement.\<close>

definition release_json :: "jsonb_input \<Rightarrow> ReleaseProfile \<Rightarrow> (string \<Rightarrow> string \<Rightarrow> string \<Rightarrow> ('s, 'a) act) \<Rightarrow> ('s, 'a) act" where
  "release_json jsonb p m =
     with_json (jsonb_param jsonb (Some (marshal_strs (rp_Required p)))) (\<lambda>req.
     with_json (jsonb_param jsonb (Some (marshal_strs (rp_Ignored p)))) (\<lambda>ign.
     with_json (jsonb_param jsonb (Some (marshal_ints (rp_Tags p)))) (\<lambda>tags. m req ign tags)))"

definition postgres_CreateReleaseProfile :: "jsonb_input \<Rightarrow> dbenv \<Rightarrow> ReleaseProfile \<Rightarrow> (PgReleaseProfile table, PgReleaseProfile) act" where
  "postgres_CreateReleaseProfile jsonb e p = stmt e ''CreateReleaseProfile''
     (release_json jsonb p (\<lambda>req ign tags. sql_insert (pgReleaseRow p req ign tags)))"

definition postgres_GetReleaseProfileByID :: "dbenv \<Rightarrow> int \<Rightarrow> (PgReleaseProfile table, PgReleaseProfile) act" where
  "postgres_GetReleaseProfileByID e i = stmt e ''GetReleaseProfileByID'' (sql_one (\<lambda>r. rx_ID r = i))"

definition postgres_ListReleaseProfiles :: "(string \<Rightarrow> string) \<Rightarrow> dbenv \<Rightarrow> (PgReleaseProfile table, PgReleaseProfile list) act" where
  "postgres_ListReleaseProfiles collate e = stmt e ''ListReleaseProfiles'' (sql_many (\<lambda>_. True) (\<lambda>r. collate (rx_Name r)))"

definition postgres_UpdateReleaseProfile :: "jsonb_input \<Rightarrow> dbenv \<Rightarrow> ReleaseProfile \<Rightarrow> (PgReleaseProfile table, unit) act" where
  "postgres_UpdateReleaseProfile jsonb e p = stmt e ''UpdateReleaseProfile''
     (release_json jsonb p (\<lambda>req ign tags.
       sql_exec (\<lambda>r. rx_ID r = wrap32 (rp_ID p)) (\<lambda>r. pgReleaseRow p req ign tags (rx_ID r))))"

definition postgres_DeleteReleaseProfile :: "dbenv \<Rightarrow> int \<Rightarrow> (PgReleaseProfile table, unit) act" where
  "postgres_DeleteReleaseProfile e i = stmt e ''DeleteReleaseProfile'' (sql_delete (\<lambda>r. rx_ID r = i))"

definition postgresRelease_Create :: "jsonb_input \<Rightarrow> dbenv \<Rightarrow> ReleaseProfile \<Rightarrow> (PgReleaseProfile table, ReleaseProfile) act" where
  "postgresRelease_Create jsonb e p = decodeA release_fromPG
     (wrapA ''releaseprofile: create'' (postgres_CreateReleaseProfile jsonb e p))"

definition postgresRelease_GetByID :: "dbenv \<Rightarrow> int \<Rightarrow> (PgReleaseProfile table, ReleaseProfile) act" where
  "postgresRelease_GetByID e i = decodeA release_fromPG
     (rowA (Inl (ErrNotFound ''releaseprofile: not found'')) ''releaseprofile: get'' (\<lambda>r. r) (postgres_GetReleaseProfileByID e (wrap32 i)))"

definition postgresRelease_List :: "(string \<Rightarrow> string) \<Rightarrow> dbenv \<Rightarrow> (PgReleaseProfile table, ReleaseProfile list) act" where
  "postgresRelease_List collate e =
     decodeA (decode_rows release_fromPG) (wrapA ''releaseprofile: list'' (postgres_ListReleaseProfiles collate e))"

definition postgresRelease_Update :: "jsonb_input \<Rightarrow> dbenv \<Rightarrow> ReleaseProfile \<Rightarrow> (PgReleaseProfile table, unit) act" where
  "postgresRelease_Update jsonb e p = wrapA ''releaseprofile: update'' (postgres_UpdateReleaseProfile jsonb e p)"

definition postgresRelease_Delete :: "dbenv \<Rightarrow> int \<Rightarrow> (PgReleaseProfile table, unit) act" where
  "postgresRelease_Delete e i = wrapA ''releaseprofile: delete'' (postgres_DeleteReleaseProfile e (wrap32 i))"

definition postgresReleaseProfiles :: "(string \<Rightarrow> string) \<Rightarrow> jsonb_input \<Rightarrow> (PgReleaseProfile table, ReleaseProfile) InstanceStore" where
  "postgresReleaseProfiles collate jsonb = \<lparr>is_Create = postgresRelease_Create jsonb, is_GetByID = postgresRelease_GetByID,
     is_List = postgresRelease_List collate, is_Update = postgresRelease_Update jsonb, is_Delete = postgresRelease_Delete\<rparr>"

subsection \<open>The release profile stores refine their specification\<close>

text \<open>Terms of valid text, without NUL for Postgres, which refuses it in a JSON string.\<close>

definition release_good :: "ReleaseProfile \<Rightarrow> bool" where
  "release_good p \<longleftrightarrow> list_all int64_range (rp_Tags p)
     \<and> list_all (\<lambda>s. valid_utf8 s \<and> CHR 0x00 \<notin> set s) (rp_Required p)
     \<and> list_all (\<lambda>s. valid_utf8 s \<and> CHR 0x00 \<notin> set s) (rp_Ignored p)"

definition release_spec :: "(int \<Rightarrow> int) \<Rightarrow> (string \<Rightarrow> string) \<Rightarrow> (ReleaseProfile, string) crud_spec" where
  "release_spec n ord = \<lparr>cs_iid = rp_ID, cs_ident = n, cs_accepts = release_good,
     cs_made = (\<lambda>now i p. p\<lparr>rp_ID := i, rp_IndexerID := n (rp_IndexerID p)\<rparr>),
     cs_changed = (\<lambda>p y. p\<lparr>rp_ID := rp_ID y, rp_IndexerID := n (rp_IndexerID p)\<rparr>),
     cs_order = (\<lambda>p. ord (rp_Name p))\<rparr>"

lemma release_goodD:
  assumes "release_good p"
  shows "list_all int64_range (rp_Tags p)" "list_all valid_utf8 (rp_Required p)" "list_all valid_utf8 (rp_Ignored p)"
    "list_all (\<lambda>s. valid_utf8 s \<and> CHR 0x00 \<notin> set s) (rp_Required p)"
    "list_all (\<lambda>s. valid_utf8 s \<and> CHR 0x00 \<notin> set s) (rp_Ignored p)"
  using assms by (auto simp: release_good_def list_all_iff)

lemma unmarshal_marshal_strs: "list_all valid_utf8 ss \<Longrightarrow> unmarshal_strs (marshal_strs ss) = Inr ss"
  by (rule reads_strs [OF marshal_reads(2)])

definition release_sq_dec :: "SqReleaseProfile \<Rightarrow> ReleaseProfile" where
  "release_sq_dec r = release_of_sq r (or_else [] (unmarshal_strs (rq_Required r))) (or_else [] (unmarshal_strs (rq_Ignored r)))
     (or_else [] (unmarshal_ints (rq_Tags r)))"

definition release_sq_ok :: "SqReleaseProfile \<Rightarrow> bool" where
  "release_sq_ok r \<longleftrightarrow> is_ok (unmarshal_strs (rq_Required r)) \<and> is_ok (unmarshal_strs (rq_Ignored r)) \<and> is_ok (unmarshal_ints (rq_Tags r))"

lemma is_okE: "is_ok r \<Longrightarrow> (\<And>x. r = Inr x \<Longrightarrow> P) \<Longrightarrow> P"
  by (cases r) simp_all

lemma release_sq_decodes: "release_sq_ok r \<Longrightarrow> release_fromSQLite r = Inr (release_sq_dec r)"
  by (auto simp: release_sq_ok_def release_fromSQLite_def release_sq_dec_def wrapR_def elim!: is_okE)

lemma release_sq_key [simp]: "rp_Name (release_sq_dec r) = rq_Name r" "rp_ID (release_sq_dec r) = rq_ID r"
  by (simp_all add: release_sq_dec_def release_of_sq_def)

lemma release_sq_row:
  assumes "release_good p"
  shows "release_sq_ok (sqReleaseRow p i)" "release_sq_dec (sqReleaseRow p i) = p\<lparr>rp_ID := i\<rparr>"
  using release_goodD [OF assms]
  by (simp_all add: release_sq_ok_def release_sq_dec_def release_of_sq_def sqReleaseRow_def unmarshal_marshal_ints unmarshal_marshal_strs)

lemmas release_sq_defs = sqliteReleaseProfiles_def sqliteRelease_Create_def sqliteRelease_GetByID_def sqliteRelease_List_def
  sqliteRelease_Update_def sqliteRelease_Delete_def sqlite_CreateReleaseProfile_def sqlite_GetReleaseProfileByID_def
  sqlite_ListReleaseProfiles_def sqlite_UpdateReleaseProfile_def sqlite_DeleteReleaseProfile_def

interpretation sqrelease: decoded_store sqliteReleaseProfiles rq_ID release_sq_dec release_sq_ok release_good
  "\<lambda>now p. sqReleaseRow p" "\<lambda>p r. sqReleaseRow p (rq_ID r)" "release_spec (\<lambda>i. i) (\<lambda>n. n)"
proof unfold_locales
  fix e :: dbenv and s :: "SqReleaseProfile table" and op
  assume q: "quiet e" and rows: "list_all release_sq_ok (rows s)" and good: "op_item release_good op"
  have all: "list_all (\<lambda>r. release_fromSQLite r = Inr (release_sq_dec r)) (rows s)"
    using rows by (simp add: list_all_iff release_sq_decodes)
  show "store_do sqliteReleaseProfiles e op s = store_do (table_ops rq_ID release_sq_dec (\<lambda>now p. sqReleaseRow p)
      (\<lambda>p r. sqReleaseRow p (rq_ID r)) (release_spec (\<lambda>i. i) (\<lambda>n. n))) e op s"
  proof (cases op)
    case (OpCreate p)
    then show ?thesis using q good release_sq_decodes [OF release_sq_row(1), of p]
        out_of_create [of release_fromSQLite "sqReleaseRow p" s release_sq_dec]
      by (simp add: release_sq_defs table_ops_def release_spec_def)
  next
    case (OpGet i)
    then show ?thesis using q all out_of_row by (simp add: release_sq_defs table_ops_def decodeA_one release_spec_def)
  next
    case OpList
    then show ?thesis using q all by (simp add: release_sq_defs table_ops_def decodeA_many out_of_mapA release_spec_def)
  next
    case (OpUpdate p)
    then show ?thesis using q good by (simp add: release_sq_defs table_ops_def release_spec_def)
  next
    case (OpDelete i)
    then show ?thesis using q by (simp add: release_sq_defs table_ops_def release_spec_def)
  qed
qed (simp_all add: release_spec_def release_sq_row, simp_all add: sqReleaseRow_def)

definition kept_strs :: "jsonb_input \<Rightarrow> string list \<Rightarrow> string" where
  "kept_strs jsonb ss = the (jsonb (marshal_strs ss))"

lemma kept_strs:
  assumes "keeps_json jsonb" "list_all (\<lambda>s. valid_utf8 s \<and> CHR 0x00 \<notin> set s) ss"
  shows "jsonb (marshal_strs ss) = Some (kept_strs jsonb ss)" "unmarshal_strs (kept_strs jsonb ss) = Inr ss"
proof -
  obtain t where "jsonb (marshal_strs ss) = Some t" "reads_as (JArr (map JStr ss)) t"
    using assms by (auto simp: keeps_json_def)
  then show "jsonb (marshal_strs ss) = Some (kept_strs jsonb ss)" "unmarshal_strs (kept_strs jsonb ss) = Inr ss"
    by (simp_all add: kept_strs_def reads_strs)
qed

definition release_pg_dec :: "PgReleaseProfile \<Rightarrow> ReleaseProfile" where
  "release_pg_dec r = release_of_pg r (or_else [] (unmarshal_strs (rx_Required r))) (or_else [] (unmarshal_strs (rx_Ignored r)))
     (or_else [] (unmarshal_ints (rx_Tags r)))"

definition release_pg_ok :: "PgReleaseProfile \<Rightarrow> bool" where
  "release_pg_ok r \<longleftrightarrow> is_ok (unmarshal_strs (rx_Required r)) \<and> is_ok (unmarshal_strs (rx_Ignored r)) \<and> is_ok (unmarshal_ints (rx_Tags r))"

lemma release_pg_decodes: "release_pg_ok r \<Longrightarrow> release_fromPG r = Inr (release_pg_dec r)"
  by (auto simp: release_pg_ok_def release_fromPG_def release_pg_dec_def elim!: is_okE)

lemma release_pg_key [simp]: "rp_Name (release_pg_dec r) = rx_Name r" "rp_ID (release_pg_dec r) = rx_ID r"
  by (simp_all add: release_pg_dec_def release_of_pg_def)

definition pgReleaseKept :: "jsonb_input \<Rightarrow> ReleaseProfile \<Rightarrow> int \<Rightarrow> PgReleaseProfile" where
  "pgReleaseKept jsonb p = pgReleaseRow p (kept_strs jsonb (rp_Required p)) (kept_strs jsonb (rp_Ignored p)) (kept_ints jsonb (rp_Tags p))"

lemma release_pg_row:
  assumes "keeps_json jsonb" "release_good p"
  shows "release_pg_ok (pgReleaseKept jsonb p i)"
    and "release_pg_dec (pgReleaseKept jsonb p i) = p\<lparr>rp_ID := i, rp_IndexerID := wrap32 (rp_IndexerID p)\<rparr>"
  using release_goodD [OF assms(2)] kept_strs(2) [OF assms(1)] kept_ints(2) [OF assms(1)]
  by (simp_all add: release_pg_ok_def release_pg_dec_def release_of_pg_def pgReleaseKept_def pgReleaseRow_def)

lemma release_json_kept:
  assumes "keeps_json jsonb" "release_good p"
  shows "release_json jsonb p m
    = m (kept_strs jsonb (rp_Required p)) (kept_strs jsonb (rp_Ignored p)) (kept_ints jsonb (rp_Tags p))"
  using release_goodD [OF assms(2)] kept_strs(1) [OF assms(1)] kept_ints(1) [OF assms(1)]
  by (simp add: release_json_def with_json_def jsonb_param_def)

lemmas release_pg_defs = postgresReleaseProfiles_def postgresRelease_Create_def postgresRelease_GetByID_def postgresRelease_List_def
  postgresRelease_Update_def postgresRelease_Delete_def postgres_CreateReleaseProfile_def postgres_GetReleaseProfileByID_def
  postgres_ListReleaseProfiles_def postgres_UpdateReleaseProfile_def postgres_DeleteReleaseProfile_def

lemma pgrelease_store:
  assumes keeps: "keeps_json jsonb"
  shows "decoded_store (postgresReleaseProfiles collate jsonb) rx_ID release_pg_dec release_pg_ok release_good
    (\<lambda>now. pgReleaseKept jsonb) (\<lambda>p r. pgReleaseKept jsonb p (rx_ID r)) (release_spec wrap32 collate)"
proof unfold_locales
  fix e :: dbenv and s :: "PgReleaseProfile table" and op
  assume q: "quiet e" and rows: "list_all release_pg_ok (rows s)" and good: "op_item release_good op"
  have all: "list_all (\<lambda>r. release_fromPG r = Inr (release_pg_dec r)) (rows s)"
    using rows by (simp add: list_all_iff release_pg_decodes)
  show "store_do (postgresReleaseProfiles collate jsonb) e op s
      = store_do (table_ops rx_ID release_pg_dec (\<lambda>now. pgReleaseKept jsonb) (\<lambda>p r. pgReleaseKept jsonb p (rx_ID r))
          (release_spec wrap32 collate)) e op s"
  proof (cases op)
    case (OpCreate p)
    then show ?thesis using q good release_pg_decodes [OF release_pg_row(1) [OF keeps], of p]
        out_of_create [of release_fromPG "pgReleaseKept jsonb p" s release_pg_dec]
      by (simp add: release_pg_defs table_ops_def release_spec_def release_json_kept [OF keeps] pgReleaseKept_def)
  next
    case (OpGet i)
    then show ?thesis using q all out_of_row by (simp add: release_pg_defs table_ops_def decodeA_one release_spec_def)
  next
    case OpList
    then show ?thesis using q all by (simp add: release_pg_defs table_ops_def decodeA_many out_of_mapA release_spec_def)
  next
    case (OpUpdate p)
    then show ?thesis using q good
      by (simp add: release_pg_defs table_ops_def release_spec_def release_json_kept [OF keeps] out_of_mapA pgReleaseKept_def [abs_def])
  next
    case (OpDelete i)
    then show ?thesis using q by (simp add: release_pg_defs table_ops_def release_spec_def out_of_mapA)
  qed
qed (simp_all add: release_spec_def release_pg_row [OF keeps], simp_all add: pgReleaseKept_def pgReleaseRow_def)

text \<open>Sequences of calls the two databases take: nothing fails in the engine, tags fit 64 bits, terms are text.\<close>

definition good_calls :: "('a \<Rightarrow> bool) \<Rightarrow> (dbenv \<times> 'a crud_op) list \<Rightarrow> bool" where
  "good_calls good ops \<longleftrightarrow> list_all (\<lambda>(e, op). quiet e \<and> op_item good op) ops"

lemma Some_keeps_json: "keeps_json Some"
  using marshal_reads by (auto simp: keeps_json_def list_all_iff)

text \<open>From empty tables, any sequence of calls of the delay and release profile stores returns, call by call, what
  the specification returns, on SQLite and on Postgres, for every database that gives back the JSON arrays it is given:
  tags, required and ignored terms survive the trip through their JSON columns, a new delay profile without a protocol
  prefers usenet, delay profiles are listed by their order and then id, release profiles by name, and Postgres takes
  integers modulo two to the 32.\<close>

theorem profile_stores_refine:
  assumes "good_calls delay_good dops" "good_calls release_good rops" "keeps_json jsonb"
  shows "fst (store_run sqliteDelayProfiles dops empty_table) = fst (spec_run (delay_spec (\<lambda>i. i)) (timed dops) empty_shelf)
    \<and> fst (store_run (postgresDelayProfiles jsonb) dops empty_table) = fst (spec_run (delay_spec wrap32) (timed dops) empty_shelf)
    \<and> fst (store_run sqliteReleaseProfiles rops empty_table) = fst (spec_run (release_spec (\<lambda>i. i) (\<lambda>n. n)) (timed rops) empty_shelf)
    \<and> fst (store_run (postgresReleaseProfiles collate jsonb) rops empty_table)
      = fst (spec_run (release_spec wrap32 collate) (timed rops) empty_shelf)"
  using sqdelay.decoded_from_empty [OF assms(1) [unfolded good_calls_def]]
    decoded_store.decoded_from_empty [OF pgdelay_store [OF assms(3)] assms(1) [unfolded good_calls_def]]
    sqrelease.decoded_from_empty [OF assms(2) [unfolded good_calls_def]]
    decoded_store.decoded_from_empty [OF pgrelease_store [OF assms(3)] assms(2) [unfolded good_calls_def]]
  by blast

definition example_delay :: DelayProfile where
  "example_delay = \<lparr>dp_ID = 0, dp_EnableUsenet = True, dp_EnableTorrent = True, dp_PreferredProtocol = '''',
     dp_UsenetDelay = 4294967297, dp_TorrentDelay = 60, dp_Order = 5, dp_BypassIfHighestQuality = False,
     dp_BypassIfAboveCustomFormatScore = False, dp_MinimumCustomFormatScore = 0, dp_Tags = [3, 1]\<rparr>"

definition example_release :: ReleaseProfile where
  "example_release = \<lparr>rp_ID = 0, rp_Name = ''p'', rp_Enabled = True, rp_Required = [''proper''], rp_Ignored = [], rp_IndexerID = 0,
     rp_Tags = [2]\<rparr>"

theorem profile_stores_refine_witness:
  "fst (store_run (postgresDelayProfiles Some)
      [(quiet_at 0, OpCreate example_delay), (quiet_at 0, OpCreate (example_delay\<lparr>dp_Order := 2\<rparr>)), (quiet_at 0, OpDelete 9), (quiet_at 0, OpList)] empty_table)
    = (let p = example_delay\<lparr>dp_ID := 1, dp_PreferredProtocol := DelayProtocolUsenet, dp_UsenetDelay := 1\<rparr>
       in [Item p, Item (p\<lparr>dp_ID := 2, dp_Order := 2\<rparr>), Done, Items [p\<lparr>dp_ID := 2, dp_Order := 2\<rparr>, p]])
  \<and> fst (store_run sqliteReleaseProfiles [(quiet_at 0, OpCreate example_release), (quiet_at 0, OpGet 1)] empty_table)
    = [Item (example_release\<lparr>rp_ID := 1\<rparr>), Item (example_release\<lparr>rp_ID := 1\<rparr>)]"
proof -
  let ?d = "[(quiet_at 0, OpCreate example_delay), (quiet_at 0, OpCreate (example_delay\<lparr>dp_Order := 2\<rparr>)), (quiet_at 0, OpDelete 9), (quiet_at 0, OpList)]"
  let ?r = "[(quiet_at 0, OpCreate example_release), (quiet_at 0, OpGet 1)]"
  have v: "valid_utf8 ''proper''" by (rule valid_utf8_ascii) (simp add: char_code_def)
  then have "good_calls delay_good ?d" "good_calls release_good ?r"
    by (simp_all add: good_calls_def example_delay_def example_release_def delay_good_def release_good_def int64_range_def del: valid_utf8.simps)
  from profile_stores_refine [OF this Some_keeps_json] v show ?thesis
    by (simp add: timed_def empty_shelf_def delay_spec_def delay_narrow_def default_protocol_def example_delay_def wrap32_def
        release_spec_def example_release_def release_good_def delay_good_def int64_range_def Let_def
        del: valid_utf8.simps)
qed

end
