(* ===== verification/Http.thy ===== *)
theory Http
  imports Go_Json Keyed_Store
begin

section \<open>Requests and responses\<close>

text \<open>
  What the handlers of internal/api see of net/http: a request as the values that \<open>r.Header.Get\<close>, \<open>r.URL.Query().Get\<close>
  and \<open>r.Cookie\<close> return for a name, its method, path, body and remote address; a response as the status, the headers in the order they are set and
  the body that is written. A handler takes the environment of its statements and the state of the stores.
\<close>

record Request =
  rq_Method :: string
  rq_Path :: string
  rq_Header :: "string \<Rightarrow> string"
  rq_Query :: "string \<Rightarrow> string"
  rq_Cookie :: "string \<Rightarrow> string option"
  rq_Body :: string
  rq_RemoteAddr :: string

record Response =
  rs_Status :: int
  rs_Header :: "(string \<times> string) list"
  rs_Body :: string

type_synonym 's handler = "dbenv \<Rightarrow> Request \<Rightarrow> 's \<Rightarrow> Response \<times> 's"

text \<open>\<open>writeJSON\<close>: the encoder ends the document with a newline. \<open>writeError\<close> pastes the message between quotes as it is.\<close>

definition json_type :: "string \<times> string" where
  "json_type = (''Content-Type'', ''application/json; charset=utf-8'')"

definition writeJSON :: "int \<Rightarrow> json \<Rightarrow> Response" where
  "writeJSON status v = \<lparr>rs_Status = status, rs_Header = [json_type], rs_Body = print_json v @ [CHR 10]\<rparr>"

definition writeError :: "int \<Rightarrow> string \<Rightarrow> Response" where
  "writeError status message = \<lparr>rs_Status = status, rs_Header = [json_type],
     rs_Body = ''{'' @ CHR 34 # ''message'' @ CHR 34 # '':'' @ CHR 34 # message @ CHR 34 # ''}''\<rparr>"

definition message_doc :: "string \<Rightarrow> json" where
  "message_doc m = JObj [(''message'', JStr m)]"

text \<open>The problem details of internal/api/v6/errors.go. Empty details and paths are left out.\<close>

definition StatusText :: "int \<Rightarrow> string" where
  "StatusText code =
     (if code = 400 then ''Bad Request'' else if code = 401 then ''Unauthorized'' else if code = 404 then ''Not Found''
      else if code = 409 then ''Conflict'' else if code = 429 then ''Too Many Requests''
      else if code = 500 then ''Internal Server Error'' else '''')"

definition omitempty :: "string \<Rightarrow> string \<Rightarrow> (string \<times> json) list" where
  "omitempty k v = (if v = '''' then [] else [(k, JStr v)])"

definition WriteProblem :: "Request \<Rightarrow> int \<Rightarrow> string \<Rightarrow> Response" where
  "WriteProblem r status detail = \<lparr>rs_Status = status, rs_Header = [(''Content-Type'', ''application/problem+json'')],
     rs_Body = print_json (JObj ([(''type'', JStr ''about:blank''), (''title'', JStr (StatusText status)), (''status'', json_int status)]
       @ omitempty ''detail'' detail @ omitempty ''instance'' (rq_Path r))) @ [CHR 10]\<rparr>"

text \<open>\<open>json.NewDecoder(r.Body).Decode\<close> reads the first document of the body and leaves the rest unread.\<close>

definition Decode :: "'a decoder \<Rightarrow> string \<Rightarrow> 'a \<Rightarrow> (store_error, 'a) result" where
  "Decode f body x = (case parse_value maxNestingDepth body of
     None \<Rightarrow> Inl JsonSyntax
   | Some (v, _) \<Rightarrow> f v x)"

lemma Decode_print:
  assumes "doc_ok maxNestingDepth v" "num_end t"
  shows "Decode f (print_json v @ t) x = f v x"
  using parse_print [OF assms] by (simp add: Decode_def)

text \<open>Decoding is reading a whole document whenever there is nothing but white space after it.\<close>

lemma Decode_Unmarshal: "parse_json s = Inr v \<Longrightarrow> Decode f s x = Unmarshal f s x"
  by (auto simp: parse_json_def Decode_def Unmarshal_def split: option.splits prod.splits if_splits)

text \<open>\<open>writeError\<close> answers with a document exactly when the message needs no escapes.\<close>

lemma writeError_document:
  assumes "enc_chars m = m"
  shows "rs_Body (writeError status m) = print_json (message_doc m)"
  using assms by (simp add: writeError_def message_doc_def enc_string_def enc_chars.simps esc_char_def char_code_def)

text \<open>\<open>hex.EncodeToString\<close> of a byte string.\<close>

definition EncodeToString :: "string \<Rightarrow> string" where
  "EncodeToString bs = concat (map (\<lambda>c. [hex_digit (char_code c div 16), hex_digit (char_code c mod 16)]) bs)"

lemma EncodeToString_simps [simp]: "EncodeToString [] = []"
  "EncodeToString (c # bs) = hex_digit (char_code c div 16) # hex_digit (char_code c mod 16) # EncodeToString bs"
  by (simp_all add: EncodeToString_def)

lemma length_EncodeToString [simp]: "length (EncodeToString bs) = 2 * length bs"
  by (induction bs) simp_all

lemma hex_digit_inj: "a < 16 \<Longrightarrow> b < 16 \<Longrightarrow> hex_digit a = hex_digit b \<longleftrightarrow> a = b"
  by (auto simp: hex_digit_def char_of_eq_iff take_bit_eq_mod split: if_splits)

lemma EncodeToString_inj: "EncodeToString xs = EncodeToString ys \<longleftrightarrow> xs = ys"
proof (induction xs arbitrary: ys)
  case Nil
  then show ?case by (cases ys) simp_all
next
  case (Cons x xs)
  show ?case
  proof (cases ys)
    case (Cons y ys')
    have b: "char_code x div 16 < 16" "char_code y div 16 < 16"
      using char_code_bound [of x] char_code_bound [of y] by (simp_all add: less_mult_imp_div_less)
    have "char_code x = char_code y" if "char_code x div 16 = char_code y div 16" "char_code x mod 16 = char_code y mod 16"
      using that by (metis div_mult_mod_eq)
    with b Cons.IH Cons show ?thesis by (auto simp: hex_digit_inj char_code_inject)
  qed simp
qed

end
