(* ===== verification/HostConfig.thy ===== *)
theory HostConfig
  imports Http Sqlite_Time Postgres_Types
begin

section \<open>The host configuration\<close>

text \<open>
  internal/hostconfig: the one row of table host_config, on SQLite and on Postgres, its seeding at start-up
  (internal/app/app.go) and the settings handlers of internal/api/v3 and internal/api/v6. The table holds the row with id 1 or nothing.
  The locale \<open>host_store\<close> is what the handlers rely on, whatever statements fail.
\<close>

record HostConfig =
  hc_APIKey :: string
  hc_AuthMode :: string
  hc_MigrationState :: string
  hc_TvdbApiKey :: string
  hc_RecycleBin :: string
  hc_RecycleBinCleanupDays :: int
  hc_CreatedAt :: int
  hc_UpdatedAt :: int

text \<open>The zero value of the struct; a Go zero time is year 1, which no stored time is.\<close>

definition zero_time :: int where
  "zero_time = -62135596800000000000"

definition zero_HostConfig :: HostConfig where
  "zero_HostConfig = \<lparr>hc_APIKey = '''', hc_AuthMode = '''', hc_MigrationState = '''', hc_TvdbApiKey = '''', hc_RecycleBin = '''',
     hc_RecycleBinCleanupDays = 0, hc_CreatedAt = zero_time, hc_UpdatedAt = zero_time\<rparr>"

record 's HostConfigStore =
  hcs_Get :: "dbenv \<Rightarrow> ('s, HostConfig) act"
  hcs_Upsert :: "dbenv \<Rightarrow> HostConfig \<Rightarrow> ('s, unit) act"

definition ErrHostConfigNotFound :: store_error where
  "ErrHostConfigNotFound = ErrNotFound ''hostconfig: not found''"

definition NewAPIKey :: "string \<Rightarrow> string" where
  "NewAPIKey b = EncodeToString b"

subsection \<open>SQLite\<close>

record SqHostConfig =
  hq_ApiKey :: string
  hq_AuthMode :: string
  hq_MigrationState :: string
  hq_TvdbApiKey :: string
  hq_RecycleBin :: string
  hq_RecycleBinCleanupDays :: int
  hq_CreatedAt :: int
  hq_UpdatedAt :: int

text \<open>\<open>GetHostConfig\<close> and \<open>UpsertHostConfig\<close>: an insert takes the current time for both stamps, a conflict keeps the first.\<close>

definition sqlite_GetHostConfig :: "dbenv \<Rightarrow> (SqHostConfig option, SqHostConfig) act" where
  "sqlite_GetHostConfig e = stmt e ''GetHostConfig'' (\<lambda>t. (case t of None \<Rightarrow> Inl NoRows | Some r \<Rightarrow> Inr r, t))"

definition sqlite_UpsertHostConfig :: "dbenv \<Rightarrow> HostConfig \<Rightarrow> (SqHostConfig option, unit) act" where
  "sqlite_UpsertHostConfig e hc = stmt e ''UpsertHostConfig'' (\<lambda>t. (Inr (), Some
     \<lparr>hq_ApiKey = hc_APIKey hc, hq_AuthMode = hc_AuthMode hc, hq_MigrationState = hc_MigrationState hc,
      hq_TvdbApiKey = hc_TvdbApiKey hc, hq_RecycleBin = hc_RecycleBin hc, hq_RecycleBinCleanupDays = hc_RecycleBinCleanupDays hc,
      hq_CreatedAt = (case t of None \<Rightarrow> sqlite_format (env_now e) | Some r \<Rightarrow> hq_CreatedAt r),
      hq_UpdatedAt = sqlite_format (env_now e)\<rparr>))"

definition hostFromSqlite :: "SqHostConfig \<Rightarrow> HostConfig" where
  "hostFromSqlite r = \<lparr>hc_APIKey = hq_ApiKey r, hc_AuthMode = hq_AuthMode r, hc_MigrationState = hq_MigrationState r,
     hc_TvdbApiKey = hq_TvdbApiKey r, hc_RecycleBin = hq_RecycleBin r, hc_RecycleBinCleanupDays = hq_RecycleBinCleanupDays r,
     hc_CreatedAt = parseSqliteTime (hq_CreatedAt r), hc_UpdatedAt = parseSqliteTime (hq_UpdatedAt r)\<rparr>"

definition sqliteHost_Get :: "dbenv \<Rightarrow> (SqHostConfig option, HostConfig) act" where
  "sqliteHost_Get e = rowA (Inl ErrHostConfigNotFound) ''hostconfig: sqlite get'' hostFromSqlite (sqlite_GetHostConfig e)"

definition sqliteHost_Upsert :: "dbenv \<Rightarrow> HostConfig \<Rightarrow> (SqHostConfig option, unit) act" where
  "sqliteHost_Upsert e hc = SQLitePool_Write e (sqlite_UpsertHostConfig e hc)"

definition sqliteHostConfig :: "SqHostConfig option HostConfigStore" where
  "sqliteHostConfig = \<lparr>hcs_Get = sqliteHost_Get, hcs_Upsert = sqliteHost_Upsert\<rparr>"

subsection \<open>Postgres\<close>

record PgHostConfig =
  hx_ApiKey :: string
  hx_AuthMode :: string
  hx_MigrationState :: string
  hx_TvdbApiKey :: string
  hx_RecycleBin :: string
  hx_RecycleBinCleanupDays :: int
  hx_CreatedAt :: int
  hx_UpdatedAt :: int

definition postgres_GetHostConfig :: "dbenv \<Rightarrow> (PgHostConfig option, PgHostConfig) act" where
  "postgres_GetHostConfig e = stmt e ''GetHostConfig'' (\<lambda>t. (case t of None \<Rightarrow> Inl NoRows | Some r \<Rightarrow> Inr r, t))"

definition postgres_UpsertHostConfig :: "dbenv \<Rightarrow> HostConfig \<Rightarrow> (PgHostConfig option, unit) act" where
  "postgres_UpsertHostConfig e hc = stmt e ''UpsertHostConfig'' (\<lambda>t. (Inr (), Some
     \<lparr>hx_ApiKey = hc_APIKey hc, hx_AuthMode = hc_AuthMode hc, hx_MigrationState = hc_MigrationState hc,
      hx_TvdbApiKey = hc_TvdbApiKey hc, hx_RecycleBin = hc_RecycleBin hc,
      hx_RecycleBinCleanupDays = wrap32 (hc_RecycleBinCleanupDays hc),
      hx_CreatedAt = (case t of None \<Rightarrow> pg_micros (env_now e) | Some r \<Rightarrow> hx_CreatedAt r),
      hx_UpdatedAt = pg_micros (env_now e)\<rparr>))"

definition hostFromPg :: "PgHostConfig \<Rightarrow> HostConfig" where
  "hostFromPg r = \<lparr>hc_APIKey = hx_ApiKey r, hc_AuthMode = hx_AuthMode r, hc_MigrationState = hx_MigrationState r,
     hc_TvdbApiKey = hx_TvdbApiKey r, hc_RecycleBin = hx_RecycleBin r, hc_RecycleBinCleanupDays = hx_RecycleBinCleanupDays r,
     hc_CreatedAt = pg_time (hx_CreatedAt r), hc_UpdatedAt = pg_time (hx_UpdatedAt r)\<rparr>"

definition postgresHost_Get :: "dbenv \<Rightarrow> (PgHostConfig option, HostConfig) act" where
  "postgresHost_Get e = rowA (Inl ErrHostConfigNotFound) ''hostconfig: postgres get'' hostFromPg (postgres_GetHostConfig e)"

definition postgresHost_Upsert :: "dbenv \<Rightarrow> HostConfig \<Rightarrow> (PgHostConfig option, unit) act" where
  "postgresHost_Upsert e hc = wrapA ''hostconfig: postgres upsert'' (postgres_UpsertHostConfig e hc)"

definition postgresHostConfig :: "PgHostConfig option HostConfigStore" where
  "postgresHostConfig = \<lparr>hcs_Get = postgresHost_Get, hcs_Upsert = postgresHost_Upsert\<rparr>"

subsection \<open>Seeding at start-up\<close>

definition seedHostConfig :: "'s HostConfigStore \<Rightarrow> dbenv \<Rightarrow> string \<Rightarrow> ('s, unit) act" where
  "seedHostConfig store e b s = (case hcs_Get store e s of
     (Inr _, s1) \<Rightarrow> (Inr (), s1)
   | (Inl err, s1) \<Rightarrow>
       if error_is err ErrHostConfigNotFound
       then hcs_Upsert store e (zero_HostConfig\<lparr>hc_APIKey := NewAPIKey b, hc_AuthMode := ''forms'', hc_MigrationState := ''clean''\<rparr>) s1
       else (Inl (Wrap ''app: get host config'' err), s1))"

subsection \<open>The contract of a host configuration store\<close>

text \<open>A stored configuration has the fields that were written; \<open>n\<close> is what becomes of the number of days.\<close>

definition stored_as :: "(int \<Rightarrow> int) \<Rightarrow> HostConfig \<Rightarrow> HostConfig \<Rightarrow> bool" where
  "stored_as n hc c \<longleftrightarrow> hc_APIKey c = hc_APIKey hc \<and> hc_AuthMode c = hc_AuthMode hc \<and> hc_MigrationState c = hc_MigrationState hc
     \<and> hc_TvdbApiKey c = hc_TvdbApiKey hc \<and> hc_RecycleBin c = hc_RecycleBin hc
     \<and> hc_RecycleBinCleanupDays c = n (hc_RecycleBinCleanupDays hc)"

locale host_store =
  fixes store :: "'s HostConfigStore" and view :: "'s \<Rightarrow> HostConfig option" and n :: "int \<Rightarrow> int"
  assumes get_only: "hcs_Get store e s = (r, s') \<Longrightarrow> s' = s \<and> (\<forall>c. r = Inr c \<longrightarrow> view s = Some c)"
    and get_quiet: "quiet e \<Longrightarrow> hcs_Get store e s = (case view s of None \<Rightarrow> Inl ErrHostConfigNotFound | Some c \<Rightarrow> Inr c, s)"
    and upsert_any: "hcs_Upsert store e hc s = (out, s') \<Longrightarrow>
      (out = Inr () \<or> view s' \<noteq> view s) \<Longrightarrow> \<exists>c. view s' = Some c \<and> stored_as n hc c"
    and upsert_quiet: "quiet e \<Longrightarrow> fst (hcs_Upsert store e hc s) = Inr ()"
begin

text \<open>Starting up twice seeds once: a configuration that is there is kept, and a new one has the key that was drawn.\<close>

lemma seed_keeps: "view s = Some c \<Longrightarrow> quiet e \<Longrightarrow> seedHostConfig store e b s = (Inr (), s)"
  by (simp add: seedHostConfig_def get_quiet)

lemma seed_new:
  assumes "view s = None" "quiet e"
  shows "\<exists>s' c. seedHostConfig store e b s = (Inr (), s') \<and> view s' = Some c \<and> hc_APIKey c = NewAPIKey b"
proof -
  obtain r s' where u: "hcs_Upsert store e (zero_HostConfig\<lparr>hc_APIKey := NewAPIKey b, hc_AuthMode := ''forms'', hc_MigrationState := ''clean''\<rparr>) s = (r, s')"
    by fastforce
  moreover have "r = Inr ()" using upsert_quiet [OF assms(2)] u by (metis fst_conv)
  ultimately show ?thesis using assms upsert_any [OF u]
    by (auto simp: seedHostConfig_def get_quiet ErrHostConfigNotFound_def stored_as_def)
qed

end

lemmas host_defs = sqliteHostConfig_def sqliteHost_Get_def sqliteHost_Upsert_def sqlite_GetHostConfig_def sqlite_UpsertHostConfig_def
  postgresHostConfig_def postgresHost_Get_def postgresHost_Upsert_def postgres_GetHostConfig_def postgres_UpsertHostConfig_def

interpretation sqhost: host_store sqliteHostConfig "map_option hostFromSqlite" "\<lambda>d. d"
  by unfold_locales (auto simp: host_defs act_defs stmt_def hostFromSqlite_def stored_as_def ErrHostConfigNotFound_def
      SQLitePool_Write.simps split: option.splits if_splits write_outcome.splits)

interpretation pghost: host_store postgresHostConfig "map_option hostFromPg" wrap32
  by unfold_locales (auto simp: host_defs act_defs stmt_def hostFromPg_def stored_as_def ErrHostConfigNotFound_def
      split: option.splits if_splits)

subsection \<open>The settings handlers\<close>

text \<open>The body of an update; nil pointers leave a field alone. The callback \<open>onTvdbKeyChanged\<close>, when there is one,
  acts on the running program.\<close>

record settings_body =
  sb_TvdbApiKey :: "string option"
  sb_AuthMode :: "string option"

definition dec_string_ptr :: "string option decoder" where
  "dec_string_ptr j old = (case j of JNull \<Rightarrow> Inr None | _ \<Rightarrow> map_sum id Some (dec_string j (case old of None \<Rightarrow> '''' | Some t \<Rightarrow> t)))"

definition settings_fields :: "settings_body fields" where
  "settings_fields = [(''tvdbApiKey'', fld sb_TvdbApiKey sb_TvdbApiKey_update dec_string_ptr),
     (''authMode'', fld sb_AuthMode sb_AuthMode_update dec_string_ptr)]"

definition zero_settings_body :: settings_body where
  "zero_settings_body = \<lparr>sb_TvdbApiKey = None, sb_AuthMode = None\<rparr>"

definition settings_doc :: "HostConfig \<Rightarrow> json" where
  "settings_doc hc = JObj [(''apiKey'', JStr (hc_APIKey hc)), (''authMode'', JStr (hc_AuthMode hc)), (''tvdbApiKey'', JStr (hc_TvdbApiKey hc))]"

definition apply_settings :: "settings_body \<Rightarrow> HostConfig \<Rightarrow> HostConfig" where
  "apply_settings body hc =
     (let hc1 = (case sb_TvdbApiKey body of None \<Rightarrow> hc | Some k \<Rightarrow> hc\<lparr>hc_TvdbApiKey := k\<rparr>) in
      case sb_AuthMode body of None \<Rightarrow> hc1 | Some m \<Rightarrow> hc1\<lparr>hc_AuthMode := m\<rparr>)"

definition handleGetSettings :: "(Request \<Rightarrow> int \<Rightarrow> string \<Rightarrow> Response) \<Rightarrow> 's HostConfigStore \<Rightarrow> 's handler" where
  "handleGetSettings werr store e r s = (case hcs_Get store e s of
     (Inl err, s1) \<Rightarrow> (werr r 500 (error_text err), s1)
   | (Inr hc, s1) \<Rightarrow> (writeJSON 200 (settings_doc hc), s1))"

definition handleUpdateSettings ::
  "(Request \<Rightarrow> int \<Rightarrow> string \<Rightarrow> Response) \<Rightarrow> 's HostConfigStore \<Rightarrow> (string \<Rightarrow> 's \<Rightarrow> 's) option \<Rightarrow> 's handler" where
  "handleUpdateSettings werr store onTvdbKeyChanged e r s = (case hcs_Get store e s of
     (Inl err, s1) \<Rightarrow> (werr r 500 (error_text err), s1)
   | (Inr hc, s1) \<Rightarrow>
       (case Decode (dec_struct settings_fields) (rq_Body r) zero_settings_body of
          Inl _ \<Rightarrow> (werr r 400 ''Invalid request body'', s1)
        | Inr body \<Rightarrow>
            (let hc1 = apply_settings body hc in
             case hcs_Upsert store e hc1 s1 of
               (Inl err, s2) \<Rightarrow> (werr r 500 (error_text err), s2)
             | (Inr _, s2) \<Rightarrow>
                 (writeJSON 200 (settings_doc hc1),
                  (case (sb_TvdbApiKey body, onTvdbKeyChanged) of
                     (Some _, Some f) \<Rightarrow> f (hc_TvdbApiKey hc1) s2
                   | _ \<Rightarrow> s2)))))"

text \<open>The error answers of the two versions of the API.\<close>

definition v3_settings_error :: "Request \<Rightarrow> int \<Rightarrow> string \<Rightarrow> Response" where
  "v3_settings_error r status m = writeJSON status (message_doc m)"

definition v3_handleGetSettings :: "'s HostConfigStore \<Rightarrow> 's handler" where
  "v3_handleGetSettings = handleGetSettings v3_settings_error"

definition v3_handleUpdateSettings :: "'s HostConfigStore \<Rightarrow> (string \<Rightarrow> 's \<Rightarrow> 's) option \<Rightarrow> 's handler" where
  "v3_handleUpdateSettings = handleUpdateSettings v3_settings_error"

definition v6_handleGetSettings :: "'s HostConfigStore \<Rightarrow> 's handler" where
  "v6_handleGetSettings = handleGetSettings WriteProblem"

definition v6_handleUpdateSettings :: "'s HostConfigStore \<Rightarrow> (string \<Rightarrow> 's \<Rightarrow> 's) option \<Rightarrow> 's handler" where
  "v6_handleUpdateSettings = handleUpdateSettings WriteProblem"

lemma apply_settings_simps [simp]: "hc_APIKey (apply_settings b hc) = hc_APIKey hc" "hc_MigrationState (apply_settings b hc) = hc_MigrationState hc"
  "hc_RecycleBin (apply_settings b hc) = hc_RecycleBin hc" "hc_RecycleBinCleanupDays (apply_settings b hc) = hc_RecycleBinCleanupDays hc"
  by (simp_all add: apply_settings_def Let_def split: option.split)

text \<open>An update never touches the API key, whatever fails on the way.\<close>

context host_store
begin

lemma update_keeps_key:
  assumes "view s = Some c" "handleUpdateSettings werr store f e r s = (resp, s')"
    and "\<And>g k x. f = Some g \<Longrightarrow> view (g k x) = view x"
  shows "\<exists>c'. view s' = Some c' \<and> hc_APIKey c' = hc_APIKey c"
proof -
  obtain g s1 where g: "hcs_Get store e s = (g, s1)" by fastforce
  with get_only [OF g] assms(1) have s1: "s1 = s" "\<And>hc. g = Inr hc \<Longrightarrow> hc = c" by auto
  have kept: "\<exists>c'. view s2 = Some c' \<and> hc_APIKey c' = hc_APIKey c" if "hcs_Upsert store e (apply_settings b c) s = (out, s2)" for b out s2
    using upsert_any [OF that] assms(1) by (cases "view s2 = view s") (auto simp: stored_as_def)
  show ?thesis
    using assms kept g s1
    by (auto simp: handleUpdateSettings_def Let_def split: sum.splits prod.splits option.splits)
qed

end

end
