(* ===== verification/Auth.thy ===== *)
theory Auth
  imports HostConfig
begin

section \<open>Users, sessions and the guard of the API\<close>

text \<open>
  internal/auth (users, sessions and their stores on both engines), the middleware of internal/api/auth.go and
  internal/api/v6/v6.go, and the handlers of internal/api/v3/auth.go. The password hash of golang.org/x/crypto/bcrypt is the parameter
  \<open>bcrypt\<close>, random bytes are arguments of the calls that draw them, and \<open>zone\<close> is the offset of the local time zone at an instant:
  the SQLite session store formats times of the local zone and reads them back as UTC.
\<close>

subsection \<open>Data\<close>

record User =
  usr_ID :: int
  usr_Username :: string
  usr_PasswordHash :: string
  usr_CreatedAt :: int
  usr_UpdatedAt :: int

record Session =
  ses_Token :: string
  ses_UserID :: int
  ses_ExpiresAt :: int
  ses_CreatedAt :: int

record 's UserStore =
  us_Create :: "dbenv \<Rightarrow> string \<Rightarrow> string \<Rightarrow> ('s, User) act"
  us_GetByUsername :: "dbenv \<Rightarrow> string \<Rightarrow> ('s, User) act"
  us_Count :: "dbenv \<Rightarrow> ('s, int) act"

record 's SessionStore =
  ss_Create :: "dbenv \<Rightarrow> Session \<Rightarrow> ('s, unit) act"
  ss_GetByToken :: "dbenv \<Rightarrow> string \<Rightarrow> ('s, Session) act"
  ss_DeleteByToken :: "dbenv \<Rightarrow> string \<Rightarrow> ('s, unit) act"
  ss_DeleteExpired :: "dbenv \<Rightarrow> ('s, unit) act"

definition ErrUserNotFound :: store_error where "ErrUserNotFound = Errorf ''auth: user not found''"
definition ErrSessionExpired :: store_error where "ErrSessionExpired = Errorf ''auth: session expired''"

text \<open>\<open>GenerateFromPassword\<close> draws a salt and can refuse a password, \<open>CompareHashAndPassword\<close> checks one.\<close>

record bcrypt =
  bc_Generate :: "string \<Rightarrow> string \<Rightarrow> string option"
  bc_Compare :: "string \<Rightarrow> string \<Rightarrow> bool"

definition HashPassword :: "bcrypt \<Rightarrow> string \<Rightarrow> string \<Rightarrow> string option" where
  "HashPassword bc salt password = bc_Generate bc salt password"

definition CheckPassword :: "bcrypt \<Rightarrow> string \<Rightarrow> string \<Rightarrow> bool" where
  "CheckPassword bc hash password = bc_Compare bc hash password"

definition NewSessionToken :: "string \<Rightarrow> string" where
  "NewSessionToken b = EncodeToString b"

definition SessionTTL :: int where
  "SessionTTL = 7 * 24 * 3600 * second_ns"

subsection \<open>SQLite\<close>

record SqUser =
  uq_ID :: int
  uq_Username :: string
  uq_PasswordHash :: string
  uq_CreatedAt :: int
  uq_UpdatedAt :: int

record SqSession =
  nq_Token :: string
  nq_UserID :: int
  nq_ExpiresAt :: int
  nq_CreatedAt :: int

record sqlite_auth =
  sa_users :: "SqUser table"
  sa_sessions :: "SqSession list"

definition on_users :: "(SqUser table, 'a) act \<Rightarrow> (sqlite_auth, 'a) act" where
  "on_users m s = (case m (sa_users s) of (r, t) \<Rightarrow> (r, s\<lparr>sa_users := t\<rparr>))"

text \<open>\<open>Format\<close> of a time in the zone it carries, the local one; the text stands for the second it denotes as UTC.\<close>

definition local_format :: "(int \<Rightarrow> int) \<Rightarrow> int \<Rightarrow> int" where
  "local_format zone t = (t + zone t) div second_ns"

definition sqliteUsers_Create :: "dbenv \<Rightarrow> string \<Rightarrow> string \<Rightarrow> (sqlite_auth, User) act" where
  "sqliteUsers_Create e username hash = SQLitePool_Write e (stmt e ''INSERT INTO users'' (on_users
     (mapA (\<lambda>r. \<lparr>usr_ID = uq_ID r, usr_Username = username, usr_PasswordHash = hash, usr_CreatedAt = env_now e, usr_UpdatedAt = env_now e\<rparr>)
       (unique_insert False (sqlite_unique ''users.username'') uq_Username
         (\<lambda>i. \<lparr>uq_ID = i, uq_Username = username, uq_PasswordHash = hash, uq_CreatedAt = sqlite_format (env_now e),
           uq_UpdatedAt = sqlite_format (env_now e)\<rparr>)))))"

definition userFromSqlite :: "SqUser \<Rightarrow> User" where
  "userFromSqlite r = \<lparr>usr_ID = uq_ID r, usr_Username = uq_Username r, usr_PasswordHash = uq_PasswordHash r,
     usr_CreatedAt = parseSqliteTime (uq_CreatedAt r), usr_UpdatedAt = parseSqliteTime (uq_UpdatedAt r)\<rparr>"

text \<open>The query-one pattern of these stores: no row is a sentinel, other errors are passed on.\<close>

definition rowOr :: "store_error \<Rightarrow> ('a \<Rightarrow> 'b) \<Rightarrow> ('s, 'a) act \<Rightarrow> ('s, 'b) act" where
  "rowOr none g m s = (case m s of
     (Inl x, s') \<Rightarrow> (Inl (if error_is x NoRows then none else x), s')
   | (Inr r, s') \<Rightarrow> (Inr (g r), s'))"

definition sqliteUsers_GetByUsername :: "dbenv \<Rightarrow> string \<Rightarrow> (sqlite_auth, User) act" where
  "sqliteUsers_GetByUsername e username =
     rowOr ErrUserNotFound userFromSqlite (stmt e ''SELECT FROM users'' (on_users (sql_one (\<lambda>r. uq_Username r = username))))"

definition sqliteUsers_Count :: "dbenv \<Rightarrow> (sqlite_auth, int) act" where
  "sqliteUsers_Count e = stmt e ''SELECT COUNT FROM users'' (\<lambda>s. (Inr (int (length (rows (sa_users s)))), s))"

definition sqliteUsers :: "sqlite_auth UserStore" where
  "sqliteUsers = \<lparr>us_Create = sqliteUsers_Create, us_GetByUsername = sqliteUsers_GetByUsername, us_Count = sqliteUsers_Count\<rparr>"

text \<open>The token is the primary key, the user a foreign key.\<close>

definition insert_session :: "string \<Rightarrow> string \<Rightarrow> SqSession \<Rightarrow> (sqlite_auth, unit) act" where
  "insert_session dup missing r s =
     (if nq_Token r \<in> nq_Token ` set (sa_sessions s) then (Inl (DbError dup), s)
      else if nq_UserID r \<notin> uq_ID ` set (rows (sa_users s)) then (Inl (DbError missing), s)
      else (Inr (), s\<lparr>sa_sessions := sa_sessions s @ [r]\<rparr>))"

definition sqliteSessions_Create :: "(int \<Rightarrow> int) \<Rightarrow> dbenv \<Rightarrow> Session \<Rightarrow> (sqlite_auth, unit) act" where
  "sqliteSessions_Create zone e session = SQLitePool_Write e (stmt e ''INSERT INTO sessions''
     (insert_session (sqlite_unique ''sessions.token'') ''constraint failed: FOREIGN KEY constraint failed (787)''
       \<lparr>nq_Token = ses_Token session, nq_UserID = ses_UserID session, nq_ExpiresAt = local_format zone (ses_ExpiresAt session),
        nq_CreatedAt = sqlite_format (env_now e)\<rparr>))"

definition sessionFromSqlite :: "SqSession \<Rightarrow> Session" where
  "sessionFromSqlite r = \<lparr>ses_Token = nq_Token r, ses_UserID = nq_UserID r, ses_ExpiresAt = parseSqliteTime (nq_ExpiresAt r),
     ses_CreatedAt = parseSqliteTime (nq_CreatedAt r)\<rparr>"

definition sqliteSessions_GetByToken :: "dbenv \<Rightarrow> string \<Rightarrow> (sqlite_auth, Session) act" where
  "sqliteSessions_GetByToken e token = rowOr ErrSessionExpired sessionFromSqlite (stmt e ''SELECT FROM sessions''
     (\<lambda>s. (first_row (filter (\<lambda>r. nq_Token r = token) (sa_sessions s)), s)))"

definition sqliteSessions_DeleteByToken :: "dbenv \<Rightarrow> string \<Rightarrow> (sqlite_auth, unit) act" where
  "sqliteSessions_DeleteByToken e token = SQLitePool_Write e (stmt e ''DELETE FROM sessions''
     (\<lambda>s. (Inr (), s\<lparr>sa_sessions := filter (\<lambda>r. nq_Token r \<noteq> token) (sa_sessions s)\<rparr>)))"

definition sqliteSessions_DeleteExpired :: "(int \<Rightarrow> int) \<Rightarrow> dbenv \<Rightarrow> (sqlite_auth, unit) act" where
  "sqliteSessions_DeleteExpired zone e = SQLitePool_Write e (stmt e ''DELETE FROM sessions''
     (\<lambda>s. (Inr (), s\<lparr>sa_sessions := filter (\<lambda>r. \<not> nq_ExpiresAt r < local_format zone (env_now e)) (sa_sessions s)\<rparr>)))"

definition sqliteSessions :: "(int \<Rightarrow> int) \<Rightarrow> sqlite_auth SessionStore" where
  "sqliteSessions zone = \<lparr>ss_Create = sqliteSessions_Create zone, ss_GetByToken = sqliteSessions_GetByToken,
     ss_DeleteByToken = sqliteSessions_DeleteByToken, ss_DeleteExpired = sqliteSessions_DeleteExpired zone\<rparr>"

subsection \<open>Postgres\<close>

record PgUser =
  ux_ID :: int
  ux_Username :: string
  ux_PasswordHash :: string
  ux_CreatedAt :: int
  ux_UpdatedAt :: int

record PgSession =
  nx_Token :: string
  nx_UserID :: int
  nx_ExpiresAt :: int
  nx_CreatedAt :: int

record postgres_auth =
  pa_users :: "PgUser table"
  pa_sessions :: "PgSession list"

definition on_pg_users :: "(PgUser table, 'a) act \<Rightarrow> (postgres_auth, 'a) act" where
  "on_pg_users m s = (case m (pa_users s) of (r, t) \<Rightarrow> (r, s\<lparr>pa_users := t\<rparr>))"

definition userFromPg :: "PgUser \<Rightarrow> User" where
  "userFromPg r = \<lparr>usr_ID = ux_ID r, usr_Username = ux_Username r, usr_PasswordHash = ux_PasswordHash r,
     usr_CreatedAt = pg_time (ux_CreatedAt r), usr_UpdatedAt = pg_time (ux_UpdatedAt r)\<rparr>"

definition postgresUsers_Create :: "dbenv \<Rightarrow> string \<Rightarrow> string \<Rightarrow> (postgres_auth, User) act" where
  "postgresUsers_Create e username hash = stmt e ''INSERT INTO users'' (on_pg_users (mapA userFromPg
     (unique_insert True (pg_unique ''users_username_key'') ux_Username
       (\<lambda>i. \<lparr>ux_ID = i, ux_Username = username, ux_PasswordHash = hash, ux_CreatedAt = pg_micros (env_now e),
         ux_UpdatedAt = pg_micros (env_now e)\<rparr>))))"

definition postgresUsers_GetByUsername :: "dbenv \<Rightarrow> string \<Rightarrow> (postgres_auth, User) act" where
  "postgresUsers_GetByUsername e username =
     rowOr ErrUserNotFound userFromPg (stmt e ''SELECT FROM users'' (on_pg_users (sql_one (\<lambda>r. ux_Username r = username))))"

definition postgresUsers_Count :: "dbenv \<Rightarrow> (postgres_auth, int) act" where
  "postgresUsers_Count e = stmt e ''SELECT COUNT FROM users'' (\<lambda>s. (Inr (int (length (rows (pa_users s)))), s))"

definition postgresUsers :: "postgres_auth UserStore" where
  "postgresUsers = \<lparr>us_Create = postgresUsers_Create, us_GetByUsername = postgresUsers_GetByUsername, us_Count = postgresUsers_Count\<rparr>"

text \<open>The driver refuses a user id that does not fit the column.\<close>

definition postgresSessions_Create :: "dbenv \<Rightarrow> Session \<Rightarrow> (postgres_auth, unit) act" where
  "postgresSessions_Create e session = stmt e ''INSERT INTO sessions'' (\<lambda>s.
     if \<not> int32_range (ses_UserID session) then (Inl (DbError ''unable to encode into int4''), s)
     else if ses_Token session \<in> nx_Token ` set (pa_sessions s) then (Inl (DbError (pg_unique ''sessions_pkey'')), s)
     else if ses_UserID session \<notin> ux_ID ` set (rows (pa_users s))
       then (Inl (DbError ''ERROR: insert or update on table sessions violates foreign key constraint (SQLSTATE 23503)''), s)
     else (Inr (), s\<lparr>pa_sessions := pa_sessions s @
       [\<lparr>nx_Token = ses_Token session, nx_UserID = ses_UserID session, nx_ExpiresAt = pg_micros (ses_ExpiresAt session),
         nx_CreatedAt = pg_micros (env_now e)\<rparr>]\<rparr>))"

definition sessionFromPg :: "PgSession \<Rightarrow> Session" where
  "sessionFromPg r = \<lparr>ses_Token = nx_Token r, ses_UserID = nx_UserID r, ses_ExpiresAt = pg_time (nx_ExpiresAt r),
     ses_CreatedAt = pg_time (nx_CreatedAt r)\<rparr>"

definition postgresSessions_GetByToken :: "dbenv \<Rightarrow> string \<Rightarrow> (postgres_auth, Session) act" where
  "postgresSessions_GetByToken e token = rowOr ErrSessionExpired sessionFromPg (stmt e ''SELECT FROM sessions''
     (\<lambda>s. (first_row (filter (\<lambda>r. nx_Token r = token) (pa_sessions s)), s)))"

definition postgresSessions_DeleteByToken :: "dbenv \<Rightarrow> string \<Rightarrow> (postgres_auth, unit) act" where
  "postgresSessions_DeleteByToken e token = stmt e ''DELETE FROM sessions''
     (\<lambda>s. (Inr (), s\<lparr>pa_sessions := filter (\<lambda>r. nx_Token r \<noteq> token) (pa_sessions s)\<rparr>))"

definition postgresSessions_DeleteExpired :: "dbenv \<Rightarrow> (postgres_auth, unit) act" where
  "postgresSessions_DeleteExpired e = stmt e ''DELETE FROM sessions''
     (\<lambda>s. (Inr (), s\<lparr>pa_sessions := filter (\<lambda>r. \<not> nx_ExpiresAt r < pg_micros (env_now e)) (pa_sessions s)\<rparr>))"

definition postgresSessions :: "postgres_auth SessionStore" where
  "postgresSessions = \<lparr>ss_Create = postgresSessions_Create, ss_GetByToken = postgresSessions_GetByToken,
     ss_DeleteByToken = postgresSessions_DeleteByToken, ss_DeleteExpired = postgresSessions_DeleteExpired\<rparr>"

subsection \<open>The guard\<close>

text \<open>The answer to a request that is not let through; the two versions of the API share it.\<close>

definition Unauthorized :: Response where
  "Unauthorized = \<lparr>rs_Status = 401, rs_Header = [(''Content-Type'', ''application/json'')],
     rs_Body = ''{'' @ CHR 34 # ''message'' @ CHR 34 # '':'' @ CHR 34 # ''Unauthorized'' @ CHR 34 # ''}''\<rparr>"

definition request_key :: "Request \<Rightarrow> string" where
  "request_key r = (let key = rq_Header r ''X-Api-Key'' in if key = '''' then rq_Query r ''apikey'' else key)"

definition session_cookie :: "Request \<Rightarrow> string option" where
  "session_cookie r = rq_Cookie r ''sonarr2_session''"

text \<open>The second check: the cookie names a session that has not expired.\<close>

definition check_session :: "'s SessionStore \<Rightarrow> 's handler \<Rightarrow> 's handler" where
  "check_session ss nxt e r s = (case session_cookie r of
     None \<Rightarrow> (Unauthorized, s)
   | Some v \<Rightarrow>
       if v = '''' then (Unauthorized, s)
       else (case ss_GetByToken ss e v s of
               (Inl _, s1) \<Rightarrow> (Unauthorized, s1)
             | (Inr session, s1) \<Rightarrow> if env_now e < ses_ExpiresAt session then nxt e r s1 else (Unauthorized, s1)))"

definition combinedAuth :: "'s HostConfigStore \<Rightarrow> 's SessionStore \<Rightarrow> 's handler \<Rightarrow> 's handler" where
  "combinedAuth hcs ss nxt e r s =
     (if request_key r \<noteq> ''''
      then (case hcs_Get hcs e s of
              (Inr hc, s1) \<Rightarrow> if hc_APIKey hc = request_key r then nxt e r s1 else check_session ss nxt e r s1
            | (Inl _, s1) \<Rightarrow> check_session ss nxt e r s1)
      else check_session ss nxt e r s)"

text \<open>The guard of version 6 works without a session store as well.\<close>

definition v6_combinedAuth :: "'s HostConfigStore \<Rightarrow> 's SessionStore option \<Rightarrow> 's handler \<Rightarrow> 's handler" where
  "v6_combinedAuth hcs ss nxt e r s =
     (let second = (case ss of None \<Rightarrow> (\<lambda>e r s. (Unauthorized, s)) | Some st \<Rightarrow> check_session st nxt) in
      if request_key r \<noteq> ''''
      then (case hcs_Get hcs e s of
              (Inr hc, s1) \<Rightarrow> if hc_APIKey hc = request_key r then nxt e r s1 else second e r s1
            | (Inl _, s1) \<Rightarrow> second e r s1)
      else second e r s)"

definition apiKeyAuth :: "'s HostConfigStore \<Rightarrow> 's handler \<Rightarrow> 's handler" where
  "apiKeyAuth hcs nxt e r s =
     (if request_key r = '''' then (Unauthorized, s)
      else (case hcs_Get hcs e s of
              (Inl _, s1) \<Rightarrow> (Unauthorized, s1)
            | (Inr hc, s1) \<Rightarrow> if hc_APIKey hc \<noteq> request_key r then (Unauthorized, s1) else nxt e r s1))"

subsection \<open>The handlers of users and sessions\<close>

record credentials =
  cr_Username :: string
  cr_Password :: string

definition credentials_fields :: "credentials fields" where
  "credentials_fields = [(''username'', fld cr_Username cr_Username_update dec_string), (''password'', fld cr_Password cr_Password_update dec_string)]"

definition read_credentials :: "Request \<Rightarrow> (store_error, credentials) result" where
  "read_credentials r = Decode (dec_struct credentials_fields) (rq_Body r) \<lparr>cr_Username = '''', cr_Password = ''''\<rparr>"

definition message_answer :: "int \<Rightarrow> string \<Rightarrow> Response" where
  "message_answer status m = writeJSON status (message_doc m)"

definition handleInitializeCheck :: "'s UserStore \<Rightarrow> 's handler" where
  "handleInitializeCheck us e r s = (case us_Count us e s of
     (Inl err, s1) \<Rightarrow> (message_answer 500 (error_text err), s1)
   | (Inr count, s1) \<Rightarrow> (writeJSON 200 (JObj [(''initialized'', JBool (count > 0))]), s1))"

text \<open>After the count the handler of the first user goes on alone: the two parts are not one transaction.\<close>

definition initialize_count :: "'s UserStore \<Rightarrow> dbenv \<Rightarrow> 's \<Rightarrow> Response option \<times> 's" where
  "initialize_count us e s = (case us_Count us e s of
     (Inl err, s1) \<Rightarrow> (Some (message_answer 500 (error_text err)), s1)
   | (Inr count, s1) \<Rightarrow> (if count > 0 then Some (message_answer 409 ''Already initialized'') else None, s1))"

definition forms_mode :: "'s HostConfigStore \<Rightarrow> dbenv \<Rightarrow> 's \<Rightarrow> 's" where
  "forms_mode hcs e s =
     (let (g, s1) = hcs_Get hcs e s;
          hc = (case g of Inl _ \<Rightarrow> zero_HostConfig | Inr c \<Rightarrow> c)
      in snd (hcs_Upsert hcs e (hc\<lparr>hc_AuthMode := ''forms''\<rparr>) s1))"

definition initialize_create :: "bcrypt \<Rightarrow> 's UserStore \<Rightarrow> 's HostConfigStore \<Rightarrow> string \<Rightarrow> 's handler" where
  "initialize_create bc us hcs salt e r s = (case read_credentials r of
     Inl _ \<Rightarrow> (message_answer 400 ''Invalid request body'', s)
   | Inr body \<Rightarrow>
       if cr_Username body = '''' \<or> cr_Password body = '''' then (message_answer 400 ''Username and password are required'', s)
       else (case HashPassword bc salt (cr_Password body) of
               None \<Rightarrow> (message_answer 500 ''Failed to hash password'', s)
             | Some hash \<Rightarrow>
                 (case us_Create us e (cr_Username body) hash s of
                    (Inl err, s1) \<Rightarrow> (message_answer 500 (error_text err), s1)
                  | (Inr user, s1) \<Rightarrow>
                      (let s2 = forms_mode hcs e s1; (g, s3) = hcs_Get hcs e s2 in
                       (writeJSON 201 (JObj [(''apiKey'', JStr (case g of Inl _ \<Rightarrow> '''' | Inr hc2 \<Rightarrow> hc_APIKey hc2)),
                          (''username'', JStr (usr_Username user))]), s3)))))"

definition handleInitialize :: "bcrypt \<Rightarrow> 's UserStore \<Rightarrow> 's HostConfigStore \<Rightarrow> string \<Rightarrow> 's handler" where
  "handleInitialize bc us hcs salt e r s = (case initialize_count us e s of
     (Some resp, s1) \<Rightarrow> (resp, s1)
   | (None, s1) \<Rightarrow> initialize_create bc us hcs salt e r s1)"

definition set_cookie :: "string \<Rightarrow> int \<Rightarrow> string \<times> string" where
  "set_cookie token maxAge = (''Set-Cookie'', ''sonarr2_session='' @ token @ ''; Path=/; Max-Age='' @
     (if maxAge > 0 then show_int maxAge else ''0'') @ ''; HttpOnly; SameSite=Lax'')"

definition handleLogin :: "bcrypt \<Rightarrow> 's UserStore \<Rightarrow> 's SessionStore \<Rightarrow> string \<Rightarrow> 's handler" where
  "handleLogin bc us ss rnd e r s = (case read_credentials r of
     Inl _ \<Rightarrow> (message_answer 400 ''Invalid request body'', s)
   | Inr body \<Rightarrow>
       (case us_GetByUsername us e (cr_Username body) s of
          (Inl _, s1) \<Rightarrow> (message_answer 401 ''Invalid credentials'', s1)
        | (Inr user, s1) \<Rightarrow>
            if \<not> CheckPassword bc (usr_PasswordHash user) (cr_Password body) then (message_answer 401 ''Invalid credentials'', s1)
            else (let token = NewSessionToken rnd;
                      session = \<lparr>ses_Token = token, ses_UserID = usr_ID user, ses_ExpiresAt = env_now e + SessionTTL, ses_CreatedAt = zero_time\<rparr> in
                  case ss_Create ss e session s1 of
                    (Inl _, s2) \<Rightarrow> (message_answer 500 ''Failed to create session'', s2)
                  | (Inr _, s2) \<Rightarrow>
                      (let a = writeJSON 200 (JObj [(''username'', JStr (usr_Username user))])
                       in a\<lparr>rs_Header := set_cookie token (SessionTTL div second_ns) # rs_Header a\<rparr>, s2))))"

definition handleLogout :: "'s SessionStore \<Rightarrow> 's handler" where
  "handleLogout ss e r s =
     (\<lparr>rs_Status = 200, rs_Header = [set_cookie '''' (-1)], rs_Body = ''''\<rparr>,
      (case session_cookie r of
         None \<Rightarrow> s
       | Some v \<Rightarrow> if v = '''' then s else snd (ss_DeleteByToken ss e v s)))"

subsection \<open>The API around them\<close>

text \<open>The part of \<open>HandlerWithDeps\<close> that concerns access: the open endpoints of \<open>MountAuth\<close>, and the settings endpoints of both
  versions of the API behind their guards. The state is the host configuration, the tables of users and sessions, and what the callback for a new
  TVDB key acts on.\<close>

record ('h, 'd, 'w) api_state =
  ap_host :: 'h
  ap_db :: 'd
  ap_live :: 'w

definition on_host :: "('h, 'a) act \<Rightarrow> (('h, 'd, 'w) api_state, 'a) act" where
  "on_host m s = (case m (ap_host s) of (r, h) \<Rightarrow> (r, s\<lparr>ap_host := h\<rparr>))"

definition on_auth :: "('d, 'a) act \<Rightarrow> (('h, 'd, 'w) api_state, 'a) act" where
  "on_auth m s = (case m (ap_db s) of (r, d) \<Rightarrow> (r, s\<lparr>ap_db := d\<rparr>))"

definition api_host :: "'h HostConfigStore \<Rightarrow> ('h, 'd, 'w) api_state HostConfigStore" where
  "api_host st = \<lparr>hcs_Get = (\<lambda>e. on_host (hcs_Get st e)), hcs_Upsert = (\<lambda>e hc. on_host (hcs_Upsert st e hc))\<rparr>"

definition api_users :: "'d UserStore \<Rightarrow> ('h, 'd, 'w) api_state UserStore" where
  "api_users st = \<lparr>us_Create = (\<lambda>e u h. on_auth (us_Create st e u h)), us_GetByUsername = (\<lambda>e u. on_auth (us_GetByUsername st e u)),
     us_Count = (\<lambda>e. on_auth (us_Count st e))\<rparr>"

definition api_sessions :: "'d SessionStore \<Rightarrow> ('h, 'd, 'w) api_state SessionStore" where
  "api_sessions st = \<lparr>ss_Create = (\<lambda>e x. on_auth (ss_Create st e x)), ss_GetByToken = (\<lambda>e t. on_auth (ss_GetByToken st e t)),
     ss_DeleteByToken = (\<lambda>e t. on_auth (ss_DeleteByToken st e t)), ss_DeleteExpired = (\<lambda>e. on_auth (ss_DeleteExpired st e))\<rparr>"

record ('h, 'd, 'w) api_deps =
  ad_bcrypt :: bcrypt
  ad_HostConfig :: "'h HostConfigStore"
  ad_UserStore :: "'d UserStore"
  ad_SessionStore :: "'d SessionStore"
  ad_OnTvdbKeyChanged :: "(string \<Rightarrow> 'w \<Rightarrow> 'w) option"

datatype api_call = CheckInitialized Request | Initialize string Request | Login string Request | Logout Request
  | GetSettings3 Request | PutSettings3 Request | GetSettings6 Request | PutSettings6 Request

definition tvdb_callback :: "('h, 'd, 'w) api_deps \<Rightarrow> (string \<Rightarrow> ('h, 'd, 'w) api_state \<Rightarrow> ('h, 'd, 'w) api_state) option" where
  "tvdb_callback deps = map_option (\<lambda>f k s. s\<lparr>ap_live := f k (ap_live s)\<rparr>) (ad_OnTvdbKeyChanged deps)"

fun serve :: "('h, 'd, 'w) api_deps \<Rightarrow> dbenv \<Rightarrow> api_call \<Rightarrow> ('h, 'd, 'w) api_state \<Rightarrow> Response \<times> ('h, 'd, 'w) api_state" where
  "serve deps e (CheckInitialized r) = handleInitializeCheck (api_users (ad_UserStore deps)) e r"
| "serve deps e (Initialize salt r) =
     handleInitialize (ad_bcrypt deps) (api_users (ad_UserStore deps)) (api_host (ad_HostConfig deps)) salt e r"
| "serve deps e (Login rnd r) =
     handleLogin (ad_bcrypt deps) (api_users (ad_UserStore deps)) (api_sessions (ad_SessionStore deps)) rnd e r"
| "serve deps e (Logout r) = handleLogout (api_sessions (ad_SessionStore deps)) e r"
| "serve deps e (GetSettings3 r) = combinedAuth (api_host (ad_HostConfig deps)) (api_sessions (ad_SessionStore deps))
     (v3_handleGetSettings (api_host (ad_HostConfig deps))) e r"
| "serve deps e (PutSettings3 r) = combinedAuth (api_host (ad_HostConfig deps)) (api_sessions (ad_SessionStore deps))
     (v3_handleUpdateSettings (api_host (ad_HostConfig deps)) (tvdb_callback deps)) e r"
| "serve deps e (GetSettings6 r) = v6_combinedAuth (api_host (ad_HostConfig deps)) (Some (api_sessions (ad_SessionStore deps)))
     (v6_handleGetSettings (api_host (ad_HostConfig deps))) e r"
| "serve deps e (PutSettings6 r) = v6_combinedAuth (api_host (ad_HostConfig deps)) (Some (api_sessions (ad_SessionStore deps)))
     (v6_handleUpdateSettings (api_host (ad_HostConfig deps)) (tvdb_callback deps)) e r"

fun serve_all :: "('h, 'd, 'w) api_deps \<Rightarrow> (dbenv \<times> api_call) list \<Rightarrow> ('h, 'd, 'w) api_state \<Rightarrow> Response list \<times> ('h, 'd, 'w) api_state" where
  "serve_all deps [] s = ([], s)"
| "serve_all deps ((e, c) # cs) s = (case serve deps e c s of (a, s1) \<Rightarrow> (case serve_all deps cs s1 of (as, s2) \<Rightarrow> (a # as, s2)))"

definition after :: "('h, 'd, 'w) api_deps \<Rightarrow> (dbenv \<times> api_call) list \<Rightarrow> ('h, 'd, 'w) api_state \<Rightarrow> ('h, 'd, 'w) api_state" where
  "after deps cs s = snd (serve_all deps cs s)"

lemma after_Nil [simp]: "after deps [] s = s"
  by (simp add: after_def)

lemma after_snoc: "after deps (cs @ [(e, c)]) s = snd (serve deps e c (after deps cs s))"
  unfolding after_def by (induction cs arbitrary: s) (auto simp: case_prod_beta)

text \<open>When the guards let a request through.\<close>

definition admits :: "'h HostConfigStore \<Rightarrow> 'd SessionStore \<Rightarrow> dbenv \<Rightarrow> Request \<Rightarrow> ('h, 'd, 'w) api_state \<Rightarrow> bool" where
  "admits hcs ss e r s \<longleftrightarrow>
     request_key r \<noteq> '''' \<and> (case fst (hcs_Get hcs e (ap_host s)) of Inl _ \<Rightarrow> False | Inr hc \<Rightarrow> hc_APIKey hc = request_key r)
   \<or> (case session_cookie r of None \<Rightarrow> False
      | Some v \<Rightarrow> v \<noteq> '''' \<and> (case fst (ss_GetByToken ss e v (ap_db s)) of Inl _ \<Rightarrow> False | Inr y \<Rightarrow> env_now e < ses_ExpiresAt y))"

text \<open>Where a session comes from: an earlier login with the right password of a user there was then, that drew the token, and no logout with
  the token since that could reach the table.\<close>

definition good_login :: "bcrypt \<Rightarrow> User list \<Rightarrow> Request \<Rightarrow> bool" where
  "good_login bc us r \<longleftrightarrow> (case read_credentials r of Inl _ \<Rightarrow> False | Inr body \<Rightarrow>
     (\<exists>u\<in>set us. usr_Username u = cr_Username body \<and> CheckPassword bc (usr_PasswordHash u) (cr_Password body)))"

fun logs_out :: "string \<Rightarrow> dbenv \<times> api_call \<Rightarrow> bool" where
  "logs_out token (e, Logout r) \<longleftrightarrow> quiet e \<and> session_cookie r = Some token \<and> token \<noteq> ''''"
| "logs_out token _ \<longleftrightarrow> False"

definition issued :: "('h, 'd, 'w) api_deps \<Rightarrow> ('d \<Rightarrow> User list) \<Rightarrow> (int \<Rightarrow> int) \<Rightarrow> ('h, 'd, 'w) api_state \<Rightarrow> (dbenv \<times> api_call) list \<Rightarrow>
    string \<Rightarrow> int \<Rightarrow> bool" where
  "issued deps users ex s0 calls token until \<longleftrightarrow> (\<exists>pre e rnd r post. calls = pre @ (e, Login rnd r) # post \<and> token = NewSessionToken rnd
     \<and> until = ex (env_now e + SessionTTL) \<and> good_login (ad_bcrypt deps) (users (ap_db (after deps pre s0))) r
     \<and> list_all (\<lambda>x. \<not> logs_out token x) post)"

text \<open>Where a user comes from.\<close>

definition founded :: "bcrypt \<Rightarrow> (dbenv \<times> api_call) list \<Rightarrow> User \<Rightarrow> bool" where
  "founded bc calls u \<longleftrightarrow> (\<exists>e salt r body. (e, Initialize salt r) \<in> set calls \<and> read_credentials r = Inr body
     \<and> usr_Username u = cr_Username body \<and> HashPassword bc salt (cr_Password body) = Some (usr_PasswordHash u))"

lemma issued_snoc: "issued deps users ex s0 calls token until \<Longrightarrow> \<not> logs_out token x \<Longrightarrow> issued deps users ex s0 (calls @ [x]) token until"
  unfolding issued_def by fastforce

lemma issued_now:
  "good_login (ad_bcrypt deps) (users (ap_db (after deps calls s0))) r \<Longrightarrow>
   issued deps users ex s0 (calls @ [(e, Login rnd r)]) (NewSessionToken rnd) (ex (env_now e + SessionTTL))"
  unfolding issued_def by fastforce

lemma founded_snoc: "founded bc calls u \<Longrightarrow> founded bc (calls @ [x]) u"
  unfolding founded_def by fastforce

lemma founded_now:
  "read_credentials r = Inr body \<Longrightarrow> usr_Username u = cr_Username body \<Longrightarrow> HashPassword bc salt (cr_Password body) = Some (usr_PasswordHash u) \<Longrightarrow>
   founded bc (calls @ [(e, Initialize salt r)]) u"
  unfolding founded_def by fastforce

subsection \<open>The contract of the stores\<close>

locale auth_stores = host_store +
  fixes us :: "'d UserStore" and ss :: "'d SessionStore" and users :: "'d \<Rightarrow> User list" and sessions :: "'d \<Rightarrow> Session list"
    and ex :: "int \<Rightarrow> int" and inv :: "'d \<Rightarrow> bool"
  assumes count: "us_Count us e d = (k, d') \<Longrightarrow> d' = d \<and> (\<forall>m. k = Inr m \<longrightarrow> m = int (length (users d)))"
    and find_user: "us_GetByUsername us e name d = (u, d') \<Longrightarrow>
      d' = d \<and> (\<forall>x. u = Inr x \<longrightarrow> x \<in> set (users d) \<and> usr_Username x = name)"
    and create_user: "us_Create us e name h d = (u, d') \<Longrightarrow> inv d \<Longrightarrow> inv d' \<and> sessions d' = sessions d \<and>
      (users d' = users d \<and> \<not> is_ok u \<or> (\<exists>x. users d' = users d @ [x] \<and> usr_Username x = name \<and> usr_PasswordHash x = h))"
    and find_session: "ss_GetByToken ss e t d = (q, d') \<Longrightarrow>
      d' = d \<and> (\<forall>y. q = Inr y \<longrightarrow> y \<in> set (sessions d) \<and> ses_Token y = t)"
    and create_session: "ss_Create ss e x d = (v, d') \<Longrightarrow> inv d \<Longrightarrow> inv d' \<and> users d' = users d \<and>
      (sessions d' = sessions d \<and> \<not> is_ok v \<or>
       (\<exists>y. sessions d' = sessions d @ [y] \<and> ses_Token y = ses_Token x \<and> ses_UserID y = ses_UserID x \<and> ses_ExpiresAt y = ex (ses_ExpiresAt x)))"
    and delete_session: "ss_DeleteByToken ss e t d = (v, d') \<Longrightarrow> inv d \<Longrightarrow> inv d' \<and> users d' = users d \<and>
      (\<not> quiet e \<and> sessions d' = sessions d \<or> sessions d' = filter (\<lambda>y. ses_Token y \<noteq> t) (sessions d))"
    and user_there: "quiet e \<Longrightarrow> inv d \<Longrightarrow> z \<in> set (users d) \<Longrightarrow> us_GetByUsername us e (usr_Username z) d = (Inr z, d)"
    and session_new: "quiet e \<Longrightarrow> inv d \<Longrightarrow> ses_Token y \<notin> ses_Token ` set (sessions d) \<Longrightarrow> ses_UserID y \<in> usr_ID ` set (users d) \<Longrightarrow>
      int32_range (ses_UserID y) \<Longrightarrow> is_ok (fst (ss_Create ss e y d))"
    and session_there: "quiet e \<Longrightarrow> inv d \<Longrightarrow> y \<in> set (sessions d) \<Longrightarrow> ss_GetByToken ss e (ses_Token y) d = (Inr y, d)"

context auth_stores
begin

lemma get_cases: "snd (hcs_Get store e h) = h" "fst (hcs_Get store e h) = Inr c \<Longrightarrow> view h = Some c"
  using get_only [OF prod.collapse [symmetric], of e h] by blast+

lemma on_host_get: "on_host (hcs_Get store e) s = (fst (hcs_Get store e (ap_host s)), s)"
  by (simp add: on_host_def case_prod_beta get_cases(1))

lemma on_auth_get: "on_auth (ss_GetByToken ss e t) s = (fst (ss_GetByToken ss e t (ap_db s)), s)"
  "on_auth (us_GetByUsername us e u) s = (fst (us_GetByUsername us e u (ap_db s)), s)"
  "on_auth (us_Count us e) s = (fst (us_Count us e (ap_db s)), s)"
  using find_session [OF prod.collapse [symmetric], of e t "ap_db s"] find_user [OF prod.collapse [symmetric], of e u "ap_db s"]
    count [OF prod.collapse [symmetric], of e "ap_db s"]
  by (simp_all add: on_auth_def case_prod_beta)

lemma guards:
  "combinedAuth (api_host store) (api_sessions ss) nxt e r s = (if admits store ss e r s then nxt e r s else (Unauthorized, s))"
  "v6_combinedAuth (api_host store) (Some (api_sessions ss)) nxt e r s = (if admits store ss e r s then nxt e r s else (Unauthorized, s))"
  by (auto simp: combinedAuth_def v6_combinedAuth_def check_session_def admits_def api_host_def api_sessions_def on_host_get on_auth_get
      Let_def split: sum.splits option.splits)

lemma admits_session:
  assumes "admits store ss e r s" "\<forall>c. view (ap_host s) = Some c \<longrightarrow> hc_APIKey c \<noteq> request_key r \<or> request_key r = ''''"
  shows "\<exists>y\<in>set (sessions (ap_db s)). session_cookie r = Some (ses_Token y) \<and> ses_Token y \<noteq> '''' \<and> env_now e < ses_ExpiresAt y"
proof -
  have "\<not> (request_key r \<noteq> '''' \<and> (case fst (hcs_Get store e (ap_host s)) of Inl _ \<Rightarrow> False | Inr hc \<Rightarrow> hc_APIKey hc = request_key r))"
    using assms(2) get_cases(2) [of e "ap_host s"] by (auto split: sum.splits)
  with assms(1) have "case session_cookie r of None \<Rightarrow> False
      | Some v \<Rightarrow> v \<noteq> '''' \<and> (case fst (ss_GetByToken ss e v (ap_db s)) of Inl _ \<Rightarrow> False | Inr y \<Rightarrow> env_now e < ses_ExpiresAt y)"
    unfolding admits_def by blast
  then obtain v where v: "session_cookie r = Some v" "v \<noteq> ''''"
    "case fst (ss_GetByToken ss e v (ap_db s)) of Inl _ \<Rightarrow> False | Inr y \<Rightarrow> env_now e < ses_ExpiresAt y"
    by (cases "session_cookie r") auto
  then obtain y where "fst (ss_GetByToken ss e v (ap_db s)) = Inr y" "env_now e < ses_ExpiresAt y"
    by (cases "fst (ss_GetByToken ss e v (ap_db s))") auto
  with find_session [OF prod.collapse [symmetric], of e v "ap_db s"] v show ?thesis by auto
qed

text \<open>What one call does to the tables.\<close>

lemma login_effect:
  assumes "handleLogin bc (api_users us) (api_sessions ss) rnd e r s = (a, s')" "inv (ap_db s)"
  shows "inv (ap_db s') \<and> users (ap_db s') = users (ap_db s) \<and> ap_host s' = ap_host s \<and>
    (sessions (ap_db s') = sessions (ap_db s) \<or> good_login bc (users (ap_db s)) r \<and>
      (\<exists>y. sessions (ap_db s') = sessions (ap_db s) @ [y] \<and> ses_Token y = NewSessionToken rnd \<and> ses_ExpiresAt y = ex (env_now e + SessionTTL)))"
proof (cases "read_credentials r")
  case (Inl x)
  then show ?thesis using assms by (auto simp: handleLogin_def)
next
  case (Inr body)
  show ?thesis
  proof (cases "fst (us_GetByUsername us e (cr_Username body) (ap_db s))")
    case (Inl x)
    then show ?thesis using assms Inr by (auto simp: handleLogin_def api_users_def on_auth_get)
  next
    case u: (Inr u)
    with find_user [OF prod.collapse [symmetric], of e "cr_Username body" "ap_db s"]
    have mem: "u \<in> set (users (ap_db s))" "usr_Username u = cr_Username body" by auto
    let ?y = "\<lparr>ses_Token = NewSessionToken rnd, ses_UserID = usr_ID u, ses_ExpiresAt = env_now e + SessionTTL, ses_CreatedAt = zero_time\<rparr>"
    obtain v d where c: "ss_Create ss e ?y (ap_db s) = (v, d)" by fastforce
    have run: "on_auth (ss_Create ss e ?y) s = (v, s\<lparr>ap_db := d\<rparr>)" using c by (simp add: on_auth_def)
    have h: "handleLogin bc (api_users us) (api_sessions ss) rnd e r s =
        (if CheckPassword bc (usr_PasswordHash u) (cr_Password body) then (a, s\<lparr>ap_db := d\<rparr>) else (a, s))"
      using assms(1) Inr u run
      by (auto simp: handleLogin_def api_users_def api_sessions_def on_auth_get Let_def split: if_splits sum.splits)
    show ?thesis
    proof (cases "CheckPassword bc (usr_PasswordHash u) (cr_Password body)")
      case True
      then have "s' = s\<lparr>ap_db := d\<rparr>" "good_login bc (users (ap_db s)) r" using h assms(1) Inr mem by (auto simp: good_login_def)
      then show ?thesis using create_session [OF c assms(2)] by auto
    qed (use h assms in auto)
  qed
qed

lemma forms_mode_db: "ap_db (forms_mode (api_host store) e s) = ap_db s"
  by (simp add: forms_mode_def api_host_def on_host_def Let_def case_prod_beta split: prod.split)

lemma initialize_effect:
  assumes "handleInitialize bc (api_users us) (api_host store) salt e r s = (a, s')" "inv (ap_db s)"
  shows "inv (ap_db s') \<and> sessions (ap_db s') = sessions (ap_db s) \<and>
    (users (ap_db s') = users (ap_db s) \<or> users (ap_db s) = [] \<and>
      (\<exists>u body. users (ap_db s') = [u] \<and> read_credentials r = Inr body \<and> usr_Username u = cr_Username body
        \<and> HashPassword bc salt (cr_Password body) = Some (usr_PasswordHash u)))"
proof (cases "initialize_count (api_users us) e s")
  case (Pair stop s1)
  have s1: "s1 = s" "stop = None \<Longrightarrow> users (ap_db s) = []"
    using Pair count [OF prod.collapse [symmetric], of e "ap_db s"]
    by (auto simp: initialize_count_def api_users_def on_auth_get split: sum.splits if_splits)
  show ?thesis
  proof (cases stop)
    case None
    with s1 Pair assms(1) have i: "initialize_create bc (api_users us) (api_host store) salt e r s = (a, s')" "users (ap_db s) = []"
      by (auto simp: handleInitialize_def)
    show ?thesis
    proof (cases "\<exists>body hash. read_credentials r = Inr body \<and> cr_Username body \<noteq> '''' \<and> cr_Password body \<noteq> '''' \<and>
        HashPassword bc salt (cr_Password body) = Some hash")
      case False
      then have "s' = s" using i(1) by (auto simp: initialize_create_def split: sum.splits if_splits option.splits)
      then show ?thesis using assms(2) by simp
    next
      case True
      then obtain body hash where b: "read_credentials r = Inr body" "cr_Username body \<noteq> ''''" "cr_Password body \<noteq> ''''"
        "HashPassword bc salt (cr_Password body) = Some hash" by blast
      obtain u d where c: "us_Create us e (cr_Username body) hash (ap_db s) = (u, d)" by fastforce
      have "ap_db s' = d" using i(1) b c
        by (auto simp: initialize_create_def api_users_def on_auth_def api_host_def on_host_get forms_mode_db [unfolded api_host_def] Let_def
            split: sum.splits prod.splits)
      then show ?thesis using create_user [OF c assms(2)] i(2) b by fastforce
    qed
  qed (use s1 Pair assms in \<open>simp add: handleInitialize_def\<close>)
qed

lemma logout_effect:
  assumes "handleLogout (api_sessions ss) e r s = (a, s')" "inv (ap_db s)"
  shows "inv (ap_db s') \<and> users (ap_db s') = users (ap_db s) \<and> ap_host s' = ap_host s \<and> set (sessions (ap_db s')) \<subseteq> set (sessions (ap_db s)) \<and>
    (\<forall>y\<in>set (sessions (ap_db s')). \<not> logs_out (ses_Token y) (e, Logout r))"
proof (cases "\<exists>v. session_cookie r = Some v \<and> v \<noteq> ''''")
  case True
  then obtain v where v: "session_cookie r = Some v" "v \<noteq> ''''" by blast
  obtain q d where c: "ss_DeleteByToken ss e v (ap_db s) = (q, d)" by fastforce
  have "s' = s\<lparr>ap_db := d\<rparr>" using assms(1) v c by (auto simp: handleLogout_def api_sessions_def on_auth_def)
  then show ?thesis using delete_session [OF c assms(2)] v by auto
qed (use assms in \<open>auto simp: handleLogout_def split: option.splits if_splits\<close>)

lemma settings_effect:
  "snd (v3_handleGetSettings (api_host store) e r s) = s" "snd (v6_handleGetSettings (api_host store) e r s) = s"
  by (simp_all add: v3_handleGetSettings_def v6_handleGetSettings_def handleGetSettings_def api_host_def on_host_get split: sum.split)

lemma update_db: "ap_db (snd (handleUpdateSettings werr (api_host store) (tvdb_callback deps) e r s)) = ap_db s"
  by (auto simp: handleUpdateSettings_def api_host_def on_host_def tvdb_callback_def Let_def case_prod_beta
      split: sum.splits option.splits prod.splits)

end

fun keeps_tables :: "api_call \<Rightarrow> bool" where
  "keeps_tables (Initialize salt r) = False"
| "keeps_tables (Login rnd r) = False"
| "keeps_tables (Logout r) = False"
| "keeps_tables _ = True"

definition deps_of :: "bcrypt \<Rightarrow> 'h HostConfigStore \<Rightarrow> 'd UserStore \<Rightarrow> 'd SessionStore \<Rightarrow> (string \<Rightarrow> 'w \<Rightarrow> 'w) option \<Rightarrow> ('h, 'd, 'w) api_deps" where
  "deps_of bc hcs us ss f = \<lparr>ad_bcrypt = bc, ad_HostConfig = hcs, ad_UserStore = us, ad_SessionStore = ss, ad_OnTvdbKeyChanged = f\<rparr>"

lemma deps_of_simps [simp]: "ad_bcrypt (deps_of bc hcs us ss f) = bc" "ad_HostConfig (deps_of bc hcs us ss f) = hcs"
  "ad_UserStore (deps_of bc hcs us ss f) = us" "ad_SessionStore (deps_of bc hcs us ss f) = ss" "ad_OnTvdbKeyChanged (deps_of bc hcs us ss f) = f"
  by (simp_all add: deps_of_def)

definition trace_ok :: "('d \<Rightarrow> User list) \<Rightarrow> ('d \<Rightarrow> Session list) \<Rightarrow> (int \<Rightarrow> int) \<Rightarrow> ('h, 'd, 'w) api_deps \<Rightarrow> ('h, 'd, 'w) api_state \<Rightarrow>
    (dbenv \<times> api_call) list \<Rightarrow> 'd \<Rightarrow> bool" where
  "trace_ok users sessions ex deps s0 calls d \<longleftrightarrow> length (users d) \<le> 1 \<and> (\<forall>u\<in>set (users d). founded (ad_bcrypt deps) calls u)
     \<and> (\<forall>y\<in>set (sessions d). issued deps users ex s0 calls (ses_Token y) (ses_ExpiresAt y))"

context auth_stores
begin

lemma keeps_tables_db:
  assumes "keeps_tables c"
  shows "ap_db (snd (serve (deps_of bc store us ss f) e c s)) = ap_db s"
  using assms
  by (cases c) (simp_all add: guards settings_effect v3_handleUpdateSettings_def v6_handleUpdateSettings_def update_db
      handleInitializeCheck_def api_users_def on_auth_get split: sum.split)

lemma trace_step:
    assumes deps: "deps = deps_of bc store us ss f"
    and ok: "trace_ok users sessions ex deps s0 calls (ap_db (after deps calls s0))" and inv: "inv (ap_db (after deps calls s0))"
  shows "trace_ok users sessions ex deps s0 (calls @ [(e, c)]) (ap_db (after deps (calls @ [(e, c)]) s0))
    \<and> inv (ap_db (after deps (calls @ [(e, c)]) s0))"
proof -
  let ?s = "after deps calls s0" and ?x = "(e, c)"
  obtain a s' where sv: "serve deps e c ?s = (a, s')" by fastforce
  then have s': "after deps (calls @ [?x]) s0 = s'" by (simp add: after_snoc)
  have old: "\<forall>y\<in>set (sessions (ap_db ?s)). \<not> logs_out (ses_Token y) ?x \<longrightarrow> issued deps users ex s0 (calls @ [?x]) (ses_Token y) (ses_ExpiresAt y)"
    "\<forall>u\<in>set (users (ap_db ?s)). founded bc (calls @ [?x]) u" "length (users (ap_db ?s)) \<le> 1"
    using ok unfolding trace_ok_def deps by (auto intro!: issued_snoc intro: founded_snoc)
  show ?thesis
  proof (cases "keeps_tables c")
    case True
    then have "ap_db s' = ap_db ?s" using sv keeps_tables_db [of c bc f e ?s] by (simp add: deps)
    moreover have "\<not> logs_out t ?x" for t using True by (cases c) simp_all
    ultimately show ?thesis using old inv s' by (simp add: trace_ok_def deps)
  next
    case False
    then consider salt r where "c = Initialize salt r" | rnd r where "c = Login rnd r" | r where "c = Logout r" by (cases c) simp_all
    then show ?thesis
    proof cases
      case (1 salt r)
      with sv have "handleInitialize bc (api_users us) (api_host store) salt e r ?s = (a, s')" by (simp add: deps)
      from initialize_effect [OF this inv] 1 old s' show ?thesis by (auto simp: trace_ok_def deps intro: founded_now)
    next
      case (2 rnd r)
      with sv have "handleLogin bc (api_users us) (api_sessions ss) rnd e r ?s = (a, s')" by (simp add: deps)
      from login_effect [OF this inv] 2 old s' issued_now [of deps users calls s0 r ex e rnd] show ?thesis
        by (auto simp: trace_ok_def deps)
    next
      case (3 r)
      with sv have "handleLogout (api_sessions ss) e r ?s = (a, s')" by (simp add: deps)
      from logout_effect [OF this inv] 3 old s' show ?thesis by (auto simp: trace_ok_def deps)
    qed
  qed
qed

lemma trace:
  assumes "inv (ap_db s0)" "users (ap_db s0) = []" "sessions (ap_db s0) = []"
  shows "trace_ok users sessions ex (deps_of bc store us ss f) s0 calls (ap_db (after (deps_of bc store us ss f) calls s0))
    \<and> inv (ap_db (after (deps_of bc store us ss f) calls s0))"
proof (induction calls rule: rev_induct)
  case Nil
  then show ?case using assms by (simp add: trace_ok_def)
next
  case (snoc x calls)
  then show ?case using trace_step [OF refl, of bc f s0 calls "fst x" "snd x"] by simp
qed

lemma admitted_call:
  assumes "inv (ap_db s0)" "users (ap_db s0) = []" "sessions (ap_db s0) = []"
    and adm: "admits store ss e r (after (deps_of bc store us ss f) calls s0)"
  shows "(\<exists>c. view (ap_host (after (deps_of bc store us ss f) calls s0)) = Some c \<and> hc_APIKey c = request_key r \<and> request_key r \<noteq> '''')
    \<or> (\<exists>token until. session_cookie r = Some token \<and> env_now e < until \<and> issued (deps_of bc store us ss f) users ex s0 calls token until)"
  using admits_session [OF adm] trace [OF assms(1-3), of bc f calls] unfolding trace_ok_def by blast

end

subsection \<open>The two engines meet the contract\<close>

lemma wf_unique_insert:
  assumes "wf_table rid t" "distinct (map key (rows t))" "\<And>i. rid (mk i) = i" "unique_insert burns err key mk t = (u, t')"
  shows "wf_table rid t' \<and> distinct (map key (rows t')) \<and>
    (rows t' = rows t \<and> \<not> is_ok u \<or> rows t' = rows t @ [mk (next_id t)] \<and> u = Inr (mk (next_id t)))"
proof (cases "key (mk (next_id t)) \<in> key ` set (rows t)")
  case True
  then show ?thesis using assms wf_burnt [OF assms(1)] by (auto simp: unique_insert_def split: if_splits)
next
  case False
  have "wf_table rid (snd (sql_insert mk t))" using wf_insert assms(1,3) by blast
  then show ?thesis using False assms by (auto simp: unique_insert_def sql_insert_def)
qed

lemma first_of_distinct:
  assumes "distinct (map key xs)" "x \<in> set xs"
  shows "first_row (filter (\<lambda>y. key y = key x) xs) = Inr x"
proof -
  have "filter (\<lambda>y. key y = key x) xs = [x]" using assms by (induction xs) (auto simp: filter_empty_conv image_iff)
  then show ?thesis by (simp add: first_row_def)
qed

lemma rowOr_read:
  assumes "rowOr none g (stmt e name (\<lambda>s. (first_row (filter P (xs s)), s))) d = (u, d')"
  shows "d' = d \<and> (\<forall>y. u = Inr y \<longrightarrow> (\<exists>x\<in>set (xs d). P x \<and> y = g x))"
proof (cases "filter P (xs d)")
  case Nil
  with assms show ?thesis by (auto simp: rowOr_def stmt_def first_row_def split: option.splits)
next
  case (Cons x ys)
  then have "x \<in> set (filter P (xs d))" by simp
  then have "x \<in> set (xs d)" "P x" by simp_all
  with Cons assms show ?thesis by (auto simp: rowOr_def stmt_def first_row_def split: option.splits)
qed

lemma on_users_one: "on_users (sql_one P) = (\<lambda>s. (first_row (filter P (rows (sa_users s))), s))"
  "on_pg_users (sql_one Q) = (\<lambda>t. (first_row (filter Q (rows (pa_users t))), t))"
  by (auto simp: on_users_def on_pg_users_def sql_one_def)

definition sq_auth_inv :: "sqlite_auth \<Rightarrow> bool" where
  "sq_auth_inv d \<longleftrightarrow> wf_table uq_ID (sa_users d) \<and> distinct (map uq_Username (rows (sa_users d))) \<and> distinct (map nq_Token (sa_sessions d))"

definition sq_users :: "sqlite_auth \<Rightarrow> User list" where
  "sq_users d = map userFromSqlite (rows (sa_users d))"

definition sq_sessions :: "sqlite_auth \<Rightarrow> Session list" where
  "sq_sessions d = map sessionFromSqlite (sa_sessions d)"

definition sq_expiry :: "(int \<Rightarrow> int) \<Rightarrow> int \<Rightarrow> int" where
  "sq_expiry zone t = sq_gran (t + zone t)"

lemma userFromSqlite_simps [simp]: "usr_ID (userFromSqlite r) = uq_ID r" "usr_Username (userFromSqlite r) = uq_Username r"
  "usr_PasswordHash (userFromSqlite r) = uq_PasswordHash r"
  by (simp_all add: userFromSqlite_def)

lemma sessionFromSqlite_simps [simp]: "ses_Token (sessionFromSqlite r) = nq_Token r" "ses_UserID (sessionFromSqlite r) = nq_UserID r"
  "ses_ExpiresAt (sessionFromSqlite r) = parseSqliteTime (nq_ExpiresAt r)"
  by (simp_all add: sessionFromSqlite_def)

lemma local_expiry: "parseSqliteTime (local_format zone t) = sq_expiry zone t"
  by (simp add: parseSqliteTime_def local_format_def sq_expiry_def sq_gran_def)

lemmas sq_auth_defs = sqliteUsers_def sqliteSessions_def sqliteUsers_Create_def sqliteUsers_GetByUsername_def sqliteUsers_Count_def
  sqliteSessions_Create_def sqliteSessions_GetByToken_def sqliteSessions_DeleteByToken_def

lemma sq_create_user:
  assumes "sqliteUsers_Create e name h d = (u, d')" "sq_auth_inv d"
  shows "sq_auth_inv d' \<and> sq_sessions d' = sq_sessions d \<and> (sq_users d' = sq_users d \<and> \<not> is_ok u \<or>
    (\<exists>x. sq_users d' = sq_users d @ [x] \<and> usr_Username x = name \<and> usr_PasswordHash x = h))"
proof -
  let ?mk = "\<lambda>i. \<lparr>uq_ID = i, uq_Username = name, uq_PasswordHash = h, uq_CreatedAt = sqlite_format (env_now e), uq_UpdatedAt = sqlite_format (env_now e)\<rparr>"
  obtain q t where i: "unique_insert False (sqlite_unique ''users.username'') uq_Username ?mk (sa_users d) = (q, t)" by fastforce
  have "d' = d \<and> \<not> is_ok u \<or> d' = d\<lparr>sa_users := t\<rparr> \<and> (is_ok u \<longrightarrow> is_ok q)"
    using assms(1) i by (auto simp: sqliteUsers_Create_def SQLitePool_Write.simps stmt_def on_users_def mapA_def
        split: write_outcome.splits option.splits sum.splits prod.splits)
  then show ?thesis using assms(2) wf_unique_insert [of uq_ID "sa_users d" uq_Username ?mk, OF _ _ _ i]
    by (auto simp: sq_auth_inv_def sq_users_def sq_sessions_def)
qed

lemma sq_create_session:
  assumes "sqliteSessions_Create zone e x d = (v, d')" "sq_auth_inv d"
  shows "sq_auth_inv d' \<and> sq_users d' = sq_users d \<and> (sq_sessions d' = sq_sessions d \<and> \<not> is_ok v \<or>
    (\<exists>y. sq_sessions d' = sq_sessions d @ [y] \<and> ses_Token y = ses_Token x \<and> ses_UserID y = ses_UserID x \<and>
      ses_ExpiresAt y = sq_expiry zone (ses_ExpiresAt x)))"
  using assms by (auto simp: sqliteSessions_Create_def SQLitePool_Write.simps stmt_def insert_session_def sq_auth_inv_def sq_users_def
      sq_sessions_def local_expiry split: write_outcome.splits option.splits if_splits)

interpretation sqauth: auth_stores sqliteHostConfig "map_option hostFromSqlite" "\<lambda>d. d" sqliteUsers "sqliteSessions zone" sq_users sq_sessions
  "sq_expiry zone" sq_auth_inv for zone
proof unfold_locales
  fix e d k d' name u h t q x v y z
  show "us_Count sqliteUsers e d = (k, d') \<Longrightarrow> d' = d \<and> (\<forall>m. k = Inr m \<longrightarrow> m = int (length (sq_users d)))"
    by (auto simp: sq_auth_defs stmt_def sq_users_def split: option.splits)
  show "us_GetByUsername sqliteUsers e name d = (u, d') \<Longrightarrow> d' = d \<and> (\<forall>x. u = Inr x \<longrightarrow> x \<in> set (sq_users d) \<and> usr_Username x = name)"
    using rowOr_read [of ErrUserNotFound userFromSqlite e _ _ "\<lambda>s. rows (sa_users s)"] by (fastforce simp: sq_auth_defs on_users_one sq_users_def)
  show "us_Create sqliteUsers e name h d = (u, d') \<Longrightarrow> sq_auth_inv d \<Longrightarrow> sq_auth_inv d' \<and> sq_sessions d' = sq_sessions d \<and>
    (sq_users d' = sq_users d \<and> \<not> is_ok u \<or> (\<exists>x. sq_users d' = sq_users d @ [x] \<and> usr_Username x = name \<and> usr_PasswordHash x = h))"
    using sq_create_user by (simp add: sqliteUsers_def)
  show "ss_GetByToken (sqliteSessions zone) e t d = (q, d') \<Longrightarrow> d' = d \<and> (\<forall>y. q = Inr y \<longrightarrow> y \<in> set (sq_sessions d) \<and> ses_Token y = t)"
    using rowOr_read [of ErrSessionExpired sessionFromSqlite e _ _ sa_sessions] by (fastforce simp: sq_auth_defs sq_sessions_def)
  show "ss_Create (sqliteSessions zone) e x d = (v, d') \<Longrightarrow> sq_auth_inv d \<Longrightarrow> sq_auth_inv d' \<and> sq_users d' = sq_users d \<and>
    (sq_sessions d' = sq_sessions d \<and> \<not> is_ok v \<or> (\<exists>y. sq_sessions d' = sq_sessions d @ [y] \<and> ses_Token y = ses_Token x \<and>
      ses_UserID y = ses_UserID x \<and> ses_ExpiresAt y = sq_expiry zone (ses_ExpiresAt x)))"
    using sq_create_session by (simp add: sqliteSessions_def)
  show "ss_DeleteByToken (sqliteSessions zone) e t d = (v, d') \<Longrightarrow> sq_auth_inv d \<Longrightarrow> sq_auth_inv d' \<and> sq_users d' = sq_users d \<and>
    (\<not> quiet e \<and> sq_sessions d' = sq_sessions d \<or> sq_sessions d' = filter (\<lambda>y. ses_Token y \<noteq> t) (sq_sessions d))"
    by (auto simp: sq_auth_defs SQLitePool_Write.simps stmt_def sq_auth_inv_def sq_users_def sq_sessions_def distinct_map_filter filter_map o_def
        split: write_outcome.splits option.splits)
  show "quiet e \<Longrightarrow> sq_auth_inv d \<Longrightarrow> z \<in> set (sq_users d) \<Longrightarrow> us_GetByUsername sqliteUsers e (usr_Username z) d = (Inr z, d)"
    using first_of_distinct by (fastforce simp: sq_auth_defs rowOr_def on_users_one sq_users_def sq_auth_inv_def)
  show "quiet e \<Longrightarrow> sq_auth_inv d \<Longrightarrow> ses_Token y \<notin> ses_Token ` set (sq_sessions d) \<Longrightarrow> ses_UserID y \<in> usr_ID ` set (sq_users d) \<Longrightarrow>
      int32_range (ses_UserID y) \<Longrightarrow> is_ok (fst (ss_Create (sqliteSessions zone) e y d))"
    by (auto simp: sq_auth_defs insert_session_def sq_sessions_def sq_users_def image_iff)
  show "quiet e \<Longrightarrow> sq_auth_inv d \<Longrightarrow> y \<in> set (sq_sessions d) \<Longrightarrow> ss_GetByToken (sqliteSessions zone) e (ses_Token y) d = (Inr y, d)"
    using first_of_distinct by (fastforce simp: sq_auth_defs rowOr_def sq_sessions_def sq_auth_inv_def)
qed

definition pg_auth_inv :: "postgres_auth \<Rightarrow> bool" where
  "pg_auth_inv d \<longleftrightarrow> wf_table ux_ID (pa_users d) \<and> distinct (map ux_Username (rows (pa_users d))) \<and> distinct (map nx_Token (pa_sessions d))"

definition pg_users :: "postgres_auth \<Rightarrow> User list" where
  "pg_users d = map userFromPg (rows (pa_users d))"

definition pg_sessions :: "postgres_auth \<Rightarrow> Session list" where
  "pg_sessions d = map sessionFromPg (pa_sessions d)"

lemma userFromPg_simps [simp]: "usr_ID (userFromPg r) = ux_ID r" "usr_Username (userFromPg r) = ux_Username r"
  "usr_PasswordHash (userFromPg r) = ux_PasswordHash r"
  by (simp_all add: userFromPg_def)

lemma sessionFromPg_simps [simp]: "ses_Token (sessionFromPg r) = nx_Token r" "ses_UserID (sessionFromPg r) = nx_UserID r"
  "ses_ExpiresAt (sessionFromPg r) = pg_time (nx_ExpiresAt r)"
  by (simp_all add: sessionFromPg_def)

lemmas pg_auth_defs = postgresUsers_def postgresSessions_def postgresUsers_Create_def postgresUsers_GetByUsername_def postgresUsers_Count_def
  postgresSessions_Create_def postgresSessions_GetByToken_def postgresSessions_DeleteByToken_def

lemma pg_create_user:
  assumes "postgresUsers_Create e name h d = (u, d')" "pg_auth_inv d"
  shows "pg_auth_inv d' \<and> pg_sessions d' = pg_sessions d \<and> (pg_users d' = pg_users d \<and> \<not> is_ok u \<or>
    (\<exists>x. pg_users d' = pg_users d @ [x] \<and> usr_Username x = name \<and> usr_PasswordHash x = h))"
proof -
  let ?mk = "\<lambda>i. \<lparr>ux_ID = i, ux_Username = name, ux_PasswordHash = h, ux_CreatedAt = pg_micros (env_now e), ux_UpdatedAt = pg_micros (env_now e)\<rparr>"
  obtain q t where i: "unique_insert True (pg_unique ''users_username_key'') ux_Username ?mk (pa_users d) = (q, t)" by fastforce
  have "d' = d \<and> \<not> is_ok u \<or> d' = d\<lparr>pa_users := t\<rparr> \<and> (is_ok u \<longrightarrow> is_ok q)"
    using assms(1) i by (auto simp: postgresUsers_Create_def stmt_def on_pg_users_def mapA_def split: option.splits sum.splits prod.splits)
  then show ?thesis using assms(2) wf_unique_insert [of ux_ID "pa_users d" ux_Username ?mk, OF _ _ _ i]
    by (auto simp: pg_auth_inv_def pg_users_def pg_sessions_def)
qed

lemma pg_create_session:
  assumes "postgresSessions_Create e x d = (v, d')" "pg_auth_inv d"
  shows "pg_auth_inv d' \<and> pg_users d' = pg_users d \<and> (pg_sessions d' = pg_sessions d \<and> \<not> is_ok v \<or>
    (\<exists>y. pg_sessions d' = pg_sessions d @ [y] \<and> ses_Token y = ses_Token x \<and> ses_UserID y = ses_UserID x \<and>
      ses_ExpiresAt y = pg_gran (ses_ExpiresAt x)))"
  using assms by (auto simp: postgresSessions_Create_def stmt_def pg_auth_inv_def pg_users_def pg_sessions_def split: option.splits if_splits)

interpretation pgauth: auth_stores postgresHostConfig "map_option hostFromPg" wrap32 postgresUsers postgresSessions pg_users pg_sessions
  pg_gran pg_auth_inv
proof unfold_locales
  fix e d k d' name u h t q x v y z
  show "us_Count postgresUsers e d = (k, d') \<Longrightarrow> d' = d \<and> (\<forall>m. k = Inr m \<longrightarrow> m = int (length (pg_users d)))"
    by (auto simp: pg_auth_defs stmt_def pg_users_def split: option.splits)
  show "us_GetByUsername postgresUsers e name d = (u, d') \<Longrightarrow> d' = d \<and> (\<forall>x. u = Inr x \<longrightarrow> x \<in> set (pg_users d) \<and> usr_Username x = name)"
    using rowOr_read [of ErrUserNotFound userFromPg e _ _ "\<lambda>s. rows (pa_users s)"] by (fastforce simp: pg_auth_defs on_users_one pg_users_def)
  show "us_Create postgresUsers e name h d = (u, d') \<Longrightarrow> pg_auth_inv d \<Longrightarrow> pg_auth_inv d' \<and> pg_sessions d' = pg_sessions d \<and>
    (pg_users d' = pg_users d \<and> \<not> is_ok u \<or> (\<exists>x. pg_users d' = pg_users d @ [x] \<and> usr_Username x = name \<and> usr_PasswordHash x = h))"
    using pg_create_user by (simp add: postgresUsers_def)
  show "ss_GetByToken postgresSessions e t d = (q, d') \<Longrightarrow> d' = d \<and> (\<forall>y. q = Inr y \<longrightarrow> y \<in> set (pg_sessions d) \<and> ses_Token y = t)"
    using rowOr_read [of ErrSessionExpired sessionFromPg e _ _ pa_sessions] by (fastforce simp: pg_auth_defs pg_sessions_def)
  show "ss_Create postgresSessions e x d = (v, d') \<Longrightarrow> pg_auth_inv d \<Longrightarrow> pg_auth_inv d' \<and> pg_users d' = pg_users d \<and>
    (pg_sessions d' = pg_sessions d \<and> \<not> is_ok v \<or> (\<exists>y. pg_sessions d' = pg_sessions d @ [y] \<and> ses_Token y = ses_Token x \<and>
      ses_UserID y = ses_UserID x \<and> ses_ExpiresAt y = pg_gran (ses_ExpiresAt x)))"
    using pg_create_session by (simp add: postgresSessions_def)
  show "ss_DeleteByToken postgresSessions e t d = (v, d') \<Longrightarrow> pg_auth_inv d \<Longrightarrow> pg_auth_inv d' \<and> pg_users d' = pg_users d \<and>
    (\<not> quiet e \<and> pg_sessions d' = pg_sessions d \<or> pg_sessions d' = filter (\<lambda>y. ses_Token y \<noteq> t) (pg_sessions d))"
    by (auto simp: pg_auth_defs stmt_def pg_auth_inv_def pg_users_def pg_sessions_def distinct_map_filter filter_map o_def
        split: option.splits)
  show "quiet e \<Longrightarrow> pg_auth_inv d \<Longrightarrow> z \<in> set (pg_users d) \<Longrightarrow> us_GetByUsername postgresUsers e (usr_Username z) d = (Inr z, d)"
    using first_of_distinct by (fastforce simp: pg_auth_defs rowOr_def on_users_one pg_users_def pg_auth_inv_def)
  show "quiet e \<Longrightarrow> pg_auth_inv d \<Longrightarrow> ses_Token y \<notin> ses_Token ` set (pg_sessions d) \<Longrightarrow> ses_UserID y \<in> usr_ID ` set (pg_users d) \<Longrightarrow>
      int32_range (ses_UserID y) \<Longrightarrow> is_ok (fst (ss_Create postgresSessions e y d))"
    by (auto simp: pg_auth_defs pg_sessions_def pg_users_def image_iff)
  show "quiet e \<Longrightarrow> pg_auth_inv d \<Longrightarrow> y \<in> set (pg_sessions d) \<Longrightarrow> ss_GetByToken postgresSessions e (ses_Token y) d = (Inr y, d)"
    using first_of_distinct by (fastforce simp: pg_auth_defs rowOr_def pg_sessions_def pg_auth_inv_def)
qed

subsection \<open>Properties of the guard\<close>

context auth_stores
begin

lemma login_admits:
  assumes "inv (ap_db s)" "quiet e" "read_credentials r = Inr body" "u \<in> set (users (ap_db s))" "usr_Username u = cr_Username body"
    "CheckPassword bc (usr_PasswordHash u) (cr_Password body)" "int32_range (usr_ID u)"
    "NewSessionToken rnd \<notin> ses_Token ` set (sessions (ap_db s))" "rnd \<noteq> ''''"
    and later: "quiet e'" "session_cookie r' = Some (NewSessionToken rnd)" "request_key r' = ''''"
    and run: "handleLogin bc (api_users us) (api_sessions ss) rnd e r s = (a, s')"
  shows "rs_Status a = 200 \<and> (admits store ss e' r' s' \<longleftrightarrow> env_now e' < ex (env_now e + SessionTTL))"
proof -
  let ?y = "\<lparr>ses_Token = NewSessionToken rnd, ses_UserID = usr_ID u, ses_ExpiresAt = env_now e + SessionTTL, ses_CreatedAt = zero_time\<rparr>"
  obtain v d where c: "ss_Create ss e ?y (ap_db s) = (v, d)" by fastforce
  have "is_ok v" using session_new [OF assms(2,1), of ?y] assms(4,7,8) c by simp
  then have ok: "v = Inr ()" by (cases v) simp_all
  have "on_auth (ss_Create ss e ?y) s = (v, s\<lparr>ap_db := d\<rparr>)" using c by (simp add: on_auth_def)
  moreover have "us_GetByUsername us e (cr_Username body) (ap_db s) = (Inr u, ap_db s)"
    using user_there [OF assms(2,1,4)] assms(5) by simp
  ultimately have ended: "rs_Status a = 200" "s' = s\<lparr>ap_db := d\<rparr>"
    using run assms(3,6) ok by (auto simp: handleLogin_def api_users_def api_sessions_def on_auth_get Let_def writeJSON_def)
  obtain y where y: "sessions d = sessions (ap_db s) @ [y]" "ses_Token y = NewSessionToken rnd" "ses_ExpiresAt y = ex (env_now e + SessionTTL)" "inv d"
    using create_session [OF c assms(1)] ok by auto
  then have "ss_GetByToken ss e' (NewSessionToken rnd) d = (Inr y, d)"
    using session_there [OF later(1), of d y] by simp
  moreover have "NewSessionToken rnd \<noteq> ''''" using assms(9) by (cases rnd) (simp_all add: NewSessionToken_def)
  ultimately show ?thesis using ended later y by (simp add: admits_def)
qed

end

text \<open>C29: However the calls of the API went before, and whatever statements failed, a request passes the guard of either version of the API only
  with the API key of the host configuration or with the cookie of a session that is alive: the token was drawn by an earlier login with
  the right password of a user there was then, its time is not over, and no logout with it has reached the table since.\<close>

theorem api_access_sound:
  fixes s0 :: "(SqHostConfig option, sqlite_auth, 'w) api_state"
  assumes "sa_users (ap_db s0) = empty_table" "sa_sessions (ap_db s0) = []"
    and deps: "deps = deps_of bc sqliteHostConfig sqliteUsers (sqliteSessions zone) f" and s: "s = after deps calls s0"
    and passed: "combinedAuth (api_host sqliteHostConfig) (api_sessions (sqliteSessions zone)) nxt e r s \<noteq> (Unauthorized, s) \<or>
      v6_combinedAuth (api_host sqliteHostConfig) (Some (api_sessions (sqliteSessions zone))) nxt e r s \<noteq> (Unauthorized, s)"
  shows "(\<exists>c. ap_host s = Some c \<and> hq_ApiKey c = request_key r \<and> request_key r \<noteq> '''')
    \<or> (\<exists>token until. session_cookie r = Some token \<and> env_now e < until \<and> issued deps sq_users (sq_expiry zone) s0 calls token until)"
proof -
  have "admits sqliteHostConfig (sqliteSessions zone) e r s" using passed by (auto simp: sqauth.guards split: if_splits)
  moreover have "sq_auth_inv (ap_db s0)" "sq_users (ap_db s0) = []" "sq_sessions (ap_db s0) = []"
    using assms(1,2) by (simp_all add: sq_auth_inv_def sq_users_def sq_sessions_def empty_table_def wf_table_def)
  ultimately show ?thesis using sqauth.admitted_call [of s0 zone e r bc f calls] deps s by (auto simp: hostFromSqlite_def)
qed

definition post_request :: "string \<Rightarrow> Request" where
  "post_request body = \<lparr>rq_Method = ''POST'', rq_Path = ''/'', rq_Header = (\<lambda>_. ''''), rq_Query = (\<lambda>_. ''''), rq_Cookie = (\<lambda>_. None),
     rq_Body = body, rq_RemoteAddr = ''''\<rparr>"

definition cookie_request :: "string \<Rightarrow> Request" where
  "cookie_request t = (post_request '''')\<lparr>rq_Cookie := (\<lambda>n. if n = ''sonarr2_session'' then Some t else None)\<rparr>"

definition credentials_request :: "string \<Rightarrow> string \<Rightarrow> Request" where
  "credentials_request name pw = post_request (print_json (JObj [(''username'', JStr name), (''password'', JStr pw)]))"

definition example_bcrypt :: bcrypt where
  "example_bcrypt = \<lparr>bc_Generate = (\<lambda>salt p. if length p \<le> 72 then Some p else None), bc_Compare = (\<lambda>h p. h = p)\<rparr>"

definition no_zone :: "int \<Rightarrow> int" where "no_zone t = 0"

definition example_deps :: "(int \<Rightarrow> int) \<Rightarrow> (SqHostConfig option, sqlite_auth, unit) api_deps" where
  "example_deps zone = deps_of example_bcrypt sqliteHostConfig sqliteUsers (sqliteSessions zone) None"

definition example_start :: "(SqHostConfig option, sqlite_auth, unit) api_state" where
  "example_start = \<lparr>ap_host = None, ap_db = \<lparr>sa_users = empty_table, sa_sessions = []\<rparr>, ap_live = ()\<rparr>"

definition founding_calls :: "(dbenv \<times> api_call) list" where
  "founding_calls = [(quiet_at 0, Initialize '''' (credentials_request ''ann'' ''pw'')), (quiet_at 0, Login ''r'' (credentials_request ''ann'' ''pw''))]"

lemma read_credentials_request:
  assumes "valid_utf8 name" "valid_utf8 pw"
  shows "read_credentials (credentials_request name pw) = Inr \<lparr>cr_Username = name, cr_Password = pw\<rparr>"
proof -
  have k: "valid_utf8 ''username''" "valid_utf8 ''password''" by (rule valid_utf8_ascii, simp add: char_code_def)+
  have "doc_ok maxNestingDepth (JObj [(''username'', JStr name), (''password'', JStr pw)])"
    unfolding maxNestingDepth_def using assms k by (simp del: valid_utf8.simps)
  from Decode_print [OF this, of "[]" "dec_struct credentials_fields" "\<lparr>cr_Username = '''', cr_Password = ''''\<rparr>"] show ?thesis
    by (simp add: read_credentials_def credentials_request_def post_request_def num_end_def dec_struct_def credentials_fields_def
        field_for_def fld_def dec_string_def)
qed

lemma example_credentials: "read_credentials (credentials_request ''ann'' ''pw'') = Inr \<lparr>cr_Username = ''ann'', cr_Password = ''pw''\<rparr>"
  by (rule read_credentials_request; rule valid_utf8_ascii; simp add: char_code_def)

lemmas auth_eval = serve.simps handleInitialize_def initialize_count_def initialize_create_def handleLogin_def forms_mode_def
  api_users_def api_sessions_def api_host_def on_auth_def on_host_def on_users_def sqliteUsers_def sqliteUsers_Create_def sqliteUsers_Count_def
  sqliteUsers_GetByUsername_def sqliteSessions_def sqliteSessions_Create_def sqliteSessions_GetByToken_def unique_insert_def insert_session_def sql_insert_def sql_one_def
  mapA_def rowOr_def host_defs rowA_def first_row_def HashPassword_def CheckPassword_def example_credentials example_bcrypt_def empty_table_def

lemma founded_state:
  "\<exists>h. after (example_deps zone) founding_calls example_start = \<lparr>ap_host = Some h,
     ap_db = \<lparr>sa_users = \<lparr>rows = [\<lparr>uq_ID = 1, uq_Username = ''ann'', uq_PasswordHash = ''pw'', uq_CreatedAt = 0, uq_UpdatedAt = 0\<rparr>], next_id = 2\<rparr>,
       sa_sessions = [\<lparr>nq_Token = NewSessionToken ''r'', nq_UserID = 1, nq_ExpiresAt = local_format zone SessionTTL, nq_CreatedAt = 0\<rparr>]\<rparr>, ap_live = ()\<rparr>"
  by (simp add: after_def founding_calls_def example_deps_def example_start_def auth_eval sqlite_format_def userFromSqlite_def Let_def)

theorem api_access_sound_witness:
  "\<exists>token until. session_cookie (cookie_request (NewSessionToken ''r'')) = Some token \<and> 5 < until \<and>
     issued (example_deps no_zone) sq_users (sq_expiry no_zone) example_start founding_calls token until"
proof -
  let ?s = "after (example_deps no_zone) founding_calls example_start" and ?r = "cookie_request (NewSessionToken ''r'')"
  let ?nxt = "\<lambda>e r s. (message_answer 200 '''', s)"
  have req: "request_key ?r = ''''" "session_cookie ?r = Some (NewSessionToken ''r'')"
    by (simp_all add: request_key_def session_cookie_def cookie_request_def post_request_def)
  have start: "sa_users (ap_db example_start) = empty_table" "sa_sessions (ap_db example_start) = []"
    by (simp_all add: example_start_def)
  obtain h where s: "?s = \<lparr>ap_host = Some h,
     ap_db = \<lparr>sa_users = \<lparr>rows = [\<lparr>uq_ID = 1, uq_Username = ''ann'', uq_PasswordHash = ''pw'', uq_CreatedAt = 0, uq_UpdatedAt = 0\<rparr>], next_id = 2\<rparr>,
       sa_sessions = [\<lparr>nq_Token = NewSessionToken ''r'', nq_UserID = 1, nq_ExpiresAt = local_format no_zone SessionTTL, nq_CreatedAt = 0\<rparr>]\<rparr>, ap_live = ()\<rparr>"
    using founded_state [of no_zone] by blast
  have "NewSessionToken ''r'' \<noteq> ''''" by (simp add: NewSessionToken_def)
  then have "combinedAuth (api_host sqliteHostConfig) (api_sessions (sqliteSessions no_zone)) ?nxt (quiet_at 5) ?r ?s \<noteq> (Unauthorized, ?s)"
    using req unfolding s
    by (simp add: combinedAuth_def check_session_def auth_eval sessionFromSqlite_def parseSqliteTime_def local_format_def no_zone_def
        SessionTTL_def second_ns_def message_answer_def writeJSON_def Unauthorized_def)
  from api_access_sound [OF start example_deps_def refl disjI1 [OF this]] req show ?thesis by auto
qed

text \<open>However the calls of the API went, one after the other and whatever statements failed, there is at most one account, on either engine,
  and it was made by a call of the initialisation with the name and the hash of the password of its body.\<close>

theorem single_account:
  fixes s0 :: "(SqHostConfig option, sqlite_auth, 'w) api_state" and p0 :: "(PgHostConfig option, postgres_auth, 'w) api_state"
  assumes "sa_users (ap_db s0) = empty_table" "sa_sessions (ap_db s0) = []" "pa_users (ap_db p0) = empty_table" "pa_sessions (ap_db p0) = []"
  shows "length (sq_users (ap_db (after (deps_of bc sqliteHostConfig sqliteUsers (sqliteSessions zone) f) calls s0))) \<le> 1
    \<and> list_all (founded bc calls) (sq_users (ap_db (after (deps_of bc sqliteHostConfig sqliteUsers (sqliteSessions zone) f) calls s0)))
    \<and> length (pg_users (ap_db (after (deps_of bc postgresHostConfig postgresUsers postgresSessions f) calls p0))) \<le> 1
    \<and> list_all (founded bc calls) (pg_users (ap_db (after (deps_of bc postgresHostConfig postgresUsers postgresSessions f) calls p0)))"
proof -
  have "sq_auth_inv (ap_db s0)" "sq_users (ap_db s0) = []" "sq_sessions (ap_db s0) = []"
    "pg_auth_inv (ap_db p0)" "pg_users (ap_db p0) = []" "pg_sessions (ap_db p0) = []"
    using assms by (simp_all add: sq_auth_inv_def sq_users_def sq_sessions_def pg_auth_inv_def pg_users_def pg_sessions_def empty_table_def wf_table_def)
  then show ?thesis using sqauth.trace [of s0 zone bc f calls] pgauth.trace [of p0 bc f calls] by (simp add: trace_ok_def list_all_iff)
qed

definition example_pg_start :: "(PgHostConfig option, postgres_auth, unit) api_state" where
  "example_pg_start = \<lparr>ap_host = None, ap_db = \<lparr>pa_users = empty_table, pa_sessions = []\<rparr>, ap_live = ()\<rparr>"

theorem single_account_witness:
  "list_all (founded example_bcrypt founding_calls) (sq_users (ap_db (after (example_deps no_zone) founding_calls example_start)))
   \<and> map usr_Username (sq_users (ap_db (after (example_deps no_zone) founding_calls example_start))) = [''ann'']"
proof -
  have "sa_users (ap_db example_start) = empty_table" "sa_sessions (ap_db example_start) = []"
    "pa_users (ap_db example_pg_start) = empty_table" "pa_sessions (ap_db example_pg_start) = []"
    by (simp_all add: example_start_def example_pg_start_def)
  from single_account [OF this, of example_bcrypt no_zone None founding_calls] founded_state [of no_zone] show ?thesis
    by (auto simp: example_deps_def sq_users_def)
qed

text \<open>C30: A login with the right password on SQLite succeeds, and its cookie alone opens the guard exactly until seven days later, shifted by the offset of
  the local time zone: the expiry is written in local time and read as UTC, so west of Greenwich sessions end early and east of it they last longer.\<close>

theorem sqlite_session_lifetime:
  assumes "sq_auth_inv (ap_db s)" "u \<in> set (sq_users (ap_db s))" "int32_range (usr_ID u)"
    and "read_credentials r = Inr body" "usr_Username u = cr_Username body" "CheckPassword bc (usr_PasswordHash u) (cr_Password body)"
    and "NewSessionToken rnd \<notin> ses_Token ` set (sq_sessions (ap_db s))" "rnd \<noteq> ''''"
    and "quiet e" "quiet e'" "session_cookie r' = Some (NewSessionToken rnd)" "request_key r' = ''''"
    and run: "handleLogin bc (api_users sqliteUsers) (api_sessions (sqliteSessions zone)) rnd e r s = (a, s')"
  shows "rs_Status a = 200 \<and> combinedAuth (api_host sqliteHostConfig) (api_sessions (sqliteSessions zone)) nxt e' r' s' =
    (if env_now e' < sq_gran (env_now e + SessionTTL + zone (env_now e + SessionTTL)) then nxt e' r' s' else (Unauthorized, s'))"
  using sqauth.login_admits [OF assms(1,9,4,2,5,6,3,7,8,10,11,12) run] by (simp add: sqauth.guards sq_expiry_def)

definition five_west :: "int \<Rightarrow> int" where "five_west t = - 5 * 3600 * second_ns"

theorem sqlite_session_lifetime_witness:
  "let (a, s') = handleLogin example_bcrypt (api_users sqliteUsers) (api_sessions (sqliteSessions five_west)) ''q'' (quiet_at 0)
     (credentials_request ''ann'' ''pw'') (after (example_deps five_west) founding_calls example_start)
   in combinedAuth (api_host sqliteHostConfig) (api_sessions (sqliteSessions five_west)) (\<lambda>e r s. (message_answer 200 '''', s))
     (quiet_at (SessionTTL - 3600 * second_ns)) (cookie_request (NewSessionToken ''q'')) s' = (Unauthorized, s')"
proof -
  let ?s = "after (example_deps five_west) founding_calls example_start" and ?r = "credentials_request ''ann'' ''pw''"
  let ?c = "cookie_request (NewSessionToken ''q'')" and ?e' = "quiet_at (SessionTTL - 3600 * second_ns)"
  let ?u = "\<lparr>usr_ID = 1, usr_Username = ''ann'', usr_PasswordHash = ''pw'', usr_CreatedAt = 0, usr_UpdatedAt = 0\<rparr>"
  have req: "request_key ?c = ''''" "session_cookie ?c = Some (NewSessionToken ''q'')"
    by (simp_all add: request_key_def session_cookie_def cookie_request_def post_request_def)
  have s: "sq_auth_inv (ap_db ?s)" "?u \<in> set (sq_users (ap_db ?s))" "NewSessionToken ''q'' \<notin> ses_Token ` set (sq_sessions (ap_db ?s))"
    using founded_state [of five_west]
    by (auto simp: sq_auth_inv_def sq_users_def sq_sessions_def wf_table_def userFromSqlite_def parseSqliteTime_def NewSessionToken_def EncodeToString_inj simp del: EncodeToString_simps)
  obtain a s' where run: "handleLogin example_bcrypt (api_users sqliteUsers) (api_sessions (sqliteSessions five_west)) ''q'' (quiet_at 0) ?r ?s = (a, s')"
    by fastforce
  have "combinedAuth (api_host sqliteHostConfig) (api_sessions (sqliteSessions five_west)) (\<lambda>e r s. (message_answer 200 '''', s)) ?e' ?c s' = (Unauthorized, s')"
    using sqlite_session_lifetime [OF s(1,2) _ example_credentials _ _ s(3) _ quiet_quiet_at(1) quiet_quiet_at(1) [of "SessionTTL - 3600 * second_ns"] req(2,1) run,
        of "\<lambda>e r s. (message_answer 200 '''', s)"]
    by (simp add: int32_range_def CheckPassword_def example_bcrypt_def five_west_def sq_gran_def SessionTTL_def second_ns_def)
  then show ?thesis using run by simp
qed

context auth_stores
begin

lemma create_answers:
  assumes "read_credentials r = Inr body" "cr_Username body \<noteq> ''''" "cr_Password body \<noteq> ''''" "HashPassword bc salt (cr_Password body) = Some h"
    and "us_Create us e (cr_Username body) h (ap_db s) = (Inr u, d)"
    and "initialize_create bc (api_users us) (api_host store) salt e r s = (a, s')"
  shows "rs_Status a = 201 \<and> ap_db s' = d"
  using assms by (auto simp: initialize_create_def api_users_def on_auth_def api_host_def on_host_get forms_mode_db [unfolded api_host_def] Let_def writeJSON_def)

end

lemma sqliteUsers_Create_new:
  assumes "quiet e" "name \<notin> uq_Username ` set (rows (sa_users d))"
  shows "\<exists>u d'. us_Create sqliteUsers e name h d = (Inr u, d') \<and>
    map uq_Username (rows (sa_users d')) = map uq_Username (rows (sa_users d)) @ [name]"
  using assms by (simp add: sqliteUsers_def sqliteUsers_Create_def on_users_def unique_insert_def sql_insert_def mapA_def)



text \<open>When reading the host configuration fails during the initialisation, the handler writes back an empty one: the API key is gone.\<close>

lemma initialize_wipes_key:
  assumes "env_fault e ''GetHostConfig'' = Some x" "env_fault e ''UpsertHostConfig'' = None" "env_write e = Written"
  shows "\<exists>h. ap_host (forms_mode (api_host sqliteHostConfig) e s) = Some h \<and> hq_ApiKey h = ''''"
  using assms by (simp add: forms_mode_def api_host_def on_host_def host_defs rowA_def stmt_def SQLitePool_Write.simps zero_HostConfig_def)

end
