(* ===== verification/Blocklist.thy ===== *)
theory Blocklist
  imports ProfileStores DecisionEngine Keyed_Store
begin

section \<open>The blocklist\<close>

text \<open>
  internal/blocklist: the SQLite and the Postgres store of releases that must not be grabbed again. The episode ids are JSON
  in their column; quality and languages are JSON that the store passes through. SQLite keeps a time as the text its driver
  writes, and sorts by that text: \<open>ts\<close> is the text of an instant, a parameter of the store. Pages are cut out by LIMIT and OFFSET, whose
  arguments the store computes in machine integers.
\<close>

subsection \<open>Data\<close>

record BlocklistPage =
  pg_Page :: int
  pg_PageSize :: int
  pg_TotalRecords :: int
  pg_Records :: "BlocklistEntry list"

record 's BlocklistStore =
  bs_Create :: "dbenv \<Rightarrow> BlocklistEntry \<Rightarrow> ('s, BlocklistEntry) act"
  bs_GetByID :: "dbenv \<Rightarrow> int \<Rightarrow> ('s, BlocklistEntry) act"
  bs_List :: "dbenv \<Rightarrow> int \<Rightarrow> int \<Rightarrow> ('s, BlocklistPage) act"
  bs_ListBySeries :: "dbenv \<Rightarrow> int \<Rightarrow> ('s, BlocklistEntry list) act"
  bs_Delete :: "dbenv \<Rightarrow> int \<Rightarrow> ('s, unit) act"
  bs_DeleteMany :: "dbenv \<Rightarrow> int list \<Rightarrow> ('s, unit) act"
  bs_DeleteBySeries :: "dbenv \<Rightarrow> int \<Rightarrow> ('s, unit) act"
  bs_Clear :: "dbenv \<Rightarrow> ('s, unit) act"

definition ErrBlocklistNotFound :: store_error where
  "ErrBlocklistNotFound = ErrNotFound ''blocklist: not found''"

text \<open>\<open>ORDER BY k DESC\<close>; rows of the same key stay in the order of the table.\<close>

definition sort_desc :: "('r \<Rightarrow> 'k::linorder) \<Rightarrow> 'r list \<Rightarrow> 'r list" where
  "sort_desc k xs = rev (sort_key k (rev xs))"

definition page_size :: "int \<Rightarrow> int" where
  "page_size n = (if n < 1 then 20 else n)"

definition page_number :: "int \<Rightarrow> int" where
  "page_number p = (if p < 1 then 1 else p)"

text \<open>\<open>(page - 1) * pageSize\<close> in Go's int.\<close>

definition page_offset :: "int \<Rightarrow> int \<Rightarrow> int" where
  "page_offset p n = wrap64 (wrap64 (p - 1) * n)"

subsection \<open>SQLite\<close>

record SqBlocklist =
  kq_ID :: int
  kq_SeriesID :: int
  kq_EpisodeIds :: string
  kq_SourceTitle :: string
  kq_Quality :: string
  kq_Languages :: string
  kq_Date :: int
  kq_PublishedDate :: "int option"
  kq_Size :: "int option"
  kq_Protocol :: string
  kq_Indexer :: string
  kq_IndexerFlags :: int
  kq_ReleaseType :: string
  kq_Message :: string
  kq_TorrentInfoHash :: "string option"

definition jsonOrEmpty :: "string \<Rightarrow> string \<Rightarrow> string" where
  "jsonOrEmpty b fallback = (if b = '''' \<or> TrimSpace b = '''' then fallback else b)"

definition nullString :: "string \<Rightarrow> string option" where
  "nullString s = (if s = '''' then None else Some s)"

definition sqBlocklistRow :: "BlocklistEntry \<Rightarrow> int \<Rightarrow> SqBlocklist" where
  "sqBlocklistRow e i = \<lparr>kq_ID = i, kq_SeriesID = bl_SeriesID e, kq_EpisodeIds = marshal_ints (bl_EpisodeIDs e),
     kq_SourceTitle = bl_SourceTitle e, kq_Quality = jsonOrEmpty (bl_Quality e) ''{}'', kq_Languages = jsonOrEmpty (bl_Languages e) ''[]'',
     kq_Date = bl_Date e, kq_PublishedDate = bl_PublishedDate e, kq_Size = bl_Size e, kq_Protocol = bl_Protocol e, kq_Indexer = bl_Indexer e,
     kq_IndexerFlags = bl_IndexerFlags e, kq_ReleaseType = bl_ReleaseType e, kq_Message = bl_Message e,
     kq_TorrentInfoHash = nullString (bl_TorrentInfoHash e)\<rparr>"

definition entry_of_sq :: "SqBlocklist \<Rightarrow> int list \<Rightarrow> BlocklistEntry" where
  "entry_of_sq r eps = \<lparr>bl_ID = kq_ID r, bl_SeriesID = kq_SeriesID r, bl_EpisodeIDs = eps, bl_SourceTitle = kq_SourceTitle r,
     bl_Quality = kq_Quality r, bl_Languages = kq_Languages r, bl_Date = kq_Date r, bl_PublishedDate = kq_PublishedDate r,
     bl_Size = kq_Size r, bl_Protocol = kq_Protocol r, bl_Indexer = kq_Indexer r, bl_IndexerFlags = kq_IndexerFlags r,
     bl_ReleaseType = kq_ReleaseType r, bl_Message = kq_Message r,
     bl_TorrentInfoHash = (case kq_TorrentInfoHash r of None \<Rightarrow> '''' | Some h \<Rightarrow> h)\<rparr>"

definition entryFromSQLite :: "SqBlocklist \<Rightarrow> (store_error, BlocklistEntry) result" where
  "entryFromSQLite r = bindR (wrapR ''blocklist: unmarshal episodeIds'' (unmarshal_ints (kq_EpisodeIds r))) (\<lambda>eps. Inr (entry_of_sq r eps))"

definition sqlite_CreateBlocklist :: "dbenv \<Rightarrow> BlocklistEntry \<Rightarrow> (SqBlocklist table, SqBlocklist) act" where
  "sqlite_CreateBlocklist e x = stmt e ''CreateBlocklist'' (sql_insert (sqBlocklistRow x))"

definition sqlite_GetBlocklistByID :: "dbenv \<Rightarrow> int \<Rightarrow> (SqBlocklist table, SqBlocklist) act" where
  "sqlite_GetBlocklistByID e i = stmt e ''GetBlocklistByID'' (sql_one (\<lambda>r. kq_ID r = i))"

text \<open>SQLite takes a negative offset for zero and a negative limit for none.\<close>

definition sqlite_window :: "int \<Rightarrow> int \<Rightarrow> 'r list \<Rightarrow> 'r list" where
  "sqlite_window limit offset xs = (let ys = drop (nat offset) xs in if limit < 0 then ys else take (nat limit) ys)"

definition sqlite_ListBlocklist :: "(int \<Rightarrow> string) \<Rightarrow> dbenv \<Rightarrow> int \<Rightarrow> int \<Rightarrow> (SqBlocklist table, SqBlocklist list) act" where
  "sqlite_ListBlocklist ts e limit offset = stmt e ''ListBlocklist''
     (\<lambda>t. (Inr (sqlite_window limit offset (sort_desc (\<lambda>r. ts (kq_Date r)) (rows t))), t))"

definition sqlite_CountBlocklist :: "dbenv \<Rightarrow> (SqBlocklist table, int) act" where
  "sqlite_CountBlocklist e = stmt e ''CountBlocklist'' (\<lambda>t. (Inr (int (length (rows t))), t))"

definition sqlite_ListBlocklistBySeries :: "(int \<Rightarrow> string) \<Rightarrow> dbenv \<Rightarrow> int \<Rightarrow> (SqBlocklist table, SqBlocklist list) act" where
  "sqlite_ListBlocklistBySeries ts e sid = stmt e ''ListBlocklistBySeries''
     (\<lambda>t. (Inr (sort_desc (\<lambda>r. ts (kq_Date r)) (filter (\<lambda>r. kq_SeriesID r = sid) (rows t))), t))"

definition sqlite_DeleteBlocklist :: "dbenv \<Rightarrow> int \<Rightarrow> (SqBlocklist table, unit) act" where
  "sqlite_DeleteBlocklist e i = stmt e ''DeleteBlocklist'' (sql_delete (\<lambda>r. kq_ID r = i))"

definition sqlite_DeleteBlocklistBySeries :: "dbenv \<Rightarrow> int \<Rightarrow> (SqBlocklist table, unit) act" where
  "sqlite_DeleteBlocklistBySeries e sid = stmt e ''DeleteBlocklistBySeries'' (sql_delete (\<lambda>r. kq_SeriesID r = sid))"

definition sqlite_ClearBlocklist :: "dbenv \<Rightarrow> (SqBlocklist table, unit) act" where
  "sqlite_ClearBlocklist e = stmt e ''ClearBlocklist'' (sql_delete (\<lambda>_. True))"

definition sqliteBlocklist_Create :: "dbenv \<Rightarrow> BlocklistEntry \<Rightarrow> (SqBlocklist table, BlocklistEntry) act" where
  "sqliteBlocklist_Create e x =
     SQLitePool_Write e (decodeA entryFromSQLite (wrapA ''blocklist: create'' (sqlite_CreateBlocklist e x)))"

definition sqliteBlocklist_GetByID :: "dbenv \<Rightarrow> int \<Rightarrow> (SqBlocklist table, BlocklistEntry) act" where
  "sqliteBlocklist_GetByID e i = decodeA entryFromSQLite
     (rowA (Inl ErrBlocklistNotFound) ''blocklist: get by id'' (\<lambda>r. r) (sqlite_GetBlocklistByID e i))"

text \<open>A page: the rows, then the count, then the decoding.\<close>

definition page_of :: "('r \<Rightarrow> (store_error, BlocklistEntry) result) \<Rightarrow> int \<Rightarrow> int \<Rightarrow> ('s, 'r list) act \<Rightarrow> ('s, int) act \<Rightarrow> ('s, BlocklistPage) act" where
  "page_of dec p n many cnt =
     bindA (wrapA ''blocklist: list'' many) (\<lambda>rs.
     bindA (wrapA ''blocklist: count'' cnt) (\<lambda>total s.
     (bindR (decode_rows dec rs) (\<lambda>es. Inr \<lparr>pg_Page = p, pg_PageSize = n, pg_TotalRecords = total, pg_Records = es\<rparr>), s)))"

definition sqliteBlocklist_List :: "(int \<Rightarrow> string) \<Rightarrow> dbenv \<Rightarrow> int \<Rightarrow> int \<Rightarrow> (SqBlocklist table, BlocklistPage) act" where
  "sqliteBlocklist_List ts e page pageSize =
     (let p = page_number page; n = page_size pageSize in
      page_of entryFromSQLite p n (sqlite_ListBlocklist ts e n (page_offset p n)) (sqlite_CountBlocklist e))"

definition sqliteBlocklist_ListBySeries :: "(int \<Rightarrow> string) \<Rightarrow> dbenv \<Rightarrow> int \<Rightarrow> (SqBlocklist table, BlocklistEntry list) act" where
  "sqliteBlocklist_ListBySeries ts e sid =
     decodeA (decode_rows entryFromSQLite) (wrapA ''blocklist: list by series'' (sqlite_ListBlocklistBySeries ts e sid))"

definition sqliteBlocklist_Delete :: "dbenv \<Rightarrow> int \<Rightarrow> (SqBlocklist table, unit) act" where
  "sqliteBlocklist_Delete e i = SQLitePool_Write e (sqlite_DeleteBlocklist e i)"

fun delete_each :: "(int \<Rightarrow> ('s, unit) act) \<Rightarrow> int list \<Rightarrow> ('s, unit) act" where
  "delete_each del [] = retA ()"
| "delete_each del (i # is) = bindA (del i) (\<lambda>_. delete_each del is)"

definition sqliteBlocklist_DeleteMany :: "dbenv \<Rightarrow> int list \<Rightarrow> (SqBlocklist table, unit) act" where
  "sqliteBlocklist_DeleteMany e is =
     (if is = [] then retA () else SQLitePool_Write e (delete_each (sqlite_DeleteBlocklist e) is))"

definition sqliteBlocklist_DeleteBySeries :: "dbenv \<Rightarrow> int \<Rightarrow> (SqBlocklist table, unit) act" where
  "sqliteBlocklist_DeleteBySeries e sid = SQLitePool_Write e (sqlite_DeleteBlocklistBySeries e sid)"

definition sqliteBlocklist_Clear :: "dbenv \<Rightarrow> (SqBlocklist table, unit) act" where
  "sqliteBlocklist_Clear e = SQLitePool_Write e (sqlite_ClearBlocklist e)"

definition sqliteBlocklist :: "(int \<Rightarrow> string) \<Rightarrow> SqBlocklist table BlocklistStore" where
  "sqliteBlocklist ts = \<lparr>bs_Create = sqliteBlocklist_Create, bs_GetByID = sqliteBlocklist_GetByID, bs_List = sqliteBlocklist_List ts,
     bs_ListBySeries = sqliteBlocklist_ListBySeries ts, bs_Delete = sqliteBlocklist_Delete, bs_DeleteMany = sqliteBlocklist_DeleteMany,
     bs_DeleteBySeries = sqliteBlocklist_DeleteBySeries, bs_Clear = sqliteBlocklist_Clear\<rparr>"

subsection \<open>Postgres\<close>

record PgBlocklist =
  kx_ID :: int
  kx_SeriesID :: int
  kx_EpisodeIds :: string
  kx_SourceTitle :: string
  kx_Quality :: string
  kx_Languages :: string
  kx_Date :: int
  kx_PublishedDate :: "int option"
  kx_Size :: "int option"
  kx_Protocol :: string
  kx_Indexer :: string
  kx_IndexerFlags :: int
  kx_ReleaseType :: string
  kx_Message :: string
  kx_TorrentInfoHash :: "string option"

definition jsonBytes :: "string \<Rightarrow> string \<Rightarrow> string" where
  "jsonBytes b fallback = (if b = '''' then fallback else b)"

definition pgBlocklistRow :: "BlocklistEntry \<Rightarrow> string \<Rightarrow> string \<Rightarrow> string \<Rightarrow> int \<Rightarrow> PgBlocklist" where
  "pgBlocklistRow e eps quality languages i = \<lparr>kx_ID = i, kx_SeriesID = wrap32 (bl_SeriesID e), kx_EpisodeIds = eps,
     kx_SourceTitle = bl_SourceTitle e, kx_Quality = quality, kx_Languages = languages, kx_Date = pg_micros (bl_Date e),
     kx_PublishedDate = map_option pg_micros (bl_PublishedDate e), kx_Size = bl_Size e, kx_Protocol = bl_Protocol e, kx_Indexer = bl_Indexer e,
     kx_IndexerFlags = wrap32 (bl_IndexerFlags e), kx_ReleaseType = bl_ReleaseType e, kx_Message = bl_Message e,
     kx_TorrentInfoHash = nullString (bl_TorrentInfoHash e)\<rparr>"

definition entry_of_pg :: "PgBlocklist \<Rightarrow> int list \<Rightarrow> BlocklistEntry" where
  "entry_of_pg r eps = \<lparr>bl_ID = kx_ID r, bl_SeriesID = kx_SeriesID r, bl_EpisodeIDs = eps, bl_SourceTitle = kx_SourceTitle r,
     bl_Quality = kx_Quality r, bl_Languages = kx_Languages r, bl_Date = pg_time (kx_Date r), bl_PublishedDate = map_option pg_time (kx_PublishedDate r),
     bl_Size = kx_Size r, bl_Protocol = kx_Protocol r, bl_Indexer = kx_Indexer r, bl_IndexerFlags = kx_IndexerFlags r,
     bl_ReleaseType = kx_ReleaseType r, bl_Message = kx_Message r,
     bl_TorrentInfoHash = (case kx_TorrentInfoHash r of None \<Rightarrow> '''' | Some h \<Rightarrow> h)\<rparr>"

definition entryFromPG :: "PgBlocklist \<Rightarrow> (store_error, BlocklistEntry) result" where
  "entryFromPG r = bindR (wrapR ''blocklist: unmarshal episodeIds'' (unmarshal_ints (kx_EpisodeIds r))) (\<lambda>eps. Inr (entry_of_pg r eps))"

definition postgres_CreateBlocklist :: "jsonb_input \<Rightarrow> dbenv \<Rightarrow> BlocklistEntry \<Rightarrow> (PgBlocklist table, PgBlocklist) act" where
  "postgres_CreateBlocklist jsonb e x = stmt e ''CreateBlocklist''
     (with_json (jsonb_param jsonb (Some (marshal_ints (bl_EpisodeIDs x)))) (\<lambda>eps.
      with_json (jsonb_param jsonb (Some (jsonBytes (bl_Quality x) ''{}''))) (\<lambda>quality.
      with_json (jsonb_param jsonb (Some (jsonBytes (bl_Languages x) ''[]''))) (\<lambda>languages.
      sql_insert (pgBlocklistRow x eps quality languages)))))"

definition postgres_GetBlocklistByID :: "dbenv \<Rightarrow> int \<Rightarrow> (PgBlocklist table, PgBlocklist) act" where
  "postgres_GetBlocklistByID e i = stmt e ''GetBlocklistByID'' (sql_one (\<lambda>r. kx_ID r = i))"

text \<open>Postgres refuses negative limits and offsets.\<close>

definition postgres_ListBlocklist :: "dbenv \<Rightarrow> int \<Rightarrow> int \<Rightarrow> (PgBlocklist table, PgBlocklist list) act" where
  "postgres_ListBlocklist e limit offset = stmt e ''ListBlocklist'' (\<lambda>t.
     (if limit < 0 then Inl (DbError ''ERROR: LIMIT must not be negative (SQLSTATE 2201W)'')
      else if offset < 0 then Inl (DbError ''ERROR: OFFSET must not be negative (SQLSTATE 2201X)'')
      else Inr (take (nat limit) (drop (nat offset) (sort_desc kx_Date (rows t)))), t))"

definition postgres_CountBlocklist :: "dbenv \<Rightarrow> (PgBlocklist table, int) act" where
  "postgres_CountBlocklist e = stmt e ''CountBlocklist'' (\<lambda>t. (Inr (int (length (rows t))), t))"

definition postgres_ListBlocklistBySeries :: "dbenv \<Rightarrow> int \<Rightarrow> (PgBlocklist table, PgBlocklist list) act" where
  "postgres_ListBlocklistBySeries e sid = stmt e ''ListBlocklistBySeries''
     (\<lambda>t. (Inr (sort_desc kx_Date (filter (\<lambda>r. kx_SeriesID r = sid) (rows t))), t))"

definition postgres_DeleteBlocklist :: "dbenv \<Rightarrow> int \<Rightarrow> (PgBlocklist table, unit) act" where
  "postgres_DeleteBlocklist e i = stmt e ''DeleteBlocklist'' (sql_delete (\<lambda>r. kx_ID r = i))"

definition postgres_DeleteBlocklistBySeries :: "dbenv \<Rightarrow> int \<Rightarrow> (PgBlocklist table, unit) act" where
  "postgres_DeleteBlocklistBySeries e sid = stmt e ''DeleteBlocklistBySeries'' (sql_delete (\<lambda>r. kx_SeriesID r = sid))"

definition postgres_ClearBlocklist :: "dbenv \<Rightarrow> (PgBlocklist table, unit) act" where
  "postgres_ClearBlocklist e = stmt e ''ClearBlocklist'' (sql_delete (\<lambda>_. True))"

definition postgresBlocklist_Create :: "jsonb_input \<Rightarrow> dbenv \<Rightarrow> BlocklistEntry \<Rightarrow> (PgBlocklist table, BlocklistEntry) act" where
  "postgresBlocklist_Create jsonb e x = decodeA entryFromPG (wrapA ''blocklist: create'' (postgres_CreateBlocklist jsonb e x))"

definition postgresBlocklist_GetByID :: "dbenv \<Rightarrow> int \<Rightarrow> (PgBlocklist table, BlocklistEntry) act" where
  "postgresBlocklist_GetByID e i = decodeA entryFromPG
     (rowA (Inl ErrBlocklistNotFound) ''blocklist: get by id'' (\<lambda>r. r) (postgres_GetBlocklistByID e (wrap32 i)))"

definition postgresBlocklist_List :: "dbenv \<Rightarrow> int \<Rightarrow> int \<Rightarrow> (PgBlocklist table, BlocklistPage) act" where
  "postgresBlocklist_List e page pageSize =
     (let p = page_number page; n = page_size pageSize in
      page_of entryFromPG p n (postgres_ListBlocklist e (wrap32 n) (wrap32 (page_offset p n))) (postgres_CountBlocklist e))"

definition postgresBlocklist_ListBySeries :: "dbenv \<Rightarrow> int \<Rightarrow> (PgBlocklist table, BlocklistEntry list) act" where
  "postgresBlocklist_ListBySeries e sid =
     decodeA (decode_rows entryFromPG) (wrapA ''blocklist: list by series'' (postgres_ListBlocklistBySeries e (wrap32 sid)))"

definition postgresBlocklist_Delete :: "dbenv \<Rightarrow> int \<Rightarrow> (PgBlocklist table, unit) act" where
  "postgresBlocklist_Delete e i = postgres_DeleteBlocklist e (wrap32 i)"

definition postgresBlocklist_DeleteMany :: "dbenv \<Rightarrow> int list \<Rightarrow> (PgBlocklist table, unit) act" where
  "postgresBlocklist_DeleteMany e is = delete_each (\<lambda>i. postgres_DeleteBlocklist e (wrap32 i)) is"

definition postgresBlocklist_DeleteBySeries :: "dbenv \<Rightarrow> int \<Rightarrow> (PgBlocklist table, unit) act" where
  "postgresBlocklist_DeleteBySeries e sid = postgres_DeleteBlocklistBySeries e (wrap32 sid)"

definition postgresBlocklist_Clear :: "dbenv \<Rightarrow> (PgBlocklist table, unit) act" where
  "postgresBlocklist_Clear e = postgres_ClearBlocklist e"

definition postgresBlocklist :: "jsonb_input \<Rightarrow> PgBlocklist table BlocklistStore" where
  "postgresBlocklist jsonb = \<lparr>bs_Create = postgresBlocklist_Create jsonb, bs_GetByID = postgresBlocklist_GetByID, bs_List = postgresBlocklist_List,
     bs_ListBySeries = postgresBlocklist_ListBySeries, bs_Delete = postgresBlocklist_Delete, bs_DeleteMany = postgresBlocklist_DeleteMany,
     bs_DeleteBySeries = postgresBlocklist_DeleteBySeries, bs_Clear = postgresBlocklist_Clear\<rparr>"

subsection \<open>The contract of a blocklist\<close>

text \<open>What the decision engine and the API rely on: entries are kept until they are deleted, the pages of a size cut the whole
  listing into pieces, the newest first. \<open>ok\<close> are the entries the store can keep, \<open>fits\<close> the numbers it computes with, \<open>narrow\<close> what becomes of an id.\<close>

locale blocklist_store =
  fixes st :: "'s BlocklistStore" and inv :: "'s \<Rightarrow> bool" and entries :: "'s \<Rightarrow> BlocklistEntry list" and nxt :: "'s \<Rightarrow> int"
    and ok :: "BlocklistEntry \<Rightarrow> bool" and fits :: "int \<Rightarrow> bool" and narrow :: "int \<Rightarrow> int"
  assumes create: "\<lbrakk>inv s; quiet e; ok x\<rbrakk> \<Longrightarrow> \<exists>y s'. bs_Create st e x s = (Inr y, s') \<and> inv s' \<and> mset (entries s') = add_mset y (mset (entries s))
      \<and> bl_ID y = nxt s \<and> nxt s' = nxt s + 1
      \<and> bl_SeriesID y = narrow (bl_SeriesID x) \<and> bl_SourceTitle y = bl_SourceTitle x \<and> bl_EpisodeIDs y = bl_EpisodeIDs x"
    and list_page: "\<lbrakk>inv s; quiet e; 1 \<le> p; 1 \<le> n; fits p; fits n; fits ((p - 1) * n)\<rbrakk> \<Longrightarrow> bs_List st e p n s =
      (Inr \<lparr>pg_Page = p, pg_PageSize = n, pg_TotalRecords = int (length (entries s)), pg_Records = take (nat n) (drop (nat ((p - 1) * n)) (entries s))\<rparr>, s)"
    and by_series: "\<lbrakk>inv s; quiet e\<rbrakk> \<Longrightarrow> \<exists>es. bs_ListBySeries st e i s = (Inr es, s) \<and> set es = {x \<in> set (entries s). bl_SeriesID x = narrow i}"
    and remove: "\<lbrakk>inv s; quiet e\<rbrakk> \<Longrightarrow> \<exists>s'. bs_Delete st e i s = (Inr (), s') \<and> inv s' \<and> nxt s' = nxt s \<and>
      mset (entries s') = filter_mset (\<lambda>x. bl_ID x \<noteq> narrow i) (mset (entries s))"

text \<open>The records of page \<open>k + 1\<close>, and what the decision engine reads.\<close>

definition page_records :: "'s BlocklistStore \<Rightarrow> dbenv \<Rightarrow> int \<Rightarrow> 's \<Rightarrow> nat \<Rightarrow> BlocklistEntry list" where
  "page_records st e n s k = (case fst (bs_List st e (int k + 1) n s) of Inl _ \<Rightarrow> [] | Inr pg \<Rightarrow> pg_Records pg)"

definition blocklist_reader_of :: "'s BlocklistStore \<Rightarrow> dbenv \<Rightarrow> 's \<Rightarrow> blocklist_reader" where
  "blocklist_reader_of st e s sid = (case fst (bs_ListBySeries st e sid s) of Inl x \<Rightarrow> Inl (error_text x) | Inr es \<Rightarrow> Inr es)"

text \<open>Sequences of entries made and removed, and the list of those that are left, with their ids.\<close>

datatype bl_op = BlCreate BlocklistEntry | BlDelete int

fun bl_do :: "'s BlocklistStore \<Rightarrow> dbenv \<Rightarrow> bl_op \<Rightarrow> 's \<Rightarrow> 's" where
  "bl_do st e (BlCreate x) s = snd (bs_Create st e x s)"
| "bl_do st e (BlDelete i) s = snd (bs_Delete st e i s)"

definition bl_run :: "'s BlocklistStore \<Rightarrow> (dbenv \<times> bl_op) list \<Rightarrow> 's \<Rightarrow> 's" where
  "bl_run st ops s = fold (\<lambda>(e, op). bl_do st e op) ops s"

fun bl_spec :: "bl_op \<Rightarrow> (int \<times> int \<times> string) list \<times> int \<Rightarrow> (int \<times> int \<times> string) list \<times> int" where
  "bl_spec (BlCreate x) (es, n) = (es @ [(n, bl_SeriesID x, bl_SourceTitle x)], n + 1)"
| "bl_spec (BlDelete i) (es, n) = (filter (\<lambda>(j, _). j \<noteq> i) es, n)"

definition blocked :: "(dbenv \<times> bl_op) list \<Rightarrow> (int \<times> int \<times> string) list" where
  "blocked ops = fst (fold (\<lambda>(e, op). bl_spec op) ops ([], 1))"

text \<open>Calls both engines take: small ids, and JSON where JSON is expected.\<close>

fun bl_good :: "(BlocklistEntry \<Rightarrow> bool) \<Rightarrow> bl_op \<Rightarrow> bool" where
  "bl_good ok (BlCreate x) \<longleftrightarrow> ok x \<and> int32_range (bl_SeriesID x)"
| "bl_good ok (BlDelete i) \<longleftrightarrow> int32_range i"

lemma chunks: "concat (map (\<lambda>k. take n (drop (k * n) xs)) [0..<m]) = take (m * n) xs"
proof (induction m)
  case (Suc m)
  have "take (Suc m * n) xs = take (m * n) xs @ take n (drop (m * n) xs)" using take_add [of "m * n" n xs] by (simp add: add.commute)
  with Suc show ?case by simp
qed simp

definition entry_key :: "BlocklistEntry \<Rightarrow> int \<times> int \<times> string" where
  "entry_key x = (bl_ID x, bl_SeriesID x, bl_SourceTitle x)"

context blocklist_store
begin

lemma all_pages:
  assumes "inv s" "quiet e" "1 \<le> n" "fits n" "\<And>k. k < m \<Longrightarrow> fits (int k + 1) \<and> fits (int k * n)" "int (length (entries s)) \<le> int m * n"
  shows "concat (map (page_records st e n s) [0..<m]) = entries s"
proof -
  have "page_records st e n s k = take (nat n) (drop (k * nat n) (entries s))" if "k < m" for k
    using list_page [OF assms(1,2), of "int k + 1" n] assms(3,4) assms(5) [OF that] by (simp add: page_records_def nat_mult_distrib)
  then have "map (page_records st e n s) [0..<m] = map (\<lambda>k. take (nat n) (drop (k * nat n) (entries s))) [0..<m]" by simp
  moreover have "length (entries s) \<le> m * nat n" using assms(3,6) by (metis nat_0_le nat_int_comparison(3) of_nat_mult order_trans zero_le_one)
  ultimately show ?thesis using chunks [of "nat n" "entries s" m] by (simp only: take_all)
qed

lemma step_spec:
  assumes "inv s" "quiet e" "bl_good ok op" "mset (map entry_key (entries s)) = mset es" "narrow = wrap32 \<or> narrow = (\<lambda>i. i)"
  shows "inv (bl_do st e op s) \<and> mset (map entry_key (entries (bl_do st e op s))) = mset (fst (bl_spec op (es, nxt s)))
    \<and> nxt (bl_do st e op s) = snd (bl_spec op (es, nxt s))"
proof (cases op)
  case (BlCreate x)
  then have "narrow (bl_SeriesID x) = bl_SeriesID x" using assms(3,5) by auto
  with create [OF assms(1,2), of x] BlCreate assms(3,4) show ?thesis by (auto simp: entry_key_def)
next
  case (BlDelete i)
  then have i: "narrow i = i" using assms(3,5) by auto
  obtain s' where s': "bs_Delete st e i s = (Inr (), s')" "inv s'" "nxt s' = nxt s"
    "mset (entries s') = filter_mset (\<lambda>x. bl_ID x \<noteq> i) (mset (entries s))"
    using remove [OF assms(1,2), of i] i by auto
  have "mset (map entry_key (entries s')) = image_mset entry_key (filter_mset (\<lambda>x. bl_ID x \<noteq> i) (mset (entries s)))" using s'(4) by simp
  also have "\<dots> = filter_mset (\<lambda>(j, _). j \<noteq> i) (mset es)"
    using assms(4) [symmetric] by (simp add: filter_mset_image_mset entry_key_def case_prod_beta comp_def)
  finally show ?thesis using s' BlDelete by simp
qed

lemma run_spec:
  assumes "list_all (\<lambda>(e, op). quiet e \<and> bl_good ok op) ops" "inv s" "mset (map entry_key (entries s)) = mset es" "nxt s = k"
    and "narrow = wrap32 \<or> narrow = (\<lambda>i. i)"
  shows "inv (bl_run st ops s) \<and> mset (map entry_key (entries (bl_run st ops s))) = mset (fst (fold (\<lambda>(e, op). bl_spec op) ops (es, k)))"
  using assms(1-4)
proof (induction ops arbitrary: s es k)
  case (Cons x ops)
  obtain e op where x: "x = (e, op)" by (cases x)
  from step_spec [of s e op es] assms(5) Cons.prems x
  show ?case using Cons.IH [of "bl_do st e op s" "fst (bl_spec op (es, k))" "snd (bl_spec op (es, k))"] by (simp add: bl_run_def)
qed (simp add: bl_run_def)

lemma spec_rejects:
  assumes "inv s" "quiet e" "narrow (re_SeriesID r) = re_SeriesID r"
  shows "fst (spec_Evaluate (BlocklistedSpec (Some (blocklist_reader_of st e s))) r p) = Reject \<longleftrightarrow>
    (\<exists>x\<in>set (entries s). bl_SeriesID x = re_SeriesID r \<and> bl_SourceTitle x = rel_Title (re_Release r))"
proof -
  obtain es where "bs_ListBySeries st e (re_SeriesID r) s = (Inr es, s)" "set es = {x \<in> set (entries s). bl_SeriesID x = re_SeriesID r}"
    using by_series [OF assms(1,2), of "re_SeriesID r"] assms(3) by auto
  then show ?thesis by (auto simp: BlocklistedSpec_def blocklist_reader_of_def Blocklist_Matches_iff accept_def reject_def)
qed

end

subsection \<open>The two engines meet the contract\<close>

lemma mset_sort_desc [simp]: "mset (sort_desc k xs) = mset xs"
  by (simp add: sort_desc_def)

lemma set_sort_desc [simp]: "set (sort_desc k xs) = set xs"
  by (simp add: sort_desc_def)

lemma length_sort_desc [simp]: "length (sort_desc k xs) = length xs"
  by (simp add: sort_desc_def)

text \<open>A listing is sorted by its key, the largest first.\<close>

lemma sort_desc_sorted: "sorted_wrt (\<lambda>x y. k x \<ge> k y) (sort_desc k xs)"
proof -
  have "sorted (map k (sort_key k (rev xs)))" by simp
  then show ?thesis by (simp add: sort_desc_def sorted_wrt_rev sorted_map)
qed

definition sq_entry :: "SqBlocklist \<Rightarrow> BlocklistEntry" where
  "sq_entry r = entry_of_sq r (or_else [] (unmarshal_ints (kq_EpisodeIds r)))"

definition pg_entry :: "PgBlocklist \<Rightarrow> BlocklistEntry" where
  "pg_entry r = entry_of_pg r (or_else [] (unmarshal_ints (kx_EpisodeIds r)))"

definition sq_blocklist_inv :: "SqBlocklist table \<Rightarrow> bool" where
  "sq_blocklist_inv s \<longleftrightarrow> list_all (\<lambda>r. entryFromSQLite r = Inr (sq_entry r)) (rows s)"

definition pg_blocklist_inv :: "PgBlocklist table \<Rightarrow> bool" where
  "pg_blocklist_inv s \<longleftrightarrow> list_all (\<lambda>r. entryFromPG r = Inr (pg_entry r)) (rows s)"

definition sq_entries :: "(int \<Rightarrow> string) \<Rightarrow> SqBlocklist table \<Rightarrow> BlocklistEntry list" where
  "sq_entries ts s = map sq_entry (sort_desc (\<lambda>r. ts (kq_Date r)) (rows s))"

definition pg_entries :: "PgBlocklist table \<Rightarrow> BlocklistEntry list" where
  "pg_entries s = map pg_entry (sort_desc kx_Date (rows s))"

definition entry_ok :: "BlocklistEntry \<Rightarrow> bool" where
  "entry_ok x \<longleftrightarrow> list_all int64_range (bl_EpisodeIDs x)"

text \<open>Postgres also has to accept the two JSON texts.\<close>

definition pg_entry_ok :: "jsonb_input \<Rightarrow> BlocklistEntry \<Rightarrow> bool" where
  "pg_entry_ok jsonb x \<longleftrightarrow> entry_ok x \<and> jsonb (jsonBytes (bl_Quality x) ''{}'') \<noteq> None \<and> jsonb (jsonBytes (bl_Languages x) ''[]'') \<noteq> None"

lemma sq_entry_key [simp]: "bl_ID (sq_entry r) = kq_ID r" "bl_SeriesID (sq_entry r) = kq_SeriesID r" "bl_SourceTitle (sq_entry r) = kq_SourceTitle r"
  by (simp_all add: sq_entry_def entry_of_sq_def)

lemma pg_entry_key [simp]: "bl_ID (pg_entry r) = kx_ID r" "bl_SeriesID (pg_entry r) = kx_SeriesID r" "bl_SourceTitle (pg_entry r) = kx_SourceTitle r"
  by (simp_all add: pg_entry_def entry_of_pg_def)

lemma sq_row_entry:
  assumes "entry_ok x"
  shows "entryFromSQLite (sqBlocklistRow x i) = Inr (sq_entry (sqBlocklistRow x i))" "bl_EpisodeIDs (sq_entry (sqBlocklistRow x i)) = bl_EpisodeIDs x"
  using assms by (simp_all add: entry_ok_def entryFromSQLite_def sq_entry_def sqBlocklistRow_def entry_of_sq_def unmarshal_marshal_ints wrapR_def)

lemma pg_row_entry:
  assumes "entry_ok x" "unmarshal_ints eps = Inr (bl_EpisodeIDs x)"
  shows "entryFromPG (pgBlocklistRow x eps q l i) = Inr (pg_entry (pgBlocklistRow x eps q l i))"
    "bl_EpisodeIDs (pg_entry (pgBlocklistRow x eps q l i)) = bl_EpisodeIDs x"
  using assms by (simp_all add: entryFromPG_def pg_entry_def pgBlocklistRow_def entry_of_pg_def wrapR_def)

lemma window_all: "0 \<le> n \<Longrightarrow> sqlite_window n o' xs = take (nat n) (drop (nat o') xs)"
  by (simp add: sqlite_window_def Let_def)

lemma offset_fits:
  assumes "int64_range p" "1 \<le> p" "int64_range ((p - 1) * n)"
  shows "page_offset p n = (p - 1) * n"
proof -
  have "int64_range (p - 1)" using assms(1,2) by (simp add: int64_range_def)
  then show ?thesis using assms(3) by (simp add: page_offset_def)
qed

lemma list_all_window: "list_all P xs \<Longrightarrow> list_all P (take n (drop m (sort_desc k xs)))"
  by (auto simp: list_all_iff dest!: in_set_takeD in_set_dropD)

lemma page_window:
  assumes "list_all (\<lambda>r. f r = Inr (dec r)) (rows s)"
  shows "page_of f p n (\<lambda>t. (Inr (take a (drop b (sort_desc k (rows t)))), t)) (\<lambda>t. (Inr (int (length (rows t))), t)) s
    = (Inr \<lparr>pg_Page = p, pg_PageSize = n, pg_TotalRecords = int (length (rows s)), pg_Records = take a (drop b (map dec (sort_desc k (rows s))))\<rparr>, s)"
  using decode_rows_ok [OF list_all_window [OF assms], of a b k] by (simp add: page_of_def bindA_def wrapA_def take_map drop_map)

lemmas sq_blocklist_defs = sqliteBlocklist_def sqliteBlocklist_Create_def sqliteBlocklist_List_def sqliteBlocklist_ListBySeries_def
  sqliteBlocklist_Delete_def sqlite_CreateBlocklist_def sqlite_ListBlocklist_def sqlite_CountBlocklist_def sqlite_ListBlocklistBySeries_def
  sqlite_DeleteBlocklist_def

interpretation sqblock: blocklist_store "sqliteBlocklist ts" sq_blocklist_inv "sq_entries ts" next_id entry_ok int64_range "\<lambda>i. i" for ts
proof unfold_locales
  fix s e x p n i
  assume inv: "sq_blocklist_inv s" and q: "quiet e"
  have all: "list_all (\<lambda>r. entryFromSQLite r = Inr (sq_entry r)) (rows s)" using inv by (simp add: sq_blocklist_inv_def)
  show "\<exists>y s'. bs_Create (sqliteBlocklist ts) e x s = (Inr y, s') \<and> sq_blocklist_inv s' \<and> mset (sq_entries ts s') = add_mset y (mset (sq_entries ts s))
      \<and> bl_ID y = next_id s \<and> next_id s' = next_id s + 1
      \<and> bl_SeriesID y = bl_SeriesID x \<and> bl_SourceTitle y = bl_SourceTitle x \<and> bl_EpisodeIDs y = bl_EpisodeIDs x" if "entry_ok x"
    using q all sq_row_entry [OF that]
    by (simp add: sq_blocklist_defs decodeA_def wrapA_def sql_insert_def sq_blocklist_inv_def sq_entries_def) (simp add: sqBlocklistRow_def)
  show "bs_List (sqliteBlocklist ts) e p n s = (Inr \<lparr>pg_Page = p, pg_PageSize = n, pg_TotalRecords = int (length (sq_entries ts s)),
      pg_Records = take (nat n) (drop (nat ((p - 1) * n)) (sq_entries ts s))\<rparr>, s)"
    if "1 \<le> p" "1 \<le> n" "int64_range p" "int64_range n" "int64_range ((p - 1) * n)"
    using that q by (simp add: sq_blocklist_defs page_number_def page_size_def Let_def offset_fits window_all sq_entries_def page_window [OF all])
  show "\<exists>es. bs_ListBySeries (sqliteBlocklist ts) e i s = (Inr es, s) \<and> set es = {x \<in> set (sq_entries ts s). bl_SeriesID x = i}"
  proof -
    let ?rs = "sort_desc (\<lambda>r. ts (kq_Date r)) (filter (\<lambda>r. kq_SeriesID r = i) (rows s))"
    have "decode_rows entryFromSQLite ?rs = Inr (map sq_entry ?rs)" using all by (intro decode_rows_ok) (simp add: list_all_iff)
    then show ?thesis using q by (auto simp: sq_blocklist_defs decodeA_def wrapA_def sq_entries_def)
  qed
  show "\<exists>s'. bs_Delete (sqliteBlocklist ts) e i s = (Inr (), s') \<and> sq_blocklist_inv s' \<and> next_id s' = next_id s \<and>
      mset (sq_entries ts s') = filter_mset (\<lambda>x. bl_ID x \<noteq> i) (mset (sq_entries ts s))"
    using q all by (simp add: sq_blocklist_defs sql_delete_def del_rows_def sq_blocklist_inv_def sq_entries_def list_all_iff filter_mset_image_mset comp_def)
qed

lemmas pg_blocklist_defs = postgresBlocklist_def postgresBlocklist_Create_def postgresBlocklist_List_def postgresBlocklist_ListBySeries_def
  postgresBlocklist_Delete_def postgres_CreateBlocklist_def postgres_ListBlocklist_def postgres_CountBlocklist_def postgres_ListBlocklistBySeries_def
  postgres_DeleteBlocklist_def

definition fits32 :: "int \<Rightarrow> bool" where
  "fits32 i \<longleftrightarrow> int32_range i \<and> int64_range i"

lemma pgblock_store:
  assumes keeps: "keeps_json jsonb"
  shows "blocklist_store (postgresBlocklist jsonb) pg_blocklist_inv pg_entries next_id (pg_entry_ok jsonb) fits32 wrap32"
proof unfold_locales
  fix s e x p n i
  assume inv: "pg_blocklist_inv s" and q: "quiet e"
  have all: "list_all (\<lambda>r. entryFromPG r = Inr (pg_entry r)) (rows s)" using inv by (simp add: pg_blocklist_inv_def)
  show "\<exists>y s'. bs_Create (postgresBlocklist jsonb) e x s = (Inr y, s') \<and> pg_blocklist_inv s' \<and> mset (pg_entries s') = add_mset y (mset (pg_entries s))
      \<and> bl_ID y = next_id s \<and> next_id s' = next_id s + 1
      \<and> bl_SeriesID y = wrap32 (bl_SeriesID x) \<and> bl_SourceTitle y = bl_SourceTitle x \<and> bl_EpisodeIDs y = bl_EpisodeIDs x" if ok: "pg_entry_ok jsonb x"
  proof -
    obtain qu la where j: "jsonb (jsonBytes (bl_Quality x) ''{}'') = Some qu" "jsonb (jsonBytes (bl_Languages x) ''[]'') = Some la"
      using ok by (auto simp: pg_entry_ok_def)
    let ?eps = "kept_ints jsonb (bl_EpisodeIDs x)"
    have eps: "jsonb (marshal_ints (bl_EpisodeIDs x)) = Some ?eps" "unmarshal_ints ?eps = Inr (bl_EpisodeIDs x)"
      using kept_ints [OF keeps] ok by (auto simp: pg_entry_ok_def entry_ok_def)
    show ?thesis using q all j eps pg_row_entry [OF _ eps(2)] ok
      by (simp add: pg_blocklist_defs decodeA_def wrapA_def sql_insert_def pg_blocklist_inv_def pg_entries_def jsonb_param_def with_json_def pg_entry_ok_def)
        (simp add: pgBlocklistRow_def)
  qed
  show "bs_List (postgresBlocklist jsonb) e p n s = (Inr \<lparr>pg_Page = p, pg_PageSize = n, pg_TotalRecords = int (length (pg_entries s)),
      pg_Records = take (nat n) (drop (nat ((p - 1) * n)) (pg_entries s))\<rparr>, s)"
    if "1 \<le> p" "1 \<le> n" "fits32 p" "fits32 n" "fits32 ((p - 1) * n)"
  proof -
    from that have f: "wrap32 n = n" "page_offset p n = (p - 1) * n" "wrap32 ((p - 1) * n) = (p - 1) * n"
      by (auto simp: fits32_def intro: offset_fits)
    moreover have "\<not> (p - 1) * n < 0" using that by (simp add: not_less)
    ultimately show ?thesis using that q
      by (simp add: pg_blocklist_defs page_number_def page_size_def Let_def pg_entries_def page_window [OF all])
  qed
  show "\<exists>es. bs_ListBySeries (postgresBlocklist jsonb) e i s = (Inr es, s) \<and> set es = {x \<in> set (pg_entries s). bl_SeriesID x = wrap32 i}"
  proof -
    let ?rs = "sort_desc kx_Date (filter (\<lambda>r. kx_SeriesID r = wrap32 i) (rows s))"
    have "decode_rows entryFromPG ?rs = Inr (map pg_entry ?rs)" using all by (intro decode_rows_ok) (simp add: list_all_iff)
    then show ?thesis using q by (auto simp: pg_blocklist_defs decodeA_def wrapA_def pg_entries_def)
  qed
  show "\<exists>s'. bs_Delete (postgresBlocklist jsonb) e i s = (Inr (), s') \<and> pg_blocklist_inv s' \<and> next_id s' = next_id s \<and>
      mset (pg_entries s') = filter_mset (\<lambda>x. bl_ID x \<noteq> wrap32 i) (mset (pg_entries s))"
    using q all by (simp add: pg_blocklist_defs sql_delete_def del_rows_def pg_blocklist_inv_def pg_entries_def list_all_iff filter_mset_image_mset comp_def)
qed

subsection \<open>Properties\<close>

lemma blocked_iff:
  assumes "mset (map entry_key es) = mset ks"
  shows "(\<exists>x\<in>set es. bl_SeriesID x = i \<and> bl_SourceTitle x = t) \<longleftrightarrow> (i, t) \<in> snd ` set ks"
proof -
  have "set ks = entry_key ` set es" using mset_eq_setD [OF assms] by simp
  then show ?thesis by (auto simp: entry_key_def image_iff)
qed

lemma good_on_sqlite:
  "list_all (\<lambda>(e, op). quiet e \<and> bl_good (pg_entry_ok jsonb) op) ops \<Longrightarrow> list_all (\<lambda>(e, op). quiet e \<and> bl_good entry_ok op) ops"
proof -
  have "bl_good entry_ok op" if "bl_good (pg_entry_ok jsonb) op" for op
    using that by (cases op) (simp_all add: pg_entry_ok_def)
  then show "list_all (\<lambda>(e, op). quiet e \<and> bl_good (pg_entry_ok jsonb) op) ops \<Longrightarrow> ?thesis" by (auto simp: list_all_iff)
qed

lemma start_blocklist: "sq_blocklist_inv empty_table" "pg_blocklist_inv empty_table" "mset (map entry_key (sq_entries ts empty_table)) = mset []"
  "mset (map entry_key (pg_entries empty_table)) = mset []" "next_id empty_table = 1"
  by (simp_all add: sq_blocklist_inv_def pg_blocklist_inv_def sq_entries_def pg_entries_def sort_desc_def empty_table_def)

lemma narrow_cases: "wrap32 = wrap32 \<or> wrap32 = (\<lambda>i. i)" "(\<lambda>i. i) = wrap32 \<or> (\<lambda>i. i) = (\<lambda>i::int. i)"
  by simp_all

text \<open>C32: After any sequence of entries made and removed, from the empty table of either engine, the decision engine rejects a release
  exactly when an entry with its series and its title was made and not removed since.\<close>

theorem blocklist_decides:
  assumes "list_all (\<lambda>(e, op). quiet e \<and> bl_good (pg_entry_ok jsonb) op) ops" "keeps_json jsonb" "quiet e" "int32_range (re_SeriesID r)"
  shows "(fst (spec_Evaluate (BlocklistedSpec (Some (blocklist_reader_of (sqliteBlocklist ts) e (bl_run (sqliteBlocklist ts) ops empty_table)))) r p) = Reject
      \<longleftrightarrow> (re_SeriesID r, rel_Title (re_Release r)) \<in> snd ` set (blocked ops))
    \<and> (fst (spec_Evaluate (BlocklistedSpec (Some (blocklist_reader_of (postgresBlocklist jsonb) e (bl_run (postgresBlocklist jsonb) ops empty_table)))) r p) = Reject
      \<longleftrightarrow> (re_SeriesID r, rel_Title (re_Release r)) \<in> snd ` set (blocked ops))"
proof -
  note good = good_on_sqlite [OF assms(1)]
  note sq = sqblock.run_spec [OF good start_blocklist(1,3) start_blocklist(5) narrow_cases(2), of ts]
  note pg = blocklist_store.run_spec [OF pgblock_store [OF assms(2)] assms(1) start_blocklist(2,4) start_blocklist(5) narrow_cases(1)]
  have "fst (spec_Evaluate (BlocklistedSpec (Some (blocklist_reader_of (sqliteBlocklist ts) e (bl_run (sqliteBlocklist ts) ops empty_table)))) r p) = Reject
      \<longleftrightarrow> (re_SeriesID r, rel_Title (re_Release r)) \<in> snd ` set (blocked ops)"
    using sqblock.spec_rejects [OF conjunct1 [OF sq] assms(3), where r = r and p = p and ts = ts] blocked_iff [OF conjunct2 [OF sq]] by (simp add: blocked_def)
  moreover have "fst (spec_Evaluate (BlocklistedSpec (Some (blocklist_reader_of (postgresBlocklist jsonb) e (bl_run (postgresBlocklist jsonb) ops empty_table)))) r p) = Reject
      \<longleftrightarrow> (re_SeriesID r, rel_Title (re_Release r)) \<in> snd ` set (blocked ops)"
    using blocklist_store.spec_rejects [OF pgblock_store [OF assms(2)] conjunct1 [OF pg] assms(3), of r p] blocked_iff [OF conjunct2 [OF pg]] assms(4)
    by (simp add: blocked_def)
  ultimately show ?thesis by blast
qed

definition example_entry :: BlocklistEntry where
  "example_entry = \<lparr>bl_ID = 0, bl_SeriesID = 1, bl_EpisodeIDs = [3], bl_SourceTitle = ''A.S01E01'', bl_Quality = ''{}'', bl_Languages = ''[]'',
     bl_Date = 0, bl_PublishedDate = None, bl_Size = None, bl_Protocol = '''', bl_Indexer = '''', bl_IndexerFlags = 0, bl_ReleaseType = '''',
     bl_Message = '''', bl_TorrentInfoHash = ''''\<rparr>"

definition example_ops :: "(dbenv \<times> bl_op) list" where
  "example_ops = [(quiet_at 0, BlCreate example_entry), (quiet_at 0, BlCreate example_entry), (quiet_at 0, BlDelete 1)]"

lemma example_ops_good: "list_all (\<lambda>(e, op). quiet e \<and> bl_good (pg_entry_ok Some) op) example_ops"
  by (simp add: example_ops_def example_entry_def pg_entry_ok_def entry_ok_def int64_range_def int32_range_def)

theorem blocklist_decides_witness:
  "fst (spec_Evaluate (BlocklistedSpec (Some (blocklist_reader_of (postgresBlocklist Some) (quiet_at 0)
       (bl_run (postgresBlocklist Some) example_ops empty_table)))) (example_remote 9 0 1000) example_profile) = Reject
   \<and> fst (spec_Evaluate (BlocklistedSpec (Some (blocklist_reader_of (postgresBlocklist Some) (quiet_at 0)
       (bl_run (postgresBlocklist Some) (example_ops @ [(quiet_at 0, BlDelete 2)]) empty_table)))) (example_remote 9 0 1000) example_profile) \<noteq> Reject"
proof -
  have r: "int32_range (re_SeriesID (example_remote 9 0 1000))" by (simp add: example_remote_def int32_range_def)
  have more: "list_all (\<lambda>(e, op). quiet e \<and> bl_good (pg_entry_ok Some) op) (example_ops @ [(quiet_at 0, BlDelete 2)])"
    using example_ops_good by (simp add: int32_range_def)
  show ?thesis
    unfolding conjunct2 [OF blocklist_decides [OF example_ops_good Some_keeps_json quiet_quiet_at(1) r]]
      conjunct2 [OF blocklist_decides [OF more Some_keeps_json quiet_quiet_at(1) r]]
    by (simp add: blocked_def example_ops_def example_entry_def example_remote_def)
qed

text \<open>Reading the pages of a size one after the other, as long as the numbers fit the engine, reads every entry of the blocklist exactly once: together the pages are the listing
  sorted by date, the newest first, on either engine.\<close>

theorem blocklist_pages:
  assumes "list_all (\<lambda>(e, op). quiet e \<and> bl_good (pg_entry_ok jsonb) op) ops" "keeps_json jsonb" "quiet e"
    and "s = bl_run (sqliteBlocklist ts) ops empty_table" "t = bl_run (postgresBlocklist jsonb) ops empty_table"
    and "1 \<le> n" "int (length (rows s)) \<le> int m * n" "int (length (rows t)) \<le> int m * n" "fits32 n" "fits32 (int m)" "fits32 (int m * n)"
  shows "concat (map (page_records (sqliteBlocklist ts) e n s) [0..<m]) = map sq_entry (sort_desc (\<lambda>r. ts (kq_Date r)) (rows s))
    \<and> concat (map (page_records (postgresBlocklist jsonb) e n t) [0..<m]) = map pg_entry (sort_desc kx_Date (rows t))"
proof -
  have good: "list_all (\<lambda>(e, op). quiet e \<and> bl_good entry_ok op) ops" using assms(1) by (rule good_on_sqlite)
  have fit: "fits32 (int k + 1) \<and> fits32 (int k * n)" if "k < m" for k
  proof -
    have "int k * n \<le> int m * n" "0 \<le> int k * n" using that assms(6) by (simp_all add: mult_right_mono)
    then show ?thesis using that assms(10,11) by (auto simp: fits32_def int32_range_def int64_range_def)
  qed
  then have fit': "int64_range (int k + 1) \<and> int64_range (int k * n)" if "k < m" for k using that by (simp add: fits32_def)
  note sq = sqblock.run_spec [OF good start_blocklist(1,3) start_blocklist(5) narrow_cases(2), of ts, folded assms(4)]
  note pg = blocklist_store.run_spec [OF pgblock_store [OF assms(2)] assms(1) start_blocklist(2,4) start_blocklist(5) narrow_cases(1), folded assms(5)]
  have "concat (map (page_records (sqliteBlocklist ts) e n s) [0..<m]) = sq_entries ts s"
    using sqblock.all_pages [OF conjunct1 [OF sq] assms(3,6), where m = m and ts = ts] fit' assms(7,9) by (simp add: sq_entries_def fits32_def)
  moreover have "concat (map (page_records (postgresBlocklist jsonb) e n t) [0..<m]) = pg_entries t"
    using blocklist_store.all_pages [OF pgblock_store [OF assms(2)] conjunct1 [OF pg] assms(3,6,9) fit] assms(8) by (simp add: pg_entries_def)
  ultimately show ?thesis by (simp add: sq_entries_def pg_entries_def)
qed

lemma example_rows:
  "rows (bl_run (sqliteBlocklist ts) example_ops empty_table) = [sqBlocklistRow example_entry 2]"
  "length (rows (bl_run (postgresBlocklist Some) example_ops empty_table)) = 1"
proof -
  have "entry_ok example_entry" by (simp add: entry_ok_def example_entry_def int64_range_def)
  then show "rows (bl_run (sqliteBlocklist ts) example_ops empty_table) = [sqBlocklistRow example_entry 2]"
    by (simp add: bl_run_def example_ops_def sq_blocklist_defs decodeA_def wrapA_def sql_insert_def sql_delete_def del_rows_def empty_table_def
        sq_row_entry) (simp add: sqBlocklistRow_def)
  show "length (rows (bl_run (postgresBlocklist Some) example_ops empty_table)) = 1"
    by (simp add: bl_run_def example_ops_def pg_blocklist_defs decodeA_def wrapA_def sql_insert_def sql_delete_def del_rows_def empty_table_def
        jsonb_param_def with_json_def pgBlocklistRow_def wrap32_def)
qed

theorem blocklist_pages_witness:
  "concat (map (page_records (sqliteBlocklist show_int) (quiet_at 0) 1 (bl_run (sqliteBlocklist show_int) example_ops empty_table)) [0..<2])
    = [sq_entry (sqBlocklistRow example_entry 2)]"
  using blocklist_pages [OF example_ops_good Some_keeps_json quiet_quiet_at(1) refl refl, where n = 1 and m = 2 and ts = show_int]
  by (simp add: example_rows fits32_def int32_range_def int64_range_def sort_desc_def)

end
