(* ===== verification/RemotePaths.thy ===== *)
theory RemotePaths
  imports Crud_Store Postgres_Types Go_Strings
begin

section \<open>Remote path mappings\<close>

text \<open>
  internal/remotepathmapping: the rewriting of a path that a download client reports into one of this host, and the two stores of
  the rules. Both stores are instances of the locale \<open>table_store\<close>, so every sequence of calls gives the results of the specification.
\<close>

record RemotePathMapping =
  rm_ID :: int
  rm_Host :: string
  rm_RemotePath :: string
  rm_LocalPath :: string

subsection \<open>Translation\<close>

definition isSep :: "char \<Rightarrow> bool" where
  "isSep b \<longleftrightarrow> b = CHR ''/'' \<or> b = CHR 92"

definition stripTrailingSep :: "string \<Rightarrow> string" where
  "stripTrailingSep p = (if p = '''' then p
     else if HasSuffix p ''/'' \<or> HasSuffix p [CHR 92] then take (length p - 1) p else p)"

text \<open>What one mapping makes of the path, if it applies.\<close>

definition apply_mapping :: "RemotePathMapping \<Rightarrow> string \<Rightarrow> string option" where
  "apply_mapping m remotePath =
     (let rp = stripTrailingSep (rm_RemotePath m); lp = stripTrailingSep (rm_LocalPath m) in
      if EqualFold (rm_RemotePath m) remotePath \<or> EqualFold rp remotePath then Some (rm_LocalPath m)
      else if HasPrefix remotePath rp then
        (let rest = drop (length rp) remotePath in
         if rest = '''' \<or> isSep (hd rest) then Some (lp @ rest) else None)
      else None)"

fun translate_loop :: "RemotePathMapping list \<Rightarrow> string \<Rightarrow> string \<Rightarrow> string" where
  "translate_loop [] hostNorm remotePath = remotePath"
| "translate_loop (m # ms) hostNorm remotePath =
     (if ToLower (rm_Host m) \<noteq> hostNorm then translate_loop ms hostNorm remotePath
      else (case apply_mapping m remotePath of Some p \<Rightarrow> p | None \<Rightarrow> translate_loop ms hostNorm remotePath))"

definition Translate :: "RemotePathMapping list \<Rightarrow> string \<Rightarrow> string \<Rightarrow> string" where
  "Translate mappings host remotePath =
     (if host = '''' \<or> remotePath = '''' then remotePath else translate_loop mappings (ToLower host) remotePath)"

text \<open>The first mapping of the host that applies decides; without one the path stays.\<close>

lemma Translate_first:
  assumes "host \<noteq> ''''" "path \<noteq> ''''"
  shows "Translate ms host path = (case List.find (\<lambda>m. EqualFold (rm_Host m) host \<and> apply_mapping m path \<noteq> None) ms of
    None \<Rightarrow> path | Some m \<Rightarrow> the (apply_mapping m path))"
proof -
  have "translate_loop ms (ToLower host) path = (case List.find (\<lambda>m. EqualFold (rm_Host m) host \<and> apply_mapping m path \<noteq> None) ms of
      None \<Rightarrow> path | Some m \<Rightarrow> the (apply_mapping m path))"
    by (induction ms) (auto simp: EqualFold_def split: option.splits)
  with assms show ?thesis by (simp add: Translate_def)
qed

text \<open>Below the remote folder the local folder takes its place.\<close>

lemma apply_mapping_below:
  assumes "stripTrailingSep (rm_RemotePath m) = rp" "isSep c" "rest \<noteq> ''''"
  shows "apply_mapping m (rp @ c # rest) = Some (stripTrailingSep (rm_LocalPath m) @ c # rest)"
proof -
  have "length (rm_RemotePath m) \<le> length rp + 1" using assms(1) by (auto simp: stripTrailingSep_def split: if_splits)
  moreover have "length (rp @ c # rest) > length rp + 1" using assms(3) by (cases rest) simp_all
  ultimately have "\<not> EqualFold (rm_RemotePath m) (rp @ c # rest)" "\<not> EqualFold rp (rp @ c # rest)"
    unfolding EqualFold_def by (metis length_ToLower not_less, metis length_ToLower less_add_one less_trans less_irrefl)
  then show ?thesis using assms by (simp add: apply_mapping_def HasPrefix_def Let_def)
qed

text \<open>The mapping with the two folders exchanged leads back.\<close>

definition swapped :: "RemotePathMapping \<Rightarrow> RemotePathMapping" where
  "swapped m = m\<lparr>rm_RemotePath := rm_LocalPath m, rm_LocalPath := rm_RemotePath m\<rparr>"

lemma Translate_back:
  assumes "host \<noteq> ''''" "EqualFold (rm_Host m) host" "isSep c" "rest \<noteq> ''''" "path = stripTrailingSep (rm_RemotePath m) @ c # rest"
  shows "Translate [swapped m] host (Translate [m] host path) = path"
proof -
  have "Translate [m] host path = stripTrailingSep (rm_LocalPath m) @ c # rest"
    using assms apply_mapping_below [OF refl assms(3,4), of m] by (simp add: Translate_def EqualFold_def)
  moreover have "Translate [swapped m] host (stripTrailingSep (rm_LocalPath m) @ c # rest) = path"
    using assms apply_mapping_below [OF refl assms(3,4), of "swapped m"] by (simp add: Translate_def EqualFold_def swapped_def)
  ultimately show ?thesis by simp
qed

text \<open>The exact match is found without regard to case, the match of a folder above is not.\<close>

lemma Translate_case:
  "Translate [\<lparr>rm_ID = 1, rm_Host = ''h'', rm_RemotePath = ''/d'', rm_LocalPath = ''/m/''\<rparr>] ''h'' ''/D'' = ''/m/''"
  "Translate [\<lparr>rm_ID = 1, rm_Host = ''h'', rm_RemotePath = ''/d'', rm_LocalPath = ''/m/''\<rparr>] ''h'' ''/D/x'' = ''/D/x''"
  by code_simp+

subsection \<open>SQLite\<close>

definition mappingRow :: "RemotePathMapping \<Rightarrow> int \<Rightarrow> RemotePathMapping" where
  "mappingRow m i = m\<lparr>rm_ID := i\<rparr>"

definition sqlite_CreateRemotePathMapping :: "dbenv \<Rightarrow> RemotePathMapping \<Rightarrow> (RemotePathMapping table, RemotePathMapping) act" where
  "sqlite_CreateRemotePathMapping e m = stmt e ''CreateRemotePathMapping'' (sql_insert (mappingRow m))"

definition sqlite_GetRemotePathMappingByID :: "dbenv \<Rightarrow> int \<Rightarrow> (RemotePathMapping table, RemotePathMapping) act" where
  "sqlite_GetRemotePathMappingByID e i = stmt e ''GetRemotePathMappingByID'' (sql_one (\<lambda>r. rm_ID r = i))"

definition sqlite_ListRemotePathMappings :: "dbenv \<Rightarrow> (RemotePathMapping table, RemotePathMapping list) act" where
  "sqlite_ListRemotePathMappings e = stmt e ''ListRemotePathMappings'' (sql_many (\<lambda>_. True) (\<lambda>r. (rm_Host r, rm_RemotePath r)))"

definition sqlite_UpdateRemotePathMapping :: "dbenv \<Rightarrow> RemotePathMapping \<Rightarrow> (RemotePathMapping table, unit) act" where
  "sqlite_UpdateRemotePathMapping e m = stmt e ''UpdateRemotePathMapping'' (sql_exec (\<lambda>r. rm_ID r = rm_ID m) (\<lambda>r. mappingRow m (rm_ID r)))"

definition sqlite_DeleteRemotePathMapping :: "dbenv \<Rightarrow> int \<Rightarrow> (RemotePathMapping table, unit) act" where
  "sqlite_DeleteRemotePathMapping e i = stmt e ''DeleteRemotePathMapping'' (sql_delete (\<lambda>r. rm_ID r = i))"

definition sqliteMappings_Create :: "dbenv \<Rightarrow> RemotePathMapping \<Rightarrow> (RemotePathMapping table, RemotePathMapping) act" where
  "sqliteMappings_Create e m = wrapA ''remotepathmapping: create'' (SQLitePool_Write e (sqlite_CreateRemotePathMapping e m))"

definition sqliteMappings_GetByID :: "dbenv \<Rightarrow> int \<Rightarrow> (RemotePathMapping table, RemotePathMapping) act" where
  "sqliteMappings_GetByID e i =
     rowA (Inl (ErrNotFound ''remotepathmapping: not found'')) ''remotepathmapping: get'' (\<lambda>r. r) (sqlite_GetRemotePathMappingByID e i)"

definition sqliteMappings_List :: "dbenv \<Rightarrow> (RemotePathMapping table, RemotePathMapping list) act" where
  "sqliteMappings_List e = wrapA ''remotepathmapping: list'' (sqlite_ListRemotePathMappings e)"

definition sqliteMappings_Update :: "dbenv \<Rightarrow> RemotePathMapping \<Rightarrow> (RemotePathMapping table, unit) act" where
  "sqliteMappings_Update e m = wrapA ''remotepathmapping: update'' (SQLitePool_Write e (sqlite_UpdateRemotePathMapping e m))"

definition sqliteMappings_Delete :: "dbenv \<Rightarrow> int \<Rightarrow> (RemotePathMapping table, unit) act" where
  "sqliteMappings_Delete e i = wrapA ''remotepathmapping: delete'' (SQLitePool_Write e (sqlite_DeleteRemotePathMapping e i))"

definition sqliteMappings :: "(RemotePathMapping table, RemotePathMapping) InstanceStore" where
  "sqliteMappings = \<lparr>is_Create = sqliteMappings_Create, is_GetByID = sqliteMappings_GetByID, is_List = sqliteMappings_List,
     is_Update = sqliteMappings_Update, is_Delete = sqliteMappings_Delete\<rparr>"

subsection \<open>Postgres\<close>

definition postgres_CreateRemotePathMapping :: "dbenv \<Rightarrow> RemotePathMapping \<Rightarrow> (RemotePathMapping table, RemotePathMapping) act" where
  "postgres_CreateRemotePathMapping e m = stmt e ''CreateRemotePathMapping'' (sql_insert (mappingRow m))"

definition postgres_GetRemotePathMappingByID :: "dbenv \<Rightarrow> int \<Rightarrow> (RemotePathMapping table, RemotePathMapping) act" where
  "postgres_GetRemotePathMappingByID e i = stmt e ''GetRemotePathMappingByID'' (sql_one (\<lambda>r. rm_ID r = i))"

definition postgres_ListRemotePathMappings :: "(string \<Rightarrow> string) \<Rightarrow> dbenv \<Rightarrow> (RemotePathMapping table, RemotePathMapping list) act" where
  "postgres_ListRemotePathMappings collate e =
     stmt e ''ListRemotePathMappings'' (sql_many (\<lambda>_. True) (\<lambda>r. (collate (rm_Host r), collate (rm_RemotePath r))))"

definition postgres_UpdateRemotePathMapping :: "dbenv \<Rightarrow> int \<Rightarrow> RemotePathMapping \<Rightarrow> (RemotePathMapping table, unit) act" where
  "postgres_UpdateRemotePathMapping e i m = stmt e ''UpdateRemotePathMapping'' (sql_exec (\<lambda>r. rm_ID r = i) (\<lambda>r. mappingRow m (rm_ID r)))"

definition postgres_DeleteRemotePathMapping :: "dbenv \<Rightarrow> int \<Rightarrow> (RemotePathMapping table, unit) act" where
  "postgres_DeleteRemotePathMapping e i = stmt e ''DeleteRemotePathMapping'' (sql_delete (\<lambda>r. rm_ID r = i))"

definition postgresMappings_Create :: "dbenv \<Rightarrow> RemotePathMapping \<Rightarrow> (RemotePathMapping table, RemotePathMapping) act" where
  "postgresMappings_Create e m = wrapA ''remotepathmapping: create'' (postgres_CreateRemotePathMapping e m)"

definition postgresMappings_GetByID :: "dbenv \<Rightarrow> int \<Rightarrow> (RemotePathMapping table, RemotePathMapping) act" where
  "postgresMappings_GetByID e i =
     rowA (Inl (ErrNotFound ''remotepathmapping: not found'')) ''remotepathmapping: get'' (\<lambda>r. r) (postgres_GetRemotePathMappingByID e (wrap32 i))"

definition postgresMappings_List :: "(string \<Rightarrow> string) \<Rightarrow> dbenv \<Rightarrow> (RemotePathMapping table, RemotePathMapping list) act" where
  "postgresMappings_List collate e = wrapA ''remotepathmapping: list'' (postgres_ListRemotePathMappings collate e)"

definition postgresMappings_Update :: "dbenv \<Rightarrow> RemotePathMapping \<Rightarrow> (RemotePathMapping table, unit) act" where
  "postgresMappings_Update e m = wrapA ''remotepathmapping: update'' (postgres_UpdateRemotePathMapping e (wrap32 (rm_ID m)) m)"

definition postgresMappings_Delete :: "dbenv \<Rightarrow> int \<Rightarrow> (RemotePathMapping table, unit) act" where
  "postgresMappings_Delete e i = wrapA ''remotepathmapping: delete'' (postgres_DeleteRemotePathMapping e (wrap32 i))"

definition postgresMappings :: "(string \<Rightarrow> string) \<Rightarrow> (RemotePathMapping table, RemotePathMapping) InstanceStore" where
  "postgresMappings collate = \<lparr>is_Create = postgresMappings_Create, is_GetByID = postgresMappings_GetByID, is_List = postgresMappings_List collate,
     is_Update = postgresMappings_Update, is_Delete = postgresMappings_Delete\<rparr>"

subsection \<open>The stores refine their specification\<close>

definition mapping_spec :: "(int \<Rightarrow> int) \<Rightarrow> (string \<Rightarrow> string) \<Rightarrow> (RemotePathMapping, string \<times> string) crud_spec" where
  "mapping_spec n ord = \<lparr>cs_iid = rm_ID, cs_ident = n, cs_accepts = (\<lambda>_. True), cs_made = (\<lambda>now i m. m\<lparr>rm_ID := i\<rparr>),
     cs_changed = (\<lambda>m y. m\<lparr>rm_ID := rm_ID y\<rparr>), cs_order = (\<lambda>m. (ord (rm_Host m), ord (rm_RemotePath m)))\<rparr>"

lemmas mappings_defs = mapping_spec_def mappingRow_def
  sqliteMappings_def sqliteMappings_Create_def sqliteMappings_GetByID_def sqliteMappings_List_def sqliteMappings_Update_def sqliteMappings_Delete_def
  sqlite_CreateRemotePathMapping_def sqlite_GetRemotePathMappingByID_def sqlite_ListRemotePathMappings_def sqlite_UpdateRemotePathMapping_def
  sqlite_DeleteRemotePathMapping_def
  postgresMappings_def postgresMappings_Create_def postgresMappings_GetByID_def postgresMappings_List_def postgresMappings_Update_def
  postgresMappings_Delete_def postgres_CreateRemotePathMapping_def postgres_GetRemotePathMappingByID_def postgres_ListRemotePathMappings_def
  postgres_UpdateRemotePathMapping_def postgres_DeleteRemotePathMapping_def

interpretation sqmappings: table_store sqliteMappings rm_ID "\<lambda>r. r" "\<lambda>now m. mappingRow m" "\<lambda>m r. mappingRow m (rm_ID r)" "mapping_spec (\<lambda>i. i) (\<lambda>n. n)"
  by unfold_locales (auto simp: mappings_defs act_defs sql_defs intro!: ext)

interpretation pgmappings: table_store "postgresMappings collate" rm_ID "\<lambda>r. r" "\<lambda>now m. mappingRow m" "\<lambda>m r. mappingRow m (rm_ID r)"
  "mapping_spec wrap32 collate" for collate
  by unfold_locales (auto simp: mappings_defs act_defs sql_defs intro!: ext)

text \<open>Hence any sequence of calls, from empty tables, returns what the specification returns.\<close>

lemma mapping_stores_refine:
  assumes "quiet_calls ops"
  shows "fst (store_run sqliteMappings ops empty_table) = fst (spec_run (mapping_spec (\<lambda>i. i) (\<lambda>n. n)) (timed ops) empty_shelf)"
    and "fst (store_run (postgresMappings collate) ops empty_table) = fst (spec_run (mapping_spec wrap32 collate) (timed ops) empty_shelf)"
  by (rule sqmappings.run_from_empty [OF assms], rule pgmappings.run_from_empty [OF assms])

end
