(* ===== verification/LibraryPostgres.thy ===== *)
theory LibraryPostgres
  imports LibrarySqlite Postgres_Types Keyed_Store
begin

section \<open>The Postgres stores of the catalogue\<close>

text \<open>
  internal/library/series_postgres.go, seasons_postgres.go, episodes_postgres.go,
  episodefiles_postgres.go and stats_postgres.go over the statements of internal/db/gen/postgres and the
  Postgres migrations 00002 to 00006 and 00027. The columns have the engine's own types: booleans,
  timestamps in microseconds, 32-bit numbers. An id of a \<open>BIGSERIAL\<close> column that a failed insert has drawn
  is not given back. The text columns sort by the collation of the database, the parameter \<open>collate\<close>.

  The stores are related to the SQLite ones of LibrarySqlite by a simulation: \<open>to_sqlite\<close> reads a Postgres
  catalogue as a SQLite one, and every writing operation takes two catalogues that \<open>shadows\<close> relates to
  two such catalogues again. The consistency of the Postgres catalogue follows from that of the other.
\<close>

subsection \<open>Rows and the database\<close>

record PgSeries =
  pgs_ID :: int
  pgs_TvdbID :: int
  pgs_Title :: string
  pgs_Slug :: string
  pgs_Status :: string
  pgs_SeriesType :: string
  pgs_Path :: string
  pgs_Monitored :: bool
  pgs_Added :: int
  pgs_CreatedAt :: int
  pgs_UpdatedAt :: int
  pgs_QualityProfileID :: "int option"
  pgs_SeasonFolder :: bool
  pgs_MonitorNewItems :: string

record PgSeason =
  pgn_SeriesID :: int
  pgn_SeasonNumber :: int
  pgn_Monitored :: bool

record PgEpisode =
  pge_ID :: int
  pge_SeriesID :: int
  pge_SeasonNumber :: int
  pge_EpisodeNumber :: int
  pge_AbsoluteEpisodeNumber :: "int option"
  pge_Title :: string
  pge_Overview :: string
  pge_AirDateUtc :: "int option"
  pge_Monitored :: bool
  pge_EpisodeFileID :: "int option"
  pge_CreatedAt :: int
  pge_UpdatedAt :: int

record PgEpisodeFile =
  pgf_ID :: int
  pgf_SeriesID :: int
  pgf_SeasonNumber :: int
  pgf_RelativePath :: string
  pgf_Size :: int
  pgf_DateAdded :: int
  pgf_ReleaseGroup :: string
  pgf_QualityName :: string
  pgf_CreatedAt :: int
  pgf_UpdatedAt :: int

record PgStatistic =
  pgt_SeriesID :: int
  pgt_EpisodeCount :: int
  pgt_EpisodeFileCount :: int
  pgt_MonitoredEpisodeCount :: int
  pgt_SizeOnDisk :: int
  pgt_UpdatedAt :: int

record pg_library =
  pl_series :: "PgSeries table"
  pl_seasons :: "PgSeason list"
  pl_episodes :: "PgEpisode table"
  pl_files :: "PgEpisodeFile table"
  pl_stats :: "PgStatistic list"
  pl_quality_profiles :: "int list"

type_synonym pg_publisher = "library_event \<Rightarrow> (pg_library, unit) act"

definition on_pg_series :: "(PgSeries table, 'a) act \<Rightarrow> (pg_library, 'a) act" where
  "on_pg_series m d = (let (r, t) = m (pl_series d) in (r, d\<lparr>pl_series := t\<rparr>))"

definition on_pg_episodes :: "(PgEpisode table, 'a) act \<Rightarrow> (pg_library, 'a) act" where
  "on_pg_episodes m d = (let (r, t) = m (pl_episodes d) in (r, d\<lparr>pl_episodes := t\<rparr>))"

definition on_pg_files :: "(PgEpisodeFile table, 'a) act \<Rightarrow> (pg_library, 'a) act" where
  "on_pg_files m d = (let (r, t) = m (pl_files d) in (r, d\<lparr>pl_files := t\<rparr>))"

definition pg_has_series :: "pg_library \<Rightarrow> int \<Rightarrow> bool" where
  "pg_has_series d i \<longleftrightarrow> tbl pgs_ID (pl_series d) i \<noteq> None"

text \<open>An insert whose constraints fail has drawn its id nevertheless.\<close>

definition burn :: "('r table, unit) act" where
  "burn t = (Inr (), t\<lparr>next_id := next_id t + 1\<rparr>)"

definition refused :: "string \<Rightarrow> ('s, unit) act \<Rightarrow> ('s, 'b) act" where
  "refused msg m s = (Inl (DbError msg), snd (m s))"

definition pg_fk :: "string \<Rightarrow> string" where
  "pg_fk cons = ''ERROR: insert or update violates foreign key constraint '' @ cons @ '' (SQLSTATE 23503)''"

subsection \<open>Statements on series\<close>

definition pg_series_clash :: "int option \<Rightarrow> Series \<Rightarrow> PgSeries \<Rightarrow> bool" where
  "pg_series_clash self s r \<longleftrightarrow> Some (pgs_ID r) \<noteq> self \<and>
     (pgs_TvdbID r = se_TvdbID s \<or> pgs_Slug r = se_Slug s \<or> pgs_Path r = se_Path s)"

text \<open>\<open>int32(id)\<close> keeps the low 32 bits.\<close>

definition qualityProfileIDToPg :: "int \<Rightarrow> int option" where
  "qualityProfileIDToPg i = (if i = 0 then None else Some (wrap32 i))"

definition pg_profile_exists :: "int option \<Rightarrow> pg_library \<Rightarrow> bool" where
  "pg_profile_exists v d = (case v of None \<Rightarrow> True | Some i \<Rightarrow> i \<in> set (pl_quality_profiles d))"

definition pg_new_series :: "int \<Rightarrow> Series \<Rightarrow> string \<Rightarrow> int \<Rightarrow> PgSeries" where
  "pg_new_series now s monitorNewItems i = \<lparr>
     pgs_ID = i, pgs_TvdbID = se_TvdbID s, pgs_Title = se_Title s, pgs_Slug = se_Slug s,
     pgs_Status = se_Status s, pgs_SeriesType = se_SeriesType s, pgs_Path = se_Path s,
     pgs_Monitored = se_Monitored s, pgs_Added = now, pgs_CreatedAt = now, pgs_UpdatedAt = now,
     pgs_QualityProfileID = qualityProfileIDToPg (se_QualityProfileID s),
     pgs_SeasonFolder = se_SeasonFolder s, pgs_MonitorNewItems = monitorNewItems\<rparr>"

definition postgres_CreateSeries :: "dbenv \<Rightarrow> Series \<Rightarrow> string \<Rightarrow> (pg_library, PgSeries) act" where
  "postgres_CreateSeries e s monitorNewItems = stmt e ''CreateSeries'' (\<lambda>d.
     if list_ex (pg_series_clash None s) (rows (pl_series d)) then refused (pg_unique ''series'') (on_pg_series burn) d
     else if \<not> pg_profile_exists (qualityProfileIDToPg (se_QualityProfileID s)) d
     then refused (pg_fk ''series_quality_profile_id_fkey'') (on_pg_series burn) d
     else on_pg_series (sql_insert (pg_new_series (pg_micros (env_now e)) s monitorNewItems)) d)"

definition postgres_GetSeries :: "dbenv \<Rightarrow> int \<Rightarrow> (pg_library, PgSeries) act" where
  "postgres_GetSeries e i = stmt e ''GetSeries'' (on_pg_series (sql_one (\<lambda>r. pgs_ID r = i)))"

definition postgres_GetSeriesByTvdbID :: "dbenv \<Rightarrow> int \<Rightarrow> (pg_library, PgSeries) act" where
  "postgres_GetSeriesByTvdbID e i = stmt e ''GetSeriesByTvdbID'' (on_pg_series (sql_one (\<lambda>r. pgs_TvdbID r = i)))"

definition postgres_GetSeriesBySlug :: "dbenv \<Rightarrow> string \<Rightarrow> (pg_library, PgSeries) act" where
  "postgres_GetSeriesBySlug e x = stmt e ''GetSeriesBySlug'' (on_pg_series (sql_one (\<lambda>r. pgs_Slug r = x)))"

definition postgres_ListSeries :: "(string \<Rightarrow> string) \<Rightarrow> dbenv \<Rightarrow> (pg_library, PgSeries list) act" where
  "postgres_ListSeries collate e = stmt e ''ListSeries'' (on_pg_series (sql_many (\<lambda>_. True) (\<lambda>r. collate (pgs_Title r))))"

definition pg_set_series :: "int \<Rightarrow> Series \<Rightarrow> string \<Rightarrow> PgSeries \<Rightarrow> PgSeries" where
  "pg_set_series now s monitorNewItems r = r\<lparr>
     pgs_TvdbID := se_TvdbID s, pgs_Title := se_Title s, pgs_Slug := se_Slug s,
     pgs_Status := se_Status s, pgs_SeriesType := se_SeriesType s, pgs_Path := se_Path s,
     pgs_Monitored := se_Monitored s, pgs_QualityProfileID := qualityProfileIDToPg (se_QualityProfileID s),
     pgs_SeasonFolder := se_SeasonFolder s, pgs_MonitorNewItems := monitorNewItems, pgs_UpdatedAt := now\<rparr>"

definition postgres_UpdateSeries :: "dbenv \<Rightarrow> Series \<Rightarrow> string \<Rightarrow> (pg_library, unit) act" where
  "postgres_UpdateSeries e s monitorNewItems = stmt e ''UpdateSeries'' (\<lambda>d.
     if \<not> pg_has_series d (se_ID s) then (Inr (), d)
     else if list_ex (pg_series_clash (Some (se_ID s)) s) (rows (pl_series d)) then (Inl (DbError (pg_unique ''series'')), d)
     else if \<not> pg_profile_exists (qualityProfileIDToPg (se_QualityProfileID s)) d
     then (Inl (DbError (pg_fk ''series_quality_profile_id_fkey'')), d)
     else on_pg_series (sql_exec (\<lambda>r. pgs_ID r = se_ID s)
            (pg_set_series (pg_micros (env_now e)) s monitorNewItems)) d)"

definition pg_cascade :: "int \<Rightarrow> pg_library \<Rightarrow> pg_library" where
  "pg_cascade i d = d\<lparr>pl_series := del_rows (\<lambda>r. pgs_ID r = i) (pl_series d),
     pl_seasons := filter (\<lambda>r. pgn_SeriesID r \<noteq> i) (pl_seasons d),
     pl_episodes := del_rows (\<lambda>r. pge_SeriesID r = i) (pl_episodes d),
     pl_files := del_rows (\<lambda>r. pgf_SeriesID r = i) (pl_files d),
     pl_stats := filter (\<lambda>r. pgt_SeriesID r \<noteq> i) (pl_stats d)\<rparr>"

definition postgres_DeleteSeries :: "dbenv \<Rightarrow> int \<Rightarrow> (pg_library, unit) act" where
  "postgres_DeleteSeries e i = stmt e ''DeleteSeries''
     (\<lambda>d. (Inr (), if pg_has_series d i then pg_cascade i d else d))"

subsection \<open>The series store\<close>

definition seriesFromPostgres :: "PgSeries \<Rightarrow> Series" where
  "seriesFromPostgres r = \<lparr>
     se_ID = pgs_ID r,
     se_TvdbID = pgs_TvdbID r,
     se_Title = pgs_Title r,
     se_Slug = pgs_Slug r,
     se_Status = pgs_Status r,
     se_SeriesType = pgs_SeriesType r,
     se_Path = pgs_Path r,
     se_Monitored = pgs_Monitored r,
     se_QualityProfileID = (case pgs_QualityProfileID r of None \<Rightarrow> 0 | Some i \<Rightarrow> i),
     se_SeasonFolder = pgs_SeasonFolder r,
     se_MonitorNewItems = pgs_MonitorNewItems r,
     se_Added = pg_time (pgs_Added r),
     se_CreatedAt = pg_time (pgs_CreatedAt r),
     se_UpdatedAt = pg_time (pgs_UpdatedAt r)\<rparr>"

definition postgresSeries_Create :: "pg_publisher \<Rightarrow> dbenv \<Rightarrow> Series \<Rightarrow> (pg_library, Series) act" where
  "postgresSeries_Create pub e s =
     publishing pub ''library: publish SeriesAdded''
       (\<lambda>out. SeriesAdded (se_ID out) (se_TvdbID out) (se_Title out))
       (mapA seriesFromPostgres (wrapA ''library: create series'' (postgres_CreateSeries e s (monitor_new_items s))))"

definition postgresSeries_Get :: "dbenv \<Rightarrow> int \<Rightarrow> (pg_library, Series) act" where
  "postgresSeries_Get e i = rowA (Inl (ErrNotFound ''library: not found'')) ''library: get series''
     seriesFromPostgres (postgres_GetSeries e i)"

definition postgresSeries_GetByTvdbID :: "dbenv \<Rightarrow> int \<Rightarrow> (pg_library, Series) act" where
  "postgresSeries_GetByTvdbID e i = rowA (Inl (ErrNotFound ''library: not found''))
     ''library: get series by tvdb_id'' seriesFromPostgres (postgres_GetSeriesByTvdbID e i)"

definition postgresSeries_GetBySlug :: "dbenv \<Rightarrow> string \<Rightarrow> (pg_library, Series) act" where
  "postgresSeries_GetBySlug e x = rowA (Inl (ErrNotFound ''library: not found''))
     ''library: get series by slug'' seriesFromPostgres (postgres_GetSeriesBySlug e x)"

definition postgresSeries_List :: "(string \<Rightarrow> string) \<Rightarrow> dbenv \<Rightarrow> (pg_library, Series list) act" where
  "postgresSeries_List collate e =
     mapA (map seriesFromPostgres) (wrapA ''library: list series'' (postgres_ListSeries collate e))"

definition postgresSeries_Update :: "pg_publisher \<Rightarrow> dbenv \<Rightarrow> Series \<Rightarrow> (pg_library, unit) act" where
  "postgresSeries_Update pub e s =
     publishing pub ''library: publish SeriesUpdated'' (\<lambda>_. SeriesUpdated (se_ID s) (se_TvdbID s))
       (wrapA ''library: update series'' (postgres_UpdateSeries e s (monitor_new_items s)))"

definition postgresSeries_Delete :: "pg_publisher \<Rightarrow> dbenv \<Rightarrow> int \<Rightarrow> (pg_library, unit) act" where
  "postgresSeries_Delete pub e i =
     publishing pub ''library: publish SeriesDeleted'' (\<lambda>_. SeriesDeleted i)
       (wrapA ''library: delete series'' (postgres_DeleteSeries e i))"

subsection \<open>Seasons\<close>

definition postgres_UpsertSeason :: "dbenv \<Rightarrow> int \<Rightarrow> int \<Rightarrow> bool \<Rightarrow> (pg_library, unit) act" where
  "postgres_UpsertSeason e series_id season_number monitored = stmt e ''UpsertSeason'' (\<lambda>d.
     if list_ex (\<lambda>r. pgn_SeriesID r = series_id \<and> pgn_SeasonNumber r = season_number) (pl_seasons d)
     then (Inr (), d\<lparr>pl_seasons := map (\<lambda>r. if pgn_SeriesID r = series_id \<and> pgn_SeasonNumber r = season_number
             then r\<lparr>pgn_Monitored := monitored\<rparr> else r) (pl_seasons d)\<rparr>)
     else if \<not> pg_has_series d series_id then (Inl (DbError (pg_fk ''seasons_series_id_fkey'')), d)
     else (Inr (), d\<lparr>pl_seasons := pl_seasons d @
          [\<lparr>pgn_SeriesID = series_id, pgn_SeasonNumber = season_number, pgn_Monitored = monitored\<rparr>]\<rparr>))"

definition postgres_GetSeason :: "dbenv \<Rightarrow> int \<Rightarrow> int \<Rightarrow> (pg_library, PgSeason) act" where
  "postgres_GetSeason e series_id season_number = stmt e ''GetSeason'' (\<lambda>d.
     (first_row (filter (\<lambda>r. pgn_SeriesID r = series_id \<and> pgn_SeasonNumber r = season_number) (pl_seasons d)), d))"

definition postgres_ListSeasonsForSeries :: "dbenv \<Rightarrow> int \<Rightarrow> (pg_library, PgSeason list) act" where
  "postgres_ListSeasonsForSeries e series_id = stmt e ''ListSeasonsForSeries'' (\<lambda>d.
     (Inr (sort_key pgn_SeasonNumber (filter (\<lambda>r. pgn_SeriesID r = series_id) (pl_seasons d))), d))"

definition postgres_DeleteSeason :: "dbenv \<Rightarrow> int \<Rightarrow> int \<Rightarrow> (pg_library, unit) act" where
  "postgres_DeleteSeason e series_id season_number = stmt e ''DeleteSeason'' (\<lambda>d.
     (Inr (), d\<lparr>pl_seasons := filter (\<lambda>r. \<not> (pgn_SeriesID r = series_id \<and> pgn_SeasonNumber r = season_number))
        (pl_seasons d)\<rparr>))"

definition seasonFromPostgres :: "PgSeason \<Rightarrow> Season" where
  "seasonFromPostgres r = \<lparr>sea_SeriesID = pgn_SeriesID r, sea_SeasonNumber = pgn_SeasonNumber r,
     sea_Monitored = pgn_Monitored r\<rparr>"

definition postgresSeasons_Upsert :: "pg_publisher \<Rightarrow> dbenv \<Rightarrow> Season \<Rightarrow> (pg_library, unit) act" where
  "postgresSeasons_Upsert pub e s =
     publishing pub ''library: publish SeasonUpdated''
       (\<lambda>_. SeasonUpdated (sea_SeriesID s) (sea_SeasonNumber s) (sea_Monitored s))
       (wrapA ''library: upsert season''
         (postgres_UpsertSeason e (sea_SeriesID s) (sea_SeasonNumber s) (sea_Monitored s)))"

definition postgresSeasons_Get :: "dbenv \<Rightarrow> int \<Rightarrow> int \<Rightarrow> (pg_library, Season) act" where
  "postgresSeasons_Get e i n = rowA (Inl (ErrNotFound ''library: not found'')) ''library: get season''
     seasonFromPostgres (postgres_GetSeason e i n)"

definition postgresSeasons_ListForSeries :: "dbenv \<Rightarrow> int \<Rightarrow> (pg_library, Season list) act" where
  "postgresSeasons_ListForSeries e i =
     mapA (map seasonFromPostgres) (wrapA ''library: list seasons'' (postgres_ListSeasonsForSeries e i))"

definition postgresSeasons_Delete :: "dbenv \<Rightarrow> int \<Rightarrow> int \<Rightarrow> (pg_library, unit) act" where
  "postgresSeasons_Delete e i n = wrapA ''library: delete season'' (postgres_DeleteSeason e i n)"

subsection \<open>Statements on episodes\<close>

text \<open>The nullable columns: a nil pointer is NULL.\<close>

definition pgInt4FromPtr :: "int option \<Rightarrow> int option" where
  "pgInt4FromPtr p = (case p of None \<Rightarrow> None | Some n \<Rightarrow> Some n)"

definition pgInt8FromPtr :: "int option \<Rightarrow> int option" where
  "pgInt8FromPtr p = (case p of None \<Rightarrow> None | Some n \<Rightarrow> Some n)"

definition pgTimestamptzFromPtr :: "int option \<Rightarrow> int option" where
  "pgTimestamptzFromPtr p = (case p of None \<Rightarrow> None | Some t \<Rightarrow> Some (pg_micros t))"

definition ptrFromPgInt4_lib :: "int option \<Rightarrow> int option" where
  "ptrFromPgInt4_lib v = (case v of None \<Rightarrow> None | Some n \<Rightarrow> Some n)"

definition ptrFromPgInt8_lib :: "int option \<Rightarrow> int option" where
  "ptrFromPgInt8_lib v = (case v of None \<Rightarrow> None | Some n \<Rightarrow> Some n)"

definition ptrFromPgTimestamptz_lib :: "int option \<Rightarrow> int option" where
  "ptrFromPgTimestamptz_lib v = (case v of None \<Rightarrow> None | Some m \<Rightarrow> Some (pg_time m))"

definition pg_same_episode :: "Episode \<Rightarrow> PgEpisode \<Rightarrow> bool" where
  "pg_same_episode x r \<longleftrightarrow> pge_SeriesID r = ep_SeriesID x \<and> pge_SeasonNumber r = ep_SeasonNumber x
     \<and> pge_EpisodeNumber r = ep_EpisodeNumber x"

definition pg_new_episode :: "int \<Rightarrow> Episode \<Rightarrow> int \<Rightarrow> PgEpisode" where
  "pg_new_episode now x i = \<lparr>
     pge_ID = i, pge_SeriesID = ep_SeriesID x, pge_SeasonNumber = ep_SeasonNumber x,
     pge_EpisodeNumber = ep_EpisodeNumber x,
     pge_AbsoluteEpisodeNumber = pgInt4FromPtr (ep_AbsoluteEpisodeNumber x),
     pge_Title = ep_Title x, pge_Overview = ep_Overview x,
     pge_AirDateUtc = pgTimestamptzFromPtr (ep_AirDateUtc x),
     pge_Monitored = ep_Monitored x, pge_EpisodeFileID = pgInt8FromPtr (ep_EpisodeFileID x),
     pge_CreatedAt = now, pge_UpdatedAt = now\<rparr>"

definition postgres_CreateEpisode :: "dbenv \<Rightarrow> Episode \<Rightarrow> (pg_library, PgEpisode) act" where
  "postgres_CreateEpisode e x = stmt e ''CreateEpisode'' (\<lambda>d.
     if list_ex (pg_same_episode x) (rows (pl_episodes d))
     then refused (pg_unique ''episodes_series_id_season_number_episode_number_key'') (on_pg_episodes burn) d
     else if \<not> pg_has_series d (ep_SeriesID x)
     then refused (pg_fk ''episodes_series_id_fkey'') (on_pg_episodes burn) d
     else on_pg_episodes (sql_insert (pg_new_episode (pg_micros (env_now e)) x)) d)"

definition postgres_GetEpisode :: "dbenv \<Rightarrow> int \<Rightarrow> (pg_library, PgEpisode) act" where
  "postgres_GetEpisode e i = stmt e ''GetEpisode'' (on_pg_episodes (sql_one (\<lambda>r. pge_ID r = i)))"

definition postgres_ListEpisodesForSeries :: "dbenv \<Rightarrow> int \<Rightarrow> (pg_library, PgEpisode list) act" where
  "postgres_ListEpisodesForSeries e series_id = stmt e ''ListEpisodesForSeries''
     (on_pg_episodes (sql_many (\<lambda>r. pge_SeriesID r = series_id) (\<lambda>r. (pge_SeasonNumber r, pge_EpisodeNumber r))))"

definition pg_set_episode :: "int \<Rightarrow> Episode \<Rightarrow> PgEpisode \<Rightarrow> PgEpisode" where
  "pg_set_episode now x r = r\<lparr>
     pge_AbsoluteEpisodeNumber := pgInt4FromPtr (ep_AbsoluteEpisodeNumber x), pge_Title := ep_Title x,
     pge_Overview := ep_Overview x, pge_AirDateUtc := pgTimestamptzFromPtr (ep_AirDateUtc x),
     pge_Monitored := ep_Monitored x, pge_EpisodeFileID := pgInt8FromPtr (ep_EpisodeFileID x),
     pge_UpdatedAt := now\<rparr>"

definition postgres_UpdateEpisode :: "dbenv \<Rightarrow> Episode \<Rightarrow> (pg_library, unit) act" where
  "postgres_UpdateEpisode e x = stmt e ''UpdateEpisode'' (on_pg_episodes
     (sql_exec (\<lambda>r. pge_ID r = ep_ID x) (pg_set_episode (pg_micros (env_now e)) x)))"

definition postgres_SetEpisodeMonitored :: "dbenv \<Rightarrow> bool \<Rightarrow> int \<Rightarrow> (pg_library, unit) act" where
  "postgres_SetEpisodeMonitored e monitored i = stmt e ''SetEpisodeMonitored'' (on_pg_episodes
     (sql_exec (\<lambda>r. pge_ID r = i) (\<lambda>r. r\<lparr>pge_Monitored := monitored, pge_UpdatedAt := pg_micros (env_now e)\<rparr>)))"

definition postgres_DeleteEpisode :: "dbenv \<Rightarrow> int \<Rightarrow> (pg_library, unit) act" where
  "postgres_DeleteEpisode e i = stmt e ''DeleteEpisode'' (on_pg_episodes (sql_delete (\<lambda>r. pge_ID r = i)))"

definition postgres_CountEpisodesForSeries :: "dbenv \<Rightarrow> int \<Rightarrow> (pg_library, int \<times> int) act" where
  "postgres_CountEpisodesForSeries e series_id = stmt e ''CountEpisodesForSeries'' (\<lambda>d.
     let rs = filter (\<lambda>r. pge_SeriesID r = series_id) (rows (pl_episodes d))
     in (Inr (int (length rs), int (length (filter pge_Monitored rs))), d))"

subsection \<open>The episode store\<close>

definition episodeFromPostgres :: "PgEpisode \<Rightarrow> Episode" where
  "episodeFromPostgres r = \<lparr>
     ep_ID = pge_ID r,
     ep_SeriesID = pge_SeriesID r,
     ep_SeasonNumber = pge_SeasonNumber r,
     ep_EpisodeNumber = pge_EpisodeNumber r,
     ep_AbsoluteEpisodeNumber = ptrFromPgInt4_lib (pge_AbsoluteEpisodeNumber r),
     ep_Title = pge_Title r,
     ep_Overview = pge_Overview r,
     ep_AirDateUtc = ptrFromPgTimestamptz_lib (pge_AirDateUtc r),
     ep_Monitored = pge_Monitored r,
     ep_EpisodeFileID = ptrFromPgInt8_lib (pge_EpisodeFileID r),
     ep_CreatedAt = pg_time (pge_CreatedAt r),
     ep_UpdatedAt = pg_time (pge_UpdatedAt r)\<rparr>"

definition postgresEpisodes_Create :: "pg_publisher \<Rightarrow> dbenv \<Rightarrow> Episode \<Rightarrow> (pg_library, Episode) act" where
  "postgresEpisodes_Create pub e x =
     publishing pub ''library: publish EpisodeAdded'' (\<lambda>out. EpisodeAdded (ep_ID out) (ep_SeriesID out))
       (mapA episodeFromPostgres (wrapA ''library: create episode'' (postgres_CreateEpisode e x)))"

definition postgresEpisodes_Get :: "dbenv \<Rightarrow> int \<Rightarrow> (pg_library, Episode) act" where
  "postgresEpisodes_Get e i = rowA (Inl (ErrNotFound ''library: not found'')) ''library: get episode''
     episodeFromPostgres (postgres_GetEpisode e i)"

definition postgresEpisodes_ListForSeries :: "dbenv \<Rightarrow> int \<Rightarrow> (pg_library, Episode list) act" where
  "postgresEpisodes_ListForSeries e i =
     mapA (map episodeFromPostgres) (wrapA ''library: list episodes'' (postgres_ListEpisodesForSeries e i))"

text \<open>In Postgres NULL sorts after every air date, in SQLite before.\<close>

definition nulls_last :: "int option \<Rightarrow> bool \<times> int" where
  "nulls_last v = (case v of None \<Rightarrow> (True, 0) | Some t \<Rightarrow> (False, t))"

definition postgresEpisodes_ListAll :: "dbenv \<Rightarrow> (pg_library, Episode list) act" where
  "postgresEpisodes_ListAll e = mapA (map episodeFromPostgres) (wrapA ''library: list all episodes''
     (stmt e ''ListAllEpisodes'' (on_pg_episodes (sql_many (\<lambda>_. True) (\<lambda>r. nulls_last (pge_AirDateUtc r))))))"

definition postgresEpisodes_Update :: "pg_publisher \<Rightarrow> dbenv \<Rightarrow> Episode \<Rightarrow> (pg_library, unit) act" where
  "postgresEpisodes_Update pub e x =
     publishing pub ''library: publish EpisodeUpdated'' (\<lambda>_. EpisodeUpdated (ep_ID x) (ep_SeriesID x))
       (wrapA ''library: update episode'' (postgres_UpdateEpisode e x))"

definition postgresEpisodes_SetMonitored :: "pg_publisher \<Rightarrow> dbenv \<Rightarrow> int \<Rightarrow> bool \<Rightarrow> (pg_library, unit) act" where
  "postgresEpisodes_SetMonitored pub e i monitored =
     bindA (rowA (Inl (ErrNotFound ''library: not found'')) ''library: set monitored (lookup)'' id
             (postgres_GetEpisode e i))
       (\<lambda>row. publishing pub ''library: publish EpisodeUpdated'' (\<lambda>_. EpisodeUpdated i (pge_SeriesID row))
          (wrapA ''library: set monitored'' (postgres_SetEpisodeMonitored e monitored i)))"

definition postgresEpisodes_Delete :: "pg_publisher \<Rightarrow> dbenv \<Rightarrow> int \<Rightarrow> (pg_library, unit) act" where
  "postgresEpisodes_Delete pub e i =
     bindA (rowA (Inl (ErrNotFound ''library: not found'')) ''library: delete episode (lookup)'' id
             (postgres_GetEpisode e i))
       (\<lambda>row. publishing pub ''library: publish EpisodeDeleted'' (\<lambda>_. EpisodeDeleted i (pge_SeriesID row))
          (wrapA ''library: delete episode'' (postgres_DeleteEpisode e i)))"

definition postgresEpisodes_CountForSeries :: "dbenv \<Rightarrow> int \<Rightarrow> (pg_library, int \<times> int) act" where
  "postgresEpisodes_CountForSeries e i = wrapA ''library: count episodes'' (postgres_CountEpisodesForSeries e i)"

subsection \<open>Episode files\<close>

definition pg_new_file :: "int \<Rightarrow> EpisodeFile \<Rightarrow> int \<Rightarrow> PgEpisodeFile" where
  "pg_new_file now x i = \<lparr>
     pgf_ID = i, pgf_SeriesID = ef_SeriesID x, pgf_SeasonNumber = ef_SeasonNumber x,
     pgf_RelativePath = ef_RelativePath x, pgf_Size = ef_Size x, pgf_DateAdded = now,
     pgf_ReleaseGroup = ef_ReleaseGroup x, pgf_QualityName = ef_QualityName x,
     pgf_CreatedAt = now, pgf_UpdatedAt = now\<rparr>"

definition postgres_CreateEpisodeFile :: "dbenv \<Rightarrow> EpisodeFile \<Rightarrow> (pg_library, PgEpisodeFile) act" where
  "postgres_CreateEpisodeFile e x = stmt e ''CreateEpisodeFile'' (\<lambda>d.
     if \<not> pg_has_series d (ef_SeriesID x) then refused (pg_fk ''episode_files_series_id_fkey'') (on_pg_files burn) d
     else on_pg_files (sql_insert (pg_new_file (pg_micros (env_now e)) x)) d)"

definition postgres_GetEpisodeFile :: "dbenv \<Rightarrow> int \<Rightarrow> (pg_library, PgEpisodeFile) act" where
  "postgres_GetEpisodeFile e i = stmt e ''GetEpisodeFile'' (on_pg_files (sql_one (\<lambda>r. pgf_ID r = i)))"

definition postgres_ListEpisodeFilesForSeries ::
  "(string \<Rightarrow> string) \<Rightarrow> dbenv \<Rightarrow> int \<Rightarrow> (pg_library, PgEpisodeFile list) act" where
  "postgres_ListEpisodeFilesForSeries collate e series_id = stmt e ''ListEpisodeFilesForSeries''
     (on_pg_files (sql_many (\<lambda>r. pgf_SeriesID r = series_id) (\<lambda>r. (pgf_SeasonNumber r, collate (pgf_RelativePath r)))))"

definition postgres_DeleteEpisodeFile :: "dbenv \<Rightarrow> int \<Rightarrow> (pg_library, unit) act" where
  "postgres_DeleteEpisodeFile e i = stmt e ''DeleteEpisodeFile'' (on_pg_files (sql_delete (\<lambda>r. pgf_ID r = i)))"

definition postgres_SumEpisodeFileSizesForSeries :: "dbenv \<Rightarrow> int \<Rightarrow> (pg_library, int \<times> int) act" where
  "postgres_SumEpisodeFileSizesForSeries e series_id = stmt e ''SumEpisodeFileSizesForSeries'' (\<lambda>d.
     let rs = filter (\<lambda>r. pgf_SeriesID r = series_id) (rows (pl_files d))
     in (Inr (int (length rs), sum_list (map pgf_Size rs)), d))"

definition episodeFileFromPostgres :: "PgEpisodeFile \<Rightarrow> EpisodeFile" where
  "episodeFileFromPostgres r = \<lparr>
     ef_ID = pgf_ID r,
     ef_SeriesID = pgf_SeriesID r,
     ef_SeasonNumber = pgf_SeasonNumber r,
     ef_RelativePath = pgf_RelativePath r,
     ef_Size = pgf_Size r,
     ef_DateAdded = pg_time (pgf_DateAdded r),
     ef_ReleaseGroup = pgf_ReleaseGroup r,
     ef_QualityName = pgf_QualityName r,
     ef_CreatedAt = pg_time (pgf_CreatedAt r),
     ef_UpdatedAt = pg_time (pgf_UpdatedAt r)\<rparr>"

definition postgresFiles_Create :: "pg_publisher \<Rightarrow> dbenv \<Rightarrow> EpisodeFile \<Rightarrow> (pg_library, EpisodeFile) act" where
  "postgresFiles_Create pub e x =
     publishing pub ''library: publish EpisodeFileAdded''
       (\<lambda>out. EpisodeFileAdded (ef_ID out) (ef_SeriesID out) (ef_Size out))
       (mapA episodeFileFromPostgres (wrapA ''library: create episode file'' (postgres_CreateEpisodeFile e x)))"

definition postgresFiles_Get :: "dbenv \<Rightarrow> int \<Rightarrow> (pg_library, EpisodeFile) act" where
  "postgresFiles_Get e i = rowA (Inl (ErrNotFound ''library: not found'')) ''library: get episode file''
     episodeFileFromPostgres (postgres_GetEpisodeFile e i)"

definition postgresFiles_ListForSeries ::
  "(string \<Rightarrow> string) \<Rightarrow> dbenv \<Rightarrow> int \<Rightarrow> (pg_library, EpisodeFile list) act" where
  "postgresFiles_ListForSeries collate e i = mapA (map episodeFileFromPostgres)
     (wrapA ''library: list episode files'' (postgres_ListEpisodeFilesForSeries collate e i))"

definition postgresFiles_Delete :: "pg_publisher \<Rightarrow> dbenv \<Rightarrow> int \<Rightarrow> (pg_library, unit) act" where
  "postgresFiles_Delete pub e i =
     bindA (rowA (Inl (ErrNotFound ''library: not found'')) ''library: delete episode file (lookup)'' id
             (postgres_GetEpisodeFile e i))
       (\<lambda>row. publishing pub ''library: publish EpisodeFileDeleted'' (\<lambda>_. EpisodeFileDeleted i (pgf_SeriesID row))
          (wrapA ''library: delete episode file'' (postgres_DeleteEpisodeFile e i)))"

definition postgresFiles_SumSizesForSeries :: "dbenv \<Rightarrow> int \<Rightarrow> (pg_library, int \<times> int) act" where
  "postgresFiles_SumSizesForSeries e i =
     wrapA ''library: sum episode file sizes'' (postgres_SumEpisodeFileSizesForSeries e i)"

subsection \<open>Statistics\<close>

definition postgres_GetSeriesStatistics :: "dbenv \<Rightarrow> int \<Rightarrow> (pg_library, PgStatistic) act" where
  "postgres_GetSeriesStatistics e i = stmt e ''GetSeriesStatistics''
     (\<lambda>d. (first_row (filter (\<lambda>r. pgt_SeriesID r = i) (pl_stats d)), d))"

definition postgres_UpsertSeriesStatistics ::
  "dbenv \<Rightarrow> int \<Rightarrow> int \<Rightarrow> int \<Rightarrow> int \<Rightarrow> int \<Rightarrow> (pg_library, unit) act" where
  "postgres_UpsertSeriesStatistics e series_id eps files monitored size_on_disk = stmt e ''UpsertSeriesStatistics'' (\<lambda>d.
     let row = \<lparr>pgt_SeriesID = series_id, pgt_EpisodeCount = eps, pgt_EpisodeFileCount = files,
                pgt_MonitoredEpisodeCount = monitored, pgt_SizeOnDisk = size_on_disk,
                pgt_UpdatedAt = pg_micros (env_now e)\<rparr>
     in if list_ex (\<lambda>r. pgt_SeriesID r = series_id) (pl_stats d)
        then (Inr (), d\<lparr>pl_stats := map (\<lambda>r. if pgt_SeriesID r = series_id then row else r) (pl_stats d)\<rparr>)
        else if \<not> pg_has_series d series_id then (Inl (DbError (pg_fk ''series_statistics_series_id_fkey'')), d)
        else (Inr (), d\<lparr>pl_stats := pl_stats d @ [row]\<rparr>))"

definition postgres_DeleteSeriesStatistics :: "dbenv \<Rightarrow> int \<Rightarrow> (pg_library, unit) act" where
  "postgres_DeleteSeriesStatistics e i = stmt e ''DeleteSeriesStatistics''
     (\<lambda>d. (Inr (), d\<lparr>pl_stats := filter (\<lambda>r. pgt_SeriesID r \<noteq> i) (pl_stats d)\<rparr>))"

definition postgresStats_Get :: "dbenv \<Rightarrow> int \<Rightarrow> (pg_library, SeriesStatistics) act" where
  "postgresStats_Get e i = rowA (Inl (ErrNotFound ''library: not found'')) ''library: get series stats''
     (\<lambda>row. \<lparr>ss_SeriesID = pgt_SeriesID row, ss_EpisodeCount = pgt_EpisodeCount row,
            ss_EpisodeFileCount = pgt_EpisodeFileCount row,
            ss_MonitoredEpisodeCount = pgt_MonitoredEpisodeCount row,
            ss_SizeOnDisk = pgt_SizeOnDisk row, ss_UpdatedAt = pg_time (pgt_UpdatedAt row)\<rparr>)
     (postgres_GetSeriesStatistics e i)"

definition postgresStats_Recompute :: "dbenv \<Rightarrow> int \<Rightarrow> (pg_library, unit) act" where
  "postgresStats_Recompute e seriesID =
     bindA (wrapA ''library: recompute derive''
             (derive (postgresEpisodes_CountForSeries e) (postgresFiles_SumSizesForSeries e) seriesID)) (\<lambda>stats.
       wrapA ''library: upsert series stats''
         (postgres_UpsertSeriesStatistics e (ss_SeriesID stats) (ss_EpisodeCount stats)
            (ss_EpisodeFileCount stats) (ss_MonitoredEpisodeCount stats) (ss_SizeOnDisk stats)))"

definition postgresStats_Delete :: "dbenv \<Rightarrow> int \<Rightarrow> (pg_library, unit) act" where
  "postgresStats_Delete e i = wrapA ''library: delete series stats'' (postgres_DeleteSeriesStatistics e i)"

text \<open>The subscribers of internal/app/app.go, registered for this engine's statistics store.\<close>

definition pg_app_publish :: "dbenv \<Rightarrow> pg_publisher" where
  "pg_app_publish e = bus_publish (stats_bus (postgresStats_Delete e) (postgresStats_Recompute e))"

subsection \<open>Two catalogues that hold the same\<close>

text \<open>Rows that agree in everything but their timestamps, tables of such rows.\<close>

definition same_series :: "SqSeries \<Rightarrow> PgSeries \<Rightarrow> bool" where
  "same_series r q \<longleftrightarrow> sr_ID r = pgs_ID q \<and> sr_TvdbID r = pgs_TvdbID q \<and> sr_Title r = pgs_Title q
     \<and> sr_Slug r = pgs_Slug q \<and> sr_Status r = pgs_Status q \<and> sr_SeriesType r = pgs_SeriesType q
     \<and> sr_Path r = pgs_Path q \<and> sr_Monitored r = boolToInt64 (pgs_Monitored q)
     \<and> sr_QualityProfileID r = pgs_QualityProfileID q \<and> sr_SeasonFolder r = boolToInt64 (pgs_SeasonFolder q)
     \<and> sr_MonitorNewItems r = pgs_MonitorNewItems q"

definition same_season :: "SqSeason \<Rightarrow> PgSeason \<Rightarrow> bool" where
  "same_season r q \<longleftrightarrow> sn_SeriesID r = pgn_SeriesID q \<and> sn_SeasonNumber r = pgn_SeasonNumber q
     \<and> sn_Monitored r = boolToInt64 (pgn_Monitored q)"

definition same_episode :: "SqEpisode \<Rightarrow> PgEpisode \<Rightarrow> bool" where
  "same_episode r q \<longleftrightarrow> sp_ID r = pge_ID q \<and> sp_SeriesID r = pge_SeriesID q \<and> sp_SeasonNumber r = pge_SeasonNumber q
     \<and> sp_EpisodeNumber r = pge_EpisodeNumber q \<and> sp_AbsoluteEpisodeNumber r = pge_AbsoluteEpisodeNumber q
     \<and> sp_Title r = pge_Title q \<and> sp_Overview r = pge_Overview q
     \<and> (sp_AirDateUtc r = None \<longleftrightarrow> pge_AirDateUtc q = None)
     \<and> sp_Monitored r = boolToInt64 (pge_Monitored q) \<and> sp_EpisodeFileID r = pge_EpisodeFileID q"

definition same_file :: "SqEpisodeFile \<Rightarrow> PgEpisodeFile \<Rightarrow> bool" where
  "same_file r q \<longleftrightarrow> sf_ID r = pgf_ID q \<and> sf_SeriesID r = pgf_SeriesID q \<and> sf_SeasonNumber r = pgf_SeasonNumber q
     \<and> sf_RelativePath r = pgf_RelativePath q \<and> sf_Size r = pgf_Size q \<and> sf_ReleaseGroup r = pgf_ReleaseGroup q
     \<and> sf_QualityName r = pgf_QualityName q"

definition same_stat :: "SqStatistic \<Rightarrow> PgStatistic \<Rightarrow> bool" where
  "same_stat r q \<longleftrightarrow> st_SeriesID r = pgt_SeriesID q \<and> st_EpisodeCount r = pgt_EpisodeCount q
     \<and> st_EpisodeFileCount r = pgt_EpisodeFileCount q \<and> st_MonitoredEpisodeCount r = pgt_MonitoredEpisodeCount q
     \<and> st_SizeOnDisk r = pgt_SizeOnDisk q"

definition mirrors :: "library_db \<Rightarrow> pg_library \<Rightarrow> bool" where
  "mirrors a b \<longleftrightarrow> list_all2 same_series (rows (db_series a)) (rows (pl_series b))
     \<and> list_all2 same_season (db_seasons a) (pl_seasons b)
     \<and> list_all2 same_episode (rows (db_episodes a)) (rows (pl_episodes b))
     \<and> list_all2 same_file (rows (db_files a)) (rows (pl_files b))
     \<and> list_all2 same_stat (db_stats a) (pl_stats b)
     \<and> db_quality_profiles a = pl_quality_profiles b"

text \<open>The ids the engines give next. A Postgres sequence may be ahead.\<close>

definition counters :: "library_db \<Rightarrow> int list" where
  "counters a = [next_id (db_series a), next_id (db_episodes a), next_id (db_files a)]"

definition pg_counters :: "pg_library \<Rightarrow> int list" where
  "pg_counters b = [next_id (pl_series b), next_id (pl_episodes b), next_id (pl_files b)]"

definition agree ::
  "('a \<Rightarrow> 'b \<Rightarrow> bool) \<Rightarrow> (store_error, 'a) result \<times> library_db \<Rightarrow> (store_error, 'b) result \<times> pg_library \<Rightarrow> bool" where
  "agree R p q \<longleftrightarrow> mirrors (snd p) (snd q) \<and>
     (case (fst p, fst q) of
        (Inr x, Inr y) \<Rightarrow> R x y \<and> counters (snd p) = pg_counters (snd q)
      | (Inl x, Inl y) \<Rightarrow> list_all2 (\<le>) (counters (snd p)) (pg_counters (snd q))
      | _ \<Rightarrow> False)"

subsection \<open>The statements on related tables\<close>

lemma rel_map_rows:
  assumes "list_all2 R xs ys" "\<And>x y. R x y \<Longrightarrow> p x = q y" "\<And>x y. R x y \<Longrightarrow> R (f x) (g y)"
  shows "list_all2 R (map (\<lambda>r. if p r then f r else r) xs) (map (\<lambda>r. if q r then g r else r) ys)"
  using assms(1) by (auto simp: list.rel_map assms(2,3) elim!: list_all2_mono)

lemma rel_filter_rows:
  assumes "list_all2 R xs ys" "\<And>x y. R x y \<Longrightarrow> p x = q y"
  shows "list_all2 R (filter p xs) (filter q ys)"
  using assms(1) by (induction rule: list_all2_induct) (auto simp: assms(2))

lemma rel_ex:
  assumes "list_all2 R xs ys" "\<And>x y. R x y \<Longrightarrow> p x = q y"
  shows "(\<exists>x\<in>set xs. p x) \<longleftrightarrow> list_ex q ys"
  using assms(1) by (induction rule: list_all2_induct) (auto simp: assms(2))

lemma rel_all:
  assumes "list_all2 R xs ys" "\<And>x y. R x y \<Longrightarrow> p x = q y"
  shows "(\<forall>x\<in>set xs. p x) \<longleftrightarrow> (\<forall>y\<in>set ys. q y)"
  using assms(1) by (induction rule: list_all2_induct) (auto simp: assms(2))

lemma rel_map_eq:
  assumes "list_all2 R xs ys" "\<And>x y. R x y \<Longrightarrow> f x = g y"
  shows "map f xs = map g ys"
  using assms(1) by (induction rule: list_all2_induct) (auto simp: assms(2))

lemma rel_tbl:
  assumes "list_all2 R (rows t) (rows u)" "\<And>x y. R x y \<Longrightarrow> rid x = rid' y"
  shows "rel_option R (tbl rid t i) (tbl rid' u i)"
  using assms(1) unfolding tbl_def by (induction rule: list_all2_induct) (auto simp: assms(2))

lemma mirrors_has_series:
  assumes "mirrors a b"
  shows "has_series a i = pg_has_series b i"
proof -
  have "rel_option same_series (tbl sr_ID (db_series a) i) (tbl pgs_ID (pl_series b) i)"
    using assms by (intro rel_tbl) (auto simp: mirrors_def same_series_def)
  then show ?thesis by (auto simp: has_series_def pg_has_series_def rel_option_iff split: option.splits)
qed

lemma mirrors_profile: "mirrors a b \<Longrightarrow> qp_exists v a = pg_profile_exists v b"
  by (auto simp: mirrors_def qp_exists_def pg_profile_exists_def split: option.split)

lemma mirrors_series_unique:
  assumes "mirrors a b"
  shows "series_unique self s a \<longleftrightarrow> \<not> list_ex (pg_series_clash self s) (rows (pl_series b))"
proof -
  have "(\<exists>r\<in>set (rows (db_series a)). Some (sr_ID r) \<noteq> self \<and>
      (sr_TvdbID r = se_TvdbID s \<or> sr_Slug r = se_Slug s \<or> sr_Path r = se_Path s))
      \<longleftrightarrow> list_ex (pg_series_clash self s) (rows (pl_series b))"
    using assms by (intro rel_ex [where R = same_series]) (auto simp: mirrors_def same_series_def pg_series_clash_def)
  then show ?thesis by (auto simp: series_unique_def)
qed

lemma mirrors_episode_unique:
  assumes "mirrors a b"
  shows "episode_unique x a \<longleftrightarrow> \<not> list_ex (pg_same_episode x) (rows (pl_episodes b))"
proof -
  have "(\<exists>r\<in>set (rows (db_episodes a)). (sp_SeriesID r, sp_SeasonNumber r, sp_EpisodeNumber r)
      = (ep_SeriesID x, ep_SeasonNumber x, ep_EpisodeNumber x)) \<longleftrightarrow> list_ex (pg_same_episode x) (rows (pl_episodes b))"
    using assms by (intro rel_ex [where R = same_episode]) (auto simp: mirrors_def same_episode_def pg_same_episode_def)
  then show ?thesis by (auto simp: episode_unique_def)
qed

text \<open>The counts of a series, as the Postgres tables have them.\<close>

definition pg_counts :: "pg_library \<Rightarrow> int \<Rightarrow> int \<times> int \<times> int \<times> int" where
  "pg_counts b i =
     (let eps = filter (\<lambda>r. pge_SeriesID r = i) (rows (pl_episodes b));
          fs = filter (\<lambda>r. pgf_SeriesID r = i) (rows (pl_files b))
      in (wrap32 (int (length eps)), wrap32 (int (length fs)),
          wrap32 (int (length (filter pge_Monitored eps))), sum_list (map pgf_Size fs)))"

lemma mirrors_counts:
  assumes "mirrors a b"
  shows "counts a i = pg_counts b i"
proof -
  have eps: "list_all2 same_episode (filter (\<lambda>r. sp_SeriesID r = i) (rows (db_episodes a)))
      (filter (\<lambda>r. pge_SeriesID r = i) (rows (pl_episodes b)))"
    using assms by (intro rel_filter_rows) (auto simp: mirrors_def same_episode_def)
  have fs: "list_all2 same_file (filter (\<lambda>r. sf_SeriesID r = i) (rows (db_files a)))
      (filter (\<lambda>r. pgf_SeriesID r = i) (rows (pl_files b)))"
    using assms by (intro rel_filter_rows) (auto simp: mirrors_def same_file_def)
  have mon: "list_all2 same_episode (filter (\<lambda>r. sp_Monitored r = 1) (filter (\<lambda>r. sp_SeriesID r = i) (rows (db_episodes a))))
      (filter pge_Monitored (filter (\<lambda>r. pge_SeriesID r = i) (rows (pl_episodes b))))"
    using eps by (rule rel_filter_rows) (auto simp: same_episode_def boolToInt64_def)
  have "map sf_Size (filter (\<lambda>r. sf_SeriesID r = i) (rows (db_files a)))
      = map pgf_Size (filter (\<lambda>r. pgf_SeriesID r = i) (rows (pl_files b)))"
    using fs by (rule rel_map_eq) (simp add: same_file_def)
  then show ?thesis
    unfolding counts_def pg_counts_def Let_def
    by (simp only: list_all2_lengthD [OF eps] list_all2_lengthD [OF fs] list_all2_lengthD [OF mon])
qed

subsection \<open>The writing operations simulate each other\<close>

definition in_step :: "library_db \<Rightarrow> pg_library \<Rightarrow> bool" where
  "in_step a b \<longleftrightarrow> mirrors a b \<and> counters a = pg_counters b"

lemma agree_failed: "in_step a b \<Longrightarrow> agree R (Inl x, a) (Inl y, b)"
  by (simp add: in_step_def agree_def pg_counters_def)

lemma agree_done: "in_step a b \<Longrightarrow> R x y \<Longrightarrow> agree R (Inr x, a) (Inr y, b)"
  by (simp add: in_step_def agree_def)

lemma agree_cases:
  assumes "agree R p q"
  obtains (failed) x y where "fst p = Inl x" "fst q = Inl y" "mirrors (snd p) (snd q)"
      "list_all2 (\<le>) (counters (snd p)) (pg_counters (snd q))"
    | (succeeded) x y where "fst p = Inr x" "fst q = Inr y" "R x y" "in_step (snd p) (snd q)"
  using assms by (auto simp: agree_def in_step_def split: sum.splits)

lemma agree_wrap:
  assumes "agree R (m a) (n b)"
  shows "agree R (wrapA msg m a) (wrapA msg' n b)"
  using assms by (auto simp: agree_def wrapA_def split: sum.splits prod.splits)

lemma agree_map:
  assumes "agree R (m a) (n b)" "\<And>x y. R x y \<Longrightarrow> R' (f x) (g y)"
  shows "agree R' (mapA f m a) (mapA g n b)"
  using assms by (auto simp: agree_def mapA_def split: sum.splits prod.splits)

lemma agree_bind:
  assumes "agree R (m a) (n b)" "\<And>x y a' b'. R x y \<Longrightarrow> in_step a' b' \<Longrightarrow> agree R' (f x a') (g y b')"
  shows "agree R' (bindA m f a) (bindA n g b)"
  using assms(1)
proof (cases rule: agree_cases)
  case (failed x y)
  then show ?thesis by (cases "m a"; cases "n b") (auto simp: bindA_def agree_def)
next
  case (succeeded x y)
  then show ?thesis using assms(2) [of x y] by (cases "m a"; cases "n b") (auto simp: bindA_def)
qed

lemma agree_publishing:
  assumes "agree R (m a) (n b)" "\<And>x y. R x y \<Longrightarrow> ev x = ev' y"
    and "\<And>v a' b'. in_step a' b' \<Longrightarrow> agree (=) (pub v a') (pub' v b')"
  shows "agree R (publishing pub msg ev m a) (publishing pub' msg ev' n b)"
  unfolding publishing_def
proof (rule agree_bind [where m = m and n = n and R = R])
  show "agree R (m a) (n b)" by (rule assms(1))
next
  fix x y a' b' assume "R x y" "in_step a' b'"
  then have "agree (=) (wrapA msg (pub (ev x)) a') (wrapA msg (pub' (ev' y)) b')"
    using assms(2,3) by (intro agree_wrap) simp
  then show "agree R (bindA (wrapA msg (pub (ev x))) (\<lambda>_. retA x) a') (bindA (wrapA msg (pub' (ev' y))) (\<lambda>_. retA y) b')"
    by (rule agree_bind [where R = "(=)" and m = "wrapA msg (pub (ev x))" and n = "wrapA msg (pub' (ev' y))"])
      (use \<open>R x y\<close> in \<open>auto simp: retA_def intro: agree_done\<close>)
qed

lemmas in_step_defs = in_step_def mirrors_def counters_def pg_counters_def
lemmas pg_lift_defs = on_pg_series_def on_pg_episodes_def on_pg_files_def refused_def burn_def

text \<open>The statistics subscribers.\<close>

lemma derive_pg:
  assumes "quiet e"
  shows "derive (postgresEpisodes_CountForSeries e) (postgresFiles_SumSizesForSeries e) i b =
    (Inr \<lparr>ss_SeriesID = i, ss_EpisodeCount = fst (pg_counts b i),
      ss_EpisodeFileCount = fst (snd (pg_counts b i)), ss_MonitoredEpisodeCount = fst (snd (snd (pg_counts b i))),
      ss_SizeOnDisk = snd (snd (snd (pg_counts b i))), ss_UpdatedAt = 0\<rparr>, b)"
  using assms
  by (simp add: derive_def postgresEpisodes_CountForSeries_def postgresFiles_SumSizesForSeries_def
      postgres_CountEpisodesForSeries_def postgres_SumEpisodeFileSizesForSeries_def act_defs Let_def pg_counts_def)

lemma in_step_stats:
  assumes "in_step a b" "list_all2 same_stat v w"
  shows "in_step (a\<lparr>db_stats := v\<rparr>) (b\<lparr>pl_stats := w\<rparr>)"
  using assms by (simp add: in_step_defs)

lemma recompute_agree:
  assumes "in_step a b" "quiet e"
  shows "agree (=) (sqliteStats_Recompute e i a) (postgresStats_Recompute e i b)"
proof -
  have m: "mirrors a b" using assms(1) by (simp add: in_step_def)
  have st: "list_all2 same_stat (db_stats a) (pl_stats b)" using m by (simp add: mirrors_def)
  note ex = rel_ex [OF st, of "\<lambda>r. st_SeriesID r = i" "\<lambda>r. pgt_SeriesID r = i"]
  define ra where "ra = \<lparr>st_SeriesID = i, st_EpisodeCount = fst (counts a i),
      st_EpisodeFileCount = fst (snd (counts a i)), st_MonitoredEpisodeCount = fst (snd (snd (counts a i))),
      st_SizeOnDisk = snd (snd (snd (counts a i))), st_UpdatedAt = sqlite_format (env_now e)\<rparr>"
  define rb where "rb = \<lparr>pgt_SeriesID = i, pgt_EpisodeCount = fst (pg_counts b i),
      pgt_EpisodeFileCount = fst (snd (pg_counts b i)), pgt_MonitoredEpisodeCount = fst (snd (snd (pg_counts b i))),
      pgt_SizeOnDisk = snd (snd (snd (pg_counts b i))), pgt_UpdatedAt = pg_micros (env_now e)\<rparr>"
  have same: "same_stat ra rb" by (simp add: ra_def rb_def same_stat_def mirrors_counts [OF m])
  have maps: "list_all2 same_stat (map (\<lambda>r. if st_SeriesID r = i then ra else r) (db_stats a))
      (map (\<lambda>r. if pgt_SeriesID r = i then rb else r) (pl_stats b))"
    using st by (rule rel_map_rows) (auto simp: same_stat_def same [unfolded same_stat_def])
  have run: "sqliteStats_Recompute e i a =
      (if list_ex (\<lambda>r. pgt_SeriesID r = i) (pl_stats b)
       then (Inr (), a\<lparr>db_stats := map (\<lambda>r. if st_SeriesID r = i then ra else r) (db_stats a)\<rparr>)
       else if has_series a i then (Inr (), a\<lparr>db_stats := db_stats a @ [ra]\<rparr>)
       else (Inl (Wrap ''library: upsert series stats'' (DbError fk_failed)), a))"
    using assms(2) ex
    by (auto simp: sqliteStats_Recompute_def derive_quiet act_defs sqlite_UpsertSeriesStatistics_def
        Let_def require_def ra_def same_stat_def)
  have run': "postgresStats_Recompute e i b =
      (if list_ex (\<lambda>r. pgt_SeriesID r = i) (pl_stats b)
       then (Inr (), b\<lparr>pl_stats := map (\<lambda>r. if pgt_SeriesID r = i then rb else r) (pl_stats b)\<rparr>)
       else if pg_has_series b i then (Inr (), b\<lparr>pl_stats := pl_stats b @ [rb]\<rparr>)
       else (Inl (Wrap ''library: upsert series stats'' (DbError (pg_fk ''series_statistics_series_id_fkey''))), b))"
    using assms(2)
    by (simp add: postgresStats_Recompute_def derive_pg act_defs postgres_UpsertSeriesStatistics_def Let_def rb_def)
  show ?thesis
    unfolding run run' using assms(1) st same maps
    by (auto simp: mirrors_has_series [OF m] intro!: agree_done agree_failed in_step_stats list_all2_appendI)
qed

lemma publish_agree:
  assumes "quiet e" "in_step a b"
  shows "agree (=) (app_publish e v a) (pg_app_publish e v b)"
proof -
  have del: "agree (=) (sqliteStats_Delete e i a) (postgresStats_Delete e i b)" for i
    using assms
    by (auto simp: sqliteStats_Delete_def postgresStats_Delete_def sqlite_DeleteSeriesStatistics_def
        postgres_DeleteSeriesStatistics_def act_defs in_step_defs same_stat_def
        intro!: agree_done in_step_stats rel_filter_rows [where R = same_stat])
  show ?thesis
    unfolding app_publish_def pg_app_publish_def bus_publish_eq
    using assms del recompute_agree [OF assms(2,1)] by (cases v) (auto simp: retA_def intro: agree_done)
qed

text \<open>Changes of one table on both sides.\<close>

lemma in_step_tables:
  assumes "in_step a b"
  shows "list_all2 same_series (rows t) (rows u) \<Longrightarrow> next_id t = next_id u \<Longrightarrow> in_step (a\<lparr>db_series := t\<rparr>) (b\<lparr>pl_series := u\<rparr>)"
    and "list_all2 same_episode (rows t') (rows u') \<Longrightarrow> next_id t' = next_id u' \<Longrightarrow>
      in_step (a\<lparr>db_episodes := t'\<rparr>) (b\<lparr>pl_episodes := u'\<rparr>)"
    and "list_all2 same_file (rows t'') (rows u'') \<Longrightarrow> next_id t'' = next_id u'' \<Longrightarrow>
      in_step (a\<lparr>db_files := t''\<rparr>) (b\<lparr>pl_files := u''\<rparr>)"
    and "list_all2 same_season v w \<Longrightarrow> in_step (a\<lparr>db_seasons := v\<rparr>) (b\<lparr>pl_seasons := w\<rparr>)"
  using assms by (simp_all add: in_step_defs)

lemma in_step_rows:
  assumes "in_step a b"
  shows "list_all2 same_series (rows (db_series a)) (rows (pl_series b))" "next_id (db_series a) = next_id (pl_series b)"
    and "list_all2 same_episode (rows (db_episodes a)) (rows (pl_episodes b))" "next_id (db_episodes a) = next_id (pl_episodes b)"
    and "list_all2 same_file (rows (db_files a)) (rows (pl_files b))" "next_id (db_files a) = next_id (pl_files b)"
    and "list_all2 same_season (db_seasons a) (pl_seasons b)" "list_all2 same_stat (db_stats a) (pl_stats b)"
  using assms by (simp_all add: in_step_defs)

lemma in_step_guards:
  assumes "in_step a b"
  shows "has_series a i = pg_has_series b i" "qp_exists v a = pg_profile_exists v b"
    and "series_unique self s a \<longleftrightarrow> \<not> list_ex (pg_series_clash self s) (rows (pl_series b))"
    and "episode_unique x a \<longleftrightarrow> \<not> list_ex (pg_same_episode x) (rows (pl_episodes b))"
  using assms mirrors_has_series mirrors_profile mirrors_series_unique mirrors_episode_unique
  by (simp_all add: in_step_def)

lemma agree_burnt:
  assumes "in_step a b"
  shows "agree R (Inl x, a) (Inl y, b\<lparr>pl_series := pl_series b\<lparr>next_id := next_id (pl_series b) + 1\<rparr>\<rparr>)"
    and "agree R (Inl x, a) (Inl y, b\<lparr>pl_episodes := pl_episodes b\<lparr>next_id := next_id (pl_episodes b) + 1\<rparr>\<rparr>)"
    and "agree R (Inl x, a) (Inl y, b\<lparr>pl_files := pl_files b\<lparr>next_id := next_id (pl_files b) + 1\<rparr>\<rparr>)"
  using assms by (simp_all add: agree_def in_step_defs)

definition profile_fits :: "Series \<Rightarrow> bool" where
  "profile_fits s \<longleftrightarrow> int32_range (se_QualityProfileID s)"

lemma profile_param: "profile_fits s \<Longrightarrow> qualityProfileIDToPg (se_QualityProfileID s) = qp_param (se_QualityProfileID s)"
  by (simp add: profile_fits_def qualityProfileIDToPg_def qp_param_def)

lemma create_series_agree:
  assumes "in_step a b" "quiet e" "profile_fits s"
  shows "agree same_series (sqlite_CreateSeries e s m a) (postgres_CreateSeries e s m b)"
  using assms(1,2) in_step_guards [OF assms(1)] profile_param [OF assms(3)] in_step_rows [OF assms(1)]
  by (auto simp: sqlite_CreateSeries_def postgres_CreateSeries_def lift_defs pg_lift_defs sql_insert_def pg_new_series_def
      same_series_def intro!: agree_burnt agree_done in_step_tables list_all2_appendI)

lemma update_series_agree:
  assumes "in_step a b" "quiet e" "profile_fits s"
  shows "agree (=) (sqlite_UpdateSeries e s m a) (postgres_UpdateSeries e s m b)"
  using assms(1,2) in_step_guards [OF assms(1)] profile_param [OF assms(3)] in_step_rows [OF assms(1)]
  by (auto simp: sqlite_UpdateSeries_def postgres_UpdateSeries_def lift_defs pg_lift_defs sql_exec_def upd_rows_def pg_set_series_def
      same_series_def intro!: agree_failed agree_done in_step_tables rel_map_rows [where R = same_series])

lemma in_step_cascade:
  assumes "in_step a b"
  shows "in_step (cascade i a) (pg_cascade i b)"
  using assms
  by (auto simp: in_step_defs cascade_def pg_cascade_def del_rows_def same_series_def same_season_def same_episode_def
      same_file_def same_stat_def intro!: rel_filter_rows)

lemma delete_series_agree:
  assumes "in_step a b" "quiet e"
  shows "agree (=) (sqlite_DeleteSeries e i a) (postgres_DeleteSeries e i b)"
  using assms in_step_guards(1) [OF assms(1)] in_step_cascade [OF assms(1)]
  by (auto simp: sqlite_DeleteSeries_def postgres_DeleteSeries_def intro: agree_done)

lemma upsert_season_agree:
  assumes "in_step a b" "quiet e"
  shows "agree (=) (sqlite_UpsertSeason e i n (boolToInt64 m) a) (postgres_UpsertSeason e i n m b)"
proof -
  have ex: "(\<exists>r\<in>set (db_seasons a). sn_SeriesID r = i \<and> sn_SeasonNumber r = n)
      \<longleftrightarrow> list_ex (\<lambda>r. pgn_SeriesID r = i \<and> pgn_SeasonNumber r = n) (pl_seasons b)"
    using in_step_rows(7) [OF assms(1)] by (rule rel_ex) (auto simp: same_season_def)
  have "in_step (a\<lparr>db_seasons := map (\<lambda>r. if sn_SeriesID r = i \<and> sn_SeasonNumber r = n then r\<lparr>sn_Monitored := boolToInt64 m\<rparr> else r) (db_seasons a)\<rparr>)
      (b\<lparr>pl_seasons := map (\<lambda>r. if pgn_SeriesID r = i \<and> pgn_SeasonNumber r = n then r\<lparr>pgn_Monitored := m\<rparr> else r) (pl_seasons b)\<rparr>)"
    using assms(1) in_step_rows(7) [OF assms(1)]
    by (intro in_step_tables(4) rel_map_rows) (auto simp: same_season_def)
  moreover have "in_step (a\<lparr>db_seasons := db_seasons a @ [\<lparr>sn_SeriesID = i, sn_SeasonNumber = n, sn_Monitored = boolToInt64 m\<rparr>]\<rparr>)
      (b\<lparr>pl_seasons := pl_seasons b @ [\<lparr>pgn_SeriesID = i, pgn_SeasonNumber = n, pgn_Monitored = m\<rparr>]\<rparr>)"
    using assms(1) in_step_rows(7) [OF assms(1)]
    by (intro in_step_tables(4) list_all2_appendI) (auto simp: same_season_def)
  ultimately show ?thesis
    using agree_failed [OF assms(1)] in_step_guards(1) [OF assms(1), of i]
    unfolding sqlite_UpsertSeason_def postgres_UpsertSeason_def stmt_quiet [OF assms(2)] ex require_def
    by (auto intro: agree_done)
qed

lemma delete_season_agree:
  assumes "in_step a b" "quiet e"
  shows "agree (=) (sqlite_DeleteSeason e i n a) (postgres_DeleteSeason e i n b)"
proof -
  have "list_all2 same_season (filter (\<lambda>r. \<not> (sn_SeriesID r = i \<and> sn_SeasonNumber r = n)) (db_seasons a))
      (filter (\<lambda>r. \<not> (pgn_SeriesID r = i \<and> pgn_SeasonNumber r = n)) (pl_seasons b))"
    using in_step_rows(7) [OF assms(1)] by (rule rel_filter_rows) (auto simp: same_season_def)
  then show ?thesis
    using assms unfolding sqlite_DeleteSeason_def postgres_DeleteSeason_def
    by (simp only: stmt_quiet) (intro agree_done in_step_tables(4) refl)
qed

lemma create_episode_agree:
  assumes "in_step a b" "quiet e"
  shows "agree same_episode (sqlite_CreateEpisode e x a) (postgres_CreateEpisode e x b)"
  using assms in_step_guards [OF assms(1)] in_step_rows [OF assms(1)]
  by (auto simp: sqlite_CreateEpisode_def postgres_CreateEpisode_def lift_defs pg_lift_defs sql_insert_def pg_new_episode_def
      same_episode_def pgInt4FromPtr_def pgInt8FromPtr_def pgTimestamptzFromPtr_def nullStringFromTimePtr_def
      split: option.splits intro!: agree_burnt agree_done in_step_tables list_all2_appendI)

lemma update_episode_agree:
  assumes "in_step a b" "quiet e"
  shows "agree (=) (sqlite_UpdateEpisode e x a) (postgres_UpdateEpisode e x b)"
proof -
  have "list_all2 same_episode
      (map (\<lambda>r. if sp_ID r = ep_ID x then r\<lparr>
        sp_AbsoluteEpisodeNumber := ep_AbsoluteEpisodeNumber x, sp_Title := ep_Title x,
        sp_Overview := ep_Overview x, sp_AirDateUtc := nullStringFromTimePtr (ep_AirDateUtc x),
        sp_Monitored := boolToInt64 (ep_Monitored x), sp_EpisodeFileID := ep_EpisodeFileID x,
        sp_UpdatedAt := sqlite_format (env_now e)\<rparr> else r) (rows (db_episodes a)))
      (map (\<lambda>r. if pge_ID r = ep_ID x then pg_set_episode (pg_micros (env_now e)) x r else r) (rows (pl_episodes b)))"
    using in_step_rows(3) [OF assms(1)]
    by (rule rel_map_rows) (auto simp: same_episode_def pg_set_episode_def
      pgInt4FromPtr_def pgInt8FromPtr_def pgTimestamptzFromPtr_def nullStringFromTimePtr_def split: option.splits)
  then show ?thesis
    using assms in_step_rows(4) [OF assms(1)]
    by (auto simp: sqlite_UpdateEpisode_def postgres_UpdateEpisode_def lift_defs pg_lift_defs sql_exec_def upd_rows_def
        intro!: agree_done in_step_tables(2))
qed

lemma set_monitored_agree:
  assumes "in_step a b" "quiet e"
  shows "agree (=) (sqlite_SetEpisodeMonitored e (boolToInt64 m) i a) (postgres_SetEpisodeMonitored e m i b)"
  using assms in_step_rows(3,4) [OF assms(1)]
  by (auto simp: sqlite_SetEpisodeMonitored_def postgres_SetEpisodeMonitored_def lift_defs pg_lift_defs sql_exec_def upd_rows_def
      same_episode_def intro!: agree_done in_step_tables(2) rel_map_rows [where R = same_episode])

lemma delete_episode_agree:
  assumes "in_step a b" "quiet e"
  shows "agree (=) (sqlite_DeleteEpisode e i a) (postgres_DeleteEpisode e i b)"
  using assms in_step_rows(3,4) [OF assms(1)]
  by (auto simp: sqlite_DeleteEpisode_def postgres_DeleteEpisode_def lift_defs pg_lift_defs sql_delete_def del_rows_def
      same_episode_def intro!: agree_done in_step_tables(2) rel_filter_rows [where R = same_episode])

lemma create_file_agree:
  assumes "in_step a b" "quiet e"
  shows "agree same_file (sqlite_CreateEpisodeFile e x a) (postgres_CreateEpisodeFile e x b)"
  using assms in_step_guards [OF assms(1)] in_step_rows [OF assms(1)]
  by (auto simp: sqlite_CreateEpisodeFile_def postgres_CreateEpisodeFile_def lift_defs pg_lift_defs sql_insert_def pg_new_file_def
      same_file_def intro!: agree_burnt agree_done in_step_tables list_all2_appendI)

lemma delete_file_agree:
  assumes "in_step a b" "quiet e"
  shows "agree (=) (sqlite_DeleteEpisodeFile e i a) (postgres_DeleteEpisodeFile e i b)"
  using assms in_step_rows(5,6) [OF assms(1)]
  by (auto simp: sqlite_DeleteEpisodeFile_def postgres_DeleteEpisodeFile_def lift_defs pg_lift_defs sql_delete_def del_rows_def
      same_file_def intro!: agree_done in_step_tables(3) rel_filter_rows [where R = same_file])

text \<open>The lookups that some operations start with.\<close>

lemma lookup_episode_agree:
  assumes "in_step a b" "quiet e"
  shows "agree same_episode (rowA (Inl x) msg id (sqlite_GetEpisode e i) a) (rowA (Inl x) msg id (postgres_GetEpisode e i) b)"
proof -
  have "rel_option same_episode (tbl sp_ID (db_episodes a) i) (tbl pge_ID (pl_episodes b) i)"
    using in_step_rows(3) [OF assms(1)] by (rule rel_tbl) (simp add: same_episode_def)
  moreover have "rowA (Inl x) msg id (postgres_GetEpisode e i) b
      = (case tbl pge_ID (pl_episodes b) i of None \<Rightarrow> Inl x | Some row \<Rightarrow> Inr row, b)"
    using assms(2) by (simp add: rowA_def postgres_GetEpisode_def on_pg_episodes_def sql_one_id split: option.split)
  ultimately show ?thesis
    using assms by (auto simp: lookup_episode rel_option_iff split: option.splits intro: agree_failed agree_done)
qed

lemma lookup_file_agree:
  assumes "in_step a b" "quiet e"
  shows "agree same_file (rowA (Inl x) msg id (sqlite_GetEpisodeFile e i) a) (rowA (Inl x) msg id (postgres_GetEpisodeFile e i) b)"
proof -
  have "rel_option same_file (tbl sf_ID (db_files a) i) (tbl pgf_ID (pl_files b) i)"
    using in_step_rows(5) [OF assms(1)] by (rule rel_tbl) (simp add: same_file_def)
  moreover have "rowA (Inl x) msg id (postgres_GetEpisodeFile e i) b
      = (case tbl pgf_ID (pl_files b) i of None \<Rightarrow> Inl x | Some row \<Rightarrow> Inr row, b)"
    using assms(2) by (simp add: rowA_def postgres_GetEpisodeFile_def on_pg_files_def sql_one_id split: option.split)
  ultimately show ?thesis
    using assms by (auto simp: lookup_file rel_option_iff split: option.splits intro: agree_failed agree_done)
qed

subsection \<open>Requests, on either engine\<close>

text \<open>The writing operations as data, with the id of a new row as the answer.\<close>

datatype catalog_op = SeriesCreate Series | SeriesUpdate Series | SeriesDelete int
  | SeasonUpsert Season | SeasonDelete int int
  | EpisodeCreate Episode | EpisodeUpdate Episode | EpisodeSetMonitored int bool | EpisodeDelete int
  | FileCreate EpisodeFile | FileDelete int

fun sqlite_op :: "dbenv \<Rightarrow> catalog_op \<Rightarrow> (library_db, int) act" where
  "sqlite_op e (SeriesCreate s) = mapA se_ID (sqliteSeries_Create (app_publish e) e s)"
| "sqlite_op e (SeriesUpdate s) = mapA (\<lambda>_. 0) (sqliteSeries_Update (app_publish e) e s)"
| "sqlite_op e (SeriesDelete i) = mapA (\<lambda>_. 0) (sqliteSeries_Delete (app_publish e) e i)"
| "sqlite_op e (SeasonUpsert s) = mapA (\<lambda>_. 0) (sqliteSeasons_Upsert (app_publish e) e s)"
| "sqlite_op e (SeasonDelete i n) = mapA (\<lambda>_. 0) (sqliteSeasons_Delete e i n)"
| "sqlite_op e (EpisodeCreate x) = mapA ep_ID (sqliteEpisodes_Create (app_publish e) e x)"
| "sqlite_op e (EpisodeUpdate x) = mapA (\<lambda>_. 0) (sqliteEpisodes_Update (app_publish e) e x)"
| "sqlite_op e (EpisodeSetMonitored i m) = mapA (\<lambda>_. 0) (sqliteEpisodes_SetMonitored (app_publish e) e i m)"
| "sqlite_op e (EpisodeDelete i) = mapA (\<lambda>_. 0) (sqliteEpisodes_Delete (app_publish e) e i)"
| "sqlite_op e (FileCreate f) = mapA ef_ID (sqliteFiles_Create (app_publish e) e f)"
| "sqlite_op e (FileDelete i) = mapA (\<lambda>_. 0) (sqliteFiles_Delete (app_publish e) e i)"

fun postgres_op :: "dbenv \<Rightarrow> catalog_op \<Rightarrow> (pg_library, int) act" where
  "postgres_op e (SeriesCreate s) = mapA se_ID (postgresSeries_Create (pg_app_publish e) e s)"
| "postgres_op e (SeriesUpdate s) = mapA (\<lambda>_. 0) (postgresSeries_Update (pg_app_publish e) e s)"
| "postgres_op e (SeriesDelete i) = mapA (\<lambda>_. 0) (postgresSeries_Delete (pg_app_publish e) e i)"
| "postgres_op e (SeasonUpsert s) = mapA (\<lambda>_. 0) (postgresSeasons_Upsert (pg_app_publish e) e s)"
| "postgres_op e (SeasonDelete i n) = mapA (\<lambda>_. 0) (postgresSeasons_Delete e i n)"
| "postgres_op e (EpisodeCreate x) = mapA ep_ID (postgresEpisodes_Create (pg_app_publish e) e x)"
| "postgres_op e (EpisodeUpdate x) = mapA (\<lambda>_. 0) (postgresEpisodes_Update (pg_app_publish e) e x)"
| "postgres_op e (EpisodeSetMonitored i m) = mapA (\<lambda>_. 0) (postgresEpisodes_SetMonitored (pg_app_publish e) e i m)"
| "postgres_op e (EpisodeDelete i) = mapA (\<lambda>_. 0) (postgresEpisodes_Delete (pg_app_publish e) e i)"
| "postgres_op e (FileCreate f) = mapA ef_ID (postgresFiles_Create (pg_app_publish e) e f)"
| "postgres_op e (FileDelete i) = mapA (\<lambda>_. 0) (postgresFiles_Delete (pg_app_publish e) e i)"

text \<open>A quality profile id beyond 32 bits is refused by SQLite and cut by the Postgres store.\<close>

fun op_fits :: "catalog_op \<Rightarrow> bool" where
  "op_fits (SeriesCreate s) = profile_fits s"
| "op_fits (SeriesUpdate s) = profile_fits s"
| "op_fits _ = True"

lemmas pg_store_defs = postgresSeries_Create_def postgresSeries_Update_def postgresSeries_Delete_def
  postgresSeasons_Upsert_def postgresSeasons_Delete_def postgresEpisodes_Create_def postgresEpisodes_Update_def
  postgresFiles_Create_def
lemmas sq_store_defs = sqliteSeries_Create_def sqliteSeries_Update_def sqliteSeries_Delete_def
  sqliteSeasons_Upsert_def sqliteSeasons_Delete_def sqliteEpisodes_Create_def sqliteEpisodes_Update_def
  sqliteFiles_Create_def

lemma op_agree_series:
  assumes "in_step a b" "quiet e" "profile_fits s"
  shows "agree (=) (sqlite_op e (SeriesCreate s) a) (postgres_op e (SeriesCreate s) b)"
    and "agree (=) (sqlite_op e (SeriesUpdate s) a) (postgres_op e (SeriesUpdate s) b)"
proof -
  let ?R = "\<lambda>x y. se_ID x = se_ID y \<and> se_TvdbID x = se_TvdbID y \<and> se_Title x = se_Title y"
  have "agree ?R (mapA seriesFromSqlite (wrapA ''library: create series'' (sqlite_CreateSeries e s (monitor_new_items s))) a)
      (mapA seriesFromPostgres (wrapA ''library: create series'' (postgres_CreateSeries e s (monitor_new_items s))) b)"
    by (rule agree_map [where R = same_series], rule agree_wrap, rule create_series_agree [OF assms])
      (simp add: same_series_def seriesFromSqlite_def seriesFromPostgres_def)
  then show "agree (=) (sqlite_op e (SeriesCreate s) a) (postgres_op e (SeriesCreate s) b)"
    unfolding sqlite_op.simps postgres_op.simps sq_store_defs pg_store_defs Write_quiet [OF assms(2)]
    by (intro agree_map [where R = ?R] agree_publishing publish_agree [OF assms(2)]) simp_all
  show "agree (=) (sqlite_op e (SeriesUpdate s) a) (postgres_op e (SeriesUpdate s) b)"
    unfolding sqlite_op.simps postgres_op.simps sq_store_defs pg_store_defs Write_quiet [OF assms(2)]
    by (intro agree_map [where R = "(=)"] agree_publishing publish_agree [OF assms(2)] agree_wrap
        update_series_agree assms) simp_all
qed

lemma op_agree_rest:
  assumes "in_step a b" "quiet e"
  shows "agree (=) (sqlite_op e (SeriesDelete i) a) (postgres_op e (SeriesDelete i) b)"
    and "agree (=) (sqlite_op e (SeasonUpsert sn) a) (postgres_op e (SeasonUpsert sn) b)"
    and "agree (=) (sqlite_op e (SeasonDelete i n) a) (postgres_op e (SeasonDelete i n) b)"
    and "agree (=) (sqlite_op e (EpisodeUpdate x) a) (postgres_op e (EpisodeUpdate x) b)"
  unfolding sqlite_op.simps postgres_op.simps sq_store_defs pg_store_defs Write_quiet [OF assms(2)]
  by (intro agree_map [where R = "(=)"] agree_publishing publish_agree [OF assms(2)] agree_wrap
      delete_series_agree upsert_season_agree delete_season_agree update_episode_agree assms, simp_all)+

lemma op_agree_create:
  assumes "in_step a b" "quiet e"
  shows "agree (=) (sqlite_op e (EpisodeCreate x) a) (postgres_op e (EpisodeCreate x) b)"
    and "agree (=) (sqlite_op e (FileCreate f) a) (postgres_op e (FileCreate f) b)"
proof -
  let ?R = "\<lambda>x y. ep_ID x = ep_ID y \<and> ep_SeriesID x = ep_SeriesID y"
  have "agree ?R (mapA episodeFromSqlite (wrapA ''library: create episode'' (sqlite_CreateEpisode e x)) a)
      (mapA episodeFromPostgres (wrapA ''library: create episode'' (postgres_CreateEpisode e x)) b)"
    by (rule agree_map [where R = same_episode], rule agree_wrap, rule create_episode_agree [OF assms])
      (simp add: same_episode_def episodeFromSqlite_def episodeFromPostgres_def)
  then show "agree (=) (sqlite_op e (EpisodeCreate x) a) (postgres_op e (EpisodeCreate x) b)"
    unfolding sqlite_op.simps postgres_op.simps sq_store_defs pg_store_defs Write_quiet [OF assms(2)]
    by (intro agree_map [where R = ?R] agree_publishing publish_agree [OF assms(2)]) simp_all
  let ?F = "\<lambda>x y. ef_ID x = ef_ID y \<and> ef_SeriesID x = ef_SeriesID y \<and> ef_Size x = ef_Size y"
  have "agree ?F (mapA episodeFileFromSqlite (wrapA ''library: create episode file'' (sqlite_CreateEpisodeFile e f)) a)
      (mapA episodeFileFromPostgres (wrapA ''library: create episode file'' (postgres_CreateEpisodeFile e f)) b)"
    by (rule agree_map [where R = same_file], rule agree_wrap, rule create_file_agree [OF assms])
      (simp add: same_file_def episodeFileFromSqlite_def episodeFileFromPostgres_def)
  then show "agree (=) (sqlite_op e (FileCreate f) a) (postgres_op e (FileCreate f) b)"
    unfolding sqlite_op.simps postgres_op.simps sq_store_defs pg_store_defs Write_quiet [OF assms(2)]
    by (intro agree_map [where R = ?F] agree_publishing publish_agree [OF assms(2)]) simp_all
qed

lemma op_agree_lookup:
  assumes "in_step a b" "quiet e"
  shows "agree (=) (sqlite_op e (EpisodeSetMonitored i m) a) (postgres_op e (EpisodeSetMonitored i m) b)"
    and "agree (=) (sqlite_op e (EpisodeDelete i) a) (postgres_op e (EpisodeDelete i) b)"
    and "agree (=) (sqlite_op e (FileDelete i) a) (postgres_op e (FileDelete i) b)"
proof -
  have pub: "agree (=) (publishing (app_publish e) msg (\<lambda>_. ev) (wrapA msg' m') a')
      (publishing (pg_app_publish e) msg (\<lambda>_. ev) (wrapA msg' n') b')" if "agree (=) (m' a') (n' b')" for msg ev msg' m' n' a' b'
    using that by (intro agree_publishing agree_wrap publish_agree [OF assms(2)]) simp_all
  show "agree (=) (sqlite_op e (EpisodeSetMonitored i m) a) (postgres_op e (EpisodeSetMonitored i m) b)"
    unfolding sqlite_op.simps postgres_op.simps sqliteEpisodes_SetMonitored_def postgresEpisodes_SetMonitored_def
      Write_quiet [OF assms(2)]
    by (rule agree_map [where R = "(=)"], rule agree_bind, rule lookup_episode_agree [OF assms])
      (simp_all add: same_episode_def pub set_monitored_agree assms(2))
  show "agree (=) (sqlite_op e (EpisodeDelete i) a) (postgres_op e (EpisodeDelete i) b)"
    unfolding sqlite_op.simps postgres_op.simps sqliteEpisodes_Delete_def postgresEpisodes_Delete_def
      Write_quiet [OF assms(2)]
    by (rule agree_map [where R = "(=)"], rule agree_bind, rule lookup_episode_agree [OF assms])
      (simp_all add: same_episode_def pub delete_episode_agree assms(2))
  show "agree (=) (sqlite_op e (FileDelete i) a) (postgres_op e (FileDelete i) b)"
    unfolding sqlite_op.simps postgres_op.simps sqliteFiles_Delete_def postgresFiles_Delete_def
      Write_quiet [OF assms(2)]
    by (rule agree_map [where R = "(=)"], rule agree_bind, rule lookup_file_agree [OF assms])
      (simp_all add: same_file_def pub delete_file_agree assms(2))
qed

lemma op_agree:
  assumes "in_step a b" "quiet e" "op_fits op"
  shows "agree (=) (sqlite_op e op a) (postgres_op e op b)"
  using assms op_agree_series [OF assms(1,2)] op_agree_rest [OF assms(1,2)] op_agree_create [OF assms(1,2)]
    op_agree_lookup [OF assms(1,2)]
  by (cases op) simp_all

text \<open>A sequence of requests, each with the state of the outside during its call, up to the first that fails.\<close>

fun run_requests :: "(dbenv \<Rightarrow> 'r \<Rightarrow> ('s, int) act) \<Rightarrow> (dbenv \<times> 'r) list \<Rightarrow> ('s, int list) act" where
  "run_requests f [] = retA []"
| "run_requests f ((e, r) # rest) = bindA (f e r) (\<lambda>i. mapA (\<lambda>is. i # is) (run_requests f rest))"

lemma run_requests_agree:
  assumes "in_step a b" "list_all (\<lambda>(e, op). quiet e \<and> op_fits op) reqs"
  shows "agree (=) (run_requests sqlite_op reqs a) (run_requests postgres_op reqs b)"
  using assms
proof (induction reqs arbitrary: a b)
  case Nil
  then show ?case by (simp add: retA_def agree_done)
next
  case (Cons r reqs)
  obtain e op where r: "r = (e, op)" by fastforce
  have ok: "quiet e" "op_fits op" "list_all (\<lambda>(e, op). quiet e \<and> op_fits op) reqs" using Cons.prems(2) r by simp_all
  show ?case
    unfolding r run_requests.simps
  proof (rule agree_bind)
    show "agree (=) (sqlite_op e op a) (postgres_op e op b)" by (rule op_agree [OF Cons.prems(1) ok(1,2)])
  next
    fix x y a' b' assume "x = (y :: int)" "in_step a' b'"
    then show "agree (=) (mapA (\<lambda>is. x # is) (run_requests sqlite_op reqs) a')
        (mapA (\<lambda>is. y # is) (run_requests postgres_op reqs) b')"
      using Cons.IH [OF _ ok(3)] by (intro agree_map [where R = "(=)"]) simp_all
  qed
qed

definition empty_pg_library :: "int list \<Rightarrow> pg_library" where
  "empty_pg_library profiles = \<lparr>pl_series = empty_table, pl_seasons = [], pl_episodes = empty_table,
     pl_files = empty_table, pl_stats = [], pl_quality_profiles = profiles\<rparr>"

lemma empty_in_step: "in_step (empty_library profiles) (empty_pg_library profiles)"
  by (simp add: in_step_defs empty_library_def empty_pg_library_def empty_table_def)

subsection \<open>Integrity of the Postgres catalogue\<close>

definition pg_tables_ok :: "pg_library \<Rightarrow> bool" where
  "pg_tables_ok b \<longleftrightarrow> wf_table pgs_ID (pl_series b) \<and> wf_table pge_ID (pl_episodes b) \<and> wf_table pgf_ID (pl_files b)
     \<and> distinct (map pgs_TvdbID (rows (pl_series b))) \<and> distinct (map pgs_Slug (rows (pl_series b)))
     \<and> distinct (map pgs_Path (rows (pl_series b)))
     \<and> distinct (map (\<lambda>r. (pge_SeriesID r, pge_SeasonNumber r, pge_EpisodeNumber r)) (rows (pl_episodes b)))
     \<and> distinct (map (\<lambda>r. (pgn_SeriesID r, pgn_SeasonNumber r)) (pl_seasons b))
     \<and> distinct (map pgt_SeriesID (pl_stats b))"

definition pg_refs_ok :: "pg_library \<Rightarrow> bool" where
  "pg_refs_ok b \<longleftrightarrow> (\<forall>r\<in>set (rows (pl_episodes b)). pg_has_series b (pge_SeriesID r))
     \<and> (\<forall>r\<in>set (rows (pl_files b)). pg_has_series b (pgf_SeriesID r))
     \<and> (\<forall>r\<in>set (pl_seasons b). pg_has_series b (pgn_SeriesID r))
     \<and> (\<forall>r\<in>set (pl_stats b). pg_has_series b (pgt_SeriesID r))"

definition pg_shows_counts :: "pg_library \<Rightarrow> PgStatistic \<Rightarrow> bool" where
  "pg_shows_counts b r \<longleftrightarrow>
     (pgt_EpisodeCount r, pgt_EpisodeFileCount r, pgt_MonitoredEpisodeCount r, pgt_SizeOnDisk r) = pg_counts b (pgt_SeriesID r)"

definition pg_catalog_inv :: "pg_library \<Rightarrow> bool" where
  "pg_catalog_inv b \<longleftrightarrow> pg_tables_ok b \<and> pg_refs_ok b \<and> (\<forall>r\<in>set (pl_stats b). pg_shows_counts b r)"

lemma wf_table_ids:
  "wf_table rid t \<longleftrightarrow> distinct (map rid (rows t)) \<and> 0 < next_id t \<and> (\<forall>i\<in>set (map rid (rows t)). 0 < i \<and> i < next_id t)"
  by (auto simp: wf_table_def)

lemma mirrors_keys:
  assumes "mirrors a b"
  shows "map sr_ID (rows (db_series a)) = map pgs_ID (rows (pl_series b))"
    and "map sr_TvdbID (rows (db_series a)) = map pgs_TvdbID (rows (pl_series b))"
    and "map sr_Slug (rows (db_series a)) = map pgs_Slug (rows (pl_series b))"
    and "map sr_Path (rows (db_series a)) = map pgs_Path (rows (pl_series b))"
    and "map sp_ID (rows (db_episodes a)) = map pge_ID (rows (pl_episodes b))"
    and "map episode_key (rows (db_episodes a))
      = map (\<lambda>r. (pge_SeriesID r, pge_SeasonNumber r, pge_EpisodeNumber r)) (rows (pl_episodes b))"
    and "map sf_ID (rows (db_files a)) = map pgf_ID (rows (pl_files b))"
    and "map (\<lambda>r. (sn_SeriesID r, sn_SeasonNumber r)) (db_seasons a) = map (\<lambda>r. (pgn_SeriesID r, pgn_SeasonNumber r)) (pl_seasons b)"
    and "map st_SeriesID (db_stats a) = map pgt_SeriesID (pl_stats b)"
  using assms
  by (auto simp: mirrors_def same_series_def same_season_def same_episode_def same_file_def same_stat_def episode_key_def
      intro: rel_map_eq [where R = same_series] rel_map_eq [where R = same_episode] rel_map_eq [where R = same_file]
        rel_map_eq [where R = same_season] rel_map_eq [where R = same_stat])

lemma mirrors_refs_ok:
  assumes "mirrors a b"
  shows "refs_ok a = pg_refs_ok b"
proof -
  note m = assms [unfolded mirrors_def] and h = mirrors_has_series [OF assms]
  have "(\<forall>r\<in>set (rows (db_episodes a)). has_series a (sp_SeriesID r)) \<longleftrightarrow>
      (\<forall>r\<in>set (rows (pl_episodes b)). pg_has_series b (pge_SeriesID r))"
    using m by (intro rel_all [where R = same_episode]) (simp_all add: same_episode_def h)
  moreover have "(\<forall>r\<in>set (rows (db_files a)). has_series a (sf_SeriesID r)) \<longleftrightarrow>
      (\<forall>r\<in>set (rows (pl_files b)). pg_has_series b (pgf_SeriesID r))"
    using m by (intro rel_all [where R = same_file]) (simp_all add: same_file_def h)
  moreover have "(\<forall>r\<in>set (db_seasons a). has_series a (sn_SeriesID r)) \<longleftrightarrow>
      (\<forall>r\<in>set (pl_seasons b). pg_has_series b (pgn_SeriesID r))"
    using m by (intro rel_all [where R = same_season]) (simp_all add: same_season_def h)
  moreover have "(\<forall>r\<in>set (db_stats a). has_series a (st_SeriesID r)) \<longleftrightarrow>
      (\<forall>r\<in>set (pl_stats b). pg_has_series b (pgt_SeriesID r))"
    using m by (intro rel_all [where R = same_stat]) (simp_all add: same_stat_def h)
  ultimately show ?thesis by (simp only: refs_ok_def pg_refs_ok_def)
qed

lemma mirrors_shows_counts:
  assumes "mirrors a b"
  shows "(\<forall>r\<in>set (db_stats a). shows_counts a r) \<longleftrightarrow> (\<forall>r\<in>set (pl_stats b). pg_shows_counts b r)"
  using assms mirrors_counts [OF assms]
  by (intro rel_all [where R = same_stat]) (auto simp: mirrors_def same_stat_def shows_counts_def pg_shows_counts_def)

lemma inv_mirrors:
  assumes "mirrors a b"
  shows "list_all2 (\<le>) (counters a) (pg_counters b) \<Longrightarrow> catalog_inv {} a \<Longrightarrow> pg_catalog_inv b"
    and "counters a = pg_counters b \<Longrightarrow> pg_catalog_inv b \<Longrightarrow> catalog_inv {} a"
  using mirrors_refs_ok [OF assms] mirrors_shows_counts [OF assms]
  unfolding catalog_inv_def pg_catalog_inv_def tables_ok_def pg_tables_ok_def wf_table_ids mirrors_keys [OF assms]
  by (auto simp: counters_def pg_counters_def)

text \<open>A Postgres catalogue read as a SQLite one.\<close>

definition to_sqlite :: "pg_library \<Rightarrow> library_db" where
  "to_sqlite b = \<lparr>
     db_series = \<lparr>rows = map (\<lambda>q. \<lparr>sr_ID = pgs_ID q, sr_TvdbID = pgs_TvdbID q, sr_Title = pgs_Title q,
       sr_Slug = pgs_Slug q, sr_Status = pgs_Status q, sr_SeriesType = pgs_SeriesType q, sr_Path = pgs_Path q,
       sr_Monitored = boolToInt64 (pgs_Monitored q), sr_Added = 0, sr_CreatedAt = 0, sr_UpdatedAt = 0,
       sr_QualityProfileID = pgs_QualityProfileID q, sr_SeasonFolder = boolToInt64 (pgs_SeasonFolder q),
       sr_MonitorNewItems = pgs_MonitorNewItems q\<rparr>) (rows (pl_series b)), next_id = next_id (pl_series b)\<rparr>,
     db_seasons = map (\<lambda>q. \<lparr>sn_SeriesID = pgn_SeriesID q, sn_SeasonNumber = pgn_SeasonNumber q,
       sn_Monitored = boolToInt64 (pgn_Monitored q)\<rparr>) (pl_seasons b),
     db_episodes = \<lparr>rows = map (\<lambda>q. \<lparr>sp_ID = pge_ID q, sp_SeriesID = pge_SeriesID q, sp_SeasonNumber = pge_SeasonNumber q,
       sp_EpisodeNumber = pge_EpisodeNumber q, sp_AbsoluteEpisodeNumber = pge_AbsoluteEpisodeNumber q, sp_Title = pge_Title q,
       sp_Overview = pge_Overview q, sp_AirDateUtc = pge_AirDateUtc q, sp_Monitored = boolToInt64 (pge_Monitored q),
       sp_EpisodeFileID = pge_EpisodeFileID q, sp_CreatedAt = 0, sp_UpdatedAt = 0\<rparr>) (rows (pl_episodes b)),
       next_id = next_id (pl_episodes b)\<rparr>,
     db_files = \<lparr>rows = map (\<lambda>q. \<lparr>sf_ID = pgf_ID q, sf_SeriesID = pgf_SeriesID q, sf_SeasonNumber = pgf_SeasonNumber q,
       sf_RelativePath = pgf_RelativePath q, sf_Size = pgf_Size q, sf_DateAdded = 0, sf_ReleaseGroup = pgf_ReleaseGroup q,
       sf_QualityName = pgf_QualityName q, sf_CreatedAt = 0, sf_UpdatedAt = 0\<rparr>) (rows (pl_files b)),
       next_id = next_id (pl_files b)\<rparr>,
     db_stats = map (\<lambda>q. \<lparr>st_SeriesID = pgt_SeriesID q, st_EpisodeCount = pgt_EpisodeCount q,
       st_EpisodeFileCount = pgt_EpisodeFileCount q, st_MonitoredEpisodeCount = pgt_MonitoredEpisodeCount q,
       st_SizeOnDisk = pgt_SizeOnDisk q, st_UpdatedAt = 0\<rparr>) (pl_stats b),
     db_quality_profiles = pl_quality_profiles b\<rparr>"

lemma to_sqlite_in_step: "in_step (to_sqlite b) b"
  by (auto simp: in_step_defs to_sqlite_def list_all2_map1 same_series_def same_season_def same_episode_def same_file_def
      same_stat_def intro!: list_all2_refl)

text \<open>An episode is updated under the series it belongs to, as the callers do.\<close>

fun passes_back :: "pg_library \<Rightarrow> catalog_op \<Rightarrow> bool" where
  "passes_back b (EpisodeUpdate x) = (case tbl pge_ID (pl_episodes b) (ep_ID x) of
     None \<Rightarrow> False | Some row \<Rightarrow> pge_SeriesID row = ep_SeriesID x)"
| "passes_back b _ = True"

lemma sqlite_op_inv:
  assumes "catalog_inv {} a" "quiet e" "in_step a b" "passes_back b op"
  shows "catalog_inv {} (snd (sqlite_op e op a))"
proof -
  have "catalog_step a (snd (sqlite_op e op a))"
  proof (cases op)
    case (EpisodeUpdate x)
    have "rel_option same_episode (tbl sp_ID (db_episodes a) (ep_ID x)) (tbl pge_ID (pl_episodes b) (ep_ID x))"
      using in_step_rows(3) [OF assms(3)] by (rule rel_tbl) (simp add: same_episode_def)
    then obtain row where "tbl sp_ID (db_episodes a) (ep_ID x) = Some row" "sp_SeriesID row = ep_SeriesID x"
      using assms(4) EpisodeUpdate by (auto simp: rel_option_iff same_episode_def split: option.splits)
    then show ?thesis
      using EpisodeUpdate assms(2) by (auto simp: mapA_def split: prod.split sum.split intro: catalog_step.Episodes_Update)
  qed (use assms(2) in \<open>auto simp: mapA_def split: prod.split sum.split intro: catalog_step.intros\<close>)
  then show ?thesis using assms(1) by (rule catalog_step_inv)
qed

lemma postgres_op_inv:
  assumes "pg_catalog_inv b" "quiet e" "op_fits op" "passes_back b op"
  shows "pg_catalog_inv (snd (postgres_op e op b))"
proof -
  note s = to_sqlite_in_step [of b]
  have "catalog_inv {} (to_sqlite b)" using inv_mirrors(2) [of "to_sqlite b" b] s assms(1) by (simp add: in_step_def)
  then have inv: "catalog_inv {} (snd (sqlite_op e op (to_sqlite b)))" using sqlite_op_inv s assms(2,4) by blast
  from op_agree [OF s assms(2,3)] show ?thesis
  proof (cases rule: agree_cases)
    case (failed x y)
    then show ?thesis using inv_mirrors(1) inv by blast
  next
    case (succeeded x y)
    have "list_all2 (\<le>) (counters (snd (sqlite_op e op (to_sqlite b)))) (pg_counters (snd (postgres_op e op b)))"
      using succeeded(4) by (simp add: in_step_def pg_counters_def)
    then show ?thesis using succeeded(4) inv_mirrors(1) inv unfolding in_step_def by blast
  qed
qed

inductive pg_catalog_step :: "pg_library \<Rightarrow> pg_library \<Rightarrow> bool" where
  request: "\<lbrakk>quiet e; op_fits op; passes_back b op; postgres_op e op b = (r, b')\<rbrakk> \<Longrightarrow> pg_catalog_step b b'"

lemma empty_pg_library_inv: "pg_catalog_inv (empty_pg_library profiles)"
  by (simp add: pg_catalog_inv_def pg_tables_ok_def pg_refs_ok_def empty_pg_library_def) (simp add: empty_table_def)

text \<open>C33: The same requests leave the same catalogue in either database. From empty catalogues over the same quality profiles, a
  sequence of writing operations of the library stores succeeds on both engines, with the same ids for the new rows, or fails on
  both; afterwards the two databases hold the same series, seasons, episodes, files and statistics, in everything but the
  timestamps. (Quality profile ids are taken to fit 32 bits: the Postgres store cuts larger ones.)\<close>

theorem catalog_stores_agree:
  assumes "list_all (\<lambda>(e, op). quiet e \<and> op_fits op) reqs"
    and "run_requests sqlite_op reqs (empty_library profiles) = (r, a)"
    and "run_requests postgres_op reqs (empty_pg_library profiles) = (q, b)"
  shows "mirrors a b \<and> (case r of Inr ids \<Rightarrow> q = Inr ids | Inl x \<Rightarrow> \<exists>y. q = Inl y)"
  using run_requests_agree [OF empty_in_step assms(1), of profiles] assms(2,3)
  by (auto simp: agree_def split: sum.splits)

definition example_requests :: "(dbenv \<times> catalog_op) list" where
  "example_requests = [(quiet_at 0, SeriesCreate example_series), (quiet_at 1000000, EpisodeCreate example_new_episode)]"

lemmas pg_example_simps = example_requests_def example_series_def example_new_episode_def pg_store_defs sq_store_defs
  postgres_CreateSeries_def postgres_CreateEpisode_def pg_lift_defs act_defs sql_insert_def pg_new_series_def pg_new_episode_def
  publishing_def pg_app_publish_def bus_publish_eq seriesFromPostgres_def episodeFromPostgres_def empty_pg_library_def
  empty_table_def pg_profile_exists_def qualityProfileIDToPg_def pg_has_series_def tbl_def postgresStats_Recompute_def derive_pg
  postgres_UpsertSeriesStatistics_def Let_def pg_counts_def wrap32_def

definition example_pg :: pg_library where
  "example_pg = snd (run_requests postgres_op example_requests (empty_pg_library [1]))"

lemma example_pg_run: "run_requests postgres_op example_requests (empty_pg_library [1]) = (Inr [1, 1], example_pg)"
  by (simp add: example_pg_def pg_example_simps)

lemma example_pg_stats:
  "map (\<lambda>r. (pgt_SeriesID r, pgt_EpisodeCount r, pgt_MonitoredEpisodeCount r)) (pl_stats example_pg) = [(1, 1, 1)]"
  by (simp add: example_pg_def pg_example_simps)

lemma example_fits: "list_all (\<lambda>(e, op). quiet e \<and> op_fits op) example_requests"
  by (simp add: example_requests_def profile_fits_def example_series_def int32_range_def)

theorem catalog_stores_agree_witness:
  "\<exists>a. run_requests sqlite_op example_requests (empty_library [1]) = (Inr [1, 1], a) \<and> mirrors a example_pg"
proof -
  obtain r a where run: "run_requests sqlite_op example_requests (empty_library [1]) = (r, a)" by fastforce
  from catalog_stores_agree [OF example_fits run example_pg_run] show ?thesis using run by (cases r) auto
qed



end
