(* ===== verification/FormatStores.thy ===== *)
theory FormatStores
  imports ProfileStores CustomFormats "HOL-Library.Multiset"
begin

section \<open>Stores of custom formats and quality profiles\<close>

text \<open>
  internal/customformats and internal/profiles: the SQLite and the Postgres store of each, and the two read-only stores of
  quality definitions. Specifications, quality items and format scores are arrays of structs in JSON columns. A \<open>jsonb\<close> column
  keeps an object's members, not their order, so the Postgres stores rely on decoding a struct whatever the order of its
  members; \<open>keeps_objects\<close> states what the engine promises. The locale \<open>json_store\<close> captures the four stores: what each does for
  rows that decode, from which it is a \<open>decoded_store\<close>. A nil slice is written as \<open>null\<close> and read as an empty one; the model has
  the empty list for both.
\<close>

subsection \<open>Structs in JSON, whatever the order of their members\<close>

definition member_step :: "'r fields \<Rightarrow> string \<times> json \<Rightarrow> 'r \<Rightarrow> (store_error, 'r) result" where
  "member_step fs m r = (case m of (k, j) \<Rightarrow> case field_for fs k of None \<Rightarrow> Inr r | Some f \<Rightarrow> f j r)"

lemma dec_members_fold:
  assumes "\<And>m r. m \<in> set ms \<Longrightarrow> member_step fs m r = Inr (u m r)"
  shows "dec_members fs ms r = Inr (fold u ms r)"
  using assms
proof (induction ms arbitrary: r)
  case (Cons m ms)
  obtain k j where m: "m = (k, j)" by fastforce
  have step: "(case field_for fs k of None \<Rightarrow> Inr r | Some f \<Rightarrow> f j r) = Inr (u (k, j) r)"
    using Cons.prems [of m r] by (simp add: m member_step_def)
  have "dec_members fs ms (u (k, j) r) = Inr (fold u ms (u (k, j) r))" using Cons.IH Cons.prems by simp
  then show ?case by (simp add: m step)
qed simp

lemma dec_struct_permuted:
  assumes "\<And>m r. m \<in> set ms \<Longrightarrow> member_step fs m r = Inr (u m r)"
    and "\<And>m n r. m \<in> set ms \<Longrightarrow> n \<in> set ms \<Longrightarrow> u m (u n r) = u n (u m r)"
    and "mset ms' = mset ms"
  shows "dec_struct fs (JObj ms') r = Inr (fold u ms r)"
proof -
  have s: "set ms' = set ms" using assms(3) by (metis set_mset_mset)
  have "fold u ms = fold u ms'"
    using assms(2,3) by (intro fold_multiset_equiv) (auto simp: fun_eq_iff)
  then show ?thesis using dec_members_fold [of ms' fs u r] assms(1) s by (simp add: dec_struct_def)
qed

subsection \<open>The three structs\<close>

definition spec_fields :: "Specification fields" where
  "spec_fields = [(''name'', fld sp_Name sp_Name_update dec_string),
     (''implementation'', fld sp_Implementation sp_Implementation_update dec_string),
     (''negate'', fld sp_Negate sp_Negate_update dec_bool),
     (''required'', fld sp_Required sp_Required_update dec_bool),
     (''value'', fld sp_Value sp_Value_update dec_string)]"

definition spec_members :: "Specification \<Rightarrow> (string \<times> json) list" where
  "spec_members s = [(''name'', JStr (sp_Name s)), (''implementation'', JStr (sp_Implementation s)), (''negate'', JBool (sp_Negate s)),
     (''required'', JBool (sp_Required s)), (''value'', JStr (sp_Value s))]"

definition spec_zero :: Specification where
  "spec_zero = \<lparr>sp_Name = '''', sp_Implementation = '''', sp_Negate = False, sp_Required = False, sp_Value = ''''\<rparr>"

text \<open>The structs of quality.go have no tags, so their members have the names of the fields.\<close>

definition item_fields :: "QualityProfileItem fields" where
  "item_fields = [(''QualityID'', fld qi_QualityID qi_QualityID_update dec_int64), (''Allowed'', fld qi_Allowed qi_Allowed_update dec_bool)]"

definition item_members :: "QualityProfileItem \<Rightarrow> (string \<times> json) list" where
  "item_members x = [(''QualityID'', json_int (qi_QualityID x)), (''Allowed'', JBool (qi_Allowed x))]"

definition item_zero :: QualityProfileItem where
  "item_zero = \<lparr>qi_QualityID = 0, qi_Allowed = False\<rparr>"

definition score_fields :: "FormatScoreItem fields" where
  "score_fields = [(''FormatID'', fld fs_FormatID fs_FormatID_update dec_int64), (''Score'', fld fs_Score fs_Score_update dec_int64)]"

definition score_members :: "FormatScoreItem \<Rightarrow> (string \<times> json) list" where
  "score_members x = [(''FormatID'', json_int (fs_FormatID x)), (''Score'', json_int (fs_Score x))]"

definition score_zero :: FormatScoreItem where
  "score_zero = \<lparr>fs_FormatID = 0, fs_Score = 0\<rparr>"

definition item_good :: "QualityProfileItem \<Rightarrow> bool" where
  "item_good x \<longleftrightarrow> int64_range (qi_QualityID x)"

definition score_good :: "FormatScoreItem \<Rightarrow> bool" where
  "score_good x \<longleftrightarrow> int64_range (fs_FormatID x) \<and> int64_range (fs_Score x)"

lemma spec_steps:
  "member_step spec_fields (''name'', JStr s) r = Inr (r\<lparr>sp_Name := s\<rparr>)"
  "member_step spec_fields (''implementation'', JStr s) r = Inr (r\<lparr>sp_Implementation := s\<rparr>)"
  "member_step spec_fields (''negate'', JBool b) r = Inr (r\<lparr>sp_Negate := b\<rparr>)"
  "member_step spec_fields (''required'', JBool b) r = Inr (r\<lparr>sp_Required := b\<rparr>)"
  "member_step spec_fields (''value'', JStr s) r = Inr (r\<lparr>sp_Value := s\<rparr>)"
  by (simp_all add: member_step_def spec_fields_def field_for_def fld_def)

lemma item_steps:
  "int64_range i \<Longrightarrow> member_step item_fields (''QualityID'', json_int i) x = Inr (x\<lparr>qi_QualityID := i\<rparr>)"
  "member_step item_fields (''Allowed'', JBool b) x = Inr (x\<lparr>qi_Allowed := b\<rparr>)"
  by (simp_all add: member_step_def item_fields_def field_for_def fld_def)

lemma score_steps:
  "int64_range i \<Longrightarrow> member_step score_fields (''FormatID'', json_int i) x = Inr (x\<lparr>fs_FormatID := i\<rparr>)"
  "int64_range i \<Longrightarrow> member_step score_fields (''Score'', json_int i) x = Inr (x\<lparr>fs_Score := i\<rparr>)"
  by (simp_all add: member_step_def score_fields_def field_for_def fld_def)

lemma spec_decodes:
  assumes "mset ms = mset (spec_members s)"
  shows "dec_struct spec_fields (JObj ms) spec_zero = Inr s"
proof -
  define u where "u = (\<lambda>m r. projr (member_step spec_fields m r))"
  have "dec_struct spec_fields (JObj ms) spec_zero = Inr (fold u (spec_members s) spec_zero)"
    by (rule dec_struct_permuted [OF _ _ assms])
      (auto simp: u_def spec_members_def spec_steps)
  then show ?thesis by (simp add: u_def spec_members_def spec_steps spec_zero_def)
qed

lemma item_decodes:
  assumes "item_good x" "mset ms = mset (item_members x)"
  shows "dec_struct item_fields (JObj ms) item_zero = Inr x"
proof -
  define u where "u = (\<lambda>m r. projr (member_step item_fields m r))"
  have "dec_struct item_fields (JObj ms) item_zero = Inr (fold u (item_members x) item_zero)"
    by (rule dec_struct_permuted [OF _ _ assms(2)])
      (use assms(1) in \<open>auto simp: u_def item_members_def item_steps item_good_def\<close>)
  then show ?thesis
    using assms(1) by (simp add: u_def item_members_def item_steps item_zero_def item_good_def)
qed

lemma score_decodes:
  assumes "score_good x" "mset ms = mset (score_members x)"
  shows "dec_struct score_fields (JObj ms) score_zero = Inr x"
proof -
  define u where "u = (\<lambda>m r. projr (member_step score_fields m r))"
  have "dec_struct score_fields (JObj ms) score_zero = Inr (fold u (score_members x) score_zero)"
    by (rule dec_struct_permuted [OF _ _ assms(2)])
      (use assms(1) in \<open>auto simp: u_def score_members_def score_steps score_good_def\<close>)
  then show ?thesis
    using assms(1) by (simp add: u_def score_members_def score_steps score_zero_def score_good_def)
qed

subsection \<open>Arrays of structs\<close>

definition marshal_structs :: "('a \<Rightarrow> (string \<times> json) list) \<Rightarrow> 'a list \<Rightarrow> string" where
  "marshal_structs members xs = print_json (JArr (map (\<lambda>x. JObj (members x)) xs))"

definition unmarshal_structs :: "'a fields \<Rightarrow> 'a \<Rightarrow> string \<Rightarrow> (store_error, 'a list) result" where
  "unmarshal_structs fs zero t = map_sum id nonNil (Unmarshal (dec_slice (dec_struct fs) zero) t None)"

text \<open>A text that holds the objects of \<open>xs\<close>, each with its members in some order.\<close>

definition holds :: "('a \<Rightarrow> (string \<times> json) list) \<Rightarrow> 'a list \<Rightarrow> string \<Rightarrow> bool" where
  "holds members xs t \<longleftrightarrow> (\<exists>objs. parse_json t = Inr (JArr (map JObj objs)) \<and> list_all2 (\<lambda>ms x. mset ms = mset (members x)) objs xs)"

lemma unmarshal_holds:
  assumes "holds members xs t" "\<And>ms x. x \<in> set xs \<Longrightarrow> mset ms = mset (members x) \<Longrightarrow> dec_struct fs (JObj ms) zero = Inr x"
  shows "unmarshal_structs fs zero t = Inr xs"
proof -
  obtain objs where objs: "parse_json t = Inr (JArr (map JObj objs))" "list_all2 (\<lambda>ms x. mset ms = mset (members x)) objs xs"
    using assms(1) by (auto simp: holds_def)
  from objs(2) assms(2) have "dec_list (dec_struct fs) zero (map JObj objs) = Inr xs"
  proof (induction rule: list_all2_induct)
    case (Cons ms objs x xs)
    have one: "dec_struct fs (JObj ms) zero = Inr x" using Cons.prems Cons.hyps(1) by simp
    have "dec_list (dec_struct fs) zero (map JObj objs) = Inr xs" using Cons.IH Cons.prems by simp
    then show ?case by (simp add: one)
  qed simp
  then show ?thesis using objs(1) by (simp add: unmarshal_structs_def Unmarshal_def dec_slice_def nonNil_def)
qed

lemma marshal_holds:
  assumes "\<And>x. x \<in> set xs \<Longrightarrow> doc_ok (maxNestingDepth - 1) (JObj (members x))"
  shows "holds members xs (marshal_structs members xs)"
proof -
  have "doc_ok maxNestingDepth (JArr (map (\<lambda>x. JObj (members x)) xs))"
    using assms by (cases maxNestingDepth) (auto simp: maxNestingDepth_def list_all_iff)
  from parse_json_print [OF this]
  have "parse_json (marshal_structs members xs) = Inr (JArr (map JObj (map members xs)))"
    by (simp add: marshal_structs_def comp_def del: print_json.simps)
  moreover have "list_all2 (\<lambda>ms x. mset ms = mset (members x)) (map members xs) xs"
    by (simp add: list_all2_map1 list_all2_refl)
  ultimately show ?thesis unfolding holds_def by blast
qed

text \<open>
  What the stores rely on: a column of type \<open>jsonb\<close> takes an array of objects whose member names are distinct and whose members are
  integers, booleans and text without NUL, and gives back the same objects with their members in some order.
\<close>

fun plain_member :: "string \<times> json \<Rightarrow> bool" where
  "plain_member (k, JStr s) \<longleftrightarrow> valid_utf8 k \<and> CHR 0x00 \<notin> set k \<and> valid_utf8 s \<and> CHR 0x00 \<notin> set s"
| "plain_member (k, JBool b) \<longleftrightarrow> valid_utf8 k \<and> CHR 0x00 \<notin> set k"
| "plain_member (k, JNum l) \<longleftrightarrow> valid_utf8 k \<and> CHR 0x00 \<notin> set k \<and> (\<exists>i. int64_range i \<and> l = show_int i)"
| "plain_member _ \<longleftrightarrow> False"

definition plain_object :: "(string \<times> json) list \<Rightarrow> bool" where
  "plain_object ms \<longleftrightarrow> distinct (map fst ms) \<and> list_all plain_member ms"

definition keeps_objects :: "jsonb_input \<Rightarrow> bool" where
  "keeps_objects jsonb \<longleftrightarrow> (\<forall>objs. list_all plain_object objs \<longrightarrow>
     (\<exists>t. jsonb (marshal_structs id objs) = Some t \<and> holds id objs t))"

lemma plain_member_doc: "plain_member (k, j) \<Longrightarrow> valid_utf8 k \<and> doc_ok d j"
  by (cases "(k, j)" rule: plain_member.cases) auto

lemma plain_object_doc: "plain_object ms \<Longrightarrow> doc_ok (maxNestingDepth - 1) (JObj ms)"
  by (auto simp: plain_object_def list_all_iff maxNestingDepth_def dest: plain_member_doc simp del: valid_utf8.simps)

lemma Some_keeps_objects: "keeps_objects Some"
  unfolding keeps_objects_def
proof (intro allI impI)
  fix objs assume "list_all plain_object objs"
  then have "holds id objs (marshal_structs id objs)"
    by (intro marshal_holds) (auto simp only: list_all_iff id_apply intro: plain_object_doc)
  then show "\<exists>t. Some (marshal_structs id objs) = Some t \<and> holds id objs t" by simp
qed

lemma kept_structs:
  assumes "keeps_objects jsonb" "list_all (\<lambda>x. plain_object (members x)) xs"
  shows "\<exists>t. jsonb (marshal_structs members xs) = Some t \<and> holds members xs t"
proof -
  have "list_all plain_object (map members xs)" using assms(2) by (simp add: list_all_iff)
  with assms(1) obtain t where "jsonb (marshal_structs id (map members xs)) = Some t" "holds id (map members xs) t"
    by (auto simp: keeps_objects_def)
  then show ?thesis by (auto simp: holds_def marshal_structs_def list_all2_map2 comp_def)
qed

subsection \<open>Custom formats\<close>

definition marshal_specs :: "Specification list \<Rightarrow> string" where
  "marshal_specs ss = marshal_structs spec_members ss"

definition unmarshal_specs :: "string \<Rightarrow> (store_error, Specification list) result" where
  "unmarshal_specs t = unmarshal_structs spec_fields spec_zero t"

record SqCustomFormat =
  cq_ID :: int
  cq_Name :: string
  cq_IncludeWhenRenaming :: int
  cq_Specifications :: string

definition customFormatFromSQLite :: "SqCustomFormat \<Rightarrow> (store_error, CustomFormat) result" where
  "customFormatFromSQLite r =
     bindR (wrapR ''customformats: unmarshal specifications'' (unmarshal_specs (cq_Specifications r))) (\<lambda>specs.
       Inr \<lparr>cf_ID = cq_ID r, cf_Name = cq_Name r, cf_IncludeWhenRenaming = cq_IncludeWhenRenaming r \<noteq> 0, cf_Specifications = specs\<rparr>)"

definition sqFormatRow :: "CustomFormat \<Rightarrow> int \<Rightarrow> SqCustomFormat" where
  "sqFormatRow cf i = \<lparr>cq_ID = i, cq_Name = cf_Name cf, cq_IncludeWhenRenaming = profileBoolToInt64 (cf_IncludeWhenRenaming cf),
     cq_Specifications = marshal_specs (cf_Specifications cf)\<rparr>"

definition sqlite_CreateCustomFormat :: "dbenv \<Rightarrow> CustomFormat \<Rightarrow> (SqCustomFormat table, SqCustomFormat) act" where
  "sqlite_CreateCustomFormat e cf = stmt e ''CreateCustomFormat'' (sql_insert (sqFormatRow cf))"

definition sqlite_GetCustomFormatByID :: "dbenv \<Rightarrow> int \<Rightarrow> (SqCustomFormat table, SqCustomFormat) act" where
  "sqlite_GetCustomFormatByID e i = stmt e ''GetCustomFormatByID'' (sql_one (\<lambda>r. cq_ID r = i))"

definition sqlite_ListCustomFormats :: "dbenv \<Rightarrow> (SqCustomFormat table, SqCustomFormat list) act" where
  "sqlite_ListCustomFormats e = stmt e ''ListCustomFormats'' (sql_many (\<lambda>_. True) cq_Name)"

definition sqlite_UpdateCustomFormat :: "dbenv \<Rightarrow> CustomFormat \<Rightarrow> (SqCustomFormat table, unit) act" where
  "sqlite_UpdateCustomFormat e cf = stmt e ''UpdateCustomFormat''
     (sql_exec (\<lambda>r. cq_ID r = cf_ID cf) (\<lambda>r. sqFormatRow cf (cq_ID r)))"

definition sqlite_DeleteCustomFormat :: "dbenv \<Rightarrow> int \<Rightarrow> (SqCustomFormat table, unit) act" where
  "sqlite_DeleteCustomFormat e i = stmt e ''DeleteCustomFormat'' (sql_delete (\<lambda>r. cq_ID r = i))"

definition sqliteFormats_Create :: "dbenv \<Rightarrow> CustomFormat \<Rightarrow> (SqCustomFormat table, CustomFormat) act" where
  "sqliteFormats_Create e cf = SQLitePool_Write e
     (decodeA customFormatFromSQLite (wrapA ''customformats: create'' (sqlite_CreateCustomFormat e cf)))"

definition sqliteFormats_GetByID :: "dbenv \<Rightarrow> int \<Rightarrow> (SqCustomFormat table, CustomFormat) act" where
  "sqliteFormats_GetByID e i = decodeA customFormatFromSQLite
     (rowA (Inl (ErrNotFound ''customformats: not found'')) ''customformats: get by id'' (\<lambda>r. r) (sqlite_GetCustomFormatByID e i))"

definition sqliteFormats_List :: "dbenv \<Rightarrow> (SqCustomFormat table, CustomFormat list) act" where
  "sqliteFormats_List e = decodeA (decode_rows customFormatFromSQLite) (wrapA ''customformats: list'' (sqlite_ListCustomFormats e))"

definition sqliteFormats_Update :: "dbenv \<Rightarrow> CustomFormat \<Rightarrow> (SqCustomFormat table, unit) act" where
  "sqliteFormats_Update e cf = wrapA ''customformats: update'' (SQLitePool_Write e (sqlite_UpdateCustomFormat e cf))"

definition sqliteFormats_Delete :: "dbenv \<Rightarrow> int \<Rightarrow> (SqCustomFormat table, unit) act" where
  "sqliteFormats_Delete e i = wrapA ''customformats: delete'' (SQLitePool_Write e (sqlite_DeleteCustomFormat e i))"

definition sqliteFormats :: "(SqCustomFormat table, CustomFormat) InstanceStore" where
  "sqliteFormats = \<lparr>is_Create = sqliteFormats_Create, is_GetByID = sqliteFormats_GetByID, is_List = sqliteFormats_List,
     is_Update = sqliteFormats_Update, is_Delete = sqliteFormats_Delete\<rparr>"

record PgCustomFormat =
  cx_ID :: int
  cx_Name :: string
  cx_IncludeWhenRenaming :: bool
  cx_Specifications :: string

definition customFormatFromPostgres :: "PgCustomFormat \<Rightarrow> (store_error, CustomFormat) result" where
  "customFormatFromPostgres r =
     bindR (wrapR ''customformats: unmarshal specifications'' (unmarshal_specs (cx_Specifications r))) (\<lambda>specs.
       Inr \<lparr>cf_ID = cx_ID r, cf_Name = cx_Name r, cf_IncludeWhenRenaming = cx_IncludeWhenRenaming r, cf_Specifications = specs\<rparr>)"

definition pgFormatRow :: "CustomFormat \<Rightarrow> string \<Rightarrow> int \<Rightarrow> PgCustomFormat" where
  "pgFormatRow cf specs i = \<lparr>cx_ID = i, cx_Name = cf_Name cf, cx_IncludeWhenRenaming = cf_IncludeWhenRenaming cf, cx_Specifications = specs\<rparr>"

definition postgres_CreateCustomFormat :: "jsonb_input \<Rightarrow> dbenv \<Rightarrow> CustomFormat \<Rightarrow> (PgCustomFormat table, PgCustomFormat) act" where
  "postgres_CreateCustomFormat jsonb e cf = stmt e ''CreateCustomFormat''
     (with_json (jsonb_param jsonb (Some (marshal_specs (cf_Specifications cf)))) (\<lambda>t. sql_insert (pgFormatRow cf t)))"

definition postgres_GetCustomFormatByID :: "dbenv \<Rightarrow> int \<Rightarrow> (PgCustomFormat table, PgCustomFormat) act" where
  "postgres_GetCustomFormatByID e i = stmt e ''GetCustomFormatByID'' (sql_one (\<lambda>r. cx_ID r = i))"

definition postgres_ListCustomFormats :: "(string \<Rightarrow> string) \<Rightarrow> dbenv \<Rightarrow> (PgCustomFormat table, PgCustomFormat list) act" where
  "postgres_ListCustomFormats collate e = stmt e ''ListCustomFormats'' (sql_many (\<lambda>_. True) (\<lambda>r. collate (cx_Name r)))"

definition postgres_UpdateCustomFormat :: "jsonb_input \<Rightarrow> dbenv \<Rightarrow> CustomFormat \<Rightarrow> (PgCustomFormat table, unit) act" where
  "postgres_UpdateCustomFormat jsonb e cf = stmt e ''UpdateCustomFormat''
     (with_json (jsonb_param jsonb (Some (marshal_specs (cf_Specifications cf))))
       (\<lambda>t. sql_exec (\<lambda>r. cx_ID r = wrap32 (cf_ID cf)) (\<lambda>r. pgFormatRow cf t (cx_ID r))))"

definition postgres_DeleteCustomFormat :: "dbenv \<Rightarrow> int \<Rightarrow> (PgCustomFormat table, unit) act" where
  "postgres_DeleteCustomFormat e i = stmt e ''DeleteCustomFormat'' (sql_delete (\<lambda>r. cx_ID r = i))"

definition postgresFormats_Create :: "jsonb_input \<Rightarrow> dbenv \<Rightarrow> CustomFormat \<Rightarrow> (PgCustomFormat table, CustomFormat) act" where
  "postgresFormats_Create jsonb e cf = decodeA customFormatFromPostgres
     (wrapA ''customformats: create'' (postgres_CreateCustomFormat jsonb e cf))"

definition postgresFormats_GetByID :: "dbenv \<Rightarrow> int \<Rightarrow> (PgCustomFormat table, CustomFormat) act" where
  "postgresFormats_GetByID e i = decodeA customFormatFromPostgres
     (rowA (Inl (ErrNotFound ''customformats: not found'')) ''customformats: get by id'' (\<lambda>r. r)
       (postgres_GetCustomFormatByID e (wrap32 i)))"

definition postgresFormats_List :: "(string \<Rightarrow> string) \<Rightarrow> dbenv \<Rightarrow> (PgCustomFormat table, CustomFormat list) act" where
  "postgresFormats_List collate e =
     decodeA (decode_rows customFormatFromPostgres) (wrapA ''customformats: list'' (postgres_ListCustomFormats collate e))"

definition postgresFormats_Update :: "jsonb_input \<Rightarrow> dbenv \<Rightarrow> CustomFormat \<Rightarrow> (PgCustomFormat table, unit) act" where
  "postgresFormats_Update jsonb e cf = wrapA ''customformats: update'' (postgres_UpdateCustomFormat jsonb e cf)"

definition postgresFormats_Delete :: "dbenv \<Rightarrow> int \<Rightarrow> (PgCustomFormat table, unit) act" where
  "postgresFormats_Delete e i = wrapA ''customformats: delete'' (postgres_DeleteCustomFormat e (wrap32 i))"

definition postgresFormats :: "(string \<Rightarrow> string) \<Rightarrow> jsonb_input \<Rightarrow> (PgCustomFormat table, CustomFormat) InstanceStore" where
  "postgresFormats collate jsonb = \<lparr>is_Create = postgresFormats_Create jsonb, is_GetByID = postgresFormats_GetByID,
     is_List = postgresFormats_List collate, is_Update = postgresFormats_Update jsonb, is_Delete = postgresFormats_Delete\<rparr>"

subsection \<open>Quality profiles\<close>

definition unmarshal_items :: "string \<Rightarrow> (store_error, QualityProfileItem list) result" where
  "unmarshal_items t = wrapR ''profiles: unmarshal items'' (unmarshal_structs item_fields item_zero t)"

definition unmarshal_scores :: "string \<Rightarrow> (store_error, FormatScoreItem list) result" where
  "unmarshal_scores t = wrapR ''profiles: unmarshal format_items'' (unmarshal_structs score_fields score_zero t)"

record SqQualityProfile =
  qq_ID :: int
  qq_Name :: string
  qq_UpgradeAllowed :: int
  qq_Cutoff :: int
  qq_Items :: string
  qq_MinFormatScore :: int
  qq_CutoffFormatScore :: int
  qq_FormatItems :: string

definition qualityProfileFromSQLite :: "SqQualityProfile \<Rightarrow> (store_error, QualityProfile) result" where
  "qualityProfileFromSQLite r =
     bindR (unmarshal_items (qq_Items r)) (\<lambda>items. bindR (unmarshal_scores (qq_FormatItems r)) (\<lambda>formatItems.
       Inr \<lparr>qp_ID = qq_ID r, qp_Name = qq_Name r, qp_UpgradeAllowed = qq_UpgradeAllowed r \<noteq> 0, qp_Cutoff = qq_Cutoff r, qp_Items = items,
            qp_MinFormatScore = qq_MinFormatScore r, qp_CutoffFormatScore = qq_CutoffFormatScore r, qp_FormatItems = formatItems\<rparr>))"

definition sqQualityRow :: "QualityProfile \<Rightarrow> int \<Rightarrow> SqQualityProfile" where
  "sqQualityRow p i = \<lparr>qq_ID = i, qq_Name = qp_Name p, qq_UpgradeAllowed = profileBoolToInt64 (qp_UpgradeAllowed p), qq_Cutoff = qp_Cutoff p,
     qq_Items = marshal_structs item_members (qp_Items p), qq_MinFormatScore = qp_MinFormatScore p,
     qq_CutoffFormatScore = qp_CutoffFormatScore p, qq_FormatItems = marshal_structs score_members (qp_FormatItems p)\<rparr>"

definition sqlite_CreateQualityProfile :: "dbenv \<Rightarrow> QualityProfile \<Rightarrow> (SqQualityProfile table, SqQualityProfile) act" where
  "sqlite_CreateQualityProfile e p = stmt e ''CreateQualityProfile'' (sql_insert (sqQualityRow p))"

definition sqlite_GetQualityProfileByID :: "dbenv \<Rightarrow> int \<Rightarrow> (SqQualityProfile table, SqQualityProfile) act" where
  "sqlite_GetQualityProfileByID e i = stmt e ''GetQualityProfileByID'' (sql_one (\<lambda>r. qq_ID r = i))"

definition sqlite_ListQualityProfiles :: "dbenv \<Rightarrow> (SqQualityProfile table, SqQualityProfile list) act" where
  "sqlite_ListQualityProfiles e = stmt e ''ListQualityProfiles'' (sql_many (\<lambda>_. True) qq_Name)"

definition sqlite_UpdateQualityProfile :: "dbenv \<Rightarrow> QualityProfile \<Rightarrow> (SqQualityProfile table, unit) act" where
  "sqlite_UpdateQualityProfile e p = stmt e ''UpdateQualityProfile''
     (sql_exec (\<lambda>r. qq_ID r = qp_ID p) (\<lambda>r. sqQualityRow p (qq_ID r)))"

definition sqlite_DeleteQualityProfile :: "dbenv \<Rightarrow> int \<Rightarrow> (SqQualityProfile table, unit) act" where
  "sqlite_DeleteQualityProfile e i = stmt e ''DeleteQualityProfile'' (sql_delete (\<lambda>r. qq_ID r = i))"

definition sqliteQuality_Create :: "dbenv \<Rightarrow> QualityProfile \<Rightarrow> (SqQualityProfile table, QualityProfile) act" where
  "sqliteQuality_Create e p = SQLitePool_Write e
     (decodeA qualityProfileFromSQLite (wrapA ''profiles: create quality profile'' (sqlite_CreateQualityProfile e p)))"

definition sqliteQuality_GetByID :: "dbenv \<Rightarrow> int \<Rightarrow> (SqQualityProfile table, QualityProfile) act" where
  "sqliteQuality_GetByID e i = decodeA qualityProfileFromSQLite
     (rowA (Inl (ErrNotFound ''profiles: not found'')) ''profiles: get quality profile by id'' (\<lambda>r. r) (sqlite_GetQualityProfileByID e i))"

definition sqliteQuality_List :: "dbenv \<Rightarrow> (SqQualityProfile table, QualityProfile list) act" where
  "sqliteQuality_List e =
     decodeA (decode_rows qualityProfileFromSQLite) (wrapA ''profiles: list quality profiles'' (sqlite_ListQualityProfiles e))"

definition sqliteQuality_Update :: "dbenv \<Rightarrow> QualityProfile \<Rightarrow> (SqQualityProfile table, unit) act" where
  "sqliteQuality_Update e p = wrapA ''profiles: update quality profile'' (SQLitePool_Write e (sqlite_UpdateQualityProfile e p))"

definition sqliteQuality_Delete :: "dbenv \<Rightarrow> int \<Rightarrow> (SqQualityProfile table, unit) act" where
  "sqliteQuality_Delete e i = wrapA ''profiles: delete quality profile'' (SQLitePool_Write e (sqlite_DeleteQualityProfile e i))"

definition sqliteQualityProfiles :: "(SqQualityProfile table, QualityProfile) InstanceStore" where
  "sqliteQualityProfiles = \<lparr>is_Create = sqliteQuality_Create, is_GetByID = sqliteQuality_GetByID, is_List = sqliteQuality_List,
     is_Update = sqliteQuality_Update, is_Delete = sqliteQuality_Delete\<rparr>"

record PgQualityProfile =
  qx_ID :: int
  qx_Name :: string
  qx_UpgradeAllowed :: bool
  qx_Cutoff :: int
  qx_Items :: string
  qx_MinFormatScore :: int
  qx_CutoffFormatScore :: int
  qx_FormatItems :: string

definition qualityProfileFromPostgres :: "PgQualityProfile \<Rightarrow> (store_error, QualityProfile) result" where
  "qualityProfileFromPostgres r =
     bindR (unmarshal_items (qx_Items r)) (\<lambda>items. bindR (unmarshal_scores (qx_FormatItems r)) (\<lambda>formatItems.
       Inr \<lparr>qp_ID = qx_ID r, qp_Name = qx_Name r, qp_UpgradeAllowed = qx_UpgradeAllowed r, qp_Cutoff = qx_Cutoff r, qp_Items = items,
            qp_MinFormatScore = qx_MinFormatScore r, qp_CutoffFormatScore = qx_CutoffFormatScore r, qp_FormatItems = formatItems\<rparr>))"

definition pgQualityRow :: "QualityProfile \<Rightarrow> string \<Rightarrow> string \<Rightarrow> int \<Rightarrow> PgQualityProfile" where
  "pgQualityRow p items formatItems i = \<lparr>qx_ID = i, qx_Name = qp_Name p, qx_UpgradeAllowed = qp_UpgradeAllowed p,
     qx_Cutoff = wrap32 (qp_Cutoff p), qx_Items = items, qx_MinFormatScore = wrap32 (qp_MinFormatScore p),
     qx_CutoffFormatScore = wrap32 (qp_CutoffFormatScore p), qx_FormatItems = formatItems\<rparr>"

definition quality_json :: "jsonb_input \<Rightarrow> QualityProfile \<Rightarrow> (string \<Rightarrow> string \<Rightarrow> ('s, 'a) act) \<Rightarrow> ('s, 'a) act" where
  "quality_json jsonb p m =
     with_json (jsonb_param jsonb (Some (marshal_structs item_members (qp_Items p)))) (\<lambda>items.
       with_json (jsonb_param jsonb (Some (marshal_structs score_members (qp_FormatItems p)))) (m items))"

definition postgres_CreateQualityProfile :: "jsonb_input \<Rightarrow> dbenv \<Rightarrow> QualityProfile \<Rightarrow> (PgQualityProfile table, PgQualityProfile) act" where
  "postgres_CreateQualityProfile jsonb e p = stmt e ''CreateQualityProfile''
     (quality_json jsonb p (\<lambda>items formatItems. sql_insert (pgQualityRow p items formatItems)))"

definition postgres_GetQualityProfileByID :: "dbenv \<Rightarrow> int \<Rightarrow> (PgQualityProfile table, PgQualityProfile) act" where
  "postgres_GetQualityProfileByID e i = stmt e ''GetQualityProfileByID'' (sql_one (\<lambda>r. qx_ID r = i))"

definition postgres_ListQualityProfiles :: "(string \<Rightarrow> string) \<Rightarrow> dbenv \<Rightarrow> (PgQualityProfile table, PgQualityProfile list) act" where
  "postgres_ListQualityProfiles collate e = stmt e ''ListQualityProfiles'' (sql_many (\<lambda>_. True) (\<lambda>r. collate (qx_Name r)))"

definition postgres_UpdateQualityProfile :: "jsonb_input \<Rightarrow> dbenv \<Rightarrow> QualityProfile \<Rightarrow> (PgQualityProfile table, unit) act" where
  "postgres_UpdateQualityProfile jsonb e p = stmt e ''UpdateQualityProfile''
     (quality_json jsonb p (\<lambda>items formatItems.
       sql_exec (\<lambda>r. qx_ID r = wrap32 (qp_ID p)) (\<lambda>r. pgQualityRow p items formatItems (qx_ID r))))"

definition postgres_DeleteQualityProfile :: "dbenv \<Rightarrow> int \<Rightarrow> (PgQualityProfile table, unit) act" where
  "postgres_DeleteQualityProfile e i = stmt e ''DeleteQualityProfile'' (sql_delete (\<lambda>r. qx_ID r = i))"

definition postgresQuality_Create :: "jsonb_input \<Rightarrow> dbenv \<Rightarrow> QualityProfile \<Rightarrow> (PgQualityProfile table, QualityProfile) act" where
  "postgresQuality_Create jsonb e p = decodeA qualityProfileFromPostgres
     (wrapA ''profiles: create quality profile'' (postgres_CreateQualityProfile jsonb e p))"

definition postgresQuality_GetByID :: "dbenv \<Rightarrow> int \<Rightarrow> (PgQualityProfile table, QualityProfile) act" where
  "postgresQuality_GetByID e i = decodeA qualityProfileFromPostgres
     (rowA (Inl (ErrNotFound ''profiles: not found'')) ''profiles: get quality profile by id'' (\<lambda>r. r)
       (postgres_GetQualityProfileByID e (wrap32 i)))"

definition postgresQuality_List :: "(string \<Rightarrow> string) \<Rightarrow> dbenv \<Rightarrow> (PgQualityProfile table, QualityProfile list) act" where
  "postgresQuality_List collate e = decodeA (decode_rows qualityProfileFromPostgres)
     (wrapA ''profiles: list quality profiles'' (postgres_ListQualityProfiles collate e))"

definition postgresQuality_Update :: "jsonb_input \<Rightarrow> dbenv \<Rightarrow> QualityProfile \<Rightarrow> (PgQualityProfile table, unit) act" where
  "postgresQuality_Update jsonb e p = wrapA ''profiles: update quality profile'' (postgres_UpdateQualityProfile jsonb e p)"

definition postgresQuality_Delete :: "dbenv \<Rightarrow> int \<Rightarrow> (PgQualityProfile table, unit) act" where
  "postgresQuality_Delete e i = wrapA ''profiles: delete quality profile'' (postgres_DeleteQualityProfile e (wrap32 i))"

definition postgresQualityProfiles :: "(string \<Rightarrow> string) \<Rightarrow> jsonb_input \<Rightarrow> (PgQualityProfile table, QualityProfile) InstanceStore" where
  "postgresQualityProfiles collate jsonb = \<lparr>is_Create = postgresQuality_Create jsonb, is_GetByID = postgresQuality_GetByID,
     is_List = postgresQuality_List collate, is_Update = postgresQuality_Update jsonb, is_Delete = postgresQuality_Delete\<rparr>"

subsection \<open>Quality definitions\<close>

text \<open>Their tables are filled by migration 00009. Both engines hold the sizes as floating-point numbers, Postgres in single precision, which
  widens exactly.\<close>

definition qualityDefFrom :: "QualityDefinition \<Rightarrow> QualityDefinition" where
  "qualityDefFrom r = \<lparr>qd_ID = qd_ID r, qd_Name = qd_Name r, qd_Source = qd_Source r, qd_Resolution = qd_Resolution r,
     qd_MinSize = qd_MinSize r, qd_MaxSize = qd_MaxSize r, qd_PreferredSize = qd_PreferredSize r\<rparr>"

definition sqlite_GetAllQualityDefinitions :: "dbenv \<Rightarrow> (QualityDefinition table, QualityDefinition list) act" where
  "sqlite_GetAllQualityDefinitions e = stmt e ''GetAllQualityDefinitions'' (sql_many (\<lambda>_. True) qd_ID)"

definition sqlite_GetQualityDefinitionByID :: "dbenv \<Rightarrow> int \<Rightarrow> (QualityDefinition table, QualityDefinition) act" where
  "sqlite_GetQualityDefinitionByID e i = stmt e ''GetQualityDefinitionByID'' (sql_one (\<lambda>r. qd_ID r = i))"

definition sqliteDefinitions_GetAll :: "dbenv \<Rightarrow> (QualityDefinition table, QualityDefinition list) act" where
  "sqliteDefinitions_GetAll e =
     mapA (map qualityDefFrom) (wrapA ''profiles: get all quality definitions'' (sqlite_GetAllQualityDefinitions e))"

definition sqliteDefinitions_GetByID :: "dbenv \<Rightarrow> int \<Rightarrow> (QualityDefinition table, QualityDefinition) act" where
  "sqliteDefinitions_GetByID e i = rowA (Inl (ErrNotFound ''profiles: not found'')) ''profiles: get quality definition by id''
     qualityDefFrom (sqlite_GetQualityDefinitionByID e i)"

definition postgres_GetAllQualityDefinitions :: "dbenv \<Rightarrow> (QualityDefinition table, QualityDefinition list) act" where
  "postgres_GetAllQualityDefinitions e = stmt e ''GetAllQualityDefinitions'' (sql_many (\<lambda>_. True) qd_ID)"

definition postgres_GetQualityDefinitionByID :: "dbenv \<Rightarrow> int \<Rightarrow> (QualityDefinition table, QualityDefinition) act" where
  "postgres_GetQualityDefinitionByID e i = stmt e ''GetQualityDefinitionByID'' (sql_one (\<lambda>r. qd_ID r = i))"

definition postgresDefinitions_GetAll :: "dbenv \<Rightarrow> (QualityDefinition table, QualityDefinition list) act" where
  "postgresDefinitions_GetAll e =
     mapA (map qualityDefFrom) (wrapA ''profiles: get all quality definitions'' (postgres_GetAllQualityDefinitions e))"

definition postgresDefinitions_GetByID :: "dbenv \<Rightarrow> int \<Rightarrow> (QualityDefinition table, QualityDefinition) act" where
  "postgresDefinitions_GetByID e i = rowA (Inl (ErrNotFound ''profiles: not found'')) ''profiles: get quality definition by id''
     qualityDefFrom (postgres_GetQualityDefinitionByID e (wrap32 i))"

subsection \<open>Stores of rows that decode\<close>

locale json_store =
  fixes st :: "('r table, 'a) InstanceStore" and rid :: "'r \<Rightarrow> int" and f :: "'r \<Rightarrow> (store_error, 'a) result"
    and dec :: "'r \<Rightarrow> 'a" and ok :: "'r \<Rightarrow> bool" and good :: "'a \<Rightarrow> bool"
    and mk :: "'a \<Rightarrow> int \<Rightarrow> 'r" and sp :: "('a, 'k::linorder) crud_spec" and nf :: string and msg :: string
  assumes decodes: "ok r \<Longrightarrow> f r = Inr (dec r)"
    and accepts: "cs_accepts sp = good"
    and item_id: "cs_iid sp (dec r) = rid r"
    and made_dec: "good x \<Longrightarrow> cs_made sp now i x = dec (mk x i)"
    and changed_dec: "good x \<Longrightarrow> cs_changed sp x (dec r) = dec (mk x (rid r))"
    and row_id: "rid (mk x i) = i"
    and row_ok: "good x \<Longrightarrow> ok (mk x i)"
    and create: "quiet e \<Longrightarrow> good x \<Longrightarrow> is_Create st e x = decodeA f (sql_insert (mk x))"
    and get: "quiet e \<Longrightarrow> is_GetByID st e j = decodeA f (rowA (Inl (ErrNotFound nf)) msg (\<lambda>r. r) (sql_one (\<lambda>r. rid r = cs_ident sp j)))"
    and list: "quiet e \<Longrightarrow> is_List st e = decodeA (decode_rows f) (sql_many (\<lambda>_. True) (\<lambda>r. cs_order sp (dec r)))"
    and update: "quiet e \<Longrightarrow> good x \<Longrightarrow> is_Update st e x = sql_exec (\<lambda>r. rid r = cs_ident sp (cs_iid sp x)) (\<lambda>r. mk x (rid r))"
    and delete: "quiet e \<Longrightarrow> is_Delete st e j = sql_delete (\<lambda>r. rid r = cs_ident sp j)"

sublocale json_store \<subseteq> decoded_store st rid dec ok good "\<lambda>now. mk" "\<lambda>x r. mk x (rid r)" sp
proof unfold_locales
  fix e :: dbenv and s :: "'r table" and op
  assume q: "quiet e" and rows: "list_all ok (rows s)" and good: "op_item good op"
  have all: "list_all (\<lambda>r. f r = Inr (dec r)) (rows s)" using rows by (simp add: list_all_iff decodes)
  show "store_do st e op s = store_do (table_ops rid dec (\<lambda>now. mk) (\<lambda>x r. mk x (rid r)) sp) e op s"
  proof (cases op)
    case (OpCreate x)
    then show ?thesis using q good by (simp add: table_ops_def create accepts decodeA_insert decodes row_ok)
  next
    case (OpGet i)
    then show ?thesis using q all out_of_row by (simp add: table_ops_def get decodeA_one)
  next
    case OpList
    then show ?thesis using q all by (simp add: table_ops_def list decodeA_many)
  next
    case (OpUpdate x)
    then show ?thesis using q good by (simp add: table_ops_def update accepts)
  next
    case (OpDelete i)
    then show ?thesis using q by (simp add: table_ops_def delete)
  qed
qed (simp_all add: accepts item_id made_dec changed_dec row_id row_ok)

context json_store
begin

lemma run_as_spec:
  assumes "good_calls good ops"
  shows "fst (store_run st ops empty_table) = fst (spec_run sp (timed ops) empty_shelf)"
  by (rule decoded_from_empty [OF assms [unfolded good_calls_def]])

end

subsection \<open>The stores refine their specification\<close>

lemma wrapA_insert [simp]: "wrapA m (sql_insert mk) = sql_insert mk" "wrapA m (sql_exec P g) = sql_exec P g"
  "wrapA m (sql_delete P) = sql_delete P" "wrapA m (sql_many P k) = sql_many P k"
  by (auto simp: wrapA_def sql_defs fun_eq_iff)

text \<open>What the columns keep: text that is valid UTF-8, without NUL, and 64-bit integers.\<close>

definition spec_good :: "Specification \<Rightarrow> bool" where
  "spec_good s \<longleftrightarrow> list_all (\<lambda>x. valid_utf8 x \<and> CHR 0x00 \<notin> set x) [sp_Name s, sp_Implementation s, sp_Value s]"

definition format_good :: "CustomFormat \<Rightarrow> bool" where
  "format_good cf \<longleftrightarrow> list_all spec_good (cf_Specifications cf)"

definition quality_good :: "QualityProfile \<Rightarrow> bool" where
  "quality_good p \<longleftrightarrow> list_all item_good (qp_Items p) \<and> list_all score_good (qp_FormatItems p)"

definition format_spec :: "(int \<Rightarrow> int) \<Rightarrow> (string \<Rightarrow> string) \<Rightarrow> (CustomFormat, string) crud_spec" where
  "format_spec n ord = \<lparr>cs_iid = cf_ID, cs_ident = n, cs_accepts = format_good,
     cs_made = (\<lambda>now i cf. cf\<lparr>cf_ID := i\<rparr>), cs_changed = (\<lambda>cf y. cf\<lparr>cf_ID := cf_ID y\<rparr>),
     cs_order = (\<lambda>cf. ord (cf_Name cf))\<rparr>"

definition quality_narrow :: "(int \<Rightarrow> int) \<Rightarrow> QualityProfile \<Rightarrow> QualityProfile" where
  "quality_narrow n p = p\<lparr>qp_Cutoff := n (qp_Cutoff p), qp_MinFormatScore := n (qp_MinFormatScore p),
     qp_CutoffFormatScore := n (qp_CutoffFormatScore p)\<rparr>"

definition quality_spec :: "(int \<Rightarrow> int) \<Rightarrow> (string \<Rightarrow> string) \<Rightarrow> (QualityProfile, string) crud_spec" where
  "quality_spec n ord = \<lparr>cs_iid = qp_ID, cs_ident = n, cs_accepts = quality_good,
     cs_made = (\<lambda>now i p. (quality_narrow n p)\<lparr>qp_ID := i\<rparr>),
     cs_changed = (\<lambda>p y. (quality_narrow n p)\<lparr>qp_ID := qp_ID y\<rparr>),
     cs_order = (\<lambda>p. ord (qp_Name p))\<rparr>"

lemma ascii_keys: "valid_utf8 ''name''" "valid_utf8 ''implementation''" "valid_utf8 ''negate''" "valid_utf8 ''required''" "valid_utf8 ''value''"
  "valid_utf8 ''QualityID''" "valid_utf8 ''Allowed''" "valid_utf8 ''FormatID''" "valid_utf8 ''Score''"
  by (rule valid_utf8_ascii, simp add: char_code_def)+

lemma plain_structs:
  "spec_good s \<Longrightarrow> plain_object (spec_members s)"
  "item_good x \<Longrightarrow> plain_object (item_members x)"
  "score_good y \<Longrightarrow> plain_object (score_members y)"
  using ascii_keys
  by (auto simp: plain_object_def spec_members_def item_members_def score_members_def spec_good_def item_good_def score_good_def
      simp del: valid_utf8.simps)

lemma holds_marshal:
  assumes "list_all (\<lambda>x. plain_object (members x)) xs"
  shows "holds members xs (marshal_structs members xs)"
  using assms by (intro marshal_holds plain_object_doc) (simp add: list_all_iff)

lemma read_specs: "holds spec_members ss t \<Longrightarrow> unmarshal_specs t = Inr ss"
  unfolding unmarshal_specs_def by (rule unmarshal_holds) (auto intro: spec_decodes)

lemma read_items: "holds item_members xs t \<Longrightarrow> list_all item_good xs \<Longrightarrow> unmarshal_items t = Inr xs"
  unfolding unmarshal_items_def wrapR_def by (subst unmarshal_holds) (auto simp: list_all_iff intro: item_decodes)

lemma read_scores: "holds score_members xs t \<Longrightarrow> list_all score_good xs \<Longrightarrow> unmarshal_scores t = Inr xs"
  unfolding unmarshal_scores_def wrapR_def by (subst unmarshal_holds) (auto simp: list_all_iff intro: score_decodes)

definition format_sq_dec :: "SqCustomFormat \<Rightarrow> CustomFormat" where
  "format_sq_dec r = \<lparr>cf_ID = cq_ID r, cf_Name = cq_Name r, cf_IncludeWhenRenaming = cq_IncludeWhenRenaming r \<noteq> 0,
     cf_Specifications = or_else [] (unmarshal_specs (cq_Specifications r))\<rparr>"

definition format_pg_dec :: "PgCustomFormat \<Rightarrow> CustomFormat" where
  "format_pg_dec r = \<lparr>cf_ID = cx_ID r, cf_Name = cx_Name r, cf_IncludeWhenRenaming = cx_IncludeWhenRenaming r,
     cf_Specifications = or_else [] (unmarshal_specs (cx_Specifications r))\<rparr>"

definition kept_text :: "jsonb_input \<Rightarrow> ('a \<Rightarrow> (string \<times> json) list) \<Rightarrow> 'a list \<Rightarrow> string" where
  "kept_text jsonb members xs = the (jsonb (marshal_structs members xs))"

lemma kept_text:
  assumes "keeps_objects jsonb" "list_all (\<lambda>x. plain_object (members x)) xs"
  shows "jsonb_param jsonb (Some (marshal_structs members xs)) = Inr (kept_text jsonb members xs)"
    and "holds members xs (kept_text jsonb members xs)"
  using kept_structs [OF assms] by (auto simp: kept_text_def jsonb_param_def)

lemmas format_store_defs = sqliteFormats_def sqliteFormats_Create_def sqliteFormats_GetByID_def sqliteFormats_List_def
  sqliteFormats_Update_def sqliteFormats_Delete_def sqlite_CreateCustomFormat_def sqlite_GetCustomFormatByID_def
  sqlite_ListCustomFormats_def sqlite_UpdateCustomFormat_def sqlite_DeleteCustomFormat_def
  postgresFormats_def postgresFormats_Create_def postgresFormats_GetByID_def postgresFormats_List_def
  postgresFormats_Update_def postgresFormats_Delete_def postgres_CreateCustomFormat_def postgres_GetCustomFormatByID_def
  postgres_ListCustomFormats_def postgres_UpdateCustomFormat_def postgres_DeleteCustomFormat_def

lemma format_plain: "format_good cf \<Longrightarrow> list_all (\<lambda>s. plain_object (spec_members s)) (cf_Specifications cf)"
  by (auto simp: format_good_def list_all_iff plain_structs)

interpretation sqformats: json_store sqliteFormats cq_ID customFormatFromSQLite format_sq_dec
  "\<lambda>r. is_ok (unmarshal_specs (cq_Specifications r))" format_good sqFormatRow "format_spec (\<lambda>i. i) (\<lambda>n. n)"
  "''customformats: not found''" "''customformats: get by id''"
proof unfold_locales
  show "is_ok (unmarshal_specs (cq_Specifications r)) \<Longrightarrow> customFormatFromSQLite r = Inr (format_sq_dec r)" for r
    by (auto simp: customFormatFromSQLite_def format_sq_dec_def wrapR_def elim!: is_okE)
  have rt: "unmarshal_specs (marshal_specs (cf_Specifications x)) = Inr (cf_Specifications x)" if "format_good x" for x
    unfolding marshal_specs_def by (rule read_specs [OF holds_marshal [OF format_plain [OF that]]])
  show "format_good x \<Longrightarrow> is_ok (unmarshal_specs (cq_Specifications (sqFormatRow x i)))" for x i
    by (simp add: sqFormatRow_def rt)
  show "format_good x \<Longrightarrow> cs_made (format_spec (\<lambda>i. i) (\<lambda>n. n)) now i x = format_sq_dec (sqFormatRow x i)" for now i x
    by (simp add: sqFormatRow_def format_sq_dec_def format_spec_def rt)
  show "format_good x \<Longrightarrow> cs_changed (format_spec (\<lambda>i. i) (\<lambda>n. n)) x (format_sq_dec r) = format_sq_dec (sqFormatRow x (cq_ID r))" for x r
    by (simp add: sqFormatRow_def format_sq_dec_def format_spec_def rt)
qed (simp_all add: format_spec_def format_store_defs, simp_all add: format_sq_dec_def sqFormatRow_def)

definition pgFormatKept :: "jsonb_input \<Rightarrow> CustomFormat \<Rightarrow> int \<Rightarrow> PgCustomFormat" where
  "pgFormatKept jsonb cf = pgFormatRow cf (kept_text jsonb spec_members (cf_Specifications cf))"

lemma pgformats_store:
  assumes keeps: "keeps_objects jsonb"
  shows "json_store (postgresFormats collate jsonb) cx_ID customFormatFromPostgres format_pg_dec
    (\<lambda>r. is_ok (unmarshal_specs (cx_Specifications r))) format_good (pgFormatKept jsonb) (format_spec wrap32 collate)
    ''customformats: not found'' ''customformats: get by id''"
proof unfold_locales
  show "is_ok (unmarshal_specs (cx_Specifications r)) \<Longrightarrow> customFormatFromPostgres r = Inr (format_pg_dec r)" for r
    by (auto simp: customFormatFromPostgres_def format_pg_dec_def wrapR_def elim!: is_okE)
  note kept = kept_text [OF keeps format_plain]
  have rt: "unmarshal_specs (kept_text jsonb spec_members (cf_Specifications x)) = Inr (cf_Specifications x)" if "format_good x" for x
    by (rule read_specs [OF kept(2) [OF that]])
  show "format_good x \<Longrightarrow> is_ok (unmarshal_specs (cx_Specifications (pgFormatKept jsonb x i)))" for x i
    by (simp add: pgFormatKept_def pgFormatRow_def rt)
  show "format_good x \<Longrightarrow> cs_made (format_spec wrap32 collate) now i x = format_pg_dec (pgFormatKept jsonb x i)" for now i x
    by (simp add: pgFormatKept_def pgFormatRow_def format_pg_dec_def format_spec_def rt)
  show "format_good x \<Longrightarrow> cs_changed (format_spec wrap32 collate) x (format_pg_dec r) = format_pg_dec (pgFormatKept jsonb x (cx_ID r))" for x r
    by (simp add: pgFormatKept_def pgFormatRow_def format_pg_dec_def format_spec_def rt)
  show "is_Create (postgresFormats collate jsonb) e x = decodeA customFormatFromPostgres (sql_insert (pgFormatKept jsonb x))"
    if "quiet e" "format_good x" for e x
    using that kept(1) [OF that(2)] by (simp add: format_store_defs marshal_specs_def with_json_def pgFormatKept_def)
  show "is_Update (postgresFormats collate jsonb) e x
      = sql_exec (\<lambda>r. cx_ID r = cs_ident (format_spec wrap32 collate) (cs_iid (format_spec wrap32 collate) x)) (\<lambda>r. pgFormatKept jsonb x (cx_ID r))"
    if "quiet e" "format_good x" for e x
    using that kept(1) [OF that(2)] by (simp add: format_store_defs marshal_specs_def with_json_def pgFormatKept_def format_spec_def)
qed (simp_all add: format_spec_def format_store_defs, simp_all add: format_pg_dec_def pgFormatKept_def pgFormatRow_def)

definition quality_sq_dec :: "SqQualityProfile \<Rightarrow> QualityProfile" where
  "quality_sq_dec r = \<lparr>qp_ID = qq_ID r, qp_Name = qq_Name r, qp_UpgradeAllowed = qq_UpgradeAllowed r \<noteq> 0, qp_Cutoff = qq_Cutoff r,
     qp_Items = or_else [] (unmarshal_items (qq_Items r)), qp_MinFormatScore = qq_MinFormatScore r,
     qp_CutoffFormatScore = qq_CutoffFormatScore r, qp_FormatItems = or_else [] (unmarshal_scores (qq_FormatItems r))\<rparr>"

definition quality_pg_dec :: "PgQualityProfile \<Rightarrow> QualityProfile" where
  "quality_pg_dec r = \<lparr>qp_ID = qx_ID r, qp_Name = qx_Name r, qp_UpgradeAllowed = qx_UpgradeAllowed r, qp_Cutoff = qx_Cutoff r,
     qp_Items = or_else [] (unmarshal_items (qx_Items r)), qp_MinFormatScore = qx_MinFormatScore r,
     qp_CutoffFormatScore = qx_CutoffFormatScore r, qp_FormatItems = or_else [] (unmarshal_scores (qx_FormatItems r))\<rparr>"

lemma quality_plain:
  "quality_good p \<Longrightarrow> list_all (\<lambda>x. plain_object (item_members x)) (qp_Items p)"
  "quality_good p \<Longrightarrow> list_all (\<lambda>x. plain_object (score_members x)) (qp_FormatItems p)"
  by (auto simp: quality_good_def list_all_iff plain_structs)

lemma quality_goodD: "quality_good p \<Longrightarrow> list_all item_good (qp_Items p)" "quality_good p \<Longrightarrow> list_all score_good (qp_FormatItems p)"
  by (simp_all add: quality_good_def)

lemmas quality_store_defs = sqliteQualityProfiles_def sqliteQuality_Create_def sqliteQuality_GetByID_def sqliteQuality_List_def
  sqliteQuality_Update_def sqliteQuality_Delete_def sqlite_CreateQualityProfile_def sqlite_GetQualityProfileByID_def
  sqlite_ListQualityProfiles_def sqlite_UpdateQualityProfile_def sqlite_DeleteQualityProfile_def
  postgresQualityProfiles_def postgresQuality_Create_def postgresQuality_GetByID_def postgresQuality_List_def
  postgresQuality_Update_def postgresQuality_Delete_def postgres_CreateQualityProfile_def postgres_GetQualityProfileByID_def
  postgres_ListQualityProfiles_def postgres_UpdateQualityProfile_def postgres_DeleteQualityProfile_def

interpretation sqquality: json_store sqliteQualityProfiles qq_ID qualityProfileFromSQLite quality_sq_dec
  "\<lambda>r. is_ok (unmarshal_items (qq_Items r)) \<and> is_ok (unmarshal_scores (qq_FormatItems r))" quality_good sqQualityRow
  "quality_spec (\<lambda>i. i) (\<lambda>n. n)" "''profiles: not found''" "''profiles: get quality profile by id''"
proof unfold_locales
  show "is_ok (unmarshal_items (qq_Items r)) \<and> is_ok (unmarshal_scores (qq_FormatItems r)) \<Longrightarrow>
      qualityProfileFromSQLite r = Inr (quality_sq_dec r)" for r
    by (auto simp: qualityProfileFromSQLite_def quality_sq_dec_def elim!: is_okE)
  have rt: "unmarshal_items (marshal_structs item_members (qp_Items x)) = Inr (qp_Items x)"
    "unmarshal_scores (marshal_structs score_members (qp_FormatItems x)) = Inr (qp_FormatItems x)" if "quality_good x" for x
    by (rule read_items [OF holds_marshal [OF quality_plain(1) [OF that]] quality_goodD(1) [OF that]],
        rule read_scores [OF holds_marshal [OF quality_plain(2) [OF that]] quality_goodD(2) [OF that]])
  show "quality_good x \<Longrightarrow> is_ok (unmarshal_items (qq_Items (sqQualityRow x i))) \<and> is_ok (unmarshal_scores (qq_FormatItems (sqQualityRow x i)))" for x i
    by (simp add: sqQualityRow_def rt)
  show "quality_good x \<Longrightarrow> cs_made (quality_spec (\<lambda>i. i) (\<lambda>n. n)) now i x = quality_sq_dec (sqQualityRow x i)" for now i x
    by (simp add: sqQualityRow_def quality_sq_dec_def quality_spec_def quality_narrow_def rt)
  show "quality_good x \<Longrightarrow> cs_changed (quality_spec (\<lambda>i. i) (\<lambda>n. n)) x (quality_sq_dec r) = quality_sq_dec (sqQualityRow x (qq_ID r))" for x r
    by (simp add: sqQualityRow_def quality_sq_dec_def quality_spec_def quality_narrow_def rt)
qed (simp_all add: quality_spec_def quality_store_defs, simp_all add: quality_sq_dec_def sqQualityRow_def)

definition pgQualityKept :: "jsonb_input \<Rightarrow> QualityProfile \<Rightarrow> int \<Rightarrow> PgQualityProfile" where
  "pgQualityKept jsonb p = pgQualityRow p (kept_text jsonb item_members (qp_Items p)) (kept_text jsonb score_members (qp_FormatItems p))"

lemma quality_json_kept:
  assumes "keeps_objects jsonb" "quality_good p"
  shows "quality_json jsonb p m = m (kept_text jsonb item_members (qp_Items p)) (kept_text jsonb score_members (qp_FormatItems p))"
  using kept_text(1) [OF assms(1) quality_plain(1) [OF assms(2)]] kept_text(1) [OF assms(1) quality_plain(2) [OF assms(2)]]
  by (simp add: quality_json_def with_json_def)

lemma pgquality_store:
  assumes keeps: "keeps_objects jsonb"
  shows "json_store (postgresQualityProfiles collate jsonb) qx_ID qualityProfileFromPostgres quality_pg_dec
    (\<lambda>r. is_ok (unmarshal_items (qx_Items r)) \<and> is_ok (unmarshal_scores (qx_FormatItems r))) quality_good (pgQualityKept jsonb)
    (quality_spec wrap32 collate) ''profiles: not found'' ''profiles: get quality profile by id''"
proof unfold_locales
  show "is_ok (unmarshal_items (qx_Items r)) \<and> is_ok (unmarshal_scores (qx_FormatItems r)) \<Longrightarrow>
      qualityProfileFromPostgres r = Inr (quality_pg_dec r)" for r
    by (auto simp: qualityProfileFromPostgres_def quality_pg_dec_def elim!: is_okE)
  have rt: "unmarshal_items (kept_text jsonb item_members (qp_Items x)) = Inr (qp_Items x)"
    "unmarshal_scores (kept_text jsonb score_members (qp_FormatItems x)) = Inr (qp_FormatItems x)" if "quality_good x" for x
    by (rule read_items [OF kept_text(2) [OF keeps quality_plain(1) [OF that]] quality_goodD(1) [OF that]],
        rule read_scores [OF kept_text(2) [OF keeps quality_plain(2) [OF that]] quality_goodD(2) [OF that]])
  note row = pgQualityKept_def pgQualityRow_def
  show "quality_good x \<Longrightarrow> is_ok (unmarshal_items (qx_Items (pgQualityKept jsonb x i)))
      \<and> is_ok (unmarshal_scores (qx_FormatItems (pgQualityKept jsonb x i)))" for x i
    by (simp add: row rt)
  show "quality_good x \<Longrightarrow> cs_made (quality_spec wrap32 collate) now i x = quality_pg_dec (pgQualityKept jsonb x i)" for now i x
    by (simp add: row quality_pg_dec_def quality_spec_def quality_narrow_def rt)
  show "quality_good x \<Longrightarrow> cs_changed (quality_spec wrap32 collate) x (quality_pg_dec r) = quality_pg_dec (pgQualityKept jsonb x (qx_ID r))" for x r
    by (simp add: row quality_pg_dec_def quality_spec_def quality_narrow_def rt)
  show "is_Create (postgresQualityProfiles collate jsonb) e x = decodeA qualityProfileFromPostgres (sql_insert (pgQualityKept jsonb x))"
    if "quiet e" "quality_good x" for e x
    using that by (simp add: quality_store_defs quality_json_kept [OF keeps] pgQualityKept_def)
  show "is_Update (postgresQualityProfiles collate jsonb) e x
      = sql_exec (\<lambda>r. qx_ID r = cs_ident (quality_spec wrap32 collate) (cs_iid (quality_spec wrap32 collate) x)) (\<lambda>r. pgQualityKept jsonb x (qx_ID r))"
    if "quiet e" "quality_good x" for e x
    using that by (simp add: quality_store_defs quality_json_kept [OF keeps] pgQualityKept_def quality_spec_def)
qed (simp_all add: quality_spec_def quality_store_defs, simp_all add: quality_pg_dec_def pgQualityKept_def pgQualityRow_def)

text \<open>C35: From empty tables, any sequence of calls of the custom format and quality profile stores returns, call by call, what
  the specification returns, on SQLite and on Postgres, for every database that gives back the objects of a JSON array, in whatever order it
  keeps their members: specifications, quality items and format scores survive the trip through their columns in order, lists are
  sorted by name, and Postgres takes ids, cutoffs and the two score limits modulo two to the 32.\<close>

theorem format_stores_refine:
  assumes "good_calls format_good fops" "good_calls quality_good qops" "keeps_objects jsonb"
  shows "fst (store_run sqliteFormats fops empty_table) = fst (spec_run (format_spec (\<lambda>i. i) (\<lambda>n. n)) (timed fops) empty_shelf)
    \<and> fst (store_run (postgresFormats collate jsonb) fops empty_table) = fst (spec_run (format_spec wrap32 collate) (timed fops) empty_shelf)
    \<and> fst (store_run sqliteQualityProfiles qops empty_table) = fst (spec_run (quality_spec (\<lambda>i. i) (\<lambda>n. n)) (timed qops) empty_shelf)
    \<and> fst (store_run (postgresQualityProfiles collate jsonb) qops empty_table)
      = fst (spec_run (quality_spec wrap32 collate) (timed qops) empty_shelf)"
  using sqformats.run_as_spec [OF assms(1)] json_store.run_as_spec [OF pgformats_store [OF assms(3)] assms(1)]
    sqquality.run_as_spec [OF assms(2)] json_store.run_as_spec [OF pgquality_store [OF assms(3)] assms(2)]
  by blast

definition example_stored_format :: CustomFormat where
  "example_stored_format = \<lparr>cf_ID = 0, cf_Name = ''x265'', cf_IncludeWhenRenaming = True, cf_Specifications =
     [\<lparr>sp_Name = ''x265'', sp_Implementation = ''ReleaseTitleSpecification'', sp_Negate = False, sp_Required = True, sp_Value = ''x265''\<rparr>]\<rparr>"

definition example_quality :: QualityProfile where
  "example_quality = \<lparr>qp_ID = 0, qp_Name = ''HD'', qp_UpgradeAllowed = True, qp_Cutoff = 4294967301,
     qp_Items = [\<lparr>qi_QualityID = 5, qi_Allowed = True\<rparr>, \<lparr>qi_QualityID = 6, qi_Allowed = False\<rparr>],
     qp_MinFormatScore = 0, qp_CutoffFormatScore = 100, qp_FormatItems = [\<lparr>fs_FormatID = 1, fs_Score = -50\<rparr>]\<rparr>"

theorem format_stores_refine_witness:
  "fst (store_run sqliteFormats [(quiet_at 0, OpCreate example_stored_format), (quiet_at 0, OpGet 1)] empty_table)
    = [Item (example_stored_format\<lparr>cf_ID := 1\<rparr>), Item (example_stored_format\<lparr>cf_ID := 1\<rparr>)]
  \<and> fst (store_run (postgresQualityProfiles (\<lambda>n. n) Some) [(quiet_at 0, OpCreate example_quality), (quiet_at 0, OpList)] empty_table)
    = [Item (example_quality\<lparr>qp_ID := 1, qp_Cutoff := 5\<rparr>), Items [example_quality\<lparr>qp_ID := 1, qp_Cutoff := 5\<rparr>]]"
proof -
  let ?f = "[(quiet_at 0, OpCreate example_stored_format), (quiet_at 0, OpGet 1)]"
  let ?q = "[(quiet_at 0, OpCreate example_quality), (quiet_at 0, OpList)]"
  have v: "valid_utf8 ''x265''" "valid_utf8 ''ReleaseTitleSpecification''"
    by (rule valid_utf8_ascii, simp add: char_code_def)+
  then have good: "format_good example_stored_format" "quality_good example_quality"
    by (simp_all add: example_stored_format_def example_quality_def format_good_def quality_good_def spec_good_def item_good_def
        score_good_def int64_range_def del: valid_utf8.simps)
  then have "good_calls format_good ?f" "good_calls quality_good ?q" by (simp_all add: good_calls_def)
  from format_stores_refine [OF this Some_keeps_objects, of "\<lambda>n. n"] good show ?thesis
    by (simp add: timed_def empty_shelf_def format_spec_def quality_spec_def quality_narrow_def wrap32_def)
      (simp add: example_quality_def)
qed

end
