(* ===== verification/ApiV6.thy ===== *)
theory ApiV6
  imports Complex_Main LibrarySqlite History Go_Os Http
begin

section \<open>The catalogue over HTTP: version 6 of the API\<close>

text \<open>
  internal/api/v6: pagination.go and the handlers of series.go, episode.go and history.go, over the stores of the library and of the
  history. A handler takes the value of the path parameter \<open>id\<close> (the router is a third-party package), the request and the state of the
  stores, and gives the value that is written as JSON with its status, the problem details of errors.go, or a bare status. The values are the resources
  of the package, before encoding: their percentage is a floating-point number, \<open>fl\<close> the rounding of an operation, and their times are
  represented by the second they show, with \<open>None\<close> for the empty text of the zero time.

  A page is cut from a listing by the id after which it starts. The theorems show what this does: a client that follows the cursors gets every
  entry of a listing that is in the order of ids, and does not get every entry of the listings of the stores, which are in other orders.
\<close>

subsection \<open>Cursors\<close>

text \<open>\<open>base64.URLEncoding\<close>, with padding; line breaks are ignored when decoding.\<close>

definition b64_alphabet :: string where
  "b64_alphabet = ''ABCDEFGHIJKLMNOPQRSTUVWXYZabcdefghijklmnopqrstuvwxyz0123456789-_''"

definition b64_char :: "nat \<Rightarrow> char" where
  "b64_char n = b64_alphabet ! n"

definition b64_val :: "char \<Rightarrow> nat option" where
  "b64_val c = (if c \<in> set b64_alphabet then Some (length (takeWhile (\<lambda>x. x \<noteq> c) b64_alphabet)) else None)"

fun b64_encode :: "string \<Rightarrow> string" where
  "b64_encode [] = []"
| "b64_encode [a] = [b64_char (char_code a div 4), b64_char (char_code a mod 4 * 16), CHR ''='', CHR ''='']"
| "b64_encode [a, b] = [b64_char (char_code a div 4), b64_char (char_code a mod 4 * 16 + char_code b div 16),
     b64_char (char_code b mod 16 * 4), CHR ''='']"
| "b64_encode (a # b # c # s) = b64_char (char_code a div 4) # b64_char (char_code a mod 4 * 16 + char_code b div 16)
     # b64_char (char_code b mod 16 * 4 + char_code c div 64) # b64_char (char_code c mod 64) # b64_encode s"

fun b64_quanta :: "string \<Rightarrow> string option" where
  "b64_quanta [] = Some []"
| "b64_quanta (a # b # c # d # s) = (case (b64_val a, b64_val b) of
     (Some x, Some y) \<Rightarrow>
       (if c = CHR ''='' then (if d = CHR ''='' \<and> s = [] then Some [char_of (x * 4 + y div 16)] else None)
        else (case b64_val c of None \<Rightarrow> None | Some z \<Rightarrow>
          if d = CHR ''='' then (if s = [] then Some [char_of (x * 4 + y div 16), char_of (y mod 16 * 16 + z div 4)] else None)
          else (case (b64_val d, b64_quanta s) of
                  (Some w, Some t) \<Rightarrow> Some (char_of (x * 4 + y div 16) # char_of (y mod 16 * 16 + z div 4) # char_of (z mod 4 * 64 + w) # t)
                | _ \<Rightarrow> None)))
   | _ \<Rightarrow> None)"
| "b64_quanta _ = None"

definition b64_decode :: "string \<Rightarrow> string option" where
  "b64_decode s = b64_quanta (filter (\<lambda>c. c \<noteq> CHR 10 \<and> c \<noteq> CHR 13) s)"

definition cursor_fields :: "int fields" where
  "cursor_fields = [(''lastId'', dec_int64)]"

definition EncodeCursor :: "int \<Rightarrow> string" where
  "EncodeCursor lastID = b64_encode (print_json (JObj [(''lastId'', json_int lastID)]))"

datatype cursor_error = BadEncoding | BadPayload

definition DecodeCursor :: "string \<Rightarrow> (cursor_error, int) result" where
  "DecodeCursor cursor =
     (if cursor = '''' then Inr 0
      else case b64_decode cursor of
        None \<Rightarrow> Inl BadEncoding
      | Some raw \<Rightarrow> (case Unmarshal (dec_struct cursor_fields) raw 0 of Inl _ \<Rightarrow> Inl BadPayload | Inr i \<Rightarrow> Inr i))"

text \<open>\<open>ParsePaginationParams\<close>: \<open>None\<close> for a limit that is not a positive number.\<close>

definition page_limit :: "string \<Rightarrow> int option" where
  "page_limit lStr = (if lStr = '''' then Some 50
     else case Atoi lStr of Inl _ \<Rightarrow> None | Inr l \<Rightarrow> if l \<le> 0 then None else Some (if l > 500 then 500 else l))"

datatype page_error = BadLimit | BadCursor cursor_error

definition ParsePaginationParams :: "Request \<Rightarrow> (page_error, int \<times> int) result" where
  "ParsePaginationParams r = (case page_limit (rq_Query r ''limit'') of
     None \<Rightarrow> Inl BadLimit
   | Some limit \<Rightarrow>
       if rq_Query r ''cursor'' = '''' then Inr (limit, 0)
       else (case DecodeCursor (rq_Query r ''cursor'') of Inl x \<Rightarrow> Inl (BadCursor x) | Inr lastID \<Rightarrow> Inr (limit, lastID)))"

subsection \<open>Answers\<close>

record 'a Page =
  pg_Data :: "'a list"
  pg_Limit :: int
  pg_NextCursor :: string
  pg_HasMore :: bool

datatype 'a v6_answer = Json int 'a | Problem Response | Status int

fun answer_status :: "'a v6_answer \<Rightarrow> int" where
  "answer_status (Json c _) = c"
| "answer_status (Problem p) = rs_Status p"
| "answer_status (Status c) = c"

text \<open>The detail of a refused pagination is the text of its error. For a cursor it goes on with the text of the error of
  encoding/base64 or encoding/json, which is not modelled: the model has the part before it.\<close>

definition page_error_text :: "page_error \<Rightarrow> string" where
  "page_error_text x = (case x of BadLimit \<Rightarrow> ''invalid limit: must be a positive integer''
     | BadCursor BadEncoding \<Rightarrow> ''invalid cursor encoding'' | BadCursor BadPayload \<Rightarrow> ''invalid cursor payload'')"

definition WriteBadRequest :: "Request \<Rightarrow> string \<Rightarrow> 'a v6_answer" where
  "WriteBadRequest r detail = Problem (WriteProblem r 400 detail)"

definition WriteNotFound :: "Request \<Rightarrow> string \<Rightarrow> 'a v6_answer" where
  "WriteNotFound r detail = Problem (WriteProblem r 404 detail)"

definition internal_error :: "Request \<Rightarrow> 'a v6_answer" where
  "internal_error r = Problem (WriteProblem r 500 ''Internal Server Error'')"

text \<open>The cut of a listing that the three list handlers make.\<close>

definition cut_page :: "('a \<Rightarrow> int) \<Rightarrow> int \<Rightarrow> int \<Rightarrow> 'a list \<Rightarrow> 'a Page" where
  "cut_page idof limit lastID xs =
     (let filtered = filter (\<lambda>x. idof x > lastID) xs;
          hasMore = int (length filtered) > limit;
          shown = (if hasMore then take (nat limit) filtered else filtered)
      in \<lparr>pg_Data = shown, pg_Limit = limit,
          pg_NextCursor = (if hasMore \<and> shown \<noteq> [] then EncodeCursor (idof (last shown)) else ''''),
          pg_HasMore = hasMore\<rparr>)"

definition map_page :: "'b list \<Rightarrow> 'a Page \<Rightarrow> 'b Page" where
  "map_page ys p = \<lparr>pg_Data = ys, pg_Limit = pg_Limit p, pg_NextCursor = pg_NextCursor p, pg_HasMore = pg_HasMore p\<rparr>"

subsection \<open>The stores the handlers call\<close>

record 's SeriesStore =
  srs_Create :: "dbenv \<Rightarrow> Series \<Rightarrow> ('s, Series) act"
  srs_Get :: "dbenv \<Rightarrow> int \<Rightarrow> ('s, Series) act"
  srs_List :: "dbenv \<Rightarrow> ('s, Series list) act"
  srs_Update :: "dbenv \<Rightarrow> Series \<Rightarrow> ('s, unit) act"
  srs_Delete :: "dbenv \<Rightarrow> int \<Rightarrow> ('s, unit) act"

record 's SeasonsStore =
  sns_Upsert :: "dbenv \<Rightarrow> Season \<Rightarrow> ('s, unit) act"
  sns_ListForSeries :: "dbenv \<Rightarrow> int \<Rightarrow> ('s, Season list) act"

record 's seriesHandler =
  h_series :: "'s SeriesStore"
  h_seasons :: "'s SeasonsStore"
  h_stats_Get :: "dbenv \<Rightarrow> int \<Rightarrow> ('s, SeriesStatistics) act"

record 's episodeHandler =
  eh_Get :: "dbenv \<Rightarrow> int \<Rightarrow> ('s, Episode) act"
  eh_ListForSeries :: "dbenv \<Rightarrow> int \<Rightarrow> ('s, Episode list) act"
  eh_Update :: "dbenv \<Rightarrow> Episode \<Rightarrow> ('s, unit) act"

definition sqlite_seriesHandler :: "library_db seriesHandler" where
  "sqlite_seriesHandler = \<lparr>
     h_series = \<lparr>srs_Create = (\<lambda>e. sqliteSeries_Create (app_publish e) e), srs_Get = sqliteSeries_Get, srs_List = sqliteSeries_List,
       srs_Update = (\<lambda>e. sqliteSeries_Update (app_publish e) e), srs_Delete = (\<lambda>e. sqliteSeries_Delete (app_publish e) e)\<rparr>,
     h_seasons = \<lparr>sns_Upsert = (\<lambda>e. sqliteSeasons_Upsert (app_publish e) e), sns_ListForSeries = sqliteSeasons_ListForSeries\<rparr>,
     h_stats_Get = sqliteStats_Get\<rparr>"

definition sqlite_episodeHandler :: "library_db episodeHandler" where
  "sqlite_episodeHandler = \<lparr>eh_Get = sqliteEpisodes_Get, eh_ListForSeries = sqliteEpisodes_ListForSeries,
     eh_Update = (\<lambda>e. sqliteEpisodes_Update (app_publish e) e)\<rparr>"

subsection \<open>Series\<close>

record statisticsResource =
  sx_SeasonCount :: int
  sx_EpisodeFileCount :: int
  sx_EpisodeCount :: int
  sx_TotalEpisodeCount :: int
  sx_SizeOnDisk :: int
  sx_PercentOfEpisodes :: rat

record seasonResource =
  nx_SeasonNumber :: int
  nx_Monitored :: bool
  nx_Statistics :: "statisticsResource option"

record seriesResource =
  sx_ID :: int
  sx_Title :: string
  sx_SortTitle :: string
  sx_Status :: string
  sx_Overview :: string
  sx_Network :: string
  sx_AirTime :: string
  sx_Images :: "json list"
  sx_Seasons :: "seasonResource list"
  sx_Year :: int
  sx_Path :: string
  sx_QualityProfileID :: int
  sx_SeasonFolder :: bool
  sx_Monitored :: bool
  sx_Runtime :: int
  sx_TvdbID :: int
  sx_TvMazeID :: int
  sx_ImdbID :: string
  sx_TmdbID :: int
  sx_FirstAired :: string
  sx_LastAired :: string
  sx_SeriesType :: string
  sx_CleanTitle :: string
  sx_TitleSlug :: string
  sx_RootFolderPath :: string
  sx_Genres :: "string list"
  sx_Tags :: "int list"
  sx_Added :: "int option"
  sx_Ratings :: json
  sx_Statistics :: "statisticsResource option"
  sx_AlternateTitles :: "json list"
  sx_OriginalLanguage :: json
  sx_MonitorNewItems :: string
  sx_Ended :: bool

text \<open>The loop over the three articles removes at most one.\<close>

definition sortTitle :: "string \<Rightarrow> string" where
  "sortTitle title = (let t = ToLower title in TrimSpace
     (if HasPrefix t ''the '' then TrimPrefix t ''the ''
      else if HasPrefix t ''a '' then TrimPrefix t ''a ''
      else if HasPrefix t ''an '' then TrimPrefix t ''an '' else t))"

definition v6_cleanTitle :: "string \<Rightarrow> string" where
  "v6_cleanTitle title = filter (\<lambda>c. is_lower c \<or> is_digit c) (ToLower title)"

text \<open>The zero time of Go is the first second of the year 1.\<close>

definition zero_time :: int where "zero_time = - 62135596800 * second_ns"

definition formatTime :: "int \<Rightarrow> int option" where
  "formatTime t = (if t = zero_time then None else Some (sqlite_format t))"

definition statistics_of :: "(rat \<Rightarrow> rat) \<Rightarrow> Season list \<Rightarrow> SeriesStatistics \<Rightarrow> statisticsResource" where
  "statistics_of fl seasons stats = \<lparr>sx_SeasonCount = int (length seasons), sx_EpisodeFileCount = ss_EpisodeFileCount stats,
     sx_EpisodeCount = ss_EpisodeCount stats, sx_TotalEpisodeCount = ss_EpisodeCount stats, sx_SizeOnDisk = ss_SizeOnDisk stats,
     sx_PercentOfEpisodes = (if ss_EpisodeCount stats > 0
       then fl (fl (of_int (ss_EpisodeFileCount stats) / of_int (ss_EpisodeCount stats)) * 100) else 0)\<rparr>"

definition toResource :: "(rat \<Rightarrow> rat) \<Rightarrow> Series \<Rightarrow> Season list \<Rightarrow> SeriesStatistics option \<Rightarrow> seriesResource" where
  "toResource fl s seasons stats = \<lparr>
     sx_ID = se_ID s, sx_Title = se_Title s, sx_SortTitle = sortTitle (se_Title s), sx_Status = se_Status s,
     sx_Overview = '''', sx_Network = '''', sx_AirTime = '''', sx_Images = [],
     sx_Seasons = map (\<lambda>n. \<lparr>nx_SeasonNumber = sea_SeasonNumber n, nx_Monitored = sea_Monitored n, nx_Statistics = None\<rparr>) seasons,
     sx_Year = 0, sx_Path = se_Path s, sx_QualityProfileID = 1, sx_SeasonFolder = True, sx_Monitored = se_Monitored s, sx_Runtime = 0,
     sx_TvdbID = se_TvdbID s, sx_TvMazeID = 0, sx_ImdbID = '''', sx_TmdbID = 0, sx_FirstAired = '''', sx_LastAired = '''',
     sx_SeriesType = se_SeriesType s, sx_CleanTitle = v6_cleanTitle (se_Title s), sx_TitleSlug = se_Slug s,
     sx_RootFolderPath = (if se_Path s = '''' then '''' else filepath_Dir (se_Path s)),
     sx_Genres = [], sx_Tags = [], sx_Added = formatTime (se_Added s), sx_Ratings = JObj [],
     sx_Statistics = map_option (statistics_of fl seasons) stats, sx_AlternateTitles = [], sx_OriginalLanguage = JObj [],
     sx_MonitorNewItems = ''all'', sx_Ended = (se_Status s = ''ended'')\<rparr>"

text \<open>Errors of the seasons and of the statistics are dropped: the resource shows none then.\<close>

definition seasons_or_none :: "'s seriesHandler \<Rightarrow> dbenv \<Rightarrow> int \<Rightarrow> 's \<Rightarrow> Season list \<times> 's" where
  "seasons_or_none h e i s = (case sns_ListForSeries (h_seasons h) e i s of (Inl _, s') \<Rightarrow> ([], s') | (Inr xs, s') \<Rightarrow> (xs, s'))"

definition stats_or_none :: "'s seriesHandler \<Rightarrow> dbenv \<Rightarrow> int \<Rightarrow> 's \<Rightarrow> SeriesStatistics option \<times> 's" where
  "stats_or_none h e i s = (case h_stats_Get h e i s of
     (Inl _, s') \<Rightarrow> (None, s') | (Inr st, s') \<Rightarrow> (if ss_SeriesID st \<noteq> 0 then Some st else None, s'))"

definition full_resource :: "(rat \<Rightarrow> rat) \<Rightarrow> 's seriesHandler \<Rightarrow> dbenv \<Rightarrow> Series \<Rightarrow> 's \<Rightarrow> seriesResource \<times> 's" where
  "full_resource fl h e x s = (let (seasons, s1) = seasons_or_none h e (se_ID x) s; (stats, s2) = stats_or_none h e (se_ID x) s1
     in (toResource fl x seasons stats, s2))"

fun full_resources :: "(rat \<Rightarrow> rat) \<Rightarrow> 's seriesHandler \<Rightarrow> dbenv \<Rightarrow> Series list \<Rightarrow> 's \<Rightarrow> seriesResource list \<times> 's" where
  "full_resources fl h e [] s = ([], s)"
| "full_resources fl h e (x # xs) s = (let (r, s1) = full_resource fl h e x s; (rs, s2) = full_resources fl h e xs s1 in (r # rs, s2))"

definition series_list :: "(rat \<Rightarrow> rat) \<Rightarrow> 's seriesHandler \<Rightarrow> dbenv \<Rightarrow> Request \<Rightarrow> 's \<Rightarrow> seriesResource Page v6_answer \<times> 's" where
  "series_list fl h e r s = (case ParsePaginationParams r of
     Inl x \<Rightarrow> (WriteBadRequest r (page_error_text x), s)
   | Inr (limit, lastID) \<Rightarrow> (case srs_List (h_series h) e s of
       (Inl _, s1) \<Rightarrow> (internal_error r, s1)
     | (Inr xs, s1) \<Rightarrow>
         (let p = cut_page se_ID limit lastID xs; (resources, s2) = full_resources fl h e (pg_Data p) s1
          in (Json 200 (map_page resources p), s2))))"

definition parseIDFromRequest :: "string \<Rightarrow> int option" where
  "parseIDFromRequest v = (case Atoi v of Inl _ \<Rightarrow> None | Inr i \<Rightarrow> Some i)"

definition no_series :: "int \<Rightarrow> string" where
  "no_series i = ''No series with id '' @ show_int i"

definition series_get :: "(rat \<Rightarrow> rat) \<Rightarrow> 's seriesHandler \<Rightarrow> string \<Rightarrow> dbenv \<Rightarrow> Request \<Rightarrow> 's \<Rightarrow> seriesResource v6_answer \<times> 's" where
  "series_get fl h idp e r s = (case parseIDFromRequest idp of
     None \<Rightarrow> (WriteBadRequest r ''Invalid id'', s)
   | Some i \<Rightarrow> (case srs_Get (h_series h) e i s of
       (Inl err, s1) \<Rightarrow> (if error_is err (ErrNotFound ''library: not found'') then WriteNotFound r (no_series i) else internal_error r, s1)
     | (Inr x, s1) \<Rightarrow> (let (res, s2) = full_resource fl h e x s1 in (Json 200 res, s2))))"

record seasonInput =
  ni_SeasonNumber :: int
  ni_Monitored :: bool

record seriesInput =
  si_Title :: string
  si_TvdbID :: int
  si_Slug :: string
  si_Status :: string
  si_SeriesType :: string
  si_Path :: string
  si_Monitored :: bool
  si_Seasons :: "seasonInput list option"

definition seasonInput_fields :: "seasonInput fields" where
  "seasonInput_fields = [(''seasonNumber'', fld ni_SeasonNumber ni_SeasonNumber_update dec_int64),
     (''monitored'', fld ni_Monitored ni_Monitored_update dec_bool)]"

definition seriesInput_fields :: "seriesInput fields" where
  "seriesInput_fields = [(''title'', fld si_Title si_Title_update dec_string), (''tvdbId'', fld si_TvdbID si_TvdbID_update dec_int64),
     (''titleSlug'', fld si_Slug si_Slug_update dec_string), (''status'', fld si_Status si_Status_update dec_string),
     (''seriesType'', fld si_SeriesType si_SeriesType_update dec_string), (''path'', fld si_Path si_Path_update dec_string),
     (''monitored'', fld si_Monitored si_Monitored_update dec_bool),
     (''seasons'', fld si_Seasons si_Seasons_update (dec_slice (dec_struct seasonInput_fields) \<lparr>ni_SeasonNumber = 0, ni_Monitored = False\<rparr>))]"

definition read_series :: "Request \<Rightarrow> (store_error, seriesInput) result" where
  "read_series r = Decode (dec_struct seriesInput_fields) (rq_Body r) \<lparr>si_Title = '''', si_TvdbID = 0, si_Slug = '''', si_Status = '''',
     si_SeriesType = '''', si_Path = '''', si_Monitored = False, si_Seasons = None\<rparr>"

text \<open>The seasons of the body are stored one by one; errors are dropped.\<close>

fun input_upserts :: "'s seriesHandler \<Rightarrow> dbenv \<Rightarrow> int \<Rightarrow> seasonInput list \<Rightarrow> 's \<Rightarrow> 's" where
  "input_upserts h e i [] s = s"
| "input_upserts h e i (n # ns) s = input_upserts h e i ns (snd (sns_Upsert (h_seasons h) e
     \<lparr>sea_SeriesID = i, sea_SeasonNumber = wrap32 (ni_SeasonNumber n), sea_Monitored = ni_Monitored n\<rparr> s))"

definition input_seasons :: "seriesInput \<Rightarrow> seasonInput list" where
  "input_seasons x = (case si_Seasons x of None \<Rightarrow> [] | Some ns \<Rightarrow> ns)"

definition new_series :: "seriesInput \<Rightarrow> Series" where
  "new_series x = \<lparr>se_ID = 0, se_TvdbID = si_TvdbID x, se_Title = si_Title x,
     se_Slug = (if si_Slug x = '''' then ToLower (ReplaceAll (si_Title x) '' '' ''-'') else si_Slug x),
     se_Status = (if si_Status x = '''' then ''continuing'' else si_Status x),
     se_SeriesType = (if si_SeriesType x = '''' then ''standard'' else si_SeriesType x),
     se_Path = si_Path x, se_Monitored = si_Monitored x, se_QualityProfileID = 0, se_SeasonFolder = False, se_MonitorNewItems = '''',
     se_Added = zero_time, se_CreatedAt = zero_time, se_UpdatedAt = zero_time\<rparr>"

definition series_create :: "(rat \<Rightarrow> rat) \<Rightarrow> 's seriesHandler \<Rightarrow> dbenv \<Rightarrow> Request \<Rightarrow> 's \<Rightarrow> seriesResource v6_answer \<times> 's" where
  "series_create fl h e r s = (case read_series r of
     Inl _ \<Rightarrow> (WriteBadRequest r ''Invalid request body'', s)
   | Inr x \<Rightarrow> (case srs_Create (h_series h) e (new_series x) s of
       (Inl _, s1) \<Rightarrow> (internal_error r, s1)
     | (Inr y, s1) \<Rightarrow>
         (let s2 = input_upserts h e (se_ID y) (input_seasons x) s1; (seasons, s3) = seasons_or_none h e (se_ID y) s2
          in (Json 201 (toResource fl y seasons None), s3))))"

definition merge_series :: "seriesInput \<Rightarrow> Series \<Rightarrow> Series" where
  "merge_series x s = s\<lparr>
     se_Title := (if si_Title x = '''' then se_Title s else si_Title x),
     se_Status := (if si_Status x = '''' then se_Status s else si_Status x),
     se_SeriesType := (if si_SeriesType x = '''' then se_SeriesType s else si_SeriesType x),
     se_Path := (if si_Path x = '''' then se_Path s else si_Path x),
     se_Slug := (if si_Slug x = '''' then se_Slug s else si_Slug x),
     se_Monitored := si_Monitored x\<rparr>"

definition series_update :: "(rat \<Rightarrow> rat) \<Rightarrow> 's seriesHandler \<Rightarrow> string \<Rightarrow> dbenv \<Rightarrow> Request \<Rightarrow> 's \<Rightarrow> seriesResource v6_answer \<times> 's" where
  "series_update fl h idp e r s = (case parseIDFromRequest idp of
     None \<Rightarrow> (WriteBadRequest r ''Invalid id'', s)
   | Some i \<Rightarrow> (case srs_Get (h_series h) e i s of
       (Inl err, s1) \<Rightarrow> (if error_is err (ErrNotFound ''library: not found'') then WriteNotFound r (no_series i) else internal_error r, s1)
     | (Inr old, s1) \<Rightarrow> (case read_series r of
         Inl _ \<Rightarrow> (WriteBadRequest r ''Invalid request body'', s1)
       | Inr x \<Rightarrow> (let y = merge_series x old in
           case srs_Update (h_series h) e y s1 of
             (Inl _, s2) \<Rightarrow> (internal_error r, s2)
           | (Inr _, s2) \<Rightarrow> (let (res, s4) = full_resource fl h e y (input_upserts h e (se_ID y) (input_seasons x) s2) in (Json 200 res, s4))))))"

definition series_delete :: "'s seriesHandler \<Rightarrow> string \<Rightarrow> dbenv \<Rightarrow> Request \<Rightarrow> 's \<Rightarrow> unit v6_answer \<times> 's" where
  "series_delete h idp e r s = (case parseIDFromRequest idp of
     None \<Rightarrow> (WriteBadRequest r ''Invalid id'', s)
   | Some i \<Rightarrow> (case srs_Delete (h_series h) e i s of
       (Inl err, s1) \<Rightarrow> (if error_is err (ErrNotFound ''library: not found'') then WriteNotFound r (no_series i) else internal_error r, s1)
     | (Inr _, s1) \<Rightarrow> (Status 200, s1)))"

subsection \<open>Episodes\<close>

record episodeResource =
  ex_ID :: int
  ex_SeriesID :: int
  ex_TvdbID :: int
  ex_EpisodeFileID :: int
  ex_SeasonNumber :: int
  ex_EpisodeNumber :: int
  ex_AbsoluteEpisodeNumber :: "int option"
  ex_Title :: string
  ex_AirDate :: "int option"
  ex_AirDateUtc :: "int option"
  ex_Overview :: string
  ex_HasFile :: bool
  ex_Monitored :: bool
  ex_Runtime :: int
  ex_UnverifiedSceneNumbering :: bool

text \<open>The air date is shown as a day, represented by its number, and as a second.\<close>

definition toEpisodeResource :: "Episode \<Rightarrow> episodeResource" where
  "toEpisodeResource x = \<lparr>ex_ID = ep_ID x, ex_SeriesID = ep_SeriesID x, ex_TvdbID = 0,
     ex_EpisodeFileID = (case ep_EpisodeFileID x of None \<Rightarrow> 0 | Some i \<Rightarrow> i),
     ex_SeasonNumber = ep_SeasonNumber x, ex_EpisodeNumber = ep_EpisodeNumber x, ex_AbsoluteEpisodeNumber = ep_AbsoluteEpisodeNumber x,
     ex_Title = ep_Title x, ex_AirDate = map_option (\<lambda>t. sqlite_format t div 86400) (ep_AirDateUtc x),
     ex_AirDateUtc = map_option sqlite_format (ep_AirDateUtc x), ex_Overview = ep_Overview x, ex_HasFile = (ep_EpisodeFileID x \<noteq> None),
     ex_Monitored = ep_Monitored x, ex_Runtime = 0, ex_UnverifiedSceneNumbering = False\<rparr>"

definition episode_list :: "'s episodeHandler \<Rightarrow> dbenv \<Rightarrow> Request \<Rightarrow> 's \<Rightarrow> episodeResource Page v6_answer \<times> 's" where
  "episode_list h e r s =
     (if rq_Query r ''seriesId'' = '''' then (WriteBadRequest r ''seriesId query parameter is required'', s)
      else case Atoi (rq_Query r ''seriesId'') of
        Inl _ \<Rightarrow> (WriteBadRequest r ''Invalid seriesId'', s)
      | Inr seriesID \<Rightarrow> (case ParsePaginationParams r of
          Inl x \<Rightarrow> (WriteBadRequest r (page_error_text x), s)
        | Inr (limit, lastID) \<Rightarrow> (case eh_ListForSeries h e seriesID s of
            (Inl _, s1) \<Rightarrow> (internal_error r, s1)
          | (Inr xs, s1) \<Rightarrow> (let p = cut_page ep_ID limit lastID xs in (Json 200 (map_page (map toEpisodeResource (pg_Data p)) p), s1)))))"

definition no_episode :: "int \<Rightarrow> string" where
  "no_episode i = ''No episode with id '' @ show_int i"

definition episode_get :: "'s episodeHandler \<Rightarrow> string \<Rightarrow> dbenv \<Rightarrow> Request \<Rightarrow> 's \<Rightarrow> episodeResource v6_answer \<times> 's" where
  "episode_get h idp e r s = (case parseIDFromRequest idp of
     None \<Rightarrow> (WriteBadRequest r ''Invalid id'', s)
   | Some i \<Rightarrow> (case eh_Get h e i s of
       (Inl err, s1) \<Rightarrow> (if error_is err (ErrNotFound ''library: not found'') then WriteNotFound r (no_episode i) else internal_error r, s1)
     | (Inr x, s1) \<Rightarrow> (Json 200 (toEpisodeResource x), s1)))"

definition read_monitored :: "Request \<Rightarrow> (store_error, bool) result" where
  "read_monitored r = Decode (dec_struct [(''monitored'', dec_bool)]) (rq_Body r) False"

definition episode_update :: "'s episodeHandler \<Rightarrow> string \<Rightarrow> dbenv \<Rightarrow> Request \<Rightarrow> 's \<Rightarrow> episodeResource v6_answer \<times> 's" where
  "episode_update h idp e r s = (case parseIDFromRequest idp of
     None \<Rightarrow> (WriteBadRequest r ''Invalid id'', s)
   | Some i \<Rightarrow> (case eh_Get h e i s of
       (Inl err, s1) \<Rightarrow> (if error_is err (ErrNotFound ''library: not found'') then WriteNotFound r (no_episode i) else internal_error r, s1)
     | (Inr old, s1) \<Rightarrow> (case read_monitored r of
         Inl _ \<Rightarrow> (WriteBadRequest r ''Invalid request body'', s1)
       | Inr m \<Rightarrow> (case eh_Update h e (old\<lparr>ep_Monitored := m\<rparr>) s1 of
           (Inl _, s2) \<Rightarrow> (internal_error r, s2)
         | (Inr _, s2) \<Rightarrow> (Json 200 (toEpisodeResource (old\<lparr>ep_Monitored := m\<rparr>)), s2)))))"

subsection \<open>History\<close>

record historyResource =
  hx_ID :: int
  hx_EpisodeID :: int
  hx_SeriesID :: int
  hx_SourceTitle :: string
  hx_QualityName :: string
  hx_EventType :: string
  hx_Date :: "int option"
  hx_DownloadID :: string
  hx_Data :: string

definition toHistoryResource :: "Entry \<Rightarrow> historyResource" where
  "toHistoryResource x = \<lparr>hx_ID = he_ID x, hx_EpisodeID = he_EpisodeID x, hx_SeriesID = he_SeriesID x, hx_SourceTitle = he_SourceTitle x,
     hx_QualityName = he_QualityName x, hx_EventType = he_EventType x, hx_Date = formatTime (he_Date x), hx_DownloadID = he_DownloadID x,
     hx_Data = (if bytes_of (he_Data x) = '''' then ''{}'' else bytes_of (he_Data x))\<rparr>"

definition history_list :: "'s HistoryStore \<Rightarrow> dbenv \<Rightarrow> Request \<Rightarrow> 's \<Rightarrow> historyResource Page v6_answer \<times> 's" where
  "history_list h e r s = (case ParsePaginationParams r of
     Inl x \<Rightarrow> (WriteBadRequest r (page_error_text x), s)
   | Inr (limit, lastID) \<Rightarrow> (case hs_ListAll h e s of
       (Inl _, s1) \<Rightarrow> (internal_error r, s1)
     | (Inr xs, s1) \<Rightarrow> (let p = cut_page he_ID limit lastID xs in (Json 200 (map_page (map toHistoryResource (pg_Data p)) p), s1))))"

subsection \<open>Cursors come back\<close>

lemma index_distinct: "distinct xs \<Longrightarrow> n < length xs \<Longrightarrow> length (takeWhile (\<lambda>x. x \<noteq> xs ! n) xs) = n"
proof (induction xs arbitrary: n)
  case (Cons x xs)
  show ?case
  proof (cases n)
    case (Suc m)
    then have "xs ! m \<in> set xs" using Cons.prems(2) by simp
    then have "x \<noteq> xs ! m" using Cons.prems(1) by auto
    then show ?thesis using Cons Suc by simp
  qed simp
qed simp

lemma b64_alphabet_facts: "distinct b64_alphabet" "length b64_alphabet = 64" "CHR ''='' \<notin> set b64_alphabet"
  "CHR 10 \<notin> set b64_alphabet" "CHR 13 \<notin> set b64_alphabet"
  by code_simp+

lemma b64_char_in: "n < 64 \<Longrightarrow> b64_char n \<in> set b64_alphabet"
  using b64_alphabet_facts(2) by (simp add: b64_char_def)

lemma b64_val_char [simp]: "n < 64 \<Longrightarrow> b64_val (b64_char n) = Some n"
  using b64_char_in [of n] index_distinct [OF b64_alphabet_facts(1), of n] b64_alphabet_facts(2)
  by (simp add: b64_val_def b64_char_def)

lemma b64_char_not [simp]: "n < 64 \<Longrightarrow> b64_char n \<noteq> CHR ''=''" "n < 64 \<Longrightarrow> b64_char n \<noteq> CHR 10" "n < 64 \<Longrightarrow> b64_char n \<noteq> CHR 13"
  using b64_char_in [of n] b64_alphabet_facts(3-5) by auto

lemma sextets:
  fixes a b c :: nat
  assumes "a < 256" "b < 256" "c < 256"
  shows "a div 4 < 64" "a mod 4 * 16 < 64" "a mod 4 * 16 + b div 16 < 64" "b mod 16 * 4 < 64" "b mod 16 * 4 + c div 64 < 64" "c mod 64 < 64"
    and "a div 4 * 4 + a mod 4 * 16 div 16 = a" "a div 4 * 4 + (a mod 4 * 16 + b div 16) div 16 = a"
    and "(a mod 4 * 16 + b div 16) mod 16 * 16 + b mod 16 * 4 div 4 = b"
    and "(a mod 4 * 16 + b div 16) mod 16 * 16 + (b mod 16 * 4 + c div 64) div 4 = b"
    and "(b mod 16 * 4 + c div 64) mod 4 * 64 + c mod 64 = c"
proof -
  have d: "a div 4 < 64" "b div 16 < 16" "c div 64 < 4" using assms by (simp_all add: less_mult_imp_div_less)
  have m: "a mod 4 < 4" "b mod 16 < 16" "c mod 64 < 64" by simp_all
  show "a div 4 < 64" "a mod 4 * 16 < 64" "a mod 4 * 16 + b div 16 < 64" "b mod 16 * 4 < 64" "b mod 16 * 4 + c div 64 < 64" "c mod 64 < 64"
    using d m by linarith+
  have y: "(a mod 4 * 16 + b div 16) div 16 = a mod 4" "(a mod 4 * 16 + b div 16) mod 16 = b div 16" using d(2) by simp_all
  have z: "(b mod 16 * 4 + c div 64) div 4 = b mod 16" "(b mod 16 * 4 + c div 64) mod 4 = c div 64" using d(3) by simp_all
  show "a div 4 * 4 + a mod 4 * 16 div 16 = a" "a div 4 * 4 + (a mod 4 * 16 + b div 16) div 16 = a"
    "(a mod 4 * 16 + b div 16) mod 16 * 16 + b mod 16 * 4 div 4 = b"
    "(a mod 4 * 16 + b div 16) mod 16 * 16 + (b mod 16 * 4 + c div 64) div 4 = b"
    "(b mod 16 * 4 + c div 64) mod 4 * 64 + c mod 64 = c"
    unfolding y z by simp_all
qed

lemma b64_quanta_encode: "b64_quanta (b64_encode s) = Some s"
proof (induction s rule: b64_encode.induct)
  case (2 a)
  then show ?case using sextets [of "char_code a" 0 0] char_code_bound [of a] by (simp add: char_of_code)
next
  case (3 a b)
  then show ?case using sextets [of "char_code a" "char_code b" 0] char_code_bound [of a] char_code_bound [of b]
    by (simp add: char_of_code)
next
  case (4 a b c s)
  then show ?case
    using sextets [of "char_code a" "char_code b" "char_code c"] char_code_bound [of a] char_code_bound [of b] char_code_bound [of c]
    by (simp add: char_of_code)
qed simp

lemma b64_encode_clean: "filter (\<lambda>c. c \<noteq> CHR 10 \<and> c \<noteq> CHR 13) (b64_encode s) = b64_encode s"
proof (induction s rule: b64_encode.induct)
  case (2 a)
  then show ?case using sextets [of "char_code a" 0 0] char_code_bound [of a] by simp
next
  case (3 a b)
  then show ?case using sextets [of "char_code a" "char_code b" 0] char_code_bound [of a] char_code_bound [of b] by simp
next
  case (4 a b c s)
  then show ?case
    using sextets [of "char_code a" "char_code b" "char_code c"] char_code_bound [of a] char_code_bound [of b] char_code_bound [of c]
    by simp
qed simp

lemma b64_decode_encode [simp]: "b64_decode (b64_encode s) = Some s"
  by (simp add: b64_decode_def b64_encode_clean b64_quanta_encode)

lemma b64_encode_nonempty: "s \<noteq> [] \<Longrightarrow> b64_encode s \<noteq> []"
  by (cases s rule: b64_encode.cases) simp_all

lemma cursor_doc: "doc_ok maxNestingDepth (JObj [(''lastId'', json_int i)])"
proof -
  have "valid_utf8 ''lastId''" by (rule valid_utf8_ascii) (simp add: char_code_def)
  then show ?thesis by (simp add: maxNestingDepth_def)
qed

lemma EncodeCursor_nonempty: "EncodeCursor i \<noteq> []"
proof -
  have "print_json (JObj [(''lastId'', json_int i)]) \<noteq> []"
    using print_hd [OF cursor_doc] by force
  then show ?thesis by (simp add: EncodeCursor_def b64_encode_nonempty)
qed

lemma decode_cursor:
  assumes "int64_range i"
  shows "DecodeCursor (EncodeCursor i) = Inr i"
proof -
  let ?doc = "JObj [(''lastId'', json_int i)]"
  have "field_for cursor_fields ''lastId'' = Some dec_int64" by (simp add: field_for_def cursor_fields_def)
  then have "dec_struct cursor_fields ?doc 0 = Inr i" using assms by (simp add: dec_struct_def)
  then have "Unmarshal (dec_struct cursor_fields) (print_json ?doc) 0 = Inr i" unfolding Unmarshal_print [OF cursor_doc] .
  then show ?thesis
    using EncodeCursor_nonempty [of i] unfolding DecodeCursor_def by (simp add: EncodeCursor_def)
qed

lemma DecodeCursor_Nil [simp]: "DecodeCursor [] = Inr 0"
  by (simp add: DecodeCursor_def)

text \<open>A cursor decodes to the id it was made from: for every 64-bit id, the URL-safe base64 of its JSON payload is a text that is not empty, and
  decoding it gives the id.\<close>

theorem cursor_roundtrip:
  assumes "int64_range i"
  shows "EncodeCursor i \<noteq> '''' \<and> DecodeCursor (EncodeCursor i) = Inr i"
  using decode_cursor [OF assms] EncodeCursor_nonempty by simp

theorem cursor_roundtrip_witness:
  "int64_range 42 \<and> EncodeCursor 42 = ''eyJsYXN0SWQiOjQyfQ=='' \<and> DecodeCursor (EncodeCursor 42) = Inr 42"
proof -
  have r: "int64_range 42" by (simp add: int64_range_def)
  have "EncodeCursor 42 = ''eyJsYXN0SWQiOjQyfQ==''" by code_simp
  with r cursor_roundtrip [OF r] show ?thesis by simp
qed

subsection \<open>Following the cursors\<close>

text \<open>A client asks for a listing with a cursor, at first with the empty one, and goes on with the cursor of the page while there is more. The
  result is what all the pages show.\<close>

inductive follows :: "(string \<Rightarrow> 'a Page v6_answer) \<Rightarrow> string \<Rightarrow> 'a list \<Rightarrow> bool" for ask where
  last_page: "ask c = Json 200 p \<Longrightarrow> \<not> pg_HasMore p \<Longrightarrow> follows ask c (pg_Data p)"
| next_page: "ask c = Json 200 p \<Longrightarrow> pg_HasMore p \<Longrightarrow> follows ask (pg_NextCursor p) ys \<Longrightarrow> follows ask c (pg_Data p @ ys)"

inductive_simps follows_iff: "follows ask c ys"

lemma follows_page:
  assumes "ask c = Json 200 p"
  shows "follows ask c ys \<longleftrightarrow> (if pg_HasMore p then \<exists>zs. follows ask (pg_NextCursor p) zs \<and> ys = pg_Data p @ zs else ys = pg_Data p)"
  unfolding follows_iff [of ask c ys] using assms by auto

text \<open>What a list handler answers to requests that differ in the cursor only.\<close>

definition serves_pages :: "(string \<Rightarrow> 'b Page v6_answer) \<Rightarrow> ('a \<Rightarrow> int) \<Rightarrow> ('a \<Rightarrow> 'b) \<Rightarrow> nat \<Rightarrow> 'a list \<Rightarrow> bool" where
  "serves_pages ask idof f n xs \<longleftrightarrow>
     (\<forall>c i. DecodeCursor c = Inr i \<longrightarrow>
        ask c = Json 200 (map_page (map f (pg_Data (cut_page idof (int n) i xs))) (cut_page idof (int n) i xs)))"

lemma cut_page_more:
  assumes "zs = filter (\<lambda>x. idof x > i) xs" "n < length zs" "0 < n"
  shows "cut_page idof (int n) i xs = \<lparr>pg_Data = take n zs, pg_Limit = int n, pg_NextCursor = EncodeCursor (idof (zs ! (n - 1))), pg_HasMore = True\<rparr>"
proof -
  have "take n zs \<noteq> []" using assms(2,3) by auto
  then have "last (take n zs) = zs ! (n - 1)" "take n zs \<noteq> []" using assms(2) by (simp_all add: last_conv_nth)
  then show ?thesis using assms(2) by (simp add: cut_page_def Let_def flip: assms(1))
qed

lemma cut_page_last:
  assumes "zs = filter (\<lambda>x. idof x > i) xs" "length zs \<le> n"
  shows "cut_page idof (int n) i xs = \<lparr>pg_Data = zs, pg_Limit = int n, pg_NextCursor = '''', pg_HasMore = False\<rparr>"
  using assms(2) by (simp add: cut_page_def Let_def flip: assms(1))

lemma pages_last:
  assumes "serves_pages ask idof f n xs" "DecodeCursor c = Inr i" "zs = filter (\<lambda>x. idof x > i) xs" "length zs \<le> n"
  shows "follows ask c ys \<longleftrightarrow> ys = map f zs"
  using assms(1,2) cut_page_last [OF assms(3,4)] by (subst follows_page) (auto simp: serves_pages_def map_page_def)

lemma pages_more:
  assumes "serves_pages ask idof f n xs" "DecodeCursor c = Inr i" "zs = filter (\<lambda>x. idof x > i) xs" "n < length zs" "0 < n"
  shows "follows ask c ys \<longleftrightarrow> (\<exists>us. follows ask (EncodeCursor (idof (zs ! (n - 1)))) us \<and> ys = map f (take n zs) @ us)"
  using assms(1,2) cut_page_more [OF assms(3-5)] by (subst follows_page) (auto simp: serves_pages_def map_page_def)

text \<open>Of a list in the order of ids, what is above an element is what comes after it; of one in the opposite order, what comes before it.\<close>

lemma filter_halves:
  assumes "xs = us @ vs" "list_all (\<lambda>x. P x = b) us" "list_all (\<lambda>x. P x = (\<not> b)) vs"
  shows "filter P xs = (if b then us else vs)"
  using assms by (cases b) (auto simp: list_all_iff)

lemma filter_above_asc:
  assumes "sorted_wrt (\<lambda>x y. (idof x :: int) < idof y) xs" "k < length xs"
  shows "filter (\<lambda>x. idof x > idof (xs ! k)) xs = drop (Suc k) xs"
proof -
  have xs: "xs = take k xs @ xs ! k # drop (Suc k) xs" using assms(2) by (rule id_take_nth_drop)
  have "sorted_wrt (\<lambda>x y. idof x < idof y) (take k xs @ xs ! k # drop (Suc k) xs)" using assms(1) xs by simp
  then have "list_all (\<lambda>x. idof x < idof (xs ! k)) (take k xs)" "list_all (\<lambda>x. idof (xs ! k) < idof x) (drop (Suc k) xs)"
    by (auto simp: sorted_wrt_append list_all_iff)
  then show ?thesis using xs
    by (subst filter_halves [where b = False and us = "take k xs @ [xs ! k]" and vs = "drop (Suc k) xs"]) (auto simp: list_all_iff)
qed

lemma filter_above_desc:
  assumes "sorted_wrt (\<lambda>x y. (idof y :: int) < idof x) xs" "k < length xs"
  shows "filter (\<lambda>x. idof x > idof (xs ! k)) xs = take k xs"
proof -
  have xs: "xs = take k xs @ xs ! k # drop (Suc k) xs" using assms(2) by (rule id_take_nth_drop)
  have "sorted_wrt (\<lambda>x y. idof y < idof x) (take k xs @ xs ! k # drop (Suc k) xs)" using assms(1) xs by simp
  then have "list_all (\<lambda>x. idof (xs ! k) < idof x) (take k xs)" "list_all (\<lambda>x. idof x < idof (xs ! k)) (drop (Suc k) xs)"
    by (auto simp: sorted_wrt_append list_all_iff)
  then show ?thesis using xs
    by (subst filter_halves [where b = True and us = "take k xs" and vs = "xs ! k # drop (Suc k) xs"]) (auto simp: list_all_iff)
qed

lemma pages_ascending:
  assumes serve: "serves_pages ask idof f n xs" and n: "0 < n"
    and asc: "sorted_wrt (\<lambda>x y. idof x < idof y) xs" and ids: "list_all (\<lambda>x. int64_range (idof x)) xs"
  shows "DecodeCursor c = Inr i \<Longrightarrow> follows ask c ys \<longleftrightarrow> ys = map f (filter (\<lambda>x. idof x > i) xs)"
proof (induction "length (filter (\<lambda>x. idof x > i) xs)" arbitrary: i c ys rule: less_induct)
  case less
  define zs where "zs = filter (\<lambda>x. idof x > i) xs"
  show ?case
  proof (cases "n < length zs")
    case False
    then show ?thesis using pages_last [OF serve less.prems zs_def, of ys] zs_def by simp
  next
    case True
    define j where "j = idof (zs ! (n - 1))"
    have mem: "zs ! (n - 1) \<in> set zs" using True by simp
    then have "int64_range j" using ids by (simp add: zs_def j_def list_all_iff)
    then have c: "DecodeCursor (EncodeCursor j) = Inr j" by (rule decode_cursor)
    have "i < j" using mem by (simp add: zs_def j_def)
    then have "filter (\<lambda>x. idof x > j) xs = filter (\<lambda>x. idof x > j) zs"
      by (auto simp: zs_def intro: filter_cong)
    also have "\<dots> = drop n zs"
      using filter_above_asc [of idof zs "n - 1"] asc n True by (simp add: zs_def j_def sorted_wrt_filter)
    finally have rest: "filter (\<lambda>x. idof x > j) xs = drop n zs" .
    have "follows ask (EncodeCursor j) us \<longleftrightarrow> us = map f (drop n zs)" for us
      using less.hyps [OF _ c, of us] n True rest by (simp flip: zs_def)
    then have "follows ask c ys \<longleftrightarrow> ys = map f (take n zs) @ map f (drop n zs)"
      using pages_more [OF serve less.prems zs_def True n, of ys] by (simp add: j_def)
    then show ?thesis by (simp flip: map_append zs_def)
  qed
qed

lemma pages_descending:
  assumes serve: "serves_pages ask idof f n xs" and n: "0 < n" "n < length xs"
    and desc: "sorted_wrt (\<lambda>x y. idof y < idof x) xs" and ids: "list_all (\<lambda>x. 0 < idof x \<and> int64_range (idof x)) xs"
  shows "follows ask '''' ys \<longleftrightarrow> ys = map f (take n xs @ take (n - 1) xs)"
proof -
  have all: "xs = filter (\<lambda>x. idof x > 0) xs" using ids by (simp add: list_all_iff)
  define j where "j = idof (xs ! (n - 1))"
  have "int64_range j" using ids n by (simp add: j_def list_all_iff)
  then have c: "DecodeCursor (EncodeCursor j) = Inr j" by (rule decode_cursor)
  have t: "take (n - 1) xs = filter (\<lambda>x. idof x > j) xs"
    using filter_above_desc [OF desc, of "n - 1"] n by (simp add: j_def)
  have "follows ask (EncodeCursor j) us \<longleftrightarrow> us = map f (take (n - 1) xs)" for us
    by (rule pages_last [OF serve c t]) simp
  then show ?thesis using pages_more [OF serve DecodeCursor_Nil all n(2,1), of ys] by (simp add: j_def)
qed

text \<open>The request for one page.\<close>

definition page_request :: "(string \<Rightarrow> string) \<Rightarrow> nat \<Rightarrow> string \<Rightarrow> Request" where
  "page_request query n c = \<lparr>rq_Method = ''GET'', rq_Path = '''', rq_Header = (\<lambda>_. ''''),
     rq_Query = (query(''limit'' := show_int (int n)))(''cursor'' := c), rq_Cookie = (\<lambda>_. None), rq_Body = '''', rq_RemoteAddr = ''''\<rparr>"

lemma show_int_nonempty: "show_int i \<noteq> []"
  using show_nat_digits by (auto simp: show_int_def)

lemma page_request_params:
  assumes "0 < n" "n \<le> 500" "DecodeCursor c = Inr i"
  shows "ParsePaginationParams (page_request query n c) = Inr (int n, i)"
proof -
  have "page_limit (show_int (int n)) = Some (int n)"
    using assms Atoi_show_int [of "int n"] show_int_nonempty by (simp add: page_limit_def int64_range_def)
  then show ?thesis using assms(3) by (auto simp: ParsePaginationParams_def page_request_def)
qed

lemma serves_episodes:
  assumes "0 < n" "n \<le> 500" "Atoi (query ''seriesId'') = Inr sid" "eh_ListForSeries h e sid s = (Inr xs, s)"
  shows "serves_pages (\<lambda>c. fst (episode_list h e (page_request query n c) s)) ep_ID toEpisodeResource n xs"
proof -
  have "query ''seriesId'' \<noteq> ''''" using assms(3) by (auto simp: Atoi_def)
  moreover have "rq_Query (page_request query n c) ''seriesId'' = query ''seriesId''" for c by (simp add: page_request_def)
  ultimately show ?thesis
    using assms(3,4) by (simp add: serves_pages_def episode_list_def page_request_params [OF assms(1,2)] Let_def)
qed

lemma serves_history:
  assumes "0 < n" "n \<le> 500" "hs_ListAll h e s = (Inr xs, s)"
  shows "serves_pages (\<lambda>c. fst (history_list h e (page_request query n c) s)) he_ID toHistoryResource n xs"
  using assms(3) by (simp add: serves_pages_def history_list_def page_request_params [OF assms(1,2)] Let_def)


text \<open>Following the cursors of the episode listing of a series shows every episode of it once, in the order of the store, whatever the
  page size, provided the ids ascend along the listing: the client ends, and ends with nothing else.\<close>

theorem v6_episode_pages_complete:
  assumes "quiet e" "0 < n" "n \<le> 500" "Atoi (query ''seriesId'') = Inr sid"
    and "sqliteEpisodes_ListForSeries e sid d = (Inr xs, d)"
    and "sorted_wrt (\<lambda>x y. ep_ID x < ep_ID y) xs" "list_all (\<lambda>x. 0 < ep_ID x \<and> int64_range (ep_ID x)) xs"
  shows "follows (\<lambda>c. fst (episode_list sqlite_episodeHandler e (page_request query n c) d)) '''' ys
    \<longleftrightarrow> ys = map toEpisodeResource xs"
proof -
  have "serves_pages (\<lambda>c. fst (episode_list sqlite_episodeHandler e (page_request query n c) d)) ep_ID toEpisodeResource n xs"
    using assms(5) by (intro serves_episodes [where sid = sid] assms(2-4)) (simp add: sqlite_episodeHandler_def)
  moreover have "filter (\<lambda>x. ep_ID x > 0) xs = xs" "list_all (\<lambda>x. int64_range (ep_ID x)) xs"
    using assms(7) by (simp_all add: list_all_iff)
  ultimately show ?thesis using pages_ascending [OF _ assms(2,6) _ DecodeCursor_Nil] by fastforce
qed

text \<open>The history of the store of SQLite when one entry was recorded after the other.\<close>

lemma sqlite_history_order:
  assumes "quiet e" "sorted_wrt (<) (map hq_Date (rows t))"
  shows "sqliteHistory_ListAll e t = (Inr (map historyFromSQLite (rev (rows t))), t)"
proof -
  have "sorted (map (\<lambda>r. - hq_Date r) (rev (rows t)))"
    using assms(2) by (simp add: sorted_map sorted_wrt_rev sorted_wrt_map) (auto elim: sorted_wrt_mono_rel [rotated])
  moreover have "inj_on (\<lambda>r. - hq_Date r) (set (rows t))"
    using assms(2) by (auto simp: strict_sorted_iff distinct_map inj_on_def)
  ultimately have "sort_key (\<lambda>r. - hq_Date r) (rows t) = rev (rows t)"
    by (intro sort_key_inj_key_eq) auto
  then show ?thesis using assms(1) by (simp add: sqliteHistory_ListAll_def act_defs sql_many_def)
qed

text \<open>C37: Following the cursors of the history listing never gets past the first page: when entries were recorded one after the other,
  the listing has the latest first, the cursor asks for the ids above the last one shown, and the second and last page repeats the first page but its
  last entry. The older entries are never shown.\<close>

theorem v6_history_pages_repeat:
  assumes "quiet e" "0 < n" "n \<le> 500" "n < length (rows t)"
    and "sorted_wrt (<) (map hq_Date (rows t))" "sorted_wrt (<) (map hq_ID (rows t))"
    and "list_all (\<lambda>r. 0 < hq_ID r \<and> int64_range (hq_ID r)) (rows t)"
  shows "follows (\<lambda>c. fst (history_list sqliteHistory e (page_request query n c) t)) '''' ys
    \<longleftrightarrow> ys = map (\<lambda>r. toHistoryResource (historyFromSQLite r)) (take n (rev (rows t)) @ take (n - 1) (rev (rows t)))"
proof -
  let ?xs = "map historyFromSQLite (rev (rows t))"
  have id: "he_ID (historyFromSQLite r) = hq_ID r" for r by (simp add: historyFromSQLite_def)
  have "serves_pages (\<lambda>c. fst (history_list sqliteHistory e (page_request query n c) t)) he_ID toHistoryResource n ?xs"
    using sqlite_history_order [OF assms(1,5)] by (intro serves_history [OF assms(2,3)]) (simp add: sqliteHistory_def)
  moreover have "sorted_wrt (\<lambda>x y. he_ID y < he_ID x) ?xs"
    using assms(6) by (simp add: sorted_wrt_map sorted_wrt_rev id)
  moreover have "list_all (\<lambda>x. 0 < he_ID x \<and> int64_range (he_ID x)) ?xs" using assms(7) by (simp add: list_all_iff id)
  ultimately have "follows (\<lambda>c. fst (history_list sqliteHistory e (page_request query n c) t)) '''' ys
      \<longleftrightarrow> ys = map toHistoryResource (take n ?xs @ take (n - 1) ?xs)"
    using assms(2,4) by (intro pages_descending) simp_all
  then show ?thesis by (simp add: take_map o_def flip: map_append)
qed



subsection \<open>Requests keep the catalogue consistent\<close>

text \<open>The routes of mountSeries and mountEpisode, with the value of the path parameter.\<close>

datatype v6_route = ListSeries | GetSeries string | CreateSeries | UpdateSeries string | DeleteSeries string
  | ListEpisodes | GetEpisode string | UpdateEpisode string

definition with_status :: "'a v6_answer \<times> 's \<Rightarrow> int \<times> 's" where
  "with_status = map_prod answer_status id"

fun v6_serve :: "'s seriesHandler \<Rightarrow> 's episodeHandler \<Rightarrow> (rat \<Rightarrow> rat) \<Rightarrow> dbenv \<Rightarrow> v6_route \<Rightarrow> Request \<Rightarrow> 's \<Rightarrow> int \<times> 's" where
  "v6_serve sh eh fl e ListSeries r d = with_status (series_list fl sh e r d)"
| "v6_serve sh eh fl e (GetSeries i) r d = with_status (series_get fl sh i e r d)"
| "v6_serve sh eh fl e CreateSeries r d = with_status (series_create fl sh e r d)"
| "v6_serve sh eh fl e (UpdateSeries i) r d = with_status (series_update fl sh i e r d)"
| "v6_serve sh eh fl e (DeleteSeries i) r d = with_status (series_delete sh i e r d)"
| "v6_serve sh eh fl e ListEpisodes r d = with_status (episode_list eh e r d)"
| "v6_serve sh eh fl e (GetEpisode i) r d = with_status (episode_get eh i e r d)"
| "v6_serve sh eh fl e (UpdateEpisode i) r d = with_status (episode_update eh i e r d)"

text \<open>What the handlers rely on: reads leave the stores as they are, writes keep the invariant, and a write that fails changes nothing.\<close>

lemma problem_status [simp]: "answer_status (WriteBadRequest r t) = 400" "answer_status (WriteNotFound r t) = 404"
    "answer_status (internal_error r) = 500"
  by (simp_all add: WriteBadRequest_def WriteNotFound_def internal_error_def WriteProblem_def)

locale catalogue_stores =
  fixes sh :: "'s seriesHandler" and eh :: "'s episodeHandler" and inv :: "'s \<Rightarrow> bool" and good :: "dbenv \<Rightarrow> bool"
  assumes reads: "good e \<Longrightarrow> snd (srs_Get (h_series sh) e i s) = s" "good e \<Longrightarrow> snd (srs_List (h_series sh) e s) = s"
      "good e \<Longrightarrow> snd (sns_ListForSeries (h_seasons sh) e i s) = s" "good e \<Longrightarrow> snd (h_stats_Get sh e i s) = s"
      "good e \<Longrightarrow> snd (eh_Get eh e i s) = s" "good e \<Longrightarrow> snd (eh_ListForSeries eh e i s) = s"
    and create: "inv s \<Longrightarrow> good e \<Longrightarrow> srs_Create (h_series sh) e x s = (rc, s') \<Longrightarrow> inv s' \<and> (\<forall>er. rc = Inl er \<longrightarrow> s' = s)"
    and update: "inv s \<Longrightarrow> good e \<Longrightarrow> srs_Update (h_series sh) e x s = (ru, s') \<Longrightarrow> inv s' \<and> (\<forall>er. ru = Inl er \<longrightarrow> s' = s)"
    and delete: "inv s \<Longrightarrow> good e \<Longrightarrow> srs_Delete (h_series sh) e i s = (ru, s') \<Longrightarrow> inv s' \<and> (\<forall>er. ru = Inl er \<longrightarrow> s' = s)"
    and upsert: "inv s \<Longrightarrow> good e \<Longrightarrow> sns_Upsert (h_seasons sh) e sn s = (ru, s') \<Longrightarrow> inv s'"
    and write_back: "inv s \<Longrightarrow> good e \<Longrightarrow> eh_Get eh e i s = (Inr y, s) \<Longrightarrow> eh_Update eh e (y\<lparr>ep_Monitored := m\<rparr>) s = (ru, s')
      \<Longrightarrow> inv s' \<and> (\<forall>er. ru = Inl er \<longrightarrow> s' = s)"
begin

lemma read_state: "good e \<Longrightarrow> srs_Get (h_series sh) e i s = (a, s') \<Longrightarrow> s' = s"
    "good e \<Longrightarrow> srs_List (h_series sh) e s = (b, s') \<Longrightarrow> s' = s"
    "good e \<Longrightarrow> sns_ListForSeries (h_seasons sh) e i s = (c, s') \<Longrightarrow> s' = s"
    "good e \<Longrightarrow> h_stats_Get sh e i s = (x, s') \<Longrightarrow> s' = s"
    "good e \<Longrightarrow> eh_Get eh e i s = (y, s') \<Longrightarrow> s' = s" "good e \<Longrightarrow> eh_ListForSeries eh e i s = (z, s') \<Longrightarrow> s' = s"
  using reads by (metis snd_conv)+

lemma quiet_resource: "good e \<Longrightarrow> snd (seasons_or_none sh e i s) = s" "good e \<Longrightarrow> snd (full_resource fl sh e x s) = s"
    "good e \<Longrightarrow> snd (full_resources fl sh e xs s) = s"
proof -
  assume g: "good e"
  show a: "snd (seasons_or_none sh e i s) = s" for i s
    using read_state(3) [OF g] by (auto simp: seasons_or_none_def split: prod.split sum.split)
  have "snd (stats_or_none sh e i s) = s" for i s
    using read_state(4) [OF g] by (auto simp: stats_or_none_def split: prod.split sum.split)
  with a show f: "snd (full_resource fl sh e x s) = s" for x s by (simp add: full_resource_def split_beta)
  then show "snd (full_resources fl sh e xs s) = s" by (induction xs) (simp_all add: split_beta)
qed

lemma resource_state: "good e \<Longrightarrow> seasons_or_none sh e i s = (a, s') \<Longrightarrow> s' = s" "good e \<Longrightarrow> full_resource fl sh e x s = (b, s') \<Longrightarrow> s' = s"
    "good e \<Longrightarrow> full_resources fl sh e xs s = (c, s') \<Longrightarrow> s' = s"
  using quiet_resource by (metis snd_conv)+

lemma upserts_keep: "inv s \<Longrightarrow> good e \<Longrightarrow> inv (input_upserts sh e i ns s)"
  by (induction ns arbitrary: s) (auto intro: upsert [OF _ _ prod.collapse [symmetric]])

lemma list_keeps: "good e \<Longrightarrow> snd (series_list fl sh e r s) = s" "good e \<Longrightarrow> snd (series_get fl sh ip e r s) = s"
    "good e \<Longrightarrow> snd (episode_list eh e r s) = s" "good e \<Longrightarrow> snd (episode_get eh ip e r s) = s"
  by (auto simp: series_list_def series_get_def episode_list_def episode_get_def Let_def
      split: sum.splits option.splits prod.splits dest: read_state resource_state)

lemma create_keeps:
  assumes "inv s" "good e" "series_create fl sh e r s = (a, s')"
  shows "inv s' \<and> (answer_status a \<ge> 400 \<longrightarrow> s' = s)"
  using assms
  by (auto simp: series_create_def Let_def split: sum.splits prod.splits
      dest: create [OF assms(1,2)] dest!: resource_state(1) [OF assms(2)] intro!: upserts_keep)

lemma update_keeps:
  assumes "inv s" "good e" "series_update fl sh ip e r s = (a, s')"
  shows "inv s' \<and> (answer_status a \<ge> 400 \<longrightarrow> s' = s)"
  using assms
  by (auto simp: series_update_def Let_def split: sum.splits prod.splits option.splits
      dest: update [OF assms(1,2)] dest!: resource_state(2) [OF assms(2)] read_state(1) [OF assms(2)] intro!: upserts_keep)

lemma delete_keeps:
  assumes "inv s" "good e" "series_delete sh ip e r s = (a, s')"
  shows "inv s' \<and> (answer_status a \<ge> 400 \<longrightarrow> s' = s)"
  using assms by (auto simp: series_delete_def split: sum.splits prod.splits option.splits dest: delete [OF assms(1,2)])

lemma episode_update_keeps:
  assumes "inv s" "good e" "episode_update eh ip e r s = (a, s')"
  shows "inv s' \<and> (answer_status a \<ge> 400 \<longrightarrow> s' = s)"
proof (cases "parseIDFromRequest ip")
  case (Some i)
  obtain x where x: "eh_Get eh e i s = (x, s)" using reads(5) [OF assms(2), of i s] by (metis prod.collapse)
  show ?thesis
  proof (cases x)
    case (Inr y)
    show ?thesis using assms Some x write_back [OF assms(1,2) x [unfolded Inr]]
      by (auto simp: episode_update_def Inr split: sum.splits prod.splits)
  qed (use assms Some x in \<open>auto simp: episode_update_def\<close>)
qed (use assms in \<open>auto simp: episode_update_def\<close>)

theorem serve_keeps:
  assumes "inv s" "good e" "v6_serve sh eh fl e q r s = (code, s')"
  shows "inv s' \<and> (code \<ge> 400 \<longrightarrow> s' = s)"
  using assms(3) list_keeps [OF assms(2)] create_keeps [OF assms(1,2)] update_keeps [OF assms(1,2)] delete_keeps [OF assms(1,2)]
    episode_update_keeps [OF assms(1,2)] assms(1)
  by (cases q) (auto simp: with_status_def prod_eq_iff)

end


lemma lib_reads [simp]:
  "snd (sqliteSeries_Get e i d) = d" "snd (sqliteSeries_List e d) = d" "snd (sqliteSeasons_ListForSeries e i d) = d"
  "snd (sqliteStats_Get e i d) = d" "snd (sqliteEpisodes_Get e i d) = d" "snd (sqliteEpisodes_ListForSeries e i d) = d"
  by (auto simp: sqliteSeries_Get_def sqliteSeries_List_def sqliteSeasons_ListForSeries_def sqliteStats_Get_def sqliteEpisodes_Get_def
      sqliteEpisodes_ListForSeries_def sqlite_ListSeries_def sqlite_GetSeries_def sqlite_ListSeasonsForSeries_def sqlite_GetEpisode_def
      sqlite_ListEpisodesForSeries_def sqlite_GetSeriesStatistics_def stmt_def act_defs lift_defs store_defs split: sum.split option.split)

lemma series_writes_fail:
  assumes "catalog_inv {} d" "quiet e"
  shows "sqliteSeries_Create (app_publish e) e x d = (Inl er, d') \<Longrightarrow> d' = d"
    and "sqliteSeries_Update (app_publish e) e x d = (Inl er, d') \<Longrightarrow> d' = d"
    and "sqliteSeries_Delete (app_publish e) e i d = (Inl er, d') \<Longrightarrow> d' = d"
  using assms(2)
  by (auto simp: sqliteSeries_Create_def sqliteSeries_Update_def sqliteSeries_Delete_def lib_stmt_defs act_defs lift_defs publishing_def
      app_publish_eq sqliteStats_Delete_def sqlite_DeleteSeriesStatistics_def store_defs split: if_splits)

lemma episode_got:
  assumes "quiet e" "sqliteEpisodes_Get e i d = (Inr y, d)"
  shows "\<exists>row. tbl sp_ID (db_episodes d) i = Some row \<and> y = episodeFromSqlite row \<and> sp_ID row = i"
  using assms tbl_SomeD [of sp_ID "db_episodes d" i]
  by (auto simp: sqliteEpisodes_Get_def sqlite_GetEpisode_def rowA_def on_episodes_def sql_one_id split: sum.splits option.splits)


interpretation v6: catalogue_stores sqlite_seriesHandler sqlite_episodeHandler "catalog_inv {}" quiet
proof (unfold_locales, goal_cases)
  case (7 s e x rc s')
  then show ?case using series_create_inv [of s e x rc s'] series_writes_fail(1) [of s e x] by (auto simp: sqlite_seriesHandler_def)
next
  case (8 s e x ru s')
  then show ?case using series_update_inv [of s e x ru s'] series_writes_fail(2) [of s e x] by (auto simp: sqlite_seriesHandler_def)
next
  case (9 s e i ru s')
  then show ?case using series_delete_inv [of s e i ru s'] series_writes_fail(3) [of s e i] by (auto simp: sqlite_seriesHandler_def)
next
  case (10 s e sn ru s')
  then show ?case using seasons_inv(1) [of s e sn ru s'] by (simp add: sqlite_seriesHandler_def)
next
  case (11 s e i y m ru s')
  then obtain row where "tbl sp_ID (db_episodes s) i = Some row" "y = episodeFromSqlite row" "sp_ID row = i"
    using episode_got [of e i s y] by (auto simp: sqlite_episodeHandler_def)
  then show ?case using episodes_update_inv [of s e "y\<lparr>ep_Monitored := m\<rparr>" ru s' row] 11
    by (simp add: sqlite_episodeHandler_def)
qed (simp_all add: sqlite_seriesHandler_def sqlite_episodeHandler_def)

text \<open>C36: Whatever a client sends to the series and episode routes of version 6, the catalogue stays consistent (ids and keys unique, every
  reference to a row that exists, the statistics of every series those of its rows), and an answer with an error status (a bad id, body, limit or cursor,
  a row that does not exist, a constraint that fails) has changed nothing.\<close>

theorem v6_requests_safe:
  assumes "catalog_inv {} d" "quiet e" "v6_serve sqlite_seriesHandler sqlite_episodeHandler fl e q r d = (code, d')"
  shows "catalog_inv {} d' \<and> (code \<ge> 400 \<longrightarrow> d' = d)"
  using assms by (rule v6.serve_keeps)


subsection \<open>On concrete stores\<close>

definition demo_episode :: "int \<Rightarrow> SqEpisode" where
  "demo_episode i = \<lparr>sp_ID = i, sp_SeriesID = 1, sp_SeasonNumber = 1, sp_EpisodeNumber = i, sp_AbsoluteEpisodeNumber = None,
     sp_Title = ''Pilot'', sp_Overview = '''', sp_AirDateUtc = None, sp_Monitored = 1, sp_EpisodeFileID = None, sp_CreatedAt = 0, sp_UpdatedAt = 0\<rparr>"

definition demo_episodes :: library_db where
  "demo_episodes = (empty_library [])\<lparr>db_episodes := \<lparr>rows = map demo_episode [1, 2, 3], next_id = 4\<rparr>\<rparr>"

definition demo_history :: "SqHistory table" where
  "demo_history = \<lparr>rows = map (\<lambda>i. \<lparr>hq_ID = i, hq_EpisodeID = 1, hq_SeriesID = 1, hq_SourceTitle = '''', hq_QualityName = '''',
     hq_EventType = ''grabbed'', hq_Date = 100 * i, hq_DownloadID = '''', hq_Data = ''{}''\<rparr>) [1, 2, 3, 4], next_id = 5\<rparr>"

definition demo_post :: Request where
  "demo_post = \<lparr>rq_Method = ''POST'', rq_Path = '''', rq_Header = (\<lambda>_. ''''), rq_Query = (\<lambda>_. ''''), rq_Cookie = (\<lambda>_. None),
     rq_Body = print_json (JObj [(''title'', JStr ''A Show''), (''tvdbId'', json_int 7)]), rq_RemoteAddr = ''''\<rparr>"

theorem v6_episode_pages_complete_witness:
  "follows (\<lambda>c. fst (episode_list sqlite_episodeHandler (quiet_at 0) (page_request (\<lambda>_. ''1'') 2 c) demo_episodes)) ''''
     (map (\<lambda>i. toEpisodeResource (episodeFromSqlite (demo_episode i))) [1, 2, 3])"
proof -
  let ?xs = "map (\<lambda>i. episodeFromSqlite (demo_episode i)) [1, 2, 3]"
  have "Atoi ''1'' = Inr 1" by code_simp
  moreover have "sqliteEpisodes_ListForSeries (quiet_at 0) 1 demo_episodes = (Inr ?xs, demo_episodes)"
    by (simp add: sqliteEpisodes_ListForSeries_def sqlite_ListEpisodesForSeries_def act_defs lift_defs sql_many_def demo_episodes_def demo_episode_def)
  moreover have "sorted_wrt (\<lambda>x y. ep_ID x < ep_ID y) ?xs" "list_all (\<lambda>x. 0 < ep_ID x \<and> int64_range (ep_ID x)) ?xs"
    by (simp_all add: demo_episode_def int64_range_def)
  ultimately show ?thesis
    using v6_episode_pages_complete [of "quiet_at 0" 2 "\<lambda>_. ''1''" 1 demo_episodes ?xs] by simp
qed

theorem v6_history_pages_repeat_witness:
  "follows (\<lambda>c. fst (history_list sqliteHistory (quiet_at 0) (page_request (\<lambda>_. '''') 2 c) demo_history)) ''''
     (map (\<lambda>r. toHistoryResource (historyFromSQLite r)) [rows demo_history ! 3, rows demo_history ! 2, rows demo_history ! 3])"
proof -
  have four: "rows demo_history = [rows demo_history ! 0, rows demo_history ! 1, rows demo_history ! 2, rows demo_history ! 3]"
    by (simp add: demo_history_def)
  have "take 2 (rev (rows demo_history)) @ take (2 - 1) (rev (rows demo_history))
      = [rows demo_history ! 3, rows demo_history ! 2, rows demo_history ! 3]"
    by (subst (1 2) four) simp
  then show ?thesis
    using v6_history_pages_repeat [of "quiet_at 0" 2 demo_history "\<lambda>_. ''''"]
    by (simp add: demo_history_def int64_range_def)
qed

theorem v6_requests_safe_witness:
  "fst (v6_serve sqlite_seriesHandler sqlite_episodeHandler (\<lambda>x. x) (quiet_at 0) CreateSeries demo_post (empty_library [])) = 201
   \<and> catalog_inv {} (snd (v6_serve sqlite_seriesHandler sqlite_episodeHandler (\<lambda>x. x) (quiet_at 0) CreateSeries demo_post (empty_library [])))"
proof -
  have "fst (v6_serve sqlite_seriesHandler sqlite_episodeHandler (\<lambda>x. x) (quiet_at 0) CreateSeries demo_post (empty_library [])) = 201"
    by code_simp
  then show ?thesis
    using v6_requests_safe [OF empty_library_inv, of "quiet_at 0" "\<lambda>x. x" CreateSeries demo_post "[]" 201] by (auto simp: prod_eq_iff)
qed


end
