(* ===== verification/ApiConfig.thy ===== *)
theory ApiConfig
  imports ApiV6 Providers ProfileStores FormatStores RemotePaths
begin

section \<open>The configuration items over HTTP\<close>

text \<open>
  The handlers of internal/api/v3 and internal/api/v6 for indexers, download clients, notifications, custom formats and quality profiles, and those of
  internal/api/v3 for delay profiles, release profiles and remote path mappings. Both versions of a handler make the same calls of the store; they differ
  in how errors are written, which is the argument \<open>style\<close>. The steps that the handlers share are the combinators of the first
  section, and a handler is their composition in the order of the code.

  The listing of schemas is left out: it reflects on the settings structs of the providers.
\<close>

subsection \<open>The steps of a handler\<close>

record api_style =
  as_bad :: "Request \<Rightarrow> string \<Rightarrow> Response"
  as_missing :: "Request \<Rightarrow> string \<Rightarrow> int \<Rightarrow> Response"
  as_failed :: "Request \<Rightarrow> Response"

definition v3_style :: api_style where
  "v3_style = \<lparr>as_bad = (\<lambda>r m. writeError 400 m), as_missing = (\<lambda>r label i. writeError 404 ''Not Found''),
     as_failed = (\<lambda>r. writeError 500 ''Internal Server Error'')\<rparr>"

definition v6_style :: api_style where
  "v6_style = \<lparr>as_bad = (\<lambda>r m. WriteProblem r 400 m), as_missing = (\<lambda>r label i. WriteProblem r 404 (''No '' @ label @ '' with id '' @ show_int i)),
     as_failed = (\<lambda>r. WriteProblem r 500 ''Internal Server Error'')\<rparr>"

datatype 'b shown = One 'b | Many "'b list"

type_synonym 'b item_answer = "'b shown v6_answer"

text \<open>What a resource is called, the sentinel error of its store, and how an item is shown.\<close>

record ('a, 'b) item_kind =
  ik_label :: string
  ik_missing :: store_error
  ik_show :: "'a \<Rightarrow> 'b"

definition with_id :: "api_style \<Rightarrow> Request \<Rightarrow> string \<Rightarrow> (int \<Rightarrow> 's \<Rightarrow> 'b item_answer \<times> 's) \<Rightarrow> 's \<Rightarrow> 'b item_answer \<times> 's" where
  "with_id style r idp k s = (case Atoi idp of Inl _ \<Rightarrow> (Problem (as_bad style r ''Invalid id''), s) | Inr i \<Rightarrow> k i s)"

definition with_body :: "api_style \<Rightarrow> Request \<Rightarrow> (string, 'x) result \<Rightarrow> ('x \<Rightarrow> 's \<Rightarrow> 'b item_answer \<times> 's) \<Rightarrow> 's \<Rightarrow> 'b item_answer \<times> 's" where
  "with_body style r body k s = (case body of Inl m \<Rightarrow> (Problem (as_bad style r m), s) | Inr x \<Rightarrow> k x s)"

definition found :: "api_style \<Rightarrow> ('a, 'b) item_kind \<Rightarrow> Request \<Rightarrow> int \<Rightarrow> ('s, 'x) act \<Rightarrow> ('x \<Rightarrow> 's \<Rightarrow> 'b item_answer \<times> 's) \<Rightarrow> 's \<Rightarrow> 'b item_answer \<times> 's" where
  "found style kind r i m k s = (case m s of
     (Inl err, s1) \<Rightarrow> (Problem (if error_is err (ik_missing kind) then as_missing style r (ik_label kind) i else as_failed style r), s1)
   | (Inr x, s1) \<Rightarrow> k x s1)"

definition managed :: "api_style \<Rightarrow> Request \<Rightarrow> ('s, 'x) act \<Rightarrow> ('x \<Rightarrow> 's \<Rightarrow> 'b item_answer \<times> 's) \<Rightarrow> 's \<Rightarrow> 'b item_answer \<times> 's" where
  "managed style r m k s = (case m s of (Inl _, s1) \<Rightarrow> (Problem (as_failed style r), s1) | (Inr x, s1) \<Rightarrow> k x s1)"

definition item_list :: "api_style \<Rightarrow> ('a, 'b) item_kind \<Rightarrow> ('s, 'a) InstanceStore \<Rightarrow> dbenv \<Rightarrow> Request \<Rightarrow> 's \<Rightarrow> 'b item_answer \<times> 's" where
  "item_list style kind st e r = managed style r (is_List st e) (\<lambda>xs s. (Json 200 (Many (map (ik_show kind) xs)), s))"

definition item_get :: "api_style \<Rightarrow> ('a, 'b) item_kind \<Rightarrow> ('s, 'a) InstanceStore \<Rightarrow> string \<Rightarrow> dbenv \<Rightarrow> Request \<Rightarrow> 's \<Rightarrow> 'b item_answer \<times> 's" where
  "item_get style kind st idp e r = with_id style r idp (\<lambda>i. found style kind r i (is_GetByID st e i)
     (\<lambda>x s. (Json 200 (One (ik_show kind x)), s)))"

definition item_create :: "api_style \<Rightarrow> ('a, 'b) item_kind \<Rightarrow> ('s, 'a) InstanceStore \<Rightarrow> (Request \<Rightarrow> (string, 'a) result)
     \<Rightarrow> dbenv \<Rightarrow> Request \<Rightarrow> 's \<Rightarrow> 'b item_answer \<times> 's" where
  "item_create style kind st body e r = with_body style r (body r) (\<lambda>x. managed style r (is_Create st e x)
     (\<lambda>y s. (Json 201 (One (ik_show kind y)), s)))"

text \<open>An update either changes the stored item by the body, or replaces it by the body under the id of the path.\<close>

definition item_merge :: "api_style \<Rightarrow> ('a, 'b) item_kind \<Rightarrow> ('s, 'a) InstanceStore \<Rightarrow> (Request \<Rightarrow> (string, 'i) result) \<Rightarrow> ('i \<Rightarrow> 'a \<Rightarrow> 'a)
     \<Rightarrow> string \<Rightarrow> dbenv \<Rightarrow> Request \<Rightarrow> 's \<Rightarrow> 'b item_answer \<times> 's" where
  "item_merge style kind st body merge idp e r = with_id style r idp (\<lambda>i. found style kind r i (is_GetByID st e i)
     (\<lambda>old. with_body style r (body r) (\<lambda>x. managed style r (is_Update st e (merge x old))
        (\<lambda>_ s. (Json 200 (One (ik_show kind (merge x old))), s)))))"

definition item_replace :: "api_style \<Rightarrow> ('s, 'a) InstanceStore \<Rightarrow> (int \<Rightarrow> Request \<Rightarrow> (string, 'a \<times> 'b) result)
     \<Rightarrow> string \<Rightarrow> dbenv \<Rightarrow> Request \<Rightarrow> 's \<Rightarrow> 'b item_answer \<times> 's" where
  "item_replace style st body idp e r = with_id style r idp (\<lambda>i. with_body style r (body i r) (\<lambda>(x, b). managed style r (is_Update st e x)
     (\<lambda>_ s. (Json 202 (One b), s))))"

definition item_delete :: "api_style \<Rightarrow> ('a, 'b) item_kind \<Rightarrow> ('s, 'a) InstanceStore \<Rightarrow> string \<Rightarrow> dbenv \<Rightarrow> Request \<Rightarrow> 's \<Rightarrow> 'b item_answer \<times> 's" where
  "item_delete style kind st idp e r = with_id style r idp (\<lambda>i. found style kind r i (is_Delete st e i) (\<lambda>_ s. (Status 200, s)))"

definition item_remove :: "api_style \<Rightarrow> ('s, 'a) InstanceStore \<Rightarrow> string \<Rightarrow> dbenv \<Rightarrow> Request \<Rightarrow> 's \<Rightarrow> 'b item_answer \<times> 's" where
  "item_remove style st idp e r = with_id style r idp (\<lambda>i. managed style r (is_Delete st e i) (\<lambda>_ s. (Status 200, s)))"

subsection \<open>Bodies with raw members\<close>

text \<open>A member of type \<open>json.RawMessage\<close> receives the text of the value as it stands in the body. The members of an object come with their values and
  the texts of these.\<close>

definition raw_text :: "string \<Rightarrow> string \<Rightarrow> string" where
  "raw_text s rest = take (length (skip_ws s) - length rest) (skip_ws s)"

function raw_members :: "nat \<Rightarrow> string \<Rightarrow> ((string \<times> json \<times> string) list \<times> string) option" where
  "raw_members d s =
     (case skip_ws s of
        [] \<Rightarrow> None
      | q # cs \<Rightarrow> if q \<noteq> CHR 34 then None
          else (case parse_chars cs of
             None \<Rightarrow> None
           | Some (k, r) \<Rightarrow>
               (case skip_ws r of
                  [] \<Rightarrow> None
                | c # r1 \<Rightarrow> if c \<noteq> CHR 58 then None
                    else (case parse_value d r1 of
                       None \<Rightarrow> None
                     | Some (v, r2) \<Rightarrow>
                         (case skip_ws r2 of
                            [] \<Rightarrow> None
                          | x # r3 \<Rightarrow> if x = CHR 125 then Some ([(k, v, raw_text r1 r2)], r3)
                              else if x = CHR 44 \<and> length r3 < length s
                              then map_option (apfst ((#) (k, v, raw_text r1 r2))) (raw_members d r3) else None)))))"
  by pat_completeness auto
termination
  by (relation "measure (\<lambda>(_, s). length s)") auto

declare raw_members.simps [simp del]

type_synonym 'r raw_fields = "(string \<times> (json \<Rightarrow> string \<Rightarrow> 'r \<Rightarrow> (store_error, 'r) result)) list"

definition raw_field_for :: "'r raw_fields \<Rightarrow> string \<Rightarrow> (json \<Rightarrow> string \<Rightarrow> 'r \<Rightarrow> (store_error, 'r) result) option" where
  "raw_field_for fs k = (case map_of fs k of Some f \<Rightarrow> Some f
     | None \<Rightarrow> map_option snd (List.find (\<lambda>(n, _). foldName n = foldName k) fs))"

fun dec_raw :: "'r raw_fields \<Rightarrow> (string \<times> json \<times> string) list \<Rightarrow> 'r \<Rightarrow> (store_error, 'r) result" where
  "dec_raw fs [] r = Inr r"
| "dec_raw fs ((k, j, t) # ms) r = bindR (case raw_field_for fs k of None \<Rightarrow> Inr r | Some f \<Rightarrow> f j t r) (dec_raw fs ms)"

definition Decode_raw :: "'r raw_fields \<Rightarrow> string \<Rightarrow> 'r \<Rightarrow> (store_error, 'r) result" where
  "Decode_raw fs body x = (case parse_value maxNestingDepth body of
     None \<Rightarrow> Inl JsonSyntax
   | Some (JNull, _) \<Rightarrow> Inr x
   | Some (JObj [], _) \<Rightarrow> Inr x
   | Some (JObj _, _) \<Rightarrow>
       (case raw_members (maxNestingDepth - 1) (drop 1 (skip_ws body)) of None \<Rightarrow> Inl JsonSyntax | Some (ms, _) \<Rightarrow> dec_raw fs ms x)
   | Some _ \<Rightarrow> Inl JsonType)"

definition val_fld :: "('r \<Rightarrow> 'a) \<Rightarrow> (('a \<Rightarrow> 'a) \<Rightarrow> 'r \<Rightarrow> 'r) \<Rightarrow> 'a decoder \<Rightarrow> json \<Rightarrow> string \<Rightarrow> 'r \<Rightarrow> (store_error, 'r) result" where
  "val_fld get upd f j t r = fld get upd f j r"

definition raw_fld :: "((RawMessage \<Rightarrow> RawMessage) \<Rightarrow> 'r \<Rightarrow> 'r) \<Rightarrow> json \<Rightarrow> string \<Rightarrow> 'r \<Rightarrow> (store_error, 'r) result" where
  "raw_fld upd j t r = Inr (upd (\<lambda>_. Some t) r)"

definition or_else :: "string \<Rightarrow> (store_error, 'a) result \<Rightarrow> (string, 'a) result" where
  "or_else m d = (case d of Inl _ \<Rightarrow> Inl m | Inr x \<Rightarrow> Inr x)"

text \<open>The settings of a body: an empty object when there are none; the settings shown: an empty array when there are none.\<close>

definition settings_or :: "string \<Rightarrow> RawMessage \<Rightarrow> string" where
  "settings_or z m = (if bytes_of m = '''' then z else bytes_of m)"

subsection \<open>Indexers\<close>

record indexerResource =
  xi_ID :: int
  xi_Name :: string
  xi_Implementation :: string
  xi_Settings :: string
  xi_EnableRss :: bool
  xi_EnableAutomaticSearch :: bool
  xi_EnableInteractiveSearch :: bool
  xi_Priority :: int
  xi_Added :: "int option"

record indexerInput =
  ji_Name :: string
  ji_Implementation :: string
  ji_Settings :: RawMessage
  ji_EnableRss :: bool
  ji_EnableAutomaticSearch :: bool
  ji_EnableInteractiveSearch :: bool
  ji_Priority :: int

definition toIndexerResource :: "IndexerInstance \<Rightarrow> indexerResource" where
  "toIndexerResource x = \<lparr>xi_ID = ii_ID x, xi_Name = ii_Name x, xi_Implementation = ii_Implementation x,
     xi_Settings = settings_or ''[]'' (ii_Settings x), xi_EnableRss = ii_EnableRss x, xi_EnableAutomaticSearch = ii_EnableAutomaticSearch x, xi_EnableInteractiveSearch = ii_EnableInteractiveSearch x, xi_Priority = ii_Priority x,
     xi_Added = formatTime (ii_Added x)\<rparr>"

definition indexer_kind :: "(IndexerInstance, indexerResource) item_kind" where
  "indexer_kind = \<lparr>ik_label = ''indexer'', ik_missing = ErrNotFound ''indexer: not found'', ik_show = toIndexerResource\<rparr>"

definition indexer_input_fields :: "indexerInput raw_fields" where
  "indexer_input_fields = [(''name'', val_fld ji_Name ji_Name_update dec_string),
     (''implementation'', val_fld ji_Implementation ji_Implementation_update dec_string),
     (''fields'', raw_fld ji_Settings_update),
     (''enableRss'', val_fld ji_EnableRss ji_EnableRss_update dec_bool),
     (''enableAutomaticSearch'', val_fld ji_EnableAutomaticSearch ji_EnableAutomaticSearch_update dec_bool),
     (''enableInteractiveSearch'', val_fld ji_EnableInteractiveSearch ji_EnableInteractiveSearch_update dec_bool),
     (''priority'', val_fld ji_Priority ji_Priority_update dec_int64)]"

definition read_indexer :: "Request \<Rightarrow> (string, indexerInput) result" where
  "read_indexer r = or_else ''Invalid request body'' (Decode_raw indexer_input_fields (rq_Body r) \<lparr>ji_Name = '''', ji_Implementation = '''',
     ji_Settings = None, ji_EnableRss = False, ji_EnableAutomaticSearch = False, ji_EnableInteractiveSearch = False, ji_Priority = 0\<rparr>)"

definition new_indexer :: "indexerInput \<Rightarrow> IndexerInstance" where
  "new_indexer x = \<lparr>ii_ID = 0, ii_Name = ji_Name x, ii_Implementation = ji_Implementation x,
     ii_Settings = Some (settings_or ''{}'' (ji_Settings x)), ii_EnableRss = ji_EnableRss x, ii_EnableAutomaticSearch = ji_EnableAutomaticSearch x, ii_EnableInteractiveSearch = ji_EnableInteractiveSearch x, ii_Priority = ji_Priority x,
     ii_Added = zero_time\<rparr>"

definition merge_indexer :: "indexerInput \<Rightarrow> IndexerInstance \<Rightarrow> IndexerInstance" where
  "merge_indexer x s = s\<lparr>
     ii_Name := (if ji_Name x = '''' then ii_Name s else ji_Name x),
     ii_Settings := (if bytes_of (ji_Settings x) = '''' then ii_Settings s else ji_Settings x),
     ii_EnableRss := ji_EnableRss x,
     ii_EnableAutomaticSearch := ji_EnableAutomaticSearch x,
     ii_EnableInteractiveSearch := ji_EnableInteractiveSearch x,
     ii_Priority := (if ji_Priority x > 0 then ji_Priority x else ii_Priority s)\<rparr>"

definition v6_indexer_list :: "('s, IndexerInstance) InstanceStore \<Rightarrow> dbenv \<Rightarrow> Request \<Rightarrow> 's \<Rightarrow> indexerResource item_answer \<times> 's" where
  "v6_indexer_list st = item_list v6_style indexer_kind st"

definition v6_indexer_create :: "('s, IndexerInstance) InstanceStore \<Rightarrow> dbenv \<Rightarrow> Request \<Rightarrow> 's \<Rightarrow> indexerResource item_answer \<times> 's" where
  "v6_indexer_create st = item_create v6_style indexer_kind st (\<lambda>r. map_sum id new_indexer (read_indexer r))"

definition v6_indexer_get :: "('s, IndexerInstance) InstanceStore \<Rightarrow> string \<Rightarrow> dbenv \<Rightarrow> Request \<Rightarrow> 's \<Rightarrow> indexerResource item_answer \<times> 's" where
  "v6_indexer_get st = item_get v6_style indexer_kind st"

definition v6_indexer_update :: "('s, IndexerInstance) InstanceStore \<Rightarrow> string \<Rightarrow> dbenv \<Rightarrow> Request \<Rightarrow> 's \<Rightarrow> indexerResource item_answer \<times> 's" where
  "v6_indexer_update st = item_merge v6_style indexer_kind st read_indexer merge_indexer"

definition v6_indexer_delete :: "('s, IndexerInstance) InstanceStore \<Rightarrow> string \<Rightarrow> dbenv \<Rightarrow> Request \<Rightarrow> 's \<Rightarrow> indexerResource item_answer \<times> 's" where
  "v6_indexer_delete st = item_delete v6_style indexer_kind st"

definition v3_indexer_list :: "('s, IndexerInstance) InstanceStore \<Rightarrow> dbenv \<Rightarrow> Request \<Rightarrow> 's \<Rightarrow> indexerResource item_answer \<times> 's" where
  "v3_indexer_list st = item_list v3_style indexer_kind st"

definition v3_indexer_create :: "('s, IndexerInstance) InstanceStore \<Rightarrow> dbenv \<Rightarrow> Request \<Rightarrow> 's \<Rightarrow> indexerResource item_answer \<times> 's" where
  "v3_indexer_create st = item_create v3_style indexer_kind st (\<lambda>r. map_sum id new_indexer (read_indexer r))"

definition v3_indexer_get :: "('s, IndexerInstance) InstanceStore \<Rightarrow> string \<Rightarrow> dbenv \<Rightarrow> Request \<Rightarrow> 's \<Rightarrow> indexerResource item_answer \<times> 's" where
  "v3_indexer_get st = item_get v3_style indexer_kind st"

definition v3_indexer_update :: "('s, IndexerInstance) InstanceStore \<Rightarrow> string \<Rightarrow> dbenv \<Rightarrow> Request \<Rightarrow> 's \<Rightarrow> indexerResource item_answer \<times> 's" where
  "v3_indexer_update st = item_merge v3_style indexer_kind st read_indexer merge_indexer"

definition v3_indexer_delete :: "('s, IndexerInstance) InstanceStore \<Rightarrow> string \<Rightarrow> dbenv \<Rightarrow> Request \<Rightarrow> 's \<Rightarrow> indexerResource item_answer \<times> 's" where
  "v3_indexer_delete st = item_delete v3_style indexer_kind st"

subsection \<open>Download clients\<close>

record downloadClientResource =
  xd_ID :: int
  xd_Name :: string
  xd_Implementation :: string
  xd_Settings :: string
  xd_Enable :: bool
  xd_Priority :: int
  xd_RemoveCompletedDownloads :: bool
  xd_RemoveFailedDownloads :: bool
  xd_Added :: "int option"

record downloadClientInput =
  jd_Name :: string
  jd_Implementation :: string
  jd_Settings :: RawMessage
  jd_Enable :: bool
  jd_Priority :: int
  jd_RemoveCompletedDownloads :: bool
  jd_RemoveFailedDownloads :: bool

definition toDownloadClientResource :: "DownloadClientInstance \<Rightarrow> downloadClientResource" where
  "toDownloadClientResource x = \<lparr>xd_ID = di_ID x, xd_Name = di_Name x, xd_Implementation = di_Implementation x,
     xd_Settings = settings_or ''[]'' (di_Settings x), xd_Enable = di_Enable x, xd_Priority = di_Priority x, xd_RemoveCompletedDownloads = di_RemoveCompletedDownloads x, xd_RemoveFailedDownloads = di_RemoveFailedDownloads x,
     xd_Added = formatTime (di_Added x)\<rparr>"

definition downloadclient_kind :: "(DownloadClientInstance, downloadClientResource) item_kind" where
  "downloadclient_kind = \<lparr>ik_label = ''download client'', ik_missing = ErrNotFound ''downloadclient: not found'', ik_show = toDownloadClientResource\<rparr>"

definition downloadclient_input_fields :: "downloadClientInput raw_fields" where
  "downloadclient_input_fields = [(''name'', val_fld jd_Name jd_Name_update dec_string),
     (''implementation'', val_fld jd_Implementation jd_Implementation_update dec_string),
     (''fields'', raw_fld jd_Settings_update),
     (''enable'', val_fld jd_Enable jd_Enable_update dec_bool),
     (''priority'', val_fld jd_Priority jd_Priority_update dec_int64),
     (''removeCompletedDownloads'', val_fld jd_RemoveCompletedDownloads jd_RemoveCompletedDownloads_update dec_bool),
     (''removeFailedDownloads'', val_fld jd_RemoveFailedDownloads jd_RemoveFailedDownloads_update dec_bool)]"

definition read_downloadclient :: "Request \<Rightarrow> (string, downloadClientInput) result" where
  "read_downloadclient r = or_else ''Invalid request body'' (Decode_raw downloadclient_input_fields (rq_Body r) \<lparr>jd_Name = '''', jd_Implementation = '''',
     jd_Settings = None, jd_Enable = False, jd_Priority = 0, jd_RemoveCompletedDownloads = False, jd_RemoveFailedDownloads = False\<rparr>)"

definition new_downloadclient :: "downloadClientInput \<Rightarrow> DownloadClientInstance" where
  "new_downloadclient x = \<lparr>di_ID = 0, di_Name = jd_Name x, di_Implementation = jd_Implementation x,
     di_Settings = Some (settings_or ''{}'' (jd_Settings x)), di_Enable = jd_Enable x, di_Priority = jd_Priority x, di_RemoveCompletedDownloads = jd_RemoveCompletedDownloads x, di_RemoveFailedDownloads = jd_RemoveFailedDownloads x,
     di_Added = zero_time\<rparr>"

definition merge_downloadclient :: "downloadClientInput \<Rightarrow> DownloadClientInstance \<Rightarrow> DownloadClientInstance" where
  "merge_downloadclient x s = s\<lparr>
     di_Name := (if jd_Name x = '''' then di_Name s else jd_Name x),
     di_Settings := (if bytes_of (jd_Settings x) = '''' then di_Settings s else jd_Settings x),
     di_Enable := jd_Enable x,
     di_Priority := (if jd_Priority x > 0 then jd_Priority x else di_Priority s),
     di_RemoveCompletedDownloads := jd_RemoveCompletedDownloads x,
     di_RemoveFailedDownloads := jd_RemoveFailedDownloads x\<rparr>"

definition v6_downloadclient_list :: "('s, DownloadClientInstance) InstanceStore \<Rightarrow> dbenv \<Rightarrow> Request \<Rightarrow> 's \<Rightarrow> downloadClientResource item_answer \<times> 's" where
  "v6_downloadclient_list st = item_list v6_style downloadclient_kind st"

definition v6_downloadclient_create :: "('s, DownloadClientInstance) InstanceStore \<Rightarrow> dbenv \<Rightarrow> Request \<Rightarrow> 's \<Rightarrow> downloadClientResource item_answer \<times> 's" where
  "v6_downloadclient_create st = item_create v6_style downloadclient_kind st (\<lambda>r. map_sum id new_downloadclient (read_downloadclient r))"

definition v6_downloadclient_get :: "('s, DownloadClientInstance) InstanceStore \<Rightarrow> string \<Rightarrow> dbenv \<Rightarrow> Request \<Rightarrow> 's \<Rightarrow> downloadClientResource item_answer \<times> 's" where
  "v6_downloadclient_get st = item_get v6_style downloadclient_kind st"

definition v6_downloadclient_update :: "('s, DownloadClientInstance) InstanceStore \<Rightarrow> string \<Rightarrow> dbenv \<Rightarrow> Request \<Rightarrow> 's \<Rightarrow> downloadClientResource item_answer \<times> 's" where
  "v6_downloadclient_update st = item_merge v6_style downloadclient_kind st read_downloadclient merge_downloadclient"

definition v6_downloadclient_delete :: "('s, DownloadClientInstance) InstanceStore \<Rightarrow> string \<Rightarrow> dbenv \<Rightarrow> Request \<Rightarrow> 's \<Rightarrow> downloadClientResource item_answer \<times> 's" where
  "v6_downloadclient_delete st = item_delete v6_style downloadclient_kind st"

definition v3_downloadclient_list :: "('s, DownloadClientInstance) InstanceStore \<Rightarrow> dbenv \<Rightarrow> Request \<Rightarrow> 's \<Rightarrow> downloadClientResource item_answer \<times> 's" where
  "v3_downloadclient_list st = item_list v3_style downloadclient_kind st"

definition v3_downloadclient_create :: "('s, DownloadClientInstance) InstanceStore \<Rightarrow> dbenv \<Rightarrow> Request \<Rightarrow> 's \<Rightarrow> downloadClientResource item_answer \<times> 's" where
  "v3_downloadclient_create st = item_create v3_style downloadclient_kind st (\<lambda>r. map_sum id new_downloadclient (read_downloadclient r))"

definition v3_downloadclient_get :: "('s, DownloadClientInstance) InstanceStore \<Rightarrow> string \<Rightarrow> dbenv \<Rightarrow> Request \<Rightarrow> 's \<Rightarrow> downloadClientResource item_answer \<times> 's" where
  "v3_downloadclient_get st = item_get v3_style downloadclient_kind st"

definition v3_downloadclient_update :: "('s, DownloadClientInstance) InstanceStore \<Rightarrow> string \<Rightarrow> dbenv \<Rightarrow> Request \<Rightarrow> 's \<Rightarrow> downloadClientResource item_answer \<times> 's" where
  "v3_downloadclient_update st = item_merge v3_style downloadclient_kind st read_downloadclient merge_downloadclient"

definition v3_downloadclient_delete :: "('s, DownloadClientInstance) InstanceStore \<Rightarrow> string \<Rightarrow> dbenv \<Rightarrow> Request \<Rightarrow> 's \<Rightarrow> downloadClientResource item_answer \<times> 's" where
  "v3_downloadclient_delete st = item_delete v3_style downloadclient_kind st"

subsection \<open>Notifications\<close>

record notificationResource =
  xn_ID :: int
  xn_Name :: string
  xn_Implementation :: string
  xn_Settings :: string
  xn_OnGrab :: bool
  xn_OnDownload :: bool
  xn_OnHealthIssue :: bool
  xn_Tags :: string
  xn_Added :: "int option"

record notificationInput =
  jn_Name :: string
  jn_Implementation :: string
  jn_Settings :: RawMessage
  jn_OnGrab :: bool
  jn_OnDownload :: bool
  jn_OnHealthIssue :: bool
  jn_Tags :: RawMessage

definition toNotificationResource :: "NotificationInstance \<Rightarrow> notificationResource" where
  "toNotificationResource x = \<lparr>xn_ID = ni_ID x, xn_Name = ni_Name x, xn_Implementation = ni_Implementation x,
     xn_Settings = settings_or ''[]'' (ni_Settings x), xn_OnGrab = ni_OnGrab x, xn_OnDownload = ni_OnDownload x, xn_OnHealthIssue = ni_OnHealthIssue x,
     xn_Tags = settings_or ''[]'' (ni_Tags x), xn_Added = formatTime (ni_Added x)\<rparr>"

definition notification_kind :: "(NotificationInstance, notificationResource) item_kind" where
  "notification_kind = \<lparr>ik_label = ''notification'', ik_missing = ErrNotFound ''notification: not found'', ik_show = toNotificationResource\<rparr>"

definition notification_input_fields :: "notificationInput raw_fields" where
  "notification_input_fields = [(''name'', val_fld jn_Name jn_Name_update dec_string),
     (''implementation'', val_fld jn_Implementation jn_Implementation_update dec_string),
     (''fields'', raw_fld jn_Settings_update),
     (''onGrab'', val_fld jn_OnGrab jn_OnGrab_update dec_bool),
     (''onDownload'', val_fld jn_OnDownload jn_OnDownload_update dec_bool),
     (''onHealthIssue'', val_fld jn_OnHealthIssue jn_OnHealthIssue_update dec_bool),
     (''tags'', raw_fld jn_Tags_update)]"

definition read_notification :: "Request \<Rightarrow> (string, notificationInput) result" where
  "read_notification r = or_else ''Invalid request body'' (Decode_raw notification_input_fields (rq_Body r) \<lparr>jn_Name = '''', jn_Implementation = '''',
     jn_Settings = None, jn_OnGrab = False, jn_OnDownload = False, jn_OnHealthIssue = False, jn_Tags = None\<rparr>)"

definition new_notification :: "notificationInput \<Rightarrow> NotificationInstance" where
  "new_notification x = \<lparr>ni_ID = 0, ni_Name = jn_Name x, ni_Implementation = jn_Implementation x,
     ni_Settings = Some (settings_or ''{}'' (jn_Settings x)), ni_OnGrab = jn_OnGrab x, ni_OnDownload = jn_OnDownload x, ni_OnHealthIssue = jn_OnHealthIssue x,
     ni_Tags = jn_Tags x, ni_Added = zero_time\<rparr>"

definition merge_notification :: "notificationInput \<Rightarrow> NotificationInstance \<Rightarrow> NotificationInstance" where
  "merge_notification x s = s\<lparr>
     ni_Name := (if jn_Name x = '''' then ni_Name s else jn_Name x),
     ni_Settings := (if bytes_of (jn_Settings x) = '''' then ni_Settings s else jn_Settings x),
     ni_OnGrab := jn_OnGrab x,
     ni_OnDownload := jn_OnDownload x,
     ni_OnHealthIssue := jn_OnHealthIssue x,
     ni_Tags := (if bytes_of (jn_Tags x) = '''' then ni_Tags s else jn_Tags x)\<rparr>"

definition v6_notification_list :: "('s, NotificationInstance) InstanceStore \<Rightarrow> dbenv \<Rightarrow> Request \<Rightarrow> 's \<Rightarrow> notificationResource item_answer \<times> 's" where
  "v6_notification_list st = item_list v6_style notification_kind st"

definition v6_notification_create :: "('s, NotificationInstance) InstanceStore \<Rightarrow> dbenv \<Rightarrow> Request \<Rightarrow> 's \<Rightarrow> notificationResource item_answer \<times> 's" where
  "v6_notification_create st = item_create v6_style notification_kind st (\<lambda>r. map_sum id new_notification (read_notification r))"

definition v6_notification_get :: "('s, NotificationInstance) InstanceStore \<Rightarrow> string \<Rightarrow> dbenv \<Rightarrow> Request \<Rightarrow> 's \<Rightarrow> notificationResource item_answer \<times> 's" where
  "v6_notification_get st = item_get v6_style notification_kind st"

definition v6_notification_update :: "('s, NotificationInstance) InstanceStore \<Rightarrow> string \<Rightarrow> dbenv \<Rightarrow> Request \<Rightarrow> 's \<Rightarrow> notificationResource item_answer \<times> 's" where
  "v6_notification_update st = item_merge v6_style notification_kind st read_notification merge_notification"

definition v6_notification_delete :: "('s, NotificationInstance) InstanceStore \<Rightarrow> string \<Rightarrow> dbenv \<Rightarrow> Request \<Rightarrow> 's \<Rightarrow> notificationResource item_answer \<times> 's" where
  "v6_notification_delete st = item_delete v6_style notification_kind st"

definition v3_notification_list :: "('s, NotificationInstance) InstanceStore \<Rightarrow> dbenv \<Rightarrow> Request \<Rightarrow> 's \<Rightarrow> notificationResource item_answer \<times> 's" where
  "v3_notification_list st = item_list v3_style notification_kind st"

definition v3_notification_create :: "('s, NotificationInstance) InstanceStore \<Rightarrow> dbenv \<Rightarrow> Request \<Rightarrow> 's \<Rightarrow> notificationResource item_answer \<times> 's" where
  "v3_notification_create st = item_create v3_style notification_kind st (\<lambda>r. map_sum id new_notification (read_notification r))"

definition v3_notification_get :: "('s, NotificationInstance) InstanceStore \<Rightarrow> string \<Rightarrow> dbenv \<Rightarrow> Request \<Rightarrow> 's \<Rightarrow> notificationResource item_answer \<times> 's" where
  "v3_notification_get st = item_get v3_style notification_kind st"

definition v3_notification_update :: "('s, NotificationInstance) InstanceStore \<Rightarrow> string \<Rightarrow> dbenv \<Rightarrow> Request \<Rightarrow> 's \<Rightarrow> notificationResource item_answer \<times> 's" where
  "v3_notification_update st = item_merge v3_style notification_kind st read_notification merge_notification"

definition v3_notification_delete :: "('s, NotificationInstance) InstanceStore \<Rightarrow> string \<Rightarrow> dbenv \<Rightarrow> Request \<Rightarrow> 's \<Rightarrow> notificationResource item_answer \<times> 's" where
  "v3_notification_delete st = item_delete v3_style notification_kind st"

subsection \<open>Custom formats\<close>

record customFormatSpecField =
  cv_Name :: string
  cv_Value :: string

record customFormatSpecResource =
  cr_Name :: string
  cr_Implementation :: string
  cr_Negate :: bool
  cr_Required :: bool
  cr_Fields :: "customFormatSpecField list option"

record customFormatResource =
  cx_ID :: int
  cx_Name :: string
  cx_IncludeWhenRenaming :: bool
  cx_Specifications :: "customFormatSpecResource list"

definition toSpecResource :: "Specification \<Rightarrow> customFormatSpecResource" where
  "toSpecResource s = \<lparr>cr_Name = sp_Name s, cr_Implementation = sp_Implementation s, cr_Negate = sp_Negate s, cr_Required = sp_Required s,
     cr_Fields = Some [\<lparr>cv_Name = ''value'', cv_Value = sp_Value s\<rparr>]\<rparr>"

definition toCustomFormatResource :: "CustomFormat \<Rightarrow> customFormatResource" where
  "toCustomFormatResource cf = \<lparr>cx_ID = cf_ID cf, cx_Name = cf_Name cf, cx_IncludeWhenRenaming = cf_IncludeWhenRenaming cf,
     cx_Specifications = map toSpecResource (cf_Specifications cf)\<rparr>"

definition customformat_kind :: "(CustomFormat, customFormatResource) item_kind" where
  "customformat_kind = \<lparr>ik_label = ''custom format'', ik_missing = ErrNotFound ''customformats: not found'', ik_show = toCustomFormatResource\<rparr>"

record customFormatInput =
  ci_Name :: string
  ci_IncludeWhenRenaming :: bool
  ci_Specifications :: "customFormatSpecResource list option"

definition spec_field_fields :: "customFormatSpecField fields" where
  "spec_field_fields = [(''name'', fld cv_Name cv_Name_update dec_string), (''value'', fld cv_Value cv_Value_update dec_string)]"

definition spec_resource_fields :: "customFormatSpecResource fields" where
  "spec_resource_fields = [(''name'', fld cr_Name cr_Name_update dec_string), (''implementation'', fld cr_Implementation cr_Implementation_update dec_string),
     (''negate'', fld cr_Negate cr_Negate_update dec_bool), (''required'', fld cr_Required cr_Required_update dec_bool),
     (''fields'', fld cr_Fields cr_Fields_update (dec_slice (dec_struct spec_field_fields) \<lparr>cv_Name = '''', cv_Value = ''''\<rparr>))]"

definition customFormatInput_fields :: "customFormatInput fields" where
  "customFormatInput_fields = [(''name'', fld ci_Name ci_Name_update dec_string),
     (''includeCustomFormatWhenRenaming'', fld ci_IncludeWhenRenaming ci_IncludeWhenRenaming_update dec_bool),
     (''specifications'', fld ci_Specifications ci_Specifications_update (dec_slice (dec_struct spec_resource_fields)
        \<lparr>cr_Name = '''', cr_Implementation = '''', cr_Negate = False, cr_Required = False, cr_Fields = None\<rparr>))]"

definition fromSpecResource :: "customFormatSpecResource \<Rightarrow> Specification" where
  "fromSpecResource s = \<lparr>sp_Name = cr_Name s, sp_Implementation = cr_Implementation s, sp_Negate = cr_Negate s, sp_Required = cr_Required s,
     sp_Value = (case List.find (\<lambda>f. cv_Name f = ''value'') (case cr_Fields s of None \<Rightarrow> [] | Some fs \<Rightarrow> fs) of None \<Rightarrow> '''' | Some f \<Rightarrow> cv_Value f)\<rparr>"

definition fromCustomFormatInput :: "customFormatInput \<Rightarrow> CustomFormat" where
  "fromCustomFormatInput x = \<lparr>cf_ID = 0, cf_Name = ci_Name x, cf_IncludeWhenRenaming = ci_IncludeWhenRenaming x,
     cf_Specifications = map fromSpecResource (case ci_Specifications x of None \<Rightarrow> [] | Some ss \<Rightarrow> ss)\<rparr>"

definition read_customformat :: "Request \<Rightarrow> (string, CustomFormat) result" where
  "read_customformat r = (case Decode (dec_struct customFormatInput_fields) (rq_Body r)
       \<lparr>ci_Name = '''', ci_IncludeWhenRenaming = False, ci_Specifications = None\<rparr> of
     Inl _ \<Rightarrow> Inl ''Invalid request body''
   | Inr x \<Rightarrow> if ci_Name x = '''' then Inl ''Name is required'' else Inr (fromCustomFormatInput x))"

definition v6_customformat_list :: "('s, CustomFormat) InstanceStore \<Rightarrow> dbenv \<Rightarrow> Request \<Rightarrow> 's \<Rightarrow> customFormatResource item_answer \<times> 's" where
  "v6_customformat_list st = item_list v6_style customformat_kind st"

definition v6_customformat_get :: "('s, CustomFormat) InstanceStore \<Rightarrow> string \<Rightarrow> dbenv \<Rightarrow> Request \<Rightarrow> 's \<Rightarrow> customFormatResource item_answer \<times> 's" where
  "v6_customformat_get st = item_get v6_style customformat_kind st"

definition v6_customformat_create :: "('s, CustomFormat) InstanceStore \<Rightarrow> dbenv \<Rightarrow> Request \<Rightarrow> 's \<Rightarrow> customFormatResource item_answer \<times> 's" where
  "v6_customformat_create st = item_create v6_style customformat_kind st read_customformat"

definition v6_customformat_update :: "('s, CustomFormat) InstanceStore \<Rightarrow> string \<Rightarrow> dbenv \<Rightarrow> Request \<Rightarrow> 's \<Rightarrow> customFormatResource item_answer \<times> 's" where
  "v6_customformat_update st idp e r = with_id v6_style r idp (\<lambda>i. with_body v6_style r (read_customformat r) (\<lambda>x.
     found v6_style customformat_kind r i (is_Update st e (x\<lparr>cf_ID := i\<rparr>)) (\<lambda>_.
       managed v6_style r (is_GetByID st e i) (\<lambda>y s. (Json 200 (One (toCustomFormatResource y)), s)))))"

definition v6_customformat_delete :: "('s, CustomFormat) InstanceStore \<Rightarrow> string \<Rightarrow> dbenv \<Rightarrow> Request \<Rightarrow> 's \<Rightarrow> customFormatResource item_answer \<times> 's" where
  "v6_customformat_delete st = item_delete v6_style customformat_kind st"

definition v3_customformat_list :: "('s, CustomFormat) InstanceStore \<Rightarrow> dbenv \<Rightarrow> Request \<Rightarrow> 's \<Rightarrow> customFormatResource item_answer \<times> 's" where
  "v3_customformat_list st = item_list v3_style customformat_kind st"

definition v3_customformat_get :: "('s, CustomFormat) InstanceStore \<Rightarrow> string \<Rightarrow> dbenv \<Rightarrow> Request \<Rightarrow> 's \<Rightarrow> customFormatResource item_answer \<times> 's" where
  "v3_customformat_get st = item_get v3_style customformat_kind st"

subsection \<open>Quality profiles\<close>

record qualityInProfile =
  qn_ID :: int
  qn_Name :: string
  qn_Source :: string
  qn_Resolution :: string

record qualityProfileItemResource =
  qe_Quality :: qualityInProfile
  qe_Items :: "json list"
  qe_Allowed :: bool

record qualityProfileResource =
  qr_ID :: int
  qr_Name :: string
  qr_UpgradeAllowed :: bool
  qr_Cutoff :: int
  qr_Items :: "qualityProfileItemResource list"
  qr_MinFormatScore :: int
  qr_CutoffFormatScore :: int
  qr_FormatItems :: "json list"

definition toQualityProfileResource :: "QualityProfile \<Rightarrow> qualityProfileResource" where
  "toQualityProfileResource p = \<lparr>qr_ID = qp_ID p, qr_Name = qp_Name p, qr_UpgradeAllowed = qp_UpgradeAllowed p, qr_Cutoff = qp_Cutoff p,
     qr_Items = map (\<lambda>i. \<lparr>qe_Quality = \<lparr>qn_ID = qi_QualityID i, qn_Name = '''', qn_Source = '''', qn_Resolution = ''''\<rparr>, qe_Items = [],
       qe_Allowed = qi_Allowed i\<rparr>) (qp_Items p),
     qr_MinFormatScore = qp_MinFormatScore p, qr_CutoffFormatScore = qp_CutoffFormatScore p, qr_FormatItems = []\<rparr>"

definition qualityprofile_kind :: "(QualityProfile, qualityProfileResource) item_kind" where
  "qualityprofile_kind = \<lparr>ik_label = ''quality profile'', ik_missing = ErrNotFound ''profiles: not found'', ik_show = toQualityProfileResource\<rparr>"

record qualityItemInput =
  ki_QualityID :: int
  ki_Allowed :: bool

record qualityProfileInput =
  kp_Name :: string
  kp_UpgradeAllowed :: bool
  kp_Cutoff :: int
  kp_MinFormatScore :: int
  kp_CutoffFormatScore :: int
  kp_Items :: "qualityItemInput list option"

definition qualityItemInput_fields :: "qualityItemInput fields" where
  "qualityItemInput_fields = [(''qualityId'', fld ki_QualityID ki_QualityID_update dec_int64), (''allowed'', fld ki_Allowed ki_Allowed_update dec_bool)]"

definition qualityProfileInput_fields :: "qualityProfileInput fields" where
  "qualityProfileInput_fields = [(''name'', fld kp_Name kp_Name_update dec_string), (''upgradeAllowed'', fld kp_UpgradeAllowed kp_UpgradeAllowed_update dec_bool),
     (''cutoff'', fld kp_Cutoff kp_Cutoff_update dec_int64), (''minFormatScore'', fld kp_MinFormatScore kp_MinFormatScore_update dec_int64),
     (''cutoffFormatScore'', fld kp_CutoffFormatScore kp_CutoffFormatScore_update dec_int64),
     (''items'', fld kp_Items kp_Items_update (dec_slice (dec_struct qualityItemInput_fields) \<lparr>ki_QualityID = 0, ki_Allowed = False\<rparr>))]"

definition read_qualityprofile :: "Request \<Rightarrow> (string, qualityProfileInput) result" where
  "read_qualityprofile r = or_else ''Invalid request body'' (Decode (dec_struct qualityProfileInput_fields) (rq_Body r)
     \<lparr>kp_Name = '''', kp_UpgradeAllowed = False, kp_Cutoff = 0, kp_MinFormatScore = 0, kp_CutoffFormatScore = 0, kp_Items = None\<rparr>)"

definition new_qualityprofile :: "qualityProfileInput \<Rightarrow> QualityProfile" where
  "new_qualityprofile x = \<lparr>qp_ID = 0, qp_Name = kp_Name x, qp_UpgradeAllowed = kp_UpgradeAllowed x, qp_Cutoff = kp_Cutoff x,
     qp_Items = map (\<lambda>i. \<lparr>qi_QualityID = ki_QualityID i, qi_Allowed = ki_Allowed i\<rparr>) (case kp_Items x of None \<Rightarrow> [] | Some is \<Rightarrow> is),
     qp_MinFormatScore = kp_MinFormatScore x, qp_CutoffFormatScore = kp_CutoffFormatScore x, qp_FormatItems = []\<rparr>"

definition merge_qualityprofile :: "qualityProfileInput \<Rightarrow> QualityProfile \<Rightarrow> QualityProfile" where
  "merge_qualityprofile x p = p\<lparr>
     qp_Name := (if kp_Name x = '''' then qp_Name p else kp_Name x),
     qp_UpgradeAllowed := kp_UpgradeAllowed x,
     qp_Cutoff := (if kp_Cutoff x > 0 then kp_Cutoff x else qp_Cutoff p),
     qp_MinFormatScore := kp_MinFormatScore x,
     qp_CutoffFormatScore := kp_CutoffFormatScore x\<rparr>"

definition v6_qualityprofile_list :: "('s, QualityProfile) InstanceStore \<Rightarrow> dbenv \<Rightarrow> Request \<Rightarrow> 's \<Rightarrow> qualityProfileResource Page v6_answer \<times> 's" where
  "v6_qualityprofile_list st e r s = (case is_List st e s of
     (Inl _, s1) \<Rightarrow> (internal_error r, s1)
   | (Inr xs, s1) \<Rightarrow> (Json 200 \<lparr>pg_Data = map toQualityProfileResource xs, pg_Limit = int (length xs), pg_NextCursor = '''', pg_HasMore = False\<rparr>, s1))"

definition v6_qualityprofile_get :: "('s, QualityProfile) InstanceStore \<Rightarrow> string \<Rightarrow> dbenv \<Rightarrow> Request \<Rightarrow> 's \<Rightarrow> qualityProfileResource item_answer \<times> 's" where
  "v6_qualityprofile_get st = item_get v6_style qualityprofile_kind st"

definition v6_qualityprofile_create :: "('s, QualityProfile) InstanceStore \<Rightarrow> dbenv \<Rightarrow> Request \<Rightarrow> 's \<Rightarrow> qualityProfileResource item_answer \<times> 's" where
  "v6_qualityprofile_create st = item_create v6_style qualityprofile_kind st (\<lambda>r. map_sum id new_qualityprofile (read_qualityprofile r))"

definition v6_qualityprofile_update :: "('s, QualityProfile) InstanceStore \<Rightarrow> string \<Rightarrow> dbenv \<Rightarrow> Request \<Rightarrow> 's \<Rightarrow> qualityProfileResource item_answer \<times> 's" where
  "v6_qualityprofile_update st = item_merge v6_style qualityprofile_kind st read_qualityprofile merge_qualityprofile"

definition v6_qualityprofile_delete :: "('s, QualityProfile) InstanceStore \<Rightarrow> string \<Rightarrow> dbenv \<Rightarrow> Request \<Rightarrow> 's \<Rightarrow> qualityProfileResource item_answer \<times> 's" where
  "v6_qualityprofile_delete st = item_delete v6_style qualityprofile_kind st"

definition v3_qualityprofile_list :: "('s, QualityProfile) InstanceStore \<Rightarrow> dbenv \<Rightarrow> Request \<Rightarrow> 's \<Rightarrow> qualityProfileResource item_answer \<times> 's" where
  "v3_qualityprofile_list st = item_list v3_style qualityprofile_kind st"

definition v3_qualityprofile_get :: "('s, QualityProfile) InstanceStore \<Rightarrow> string \<Rightarrow> dbenv \<Rightarrow> Request \<Rightarrow> 's \<Rightarrow> qualityProfileResource item_answer \<times> 's" where
  "v3_qualityprofile_get st = item_get v3_style qualityprofile_kind st"

subsection \<open>Delay profiles\<close>

record delayProfileResource =
  xp_ID :: int
  xp_EnableUsenet :: bool
  xp_EnableTorrent :: bool
  xp_PreferredProtocol :: string
  xp_UsenetDelay :: int
  xp_TorrentDelay :: int
  xp_Order :: int
  xp_BypassIfHighestQuality :: bool
  xp_BypassIfAboveCustomFormatScore :: bool
  xp_MinimumCustomFormatScore :: int
  xp_Tags :: "int list option"

definition toDelayProfileResource :: "DelayProfile \<Rightarrow> delayProfileResource" where
  "toDelayProfileResource p = \<lparr>xp_ID = dp_ID p, xp_EnableUsenet = dp_EnableUsenet p, xp_EnableTorrent = dp_EnableTorrent p,
     xp_PreferredProtocol = dp_PreferredProtocol p, xp_UsenetDelay = dp_UsenetDelay p, xp_TorrentDelay = dp_TorrentDelay p, xp_Order = dp_Order p,
     xp_BypassIfHighestQuality = dp_BypassIfHighestQuality p, xp_BypassIfAboveCustomFormatScore = dp_BypassIfAboveCustomFormatScore p,
     xp_MinimumCustomFormatScore = dp_MinimumCustomFormatScore p, xp_Tags = Some (dp_Tags p)\<rparr>"

definition slice_of :: "'a list option \<Rightarrow> 'a list" where
  "slice_of xs = (case xs of None \<Rightarrow> [] | Some ys \<Rightarrow> ys)"

definition fromDelayProfileResource :: "delayProfileResource \<Rightarrow> DelayProfile" where
  "fromDelayProfileResource b = \<lparr>dp_ID = xp_ID b, dp_EnableUsenet = xp_EnableUsenet b, dp_EnableTorrent = xp_EnableTorrent b,
     dp_PreferredProtocol = xp_PreferredProtocol b, dp_UsenetDelay = xp_UsenetDelay b, dp_TorrentDelay = xp_TorrentDelay b, dp_Order = xp_Order b,
     dp_BypassIfHighestQuality = xp_BypassIfHighestQuality b, dp_BypassIfAboveCustomFormatScore = xp_BypassIfAboveCustomFormatScore b,
     dp_MinimumCustomFormatScore = xp_MinimumCustomFormatScore b, dp_Tags = slice_of (xp_Tags b)\<rparr>"

definition delayprofile_kind :: "(DelayProfile, delayProfileResource) item_kind" where
  "delayprofile_kind = \<lparr>ik_label = '''', ik_missing = ErrNotFound ''delayprofile: not found'', ik_show = toDelayProfileResource\<rparr>"

definition delayProfile_fields :: "delayProfileResource fields" where
  "delayProfile_fields = [(''id'', fld xp_ID xp_ID_update dec_int64), (''enableUsenet'', fld xp_EnableUsenet xp_EnableUsenet_update dec_bool),
     (''enableTorrent'', fld xp_EnableTorrent xp_EnableTorrent_update dec_bool),
     (''preferredProtocol'', fld xp_PreferredProtocol xp_PreferredProtocol_update dec_string),
     (''usenetDelay'', fld xp_UsenetDelay xp_UsenetDelay_update dec_int64), (''torrentDelay'', fld xp_TorrentDelay xp_TorrentDelay_update dec_int64),
     (''order'', fld xp_Order xp_Order_update dec_int64),
     (''bypassIfHighestQuality'', fld xp_BypassIfHighestQuality xp_BypassIfHighestQuality_update dec_bool),
     (''bypassIfAboveCustomFormatScore'', fld xp_BypassIfAboveCustomFormatScore xp_BypassIfAboveCustomFormatScore_update dec_bool),
     (''minimumCustomFormatScore'', fld xp_MinimumCustomFormatScore xp_MinimumCustomFormatScore_update dec_int64),
     (''tags'', fld xp_Tags xp_Tags_update (dec_slice dec_int64 0))]"

definition read_delayprofile :: "Request \<Rightarrow> (string, delayProfileResource) result" where
  "read_delayprofile r = or_else ''Invalid JSON'' (Decode (dec_struct delayProfile_fields) (rq_Body r) \<lparr>xp_ID = 0, xp_EnableUsenet = False,
     xp_EnableTorrent = False, xp_PreferredProtocol = '''', xp_UsenetDelay = 0, xp_TorrentDelay = 0, xp_Order = 0, xp_BypassIfHighestQuality = False,
     xp_BypassIfAboveCustomFormatScore = False, xp_MinimumCustomFormatScore = 0, xp_Tags = None\<rparr>)"

definition delayprofile_list :: "('s, DelayProfile) InstanceStore \<Rightarrow> dbenv \<Rightarrow> Request \<Rightarrow> 's \<Rightarrow> delayProfileResource item_answer \<times> 's" where
  "delayprofile_list st = item_list v3_style delayprofile_kind st"

definition delayprofile_get :: "('s, DelayProfile) InstanceStore \<Rightarrow> string \<Rightarrow> dbenv \<Rightarrow> Request \<Rightarrow> 's \<Rightarrow> delayProfileResource item_answer \<times> 's" where
  "delayprofile_get st = item_get v3_style delayprofile_kind st"

definition delayprofile_create :: "('s, DelayProfile) InstanceStore \<Rightarrow> dbenv \<Rightarrow> Request \<Rightarrow> 's \<Rightarrow> delayProfileResource item_answer \<times> 's" where
  "delayprofile_create st = item_create v3_style delayprofile_kind st (\<lambda>r. map_sum id fromDelayProfileResource (read_delayprofile r))"

definition delayprofile_update :: "('s, DelayProfile) InstanceStore \<Rightarrow> string \<Rightarrow> dbenv \<Rightarrow> Request \<Rightarrow> 's \<Rightarrow> delayProfileResource item_answer \<times> 's" where
  "delayprofile_update st = item_replace v3_style st
     (\<lambda>i r. map_sum id (\<lambda>b. (fromDelayProfileResource (b\<lparr>xp_ID := i\<rparr>), b\<lparr>xp_ID := i\<rparr>)) (read_delayprofile r))"

definition delayprofile_delete :: "('s, DelayProfile) InstanceStore \<Rightarrow> string \<Rightarrow> dbenv \<Rightarrow> Request \<Rightarrow> 's \<Rightarrow> delayProfileResource item_answer \<times> 's" where
  "delayprofile_delete st = item_remove v3_style st"

subsection \<open>Release profiles\<close>

record releaseProfileResource =
  xr_ID :: int
  xr_Name :: string
  xr_Enabled :: bool
  xr_Required :: "string list option"
  xr_Ignored :: "string list option"
  xr_IndexerID :: int
  xr_Tags :: "int list option"

definition toReleaseProfileResource :: "ReleaseProfile \<Rightarrow> releaseProfileResource" where
  "toReleaseProfileResource p = \<lparr>xr_ID = rp_ID p, xr_Name = rp_Name p, xr_Enabled = rp_Enabled p, xr_Required = Some (rp_Required p),
     xr_Ignored = Some (rp_Ignored p), xr_IndexerID = rp_IndexerID p, xr_Tags = Some (rp_Tags p)\<rparr>"

definition releaseprofile_kind :: "(ReleaseProfile, releaseProfileResource) item_kind" where
  "releaseprofile_kind = \<lparr>ik_label = '''', ik_missing = ErrNotFound ''releaseprofile: not found'', ik_show = toReleaseProfileResource\<rparr>"

definition releaseProfile_fields :: "releaseProfileResource fields" where
  "releaseProfile_fields = [(''id'', fld xr_ID xr_ID_update dec_int64), (''name'', fld xr_Name xr_Name_update dec_string),
     (''enabled'', fld xr_Enabled xr_Enabled_update dec_bool), (''required'', fld xr_Required xr_Required_update (dec_slice dec_string '''')),
     (''ignored'', fld xr_Ignored xr_Ignored_update (dec_slice dec_string '''')), (''indexerId'', fld xr_IndexerID xr_IndexerID_update dec_int64),
     (''tags'', fld xr_Tags xr_Tags_update (dec_slice dec_int64 0))]"

definition read_releaseprofile :: "Request \<Rightarrow> (string, releaseProfileResource) result" where
  "read_releaseprofile r = or_else ''Invalid JSON'' (Decode (dec_struct releaseProfile_fields) (rq_Body r) \<lparr>xr_ID = 0, xr_Name = '''', xr_Enabled = False,
     xr_Required = None, xr_Ignored = None, xr_IndexerID = 0, xr_Tags = None\<rparr>)"

definition release_from :: "int \<Rightarrow> releaseProfileResource \<Rightarrow> ReleaseProfile" where
  "release_from i b = \<lparr>rp_ID = i, rp_Name = xr_Name b, rp_Enabled = xr_Enabled b, rp_Required = slice_of (xr_Required b),
     rp_Ignored = slice_of (xr_Ignored b), rp_IndexerID = xr_IndexerID b, rp_Tags = slice_of (xr_Tags b)\<rparr>"

definition releaseprofile_list :: "('s, ReleaseProfile) InstanceStore \<Rightarrow> dbenv \<Rightarrow> Request \<Rightarrow> 's \<Rightarrow> releaseProfileResource item_answer \<times> 's" where
  "releaseprofile_list st = item_list v3_style releaseprofile_kind st"

definition releaseprofile_get :: "('s, ReleaseProfile) InstanceStore \<Rightarrow> string \<Rightarrow> dbenv \<Rightarrow> Request \<Rightarrow> 's \<Rightarrow> releaseProfileResource item_answer \<times> 's" where
  "releaseprofile_get st = item_get v3_style releaseprofile_kind st"

definition releaseprofile_create :: "('s, ReleaseProfile) InstanceStore \<Rightarrow> dbenv \<Rightarrow> Request \<Rightarrow> 's \<Rightarrow> releaseProfileResource item_answer \<times> 's" where
  "releaseprofile_create st = item_create v3_style releaseprofile_kind st (\<lambda>r. map_sum id (release_from 0) (read_releaseprofile r))"

definition releaseprofile_update :: "('s, ReleaseProfile) InstanceStore \<Rightarrow> string \<Rightarrow> dbenv \<Rightarrow> Request \<Rightarrow> 's \<Rightarrow> releaseProfileResource item_answer \<times> 's" where
  "releaseprofile_update st = item_replace v3_style st (\<lambda>i r. map_sum id (\<lambda>b. (release_from i b, b\<lparr>xr_ID := i\<rparr>)) (read_releaseprofile r))"

definition releaseprofile_delete :: "('s, ReleaseProfile) InstanceStore \<Rightarrow> string \<Rightarrow> dbenv \<Rightarrow> Request \<Rightarrow> 's \<Rightarrow> releaseProfileResource item_answer \<times> 's" where
  "releaseprofile_delete st = item_remove v3_style st"

subsection \<open>Remote path mappings\<close>

record remotePathMappingResource =
  xm_ID :: int
  xm_Host :: string
  xm_RemotePath :: string
  xm_LocalPath :: string

definition toRemotePathMappingResource :: "RemotePathMapping \<Rightarrow> remotePathMappingResource" where
  "toRemotePathMappingResource m = \<lparr>xm_ID = rm_ID m, xm_Host = rm_Host m, xm_RemotePath = rm_RemotePath m, xm_LocalPath = rm_LocalPath m\<rparr>"

definition mapping_kind :: "(RemotePathMapping, remotePathMappingResource) item_kind" where
  "mapping_kind = \<lparr>ik_label = '''', ik_missing = ErrNotFound ''remotepathmapping: not found'', ik_show = toRemotePathMappingResource\<rparr>"

definition mapping_fields :: "remotePathMappingResource fields" where
  "mapping_fields = [(''id'', fld xm_ID xm_ID_update dec_int64), (''host'', fld xm_Host xm_Host_update dec_string),
     (''remotePath'', fld xm_RemotePath xm_RemotePath_update dec_string), (''localPath'', fld xm_LocalPath xm_LocalPath_update dec_string)]"

definition read_mapping :: "Request \<Rightarrow> (string, remotePathMappingResource) result" where
  "read_mapping r = or_else ''Invalid JSON'' (Decode (dec_struct mapping_fields) (rq_Body r)
     \<lparr>xm_ID = 0, xm_Host = '''', xm_RemotePath = '''', xm_LocalPath = ''''\<rparr>)"

definition mapping_from :: "int \<Rightarrow> remotePathMappingResource \<Rightarrow> RemotePathMapping" where
  "mapping_from i b = \<lparr>rm_ID = i, rm_Host = xm_Host b, rm_RemotePath = xm_RemotePath b, rm_LocalPath = xm_LocalPath b\<rparr>"

definition mapping_complete :: "remotePathMappingResource \<Rightarrow> (string, RemotePathMapping) result" where
  "mapping_complete b = (if xm_Host b = '''' \<or> xm_RemotePath b = '''' \<or> xm_LocalPath b = ''''
     then Inl ''host, remotePath, and localPath are required'' else Inr (mapping_from 0 b))"

definition mapping_list :: "('s, RemotePathMapping) InstanceStore \<Rightarrow> dbenv \<Rightarrow> Request \<Rightarrow> 's \<Rightarrow> remotePathMappingResource item_answer \<times> 's" where
  "mapping_list st = item_list v3_style mapping_kind st"

definition mapping_get :: "('s, RemotePathMapping) InstanceStore \<Rightarrow> string \<Rightarrow> dbenv \<Rightarrow> Request \<Rightarrow> 's \<Rightarrow> remotePathMappingResource item_answer \<times> 's" where
  "mapping_get st = item_get v3_style mapping_kind st"

definition mapping_create :: "('s, RemotePathMapping) InstanceStore \<Rightarrow> dbenv \<Rightarrow> Request \<Rightarrow> 's \<Rightarrow> remotePathMappingResource item_answer \<times> 's" where
  "mapping_create st = item_create v3_style mapping_kind st (\<lambda>r. bindR (read_mapping r) mapping_complete)"

definition mapping_update :: "('s, RemotePathMapping) InstanceStore \<Rightarrow> string \<Rightarrow> dbenv \<Rightarrow> Request \<Rightarrow> 's \<Rightarrow> remotePathMappingResource item_answer \<times> 's" where
  "mapping_update st = item_replace v3_style st
     (\<lambda>i r. map_sum id (\<lambda>b. (mapping_from i b, toRemotePathMappingResource (mapping_from i b))) (read_mapping r))"

definition mapping_delete :: "('s, RemotePathMapping) InstanceStore \<Rightarrow> string \<Rightarrow> dbenv \<Rightarrow> Request \<Rightarrow> 's \<Rightarrow> remotePathMappingResource item_answer \<times> 's" where
  "mapping_delete st = item_remove v3_style st"


subsection \<open>Raw members and values\<close>

text \<open>Leaving out the texts, a body has the members the parser finds; a body without raw members decodes as usual.\<close>

lemma map_first_members: "map_option (apfst (map g)) (map_option (apfst ((#) m)) x) = map_option (apfst ((#) (g m))) (map_option (apfst (map g)) x)"
  by (cases x) (auto simp: apfst_def map_prod_def)

lemma raw_members_values: "map_option (apfst (map (\<lambda>(k, v, t). (k, v)))) (raw_members d s) = parse_members d s"
proof (induction d s rule: raw_members.induct)
  case (1 d s)
  then show ?case
    by (subst raw_members.simps, subst parse_members.simps)
      (simp add: map_first_members split: list.split option.split)
qed

lemma raw_field_for_values: "raw_field_for (map (\<lambda>(k, f). (k, \<lambda>j t. f j)) fs) k = map_option (\<lambda>f j t. f j) (field_for fs k)"
proof -
  have "List.find (\<lambda>(n, _). foldName n = foldName k) (map (\<lambda>(k, f). (k, \<lambda>j t. f j)) fs)
      = map_option (\<lambda>(k, f). (k, \<lambda>j t. f j)) (List.find (\<lambda>(n, _). foldName n = foldName k) fs)"
    by (induction fs) auto
  moreover have "map_of (map (\<lambda>(k, f). (k, \<lambda>j (t :: string). f j)) fs) k = map_option (\<lambda>f j t. f j) (map_of fs k)"
    by (induction fs) auto
  ultimately show ?thesis
    by (cases "List.find (\<lambda>(n, _). foldName n = foldName k) fs")
      (auto simp: raw_field_for_def field_for_def split: option.splits)
qed

lemma dec_raw_values: "dec_raw (map (\<lambda>(k, f). (k, \<lambda>j t. f j)) fs) ms r = dec_members fs (map (\<lambda>(k, v, t). (k, v)) ms) r"
proof (induction ms arbitrary: r)
  case (Cons m ms)
  obtain k j t where m: "m = (k, j, t)" by (cases m)
  have "(case raw_field_for (map (\<lambda>(k, f). (k, \<lambda>j t. f j)) fs) k of None \<Rightarrow> Inr r | Some f \<Rightarrow> f j t r)
      = (case field_for fs k of None \<Rightarrow> Inr r | Some f \<Rightarrow> f j r)"
    by (simp add: raw_field_for_values split: option.split)
  moreover have "dec_raw (map (\<lambda>(k, f). (k, \<lambda>j t. f j)) fs) ms = dec_members fs (map (\<lambda>(k, v, t). (k, v)) ms)"
    using Cons by (rule ext)
  ultimately show ?case by (simp add: m)
qed simp

lemma Decode_raw_values: "Decode_raw (map (\<lambda>(k, f). (k, \<lambda>j t. f j)) fs) body x = Decode (dec_struct fs) body x"
proof (cases "parse_value maxNestingDepth body")
  case (Some p)
  obtain v rest where p: "p = (v, rest)" by (cases p)
  show ?thesis
  proof (cases v)
    case (JObj ms)
    show ?thesis
    proof (cases ms)
      case (Cons m ms')
      obtain c cs where s: "skip_ws body = c # cs" using Some by (cases "skip_ws body") (auto simp: parse_value.simps)
      have "parse_members (maxNestingDepth - 1) cs = Some (ms, rest)"
        using Some p JObj Cons s by (subst (asm) parse_value.simps) (auto split: if_splits)
      then obtain xs where "raw_members (maxNestingDepth - 1) cs = Some (xs, rest)" "map (\<lambda>(k, v, t). (k, v)) xs = ms"
        using raw_members_values [of "maxNestingDepth - 1" cs] by auto
      then show ?thesis using Some p JObj Cons s by (simp add: Decode_raw_def Decode_def dec_struct_def dec_raw_values)
    qed (use Some p JObj in \<open>simp add: Decode_raw_def Decode_def dec_struct_def\<close>)
  qed (use Some p in \<open>simp_all add: Decode_raw_def Decode_def dec_struct_def\<close>)
qed (simp add: Decode_raw_def Decode_def)

subsection \<open>The handlers over an ideal store\<close>

text \<open>The specification of a store as a store: its state is the shelf.\<close>

definition item_or :: "store_error \<Rightarrow> 'a crud_out \<Rightarrow> (store_error, 'a) result" where
  "item_or err x = (case x of Item y \<Rightarrow> Inr y | _ \<Rightarrow> Inl err)"

definition items_or :: "store_error \<Rightarrow> 'a crud_out \<Rightarrow> (store_error, 'a list) result" where
  "items_or err x = (case x of Items ys \<Rightarrow> Inr ys | _ \<Rightarrow> Inl err)"

definition done_or :: "store_error \<Rightarrow> 'a crud_out \<Rightarrow> (store_error, unit) result" where
  "done_or err x = (case x of Done \<Rightarrow> Inr () | _ \<Rightarrow> Inl err)"

definition spec_store :: "('a, 'k::linorder) crud_spec \<Rightarrow> store_error \<Rightarrow> ('a shelf, 'a) InstanceStore" where
  "spec_store sp missing = \<lparr>
     is_Create = (\<lambda>e x h. apfst (item_or (DbError '''')) (spec_do sp (env_now e) (OpCreate x) h)),
     is_GetByID = (\<lambda>e i h. apfst (item_or missing) (spec_do sp (env_now e) (OpGet i) h)),
     is_List = (\<lambda>e h. apfst (items_or (DbError '''')) (spec_do sp (env_now e) OpList h)),
     is_Update = (\<lambda>e x h. apfst (done_or (DbError '''')) (spec_do sp (env_now e) (OpUpdate x) h)),
     is_Delete = (\<lambda>e i h. apfst (done_or (DbError '''')) (spec_do sp (env_now e) (OpDelete i) h))\<rparr>"

text \<open>Two results that a handler cannot tell apart.\<close>

definition like_result :: "(store_error \<Rightarrow> bool) \<Rightarrow> (store_error, 'a) result \<Rightarrow> (store_error, 'a) result \<Rightarrow> bool" where
  "like_result p a b \<longleftrightarrow> (case (a, b) of (Inr x, Inr y) \<Rightarrow> x = y | (Inl x, Inl y) \<Rightarrow> p x = p y | _ \<Rightarrow> False)"

lemma like_result_cases:
  assumes "like_result p a b"
  obtains x where "a = Inr x" "b = Inr x" | x y where "a = Inl x" "b = Inl y" "p x = p y"
  using assms by (cases a; cases b) (auto simp: like_result_def)

abbreviation sim :: "('s \<Rightarrow> 'h \<Rightarrow> bool) \<Rightarrow> ('s \<Rightarrow> 'a \<times> 's) \<Rightarrow> ('h \<Rightarrow> 'a \<times> 'h) \<Rightarrow> bool" where
  "sim R \<equiv> rel_fun R (rel_prod (=) R)"

abbreviation sim_act :: "(store_error \<Rightarrow> bool) \<Rightarrow> ('s \<Rightarrow> 'h \<Rightarrow> bool) \<Rightarrow> ('s, 'a) act \<Rightarrow> ('h, 'a) act \<Rightarrow> bool" where
  "sim_act p R \<equiv> rel_fun R (rel_prod (like_result p) R)"

named_theorems sim_intros

lemma with_id_sim [sim_intros]: "(\<And>i. sim R (k i) (k' i)) \<Longrightarrow> sim R (with_id style r idp k) (with_id style r idp k')"
  by (auto simp: with_id_def rel_fun_def split: sum.split)

lemma with_body_sim [sim_intros]: "(\<And>x. sim R (k x) (k' x)) \<Longrightarrow> sim R (with_body style r body k) (with_body style r body k')"
  by (auto simp: with_body_def rel_fun_def split: sum.split)

lemma answer_sim [sim_intros]: "sim R (\<lambda>s. (a, s)) (\<lambda>s. (a, s))"
  by (simp add: rel_fun_def)

lemma found_sim [sim_intros]:
  assumes "sim_act (\<lambda>x. error_is x (ik_missing kind)) R m n" "\<And>x. sim R (k x) (k' x)"
  shows "sim R (found style kind r i m k) (found style kind r i n k')"
proof (rule rel_funI)
  fix s h assume R: "R s h"
  obtain a s1 b h1 where m: "m s = (a, s1)" "n h = (b, h1)" by (cases "m s", cases "n h")
  then have ab: "like_result (\<lambda>x. error_is x (ik_missing kind)) a b" "R s1 h1" using rel_funD [OF assms(1) R] by simp_all
  from ab(1) show "rel_prod (=) R (found style kind r i m k s) (found style kind r i n k' h)"
    by (rule like_result_cases) (use m ab(2) rel_funD [OF assms(2)] in \<open>auto simp: found_def\<close>)
qed

lemma managed_sim [sim_intros]:
  assumes "sim_act (\<lambda>_. True) R m n" "\<And>x. sim R (k x) (k' x)"
  shows "sim R (managed style r m k) (managed style r n k')"
proof (rule rel_funI)
  fix s h assume R: "R s h"
  obtain a s1 b h1 where m: "m s = (a, s1)" "n h = (b, h1)" by (cases "m s", cases "n h")
  then have ab: "like_result (\<lambda>_. True) a b" "R s1 h1" using rel_funD [OF assms(1) R] by simp_all
  from ab(1) show "rel_prod (=) R (managed style r m k s) (managed style r n k' h)"
    by (rule like_result_cases) (use m ab(2) rel_funD [OF assms(2)] in \<open>auto simp: managed_def\<close>)
qed


text \<open>The five routes of a resource, and a sequence of requests to them.\<close>

record ('s, 'b) item_api =
  ia_list :: "dbenv \<Rightarrow> Request \<Rightarrow> 's \<Rightarrow> 'b item_answer \<times> 's"
  ia_create :: "dbenv \<Rightarrow> Request \<Rightarrow> 's \<Rightarrow> 'b item_answer \<times> 's"
  ia_get :: "string \<Rightarrow> dbenv \<Rightarrow> Request \<Rightarrow> 's \<Rightarrow> 'b item_answer \<times> 's"
  ia_update :: "string \<Rightarrow> dbenv \<Rightarrow> Request \<Rightarrow> 's \<Rightarrow> 'b item_answer \<times> 's"
  ia_delete :: "string \<Rightarrow> dbenv \<Rightarrow> Request \<Rightarrow> 's \<Rightarrow> 'b item_answer \<times> 's"

datatype item_route = GetAll | Post | GetOne string | Put string | Del string

fun api_call :: "('s, 'b) item_api \<Rightarrow> dbenv \<Rightarrow> item_route \<Rightarrow> Request \<Rightarrow> 's \<Rightarrow> 'b item_answer \<times> 's" where
  "api_call a e GetAll r = ia_list a e r"
| "api_call a e Post r = ia_create a e r"
| "api_call a e (GetOne i) r = ia_get a i e r"
| "api_call a e (Put i) r = ia_update a i e r"
| "api_call a e (Del i) r = ia_delete a i e r"

fun api_run :: "('s, 'b) item_api \<Rightarrow> (dbenv \<times> item_route \<times> Request) list \<Rightarrow> 's \<Rightarrow> 'b item_answer list \<times> 's" where
  "api_run a [] s = ([], s)"
| "api_run a ((e, q, r) # rs) s = (let (x, s1) = api_call a e q r s; (xs, s2) = api_run a rs s1 in (x # xs, s2))"

definition quiet_requests :: "(dbenv \<times> item_route \<times> Request) list \<Rightarrow> bool" where
  "quiet_requests rs = list_all (\<lambda>(e, _). quiet e) rs"

definition merging_api :: "api_style \<Rightarrow> ('a, 'b) item_kind \<Rightarrow> (Request \<Rightarrow> (string, 'i) result) \<Rightarrow> ('i \<Rightarrow> 'a) \<Rightarrow> ('i \<Rightarrow> 'a \<Rightarrow> 'a)
     \<Rightarrow> ('s, 'a) InstanceStore \<Rightarrow> ('s, 'b) item_api" where
  "merging_api style kind body fresh merge st = \<lparr>ia_list = item_list style kind st, ia_create = item_create style kind st (\<lambda>r. map_sum id fresh (body r)),
     ia_get = item_get style kind st, ia_update = item_merge style kind st body merge, ia_delete = item_delete style kind st\<rparr>"

definition replacing_api :: "api_style \<Rightarrow> ('a, 'b) item_kind \<Rightarrow> (Request \<Rightarrow> (string, 'a) result) \<Rightarrow> (int \<Rightarrow> Request \<Rightarrow> (string, 'a \<times> 'b) result)
     \<Rightarrow> ('s, 'a) InstanceStore \<Rightarrow> ('s, 'b) item_api" where
  "replacing_api style kind fresh body st = \<lparr>ia_list = item_list style kind st, ia_create = item_create style kind st fresh,
     ia_get = item_get style kind st, ia_update = item_replace style st body, ia_delete = item_remove style st\<rparr>"

lemma api_run_sim:
  assumes "\<And>e q r. quiet e \<Longrightarrow> sim R (api_call a e q r) (api_call b e q r)" "quiet_requests rs" "R s h"
  shows "fst (api_run a rs s) = fst (api_run b rs h)"
  using assms(2,3)
proof (induction rs arbitrary: s h)
  case (Cons x rs)
  obtain e q r where x: "x = (e, q, r)" by (cases x)
  have "rel_prod (=) R (api_call a e q r s) (api_call b e q r h)"
    using assms(1) Cons.prems x by (auto simp: quiet_requests_def dest: rel_funD)
  then obtain y s1 h1 where y: "api_call a e q r s = (y, s1)" "api_call b e q r h = (y, h1)" "R s1 h1"
    by (cases "api_call a e q r s"; cases "api_call b e q r h") auto
  have "quiet_requests rs" using Cons.prems(1) by (simp add: quiet_requests_def)
  from Cons.IH [OF this y(3)] show ?case using x y by (simp add: case_prod_beta)
qed simp

lemma like_out:
  "like_result (\<lambda>_. True) x (item_or err (out_of Item x))" "like_result (\<lambda>_. True) rs (items_or err (out_of Items rs))"
  "like_result (\<lambda>_. True) u (done_or err (out_of (\<lambda>_. Done) u))"
  by (auto simp: like_result_def out_of_def item_or_def items_or_def done_or_def split: sum.split store_error.split)

locale config_store = crud_store st inv shelf sp
  for st :: "('s, 'a) InstanceStore" and inv :: "'s \<Rightarrow> bool" and shelf :: "'s \<Rightarrow> 'a shelf" and sp :: "('a, 'k::linorder) crud_spec" +
  fixes missing :: store_error
  assumes names: "quiet e \<Longrightarrow> is_GetByID st e i s = (Inl err, s') \<Longrightarrow> err = missing"
    and sentinel: "\<exists>t. missing = ErrNotFound t"
begin

lemma call_sim:
  assumes "quiet e" "\<And>s. store_do st e op s = apfst (out_of f) (m s)" "\<And>h. n h = apfst g (spec_do sp (env_now e) op h)"
    and "\<And>s r s'. inv s \<Longrightarrow> m s = (r, s') \<Longrightarrow> like_result p r (g (out_of f r))"
  shows "sim_act p (\<lambda>s h. inv s \<and> h = shelf s) m n"
proof (rule rel_funI)
  fix s h assume R: "inv s \<and> h = shelf s"
  obtain r s' where r: "m s = (r, s')" by fastforce
  then have "store_do st e op s = (out_of f r, s')" using assms(2) by simp
  then have "inv s' \<and> spec_do sp (env_now e) op (shelf s) = (out_of f r, shelf s')" using call_refines [OF _ assms(1)] R by blast
  then show "rel_prod (like_result p) (\<lambda>s h. inv s \<and> h = shelf s) (m s) (n h)"
    using assms(3) assms(4) [OF _ r] R r by simp
qed

lemma delete_done: "inv s \<Longrightarrow> quiet e \<Longrightarrow> is_Delete st e i s = (r, s') \<Longrightarrow> r = Inr ()"
  using call_refines [of s e "OpDelete i" "out_of (\<lambda>_. Done) r" s'] by (auto simp: out_of_def split: sum.splits store_error.splits)

lemma store_sims [sim_intros]:
  assumes "quiet e"
  shows "sim_act (\<lambda>_. True) (\<lambda>s h. inv s \<and> h = shelf s) (is_Create st e x) (is_Create (spec_store sp missing) e x)"
    and "sim_act (\<lambda>_. True) (\<lambda>s h. inv s \<and> h = shelf s) (is_List st e) (is_List (spec_store sp missing) e)"
    and "sim_act (\<lambda>_. True) (\<lambda>s h. inv s \<and> h = shelf s) (is_Update st e x) (is_Update (spec_store sp missing) e x)"
    and "sim_act p (\<lambda>s h. inv s \<and> h = shelf s) (is_GetByID st e i) (is_GetByID (spec_store sp missing) e i)"
    and "sim_act p (\<lambda>s h. inv s \<and> h = shelf s) (is_Delete st e i) (is_Delete (spec_store sp missing) e i)"
proof -
  show "sim_act (\<lambda>_. True) (\<lambda>s h. inv s \<and> h = shelf s) (is_Create st e x) (is_Create (spec_store sp missing) e x)"
    by (rule call_sim [OF assms, of "OpCreate x" Item]) (simp_all add: spec_store_def del: spec_do.simps, rule like_out(1))
  show "sim_act (\<lambda>_. True) (\<lambda>s h. inv s \<and> h = shelf s) (is_List st e) (is_List (spec_store sp missing) e)"
    by (rule call_sim [OF assms, of OpList Items]) (simp_all add: spec_store_def del: spec_do.simps, rule like_out(2))
  show "sim_act (\<lambda>_. True) (\<lambda>s h. inv s \<and> h = shelf s) (is_Update st e x) (is_Update (spec_store sp missing) e x)"
    by (rule call_sim [OF assms, of "OpUpdate x" "\<lambda>_. Done"]) (simp_all add: spec_store_def del: spec_do.simps, rule like_out(3))
  show "sim_act p (\<lambda>s h. inv s \<and> h = shelf s) (is_GetByID st e i) (is_GetByID (spec_store sp missing) e i)"
  proof (rule call_sim [OF assms, of "OpGet i" Item])
    fix s r s' assume r: "is_GetByID st e i s = (r, s')"
    show "like_result p r (item_or missing (out_of Item r))"
    proof (cases r)
      case (Inl err)
      then have "err = missing" using names [OF assms] r by blast
      then show ?thesis using sentinel by (auto simp: Inl item_or_def like_result_def out_of_def)
    qed (simp add: item_or_def out_of_def like_result_def)
  qed (simp_all add: spec_store_def del: spec_do.simps)
  show "sim_act p (\<lambda>s h. inv s \<and> h = shelf s) (is_Delete st e i) (is_Delete (spec_store sp missing) e i)"
  proof (rule call_sim [OF assms, of "OpDelete i" "\<lambda>_. Done"])
    fix s r s' assume "inv s" "is_Delete st e i s = (r, s')"
    then have "r = Inr ()" using delete_done assms by blast
    then show "like_result p r (done_or (DbError '''') (out_of (\<lambda>_. Done) r))" by (simp add: done_or_def out_of_def like_result_def)
  qed (simp_all add: spec_store_def del: spec_do.simps)
qed

lemma merging_refines:
  assumes "quiet_requests rs" "inv s"
  shows "fst (api_run (merging_api style kind body fresh merge st) rs s)
    = fst (api_run (merging_api style kind body fresh merge (spec_store sp missing)) rs (shelf s))"
proof (rule api_run_sim [where R = "\<lambda>s h. inv s \<and> h = shelf s"])
  fix e q r assume e: "quiet e"
  show "sim (\<lambda>s h. inv s \<and> h = shelf s) (api_call (merging_api style kind body fresh merge st) e q r)
      (api_call (merging_api style kind body fresh merge (spec_store sp missing)) e q r)"
    by (cases q) (auto simp: merging_api_def item_list_def item_create_def item_get_def item_merge_def item_delete_def
        intro!: sim_intros e)
qed (use assms in simp_all)

lemma replacing_refines:
  assumes "quiet_requests rs" "inv s"
  shows "fst (api_run (replacing_api style kind fresh body st) rs s)
    = fst (api_run (replacing_api style kind fresh body (spec_store sp missing)) rs (shelf s))"
proof (rule api_run_sim [where R = "\<lambda>s h. inv s \<and> h = shelf s"])
  fix e q r assume e: "quiet e"
  show "sim (\<lambda>s h. inv s \<and> h = shelf s) (api_call (replacing_api style kind fresh body st) e q r)
      (api_call (replacing_api style kind fresh body (spec_store sp missing)) e q r)"
    by (cases q) (auto simp: replacing_api_def item_list_def item_create_def item_get_def item_replace_def item_remove_def
        intro!: sim_intros e split: prod.split)
qed (use assms in simp_all)

end


subsection \<open>Every sequence of requests\<close>

text \<open>The routes of each resource, as they are mounted.\<close>

definition v6_indexer_api :: "('s, IndexerInstance) InstanceStore \<Rightarrow> ('s, indexerResource) item_api" where
  "v6_indexer_api st = \<lparr>ia_list = v6_indexer_list st, ia_create = v6_indexer_create st, ia_get = v6_indexer_get st, ia_update = v6_indexer_update st,
     ia_delete = v6_indexer_delete st\<rparr>"

definition v3_indexer_api :: "('s, IndexerInstance) InstanceStore \<Rightarrow> ('s, indexerResource) item_api" where
  "v3_indexer_api st = \<lparr>ia_list = v3_indexer_list st, ia_create = v3_indexer_create st, ia_get = v3_indexer_get st, ia_update = v3_indexer_update st,
     ia_delete = v3_indexer_delete st\<rparr>"

definition v6_downloadclient_api :: "('s, DownloadClientInstance) InstanceStore \<Rightarrow> ('s, downloadClientResource) item_api" where
  "v6_downloadclient_api st = \<lparr>ia_list = v6_downloadclient_list st, ia_create = v6_downloadclient_create st, ia_get = v6_downloadclient_get st, ia_update = v6_downloadclient_update st,
     ia_delete = v6_downloadclient_delete st\<rparr>"

definition v3_downloadclient_api :: "('s, DownloadClientInstance) InstanceStore \<Rightarrow> ('s, downloadClientResource) item_api" where
  "v3_downloadclient_api st = \<lparr>ia_list = v3_downloadclient_list st, ia_create = v3_downloadclient_create st, ia_get = v3_downloadclient_get st, ia_update = v3_downloadclient_update st,
     ia_delete = v3_downloadclient_delete st\<rparr>"

definition v6_notification_api :: "('s, NotificationInstance) InstanceStore \<Rightarrow> ('s, notificationResource) item_api" where
  "v6_notification_api st = \<lparr>ia_list = v6_notification_list st, ia_create = v6_notification_create st, ia_get = v6_notification_get st, ia_update = v6_notification_update st,
     ia_delete = v6_notification_delete st\<rparr>"

definition v3_notification_api :: "('s, NotificationInstance) InstanceStore \<Rightarrow> ('s, notificationResource) item_api" where
  "v3_notification_api st = \<lparr>ia_list = v3_notification_list st, ia_create = v3_notification_create st, ia_get = v3_notification_get st, ia_update = v3_notification_update st,
     ia_delete = v3_notification_delete st\<rparr>"

definition mapping_api :: "('s, RemotePathMapping) InstanceStore \<Rightarrow> ('s, remotePathMappingResource) item_api" where
  "mapping_api st = \<lparr>ia_list = mapping_list st, ia_create = mapping_create st, ia_get = mapping_get st, ia_update = mapping_update st,
     ia_delete = mapping_delete st\<rparr>"

lemma v6_indexer_api_eq: "v6_indexer_api = merging_api v6_style indexer_kind read_indexer new_indexer merge_indexer"
  by (simp add: fun_eq_iff v6_indexer_api_def merging_api_def v6_indexer_list_def v6_indexer_create_def v6_indexer_get_def v6_indexer_update_def v6_indexer_delete_def)

lemma v3_indexer_api_eq: "v3_indexer_api = merging_api v3_style indexer_kind read_indexer new_indexer merge_indexer"
  by (simp add: fun_eq_iff v3_indexer_api_def merging_api_def v3_indexer_list_def v3_indexer_create_def v3_indexer_get_def v3_indexer_update_def v3_indexer_delete_def)

lemma v6_downloadclient_api_eq: "v6_downloadclient_api = merging_api v6_style downloadclient_kind read_downloadclient new_downloadclient merge_downloadclient"
  by (simp add: fun_eq_iff v6_downloadclient_api_def merging_api_def v6_downloadclient_list_def v6_downloadclient_create_def v6_downloadclient_get_def v6_downloadclient_update_def v6_downloadclient_delete_def)

lemma v3_downloadclient_api_eq: "v3_downloadclient_api = merging_api v3_style downloadclient_kind read_downloadclient new_downloadclient merge_downloadclient"
  by (simp add: fun_eq_iff v3_downloadclient_api_def merging_api_def v3_downloadclient_list_def v3_downloadclient_create_def v3_downloadclient_get_def v3_downloadclient_update_def v3_downloadclient_delete_def)

lemma v6_notification_api_eq: "v6_notification_api = merging_api v6_style notification_kind read_notification new_notification merge_notification"
  by (simp add: fun_eq_iff v6_notification_api_def merging_api_def v6_notification_list_def v6_notification_create_def v6_notification_get_def v6_notification_update_def v6_notification_delete_def)

lemma v3_notification_api_eq: "v3_notification_api = merging_api v3_style notification_kind read_notification new_notification merge_notification"
  by (simp add: fun_eq_iff v3_notification_api_def merging_api_def v3_notification_list_def v3_notification_create_def v3_notification_get_def v3_notification_update_def v3_notification_delete_def)

lemma mapping_api_eq: "mapping_api = replacing_api v3_style mapping_kind (\<lambda>r. bindR (read_mapping r) mapping_complete)
     (\<lambda>i r. map_sum id (\<lambda>b. (mapping_from i b, toRemotePathMappingResource (mapping_from i b))) (read_mapping r))"
  by (simp add: fun_eq_iff mapping_api_def replacing_api_def mapping_list_def mapping_create_def mapping_get_def mapping_update_def mapping_delete_def)

lemmas api_eqs = v6_indexer_api_eq v3_indexer_api_eq v6_downloadclient_api_eq v3_downloadclient_api_eq v6_notification_api_eq v3_notification_api_eq

lemma row_missing: "rowA (Inl x) m f (sql_one P) s = (Inl err, s') \<Longrightarrow> err = x"
  by (auto simp: rowA_def sql_one_def split: sum.splits if_splits)

interpretation v_sqindexers: config_store sqliteIndexers "wf_table iq_ID" "table_shelf indexer_FromSQLite" "indexer_spec sq_gran (\<lambda>i. i) Some (\<lambda>n. n)"
  "ErrNotFound ''indexer: not found''"
  by unfold_locales (auto simp: sqliteIndexers_def sqliteIndexers_GetByID_def sqlite_GetIndexerByID_def dest: row_missing)

interpretation v_pgindexers: config_store "postgresIndexers collate jsonb" "wf_table ix_ID" "table_shelf indexer_FromPostgres" "indexer_spec pg_gran wrap32 jsonb collate"
  "ErrNotFound ''indexer: not found''" for collate jsonb
  by unfold_locales (auto simp: postgresIndexers_def postgresIndexers_GetByID_def postgres_GetIndexerByID_def dest: row_missing)

interpretation v_sqclients: config_store sqliteDownloadClients "wf_table Providers.dq_ID" "table_shelf downloadclient_FromSQLite" "downloadclient_spec sq_gran (\<lambda>i. i) Some (\<lambda>n. n)"
  "ErrNotFound ''downloadclient: not found''"
  by unfold_locales (auto simp: sqliteDownloadClients_def sqliteDownloadClients_GetByID_def sqlite_GetDownloadClientByID_def dest: row_missing)

interpretation v_pgclients: config_store "postgresDownloadClients collate jsonb" "wf_table Providers.dx_ID" "table_shelf downloadclient_FromPostgres" "downloadclient_spec pg_gran wrap32 jsonb collate"
  "ErrNotFound ''downloadclient: not found''" for collate jsonb
  by unfold_locales (auto simp: postgresDownloadClients_def postgresDownloadClients_GetByID_def postgres_GetDownloadClientByID_def dest: row_missing)

interpretation v_sqnotifications: config_store sqliteNotifications "wf_table nq_ID" "table_shelf notification_FromSQLite" "notification_spec sq_gran (\<lambda>i. i) Some (\<lambda>n. n)"
  "ErrNotFound ''notification: not found''"
  by unfold_locales (auto simp: sqliteNotifications_def sqliteNotifications_GetByID_def sqlite_GetNotificationByID_def dest: row_missing)

interpretation v_pgnotifications: config_store "postgresNotifications collate jsonb" "wf_table nx_ID" "table_shelf notification_FromPostgres" "notification_spec pg_gran wrap32 jsonb collate"
  "ErrNotFound ''notification: not found''" for collate jsonb
  by unfold_locales (auto simp: postgresNotifications_def postgresNotifications_GetByID_def postgres_GetNotificationByID_def dest: row_missing)

interpretation v_sqmappings: config_store sqliteMappings "wf_table rm_ID" "table_shelf (\<lambda>r. r)" "mapping_spec (\<lambda>i. i) (\<lambda>n. n)"
  "ErrNotFound ''remotepathmapping: not found''"
  by unfold_locales (auto simp: sqliteMappings_def sqliteMappings_GetByID_def sqlite_GetRemotePathMappingByID_def dest: row_missing)

interpretation v_pgmappings: config_store "postgresMappings collate" "wf_table rm_ID" "table_shelf (\<lambda>r. r)" "mapping_spec wrap32 collate"
  "ErrNotFound ''remotepathmapping: not found''" for collate
  by unfold_locales (auto simp: postgresMappings_def postgresMappings_GetByID_def postgres_GetRemotePathMappingByID_def dest: row_missing)



definition demo_request :: "string \<Rightarrow> Request" where
  "demo_request body = demo_post\<lparr>rq_Body := body\<rparr>"

definition demo_indexer :: string where
  "demo_indexer = print_json (JObj [(''name'', JStr ''nyaa''), (''fields'', JObj [(''url'', JStr ''x'')]), (''enableRss'', JBool True)])"

definition demo_requests :: "(dbenv \<times> item_route \<times> Request) list" where
  "demo_requests = map (\<lambda>(q, b). (quiet_at 0, q, demo_request b))
     [(Post, demo_indexer), (GetOne ''1'', ''''), (Put ''1'', ''{}''), (Post, ''{''), (Del ''1'', ''''), (GetOne ''1'', ''''), (Del ''x'', '''')]"



end
