(* ===== verification/ApiV3.thy ===== *)
theory ApiV3
  imports ApiConfig CommandsSqlite
begin

section \<open>The catalogue over HTTP: version 3 of the API\<close>

text \<open>
  internal/api/v3: the handlers of series.go, episode.go, history.go and wanted.go, and those of episodefile.go, calendar.go and command.go in both
  versions, which differ in the style of errors only. Handlers are compositions of the steps of theory ApiConfig. Adding a series also applies the rule of
  monitor_mode.go and enqueues a search, so the handler has the episode store and the queue besides the three stores of version 6.

  The listings of history and of wanted episodes cut a page by its number. The arithmetic of the bounds is that of 64-bit integers, and a slice with
  bounds out of order panics: \<open>None\<close> stands for the panic, which the recovering middleware turns into an empty answer with status 500.
\<close>

subsection \<open>Series\<close>

record seriesResource_v3 =
  s3_Base :: seriesResource
  s3_TvRageID :: int
  s3_UseSceneNumbering :: bool

record addOptionsInput =
  ao_Monitor :: string
  ao_SearchForMissingEpisodes :: bool
  ao_SearchForCutoffUnmetEpisodes :: bool

record seriesInput_v3 = seriesInput +
  si_QualityProfileID :: int
  si_SeasonFolder :: "bool option"
  si_MonitorNewItems :: string
  si_AddOptions :: "addOptionsInput option"

record 's seriesHandler_v3 =
  v3_base :: "'s seriesHandler"
  v3_sink :: "dbenv \<Rightarrow> 's MonitorSink"
  v3_Enqueue :: "dbenv \<Rightarrow> string \<Rightarrow> json \<Rightarrow> ('s, unit) act"

definition toResource_v3 :: "(rat \<Rightarrow> rat) \<Rightarrow> Series \<Rightarrow> Season list \<Rightarrow> SeriesStatistics option \<Rightarrow> seriesResource_v3" where
  "toResource_v3 fl s seasons stats = \<lparr>
     s3_Base = (toResource fl s seasons stats)\<lparr>sx_QualityProfileID := se_QualityProfileID s, sx_SeasonFolder := se_SeasonFolder s,
       sx_MonitorNewItems := (if se_MonitorNewItems s = '''' then ''all'' else se_MonitorNewItems s)\<rparr>,
     s3_TvRageID = 0, s3_UseSceneNumbering = False\<rparr>"

definition full_resource_v3 :: "(rat \<Rightarrow> rat) \<Rightarrow> 's seriesHandler \<Rightarrow> dbenv \<Rightarrow> Series \<Rightarrow> 's \<Rightarrow> seriesResource_v3 \<times> 's" where
  "full_resource_v3 fl h e x s = (let (seasons, s1) = seasons_or_none h e (se_ID x) s; (stats, s2) = stats_or_none h e (se_ID x) s1
     in (toResource_v3 fl x seasons stats, s2))"

fun full_resources_v3 :: "(rat \<Rightarrow> rat) \<Rightarrow> 's seriesHandler \<Rightarrow> dbenv \<Rightarrow> Series list \<Rightarrow> 's \<Rightarrow> seriesResource_v3 list \<times> 's" where
  "full_resources_v3 fl h e [] s = ([], s)"
| "full_resources_v3 fl h e (x # xs) s =
     (let (r, s1) = full_resource_v3 fl h e x s; (rs, s2) = full_resources_v3 fl h e xs s1 in (r # rs, s2))"

definition series_kind :: "(Series, seriesResource_v3) item_kind" where
  "series_kind = \<lparr>ik_label = '''', ik_missing = ErrNotFound ''library: not found'', ik_show = (\<lambda>s. toResource_v3 id s [] None)\<rparr>"

definition v3_series_list :: "(rat \<Rightarrow> rat) \<Rightarrow> 's seriesHandler_v3 \<Rightarrow> dbenv \<Rightarrow> Request \<Rightarrow> 's \<Rightarrow> seriesResource_v3 item_answer \<times> 's" where
  "v3_series_list fl h e r = managed v3_style r (srs_List (h_series (v3_base h)) e)
     (\<lambda>xs s. let (rs, s1) = full_resources_v3 fl (v3_base h) e xs s in (Json 200 (Many rs), s1))"

definition v3_series_get :: "(rat \<Rightarrow> rat) \<Rightarrow> 's seriesHandler_v3 \<Rightarrow> string \<Rightarrow> dbenv \<Rightarrow> Request \<Rightarrow> 's \<Rightarrow> seriesResource_v3 item_answer \<times> 's" where
  "v3_series_get fl h idp e r = with_id v3_style r idp (\<lambda>i. found v3_style series_kind r i (srs_Get (h_series (v3_base h)) e i)
     (\<lambda>x s. let (b, s1) = full_resource_v3 fl (v3_base h) e x s in (Json 200 (One b), s1)))"

definition dec_ptr :: "'a decoder \<Rightarrow> 'a \<Rightarrow> 'a option decoder" where
  "dec_ptr f z j old = (case j of JNull \<Rightarrow> Inr None | _ \<Rightarrow> map_sum id Some (f j (case old of None \<Rightarrow> z | Some x \<Rightarrow> x)))"

definition addOptions_fields :: "addOptionsInput fields" where
  "addOptions_fields = [(''monitor'', fld ao_Monitor ao_Monitor_update dec_string),
     (''searchForMissingEpisodes'', fld ao_SearchForMissingEpisodes ao_SearchForMissingEpisodes_update dec_bool),
     (''searchForCutoffUnmetEpisodes'', fld ao_SearchForCutoffUnmetEpisodes ao_SearchForCutoffUnmetEpisodes_update dec_bool)]"

definition seriesInput_v3_fields :: "seriesInput_v3 fields" where
  "seriesInput_v3_fields = [(''title'', fld si_Title si_Title_update dec_string), (''tvdbId'', fld si_TvdbID si_TvdbID_update dec_int64),
     (''titleSlug'', fld si_Slug si_Slug_update dec_string), (''status'', fld si_Status si_Status_update dec_string),
     (''seriesType'', fld si_SeriesType si_SeriesType_update dec_string), (''path'', fld si_Path si_Path_update dec_string),
     (''monitored'', fld si_Monitored si_Monitored_update dec_bool),
     (''qualityProfileId'', fld si_QualityProfileID si_QualityProfileID_update dec_int64),
     (''seasonFolder'', fld si_SeasonFolder si_SeasonFolder_update (dec_ptr dec_bool False)),
     (''monitorNewItems'', fld si_MonitorNewItems si_MonitorNewItems_update dec_string),
     (''seasons'', fld si_Seasons si_Seasons_update (dec_slice (dec_struct seasonInput_fields) \<lparr>ni_SeasonNumber = 0, ni_Monitored = False\<rparr>)),
     (''addOptions'', fld si_AddOptions si_AddOptions_update (dec_ptr (dec_struct addOptions_fields)
        \<lparr>ao_Monitor = '''', ao_SearchForMissingEpisodes = False, ao_SearchForCutoffUnmetEpisodes = False\<rparr>))]"

definition read_series_v3 :: "Request \<Rightarrow> (string, seriesInput_v3) result" where
  "read_series_v3 r = or_else ''Invalid request body'' (Decode (dec_struct seriesInput_v3_fields) (rq_Body r) \<lparr>si_Title = '''', si_TvdbID = 0,
     si_Slug = '''', si_Status = '''', si_SeriesType = '''', si_Path = '''', si_Monitored = False, si_Seasons = None, si_QualityProfileID = 0,
     si_SeasonFolder = None, si_MonitorNewItems = '''', si_AddOptions = None\<rparr>)"

definition validMonitorModes :: "string list" where
  "validMonitorModes = ['''', ''all'', ''none'', ''future'', ''missing'', ''existing'', ''pilot'', ''firstSeason'', ''lastSeason'']"

definition check_mode :: "seriesInput_v3 \<Rightarrow> (string, seriesInput_v3) result" where
  "check_mode x = (case si_AddOptions x of
     None \<Rightarrow> Inr x
   | Some a \<Rightarrow> if ao_Monitor a \<in> set validMonitorModes then Inr x else Inl (''invalid monitor mode: '' @ ao_Monitor a))"

definition new_series_v3 :: "seriesInput_v3 \<Rightarrow> Series" where
  "new_series_v3 x = (new_series (seriesInput.truncate x))\<lparr>se_QualityProfileID := si_QualityProfileID x,
     se_SeasonFolder := (case si_SeasonFolder x of None \<Rightarrow> True | Some b \<Rightarrow> b),
     se_MonitorNewItems := (if si_MonitorNewItems x = '''' then ''all'' else si_MonitorNewItems x)\<rparr>"

text \<open>The errors of the rule and of the queue are logged or dropped.\<close>

definition apply_add_options :: "'s seriesHandler_v3 \<Rightarrow> dbenv \<Rightarrow> int \<Rightarrow> addOptionsInput option \<Rightarrow> 's \<Rightarrow> 's" where
  "apply_add_options h e i opts s = (case opts of
     None \<Rightarrow> s
   | Some a \<Rightarrow>
       (let s1 = snd (ApplyMonitorMode (v3_sink h e) (env_now e) i (ao_Monitor a) s) in
        if ao_SearchForMissingEpisodes a then snd (v3_Enqueue h e ''SeriesSearch'' (JObj [(''seriesId'', json_int i)]) s1) else s1))"

definition v3_series_create :: "(rat \<Rightarrow> rat) \<Rightarrow> 's seriesHandler_v3 \<Rightarrow> dbenv \<Rightarrow> Request \<Rightarrow> 's \<Rightarrow> seriesResource_v3 item_answer \<times> 's" where
  "v3_series_create fl h e r = with_body v3_style r (bindR (read_series_v3 r) check_mode) (\<lambda>x.
     managed v3_style r (srs_Create (h_series (v3_base h)) e (new_series_v3 x)) (\<lambda>y s.
       let s1 = input_upserts (v3_base h) e (se_ID y) (input_seasons (seriesInput.truncate x)) s;
           s2 = apply_add_options h e (se_ID y) (si_AddOptions x) s1;
           (seasons, s3) = seasons_or_none (v3_base h) e (se_ID y) s2
       in (Json 201 (One (toResource_v3 fl y seasons None)), s3)))"

definition merge_series_v3 :: "seriesInput_v3 \<Rightarrow> Series \<Rightarrow> Series" where
  "merge_series_v3 x s = (merge_series (seriesInput.truncate x) s)\<lparr>
     se_QualityProfileID := (if si_QualityProfileID x = 0 then se_QualityProfileID s else si_QualityProfileID x),
     se_SeasonFolder := (case si_SeasonFolder x of None \<Rightarrow> se_SeasonFolder s | Some b \<Rightarrow> b),
     se_MonitorNewItems := (if si_MonitorNewItems x = '''' then se_MonitorNewItems s else si_MonitorNewItems x)\<rparr>"

definition v3_series_update :: "(rat \<Rightarrow> rat) \<Rightarrow> 's seriesHandler_v3 \<Rightarrow> string \<Rightarrow> dbenv \<Rightarrow> Request \<Rightarrow> 's \<Rightarrow> seriesResource_v3 item_answer \<times> 's" where
  "v3_series_update fl h idp e r = with_id v3_style r idp (\<lambda>i. found v3_style series_kind r i (srs_Get (h_series (v3_base h)) e i) (\<lambda>old.
     with_body v3_style r (read_series_v3 r) (\<lambda>x. managed v3_style r (srs_Update (h_series (v3_base h)) e (merge_series_v3 x old)) (\<lambda>_ s.
       let s1 = input_upserts (v3_base h) e (se_ID old) (input_seasons (seriesInput.truncate x)) s;
           (b, s2) = full_resource_v3 fl (v3_base h) e (merge_series_v3 x old) s1
       in (Json 200 (One b), s2)))))"

definition v3_series_delete :: "'s seriesHandler_v3 \<Rightarrow> string \<Rightarrow> dbenv \<Rightarrow> Request \<Rightarrow> 's \<Rightarrow> seriesResource_v3 item_answer \<times> 's" where
  "v3_series_delete h idp e r = with_id v3_style r idp (\<lambda>i. found v3_style series_kind r i (srs_Delete (h_series (v3_base h)) e i)
     (\<lambda>_ s. (Status 200, s)))"

subsection \<open>Episodes\<close>

definition with_series_id :: "api_style \<Rightarrow> Request \<Rightarrow> (int \<Rightarrow> 's \<Rightarrow> 'b item_answer \<times> 's) \<Rightarrow> 's \<Rightarrow> 'b item_answer \<times> 's" where
  "with_series_id style r k s =
     (if rq_Query r ''seriesId'' = '''' then (Problem (as_bad style r ''seriesId query parameter is required''), s)
      else case Atoi (rq_Query r ''seriesId'') of Inl _ \<Rightarrow> (Problem (as_bad style r ''Invalid seriesId''), s) | Inr i \<Rightarrow> k i s)"

definition episode_kind :: "(Episode, episodeResource) item_kind" where
  "episode_kind = \<lparr>ik_label = '''', ik_missing = ErrNotFound ''library: not found'', ik_show = toEpisodeResource\<rparr>"

definition v3_episode_list :: "'s episodeHandler \<Rightarrow> dbenv \<Rightarrow> Request \<Rightarrow> 's \<Rightarrow> episodeResource item_answer \<times> 's" where
  "v3_episode_list h e r = with_series_id v3_style r (\<lambda>i. managed v3_style r (eh_ListForSeries h e i)
     (\<lambda>xs s. (Json 200 (Many (map toEpisodeResource xs)), s)))"

definition v3_episode_get :: "'s episodeHandler \<Rightarrow> string \<Rightarrow> dbenv \<Rightarrow> Request \<Rightarrow> 's \<Rightarrow> episodeResource item_answer \<times> 's" where
  "v3_episode_get h idp e r = with_id v3_style r idp (\<lambda>i. found v3_style episode_kind r i (eh_Get h e i)
     (\<lambda>x s. (Json 200 (One (toEpisodeResource x)), s)))"

definition v3_episode_update :: "'s episodeHandler \<Rightarrow> string \<Rightarrow> dbenv \<Rightarrow> Request \<Rightarrow> 's \<Rightarrow> episodeResource item_answer \<times> 's" where
  "v3_episode_update h idp e r = with_id v3_style r idp (\<lambda>i. found v3_style episode_kind r i (eh_Get h e i) (\<lambda>old.
     with_body v3_style r (or_else ''Invalid request body'' (read_monitored r)) (\<lambda>m. managed v3_style r (eh_Update h e (old\<lparr>ep_Monitored := m\<rparr>))
       (\<lambda>_ s. (Json 200 (One (toEpisodeResource (old\<lparr>ep_Monitored := m\<rparr>))), s)))))"

subsection \<open>Episode files\<close>

record episodeFileResource =
  fx_ID :: int
  fx_SeriesID :: int
  fx_SeasonNumber :: int
  fx_RelativePath :: string
  fx_Path :: string
  fx_Size :: int
  fx_DateAdded :: "int option"
  fx_QualityID :: int
  fx_QualityName :: string
  fx_QualitySource :: string
  fx_QualityResolution :: int
  fx_ReleaseGroup :: string

record 's episodeFileHandler =
  fh_ListForSeries :: "dbenv \<Rightarrow> int \<Rightarrow> ('s, EpisodeFile list) act"
  fh_Get :: "dbenv \<Rightarrow> int \<Rightarrow> ('s, EpisodeFile) act"
  fh_Delete :: "dbenv \<Rightarrow> int \<Rightarrow> ('s, unit) act"
  fh_series_Get :: "dbenv \<Rightarrow> int \<Rightarrow> ('s, Series) act"

definition toFileResource :: "string \<Rightarrow> EpisodeFile \<Rightarrow> episodeFileResource" where
  "toFileResource seriesPath f = \<lparr>fx_ID = ef_ID f, fx_SeriesID = ef_SeriesID f, fx_SeasonNumber = ef_SeasonNumber f,
     fx_RelativePath = ef_RelativePath f, fx_Path = seriesPath @ ''/'' @ ef_RelativePath f, fx_Size = ef_Size f, fx_DateAdded = formatTime (ef_DateAdded f),
     fx_QualityID = 0, fx_QualityName = ef_QualityName f, fx_QualitySource = '''', fx_QualityResolution = 0, fx_ReleaseGroup = ef_ReleaseGroup f\<rparr>"

definition path_or_none :: "('s, Series) act \<Rightarrow> 's \<Rightarrow> string \<times> 's" where
  "path_or_none m s = (case m s of (Inl _, s1) \<Rightarrow> ('''', s1) | (Inr x, s1) \<Rightarrow> (se_Path x, s1))"

definition file_kind :: "(EpisodeFile, episodeFileResource) item_kind" where
  "file_kind = \<lparr>ik_label = ''episode file'', ik_missing = ErrNotFound ''library: not found'', ik_show = toFileResource ''''\<rparr>"

definition file_list :: "api_style \<Rightarrow> 's episodeFileHandler \<Rightarrow> dbenv \<Rightarrow> Request \<Rightarrow> 's \<Rightarrow> episodeFileResource item_answer \<times> 's" where
  "file_list style h e r = with_series_id style r (\<lambda>i. managed style r (fh_ListForSeries h e i) (\<lambda>fs s.
     let (seriesPath, s1) = (if fs = [] then ('''', s) else path_or_none (fh_series_Get h e i) s)
     in (Json 200 (Many (map (toFileResource seriesPath) fs)), s1)))"

definition file_get :: "api_style \<Rightarrow> 's episodeFileHandler \<Rightarrow> string \<Rightarrow> dbenv \<Rightarrow> Request \<Rightarrow> 's \<Rightarrow> episodeFileResource item_answer \<times> 's" where
  "file_get style h idp e r = with_id style r idp (\<lambda>i. found style file_kind r i (fh_Get h e i) (\<lambda>f s.
     let (seriesPath, s1) = path_or_none (fh_series_Get h e (ef_SeriesID f)) s in (Json 200 (One (toFileResource seriesPath f)), s1)))"

definition file_delete :: "api_style \<Rightarrow> 's episodeFileHandler \<Rightarrow> string \<Rightarrow> dbenv \<Rightarrow> Request \<Rightarrow> 's \<Rightarrow> episodeFileResource item_answer \<times> 's" where
  "file_delete style h idp e r = with_id style r idp (\<lambda>i. found style file_kind r i (fh_Delete h e i) (\<lambda>_ s. (Status 200, s)))"

definition v3_file_list :: "'s episodeFileHandler \<Rightarrow> dbenv \<Rightarrow> Request \<Rightarrow> 's \<Rightarrow> episodeFileResource item_answer \<times> 's" where
  "v3_file_list = file_list v3_style"

definition v3_file_get :: "'s episodeFileHandler \<Rightarrow> string \<Rightarrow> dbenv \<Rightarrow> Request \<Rightarrow> 's \<Rightarrow> episodeFileResource item_answer \<times> 's" where
  "v3_file_get = file_get v3_style"

definition v3_file_delete :: "'s episodeFileHandler \<Rightarrow> string \<Rightarrow> dbenv \<Rightarrow> Request \<Rightarrow> 's \<Rightarrow> episodeFileResource item_answer \<times> 's" where
  "v3_file_delete = file_delete v3_style"

definition v6_file_list :: "'s episodeFileHandler \<Rightarrow> dbenv \<Rightarrow> Request \<Rightarrow> 's \<Rightarrow> episodeFileResource item_answer \<times> 's" where
  "v6_file_list = file_list v6_style"

definition v6_file_get :: "'s episodeFileHandler \<Rightarrow> string \<Rightarrow> dbenv \<Rightarrow> Request \<Rightarrow> 's \<Rightarrow> episodeFileResource item_answer \<times> 's" where
  "v6_file_get = file_get v6_style"

definition v6_file_delete :: "'s episodeFileHandler \<Rightarrow> string \<Rightarrow> dbenv \<Rightarrow> Request \<Rightarrow> 's \<Rightarrow> episodeFileResource item_answer \<times> 's" where
  "v6_file_delete = file_delete v6_style"

subsection \<open>Pages by number\<close>

record 'b paged =
  pd_Page :: int
  pd_PageSize :: int
  pd_SortKey :: string
  pd_SortDirection :: string
  pd_TotalRecords :: int
  pd_Records :: "'b list"

definition positive_or :: "int \<Rightarrow> string \<Rightarrow> int" where
  "positive_or d p = (if p = '''' then d else case Atoi p of Inl _ \<Rightarrow> d | Inr v \<Rightarrow> if v > 0 then v else d)"

definition text_or :: "string \<Rightarrow> string \<Rightarrow> string" where
  "text_or d t = (if t = '''' then d else t)"

text \<open>\<open>xs[offset:end]\<close>; the bounds that the handlers compute never exceed the length.\<close>

definition slice :: "int \<Rightarrow> int \<Rightarrow> 'a list \<Rightarrow> 'a list option" where
  "slice a b xs = (if 0 \<le> a \<and> a \<le> b \<and> b \<le> int (length xs) then Some (take (nat (b - a)) (drop (nat a) xs)) else None)"

definition numbered_page :: "int \<Rightarrow> int \<Rightarrow> 'a list \<Rightarrow> 'a list option" where
  "numbered_page page pageSize xs =
     (let total = int (length xs);
          offset = wrap64 (wrap64 (page - 1) * pageSize);
          offset = (if offset \<ge> total then total else offset);
          stop = wrap64 (offset + pageSize);
          stop = (if stop > total then total else stop)
      in slice offset stop xs)"

definition paged_answer :: "string \<Rightarrow> Request \<Rightarrow> ('a \<Rightarrow> 'b) \<Rightarrow> 'a list \<Rightarrow> 'b paged v6_answer option" where
  "paged_answer key r f xs =
     (let page = positive_or 1 (rq_Query r ''page''); pageSize = positive_or 20 (rq_Query r ''pageSize'') in
      map_option (\<lambda>ys. Json 200 \<lparr>pd_Page = page, pd_PageSize = pageSize, pd_SortKey = text_or key (rq_Query r ''sortKey''),
        pd_SortDirection = text_or ''descending'' (rq_Query r ''sortDirection''), pd_TotalRecords = int (length xs), pd_Records = map f ys\<rparr>)
        (numbered_page page pageSize xs))"

definition v3_history_list :: "'s HistoryStore \<Rightarrow> dbenv \<Rightarrow> Request \<Rightarrow> 's \<Rightarrow> historyResource paged v6_answer option \<times> 's" where
  "v3_history_list h e r s = (case hs_ListAll h e s of
     (Inl _, s1) \<Rightarrow> (Some (Problem (as_failed v3_style r)), s1)
   | (Inr xs, s1) \<Rightarrow> (paged_answer ''date'' r toHistoryResource xs, s1))"

text \<open>The two listings of wanted episodes take all episodes of the store and keep the monitored ones without, or with, a file.\<close>

definition wanted_missing :: "(dbenv \<Rightarrow> ('s, Episode list) act) \<Rightarrow> dbenv \<Rightarrow> Request \<Rightarrow> 's \<Rightarrow> episodeResource paged v6_answer option \<times> 's" where
  "wanted_missing all e r s = (case all e s of
     (Inl _, s1) \<Rightarrow> (Some (Problem (as_failed v3_style r)), s1)
   | (Inr xs, s1) \<Rightarrow> (paged_answer ''airDateUtc'' r toEpisodeResource (filter (\<lambda>x. ep_Monitored x \<and> ep_EpisodeFileID x = None) xs), s1))"

definition wanted_cutoffUnmet :: "(dbenv \<Rightarrow> ('s, Episode list) act) \<Rightarrow> dbenv \<Rightarrow> Request \<Rightarrow> 's \<Rightarrow> episodeResource paged v6_answer option \<times> 's" where
  "wanted_cutoffUnmet all e r s = (case all e s of
     (Inl _, s1) \<Rightarrow> (Some (Problem (as_failed v3_style r)), s1)
   | (Inr xs, s1) \<Rightarrow> (paged_answer ''airDateUtc'' r toEpisodeResource (filter (\<lambda>x. ep_Monitored x \<and> ep_EpisodeFileID x \<noteq> None) xs), s1))"

subsection \<open>The calendar\<close>

text \<open>\<open>time.Parse\<close> with the layout 2006-01-02, to the nanoseconds since 1970. The day number is that of the Gregorian calendar.\<close>

definition leap :: "int \<Rightarrow> bool" where
  "leap y \<longleftrightarrow> y mod 4 = 0 \<and> (y mod 100 \<noteq> 0 \<or> y mod 400 = 0)"

definition days_in :: "int \<Rightarrow> int \<Rightarrow> int" where
  "days_in y m = (if m = 2 then (if leap y then 29 else 28) else if m \<in> {4, 6, 9, 11} then 30 else 31)"

definition day_number :: "int \<Rightarrow> int \<Rightarrow> int \<Rightarrow> int" where
  "day_number y m d =
     (let y' = (if m \<le> 2 then y - 1 else y); m' = (if m \<le> 2 then m + 9 else m - 3)
      in 365 * y' + y' div 4 - y' div 100 + y' div 400 + (153 * m' + 2) div 5 + d - 1 - 719468)"

definition parse_date :: "string \<Rightarrow> int option" where
  "parse_date s =
     (let y = take 4 s; m = take 2 (drop 5 s); d = take 2 (drop 8 s) in
      if length s = 10 \<and> list_all is_digit (y @ m @ d) \<and> s ! 4 = CHR ''-'' \<and> s ! 7 = CHR ''-''
         \<and> 1 \<le> digits_val m \<and> digits_val m \<le> 12 \<and> 1 \<le> digits_val d \<and> int (digits_val d) \<le> days_in (int (digits_val y)) (int (digits_val m))
      then Some (day_number (int (digits_val y)) (int (digits_val m)) (int (digits_val d)) * 86400 * second_ns) else None)"

definition in_window :: "int \<Rightarrow> int \<Rightarrow> Episode \<Rightarrow> bool" where
  "in_window start stop x = (case ep_AirDateUtc x of
     None \<Rightarrow> False
   | Some t \<Rightarrow> \<not> (start \<noteq> zero_time \<and> t < start) \<and> \<not> (stop \<noteq> zero_time \<and> t > stop))"

definition with_date :: "api_style \<Rightarrow> Request \<Rightarrow> string \<Rightarrow> (int \<Rightarrow> 's \<Rightarrow> 'b item_answer \<times> 's) \<Rightarrow> 's \<Rightarrow> 'b item_answer \<times> 's" where
  "with_date style r name k s =
     (if rq_Query r name = '''' then k zero_time s
      else case parse_date (rq_Query r name) of
        None \<Rightarrow> (Problem (as_bad style r (''Invalid '' @ name @ '' date, expected YYYY-MM-DD'')), s)
      | Some t \<Rightarrow> k t s)"

definition end_of_day :: "int \<Rightarrow> int" where
  "end_of_day t = t + 86400 * second_ns - 1"

text \<open>The whole last day is included; a missing end stays the zero time.\<close>

definition calendar_list :: "api_style \<Rightarrow> (dbenv \<Rightarrow> ('s, Episode list) act) \<Rightarrow> dbenv \<Rightarrow> Request \<Rightarrow> 's \<Rightarrow> episodeResource item_answer \<times> 's" where
  "calendar_list style all e r = with_date style r ''start'' (\<lambda>start. with_date style r ''end'' (\<lambda>day.
     managed style r (all e) (\<lambda>xs s.
       (Json 200 (Many (map toEpisodeResource (filter (in_window start (if rq_Query r ''end'' = '''' then zero_time else end_of_day day)) xs))), s))))"

definition v3_calendar_list :: "(dbenv \<Rightarrow> ('s, Episode list) act) \<Rightarrow> dbenv \<Rightarrow> Request \<Rightarrow> 's \<Rightarrow> episodeResource item_answer \<times> 's" where
  "v3_calendar_list = calendar_list v3_style"

definition v6_calendar_list :: "(dbenv \<Rightarrow> ('s, Episode list) act) \<Rightarrow> dbenv \<Rightarrow> Request \<Rightarrow> 's \<Rightarrow> episodeResource item_answer \<times> 's" where
  "v6_calendar_list = calendar_list v6_style"

subsection \<open>Commands\<close>

record commandResource =
  cc_ID :: int
  cc_Name :: string
  cc_CommandName :: string
  cc_Status :: string
  cc_Queued :: "int option"
  cc_Started :: "int option"
  cc_Ended :: "int option"
  cc_Duration :: string
  cc_Trigger :: string
  cc_Message :: string
  cc_Body :: string
  cc_Priority :: string

fun camel_rest :: "string \<Rightarrow> string" where
  "camel_rest [] = []"
| "camel_rest (b # s) = (if is_upper b then CHR '' '' # b # camel_rest s else b # camel_rest s)"

definition camelToWords :: "string \<Rightarrow> string" where
  "camelToWords s = (case s of [] \<Rightarrow> [] | b # t \<Rightarrow> b # camel_rest t)"

text \<open>The hours, minutes and seconds are truncated towards zero. The floating-point numbers that \<open>Hours\<close>, \<open>Minutes\<close> and \<open>Seconds\<close> return are near
  enough to the quotients for this to be the integer division.\<close>

definition trunc_div :: "int \<Rightarrow> int \<Rightarrow> int" where
  "trunc_div a b = sgn a * (\<bar>a\<bar> div b)"

definition trunc_mod :: "int \<Rightarrow> int \<Rightarrow> int" where
  "trunc_mod a b = a - b * trunc_div a b"

definition show_duration :: "int option \<Rightarrow> string" where
  "show_duration ms = (case ms of
     None \<Rightarrow> ''00:00:00''
   | Some n \<Rightarrow> (let d = wrap64 (n * 1000000) in
       pad2 (trunc_div d (3600 * second_ns)) @ '':'' @ pad2 (trunc_mod (trunc_div d (60 * second_ns)) 60) @ '':'' @ pad2 (trunc_mod (trunc_div d second_ns) 60)))"

definition priority_name :: "Priority \<Rightarrow> string" where
  "priority_name p = (if p = PriorityHigh then ''high'' else if p = PriorityLow then ''low'' else ''normal'')"

definition toCommandResource :: "Command \<Rightarrow> commandResource" where
  "toCommandResource c = \<lparr>cc_ID = cmd_ID c, cc_Name = cmd_Name c, cc_CommandName = camelToWords (cmd_Name c), cc_Status = cmd_Status c,
     cc_Queued = formatTime (cmd_QueuedAt c), cc_Started = Option.bind (cmd_StartedAt c) formatTime, cc_Ended = Option.bind (cmd_EndedAt c) formatTime,
     cc_Duration = show_duration (cmd_DurationMs c), cc_Trigger = cmd_Trigger c, cc_Message = cmd_Message c,
     cc_Body = settings_or ''{}'' (cmd_Body c), cc_Priority = priority_name (cmd_Priority c)\<rparr>"

definition command_kind :: "(Command, commandResource) item_kind" where
  "command_kind = \<lparr>ik_label = ''command'', ik_missing = ErrCommandNotFound, ik_show = toCommandResource\<rparr>"

record commandEnqueueInput =
  jc_Name :: string
  jc_Body :: RawMessage

definition read_command :: "Request \<Rightarrow> (string, string \<times> string) result" where
  "read_command r = (case Decode_raw [(''name'', val_fld jc_Name jc_Name_update dec_string), (''body'', raw_fld jc_Body_update)] (rq_Body r)
       \<lparr>jc_Name = '''', jc_Body = None\<rparr> of
     Inl _ \<Rightarrow> Inl ''Invalid request body''
   | Inr x \<Rightarrow> if jc_Name x = '''' then Inl ''name is required'' else Inr (jc_Name x, settings_or ''{}'' (jc_Body x)))"

definition command_enqueue :: "api_style \<Rightarrow> 's Queue \<Rightarrow> dbenv \<Rightarrow> Request \<Rightarrow> 's \<Rightarrow> commandResource item_answer \<times> 's" where
  "command_enqueue style q e r = with_body style r (read_command r) (\<lambda>(name, body).
     managed style r (q_Enqueue q e name (Some body) PriorityNormal TriggerManual '''') (\<lambda>c s. (Json 201 (One (toCommandResource c)), s)))"

definition command_list :: "api_style \<Rightarrow> 's Queue \<Rightarrow> dbenv \<Rightarrow> Request \<Rightarrow> 's \<Rightarrow> commandResource item_answer \<times> 's" where
  "command_list style q e r = managed style r (q_ListRecent q e 50) (\<lambda>cs s. (Json 200 (Many (map toCommandResource cs)), s))"

definition command_get :: "api_style \<Rightarrow> 's Queue \<Rightarrow> string \<Rightarrow> dbenv \<Rightarrow> Request \<Rightarrow> 's \<Rightarrow> commandResource item_answer \<times> 's" where
  "command_get style q idp e r = with_id style r idp (\<lambda>i. found style command_kind r i (q_Get q e i)
     (\<lambda>c s. (Json 200 (One (toCommandResource c)), s)))"

definition v3_command_enqueue :: "'s Queue \<Rightarrow> dbenv \<Rightarrow> Request \<Rightarrow> 's \<Rightarrow> commandResource item_answer \<times> 's" where
  "v3_command_enqueue = command_enqueue v3_style"

definition v3_command_list :: "'s Queue \<Rightarrow> dbenv \<Rightarrow> Request \<Rightarrow> 's \<Rightarrow> commandResource item_answer \<times> 's" where
  "v3_command_list = command_list v3_style"

definition v3_command_get :: "'s Queue \<Rightarrow> string \<Rightarrow> dbenv \<Rightarrow> Request \<Rightarrow> 's \<Rightarrow> commandResource item_answer \<times> 's" where
  "v3_command_get = command_get v3_style"

definition v6_command_enqueue :: "'s Queue \<Rightarrow> dbenv \<Rightarrow> Request \<Rightarrow> 's \<Rightarrow> commandResource item_answer \<times> 's" where
  "v6_command_enqueue = command_enqueue v6_style"

definition v6_command_list :: "'s Queue \<Rightarrow> dbenv \<Rightarrow> Request \<Rightarrow> 's \<Rightarrow> commandResource item_answer \<times> 's" where
  "v6_command_list = command_list v6_style"

definition v6_command_get :: "'s Queue \<Rightarrow> string \<Rightarrow> dbenv \<Rightarrow> Request \<Rightarrow> 's \<Rightarrow> commandResource item_answer \<times> 's" where
  "v6_command_get = command_get v6_style"

subsection \<open>The application\<close>

text \<open>The handlers over the SQLite stores of the library and the SQLite queue.\<close>

definition on_lib :: "('s, 'a) act \<Rightarrow> ('s \<times> 'q, 'a) act" where
  "on_lib m = (\<lambda>(s, q). let (r, s') = m s in (r, (s', q)))"

definition on_queue :: "('q, 'a) act \<Rightarrow> ('s \<times> 'q, 'a) act" where
  "on_queue m = (\<lambda>(s, q). let (r, q') = m q in (r, (s, q')))"

definition seriesCommandEnqueuer_Enqueue :: "'q Queue \<Rightarrow> dbenv \<Rightarrow> string \<Rightarrow> json \<Rightarrow> ('q, unit) act" where
  "seriesCommandEnqueuer_Enqueue q e name body = mapA (\<lambda>_. ()) (q_Enqueue q e name (Some (print_json body)) PriorityNormal TriggerManual '''')"

definition app_series :: "(library_db \<times> SqCommand table) seriesHandler" where
  "app_series = (let h = sqlite_seriesHandler in \<lparr>
     h_series = \<lparr>srs_Create = (\<lambda>e x. on_lib (srs_Create (h_series h) e x)), srs_Get = (\<lambda>e i. on_lib (srs_Get (h_series h) e i)),
       srs_List = (\<lambda>e. on_lib (srs_List (h_series h) e)), srs_Update = (\<lambda>e x. on_lib (srs_Update (h_series h) e x)),
       srs_Delete = (\<lambda>e i. on_lib (srs_Delete (h_series h) e i))\<rparr>,
     h_seasons = \<lparr>sns_Upsert = (\<lambda>e x. on_lib (sns_Upsert (h_seasons h) e x)), sns_ListForSeries = (\<lambda>e i. on_lib (sns_ListForSeries (h_seasons h) e i))\<rparr>,
     h_stats_Get = (\<lambda>e i. on_lib (h_stats_Get h e i))\<rparr>)"

definition app_series_v3 :: "(library_db \<times> SqCommand table) seriesHandler_v3" where
  "app_series_v3 = \<lparr>v3_base = app_series,
     v3_sink = (\<lambda>e. \<lparr>ms_ListForSeries = (\<lambda>i. on_lib (ms_ListForSeries (sqlite_sink e) i)), ms_SetMonitored = (\<lambda>i b. on_lib (ms_SetMonitored (sqlite_sink e) i b))\<rparr>),
     v3_Enqueue = (\<lambda>e name body. on_queue (seriesCommandEnqueuer_Enqueue sqliteQueue e name body))\<rparr>"


subsection \<open>What a page shows\<close>

lemma wrap64_cases:
  assumes "0 \<le> x" "x < 2 ^ 64"
  shows "wrap64 x = (if x < 2 ^ 63 then x else x - 2 ^ 64)"
proof (cases "x < 2 ^ 63")
  case False
  have "(x + 2 ^ 63) mod 2 ^ 64 = (x + 2 ^ 63 - 2 ^ 64) mod 2 ^ 64" by (rule minus_mod_self2 [symmetric])
  also have "\<dots> = x + 2 ^ 63 - 2 ^ 64" using False assms by (intro mod_pos_pos_trivial) simp_all
  finally show ?thesis using False by (simp add: wrap64_def)
qed (use assms in \<open>simp add: int64_range_def\<close>)

lemma numbered_page_eq:
  assumes "0 < page" "0 < n" "int64_range page" "int64_range n" "int (length xs) < 2 ^ 63"
  shows "numbered_page page n xs =
    (let offset = wrap64 ((page - 1) * n) in
     if offset < 0 \<or> 2 ^ 63 \<le> min offset (int (length xs)) + n then None else Some (take (nat n) (drop (nat offset) xs)))"
proof -
  define off where "off = wrap64 ((page - 1) * n)"
  define a where "a = min off (int (length xs))"
  have page: "wrap64 (page - 1) = page - 1" using assms(1,3) by (intro wrap64_id) (simp add: int64_range_def)
  have "(if off \<ge> int (length xs) then int (length xs) else off) = a" by (simp add: a_def)
  then have eq: "numbered_page page n xs = slice a (let stop = wrap64 (a + n) in if stop > int (length xs) then int (length xs) else stop) xs"
    unfolding numbered_page_def page off_def [symmetric] Let_def by simp
  show ?thesis
  proof (cases "off < 0")
    case True
    then show ?thesis by (simp add: eq slice_def a_def off_def Let_def)
  next
    case False
    then have "0 \<le> a + n" "a + n < 2 ^ 64" using assms(2,4,5) by (auto simp: a_def int64_range_def)
    note w = wrap64_cases [OF this]
    show ?thesis
    proof (cases "2 ^ 63 \<le> a + n")
      case True
      then have "wrap64 (a + n) < 0" using w assms(4,5) by (auto simp: a_def int64_range_def)
      then show ?thesis using True False by (simp add: eq slice_def a_def off_def Let_def)
    next
      case less: False
      have "slice a (if a + n > int (length xs) then int (length xs) else a + n) xs = Some (take (nat n) (drop (nat off) xs))"
        using False assms(2) by (auto simp: slice_def a_def min_def)
      then show ?thesis using less False w by (simp add: eq off_def [symmetric] a_def [symmetric] Let_def)
    qed
  qed
qed


lemma positive_or_show: "int64_range v \<Longrightarrow> 0 < v \<Longrightarrow> positive_or d (show_int v) = v"
  using Atoi_show_int [of v] show_int_nonempty [of v] by (simp add: positive_or_def)

text \<open>C40: A page of the history listing is the entries from its offset on, as many as the page holds, where the offset is computed in 64-bit
  arithmetic; the handler panics exactly when the offset wraps around to a negative number or the end of the page exceeds the 64-bit range. Large page numbers
  and sizes in the query do this.\<close>

theorem v3_history_page:
  assumes "hs_ListAll h e s = (Inr xs, s1)" "int (length xs) < 2 ^ 63"
    and "rq_Query r ''page'' = show_int page" "0 < page" "int64_range page"
    and "rq_Query r ''pageSize'' = show_int n" "0 < n" "int64_range n"
  shows "fst (v3_history_list h e r s) =
    (let offset = wrap64 ((page - 1) * n) in
     if offset < 0 \<or> 2 ^ 63 \<le> min offset (int (length xs)) + n then None
     else Some (Json 200 \<lparr>pd_Page = page, pd_PageSize = n, pd_SortKey = text_or ''date'' (rq_Query r ''sortKey''),
        pd_SortDirection = text_or ''descending'' (rq_Query r ''sortDirection''), pd_TotalRecords = int (length xs),
        pd_Records = map toHistoryResource (take (nat n) (drop (nat offset) xs))\<rparr>))"
  using assms numbered_page_eq [OF assms(4,7,5,8,2)]
  by (simp add: v3_history_list_def paged_answer_def positive_or_show Let_def)

definition demo_page :: "int \<Rightarrow> int \<Rightarrow> Request" where
  "demo_page page n = demo_post\<lparr>rq_Query := (\<lambda>k. if k = ''page'' then show_int page else if k = ''pageSize'' then show_int n else '''')\<rparr>"

theorem v3_history_page_witness:
  "fst (v3_history_list sqliteHistory (quiet_at 0) (demo_page 2 9223372036854775807) demo_history) = None
   \<and> map_option answer_status (fst (v3_history_list sqliteHistory (quiet_at 0) (demo_page 2 3) demo_history)) = Some 200"
proof -
  have all: "hs_ListAll sqliteHistory (quiet_at 0) demo_history = (Inr (map historyFromSQLite (rev (rows demo_history))), demo_history)"
    using sqlite_history_order [of "quiet_at 0" demo_history] by (simp add: sqliteHistory_def demo_history_def)
  have len: "length (map historyFromSQLite (rev (rows demo_history))) = 4" by (simp add: demo_history_def)
  have q: "rq_Query (demo_page p n) ''page'' = show_int p" "rq_Query (demo_page p n) ''pageSize'' = show_int n" for p n
    by (simp_all add: demo_page_def)
  have w: "wrap64 ((2 - 1) * 9223372036854775807) = 9223372036854775807" "wrap64 ((2 - 1) * 3) = 3" by code_simp+
  have "fst (v3_history_list sqliteHistory (quiet_at 0) (demo_page 2 9223372036854775807) demo_history) = None"
    using v3_history_page [OF all, of "demo_page 2 9223372036854775807" 2 9223372036854775807] len w q by (simp add: int64_range_def)
  moreover have "map_option answer_status (fst (v3_history_list sqliteHistory (quiet_at 0) (demo_page 2 3) demo_history)) = Some 200"
    using v3_history_page [OF all, of "demo_page 2 3" 2 3] len w q by (simp add: int64_range_def)
  ultimately show ?thesis by simp
qed

subsection \<open>Adding a series\<close>

lemma upsert_keeps_episodes:
  assumes "quiet e"
  shows "db_episodes (snd (sqliteSeasons_Upsert (app_publish e) e sn d)) = db_episodes d"
  using assms by (auto simp: sqliteSeasons_Upsert_def lib_stmt_defs act_defs publishing_def app_publish_eq require_def split: if_splits)

lemma app_upserts:
  "quiet e \<Longrightarrow> \<exists>d'. input_upserts app_series e i ns (d, q) = (d', q) \<and> db_episodes d' = db_episodes d"
proof (induction ns arbitrary: d)
  case (Cons n ns)
  let ?sn = "\<lparr>sea_SeriesID = i, sea_SeasonNumber = wrap32 (ni_SeasonNumber n), sea_Monitored = ni_Monitored n\<rparr>"
  obtain u d1 where u: "sqliteSeasons_Upsert (app_publish e) e ?sn d = (u, d1)" by fastforce
  then have "db_episodes d1 = db_episodes d" using upsert_keeps_episodes [OF Cons.prems, of ?sn d] by simp
  moreover have "snd (sns_Upsert (h_seasons app_series) e ?sn (d, q)) = (d1, q)"
    using u by (simp add: app_series_def Let_def on_lib_def sqlite_seriesHandler_def)
  ultimately show ?case using Cons.IH [OF Cons.prems, of d1] by simp
qed simp

lemma no_episodes_no_rule:
  assumes "quiet e" "\<forall>r\<in>set (rows (db_episodes d)). sp_SeriesID r \<noteq> i"
  shows "snd (ApplyMonitorMode (v3_sink app_series_v3 e) now i mode (d, q)) = (d, q)"
proof -
  have "filter (\<lambda>r. sp_SeriesID r = i) (rows (db_episodes d)) = []" using assms(2) by (simp add: filter_empty_conv)
  then show ?thesis using assms(1)
    by (simp add: ApplyMonitorMode_def app_series_v3_def sqlite_sink_def on_lib_def sqliteEpisodes_ListForSeries_def sqlite_ListEpisodesForSeries_def
        act_defs lift_defs sql_many_def)
qed

lemma created_series_empty:
  assumes "catalog_inv {} d" "quiet e" "sqliteSeries_Create (app_publish e) e x d = (Inr y, d1)"
  shows "db_episodes d1 = db_episodes d \<and> (\<forall>r\<in>set (rows (db_episodes d)). sp_SeriesID r \<noteq> se_ID y)"
proof -
  have "se_ID y = next_id (db_series d) \<and> db_episodes d1 = db_episodes d"
    using assms(2,3)
    by (auto simp: sqliteSeries_Create_def lib_stmt_defs act_defs lift_defs publishing_def app_publish_eq sql_insert_def seriesFromSqlite_def split: if_splits)
  moreover have "sp_SeriesID r \<noteq> next_id (db_series d)" if "r \<in> set (rows (db_episodes d))" for r
    using assms(1) that by (fastforce simp: catalog_inv_def tables_ok_def refs_ok_def has_series_def wf_table_def dest!: tbl_SomeD)
  ultimately show ?thesis by auto
qed


lemma create_with_options:
  assumes "catalog_inv {} d" "quiet e"
    and "bindR (read_series_v3 r) check_mode = Inr x" "si_AddOptions x = Some a"
  shows "v3_series_create fl app_series_v3 e r (d, q) =
    (case sqliteSeries_Create (app_publish e) e (new_series_v3 x) d of
       (Inl _, d1) \<Rightarrow> (Problem (as_failed v3_style r), (d1, q))
     | (Inr y, d1) \<Rightarrow>
         (let d2 = fst (input_upserts app_series e (se_ID y) (input_seasons (seriesInput.truncate x)) (d1, q));
              q2 = (if ao_SearchForMissingEpisodes a
                    then snd (seriesCommandEnqueuer_Enqueue sqliteQueue e ''SeriesSearch'' (JObj [(''seriesId'', json_int (se_ID y))]) q) else q);
              (seasons, s3) = seasons_or_none app_series e (se_ID y) (d2, q2)
          in (Json 201 (One (toResource_v3 fl y seasons None)), s3)))"
proof -
  obtain c d1 where c: "sqliteSeries_Create (app_publish e) e (new_series_v3 x) d = (c, d1)" by fastforce
  have create: "srs_Create (h_series (v3_base app_series_v3)) e (new_series_v3 x) (d, q) = (c, (d1, q))"
    using c by (simp add: app_series_v3_def app_series_def Let_def on_lib_def sqlite_seriesHandler_def)
  show ?thesis
  proof (cases c)
    case (Inl err)
    then show ?thesis using assms(3) create c by (simp add: v3_series_create_def with_body_def managed_def)
  next
    case (Inr y)
    note empty = created_series_empty [OF assms(1,2) c [unfolded Inr]]
    obtain d2 where d2: "input_upserts app_series e (se_ID y) (input_seasons (seriesInput.truncate x)) (d1, q) = (d2, q)" "db_episodes d2 = db_episodes d1"
      using app_upserts [OF assms(2)] by blast
    have none: "\<forall>r\<in>set (rows (db_episodes d2)). sp_SeriesID r \<noteq> se_ID y" using empty d2(2) by simp
    have "apply_add_options app_series_v3 e (se_ID y) (si_AddOptions x) (d2, q) = (d2, if ao_SearchForMissingEpisodes a
        then snd (seriesCommandEnqueuer_Enqueue sqliteQueue e ''SeriesSearch'' (JObj [(''seriesId'', json_int (se_ID y))]) q) else q)"
      unfolding apply_add_options_def assms(4) option.case Let_def no_episodes_no_rule [OF assms(2) none]
      by (simp add: app_series_v3_def on_queue_def case_prod_beta)
    moreover have "v3_base app_series_v3 = app_series" by (simp add: app_series_v3_def)
    ultimately show ?thesis using assms(3) create c d2(1) Inr
      by (simp add: v3_series_create_def with_body_def managed_def Let_def)
  qed
qed

text \<open>C39: The monitor rule of \<open>addOptions\<close> has no effect. Two requests that add the same series and differ only in a valid rule get the same answer and leave
  the same library and the same queue: the rule is applied before the new series has any episode, and it is not stored.\<close>

theorem v3_monitor_rule_inert:
  assumes "catalog_inv {} d" "quiet e"
    and "read_series_v3 r = Inr x" "si_AddOptions x = Some a" "ao_Monitor a \<in> set validMonitorModes"
    and "read_series_v3 r' = Inr (x\<lparr>si_AddOptions := Some (a\<lparr>ao_Monitor := mode\<rparr>)\<rparr>)" "mode \<in> set validMonitorModes"
  shows "v3_series_create fl app_series_v3 e r (d, q) = v3_series_create fl app_series_v3 e r' (d, q)"
proof -
  let ?a = "a\<lparr>ao_Monitor := mode\<rparr>"
  let ?x = "x\<lparr>si_AddOptions := Some ?a\<rparr>"
  have b: "bindR (read_series_v3 r) check_mode = Inr x" "bindR (read_series_v3 r') check_mode = Inr ?x"
    using assms(3-7) by (simp_all add: check_mode_def)
  have same: "new_series_v3 ?x = new_series_v3 x" "seriesInput.truncate ?x = seriesInput.truncate x"
      "ao_SearchForMissingEpisodes ?a = ao_SearchForMissingEpisodes a" "as_failed v3_style r' = as_failed v3_style r"
    by (simp_all add: new_series_v3_def seriesInput.truncate_def v3_style_def)
  have "si_AddOptions ?x = Some ?a" by simp
  note with_rule = create_with_options [OF assms(1,2) b(2) this, unfolded same]
  show ?thesis unfolding with_rule create_with_options [OF assms(1,2) b(1) assms(4)] ..
qed

definition demo_add :: "string \<Rightarrow> Request" where
  "demo_add mode = demo_post\<lparr>rq_Body := print_json (JObj [(''title'', JStr ''A Show''), (''tvdbId'', json_int 7), (''monitored'', JBool True),
     (''addOptions'', JObj [(''monitor'', JStr mode)])])\<rparr>"

definition demo_input :: "string \<Rightarrow> seriesInput_v3" where
  "demo_input mode = \<lparr>si_Title = ''A Show'', si_TvdbID = 7, si_Slug = '''', si_Status = '''', si_SeriesType = '''', si_Path = '''', si_Monitored = True,
     si_Seasons = None, si_QualityProfileID = 0, si_SeasonFolder = None, si_MonitorNewItems = '''',
     si_AddOptions = Some \<lparr>ao_Monitor = mode, ao_SearchForMissingEpisodes = False, ao_SearchForCutoffUnmetEpisodes = False\<rparr>\<rparr>"

theorem v3_monitor_rule_inert_witness:
  "read_series_v3 (demo_add ''all'') = Inr (demo_input ''all'') \<and> read_series_v3 (demo_add ''none'') = Inr (demo_input ''none'')
   \<and> v3_series_create (\<lambda>x. x) app_series_v3 (quiet_at 0) (demo_add ''all'') (empty_library [], empty_table)
     = v3_series_create (\<lambda>x. x) app_series_v3 (quiet_at 0) (demo_add ''none'') (empty_library [], empty_table)"
proof -
  have r: "read_series_v3 (demo_add ''all'') = Inr (demo_input ''all'')" "read_series_v3 (demo_add ''none'') = Inr (demo_input ''none'')"
    by code_simp+
  have x: "demo_input ''none'' = (demo_input ''all'')\<lparr>si_AddOptions := Some ((\<lparr>ao_Monitor = ''all'', ao_SearchForMissingEpisodes = False,
      ao_SearchForCutoffUnmetEpisodes = False\<rparr>)\<lparr>ao_Monitor := ''none''\<rparr>)\<rparr>"
    by (simp add: demo_input_def)
  show ?thesis
    using v3_monitor_rule_inert [OF empty_library_inv quiet_quiet_at(1) r(1) _ _ r(2) [unfolded x]] r
    by (simp add: demo_input_def validMonitorModes_def)
qed


end
