(* ===== verification/Spec2Isabelle.thy ===== *)
theory Spec2Isabelle
  imports Parser Organizer DecisionEngine Worker LibrarySqlite Importer Housekeeping Scheduler RssSync RefreshSeries Realtime SqlitePool Tags RootFolders RecycleBin AutoTag SceneMapping ProfileStores Auth Blocklist RemotePaths LibraryPostgres FormatStores ApiV6 ApiConfig ApiV3
begin

text \<open>
  sonarr2 watches for new episodes of television series, decides which releases to take, hands them to download clients, and files
  the results in a library. It is a Go program (package paths below are under src/). This development models its core as HOL
  functions and proves what makes it correct; the last section lists what is left out and why.

  \<^bold>\<open>The program and how its parts interact.\<close> The library (internal/library) is the catalogue of series, seasons, episodes, files and
  statistics. Stores publish events on a bus (internal/events); the application subscribes the statistics to them and the
  real-time broker (internal/realtime), which relays them to connected clients. Work is a command in a persistent queue (internal/commands):
  the scheduler (internal/scheduler) enqueues the tasks that are due, the API enqueues on request, and a pool of workers claims commands
  under leases and runs their handlers. The handler of RSS synchronisation (internal/rsssync) reads the feeds of the indexers, parses the titles
  (internal/parser), matches them with the library, asks the decision engine (internal/decisionengine, with the rules of
  internal/profiles, customformats, releaseprofile, delayprofile and blocklist), ranks what is accepted and grabs the best release of each
  episode (internal/grab) through a download client. The handler that polls the downloads enqueues the processing of what is complete; the importer
  (internal/importer) moves the files under the name the organizer (internal/organizer) builds, and records the file and the history
  (internal/history). Refreshing takes titles, seasons and episodes from a cached metadata source (internal/providers/metadatasource).
  Housekeeping, the recycle bin and the start-up backfills keep the data tidy. Every store has a SQLite and a Postgres implementation (internal/db);
  the API (internal/api) is behind a guard of API keys and sessions (internal/auth, internal/hostconfig).

  \<^bold>\<open>Conventions.\<close> A struct is a record, an interface a record of operations, and a call that can fail returns \<open>store_error + 'a\<close>.
  Stateful code is an action \<open>'s \<Rightarrow> (store_error + 'a) \<times> 's\<close> (theory Sql_Store); statements are actions on tables, with the
  text of the SQL in internal/db/gen as their source. What is outside decides, per call, in \<open>dbenv\<close>: the clock, which statements fail, and how a write of the
  SQLite pool ends; \<open>quiet\<close> environments are those in which nothing fails. Go's int and int64 are \<open>int\<close> with wrap-around (\<open>wrap64\<close>) where a computation can
  overflow; the 32-bit columns of Postgres narrow with \<open>wrap32\<close>, without a check, as the stores do. Strings are byte strings. Instants are
  nanoseconds; SQLite keeps seconds (\<open>sq_gran\<close>), Postgres microseconds (\<open>pg_gran\<close>). One call reads the clock once.

  Code that is not under src/ is a parameter: \<open>jsonb\<close> (what Postgres makes of a JSON text), \<open>collate\<close> (its order of text), \<open>ts\<close> (the text the SQLite driver writes for a time), \<open>compile\<close> (regular expressions
  of the user), \<open>visit\<close> (the order of Go's iteration over a map), \<open>fsenv\<close> (the failures of the file system), \<open>zone\<close> (the local time zone), \<open>bcrypt\<close>, and the
  operations of indexers, download clients and metadata providers. What a theorem needs of one is a named hypothesis, \<open>keeps_json\<close> for instance.

  \<^bold>\<open>The theories.\<close>
  \<^item> Prelude, Sql_Store, Sqlite_Time, Postgres_Types, Stable_Sort, Go_Strings, Go_Regexp, Go_Json, Go_Os, Http: results, tables and statements, and
    the parts of Go's library the sources use. Go_Json has \<open>encoding/json\<close> with the round trip of printing and parsing, Go_Regexp the backtracking-free
    matching the parser relies on, Go_Os paths and a file system.
  \<^item> Parser, Organizer: \<open>ParseTitle\<close> never panics and its numbers are in range; \<open>BuildFilename\<close> and the parser are inverse to each other.
  \<^item> Profiles, CustomFormats, DecisionEngine: the rules and the engine of ten specifications; which releases it accepts, and that ranking sorts
    by the documented criteria and is stable.
  \<^item> Commands, CommandsSqlite, CommandsPostgres, Worker: the queue, its contract (locale \<open>command_queue\<close>), leases and the worker loop as a transition system: no
    two workers run the same command while its lease is valid, and the queue is drained.
  \<^item> Scheduler, Handlers, RefreshSeries, Housekeeping: the tick and the command handlers, each with what it does to every store it touches.
  \<^item> Events, Library, LibrarySqlite, LibraryPostgres: the bus and the catalogue on both engines; references are never dangling and statistics never stale, for every sequence of
    calls. The Postgres stores simulate the SQLite ones, request by request, so their consistency is inherited.
  \<^item> History, Grab, RssSync, Importer, Metadata: the path of a release from the feed to the library.
  \<^item> SqlitePool, Realtime: the concurrent parts as step relations: the write pool serialises its callbacks and ends, the broker's clients are accounted for.
  \<^item> Crud_Store, Keyed_Store, Providers, Tags, RootFolders, ProfileStores, FormatStores, RemotePaths, Blocklist: the stores of configuration items; each is an instance of an abstract store, so any sequence of calls gives the
    results of the specification, on both engines.
  \<^item> HostConfig, Auth: the guard of the API and what it rests on: a request passes only with the API key or a live session that a login with the
    right password made.
  \<^item> ApiV6: cursors and pages, and the handlers of series, episodes and history of version 6 of the API: no request makes the catalogue inconsistent, a
    refused one changes nothing, and what a client that follows the cursors gets to see.
  \<^item> ApiConfig: the handlers of the configuration items in both versions of the API: any sequence of requests over either database is answered as over
    the ideal store.
  \<^item> ApiV3: the series, episode, history and wanted handlers of version 3 and the file, calendar and command handlers of both versions; a page of the history
    is its place in the listing, or a panic exactly when the 64-bit bounds wrap; the monitor rule of a new series has no effect.
  \<^item> RecycleBin, AutoTag, SceneMapping: the recycle bin on the file system, and the pure matching rules of tags and scene names.

  Interfaces are locales (\<open>command_queue\<close>, \<open>history_store\<close>, \<open>table_store\<close>, \<open>decoded_store\<close>, \<open>keyed_store\<close>, \<open>host_store\<close>, \<open>auth_stores\<close>, \<open>blocklist_store\<close>, \<open>catalogue_stores\<close> and others): the client's lemmas are proved
  there once, and the interpretations discharge the laws for the model of each engine. A property is stated over the model's definitions and reaches those lemmas through an interpretation.

  \<^bold>\<open>Bounds and termination.\<close> Loops over lists are structural recursion; loops with another measure (the title scanners, JSON, path cleaning) are \<open>function\<close>s with
  termination proofs. There is no fuel in the model of sequential code. The worker and the pool are transition systems, with termination or draining proved of
  them. Identifiers are unbounded numbers, where SERIAL columns end at two to the 31.

  \<^bold>\<open>Not modelled.\<close> Logging and metrics; the texts of errors from encoding/json and encoding/base64; the order of rows that tie in an ORDER BY, which the model takes from the table; schema migrations and the connection pools beyond
  the SQLite writer (SQL text and drivers); the other handlers of internal/api, which translate between HTTP and the stores; the wiring of internal/app and cmd;
  the import from an existing Sonarr installation (internal/migrate), which copies tables of a foreign schema; the clients of individual indexers, download
  clients, notification services and TVDB, which are HTTP exchanges with other programs, and the metadata writers, health probes, backups, configuration files, file
  watching and update checks, which are input and output around small decisions. PROJECT.json lists each of them.
\<close>

end
